(* ===== verification/Prelude.thy ===== *)
theory Prelude
  imports Main "HOL-Library.Word"
begin

text \<open>
  Shared ground of the development: names for the machine types of the Rust sources, the
  fragment of the Rust standard library the components use (UTF-8 validation, string
  search, decimal formatting, big-endian integers), and the generic lemmas on lists and
  words that the component proofs rest on.

  A Rust \<^verbatim>\<open>String\<close> is its sequence of UTF-8 bytes: it is modelled by \<open>string\<close>, one
  \<open>char\<close> per byte, so that \<open>length\<close> is Rust's \<^verbatim>\<open>len\<close> (a count of bytes). A \<open>u64\<close>,
  \<open>u32\<close>, \<open>u16\<close> or \<open>u8\<close> is a word of that width. A \<open>usize\<close> that is the length of a
  value in memory is a \<open>nat\<close>. A \<^verbatim>\<open>Result<A, E>\<close> is \<open>'e + 'a\<close> with \<open>Inl\<close> for the error.
\<close>

unbundle bit_operations_syntax

type_synonym byte = "8 word"
type_synonym u16 = "16 word"
type_synonym u32 = "32 word"
type_synonym u64 = "64 word"
type_synonym bytes = "byte list"

named_theorems wire_simps \<open>encoders and decoders of fixed-width fields\<close>
named_theorems ok_dests \<open>what a successful result says about its inputs\<close>

section \<open>Strings and bytes\<close>

definition byte_of_char :: "char \<Rightarrow> byte" where
  "byte_of_char c = word_of_nat (of_char c)"

definition char_of_byte :: "byte \<Rightarrow> char" where
  "char_of_byte b = char_of (unat b)"

definition as_bytes :: "string \<Rightarrow> bytes" where
  "as_bytes s = map byte_of_char s"

definition string_of_bytes :: "bytes \<Rightarrow> string" where
  "string_of_bytes bs = map char_of_byte bs"

text \<open>
  \<^verbatim>\<open>std::str::from_utf8\<close>: the well-formed byte sequences of the Unicode standard (no
  overlong forms, no surrogates, nothing above U+10FFFF).
\<close>

definition utf8_cont :: "byte \<Rightarrow> bool" where
  "utf8_cont b \<longleftrightarrow> 0x80 \<le> b \<and> b \<le> 0xBF"

definition utf8_two :: "byte \<Rightarrow> byte \<Rightarrow> bool" where
  "utf8_two a b \<longleftrightarrow> 0xC2 \<le> a \<and> a \<le> 0xDF \<and> utf8_cont b"

definition utf8_three :: "byte \<Rightarrow> byte \<Rightarrow> byte \<Rightarrow> bool" where
  "utf8_three a b c \<longleftrightarrow> utf8_cont c \<and>
     (a = 0xE0 \<and> 0xA0 \<le> b \<and> b \<le> 0xBF
      \<or> 0xE1 \<le> a \<and> a \<le> 0xEC \<and> utf8_cont b
      \<or> a = 0xED \<and> 0x80 \<le> b \<and> b \<le> 0x9F
      \<or> 0xEE \<le> a \<and> a \<le> 0xEF \<and> utf8_cont b)"

definition utf8_four :: "byte \<Rightarrow> byte \<Rightarrow> byte \<Rightarrow> byte \<Rightarrow> bool" where
  "utf8_four a b c d \<longleftrightarrow> utf8_cont c \<and> utf8_cont d \<and>
     (a = 0xF0 \<and> 0x90 \<le> b \<and> b \<le> 0xBF
      \<or> 0xF1 \<le> a \<and> a \<le> 0xF3 \<and> utf8_cont b
      \<or> a = 0xF4 \<and> 0x80 \<le> b \<and> b \<le> 0x8F)"

fun utf8_valid :: "bytes \<Rightarrow> bool" where
  "utf8_valid [] = True"
| "utf8_valid (a # r) =
     (if a < 0x80 then utf8_valid r
      else case r of [] \<Rightarrow> False | b # r1 \<Rightarrow>
        (if utf8_two a b then utf8_valid r1
         else case r1 of [] \<Rightarrow> False | c # r2 \<Rightarrow>
           (if utf8_three a b c then utf8_valid r2
            else case r2 of [] \<Rightarrow> False | d # r3 \<Rightarrow>
              utf8_four a b c d \<and> utf8_valid r3)))"

text \<open>What every Rust \<^verbatim>\<open>&str\<close> satisfies.\<close>

definition is_str :: "string \<Rightarrow> bool" where
  "is_str s \<longleftrightarrow> utf8_valid (as_bytes s)"

definition from_utf8 :: "bytes \<Rightarrow> string option" where
  "from_utf8 bs = (if utf8_valid bs then Some (string_of_bytes bs) else None)"

lemma char_of_byte_of_char [simp]: "char_of_byte (byte_of_char c) = c"
proof -
  have "(of_char c :: nat) < 256" by simp
  then show ?thesis
    by (simp add: char_of_byte_def byte_of_char_def unat_of_nat take_bit_nat_eq_self)
qed

lemma byte_of_char_of_byte [simp]: "byte_of_char (char_of_byte b) = b"
proof -
  have "unat b < 256" using unsigned_less [of b] by simp
  then show ?thesis
    by (simp add: char_of_byte_def byte_of_char_def of_char_of)
qed

lemma as_bytes_of_bytes [simp]: "as_bytes (string_of_bytes bs) = bs"
  by (simp add: as_bytes_def string_of_bytes_def comp_def)

lemma string_of_as_bytes [simp]: "string_of_bytes (as_bytes s) = s"
  by (simp add: as_bytes_def string_of_bytes_def comp_def)

lemma length_as_bytes [simp]: "length (as_bytes s) = length s"
  by (simp add: as_bytes_def)

lemma as_bytes_eq_Nil [simp]: "as_bytes s = [] \<longleftrightarrow> s = []"
  by (simp add: as_bytes_def)

lemma from_utf8_as_bytes: "is_str s \<Longrightarrow> from_utf8 (as_bytes s) = Some s"
  by (simp add: from_utf8_def is_str_def)

lemma from_utf8_SomeD [ok_dests]: "from_utf8 bs = Some s \<Longrightarrow> as_bytes s = bs \<and> is_str s"
  by (auto simp: from_utf8_def is_str_def split: if_splits)

lemma utf8_valid_ascii: "\<forall>b \<in> set bs. b < 0x80 \<Longrightarrow> utf8_valid bs"
  by (induction bs) auto

section \<open>Standard library string functions\<close>

fun starts_with :: "string \<Rightarrow> string \<Rightarrow> bool" where
  "starts_with s [] = True"
| "starts_with [] (p # ps) = False"
| "starts_with (c # cs) (p # ps) = (c = p \<and> starts_with cs ps)"

text \<open>\<^verbatim>\<open>haystack.contains(needle)\<close>.\<close>

fun str_contains :: "string \<Rightarrow> string \<Rightarrow> bool" where
  "str_contains [] n = (n = [])"
| "str_contains (c # cs) n = (starts_with (c # cs) n \<or> str_contains cs n)"

text \<open>Decimal formatting of unsigned integers (\<^verbatim>\<open>{}\<close>).\<close>

definition digit_char :: "nat \<Rightarrow> char" where
  "digit_char d = char_of (48 + d)"

fun show_nat :: "nat \<Rightarrow> string" where
  "show_nat n = (if n < 10 then [digit_char n] else show_nat (n div 10) @ [digit_char (n mod 10)])"

declare show_nat.simps [simp del]

lemma starts_with_iff: "starts_with s p \<longleftrightarrow> (\<exists>r. s = p @ r)"
  by (induction s p rule: starts_with.induct) auto

lemma str_contains_iff: "str_contains s n \<longleftrightarrow> (\<exists>a b. s = a @ n @ b)"
proof (induction s)
  case Nil
  then show ?case by auto
next
  case (Cons c cs)
  show ?case
  proof
    assume "str_contains (c # cs) n"
    then consider r where "c # cs = n @ r" | "\<exists>a b. cs = a @ n @ b"
      using Cons.IH by (auto simp: starts_with_iff)
    then show "\<exists>a b. c # cs = a @ n @ b"
      by cases (metis append_Nil, metis append_Cons)
  next
    assume "\<exists>a b. c # cs = a @ n @ b"
    then obtain a b where ab: "c # cs = a @ n @ b" by blast
    show "str_contains (c # cs) n"
    proof (cases a)
      case Nil
      with ab have "starts_with (c # cs) n" by (simp add: starts_with_iff)
      then show ?thesis by simp
    next
      case (Cons x xs)
      with ab have "cs = xs @ n @ b" by simp
      then show ?thesis using Cons.IH by auto
    qed
  qed
qed

section \<open>Big-endian integers\<close>

text \<open>\<^verbatim>\<open>u16::to_be_bytes\<close> (as \<^verbatim>\<open>put_u16\<close> writes it), \<^verbatim>\<open>u32::to_be_bytes\<close> and their inverses.\<close>

definition u16_to_be :: "u16 \<Rightarrow> bytes" where
  "u16_to_be w = [ucast (drop_bit 8 w), ucast w]"

definition u16_from_be :: "byte \<Rightarrow> byte \<Rightarrow> u16" where
  "u16_from_be a b = push_bit 8 (ucast a) OR ucast b"

definition u32_to_be :: "u32 \<Rightarrow> bytes" where
  "u32_to_be w = [ucast (drop_bit 24 w), ucast (drop_bit 16 w), ucast (drop_bit 8 w), ucast w]"

definition u32_from_be :: "byte \<Rightarrow> byte \<Rightarrow> byte \<Rightarrow> byte \<Rightarrow> u32" where
  "u32_from_be a b c d =
     push_bit 24 (ucast a) OR push_bit 16 (ucast b) OR push_bit 8 (ucast c) OR ucast d"

lemma length_u16_to_be [simp]: "length (u16_to_be w) = 2"
  by (simp add: u16_to_be_def)

lemma length_u32_to_be [simp]: "length (u32_to_be w) = 4"
  by (simp add: u32_to_be_def)

lemma u16_be_roundtrip [wire_simps]: "u16_from_be (ucast (drop_bit 8 w)) (ucast w) = w"
  unfolding u16_from_be_def
  by (rule bit_word_eqI) (auto simp: bit_simps)

lemma u32_be_roundtrip [wire_simps]:
  "u32_from_be (ucast (drop_bit 24 w)) (ucast (drop_bit 16 w)) (ucast (drop_bit 8 w)) (ucast w) = w"
  unfolding u32_from_be_def
proof (rule bit_word_eqI)
  fix n assume n: "n < LENGTH(32)"
  consider "n < 8" | "8 \<le> n" "n < 16" | "16 \<le> n" "n < 24" | "24 \<le> n" by linarith
  then show "bit (push_bit 24 (ucast (ucast (drop_bit 24 w) :: byte))
      OR push_bit 16 (ucast (ucast (drop_bit 16 w) :: byte))
      OR push_bit 8 (ucast (ucast (drop_bit 8 w) :: byte))
      OR ucast (ucast w :: byte) :: u32) n = bit w n"
    by cases (use n in \<open>auto simp: bit_simps dest: bit_imp_le_length\<close>)
qed

lemma byte_bit_high: "8 \<le> n \<Longrightarrow> \<not> bit (b :: byte) n"
  using bit_imp_le_length [of b n] by auto

lemma u16_to_from_be [wire_simps]: "u16_to_be (u16_from_be a b) = [a, b]"
  unfolding u16_to_be_def u16_from_be_def
  by (auto intro!: bit_word_eqI simp: bit_simps byte_bit_high)

lemma u32_to_from_be [wire_simps]: "u32_to_be (u32_from_be a b c d) = [a, b, c, d]"
  unfolding u32_to_be_def u32_from_be_def
  by (auto intro!: bit_word_eqI simp: bit_simps byte_bit_high)

end
