(* ===== verification/Codec_Interface.thy ===== *)
theory Codec_Interface
  imports Prelude "HOL-Library.Sublist"
begin

text \<open>
  What a user of a streaming codec relies on, as a locale: decoding an encoded item followed
  by anything gives the item back and leaves the rest, and a proper prefix of an encoding is
  reported as incomplete and left alone. From the laws alone it follows that the receiver
  delivers exactly the items that were sent, in order, however the byte stream is cut into
  chunks. The frame codec is an instance (theory \<open>Frame\<close>).
\<close>

text \<open>
  Decode until the buffer holds no complete item; every item takes at least one byte, so
  fuel of the buffer's length is enough.
\<close>

fun pump :: "(bytes \<Rightarrow> ('e + 'f option) \<times> bytes) \<Rightarrow> nat \<Rightarrow> bytes \<Rightarrow> 'f list \<times> bytes" where
  "pump dec 0 buf = ([], buf)"
| "pump dec (Suc n) buf =
     (case dec buf of
        (Inr (Some f), buf') \<Rightarrow> (let (fs, b) = pump dec n buf' in (f # fs, b))
      | (_, buf') \<Rightarrow> ([], buf'))"

text \<open>Append each arriving chunk to the buffer and decode what is complete.\<close>

fun feed :: "(bytes \<Rightarrow> ('e + 'f option) \<times> bytes) \<Rightarrow> bytes \<Rightarrow> bytes list \<Rightarrow> 'f list \<times> bytes" where
  "feed dec buf [] = ([], buf)"
| "feed dec buf (c # cs) =
     (let (fs, b) = pump dec (length (buf @ c)) (buf @ c);
          (gs, b') = feed dec b cs
      in (fs @ gs, b'))"

locale stream_codec =
  fixes enc :: "'f \<Rightarrow> bytes option"
    and dec :: "bytes \<Rightarrow> ('e + 'f option) \<times> bytes"
  assumes enc_nonempty: "enc f = Some w \<Longrightarrow> w \<noteq> []"
    and dec_nil: "dec [] = (Inr None, [])"
    and dec_enc: "enc f = Some w \<Longrightarrow> dec (w @ rest) = (Inr (Some f), rest)"
    and dec_incomplete: "enc f = Some w \<Longrightarrow> strict_prefix p w \<Longrightarrow> dec p = (Inr None, p)"
begin

definition wire :: "'f list \<Rightarrow> bytes" where
  "wire fs = concat (map (\<lambda>f. the (enc f)) fs)"

text \<open>The buffer holds no complete item of the stream \<open>fs\<close> that it starts.\<close>

definition pending :: "'f list \<Rightarrow> bytes \<Rightarrow> bool" where
  "pending fs buf \<longleftrightarrow> fs = [] \<or> strict_prefix buf (the (enc (hd fs)))"

lemma pump_prefix:
  assumes "\<forall>f \<in> set fs. enc f \<noteq> None" and "buf @ rest = wire fs" and "length buf \<le> n"
  shows "\<exists>ds es b. fs = ds @ es \<and> pump dec n buf = (ds, b) \<and> b @ rest = wire es \<and> pending es b"
  using assms
proof (induction fs arbitrary: buf n)
  case Nil
  then have "buf = []" "rest = []" by (auto simp: wire_def)
  then show ?case by (cases n) (auto simp: wire_def pending_def dec_nil)
next
  case (Cons f fs)
  then obtain w where w: "enc f = Some w" by auto
  have split: "buf @ rest = w @ wire fs" using Cons.prems(2) w by (simp add: wire_def)
  show ?case
  proof (cases "length w \<le> length buf")
    case True
    then obtain buf' where buf: "buf = w @ buf'"
      using split by (metis append_eq_append_conv_if append_take_drop_id)
    then have rest: "buf' @ rest = wire fs" using split by simp
    obtain m where n: "n = Suc m" and m: "length buf' \<le> m"
      using Cons.prems(3) buf enc_nonempty [OF w] by (cases n) (auto simp: Suc_le_eq neq_Nil_conv)
    obtain ds es b where "fs = ds @ es" "pump dec m buf' = (ds, b)" "b @ rest = wire es" "pending es b"
      using Cons.IH [OF _ rest m] Cons.prems(1) by auto
    then have "f # fs = (f # ds) @ es \<and> pump dec n buf = (f # ds, b) \<and> b @ rest = wire es \<and> pending es b"
      using dec_enc [OF w] by (simp add: n buf)
    then show ?thesis by blast
  next
    case False
    then have "prefix buf w" using split by (auto simp: append_eq_append_conv2 prefix_def)
    with False have sp: "strict_prefix buf w" by (auto simp: strict_prefix_def)
    then have "pump dec n buf = ([], buf)" using dec_incomplete [OF w sp] by (cases n) auto
    moreover have "pending (f # fs) buf" using sp w by (simp add: pending_def)
    ultimately have "f # fs = [] @ (f # fs) \<and> pump dec n buf = ([], buf)
        \<and> buf @ rest = wire (f # fs) \<and> pending (f # fs) buf"
      using Cons.prems(2) by simp
    then show ?thesis by blast
  qed
qed

lemma pending_end:
  assumes "\<forall>f \<in> set fs. enc f \<noteq> None" and "buf = wire fs" and "pending fs buf"
  shows "fs = [] \<and> buf = []"
proof (cases fs)
  case Nil
  then show ?thesis using assms by (simp add: wire_def)
next
  case (Cons f gs)
  then obtain w where "enc f = Some w" using assms(1) by auto
  then have "prefix w buf" "strict_prefix buf w"
    using assms Cons by (auto simp: wire_def pending_def)
  then show ?thesis by (meson prefix_order.leD)
qed

lemma feed_from:
  assumes "\<forall>f \<in> set fs. enc f \<noteq> None" and "buf @ concat cs = wire fs" and "pending fs buf"
  shows "feed dec buf cs = (fs, [])"
  using assms
proof (induction cs arbitrary: buf fs)
  case Nil
  then show ?case using pending_end [of fs buf] by (simp add: wire_def)
next
  case (Cons c cs)
  have "(buf @ c) @ concat cs = wire fs" using Cons.prems(2) by simp
  from pump_prefix [OF Cons.prems(1) this order_refl] obtain ds es b where
    "fs = ds @ es" "pump dec (length (buf @ c)) (buf @ c) = (ds, b)" "b @ concat cs = wire es" "pending es b"
    by blast
  then show ?case using Cons.IH [of es b] Cons.prems(1) by simp
qed

lemma feed_delivers:
  assumes "\<forall>f \<in> set fs. enc f \<noteq> None" and "concat cs = wire fs"
  shows "feed dec [] cs = (fs, [])"
proof (rule feed_from [OF assms(1)])
  show "[] @ concat cs = wire fs" using assms(2) by simp
  show "pending fs []"
    using assms(1) by (cases fs) (auto simp: pending_def strict_prefix_def dest: enc_nonempty)
qed

end

end
