(* ===== verification/Frame.thy ===== *)
theory Frame
  imports Codec_Interface
begin

text \<open>
  The frame codec of the mux protocol: \<^verbatim>\<open>proto/crates/enzarb-proto/src/frame.rs\<close>. Every
  function of the file is here, in its order. The JSON serialiser of \<^verbatim>\<open>serde_json\<close> is an
  argument of the functions that call it. \<^verbatim>\<open>BytesMut\<close> buffers are byte lists; a function
  that takes \<^verbatim>\<open>&mut\<close> returns the new buffer.

  The lemmas show that the encoder and the two decoders are inverse to each other on
  exactly the frames that pass \<open>validate\<close>, and that the streaming decoder delivers the
  frames of a byte stream however the stream is cut into chunks.
\<close>

section \<open>Constants and types\<close>

definition HEADER_LEN :: nat where
  "HEADER_LEN = 10"

definition MAX_PAYLOAD_LEN :: nat where
  "MAX_PAYLOAD_LEN = 2 ^ 20"

definition MAX_CREDIT :: u32 where
  "MAX_CREDIT = 0x7FFFFFFF"

definition INITIAL_WINDOW :: u32 where
  "INITIAL_WINDOW = 256 * 1024"

definition close_NORMAL :: u16 where
  "close_NORMAL = 0"

definition close_PROTOCOL_ERROR :: u16 where
  "close_PROTOCOL_ERROR = 1"

definition close_GOING_AWAY :: u16 where
  "close_GOING_AWAY = 2"

definition close_CANCELLED :: u16 where
  "close_CANCELLED = 3"

datatype frame_type = FT_Ctrl | FT_DataBin | FT_DataJson | FT_Window | FT_Close

definition frame_type_from_u8 :: "byte \<Rightarrow> frame_type option" where
  "frame_type_from_u8 b =
     (if b = 1 then Some FT_Ctrl
      else if b = 2 then Some FT_DataBin
      else if b = 3 then Some FT_DataJson
      else if b = 4 then Some FT_Window
      else if b = 5 then Some FT_Close
      else None)"

text \<open>The discriminants: \<^verbatim>\<open>frame_type as u8\<close>.\<close>

fun frame_type_as_u8 :: "frame_type \<Rightarrow> byte" where
  "frame_type_as_u8 FT_Ctrl = 1"
| "frame_type_as_u8 FT_DataBin = 2"
| "frame_type_as_u8 FT_DataJson = 3"
| "frame_type_as_u8 FT_Window = 4"
| "frame_type_as_u8 FT_Close = 5"

fun frame_type_name :: "frame_type \<Rightarrow> string" where
  "frame_type_name FT_Ctrl = ''CTRL''"
| "frame_type_name FT_DataBin = ''DATA_BIN''"
| "frame_type_name FT_DataJson = ''DATA_JSON''"
| "frame_type_name FT_Window = ''WINDOW''"
| "frame_type_name FT_Close = ''CLOSE''"

datatype frame_error =
    Truncated
  | TrailingBytes nat
  | UnknownType byte
  | UnknownFlags byte
  | PayloadTooLarge nat
  | CtrlChannel
  | ZeroChannel string
  | EmptyData
  | BadWindowPayload
  | BadCredit
  | BadClosePayload
  | FrameJson string

fun frame_error_code :: "frame_error \<Rightarrow> string" where
  "frame_error_code Truncated = ''truncated''"
| "frame_error_code (TrailingBytes n) = ''trailing_bytes''"
| "frame_error_code (UnknownType t) = ''unknown_type''"
| "frame_error_code (UnknownFlags f) = ''unknown_flags''"
| "frame_error_code (PayloadTooLarge n) = ''payload_too_large''"
| "frame_error_code CtrlChannel = ''ctrl_channel''"
| "frame_error_code (ZeroChannel t) = ''zero_channel''"
| "frame_error_code EmptyData = ''empty_data''"
| "frame_error_code BadWindowPayload = ''bad_window_payload''"
| "frame_error_code BadCredit = ''bad_credit''"
| "frame_error_code BadClosePayload = ''bad_close_payload''"
| "frame_error_code (FrameJson e) = ''json''"

text \<open>\<^verbatim>\<open>{:#04x}\<close> of a byte: \<^verbatim>\<open>0x\<close> and two lower-case hexadecimal digits.\<close>

definition hex_char :: "nat \<Rightarrow> char" where
  "hex_char d = (if d < 10 then char_of (48 + d) else char_of (87 + d))"

definition show_hex_byte :: "byte \<Rightarrow> string" where
  "show_hex_byte b = ''0x'' @ [hex_char (unat b div 16), hex_char (unat b mod 16)]"

text \<open>\<^verbatim>\<open>Display\<close>, from the \<^verbatim>\<open>#[error(...)]\<close> attributes.\<close>

fun frame_error_display :: "frame_error \<Rightarrow> string" where
  "frame_error_display Truncated = ''truncated frame''"
| "frame_error_display (TrailingBytes n) = show_nat n @ '' trailing bytes after frame''"
| "frame_error_display (UnknownType t) = ''unknown frame type '' @ show_nat (unat t)"
| "frame_error_display (UnknownFlags f) = ''non-zero flags '' @ show_hex_byte f"
| "frame_error_display (PayloadTooLarge n) =
     ''payload of '' @ show_nat n @ '' bytes exceeds the maximum''"
| "frame_error_display CtrlChannel = ''CTRL frames must use channel 0''"
| "frame_error_display (ZeroChannel t) = t @ '' frames must not use channel 0''"
| "frame_error_display EmptyData = ''empty data frame''"
| "frame_error_display BadWindowPayload = ''WINDOW payload must be 4 bytes''"
| "frame_error_display BadCredit = ''WINDOW credit must be in 1..=2^31-1''"
| "frame_error_display BadClosePayload = ''malformed CLOSE payload''"
| "frame_error_display (FrameJson e) = ''json: '' @ e"

record close_info =
  ci_code :: u16
  ci_reason :: string

record frame =
  f_type :: frame_type
  f_flags :: byte
  f_channel :: u32
  f_payload :: bytes

record frame_header =
  h_type :: frame_type
  h_flags :: byte
  h_channel :: u32
  h_len :: nat

section \<open>The header\<close>

definition check_channel :: "frame_type \<Rightarrow> u32 \<Rightarrow> frame_error + unit" where
  "check_channel t ch =
     (if t = FT_Ctrl then (if ch \<noteq> 0 then Inl CtrlChannel else Inr ())
      else if ch = 0 then Inl (ZeroChannel (frame_type_name t))
      else Inr ())"

text \<open>
  The indexing \<^verbatim>\<open>b[0] .. b[9]\<close> needs at least \<open>HEADER_LEN\<close> bytes (the function's
  \<^verbatim>\<open>debug_assert!\<close>); all three callers check the length first.
\<close>

definition parse_header :: "bytes \<Rightarrow> frame_error + frame_header" where
  "parse_header b =
     (case frame_type_from_u8 (b ! 0) of
        None \<Rightarrow> Inl (UnknownType (b ! 0))
      | Some t \<Rightarrow>
          (let flags = b ! 1 in
           if flags \<noteq> 0 then Inl (UnknownFlags flags)
           else
             (let ch = u32_from_be (b ! 2) (b ! 3) (b ! 4) (b ! 5);
                  len = unat (u32_from_be (b ! 6) (b ! 7) (b ! 8) (b ! 9))
              in if len > MAX_PAYLOAD_LEN then Inl (PayloadTooLarge len)
                 else (case check_channel t ch of
                         Inl e \<Rightarrow> Inl e
                       | Inr _ \<Rightarrow> Inr \<lparr>h_type = t, h_flags = flags, h_channel = ch, h_len = len\<rparr>))))"

definition header_parse :: "bytes \<Rightarrow> frame_error + frame_header" where
  "header_parse b = (if length b < HEADER_LEN then Inl Truncated else parse_header b)"

section \<open>Building frames and reading payloads\<close>

definition frame_new :: "frame_type \<Rightarrow> u32 \<Rightarrow> bytes \<Rightarrow> frame" where
  "frame_new t ch p = \<lparr>f_type = t, f_flags = 0, f_channel = ch, f_payload = p\<rparr>"

definition frame_ctrl :: "('m \<Rightarrow> string + bytes) \<Rightarrow> 'm \<Rightarrow> frame_error + frame" where
  "frame_ctrl to_vec msg =
     (case to_vec msg of Inl e \<Rightarrow> Inl (FrameJson e) | Inr v \<Rightarrow> Inr (frame_new FT_Ctrl 0 v))"

definition frame_data_bin :: "u32 \<Rightarrow> bytes \<Rightarrow> frame" where
  "frame_data_bin ch p = frame_new FT_DataBin ch p"

definition frame_data_json :: "('v \<Rightarrow> string + bytes) \<Rightarrow> u32 \<Rightarrow> 'v \<Rightarrow> frame_error + frame" where
  "frame_data_json to_vec ch v =
     (case to_vec v of Inl e \<Rightarrow> Inl (FrameJson e) | Inr b \<Rightarrow> Inr (frame_new FT_DataJson ch b))"

definition frame_window :: "u32 \<Rightarrow> u32 \<Rightarrow> frame" where
  "frame_window ch credit = frame_new FT_Window ch (u32_to_be credit)"

definition frame_close :: "u32 \<Rightarrow> u16 \<Rightarrow> string \<Rightarrow> frame" where
  "frame_close ch code reason =
     frame_new FT_Close ch
       (if code = 0 \<and> reason = [] then [] else u16_to_be code @ as_bytes reason)"

definition ctrl_message :: "(bytes \<Rightarrow> string + 'm) \<Rightarrow> frame \<Rightarrow> frame_error + 'm" where
  "ctrl_message from_slice f =
     (if f_type f \<noteq> FT_Ctrl then Inl CtrlChannel
      else (case from_slice (f_payload f) of Inl e \<Rightarrow> Inl (FrameJson e) | Inr m \<Rightarrow> Inr m))"

definition json_value :: "(bytes \<Rightarrow> string + 'v) \<Rightarrow> frame \<Rightarrow> frame_error + 'v" where
  "json_value from_slice f =
     (case from_slice (f_payload f) of Inl e \<Rightarrow> Inl (FrameJson e) | Inr v \<Rightarrow> Inr v)"

definition window_credit :: "frame \<Rightarrow> frame_error + u32" where
  "window_credit f =
     (case f_payload f of
        [a, b, c, d] \<Rightarrow>
          (let w = u32_from_be a b c d
           in if w = 0 \<or> w > MAX_CREDIT then Inl BadCredit else Inr w)
      | _ \<Rightarrow> Inl BadWindowPayload)"

definition frame_close_info :: "frame \<Rightarrow> frame_error + close_info" where
  "frame_close_info f =
     (case f_payload f of
        [] \<Rightarrow> Inr \<lparr>ci_code = close_NORMAL, ci_reason = []\<rparr>
      | [_] \<Rightarrow> Inl BadClosePayload
      | a # b # r \<Rightarrow>
          (case from_utf8 r of
             None \<Rightarrow> Inl BadClosePayload
           | Some s \<Rightarrow> Inr \<lparr>ci_code = u16_from_be a b, ci_reason = s\<rparr>))"

section \<open>Validation, encoding and decoding\<close>

definition validate :: "frame \<Rightarrow> frame_error + unit" where
  "validate f =
     (if f_flags f \<noteq> 0 then Inl (UnknownFlags (f_flags f))
      else if length (f_payload f) > MAX_PAYLOAD_LEN then Inl (PayloadTooLarge (length (f_payload f)))
      else (case check_channel (f_type f) (f_channel f) of
              Inl e \<Rightarrow> Inl e
            | Inr _ \<Rightarrow>
                (if (f_type f = FT_DataBin \<or> f_type f = FT_DataJson) \<and> f_payload f = []
                 then Inl EmptyData
                 else if f_type f = FT_Window then map_sum id (\<lambda>_. ()) (window_credit f)
                 else if f_type f = FT_Close then map_sum id (\<lambda>_. ()) (frame_close_info f)
                 else Inr ())))"

definition encoded_len :: "frame \<Rightarrow> nat" where
  "encoded_len f = HEADER_LEN + length (f_payload f)"

text \<open>The ten header bytes \<open>encode\<close> writes.\<close>

definition header_bytes :: "frame \<Rightarrow> bytes" where
  "header_bytes f =
     [frame_type_as_u8 (f_type f), f_flags f] @ u32_to_be (f_channel f)
       @ u32_to_be (word_of_nat (length (f_payload f)))"

definition encode :: "frame \<Rightarrow> bytes \<Rightarrow> frame_error + bytes" where
  "encode f dst =
     (case validate f of
        Inl e \<Rightarrow> Inl e
      | Inr _ \<Rightarrow> Inr (dst @ header_bytes f @ f_payload f))"

definition to_bytes :: "frame \<Rightarrow> frame_error + bytes" where
  "to_bytes f = encode f []"

definition from_bytes :: "bytes \<Rightarrow> frame_error + frame" where
  "from_bytes msg =
     (if length msg < HEADER_LEN then Inl Truncated
      else (case parse_header msg of
              Inl e \<Rightarrow> Inl e
            | Inr h \<Rightarrow>
                (let total = HEADER_LEN + h_len h in
                 if length msg < total then Inl Truncated
                 else if length msg > total then Inl (TrailingBytes (length msg - total))
                 else
                   (let f = \<lparr>f_type = h_type h, f_flags = h_flags h, f_channel = h_channel h,
                             f_payload = drop HEADER_LEN msg\<rparr>
                    in case validate f of Inl e \<Rightarrow> Inl e | Inr _ \<Rightarrow> Inr f))))"

text \<open>
  The streaming decoder. The second component is the buffer afterwards: on a header error
  nothing was removed, on a payload error the frame was.
\<close>

definition decode :: "bytes \<Rightarrow> (frame_error + frame option) \<times> bytes" where
  "decode buf =
     (if length buf < HEADER_LEN then (Inr None, buf)
      else (case parse_header buf of
              Inl e \<Rightarrow> (Inl e, buf)
            | Inr h \<Rightarrow>
                if length buf < HEADER_LEN + h_len h then (Inr None, buf)
                else
                  (let rest = drop HEADER_LEN buf;
                       f = \<lparr>f_type = h_type h, f_flags = h_flags h, f_channel = h_channel h,
                            f_payload = take (h_len h) rest\<rparr>;
                       buf' = drop (h_len h) rest
                   in case validate f of
                        Inl e \<Rightarrow> (Inl e, buf')
                      | Inr _ \<Rightarrow> (Inr (Some f), buf'))))"

section \<open>Encoder and decoders are inverse\<close>

lemma frame_type_roundtrip [simp]: "frame_type_from_u8 (frame_type_as_u8 t) = Some t"
  by (cases t) (simp_all add: frame_type_from_u8_def)

lemma frame_type_from_u8_SomeD [ok_dests]: "frame_type_from_u8 b = Some t \<Longrightarrow> b = frame_type_as_u8 t"
  by (auto simp: frame_type_from_u8_def split: if_splits)

lemma validate_okD [ok_dests]:
  "validate f = Inr u \<Longrightarrow>
     f_flags f = 0 \<and> length (f_payload f) \<le> MAX_PAYLOAD_LEN \<and> check_channel (f_type f) (f_channel f) = Inr ()"
  by (auto simp: validate_def split: if_splits sum.splits)

lemma frame_collapse:
  "f_flags f = 0 \<Longrightarrow>
     \<lparr>f_type = f_type f, f_flags = 0, f_channel = f_channel f, f_payload = f_payload f\<rparr> = f"
  by (cases f) simp

lemma length_header_bytes [simp]: "length (header_bytes f) = HEADER_LEN"
  by (simp add: header_bytes_def HEADER_LEN_def)

lemma payload_len_u32:
  "n \<le> MAX_PAYLOAD_LEN \<Longrightarrow> unat (word_of_nat n :: u32) = n"
  by (simp add: MAX_PAYLOAD_LEN_def unat_of_nat take_bit_nat_eq_self)

lemma parse_header_bytes:
  assumes "validate f = Inr u"
  shows "parse_header (header_bytes f @ r) =
    Inr \<lparr>h_type = f_type f, h_flags = 0, h_channel = f_channel f, h_len = length (f_payload f)\<rparr>"
  using validate_okD [OF assms]
  by (simp add: parse_header_def header_bytes_def u32_to_be_def u32_be_roundtrip payload_len_u32)

lemma parse_headerD [ok_dests]:
  assumes "parse_header b = Inr h" and "HEADER_LEN \<le> length b"
  shows "take HEADER_LEN b =
      [frame_type_as_u8 (h_type h), 0] @ u32_to_be (h_channel h) @ u32_to_be (word_of_nat (h_len h))"
    and "h_flags h = 0" and "h_len h \<le> MAX_PAYLOAD_LEN"
    and "check_channel (h_type h) (h_channel h) = Inr ()"
proof -
  have ten: "take HEADER_LEN b = [b ! 0, b ! 1, b ! 2, b ! 3, b ! 4, b ! 5, b ! 6, b ! 7, b ! 8, b ! 9]"
    using assms(2) by (auto simp: HEADER_LEN_def list_eq_iff_nth_eq less_Suc_eq numeral_eq_Suc)
  from assms(1) show "take HEADER_LEN b =
      [frame_type_as_u8 (h_type h), 0] @ u32_to_be (h_channel h) @ u32_to_be (word_of_nat (h_len h))"
    unfolding ten
    by (auto simp: parse_header_def Let_def wire_simps dest!: frame_type_from_u8_SomeD
        split: option.splits if_splits sum.splits)
  from assms(1) show "h_flags h = 0" "h_len h \<le> MAX_PAYLOAD_LEN"
    "check_channel (h_type h) (h_channel h) = Inr ()"
    by (auto simp: parse_header_def Let_def split: option.splits if_splits sum.splits)
qed

text \<open>\<open>to_bytes\<close> succeeds exactly on the frames that validate, with header then payload.\<close>

lemma to_bytes_eq: "to_bytes f = map_sum id (\<lambda>_. header_bytes f @ f_payload f) (validate f)"
  by (simp add: to_bytes_def encode_def split: sum.splits)

lemma to_bytes_InrD [ok_dests]:
  "to_bytes f = Inr w \<Longrightarrow> validate f = Inr () \<and> w = header_bytes f @ f_payload f"
  by (cases "validate f") (auto simp: to_bytes_eq)

lemma from_bytes_header_bytes:
  assumes "validate f = Inr ()"
  shows "from_bytes (header_bytes f @ f_payload f) = Inr f"
  using assms validate_okD [OF assms]
  by (simp add: from_bytes_def parse_header_bytes frame_collapse)

lemma from_bytes_InrD [ok_dests]:
  assumes "from_bytes w = Inr f"
  shows "validate f = Inr () \<and> w = header_bytes f @ f_payload f"
proof -
  from assms obtain h where len: "HEADER_LEN \<le> length w" and h: "parse_header w = Inr h"
    and tot: "length w = HEADER_LEN + h_len h"
    and f: "f = \<lparr>f_type = h_type h, f_flags = h_flags h, f_channel = h_channel h,
                 f_payload = drop HEADER_LEN w\<rparr>"
    and v: "validate f = Inr ()"
    by (auto simp: from_bytes_def Let_def split: if_splits sum.splits)
  note ph = parse_headerD [OF h len]
  have "take HEADER_LEN w = header_bytes f"
    using ph(1,2) tot by (simp add: f header_bytes_def)
  then have "w = header_bytes f @ f_payload f"
    by (metis append_take_drop_id f frame.select_convs(4))
  with v show ?thesis by blast
qed

section \<open>Streaming\<close>

lemma decode_frame:
  assumes "validate f = Inr ()"
  shows "decode (header_bytes f @ f_payload f @ rest) = (Inr (Some f), rest)"
  using assms validate_okD [OF assms]
  by (simp add: decode_def parse_header_bytes frame_collapse)

lemma decode_short: "length buf < HEADER_LEN \<Longrightarrow> decode buf = (Inr None, buf)"
  by (simp add: decode_def)

lemma decode_prefix:
  assumes v: "validate f = Inr ()" and p: "strict_prefix p (header_bytes f @ f_payload f)"
  shows "decode p = (Inr None, p)"
proof (cases "length p < HEADER_LEN")
  case True
  then show ?thesis by (rule decode_short)
next
  case False
  from p obtain q where q: "header_bytes f @ f_payload f = p @ q" "q \<noteq> []"
    by (auto simp: strict_prefix_def prefix_def)
  with False obtain p' where p': "p = header_bytes f @ p'"
    by (metis append_eq_append_conv_if append_take_drop_id length_header_bytes linorder_not_less)
  then have "length p' < length (f_payload f)" using q by (auto simp: append_eq_conv_conj)
  then show ?thesis using v by (simp add: decode_def p' parse_header_bytes)
qed

definition frame_wire :: "frame \<Rightarrow> bytes option" where
  "frame_wire f = (case to_bytes f of Inl _ \<Rightarrow> None | Inr w \<Rightarrow> Some w)"

lemma frame_wire_SomeD:
  "frame_wire f = Some w \<Longrightarrow> validate f = Inr () \<and> w = header_bytes f @ f_payload f"
  by (auto simp: frame_wire_def dest: to_bytes_InrD split: sum.splits)

lemma frame_wire_map:
  "map to_bytes fs = map Inr ws \<Longrightarrow>
     (\<forall>f \<in> set fs. frame_wire f \<noteq> None) \<and> ws = map (\<lambda>f. the (frame_wire f)) fs"
  by (induction fs arbitrary: ws) (auto simp: frame_wire_def)

interpretation frames: stream_codec frame_wire decode
proof
  fix f :: frame and w rest p :: bytes
  assume w: "frame_wire f = Some w"
  note v = frame_wire_SomeD [OF w]
  have "length w \<noteq> 0" using v by (simp add: HEADER_LEN_def)
  then show "w \<noteq> []" by auto
  show "decode (w @ rest) = (Inr (Some f), rest)" using v decode_frame [of f rest] by simp
  assume "strict_prefix p w"
  then show "decode p = (Inr None, p)" using v decode_prefix by blast
next
  show "decode [] = (Inr None, [])" by (simp add: decode_def HEADER_LEN_def)
qed

section \<open>Properties\<close>

text \<open>
  C3: \<open>from_bytes\<close> and \<open>to_bytes\<close> are inverse bijections between the websocket messages the
  decoder accepts and the frames the encoder accepts: every encoded frame decodes to itself,
  and every accepted message is the one canonical encoding of the frame it decodes to.
\<close>

theorem frame_codec_bijective: "from_bytes w = Inr f \<longleftrightarrow> to_bytes f = Inr w"
proof
  assume "from_bytes w = Inr f"
  then show "to_bytes f = Inr w" using from_bytes_InrD [of w f] by (simp add: to_bytes_eq)
next
  assume "to_bytes f = Inr w"
  then show "from_bytes w = Inr f" using to_bytes_InrD [of f w] from_bytes_header_bytes [of f] by simp
qed

text \<open>
  C4: the streaming decoder \<open>decode\<close>, called after each arriving chunk until it asks for
  more bytes, delivers exactly the frames that were encoded onto the stream, in order, and
  leaves an empty buffer, for every way of cutting the byte stream into chunks.
\<close>

theorem frame_stream_chunks:
  assumes "map to_bytes fs = map Inr ws" and "concat cs = concat ws"
  shows "feed decode [] cs = (fs, [])"
  using frame_wire_map [OF assms(1)] assms(2)
  by (intro frames.feed_delivers) (auto simp: frames.wire_def)

theorem frame_stream_chunks_witness:
  "feed decode [] [[2, 0, 0, 0], [0, 7, 0, 0, 0, 1, 65, 4], [0, 0, 0, 0, 7, 0, 0, 0, 4, 0, 0, 0, 9]]
     = ([frame_data_bin 7 [65], frame_window 7 9], [])"
proof (rule frame_stream_chunks)
  show "map to_bytes [frame_data_bin 7 [65], frame_window 7 9] =
    map Inr [[2, 0, 0, 0, 0, 7, 0, 0, 0, 1, 65], [4, 0, 0, 0, 0, 7, 0, 0, 0, 4, 0, 0, 0, 9]]"
    by (simp add: to_bytes_eq validate_def frame_data_bin_def frame_window_def frame_new_def
        check_channel_def window_credit_def header_bytes_def u32_to_be_def u32_from_be_def
        MAX_PAYLOAD_LEN_def MAX_CREDIT_def)
qed simp

text \<open>
  The forwarders' \<open>FrameHeader::parse\<close> agrees with the full decoder. If it fails, so does
  \<open>from_bytes\<close>, with the same error; and the header of every message \<open>from_bytes\<close> accepts is
  parsed to the frame's own type, channel and payload length.
\<close>

theorem header_parse_agrees:
  "case header_parse w of
     Inl e \<Rightarrow> from_bytes w = Inl e
   | Inr h \<Rightarrow> (case from_bytes w of
       Inl e \<Rightarrow> True
     | Inr f \<Rightarrow> h_type h = f_type f \<and> h_channel h = f_channel f \<and> h_len h = length (f_payload f))"
proof (cases "from_bytes w")
  case (Inl e)
  then show ?thesis by (auto simp: header_parse_def from_bytes_def split: sum.splits)
next
  case (Inr f)
  note d = from_bytes_InrD [OF Inr]
  then have "header_parse w = Inr \<lparr>h_type = f_type f, h_flags = 0, h_channel = f_channel f,
      h_len = length (f_payload f)\<rparr>"
    by (simp add: header_parse_def parse_header_bytes)
  then show ?thesis using Inr by simp
qed

text \<open>
  What \<open>Frame::close\<close> writes, \<open>close_info\<close> reads back (code and reason, also for the empty
  normal close), and the frame is valid whenever the channel is not 0 and the reason fits the
  payload limit.
\<close>

theorem close_roundtrip:
  assumes "is_str reason" and "ch \<noteq> 0" and "length reason + 2 \<le> MAX_PAYLOAD_LEN"
  shows "frame_close_info (frame_close ch code reason) = Inr \<lparr>ci_code = code, ci_reason = reason\<rparr>
    \<and> validate (frame_close ch code reason) = Inr ()"
proof -
  have "frame_close_info (frame_close ch code reason) = Inr \<lparr>ci_code = code, ci_reason = reason\<rparr>"
    using from_utf8_as_bytes [OF assms(1)]
    by (simp add: frame_close_info_def frame_close_def frame_new_def close_NORMAL_def u16_to_be_def
        wire_simps)
  moreover from this have "validate (frame_close ch code reason) = Inr ()"
    using assms(2,3) by (auto simp: validate_def check_channel_def frame_close_def frame_new_def)
  ultimately show ?thesis by blast
qed

theorem close_roundtrip_witness:
  "frame_close_info (frame_close 3 1 ''gone'') = Inr \<lparr>ci_code = 1, ci_reason = ''gone''\<rparr>
    \<and> validate (frame_close 3 1 ''gone'') = Inr ()"
proof (rule close_roundtrip)
  show "is_str ''gone''" by code_simp
qed (simp_all add: MAX_PAYLOAD_LEN_def)

end
