(* ===== verification/Credit_Interface.thy ===== *)
theory Credit_Interface
  imports Prelude
begin

text \<open>
  The contract of the receiving half of credit-based flow control, as a locale over an
  abstract endpoint state \<open>'f\<close>: three counters that always add up to the window, and three
  operations that move bytes between them. A channel (theory \<open>Channel\<close>) relies on these laws
  only; \<open>Flow\<close> shows that the word-sized \<^verbatim>\<open>FlowControl\<close> of the source meets them.
\<close>

text \<open>What an application does to the receiving half: data arrives, data is consumed.\<close>

datatype recv_op = Arrive nat | Consume nat

fun run_recv :: "('f \<Rightarrow> nat \<Rightarrow> 'e + 'f) \<Rightarrow> ('f \<Rightarrow> nat \<Rightarrow> 'e + (u32 option \<times> 'f)) \<Rightarrow> recv_op list \<Rightarrow> 'f
    \<Rightarrow> 'e + (nat \<times> 'f)" where
  "run_recv on_data release [] f = Inr (0, f)"
| "run_recv on_data release (Arrive n # ops) f =
     (case on_data f n of Inl e \<Rightarrow> Inl e | Inr f' \<Rightarrow> run_recv on_data release ops f')"
| "run_recv on_data release (Consume n # ops) f =
     (case release f n of
        Inl e \<Rightarrow> Inl e
      | Inr (g, f') \<Rightarrow>
          (case run_recv on_data release ops f' of
             Inl e \<Rightarrow> Inl e
           | Inr (t, f'') \<Rightarrow> Inr ((case g of None \<Rightarrow> 0 | Some w \<Rightarrow> unat w) + t, f'')))"

definition arrived :: "recv_op list \<Rightarrow> nat" where
  "arrived ops = sum_list (map (\<lambda>x. case x of Arrive n \<Rightarrow> n | Consume n \<Rightarrow> 0) ops)"

definition consumed :: "recv_op list \<Rightarrow> nat" where
  "consumed ops = sum_list (map (\<lambda>x. case x of Arrive n \<Rightarrow> 0 | Consume n \<Rightarrow> n) ops)"

locale credit_receiver =
  fixes granted :: "'f \<Rightarrow> nat" and held :: "'f \<Rightarrow> nat" and owed :: "'f \<Rightarrow> nat"
    and closed :: "'f \<Rightarrow> bool"
    and on_data :: "'f \<Rightarrow> nat \<Rightarrow> 'e + 'f"
    and release :: "'f \<Rightarrow> nat \<Rightarrow> 'e + (u32 option \<times> 'f)"
    and inv :: "nat \<Rightarrow> 'f \<Rightarrow> bool"
  assumes window: "inv W f \<Longrightarrow> granted f + held f + owed f = W"
    and spare: "inv W f \<Longrightarrow> \<not> closed f \<Longrightarrow> 0 < W \<Longrightarrow> owed f < W"
    and on_data_ok: "inv W f \<Longrightarrow> \<not> closed f \<Longrightarrow> n \<le> granted f \<Longrightarrow>
      \<exists>f'. on_data f n = Inr f' \<and> inv W f' \<and> granted f' + n = granted f \<and> held f' = held f + n
        \<and> owed f' = owed f \<and> closed f' = closed f"
    and on_data_err: "inv W f \<Longrightarrow> closed f \<or> granted f < n \<Longrightarrow> \<exists>e. on_data f n = Inl e"
    and release_ok: "inv W f \<Longrightarrow> n \<le> held f \<Longrightarrow>
      \<exists>g f'. release f n = Inr (g, f') \<and> inv W f' \<and> held f' + n = held f \<and> closed f' = closed f
        \<and> granted f' = granted f + (case g of None \<Rightarrow> 0 | Some w \<Rightarrow> unat w)"
    and release_err: "inv W f \<Longrightarrow> held f < n \<Longrightarrow> \<exists>e. release f n = Inl e"
begin

lemma on_data_cases:
  assumes "inv W f" and "on_data f n = Inr f'"
  shows "\<not> closed f \<and> n \<le> granted f \<and> inv W f' \<and> granted f' + n = granted f \<and> held f' = held f + n
    \<and> owed f' = owed f \<and> \<not> closed f'"
proof -
  have ok: "\<not> closed f" "n \<le> granted f"
    using on_data_err [OF assms(1), of n] assms(2) by (force, metis Inl_Inr_False linorder_not_le)
  then show ?thesis using on_data_ok [OF assms(1) ok] assms(2) by auto
qed

lemma release_cases:
  assumes "inv W f" and "release f n = Inr (g, f')"
  shows "n \<le> held f \<and> inv W f' \<and> held f' + n = held f \<and> closed f' = closed f
    \<and> granted f' = granted f + (case g of None \<Rightarrow> 0 | Some w \<Rightarrow> unat w)"
proof -
  have ok: "n \<le> held f"
    using release_err [OF assms(1), of n] assms(2) by (metis Inl_Inr_False linorder_not_le)
  then show ?thesis using release_ok [OF assms(1) ok] assms(2) by auto
qed

text \<open>
  Credit is conserved over any successful history: the credit granted over the history and
  the initial outstanding credit pay for exactly the bytes that arrived.
\<close>

lemma run_recv_conserves:
  assumes "inv W f" and "run_recv on_data release ops f = Inr (t, f')"
  shows "inv W f' \<and> granted f' + arrived ops = granted f + t
    \<and> held f' + consumed ops = held f + arrived ops"
  using assms
proof (induction ops arbitrary: f t f')
  case Nil
  then show ?case by (simp add: arrived_def consumed_def)
next
  case (Cons x ops)
  show ?case
  proof (cases x)
    case (Arrive n)
    with Cons.prems obtain h where h: "on_data f n = Inr h" "run_recv on_data release ops h = Inr (t, f')"
      by (auto split: sum.splits)
    note c = on_data_cases [OF Cons.prems(1) h(1)]
    show ?thesis using Cons.IH [of h t f'] c h(2) Arrive by (auto simp: arrived_def consumed_def)
  next
    case (Consume n)
    with Cons.prems obtain g h t' where h: "release f n = Inr (g, h)"
      "run_recv on_data release ops h = Inr (t', f')" "t = (case g of None \<Rightarrow> 0 | Some w \<Rightarrow> unat w) + t'"
      by (auto split: sum.splits)
    note c = release_cases [OF Cons.prems(1) h(1)]
    show ?thesis using Cons.IH [of h t' f'] c h(2,3) Consume by (auto simp: arrived_def consumed_def)
  qed
qed

text \<open>
  No stall: once the application has consumed everything it received, an endpoint whose
  peer has not closed has credit outstanding, so the peer can send.
\<close>

lemma no_stall:
  assumes "inv W f" and "\<not> closed f" and "0 < W" and "held f = 0"
  shows "0 < granted f"
  using window [OF assms(1)] spare [OF assms(1-3)] assms(4) by linarith

end

end
