(* ===== verification/Flow.thy ===== *)
theory Flow
  imports Frame Credit_Interface
begin

text \<open>
  Per-channel flow control: \<^verbatim>\<open>proto/crates/enzarb-proto/src/flow.rs\<close>, all of it. The
  counters are \<^verbatim>\<open>u64\<close> words, as in the source; a \<^verbatim>\<open>usize\<close> length compared with them is a
  natural number. The lemmas show that under the invariant no counter ever wraps, that
  the truncating cast \<^verbatim>\<open>g as u32\<close> in \<open>take_grant\<close> loses nothing, and that the type meets the
  contract \<open>credit_receiver\<close>.
\<close>

section \<open>The state machine\<close>

datatype flow_error =
    InsufficientCredit nat u64
  | LocalClosed
  | AlreadyClosed
  | Overrun nat u64
  | DataAfterClose
  | CreditOverflow
  | ReleaseUnderflow

fun flow_error_display :: "flow_error \<Rightarrow> string" where
  "flow_error_display (InsufficientCredit needed available) =
     ''send of '' @ show_nat needed @ '' bytes exceeds credit '' @ show_nat (unat available)"
| "flow_error_display LocalClosed = ''send after local close''"
| "flow_error_display AlreadyClosed = ''local side already closed''"
| "flow_error_display (Overrun got granted) =
     ''peer sent '' @ show_nat got @ '' bytes with only '' @ show_nat (unat granted) @ '' granted''"
| "flow_error_display DataAfterClose = ''data after peer close''"
| "flow_error_display CreditOverflow = ''window grant would push credit past 2^31-1''"
| "flow_error_display ReleaseUnderflow = ''released more bytes than were received''"

record flow =
  fl_send_credit :: u64
  fl_recv_granted :: u64
  fl_recv_unreleased :: u64
  fl_pending_grant :: u64
  fl_grant_threshold :: u64
  fl_local_closed :: bool
  fl_remote_closed :: bool

definition flow_new :: "u32 \<Rightarrow> u32 \<Rightarrow> flow" where
  "flow_new initial_send initial_recv =
     \<lparr>fl_send_credit = ucast (min initial_send MAX_CREDIT),
      fl_recv_granted = ucast (min initial_recv MAX_CREDIT),
      fl_recv_unreleased = 0,
      fl_pending_grant = 0,
      fl_grant_threshold = max (ucast initial_recv div 2) 1,
      fl_local_closed = False,
      fl_remote_closed = False\<rparr>"

definition flow_default :: flow where
  "flow_default = flow_new INITIAL_WINDOW INITIAL_WINDOW"

text \<open>Sending.\<close>

definition sendable :: "flow \<Rightarrow> nat \<Rightarrow> nat" where
  "sendable f want = (if fl_local_closed f then 0 else min (unat (fl_send_credit f)) want)"

definition on_send :: "flow \<Rightarrow> nat \<Rightarrow> flow_error + flow" where
  "on_send f len =
     (if fl_local_closed f then Inl LocalClosed
      else if len > unat (fl_send_credit f) then Inl (InsufficientCredit len (fl_send_credit f))
      else Inr (f\<lparr>fl_send_credit := fl_send_credit f - word_of_nat len\<rparr>))"

definition on_window :: "flow \<Rightarrow> u32 \<Rightarrow> flow_error + flow" where
  "on_window f credit =
     (if fl_local_closed f then Inr f
      else
        (let total = fl_send_credit f + ucast credit
         in if total > ucast MAX_CREDIT then Inl CreditOverflow
            else Inr (f\<lparr>fl_send_credit := total\<rparr>)))"

definition close_local :: "flow \<Rightarrow> flow_error + flow" where
  "close_local f =
     (if fl_local_closed f then Inl AlreadyClosed
      else Inr (f\<lparr>fl_local_closed := True, fl_send_credit := 0\<rparr>))"

text \<open>Receiving.\<close>

definition on_data :: "flow \<Rightarrow> nat \<Rightarrow> flow_error + flow" where
  "on_data f len =
     (if fl_remote_closed f then Inl DataAfterClose
      else if len > unat (fl_recv_granted f) then Inl (Overrun len (fl_recv_granted f))
      else Inr (f\<lparr>fl_recv_granted := fl_recv_granted f - word_of_nat len,
                  fl_recv_unreleased := fl_recv_unreleased f + word_of_nat len\<rparr>))"

definition take_grant :: "flow \<Rightarrow> u32 option \<times> flow" where
  "take_grant f =
     (if fl_pending_grant f = 0 then (None, f)
      else
        (let g = fl_pending_grant f
         in (Some (ucast g), f\<lparr>fl_pending_grant := 0, fl_recv_granted := fl_recv_granted f + g\<rparr>)))"

definition release :: "flow \<Rightarrow> nat \<Rightarrow> flow_error + (u32 option \<times> flow)" where
  "release f len =
     (if len > unat (fl_recv_unreleased f) then Inl ReleaseUnderflow
      else
        (let f' = f\<lparr>fl_recv_unreleased := fl_recv_unreleased f - word_of_nat len,
                    fl_pending_grant := fl_pending_grant f + word_of_nat len\<rparr>
         in if fl_remote_closed f' \<or> fl_pending_grant f' < fl_grant_threshold f' then Inr (None, f')
            else Inr (take_grant f')))"

definition flush_grant :: "flow \<Rightarrow> u32 option \<times> flow" where
  "flush_grant f = (if fl_remote_closed f then (None, f) else take_grant f)"

definition on_close_remote :: "flow \<Rightarrow> flow" where
  "on_close_remote f = f\<lparr>fl_remote_closed := True\<rparr>"

definition flow_is_closed :: "flow \<Rightarrow> bool" where
  "flow_is_closed f \<longleftrightarrow> fl_local_closed f \<and> fl_remote_closed f"

section \<open>Invariant\<close>

definition credit_cap :: nat where
  "credit_cap = 2 ^ 31 - 1"

text \<open>
  \<open>W\<close> is the receive window given to the peer at open. The three receive counters share
  it; the grant threshold can be reached within it; pending credit stays below the threshold
  until the peer closes; and the send credit obeys the protocol's cap.
\<close>

definition flow_inv :: "nat \<Rightarrow> flow \<Rightarrow> bool" where
  "flow_inv W f \<longleftrightarrow>
     W \<le> credit_cap
     \<and> unat (fl_recv_granted f) + unat (fl_recv_unreleased f) + unat (fl_pending_grant f) = W
     \<and> unat (fl_send_credit f) \<le> credit_cap
     \<and> 0 < unat (fl_grant_threshold f) \<and> unat (fl_grant_threshold f) \<le> max 1 W
     \<and> (fl_remote_closed f \<or> fl_pending_grant f < fl_grant_threshold f)
     \<and> (fl_local_closed f \<longrightarrow> fl_send_credit f = 0)"

lemma unat_ucast_u32_u64 [simp]: "unat (ucast (w :: u32) :: u64) = unat w"
proof -
  have "unat w < 2 ^ LENGTH(32)" by (rule unsigned_less)
  then show ?thesis by (simp add: unsigned_ucast_eq unsigned_take_bit_eq take_bit_nat_eq_self)
qed

lemma unat_ucast_u64_u32: "unat (w :: u64) < 2 ^ 32 \<Longrightarrow> unat (ucast w :: u32) = unat w"
  by (simp add: unsigned_ucast_eq unsigned_take_bit_eq take_bit_nat_eq_self)

lemma unat_add_nat: "unat (a :: u64) + n < 2 ^ 64 \<Longrightarrow> unat (a + word_of_nat n) = unat a + n"
  by (simp add: unat_word_ariths unat_of_nat take_bit_nat_eq_self)

lemma unat_sub_nat: "n \<le> unat (a :: u64) \<Longrightarrow> unat (a - word_of_nat n) = unat a - n"
proof -
  assume n: "n \<le> unat a"
  have "unat a < 2 ^ LENGTH(64)" by (rule unsigned_less)
  with n have "n < 2 ^ 64" by simp
  then have "unat (word_of_nat n :: u64) = n" by (simp add: unat_of_nat take_bit_nat_eq_self)
  then show ?thesis using n by (simp add: unat_sub word_le_nat_alt)
qed

lemma unat_add_u64: "unat (a :: u64) + unat b < 2 ^ 64 \<Longrightarrow> unat (a + b) = unat a + unat b"
  using unat_add_nat [of a "unat b"] by simp

lemmas flow_words = unat_add_nat unat_sub_nat unat_add_u64 unat_ucast_u64_u32
  word_less_nat_alt word_le_nat_alt

lemma flow_new_inv: "flow_inv (unat (min r MAX_CREDIT)) (flow_new s r)"
proof -
  have m: "unat MAX_CREDIT = credit_cap" by (simp add: MAX_CREDIT_def credit_cap_def)
  have r: "unat r < 2 ^ LENGTH(32)" by (rule unsigned_less)
  have le: "unat (min w MAX_CREDIT) \<le> credit_cap" for w
    using m by (simp add: min_def word_le_nat_alt)
  have thr: "unat (max (ucast r div 2 :: u64) 1) = max (unat r div 2) 1"
    by (simp add: max_def word_le_nat_alt unat_div)
  have "unat r div 2 \<le> max 1 (unat (min r MAX_CREDIT))"
    using m r by (auto simp: min_def word_le_nat_alt credit_cap_def)
  then show ?thesis
    using le [of r] le [of s] thr
    by (auto simp: flow_inv_def flow_new_def word_less_nat_alt less_max_iff_disj)
qed

lemma flow_default_inv: "flow_inv 262144 flow_default"
proof -
  have "unat (min INITIAL_WINDOW MAX_CREDIT) = 262144"
    by (simp add: INITIAL_WINDOW_def MAX_CREDIT_def)
  then show ?thesis using flow_new_inv [of INITIAL_WINDOW INITIAL_WINDOW]
    by (simp add: flow_default_def)
qed

text \<open>Every operation, on every branch, in terms of natural numbers.\<close>

lemma on_send_spec:
  assumes "flow_inv W f"
  shows "case on_send f n of
      Inl e \<Rightarrow> fl_local_closed f \<or> unat (fl_send_credit f) < n
    | Inr f' \<Rightarrow> flow_inv W f' \<and> \<not> fl_local_closed f \<and> unat (fl_send_credit f') + n = unat (fl_send_credit f)
        \<and> f' = f\<lparr>fl_send_credit := fl_send_credit f'\<rparr>"
  using assms by (auto simp: on_send_def flow_inv_def unat_sub_nat)

lemma on_window_spec:
  assumes "flow_inv W f"
  shows "case on_window f c of
      Inl e \<Rightarrow> \<not> fl_local_closed f \<and> credit_cap < unat (fl_send_credit f) + unat c
    | Inr f' \<Rightarrow> flow_inv W f' \<and> f' = f\<lparr>fl_send_credit := fl_send_credit f'\<rparr>
        \<and> (if fl_local_closed f then f' = f
           else unat (fl_send_credit f') = unat (fl_send_credit f) + unat c)"
proof -
  have c: "unat c < 2 ^ LENGTH(32)" by (rule unsigned_less)
  then have "unat (fl_send_credit f + ucast c) = unat (fl_send_credit f) + unat c"
    using assms by (intro trans [OF unat_add_u64]) (auto simp: flow_inv_def credit_cap_def)
  moreover have "unat (ucast MAX_CREDIT :: u64) = credit_cap"
    by (simp add: MAX_CREDIT_def credit_cap_def)
  ultimately show ?thesis
    using assms by (auto simp: on_window_def Let_def flow_inv_def word_less_nat_alt)
qed

lemma close_local_spec:
  assumes "flow_inv W f"
  shows "case close_local f of
      Inl e \<Rightarrow> fl_local_closed f
    | Inr f' \<Rightarrow> \<not> fl_local_closed f \<and> flow_inv W f' \<and> f' = f\<lparr>fl_local_closed := True, fl_send_credit := 0\<rparr>"
  using assms by (auto simp: close_local_def flow_inv_def)

lemma on_data_spec:
  assumes "flow_inv W f"
  shows "case on_data f n of
      Inl e \<Rightarrow> fl_remote_closed f \<or> unat (fl_recv_granted f) < n
    | Inr f' \<Rightarrow> \<not> fl_remote_closed f \<and> flow_inv W f'
        \<and> unat (fl_recv_granted f') + n = unat (fl_recv_granted f)
        \<and> unat (fl_recv_unreleased f') = unat (fl_recv_unreleased f) + n
        \<and> f' = f\<lparr>fl_recv_granted := fl_recv_granted f', fl_recv_unreleased := fl_recv_unreleased f'\<rparr>"
  using assms by (auto simp: on_data_def flow_inv_def credit_cap_def unat_sub_nat unat_add_nat)

lemma take_grant_spec:
  assumes "W \<le> credit_cap"
    and "unat (fl_recv_granted f) + unat (fl_recv_unreleased f) + unat (fl_pending_grant f) = W"
  shows "case take_grant f of (g, f') \<Rightarrow>
      fl_pending_grant f' = 0
      \<and> (case g of None \<Rightarrow> 0 | Some w \<Rightarrow> unat w) = unat (fl_pending_grant f)
      \<and> (\<forall>w. g = Some w \<longrightarrow> w \<noteq> 0 \<and> unat w \<le> credit_cap)
      \<and> unat (fl_recv_granted f') = unat (fl_recv_granted f) + unat (fl_pending_grant f)
      \<and> f' = f\<lparr>fl_pending_grant := 0, fl_recv_granted := fl_recv_granted f'\<rparr>"
proof -
  have "unat (fl_pending_grant f) < 2 ^ 32" using assms by (simp add: credit_cap_def)
  then have u: "unat (ucast (fl_pending_grant f) :: u32) = unat (fl_pending_grant f)"
    by (rule unat_ucast_u64_u32)
  have z: "(ucast (fl_pending_grant f) :: u32) = 0 \<longleftrightarrow> fl_pending_grant f = 0"
    using u by (metis unat_eq_zero)
  show ?thesis
    using assms u z by (auto simp: take_grant_def Let_def credit_cap_def unat_add_u64)
qed

lemma release_spec:
  assumes "flow_inv W f"
  shows "case release f n of
      Inl e \<Rightarrow> unat (fl_recv_unreleased f) < n
    | Inr (g, f') \<Rightarrow> n \<le> unat (fl_recv_unreleased f) \<and> flow_inv W f'
        \<and> unat (fl_recv_unreleased f') + n = unat (fl_recv_unreleased f)
        \<and> (\<forall>w. g = Some w \<longrightarrow> \<not> fl_remote_closed f \<and> w \<noteq> 0 \<and> unat w \<le> credit_cap)
        \<and> unat (fl_recv_granted f') = unat (fl_recv_granted f) + (case g of None \<Rightarrow> 0 | Some w \<Rightarrow> unat w)
        \<and> fl_send_credit f' = fl_send_credit f
        \<and> fl_local_closed f' = fl_local_closed f \<and> fl_remote_closed f' = fl_remote_closed f"
proof (cases "n \<le> unat (fl_recv_unreleased f)")
  case False
  then show ?thesis by (simp add: release_def)
next
  case True
  define h where "h = f\<lparr>fl_recv_unreleased := fl_recv_unreleased f - word_of_nat n,
                    fl_pending_grant := fl_pending_grant f + word_of_nat n\<rparr>"
  have rel: "release f n = (if fl_remote_closed h \<or> fl_pending_grant h < fl_grant_threshold h
      then Inr (None, h) else Inr (take_grant h))"
    using True by (simp add: release_def h_def)
  have h: "unat (fl_recv_unreleased h) + n = unat (fl_recv_unreleased f)"
    "unat (fl_pending_grant h) = unat (fl_pending_grant f) + n"
    "fl_recv_granted h = fl_recv_granted f" "fl_grant_threshold h = fl_grant_threshold f"
    "fl_send_credit h = fl_send_credit f" "fl_local_closed h = fl_local_closed f"
    "fl_remote_closed h = fl_remote_closed f"
    using True assms by (auto simp: h_def flow_inv_def credit_cap_def unat_sub_nat unat_add_nat)
  show ?thesis
  proof (cases "fl_remote_closed h \<or> fl_pending_grant h < fl_grant_threshold h")
    case True
    with \<open>n \<le> unat (fl_recv_unreleased f)\<close> h assms show ?thesis
      by (auto simp: rel flow_inv_def)
  next
    case False
    obtain g f' where tg: "take_grant h = (g, f')" by (cases "take_grant h")
    have "unat (fl_recv_granted h) + unat (fl_recv_unreleased h) + unat (fl_pending_grant h) = W"
      "W \<le> credit_cap"
      using h assms by (auto simp: flow_inv_def)
    from take_grant_spec [OF this(2,1)] tg
    have t: "fl_pending_grant f' = 0" "(case g of None \<Rightarrow> 0 | Some w \<Rightarrow> unat w) = unat (fl_pending_grant h)"
      "\<forall>w. g = Some w \<longrightarrow> w \<noteq> 0 \<and> unat w \<le> credit_cap"
      "unat (fl_recv_granted f') = unat (fl_recv_granted h) + unat (fl_pending_grant h)"
      "f' = h\<lparr>fl_pending_grant := 0, fl_recv_granted := fl_recv_granted f'\<rparr>"
      by auto
    have "fl_recv_unreleased f' = fl_recv_unreleased h" "fl_send_credit f' = fl_send_credit h"
      "fl_local_closed f' = fl_local_closed h" "fl_remote_closed f' = fl_remote_closed h"
      "fl_grant_threshold f' = fl_grant_threshold h"
      by (subst t(5), simp)+
    with False t(1-4) h assms \<open>n \<le> unat (fl_recv_unreleased f)\<close> show ?thesis
      by (auto simp: rel tg flow_inv_def word_less_nat_alt)
  qed
qed

interpretation flow_recv: credit_receiver
  "\<lambda>f. unat (fl_recv_granted f)" "\<lambda>f. unat (fl_recv_unreleased f)" "\<lambda>f. unat (fl_pending_grant f)"
  fl_remote_closed on_data release flow_inv
proof
  fix W f
  assume inv: "flow_inv W f"
  show "unat (fl_recv_granted f) + unat (fl_recv_unreleased f) + unat (fl_pending_grant f) = W"
    using inv by (simp add: flow_inv_def)
  show "\<not> fl_remote_closed f \<Longrightarrow> 0 < W \<Longrightarrow> unat (fl_pending_grant f) < W"
    using inv by (auto simp: flow_inv_def word_less_nat_alt)
  fix n
  show "\<not> fl_remote_closed f \<Longrightarrow> n \<le> unat (fl_recv_granted f) \<Longrightarrow>
     \<exists>f'. on_data f n = Inr f' \<and> flow_inv W f' \<and> unat (fl_recv_granted f') + n = unat (fl_recv_granted f)
        \<and> unat (fl_recv_unreleased f') = unat (fl_recv_unreleased f) + n
        \<and> unat (fl_pending_grant f') = unat (fl_pending_grant f) \<and> fl_remote_closed f' = fl_remote_closed f"
    using on_data_spec [OF inv, of n] by (auto simp: on_data_def split: if_splits)
  show "fl_remote_closed f \<or> unat (fl_recv_granted f) < n \<Longrightarrow> \<exists>e. on_data f n = Inl e"
    by (auto simp: on_data_def)
  show "n \<le> unat (fl_recv_unreleased f) \<Longrightarrow>
     \<exists>g f'. release f n = Inr (g, f') \<and> flow_inv W f'
        \<and> unat (fl_recv_unreleased f') + n = unat (fl_recv_unreleased f) \<and> fl_remote_closed f' = fl_remote_closed f
        \<and> unat (fl_recv_granted f') = unat (fl_recv_granted f) + (case g of None \<Rightarrow> 0 | Some w \<Rightarrow> unat w)"
    using release_spec [OF inv, of n] by (cases "release f n") (auto split: prod.splits)
  show "unat (fl_recv_unreleased f) < n \<Longrightarrow> \<exists>e. release f n = Inl e"
    by (auto simp: release_def)
qed

lemma flush_grant_spec:
  assumes "flow_inv W f"
  shows "case flush_grant f of (g, f') \<Rightarrow> flow_inv W f'
      \<and> (\<forall>w. g = Some w \<longrightarrow> \<not> fl_remote_closed f \<and> w \<noteq> 0 \<and> unat w \<le> credit_cap)
      \<and> unat (fl_recv_granted f') = unat (fl_recv_granted f) + (case g of None \<Rightarrow> 0 | Some w \<Rightarrow> unat w)
      \<and> fl_recv_unreleased f' = fl_recv_unreleased f \<and> fl_send_credit f' = fl_send_credit f
      \<and> fl_local_closed f' = fl_local_closed f \<and> fl_remote_closed f' = fl_remote_closed f"
proof (cases "fl_remote_closed f")
  case True
  then show ?thesis using assms by (simp add: flush_grant_def)
next
  case False
  obtain g f' where tg: "take_grant f = (g, f')" by (cases "take_grant f")
  from take_grant_spec [of W f] tg assms
  have t: "fl_pending_grant f' = 0" "(case g of None \<Rightarrow> 0 | Some w \<Rightarrow> unat w) = unat (fl_pending_grant f)"
    "\<forall>w. g = Some w \<longrightarrow> w \<noteq> 0 \<and> unat w \<le> credit_cap"
    "unat (fl_recv_granted f') = unat (fl_recv_granted f) + unat (fl_pending_grant f)"
    "f' = f\<lparr>fl_pending_grant := 0, fl_recv_granted := fl_recv_granted f'\<rparr>"
    by (auto simp: flow_inv_def)
  have eqs: "fl_recv_unreleased f' = fl_recv_unreleased f" "fl_send_credit f' = fl_send_credit f"
    "fl_local_closed f' = fl_local_closed f" "fl_remote_closed f' = fl_remote_closed f"
    "fl_grant_threshold f' = fl_grant_threshold f"
    by (subst t(5), simp)+
  show ?thesis
    using False assms t(1-4) eqs by (simp add: flush_grant_def tg flow_inv_def word_less_nat_alt)
qed

lemma on_close_remote_inv: "flow_inv W f \<Longrightarrow> flow_inv W (on_close_remote f)"
  by (simp add: flow_inv_def on_close_remote_def)

text \<open>Every grant fits a \<open>WINDOW\<close> frame, so the encoder never refuses one.\<close>

lemma grant_frame_valid:
  assumes "ch \<noteq> 0" and "w \<noteq> 0" and "unat w \<le> credit_cap"
  shows "validate (frame_window ch w) = Inr () \<and> window_credit (frame_window ch w) = Inr w"
proof -
  have "w \<le> MAX_CREDIT" using assms(3) by (simp add: word_le_nat_alt MAX_CREDIT_def credit_cap_def)
  then have "window_credit (frame_window ch w) = Inr w"
    using assms(2) by (auto simp: window_credit_def frame_window_def frame_new_def u32_to_be_def wire_simps)
  then show ?thesis
    using assms(1) by (auto simp: validate_def frame_window_def frame_new_def check_channel_def
        MAX_PAYLOAD_LEN_def)
qed

section \<open>Properties\<close>

text \<open>
  The receive ledger balances. Over every history of arrivals and consumptions that a new
  \<open>FlowControl\<close> accepts, the credit outstanding plus the bytes that arrived is the initial
  window plus the credit granted back, and what is still unreleased is what arrived and was
  not consumed; no \<open>u64\<close> counter wraps and the \<open>u32\<close> cast of a grant loses nothing.
\<close>

theorem flow_ledger:
  assumes "run_recv on_data release ops (flow_new s r) = Inr (t, f)"
  shows "unat (fl_recv_granted f) + arrived ops = unat (min r MAX_CREDIT) + t
    \<and> unat (fl_recv_unreleased f) + consumed ops = arrived ops"
  using flow_recv.run_recv_conserves [OF flow_new_inv assms]
  by (simp add: flow_new_def)

theorem flow_ledger_witness:
  "\<exists>f. run_recv on_data release [Arrive 6, Consume 5] (flow_new 0 10) = Inr (5, f)
     \<and> unat (fl_recv_granted f) + 6 = 10 + 5 \<and> unat (fl_recv_unreleased f) + 5 = 6"
proof -
  have run: "run_recv on_data release [Arrive 6, Consume 5] (flow_new 0 10) =
      Inr (5, \<lparr>fl_send_credit = 0, fl_recv_granted = 9, fl_recv_unreleased = 1, fl_pending_grant = 0,
        fl_grant_threshold = 5, fl_local_closed = False, fl_remote_closed = False\<rparr>)"
    by (simp add: on_data_def release_def take_grant_def flow_new_def MAX_CREDIT_def)
  show ?thesis using flow_ledger [OF run] run by (simp add: arrived_def consumed_def MAX_CREDIT_def)
qed

text \<open>
  No stall on byte streams. In any state reached from a new \<open>FlowControl\<close> with a non-empty
  window, when the peer has not closed and the application has consumed all it received, the
  peer still holds credit, although grants are batched at half the window.
\<close>

theorem flow_no_stall:
  assumes "run_recv on_data release ops (flow_new s r) = Inr (t, f)"
    and "r \<noteq> 0" and "\<not> fl_remote_closed f" and "consumed ops = arrived ops"
  shows "0 < unat (fl_recv_granted f)"
proof -
  note c = flow_recv.run_recv_conserves [OF flow_new_inv assms(1)]
  have "0 < unat (min r MAX_CREDIT)"
    using assms(2) by (simp add: MAX_CREDIT_def min_def unat_gt_0)
  moreover have "unat (fl_recv_unreleased f) = 0" using c assms(4) by (simp add: flow_new_def)
  ultimately show ?thesis using flow_recv.no_stall [of "unat (min r MAX_CREDIT)" f] c assms(3) by blast
qed

theorem flow_no_stall_witness:
  "\<exists>f. run_recv on_data release [Arrive 4, Consume 4] (flow_new 0 10) = Inr (0, f) \<and> 0 < unat (fl_recv_granted f)"
proof -
  have run: "run_recv on_data release [Arrive 4, Consume 4] (flow_new 0 10) =
      Inr (0, \<lparr>fl_send_credit = 0, fl_recv_granted = 6, fl_recv_unreleased = 0, fl_pending_grant = 4,
        fl_grant_threshold = 5, fl_local_closed = False, fl_remote_closed = False\<rparr>)"
    by (simp add: on_data_def release_def take_grant_def flow_new_def MAX_CREDIT_def)
  show ?thesis using flow_no_stall [OF run] run by (simp add: arrived_def consumed_def)
qed

end
