(* ===== verification/Errors.thy ===== *)
theory Errors
  imports Frame
begin

text \<open>
  The error values of the session runtime:
  \<^verbatim>\<open>proto/crates/enzarb-proto/src/session/error.rs\<close> and the role of a session
  (\<^verbatim>\<open>session/core.rs\<close>). The text of errors produced by third-party crates is a \<open>string\<close>.
\<close>

datatype role = Role_Client | Role_Server

datatype session_end =
    End_Closed
  | End_PeerClosed
  | End_Protocol string
  | End_Transport string

datatype session_error =
    SE_Ended session_end
  | SE_ChannelInUse u32
  | SE_ReservedChannel
  | SE_NoFreeChannel
  | SE_OpenRejected string
  | SE_OpenRejectedCode string string
  | SE_Remote string string
  | SE_WrongRole role
  | SE_ChannelClosed
  | SE_ChannelAborted string
  | SE_JsonTooLarge nat
  | SE_Frame frame_error
  | SE_Json string

fun se_open_error_code :: "session_error \<Rightarrow> string option" where
  "se_open_error_code (SE_OpenRejectedCode code message) = Some code"
| "se_open_error_code _ = None"

datatype handshake_error =
    HE_Transport string
  | HE_Protocol string
  | HE_UnsupportedVersion "u16 list"
  | HE_Rejected string string
  | HE_Closed

datatype io_error_kind = ConnectionAborted | BrokenPipe | OtherKind

text \<open>The kind of the \<^verbatim>\<open>std::io::Error\<close> that \<^verbatim>\<open>io_err\<close> builds.\<close>

fun io_err :: "session_error \<Rightarrow> io_error_kind" where
  "io_err (SE_Ended _) = ConnectionAborted"
| "io_err (SE_ChannelAborted _) = ConnectionAborted"
| "io_err SE_ChannelClosed = BrokenPipe"
| "io_err _ = OtherKind"

end
