(* ===== verification/Channel.thy ===== *)
theory Channel
  imports Flow Errors
begin

text \<open>
  Data channels: \<^verbatim>\<open>proto/crates/enzarb-proto/src/session/channel.rs\<close>. The state behind the
  channel's mutex is a record; an operation of the source, which runs under that mutex, is one
  function from the record to the record. What it does outside the record is in its result:
  the messages it pushes to the session's writer, the tasks it wakes, and whether it asks the
  session to forget the channel. A waker is the number of the task that registered it. A poll
  of a future takes that number and returns a \<open>poll\<close>; an \<^verbatim>\<open>async\<close> loop is polled until it is
  ready or has to wait.
\<close>

section \<open>State\<close>

definition SEND_CHUNK :: nat where
  "SEND_CHUNK = 16 * 1024"

datatype data = Bin bytes | Json bytes

fun data_bytes :: "data \<Rightarrow> bytes" where
  "data_bytes (Bin b) = b"
| "data_bytes (Json b) = b"

datatype fail = Fail_Session session_end | Fail_Aborted string

fun fail_error :: "fail \<Rightarrow> session_error" where
  "fail_error (Fail_Session e) = SE_Ended e"
| "fail_error (Fail_Aborted r) = SE_ChannelAborted r"

record chan =
  ch_id :: u32
  ch_flow :: flow
  ch_inbox :: "data list"
  ch_read_waker :: "nat option"
  ch_write_waker :: "nat option"
  ch_remote_close :: "close_info option"
  ch_failed :: "fail option"
  ch_recv_dropped :: bool

record chan_eff =
  eff_chan :: chan
  eff_out :: "bytes list"
  eff_woken :: "nat list"
  eff_forget :: bool

datatype 'a poll = Ready 'a | Pending | Panicked

definition chan_new :: "u32 \<Rightarrow> chan" where
  "chan_new i =
     \<lparr>ch_id = i, ch_flow = flow_default, ch_inbox = [], ch_read_waker = None, ch_write_waker = None,
      ch_remote_close = None, ch_failed = None, ch_recv_dropped = False\<rparr>"

text \<open>\<^verbatim>\<open>wake\<close>: the task of a waker, if one is registered.\<close>

definition wake :: "nat option \<Rightarrow> nat list" where
  "wake w = (case w of None \<Rightarrow> [] | Some t \<Rightarrow> [t])"

text \<open>A frame that does not encode is dropped silently.\<close>

definition chan_push :: "frame \<Rightarrow> bytes list" where
  "chan_push f = (case to_bytes f of Inl _ \<Rightarrow> [] | Inr b \<Rightarrow> [b])"

definition chan_grant :: "chan \<Rightarrow> u32 option \<Rightarrow> bytes list" where
  "chan_grant c g = (case g of None \<Rightarrow> [] | Some w \<Rightarrow> chan_push (frame_window (ch_id c) w))"

section \<open>Driver side\<close>

text \<open>\<^verbatim>\<open>release(len).ok().flatten().or_else(|| flush_grant())\<close>.\<close>

definition release_or_flush :: "flow \<Rightarrow> nat \<Rightarrow> u32 option \<times> flow" where
  "release_or_flush f len =
     (case release f len of
        Inl _ \<Rightarrow> flush_grant f
      | Inr (Some g, f') \<Rightarrow> (Some g, f')
      | Inr (None, f') \<Rightarrow> flush_grant f')"

definition chan_on_data :: "chan \<Rightarrow> bool \<Rightarrow> bytes \<Rightarrow> flow_error + chan_eff" where
  "chan_on_data c json payload =
     (case on_data (ch_flow c) (length payload) of
        Inl e \<Rightarrow> Inl e
      | Inr fl \<Rightarrow>
          if ch_recv_dropped c \<or> ch_failed c \<noteq> None then
            (let (g, fl') = release_or_flush fl (length payload)
             in Inr \<lparr>eff_chan = c\<lparr>ch_flow := fl'\<rparr>, eff_out = chan_grant c g, eff_woken = [], eff_forget = False\<rparr>)
          else
            Inr \<lparr>eff_chan = c\<lparr>ch_flow := fl,
                   ch_inbox := ch_inbox c @ [if json then Json payload else Bin payload],
                   ch_read_waker := None\<rparr>,
                 eff_out = [], eff_woken = wake (ch_read_waker c), eff_forget = False\<rparr>)"

definition chan_on_window :: "chan \<Rightarrow> u32 \<Rightarrow> flow_error + chan_eff" where
  "chan_on_window c credit =
     (case on_window (ch_flow c) credit of
        Inl e \<Rightarrow> Inl e
      | Inr fl \<Rightarrow>
          Inr \<lparr>eff_chan = c\<lparr>ch_flow := fl, ch_write_waker := None\<rparr>,
               eff_out = [], eff_woken = wake (ch_write_waker c), eff_forget = False\<rparr>)"

definition chan_on_close :: "chan \<Rightarrow> close_info \<Rightarrow> chan_eff" where
  "chan_on_close c info =
     (let fl = on_close_remote (ch_flow c)
      in \<lparr>eff_chan = c\<lparr>ch_flow := fl, ch_remote_close := Some info,
                       ch_read_waker := None, ch_write_waker := None\<rparr>,
          eff_out = [], eff_woken = wake (ch_read_waker c) @ wake (ch_write_waker c),
          eff_forget = flow_is_closed fl\<rparr>)"

definition chan_abort :: "chan \<Rightarrow> string \<Rightarrow> chan_eff" where
  "chan_abort c reason =
     (let (send_close, fl) = (case close_local (ch_flow c) of
                                Inl _ \<Rightarrow> (False, ch_flow c)
                              | Inr fl \<Rightarrow> (True, fl))
      in \<lparr>eff_chan = c\<lparr>ch_flow := fl, ch_failed := Some (Fail_Aborted reason), ch_inbox := [],
                       ch_read_waker := None, ch_write_waker := None\<rparr>,
          eff_out = (if send_close then chan_push (frame_close (ch_id c) close_PROTOCOL_ERROR reason) else []),
          eff_woken = wake (ch_read_waker c) @ wake (ch_write_waker c),
          eff_forget = True\<rparr>)"

definition chan_fail :: "chan \<Rightarrow> session_end \<Rightarrow> chan_eff" where
  "chan_fail c e =
     \<lparr>eff_chan = c\<lparr>ch_failed := (case ch_failed c of None \<Rightarrow> Some (Fail_Session e) | Some f \<Rightarrow> Some f),
                   ch_read_waker := None, ch_write_waker := None\<rparr>,
      eff_out = [], eff_woken = wake (ch_read_waker c) @ wake (ch_write_waker c), eff_forget = False\<rparr>"

definition chan_is_local_closed :: "chan \<Rightarrow> bool" where
  "chan_is_local_closed c = fl_local_closed (ch_flow c)"

definition chan_close_local :: "chan \<Rightarrow> u16 \<Rightarrow> string \<Rightarrow> session_error + chan_eff" where
  "chan_close_local c code reason =
     (case close_local (ch_flow c) of
        Inl _ \<Rightarrow> Inl SE_ChannelClosed
      | Inr fl \<Rightarrow>
          Inr \<lparr>eff_chan = c\<lparr>ch_flow := fl, ch_write_waker := None\<rparr>,
               eff_out = chan_push (frame_close (ch_id c) code reason),
               eff_woken = wake (ch_write_waker c),
               eff_forget = flow_is_closed fl\<rparr>)"

section \<open>User side\<close>

definition poll_reserve :: "chan \<Rightarrow> nat \<Rightarrow> nat \<Rightarrow> bool \<Rightarrow> (session_error + nat) poll \<times> chan" where
  "poll_reserve c task want exact =
     (case ch_failed c of
        Some f \<Rightarrow> (Ready (Inl (fail_error f)), c)
      | None \<Rightarrow>
          if fl_local_closed (ch_flow c) then (Ready (Inl SE_ChannelClosed), c)
          else
            (let cap = (if exact then want else min want SEND_CHUNK);
                 n = sendable (ch_flow c) cap
             in if n = 0 \<or> exact \<and> n < want then (Pending, c\<lparr>ch_write_waker := Some task\<rparr>)
                else (case on_send (ch_flow c) n of
                        Inl _ \<Rightarrow> (Panicked, c)
                      | Inr fl \<Rightarrow> (Ready (Inr n), c\<lparr>ch_flow := fl\<rparr>))))"

text \<open>\<^verbatim>\<open>release(n).ok().flatten()\<close>.\<close>

definition release_quiet :: "flow \<Rightarrow> nat \<Rightarrow> u32 option \<times> flow" where
  "release_quiet f n = (case release f n of Inl _ \<Rightarrow> (None, f) | Inr r \<Rightarrow> r)"

definition poll_item :: "chan \<Rightarrow> nat \<Rightarrow> data option poll \<times> chan \<times> bytes list" where
  "poll_item c task =
     (case ch_inbox c of
        d # ds \<Rightarrow>
          (let (g, fl) = release_quiet (ch_flow c) (length (data_bytes d))
           in (Ready (Some d), c\<lparr>ch_inbox := ds, ch_flow := fl\<rparr>, chan_grant c g))
      | [] \<Rightarrow>
          if ch_remote_close c \<noteq> None \<or> ch_failed c \<noteq> None then (Ready None, c, [])
          else (Pending, c\<lparr>ch_read_waker := Some task\<rparr>, []))"

text \<open>\<^verbatim>\<open>b.advance(n)\<close> on the item at the front of the inbox.\<close>

fun data_advance :: "nat \<Rightarrow> data \<Rightarrow> data" where
  "data_advance n (Bin b) = Bin (drop n b)"
| "data_advance n (Json b) = Json (drop n b)"

text \<open>\<open>room\<close> is \<^verbatim>\<open>buf.remaining()\<close>; a ready result carries the bytes put into the buffer.\<close>

definition poll_read_into :: "chan \<Rightarrow> nat \<Rightarrow> nat \<Rightarrow> (io_error_kind + bytes) poll \<times> chan \<times> bytes list" where
  "poll_read_into c task room =
     (case ch_inbox c of
        d # ds \<Rightarrow>
          (let n = min (length (data_bytes d)) room
           in if n = 0 then (Ready (Inr []), c, [])
              else
                (let rest = data_advance n d;
                     inbox = (if data_bytes rest = [] then ds else rest # ds);
                     (g, fl) = release_quiet (ch_flow c) n
                 in (Ready (Inr (take n (data_bytes d))), c\<lparr>ch_inbox := inbox, ch_flow := fl\<rparr>, chan_grant c g)))
      | [] \<Rightarrow>
          if ch_remote_close c \<noteq> None then (Ready (Inr []), c, [])
          else (case ch_failed c of
                  Some f \<Rightarrow> (Ready (Inl (io_err (fail_error f))), c, [])
                | None \<Rightarrow> (Pending, c\<lparr>ch_read_waker := Some task\<rparr>, [])))"

section \<open>The halves of a handle\<close>

definition sender_credit :: "chan \<Rightarrow> nat" where
  "sender_credit c = unat (fl_send_credit (ch_flow c))"

lemma poll_reserve_progress:
  "poll_reserve c task want exact = (Ready (Inr n), c') \<Longrightarrow> 0 < n \<and> n \<le> want"
  by (auto simp: poll_reserve_def Let_def sendable_def split: option.splits if_splits sum.splits)

text \<open>
  A poll of \<^verbatim>\<open>ChannelSender::send\<close>: reserve, push, repeat. The third component is the part of
  the data not sent yet (what the suspended future holds).
\<close>

function send_poll :: "chan \<Rightarrow> nat \<Rightarrow> bytes \<Rightarrow> (session_error + unit) poll \<times> chan \<times> bytes \<times> bytes list" where
  "send_poll c task data =
     (if data = [] then (Ready (Inr ()), c, [], [])
      else (case poll_reserve c task (length data) False of
              (Pending, c') \<Rightarrow> (Pending, c', data, [])
            | (Panicked, c') \<Rightarrow> (Panicked, c', data, [])
            | (Ready (Inl e), c') \<Rightarrow> (Ready (Inl e), c', data, [])
            | (Ready (Inr n), c') \<Rightarrow>
                (let (r, c'', rest, out) = send_poll c' task (drop n data)
                 in (r, c'', rest, chan_push (frame_data_bin (ch_id c) (take n data)) @ out))))"
  by pat_completeness auto
termination
  by (relation "measure (\<lambda>(c, task, data). length data)") (auto dest!: poll_reserve_progress [OF sym])

declare send_poll.simps [simp del]

text \<open>\<^verbatim>\<open>send_json\<close> once the value is serialised to \<open>body\<close>; one poll.\<close>

definition send_json_poll :: "chan \<Rightarrow> nat \<Rightarrow> bytes \<Rightarrow> (session_error + unit) poll \<times> chan \<times> bytes list" where
  "send_json_poll c task body =
     (if length body > unat INITIAL_WINDOW then (Ready (Inl (SE_JsonTooLarge (length body))), c, [])
      else (case poll_reserve c task (length body) True of
              (Pending, c') \<Rightarrow> (Pending, c', [])
            | (Panicked, c') \<Rightarrow> (Panicked, c', [])
            | (Ready (Inl e), c') \<Rightarrow> (Ready (Inl e), c', [])
            | (Ready (Inr n), c') \<Rightarrow>
                (Ready (Inr ()), c', chan_push (frame_new FT_DataJson (ch_id c) body))))"

definition send_json :: "('v \<Rightarrow> string + bytes) \<Rightarrow> chan \<Rightarrow> nat \<Rightarrow> 'v
    \<Rightarrow> (session_error + unit) poll \<times> chan \<times> bytes list" where
  "send_json to_vec c task v =
     (case to_vec v of Inl e \<Rightarrow> (Ready (Inl (SE_Json e)), c, []) | Inr body \<Rightarrow> send_json_poll c task body)"

definition poll_write :: "chan \<Rightarrow> nat \<Rightarrow> bytes \<Rightarrow> (io_error_kind + nat) poll \<times> chan \<times> bytes list" where
  "poll_write c task buf =
     (if buf = [] then (Ready (Inr 0), c, [])
      else (case poll_reserve c task (length buf) False of
              (Pending, c') \<Rightarrow> (Pending, c', [])
            | (Panicked, c') \<Rightarrow> (Panicked, c', [])
            | (Ready (Inl e), c') \<Rightarrow> (Ready (Inl (io_err e)), c', [])
            | (Ready (Inr n), c') \<Rightarrow>
                (Ready (Inr n), c', chan_push (frame_data_bin (ch_id c) (take n buf)))))"

text \<open>\<^verbatim>\<open>poll_shutdown\<close> and dropping the sender: a normal close, ignored when already closed.\<close>

definition sender_drop :: "chan \<Rightarrow> chan_eff" where
  "sender_drop c =
     (case chan_close_local c close_NORMAL [] of
        Inl _ \<Rightarrow> \<lparr>eff_chan = c, eff_out = [], eff_woken = [], eff_forget = False\<rparr>
      | Inr e \<Rightarrow> e)"

definition inbox_bytes :: "data list \<Rightarrow> nat" where
  "inbox_bytes ds = sum_list (map (\<lambda>d. length (data_bytes d)) ds)"

definition receiver_drop :: "chan \<Rightarrow> chan \<times> bytes list" where
  "receiver_drop c =
     (let (g, fl) = release_or_flush (ch_flow c) (inbox_bytes (ch_inbox c))
      in (c\<lparr>ch_recv_dropped := True, ch_inbox := [], ch_flow := fl\<rparr>, chan_grant c g))"

definition recv_json :: "(bytes \<Rightarrow> string + 'v) \<Rightarrow> chan \<Rightarrow> nat
    \<Rightarrow> (session_error + 'v option) poll \<times> chan \<times> bytes list" where
  "recv_json from_slice c task =
     (case poll_item c task of
        (Pending, c', out) \<Rightarrow> (Pending, c', out)
      | (Panicked, c', out) \<Rightarrow> (Panicked, c', out)
      | (Ready None, c', out) \<Rightarrow> (Ready (Inr None), c', out)
      | (Ready (Some d), c', out) \<Rightarrow>
          (case from_slice (data_bytes d) of
             Inl e \<Rightarrow> (Ready (Inl (SE_Json e)), c', out)
           | Inr v \<Rightarrow> (Ready (Inr (Some v)), c', out)))"

section \<open>What one frame does to its channel\<close>

text \<open>
  The per-channel part of the session's \<^verbatim>\<open>handle_frame\<close>: data, window and close frames for a
  channel in the table. \<open>Inl\<close> is the flow violation the session answers by aborting the channel.
\<close>

definition chan_frame :: "chan \<Rightarrow> frame \<Rightarrow> flow_error + chan_eff" where
  "chan_frame c f =
     (case f_type f of
        FT_Window \<Rightarrow> chan_on_window c (case window_credit f of Inl _ \<Rightarrow> 0 | Inr w \<Rightarrow> w)
      | FT_Close \<Rightarrow>
          (case frame_close_info f of
             Inl _ \<Rightarrow> Inr \<lparr>eff_chan = c, eff_out = [], eff_woken = [], eff_forget = False\<rparr>
           | Inr info \<Rightarrow> Inr (chan_on_close c info))
      | FT_Ctrl \<Rightarrow> Inr \<lparr>eff_chan = c, eff_out = [], eff_woken = [], eff_forget = False\<rparr>
      | _ \<Rightarrow> chan_on_data c (f_type f = FT_DataJson) (f_payload f))"

section \<open>Invariant\<close>

abbreviation credit_of :: "chan \<Rightarrow> nat" where
  "credit_of c \<equiv> unat (fl_send_credit (ch_flow c))"

abbreviation granted_of :: "chan \<Rightarrow> nat" where
  "granted_of c \<equiv> unat (fl_recv_granted (ch_flow c))"

abbreviation held_of :: "chan \<Rightarrow> nat" where
  "held_of c \<equiv> unat (fl_recv_unreleased (ch_flow c))"

abbreviation lclosed :: "chan \<Rightarrow> bool" where
  "lclosed c \<equiv> fl_local_closed (ch_flow c)"

abbreviation rclosed :: "chan \<Rightarrow> bool" where
  "rclosed c \<equiv> fl_remote_closed (ch_flow c)"

definition window_bytes :: nat where
  "window_bytes = 262144"

definition aborted :: "chan \<Rightarrow> bool" where
  "aborted c \<longleftrightarrow> (\<exists>r. ch_failed c = Some (Fail_Aborted r))"

text \<open>
  The bytes the flow control holds as received and not released are the bytes of the inbox
  (an aborted channel has discarded its inbox); inbox items are not empty, so a read of zero
  bytes means the end of the stream.
\<close>

definition chan_inv :: "chan \<Rightarrow> bool" where
  "chan_inv c \<longleftrightarrow>
     ch_id c \<noteq> 0 \<and> flow_inv window_bytes (ch_flow c)
     \<and> inbox_bytes (ch_inbox c) \<le> held_of c
     \<and> (\<not> aborted c \<longrightarrow> inbox_bytes (ch_inbox c) = held_of c)
     \<and> (\<forall>d \<in> set (ch_inbox c). data_bytes d \<noteq> [])
     \<and> (ch_recv_dropped c \<longrightarrow> ch_inbox c = [])
     \<and> (rclosed c \<longleftrightarrow> ch_remote_close c \<noteq> None)"

lemma inbox_bytes_simps [simp]:
  "inbox_bytes [] = 0"
  "inbox_bytes (d # ds) = length (data_bytes d) + inbox_bytes ds"
  "inbox_bytes (ds @ es) = inbox_bytes ds + inbox_bytes es"
  by (simp_all add: inbox_bytes_def)

text \<open>Releasing \<open>n\<close> bytes and what comes of it, for the three ways the channel does it.\<close>

definition credits :: "nat \<Rightarrow> flow \<Rightarrow> u32 option \<Rightarrow> flow \<Rightarrow> bool" where
  "credits n f g f' \<longleftrightarrow>
     flow_inv window_bytes f' \<and> unat (fl_recv_unreleased f') + n = unat (fl_recv_unreleased f)
     \<and> (\<forall>w. g = Some w \<longrightarrow> \<not> fl_remote_closed f \<and> w \<noteq> 0 \<and> unat w \<le> credit_cap)
     \<and> unat (fl_recv_granted f') = unat (fl_recv_granted f) + (case g of None \<Rightarrow> 0 | Some w \<Rightarrow> unat w)
     \<and> fl_send_credit f' = fl_send_credit f
     \<and> fl_local_closed f' = fl_local_closed f \<and> fl_remote_closed f' = fl_remote_closed f"

lemma release_credits:
  assumes "flow_inv window_bytes f" and "n \<le> unat (fl_recv_unreleased f)"
  shows "\<exists>g f'. release f n = Inr (g, f') \<and> credits n f g f'"
  using release_spec [OF assms(1), of n] assms(2)
  by (cases "release f n") (auto simp: credits_def split: prod.splits)

lemma release_quiet_credits:
  assumes "flow_inv window_bytes f" and "n \<le> unat (fl_recv_unreleased f)"
  shows "case release_quiet f n of (g, f') \<Rightarrow> credits n f g f'"
  using release_credits [OF assms] by (auto simp: release_quiet_def)

lemma release_or_flush_credits:
  assumes "flow_inv window_bytes f" and "n \<le> unat (fl_recv_unreleased f)"
  shows "case release_or_flush f n of (g, f') \<Rightarrow> credits n f g f'"
proof -
  obtain g f' where r: "release f n = Inr (g, f')" "credits n f g f'"
    using release_credits [OF assms] by blast
  show ?thesis
  proof (cases g)
    case (Some w)
    then show ?thesis using r by (simp add: release_or_flush_def)
  next
    case None
    obtain h f'' where fl: "flush_grant f' = (h, f'')" by (cases "flush_grant f'")
    have "flow_inv window_bytes f'" using r by (simp add: credits_def)
    from flush_grant_spec [OF this] fl r None have "credits n f h f''"
      by (auto simp: credits_def)
    then show ?thesis using r None fl by (simp add: release_or_flush_def)
  qed
qed

lemma chan_new_inv: "i \<noteq> 0 \<Longrightarrow> chan_inv (chan_new i)"
  using flow_default_inv
  by (auto simp: chan_inv_def chan_new_def window_bytes_def aborted_def flow_default_def flow_new_def)

lemma chan_inv_flow: "chan_inv c \<Longrightarrow> flow_inv window_bytes (ch_flow c)"
  by (simp add: chan_inv_def)

lemma poll_reserve_cases:
  assumes "chan_inv c" and "poll_reserve c task want exact = (r, c')"
  shows "(case r of
      Ready (Inr n) \<Rightarrow> 0 < n \<and> n \<le> want \<and> (exact \<longrightarrow> n = want) \<and> (\<not> exact \<longrightarrow> n \<le> SEND_CHUNK)
        \<and> ch_failed c = None \<and> \<not> lclosed c \<and> credit_of c' + n = credit_of c
        \<and> c' = c\<lparr>ch_flow := ch_flow c'\<rparr>
        \<and> ch_flow c' = (ch_flow c)\<lparr>fl_send_credit := fl_send_credit (ch_flow c')\<rparr>
    | Ready (Inl e) \<Rightarrow> c' = c \<and> (ch_failed c \<noteq> None \<or> lclosed c)
    | Pending \<Rightarrow> c' = c\<lparr>ch_write_waker := Some task\<rparr> \<and> ch_failed c = None \<and> \<not> lclosed c
        \<and> (want = 0 \<or> credit_of c = 0 \<or> exact \<and> credit_of c < want)
    | Panicked \<Rightarrow> False) \<and> chan_inv c'"
proof (cases "ch_failed c")
  case (Some f)
  then show ?thesis using assms by (auto simp: poll_reserve_def)
next
  case None
  define n where "n = sendable (ch_flow c) (if exact then want else min want SEND_CHUNK)"
  show ?thesis
  proof (cases "lclosed c \<or> n = 0 \<or> exact \<and> n < want")
    case True
    then show ?thesis
      using assms None
      by (auto simp: poll_reserve_def n_def Let_def sendable_def SEND_CHUNK_def chan_inv_def aborted_def
          split: if_splits)
  next
    case False
    then have n: "n \<le> credit_of c" "n \<le> want" "0 < n"
      by (auto simp: n_def sendable_def split: if_splits)
    then obtain fl where fl: "on_send (ch_flow c) n = Inr fl"
      using False by (auto simp: on_send_def)
    have spec: "flow_inv window_bytes fl" "unat (fl_send_credit fl) + n = credit_of c"
      "fl = (ch_flow c)\<lparr>fl_send_credit := fl_send_credit fl\<rparr>"
      using on_send_spec [OF chan_inv_flow [OF assms(1)], of n] fl by auto
    have eqs: "fl_recv_unreleased fl = fl_recv_unreleased (ch_flow c)" "fl_remote_closed fl = rclosed c"
      by (subst spec(3), simp)+
    have "poll_reserve c task want exact = (Ready (Inr n), c\<lparr>ch_flow := fl\<rparr>)"
      using False None fl by (auto simp: poll_reserve_def n_def Let_def)
    then show ?thesis
      using assms False None n spec eqs
      by (auto simp: chan_inv_def aborted_def n_def sendable_def split: if_splits)
  qed
qed

section \<open>Wake-ups\<close>

text \<open>Everything that can happen to a channel other than a call of the blocked half itself.\<close>

inductive chan_event :: "chan \<Rightarrow> chan_eff \<Rightarrow> bool" where
  ev_frame: "chan_frame c f = Inr e \<Longrightarrow> chan_event c e"
| ev_abort: "chan_event c (chan_abort c reason)"
| ev_fail: "chan_event c (chan_fail c x)"
| ev_close: "chan_close_local c code reason = Inr e \<Longrightarrow> chan_event c e"

definition same_send :: "flow \<Rightarrow> flow \<Rightarrow> bool" where
  "same_send f f' \<longleftrightarrow> fl_send_credit f' = fl_send_credit f \<and> fl_local_closed f' = fl_local_closed f"

lemma release_or_flush_same_send: "release_or_flush f n = (g, f') \<Longrightarrow> same_send f f'"
  by (auto simp: release_or_flush_def release_def flush_grant_def take_grant_def same_send_def Let_def
      split: sum.splits option.splits if_splits prod.splits)

lemma on_data_same_send: "on_data f n = Inr f' \<Longrightarrow> same_send f f'"
  by (auto simp: on_data_def same_send_def split: if_splits)

lemma chan_on_data_write_waker:
  assumes "chan_on_data c json p = Inr e"
  shows "ch_write_waker (eff_chan e) = ch_write_waker c \<and> ch_failed (eff_chan e) = ch_failed c
    \<and> same_send (ch_flow c) (ch_flow (eff_chan e))"
  using assms
  by (auto simp: chan_on_data_def same_send_def dest!: on_data_same_send release_or_flush_same_send
     split: sum.splits if_splits prod.splits)

lemma event_write_waker:
  assumes "chan_event c e" and "ch_write_waker c = Some t"
  shows "t \<in> set (eff_woken e) \<or> ch_write_waker (eff_chan e) = Some t \<and> ch_failed (eff_chan e) = ch_failed c
    \<and> same_send (ch_flow c) (ch_flow (eff_chan e))"
  using assms
proof (induction rule: chan_event.induct)
  case (ev_frame c f e)
  show ?case
  proof (cases "f_type f = FT_DataBin \<or> f_type f = FT_DataJson")
    case True
    then have "chan_on_data c (f_type f = FT_DataJson) (f_payload f) = Inr e"
      using ev_frame by (auto simp: chan_frame_def)
    from chan_on_data_write_waker [OF this] show ?thesis using ev_frame.prems by simp
  qed (use ev_frame in \<open>auto simp: chan_frame_def chan_on_window_def chan_on_close_def wake_def Let_def
       same_send_def split: frame_type.splits sum.splits\<close>)
qed (auto simp: chan_abort_def chan_fail_def chan_close_local_def wake_def Let_def split: sum.splits prod.splits)

lemma poll_reserve_same:
  assumes "ch_failed c' = ch_failed c" and "same_send (ch_flow c) (ch_flow c')"
    and "fst (poll_reserve c t want ex) = Pending"
  shows "fst (poll_reserve c' t' want ex) = Pending"
  using assms by (auto simp: poll_reserve_def same_send_def sendable_def on_send_def Let_def split: option.splits if_splits sum.splits)

lemma event_read_waker:
  assumes "chan_event c e" and "ch_read_waker c = Some t" and "ch_inbox c = []" and "\<not> ch_recv_dropped c"
    and "ch_failed c = None"
  shows "t \<in> set (eff_woken e) \<or> ch_read_waker (eff_chan e) = Some t \<and> ch_inbox (eff_chan e) = []
    \<and> ch_remote_close (eff_chan e) = ch_remote_close c \<and> ch_failed (eff_chan e) = ch_failed c"
  using assms
proof (induction rule: chan_event.induct)
  case (ev_frame c f e)
  then show ?case
   by (auto simp: chan_frame_def chan_on_window_def chan_on_close_def chan_on_data_def wake_def Let_def
        split: frame_type.splits sum.splits)
qed (auto simp: chan_abort_def chan_fail_def chan_close_local_def wake_def Let_def split: sum.splits prod.splits)

section \<open>Properties\<close>

text \<open>
  No lost wake-up for a writer. A task whose reservation of credit is pending is woken by
  every later event of the channel that could let it go on (credit, close, abort, end of the
  session): after any event it has been woken, or it is still registered and polling again
  would still be pending.
\<close>

theorem writer_not_lost:
  assumes "poll_reserve c t want ex = (Pending, c')" and "chan_event c' e"
  shows "t \<in> set (eff_woken e)
    \<or> ch_write_waker (eff_chan e) = Some t \<and> fst (poll_reserve (eff_chan e) t want ex) = Pending"
proof -
  have c': "c' = c\<lparr>ch_write_waker := Some t\<rparr>"
    using assms(1) by (auto simp: poll_reserve_def Let_def split: option.splits if_splits sum.splits)
  then have "fst (poll_reserve c' t want ex) = Pending"
    using assms(1) poll_reserve_same [of c' c t want ex t] by (simp add: same_send_def)
  then show ?thesis
    using event_write_waker [OF assms(2), of t] poll_reserve_same [of "eff_chan e" c'] by (auto simp: c')
qed

theorem writer_not_lost_witness:
  "let c' = (chan_new 1)\<lparr>ch_write_waker := Some 5\<rparr>; e = chan_abort c' ''x''
   in poll_reserve (chan_new 1) 5 300000 True = (Pending, c')
     \<and> (5 \<in> set (eff_woken e)
        \<or> ch_write_waker (eff_chan e) = Some 5 \<and> fst (poll_reserve (eff_chan e) 5 300000 True) = Pending)"
proof -
  have p: "poll_reserve (chan_new 1) 5 300000 True = (Pending, (chan_new 1)\<lparr>ch_write_waker := Some 5\<rparr>)"
    by (simp add: poll_reserve_def chan_new_def flow_default_def flow_new_def sendable_def INITIAL_WINDOW_def
        MAX_CREDIT_def)
  show ?thesis using writer_not_lost [OF p ev_abort] p by (simp add: Let_def)
qed

text \<open>
  No lost wake-up for a reader. A task that waits for data on an empty inbox is woken by
  every later event that ends the wait: after any event it has been woken, or it is still
  registered and there is still nothing to return.
\<close>

theorem reader_not_lost:
  assumes "poll_item c t = (Pending, c', out)" and "\<not> ch_recv_dropped c" and "chan_event c' e"
  shows "t \<in> set (eff_woken e)
    \<or> ch_read_waker (eff_chan e) = Some t \<and> fst (poll_item (eff_chan e) t) = Pending"
proof -
  have c': "c' = c\<lparr>ch_read_waker := Some t\<rparr>" "ch_inbox c = []" "ch_remote_close c = None" "ch_failed c = None"
    using assms(1) by (auto simp: poll_item_def split: list.splits if_splits prod.splits)
  then show ?thesis
    using event_read_waker [OF assms(3), of t] assms(2) by (auto simp: poll_item_def)
qed

theorem reader_not_lost_witness:
  "let c' = (chan_new 1)\<lparr>ch_read_waker := Some 5\<rparr>; e = chan_fail c' End_PeerClosed
   in poll_item (chan_new 1) 5 = (Pending, c', [])
     \<and> (5 \<in> set (eff_woken e)
        \<or> ch_read_waker (eff_chan e) = Some 5 \<and> fst (poll_item (eff_chan e) 5) = Pending)"
proof -
  have p: "poll_item (chan_new 1) 5 = (Pending, (chan_new 1)\<lparr>ch_read_waker := Some 5\<rparr>, [])"
    by (simp add: poll_item_def chan_new_def)
  have "\<not> ch_recv_dropped (chan_new 1)" by (simp add: chan_new_def)
  from reader_not_lost [OF p this ev_fail] p show ?thesis by (simp add: Let_def)
qed

end
