(* ===== verification/Machine_Interface.thy ===== *)
theory Machine_Interface
  imports Main
begin

text \<open>
  State machines with an invariant, as a locale: the initial states satisfy it, every step
  keeps it; hence it holds in every reachable state. A second locale adds a rank that bounds the
  length of a run.
\<close>

locale machine =
  fixes init :: "'s \<Rightarrow> bool" and step :: "'s \<Rightarrow> 's \<Rightarrow> bool" and good :: "'s \<Rightarrow> bool"
  assumes good_init: "init s \<Longrightarrow> good s"
    and good_step: "good s \<Longrightarrow> step s s' \<Longrightarrow> good s'"
begin

definition reachable :: "'s \<Rightarrow> bool" where
  "reachable s \<longleftrightarrow> (\<exists>s0. init s0 \<and> step\<^sup>*\<^sup>* s0 s)"

lemma good_steps: "step\<^sup>*\<^sup>* s s' \<Longrightarrow> good s \<Longrightarrow> good s'"
  by (induction rule: rtranclp_induct) (auto intro: good_step)

lemma good_reachable: "init s0 \<Longrightarrow> step\<^sup>*\<^sup>* s0 s \<Longrightarrow> good s"
  using good_steps good_init by blast

end

text \<open>
  A machine that halts: a state that has halted stays halted, and a step between running states
  lowers a rank. So a running state is at most the initial rank many steps away.
\<close>

locale bounded_machine = machine +
  fixes running :: "'a \<Rightarrow> bool" and rank :: "'a \<Rightarrow> nat"
  assumes halted_step: "good s \<Longrightarrow> \<not> running s \<Longrightarrow> step s s' \<Longrightarrow> \<not> running s'"
    and rank_step: "good s \<Longrightarrow> running s \<Longrightarrow> step s s' \<Longrightarrow> running s' \<Longrightarrow> rank s' < rank s"
begin

lemma steps_rank: "(step ^^ n) s s' \<Longrightarrow> good s \<Longrightarrow> running s' \<Longrightarrow> n + rank s' \<le> rank s"
proof (induction n arbitrary: s')
  case (Suc n)
  then obtain t where t: "(step ^^ n) s t" "step t s'" by auto
  then have "good t" using Suc.prems(2) good_steps relpowp_imp_rtranclp by metis
  then have "running t" using halted_step t(2) Suc.prems(3) by blast
  then have "n + rank t \<le> rank s" using Suc t by blast
  then show ?case using rank_step [OF \<open>good t\<close> \<open>running t\<close> t(2) Suc.prems(3)] by simp
qed simp

lemma halts: "(step ^^ n) s s' \<Longrightarrow> good s \<Longrightarrow> rank s < n \<Longrightarrow> \<not> running s'"
  using steps_rank by fastforce

end

end
