(* ===== verification/Link.thy ===== *)
theory Link
  imports Channel Machine_Interface
begin

text \<open>
  Two endpoints of one data channel and the two ordered streams of messages between them.
  Each endpoint is a \<open>chan\<close> driven by the operations of \<open>Channel\<close>; every message is the bytes
  the codec produced. A step is any operation by either user or the delivery of the oldest
  message of a stream. The invariant relates the credit the sender holds, the bytes and
  grants in flight and the credit the receiver granted; it follows that no interleaving makes
  either side see a flow-control violation.
\<close>

section \<open>Messages in flight\<close>

definition fr_data :: "frame \<Rightarrow> nat" where
  "fr_data f = (if f_type f = FT_DataBin \<or> f_type f = FT_DataJson then length (f_payload f) else 0)"

definition fr_credit :: "frame \<Rightarrow> nat" where
  "fr_credit f = (if f_type f = FT_Window
     then (case window_credit f of Inl _ \<Rightarrow> 0 | Inr w \<Rightarrow> unat w) else 0)"

definition fr_of :: "bytes \<Rightarrow> frame option" where
  "fr_of m = (case from_bytes m of Inl _ \<Rightarrow> None | Inr f \<Rightarrow> Some f)"

definition msg_data :: "bytes \<Rightarrow> nat" where
  "msg_data m = (case fr_of m of None \<Rightarrow> 0 | Some f \<Rightarrow> fr_data f)"

definition msg_credit :: "bytes \<Rightarrow> nat" where
  "msg_credit m = (case fr_of m of None \<Rightarrow> 0 | Some f \<Rightarrow> fr_credit f)"

definition msg_close :: "bytes \<Rightarrow> bool" where
  "msg_close m \<longleftrightarrow> (\<exists>f. fr_of m = Some f \<and> f_type f = FT_Close)"

definition msg_ok :: "bytes \<Rightarrow> bool" where
  "msg_ok m \<longleftrightarrow> (\<exists>f. fr_of m = Some f \<and> f_type f \<noteq> FT_Ctrl)"

definition wire_data :: "bytes list \<Rightarrow> nat" where
  "wire_data ms = sum_list (map msg_data ms)"

definition wire_credit :: "bytes list \<Rightarrow> nat" where
  "wire_credit ms = sum_list (map msg_credit ms)"

abbreviation wire_close :: "bytes list \<Rightarrow> bool" where
  "wire_close ms \<equiv> (\<exists>m \<in> set ms. msg_close m)"

text \<open>No data behind a \<open>CLOSE\<close>.\<close>

fun wire_ordered :: "bytes list \<Rightarrow> bool" where
  "wire_ordered [] = True"
| "wire_ordered (m # ms) = ((msg_close m \<longrightarrow> wire_data ms = 0) \<and> wire_ordered ms)"

lemma wire_sums [simp]:
  "wire_data [] = 0" "wire_data (m # ms) = msg_data m + wire_data ms"
  "wire_data (ms @ ns) = wire_data ms + wire_data ns"
  "wire_credit [] = 0" "wire_credit (m # ms) = msg_credit m + wire_credit ms"
  "wire_credit (ms @ ns) = wire_credit ms + wire_credit ns"
  by (simp_all add: wire_data_def wire_credit_def)

lemma wire_ordered_append:
  "wire_ordered (ms @ ns) \<longleftrightarrow> wire_ordered ms \<and> wire_ordered ns \<and> (wire_close ms \<longrightarrow> wire_data ns = 0)"
  by (induction ms) auto

lemma chan_push_cases:
  obtains "chan_push f = []" "validate f \<noteq> Inr ()"
  | m where "chan_push f = [m]" "fr_of m = Some f" "validate f = Inr ()"
proof (cases "to_bytes f")
  case (Inl e)
  then have "chan_push f = []" "validate f \<noteq> Inr ()"
    by (auto simp: chan_push_def to_bytes_eq)
  then show ?thesis by (rule that(1))
next
  case (Inr m)
  have "from_bytes m = Inr f" using to_bytes_InrD [OF Inr] from_bytes_header_bytes by auto
  then have "chan_push f = [m]" "fr_of m = Some f" "validate f = Inr ()"
    using Inr to_bytes_InrD [OF Inr] by (auto simp: chan_push_def fr_of_def)
  then show ?thesis by (rule that(2))
qed

lemma push_data_obs:
  assumes "validate f = Inr ()" and "f_type f = FT_DataBin \<or> f_type f = FT_DataJson"
  shows "wire_data (chan_push f) = length (f_payload f) \<and> wire_credit (chan_push f) = 0
    \<and> \<not> wire_close (chan_push f) \<and> wire_ordered (chan_push f) \<and> (\<forall>m \<in> set (chan_push f). msg_ok m)"
  using assms
  by (cases f rule: chan_push_cases)
     (auto simp: msg_ok_def msg_data_def msg_credit_def msg_close_def fr_data_def fr_credit_def)

lemma push_close_obs:
  "wire_data (chan_push (frame_close i code r)) = 0 \<and> wire_credit (chan_push (frame_close i code r)) = 0
    \<and> wire_ordered (chan_push (frame_close i code r))
    \<and> (\<forall>m \<in> set (chan_push (frame_close i code r)). msg_ok m)"
  by (cases "frame_close i code r" rule: chan_push_cases)
     (auto simp: msg_ok_def msg_data_def msg_credit_def msg_close_def fr_data_def fr_credit_def
        frame_close_def frame_new_def)

lemma grant_obs:
  assumes "ch_id c \<noteq> 0" and "\<forall>w. g = Some w \<longrightarrow> w \<noteq> 0 \<and> unat w \<le> credit_cap"
  shows "wire_data (chan_grant c g) = 0 \<and> \<not> wire_close (chan_grant c g) \<and> wire_ordered (chan_grant c g)
    \<and> wire_credit (chan_grant c g) = (case g of None \<Rightarrow> 0 | Some w \<Rightarrow> unat w)
    \<and> (\<forall>m \<in> set (chan_grant c g). msg_ok m)"
proof (cases g)
  case None
  then show ?thesis by (simp add: chan_grant_def)
next
  case (Some w)
  note v = grant_frame_valid [of "ch_id c" w]
  then show ?thesis
    using assms Some
    by (cases "frame_window (ch_id c) w" rule: chan_push_cases)
       (auto simp: chan_grant_def msg_ok_def msg_data_def msg_credit_def msg_close_def fr_data_def fr_credit_def
          frame_window_def frame_new_def)
qed

lemma data_frame_valid:
  assumes "i \<noteq> 0" and "p \<noteq> []" and "length p \<le> 262144"
  shows "validate (frame_data_bin i p) = Inr ()" and "validate (frame_new FT_DataJson i p) = Inr ()"
  using assms
  by (simp_all add: validate_def frame_data_bin_def frame_new_def check_channel_def MAX_PAYLOAD_LEN_def)

section \<open>What a user operation does to the books\<close>

definition user_eff :: "chan \<Rightarrow> chan \<Rightarrow> bytes list \<Rightarrow> bool" where
  "user_eff a a' out \<longleftrightarrow>
     chan_inv a' \<and> ch_id a' = ch_id a \<and> rclosed a' = rclosed a \<and> ch_failed a' = ch_failed a
     \<and> granted_of a' = granted_of a + wire_credit out
     \<and> (rclosed a \<longrightarrow> wire_credit out = 0)
     \<and> wire_ordered out \<and> (\<forall>m \<in> set out. msg_ok m)
     \<and> (if lclosed a' = lclosed a then credit_of a' + wire_data out = credit_of a \<and> \<not> wire_close out
        else lclosed a' \<and> wire_data out = 0)"

lemma user_eff_refl: "chan_inv a \<Longrightarrow> user_eff a a []"
  by (simp add: user_eff_def)

lemma user_eff_waker:
  assumes "chan_inv a"
  shows "user_eff a (a\<lparr>ch_write_waker := w\<rparr>) []" and "user_eff a (a\<lparr>ch_read_waker := w\<rparr>) []"
  using assms by (simp_all add: user_eff_def chan_inv_def aborted_def)

lemma reserve_push_eff:
  assumes inv: "chan_inv a" and r: "poll_reserve a t want ex = (Ready (Inr n), a')"
    and p: "length p = n" "n \<le> 262144"
    and f: "f = frame_data_bin (ch_id a) p \<or> f = frame_new FT_DataJson (ch_id a) p"
  shows "user_eff a a' (chan_push f)"
proof -
  note c = poll_reserve_cases [OF inv r]
  have "p \<noteq> []" using c p by auto
  moreover have "ch_id a \<noteq> 0" using inv by (simp add: chan_inv_def)
  ultimately have v: "validate f = Inr ()" using f p data_frame_valid by auto
  have t: "f_type f = FT_DataBin \<or> f_type f = FT_DataJson" "f_payload f = p"
    using f by (auto simp: frame_data_bin_def frame_new_def)
  have flow: "ch_flow a' = (ch_flow a)\<lparr>fl_send_credit := fl_send_credit (ch_flow a')\<rparr>"
    and a': "a' = a\<lparr>ch_flow := ch_flow a'\<rparr>" and cr: "credit_of a' + n = credit_of a" and inv': "chan_inv a'"
    using c by auto
  have "rclosed a' = rclosed a" "lclosed a' = lclosed a" "fl_recv_granted (ch_flow a') = fl_recv_granted (ch_flow a)"
    by (subst flow, simp)+
  moreover have "ch_id a' = ch_id a" "ch_failed a' = ch_failed a" by (subst a', simp)+
  ultimately show ?thesis
    using push_data_obs [OF v t(1)] t(2) p cr inv' by (simp add: user_eff_def)
qed

lemma poll_write_eff:
  assumes "chan_inv a" and "poll_write a t buf = (r, a', out)"
  shows "user_eff a a' out \<and> r \<noteq> Panicked"
proof (cases "buf = []")
  case True
  then show ?thesis using assms by (auto simp: poll_write_def intro: user_eff_refl)
next
  case False
  obtain q b where q: "poll_reserve a t (length buf) False = (q, b)" by (cases "poll_reserve a t (length buf) False")
  note c = poll_reserve_cases [OF assms(1) q]
  show ?thesis
  proof (cases q)
    case (Ready x)
    show ?thesis
    proof (cases x)
      case (Inl e)
      then show ?thesis using assms c q Ready False by (auto simp: poll_write_def intro: user_eff_refl)
    next
      case (Inr n)
      then have n: "n \<le> length buf" "n \<le> SEND_CHUNK" using c Ready by auto
      have q': "poll_reserve a t (length buf) False = (Ready (Inr n), b)" using q Ready Inr by simp
      have "user_eff a b (chan_push (frame_data_bin (ch_id a) (take n buf)))"
        using reserve_push_eff [OF assms(1) q', of "take n buf"] n by (auto simp: SEND_CHUNK_def)
      then show ?thesis using assms q' False by (auto simp: poll_write_def)
    qed
  next
    case Pending
    then show ?thesis using assms c q False by (auto simp: poll_write_def intro: user_eff_waker)
  next
    case Panicked
    then show ?thesis using c by simp
  qed
qed

lemma send_json_eff:
  assumes "chan_inv a" and "send_json_poll a t body = (r, a', out)"
  shows "user_eff a a' out \<and> r \<noteq> Panicked"
proof (cases "unat INITIAL_WINDOW < length body")
  case True
  then show ?thesis using assms by (auto simp: send_json_poll_def intro: user_eff_refl)
next
  case False
  then have len: "length body \<le> 262144" by (simp add: INITIAL_WINDOW_def)
  obtain q b where q: "poll_reserve a t (length body) True = (q, b)" by (cases "poll_reserve a t (length body) True")
  note c = poll_reserve_cases [OF assms(1) q]
  show ?thesis
  proof (cases q)
    case (Ready x)
    show ?thesis
    proof (cases x)
      case (Inl e)
      then show ?thesis using assms c q Ready False by (auto simp: send_json_poll_def intro: user_eff_refl)
    next
      case (Inr n)
      then have n: "n = length body" using c Ready by auto
      have q': "poll_reserve a t (length body) True = (Ready (Inr n), b)" using q Ready Inr by simp
      have "user_eff a b (chan_push (frame_new FT_DataJson (ch_id a) body))"
        using reserve_push_eff [OF assms(1) q'] n len by auto
      then show ?thesis using assms q' False by (auto simp: send_json_poll_def)
    qed
  next
    case Pending
    then show ?thesis using assms c q False by (auto simp: send_json_poll_def intro: user_eff_waker)
  next
    case Panicked
    then show ?thesis using c by simp
  qed
qed

lemma release_eff:
  assumes inv: "chan_inv a" and cr: "credits n (ch_flow a) g (ch_flow a')"
    and same: "ch_id a' = ch_id a" "ch_failed a' = ch_failed a" "ch_remote_close a' = ch_remote_close a"
    and box: "inbox_bytes (ch_inbox a') + n = inbox_bytes (ch_inbox a)"
      "\<forall>d \<in> set (ch_inbox a'). data_bytes d \<noteq> []" "ch_recv_dropped a' \<longrightarrow> ch_inbox a' = []"
  shows "user_eff a a' (chan_grant a g)"
proof -
  have "ch_id a \<noteq> 0" using inv by (simp add: chan_inv_def)
  note g = grant_obs [OF this, of g]
  have g': "\<forall>w. g = Some w \<longrightarrow> w \<noteq> 0 \<and> unat w \<le> credit_cap" "rclosed a \<longrightarrow> g = None"
    using cr by (auto simp: credits_def)
  have "chan_inv a'"
    using inv cr same box by (auto simp: chan_inv_def credits_def aborted_def)
  then show ?thesis
    using g [OF g'(1)] g'(2) cr same by (auto simp: user_eff_def credits_def)
qed

lemma poll_item_eff:
  assumes inv: "chan_inv a" and "poll_item a t = (r, a', out)"
  shows "user_eff a a' out"
proof (cases "ch_inbox a")
  case Nil
  then show ?thesis
    using assms by (auto simp: poll_item_def intro: user_eff_refl user_eff_waker split: if_splits)
next
  case (Cons d ds)
  obtain g fl where rq: "release_quiet (ch_flow a) (length (data_bytes d)) = (g, fl)"
    by (cases "release_quiet (ch_flow a) (length (data_bytes d))")
  have "length (data_bytes d) \<le> held_of a" using inv Cons by (simp add: chan_inv_def)
  from release_quiet_credits [OF chan_inv_flow [OF inv] this] rq
  have "credits (length (data_bytes d)) (ch_flow a) g fl" by simp
  then have "user_eff a (a\<lparr>ch_inbox := ds, ch_flow := fl\<rparr>) (chan_grant a g)"
    using inv Cons by (intro release_eff) (auto simp: chan_inv_def)
  then show ?thesis using assms(2) Cons rq by (auto simp: poll_item_def)
qed

lemma data_bytes_advance [simp]: "data_bytes (data_advance n d) = drop n (data_bytes d)"
  by (cases d) simp_all

lemma poll_read_into_eff:
  assumes inv: "chan_inv a" and "poll_read_into a t room = (r, a', out)"
  shows "user_eff a a' out"
proof (cases "ch_inbox a")
  case Nil
  then show ?thesis
    using assms
    by (auto simp: poll_read_into_def intro: user_eff_refl user_eff_waker split: if_splits option.splits)
next
  case (Cons d ds)
  define n where "n = min (length (data_bytes d)) room"
  define ds' where "ds' = (if drop n (data_bytes d) = [] then ds else data_advance n d # ds)"
  obtain g fl where rq: "release_quiet (ch_flow a) n = (g, fl)" by (cases "release_quiet (ch_flow a) n")
  have n: "n \<le> length (data_bytes d)" by (simp add: n_def)
  then have "n \<le> held_of a" using inv Cons by (simp add: chan_inv_def)
  from release_quiet_credits [OF chan_inv_flow [OF inv] this] rq
  have "credits n (ch_flow a) g fl" by simp
  then have eff: "user_eff a (a\<lparr>ch_inbox := ds', ch_flow := fl\<rparr>) (chan_grant a g)"
    using inv Cons n by (intro release_eff) (auto simp: chan_inv_def ds'_def)
  show ?thesis
  proof (cases "n = 0")
    case True
    then show ?thesis using assms Cons by (auto simp: poll_read_into_def n_def intro: user_eff_refl)
  next
    case False
    then have "poll_read_into a t room =
        (Ready (Inr (take n (data_bytes d))), a\<lparr>ch_inbox := ds', ch_flow := fl\<rparr>, chan_grant a g)"
      using Cons rq by (simp add: poll_read_into_def n_def [symmetric] ds'_def Let_def)
    then show ?thesis using assms(2) eff by simp
  qed
qed

lemma receiver_drop_eff:
  assumes inv: "chan_inv a" and "receiver_drop a = (a', out)"
  shows "user_eff a a' out"
proof -
  obtain g fl where rf: "release_or_flush (ch_flow a) (inbox_bytes (ch_inbox a)) = (g, fl)"
    by (cases "release_or_flush (ch_flow a) (inbox_bytes (ch_inbox a))")
  have "inbox_bytes (ch_inbox a) \<le> held_of a" using inv by (simp add: chan_inv_def)
  from release_or_flush_credits [OF chan_inv_flow [OF inv] this] rf
  have "credits (inbox_bytes (ch_inbox a)) (ch_flow a) g fl" by simp
  then have "user_eff a (a\<lparr>ch_recv_dropped := True, ch_inbox := [], ch_flow := fl\<rparr>) (chan_grant a g)"
    using inv by (intro release_eff) auto
  then show ?thesis using assms(2) rf by (simp add: receiver_drop_def)
qed

lemma close_local_eff:
  assumes inv: "chan_inv a" and "chan_close_local a code reason = Inr e"
  shows "user_eff a (eff_chan e) (eff_out e)"
proof -
  from assms(2) obtain fl where fl: "close_local (ch_flow a) = Inr fl"
    and e: "e = \<lparr>eff_chan = a\<lparr>ch_flow := fl, ch_write_waker := None\<rparr>,
               eff_out = chan_push (frame_close (ch_id a) code reason),
               eff_woken = wake (ch_write_waker a), eff_forget = flow_is_closed fl\<rparr>"
    by (auto simp: chan_close_local_def split: sum.splits)
  have "\<not> lclosed a" "flow_inv window_bytes fl" "fl = (ch_flow a)\<lparr>fl_local_closed := True, fl_send_credit := 0\<rparr>"
    using close_local_spec [OF chan_inv_flow [OF inv]] fl by auto
  then show ?thesis
    using inv push_close_obs [of "ch_id a" code reason]
    by (auto simp: e user_eff_def chan_inv_def aborted_def)
qed

lemmas user_effs = poll_write_eff [THEN conjunct1] send_json_eff [THEN conjunct1] poll_item_eff
  poll_read_into_eff receiver_drop_eff close_local_eff

section \<open>What a delivery does to the books\<close>

lemma deliver_data:
  assumes inv: "chan_inv b" and rc: "\<not> rclosed b" and v: "validate f = Inr ()"
    and t: "f_type f = FT_DataBin \<or> f_type f = FT_DataJson" and len: "fr_data f \<le> granted_of b"
  shows "\<exists>e. chan_frame b f = Inr e \<and> chan_inv (eff_chan e) \<and> ch_failed (eff_chan e) = ch_failed b
    \<and> granted_of (eff_chan e) + fr_data f = granted_of b + wire_credit (eff_out e)
    \<and> credit_of (eff_chan e) = credit_of b \<and> lclosed (eff_chan e) = lclosed b \<and> \<not> rclosed (eff_chan e)
    \<and> wire_data (eff_out e) = 0 \<and> \<not> wire_close (eff_out e) \<and> wire_ordered (eff_out e)
    \<and> (\<forall>m \<in> set (eff_out e). msg_ok m)"
proof -
  define p where "p = f_payload f"
  have p: "p \<noteq> []" "fr_data f = length p" "length p \<le> granted_of b"
    using v t len by (auto simp: validate_def p_def fr_data_def split: sum.splits if_splits)
  have cf: "chan_frame b f = chan_on_data b (f_type f = FT_DataJson) p"
    using t by (auto simp: chan_frame_def p_def)
  obtain fl where fl: "on_data (ch_flow b) (length p) = Inr fl"
    using rc p(3) by (auto simp: on_data_def)
  have sp: "flow_inv window_bytes fl" "unat (fl_recv_granted fl) + length p = granted_of b"
    "unat (fl_recv_unreleased fl) = held_of b + length p"
    "fl = (ch_flow b)\<lparr>fl_recv_granted := fl_recv_granted fl, fl_recv_unreleased := fl_recv_unreleased fl\<rparr>"
    using on_data_spec [OF chan_inv_flow [OF inv], of "length p"] fl by auto
  have same: "fl_send_credit fl = fl_send_credit (ch_flow b)" "fl_local_closed fl = lclosed b"
    "fl_remote_closed fl = rclosed b"
    by (subst sp(4), simp)+
  show ?thesis
  proof (cases "ch_recv_dropped b \<or> ch_failed b \<noteq> None")
    case True
    obtain g fl' where rf: "release_or_flush fl (length p) = (g, fl')" by (cases "release_or_flush fl (length p)")
    have cr: "credits (length p) fl g fl'"
      using release_or_flush_credits [OF sp(1), of "length p"] sp(3) rf by simp
    have "ch_id b \<noteq> 0" using inv by (simp add: chan_inv_def)
    note go = grant_obs [OF this, of g]
    have "\<forall>w. g = Some w \<longrightarrow> w \<noteq> 0 \<and> unat w \<le> credit_cap" using cr by (auto simp: credits_def)
    note go = go [OF this]
    have "chan_on_data b (f_type f = FT_DataJson) p = Inr \<lparr>eff_chan = b\<lparr>ch_flow := fl'\<rparr>,
        eff_out = chan_grant b g, eff_woken = [], eff_forget = False\<rparr>"
      using True fl rf by (simp add: chan_on_data_def)
    moreover have "chan_inv (b\<lparr>ch_flow := fl'\<rparr>)"
      using inv cr sp same by (auto simp: chan_inv_def credits_def aborted_def)
    ultimately show ?thesis
      using cf p(2) cr sp(2) same rc go by (auto simp: credits_def)
  next
    case False
    then have "chan_inv (b\<lparr>ch_flow := fl,
                   ch_inbox := ch_inbox b @ [if f_type f = FT_DataJson then Json p else Bin p],
                   ch_read_waker := None\<rparr>)"
      using inv sp same p(1) by (auto simp: chan_inv_def aborted_def)
    then show ?thesis
      using cf p(2) False fl sp(2) same rc by (auto simp: chan_on_data_def)
  qed
qed

lemma deliver_window:
  assumes inv: "chan_inv b" and t: "f_type f = FT_Window"
    and cap: "lclosed b \<or> credit_of b + fr_credit f \<le> credit_cap"
  shows "\<exists>e. chan_frame b f = Inr e \<and> chan_inv (eff_chan e) \<and> ch_failed (eff_chan e) = ch_failed b \<and> eff_out e = []
    \<and> granted_of (eff_chan e) = granted_of b \<and> lclosed (eff_chan e) = lclosed b \<and> rclosed (eff_chan e) = rclosed b
    \<and> credit_of (eff_chan e) = credit_of b + (if lclosed b then 0 else fr_credit f)"
proof -
  define w where "w = (case window_credit f of Inl _ \<Rightarrow> 0 | Inr w \<Rightarrow> w)"
  have w: "unat w = fr_credit f" using t by (simp add: w_def fr_credit_def split: sum.splits)
  have cf: "chan_frame b f = chan_on_window b w" using t by (simp add: chan_frame_def w_def)
  note sp = on_window_spec [OF chan_inv_flow [OF inv], of w]
  obtain fl where fl: "on_window (ch_flow b) w = Inr fl"
    using sp cap w by (cases "on_window (ch_flow b) w") auto
  then have eq: "flow_inv window_bytes fl" "fl = (ch_flow b)\<lparr>fl_send_credit := fl_send_credit fl\<rparr>"
    "if lclosed b then fl = ch_flow b else unat (fl_send_credit fl) = credit_of b + unat w"
    using sp by auto
  have same: "fl_recv_granted fl = fl_recv_granted (ch_flow b)" "fl_local_closed fl = lclosed b"
    "fl_remote_closed fl = rclosed b" "fl_recv_unreleased fl = fl_recv_unreleased (ch_flow b)"
    by (subst eq(2), simp)+
  show ?thesis
    using cf fl eq same inv w by (auto simp: chan_on_window_def chan_inv_def aborted_def)
qed

lemma deliver_close:
  assumes inv: "chan_inv b" and t: "f_type f = FT_Close" and v: "validate f = Inr ()"
  shows "\<exists>e. chan_frame b f = Inr e \<and> chan_inv (eff_chan e) \<and> ch_failed (eff_chan e) = ch_failed b \<and> eff_out e = []
    \<and> granted_of (eff_chan e) = granted_of b \<and> lclosed (eff_chan e) = lclosed b \<and> rclosed (eff_chan e)
    \<and> credit_of (eff_chan e) = credit_of b"
proof -
  obtain info where i: "frame_close_info f = Inr info"
    using v t by (cases "frame_close_info f") (auto simp: validate_def split: if_splits sum.splits)
  show ?thesis
    using inv on_close_remote_inv [OF chan_inv_flow [OF inv]] i t
    by (auto simp: chan_frame_def chan_on_close_def Let_def chan_inv_def aborted_def on_close_remote_def)
qed

section \<open>The link\<close>

record link =
  lk_a :: chan
  lk_b :: chan
  lk_ab :: "bytes list"
  lk_ba :: "bytes list"

definition link_init :: "u32 \<Rightarrow> link" where
  "link_init i = \<lparr>lk_a = chan_new i, lk_b = chan_new i, lk_ab = [], lk_ba = []\<rparr>"

text \<open>What a user of an endpoint can do; each is one call on the handle.\<close>

inductive user_op :: "chan \<Rightarrow> chan \<Rightarrow> bytes list \<Rightarrow> bool" where
  op_write: "poll_write c t buf = (r, c', out) \<Longrightarrow> user_op c c' out"
| op_json: "send_json_poll c t body = (r, c', out) \<Longrightarrow> user_op c c' out"
| op_item: "poll_item c t = (i, c', out) \<Longrightarrow> user_op c c' out"
| op_read: "poll_read_into c t room = (b, c', out) \<Longrightarrow> user_op c c' out"
| op_drop: "receiver_drop c = (c', out) \<Longrightarrow> user_op c c' out"
| op_close: "chan_close_local c code reason = Inr e \<Longrightarrow> user_op c (eff_chan e) (eff_out e)"

text \<open>
  A violation aborts the channel, as the session does. The theorem below shows that those two
  rules never apply.
\<close>

inductive link_step :: "link \<Rightarrow> link \<Rightarrow> bool" where
  user_a: "user_op (lk_a l) a out \<Longrightarrow> link_step l (l\<lparr>lk_a := a, lk_ab := lk_ab l @ out\<rparr>)"
| user_b: "user_op (lk_b l) b out \<Longrightarrow> link_step l (l\<lparr>lk_b := b, lk_ba := lk_ba l @ out\<rparr>)"
| recv_b: "lk_ab l = m # ms \<Longrightarrow> fr_of m = Some f \<Longrightarrow> chan_frame (lk_b l) f = Inr e \<Longrightarrow>
    link_step l (l\<lparr>lk_b := eff_chan e, lk_ab := ms, lk_ba := lk_ba l @ eff_out e\<rparr>)"
| recv_a: "lk_ba l = m # ms \<Longrightarrow> fr_of m = Some f \<Longrightarrow> chan_frame (lk_a l) f = Inr e \<Longrightarrow>
    link_step l (l\<lparr>lk_a := eff_chan e, lk_ba := ms, lk_ab := lk_ab l @ eff_out e\<rparr>)"
| violation_b: "lk_ab l = m # ms \<Longrightarrow> fr_of m = Some f \<Longrightarrow> chan_frame (lk_b l) f = Inl err \<Longrightarrow>
    e = chan_abort (lk_b l) (flow_error_display err) \<Longrightarrow>
    link_step l (l\<lparr>lk_b := eff_chan e, lk_ab := ms, lk_ba := lk_ba l @ eff_out e\<rparr>)"
| violation_a: "lk_ba l = m # ms \<Longrightarrow> fr_of m = Some f \<Longrightarrow> chan_frame (lk_a l) f = Inl err \<Longrightarrow>
    e = chan_abort (lk_a l) (flow_error_display err) \<Longrightarrow>
    link_step l (l\<lparr>lk_a := eff_chan e, lk_ba := ms, lk_ab := lk_ab l @ eff_out e\<rparr>)"

section \<open>The invariant of the link\<close>

text \<open>The direction from \<open>a\<close> to \<open>b\<close>: \<open>ab\<close> carries its data, \<open>ba\<close> the grants for it.\<close>

definition dir_inv :: "chan \<Rightarrow> bytes list \<Rightarrow> chan \<Rightarrow> bytes list \<Rightarrow> bool" where
  "dir_inv a ab b ba \<longleftrightarrow>
     wire_ordered ab \<and> (\<forall>m \<in> set ab. msg_ok m)
     \<and> (wire_close ab \<or> rclosed b \<longrightarrow> lclosed a)
     \<and> (rclosed b \<longrightarrow> wire_data ab = 0)
     \<and> (if lclosed a then wire_data ab \<le> granted_of b
        else credit_of a + wire_data ab + wire_credit ba = granted_of b)"

definition ends_inv :: "chan \<Rightarrow> bytes list \<Rightarrow> chan \<Rightarrow> bytes list \<Rightarrow> bool" where
  "ends_inv a ab b ba \<longleftrightarrow>
     chan_inv a \<and> chan_inv b \<and> ch_failed a = None \<and> ch_failed b = None
     \<and> dir_inv a ab b ba \<and> dir_inv b ba a ab"

definition link_inv :: "link \<Rightarrow> bool" where
  "link_inv l \<longleftrightarrow> ends_inv (lk_a l) (lk_ab l) (lk_b l) (lk_ba l)"

lemma ends_inv_sym: "ends_inv a ab b ba \<longleftrightarrow> ends_inv b ba a ab"
  by (auto simp: ends_inv_def)

lemma lclosed_no_credit: "chan_inv c \<Longrightarrow> lclosed c \<Longrightarrow> credit_of c = 0"
  by (simp add: chan_inv_def flow_inv_def)

lemma granted_le_window: "chan_inv c \<Longrightarrow> granted_of c \<le> window_bytes"
  by (simp add: chan_inv_def flow_inv_def)

lemma user_op_eff: "user_op a a' out \<Longrightarrow> chan_inv a \<Longrightarrow> user_eff a a' out"
  by (induction rule: user_op.induct) (auto intro: user_effs)

lemma ends_inv_user:
  assumes e: "ends_inv a ab b ba" and u: "user_eff a a' out"
  shows "ends_inv a' (ab @ out) b ba"
proof -
  have inv: "chan_inv a" and d1: "dir_inv a ab b ba" and d2: "dir_inv b ba a ab"
    using e by (auto simp: ends_inv_def)
  have closed: "lclosed a \<Longrightarrow> wire_data out = 0 \<and> lclosed a' \<and> \<not> wire_close out"
    using u lclosed_no_credit [OF inv] by (auto simp: user_eff_def split: if_splits)
  have "dir_inv a' (ab @ out) b ba"
    using d1 u closed lclosed_no_credit [OF inv]
    by (auto simp: dir_inv_def user_eff_def wire_ordered_append split: if_splits)
  moreover have "dir_inv b ba a' (ab @ out)"
    using d2 u by (auto simp: dir_inv_def user_eff_def)
  ultimately show ?thesis using e u by (simp add: ends_inv_def user_eff_def)
qed

text \<open>The oldest message of a stream is always accepted, and accepting it keeps the books.\<close>

lemma ends_inv_deliver:
  assumes e: "ends_inv a (m # ab) b ba"
  shows "\<exists>f x. fr_of m = Some f \<and> chan_frame b f = Inr x \<and> ends_inv a ab (eff_chan x) (ba @ eff_out x)"
proof -
  have ia: "chan_inv a" and ib: "chan_inv b" and d1: "dir_inv a (m # ab) b ba" and d2: "dir_inv b ba a (m # ab)"
    and nf: "ch_failed a = None" "ch_failed b = None"
    using e by (auto simp: ends_inv_def)
  obtain f where f: "fr_of m = Some f" "f_type f \<noteq> FT_Ctrl" using d1 by (auto simp: dir_inv_def msg_ok_def)
  have v: "validate f = Inr ()"
    using f by (auto simp: fr_of_def dest: from_bytes_InrD split: sum.splits)
  have obs: "msg_data m = fr_data f" "msg_credit m = fr_credit f" "msg_close m \<longleftrightarrow> f_type f = FT_Close"
    using f by (auto simp: msg_data_def msg_credit_def msg_close_def)
  consider "f_type f = FT_DataBin \<or> f_type f = FT_DataJson" | "f_type f = FT_Window" | "f_type f = FT_Close"
    using f(2) by (cases "f_type f") auto
  then show ?thesis
  proof cases
    case 1
    then have z: "fr_credit f = 0" "f_type f \<noteq> FT_Close" by (auto simp: fr_credit_def)
    have "f_payload f \<noteq> []" using v 1 by (auto simp: validate_def split: sum.splits if_splits)
    then have "0 < fr_data f" using 1 by (simp add: fr_data_def)
    then have "\<not> rclosed b" "fr_data f \<le> granted_of b"
      using d1 obs by (auto simp: dir_inv_def split: if_splits)
    from deliver_data [OF ib this(1) v 1 this(2)] obtain x where
      x: "chan_frame b f = Inr x" "chan_inv (eff_chan x)" "ch_failed (eff_chan x) = ch_failed b"
        "granted_of (eff_chan x) + fr_data f = granted_of b + wire_credit (eff_out x)"
        "credit_of (eff_chan x) = credit_of b" "lclosed (eff_chan x) = lclosed b" "\<not> rclosed (eff_chan x)"
        "wire_data (eff_out x) = 0" "\<not> wire_close (eff_out x)" "wire_ordered (eff_out x)"
        "\<forall>m \<in> set (eff_out x). msg_ok m"
      by blast
    have "dir_inv a ab (eff_chan x) (ba @ eff_out x)"
      using d1 x obs z by (auto simp: dir_inv_def split: if_splits)
    moreover have "dir_inv (eff_chan x) (ba @ eff_out x) a ab"
      using d2 x obs z by (auto simp: dir_inv_def wire_ordered_append split: if_splits)
    ultimately show ?thesis using f(1) x ia nf by (auto simp: ends_inv_def)
  next
    case 2
    then have z: "fr_data f = 0" by (auto simp: fr_data_def)
    have "lclosed b \<or> credit_of b + fr_credit f \<le> credit_cap"
      using d2 obs granted_le_window [OF ia] by (auto simp: dir_inv_def window_bytes_def credit_cap_def)
    from deliver_window [OF ib 2 this] obtain x where
      x: "chan_frame b f = Inr x" "chan_inv (eff_chan x)" "ch_failed (eff_chan x) = ch_failed b" "eff_out x = []"
        "granted_of (eff_chan x) = granted_of b" "lclosed (eff_chan x) = lclosed b" "rclosed (eff_chan x) = rclosed b"
        "credit_of (eff_chan x) = credit_of b + (if lclosed b then 0 else fr_credit f)"
      by blast
    have "dir_inv a ab (eff_chan x) (ba @ eff_out x)"
      using d1 x obs z by (auto simp: dir_inv_def split: if_splits)
    moreover have "dir_inv (eff_chan x) (ba @ eff_out x) a ab"
      using d2 x obs z by (auto simp: dir_inv_def split: if_splits)
    ultimately show ?thesis using f(1) x ia nf by (auto simp: ends_inv_def)
  next
    case 3
    then have z: "fr_data f = 0" "fr_credit f = 0" by (auto simp: fr_data_def fr_credit_def)
    from deliver_close [OF ib 3 v] obtain x where
      x: "chan_frame b f = Inr x" "chan_inv (eff_chan x)" "ch_failed (eff_chan x) = ch_failed b" "eff_out x = []"
        "granted_of (eff_chan x) = granted_of b" "lclosed (eff_chan x) = lclosed b" "rclosed (eff_chan x)"
        "credit_of (eff_chan x) = credit_of b"
      by blast
    have "dir_inv a ab (eff_chan x) (ba @ eff_out x)"
      using d1 x obs z 3 by (auto simp: dir_inv_def split: if_splits)
    moreover have "dir_inv (eff_chan x) (ba @ eff_out x) a ab"
      using d2 x obs z by (auto simp: dir_inv_def split: if_splits)
    ultimately show ?thesis using f(1) x ia nf by (auto simp: ends_inv_def)
  qed
qed

lemma link_inv_init: "i \<noteq> 0 \<Longrightarrow> link_inv (link_init i)"
  using chan_new_inv [of i]
  by (auto simp: link_inv_def ends_inv_def link_init_def dir_inv_def)
     (simp_all add: chan_new_def flow_default_def flow_new_def)

lemma link_inv_step: "link_inv l \<Longrightarrow> link_step l l' \<Longrightarrow> link_inv l'"
proof (erule link_step.cases, goal_cases)
  case (1 l a out)
  then show ?case using ends_inv_user [of "lk_a l" "lk_ab l" "lk_b l" "lk_ba l" a out] user_op_eff
    by (auto simp: link_inv_def ends_inv_def)
next
  case (2 l b out)
  then show ?case using ends_inv_user [of "lk_b l" "lk_ba l" "lk_a l" "lk_ab l" b out] user_op_eff
    by (auto simp: link_inv_def ends_inv_def)
next
  case (3 l m ms f e)
  then show ?case using ends_inv_deliver [of "lk_a l" m ms "lk_b l" "lk_ba l"] by (auto simp: link_inv_def)
next
  case (4 l m ms f e)
  then show ?case using ends_inv_deliver [of "lk_b l" m ms "lk_a l" "lk_ab l"]
    by (auto simp: link_inv_def ends_inv_sym)
next
  case (5 l m ms f err e)
  then show ?case using ends_inv_deliver [of "lk_a l" m ms "lk_b l" "lk_ba l"] by (auto simp: link_inv_def)
next
  case (6 l m ms f err e)
  then show ?case using ends_inv_deliver [of "lk_b l" m ms "lk_a l" "lk_ab l"]
    by (auto simp: link_inv_def ends_inv_sym)
qed

interpretation link_machine: machine "\<lambda>l. \<exists>i. i \<noteq> 0 \<and> l = link_init i" link_step link_inv
  by unfold_locales (auto intro: link_inv_init link_inv_step)

section \<open>Progress\<close>

lemma ends_inv_quiet:
  assumes e: "ends_inv a [] b []" and "\<not> lclosed a" and "ch_inbox b = []"
  shows "0 < credit_of a"
proof -
  have b: "chan_inv b" "ch_failed b = None" and d: "dir_inv a [] b []" using e by (auto simp: ends_inv_def)
  have "held_of b = 0" using b assms(3) by (simp add: chan_inv_def aborted_def)
  moreover have "\<not> rclosed b" using d assms(2) by (auto simp: dir_inv_def)
  ultimately have "0 < granted_of b"
    using flow_recv.no_stall [OF chan_inv_flow [OF b(1)]] by (simp add: window_bytes_def)
  then show ?thesis using d assms(2) by (simp add: dir_inv_def)
qed

lemma poll_write_with_credit:
  assumes "chan_inv a" and "ch_failed a = None" and "\<not> lclosed a" and "0 < credit_of a" and "buf \<noteq> []"
  shows "\<exists>n a' out. poll_write a t buf = (Ready (Inr n), a', out) \<and> 0 < n \<and> n \<le> length buf"
proof -
  obtain r b where r: "poll_reserve a t (length buf) False = (r, b)" by fastforce
  from poll_reserve_cases [OF assms(1) r] assms(2-5) obtain n where "r = Ready (Inr n)" "0 < n" "n \<le> length buf"
    by (auto split: poll.splits sum.splits)
  then show ?thesis using r assms(5) by (simp add: poll_write_def)
qed

section \<open>A state where a large JSON value waits\<close>

definition stall_a :: chan where
  "stall_a = (chan_new 1)\<lparr>ch_flow := (ch_flow (chan_new 1))\<lparr>fl_send_credit := 262143\<rparr>\<rparr>"

definition stall_b :: chan where
  "stall_b = (chan_new 1)\<lparr>ch_flow := (ch_flow (chan_new 1))\<lparr>fl_recv_granted := 262143, fl_pending_grant := 1\<rparr>\<rparr>"

lemmas link_eval = poll_write_def poll_reserve_def chan_new_def flow_default_def flow_new_def sendable_def on_send_def
  frame_data_bin_def frame_new_def SEND_CHUNK_def INITIAL_WINDOW_def MAX_CREDIT_def stall_a_def stall_b_def
  chan_frame_def chan_on_data_def on_data_def poll_item_def release_quiet_def release_def take_grant_def
  chan_grant_def link_init_def Let_def

lemma stall_reached:
  "link_step\<^sup>*\<^sup>* (link_init 1) \<lparr>lk_a = stall_a, lk_b = stall_b, lk_ab = [], lk_ba = []\<rparr>"
proof -
  let ?f = "frame_data_bin 1 [0]"
  let ?b = "(chan_new 1)\<lparr>ch_flow := (ch_flow (chan_new 1))\<lparr>fl_recv_granted := 262143, fl_recv_unreleased := 1\<rparr>,
              ch_inbox := [Bin [0]]\<rparr>"
  have "validate ?f = Inr ()" by (intro data_frame_valid) auto
  then obtain m where m: "chan_push ?f = [m]" "fr_of m = Some ?f"
    by (cases ?f rule: chan_push_cases) auto
  have "poll_write (chan_new 1) 0 [0] = (Ready (Inr 1), stall_a, [m])"
    using m(1) by (simp add: link_eval)
  from link_step.user_a [OF op_write, of "link_init 1"] this
  have 1: "link_step (link_init 1) \<lparr>lk_a = stall_a, lk_b = chan_new 1, lk_ab = [m], lk_ba = []\<rparr>"
    by (fastforce simp: link_init_def)
  have "chan_frame (chan_new 1) ?f = Inr \<lparr>eff_chan = ?b, eff_out = [], eff_woken = [], eff_forget = False\<rparr>"
    by (simp add: link_eval wake_def)
  from link_step.recv_b [of "\<lparr>lk_a = stall_a, lk_b = chan_new 1, lk_ab = [m], lk_ba = []\<rparr>", OF _ m(2)] this
  have 2: "link_step \<lparr>lk_a = stall_a, lk_b = chan_new 1, lk_ab = [m], lk_ba = []\<rparr>
     \<lparr>lk_a = stall_a, lk_b = ?b, lk_ab = [], lk_ba = []\<rparr>"
    by fastforce
  have "poll_item ?b 0 = (Ready (Some (Bin [0])), stall_b, [])"
    by (simp add: link_eval)
  from link_step.user_b [OF op_item, of "\<lparr>lk_a = stall_a, lk_b = ?b, lk_ab = [], lk_ba = []\<rparr>"] this
  have 3: "link_step \<lparr>lk_a = stall_a, lk_b = ?b, lk_ab = [], lk_ba = []\<rparr>
     \<lparr>lk_a = stall_a, lk_b = stall_b, lk_ab = [], lk_ba = []\<rparr>"
    by fastforce
  show ?thesis using 1 2 3 by (meson converse_rtranclp_into_rtranclp rtranclp.rtrancl_refl)
qed

lemma stall_pending:
  "send_json_poll stall_a t (replicate 262144 0) = (Pending, stall_a\<lparr>ch_write_waker := Some t\<rparr>, [])"
  "poll_item stall_b t = (Pending, stall_b\<lparr>ch_read_waker := Some t\<rparr>, [])"
  "poll_read_into stall_b t room = (Pending, stall_b\<lparr>ch_read_waker := Some t\<rparr>, [])"
  "ch_inbox stall_b = []"
  by (simp_all add: send_json_poll_def link_eval poll_read_into_def)

section \<open>Properties\<close>

text \<open>
  C1: no flow-control violation. However the two users of a channel write, read, drop and
  close, and however deliveries interleave with that, the oldest message in flight in either
  direction decodes to a frame that the receiving endpoint accepts: neither side ever aborts
  the channel because of what the other side sent.
\<close>

theorem link_no_violation:
  assumes "i \<noteq> 0" and "link_step\<^sup>*\<^sup>* (link_init i) l"
  shows "(\<forall>m ms. lk_ab l = m # ms \<longrightarrow> (\<exists>f e. fr_of m = Some f \<and> chan_frame (lk_b l) f = Inr e))
    \<and> (\<forall>m ms. lk_ba l = m # ms \<longrightarrow> (\<exists>f e. fr_of m = Some f \<and> chan_frame (lk_a l) f = Inr e))"
proof -
  have e: "ends_inv (lk_a l) (lk_ab l) (lk_b l) (lk_ba l)"
    using link_machine.good_reachable [OF _ assms(2)] assms(1) by (auto simp: link_inv_def)
  then show ?thesis
    using ends_inv_deliver [of "lk_a l" _ _ "lk_b l" "lk_ba l"] ends_inv_deliver [of "lk_b l" _ _ "lk_a l" "lk_ab l"]
    by (metis ends_inv_sym)
qed

theorem link_no_violation_witness:
  "\<exists>a out m f e. poll_write (chan_new 1) 0 [7] = (Ready (Inr 1), a, out) \<and> out = [m]
    \<and> fr_of m = Some f \<and> chan_frame (chan_new 1) f = Inr e"
proof -
  obtain r a out where w: "poll_write (chan_new 1) 0 [7] = (r, a, out)" by (metis prod_cases3)
  have "r = Ready (Inr 1)" "\<exists>m. out = [m]" 
    using w by (auto simp: poll_write_def poll_reserve_def chan_new_def flow_default_def flow_new_def sendable_def on_send_def
     chan_push_def to_bytes_eq frame_data_bin_def frame_new_def validate_def check_channel_def MAX_PAYLOAD_LEN_def SEND_CHUNK_def
     INITIAL_WINDOW_def MAX_CREDIT_def)
  then obtain m where m: "r = Ready (Inr 1)" "out = [m]" by auto
  have "user_op (lk_a (link_init 1)) a [m]" using w m by (auto simp: link_init_def intro: op_write)
  from link_step.user_a [OF this]
  have "link_step\<^sup>*\<^sup>* (link_init 1) (link_init 1\<lparr>lk_a := a, lk_ab := [m]\<rparr>)" by (simp add: link_init_def)
  from link_no_violation [OF _ this] have "\<exists>f e. fr_of m = Some f \<and> chan_frame (chan_new 1) f = Inr e"
    by (simp add: link_init_def)
  then show ?thesis using w m by blast
qed

text \<open>
  C5: no deadlock of byte streams. In every reachable state where nothing is in flight, the
  sending side is not closed and the receiver has read all it got, a write of a non-empty
  buffer is accepted at once, although the receiver returns credit in batches.
\<close>

theorem link_no_deadlock:
  assumes "i \<noteq> 0" and "link_step\<^sup>*\<^sup>* (link_init i) l"
    and "lk_ab l = []" and "lk_ba l = []" and "\<not> chan_is_local_closed (lk_a l)" and "ch_inbox (lk_b l) = []"
    and "buf \<noteq> []"
  shows "\<exists>n a' out. poll_write (lk_a l) t buf = (Ready (Inr n), a', out) \<and> 0 < n \<and> n \<le> length buf"
proof -
  have e: "ends_inv (lk_a l) [] (lk_b l) []"
    using link_machine.good_reachable [OF _ assms(2)] assms(1,3,4) by (auto simp: link_inv_def)
  have o: "\<not> lclosed (lk_a l)" using assms(5) by (simp add: chan_is_local_closed_def)
  show ?thesis
    using poll_write_with_credit [OF _ _ o ends_inv_quiet [OF e o assms(6)] assms(7)] e by (simp add: ends_inv_def)
qed

theorem link_no_deadlock_witness:
  "\<exists>n a' out. poll_write (chan_new 1) 0 [7] = (Ready (Inr n), a', out) \<and> 0 < n \<and> n \<le> length [7::byte]"
  using link_no_deadlock [of 1 "link_init 1" "[7]" 0]
  by (simp add: link_init_def chan_new_def chan_is_local_closed_def flow_default_def flow_new_def)

text \<open>
  C6: a JSON value that fits the initial window can wait forever. One byte sent and read leaves
  the sender one byte short of the window; the receiver keeps that byte as a pending grant
  below its threshold. Nothing is in flight, the reader waits for data and returns no
  credit, and \<^verbatim>\<open>send_json\<close> of a 256 KiB value, which passes the size check, stays pending.
\<close>

theorem link_json_stall:
  "\<exists>l. link_step\<^sup>*\<^sup>* (link_init 1) l \<and> lk_ab l = [] \<and> lk_ba l = [] \<and> ch_inbox (lk_b l) = []
    \<and> length (replicate 262144 (0::byte)) \<le> unat INITIAL_WINDOW
    \<and> (\<forall>t. fst (send_json_poll (lk_a l) t (replicate 262144 0)) = Pending)
    \<and> (\<forall>t. fst (poll_item (lk_b l) t) = Pending \<and> snd (snd (poll_item (lk_b l) t)) = [])
    \<and> (\<forall>t room. fst (poll_read_into (lk_b l) t room) = Pending \<and> snd (snd (poll_read_into (lk_b l) t room)) = [])"
  using stall_reached
  by (intro exI [of _ "\<lparr>lk_a = stall_a, lk_b = stall_b, lk_ab = [], lk_ba = []\<rparr>"])
     (simp add: stall_pending INITIAL_WINDOW_def)

end
