(* ===== verification/Delivery.thy ===== *)
theory Delivery
  imports Link
begin

text \<open>
  The bytes that cross a link. User calls are labelled with the bytes they write and the bytes
  they return; the history of one direction is compared with what is still in flight.
\<close>

section \<open>Bytes\<close>

definition fr_bytes :: "frame \<Rightarrow> bytes" where
  "fr_bytes f = (if f_type f = FT_DataBin \<or> f_type f = FT_DataJson then f_payload f else [])"

definition msg_bytes :: "bytes \<Rightarrow> bytes" where
  "msg_bytes m = (case fr_of m of None \<Rightarrow> [] | Some f \<Rightarrow> fr_bytes f)"

definition wire_bytes :: "bytes list \<Rightarrow> bytes" where
  "wire_bytes ms = concat (map msg_bytes ms)"

definition inbox_flat :: "data list \<Rightarrow> bytes" where
  "inbox_flat ds = concat (map data_bytes ds)"

lemma flat_simps [simp]:
  "wire_bytes [] = []" "wire_bytes (m # ms) = msg_bytes m @ wire_bytes ms"
  "wire_bytes (ms @ ns) = wire_bytes ms @ wire_bytes ns"
  "inbox_flat [] = []" "inbox_flat (d # ds) = data_bytes d @ inbox_flat ds"
  "inbox_flat (ds @ es) = inbox_flat ds @ inbox_flat es"
  by (simp_all add: wire_bytes_def inbox_flat_def)

lemma wire_bytes_push_valid: "validate f = Inr () \<Longrightarrow> wire_bytes (chan_push f) = fr_bytes f"
  by (cases f rule: chan_push_cases) (simp_all add: msg_bytes_def)

lemma wire_bytes_push_other:
  "f_type f \<noteq> FT_DataBin \<Longrightarrow> f_type f \<noteq> FT_DataJson \<Longrightarrow> wire_bytes (chan_push f) = []"
  by (cases f rule: chan_push_cases) (simp_all add: msg_bytes_def fr_bytes_def)

lemma wire_bytes_grant [simp]: "wire_bytes (chan_grant c g) = []"
  by (cases g) (simp_all add: chan_grant_def wire_bytes_push_other frame_window_def frame_new_def)

lemma wire_bytes_close [simp]: "wire_bytes (chan_push (frame_close i code r)) = []"
  by (simp add: wire_bytes_push_other frame_close_def frame_new_def)

section \<open>User calls with what they write and read\<close>

fun wrote :: "(io_error_kind + nat) poll \<Rightarrow> bytes \<Rightarrow> bytes" where
  "wrote (Ready (Inr n)) buf = take n buf"
| "wrote _ buf = []"

fun wrote_json :: "(session_error + unit) poll \<Rightarrow> bytes \<Rightarrow> bytes" where
  "wrote_json (Ready (Inr _)) body = body"
| "wrote_json _ body = []"

fun got_item :: "data option poll \<Rightarrow> bytes" where
  "got_item (Ready (Some d)) = data_bytes d"
| "got_item _ = []"

fun got_read :: "(io_error_kind + bytes) poll \<Rightarrow> bytes" where
  "got_read (Ready (Inr bs)) = bs"
| "got_read _ = []"

inductive io_op :: "chan \<Rightarrow> bytes \<Rightarrow> bytes \<Rightarrow> chan \<Rightarrow> bytes list \<Rightarrow> bool" where
  io_write: "poll_write c t buf = (r, c', out) \<Longrightarrow> io_op c (wrote r buf) [] c' out"
| io_json: "send_json_poll c t body = (q, c', out) \<Longrightarrow> io_op c (wrote_json q body) [] c' out"
| io_item: "poll_item c t = (i, c', out) \<Longrightarrow> io_op c [] (got_item i) c' out"
| io_read: "poll_read_into c t room = (b, c', out) \<Longrightarrow> io_op c [] (got_read b) c' out"
| io_drop: "receiver_drop c = (c', out) \<Longrightarrow> io_op c [] [] c' out"
| io_close: "chan_close_local c code reason = Inr e \<Longrightarrow> io_op c [] [] (eff_chan e) (eff_out e)"

lemma io_op_user: "io_op c w r c' out \<Longrightarrow> user_op c c' out"
  by (induction rule: io_op.induct) (auto intro: user_op.intros)

lemma chan_id_nz: "chan_inv c \<Longrightarrow> ch_id c \<noteq> 0"
  by (simp add: chan_inv_def)

lemma reserve_keeps:
  assumes "chan_inv c" and "poll_reserve c t want ex = (r, c')"
  shows "ch_inbox c' = ch_inbox c \<and> ch_recv_dropped c' = ch_recv_dropped c"
proof -
  note p = poll_reserve_cases [OF assms]
  show ?thesis
  proof (cases r)
    case (Ready x)
    show ?thesis
    proof (cases x)
      case (Inr n)
      then have "c' = c\<lparr>ch_flow := ch_flow c'\<rparr>" using p Ready by simp
      then show ?thesis by (metis chan.select_convs chan.surjective chan.update_convs(2))
    qed (use p Ready in auto)
  qed (use p in auto)
qed

lemma poll_write_bytes:
  assumes "chan_inv c" and "poll_write c t buf = (r, c', out)"
  shows "wire_bytes out = wrote r buf \<and> ch_inbox c' = ch_inbox c"
proof (cases "buf = []")
  case False
  obtain q b where q: "poll_reserve c t (length buf) False = (q, b)" by fastforce
  note k = reserve_keeps [OF assms(1) q] and p = poll_reserve_cases [OF assms(1) q]
  have "wire_bytes (chan_push (frame_data_bin (ch_id c) (take n buf))) = take n buf" if "q = Ready (Inr n)" for n
  proof -
    have "take n buf \<noteq> []" "length (take n buf) \<le> 262144"
      using p that False by (auto simp: SEND_CHUNK_def)
    from data_frame_valid [OF chan_id_nz [OF assms(1)] this] show ?thesis
      by (simp add: wire_bytes_push_valid fr_bytes_def frame_data_bin_def frame_new_def)
  qed
  then show ?thesis
    using assms(2) q k p False by (auto simp: poll_write_def split: poll.splits sum.splits)
qed (use assms in \<open>auto simp: poll_write_def\<close>)

lemma send_json_bytes:
  assumes "chan_inv c" and "send_json_poll c t body = (r, c', out)"
  shows "wire_bytes out = wrote_json r body \<and> ch_inbox c' = ch_inbox c"
proof (cases "unat INITIAL_WINDOW < length body")
  case False
  obtain q b where q: "poll_reserve c t (length body) True = (q, b)" by fastforce
  note k = reserve_keeps [OF assms(1) q] and p = poll_reserve_cases [OF assms(1) q]
  have "wire_bytes (chan_push (frame_new FT_DataJson (ch_id c) body)) = body" if "q = Ready (Inr n)" for n
  proof -
    have "body \<noteq> []" "length body \<le> 262144"
      using p that False by (auto simp: INITIAL_WINDOW_def)
    from data_frame_valid [OF chan_id_nz [OF assms(1)] this] show ?thesis
      by (simp add: wire_bytes_push_valid fr_bytes_def frame_new_def)
  qed
  then show ?thesis
    using assms(2) q k p False by (auto simp: send_json_poll_def split: poll.splits sum.splits)
qed (use assms in \<open>auto simp: send_json_poll_def\<close>)

lemma poll_item_bytes:
  "poll_item c t = (i, c', out) \<Longrightarrow> wire_bytes out = [] \<and> inbox_flat (ch_inbox c) = got_item i @ inbox_flat (ch_inbox c')"
  by (auto simp: poll_item_def split: list.splits prod.splits if_splits)

lemma poll_read_bytes:
  "poll_read_into c t room = (b, c', out) \<Longrightarrow>
     wire_bytes out = [] \<and> inbox_flat (ch_inbox c) = got_read b @ inbox_flat (ch_inbox c')"
  by (auto simp: poll_read_into_def Let_def min_def split: list.splits prod.splits if_splits option.splits)

lemma io_op_bytes:
  "io_op c w r c' out \<Longrightarrow> chan_inv c \<Longrightarrow>
     wire_bytes out = w \<and> (ch_recv_dropped c' \<or> inbox_flat (ch_inbox c) = r @ inbox_flat (ch_inbox c'))"
proof (induction rule: io_op.induct)
  case (io_drop c c' out)
  then show ?case by (auto simp: receiver_drop_def split: prod.splits)
next
  case (io_close c code reason e)
  then show ?case by (auto simp: chan_close_local_def split: sum.splits)
qed (use poll_write_bytes send_json_bytes poll_item_bytes poll_read_bytes in fastforce)+

lemma io_op_dropped: "io_op c w r c' out \<Longrightarrow> chan_inv c \<Longrightarrow> ch_recv_dropped c \<Longrightarrow> ch_recv_dropped c'"
proof (induction rule: io_op.induct)
  case (io_write c t buf r c' out)
  then show ?case
    using reserve_keeps [of c t "length buf" False] by (auto simp: poll_write_def split: if_splits prod.splits poll.splits sum.splits)
next
  case (io_json c t body q c' out)
  then show ?case
    using reserve_keeps [of c t "length body" True] by (auto simp: send_json_poll_def split: if_splits prod.splits poll.splits sum.splits)
qed (auto simp: receiver_drop_def chan_close_local_def poll_item_def poll_read_into_def Let_def
       split: sum.splits prod.splits list.splits if_splits option.splits)

lemma chan_frame_bytes:
  assumes "chan_frame c f = Inr e" and "ch_failed c = None"
  shows "wire_bytes (eff_out e) = [] \<and> ch_recv_dropped (eff_chan e) = ch_recv_dropped c
    \<and> (ch_recv_dropped c \<or> inbox_flat (ch_inbox (eff_chan e)) = inbox_flat (ch_inbox c) @ fr_bytes f)"
  using assms
  by (auto simp: chan_frame_def fr_bytes_def chan_on_data_def chan_on_window_def chan_on_close_def Let_def
     split: frame_type.splits sum.splits prod.splits if_splits)

lemma send_poll_bytes:
  "send_poll c t data = (r, c', rest, out) \<Longrightarrow> chan_inv c \<Longrightarrow>
     r \<noteq> Panicked \<and> wire_bytes out @ rest = data \<and> (\<forall>m \<in> set out. length (msg_bytes m) \<le> SEND_CHUNK)
     \<and> (r = Ready (Inr ()) \<longrightarrow> rest = [])
     \<and> (r = Pending \<longrightarrow> credit_of c' = 0 \<and> ch_write_waker c' = Some t)"
proof (induction c t data arbitrary: r c' rest out rule: send_poll.induct)
  case (1 c t data)
  note simps = send_poll.simps [of c t data]
  show ?case
  proof (cases "data = []")
    case False
    obtain q b where q: "poll_reserve c t (length data) False = (q, b)" by fastforce
    note p = poll_reserve_cases [OF "1.prems"(2) q]
    show ?thesis
    proof (cases "\<exists>n. q = Ready (Inr n)")
      case True
      then obtain n where n: "q = Ready (Inr n)" by blast
      obtain r1 c1 rest1 out1 where s: "send_poll b t (drop n data) = (r1, c1, rest1, out1)" by (metis prod_cases4)
      have chunk: "take n data \<noteq> []" "length (take n data) \<le> SEND_CHUNK" using p n by auto
      have one: "wire_bytes (chan_push (frame_data_bin (ch_id c) (take n data))) = take n data"
        using data_frame_valid(1) [OF chan_id_nz [OF "1.prems"(2)] chunk(1)] chunk(2)
        by (simp add: SEND_CHUNK_def wire_bytes_push_valid fr_bytes_def frame_data_bin_def frame_new_def)
      have size: "length (msg_bytes m) \<le> SEND_CHUNK" if "m \<in> set (chan_push (frame_data_bin (ch_id c) (take n data)))" for m
        using that one chunk(2) by (cases "frame_data_bin (ch_id c) (take n data)" rule: chan_push_cases) auto
      show ?thesis
        using "1.IH" [OF False q [symmetric] n refl s] "1.prems" p n q s one size False
        by (auto simp: simps)
    qed (use "1.prems" p q False in \<open>auto simp: simps split: poll.splits sum.splits\<close>)
  qed (use "1.prems" in \<open>auto simp: send_poll.simps [of c t "[]"]\<close>)
qed

section \<open>Histories of one direction\<close>

text \<open>A step of the link with the bytes written at \<open>a\<close> and the bytes read at \<open>b\<close>.\<close>

inductive io_step :: "link \<Rightarrow> bytes \<Rightarrow> bytes \<Rightarrow> link \<Rightarrow> bool" where
  io_a: "io_op (lk_a l) w r a out \<Longrightarrow> io_step l w [] (l\<lparr>lk_a := a, lk_ab := lk_ab l @ out\<rparr>)"
| io_b: "io_op (lk_b l) w r b out \<Longrightarrow> io_step l [] r (l\<lparr>lk_b := b, lk_ba := lk_ba l @ out\<rparr>)"
| io_recv_b: "lk_ab l = m # ms \<Longrightarrow> fr_of m = Some f \<Longrightarrow> chan_frame (lk_b l) f = Inr e \<Longrightarrow>
    io_step l [] [] (l\<lparr>lk_b := eff_chan e, lk_ab := ms, lk_ba := lk_ba l @ eff_out e\<rparr>)"
| io_recv_a: "lk_ba l = m # ms \<Longrightarrow> fr_of m = Some f \<Longrightarrow> chan_frame (lk_a l) f = Inr e \<Longrightarrow>
    io_step l [] [] (l\<lparr>lk_a := eff_chan e, lk_ba := ms, lk_ab := lk_ab l @ eff_out e\<rparr>)"

inductive io_run :: "link \<Rightarrow> bytes \<Rightarrow> bytes \<Rightarrow> link \<Rightarrow> bool" where
  io_start: "io_run l [] [] l"
| io_next: "io_run l s g l' \<Longrightarrow> io_step l' w r l'' \<Longrightarrow> io_run l (s @ w) (g @ r) l''"

lemma io_step_link: "io_step l w r l' \<Longrightarrow> link_step l l'"
  by (induction rule: io_step.induct) (auto intro: link_step.intros dest: io_op_user)

definition in_transit :: "link \<Rightarrow> bytes" where
  "in_transit l = inbox_flat (ch_inbox (lk_b l)) @ wire_bytes (lk_ab l)"

lemma io_step_bytes:
  assumes "io_step l w r l'" and "link_inv l" and "\<not> ch_recv_dropped (lk_b l')"
  shows "\<not> ch_recv_dropped (lk_b l) \<and> in_transit l @ w = r @ in_transit l'"
  using assms
proof (induction rule: io_step.induct)
  case (io_a l w r a out)
  then show ?case using io_op_bytes [of "lk_a l" w r a out] by (auto simp: link_inv_def ends_inv_def in_transit_def)
next
  case (io_b l w r b out)
  then show ?case using io_op_bytes [of "lk_b l" w r b out] io_op_dropped [of "lk_b l" w r b out]
    by (auto simp: link_inv_def ends_inv_def in_transit_def)
next
  case (io_recv_b l m ms f e)
  then show ?case using chan_frame_bytes [of "lk_b l" f e]
    by (auto simp: link_inv_def ends_inv_def in_transit_def msg_bytes_def)
next
  case (io_recv_a l m ms f e)
  then show ?case using chan_frame_bytes [of "lk_a l" f e]
    by (auto simp: link_inv_def ends_inv_def in_transit_def)
qed

lemma io_run_link: "io_run l s g l' \<Longrightarrow> link_step\<^sup>*\<^sup>* l l'"
  by (induction rule: io_run.induct) (auto intro: rtranclp.rtrancl_into_rtrancl dest: io_step_link)

lemma io_run_bytes:
  "io_run l s g l' \<Longrightarrow> link_inv l \<Longrightarrow> \<not> ch_recv_dropped (lk_b l') \<Longrightarrow>
     in_transit l @ s = g @ in_transit l'"
proof (induction rule: io_run.induct)
  case (io_next l s g l' w r l'')
  have "link_inv l'" using link_machine.good_steps [OF io_run_link] io_next by blast
  from io_step_bytes [OF io_next.hyps(2) this io_next.prems(2)] io_next.IH io_next.prems(1)
  show ?case by (metis append.assoc)
qed simp

section \<open>Properties\<close>

text \<open>
  C2: delivery. Whatever the two users do and however deliveries interleave with it, as long as the
  receiver has not been dropped the bytes written at one end are exactly the bytes read at the
  other end followed by the bytes waiting there and the bytes in flight: nothing is lost,
  duplicated or reordered.
\<close>

theorem link_delivery:
  assumes "i \<noteq> 0" and "io_run (link_init i) s g l" and "\<not> ch_recv_dropped (lk_b l)"
  shows "s = g @ inbox_flat (ch_inbox (lk_b l)) @ wire_bytes (lk_ab l)"
  using io_run_bytes [OF assms(2) link_inv_init [OF assms(1)] assms(3)]
  by (simp add: in_transit_def link_init_def chan_new_def)

theorem link_delivery_witness:
  "\<exists>l. io_run (link_init 1) [7] [] l
    \<and> [7] = [] @ inbox_flat (ch_inbox (lk_b l)) @ wire_bytes (lk_ab l)"
proof -
  obtain a out where w: "poll_write (chan_new 1) 0 [7] = (Ready (Inr 1), a, out)"
    by (simp add: poll_write_def poll_reserve_def chan_new_def flow_default_def flow_new_def sendable_def
        on_send_def SEND_CHUNK_def INITIAL_WINDOW_def MAX_CREDIT_def)
  from io_write [OF w] have "io_op (lk_a (link_init 1)) [7] [] a out" by (simp add: link_init_def)
  from io_next [OF io_start io_a [OF this]]
  have r: "io_run (link_init 1) [7] [] (link_init 1\<lparr>lk_a := a, lk_ab := out\<rparr>)" by (simp add: link_init_def)
  show ?thesis using link_delivery [OF _ r] r by (fastforce simp: link_init_def chan_new_def)
qed

text \<open>
  A poll of \<^verbatim>\<open>send\<close> never panics and never loses data: the bytes it pushed followed by the
  bytes the suspended future still holds are the bytes given, in frames of at most
  \<open>SEND_CHUNK\<close> bytes. It is ready with success only when all is pushed, and pending only when
  the credit is used up and the task is registered to be woken.
\<close>

theorem send_poll_conserves:
  assumes "i \<noteq> 0" and "link_step\<^sup>*\<^sup>* (link_init i) l" and "send_poll (lk_a l) t data = (r, c', rest, out)"
  shows "r \<noteq> Panicked \<and> wire_bytes out @ rest = data \<and> (\<forall>m \<in> set out. length (msg_bytes m) \<le> SEND_CHUNK)
    \<and> (r = Ready (Inr ()) \<longrightarrow> rest = [])
    \<and> (r = Pending \<longrightarrow> sender_credit c' = 0 \<and> ch_write_waker c' = Some t)"
proof -
  have "chan_inv (lk_a l)"
    using link_machine.good_reachable [OF _ assms(2)] assms(1) by (auto simp: link_inv_def ends_inv_def)
  from send_poll_bytes [OF assms(3) this] show ?thesis by (simp add: sender_credit_def)
qed

theorem send_poll_conserves_witness:
  "\<exists>r c' rest out. send_poll (chan_new 1) 0 [1, 2, 3] = (r, c', rest, out) \<and> wire_bytes out @ rest = [1, 2, 3]"
proof -
  obtain r c' rest out where s: "send_poll (chan_new 1) 0 [1, 2, 3] = (r, c', rest, out)" by (metis prod_cases4)
  then have s': "send_poll (lk_a (link_init 1)) 0 [1, 2, 3] = (r, c', rest, out)" by (simp add: link_init_def)
  show ?thesis using send_poll_conserves [OF _ rtranclp.rtrancl_refl s'] s by fastforce
qed

end
