(* ===== verification/Json.thy ===== *)
theory Json
  imports Prelude
begin

text \<open>
  JSON values as the program handles them (\<^verbatim>\<open>serde_json::Value\<close>): a number is a non-negative
  64-bit integer, a negative 64-bit integer or the bits of a double; an object is the list of
  its entries in the order the map keeps them. \<open>dbg\<close> is the tree that a \<^verbatim>\<open>Debug\<close> implementation
  hands to the formatter: the leaves are what gets printed.
\<close>

datatype json_num = PosInt u64 | NegInt u64 | Float u64

datatype json =
    JNull
  | JBool bool
  | JNum json_num
  | JStr string
  | JArr "json list"
  | JObj "(string \<times> json) list"

text \<open>Ordered string maps (\<^verbatim>\<open>BTreeMap<String, V>\<close>): the entries in key order.\<close>

type_synonym 'v btree = "(string \<times> 'v) list"

definition bt_values :: "'v btree \<Rightarrow> 'v list" where
  "bt_values m = map snd m"

definition bt_keys :: "'v btree \<Rightarrow> string list" where
  "bt_keys m = map fst m"

datatype dbg =
    DStr string
  | DBool bool
  | DNat nat
  | DBits u64
  | DJson json
  | DText string
  | DSeq "dbg list"
  | DMap "(string \<times> dbg) list"
  | DStruct string "(string \<times> dbg) list" bool
  | DTuple string "dbg list"
  | DNone
  | DSome dbg

definition dbg_opt :: "('a \<Rightarrow> dbg) \<Rightarrow> 'a option \<Rightarrow> dbg" where
  "dbg_opt f x = (case x of None \<Rightarrow> DNone | Some v \<Rightarrow> DSome (f v))"

definition dbg_strs :: "string list \<Rightarrow> dbg" where
  "dbg_strs xs = DSeq (map DStr xs)"

definition dbg_map :: "('v \<Rightarrow> dbg) \<Rightarrow> 'v btree \<Rightarrow> dbg" where
  "dbg_map f m = DMap (map (map_prod id f) m)"

definition dbg_nat_opt :: "u64 option \<Rightarrow> dbg" where
  "dbg_nat_opt = dbg_opt (\<lambda>w. DNat (unat w))"

lemma dbg_opt_cong [simp]: "(\<And>v. x = Some v \<Longrightarrow> f (h v) = f v) \<Longrightarrow> dbg_opt f (map_option h x) = dbg_opt f x"
  by (cases x) (simp_all add: dbg_opt_def)

end
