(* ===== verification/Step.thy ===== *)
theory Step
  imports Json
begin

text \<open>
  The bodies of the step messages: \<^verbatim>\<open>proto/crates/enzarb-proto/src/step.rs\<close>, and \<^verbatim>\<open>Secret\<close> and
  \<^verbatim>\<open>Usage\<close> of \<^verbatim>\<open>ctrl.rs\<close>, which they contain. The \<open>_debug\<close> functions are the \<^verbatim>\<open>Debug\<close>
  implementations, hand-written or derived; \<open>redact\<close> functions blank every secret, to state
  that the former do not depend on secrets.
\<close>

section \<open>Secrets\<close>

datatype secret = Secret string

fun expose :: "secret \<Rightarrow> string" where
  "expose (Secret s) = s"

definition secret_debug :: "secret \<Rightarrow> dbg" where
  "secret_debug s = DText ''Secret([redacted])''"

record usage =
  us_input_tokens :: "u64 option"
  us_output_tokens :: "u64 option"
  us_cache_read_input_tokens :: "u64 option"
  us_cache_creation_input_tokens :: "u64 option"
  us_models :: "string list"
  us_cost_usd :: "u64 option"

definition usage_is_empty :: "usage \<Rightarrow> bool" where
  "usage_is_empty u \<longleftrightarrow>
     us_input_tokens u = None \<and> us_output_tokens u = None \<and> us_cache_read_input_tokens u = None
     \<and> us_cache_creation_input_tokens u = None \<and> us_models u = [] \<and> us_cost_usd u = None"

definition usage_debug :: "usage \<Rightarrow> dbg" where
  "usage_debug u = DStruct ''Usage''
     [(''input_tokens'', dbg_nat_opt (us_input_tokens u)),
      (''output_tokens'', dbg_nat_opt (us_output_tokens u)),
      (''cache_read_input_tokens'', dbg_nat_opt (us_cache_read_input_tokens u)),
      (''cache_creation_input_tokens'', dbg_nat_opt (us_cache_creation_input_tokens u)),
      (''models'', dbg_strs (us_models u)),
      (''cost_usd'', dbg_opt DBits (us_cost_usd u))] False"

section \<open>Step messages\<close>

datatype step_phase = Phase_Running | Phase_Interrupted | Phase_Finished | Phase_Unknown

datatype mode = Mode_Read | Mode_Write

record step_workspace =
  sw_repo :: string
  sw_url :: string
  sw_mode :: mode
  sw_branch :: string
  sw_base :: string
  sw_start_ref :: "string option"
  sw_push :: bool
  sw_token :: secret

record runtime =
  rt_name :: string
  rt_install :: "string list"
  rt_protocol :: string
  rt_command :: "string list"
  rt_env :: "string btree"
  rt_capabilities :: json

record ez_spec =
  ez_modes_toml :: string
  ez_instruction_files :: "string btree"

datatype step_exec =
    Exec_Agent runtime "string option" string "json option" "string option" "ez_spec option"
  | Exec_Command string "string list"

record step_output =
  so_file :: string
  so_format :: "string option"
  so_optional :: bool

record step_start =
  ss_run_id :: string
  ss_attempt :: u32
  ss_task_id :: string
  ss_workspaces :: "step_workspace list"
  ss_exec :: step_exec
  ss_outputs :: "step_output btree"
  ss_env :: "secret btree"
  ss_files :: "secret btree"
  ss_github_token :: "secret option"

record session_event =
  sv_run_id :: string
  sv_seq :: u64
  sv_at :: string
  sv_kind :: string
  sv_payload :: json
  sv_truncated :: bool

record step_git =
  sg_repo :: string
  sg_branch :: string
  sg_head_sha :: string
  sg_pushed :: bool

datatype environment_kind =
    Env_DiskFull | Env_Oom | Env_ToolchainMissing | Env_Network | Env_Load | Env_Unknown

record step_environment =
  sn_kind :: environment_kind
  sn_detail :: string

record step_finished =
  sf_run_id :: string
  sf_exit :: string
  sf_outputs :: "(string \<times> json) list"
  sf_result :: "json option"
  sf_git :: "step_git list"
  sf_usage :: "usage option"
  sf_environment :: "step_environment option"
  sf_error :: "string option"

definition exit_SUCCESS :: string where
  "exit_SUCCESS = ''success''"

definition exit_FAILURE :: string where
  "exit_FAILURE = ''failure''"

definition exit_INTERRUPTED :: string where
  "exit_INTERRUPTED = ''interrupted''"

section \<open>Redaction list\<close>

definition secret_values :: "step_start \<Rightarrow> string list" where
  "secret_values s =
     filter (\<lambda>x. x \<noteq> [])
       (map expose (bt_values (ss_env s))
        @ map expose (bt_values (ss_files s))
        @ map (\<lambda>w. expose (sw_token w)) (ss_workspaces s)
        @ (case ss_github_token s of None \<Rightarrow> [] | Some t \<Rightarrow> [expose t]))"

section \<open>Debug\<close>

fun mode_debug :: "mode \<Rightarrow> dbg" where
  "mode_debug Mode_Read = DText ''Read''"
| "mode_debug Mode_Write = DText ''Write''"

fun step_phase_debug :: "step_phase \<Rightarrow> dbg" where
  "step_phase_debug Phase_Running = DText ''Running''"
| "step_phase_debug Phase_Interrupted = DText ''Interrupted''"
| "step_phase_debug Phase_Finished = DText ''Finished''"
| "step_phase_debug Phase_Unknown = DText ''Unknown''"

definition step_workspace_debug :: "step_workspace \<Rightarrow> dbg" where
  "step_workspace_debug w = DStruct ''StepWorkspace''
     [(''repo'', DStr (sw_repo w)), (''mode'', mode_debug (sw_mode w)), (''branch'', DStr (sw_branch w)),
      (''base'', DStr (sw_base w)), (''start_ref'', dbg_opt DStr (sw_start_ref w)),
      (''push'', DBool (sw_push w))] True"

definition runtime_debug :: "runtime \<Rightarrow> dbg" where
  "runtime_debug r = DStruct ''Runtime''
     [(''name'', DStr (rt_name r)), (''install'', dbg_strs (rt_install r)), (''protocol'', DStr (rt_protocol r)),
      (''command'', dbg_strs (rt_command r)), (''env'', dbg_map DStr (rt_env r)),
      (''capabilities'', DJson (rt_capabilities r))] False"

definition ez_spec_debug :: "ez_spec \<Rightarrow> dbg" where
  "ez_spec_debug e = DStruct ''EzSpec''
     [(''modes_toml'', DStr (ez_modes_toml e)), (''instruction_files'', dbg_map DStr (ez_instruction_files e))] False"

fun step_exec_debug :: "step_exec \<Rightarrow> dbg" where
  "step_exec_debug (Exec_Agent r model prompt schema m ez) = DStruct ''Agent''
     [(''runtime'', runtime_debug r), (''model'', dbg_opt DStr model), (''prompt'', DStr prompt),
      (''result_schema'', dbg_opt DJson schema), (''mode'', dbg_opt DStr m), (''ez'', dbg_opt ez_spec_debug ez)] False"
| "step_exec_debug (Exec_Command run tools) = DStruct ''Command''
     [(''run'', DStr run), (''tools'', dbg_strs tools)] False"

definition step_output_debug :: "step_output \<Rightarrow> dbg" where
  "step_output_debug o' = DStruct ''StepOutput''
     [(''file'', DStr (so_file o')), (''format'', dbg_opt DStr (so_format o')), (''optional'', DBool (so_optional o'))] False"

definition step_start_debug :: "step_start \<Rightarrow> dbg" where
  "step_start_debug s = DStruct ''StepStart''
     [(''run_id'', DStr (ss_run_id s)), (''attempt'', DNat (unat (ss_attempt s))), (''task_id'', DStr (ss_task_id s)),
      (''workspaces'', DSeq (map step_workspace_debug (ss_workspaces s))), (''exec'', step_exec_debug (ss_exec s)),
      (''outputs'', dbg_map step_output_debug (ss_outputs s)),
      (''env'', dbg_strs (bt_keys (ss_env s))), (''files'', dbg_strs (bt_keys (ss_files s)))] True"

definition session_event_debug :: "session_event \<Rightarrow> dbg" where
  "session_event_debug e = DStruct ''SessionEvent''
     [(''run_id'', DStr (sv_run_id e)), (''seq'', DNat (unat (sv_seq e))), (''at'', DStr (sv_at e)),
      (''kind'', DStr (sv_kind e)), (''payload'', DJson (sv_payload e)), (''truncated'', DBool (sv_truncated e))] False"

definition step_git_debug :: "step_git \<Rightarrow> dbg" where
  "step_git_debug g = DStruct ''StepGit''
     [(''repo'', DStr (sg_repo g)), (''branch'', DStr (sg_branch g)), (''head_sha'', DStr (sg_head_sha g)),
      (''pushed'', DBool (sg_pushed g))] False"

fun environment_kind_debug :: "environment_kind \<Rightarrow> dbg" where
  "environment_kind_debug Env_DiskFull = DText ''DiskFull''"
| "environment_kind_debug Env_Oom = DText ''Oom''"
| "environment_kind_debug Env_ToolchainMissing = DText ''ToolchainMissing''"
| "environment_kind_debug Env_Network = DText ''Network''"
| "environment_kind_debug Env_Load = DText ''Load''"
| "environment_kind_debug Env_Unknown = DText ''Unknown''"

definition step_environment_debug :: "step_environment \<Rightarrow> dbg" where
  "step_environment_debug e = DStruct ''StepEnvironment''
     [(''kind'', environment_kind_debug (sn_kind e)), (''detail'', DStr (sn_detail e))] False"

definition step_finished_debug :: "step_finished \<Rightarrow> dbg" where
  "step_finished_debug f = DStruct ''StepFinished''
     [(''run_id'', DStr (sf_run_id f)), (''exit'', DStr (sf_exit f)),
      (''outputs'', DMap (map (map_prod id DJson) (sf_outputs f))),
      (''result'', dbg_opt DJson (sf_result f)), (''git'', DSeq (map step_git_debug (sf_git f))),
      (''usage'', dbg_opt usage_debug (sf_usage f)),
      (''environment'', dbg_opt step_environment_debug (sf_environment f)),
      (''error'', dbg_opt DStr (sf_error f))] False"

section \<open>Blanking secrets\<close>

definition blank :: "secret \<Rightarrow> secret" where
  "blank s = Secret []"

definition redact_workspace :: "step_workspace \<Rightarrow> step_workspace" where
  "redact_workspace w = w\<lparr>sw_token := blank (sw_token w)\<rparr>"

definition redact_start :: "step_start \<Rightarrow> step_start" where
  "redact_start s =
     s\<lparr>ss_workspaces := map redact_workspace (ss_workspaces s),
       ss_env := map (map_prod id blank) (ss_env s),
       ss_files := map (map_prod id blank) (ss_files s),
       ss_github_token := map_option blank (ss_github_token s)\<rparr>"

lemma step_start_debug_redact [simp]: "step_start_debug (redact_start s) = step_start_debug s"
  by (simp add: step_start_debug_def redact_start_def redact_workspace_def step_workspace_debug_def bt_keys_def
      comp_def)

lemma secret_debug_blank [simp]: "secret_debug (blank s) = secret_debug s"
  by (simp add: secret_debug_def)

lemma secret_values_redact: "secret_values (redact_start s) = []"
proof -
  have "\<forall>x \<in> set (bt_values (map (map_prod id blank) m)). expose x = []" for m :: "secret btree"
    by (induction m) (auto simp: bt_values_def blank_def)
  then show ?thesis
    by (auto simp: secret_values_def redact_start_def redact_workspace_def blank_def filter_empty_conv
        split: option.splits)
qed

section \<open>Properties\<close>

text \<open>
  \<open>secret_values\<close> is a complete redaction list: a string is in it exactly when it is not
  empty and is the value of an environment secret, of a secret file, of a workspace token or
  of the GitHub token of the step; blanking the secrets leaves nothing to redact.
\<close>

theorem secret_values_complete:
  "(x \<in> set (secret_values s) \<longleftrightarrow>
      x \<noteq> [] \<and> (Secret x \<in> snd ` set (ss_env s) \<or> Secret x \<in> snd ` set (ss_files s)
        \<or> Secret x \<in> sw_token ` set (ss_workspaces s) \<or> ss_github_token s = Some (Secret x)))
   \<and> secret_values (redact_start s) = []"
proof -
  have ex: "expose t = x \<longleftrightarrow> t = Secret x" for t by (cases t) auto
  have im: "x \<in> expose ` A \<longleftrightarrow> Secret x \<in> A" for A using ex by (metis expose.simps imageE image_eqI)
  have "x \<in> set (secret_values s) \<longleftrightarrow>
      x \<noteq> [] \<and> (x \<in> expose ` snd ` set (ss_env s) \<or> x \<in> expose ` snd ` set (ss_files s)
        \<or> x \<in> expose ` sw_token ` set (ss_workspaces s) \<or> (\<exists>t. ss_github_token s = Some t \<and> expose t = x))"
    by (cases "ss_github_token s") (auto simp: secret_values_def bt_values_def image_image)
  then show ?thesis by (auto simp only: im ex secret_values_redact)
qed

end
