(* ===== verification/Ctrl.thy ===== *)
theory Ctrl
  imports Step
begin

text \<open>
  Control messages: \<^verbatim>\<open>proto/crates/enzarb-proto/src/ctrl.rs\<close> and version negotiation
  (\<^verbatim>\<open>lib.rs\<close>). One constructor per variant of \<^verbatim>\<open>Ctrl\<close>; \<open>ctrl_direction\<close> is the one table of who may
  send what, from which the session core and the proxy's browser guard derive their rules.
\<close>

section \<open>Kinds, names and limits\<close>

datatype client_kind = Ui | Proxy | Executor

datatype channel_kind = Pty | Acp | UnknownKind

datatype credential_kind = ClaudeOauth

definition feature_ACP :: string where "feature_ACP = ''acp''"

definition feature_STATS :: string where "feature_STATS = ''stats''"

definition feature_FILE_READ :: string where "feature_FILE_READ = ''file_read''"

definition feature_STEPS :: string where "feature_STEPS = ''steps''"

definition MAX_FEATURES :: nat where "MAX_FEATURES = 64"

definition MAX_FEATURE_LEN :: nat where "MAX_FEATURE_LEN = 64"

definition MAX_REPO_LEN :: nat where "MAX_REPO_LEN = 2048"

definition MAX_RESUME_LEN :: nat where "MAX_RESUME_LEN = 256"

definition oe_UNSUPPORTED_KIND :: string where "oe_UNSUPPORTED_KIND = ''unsupported_kind''"

definition oe_INVALID_REQUEST :: string where "oe_INVALID_REQUEST = ''invalid_request''"

definition ec_UNSUPPORTED_VERSION :: string where "ec_UNSUPPORTED_VERSION = ''unsupported_version''"

definition ec_UNKNOWN_MESSAGE :: string where "ec_UNKNOWN_MESSAGE = ''unknown_message''"

definition ec_PROTOCOL_VIOLATION :: string where "ec_PROTOCOL_VIOLATION = ''protocol_violation''"

definition ec_FLOW_CONTROL :: string where "ec_FLOW_CONTROL = ''flow_control''"

definition ec_UNAUTHORIZED :: string where "ec_UNAUTHORIZED = ''unauthorized''"

definition ec_UNKNOWN_CHANNEL :: string where "ec_UNKNOWN_CHANNEL = ''unknown_channel''"

definition ec_UNKNOWN_RUN :: string where "ec_UNKNOWN_RUN = ''unknown_run''"

definition ec_INTERNAL :: string where "ec_INTERNAL = ''internal''"

definition ec_UNIMPLEMENTED :: string where "ec_UNIMPLEMENTED = ''unimplemented''"

text \<open>\<^verbatim>\<open>skip_serializing_if\<close> of the feature lists.\<close>

definition features_is_empty :: "string list option \<Rightarrow> bool" where
  "features_is_empty f = (case f of None \<Rightarrow> True | Some v \<Rightarrow> v = [])"

definition sanitize_features :: "string list option \<Rightarrow> string list" where
  "sanitize_features features =
     take MAX_FEATURES
       (filter (\<lambda>f. f \<noteq> [] \<and> length f \<le> MAX_FEATURE_LEN) (case features of None \<Rightarrow> [] | Some v \<Rightarrow> v))"

section \<open>Messages\<close>

record chat_checkout =
  cc_branch :: string
  cc_start_ref :: "string option"
  cc_create :: "bool option"

record sandbox_stats =
  st_ts_ms :: u64
  st_cpu_usage_usec :: "u64 option"
  st_cpu_user_usec :: "u64 option"
  st_cpu_system_usec :: "u64 option"
  st_memory_bytes :: "u64 option"
  st_memory_limit_bytes :: "u64 option"
  st_memory_inactive_file_bytes :: "u64 option"
  st_io_read_bytes :: "u64 option"
  st_io_write_bytes :: "u64 option"
  st_storage_used_bytes :: "u64 option"
  st_storage_total_bytes :: "u64 option"

text \<open>The fields of \<^verbatim>\<open>Ctrl::Open\<close>, which an \<^verbatim>\<open>OpenRequest\<close> carries on.\<close>

record open_msg =
  om_channel :: u32
  om_kind :: channel_kind
  om_cols :: u16
  om_rows :: u16
  om_command :: "string list option"
  om_repo :: "string option"
  om_resume :: "string option"
  om_claude_token :: "secret option"
  om_checkout :: "chat_checkout option"

datatype ctrl =
    C_Hello "u16 list" client_kind "string list option"
  | C_Welcome u16 "string list option"
  | C_Open open_msg
  | C_Opened u32
  | C_OpenError u32 string "string option"
  | C_Resize u32 u16 u16
  | C_StepStart step_start
  | C_StepAccepted string step_phase bool
  | C_StepSteer string string
  | C_StepStop string
  | C_StepResume string
  | C_StepStatus string u64
  | C_StepState string step_phase "step_finished option"
  | C_SessionEvent session_event
  | C_StepFinished step_finished
  | C_CredentialCaptured credential_kind "secret option" "bool option"
  | C_CredentialStatus
  | C_CredentialState credential_kind bool "string option"
  | C_StatsRequest
  | C_Stats sandbox_stats
  | C_FileRead string string
  | C_File string string "string option" "string option" "string option"
  | C_CredentialClear credential_kind
  | C_Error string string "string option" "u32 option"

fun tag :: "ctrl \<Rightarrow> string" where
  "tag (C_Hello _ _ _) = ''hello''"
| "tag (C_Welcome _ _) = ''welcome''"
| "tag (C_Open _) = ''open''"
| "tag (C_Opened _) = ''opened''"
| "tag (C_OpenError _ _ _) = ''open_error''"
| "tag (C_Resize _ _ _) = ''resize''"
| "tag (C_StepStart _) = ''step_start''"
| "tag (C_StepAccepted _ _ _) = ''step_accepted''"
| "tag (C_StepSteer _ _) = ''step_steer''"
| "tag (C_StepStop _) = ''step_stop''"
| "tag (C_StepResume _) = ''step_resume''"
| "tag (C_StepStatus _ _) = ''step_status''"
| "tag (C_StepState _ _ _) = ''step_state''"
| "tag (C_SessionEvent _) = ''session_event''"
| "tag (C_StepFinished _) = ''step_finished''"
| "tag (C_CredentialCaptured _ _ _) = ''credential_captured''"
| "tag C_CredentialStatus = ''credential_status''"
| "tag (C_CredentialState _ _ _) = ''credential_state''"
| "tag C_StatsRequest = ''stats_request''"
| "tag (C_Stats _) = ''stats''"
| "tag (C_FileRead _ _) = ''file_read''"
| "tag (C_File _ _ _ _ _) = ''file''"
| "tag (C_CredentialClear _) = ''credential_clear''"
| "tag (C_Error _ _ _ _) = ''error''"

section \<open>The direction table\<close>

datatype direction = Dir_Handshake | ClientToServer "client_kind list" | ServerToClient

definition ANY_CLIENT :: "client_kind list" where
  "ANY_CLIENT = [Ui, Proxy, Executor]"

fun ctrl_direction :: "ctrl \<Rightarrow> direction" where
  "ctrl_direction (C_Hello _ _ _) = Dir_Handshake"
| "ctrl_direction (C_Welcome _ _) = Dir_Handshake"
| "ctrl_direction (C_Open _) = ClientToServer ANY_CLIENT"
| "ctrl_direction (C_Resize _ _ _) = ClientToServer ANY_CLIENT"
| "ctrl_direction (C_Error _ _ _ _) = ClientToServer ANY_CLIENT"
| "ctrl_direction C_CredentialStatus = ClientToServer [Ui, Proxy]"
| "ctrl_direction (C_CredentialClear _) = ClientToServer [Ui, Proxy]"
| "ctrl_direction (C_FileRead _ _) = ClientToServer [Ui, Proxy]"
| "ctrl_direction (C_CredentialState _ _ _) = ClientToServer [Proxy]"
| "ctrl_direction C_StatsRequest = ClientToServer [Proxy]"
| "ctrl_direction (C_StepStart _) = ClientToServer [Executor]"
| "ctrl_direction (C_StepSteer _ _) = ClientToServer [Executor]"
| "ctrl_direction (C_StepStop _) = ClientToServer [Executor]"
| "ctrl_direction (C_StepResume _) = ClientToServer [Executor]"
| "ctrl_direction (C_StepStatus _ _) = ClientToServer [Executor]"
| "ctrl_direction (C_Opened _) = ServerToClient"
| "ctrl_direction (C_OpenError _ _ _) = ServerToClient"
| "ctrl_direction (C_StepAccepted _ _ _) = ServerToClient"
| "ctrl_direction (C_StepState _ _ _) = ServerToClient"
| "ctrl_direction (C_SessionEvent _) = ServerToClient"
| "ctrl_direction (C_StepFinished _) = ServerToClient"
| "ctrl_direction (C_CredentialCaptured _ _ _) = ServerToClient"
| "ctrl_direction (C_Stats _) = ServerToClient"
| "ctrl_direction (C_File _ _ _ _ _) = ServerToClient"

definition allowed_from :: "ctrl \<Rightarrow> client_kind \<Rightarrow> bool" where
  "allowed_from m kind = (case ctrl_direction m of ClientToServer kinds \<Rightarrow> kind \<in> set kinds | _ \<Rightarrow> False)"

section \<open>Version negotiation\<close>

definition SUPPORTED_VERSIONS :: "u16 list" where
  "SUPPORTED_VERSIONS = [1]"

text \<open>\<^verbatim>\<open>Iterator::max\<close>: none for an empty iterator.\<close>

fun iter_max :: "u16 list \<Rightarrow> u16 option" where
  "iter_max [] = None"
| "iter_max (v # vs) = (case iter_max vs of None \<Rightarrow> Some v | Some w \<Rightarrow> Some (max v w))"

definition negotiate_version :: "u16 list \<Rightarrow> u16 list \<Rightarrow> u16 option" where
  "negotiate_version client_versions supported = iter_max (filter (\<lambda>v. v \<in> set supported) client_versions)"

lemma iter_max_None [simp]: "iter_max vs = None \<longleftrightarrow> vs = []"
  by (cases vs) (simp_all split: option.splits)

lemma iter_max_Some: "iter_max vs = Some v \<longleftrightarrow> v \<in> set vs \<and> (\<forall>w \<in> set vs. w \<le> v)"
proof (induction vs arbitrary: v)
  case (Cons a vs)
  show ?case
  proof (cases "iter_max vs")
    case None
    then show ?thesis by auto
  next
    case (Some w)
    then have "w \<in> set vs" "\<forall>x \<in> set vs. x \<le> w" using Cons.IH by auto
    then show ?thesis using Some by (auto simp: max_def intro: antisym)
  qed
qed simp

section \<open>Debug\<close>

fun client_kind_debug :: "client_kind \<Rightarrow> dbg" where
  "client_kind_debug Ui = DText ''Ui''"
| "client_kind_debug Proxy = DText ''Proxy''"
| "client_kind_debug Executor = DText ''Executor''"

fun channel_kind_debug :: "channel_kind \<Rightarrow> dbg" where
  "channel_kind_debug Pty = DText ''Pty''"
| "channel_kind_debug Acp = DText ''Acp''"
| "channel_kind_debug UnknownKind = DText ''Unknown''"

fun credential_kind_debug :: "credential_kind \<Rightarrow> dbg" where
  "credential_kind_debug ClaudeOauth = DText ''ClaudeOauth''"

definition chat_checkout_debug :: "chat_checkout \<Rightarrow> dbg" where
  "chat_checkout_debug c = DStruct ''ChatCheckout''
     [(''branch'', DStr (cc_branch c)), (''start_ref'', dbg_opt DStr (cc_start_ref c)),
      (''create'', dbg_opt DBool (cc_create c))] False"

definition sandbox_stats_debug :: "sandbox_stats \<Rightarrow> dbg" where
  "sandbox_stats_debug s = DStruct ''SandboxStats''
     [(''ts_ms'', DNat (unat (st_ts_ms s))), (''cpu_usage_usec'', dbg_nat_opt (st_cpu_usage_usec s)),
      (''cpu_user_usec'', dbg_nat_opt (st_cpu_user_usec s)), (''cpu_system_usec'', dbg_nat_opt (st_cpu_system_usec s)),
      (''memory_bytes'', dbg_nat_opt (st_memory_bytes s)), (''memory_limit_bytes'', dbg_nat_opt (st_memory_limit_bytes s)),
      (''memory_inactive_file_bytes'', dbg_nat_opt (st_memory_inactive_file_bytes s)),
      (''io_read_bytes'', dbg_nat_opt (st_io_read_bytes s)), (''io_write_bytes'', dbg_nat_opt (st_io_write_bytes s)),
      (''storage_used_bytes'', dbg_nat_opt (st_storage_used_bytes s)),
      (''storage_total_bytes'', dbg_nat_opt (st_storage_total_bytes s))] False"

definition dbg_u16s :: "u16 list \<Rightarrow> dbg" where
  "dbg_u16s vs = DSeq (map (\<lambda>v. DNat (unat v)) vs)"

definition dbg_u32 :: "u32 \<Rightarrow> dbg" where "dbg_u32 w = DNat (unat w)"

definition dbg_u16 :: "u16 \<Rightarrow> dbg" where "dbg_u16 w = DNat (unat w)"

text \<open>The derived \<^verbatim>\<open>Debug\<close> of \<^verbatim>\<open>Ctrl\<close>.\<close>

fun ctrl_debug :: "ctrl \<Rightarrow> dbg" where
  "ctrl_debug (C_Hello vs k fs) = DStruct ''Hello''
     [(''versions'', dbg_u16s vs), (''client'', client_kind_debug k), (''features'', dbg_opt dbg_strs fs)] False"
| "ctrl_debug (C_Welcome v fs) = DStruct ''Welcome''
     [(''version'', dbg_u16 v), (''features'', dbg_opt dbg_strs fs)] False"
| "ctrl_debug (C_Open m) = DStruct ''Open''
     [(''channel'', dbg_u32 (om_channel m)), (''kind'', channel_kind_debug (om_kind m)),
      (''cols'', dbg_u16 (om_cols m)), (''rows'', dbg_u16 (om_rows m)),
      (''command'', dbg_opt dbg_strs (om_command m)), (''repo'', dbg_opt DStr (om_repo m)),
      (''resume'', dbg_opt DStr (om_resume m)), (''claude_token'', dbg_opt secret_debug (om_claude_token m)),
      (''checkout'', dbg_opt chat_checkout_debug (om_checkout m))] False"
| "ctrl_debug (C_Opened c) = DStruct ''Opened'' [(''channel'', dbg_u32 c)] False"
| "ctrl_debug (C_OpenError c t code) = DStruct ''OpenError''
     [(''channel'', dbg_u32 c), (''message'', DStr t), (''code'', dbg_opt DStr code)] False"
| "ctrl_debug (C_Resize c x y) = DStruct ''Resize''
     [(''channel'', dbg_u32 c), (''cols'', dbg_u16 x), (''rows'', dbg_u16 y)] False"
| "ctrl_debug (C_StepStart s) = DTuple ''StepStart'' [step_start_debug s]"
| "ctrl_debug (C_StepAccepted r p e) = DStruct ''StepAccepted''
     [(''run_id'', DStr r), (''state'', step_phase_debug p), (''existing'', DBool e)] False"
| "ctrl_debug (C_StepSteer r t) = DStruct ''StepSteer'' [(''run_id'', DStr r), (''text'', DStr t)] False"
| "ctrl_debug (C_StepStop r) = DStruct ''StepStop'' [(''run_id'', DStr r)] False"
| "ctrl_debug (C_StepResume r) = DStruct ''StepResume'' [(''run_id'', DStr r)] False"
| "ctrl_debug (C_StepStatus r n) = DStruct ''StepStatus'' [(''run_id'', DStr r), (''after_seq'', DNat (unat n))] False"
| "ctrl_debug (C_StepState r p f) = DStruct ''StepState''
     [(''run_id'', DStr r), (''state'', step_phase_debug p), (''result'', dbg_opt step_finished_debug f)] False"
| "ctrl_debug (C_SessionEvent e) = DTuple ''SessionEvent'' [session_event_debug e]"
| "ctrl_debug (C_StepFinished f) = DTuple ''StepFinished'' [step_finished_debug f]"
| "ctrl_debug (C_CredentialCaptured k t l) = DStruct ''CredentialCaptured''
     [(''kind'', credential_kind_debug k), (''token'', dbg_opt secret_debug t), (''legacy'', dbg_opt DBool l)] False"
| "ctrl_debug C_CredentialStatus = DText ''CredentialStatus''"
| "ctrl_debug (C_CredentialState k c s) = DStruct ''CredentialState''
     [(''kind'', credential_kind_debug k), (''configured'', DBool c), (''scope'', dbg_opt DStr s)] False"
| "ctrl_debug C_StatsRequest = DText ''StatsRequest''"
| "ctrl_debug (C_Stats s) = DTuple ''Stats'' [sandbox_stats_debug s]"
| "ctrl_debug (C_FileRead i p) = DStruct ''FileRead'' [(''id'', DStr i), (''path'', DStr p)] False"
| "ctrl_debug (C_File i p c d e) = DStruct ''File''
     [(''id'', DStr i), (''path'', DStr p), (''content'', dbg_opt DStr c), (''code'', dbg_opt DStr d),
      (''message'', dbg_opt DStr e)] False"
| "ctrl_debug (C_CredentialClear k) = DStruct ''CredentialClear'' [(''kind'', credential_kind_debug k)] False"
| "ctrl_debug (C_Error c t r ch) = DStruct ''Error''
     [(''code'', DStr c), (''message'', DStr t), (''run_id'', dbg_opt DStr r), (''channel'', dbg_opt dbg_u32 ch)] False"

text \<open>The message with every \<^verbatim>\<open>Secret\<close> in it blanked.\<close>

fun redact :: "ctrl \<Rightarrow> ctrl" where
  "redact (C_Open m) = C_Open (m\<lparr>om_claude_token := map_option blank (om_claude_token m)\<rparr>)"
| "redact (C_StepStart s) = C_StepStart (redact_start s)"
| "redact (C_CredentialCaptured k t l) = C_CredentialCaptured k (map_option blank t) l"
| "redact m = m"

section \<open>Properties\<close>

text \<open>Which tags each kind of client may send after the handshake, as the protocol lists them.\<close>

fun client_tags :: "client_kind \<Rightarrow> string list" where
  "client_tags Ui = [''open'', ''resize'', ''error'', ''credential_status'', ''credential_clear'', ''file_read'']"
| "client_tags Proxy = [''open'', ''resize'', ''error'', ''credential_status'', ''credential_clear'', ''file_read'',
     ''credential_state'', ''stats_request'']"
| "client_tags Executor = [''open'', ''resize'', ''error'', ''step_start'', ''step_steer'', ''step_stop'',
     ''step_resume'', ''step_status'']"

text \<open>
  Default deny. A client of a given kind may send a message after the handshake exactly when
  the message's wire tag is on that kind's list: six tags for a browser, two more for the
  proxy, steps for the executor only; handshake messages and server replies from nobody.
\<close>

theorem allowed_from_tags: "allowed_from m kind \<longleftrightarrow> tag m \<in> set (client_tags kind)"
  by (cases m; cases kind) (simp_all add: allowed_from_def ANY_CLIENT_def)

text \<open>
  No secret in debug output. The derived and hand-written \<^verbatim>\<open>Debug\<close> output of a control
  message does not depend on the secrets in it: it is the output of the message with every
  token, secret environment value and secret file blanked.
\<close>

theorem ctrl_debug_hides_secrets: "ctrl_debug (redact m) = ctrl_debug m"
  by (cases m) simp_all

text \<open>
  Negotiation picks the highest common version. The result is a version both sides offer and
  no common version is higher; it fails exactly when there is no common version; the order in
  which the client lists its versions does not matter.
\<close>

theorem negotiate_version_highest:
  "(case negotiate_version cs ss of
      None \<Rightarrow> set cs \<inter> set ss = {}
    | Some v \<Rightarrow> v \<in> set cs \<and> v \<in> set ss \<and> v = Max (set cs \<inter> set ss))"
proof (cases "negotiate_version cs ss")
  case None
  then show ?thesis by (auto simp: negotiate_version_def filter_empty_conv)
next
  case (Some v)
  then have v: "v \<in> set cs" "v \<in> set ss" "\<forall>w \<in> set cs \<inter> set ss. w \<le> v"
    by (auto simp: negotiate_version_def iter_max_Some)
  then have "Max (set cs \<inter> set ss) = v" by (intro Max_eqI) auto
  then show ?thesis using Some v by simp
qed

text \<open>
  A sanitised feature list is bounded: at most 64 names, each of 1 to 64 bytes, all of them
  sent by the peer; a list within the bounds is kept as it is, so sanitising again changes
  nothing.
\<close>

theorem sanitize_features_bounded:
  "length (sanitize_features fs) \<le> 64 \<and> (\<forall>f \<in> set (sanitize_features fs). 0 < length f \<and> length f \<le> 64)
   \<and> set (sanitize_features fs) \<subseteq> (case fs of None \<Rightarrow> {} | Some v \<Rightarrow> set v)
   \<and> sanitize_features (Some (sanitize_features fs)) = sanitize_features fs"
proof -
  define v where "v = (case fs of None \<Rightarrow> [] | Some v \<Rightarrow> v)"
  define g where "g = filter (\<lambda>f :: string. f \<noteq> [] \<and> length f \<le> 64) v"
  have sf: "sanitize_features fs = take 64 g"
    by (simp add: sanitize_features_def g_def v_def MAX_FEATURES_def MAX_FEATURE_LEN_def)
  have g: "f \<noteq> [] \<and> length f \<le> 64 \<and> f \<in> set v" if "f \<in> set (take 64 g)" for f
    using that by (auto simp: g_def dest: in_set_takeD)
  then have "filter (\<lambda>f. f \<noteq> [] \<and> length f \<le> 64) (take 64 g) = take 64 g"
    by (simp add: filter_id_conv)
  then have "sanitize_features (Some (take 64 g)) = take 64 g"
    by (simp add: sanitize_features_def MAX_FEATURES_def MAX_FEATURE_LEN_def)
  moreover have "set (take 64 g) \<subseteq> (case fs of None \<Rightarrow> {} | Some v \<Rightarrow> set v)"
    using g by (fastforce simp: v_def split: option.splits)
  ultimately show ?thesis using g by (auto simp: sf)
qed

theorem sanitize_features_bounded_witness:
  "length (sanitize_features (Some [''acp''])) \<le> 64 \<and> sanitize_features (Some [''acp'']) = [''acp'']"
  using sanitize_features_bounded [of "Some [''acp'']"]
  by (simp add: sanitize_features_def MAX_FEATURES_def MAX_FEATURE_LEN_def)

end
