(* ===== verification/Handshake.thy ===== *)
theory Handshake
  imports Ctrl Errors
begin

text \<open>
  The hello/welcome handshake: \<^verbatim>\<open>proto/crates/enzarb-proto/src/session/handshake.rs\<close>. A
  websocket is the list of items its stream will still deliver (the end of the list is the end of the
  stream), the messages sent so far, the outcomes of the next sends, and whether it was
  closed. The JSON codec of control messages is a parameter: \<open>ser\<close> for
  \<^verbatim>\<open>serde_json::to_vec\<close> and \<open>de\<close> for \<^verbatim>\<open>serde_json::from_slice\<close>; \<open>ctrl_ok\<close> says that a message
  survives it and fits a frame.
\<close>

section \<open>Websockets\<close>

datatype ws_msg = WsBinary bytes | WsText string | WsClose | WsOther

record ws =
  ws_in :: "(string + ws_msg) list"
  ws_out :: "ws_msg list"
  ws_sends :: "string option list"
  ws_closed :: bool

definition ws_new :: "(string + ws_msg) list \<Rightarrow> ws" where
  "ws_new items = \<lparr>ws_in = items, ws_out = [], ws_sends = [], ws_closed = False\<rparr>"

lemma ws_new_simps [simp]:
  "ws_in (ws_new i) = i" "ws_out (ws_new i) = []" "ws_sends (ws_new i) = []" "ws_closed (ws_new i) = False"
  "(ws_new i)\<lparr>ws_in := j\<rparr> = ws_new j" "(ws_new i)\<lparr>ws_out := ms, ws_in := j\<rparr> = (ws_new j)\<lparr>ws_out := ms\<rparr>"
  by (simp_all add: ws_new_def)

text \<open>\<^verbatim>\<open>Sink::send\<close>: an outcome of \<open>Some e\<close> is a transport error; with none listed it succeeds.\<close>

definition ws_send :: "ws \<Rightarrow> ws_msg \<Rightarrow> (string + unit) \<times> ws" where
  "ws_send w m =
     (case ws_sends w of
        Some e # r \<Rightarrow> (Inl e, w\<lparr>ws_sends := r\<rparr>)
      | None # r \<Rightarrow> (Inr (), w\<lparr>ws_sends := r, ws_out := ws_out w @ [m]\<rparr>)
      | [] \<Rightarrow> (Inr (), w\<lparr>ws_out := ws_out w @ [m]\<rparr>))"

definition ws_close :: "ws \<Rightarrow> ws" where
  "ws_close w = w\<lparr>ws_closed := True\<rparr>"

section \<open>The handshake\<close>

record server_hello =
  sh_version :: u16
  sh_client :: client_kind
  sh_offered :: "u16 list"
  sh_features :: "string list"

record client_welcome =
  cw_version :: u16
  cw_features :: "string list"

definition hs_send_ctrl :: "(ctrl \<Rightarrow> string + bytes) \<Rightarrow> ws \<Rightarrow> ctrl \<Rightarrow> (handshake_error + unit) \<times> ws" where
  "hs_send_ctrl ser w m =
     (case (case frame_ctrl ser m of Inl e \<Rightarrow> Inl e | Inr f \<Rightarrow> to_bytes f) of
        Inl e \<Rightarrow> (Inl (HE_Protocol (frame_error_display e)), w)
      | Inr b \<Rightarrow>
          (case ws_send w (WsBinary b) of
             (Inl e, w') \<Rightarrow> (Inl (HE_Transport e), w')
           | (Inr _, w') \<Rightarrow> (Inr (), w')))"

fun next_item :: "(string + ws_msg) list \<Rightarrow> (string + frame option) \<times> (string + ws_msg) list" where
  "next_item [] = (Inr None, [])"
| "next_item (Inl e # r) = (Inl (''websocket: '' @ e), r)"
| "next_item (Inr WsClose # r) = (Inr None, r)"
| "next_item (Inr (WsBinary b) # r) =
     ((case from_bytes b of Inl e \<Rightarrow> Inl (frame_error_display e) | Inr f \<Rightarrow> Inr (Some f)), r)"
| "next_item (Inr (WsText t) # r) = (Inl ''text message'', r)"
| "next_item (Inr WsOther # r) = next_item r"

definition next_frame :: "ws \<Rightarrow> (string + frame option) \<times> ws" where
  "next_frame w = (case next_item (ws_in w) of (x, r) \<Rightarrow> (x, w\<lparr>ws_in := r\<rparr>))"

definition hs_reject :: "(ctrl \<Rightarrow> string + bytes) \<Rightarrow> ws \<Rightarrow> string \<Rightarrow> string \<Rightarrow> handshake_error \<times> ws" where
  "hs_reject ser w code message =
     (case hs_send_ctrl ser w (C_Error code message None None) of
        (_, w') \<Rightarrow> (HE_Protocol message, ws_close w'))"

text \<open>\<^verbatim>\<open>{:?}\<close> of a list of integers.\<close>

fun show_u16s_tail :: "u16 list \<Rightarrow> string" where
  "show_u16s_tail [] = '']''"
| "show_u16s_tail (v # vs) = '', '' @ show_nat (unat v) @ show_u16s_tail vs"

fun show_u16s :: "u16 list \<Rightarrow> string" where
  "show_u16s [] = ''[]''"
| "show_u16s (v # vs) = ''['' @ show_nat (unat v) @ show_u16s_tail vs"

definition some_features :: "string list \<Rightarrow> string list option" where
  "some_features fs = (if fs = [] then None else Some fs)"

definition no_common_version :: "u16 list \<Rightarrow> string" where
  "no_common_version vs = ''no common version (client offered '' @ show_u16s vs @ '')''"

definition server_handshake_with_features ::
  "(ctrl \<Rightarrow> string + bytes) \<Rightarrow> (bytes \<Rightarrow> string + ctrl) \<Rightarrow> ws \<Rightarrow> u16 list \<Rightarrow> string list
    \<Rightarrow> (handshake_error + server_hello) \<times> ws" where
  "server_handshake_with_features ser de w supported features =
     (case next_frame w of
        (Inl e, w') \<Rightarrow> (case hs_reject ser w' ec_PROTOCOL_VIOLATION e of (h, w'') \<Rightarrow> (Inl h, w''))
      | (Inr None, w') \<Rightarrow> (Inl HE_Closed, w')
      | (Inr (Some f), w') \<Rightarrow>
          (case (f_type f, ctrl_message de f) of
             (FT_Ctrl, Inr (C_Hello versions client peer_features)) \<Rightarrow>
               (case negotiate_version versions supported of
                  None \<Rightarrow>
                    (case hs_reject ser w' ec_UNSUPPORTED_VERSION (no_common_version versions) of
                       (_, w'') \<Rightarrow> (Inl (HE_UnsupportedVersion versions), w''))
                | Some version \<Rightarrow>
                    (case hs_send_ctrl ser w' (C_Welcome version (some_features features)) of
                       (Inl e, w'') \<Rightarrow> (Inl e, w'')
                     | (Inr _, w'') \<Rightarrow>
                         (Inr \<lparr>sh_version = version, sh_client = client, sh_offered = versions,
                               sh_features = sanitize_features peer_features\<rparr>, w'')))
           | _ \<Rightarrow>
               (case hs_reject ser w' ec_PROTOCOL_VIOLATION ''first frame must be CTRL hello'' of
                  (h, w'') \<Rightarrow> (Inl h, w''))))"

definition server_handshake :: "(ctrl \<Rightarrow> string + bytes) \<Rightarrow> (bytes \<Rightarrow> string + ctrl) \<Rightarrow> ws \<Rightarrow> u16 list
    \<Rightarrow> (handshake_error + server_hello) \<times> ws" where
  "server_handshake ser de w supported = server_handshake_with_features ser de w supported []"

definition client_handshake_offering ::
  "(ctrl \<Rightarrow> string + bytes) \<Rightarrow> (bytes \<Rightarrow> string + ctrl) \<Rightarrow> ws \<Rightarrow> client_kind \<Rightarrow> string list
    \<Rightarrow> (handshake_error + client_welcome) \<times> ws" where
  "client_handshake_offering ser de w kind features =
     (case hs_send_ctrl ser w (C_Hello SUPPORTED_VERSIONS kind (some_features features)) of
        (Inl e, w') \<Rightarrow> (Inl e, w')
      | (Inr _, w') \<Rightarrow>
          (case next_frame w' of
             (Inl e, w'') \<Rightarrow> (Inl (HE_Protocol e), w'')
           | (Inr None, w'') \<Rightarrow> (Inl HE_Closed, w'')
           | (Inr (Some f), w'') \<Rightarrow>
               (case (f_type f, ctrl_message de f) of
                  (FT_Ctrl, Inr (C_Welcome version fs)) \<Rightarrow>
                    if version \<in> set SUPPORTED_VERSIONS
                    then (Inr \<lparr>cw_version = version, cw_features = sanitize_features fs\<rparr>, w'')
                    else (Inl (HE_Protocol (''server chose unsupported version '' @ show_nat (unat version))), w'')
                | (FT_Ctrl, Inr (C_Error code message _ _)) \<Rightarrow> (Inl (HE_Rejected code message), ws_close w'')
                | _ \<Rightarrow>
                    (case hs_reject ser w'' ec_PROTOCOL_VIOLATION ''expected CTRL welcome'' of
                       (h, w3) \<Rightarrow> (Inl h, w3)))))"

definition client_handshake_with_features ::
  "(ctrl \<Rightarrow> string + bytes) \<Rightarrow> (bytes \<Rightarrow> string + ctrl) \<Rightarrow> ws \<Rightarrow> client_kind
    \<Rightarrow> (handshake_error + client_welcome) \<times> ws" where
  "client_handshake_with_features ser de w kind = client_handshake_offering ser de w kind []"

definition client_handshake :: "(ctrl \<Rightarrow> string + bytes) \<Rightarrow> (bytes \<Rightarrow> string + ctrl) \<Rightarrow> ws \<Rightarrow> client_kind
    \<Rightarrow> (handshake_error + u16) \<times> ws" where
  "client_handshake ser de w kind =
     (case client_handshake_with_features ser de w kind of (r, w') \<Rightarrow> (map_sum id cw_version r, w'))"

section \<open>Messages that survive the codec\<close>

definition ctrl_ok :: "(ctrl \<Rightarrow> string + bytes) \<Rightarrow> (bytes \<Rightarrow> string + ctrl) \<Rightarrow> ctrl \<Rightarrow> bool" where
  "ctrl_ok ser de m \<longleftrightarrow> (case ser m of Inl _ \<Rightarrow> False | Inr b \<Rightarrow> length b \<le> MAX_PAYLOAD_LEN \<and> de b = Inr m)"

lemma ctrl_ok_wire:
  assumes "ctrl_ok ser de m"
  obtains f w where "frame_ctrl ser m = Inr f" "to_bytes f = Inr w" "from_bytes w = Inr f"
    "f_type f = FT_Ctrl" "ctrl_message de f = Inr m" "f_channel f = 0"
proof -
  obtain b where b: "ser m = Inr b" "length b \<le> MAX_PAYLOAD_LEN" "de b = Inr m"
    using assms by (auto simp: ctrl_ok_def split: sum.splits)
  define f where "f = frame_new FT_Ctrl 0 b"
  have v: "validate f = Inr ()" using b by (simp add: f_def frame_new_def validate_def check_channel_def)
  have "frame_ctrl ser m = Inr f" "f_type f = FT_Ctrl" "ctrl_message de f = Inr m" "f_channel f = 0"
    using b by (simp_all add: f_def frame_ctrl_def ctrl_message_def frame_new_def)
  moreover have "to_bytes f = Inr (header_bytes f @ f_payload f)" using v by (simp add: to_bytes_eq)
  moreover have "from_bytes (header_bytes f @ f_payload f) = Inr f" by (rule from_bytes_header_bytes [OF v])
  ultimately show ?thesis by (blast intro: that)
qed

lemma hs_send_ctrl_ok:
  assumes "ctrl_ok ser de m" and "ws_sends w = []"
  obtains f b where "hs_send_ctrl ser w m = (Inr (), w\<lparr>ws_out := ws_out w @ [WsBinary b]\<rparr>)"
    "from_bytes b = Inr f" "f_type f = FT_Ctrl" "ctrl_message de f = Inr m"
  using assms(1)
proof (cases rule: ctrl_ok_wire)
  case (1 f b)
  then have "hs_send_ctrl ser w m = (Inr (), w\<lparr>ws_out := ws_out w @ [WsBinary b]\<rparr>)"
    using assms(2) by (simp add: hs_send_ctrl_def ws_send_def)
  then show ?thesis using 1 that by blast
qed

lemma hs_send_ctrl_out:
  "hs_send_ctrl ser w m = (r, w') \<Longrightarrow> ws_out w = [] \<Longrightarrow>
     ws_closed w' = ws_closed w \<and> length (ws_out w') = (case r of Inl _ \<Rightarrow> 0 | Inr _ \<Rightarrow> 1)"
  by (auto simp: hs_send_ctrl_def ws_send_def split: sum.splits list.splits option.splits)

section \<open>Properties\<close>

text \<open>
  The whole exchange: the client's \<^verbatim>\<open>hello\<close> is given to the server, the server's answer to the
  client.
\<close>

definition exchange :: "(ctrl \<Rightarrow> string + bytes) \<Rightarrow> (bytes \<Rightarrow> string + ctrl) \<Rightarrow> client_kind \<Rightarrow> string list
    \<Rightarrow> u16 list \<Rightarrow> string list \<Rightarrow> (handshake_error + server_hello) \<times> (handshake_error + client_welcome)" where
  "exchange ser de kind cf supported sf =
     (let hello = ws_out (snd (client_handshake_offering ser de (ws_new []) kind cf));
          (sr, sw) = server_handshake_with_features ser de (ws_new (map Inr hello)) supported sf;
          (cr, cw) = client_handshake_offering ser de (ws_new (map Inr (ws_out sw))) kind cf
      in (sr, cr))"

text \<open>
  C8: the two sides of a handshake agree. When the messages it needs survive the JSON codec, a
  server that supports version 1 and the client both succeed with version 1, the server knows
  the kind of the client, and each side has the other's features, sanitised; with a server
  that supports no common version the server fails with the versions offered and the client
  is told \<^verbatim>\<open>unsupported_version\<close>. Neither side is ever left with a different outcome.
\<close>

theorem handshake_agrees:
  assumes "ctrl_ok ser de (C_Hello SUPPORTED_VERSIONS kind (some_features cf))"
    and "ctrl_ok ser de (C_Welcome 1 (some_features sf))"
    and "ctrl_ok ser de (C_Error ec_UNSUPPORTED_VERSION (no_common_version SUPPORTED_VERSIONS) None None)"
  shows "exchange ser de kind cf supported sf =
    (if 1 \<in> set supported
     then (Inr \<lparr>sh_version = 1, sh_client = kind, sh_offered = SUPPORTED_VERSIONS,
                sh_features = sanitize_features (some_features cf)\<rparr>,
           Inr \<lparr>cw_version = 1, cw_features = sanitize_features (some_features sf)\<rparr>)
     else (Inl (HE_UnsupportedVersion SUPPORTED_VERSIONS),
           Inl (HE_Rejected ec_UNSUPPORTED_VERSION (no_common_version SUPPORTED_VERSIONS))))"
proof -
  have neg: "negotiate_version SUPPORTED_VERSIONS supported = (if 1 \<in> set supported then Some 1 else None)"
    by (simp add: negotiate_version_def SUPPORTED_VERSIONS_def)
  from assms(1) obtain hf hb where h: "from_bytes hb = Inr hf" "f_type hf = FT_Ctrl"
    "ctrl_message de hf = Inr (C_Hello SUPPORTED_VERSIONS kind (some_features cf))"
    "\<And>items. hs_send_ctrl ser (ws_new items) (C_Hello SUPPORTED_VERSIONS kind (some_features cf)) =
       (Inr (), (ws_new items)\<lparr>ws_out := [WsBinary hb]\<rparr>)"
    by (cases rule: ctrl_ok_wire) (auto simp: hs_send_ctrl_def ws_send_def)
  have hello: "ws_out (snd (client_handshake_offering ser de (ws_new []) kind cf)) = [WsBinary hb]"
    by (simp add: client_handshake_offering_def h next_frame_def)
  have start: "next_frame (ws_new [Inr (WsBinary hb)]) = (Inr (Some hf), ws_new [])"
    by (simp add: next_frame_def h)
  note defs = exchange_def hello server_handshake_with_features_def start h neg Let_def
    client_handshake_offering_def next_frame_def
  show ?thesis
  proof (cases "1 \<in> set supported")
    case True
    obtain wf wb where w: "hs_send_ctrl ser (ws_new []) (C_Welcome 1 (some_features sf)) =
        (Inr (), (ws_new [])\<lparr>ws_out := ws_out (ws_new []) @ [WsBinary wb]\<rparr>)" "from_bytes wb = Inr wf"
      "f_type wf = FT_Ctrl" "ctrl_message de wf = Inr (C_Welcome 1 (some_features sf))"
      by (rule hs_send_ctrl_ok [OF assms(2), of "ws_new []"]) simp_all
    show ?thesis using True w by (simp add: defs SUPPORTED_VERSIONS_def [symmetric]) (simp add: SUPPORTED_VERSIONS_def)
  next
    case False
    obtain ef eb where e: "hs_send_ctrl ser (ws_new [])
        (C_Error ec_UNSUPPORTED_VERSION (no_common_version SUPPORTED_VERSIONS) None None) =
        (Inr (), (ws_new [])\<lparr>ws_out := ws_out (ws_new []) @ [WsBinary eb]\<rparr>)" "from_bytes eb = Inr ef"
      "f_type ef = FT_Ctrl"
      "ctrl_message de ef = Inr (C_Error ec_UNSUPPORTED_VERSION (no_common_version SUPPORTED_VERSIONS) None None)"
      by (rule hs_send_ctrl_ok [OF assms(3), of "ws_new []"]) simp_all
    show ?thesis using False e by (simp add: defs hs_reject_def ws_close_def)
  qed
qed

text \<open>A codec for the messages of a concrete handshake.\<close>

definition tiny_ser :: "ctrl \<Rightarrow> string + bytes" where
  "tiny_ser m = (case m of C_Hello _ _ _ \<Rightarrow> Inr [1] | C_Welcome _ _ \<Rightarrow> Inr [2] | C_Error _ _ _ _ \<Rightarrow> Inr [3] | _ \<Rightarrow> Inl ''other'')"

definition tiny_de :: "bytes \<Rightarrow> string + ctrl" where
  "tiny_de b =
     (if b = [1] then Inr (C_Hello SUPPORTED_VERSIONS Executor (some_features [''x'']))
      else if b = [2] then Inr (C_Welcome 1 (some_features [''acp'']))
      else if b = [3] then Inr (C_Error ec_UNSUPPORTED_VERSION (no_common_version SUPPORTED_VERSIONS) None None)
      else Inl ''bad'')"

theorem handshake_agrees_witness:
  "exchange tiny_ser tiny_de Executor [''x''] [1, 2] [''acp''] =
    (Inr \<lparr>sh_version = 1, sh_client = Executor, sh_offered = [1], sh_features = [''x'']\<rparr>,
     Inr \<lparr>cw_version = 1, cw_features = [''acp'']\<rparr>)"
  using handshake_agrees [of tiny_ser tiny_de Executor "[''x'']" "[''acp'']" "[1, 2]"]
  by (simp add: ctrl_ok_def tiny_ser_def tiny_de_def MAX_PAYLOAD_LEN_def some_features_def sanitize_features_def
      MAX_FEATURES_def MAX_FEATURE_LEN_def SUPPORTED_VERSIONS_def)

text \<open>
  Outcomes of a server handshake. On success exactly one message (\<^verbatim>\<open>welcome\<close>) was sent, the
  socket is still open and the version is the one negotiated from the versions the client
  offered. On failure at most one message was sent, and whenever one was sent the socket is
  closed after it, whatever the peer sent and whichever sends failed.
\<close>

theorem server_handshake_outcome:
  assumes "server_handshake_with_features ser de w supported features = (r, w')"
    and "ws_out w = []" and "\<not> ws_closed w"
  shows "case r of
      Inr h \<Rightarrow> length (ws_out w') = 1 \<and> \<not> ws_closed w'
        \<and> negotiate_version (sh_offered h) supported = Some (sh_version h)
    | Inl _ \<Rightarrow> length (ws_out w') \<le> 1 \<and> (ws_out w' = [] \<or> ws_closed w')"
proof -
  obtain x w1 where n: "next_frame w = (x, w1)" by fastforce
  then have w1: "ws_out w1 = []" "\<not> ws_closed w1"
    using assms(2,3) by (auto simp: next_frame_def split: prod.splits)
  have rej: "length (ws_out w2) \<le> 1 \<and> ws_closed w2" if "hs_reject ser w1 c e = (h, w2)" for c e h w2
    using that w1
    by (auto simp: hs_reject_def ws_close_def dest: hs_send_ctrl_out split: prod.splits)
       (auto dest!: hs_send_ctrl_out split: sum.splits)
  show ?thesis
    using assms(1) n w1
    by (auto simp: server_handshake_with_features_def dest!: rej hs_send_ctrl_out
        split: prod.splits sum.splits option.splits frame_type.splits ctrl.splits)
qed

theorem server_handshake_outcome_witness:
  "\<exists>w'. server_handshake_with_features tiny_ser tiny_de (ws_new []) [1] [] = (Inl HE_Closed, w')
    \<and> length (ws_out w') \<le> 1 \<and> (ws_out w' = [] \<or> ws_closed w')"
proof -
  have r: "server_handshake_with_features tiny_ser tiny_de (ws_new []) [1] [] = (Inl HE_Closed, ws_new [])"
    by (simp add: server_handshake_with_features_def next_frame_def)
  from server_handshake_outcome [OF r] show ?thesis by (simp add: r)
qed

end
