(* ===== verification/Session_State.thy ===== *)
theory Session_State
  imports Channel Handshake
begin

text \<open>
  The session runtime: \<^verbatim>\<open>proto/crates/enzarb-proto/src/session/core.rs\<close>. The record holds
  \<^verbatim>\<open>Inner\<close>, the \<^verbatim>\<open>State\<close> behind its mutex, and what the session shares with its environment: the
  queue to the writer task, the events emitted, the replies sent on one-shot channels.

  An \<^verbatim>\<open>Arc<Chan>\<close> is the index of the channel in \<open>s_heap\<close>, so that the channel table and the
  handles share channels as the source does and \<^verbatim>\<open>Arc::ptr_eq\<close> is equality of indices. A one-shot
  channel is a number; \<open>s_gone\<close> has those whose receiver was dropped. Each handler and each
  call of the API is one function; the parts of an asynchronous call before and after its
  \<^verbatim>\<open>await\<close> are separate. Hash maps are association lists without repeated keys, in any order.
\<close>

section \<open>State\<close>

definition al_get :: "('k \<times> 'v) list \<Rightarrow> 'k \<Rightarrow> 'v option" where
  "al_get xs k = map_of xs k"

definition al_remove :: "'k \<Rightarrow> ('k \<times> 'v) list \<Rightarrow> ('k \<times> 'v) list" where
  "al_remove k xs = filter (\<lambda>p. fst p \<noteq> k) xs"

definition al_insert :: "'k \<Rightarrow> 'v \<Rightarrow> ('k \<times> 'v) list \<Rightarrow> ('k \<times> 'v) list" where
  "al_insert k v xs = (k, v) # al_remove k xs"

record step_accepted =
  sa_run_id :: string
  sa_state :: step_phase
  sa_existing :: bool

record step_info =
  si_run_id :: string
  si_state :: step_phase
  si_result :: "step_finished option"

record credential_info =
  ci_kind :: credential_kind
  ci_configured :: bool
  ci_scope :: "string option"

datatype event = E_Open open_msg | E_Ctrl ctrl

datatype pending_req = P_StepStart string nat | P_StepStatus string nat | P_CredentialStatus nat

datatype reply =
    Reply_Open "session_error + unit"
  | Reply_Start "session_error + step_accepted"
  | Reply_Status "session_error + step_info"
  | Reply_Cred "session_error + credential_info"

datatype out = Out_Frame bytes | Out_Close

record sess =
  s_role :: role
  s_version :: u16
  s_features :: "string list"
  s_peer :: "client_kind option"
  s_peer_features :: "string list"
  s_out :: "out list"
  s_out_open :: bool
  s_sent :: "bytes list"
  s_end :: "session_end option"
  s_handles :: nat
  s_heap :: "chan list"
  s_channels :: "(u32 \<times> nat) list"
  s_reserved :: "u32 set"
  s_pending_open :: "(u32 \<times> nat \<times> nat) list"
  s_pending :: "pending_req list"
  s_next_id :: u32
  s_events :: "event list"
  s_events_open :: bool
  s_replies :: "(nat \<times> reply) list"
  s_gone :: "nat set"
  s_next_tx :: nat
  s_woken :: "nat list"
  s_reader_done :: bool

definition sess_start :: "role \<Rightarrow> u16 \<Rightarrow> string list \<Rightarrow> client_kind option \<Rightarrow> string list \<Rightarrow> sess" where
  "sess_start r v fs peer pfs =
     \<lparr>s_role = r, s_version = v, s_features = fs, s_peer = peer, s_peer_features = pfs,
      s_out = [], s_out_open = True, s_sent = [], s_end = None, s_handles = 1, s_heap = [],
      s_channels = [], s_reserved = {}, s_pending_open = [], s_pending = [], s_next_id = 0,
      s_events = [], s_events_open = True, s_replies = [], s_gone = {}, s_next_tx = 0,
      s_woken = [], s_reader_done = False\<rparr>"

text \<open>\<^verbatim>\<open>Session::connect_offering\<close> and \<^verbatim>\<open>Session::accept\<close>.\<close>

definition connect_offering ::
  "(ctrl \<Rightarrow> string + bytes) \<Rightarrow> (bytes \<Rightarrow> string + ctrl) \<Rightarrow> ws \<Rightarrow> client_kind \<Rightarrow> string list
    \<Rightarrow> (handshake_error + sess) \<times> ws" where
  "connect_offering ser de w kind features =
     (case client_handshake_offering ser de w kind features of
        (Inl e, w') \<Rightarrow> (Inl e, w')
      | (Inr c, w') \<Rightarrow> (Inr (sess_start Role_Client (cw_version c) (cw_features c) None []), w'))"

definition sess_accept ::
  "(ctrl \<Rightarrow> string + bytes) \<Rightarrow> (bytes \<Rightarrow> string + ctrl) \<Rightarrow> ws \<Rightarrow> u16 list \<Rightarrow> string list
    \<Rightarrow> (handshake_error + sess) \<times> ws" where
  "sess_accept ser de w supported features =
     (case server_handshake_with_features ser de w supported features of
        (Inl e, w') \<Rightarrow> (Inl e, w')
      | (Inr h, w') \<Rightarrow>
          (Inr (sess_start Role_Server (sh_version h) features (Some (sh_client h)) (sh_features h)), w'))"

definition has_feature :: "sess \<Rightarrow> string \<Rightarrow> bool" where
  "has_feature s f \<longleftrightarrow> f \<in> set (s_features s)"

definition peer_has_feature :: "sess \<Rightarrow> string \<Rightarrow> bool" where
  "peer_has_feature s f \<longleftrightarrow> f \<in> set (s_peer_features s)"

definition sess_is_closed :: "sess \<Rightarrow> bool" where
  "sess_is_closed s \<longleftrightarrow> s_end s \<noteq> None"

section \<open>Channel ids\<close>

definition in_use :: "sess \<Rightarrow> u32 \<Rightarrow> bool" where
  "in_use s i \<longleftrightarrow> al_get (s_channels s) i \<noteq> None \<or> i \<in> s_reserved s"

text \<open>\<^verbatim>\<open>checked_add(1).unwrap_or(1)\<close>.\<close>

definition next_chan_id :: "u32 \<Rightarrow> u32" where
  "next_chan_id i = (if i = - 1 then 1 else i + 1)"

fun alloc_from :: "nat \<Rightarrow> sess \<Rightarrow> (session_error + u32) \<times> sess" where
  "alloc_from 0 s = (Inl SE_NoFreeChannel, s)"
| "alloc_from (Suc n) s =
     (let s' = s\<lparr>s_next_id := next_chan_id (s_next_id s)\<rparr>
      in if in_use s' (s_next_id s') then alloc_from n s' else (Inr (s_next_id s'), s'))"

definition alloc :: "sess \<Rightarrow> (session_error + u32) \<times> sess" where
  "alloc s = alloc_from 1024 s"

section \<open>Sending\<close>

definition ended :: "sess \<Rightarrow> session_error" where
  "ended s = SE_Ended (case s_end s of None \<Rightarrow> End_Closed | Some e \<Rightarrow> e)"

definition check_alive :: "sess \<Rightarrow> session_error + unit" where
  "check_alive s = (if s_end s \<noteq> None then Inl (ended s) else Inr ())"

text \<open>\<^verbatim>\<open>let _ = self.out.send(o)\<close>: ignored once the writer is gone.\<close>

definition push_out :: "out \<Rightarrow> sess \<Rightarrow> sess" where
  "push_out x s = (if s_out_open s then s\<lparr>s_out := s_out s @ [x]\<rparr> else s)"

definition send_frame :: "sess \<Rightarrow> frame \<Rightarrow> (session_error + unit) \<times> sess" where
  "send_frame s f =
     (case to_bytes f of
        Inl e \<Rightarrow> (Inl (SE_Frame e), s)
      | Inr b \<Rightarrow> if s_out_open s then (Inr (), push_out (Out_Frame b) s) else (Inl (ended s), s))"

definition send_ctrl :: "(ctrl \<Rightarrow> string + bytes) \<Rightarrow> sess \<Rightarrow> ctrl \<Rightarrow> (session_error + unit) \<times> sess" where
  "send_ctrl ser s m =
     (case frame_ctrl ser m of Inl e \<Rightarrow> (Inl (SE_Frame e), s) | Inr f \<Rightarrow> send_frame s f)"

definition send_error :: "(ctrl \<Rightarrow> string + bytes) \<Rightarrow> sess \<Rightarrow> string \<Rightarrow> string \<Rightarrow> sess" where
  "send_error ser s code message = snd (send_ctrl ser s (C_Error code message None None))"

section \<open>Channels of the session\<close>

definition forget_channel :: "nat \<Rightarrow> sess \<Rightarrow> sess" where
  "forget_channel arc s =
     (let i = ch_id (s_heap s ! arc)
      in if al_get (s_channels s) i = Some arc then s\<lparr>s_channels := al_remove i (s_channels s)\<rparr> else s)"

text \<open>What an operation of \<open>Channel\<close> does to the session around it.\<close>

definition apply_eff :: "nat \<Rightarrow> chan_eff \<Rightarrow> sess \<Rightarrow> sess" where
  "apply_eff arc e s =
     (let s1 = s\<lparr>s_heap := (s_heap s)[arc := eff_chan e], s_woken := s_woken s @ eff_woken e\<rparr>;
          s2 = fold (\<lambda>b. push_out (Out_Frame b)) (eff_out e) s1
      in if eff_forget e then forget_channel arc s2 else s2)"

definition reject_open :: "(ctrl \<Rightarrow> string + bytes) \<Rightarrow> sess \<Rightarrow> u32 \<Rightarrow> string \<Rightarrow> string option \<Rightarrow> sess" where
  "reject_open ser s channel message code =
     snd (send_ctrl ser (s\<lparr>s_reserved := s_reserved s - {channel}\<rparr>) (C_OpenError channel message code))"

definition close_chan :: "u16 \<Rightarrow> string \<Rightarrow> nat \<Rightarrow> sess \<Rightarrow> sess" where
  "close_chan code reason arc s =
     (case chan_close_local (s_heap s ! arc) code reason of Inl _ \<Rightarrow> s | Inr e \<Rightarrow> apply_eff arc e s)"

definition begin_close :: "sess \<Rightarrow> sess" where
  "begin_close s =
     push_out Out_Close
       (fold (\<lambda>p. close_chan close_GOING_AWAY ''going away'' (snd p)) (s_channels s) s)"

text \<open>\<^verbatim>\<open>tx.send(r)\<close>: fails when the receiver is gone.\<close>

definition resolve :: "nat \<Rightarrow> reply \<Rightarrow> sess \<Rightarrow> bool \<times> sess" where
  "resolve tx r s =
     (if tx \<in> s_gone s then (False, s) else (True, s\<lparr>s_replies := s_replies s @ [(tx, r)]\<rparr>))"

fun pending_fail :: "session_error \<Rightarrow> pending_req \<Rightarrow> sess \<Rightarrow> sess" where
  "pending_fail e (P_StepStart r tx) s = snd (resolve tx (Reply_Start (Inl e)) s)"
| "pending_fail e (P_StepStatus r tx) s = snd (resolve tx (Reply_Status (Inl e)) s)"
| "pending_fail e (P_CredentialStatus tx) s = snd (resolve tx (Reply_Cred (Inl e)) s)"

definition fail_chan :: "session_end \<Rightarrow> nat \<Rightarrow> sess \<Rightarrow> sess" where
  "fail_chan e arc s = apply_eff arc (chan_fail (s_heap s ! arc) e) s"

definition finish :: "session_end \<Rightarrow> sess \<Rightarrow> sess" where
  "finish en s =
     (let e = (case s_end s of None \<Rightarrow> en | Some x \<Rightarrow> x);
          s1 = s\<lparr>s_end := Some e, s_reserved := {}, s_channels := [], s_pending_open := [], s_pending := []\<rparr>;
          s2 = fold (\<lambda>p. fail_chan e (snd p)) (s_channels s) s1;
          s3 = fold (\<lambda>p s. snd (resolve (snd (snd p)) (Reply_Open (Inl (SE_Ended e))) (fail_chan e (fst (snd p)) s)))
                 (s_pending_open s) s2;
          s4 = fold (pending_fail (SE_Ended e)) (s_pending s) s3
      in push_out Out_Close s4)"

definition fatal :: "(ctrl \<Rightarrow> string + bytes) \<Rightarrow> string \<Rightarrow> sess \<Rightarrow> sess" where
  "fatal ser reason s = finish (End_Protocol reason) (send_error ser s ec_PROTOCOL_VIOLATION reason)"

text \<open>Dropping one \<^verbatim>\<open>Session\<close> handle.\<close>

definition session_drop :: "sess \<Rightarrow> sess" where
  "session_drop s =
     (let s' = s\<lparr>s_handles := s_handles s - 1\<rparr> in if s_handles s = 1 then begin_close s' else s')"

section \<open>Open requests (server)\<close>

text \<open>An \<^verbatim>\<open>OpenRequest\<close> owns a \<^verbatim>\<open>Session\<close>, dropped with the request.\<close>

definition request_accept :: "(ctrl \<Rightarrow> string + bytes) \<Rightarrow> sess \<Rightarrow> open_msg \<Rightarrow> (session_error + nat) \<times> sess" where
  "request_accept ser s m =
     (let arc = length (s_heap s);
          s1 = s\<lparr>s_heap := s_heap s @ [chan_new (om_channel m)]\<rparr>
      in case check_alive s1 of
           Inl e \<Rightarrow> (Inl e, session_drop s1)
         | Inr _ \<Rightarrow>
             (let s2 = s1\<lparr>s_reserved := s_reserved s1 - {om_channel m},
                          s_channels := al_insert (om_channel m) arc (s_channels s1)\<rparr>
              in case send_ctrl ser s2 (C_Opened (om_channel m)) of
                   (Inl e, s3) \<Rightarrow> (Inl e, session_drop s3)
                 | (Inr _, s3) \<Rightarrow> (Inr arc, session_drop s3)))"

definition request_reject :: "(ctrl \<Rightarrow> string + bytes) \<Rightarrow> sess \<Rightarrow> open_msg \<Rightarrow> string \<Rightarrow> sess" where
  "request_reject ser s m message = session_drop (reject_open ser s (om_channel m) message None)"

definition request_reject_with_code :: "(ctrl \<Rightarrow> string + bytes) \<Rightarrow> sess \<Rightarrow> open_msg \<Rightarrow> string \<Rightarrow> string \<Rightarrow> sess" where
  "request_reject_with_code ser s m code message =
     session_drop (reject_open ser s (om_channel m) message (Some code))"

definition request_drop :: "(ctrl \<Rightarrow> string + bytes) \<Rightarrow> sess \<Rightarrow> open_msg \<Rightarrow> sess" where
  "request_drop ser s m = session_drop (reject_open ser s (om_channel m) ''open request was not handled'' None)"

section \<open>Inbound control messages\<close>

text \<open>\<^verbatim>\<open>let _ = events.send(e)\<close>: with the receiver gone the event, and an open request in it, is dropped.\<close>

definition emit :: "(ctrl \<Rightarrow> string + bytes) \<Rightarrow> sess \<Rightarrow> event \<Rightarrow> sess" where
  "emit ser s e =
     (if s_events_open s then s\<lparr>s_events := s_events s @ [e]\<rparr>
      else (case e of E_Open m \<Rightarrow> request_drop ser s m | E_Ctrl _ \<Rightarrow> s))"

text \<open>Dropping \<^verbatim>\<open>Events\<close> drops the events still in it.\<close>

definition events_drop :: "(ctrl \<Rightarrow> string + bytes) \<Rightarrow> sess \<Rightarrow> sess" where
  "events_drop ser s =
     fold (\<lambda>e s. case e of E_Open m \<Rightarrow> request_drop ser s m | E_Ctrl _ \<Rightarrow> s) (s_events s)
       (s\<lparr>s_events := [], s_events_open := False\<rparr>)"

fun pending_matches :: "string \<Rightarrow> pending_req \<Rightarrow> bool" where
  "pending_matches i (P_StepStart r tx) = (r = i)"
| "pending_matches i (P_StepStatus r tx) = (r = i)"
| "pending_matches i (P_CredentialStatus tx) = False"

text \<open>\<^verbatim>\<open>position(p).and_then(|i| remove(i))\<close>.\<close>

fun take_first :: "('a \<Rightarrow> bool) \<Rightarrow> 'a list \<Rightarrow> 'a option \<times> 'a list" where
  "take_first p [] = (None, [])"
| "take_first p (x # xs) = (if p x then (Some x, xs) else (case take_first p xs of (r, ys) \<Rightarrow> (r, x # ys)))"

definition run_related :: "string list" where
  "run_related = [ec_UNKNOWN_RUN, ec_INTERNAL, ec_UNAUTHORIZED, ec_UNKNOWN_MESSAGE, ec_UNIMPLEMENTED]"

definition attribute_error :: "sess \<Rightarrow> string \<Rightarrow> string \<Rightarrow> string option \<Rightarrow> bool \<times> sess" where
  "attribute_error s code message run_id =
     (if run_id = None \<and> code \<notin> set run_related then (False, s)
      else
        (case (case run_id of
                 Some i \<Rightarrow> take_first (pending_matches i) (s_pending s)
               | None \<Rightarrow> (case s_pending s of [] \<Rightarrow> (None, []) | p # ps \<Rightarrow> (Some p, ps))) of
           (Some p, ps) \<Rightarrow> (True, pending_fail (SE_Remote code message) p (s\<lparr>s_pending := ps\<rparr>))
         | (None, _) \<Rightarrow> (False, s)))"

fun role_debug :: "role \<Rightarrow> string" where
  "role_debug Role_Client = ''Client''"
| "role_debug Role_Server = ''Server''"

definition unexpected :: "(ctrl \<Rightarrow> string + bytes) \<Rightarrow> sess \<Rightarrow> ctrl \<Rightarrow> sess" where
  "unexpected ser s m =
     send_error ser s ec_PROTOCOL_VIOLATION
       (''unexpected message for the '' @ role_debug (s_role s) @ '' side: '' @ tag m)"

definition too_long :: "nat \<Rightarrow> string option \<Rightarrow> bool" where
  "too_long n x = (case x of None \<Rightarrow> False | Some t \<Rightarrow> length t > n)"

definition server_open :: "(ctrl \<Rightarrow> string + bytes) \<Rightarrow> sess \<Rightarrow> open_msg \<Rightarrow> sess" where
  "server_open ser s m =
     (if om_kind m = UnknownKind then
        snd (send_ctrl ser s (C_OpenError (om_channel m) ''unsupported channel kind'' (Some oe_UNSUPPORTED_KIND)))
      else if too_long MAX_REPO_LEN (om_repo m) \<or> too_long MAX_RESUME_LEN (om_resume m) then
        snd (send_ctrl ser s (C_OpenError (om_channel m) ''repo or resume too long'' (Some oe_INVALID_REQUEST)))
      else if om_channel m = 0 \<or> in_use s (om_channel m) then
        snd (send_ctrl ser s (C_OpenError (om_channel m)
          (if om_channel m = 0 then ''channel 0 is reserved'' else ''channel already in use'') None))
      else
        emit ser (s\<lparr>s_reserved := insert (om_channel m) (s_reserved s), s_handles := s_handles s + 1\<rparr>) (E_Open m))"

fun server_ctrl :: "(ctrl \<Rightarrow> string + bytes) \<Rightarrow> sess \<Rightarrow> ctrl \<Rightarrow> sess" where
  "server_ctrl ser s (C_Open m) = server_open ser s m"
| "server_ctrl ser s (C_Resize ch cols rows) =
     (if al_get (s_channels s) ch \<noteq> None then emit ser s (E_Ctrl (C_Resize ch cols rows))
      else send_error ser s ec_UNKNOWN_CHANNEL (''resize for unknown channel '' @ show_nat (unat ch)))"
| "server_ctrl ser s (C_StepStart x) = emit ser s (E_Ctrl (C_StepStart x))"
| "server_ctrl ser s (C_StepStatus r n) = emit ser s (E_Ctrl (C_StepStatus r n))"
| "server_ctrl ser s (C_StepSteer r t) = emit ser s (E_Ctrl (C_StepSteer r t))"
| "server_ctrl ser s (C_StepStop r) = emit ser s (E_Ctrl (C_StepStop r))"
| "server_ctrl ser s (C_StepResume r) = emit ser s (E_Ctrl (C_StepResume r))"
| "server_ctrl ser s C_CredentialStatus = emit ser s (E_Ctrl C_CredentialStatus)"
| "server_ctrl ser s C_StatsRequest = emit ser s (E_Ctrl C_StatsRequest)"
| "server_ctrl ser s (C_FileRead i p) = emit ser s (E_Ctrl (C_FileRead i p))"
| "server_ctrl ser s (C_CredentialClear k) = emit ser s (E_Ctrl (C_CredentialClear k))"
| "server_ctrl ser s (C_CredentialState k c sc) = emit ser s (E_Ctrl (C_CredentialState k c sc))"
| "server_ctrl ser s m = unexpected ser s m"

definition client_opened :: "(ctrl \<Rightarrow> string + bytes) \<Rightarrow> sess \<Rightarrow> u32 \<Rightarrow> sess" where
  "client_opened ser s channel =
     (case al_get (s_pending_open s) channel of
        None \<Rightarrow> send_error ser s ec_PROTOCOL_VIOLATION (''unsolicited opened for channel '' @ show_nat (unat channel))
      | Some (arc, tx) \<Rightarrow>
          (let s1 = s\<lparr>s_pending_open := al_remove channel (s_pending_open s),
                      s_reserved := s_reserved s - {channel},
                      s_channels := al_insert channel arc (s_channels s)\<rparr>
           in case resolve tx (Reply_Open (Inr ())) s1 of
                (True, s2) \<Rightarrow> s2
              | (False, s2) \<Rightarrow> close_chan close_CANCELLED ''open cancelled'' arc s2))"

definition client_open_error :: "sess \<Rightarrow> u32 \<Rightarrow> string \<Rightarrow> string option \<Rightarrow> sess" where
  "client_open_error s channel message code =
     (let s1 = s\<lparr>s_reserved := s_reserved s - {channel}, s_pending_open := al_remove channel (s_pending_open s)\<rparr>
      in case al_get (s_pending_open s) channel of
           None \<Rightarrow> s1
         | Some (arc, tx) \<Rightarrow>
             snd (resolve tx (Reply_Open (Inl (case code of
                    Some c \<Rightarrow> SE_OpenRejectedCode c message | None \<Rightarrow> SE_OpenRejected message))) s1))"

fun is_start_of :: "string \<Rightarrow> pending_req \<Rightarrow> bool" where
  "is_start_of i (P_StepStart r tx) = (r = i)"
| "is_start_of i _ = False"

fun is_status_of :: "string \<Rightarrow> pending_req \<Rightarrow> bool" where
  "is_status_of i (P_StepStatus r tx) = (r = i)"
| "is_status_of i _ = False"

fun is_cred :: "pending_req \<Rightarrow> bool" where
  "is_cred (P_CredentialStatus tx) = True"
| "is_cred _ = False"

fun client_ctrl :: "(ctrl \<Rightarrow> string + bytes) \<Rightarrow> sess \<Rightarrow> ctrl \<Rightarrow> sess" where
  "client_ctrl ser s (C_Opened channel) = client_opened ser s channel"
| "client_ctrl ser s (C_OpenError channel message code) = client_open_error s channel message code"
| "client_ctrl ser s (C_StepAccepted r p x) =
     (case take_first (is_start_of r) (s_pending s) of
        (Some (P_StepStart _ tx), ps) \<Rightarrow>
          snd (resolve tx (Reply_Start (Inr \<lparr>sa_run_id = r, sa_state = p, sa_existing = x\<rparr>)) (s\<lparr>s_pending := ps\<rparr>))
      | _ \<Rightarrow> emit ser s (E_Ctrl (C_StepAccepted r p x)))"
| "client_ctrl ser s (C_StepState r p f) =
     (case take_first (is_status_of r) (s_pending s) of
        (Some (P_StepStatus _ tx), ps) \<Rightarrow>
          snd (resolve tx (Reply_Status (Inr \<lparr>si_run_id = r, si_state = p, si_result = f\<rparr>)) (s\<lparr>s_pending := ps\<rparr>))
      | _ \<Rightarrow> emit ser s (E_Ctrl (C_StepState r p f)))"
| "client_ctrl ser s (C_CredentialCaptured k t l) = emit ser s (E_Ctrl (C_CredentialCaptured k t l))"
| "client_ctrl ser s (C_Stats x) = emit ser s (E_Ctrl (C_Stats x))"
| "client_ctrl ser s (C_File i p c d e) = emit ser s (E_Ctrl (C_File i p c d e))"
| "client_ctrl ser s (C_SessionEvent e) = emit ser s (E_Ctrl (C_SessionEvent e))"
| "client_ctrl ser s (C_StepFinished f) = emit ser s (E_Ctrl (C_StepFinished f))"
| "client_ctrl ser s (C_CredentialState k c sc) =
     (case take_first is_cred (s_pending s) of
        (Some (P_CredentialStatus tx), ps) \<Rightarrow>
          snd (resolve tx (Reply_Cred (Inr \<lparr>ci_kind = k, ci_configured = c, ci_scope = sc\<rparr>)) (s\<lparr>s_pending := ps\<rparr>))
      | _ \<Rightarrow> emit ser s (E_Ctrl (C_CredentialState k c sc)))"
| "client_ctrl ser s m = unexpected ser s m"

definition role_ctrl :: "(ctrl \<Rightarrow> string + bytes) \<Rightarrow> sess \<Rightarrow> ctrl \<Rightarrow> sess" where
  "role_ctrl ser s m = (case s_role s of Role_Server \<Rightarrow> server_ctrl ser s m | Role_Client \<Rightarrow> client_ctrl ser s m)"

definition handle_ctrl :: "(ctrl \<Rightarrow> string + bytes) \<Rightarrow> sess \<Rightarrow> ctrl \<Rightarrow> sess" where
  "handle_ctrl ser s m =
     (case m of
        C_Hello _ _ _ \<Rightarrow> send_error ser s ec_PROTOCOL_VIOLATION ''unexpected handshake message''
      | C_Welcome _ _ \<Rightarrow>
          if s_role s = Role_Client then send_error ser s ec_PROTOCOL_VIOLATION ''unexpected handshake message''
          else role_ctrl ser s m
      | C_Error code message run_id ch \<Rightarrow>
          (case attribute_error s code message run_id of
             (True, s') \<Rightarrow> s'
           | (False, s') \<Rightarrow> emit ser s' (E_Ctrl m))
      | _ \<Rightarrow> role_ctrl ser s m)"

section \<open>Inbound frames\<close>

definition violation :: "(ctrl \<Rightarrow> string + bytes) \<Rightarrow> sess \<Rightarrow> nat \<Rightarrow> string \<Rightarrow> string \<Rightarrow> sess" where
  "violation ser s arc code msg =
     (let s' = send_error ser s code (''channel '' @ show_nat (unat (ch_id (s_heap s ! arc))) @ '': '' @ msg)
      in apply_eff arc (chan_abort (s_heap s' ! arc) msg) s')"

definition handle_frame :: "(ctrl \<Rightarrow> string + bytes) \<Rightarrow> (bytes \<Rightarrow> string + ctrl) \<Rightarrow> sess \<Rightarrow> frame \<Rightarrow> sess" where
  "handle_frame ser de s f =
     (if f_type f = FT_Ctrl then
        (case ctrl_message de f of
           Inr m \<Rightarrow> handle_ctrl ser s m
         | Inl e \<Rightarrow>
             (let msg = frame_error_display e
              in send_error ser s
                   (if str_contains msg ''unknown variant'' then ec_UNKNOWN_MESSAGE else ec_PROTOCOL_VIOLATION) msg))
      else
        (case al_get (s_channels s) (f_channel f) of
           None \<Rightarrow>
             if f_type f = FT_DataBin \<or> f_type f = FT_DataJson
             then send_error ser s ec_UNKNOWN_CHANNEL (''data for unknown channel '' @ show_nat (unat (f_channel f)))
             else s
         | Some arc \<Rightarrow>
             (case chan_frame (s_heap s ! arc) f of
                Inl e \<Rightarrow> violation ser s arc ec_FLOW_CONTROL (flow_error_display e)
              | Inr x \<Rightarrow> apply_eff arc x s)))"

section \<open>The reader and writer tasks\<close>

text \<open>One turn of \<^verbatim>\<open>read_loop\<close>: \<open>None\<close> is the end of the stream.\<close>

definition read_step :: "(ctrl \<Rightarrow> string + bytes) \<Rightarrow> (bytes \<Rightarrow> string + ctrl) \<Rightarrow> sess
    \<Rightarrow> (string + ws_msg) option \<Rightarrow> sess" where
  "read_step ser de s item =
     (if s_reader_done s then s
      else (case item of
              None \<Rightarrow> (finish End_PeerClosed s)\<lparr>s_reader_done := True\<rparr>
            | Some (Inr WsClose) \<Rightarrow> (finish End_PeerClosed s)\<lparr>s_reader_done := True\<rparr>
            | Some (Inl e) \<Rightarrow> (finish (End_Transport e) s)\<lparr>s_reader_done := True\<rparr>
            | Some (Inr (WsBinary b)) \<Rightarrow>
                (case from_bytes b of
                   Inr f \<Rightarrow> handle_frame ser de s f
                 | Inl e \<Rightarrow> (fatal ser (''bad frame: '' @ frame_error_display e) s)\<lparr>s_reader_done := True\<rparr>)
            | Some (Inr (WsText t)) \<Rightarrow> (fatal ser ''text websocket message'' s)\<lparr>s_reader_done := True\<rparr>
            | Some (Inr WsOther) \<Rightarrow> s))"

text \<open>The other branch of its \<^verbatim>\<open>select!\<close>: the session has ended.\<close>

definition read_stop :: "sess \<Rightarrow> sess" where
  "read_stop s = (if s_end s \<noteq> None then s\<lparr>s_reader_done := True\<rparr> else s)"

text \<open>
  One turn of \<^verbatim>\<open>write_loop\<close>; \<open>outcome\<close> is the error of the sink, if any. When the task returns,
  the queue and its receiver go with it.
\<close>

definition write_end :: "session_end \<Rightarrow> sess \<Rightarrow> sess" where
  "write_end e s = (finish e s)\<lparr>s_out := [], s_out_open := False\<rparr>"

definition write_step :: "string option \<Rightarrow> sess \<Rightarrow> sess" where
  "write_step outcome s =
     (if \<not> s_out_open s then s
      else (case s_out s of
              [] \<Rightarrow> s
            | Out_Frame b # r \<Rightarrow>
                (let s' = s\<lparr>s_out := r\<rparr>
                 in case outcome of
                      Some e \<Rightarrow> write_end (End_Transport e) s'
                    | None \<Rightarrow> s'\<lparr>s_sent := s_sent s @ [b]\<rparr>)
            | Out_Close # r \<Rightarrow> write_end End_Closed (s\<lparr>s_out := r\<rparr>)))"

section \<open>Client API\<close>

definition require :: "sess \<Rightarrow> role \<Rightarrow> session_error + unit" where
  "require s r = (if s_role s = r then Inr () else Inl (SE_WrongRole r))"

text \<open>Everything of \<^verbatim>\<open>open_kind\<close> before its \<^verbatim>\<open>await\<close>; \<open>m\<close> carries the arguments.\<close>

definition open_kind :: "(ctrl \<Rightarrow> string + bytes) \<Rightarrow> sess \<Rightarrow> open_msg \<Rightarrow> (session_error + (nat \<times> nat)) \<times> sess" where
  "open_kind ser s m =
     (case require s Role_Client of
        Inl e \<Rightarrow> (Inl e, s)
      | Inr _ \<Rightarrow>
          (case check_alive s of
             Inl e \<Rightarrow> (Inl e, s)
           | Inr _ \<Rightarrow>
               (case alloc s of
                  (Inl e, s1) \<Rightarrow> (Inl e, s1)
                | (Inr i, s1) \<Rightarrow>
                    (let arc = length (s_heap s1);
                         tx = s_next_tx s1;
                         s2 = s1\<lparr>s_heap := s_heap s1 @ [chan_new i],
                                 s_reserved := insert i (s_reserved s1),
                                 s_pending_open := al_insert i (arc, tx) (s_pending_open s1),
                                 s_next_tx := Suc tx\<rparr>
                     in case send_ctrl ser s2 (C_Open (m\<lparr>om_channel := i\<rparr>)) of
                          (Inl e, s3) \<Rightarrow> (Inl e, s3\<lparr>s_gone := insert tx (s_gone s3)\<rparr>)
                        | (Inr _, s3) \<Rightarrow> (Inr (arc, tx), s3)))))"

definition open_args :: "channel_kind \<Rightarrow> u16 \<Rightarrow> u16 \<Rightarrow> string list option \<Rightarrow> string option \<Rightarrow> string option
    \<Rightarrow> secret option \<Rightarrow> chat_checkout option \<Rightarrow> open_msg" where
  "open_args k c r cmd repo resume tok co =
     \<lparr>om_channel = 0, om_kind = k, om_cols = c, om_rows = r, om_command = cmd, om_repo = repo,
      om_resume = resume, om_claude_token = tok, om_checkout = co\<rparr>"

definition open_pty :: "(ctrl \<Rightarrow> string + bytes) \<Rightarrow> sess \<Rightarrow> u16 \<Rightarrow> u16 \<Rightarrow> string list option
    \<Rightarrow> (session_error + (nat \<times> nat)) \<times> sess" where
  "open_pty ser s cols rows command = open_kind ser s (open_args Pty cols rows command None None None None)"

definition open_acp_checkout :: "(ctrl \<Rightarrow> string + bytes) \<Rightarrow> sess \<Rightarrow> string option \<Rightarrow> string option
    \<Rightarrow> secret option \<Rightarrow> chat_checkout option \<Rightarrow> (session_error + (nat \<times> nat)) \<times> sess" where
  "open_acp_checkout ser s repo resume token checkout =
     (if too_long MAX_REPO_LEN repo \<or> too_long MAX_RESUME_LEN resume
      then (Inl (SE_OpenRejectedCode oe_INVALID_REQUEST ''repo or resume too long''), s)
      else open_kind ser s (open_args Acp 0 0 None repo resume token checkout))"

definition open_acp_with_token :: "(ctrl \<Rightarrow> string + bytes) \<Rightarrow> sess \<Rightarrow> string option \<Rightarrow> string option
    \<Rightarrow> secret option \<Rightarrow> (session_error + (nat \<times> nat)) \<times> sess" where
  "open_acp_with_token ser s repo resume token = open_acp_checkout ser s repo resume token None"

definition open_acp :: "(ctrl \<Rightarrow> string + bytes) \<Rightarrow> sess \<Rightarrow> string option \<Rightarrow> string option
    \<Rightarrow> (session_error + (nat \<times> nat)) \<times> sess" where
  "open_acp ser s repo resume =
     (if too_long MAX_REPO_LEN repo \<or> too_long MAX_RESUME_LEN resume
      then (Inl (SE_OpenRejectedCode oe_INVALID_REQUEST ''repo or resume too long''), s)
      else open_kind ser s (open_args Acp 0 0 None repo resume None None))"

text \<open>A request that waits for a reply: register it, send it. The result is its one-shot channel.\<close>

definition request :: "(ctrl \<Rightarrow> string + bytes) \<Rightarrow> sess \<Rightarrow> (nat \<Rightarrow> pending_req) \<Rightarrow> ctrl \<Rightarrow> (session_error + nat) \<times> sess" where
  "request ser s mk m =
     (case require s Role_Client of
        Inl e \<Rightarrow> (Inl e, s)
      | Inr _ \<Rightarrow>
          (case check_alive s of
             Inl e \<Rightarrow> (Inl e, s)
           | Inr _ \<Rightarrow>
               (let tx = s_next_tx s;
                    s1 = s\<lparr>s_pending := s_pending s @ [mk tx], s_next_tx := Suc tx\<rparr>
                in case send_ctrl ser s1 m of
                     (Inl e, s2) \<Rightarrow> (Inl e, s2\<lparr>s_gone := insert tx (s_gone s2)\<rparr>)
                   | (Inr _, s2) \<Rightarrow> (Inr tx, s2))))"

definition sess_step_start :: "(ctrl \<Rightarrow> string + bytes) \<Rightarrow> sess \<Rightarrow> step_start \<Rightarrow> (session_error + nat) \<times> sess" where
  "sess_step_start ser s x = request ser s (P_StepStart (ss_run_id x)) (C_StepStart x)"

definition sess_step_status :: "(ctrl \<Rightarrow> string + bytes) \<Rightarrow> sess \<Rightarrow> string \<Rightarrow> u64 \<Rightarrow> (session_error + nat) \<times> sess" where
  "sess_step_status ser s run_id after_seq = request ser s (P_StepStatus run_id) (C_StepStatus run_id after_seq)"

definition sess_credential_status :: "(ctrl \<Rightarrow> string + bytes) \<Rightarrow> sess \<Rightarrow> (session_error + nat) \<times> sess" where
  "sess_credential_status ser s = request ser s P_CredentialStatus C_CredentialStatus"

text \<open>The future of a request is dropped before the reply.\<close>

definition give_up :: "nat \<Rightarrow> sess \<Rightarrow> sess" where
  "give_up tx s = s\<lparr>s_gone := insert tx (s_gone s)\<rparr>"

text \<open>What the request's future returns once it is resolved.\<close>

definition await_reply :: "sess \<Rightarrow> nat \<Rightarrow> reply option" where
  "await_reply s tx = al_get (s_replies s) tx"

text \<open>Messages without a reply, for either role.\<close>

definition send_as :: "(ctrl \<Rightarrow> string + bytes) \<Rightarrow> role \<Rightarrow> sess \<Rightarrow> ctrl \<Rightarrow> (session_error + unit) \<times> sess" where
  "send_as ser r s m = (case require s r of Inl e \<Rightarrow> (Inl e, s) | Inr _ \<Rightarrow> send_ctrl ser s m)"

definition resize :: "(ctrl \<Rightarrow> string + bytes) \<Rightarrow> sess \<Rightarrow> u32 \<Rightarrow> u16 \<Rightarrow> u16 \<Rightarrow> (session_error + unit) \<times> sess" where
  "resize ser s channel cols rows = send_as ser Role_Client s (C_Resize channel cols rows)"

definition step_steer :: "(ctrl \<Rightarrow> string + bytes) \<Rightarrow> sess \<Rightarrow> string \<Rightarrow> string \<Rightarrow> (session_error + unit) \<times> sess" where
  "step_steer ser s run_id t = send_as ser Role_Client s (C_StepSteer run_id t)"

definition step_stop :: "(ctrl \<Rightarrow> string + bytes) \<Rightarrow> sess \<Rightarrow> string \<Rightarrow> (session_error + unit) \<times> sess" where
  "step_stop ser s run_id = send_as ser Role_Client s (C_StepStop run_id)"

definition step_resume :: "(ctrl \<Rightarrow> string + bytes) \<Rightarrow> sess \<Rightarrow> string \<Rightarrow> (session_error + unit) \<times> sess" where
  "step_resume ser s run_id = send_as ser Role_Client s (C_StepResume run_id)"

definition credential_clear :: "(ctrl \<Rightarrow> string + bytes) \<Rightarrow> sess \<Rightarrow> credential_kind \<Rightarrow> (session_error + unit) \<times> sess" where
  "credential_clear ser s kind = send_as ser Role_Client s (C_CredentialClear kind)"

definition send_run_error :: "(ctrl \<Rightarrow> string + bytes) \<Rightarrow> sess \<Rightarrow> string \<Rightarrow> string \<Rightarrow> string
    \<Rightarrow> (session_error + unit) \<times> sess" where
  "send_run_error ser s run_id code message = send_ctrl ser s (C_Error code message (Some run_id) None)"

section \<open>Server API\<close>

definition accept_step :: "(ctrl \<Rightarrow> string + bytes) \<Rightarrow> sess \<Rightarrow> string \<Rightarrow> step_phase \<Rightarrow> bool
    \<Rightarrow> (session_error + unit) \<times> sess" where
  "accept_step ser s run_id state existing = send_as ser Role_Server s (C_StepAccepted run_id state existing)"

definition send_step_state :: "(ctrl \<Rightarrow> string + bytes) \<Rightarrow> sess \<Rightarrow> step_info \<Rightarrow> (session_error + unit) \<times> sess" where
  "send_step_state ser s info =
     send_as ser Role_Server s (C_StepState (si_run_id info) (si_state info) (si_result info))"

definition send_session_event :: "(ctrl \<Rightarrow> string + bytes) \<Rightarrow> sess \<Rightarrow> session_event \<Rightarrow> (session_error + unit) \<times> sess" where
  "send_session_event ser s ev = send_as ser Role_Server s (C_SessionEvent ev)"

definition send_step_finished :: "(ctrl \<Rightarrow> string + bytes) \<Rightarrow> sess \<Rightarrow> step_finished \<Rightarrow> (session_error + unit) \<times> sess" where
  "send_step_finished ser s fin = send_as ser Role_Server s (C_StepFinished fin)"

end
