(* ===== verification/Session.thy ===== *)
theory Session
  imports Session_State Link
begin

text \<open>
  The session as a state machine: its steps are the turns of the reader and the writer, the
  calls of the API, the decisions on open requests and the operations on channel handles, in any
  order. The invariant relates the channel table, the reserved ids, the pending opens and the
  pending requests; from it follow the properties of the session.
\<close>

section \<open>Channel operations keep the channel invariant\<close>

definition keeps :: "chan \<Rightarrow> chan \<Rightarrow> bool" where
  "keeps c c' \<longleftrightarrow> chan_inv c' \<and> ch_id c' = ch_id c"

lemma chan_close_local_keeps:
  "chan_inv c \<Longrightarrow> chan_close_local c code reason = Inr e \<Longrightarrow> keeps c (eff_chan e)"
  using close_local_eff [of c code reason e] by (simp add: keeps_def user_eff_def)

lemma chan_fail_keeps: "chan_inv c \<Longrightarrow> keeps c (eff_chan (chan_fail c e))"
  by (auto simp: keeps_def chan_inv_def chan_fail_def aborted_def split: option.splits)

lemma chan_abort_keeps:
  assumes "chan_inv c"
  shows "keeps c (eff_chan (chan_abort c reason))"
proof (cases "close_local (ch_flow c)")
  case (Inl e)
  then show ?thesis using assms by (simp add: keeps_def chan_abort_def chan_inv_def aborted_def)
next
  case (Inr fl)
  then have "flow_inv window_bytes fl" "fl = (ch_flow c)\<lparr>fl_local_closed := True, fl_send_credit := 0\<rparr>"
    using close_local_spec [OF chan_inv_flow [OF assms]] by auto
  then show ?thesis using assms Inr by (simp add: keeps_def chan_abort_def chan_inv_def aborted_def)
qed

lemma chan_frame_id: "chan_frame c f = Inr e \<Longrightarrow> ch_id (eff_chan e) = ch_id c"
  by (auto simp: chan_frame_def chan_on_window_def chan_on_close_def chan_on_data_def Let_def
      split: frame_type.splits sum.splits if_splits prod.splits)

lemma chan_frame_keeps:
  assumes inv: "chan_inv c" and r: "chan_frame c f = Inr e" and v: "validate f = Inr ()"
  shows "keeps c (eff_chan e)"
proof -
  consider "f_type f = FT_DataBin \<or> f_type f = FT_DataJson" | "f_type f = FT_Window" | "f_type f = FT_Close"
    | "f_type f = FT_Ctrl" by (cases "f_type f") auto
  then have "chan_inv (eff_chan e)"
  proof cases
    case 1
    then have "chan_frame c f = chan_on_data c (f_type f = FT_DataJson) (f_payload f)"
      by (auto simp: chan_frame_def)
    then have "\<not> rclosed c" "fr_data f \<le> granted_of c"
      using r 1 by (auto simp: chan_on_data_def on_data_def fr_data_def split: sum.splits if_splits)
    from deliver_data [OF inv this(1) v 1 this(2)] r show ?thesis by auto
  next
    case 2
    define w where "w = (case window_credit f of Inl _ \<Rightarrow> 0 | Inr w \<Rightarrow> w)"
    have "unat w = fr_credit f" using 2 by (simp add: w_def fr_credit_def split: sum.splits)
    moreover obtain fl where "on_window (ch_flow c) w = Inr fl"
      using r 2 by (auto simp: chan_frame_def chan_on_window_def w_def split: sum.splits)
    ultimately have "lclosed c \<or> credit_of c + fr_credit f \<le> credit_cap"
      using on_window_spec [OF chan_inv_flow [OF inv], of w] by (auto simp: flow_inv_def split: sum.splits if_splits)
    from deliver_window [OF inv 2 this] r show ?thesis by auto
  next
    case 3
    from deliver_close [OF inv 3 v] r show ?thesis by auto
  next
    case 4
    then show ?thesis using r inv by (auto simp: chan_frame_def)
  qed
  then show ?thesis using chan_frame_id [OF r] by (simp add: keeps_def)
qed

section \<open>The invariant\<close>

definition tab_inv :: "chan list \<Rightarrow> (u32 \<times> nat) list \<Rightarrow> u32 set \<Rightarrow> (u32 \<times> nat \<times> nat) list \<Rightarrow> bool" where
  "tab_inv heap chans res popen \<longleftrightarrow>
     (\<forall>c \<in> set heap. chan_inv c) \<and> 0 \<notin> res
     \<and> distinct (map fst chans) \<and> distinct (map fst popen)
     \<and> (\<forall>(i, a) \<in> set chans. a < length heap \<and> ch_id (heap ! a) = i \<and> i \<notin> res)
     \<and> (\<forall>(i, a, t) \<in> set popen. a < length heap \<and> ch_id (heap ! a) = i \<and> i \<in> res)"

fun pending_tx :: "pending_req \<Rightarrow> nat" where
  "pending_tx (P_StepStart r tx) = tx"
| "pending_tx (P_StepStatus r tx) = tx"
| "pending_tx (P_CredentialStatus tx) = tx"

definition live_txs :: "(u32 \<times> nat \<times> nat) list \<Rightarrow> pending_req list \<Rightarrow> nat list" where
  "live_txs popen pend = map (snd \<circ> snd) popen @ map pending_tx pend"

definition tx_inv :: "nat list \<Rightarrow> (nat \<times> reply) list \<Rightarrow> nat set \<Rightarrow> nat \<Rightarrow> bool" where
  "tx_inv live replies gone next \<longleftrightarrow>
     distinct (live @ map fst replies) \<and> (\<forall>t \<in> set live \<union> fst ` set replies. t < next)
     \<and> (\<forall>t < next. t \<in> set live \<or> t \<in> fst ` set replies \<or> t \<in> gone)"

definition open_requests :: "event list \<Rightarrow> u32 list" where
  "open_requests evs = concat (map (\<lambda>e. case e of E_Open m \<Rightarrow> [om_channel m] | E_Ctrl _ \<Rightarrow> []) evs)"

definition sess_inv :: "sess \<Rightarrow> bool" where
  "sess_inv s \<longleftrightarrow>
     tab_inv (s_heap s) (s_channels s) (s_reserved s) (s_pending_open s)
     \<and> tx_inv (live_txs (s_pending_open s) (s_pending s)) (s_replies s) (s_gone s) (s_next_tx s)
     \<and> 0 \<notin> set (open_requests (s_events s))
     \<and> (s_role s = Role_Client \<longrightarrow> open_requests (s_events s) = [])
     \<and> (if s_end s = None
        then distinct (open_requests (s_events s)) \<and> set (open_requests (s_events s)) \<subseteq> s_reserved s
             \<and> fst ` set (s_pending_open s) \<inter> set (open_requests (s_events s)) = {}
        else s_channels s = [] \<and> s_pending_open s = [] \<and> s_pending s = [])"

text \<open>Operations that only talk to the writer or the waiting tasks.\<close>

definition quiet :: "sess \<Rightarrow> sess \<Rightarrow> bool" where
  "quiet s s' \<longleftrightarrow>
     s_heap s' = s_heap s \<and> s_channels s' = s_channels s \<and> s_reserved s' = s_reserved s
     \<and> s_pending_open s' = s_pending_open s \<and> s_pending s' = s_pending s \<and> s_replies s' = s_replies s
     \<and> s_gone s' = s_gone s \<and> s_next_tx s' = s_next_tx s \<and> s_end s' = s_end s \<and> s_events s' = s_events s
     \<and> s_role s' = s_role s"

lemma quiet_refl [simp]: "quiet s s"
  by (simp add: quiet_def)

lemma quiet_trans: "quiet s t \<Longrightarrow> quiet t u \<Longrightarrow> quiet s u"
  by (simp add: quiet_def)

lemma quiet_inv: "quiet s s' \<Longrightarrow> sess_inv s \<Longrightarrow> sess_inv s'"
  by (simp add: quiet_def sess_inv_def)

lemma quiet_push [simp]: "quiet s (push_out x s)"
  by (simp add: quiet_def push_out_def)

lemma quiet_fold_push: "quiet s (fold (\<lambda>b. push_out (Out_Frame b)) bs s)"
  by (induction bs arbitrary: s) (auto intro: quiet_trans [OF quiet_push])

lemma quiet_send_ctrl: "quiet s (snd (send_ctrl ser s m))"
  by (auto simp: send_ctrl_def send_frame_def split: sum.splits)

lemma quiet_send_error: "quiet s (send_error ser s code msg)"
  by (simp add: send_error_def quiet_send_ctrl)

lemma quiet_unexpected: "quiet s (unexpected ser s m)"
  by (simp add: unexpected_def quiet_send_error)

lemmas quiets = quiet_send_ctrl quiet_send_error quiet_unexpected quiet_push quiet_fold_push

lemma quietD:
  "quiet s s' \<Longrightarrow> s_heap s' = s_heap s" "quiet s s' \<Longrightarrow> s_channels s' = s_channels s"
  "quiet s s' \<Longrightarrow> s_end s' = s_end s" "quiet s s' \<Longrightarrow> s_reserved s' = s_reserved s"
  "quiet s s' \<Longrightarrow> s_pending s' = s_pending s" "quiet s s' \<Longrightarrow> s_pending_open s' = s_pending_open s"
  "quiet s s' \<Longrightarrow> s_events s' = s_events s" "quiet s s' \<Longrightarrow> s_replies s' = s_replies s"
  "quiet s s' \<Longrightarrow> s_gone s' = s_gone s" "quiet s s' \<Longrightarrow> s_next_tx s' = s_next_tx s"
  by (simp_all add: quiet_def)

section \<open>Operations keep the invariant\<close>

lemma al_simps [simp]:
  "al_get [] k = None" "al_remove k [] = []"
  "set (al_remove k xs) = {p \<in> set xs. fst p \<noteq> k}"
  "distinct (map fst xs) \<Longrightarrow> distinct (map fst (al_remove k xs))"
  "distinct (map fst xs) \<Longrightarrow> distinct (map fst (al_insert k v xs))"
  "set (al_insert k v xs) = insert (k, v) {p \<in> set xs. fst p \<noteq> k}"
  by (auto simp: al_get_def al_remove_def al_insert_def distinct_map_filter)

lemma al_get_SomeD: "al_get xs k = Some v \<Longrightarrow> (k, v) \<in> set xs"
  by (simp add: al_get_def map_of_SomeD)

lemma al_get_None: "al_get xs k = None \<longleftrightarrow> k \<notin> fst ` set xs"
  by (simp add: al_get_def map_of_eq_None_iff)

lemma al_get_insert [simp]: "al_get (al_insert k v xs) k' = (if k' = k then Some v else al_get xs k')"
proof -
  have "map_of (filter (\<lambda>p. fst p \<noteq> k) xs) k' = map_of xs k'" if "k' \<noteq> k"
    using that by (induction xs) auto
  then show ?thesis by (auto simp: al_get_def al_insert_def al_remove_def)
qed

lemma tab_inv_heap:
  assumes "tab_inv heap chans res popen" and "a < length heap" and "keeps (heap ! a) c"
  shows "tab_inv (heap[a := c]) chans res popen"
proof -
  have "\<forall>x \<in> set (heap[a := c]). chan_inv x"
    using assms set_update_subset_insert [of heap a c] by (auto simp: tab_inv_def keeps_def)
  moreover have "ch_id (heap[a := c] ! b) = ch_id (heap ! b)" if "b < length heap" for b
    using assms that by (simp add: nth_list_update keeps_def)
  ultimately show ?thesis using assms(1) by (fastforce simp: tab_inv_def)
qed

lemma tab_inv_remove: "tab_inv heap chans res popen \<Longrightarrow> tab_inv heap (al_remove i chans) res popen"
  by (auto simp: tab_inv_def)

lemma apply_eff_inv:
  assumes "sess_inv s" and "a < length (s_heap s)" and "keeps (s_heap s ! a) (eff_chan e)"
  shows "sess_inv (apply_eff a e s)"
proof -
  define s1 where "s1 = s\<lparr>s_heap := (s_heap s)[a := eff_chan e], s_woken := s_woken s @ eff_woken e\<rparr>"
  define s2 where "s2 = fold (\<lambda>b. push_out (Out_Frame b)) (eff_out e) s1"
  have "sess_inv s1"
    using assms tab_inv_heap [OF _ assms(2,3)] by (simp add: sess_inv_def s1_def)
  then have i2: "sess_inv s2" using quiet_inv [OF quiet_fold_push] by (simp add: s2_def)
  then have "sess_inv (forget_channel a s2)"
    by (auto simp: forget_channel_def Let_def sess_inv_def tab_inv_remove)
  then show ?thesis using i2 by (simp add: apply_eff_def s1_def s2_def Let_def)
qed

lemma apply_eff_fields [simp]:
  "length (s_heap (apply_eff a e s)) = length (s_heap s)" "s_end (apply_eff a e s) = s_end s"
  "s_reserved (apply_eff a e s) = s_reserved s" "s_pending_open (apply_eff a e s) = s_pending_open s"
  "s_pending (apply_eff a e s) = s_pending s" "s_events (apply_eff a e s) = s_events s"
  "s_replies (apply_eff a e s) = s_replies s" "s_gone (apply_eff a e s) = s_gone s"
  "s_next_tx (apply_eff a e s) = s_next_tx s" "s_role (apply_eff a e s) = s_role s"
  "s_heap (apply_eff a e s) = (s_heap s)[a := eff_chan e]"
proof -
  let ?s1 = "s\<lparr>s_heap := (s_heap s)[a := eff_chan e], s_woken := s_woken s @ eff_woken e\<rparr>"
  have q: "quiet ?s1 (fold (\<lambda>b. push_out (Out_Frame b)) (eff_out e) ?s1)" by (rule quiet_fold_push)
  then show "length (s_heap (apply_eff a e s)) = length (s_heap s)" "s_end (apply_eff a e s) = s_end s"
  "s_reserved (apply_eff a e s) = s_reserved s" "s_pending_open (apply_eff a e s) = s_pending_open s"
  "s_pending (apply_eff a e s) = s_pending s" "s_events (apply_eff a e s) = s_events s"
  "s_replies (apply_eff a e s) = s_replies s" "s_gone (apply_eff a e s) = s_gone s"
  "s_next_tx (apply_eff a e s) = s_next_tx s" "s_role (apply_eff a e s) = s_role s"
  "s_heap (apply_eff a e s) = (s_heap s)[a := eff_chan e]"
    by (simp_all add: apply_eff_def forget_channel_def Let_def quiet_def)
qed

lemma sess_inv_chan: "sess_inv s \<Longrightarrow> a < length (s_heap s) \<Longrightarrow> chan_inv (s_heap s ! a)"
  by (simp add: sess_inv_def tab_inv_def)

lemma table_arc: "sess_inv s \<Longrightarrow> al_get (s_channels s) i = Some a \<Longrightarrow> a < length (s_heap s) \<and> ch_id (s_heap s ! a) = i"
  by (auto simp: sess_inv_def tab_inv_def dest!: al_get_SomeD)

lemma close_chan_inv:
  assumes "sess_inv s" and "a < length (s_heap s)"
  shows "sess_inv (close_chan code reason a s) \<and> length (s_heap (close_chan code reason a s)) = length (s_heap s)
    \<and> s_end (close_chan code reason a s) = s_end s"
  using assms chan_close_local_keeps [OF sess_inv_chan [OF assms]]
  by (auto simp: close_chan_def intro: apply_eff_inv split: sum.splits)

lemma fold_close_inv:
  assumes "sess_inv s" and "\<forall>p \<in> set ps. snd p < length (s_heap s)"
  shows "sess_inv (fold (\<lambda>p. close_chan code reason (snd p)) ps s)
    \<and> s_end (fold (\<lambda>p. close_chan code reason (snd p)) ps s) = s_end s"
  using assms
proof (induction ps arbitrary: s)
  case (Cons p ps)
  from close_chan_inv [OF Cons.prems(1), of "snd p" code reason] Cons.prems(2)
  show ?case using Cons.IH [of "close_chan code reason (snd p) s"] Cons.prems(2) by auto
qed simp

lemma begin_close_inv: "sess_inv s \<Longrightarrow> sess_inv (begin_close s) \<and> s_end (begin_close s) = s_end s"
proof -
  assume i: "sess_inv s"
  then have "\<forall>p \<in> set (s_channels s). snd p < length (s_heap s)" by (auto simp: sess_inv_def tab_inv_def)
  from fold_close_inv [OF i this, of close_GOING_AWAY "''going away''"] quiet_inv [OF quiet_push] quietD(3) [OF quiet_push]
  show ?thesis by (auto simp: begin_close_def)
qed

lemma session_drop_inv: "sess_inv s \<Longrightarrow> sess_inv (session_drop s) \<and> s_end (session_drop s) = s_end s"
proof -
  assume "sess_inv s"
  then have "sess_inv (s\<lparr>s_handles := s_handles s - 1\<rparr>)" by (simp add: sess_inv_def)
  from begin_close_inv [OF this] this show ?thesis by (auto simp: session_drop_def Let_def)
qed

section \<open>Ending the session\<close>

definition heap_ok :: "chan list \<Rightarrow> bool" where
  "heap_ok heap \<longleftrightarrow> (\<forall>c \<in> set heap. chan_inv c)"

fun pending_reply :: "session_error \<Rightarrow> pending_req \<Rightarrow> reply" where
  "pending_reply e (P_StepStart r tx) = Reply_Start (Inl e)"
| "pending_reply e (P_StepStatus r tx) = Reply_Status (Inl e)"
| "pending_reply e (P_CredentialStatus tx) = Reply_Cred (Inl e)"

text \<open>Failing channels changes channels only; a failed channel stays failed.\<close>

definition fails :: "nat set \<Rightarrow> sess \<Rightarrow> sess \<Rightarrow> bool" where
  "fails as s s' \<longleftrightarrow>
     (heap_ok (s_heap s) \<longrightarrow> heap_ok (s_heap s')) \<and> length (s_heap s') = length (s_heap s)
     \<and> (\<forall>a < length (s_heap s). ch_failed (s_heap s ! a) \<noteq> None \<or> a \<in> as \<longrightarrow> ch_failed (s_heap s' ! a) \<noteq> None)
     \<and> s_channels s' = s_channels s \<and> s_reserved s' = s_reserved s \<and> s_pending_open s' = s_pending_open s
     \<and> s_pending s' = s_pending s \<and> s_gone s' = s_gone s \<and> s_next_tx s' = s_next_tx s \<and> s_end s' = s_end s
     \<and> s_events s' = s_events s \<and> s_role s' = s_role s"

lemma fails_trans: "fails A s t \<Longrightarrow> fails B t u \<Longrightarrow> fails (A \<union> B) s u"
  by (auto simp: fails_def)

lemma fails_fail_chan:
  assumes "a < length (s_heap s)"
  shows "fails {a} s (fail_chan e a s) \<and> s_replies (fail_chan e a s) = s_replies s"
proof -
  have "s_channels (fail_chan e a s) = s_channels s"
    using quiet_fold_push [of "s\<lparr>s_heap := (s_heap s)[a := eff_chan (chan_fail (s_heap s ! a) e)],
      s_woken := s_woken s @ eff_woken (chan_fail (s_heap s ! a) e)\<rparr>"]
    by (simp add: fail_chan_def apply_eff_def chan_fail_def Let_def)
  moreover have "heap_ok (s_heap s) \<Longrightarrow> heap_ok (s_heap (fail_chan e a s))"
    using assms chan_fail_keeps [of "s_heap s ! a" e] set_update_subset_insert [of "s_heap s" a]
    by (fastforce simp: heap_ok_def fail_chan_def keeps_def)
  moreover have "ch_failed (s_heap (fail_chan e a s) ! b) \<noteq> None" if "ch_failed (s_heap s ! b) \<noteq> None \<or> b = a" for b
    using that assms by (auto simp: fail_chan_def chan_fail_def nth_list_update split: option.splits)
  ultimately show ?thesis by (simp add: fails_def fail_chan_def)
qed

lemma fold_fail_chan:
  "\<forall>p \<in> set ps. snd p < length (s_heap s) \<Longrightarrow>
     fails (snd ` set ps) s (fold (\<lambda>p. fail_chan e (snd p)) ps s)
     \<and> s_replies (fold (\<lambda>p. fail_chan e (snd p)) ps s) = s_replies s"
proof (induction ps arbitrary: s)
  case (Cons p ps)
  from fails_fail_chan [of "snd p" s e] Cons.prems
  have f: "fails {snd p} s (fail_chan e (snd p) s)" "s_replies (fail_chan e (snd p) s) = s_replies s" by auto
  then have "length (s_heap (fail_chan e (snd p) s)) = length (s_heap s)" by (simp add: fails_def)
  with Cons.IH [of "fail_chan e (snd p) s"] Cons.prems f fails_trans [OF f(1)] show ?case by fastforce
qed (simp add: fails_def)

lemma resolve_fails [simp]: "fails {} s (snd (resolve tx r s))"
  by (auto simp: resolve_def fails_def)

lemma resolve_replies:
  "s_replies (snd (resolve tx r s)) = s_replies s @ (if tx \<in> s_gone s then [] else [(tx, r)])"
  by (simp add: resolve_def)

lemma fold_fail_open:
  "\<forall>p \<in> set ps. fst (snd p) < length (s_heap s) \<Longrightarrow>
     (let s' = fold (\<lambda>p s. snd (resolve (snd (snd p)) r (fail_chan e (fst (snd p)) s))) ps s
      in fails ((fst \<circ> snd) ` set ps) s s'
         \<and> s_replies s' = s_replies s @ map (\<lambda>p. (snd (snd p), r)) (filter (\<lambda>p. snd (snd p) \<notin> s_gone s) ps))"
proof (induction ps arbitrary: s)
  case (Cons p ps)
  define t where "t = snd (resolve (snd (snd p)) r (fail_chan e (fst (snd p)) s))"
  from fails_fail_chan [of "fst (snd p)" s e] Cons.prems
  have f: "fails {fst (snd p)} s (fail_chan e (fst (snd p)) s)" "s_replies (fail_chan e (fst (snd p)) s) = s_replies s"
    by auto
  have t: "fails {fst (snd p)} s t" using fails_trans [OF f(1) resolve_fails] by (simp add: t_def)
  then have g: "length (s_heap t) = length (s_heap s)" "s_gone t = s_gone s"
    and gf: "s_gone (fail_chan e (fst (snd p)) s) = s_gone s" using f(1) by (auto simp: fails_def)
  define u where "u = fold (\<lambda>p s. snd (resolve (snd (snd p)) r (fail_chan e (fst (snd p)) s))) ps t"
  have ih: "fails ((fst \<circ> snd) ` set ps) t u"
    "s_replies u = s_replies t @ map (\<lambda>p. (snd (snd p), r)) (filter (\<lambda>p. snd (snd p) \<notin> s_gone t) ps)"
    using Cons.IH [of t] Cons.prems g by (simp_all add: Let_def u_def)
  have "s_replies t = s_replies s @ (if snd (snd p) \<in> s_gone s then [] else [(snd (snd p), r)])"
    using f(2) gf by (simp add: t_def resolve_replies)
  then show ?case
    using fails_trans [OF t ih(1)] ih(2) g by (simp add: Let_def t_def [symmetric] u_def [symmetric])
qed (simp add: fails_def)

lemma pending_fail_eq: "pending_fail e p s = snd (resolve (pending_tx p) (pending_reply e p) s)"
  by (cases p) simp_all

lemma fold_pending_fail:
  "fails {} s (fold (pending_fail e) ps s)
   \<and> s_replies (fold (pending_fail e) ps s) =
       s_replies s @ map (\<lambda>p. (pending_tx p, pending_reply e p)) (filter (\<lambda>p. pending_tx p \<notin> s_gone s) ps)"
proof (induction ps arbitrary: s)
  case (Cons p ps)
  have t: "fails {} s (pending_fail e p s)" by (simp add: pending_fail_eq)
  then have g: "s_gone (pending_fail e p s) = s_gone s" by (simp add: fails_def)
  show ?case
    using Cons.IH [of "pending_fail e p s"] g fails_trans [OF t]
    by (fastforce simp: pending_fail_eq resolve_replies)
qed (simp add: fails_def)

definition end_replies :: "session_end \<Rightarrow> sess \<Rightarrow> (nat \<times> reply) list" where
  "end_replies e s =
     map (\<lambda>p. (snd (snd p), Reply_Open (Inl (SE_Ended e)))) (filter (\<lambda>p. snd (snd p) \<notin> s_gone s) (s_pending_open s))
     @ map (\<lambda>p. (pending_tx p, pending_reply (SE_Ended e) p)) (filter (\<lambda>p. pending_tx p \<notin> s_gone s) (s_pending s))"

definition end_of :: "session_end \<Rightarrow> sess \<Rightarrow> session_end" where
  "end_of en s = (case s_end s of None \<Rightarrow> en | Some x \<Rightarrow> x)"

lemma finish_spec:
  assumes "sess_inv s"
  shows "fails (snd ` set (s_channels s) \<union> (fst \<circ> snd) ` set (s_pending_open s))
      (s\<lparr>s_end := Some (end_of en s), s_reserved := {}, s_channels := [], s_pending_open := [], s_pending := []\<rparr>)
      (finish en s)
    \<and> s_replies (finish en s) = s_replies s @ end_replies (end_of en s) s"
proof -
  let ?e = "end_of en s"
  define s1 where "s1 = s\<lparr>s_end := Some ?e, s_reserved := {}, s_channels := [], s_pending_open := [], s_pending := []\<rparr>"
  define s2 where "s2 = fold (\<lambda>p. fail_chan ?e (snd p)) (s_channels s) s1"
  define s3 where "s3 = fold (\<lambda>p s. snd (resolve (snd (snd p)) (Reply_Open (Inl (SE_Ended ?e))) (fail_chan ?e (fst (snd p)) s)))
                 (s_pending_open s) s2"
  define s4 where "s4 = fold (pending_fail (SE_Ended ?e)) (s_pending s) s3"
  have arcs: "\<forall>p \<in> set (s_channels s). snd p < length (s_heap s1)" "\<forall>p \<in> set (s_pending_open s). fst (snd p) < length (s_heap s1)"
    using assms by (auto simp: sess_inv_def tab_inv_def s1_def)
  have f2: "fails (snd ` set (s_channels s)) s1 s2" "s_replies s2 = s_replies s"
    using fold_fail_chan [OF arcs(1)] by (auto simp: s2_def s1_def)
  have "\<forall>p \<in> set (s_pending_open s). fst (snd p) < length (s_heap s2)" using arcs(2) f2 by (simp add: fails_def)
  from fold_fail_open [OF this, of "Reply_Open (Inl (SE_Ended ?e))" ?e]
  have f3: "fails ((fst \<circ> snd) ` set (s_pending_open s)) s2 s3"
    "s_replies s3 = s_replies s2 @ map (\<lambda>p. (snd (snd p), Reply_Open (Inl (SE_Ended ?e))))
       (filter (\<lambda>p. snd (snd p) \<notin> s_gone s2) (s_pending_open s))"
    by (simp_all add: Let_def s3_def)
  from fold_pending_fail [of s3 "SE_Ended ?e" "s_pending s"]
  have f4: "fails {} s3 s4" "s_replies s4 = s_replies s3 @ map (\<lambda>p. (pending_tx p, pending_reply (SE_Ended ?e) p))
       (filter (\<lambda>p. pending_tx p \<notin> s_gone s3) (s_pending s))"
    by (simp_all add: s4_def)
  have g: "s_gone s2 = s_gone s" "s_gone s3 = s_gone s" using f2 f3 by (auto simp: fails_def s1_def)
  have fin: "finish en s = push_out Out_Close s4"
    by (simp add: finish_def s4_def s3_def s2_def s1_def end_of_def Let_def)
  have "fails (snd ` set (s_channels s) \<union> (fst \<circ> snd) ` set (s_pending_open s)) s1 s4"
    using fails_trans [OF fails_trans [OF f2(1) f3(1)] f4(1)] by simp
  moreover have "fails {} s4 (push_out Out_Close s4)" by (simp add: fails_def push_out_def)
  ultimately have "fails (snd ` set (s_channels s) \<union> (fst \<circ> snd) ` set (s_pending_open s)) s1 (push_out Out_Close s4)"
    using fails_trans by fastforce
  moreover have "s_replies (push_out Out_Close s4) = s_replies s @ end_replies ?e s"
    using f2 f3 f4 g by (simp add: push_out_def end_replies_def)
  ultimately show ?thesis by (simp add: fin s1_def)
qed

lemma tx_inv_end:
  assumes "tx_inv (live_txs (s_pending_open s) (s_pending s)) (s_replies s) (s_gone s) (s_next_tx s)"
  shows "tx_inv [] (s_replies s @ end_replies e s) (s_gone s) (s_next_tx s)"
proof -
  let ?L = "live_txs (s_pending_open s) (s_pending s)"
  have m: "map fst (end_replies e s) = filter (\<lambda>t. t \<notin> s_gone s) ?L"
    by (simp add: end_replies_def live_txs_def filter_map comp_def)
  then have "fst ` set (end_replies e s) = set ?L - s_gone s"
  proof -
    have "fst ` set (end_replies e s) = set (map fst (end_replies e s))" by simp
    then show ?thesis unfolding m by auto
  qed
  then show ?thesis using assms m by (auto simp: tx_inv_def image_Un)
qed

lemma finish_inv: "sess_inv s \<Longrightarrow> sess_inv (finish en s)"
proof -
  assume i: "sess_inv s"
  note f = finish_spec [OF i, of en]
  have "heap_ok (s_heap (finish en s))" using f i by (auto simp: fails_def heap_ok_def sess_inv_def tab_inv_def)
  then have "tab_inv (s_heap (finish en s)) [] {} []" by (simp add: tab_inv_def heap_ok_def)
  then show ?thesis
    using f i tx_inv_end [of s "end_of en s"] by (simp add: sess_inv_def fails_def live_txs_def)
qed

section \<open>Bookkeeping lemmas\<close>

lemma tab_inv_append:
  "tab_inv heap chans res popen \<Longrightarrow> i \<noteq> 0 \<Longrightarrow> tab_inv (heap @ [chan_new i]) chans res popen"
  using chan_new_inv [of i] by (fastforce simp: tab_inv_def nth_append)

lemma tx_inv_resolve:
  assumes "tx_inv live reps gone n" and "t \<in> set live" and "distinct live'" and "set live' = set live - {t}"
  shows "tx_inv live' (reps @ (if t \<in> gone then [] else [(t, r)])) gone n"
  using assms by (auto simp: tx_inv_def)

lemma tx_inv_new:
  assumes "tx_inv live reps gone n" and "distinct live'" and "set live' = insert n (set live)"
  shows "tx_inv live' reps gone (Suc n)"
proof -
  have "n \<notin> set live" "n \<notin> fst ` set reps" using assms(1) by (auto simp: tx_inv_def)
  then show ?thesis using assms by (auto simp: tx_inv_def less_Suc_eq)
qed

lemma tx_inv_gone: "tx_inv live reps gone n \<Longrightarrow> tx_inv live reps (insert t gone) n"
  by (auto simp: tx_inv_def)

lemma distinct_map_key:
  "distinct (map f xs) \<Longrightarrow> x \<in> set xs \<Longrightarrow> y \<in> set xs \<Longrightarrow> f x = f y \<Longrightarrow> x = y"
  by (auto simp: distinct_map inj_on_def)

lemma live_remove_open:
  assumes "distinct (live_txs popen pend)" and "distinct (map fst popen)" and "(i, a, t) \<in> set popen"
  shows "distinct (live_txs (al_remove i popen) pend)
    \<and> set (live_txs (al_remove i popen) pend) = set (live_txs popen pend) - {t}"
proof -
  have key: "p = (i, a, t)" if "p \<in> set popen" "fst p = i \<or> snd (snd p) = t" for p
    using that assms distinct_map_key [of fst popen p "(i, a, t)"]
      distinct_map_key [of "snd \<circ> snd" popen p "(i, a, t)"]
    by (auto simp: live_txs_def)
  have t: "t \<notin> pending_tx ` set pend" using assms by (force simp: live_txs_def)
  have "distinct (map (snd \<circ> snd) (al_remove i popen))"
    using assms(1) by (simp add: live_txs_def al_remove_def distinct_map_filter)
  moreover have "(snd \<circ> snd) ` {p \<in> set popen. fst p \<noteq> i} = (snd \<circ> snd) ` set popen - {t}"
  proof (intro set_eqI iffI)
    fix x
    assume "x \<in> (snd \<circ> snd) ` {p \<in> set popen. fst p \<noteq> i}"
    then obtain p where p: "p \<in> set popen" "fst p \<noteq> i" "x = snd (snd p)" by auto
    have "snd (snd p) \<noteq> t" using key [OF p(1)] p(2) by (metis fst_conv)
    then show "x \<in> (snd \<circ> snd) ` set popen - {t}" using p by auto
  next
    fix x
    assume "x \<in> (snd \<circ> snd) ` set popen - {t}"
    then obtain p where p: "p \<in> set popen" "x = snd (snd p)" "x \<noteq> t" by auto
    then show "x \<in> (snd \<circ> snd) ` {p \<in> set popen. fst p \<noteq> i}" using key [OF p(1)] by fastforce
  qed
  ultimately show ?thesis using assms(1) t by (auto simp: live_txs_def)
qed

lemma take_first_SomeD: "take_first p xs = (Some x, ys) \<Longrightarrow> p x \<and> (\<exists>as bs. xs = as @ x # bs \<and> ys = as @ bs \<and> (\<forall>a \<in> set as. \<not> p a))"
proof (induction xs arbitrary: ys)
  case (Cons a xs)
  show ?case
  proof (cases "p a")
    case False
    with Cons.prems obtain zs where "take_first p xs = (Some x, zs)" "ys = a # zs" by (auto split: prod.splits)
    with Cons.IH [of zs] False show ?thesis by (metis append_Cons set_ConsD)
  qed (use Cons.prems in \<open>auto intro: exI [of _ "[]"]\<close>)
qed simp

lemma live_remove_pending:
  assumes "distinct (live_txs popen (as @ p # bs))"
  shows "distinct (live_txs popen (as @ bs))
    \<and> set (live_txs popen (as @ bs)) = set (live_txs popen (as @ p # bs)) - {pending_tx p}"
  using assms by (auto simp: live_txs_def)

lemma resolve_pending_inv:
  assumes "sess_inv s" and "s_pending s = as @ p # bs"
  shows "sess_inv (snd (resolve (pending_tx p) r (s\<lparr>s_pending := as @ bs\<rparr>)))"
proof -
  have d: "distinct (live_txs (s_pending_open s) (as @ p # bs))" using assms by (simp add: sess_inv_def tx_inv_def)
  have "tx_inv (live_txs (s_pending_open s) (as @ bs))
      (s_replies s @ (if pending_tx p \<in> s_gone s then [] else [(pending_tx p, r)])) (s_gone s) (s_next_tx s)"
    using live_remove_pending [OF d] assms
    by (intro tx_inv_resolve [of "live_txs (s_pending_open s) (as @ p # bs)"]) (auto simp: sess_inv_def live_txs_def)
  then show ?thesis using assms by (auto simp: resolve_def sess_inv_def)
qed

lemma open_requests_simps [simp]:
  "open_requests [] = []" "open_requests (E_Open m # es) = om_channel m # open_requests es"
  "open_requests (E_Ctrl c # es) = open_requests es"
  "open_requests (es @ fs) = open_requests es @ open_requests fs"
  by (simp_all add: open_requests_def)

lemma open_requests_remove:
  "E_Open m \<in> set evs \<Longrightarrow> distinct (open_requests evs) \<Longrightarrow>
     distinct (open_requests (remove1 (E_Open m) evs)) \<and> om_channel m \<in> set (open_requests evs)
     \<and> set (open_requests (remove1 (E_Open m) evs)) = set (open_requests evs) - {om_channel m}"
proof (induction evs)
  case (Cons e evs)
  show ?case
  proof (cases "e = E_Open m")
    case False
    then have m: "E_Open m \<in> set evs" using Cons.prems by auto
    have "distinct (open_requests evs)" using Cons.prems by (cases e) auto
    note ih = Cons.IH [OF m this]
    show ?thesis
    proof (cases e)
      case (E_Open x)
      have "om_channel m \<in> set (open_requests evs)" using ih by simp
      moreover have "om_channel x \<notin> set (open_requests evs)" using Cons.prems(2) E_Open by simp
      ultimately have "om_channel x \<noteq> om_channel m" by metis
      then show ?thesis using ih Cons.prems(2) False E_Open by (simp add: insert_Diff_if)
    qed (use ih Cons.prems(2) in simp)
  qed (use Cons.prems in auto)
qed simp

lemma open_requests_subset: "set (open_requests (remove1 e evs)) \<subseteq> set (open_requests evs)"
proof (induction evs)
  case (Cons x evs)
  then show ?case by (cases x) auto
qed simp

lemma open_requests_mem: "E_Open m \<in> set evs \<Longrightarrow> om_channel m \<in> set (open_requests evs)"
  by (force simp: open_requests_def)

lemma open_requests_ctrl: "open_requests (remove1 (E_Ctrl c) evs) = open_requests evs"
proof (induction evs)
  case (Cons x evs)
  then show ?case by (cases x) auto
qed simp

end
