(* ===== verification/Session_Machine.thy ===== *)
theory Session_Machine
  imports Session
begin

text \<open>
  Every operation of the session keeps the invariant; the step relation and its
  interpretation as a \<open>machine\<close>; and the properties of the session.
\<close>

section \<open>Allocation\<close>

lemma next_chan_id_nz [simp]: "next_chan_id i \<noteq> 0"
proof (cases "i = - 1")
  case False
  then show ?thesis by (simp add: next_chan_id_def add_eq_0_iff2)
qed (simp add: next_chan_id_def)

lemma alloc_from_ok:
  "alloc_from n s = (Inr i, s') \<Longrightarrow> i \<noteq> 0 \<and> \<not> in_use s i \<and> s' = s\<lparr>s_next_id := i\<rparr>"
proof (induction n arbitrary: s)
  case (Suc n)
  define t where "t = s\<lparr>s_next_id := next_chan_id (s_next_id s)\<rparr>"
  have u: "in_use t j \<longleftrightarrow> in_use s j" for j by (simp add: in_use_def t_def)
  show ?case
  proof (cases "in_use t (s_next_id t)")
    case True
    then have "alloc_from n t = (Inr i, s')" using Suc.prems by (simp add: t_def Let_def)
    from Suc.IH [OF this] u show ?thesis by (simp add: t_def)
  next
    case False
    then have "i = s_next_id t" "s' = t" using Suc.prems by (auto simp: t_def Let_def)
    moreover have "s_next_id t \<noteq> 0" by (simp add: t_def)
    ultimately show ?thesis using False u by (auto simp: t_def)
  qed
qed simp

fun later_id :: "nat \<Rightarrow> u32 \<Rightarrow> u32" where
  "later_id 0 i = i"
| "later_id (Suc n) i = later_id n (next_chan_id i)"

lemma alloc_from_err:
  "alloc_from n s = (Inl e, s') \<Longrightarrow>
     e = SE_NoFreeChannel \<and> s' = s\<lparr>s_next_id := s_next_id s'\<rparr> \<and> (\<forall>k < n. in_use s (later_id (Suc k) (s_next_id s)))"
proof (induction n arbitrary: s)
  case (Suc n)
  define t where "t = s\<lparr>s_next_id := next_chan_id (s_next_id s)\<rparr>"
  have u: "in_use t j \<longleftrightarrow> in_use s j" for j by (simp add: in_use_def t_def)
  have use: "in_use t (s_next_id t)" and r: "alloc_from n t = (Inl e, s')"
    using Suc.prems by (auto simp: t_def Let_def split: if_splits)
  have "in_use s (later_id (Suc k) (s_next_id s))" if "k < Suc n" for k
    using that Suc.IH [OF r] use u by (cases k) (auto simp: t_def)
  then show ?case using Suc.IH [OF r] by (auto simp: t_def)
qed simp

section \<open>Client operations\<close>

lemma inv_next_id: "sess_inv s \<Longrightarrow> sess_inv (s\<lparr>s_next_id := i\<rparr>)"
  by (simp add: sess_inv_def)

lemma inv_gone: "sess_inv s \<Longrightarrow> sess_inv (s\<lparr>s_gone := insert t (s_gone s)\<rparr>)"
  by (simp add: sess_inv_def tx_inv_gone)

lemma give_up_inv: "sess_inv s \<Longrightarrow> sess_inv (give_up t s)"
  by (simp add: give_up_def inv_gone)

lemma send_ctrl_inv: "sess_inv s \<Longrightarrow> sess_inv (snd (send_ctrl ser s m))"
  by (rule quiet_inv [OF quiet_send_ctrl])

lemma tab_inv_reserve:
  assumes "tab_inv (heap @ [chan_new i]) chans res popen"
    and "i \<notin> fst ` set chans" and "i \<notin> res" and "i \<notin> fst ` set popen" and "i \<noteq> 0"
  shows "tab_inv (heap @ [chan_new i]) chans (insert i res) ((i, length heap, t) # popen)"
proof -
  have "ch_id ((heap @ [chan_new i]) ! length heap) = i" by (simp add: chan_new_def)
  moreover have "\<forall>(j, a) \<in> set chans. j \<noteq> i" using assms(2) by force
  ultimately show ?thesis using assms(1,4,5) by (auto simp: tab_inv_def)
qed

lemma open_register_inv:
  assumes "sess_inv s" and "s_end s = None" and "i \<noteq> 0" and "\<not> in_use s i"
  shows "sess_inv (s\<lparr>s_heap := s_heap s @ [chan_new i], s_reserved := insert i (s_reserved s),
     s_pending_open := al_insert i (length (s_heap s), s_next_tx s) (s_pending_open s),
     s_next_tx := Suc (s_next_tx s)\<rparr>)"
proof -
  have t: "tab_inv (s_heap s) (s_channels s) (s_reserved s) (s_pending_open s)"
    and x: "tx_inv (live_txs (s_pending_open s) (s_pending s)) (s_replies s) (s_gone s) (s_next_tx s)"
    using assms(1) by (auto simp: sess_inv_def)
  have fresh: "i \<notin> fst ` set (s_channels s)" "i \<notin> s_reserved s"
    using assms(4) by (auto simp: in_use_def al_get_None)
  then have np: "i \<notin> fst ` set (s_pending_open s)" using t by (auto simp: tab_inv_def)
  then have rem: "al_remove i (s_pending_open s) = s_pending_open s"
    by (auto simp: al_remove_def filter_id_conv)
  have "tab_inv (s_heap s @ [chan_new i]) (s_channels s) (insert i (s_reserved s))
     (al_insert i (length (s_heap s), s_next_tx s) (s_pending_open s))"
    unfolding al_insert_def rem
    using tab_inv_append [OF t assms(3)] fresh np assms(3) by (rule tab_inv_reserve)
  moreover have "tx_inv (live_txs (al_insert i (length (s_heap s), s_next_tx s) (s_pending_open s)) (s_pending s))
     (s_replies s) (s_gone s) (Suc (s_next_tx s))"
    using x by (intro tx_inv_new [OF x]) (auto simp: al_insert_def rem live_txs_def tx_inv_def)
  ultimately show ?thesis
    using assms(1,2) fresh by (auto simp: sess_inv_def al_insert_def rem)
qed

lemma open_kind_inv:
  assumes "sess_inv s"
  shows "sess_inv (snd (open_kind ser s m))"
proof (cases "s_role s = Role_Client \<and> s_end s = None")
  case True
  show ?thesis
  proof (cases "alloc s")
    case (Pair r s1)
    show ?thesis
    proof (cases r)
      case (Inl e)
      then have "s1 = s\<lparr>s_next_id := s_next_id s1\<rparr>"
        using Pair alloc_from_err [of 1024 s e s1] by (simp add: alloc_def)
      then have "sess_inv s1" using inv_next_id [OF assms, of "s_next_id s1"] by simp
      then show ?thesis using True Pair Inl by (simp add: open_kind_def require_def check_alive_def)
    next
      case (Inr i)
      then have i: "i \<noteq> 0" "\<not> in_use s i" "s1 = s\<lparr>s_next_id := i\<rparr>"
        using Pair alloc_from_ok [of 1024 s i s1] by (simp_all add: alloc_def)
      define s2 where "s2 = s1\<lparr>s_heap := s_heap s1 @ [chan_new i], s_reserved := insert i (s_reserved s1),
         s_pending_open := al_insert i (length (s_heap s1), s_next_tx s1) (s_pending_open s1),
         s_next_tx := Suc (s_next_tx s1)\<rparr>"
      have "sess_inv s1" "s_end s1 = None" "\<not> in_use s1 i"
        using inv_next_id [OF assms] True i by (simp_all add: in_use_def)
      then have i2: "sess_inv s2" using open_register_inv [of s1 i] i(1) by (simp add: s2_def)
      obtain q s3 where c: "send_ctrl ser s2 (C_Open (m\<lparr>om_channel := i\<rparr>)) = (q, s3)" by fastforce
      then have "sess_inv s3" using send_ctrl_inv [OF i2] by (metis snd_conv)
      then show ?thesis
        using True Pair Inr c inv_gone [of s3 "s_next_tx s1"]
        by (cases q) (simp_all add: open_kind_def require_def check_alive_def Let_def s2_def)
    qed
  qed
qed (use assms in \<open>auto simp: open_kind_def require_def check_alive_def\<close>)

lemma request_inv:
  assumes "sess_inv s" and "\<And>t. pending_tx (mk t) = t"
  shows "sess_inv (snd (request ser s mk m))"
proof (cases "s_role s = Role_Client \<and> s_end s = None")
  case True
  define s1 where "s1 = s\<lparr>s_pending := s_pending s @ [mk (s_next_tx s)], s_next_tx := Suc (s_next_tx s)\<rparr>"
  have x: "tx_inv (live_txs (s_pending_open s) (s_pending s)) (s_replies s) (s_gone s) (s_next_tx s)"
    using assms(1) by (simp add: sess_inv_def)
  have "tx_inv (live_txs (s_pending_open s) (s_pending s @ [mk (s_next_tx s)])) (s_replies s) (s_gone s) (Suc (s_next_tx s))"
    using x assms(2) by (intro tx_inv_new [OF x]) (auto simp: live_txs_def tx_inv_def)
  then have i1: "sess_inv s1" using assms(1) True by (simp add: sess_inv_def s1_def)
  obtain q s2 where c: "send_ctrl ser s1 m = (q, s2)" by fastforce
  then have "sess_inv s2" using send_ctrl_inv [OF i1] by (metis snd_conv)
  then show ?thesis
    using True c inv_gone [of s2 "s_next_tx s"]
    by (cases q) (simp_all add: request_def require_def check_alive_def Let_def s1_def)
qed (use assms in \<open>auto simp: request_def require_def check_alive_def\<close>)

section \<open>Open requests\<close>

lemma tab_inv_unreserve:
  assumes "tab_inv heap chans res popen" and "i \<notin> fst ` set popen"
  shows "tab_inv heap chans (res - {i}) popen"
proof -
  have "\<forall>(j, a, t) \<in> set popen. j \<noteq> i" using assms(2) by force
  then show ?thesis using assms(1) by (auto simp: tab_inv_def)
qed

lemma tab_inv_insert_res:
  assumes "tab_inv heap chans res popen" and "i \<notin> fst ` set chans" and "i \<noteq> 0"
  shows "tab_inv heap chans (insert i res) popen"
proof -
  have "\<forall>(j, a) \<in> set chans. j \<noteq> i" using assms(2) by force
  then show ?thesis using assms(1,3) by (auto simp: tab_inv_def)
qed

lemma tab_inv_open:
  assumes "tab_inv heap chans res popen" and "i \<notin> fst ` set popen" and "a < length heap" and "ch_id (heap ! a) = i"
  shows "tab_inv heap (al_insert i a chans) (res - {i}) popen"
  using tab_inv_unreserve [OF assms(1,2)] assms(3,4) by (auto simp: tab_inv_def)

lemma reject_open_inv:
  assumes "sess_inv s" and "i \<notin> fst ` set (s_pending_open s)"
    and "s_end s = None \<Longrightarrow> i \<notin> set (open_requests (s_events s))"
  shows "sess_inv (reject_open ser s i message code)"
proof -
  have "sess_inv (s\<lparr>s_reserved := s_reserved s - {i}\<rparr>)"
    using assms tab_inv_unreserve [of "s_heap s" "s_channels s" "s_reserved s" "s_pending_open s" i]
    by (auto simp: sess_inv_def)
  from send_ctrl_inv [OF this] show ?thesis by (simp add: reject_open_def)
qed

lemma close_chan_fields:
  "s_pending_open (close_chan code reason a s) = s_pending_open s"
  "s_events (close_chan code reason a s) = s_events s"
  by (auto simp: close_chan_def split: sum.splits)

lemma begin_close_fields:
  "s_pending_open (begin_close s) = s_pending_open s" "s_events (begin_close s) = s_events s"
proof -
  have f: "s_pending_open (fold (\<lambda>p. close_chan code reason (snd p)) ps s) = s_pending_open s
      \<and> s_events (fold (\<lambda>p. close_chan code reason (snd p)) ps s) = s_events s" for ps code reason
    by (induction ps arbitrary: s) (auto simp: close_chan_fields)
  from f [of close_GOING_AWAY "''going away''" "s_channels s"]
  show "s_pending_open (begin_close s) = s_pending_open s" "s_events (begin_close s) = s_events s"
    by (simp_all add: begin_close_def push_out_def)
qed

lemma session_drop_fields:
  "s_pending_open (session_drop s) = s_pending_open s" "s_events (session_drop s) = s_events s"
  by (simp_all add: session_drop_def Let_def begin_close_fields)

lemma reject_open_fields:
  "s_pending_open (reject_open ser s i t c) = s_pending_open s" "s_events (reject_open ser s i t c) = s_events s"
  using quietD(6,7) [OF quiet_send_ctrl [of "s\<lparr>s_reserved := s_reserved s - {i}\<rparr>" ser "C_OpenError i t c"]]
  by (simp_all add: reject_open_def)

lemma request_drop_inv:
  assumes "sess_inv s" and "om_channel m \<notin> fst ` set (s_pending_open s)"
    and "s_end s = None \<Longrightarrow> om_channel m \<notin> set (open_requests (s_events s))"
  shows "sess_inv (request_drop ser s m) \<and> s_pending_open (request_drop ser s m) = s_pending_open s
    \<and> s_events (request_drop ser s m) = s_events s"
  using session_drop_inv [OF reject_open_inv [OF assms]]
  by (simp add: request_drop_def session_drop_fields reject_open_fields)

text \<open>Taking an open request out of the events.\<close>

definition take_event :: "event \<Rightarrow> sess \<Rightarrow> sess" where
  "take_event e s = s\<lparr>s_events := remove1 e (s_events s)\<rparr>"

lemma take_request_inv:
  assumes i: "sess_inv s" and m: "E_Open m \<in> set (s_events s)"
  shows "sess_inv (take_event (E_Open m) s) \<and> om_channel m \<noteq> 0
    \<and> (s_end s = None \<longrightarrow> om_channel m \<in> s_reserved s
        \<and> om_channel m \<notin> set (open_requests (s_events (take_event (E_Open m) s))))
    \<and> om_channel m \<notin> fst ` set (s_pending_open s)"
proof -
  have z: "0 \<notin> set (open_requests (s_events s))" using i by (simp add: sess_inv_def)
  then have nz: "om_channel m \<noteq> 0" using open_requests_mem [OF m] by auto
  have sub: "set (open_requests (remove1 (E_Open m) (s_events s))) \<subseteq> set (open_requests (s_events s))"
    by (rule open_requests_subset)
  show ?thesis
  proof (cases "s_end s = None")
    case True
    then have d: "distinct (open_requests (s_events s))" "set (open_requests (s_events s)) \<subseteq> s_reserved s"
      "fst ` set (s_pending_open s) \<inter> set (open_requests (s_events s)) = {}"
      using i by (simp_all add: sess_inv_def)
    note r = open_requests_remove [OF m d(1)]
    have "fst ` set (s_pending_open s) \<inter> set (open_requests (remove1 (E_Open m) (s_events s))) = {}"
      using d(3) sub by blast
    then have "sess_inv (take_event (E_Open m) s)"
      using i True r d(2) by (auto simp: sess_inv_def take_event_def)
    moreover have "om_channel m \<notin> fst ` set (s_pending_open s)" using d(3) r by blast
    ultimately show ?thesis using r d(2) nz by (auto simp: take_event_def)
  next
    case False
    then have "s_pending_open s = []" using i by (simp add: sess_inv_def)
    then show ?thesis using i False z sub nz by (auto simp: sess_inv_def take_event_def)
  qed
qed

lemma take_ctrl_inv: "sess_inv s \<Longrightarrow> sess_inv (take_event (E_Ctrl c) s)"
  by (simp add: sess_inv_def take_event_def open_requests_ctrl)

lemma accept_register_inv:
  assumes "sess_inv s" and "s_end s = None" and "i \<in> s_reserved s"
    and "i \<notin> set (open_requests (s_events s))" and "i \<notin> fst ` set (s_pending_open s)"
  shows "sess_inv (s\<lparr>s_heap := s_heap s @ [chan_new i], s_reserved := s_reserved s - {i},
     s_channels := al_insert i (length (s_heap s)) (s_channels s)\<rparr>)"
proof -
  have t: "tab_inv (s_heap s) (s_channels s) (s_reserved s) (s_pending_open s)" using assms(1) by (simp add: sess_inv_def)
  then have nz: "i \<noteq> 0" using assms(3) by (auto simp: tab_inv_def)
  note a = tab_inv_append [OF t nz]
  have "tab_inv (s_heap s @ [chan_new i]) (al_insert i (length (s_heap s)) (s_channels s)) (s_reserved s - {i}) (s_pending_open s)"
    using tab_inv_open [OF a assms(5), of "length (s_heap s)"] by (simp add: chan_new_def)
  then show ?thesis using assms by (auto simp: sess_inv_def)
qed

lemma request_accept_inv:
  assumes "sess_inv s" and "om_channel m \<noteq> 0"
    and "s_end s = None \<Longrightarrow> om_channel m \<in> s_reserved s \<and> om_channel m \<notin> set (open_requests (s_events s))
      \<and> om_channel m \<notin> fst ` set (s_pending_open s)"
  shows "sess_inv (snd (request_accept ser s m))"
proof (cases "s_end s = None")
  case True
  define s2 where "s2 = s\<lparr>s_heap := s_heap s @ [chan_new (om_channel m)], s_reserved := s_reserved s - {om_channel m},
     s_channels := al_insert (om_channel m) (length (s_heap s)) (s_channels s)\<rparr>"
  have i2: "sess_inv s2" using accept_register_inv [OF assms(1) True] assms(3) [OF True] by (simp add: s2_def)
  obtain q s3 where c: "send_ctrl ser s2 (C_Opened (om_channel m)) = (q, s3)" by fastforce
  then have "sess_inv s3" using send_ctrl_inv [OF i2] by (metis snd_conv)
  then show ?thesis
    using True c session_drop_inv [of s3] by (cases q) (simp_all add: request_accept_def check_alive_def Let_def s2_def)
next
  case False
  have "sess_inv (s\<lparr>s_heap := s_heap s @ [chan_new (om_channel m)]\<rparr>)"
    using assms(1) tab_inv_append [OF _ assms(2)] by (simp add: sess_inv_def)
  from session_drop_inv [OF this] False show ?thesis by (simp add: request_accept_def check_alive_def Let_def)
qed

lemma events_drop_inv:
  assumes "sess_inv s"
  shows "sess_inv (events_drop ser s)"
proof -
  define t where "t = s\<lparr>s_events := [], s_events_open := False\<rparr>"
  have t: "sess_inv t" using assms by (simp add: sess_inv_def t_def)
  have "sess_inv (fold (\<lambda>e s. case e of E_Open m \<Rightarrow> request_drop ser s m | E_Ctrl _ \<Rightarrow> s) es u)"
    if "sess_inv u" "s_events u = []" "fst ` set (s_pending_open u) \<inter> set (open_requests es) = {}" for es u
    using that
  proof (induction es arbitrary: u)
    case (Cons e es)
    then show ?case using request_drop_inv [of u] by (cases e) auto
  qed simp
  moreover have "fst ` set (s_pending_open t) \<inter> set (open_requests (s_events s)) = {}"
    using assms by (auto simp: sess_inv_def t_def split: if_splits)
  ultimately show ?thesis using t by (simp add: events_drop_def t_def)
qed

section \<open>Inbound messages\<close>

lemma emit_ctrl_inv: "sess_inv s \<Longrightarrow> sess_inv (emit ser s (E_Ctrl m))"
  by (auto simp: emit_def sess_inv_def)

lemma server_open_inv:
  assumes "sess_inv s" and "s_role s = Role_Server"
  shows "sess_inv (server_open ser s m)"
proof (cases "om_kind m = UnknownKind \<or> too_long MAX_REPO_LEN (om_repo m) \<or> too_long MAX_RESUME_LEN (om_resume m)
    \<or> om_channel m = 0 \<or> in_use s (om_channel m)")
  case True
  then show ?thesis using send_ctrl_inv [OF assms(1)] by (auto simp: server_open_def)
next
  case False
  define t where "t = s\<lparr>s_reserved := insert (om_channel m) (s_reserved s), s_handles := s_handles s + 1\<rparr>"
  have fresh: "om_channel m \<notin> fst ` set (s_channels s)" "om_channel m \<notin> s_reserved s" "om_channel m \<noteq> 0"
    using False by (auto simp: in_use_def al_get_None)
  then have np: "om_channel m \<notin> fst ` set (s_pending_open s)"
    using assms by (auto simp: sess_inv_def tab_inv_def)
  have "tab_inv (s_heap s) (s_channels s) (insert (om_channel m) (s_reserved s)) (s_pending_open s)"
    using assms fresh tab_inv_insert_res by (simp add: sess_inv_def)
  then have t: "sess_inv t" using assms by (auto simp: sess_inv_def t_def)
  have so: "server_open ser s m = emit ser t (E_Open m)" using False by (simp add: server_open_def t_def)
  show ?thesis
  proof (cases "s_events_open t")
    case True
    have "sess_inv (t\<lparr>s_events := s_events t @ [E_Open m]\<rparr>)"
      using t fresh np assms by (auto simp: sess_inv_def t_def)
    then show ?thesis using so True by (simp add: emit_def)
  next
    case False
    have "sess_inv (s\<lparr>s_handles := s_handles s + 1\<rparr>)" using assms by (simp add: sess_inv_def)
    moreover have "t\<lparr>s_reserved := s_reserved t - {om_channel m}\<rparr> = s\<lparr>s_handles := s_handles s + 1\<rparr>"
      using fresh by (simp add: t_def)
    ultimately have "sess_inv (reject_open ser t (om_channel m) x y)" for x y
      using send_ctrl_inv by (simp add: reject_open_def)
    then show ?thesis using so False session_drop_inv by (simp add: emit_def request_drop_def)
  qed
qed

lemma server_ctrl_inv: "sess_inv s \<Longrightarrow> s_role s = Role_Server \<Longrightarrow> sess_inv (server_ctrl ser s m)"
  by (cases m) (simp_all add: server_open_inv emit_ctrl_inv quiet_inv [OF quiet_send_error] quiet_inv [OF quiet_unexpected])

lemma resolve_open_inv:
  assumes i: "sess_inv s" and p: "(k, a, t) \<in> set (s_pending_open s)"
  shows "sess_inv (snd (resolve t r (s\<lparr>s_pending_open := al_remove k (s_pending_open s),
    s_reserved := s_reserved s - {k}\<rparr>)))" and "a < length (s_heap s)" and "ch_id (s_heap s ! a) = k"
proof -
  have tb: "tab_inv (s_heap s) (s_channels s) (s_reserved s) (s_pending_open s)"
    and tx: "tx_inv (live_txs (s_pending_open s) (s_pending s)) (s_replies s) (s_gone s) (s_next_tx s)"
    using i by (auto simp: sess_inv_def)
  then show a: "a < length (s_heap s)" "ch_id (s_heap s ! a) = k" using p by (auto simp: tab_inv_def)
  have "tab_inv (s_heap s) (s_channels s) (s_reserved s) (al_remove k (s_pending_open s))"
    using tb by (auto simp: tab_inv_def)
  from tab_inv_unreserve [OF this, of k]
  have tb': "tab_inv (s_heap s) (s_channels s) (s_reserved s - {k}) (al_remove k (s_pending_open s))" by auto
  have "distinct (live_txs (s_pending_open s) (s_pending s))" "distinct (map fst (s_pending_open s))"
    using tx tb by (auto simp: tx_inv_def tab_inv_def)
  note l = live_remove_open [OF this p]
  have "t \<in> set (live_txs (s_pending_open s) (s_pending s))" using p by (force simp: live_txs_def)
  from tx_inv_resolve [OF tx this, of "live_txs (al_remove k (s_pending_open s)) (s_pending s)" r] l
  have tx': "tx_inv (live_txs (al_remove k (s_pending_open s)) (s_pending s))
     (s_replies s @ (if t \<in> s_gone s then [] else [(t, r)])) (s_gone s) (s_next_tx s)" by simp
  have alive: "s_end s = None" using i p by (auto simp: sess_inv_def split: if_splits)
  have kf: "k \<in> fst ` set (s_pending_open s)" using p by force
  then have "set (open_requests (s_events s)) \<subseteq> s_reserved s - {k}"
    using i alive by (auto simp: sess_inv_def)
  moreover have "fst ` set (al_remove k (s_pending_open s)) \<inter> set (open_requests (s_events s)) = {}"
    using i alive by (auto simp: sess_inv_def)
  ultimately show "sess_inv (snd (resolve t r (s\<lparr>s_pending_open := al_remove k (s_pending_open s),
    s_reserved := s_reserved s - {k}\<rparr>)))"
    using i alive tb' tx' by (auto simp: sess_inv_def resolve_def)
qed

lemma client_open_error_inv:
  assumes "sess_inv s" and "s_role s = Role_Client"
  shows "sess_inv (client_open_error s ch t c)"
proof (cases "al_get (s_pending_open s) ch")
  case None
  then have n: "ch \<notin> fst ` set (s_pending_open s)" by (simp add: al_get_None)
  then have "al_remove ch (s_pending_open s) = s_pending_open s" by (auto simp: al_remove_def filter_id_conv)
  then show ?thesis
    using assms None tab_inv_unreserve [OF _ n] by (auto simp: client_open_error_def Let_def sess_inv_def)
next
  case (Some x)
  obtain a tx where x: "x = (a, tx)" by fastforce
  have eq: "s\<lparr>s_reserved := s_reserved s - {ch}, s_pending_open := al_remove ch (s_pending_open s)\<rparr>
      = s\<lparr>s_pending_open := al_remove ch (s_pending_open s), s_reserved := s_reserved s - {ch}\<rparr>" by simp
  show ?thesis
    using Some x resolve_open_inv(1) [OF assms(1) al_get_SomeD] unfolding client_open_error_def Let_def eq
    by (simp split: option.splits)
qed

lemma client_opened_inv:
  assumes "sess_inv s"
  shows "sess_inv (client_opened ser s ch)"
proof (cases "al_get (s_pending_open s) ch")
  case None
  then show ?thesis using quiet_inv [OF quiet_send_error assms] by (simp add: client_opened_def)
next
  case (Some x)
  obtain a tx where x: "x = (a, tx)" by fastforce
  have p: "(ch, a, tx) \<in> set (s_pending_open s)" using al_get_SomeD [of "s_pending_open s" ch "(a, tx)"] Some x by simp
  note r = resolve_open_inv [OF assms p]
  define s0 where "s0 = s\<lparr>s_pending_open := al_remove ch (s_pending_open s), s_reserved := s_reserved s - {ch}\<rparr>"
  define u where "u = snd (resolve tx (Reply_Open (Inr ())) s0)"
  have u: "sess_inv u" using r(1) by (simp add: u_def s0_def)
  have uf: "s_heap u = s_heap s" "s_reserved u = s_reserved s - {ch}" "s_channels u = s_channels s"
    "s_pending_open u = al_remove ch (s_pending_open s)" "s_end u = s_end s"
    by (simp_all add: u_def s0_def resolve_def)
  have alive: "s_end s = None" using assms p by (auto simp: sess_inv_def split: if_splits)
  define v where "v = u\<lparr>s_channels := al_insert ch a (s_channels u)\<rparr>"
  have "tab_inv (s_heap u) (s_channels u) (s_reserved u) (s_pending_open u)" using u by (simp add: sess_inv_def)
  moreover have "ch \<notin> fst ` set (s_pending_open u)" "a < length (s_heap u)" "ch_id (s_heap u ! a) = ch"
    using r(2,3) by (auto simp: uf)
  moreover have "s_reserved u - {ch} = s_reserved u" by (simp add: uf)
  ultimately have "tab_inv (s_heap u) (al_insert ch a (s_channels u)) (s_reserved u) (s_pending_open u)"
    using tab_inv_open [of "s_heap u" "s_channels u" "s_reserved u" "s_pending_open u" ch a] by metis
  then have v: "sess_inv v" using u uf alive by (auto simp: sess_inv_def v_def)
  have rv: "resolve tx (Reply_Open (Inr ())) (s\<lparr>s_pending_open := al_remove ch (s_pending_open s),
      s_reserved := s_reserved s - {ch}, s_channels := al_insert ch a (s_channels s)\<rparr>) = (tx \<notin> s_gone s, v)"
    by (simp add: resolve_def v_def u_def s0_def)
  have "a < length (s_heap v)" using r(2) uf by (simp add: v_def)
  from close_chan_inv [OF v this] v show ?thesis
    using Some x rv by (simp add: client_opened_def split: bool.splits)
qed

lemma take_pending_inv:
  assumes "sess_inv s" and "take_first p (s_pending s) = (Some q, ps)"
  shows "sess_inv (snd (resolve (pending_tx q) r (s\<lparr>s_pending := ps\<rparr>)))"
proof -
  from take_first_SomeD [OF assms(2)] obtain as bs where "s_pending s = as @ q # bs" "ps = as @ bs" by blast
  then show ?thesis using resolve_pending_inv [OF assms(1)] by blast
qed

lemma client_ctrl_inv:
  assumes "sess_inv s" and "s_role s = Role_Client"
  shows "sess_inv (client_ctrl ser s m)"
proof -
  note tp = take_pending_inv [OF assms(1)]
  have "sess_inv (client_ctrl ser s (C_StepAccepted r p x))" for r p x
    using tp [of "is_start_of r"] emit_ctrl_inv [OF assms(1)]
    by (auto split: prod.splits option.splits pending_req.splits) force
  moreover have "sess_inv (client_ctrl ser s (C_StepState r p x))" for r p x
    using tp [of "is_status_of r"] emit_ctrl_inv [OF assms(1)]
    by (auto split: prod.splits option.splits pending_req.splits) force
  moreover have "sess_inv (client_ctrl ser s (C_CredentialState k c x))" for k c x
    using tp [of is_cred] emit_ctrl_inv [OF assms(1)]
    by (auto split: prod.splits option.splits pending_req.splits) force
  ultimately show ?thesis
    using client_opened_inv [OF assms(1)] client_open_error_inv [OF assms] emit_ctrl_inv [OF assms(1)]
      quiet_inv [OF quiet_unexpected assms(1)]
    by (cases m) (simp_all del: client_ctrl.simps(3,4,10) add: client_ctrl.simps(3,4,10))
qed

lemma attribute_error_inv:
  assumes "sess_inv s"
  shows "sess_inv (snd (attribute_error s code message run_id))"
proof -
  have "sess_inv (pending_fail e q (s\<lparr>s_pending := ps\<rparr>))" if "take_first p (s_pending s) = (Some q, ps)" for e p q ps
    using take_pending_inv [OF assms that] by (simp add: pending_fail_eq)
  moreover have "sess_inv (pending_fail e q (s\<lparr>s_pending := ps\<rparr>))" if "s_pending s = q # ps" for e q ps
    using resolve_pending_inv [OF assms, of "[]" q ps] that by (simp add: pending_fail_eq)
  ultimately show ?thesis
    using assms
    by (cases run_id; cases "take_first (pending_matches (the run_id)) (s_pending s)"; cases "s_pending s")
       (auto simp: attribute_error_def split: option.splits simp del: take_first.simps)
qed

lemma attribute_error_False: "attribute_error s code message run_id = (False, s') \<Longrightarrow> s' = s"
  by (auto simp: attribute_error_def split: option.splits list.splits prod.splits if_splits)

lemma role_ctrl_inv: "sess_inv s \<Longrightarrow> sess_inv (role_ctrl ser s m)"
  by (cases "s_role s") (simp_all add: role_ctrl_def server_ctrl_inv client_ctrl_inv)

lemma handle_ctrl_inv:
  assumes "sess_inv s"
  shows "sess_inv (handle_ctrl ser s m)"
proof (cases m)
  case (C_Error code message run_id ch)
  then show ?thesis
    using attribute_error_inv [OF assms, of code message run_id] assms
    by (auto simp: handle_ctrl_def emit_ctrl_inv dest: attribute_error_False split: prod.splits bool.splits)
qed (simp_all add: handle_ctrl_def role_ctrl_inv assms quiet_inv [OF quiet_send_error assms])

lemma violation_inv:
  assumes "sess_inv s" and "a < length (s_heap s)"
  shows "sess_inv (violation ser s a code msg)"
proof -
  define t where "t = send_error ser s code (''channel '' @ show_nat (unat (ch_id (s_heap s ! a))) @ '': '' @ msg)"
  have q: "quiet s t" by (simp add: t_def quiet_send_error)
  have "sess_inv t" "a < length (s_heap t)" using quiet_inv [OF q assms(1)] quietD(1) [OF q] assms(2) by simp_all
  from apply_eff_inv [OF this chan_abort_keeps [OF sess_inv_chan [OF this]]]
  show ?thesis by (simp add: violation_def Let_def t_def)
qed

lemma handle_frame_inv:
  assumes "sess_inv s" and "validate f = Inr ()"
  shows "sess_inv (handle_frame ser de s f)"
proof (cases "f_type f = FT_Ctrl")
  case True
  then show ?thesis
    using handle_ctrl_inv [OF assms(1)] quiet_inv [OF quiet_send_error assms(1)]
    by (auto simp: handle_frame_def Let_def split: sum.splits)
next
  case False
  show ?thesis
  proof (cases "al_get (s_channels s) (f_channel f)")
    case None
    then show ?thesis using False assms(1) quiet_inv [OF quiet_send_error assms(1)] by (simp add: handle_frame_def)
  next
    case (Some a)
    note a = table_arc [OF assms(1) Some, THEN conjunct1]
    show ?thesis
    proof (cases "chan_frame (s_heap s ! a) f")
      case (Inl e)
      then show ?thesis using False Some violation_inv [OF assms(1) a] by (simp add: handle_frame_def)
    next
      case (Inr x)
      from apply_eff_inv [OF assms(1) a chan_frame_keeps [OF sess_inv_chan [OF assms(1) a] Inr assms(2)]]
      show ?thesis using False Some Inr by (simp add: handle_frame_def)
    qed
  qed
qed

lemma inv_reader: "sess_inv s \<Longrightarrow> sess_inv (s\<lparr>s_reader_done := b\<rparr>)"
  by (simp add: sess_inv_def)

lemma fatal_inv: "sess_inv s \<Longrightarrow> sess_inv (fatal ser reason s)"
  by (simp add: fatal_def finish_inv quiet_inv [OF quiet_send_error])

lemma read_step_inv: "sess_inv s \<Longrightarrow> sess_inv (read_step ser de s item)"
  by (auto simp: read_step_def inv_reader finish_inv fatal_inv intro: handle_frame_inv dest: from_bytes_InrD
      split: option.splits sum.splits ws_msg.splits)

lemma read_stop_inv: "sess_inv s \<Longrightarrow> sess_inv (read_stop s)"
  by (simp add: read_stop_def inv_reader)

lemma inv_out: "sess_inv s \<Longrightarrow> sess_inv (s\<lparr>s_out := q\<rparr>)" "sess_inv s \<Longrightarrow> sess_inv (s\<lparr>s_out := q, s_out_open := b\<rparr>)"
  "sess_inv s \<Longrightarrow> sess_inv (s\<lparr>s_out := q, s_sent := w\<rparr>)"
  by (simp_all add: sess_inv_def)

lemma write_end_inv: "sess_inv s \<Longrightarrow> sess_inv (write_end e s)"
  by (simp add: write_end_def inv_out finish_inv)

lemma write_step_inv: "sess_inv s \<Longrightarrow> sess_inv (write_step outcome s)"
  by (auto simp: write_step_def inv_out Let_def intro!: write_end_inv split: list.splits out.splits option.splits)

section \<open>The machine\<close>

text \<open>Operations on a channel handle other than closing it.\<close>

definition put_chan :: "nat \<Rightarrow> chan \<Rightarrow> bytes list \<Rightarrow> sess \<Rightarrow> sess" where
  "put_chan a c ms s = fold (\<lambda>b. push_out (Out_Frame b)) ms (s\<lparr>s_heap := (s_heap s)[a := c]\<rparr>)"

inductive sess_step :: "(ctrl \<Rightarrow> string + bytes) \<Rightarrow> (bytes \<Rightarrow> string + ctrl) \<Rightarrow> sess \<Rightarrow> sess \<Rightarrow> bool" for ser de where
  st_read: "sess_step ser de s (read_step ser de s item)"
| st_read_stop: "sess_step ser de s (read_stop s)"
| st_write: "sess_step ser de s (write_step outcome s)"
| st_open: "sess_step ser de s (snd (open_kind ser s m))"
| st_start: "sess_step ser de s (snd (sess_step_start ser s x))"
| st_status: "sess_step ser de s (snd (sess_step_status ser s run_id seq))"
| st_cred: "sess_step ser de s (snd (sess_credential_status ser s))"
| st_give_up: "sess_step ser de s (give_up tx s)"
| st_send: "sess_step ser de s (snd (send_ctrl ser s c))"
| st_accept: "E_Open m \<in> set (s_events s) \<Longrightarrow>
    sess_step ser de s (snd (request_accept ser (take_event (E_Open m) s) m))"
| st_reject: "E_Open m \<in> set (s_events s) \<Longrightarrow>
    sess_step ser de s (request_reject ser (take_event (E_Open m) s) m msg)"
| st_reject_code: "E_Open m \<in> set (s_events s) \<Longrightarrow>
    sess_step ser de s (request_reject_with_code ser (take_event (E_Open m) s) m code msg)"
| st_request_drop: "E_Open m \<in> set (s_events s) \<Longrightarrow>
    sess_step ser de s (request_drop ser (take_event (E_Open m) s) m)"
| st_event: "sess_step ser de s (take_event (E_Ctrl c) s)"
| st_events_drop: "sess_step ser de s (events_drop ser s)"
| st_clone: "sess_step ser de s (s\<lparr>s_handles := s_handles s + 1\<rparr>)"
| st_drop: "sess_step ser de s (session_drop s)"
| st_close: "sess_step ser de s (begin_close s)"
| st_user: "a < length (s_heap s) \<Longrightarrow> user_op (s_heap s ! a) c out \<Longrightarrow> sess_step ser de s (put_chan a c out s)"
| st_chan_close: "a < length (s_heap s) \<Longrightarrow> sess_step ser de s (close_chan code reason a s)"

lemma put_chan_inv:
  assumes "sess_inv s" and "a < length (s_heap s)" and "user_op (s_heap s ! a) c out"
  shows "sess_inv (put_chan a c out s)"
proof -
  have "keeps (s_heap s ! a) c"
    using user_op_eff [OF assms(3) sess_inv_chan [OF assms(1,2)]] by (simp add: user_eff_def keeps_def)
  then have "sess_inv (s\<lparr>s_heap := (s_heap s)[a := c]\<rparr>)"
    using assms(1) tab_inv_heap [OF _ assms(2)] by (simp add: sess_inv_def)
  then show ?thesis using quiet_inv [OF quiet_fold_push] by (simp add: put_chan_def)
qed

lemma request_reject_inv:
  assumes "sess_inv s" and "E_Open m \<in> set (s_events s)"
  shows "sess_inv (session_drop (reject_open ser (take_event (E_Open m) s) (om_channel m) t c))"
proof -
  note r = take_request_inv [OF assms]
  have "sess_inv (reject_open ser (take_event (E_Open m) s) (om_channel m) t c)"
    using r by (intro reject_open_inv) (auto simp: take_event_def)
  then show ?thesis using session_drop_inv by blast
qed

lemma accept_inv:
  assumes "sess_inv s" and "E_Open m \<in> set (s_events s)"
  shows "sess_inv (snd (request_accept ser (take_event (E_Open m) s) m))"
  using take_request_inv [OF assms] by (intro request_accept_inv) (auto simp: take_event_def)

lemma sess_inv_step: "sess_inv s \<Longrightarrow> sess_step ser de s s' \<Longrightarrow> sess_inv s'"
proof (erule sess_step.cases, goal_cases)
  case (16 s)
  then show ?case by (simp add: sess_inv_def)
qed (auto simp: sess_step_start_def sess_step_status_def sess_credential_status_def request_reject_def
  request_reject_with_code_def request_drop_def read_step_inv read_stop_inv write_step_inv open_kind_inv request_inv
  give_up_inv send_ctrl_inv accept_inv request_reject_inv take_ctrl_inv events_drop_inv session_drop_inv begin_close_inv
  put_chan_inv close_chan_inv)

lemma sess_inv_start: "sess_inv (sess_start r v fs peer pfs)"
  by (simp add: sess_inv_def sess_start_def tab_inv_def tx_inv_def live_txs_def)

definition session_init :: "sess \<Rightarrow> bool" where
  "session_init s \<longleftrightarrow> (\<exists>r v fs peer pfs. s = sess_start r v fs peer pfs)"

interpretation session_machine: machine session_init "sess_step ser de" sess_inv for ser de
  by unfold_locales (auto simp: session_init_def sess_inv_start intro: sess_inv_step)

end
