(* ===== verification/Session_Props.thy ===== *)
theory Session_Props
  imports Session_Machine
begin

text \<open>
  Properties of the session runtime, most of them for every state reachable from a new session by
  any interleaving of reader turns, writer turns, API calls and channel operations.
\<close>

section \<open>Frame conditions\<close>

lemma session_drop_end: "s_end (session_drop s) = s_end s"
proof -
  have c: "s_end (close_chan code reason a t) = s_end t" for code reason a t
    by (auto simp: close_chan_def split: sum.splits)
  have "s_end (fold (\<lambda>p. close_chan code reason (snd p)) ps t) = s_end t"
    for ps :: "(u32 \<times> nat) list" and code reason t
    by (induction ps arbitrary: t) (auto simp: c)
  then show ?thesis by (simp add: session_drop_def begin_close_def Let_def push_out_def)
qed

lemma emit_end: "s_end (emit ser s e) = s_end s"
  using quietD(3) [OF quiet_send_ctrl]
  by (auto simp: emit_def request_drop_def session_drop_end reject_open_def split: event.splits)

lemma send_error_end [simp]: "s_end (send_error ser s code msg) = s_end s" "s_end (unexpected ser s m) = s_end s"
  "s_end (snd (send_ctrl ser s m)) = s_end s"
  using quietD(3) [OF quiet_send_error] quietD(3) [OF quiet_unexpected] quietD(3) [OF quiet_send_ctrl] by blast+

lemma resolve_end [simp]: "s_end (snd (resolve tx r s)) = s_end s"
  by (simp add: resolve_def)

lemma close_chan_end [simp]: "s_end (close_chan code reason a s) = s_end s"
  by (auto simp: close_chan_def split: sum.splits)

lemma server_ctrl_end: "s_end (server_ctrl ser s m) = s_end s"
  by (cases m) (simp_all add: emit_end server_open_def)

lemma client_ctrl_end: "s_end (client_ctrl ser s m) = s_end s"
proof -
  have "s_end (client_opened ser s ch) = s_end s" for ch
    by (auto simp: client_opened_def resolve_def Let_def split: option.splits)
  moreover have "s_end (client_open_error s ch t c) = s_end s" for ch t c
    by (auto simp: client_open_error_def Let_def split: option.splits)
  ultimately show ?thesis
    by (cases m) (auto simp: emit_end split: prod.splits option.splits pending_req.splits)
qed

lemma role_ctrl_end: "s_end (role_ctrl ser s m) = s_end s"
  by (cases "s_role s") (simp_all only: role_ctrl_def role.case server_ctrl_end client_ctrl_end)

lemma handle_ctrl_end: "s_end (handle_ctrl ser s m) = s_end s"
proof (cases m)
  case (C_Error code message run_id ch)
  have "s_end (snd (attribute_error s code message run_id)) = s_end s"
    by (auto simp: attribute_error_def pending_fail_eq split: option.splits list.splits prod.splits)
  then show ?thesis using C_Error by (auto simp: handle_ctrl_def emit_end split: prod.splits bool.splits)
qed (simp_all add: handle_ctrl_def role_ctrl_end)

lemma handle_frame_end: "s_end (handle_frame ser de s f) = s_end s"
  by (auto simp: handle_frame_def handle_ctrl_end violation_def Let_def split: sum.splits option.splits)

lemma finish_end: "s_end (finish en s) = Some (end_of en s)"
proof -
  have f: "s_end (fold (\<lambda>p. fail_chan e (snd p)) ps t) = s_end t" for e and ps :: "(u32 \<times> nat) list" and t
    by (induction ps arbitrary: t) (auto simp: fail_chan_def)
  have g: "s_end (fold (\<lambda>p s. snd (resolve (snd (snd p)) r (fail_chan e (fst (snd p)) s))) ps t) = s_end t" for e r ps t
    by (induction ps arbitrary: t) (auto simp: fail_chan_def)
  have h: "s_end (fold (pending_fail e) ps t) = s_end t" for e ps t
    by (induction ps arbitrary: t) (auto simp: pending_fail_eq)
  show ?thesis by (simp add: finish_def Let_def push_out_def f g h end_of_def)
qed

section \<open>Properties\<close>

text \<open>
  Allocation. \<^verbatim>\<open>alloc\<close> returns an id that is not 0 and neither open nor reserved, even
  when the 32-bit counter wraps around, and changes nothing but the counter; it fails only after 1024
  consecutive ids were all taken.
\<close>

theorem alloc_fresh:
  "case alloc s of
     (Inr i, s') \<Rightarrow> i \<noteq> 0 \<and> \<not> in_use s i \<and> s' = s\<lparr>s_next_id := i\<rparr>
   | (Inl e, s') \<Rightarrow> e = SE_NoFreeChannel \<and> list_all (\<lambda>k. in_use s (later_id (Suc k) (s_next_id s))) [0..<1024]"
proof (cases "alloc s")
  case (Pair r s')
  show ?thesis
  proof (cases r)
    case (Inl e)
    then show ?thesis using Pair alloc_from_err [of 1024 s e s'] by (auto simp: alloc_def list_all_iff)
  next
    case (Inr i)
    then show ?thesis using Pair alloc_from_ok [of 1024 s i s'] by (simp add: alloc_def)
  qed
qed

definition quiet_codec :: "ctrl \<Rightarrow> string + bytes" where
  "quiet_codec m = Inr [1]"

definition quiet_parse :: "bytes \<Rightarrow> string + ctrl" where
  "quiet_parse b = Inr C_CredentialStatus"

text \<open>
  The channel table is sound in every reachable state: a channel is registered under its own
  id, which is not 0 and not also reserved for an open in progress; a pending open is reserved
  and its channel has that id.
\<close>

theorem session_table_sound:
  assumes "session_init s0" and "(sess_step ser de)\<^sup>*\<^sup>* s0 s"
  shows "(al_get (s_channels s) i = Some a \<longrightarrow>
           i \<noteq> 0 \<and> i \<notin> s_reserved s \<and> a < length (s_heap s) \<and> ch_id (s_heap s ! a) = i)
    \<and> (al_get (s_pending_open s) i = Some (b, t) \<longrightarrow>
           i \<in> s_reserved s \<and> b < length (s_heap s) \<and> ch_id (s_heap s ! b) = i)"
proof -
  have inv: "sess_inv s" by (rule session_machine.good_reachable [OF assms])
  have t: "tab_inv (s_heap s) (s_channels s) (s_reserved s) (s_pending_open s)" using inv by (simp add: sess_inv_def)
  have "i \<noteq> 0" if "al_get (s_channels s) i = Some a"
  proof -
    have "chan_inv (s_heap s ! a)" "ch_id (s_heap s ! a) = i" using table_arc [OF inv that] sess_inv_chan [OF inv] by auto
    then show ?thesis by (auto simp: chan_inv_def)
  qed
  then show ?thesis using t by (auto simp: tab_inv_def dest!: al_get_SomeD)
qed

text \<open>A client that has just asked for a terminal.\<close>

theorem session_table_sound_witness:
  "al_get (s_pending_open (snd (open_kind quiet_codec (sess_start Role_Client 1 [] None [])
       (open_args Pty 80 24 None None None None None)))) 1 = Some (0, 0)
   \<and> 1 \<in> s_reserved (snd (open_kind quiet_codec (sess_start Role_Client 1 [] None [])
       (open_args Pty 80 24 None None None None None)))"
proof -
  let ?c = "sess_start Role_Client 1 [] None []" and ?m = "open_args Pty 80 24 None None None None None"
  have i: "session_init ?c" unfolding session_init_def by blast
  have st: "(sess_step quiet_codec quiet_parse)\<^sup>*\<^sup>* ?c (snd (open_kind quiet_codec ?c ?m))"
    by (rule r_into_rtranclp) (rule st_open)
  have "alloc ?c = (Inr 1, ?c\<lparr>s_next_id := 1\<rparr>)"
    by (simp add: alloc_def numeral_eq_Suc Let_def in_use_def sess_start_def next_chan_id_def)
  then have "al_get (s_pending_open (snd (open_kind quiet_codec ?c ?m))) 1 = Some (0, 0)"
    by (simp add: open_kind_def sess_start_def require_def check_alive_def open_args_def too_long_def
        send_ctrl_def frame_ctrl_def quiet_codec_def send_frame_def to_bytes_eq validate_def frame_new_def
        check_channel_def MAX_PAYLOAD_LEN_def push_out_def Let_def)
  with session_table_sound [OF i st, of 1 0 0 0] show ?thesis by simp
qed

text \<open>
  C7: every request is answered. In every reachable state each one-shot channel has at most one
  reply, and once the session has ended every request ever made that its caller still waits for
  has a reply: no future of an open, a step or a credential request hangs.
\<close>

theorem session_requests_answered:
  assumes "session_init s0" and "(sess_step ser de)\<^sup>*\<^sup>* s0 s"
  shows "distinct (map fst (s_replies s))
    \<and> (sess_is_closed s \<longrightarrow> (\<forall>tx < s_next_tx s. tx \<in> s_gone s \<or> await_reply s tx \<noteq> None)
         \<and> s_channels s = [] \<and> s_pending_open s = [] \<and> s_pending s = [])"
proof -
  have inv: "sess_inv s" by (rule session_machine.good_reachable [OF assms])
  then have tx: "tx_inv (live_txs (s_pending_open s) (s_pending s)) (s_replies s) (s_gone s) (s_next_tx s)"
    by (simp add: sess_inv_def)
  have "tx \<in> s_gone s \<or> await_reply s tx \<noteq> None" if "s_end s \<noteq> None" "tx < s_next_tx s" for tx
  proof -
    have "live_txs (s_pending_open s) (s_pending s) = []" using inv that by (simp add: sess_inv_def live_txs_def)
    then have "tx \<in> fst ` set (s_replies s) \<or> tx \<in> s_gone s" using tx that(2) by (auto simp: tx_inv_def)
    then show ?thesis by (auto simp: await_reply_def al_get_None)
  qed
  moreover have "distinct (map fst (s_replies s))" using tx by (simp add: tx_inv_def)
  ultimately show ?thesis using inv by (auto simp: sess_is_closed_def sess_inv_def)
qed

text \<open>A client asks for the credential state and then the peer closes.\<close>

definition asked :: sess where
  "asked = snd (sess_credential_status quiet_codec (sess_start Role_Client 1 [] None []))"

lemma asked_reach:
  "(sess_step quiet_codec quiet_parse)\<^sup>*\<^sup>* (sess_start Role_Client 1 [] None [])
     (read_step quiet_codec quiet_parse asked None)"
  unfolding asked_def by (meson rtranclp.rtrancl_into_rtrancl rtranclp.rtrancl_refl st_cred st_read)

theorem session_requests_answered_witness:
  "await_reply (read_step quiet_codec quiet_parse asked None) 0 \<noteq> None"
proof -
  let ?s = "read_step quiet_codec quiet_parse asked None"
  have i: "session_init (sess_start Role_Client 1 [] None [])" unfolding session_init_def by blast
  have a: "s_reader_done asked = False" "s_end asked = None" "s_next_tx asked = 1" "s_gone asked = {}"
    by (simp_all add: asked_def sess_credential_status_def request_def require_def check_alive_def sess_start_def
        send_ctrl_def frame_ctrl_def quiet_codec_def send_frame_def to_bytes_eq validate_def frame_new_def
        check_channel_def MAX_PAYLOAD_LEN_def push_out_def Let_def)
  have inv: "sess_inv asked"
    unfolding asked_def sess_credential_status_def by (intro request_inv sess_inv_start) simp
  have "s_next_tx ?s = 1" "s_gone ?s = {}"
    using finish_spec [OF inv, of End_PeerClosed] a by (simp_all add: read_step_def fails_def)
  moreover have "sess_is_closed ?s" using a by (simp add: read_step_def sess_is_closed_def finish_end)
  ultimately show ?thesis using session_requests_answered [OF i asked_reach] by auto
qed

text \<open>
  What ends a session. A turn of the reader ends a live session exactly when the stream ends,
  closes or fails, when a text message arrives or when a binary message is not a frame, with the
  reason telling which; a control message, a flow-control violation or any other frame
  never ends it.
\<close>

theorem read_step_end:
  assumes "s_end s = None" and "\<not> s_reader_done s"
  shows "s_end (read_step ser de s item) =
    (case item of
       None \<Rightarrow> Some End_PeerClosed
     | Some (Inl e) \<Rightarrow> Some (End_Transport e)
     | Some (Inr WsClose) \<Rightarrow> Some End_PeerClosed
     | Some (Inr (WsText t)) \<Rightarrow> Some (End_Protocol ''text websocket message'')
     | Some (Inr WsOther) \<Rightarrow> None
     | Some (Inr (WsBinary b)) \<Rightarrow>
         (case from_bytes b of Inr f \<Rightarrow> None | Inl e \<Rightarrow> Some (End_Protocol (''bad frame: '' @ frame_error_display e))))"
  using assms
  by (auto simp: read_step_def finish_end end_of_def fatal_def handle_frame_end
      split: option.splits sum.splits ws_msg.splits)

theorem read_step_end_witness:
  "s_end (read_step quiet_codec quiet_parse (sess_start Role_Server 1 [] None []) (Some (Inr (WsText ''x''))))
     = Some (End_Protocol ''text websocket message'')"
  using read_step_end [of "sess_start Role_Server 1 [] None []" quiet_codec quiet_parse "Some (Inr (WsText ''x''))"]
  by (simp add: sess_start_def)

lemma al_get_remove: "al_get (al_remove k xs) k' = (if k' = k then None else al_get xs k')"
proof -
  have "map_of (filter (\<lambda>p. fst p \<noteq> k) xs) k' = (if k' = k then None else map_of xs k')"
    by (induction xs) auto
  then show ?thesis by (simp add: al_get_def al_remove_def)
qed

lemma apply_eff_others:
  assumes "ch_id (eff_chan e) = ch_id (s_heap s ! a)" and "a < length (s_heap s)"
  shows "b \<noteq> a \<Longrightarrow> s_heap (apply_eff a e s) ! b = s_heap s ! b"
    and "i \<noteq> ch_id (s_heap s ! a) \<Longrightarrow> al_get (s_channels (apply_eff a e s)) i = al_get (s_channels s) i"
proof -
  let ?s1 = "s\<lparr>s_heap := (s_heap s)[a := eff_chan e], s_woken := s_woken s @ eff_woken e\<rparr>"
  have q: "quiet ?s1 (fold (\<lambda>b. push_out (Out_Frame b)) (eff_out e) ?s1)" by (rule quiet_fold_push)
  show "i \<noteq> ch_id (s_heap s ! a) \<Longrightarrow> al_get (s_channels (apply_eff a e s)) i = al_get (s_channels s) i"
    using quietD(1,2) [OF q] assms by (simp add: apply_eff_def forget_channel_def Let_def al_get_remove)
qed simp

text \<open>
  Isolation. Handling a frame for one channel, also one that violates flow control, leaves
  every other channel of the session as it was: its state, and its entry in the table.
\<close>

theorem frame_isolation:
  assumes "session_init s0" and "(sess_step ser de)\<^sup>*\<^sup>* s0 s" and "f_type f \<noteq> FT_Ctrl"
    and "al_get (s_channels s) (f_channel f) \<noteq> Some b" and "i \<noteq> f_channel f"
  shows "s_heap (handle_frame ser de s f) ! b = s_heap s ! b
    \<and> al_get (s_channels (handle_frame ser de s f)) i = al_get (s_channels s) i"
proof -
  have inv: "sess_inv s" by (rule session_machine.good_reachable [OF assms(1,2)])
  show ?thesis
  proof (cases "al_get (s_channels s) (f_channel f)")
    case None
    then show ?thesis
      using assms(3) quietD(1,2) [OF quiet_send_error] by (simp add: handle_frame_def)
  next
    case (Some a)
    note a = table_arc [OF inv Some]
    have ab: "b \<noteq> a" using Some assms(4) by auto
    show ?thesis
    proof (cases "chan_frame (s_heap s ! a) f")
      case (Inl e)
      define t where "t = send_error ser s ec_FLOW_CONTROL (''channel '' @ show_nat (unat (ch_id (s_heap s ! a))) @ '': '' @ flow_error_display e)"
      have t: "s_heap t = s_heap s" "s_channels t = s_channels s"
        using quietD(1,2) [OF quiet_send_error] by (simp_all add: t_def)
      have "ch_id (eff_chan (chan_abort c r)) = ch_id c" for c r
        by (auto simp: chan_abort_def Let_def split: prod.splits)
      then show ?thesis
        using apply_eff_others [of "chan_abort (s_heap t ! a) (flow_error_display e)" t a] a t ab assms(3,5) Some Inl
        by (simp add: handle_frame_def violation_def Let_def t_def)
    next
      case (Inr x)
      then show ?thesis
        using apply_eff_others [of x s a] chan_frame_id [OF Inr] a ab assms(3,5) Some by (simp add: handle_frame_def)
    qed
  qed
qed

theorem frame_isolation_witness:
  "s_heap (handle_frame quiet_codec quiet_parse (sess_start Role_Server 1 [] None []) (frame_data_bin 3 [1])) ! 0
     = s_heap (sess_start Role_Server 1 [] None []) ! 0"
proof -
  have i: "session_init (sess_start Role_Server 1 [] None [])" unfolding session_init_def by blast
  show ?thesis
    using frame_isolation [OF i rtranclp.rtrancl_refl, of "frame_data_bin 3 [1]" 0 4 quiet_codec quiet_parse]
    by (simp add: frame_data_bin_def frame_new_def sess_start_def)
qed

text \<open>
  \<^verbatim>\<open>finish\<close> leaves nothing behind. It empties the channel table, the reserved ids and
  the pending requests, fails every channel that was open or being opened, answers every
  request that was pending with \<open>SE_Ended\<close>, and keeps the reason of an earlier end.
\<close>

theorem finish_complete:
  assumes "session_init s0" and "(sess_step ser de)\<^sup>*\<^sup>* s0 s"
  shows "s_channels (finish en s) = [] \<and> s_reserved (finish en s) = {} \<and> s_pending_open (finish en s) = []
    \<and> s_pending (finish en s) = []
    \<and> s_end (finish en s) = (case s_end s of None \<Rightarrow> Some en | Some e \<Rightarrow> Some e)
    \<and> (\<forall>a \<in> snd ` set (s_channels s) \<union> (fst \<circ> snd) ` set (s_pending_open s). ch_failed (s_heap (finish en s) ! a) \<noteq> None)
    \<and> s_replies (finish en s) = s_replies s @ end_replies (end_of en s) s"
proof -
  have inv: "sess_inv s" by (rule session_machine.good_reachable [OF assms])
  note f = finish_spec [OF inv, of en]
  have "ch_failed (s_heap (finish en s) ! a) \<noteq> None"
    if a: "a \<in> snd ` set (s_channels s) \<union> (fst \<circ> snd) ` set (s_pending_open s)" for a
  proof -
    have "a < length (s_heap s)" using a inv by (auto simp: sess_inv_def tab_inv_def)
    then show ?thesis using f a unfolding fails_def by simp blast
  qed
  then show ?thesis using f finish_end [of en s] by (simp add: fails_def end_of_def split: option.splits)
qed

theorem finish_complete_witness:
  "s_end (finish End_Closed (read_step quiet_codec quiet_parse asked None)) = Some End_PeerClosed"
proof -
  have i: "session_init (sess_start Role_Client 1 [] None [])" unfolding session_init_def by blast
  have "s_reader_done asked = False" "s_end asked = None"
    by (simp_all add: asked_def sess_credential_status_def request_def require_def check_alive_def sess_start_def
        send_ctrl_def frame_ctrl_def quiet_codec_def send_frame_def to_bytes_eq validate_def frame_new_def
        check_channel_def MAX_PAYLOAD_LEN_def push_out_def Let_def)
  then have "s_end (read_step quiet_codec quiet_parse asked None) = Some End_PeerClosed"
    by (simp add: read_step_def finish_end end_of_def)
  then show ?thesis using finish_complete [OF i asked_reach, of End_Closed] by simp
qed

text \<open>
  The server side follows the direction table. A message that no client may send (handshake
  or server-to-client) changes nothing and is answered by a \<^verbatim>\<open>protocol_violation\<close> error; every
  other message is handed to the application as an event, except for the three that the session
  handles itself (\<^verbatim>\<open>open\<close>, \<^verbatim>\<open>resize\<close> of an unknown channel, attributed \<^verbatim>\<open>error\<close>).
\<close>

theorem server_follows_direction:
  assumes "s_role s = Role_Server"
  shows "case ctrl_direction m of
      ClientToServer _ \<Rightarrow> tag m \<in> {''open'', ''resize'', ''error''} \<or> handle_ctrl ser s m = emit ser s (E_Ctrl m)
    | _ \<Rightarrow> (\<exists>msg. handle_ctrl ser s m = send_error ser s ec_PROTOCOL_VIOLATION msg)"
  using assms by (cases m) (auto simp: handle_ctrl_def role_ctrl_def unexpected_def)

theorem server_follows_direction_witness:
  "handle_ctrl quiet_codec (sess_start Role_Server 1 [] None []) C_StatsRequest
     = emit quiet_codec (sess_start Role_Server 1 [] None []) (E_Ctrl C_StatsRequest)"
  using server_follows_direction [where s = "sess_start Role_Server 1 [] None []" and m = C_StatsRequest and ser = quiet_codec]
  by (simp add: sess_start_def)

text \<open>
  The client side refuses what only clients send. Except for \<^verbatim>\<open>error\<close> and
  \<^verbatim>\<open>credential_state\<close>, which travel both ways, a handshake or client-to-server message changes
  nothing at a client and is answered by a \<^verbatim>\<open>protocol_violation\<close> error.
\<close>

theorem client_refuses_requests:
  assumes "s_role s = Role_Client" and "ctrl_direction m \<noteq> ServerToClient"
    and "tag m \<noteq> ''error''" and "tag m \<noteq> ''credential_state''"
  shows "\<exists>msg. handle_ctrl ser s m = send_error ser s ec_PROTOCOL_VIOLATION msg"
  using assms by (cases m) (auto simp: handle_ctrl_def role_ctrl_def unexpected_def)

theorem client_refuses_requests_witness:
  "\<exists>msg. handle_ctrl quiet_codec (sess_start Role_Client 1 [] None []) (C_StepStop ''r'')
     = send_error quiet_codec (sess_start Role_Client 1 [] None []) ec_PROTOCOL_VIOLATION msg"
  using client_refuses_requests [where s = "sess_start Role_Client 1 [] None []" and m = "C_StepStop ''r''" and ser = quiet_codec]
  by (simp add: sess_start_def)

text \<open>
  Attribution of error replies. An error that names a run fails exactly the oldest pending
  step request of that run, whatever its code, and leaves the other requests pending in order; an
  error that names no run fails the oldest pending request of any kind, a credential request
  too, when its code is one of the run-related codes, and otherwise none. If it fails none it changes nothing.
\<close>

theorem attribute_error_oldest:
  "attribute_error s code message run_id =
    (let hit = (\<lambda>p. case run_id of Some i \<Rightarrow> pending_matches i p | None \<Rightarrow> code \<in> set run_related);
         before = takeWhile (\<lambda>p. \<not> hit p) (s_pending s);
         rest = dropWhile (\<lambda>p. \<not> hit p) (s_pending s)
     in if rest = [] then (False, s)
        else (True, snd (resolve (pending_tx (hd rest)) (pending_reply (SE_Remote code message) (hd rest))
               (s\<lparr>s_pending := before @ tl rest\<rparr>))))"
proof -
  have tf: "take_first p xs = (case dropWhile (\<lambda>x. \<not> p x) xs of [] \<Rightarrow> (None, xs)
      | y # ys \<Rightarrow> (Some y, takeWhile (\<lambda>x. \<not> p x) xs @ ys))" for p and xs :: "pending_req list"
    by (induction xs) (auto split: list.splits simp del: dropWhile_eq_Nil_conv dropWhile_eq_Cons_conv)
  show ?thesis
  proof (cases run_id)
    case None
    show ?thesis
      by (cases "s_pending s"; cases "code \<in> set run_related")
         (auto simp: attribute_error_def None pending_fail_eq Let_def dropWhile_eq_Nil_conv)
  next
    case (Some i)
    show ?thesis
      by (cases "dropWhile (\<lambda>x. \<not> pending_matches i x) (s_pending s)")
         (simp_all add: attribute_error_def Some tf pending_fail_eq Let_def del: dropWhile_eq_Nil_conv)
  qed
qed

text \<open>
  A step request that does not fit a frame stays registered. When the serialised
  \<^verbatim>\<open>step_start\<close> exceeds the payload limit the call returns an error to its caller, but the
  request stays in the queue of pending requests; the next error reply without a run id is then
  swallowed by that stale entry instead of reaching the application.
\<close>

theorem step_start_leaves_stale:
  assumes "s_role s = Role_Client" and "s_end s = None" and "s_pending s = []" and "s_next_tx s \<notin> s_gone s"
    and "ser (C_StepStart x) = Inr body" and "length body > MAX_PAYLOAD_LEN"
  shows "\<exists>s'. sess_step_start ser s x = (Inl (SE_Frame (PayloadTooLarge (length body))), s')
    \<and> s_pending s' = [P_StepStart (ss_run_id x) (s_next_tx s)]
    \<and> s_events (handle_ctrl ser s' (C_Error ec_UNAUTHORIZED msg None None)) = s_events s"
proof -
  have v: "validate (frame_new FT_Ctrl 0 body) = Inl (PayloadTooLarge (length body))"
    using assms(6) by (simp add: validate_def frame_new_def check_channel_def)
  define s' where "s' = s\<lparr>s_pending := [P_StepStart (ss_run_id x) (s_next_tx s)], s_next_tx := Suc (s_next_tx s),
      s_gone := insert (s_next_tx s) (s_gone s)\<rparr>"
  have "sess_step_start ser s x = (Inl (SE_Frame (PayloadTooLarge (length body))), s')"
    using assms v
    by (simp add: sess_step_start_def request_def require_def check_alive_def Let_def send_ctrl_def frame_ctrl_def
        send_frame_def to_bytes_eq s'_def)
  moreover have "s_events (handle_ctrl ser s' (C_Error ec_UNAUTHORIZED msg None None)) = s_events s"
    by (simp add: handle_ctrl_def attribute_error_def run_related_def resolve_def s'_def)
  ultimately show ?thesis by (auto simp: s'_def)
qed

definition big_codec :: "ctrl \<Rightarrow> string + bytes" where
  "big_codec m = Inr (replicate 2000000 0)"

definition some_step :: step_start where
  "some_step = \<lparr>ss_run_id = ''r'', ss_attempt = 1, ss_task_id = ''t'', ss_workspaces = [],
     ss_exec = Exec_Command ''true'' [], ss_outputs = [], ss_env = [], ss_files = [], ss_github_token = None\<rparr>"

theorem step_start_leaves_stale_witness:
  "\<exists>s'. sess_step_start big_codec (sess_start Role_Client 1 [] None []) some_step
       = (Inl (SE_Frame (PayloadTooLarge 2000000)), s')
     \<and> s_pending s' = [P_StepStart ''r'' 0]"
  using step_start_leaves_stale [where s = "sess_start Role_Client 1 [] None []" and ser = big_codec and x = some_step
      and body = "replicate 2000000 0" and msg = "[]"]
  by (auto simp: sess_start_def big_codec_def MAX_PAYLOAD_LEN_def some_step_def)

definition frames_of :: "out list \<Rightarrow> bytes list" where
  "frames_of q = concat (map (\<lambda>x. case x of Out_Frame b \<Rightarrow> [b] | Out_Close \<Rightarrow> []) q)"

lemma frames_of_map [simp]: "frames_of (map Out_Frame bs @ [Out_Close]) = bs"
  by (induction bs) (simp_all add: frames_of_def)

text \<open>Operations that only append frames to the queue of the writer.\<close>

definition extends :: "sess \<Rightarrow> sess \<Rightarrow> bool" where
  "extends s s' \<longleftrightarrow>
     s_out_open s' = s_out_open s \<and> s_sent s' = s_sent s \<and> s_end s' = s_end s
     \<and> (s_out_open s \<longrightarrow> (\<exists>bs. s_out s' = s_out s @ map Out_Frame bs))"

lemma extends_refl: "s_out_open s' = s_out_open s \<Longrightarrow> s_sent s' = s_sent s \<Longrightarrow> s_end s' = s_end s \<Longrightarrow>
    s_out s' = s_out s \<Longrightarrow> extends s s'"
  by (auto simp: extends_def intro: exI [of _ "[]"])

lemma extends_trans: "extends s t \<Longrightarrow> extends t u \<Longrightarrow> extends s u"
  by (auto simp: extends_def) (metis map_append)

lemma extends_fold_push: "extends s (fold (\<lambda>b. push_out (Out_Frame b)) bs s)"
proof (induction bs arbitrary: s)
  case (Cons b bs)
  have "extends s (push_out (Out_Frame b) s)" by (auto simp: extends_def push_out_def intro: exI [of _ "[b]"])
  from extends_trans [OF this Cons.IH] show ?case by simp
qed (simp add: extends_refl)

lemma extends_apply_eff: "extends s (apply_eff a e s)"
proof -
  let ?s1 = "s\<lparr>s_heap := (s_heap s)[a := eff_chan e], s_woken := s_woken s @ eff_woken e\<rparr>"
  let ?s2 = "fold (\<lambda>b. push_out (Out_Frame b)) (eff_out e) ?s1"
  have "extends s ?s1" by (rule extends_refl) simp_all
  from extends_trans [OF this extends_fold_push] have 2: "extends s ?s2" .
  have "extends ?s2 (forget_channel a ?s2)" by (rule extends_refl) (simp_all add: forget_channel_def Let_def)
  from extends_trans [OF 2 this] 2 show ?thesis by (simp add: apply_eff_def Let_def)
qed

lemma extends_fold:
  "(\<And>x t. extends t (f x t)) \<Longrightarrow> extends s (fold f xs s)"
  by (induction xs arbitrary: s) (auto simp: extends_refl intro: extends_trans)

lemma extends_close_chan: "extends s (close_chan code reason a s)"
  by (auto simp: close_chan_def extends_refl extends_apply_eff split: sum.splits)

lemma begin_close_out:
  assumes "s_out_open s"
  obtains bs where "s_out (begin_close s) = s_out s @ map Out_Frame bs @ [Out_Close]"
    "s_out_open (begin_close s)" "s_sent (begin_close s) = s_sent s" "s_end (begin_close s) = s_end s"
proof -
  have "extends s (fold (\<lambda>p. close_chan close_GOING_AWAY ''going away'' (snd p)) (s_channels s) s)"
    by (rule extends_fold) (rule extends_close_chan)
  then show ?thesis using assms that by (auto simp: extends_def begin_close_def push_out_def)
qed

lemma finish_sent: "s_sent (finish en s) = s_sent s"
proof -
  have c: "s_sent (fail_chan e a t) = s_sent t" for e a t
    using extends_apply_eff by (simp add: fail_chan_def extends_def)
  have "s_sent (fold (\<lambda>p. fail_chan e (snd p)) ps t) = s_sent t" for e and ps :: "(u32 \<times> nat) list" and t
    by (induction ps arbitrary: t) (auto simp: c)
  moreover have "s_sent (snd (resolve tx r t)) = s_sent t" for tx r t by (simp add: resolve_def)
  moreover from this have "s_sent (fold (\<lambda>p s. snd (resolve (snd (snd p)) r (fail_chan e (fst (snd p)) s))) ps t) = s_sent t"
    for e r t and ps :: "(u32 \<times> nat \<times> nat) list" by (induction ps arbitrary: t) (auto simp: c)
  moreover have "s_sent (fold (pending_fail e) ps t) = s_sent t" for e ps t
    by (induction ps arbitrary: t) (auto simp: pending_fail_eq resolve_def)
  ultimately show ?thesis by (simp add: finish_def Let_def push_out_def)
qed

lemma write_flush:
  "s_out_open s \<Longrightarrow> s_end s = None \<Longrightarrow> s_out s = map Out_Frame bs @ [Out_Close] \<Longrightarrow>
     s_end ((write_step None ^^ Suc (length bs)) s) = Some End_Closed
     \<and> s_sent ((write_step None ^^ Suc (length bs)) s) = s_sent s @ bs"
proof (induction bs arbitrary: s)
  case Nil
  then show ?case by (simp add: write_step_def write_end_def finish_end finish_sent end_of_def)
next
  case (Cons b bs)
  define t where "t = s\<lparr>s_out := map Out_Frame bs @ [Out_Close], s_sent := s_sent s @ [b]\<rparr>"
  have "write_step None s = t" using Cons.prems by (simp add: write_step_def t_def)
  moreover have "s_end ((write_step None ^^ Suc (length bs)) t) = Some End_Closed
     \<and> s_sent ((write_step None ^^ Suc (length bs)) t) = s_sent t @ bs"
    using Cons.prems by (intro Cons.IH) (simp_all add: t_def)
  ultimately show ?case by (simp add: funpow_swap1 t_def del: funpow.simps(2)) (simp add: funpow_swap1)
qed

text \<open>
  A graceful close flushes. After \<^verbatim>\<open>begin_close\<close> on a live session, as many turns of the writer
  as there are entries in its queue, all without a transport error, hand every queued frame to the
  websocket in order, the \<^verbatim>\<open>CLOSE\<close> frames of the open channels included, and then end the session
  with \<open>End_Closed\<close>.
\<close>

theorem close_flushes:
  assumes "s_out_open s" and "s_end s = None" and "Out_Close \<notin> set (s_out s)"
  shows "let t = begin_close s; u = (write_step None ^^ length (s_out t)) t
    in s_end u = Some End_Closed \<and> s_sent u = s_sent s @ frames_of (s_out t)"
proof -
  obtain bs where b: "s_out (begin_close s) = s_out s @ map Out_Frame bs @ [Out_Close]"
    "s_out_open (begin_close s)" "s_sent (begin_close s) = s_sent s" "s_end (begin_close s) = s_end s"
    by (rule begin_close_out [OF assms(1)])
  have "\<exists>cs. s_out s = map Out_Frame cs" using assms(3)
  proof (induction "s_out s" arbitrary: s)
    case (Cons x xs)
    then obtain c where c: "x = Out_Frame c" by (cases x) (auto simp: Cons.hyps(2) [symmetric])
    have "\<exists>cs. xs = map Out_Frame cs"
      using Cons.hyps(1) [of "s\<lparr>s_out := xs\<rparr>"] Cons.prems by (simp add: Cons.hyps(2) [symmetric])
    then show ?case using c by (auto simp: Cons.hyps(2) [symmetric] intro: exI [of _ "c # _"])
  qed simp
  then obtain cs where "s_out s = map Out_Frame cs" by blast
  then have q: "s_out (begin_close s) = map Out_Frame (cs @ bs) @ [Out_Close]" using b by simp
  from write_flush [OF b(2) _ q] b(3,4) assms(2) show ?thesis
    unfolding Let_def q frames_of_map by (simp del: funpow.simps)
qed

theorem close_flushes_witness:
  "let t = begin_close asked; u = (write_step None ^^ length (s_out t)) t
    in s_end u = Some End_Closed \<and> s_sent u = s_sent asked @ frames_of (s_out t)"
  by (rule close_flushes)
     (simp_all add: asked_def sess_credential_status_def request_def require_def check_alive_def sess_start_def
        send_ctrl_def frame_ctrl_def quiet_codec_def send_frame_def to_bytes_eq validate_def frame_new_def
        check_channel_def MAX_PAYLOAD_LEN_def push_out_def Let_def)

section \<open>Opening a channel, both sides\<close>

lemma send_ctrl_ok:
  assumes "ctrl_ok ser de m" and "s_out_open s"
  obtains b f where "send_ctrl ser s m = (Inr (), s\<lparr>s_out := s_out s @ [Out_Frame b]\<rparr>)" "from_bytes b = Inr f"
    "\<And>t. handle_frame ser de t f = handle_ctrl ser t m"
  using assms(1)
proof (cases rule: ctrl_ok_wire)
  case (1 f w)
  then have "send_ctrl ser s m = (Inr (), s\<lparr>s_out := s_out s @ [Out_Frame w]\<rparr>)"
    using assms(2) by (simp add: send_ctrl_def send_frame_def push_out_def)
  moreover have "handle_frame ser de t f = handle_ctrl ser t m" for t using 1 by (simp add: handle_frame_def)
  ultimately show ?thesis using 1(3) that by blast
qed

lemma open_kind_client:
  assumes "s_role c = Role_Client" "s_end c = None" "s_out_open c" "alloc c = (Inr i, c0)"
    and "ctrl_ok ser de (C_Open (m\<lparr>om_channel := i\<rparr>))"
  obtains b f c1 where "open_kind ser c m = (Inr (length (s_heap c), s_next_tx c), c1)"
    "c1 = c\<lparr>s_next_id := i, s_heap := s_heap c @ [chan_new i], s_reserved := insert i (s_reserved c),
       s_pending_open := al_insert i (length (s_heap c), s_next_tx c) (s_pending_open c),
       s_next_tx := Suc (s_next_tx c), s_out := s_out c @ [Out_Frame b]\<rparr>"
    "from_bytes b = Inr f" "\<And>t. handle_frame ser de t f = handle_ctrl ser t (C_Open (m\<lparr>om_channel := i\<rparr>))"
proof -
  have c0: "c0 = c\<lparr>s_next_id := i\<rparr>" using alloc_from_ok [of 1024 c i c0] assms(4) by (simp add: alloc_def)
  define s2 where "s2 = c0\<lparr>s_heap := s_heap c0 @ [chan_new i], s_reserved := insert i (s_reserved c0),
       s_pending_open := al_insert i (length (s_heap c0), s_next_tx c0) (s_pending_open c0),
       s_next_tx := Suc (s_next_tx c0)\<rparr>"
  have "s_out_open s2" using assms(3) by (simp add: s2_def c0)
  from send_ctrl_ok [OF assms(5) this] obtain b f where
    b: "send_ctrl ser s2 (C_Open (m\<lparr>om_channel := i\<rparr>)) = (Inr (), s2\<lparr>s_out := s_out s2 @ [Out_Frame b]\<rparr>)"
      "from_bytes b = Inr f" "\<And>t. handle_frame ser de t f = handle_ctrl ser t (C_Open (m\<lparr>om_channel := i\<rparr>))"
    by blast
  have "open_kind ser c m = (Inr (length (s_heap c), s_next_tx c), s2\<lparr>s_out := s_out s2 @ [Out_Frame b]\<rparr>)"
    using assms(1,2,4) b(1) by (simp add: open_kind_def require_def check_alive_def Let_def s2_def c0)
  then show ?thesis using b(2,3) that [of "s2\<lparr>s_out := s_out s2 @ [Out_Frame b]\<rparr>" b f] by (simp add: s2_def c0)
qed

lemma server_open_accept:
  assumes "s_role v = Role_Server" "s_end v = None" "s_out_open v" "s_events_open v" "0 < s_handles v"
    and "om_kind om \<noteq> UnknownKind" "\<not> too_long MAX_REPO_LEN (om_repo om)" "\<not> too_long MAX_RESUME_LEN (om_resume om)"
    and "om_channel om \<noteq> 0" "\<not> in_use v (om_channel om)" "ctrl_ok ser de (C_Opened (om_channel om))"
  obtains b f v2 where "E_Open om \<in> set (s_events (handle_ctrl ser v (C_Open om)))"
    "request_accept ser (take_event (E_Open om) (handle_ctrl ser v (C_Open om))) om = (Inr (length (s_heap v)), v2)"
    "s_out v2 = s_out v @ [Out_Frame b]" "al_get (s_channels v2) (om_channel om) = Some (length (s_heap v))"
    "s_heap v2 = s_heap v @ [chan_new (om_channel om)]" "om_channel om \<notin> s_reserved v2"
    "from_bytes b = Inr f" "\<And>t. handle_frame ser de t f = handle_ctrl ser t (C_Opened (om_channel om))"
proof -
  define v1 where "v1 = v\<lparr>s_reserved := insert (om_channel om) (s_reserved v), s_handles := s_handles v + 1,
      s_events := s_events v @ [E_Open om]\<rparr>"
  have h: "handle_ctrl ser v (C_Open om) = v1"
    using assms by (simp add: handle_ctrl_def role_ctrl_def server_open_def emit_def v1_def)
  define w where "w = (take_event (E_Open om) v1)\<lparr>s_heap := s_heap v @ [chan_new (om_channel om)],
     s_reserved := insert (om_channel om) (s_reserved v) - {om_channel om},
     s_channels := al_insert (om_channel om) (length (s_heap v)) (s_channels v)\<rparr>"
  have "s_out_open w" using assms(3) by (simp add: w_def take_event_def v1_def)
  from send_ctrl_ok [OF assms(11) this] obtain b f where
    b: "send_ctrl ser w (C_Opened (om_channel om)) = (Inr (), w\<lparr>s_out := s_out w @ [Out_Frame b]\<rparr>)"
      "from_bytes b = Inr f" "\<And>t. handle_frame ser de t f = handle_ctrl ser t (C_Opened (om_channel om))"
    by blast
  have "s_handles w \<noteq> 1" using assms(5) by (simp add: w_def take_event_def v1_def)
  then have "request_accept ser (take_event (E_Open om) v1) om =
      (Inr (length (s_heap v)), w\<lparr>s_out := s_out w @ [Out_Frame b], s_handles := s_handles w - 1\<rparr>)"
    using assms(2) b(1)
    by (simp add: request_accept_def check_alive_def Let_def w_def take_event_def v1_def session_drop_def)
  then show ?thesis
    using b(2,3) that [of "w\<lparr>s_out := s_out w @ [Out_Frame b], s_handles := s_handles w - 1\<rparr>" b f] h
    by (simp add: w_def take_event_def v1_def)
qed

text \<open>
  Opening a channel end to end. A client's \<^verbatim>\<open>open\<close> for a fresh id, delivered to a live server that
  accepts it, and the server's answer delivered to the client, resolve the client's request
  with success and leave both sides with the channel open under the same id, in its initial
  state, and the id no longer reserved on either side.
\<close>

theorem open_lifecycle:
  assumes "session_init s0" and "(sess_step ser de)\<^sup>*\<^sup>* s0 c"
    and "s_role c = Role_Client" and "s_end c = None" and "s_out_open c" and "\<not> s_reader_done c"
    and "s_next_tx c \<notin> s_gone c" and "alloc c = (Inr i, c0)"
    and "s_role v = Role_Server" and "s_end v = None" and "s_out_open v" and "\<not> s_reader_done v"
    and "s_events_open v" and "0 < s_handles v" and "\<not> in_use v i"
    and "om_kind m \<noteq> UnknownKind" and "\<not> too_long MAX_REPO_LEN (om_repo m)" and "\<not> too_long MAX_RESUME_LEN (om_resume m)"
    and "ctrl_ok ser de (C_Open (m\<lparr>om_channel := i\<rparr>))" and "ctrl_ok ser de (C_Opened i)"
  shows "\<exists>arc tx c1 b v1 varc v2 b2 c2.
      open_kind ser c m = (Inr (arc, tx), c1) \<and> s_out c1 = s_out c @ [Out_Frame b]
    \<and> v1 = read_step ser de v (Some (Inr (WsBinary b)))
    \<and> request_accept ser (take_event (E_Open (m\<lparr>om_channel := i\<rparr>)) v1) (m\<lparr>om_channel := i\<rparr>) = (Inr varc, v2)
    \<and> s_out v2 = s_out v @ [Out_Frame b2]
    \<and> c2 = read_step ser de c1 (Some (Inr (WsBinary b2)))
    \<and> await_reply c2 tx = Some (Reply_Open (Inr ()))
    \<and> al_get (s_channels c2) i = Some arc \<and> s_heap c2 ! arc = chan_new i \<and> i \<notin> s_reserved c2
    \<and> al_get (s_channels v2) i = Some varc \<and> s_heap v2 ! varc = chan_new i \<and> i \<notin> s_reserved v2"
proof -
  let ?om = "m\<lparr>om_channel := i\<rparr>"
  have inv: "sess_inv c" by (rule session_machine.good_reachable [OF assms(1,2)])
  have nz: "i \<noteq> 0" using alloc_from_ok [of 1024 c i c0] assms(8) by (simp add: alloc_def)
  obtain b f c1 where o: "open_kind ser c m = (Inr (length (s_heap c), s_next_tx c), c1)"
    and c1: "c1 = c\<lparr>s_next_id := i, s_heap := s_heap c @ [chan_new i], s_reserved := insert i (s_reserved c),
       s_pending_open := al_insert i (length (s_heap c), s_next_tx c) (s_pending_open c),
       s_next_tx := Suc (s_next_tx c), s_out := s_out c @ [Out_Frame b]\<rparr>"
    and bf: "from_bytes b = Inr f" "\<And>t. handle_frame ser de t f = handle_ctrl ser t (C_Open ?om)"
    using open_kind_client [OF assms(3,4,5,8,19)] by metis
  obtain b2 f2 v2 where a: "E_Open ?om \<in> set (s_events (handle_ctrl ser v (C_Open ?om)))"
    "request_accept ser (take_event (E_Open ?om) (handle_ctrl ser v (C_Open ?om))) ?om = (Inr (length (s_heap v)), v2)"
    "s_out v2 = s_out v @ [Out_Frame b2]" "al_get (s_channels v2) i = Some (length (s_heap v))"
    "s_heap v2 = s_heap v @ [chan_new i]" "i \<notin> s_reserved v2"
    "from_bytes b2 = Inr f2" "\<And>t. handle_frame ser de t f2 = handle_ctrl ser t (C_Opened i)"
    using server_open_accept [OF assms(9,10,11,13,14), of ?om ser de, simplified, OF assms(16,17,18) nz assms(15,20)]
    by metis
  have v1: "read_step ser de v (Some (Inr (WsBinary b))) = handle_ctrl ser v (C_Open ?om)"
    using assms(12) bf by (simp add: read_step_def)
  have c2: "read_step ser de c1 (Some (Inr (WsBinary b2))) = client_opened ser c1 i"
    using assms(3,6) a(7,8) by (simp add: read_step_def c1 handle_ctrl_def role_ctrl_def)
  have "s_next_tx c \<notin> fst ` set (s_replies c)" using inv by (auto simp: sess_inv_def tx_inv_def)
  then have r: "map_of (s_replies c) (s_next_tx c) = None" by (simp add: map_of_eq_None_iff)
  have fin: "await_reply (client_opened ser c1 i) (s_next_tx c) = Some (Reply_Open (Inr ()))"
    "al_get (s_channels (client_opened ser c1 i)) i = Some (length (s_heap c))"
    "s_heap (client_opened ser c1 i) ! length (s_heap c) = chan_new i" "i \<notin> s_reserved (client_opened ser c1 i)"
    using assms(7) r
    by (simp_all add: client_opened_def c1 resolve_def Let_def await_reply_def al_get_def [of "_ @ _"] map_add_def)
  have out: "s_out c1 = s_out c @ [Out_Frame b]" by (simp add: c1)
  have heap: "s_heap v2 ! length (s_heap v) = chan_new i" by (simp add: a(5))
  show ?thesis
    by (intro exI conjI; (rule o out refl a(2) [folded v1] a(3) fin [folded c2] a(4,6) heap))
qed

definition open_codec :: "ctrl \<Rightarrow> string + bytes" where
  "open_codec m = (case m of C_Open _ \<Rightarrow> Inr [1] | C_Opened _ \<Rightarrow> Inr [2] | _ \<Rightarrow> Inl ''other'')"

definition open_parse :: "bytes \<Rightarrow> string + ctrl" where
  "open_parse b = (if b = [1] then Inr (C_Open ((open_args Pty 80 24 None None None None None)\<lparr>om_channel := 1\<rparr>))
     else Inr (C_Opened 1))"

theorem open_lifecycle_witness:
  "\<exists>arc tx c1. open_kind open_codec (sess_start Role_Client 1 [] None []) (open_args Pty 80 24 None None None None None)
     = (Inr (arc, tx), c1)"
proof -
  let ?c = "sess_start Role_Client 1 [] None []" and ?v = "sess_start Role_Server 1 [] (Some Ui) []"
  have i: "session_init ?c" unfolding session_init_def by blast
  have "alloc ?c = (Inr 1, ?c\<lparr>s_next_id := 1\<rparr>)"
    by (simp add: alloc_def numeral_eq_Suc Let_def in_use_def sess_start_def next_chan_id_def)
  from open_lifecycle [where ser = open_codec and de = open_parse and v = ?v and m = "open_args Pty 80 24 None None None None None",
      OF i rtranclp.rtrancl_refl _ _ _ _ _ this]
  show ?thesis
    by (auto simp: sess_start_def in_use_def open_args_def too_long_def ctrl_ok_def open_codec_def open_parse_def
        MAX_PAYLOAD_LEN_def)
qed

end
