(* ===== verification/Std_Text.thy ===== *)
theory Std_Text
  imports Prelude
begin

text \<open>
  The parts of the Rust standard library and of \<^verbatim>\<open>indexmap\<close> that the workflow crate uses: maps that
  keep insertion order, splitting, joining, searching and trimming of strings, and the reading of
  characters as ASCII classes. A string is its list of UTF-8 bytes, so an ASCII separator is found
  byte by byte and a slice is \<open>take\<close> and \<open>drop\<close>.
\<close>

section \<open>Maps in insertion order\<close>

text \<open>
  \<^verbatim>\<open>IndexMap\<close> and \<^verbatim>\<open>serde_json::Map\<close> (built with \<^verbatim>\<open>preserve_order\<close>): the entries in insertion order;
  inserting an existing key replaces its value in place. Lookup is \<open>map_of\<close>.
\<close>

type_synonym 'v imap = "(string \<times> 'v) list"

definition im_contains :: "'v imap \<Rightarrow> string \<Rightarrow> bool" where
  "im_contains m k \<longleftrightarrow> map_of m k \<noteq> None"

fun im_insert :: "string \<Rightarrow> 'v \<Rightarrow> 'v imap \<Rightarrow> 'v imap" where
  "im_insert k v [] = [(k, v)]"
| "im_insert k v ((k', v') # m) = (if k' = k then (k, v) # m else (k', v') # im_insert k v m)"

text \<open>\<^verbatim>\<open>map.extend(entries)\<close>: one insert after the other.\<close>

definition im_extend :: "'v imap \<Rightarrow> 'v imap \<Rightarrow> 'v imap" where
  "im_extend es m = fold (\<lambda>(k, v). im_insert k v) es m"

lemma im_contains_iff: "im_contains m k \<longleftrightarrow> k \<in> set (map fst m)"
  by (simp add: im_contains_def map_of_eq_None_iff)

lemma map_of_im_insert [simp]: "map_of (im_insert k v m) = (map_of m)(k \<mapsto> v)"
  by (induction k v m rule: im_insert.induct) (auto simp: fun_eq_iff)

lemma keys_im_insert: "set (map fst (im_insert k v m)) = insert k (set (map fst m))"
  by (induction k v m rule: im_insert.induct) auto

lemma im_insert_distinct: "distinct (map fst m) \<Longrightarrow> distinct (map fst (im_insert k v m))"
proof (induction k v m rule: im_insert.induct)
  case (2 k v k' v' m)
  then show ?case using keys_im_insert [of k v m] by auto
qed simp

section \<open>Strings\<close>

definition ends_with :: "string \<Rightarrow> string \<Rightarrow> bool" where
  "ends_with s p = starts_with (rev s) (rev p)"

fun split_on :: "char \<Rightarrow> string \<Rightarrow> string list" where
  "split_on c [] = [[]]"
| "split_on c (x # xs) =
     (if x = c then [] # split_on c xs
      else case split_on c xs of p # ps \<Rightarrow> (x # p) # ps | [] \<Rightarrow> [[x]])"

fun split_once :: "char \<Rightarrow> string \<Rightarrow> (string \<times> string) option" where
  "split_once c [] = None"
| "split_once c (x # xs) =
     (if x = c then Some ([], xs) else map_option (\<lambda>(a, b). (x # a, b)) (split_once c xs))"

fun join :: "string \<Rightarrow> string list \<Rightarrow> string" where
  "join sep [] = []"
| "join sep [x] = x"
| "join sep (x # y # ys) = x @ sep @ join sep (y # ys)"

text \<open>\<^verbatim>\<open>haystack.find(needle)\<close>: the position of the first occurrence.\<close>

fun str_find :: "string \<Rightarrow> string \<Rightarrow> nat option" where
  "str_find [] n = (if n = [] then Some 0 else None)"
| "str_find (c # cs) n = (if starts_with (c # cs) n then Some 0 else map_option Suc (str_find cs n))"

text \<open>
  \<^verbatim>\<open>trim\<close>: the white space of Unicode, as UTF-8 sequences. Removing one from the front (of the
  reversed string with reversed sequences: from the back) until none is there.
\<close>

definition white_space :: "string list" where
  "white_space =
    [[CHR 0x09], [CHR 0x0A], [CHR 0x0B], [CHR 0x0C], [CHR 0x0D], [CHR 0x20],
     [CHR 0xC2, CHR 0x85], [CHR 0xC2, CHR 0xA0], [CHR 0xE1, CHR 0x9A, CHR 0x80],
     [CHR 0xE2, CHR 0x80, CHR 0x80], [CHR 0xE2, CHR 0x80, CHR 0x81], [CHR 0xE2, CHR 0x80, CHR 0x82],
     [CHR 0xE2, CHR 0x80, CHR 0x83], [CHR 0xE2, CHR 0x80, CHR 0x84], [CHR 0xE2, CHR 0x80, CHR 0x85],
     [CHR 0xE2, CHR 0x80, CHR 0x86], [CHR 0xE2, CHR 0x80, CHR 0x87], [CHR 0xE2, CHR 0x80, CHR 0x88],
     [CHR 0xE2, CHR 0x80, CHR 0x89], [CHR 0xE2, CHR 0x80, CHR 0x8A], [CHR 0xE2, CHR 0x80, CHR 0xA8],
     [CHR 0xE2, CHR 0x80, CHR 0xA9], [CHR 0xE2, CHR 0x80, CHR 0xAF], [CHR 0xE2, CHR 0x81, CHR 0x9F],
     [CHR 0xE3, CHR 0x80, CHR 0x80]]"

function strip :: "string list \<Rightarrow> string \<Rightarrow> string" where
  "strip ws s =
     (case find (\<lambda>w. w \<noteq> [] \<and> starts_with s w) ws of
        None \<Rightarrow> s
      | Some w \<Rightarrow> strip ws (drop (length w) s))"
  by pat_completeness auto
termination
  by (relation "measure (\<lambda>(ws, s). length s)") (auto simp: find_Some_iff starts_with_iff)

declare strip.simps [simp del]

definition trim_start :: "string \<Rightarrow> string" where
  "trim_start = strip white_space"

definition trim_end :: "string \<Rightarrow> string" where
  "trim_end s = rev (strip (map rev white_space) (rev s))"

definition trim :: "string \<Rightarrow> string" where
  "trim s = trim_end (trim_start s)"

definition is_ascii_lowercase :: "char \<Rightarrow> bool" where
  "is_ascii_lowercase c \<longleftrightarrow> 97 \<le> (of_char c :: nat) \<and> (of_char c :: nat) \<le> 122"

definition is_ascii_uppercase :: "char \<Rightarrow> bool" where
  "is_ascii_uppercase c \<longleftrightarrow> 65 \<le> (of_char c :: nat) \<and> (of_char c :: nat) \<le> 90"

definition is_ascii_digit :: "char \<Rightarrow> bool" where
  "is_ascii_digit c \<longleftrightarrow> 48 \<le> (of_char c :: nat) \<and> (of_char c :: nat) \<le> 57"

definition is_ascii_alphanumeric :: "char \<Rightarrow> bool" where
  "is_ascii_alphanumeric c \<longleftrightarrow> is_ascii_lowercase c \<or> is_ascii_uppercase c \<or> is_ascii_digit c"

definition to_ascii_lowercase :: "string \<Rightarrow> string" where
  "to_ascii_lowercase = map (\<lambda>c. if is_ascii_uppercase c then char_of ((of_char c :: nat) + 32) else c)"

lemma split_on_not_Nil [simp]: "split_on c s \<noteq> []"
  by (induction s) (auto split: list.splits)

lemma ends_with_iff: "ends_with s p \<longleftrightarrow> (\<exists>r. s = r @ p)"
proof
  assume "ends_with s p"
  then obtain r where "rev s = rev p @ r" by (auto simp: ends_with_def starts_with_iff)
  then have "s = rev r @ p" by (metis rev_append rev_rev_ident)
  then show "\<exists>r. s = r @ p" by blast
next
  assume "\<exists>r. s = r @ p"
  then show "ends_with s p" by (auto simp: ends_with_def starts_with_iff)
qed

lemma str_find_SomeD:
  "str_find s n = Some i \<Longrightarrow> (\<exists>b. s = take i s @ n @ b) \<and> i + length n \<le> length s"
proof (induction s arbitrary: i)
  case Nil
  then show ?case by (auto split: if_splits)
next
  case (Cons c cs)
  show ?case
  proof (cases "starts_with (c # cs) n")
    case True
    then obtain r where r: "c # cs = n @ r" by (auto simp: starts_with_iff)
    moreover have "length n \<le> length (c # cs)" using r by (metis length_append le_add1)
    moreover have "i = 0" using Cons.prems True by simp
    ultimately show ?thesis by auto
  next
    case False
    with Cons.prems obtain j where "str_find cs n = Some j" "i = Suc j" by auto
    then show ?thesis using Cons.IH [of j] by auto
  qed
qed

text \<open>The first occurrence is at or before every occurrence.\<close>

lemma str_find_first: "\<exists>i. str_find (a @ n @ b) n = Some i \<and> i \<le> length a"
proof (induction a)
  case Nil
  have "starts_with (n @ b) n" by (auto simp: starts_with_iff)
  then show ?case by (cases "n @ b") auto
next
  case (Cons c a)
  then show ?case by auto
qed

text \<open>\<^verbatim>\<open>s.chars().take(n).collect()\<close> on the bytes of a string.\<close>

function take_chars :: "nat \<Rightarrow> string \<Rightarrow> string" where
  "take_chars n s =
     (case s of
        [] \<Rightarrow> []
      | c # cs \<Rightarrow>
          if n = 0 then []
          else let cont = (\<lambda>b. utf8_cont (byte_of_char b))
               in c # takeWhile cont cs @ take_chars (n - 1) (dropWhile cont cs))"
  by pat_completeness auto
termination
  by (relation "measure (\<lambda>(n, s). length s)") (auto simp: less_Suc_eq_le length_dropWhile_le)

declare take_chars.simps [simp del]

definition strip_suffix :: "string \<Rightarrow> string \<Rightarrow> string option" where
  "strip_suffix s p = (if ends_with s p then Some (take (length s - length p) s) else None)"

definition strip_prefix :: "string \<Rightarrow> string \<Rightarrow> string option" where
  "strip_prefix s p = (if starts_with s p then Some (drop (length p) s) else None)"

text \<open>\<^verbatim>\<open>s.trim_end_matches(p)\<close> with a string: the suffix is removed as often as it is there.\<close>

function trim_end_matches :: "string \<Rightarrow> string \<Rightarrow> string" where
  "trim_end_matches p s =
     (if p \<noteq> [] \<and> ends_with s p then trim_end_matches p (take (length s - length p) s) else s)"
  by pat_completeness auto
termination
  by (relation "measure (\<lambda>(p, s). length s)") (auto simp: ends_with_iff)

declare trim_end_matches.simps [simp del]

text \<open>\<^verbatim>\<open>s.split([a, b])\<close> with a set of characters.\<close>

fun split_any :: "char list \<Rightarrow> string \<Rightarrow> string list" where
  "split_any cs [] = [[]]"
| "split_any cs (x # xs) =
     (if x \<in> set cs then [] # split_any cs xs
      else case split_any cs xs of p # ps \<Rightarrow> (x # p) # ps | [] \<Rightarrow> [[x]])"

text \<open>\<^verbatim>\<open>s.lines()\<close>: no line after a final line feed; a carriage return is dropped before a line feed only.\<close>

definition drop_cr :: "string \<Rightarrow> string" where
  "drop_cr l = (if l \<noteq> [] \<and> last l = CHR 0x0D then butlast l else l)"

definition text_lines :: "string \<Rightarrow> string list" where
  "text_lines s =
     (let ps = split_on (CHR 0x0A) s
      in map drop_cr (butlast ps) @ (if last ps = [] then [] else [last ps]))"

text \<open>\<^verbatim>\<open>s.split_whitespace()\<close>.\<close>

definition at_space :: "string \<Rightarrow> bool" where
  "at_space s \<longleftrightarrow> find (\<lambda>w. w \<noteq> [] \<and> starts_with s w) white_space \<noteq> None"

fun take_word :: "string \<Rightarrow> string \<times> string" where
  "take_word [] = ([], [])"
| "take_word (c # cs) = (if at_space (c # cs) then ([], c # cs) else (case take_word cs of (w, r) \<Rightarrow> (c # w, r)))"

lemma take_word_length: "length (snd (take_word s)) \<le> length s"
  by (induction s) (auto split: prod.splits)

lemma strip_length: "length (strip ws s) \<le> length s"
proof (induction ws s rule: strip.induct)
  case (1 ws s)
  then show ?case by (subst strip.simps) (auto split: option.split intro: le_trans)
qed

lemma strip_no_space: "strip white_space s = c # cs \<Longrightarrow> \<not> at_space (c # cs)"
proof (induction white_space s rule: strip.induct)
  case (1 s)
  show ?case
  proof (cases "find (\<lambda>w. w \<noteq> [] \<and> starts_with s w) white_space")
    case None
    then show ?thesis using 1(2) by (simp add: strip.simps [of _ s] at_space_def)
  next
    case (Some w)
    then show ?thesis using 1 by (simp add: strip.simps [of _ s])
  qed
qed

function split_whitespace :: "string \<Rightarrow> string list" where
  "split_whitespace s =
     (case strip white_space s of
        [] \<Rightarrow> []
      | c # cs \<Rightarrow> fst (take_word (c # cs)) # split_whitespace (snd (take_word (c # cs))))"
  by pat_completeness auto
termination
proof (relation "measure length")
  fix s c cs
  assume e: "strip white_space s = c # cs"
  then have "snd (take_word (c # cs)) = snd (take_word cs)" using strip_no_space by (auto split: prod.splits)
  then show "(snd (take_word (c # cs)), s) \<in> measure length"
    using take_word_length [of cs] strip_length [of white_space s] e by simp
qed simp

declare split_whitespace.simps [simp del]

end
