(* ===== verification/Workflow.thy ===== *)
theory Workflow
  imports Std_Text Json
begin

text \<open>
  The \<^verbatim>\<open>.ez/workflows.toml\<close> format: \<^verbatim>\<open>ez/crates/ez-workflow/src/schema.rs\<close>. Libraries the crate calls
  are gathered in the record \<open>libs\<close>, an argument of every definition that uses one: the TOML
  reader and writer, \<^verbatim>\<open>humantime\<close> and (for the template engine) \<^verbatim>\<open>minijinja\<close> and \<^verbatim>\<open>regex\<close>. A
  \<^verbatim>\<open>Duration\<close> is its number of nanoseconds.
\<close>

section \<open>Limits\<close>

definition VERSION :: u32 where "VERSION = 1"
definition MAX_FILE_BYTES :: nat where "MAX_FILE_BYTES = 256 * 1024"
definition MAX_WORKFLOWS :: nat where "MAX_WORKFLOWS = 100"
definition MAX_NODES :: nat where "MAX_NODES = 200"
definition MAX_ID_LEN :: nat where "MAX_ID_LEN = 64"
definition DEFAULT_MAX_VISITS :: u32 where "DEFAULT_MAX_VISITS = 5"
definition DEFAULT_MAX_RUNS :: u32 where "DEFAULT_MAX_RUNS = 3"
definition MAX_MAX_RUNS :: u32 where "MAX_MAX_RUNS = 50"

definition from_secs :: "nat \<Rightarrow> nat" where
  "from_secs n = n * 1000000000"

definition as_secs :: "nat \<Rightarrow> u64" where
  "as_secs d = word_of_nat (d div 1000000000)"

definition DEFAULT_RUN_TIMEOUT :: nat where "DEFAULT_RUN_TIMEOUT = from_secs (14 * 24 * 3600)"
definition MAX_TIMEOUT :: nat where "MAX_TIMEOUT = from_secs (90 * 24 * 3600)"

section \<open>The graph\<close>

record edge =
  ed_condition :: "string option"
  ed_to :: string

datatype next_spec = Next_Node string | Next_Edges "edge list"

definition edges :: "next_spec \<Rightarrow> edge list" where
  "edges n = (case n of
     Next_Node to \<Rightarrow> [\<lparr>ed_condition = None, ed_to = to\<rparr>]
   | Next_Edges es \<Rightarrow> es)"

datatype action_kind = Comment | OpenPullRequest | AddLabels | RemoveLabels

fun action_as_str :: "action_kind \<Rightarrow> string" where
  "action_as_str Comment = ''comment''"
| "action_as_str OpenPullRequest = ''open_pull_request''"
| "action_as_str AddLabels = ''add_labels''"
| "action_as_str RemoveLabels = ''remove_labels''"

datatype end_status = ES_Done | ES_Failed | ES_Cancelled

fun end_as_str :: "end_status \<Rightarrow> string" where
  "end_as_str ES_Done = ''done''"
| "end_as_str ES_Failed = ''failed''"
| "end_as_str ES_Cancelled = ''cancelled''"

record agent_node =
  ag_mode :: string
  ag_instruction :: string
  ag_result :: "json imap option"
  ag_push :: bool
  ag_next :: next_spec
  ag_max_visits :: "u32 option"

record command_node =
  cm_task :: "string option"
  cm_args :: "string list"
  cm_run :: "string option"
  cm_next :: next_spec
  cm_max_visits :: "u32 option"

record action_node =
  ac_action :: action_kind
  ac_title :: "string option"
  ac_body :: "string option"
  ac_labels :: "string list"
  ac_draft :: "bool option"
  ac_next :: next_spec
  ac_max_visits :: "u32 option"

record wait_node =
  wt_on :: "string list"
  wt_condition :: "string option"
  wt_timeout :: "string option"
  wt_next :: next_spec
  wt_max_visits :: "u32 option"

record end_node =
  en_status :: end_status
  en_reason :: "string option"

datatype node =
    N_Agent agent_node
  | N_Command command_node
  | N_Action action_node
  | N_Wait wait_node
  | N_End end_node

datatype node_type = T_Agent | T_Command | T_Action | T_Wait | T_End

fun nt_as_str :: "node_type \<Rightarrow> string" where
  "nt_as_str T_Agent = ''agent''"
| "nt_as_str T_Command = ''command''"
| "nt_as_str T_Action = ''action''"
| "nt_as_str T_Wait = ''wait''"
| "nt_as_str T_End = ''end''"

fun nt_outputs :: "node_type \<Rightarrow> string list" where
  "nt_outputs T_Agent = [''result'', ''git'', ''exit'', ''error'']"
| "nt_outputs T_Command = [''exit_code'', ''output'', ''json'']"
| "nt_outputs T_Action = [''number'', ''url'']"
| "nt_outputs T_Wait = [''event'', ''timed_out'']"
| "nt_outputs T_End = []"

definition in_sandbox :: "node_type \<Rightarrow> bool" where
  "in_sandbox t \<longleftrightarrow> t = T_Agent \<or> t = T_Command"

fun node_type_of :: "node \<Rightarrow> node_type" where
  "node_type_of (N_Agent n) = T_Agent"
| "node_type_of (N_Command n) = T_Command"
| "node_type_of (N_Action n) = T_Action"
| "node_type_of (N_Wait n) = T_Wait"
| "node_type_of (N_End n) = T_End"

fun node_next :: "node \<Rightarrow> next_spec option" where
  "node_next (N_Agent n) = Some (ag_next n)"
| "node_next (N_Command n) = Some (cm_next n)"
| "node_next (N_Action n) = Some (ac_next n)"
| "node_next (N_Wait n) = Some (wt_next n)"
| "node_next (N_End n) = None"

fun node_max_visits :: "node \<Rightarrow> u32 option" where
  "node_max_visits (N_Agent n) = ag_max_visits n"
| "node_max_visits (N_Command n) = cm_max_visits n"
| "node_max_visits (N_Action n) = ac_max_visits n"
| "node_max_visits (N_Wait n) = wt_max_visits n"
| "node_max_visits (N_End n) = None"

definition max_visits :: "node \<Rightarrow> u32" where
  "max_visits n =
     (let v = (case n of
        N_Agent a \<Rightarrow> ag_max_visits a
      | N_Command c \<Rightarrow> cm_max_visits c
      | N_Action a \<Rightarrow> ac_max_visits a
      | N_Wait w \<Rightarrow> wt_max_visits w
      | N_End e \<Rightarrow> None)
      in case v of Some m \<Rightarrow> m | None \<Rightarrow> DEFAULT_MAX_VISITS)"

text \<open>The schema of \<^verbatim>\<open>submit_result\<close>: every declared property is required, no other allowed.\<close>

definition result_schema :: "agent_node \<Rightarrow> json option" where
  "result_schema a = map_option (\<lambda>props.
     JObj [(''type'', JStr ''object''),
           (''properties'', JObj (fold (\<lambda>(k, v). im_insert k v) props [])),
           (''required'', JArr (map (\<lambda>(k, v). JStr k) props)),
           (''additionalProperties'', JBool False)]) (ag_result a)"

section \<open>Workflows and files\<close>

record workflow =
  wf_description :: string
  wf_on :: "string list"
  wf_condition :: "string option"
  wf_start :: string
  wf_timeout :: "string option"
  wf_max_runs :: "u32 option"
  wf_vars :: "json imap"
  wf_nodes :: "node imap"

record workflows_file =
  fl_version :: u32
  fl_workflows :: "workflow imap"

text \<open>
  What the crate calls outside itself. A compiled template or expression offers its evaluation in a
  context and the variables it reads; a MiniJinja value is seen through the four questions the
  crate asks of it. \<open>mj_settings\<close> is what \<^verbatim>\<open>Engine::new\<close> puts into the environment.
\<close>

datatype mj_kind = UndefinedError | InvalidOperation | OtherKind nat

record mj_error =
  me_kind :: mj_kind
  me_detail :: "string option"
  me_line :: "nat option"

record mj_value =
  mv_safe :: bool
  mv_undefined :: bool
  mv_true :: bool
  mv_str :: "string option"
  mv_display :: string

record mj_template =
  mt_render :: "json \<Rightarrow> mj_error + string"
  mt_undeclared :: "string list"

record mj_expr =
  mx_eval :: "json \<Rightarrow> mj_error + mj_value"
  mx_undeclared :: "string list"

record mj_env =
  mj_template :: "string \<Rightarrow> string \<Rightarrow> mj_error + mj_template"
  mj_compile :: "string \<Rightarrow> mj_error + mj_expr"

datatype auto_escape = Escape_None | Escape_Custom string

record mj_settings =
  set_strict_undefined :: bool
  set_fuel :: "nat option"
  set_recursion_limit :: nat
  set_filter :: "string \<Rightarrow> (string \<Rightarrow> string \<Rightarrow> mj_error + bool) option"
  set_auto_escape :: "string \<Rightarrow> auto_escape"
  set_formatter :: "auto_escape \<Rightarrow> mj_value \<Rightarrow> mj_error + string"

datatype toml = Toml_Str string | Toml_Arr "toml list" | Toml_Table "(string \<times> toml) list" | Toml_Other nat

record libs =
  lib_env :: "mj_settings \<Rightarrow> mj_env"
  lib_kind :: "mj_kind \<Rightarrow> string"
  lib_escape :: "auto_escape \<Rightarrow> mj_value \<Rightarrow> mj_error + string"
  lib_regex :: "nat \<Rightarrow> string \<Rightarrow> string + (string \<Rightarrow> bool)"
  lib_duration :: "string \<Rightarrow> string + nat"
  lib_format_duration :: "nat \<Rightarrow> string"
  lib_from_toml :: "string \<Rightarrow> string + workflows_file"
  lib_to_toml :: "workflows_file \<Rightarrow> string + string"
  lib_toml_table :: "string \<Rightarrow> string + (string \<times> toml) list"

definition parse_duration :: "libs \<Rightarrow> string \<Rightarrow> string + nat" where
  "parse_duration L s =
     (case lib_duration L (trim s) of
        Inr d \<Rightarrow> Inr d
      | Inl e \<Rightarrow> Inl (''invalid duration `'' @ s @ ''`: '' @ e))"

definition run_timeout :: "libs \<Rightarrow> workflow \<Rightarrow> nat" where
  "run_timeout L w =
     (case wf_timeout w of
        Some t \<Rightarrow> (case parse_duration L t of Inr d \<Rightarrow> d | Inl _ \<Rightarrow> DEFAULT_RUN_TIMEOUT)
      | None \<Rightarrow> DEFAULT_RUN_TIMEOUT)"

definition max_runs :: "workflow \<Rightarrow> u32" where
  "max_runs w = (case wf_max_runs w of Some m \<Rightarrow> m | None \<Rightarrow> DEFAULT_MAX_RUNS)"

definition wait_timeout :: "libs \<Rightarrow> wait_node \<Rightarrow> nat option" where
  "wait_timeout L w =
     (case wt_timeout w of
        Some t \<Rightarrow> (case parse_duration L t of Inr d \<Rightarrow> Some d | Inl _ \<Rightarrow> None)
      | None \<Rightarrow> None)"

definition parse :: "libs \<Rightarrow> string \<Rightarrow> string + workflows_file" where
  "parse L text =
     (if length text > MAX_FILE_BYTES
      then Inl (''workflows.toml is '' @ show_nat (length text) @ '' bytes; the limit is ''
                @ show_nat MAX_FILE_BYTES)
      else case lib_from_toml L text of Inr f \<Rightarrow> Inr f | Inl e \<Rightarrow> Inl (trim_end e))"

definition to_toml :: "libs \<Rightarrow> workflows_file \<Rightarrow> string + string" where
  "to_toml L file = lib_to_toml L file"

text \<open>What the type \<^verbatim>\<open>IndexMap\<close> guarantees of a file: the keys of each map are distinct.\<close>

definition file_maps :: "workflows_file \<Rightarrow> bool" where
  "file_maps file \<longleftrightarrow> distinct (map fst (fl_workflows file))
     \<and> list_all (\<lambda>(id, w). distinct (map fst (wf_nodes w)) \<and> distinct (map fst (wf_vars w))) (fl_workflows file)"

lemma max_visits_eq: "max_visits n = (case node_max_visits n of Some m \<Rightarrow> m | None \<Rightarrow> DEFAULT_MAX_VISITS)"
  by (cases n) (simp_all add: max_visits_def)

lemma node_next_None: "node_next n = None \<longleftrightarrow> (\<exists>e. n = N_End e)"
  by (cases n) auto

end
