(* ===== verification/Wf_Expr.thy ===== *)
theory Wf_Expr
  imports Workflow "HOL-Library.List_Lexorder" "HOL-Library.Char_ord"
begin

text \<open>
  Templates and conditions: \<^verbatim>\<open>ez/crates/ez-workflow/src/expr.rs\<close>. \<open>engine_settings\<close> is the
  environment \<^verbatim>\<open>Engine::new\<close> builds, callbacks included; \<open>render\<close>, \<open>eval_bool\<close>,
  \<open>template_vars\<close> and \<open>expr_vars\<close> are the methods of the engine over the environment the
  template library makes of these settings. The second half models how a POSIX shell reads quotes and
  shows what the quoting of \<open>command.run\<close> templates guarantees.
\<close>

section \<open>The engine\<close>

definition FUEL :: nat where "FUEL = 100000"
definition MAX_RENDERED_BYTES :: nat where "MAX_RENDERED_BYTES = 256 * 1024"

definition NODE_ROOTS :: "string list" where
  "NODE_ROOTS = [''event'', ''subject'', ''nodes'', ''run'', ''vars'']"

definition TRIGGER_ROOTS :: "string list" where
  "TRIGGER_ROOTS = [''event'', ''subject'']"

definition GLOBALS :: "string list" where
  "GLOBALS = [''range'', ''dict'', ''namespace'', ''debug'']"

definition SHELL :: string where "SHELL = ''shell''"
definition SHELL_SUFFIX :: string where "SHELL_SUFFIX = ''.sh''"

datatype template_kind = TK_Text | TK_Shell

fun kind_name :: "template_kind \<Rightarrow> string" where
  "kind_name TK_Text = ''template''"
| "kind_name TK_Shell = ''run.sh''"

text \<open>POSIX single-quoting.\<close>

definition squote :: char where "squote = CHR 0x27"
definition backslash :: char where "backslash = CHR 0x5C"

definition shell_quote :: "string \<Rightarrow> string" where
  "shell_quote s =
     [squote] @ concat (map (\<lambda>c. if c = squote then [squote, backslash, squote, squote] else [c]) s) @ [squote]"

definition auto_escape_callback :: "string \<Rightarrow> auto_escape" where
  "auto_escape_callback name = (if ends_with name SHELL_SUFFIX then Escape_Custom SHELL else Escape_None)"

definition formatter :: "libs \<Rightarrow> auto_escape \<Rightarrow> mj_value \<Rightarrow> mj_error + string" where
  "formatter L ae v =
     (if ae = Escape_Custom SHELL \<and> \<not> mv_safe v then
        if mv_undefined v
        then Inl \<lparr>me_kind = UndefinedError, me_detail = Some ''undefined value'', me_line = None\<rparr>
        else Inr (shell_quote (case mv_str v of Some s \<Rightarrow> s | None \<Rightarrow> mv_display v))
      else lib_escape L ae v)"

definition regex_match :: "libs \<Rightarrow> string \<Rightarrow> string \<Rightarrow> mj_error + bool" where
  "regex_match L text pat =
     (case lib_regex L (256 * 1024) pat of
        Inl e \<Rightarrow> Inl \<lparr>me_kind = InvalidOperation,
                       me_detail = Some (''regex_match: invalid pattern: '' @ e), me_line = None\<rparr>
      | Inr is_match \<Rightarrow> Inr (is_match text))"

definition engine_settings :: "libs \<Rightarrow> mj_settings" where
  "engine_settings L =
     \<lparr>set_strict_undefined = True,
      set_fuel = Some FUEL,
      set_recursion_limit = 64,
      set_filter = (\<lambda>name. if name = ''regex_match'' then Some (regex_match L) else None),
      set_auto_escape = auto_escape_callback,
      set_formatter = formatter L\<rparr>"

definition engine_new :: "libs \<Rightarrow> mj_env" where
  "engine_new L = lib_env L (engine_settings L)"

definition describe :: "libs \<Rightarrow> mj_error \<Rightarrow> string" where
  "describe L e =
     (let s = (case me_detail e of
          Some d \<Rightarrow> lib_kind L (me_kind e) @ '': '' @ d
        | None \<Rightarrow> lib_kind L (me_kind e))
      in case me_line e of
           Some line \<Rightarrow> s @ '' (line '' @ show_nat line @ '')''
         | None \<Rightarrow> s)"

definition render :: "libs \<Rightarrow> template_kind \<Rightarrow> string \<Rightarrow> json \<Rightarrow> string + string" where
  "render L kind src ctx =
     (case mj_template (engine_new L) (kind_name kind) src of
        Inl e \<Rightarrow> Inl (describe L e)
      | Inr tmpl \<Rightarrow>
          (case mt_render tmpl ctx of
             Inl e \<Rightarrow> Inl (describe L e)
           | Inr out \<Rightarrow>
               if length out > MAX_RENDERED_BYTES
               then Inl (''rendered text is '' @ show_nat (length out) @ '' bytes; the limit is ''
                         @ show_nat MAX_RENDERED_BYTES)
               else Inr out))"

definition eval_bool :: "libs \<Rightarrow> string \<Rightarrow> json \<Rightarrow> string + bool" where
  "eval_bool L src ctx =
     (case mj_compile (engine_new L) src of
        Inl e \<Rightarrow> Inl (describe L e)
      | Inr expr \<Rightarrow>
          (case mx_eval expr ctx of
             Inl e \<Rightarrow> Inl (describe L e)
           | Inr v \<Rightarrow> if mv_undefined v then Inl (''`'' @ src @ ''` is undefined'') else Inr (mv_true v)))"

definition root_of :: "string \<Rightarrow> string" where
  "root_of path = hd (split_on (CHR ''.'') path)"

text \<open>The result is a \<^verbatim>\<open>BTreeSet\<close>: the list of its elements in order.\<close>

definition filter_globals :: "string list \<Rightarrow> string list" where
  "filter_globals vars = sort (remdups (filter (\<lambda>v. root_of v \<notin> set GLOBALS) vars))"

definition template_vars :: "libs \<Rightarrow> template_kind \<Rightarrow> string \<Rightarrow> string + string list" where
  "template_vars L kind src =
     (case mj_template (engine_new L) (kind_name kind) src of
        Inl e \<Rightarrow> Inl (describe L e)
      | Inr tmpl \<Rightarrow> Inr (filter_globals (mt_undeclared tmpl)))"

definition expr_vars :: "libs \<Rightarrow> string \<Rightarrow> string + string list" where
  "expr_vars L src =
     (if trim src = [] then Inl ''empty expression''
      else case mj_compile (engine_new L) src of
        Inl e \<Rightarrow> Inl (describe L e)
      | Inr expr \<Rightarrow> Inr (filter_globals (mx_undeclared expr)))"

text \<open>
  A concrete instance of the libraries, for examples: templates are plain text, the expressions are
  \<^verbatim>\<open>true\<close> and \<^verbatim>\<open>false\<close>, the duration \<^verbatim>\<open>1d\<close>.
\<close>

definition plain_value :: "bool \<Rightarrow> mj_value" where
  "plain_value b = \<lparr>mv_safe = False, mv_undefined = False, mv_true = b, mv_str = None,
     mv_display = (if b then ''true'' else ''false'')\<rparr>"

definition plain_error :: mj_error where
  "plain_error = \<lparr>me_kind = OtherKind 0, me_detail = Some ''unknown'', me_line = None\<rparr>"

definition plain_env :: "mj_settings \<Rightarrow> mj_env" where
  "plain_env st =
     \<lparr>mj_template = (\<lambda>name src. Inr \<lparr>mt_render = (\<lambda>ctx. Inr src), mt_undeclared = []\<rparr>),
      mj_compile = (\<lambda>src. if src = ''true'' \<or> src = ''false''
        then Inr \<lparr>mx_eval = (\<lambda>ctx. Inr (plain_value (src = ''true''))), mx_undeclared = []\<rparr>
        else Inl plain_error)\<rparr>"

definition plain_libs :: libs where
  "plain_libs = \<lparr>lib_env = plain_env, lib_kind = (\<lambda>k. ''error''),
     lib_escape = (\<lambda>ae v. Inr (mv_display v)), lib_regex = (\<lambda>limit pat. Inr (\<lambda>t. str_contains t pat)),
     lib_duration = (\<lambda>s. if s = ''1d'' then Inr (from_secs 86400) else Inl ''bad''),
     lib_format_duration = show_nat, lib_from_toml = (\<lambda>s. Inl ''bad''), lib_to_toml = (\<lambda>f. Inl ''bad''),
     lib_toml_table = (\<lambda>s. Inl ''bad'')\<rparr>"

section \<open>Reading by a shell\<close>

text \<open>
  The quoting rules of the POSIX shell language (section 2.2): outside quotes a backslash makes the next
  character literal (and joins lines), single quotes make everything literal, double quotes
  everything but the dollar sign, the backquote and a backslash before one of four characters. A
  character read as \<open>Lit\<close> has no special meaning; one read as \<open>Active\<close> may split words, start an
  operator, an expansion or a command substitution. \<open>Quoted\<close> marks where a quotation
  opened, so that an empty quotation is still a word.
\<close>

datatype sh_char = Lit char | Active char | Quoted

datatype sh_state = Unquoted | Escaped | In_Single | In_Double | Double_Escaped

definition dquote :: char where "dquote = CHR 0x22"
definition newline :: char where "newline = CHR 0x0A"

fun sh_step :: "sh_state \<Rightarrow> char \<Rightarrow> sh_char list \<times> sh_state" where
  "sh_step Unquoted c =
     (if c = squote then ([Quoted], In_Single)
      else if c = dquote then ([Quoted], In_Double)
      else if c = backslash then ([], Escaped)
      else ([Active c], Unquoted))"
| "sh_step Escaped c = (if c = newline then [] else [Lit c], Unquoted)"
| "sh_step In_Single c = (if c = squote then ([], Unquoted) else ([Lit c], In_Single))"
| "sh_step In_Double c =
     (if c = dquote then ([], Unquoted)
      else if c = backslash then ([], Double_Escaped)
      else if c = CHR ''$'' \<or> c = CHR 0x60 then ([Active c], In_Double)
      else ([Lit c], In_Double))"
| "sh_step Double_Escaped c =
     (if c = newline then []
      else if c = CHR ''$'' \<or> c = CHR 0x60 \<or> c = dquote \<or> c = backslash then [Lit c]
      else [Lit backslash, Lit c], In_Double)"

fun sh_read :: "sh_state \<Rightarrow> string \<Rightarrow> sh_char list \<times> sh_state" where
  "sh_read q [] = ([], q)"
| "sh_read q (c # cs) =
     (let (t, q') = sh_step q c; (ts, q'') = sh_read q' cs in (t @ ts, q''))"

lemma sh_read_append:
  "sh_read q (a @ b) = (fst (sh_read q a) @ fst (sh_read (snd (sh_read q a)) b), snd (sh_read (snd (sh_read q a)) b))"
  by (induction a arbitrary: q) (simp_all add: Let_def split_beta)

lemma quote_chars [simp]: "squote \<noteq> backslash" "squote \<noteq> newline" "dquote \<noteq> squote" "backslash \<noteq> dquote"
  by (simp_all add: squote_def backslash_def newline_def dquote_def)

text \<open>The reading of a quoted string: one quotation per quote in it.\<close>

definition quoted :: "string \<Rightarrow> sh_char list" where
  "quoted s = Quoted # concat (map (\<lambda>c. if c = squote then [Lit c, Quoted] else [Lit c]) s)"

lemma sh_read_body:
  "sh_read In_Single (concat (map (\<lambda>c. if c = squote then [squote, backslash, squote, squote] else [c]) s) @ [squote])
   = (tl (quoted s), Unquoted)"
  by (induction s) (auto simp: quoted_def quote_chars(1) [symmetric])

lemma sh_read_quote: "sh_read Unquoted (shell_quote s) = (quoted s, Unquoted)"
  using sh_read_body [of s] by (simp add: shell_quote_def quoted_def)

lemma quoted_literal: "filter (\<lambda>t. t \<noteq> Quoted) (quoted s) = map Lit s"
  by (induction s) (auto simp: quoted_def)



end
