(* ===== verification/Wf_Event.thy ===== *)
theory Wf_Event
  imports Wf_Expr
begin

text \<open>
  Events, \<^verbatim>\<open>on\<close> patterns, subjects and triggers: \<^verbatim>\<open>ez/crates/ez-workflow/src/event.rs\<close>. The readers of
  JSON values (\<^verbatim>\<open>Value::get\<close>, \<^verbatim>\<open>pointer\<close>, \<^verbatim>\<open>as_u64\<close>, \<^verbatim>\<open>as_str\<close>) are those of
  \<^verbatim>\<open>serde_json\<close>.
\<close>

section \<open>Reading JSON\<close>

fun json_get :: "json \<Rightarrow> string \<Rightarrow> json option" where
  "json_get (JObj m) k = map_of m k"
| "json_get _ k = None"

fun json_as_str :: "json \<Rightarrow> string option" where
  "json_as_str (JStr s) = Some s"
| "json_as_str _ = None"

fun json_as_u64 :: "json \<Rightarrow> u64 option" where
  "json_as_u64 (JNum (PosInt n)) = Some n"
| "json_as_u64 _ = None"

fun json_is_object :: "json \<Rightarrow> bool" where
  "json_is_object (JObj m) = True"
| "json_is_object _ = False"

definition str_or_default :: "json option \<Rightarrow> string" where
  "str_or_default v = (case Option.bind v json_as_str of Some s \<Rightarrow> s | None \<Rightarrow> [])"

section \<open>Events\<close>

definition KNOWN_EVENTS :: "string list" where
  "KNOWN_EVENTS =
    [''branch_protection_rule'', ''check_run'', ''check_suite'', ''code_scanning_alert'',
     ''commit_comment'', ''create'', ''delete'', ''dependabot_alert'', ''deployment'',
     ''deployment_status'', ''discussion'', ''discussion_comment'', ''fork'', ''gollum'',
     ''installation'', ''installation_repositories'', ''issue_comment'', ''issues'',
     ''label'', ''manual'', ''member'', ''merge_group'', ''meta'', ''milestone'',
     ''package'', ''ping'', ''public'', ''pull_request'', ''pull_request_review'',
     ''pull_request_review_comment'', ''pull_request_review_thread'', ''push'',
     ''registry_package'', ''release'', ''repository'', ''repository_dispatch'',
     ''secret_scanning_alert'', ''security_advisory'', ''star'', ''status'', ''sub_issues'',
     ''watch'', ''workflow_dispatch'', ''workflow_job'', ''workflow_run'']"

record wf_event =
  we_name :: string
  we_action :: "string option"
  we_payload :: json

definition event_new :: "string \<Rightarrow> string option \<Rightarrow> json \<Rightarrow> wf_event" where
  "event_new name action payload = \<lparr>we_name = name, we_action = action, we_payload = payload\<rparr>"

definition event_context :: "wf_event \<Rightarrow> json" where
  "event_context e =
     (let v = (case we_payload e of JObj m \<Rightarrow> m | other \<Rightarrow> [(''payload'', other)])
      in JObj (im_insert ''action'' (case we_action e of Some a \<Rightarrow> JStr a | None \<Rightarrow> JNull)
                (im_insert ''name'' (JStr (we_name e)) v)))"

definition event_matches :: "wf_event \<Rightarrow> string \<Rightarrow> bool" where
  "event_matches e pat =
     (case split_once (CHR ''.'') pat of
        None \<Rightarrow> pat = we_name e
      | Some (name, action) \<Rightarrow> name = we_name e \<and> we_action e = Some action)"

datatype subject_kind = SK_Issue | SK_PullRequest

record subject =
  sj_kind :: subject_kind
  sj_number :: u64
  sj_author :: string
  sj_url :: string

definition event_subject :: "wf_event \<Rightarrow> subject option" where
  "event_subject e =
     (let p = we_payload e;
          found =
            (if we_name e \<in> {''issues'', ''issue_comment'', ''manual''} then
               (case json_get p ''issue'' of
                  None \<Rightarrow> None
                | Some issue \<Rightarrow>
                    Some (issue, case json_get issue ''pull_request'' of
                                   Some v \<Rightarrow> if v \<noteq> JNull then SK_PullRequest else SK_Issue
                                 | None \<Rightarrow> SK_Issue))
             else if we_name e \<in> {''pull_request'', ''pull_request_review'', ''pull_request_review_comment'',
                                   ''pull_request_review_thread''} then
               map_option (\<lambda>v. (v, SK_PullRequest)) (json_get p ''pull_request'')
             else None)
      in case found of
           None \<Rightarrow> None
         | Some (obj, kind) \<Rightarrow>
             (case Option.bind (json_get obj ''number'') json_as_u64 of
                None \<Rightarrow> None
              | Some n \<Rightarrow> Some
                  \<lparr>sj_kind = kind, sj_number = n,
                   sj_author = str_or_default (Option.bind (json_get obj ''user'') (\<lambda>u. json_get u ''login'')),
                   sj_url = str_or_default (json_get obj ''html_url'')\<rparr>))"

definition subject_key :: "subject \<Rightarrow> string \<Rightarrow> string" where
  "subject_key s repo = to_ascii_lowercase repo @ ''#'' @ show_nat (unat (sj_number s))"

text \<open>The JSON of an optional subject (derived).\<close>

definition subject_json :: "subject option \<Rightarrow> json" where
  "subject_json so =
     (case so of
        None \<Rightarrow> JNull
      | Some s \<Rightarrow> JObj
          [(''kind'', JStr (case sj_kind s of SK_Issue \<Rightarrow> ''issue'' | SK_PullRequest \<Rightarrow> ''pull_request'')),
           (''number'', JNum (PosInt (sj_number s))),
           (''author'', JStr (sj_author s)),
           (''url'', JStr (sj_url s))])"

definition pattern_part :: "string \<Rightarrow> bool" where
  "pattern_part s \<longleftrightarrow> s \<noteq> [] \<and> length s \<le> 64 \<and> list_all (\<lambda>b. is_ascii_lowercase b \<or> b = CHR ''_'') s"

definition valid_pattern :: "string \<Rightarrow> bool" where
  "valid_pattern pat =
     (case split_once (CHR ''.'') pat of
        None \<Rightarrow> pattern_part pat
      | Some (n, a) \<Rightarrow> pattern_part n \<and> pattern_part a)"

definition event_label :: "wf_event \<Rightarrow> string" where
  "event_label e = (case we_action e of Some a \<Rightarrow> we_name e @ ''.'' @ a | None \<Rightarrow> we_name e)"

section \<open>Triggers\<close>

record trigger_eval =
  te_workflow :: string
  te_matched :: bool
  te_on :: "string option"
  te_reason :: string

definition trigger_context :: "wf_event \<Rightarrow> json" where
  "trigger_context e = JObj [(''event'', event_context e), (''subject'', subject_json (event_subject e))]"

definition evaluate_trigger :: "libs \<Rightarrow> wf_event \<Rightarrow> string \<times> workflow \<Rightarrow> trigger_eval" where
  "evaluate_trigger L e = (\<lambda>(id, w).
     (case find (event_matches e) (wf_on w) of
        None \<Rightarrow> \<lparr>te_workflow = id, te_matched = False, te_on = None,
                  te_reason = ''`'' @ event_label e @ ''` is not in on = ['' @ join '', '' (wf_on w) @ '']''\<rparr>
      | Some on \<Rightarrow>
          (let (matched, reason) =
             (case wf_condition w of
                None \<Rightarrow> (True, ''on `'' @ on @ ''`'')
              | Some cond \<Rightarrow>
                  (case eval_bool L cond (trigger_context e) of
                     Inr True \<Rightarrow> (True, ''on `'' @ on @ ''`, if `'' @ cond @ ''` is true'')
                   | Inr False \<Rightarrow> (False, ''if `'' @ cond @ ''` is false'')
                   | Inl err \<Rightarrow> (False, ''if `'' @ cond @ ''` failed: '' @ err)))
           in \<lparr>te_workflow = id, te_matched = matched, te_on = Some on, te_reason = reason\<rparr>)))"

definition evaluate_triggers :: "libs \<Rightarrow> workflows_file \<Rightarrow> wf_event \<Rightarrow> trigger_eval list" where
  "evaluate_triggers L file e = map (evaluate_trigger L e) (fl_workflows file)"

section \<open>What triggers a workflow\<close>

lemma split_once_None: "split_once c s = None \<longleftrightarrow> c \<notin> set s"
  by (induction s) auto

lemma split_once_Some: "split_once c s = Some (a, b) \<longleftrightarrow> s = a @ c # b \<and> c \<notin> set a"
proof (induction s arbitrary: a)
  case (Cons x xs)
  then show ?case by (cases a) auto
qed simp

lemma event_matches_iff:
  assumes "CHR ''.'' \<notin> set (we_name e)"
  shows "event_matches e p \<longleftrightarrow> p = we_name e \<or> (\<exists>a. we_action e = Some a \<and> p = we_name e @ CHR ''.'' # a)"
proof (cases "split_once (CHR ''.'') p")
  case None
  moreover from None have "CHR ''.'' \<notin> set p" by (simp add: split_once_None)
  ultimately show ?thesis by (auto simp: event_matches_def)
next
  case (Some nb)
  then obtain n b where p: "p = n @ CHR ''.'' # b" "CHR ''.'' \<notin> set n" "nb = (n, b)"
    by (cases nb) (auto simp: split_once_Some)
  have "event_matches e p \<longleftrightarrow> n = we_name e \<and> we_action e = Some b" using Some p by (simp add: event_matches_def)
  moreover have "p \<noteq> we_name e" using assms p(1) in_set_conv_decomp by metis
  moreover have "p = we_name e @ CHR ''.'' # a \<longleftrightarrow> n = we_name e \<and> b = a" for a
    using split_once_Some [of "CHR ''.''" p "we_name e" a] Some p(3) assms by auto
  ultimately show ?thesis by auto
qed

text \<open>
  Which workflows an event starts. There is one verdict per workflow, in file order; a
  workflow matches exactly when its \<^verbatim>\<open>on\<close> list has the event's name or its name and action, and
  its condition, if it has one, evaluates to true (a condition that fails does not match).
\<close>

theorem triggers_decide:
  assumes "CHR ''.'' \<notin> set (we_name e)" and "i < length (fl_workflows file)"
  shows "length (evaluate_triggers L file e) = length (fl_workflows file)
    \<and> te_workflow (evaluate_triggers L file e ! i) = fst (fl_workflows file ! i)
    \<and> (te_matched (evaluate_triggers L file e ! i) \<longleftrightarrow>
        (we_name e \<in> set (wf_on (snd (fl_workflows file ! i)))
         \<or> we_action e \<noteq> None \<and> event_label e \<in> set (wf_on (snd (fl_workflows file ! i))))
        \<and> (wf_condition (snd (fl_workflows file ! i)) = None
           \<or> eval_bool L (the (wf_condition (snd (fl_workflows file ! i)))) (trigger_context e) = Inr True))"
proof -
  obtain id w where w: "fl_workflows file ! i = (id, w)" by fastforce
  have "(\<exists>p \<in> set (wf_on w). event_matches e p) \<longleftrightarrow>
      we_name e \<in> set (wf_on w) \<or> we_action e \<noteq> None \<and> event_label e \<in> set (wf_on w)"
    by (auto simp: event_matches_iff [OF assms(1)] event_label_def)
  moreover have "(\<exists>p \<in> set (wf_on w). event_matches e p) \<longleftrightarrow> find (event_matches e) (wf_on w) \<noteq> None"
    by (auto simp: find_None_iff)
  ultimately show ?thesis using assms(2) w
    by (auto simp: evaluate_triggers_def evaluate_trigger_def split: option.splits sum.splits bool.splits)
qed

definition example_event :: wf_event where
  "example_event = event_new ''issues'' (Some ''opened'') (JObj [(''issue'', JObj [(''number'', JNum (PosInt 7))])])"

definition example_end :: workflow where
  "example_end = \<lparr>wf_description = [], wf_on = [''issues.opened''], wf_condition = Some ''true'', wf_start = ''stop'',
     wf_timeout = Some ''1d'', wf_max_runs = None, wf_vars = [],
     wf_nodes = [(''stop'', N_End \<lparr>en_status = ES_Done, en_reason = None\<rparr>)]\<rparr>"

theorem triggers_decide_witness:
  "te_matched (evaluate_triggers plain_libs \<lparr>fl_version = 1, fl_workflows = [(''w'', example_end)]\<rparr> example_event ! 0)"
proof -
  have "eval_bool plain_libs ''true'' (trigger_context example_event) = Inr True"
    by (simp add: eval_bool_def engine_new_def plain_libs_def plain_env_def plain_value_def)
  with triggers_decide [of example_event 0 "\<lparr>fl_version = 1, fl_workflows = [(''w'', example_end)]\<rparr>" plain_libs]
  show ?thesis by (simp add: example_event_def example_end_def event_new_def event_label_def)
qed

end
