(* ===== verification/Wf_Run.thy ===== *)
theory Wf_Run
  imports Wf_Event Machine_Interface
begin

text \<open>
  A run and how it moves through the graph: \<^verbatim>\<open>ez/crates/ez-workflow/src/run.rs\<close>. A method that takes
  \<^verbatim>\<open>&mut self\<close> returns the new state beside its result. The visit counters are 32-bit words and
  wrap, as a release build does; the theorems that count visits say where this matters. \<open>run_step\<close>
  is the relation of everything a caller may do to a run.
\<close>

section \<open>State\<close>

record run_info =
  ri_id :: string
  ri_attempt :: u32
  ri_test :: bool

datatype run_status = RS_At string | RS_Ended end_status "string option" "string option"

record run_state =
  rs_workflow :: string
  rs_run :: run_info
  rs_event :: json
  rs_subject :: "subject option"
  rs_nodes :: "json imap"
  rs_vars :: "json imap"
  rs_visits :: "string \<rightharpoonup> u32"
  rs_previous :: "string option"
  rs_status :: run_status

datatype transition = Moved string string nat | Ended end_status "string option"

datatype run_error =
    UnknownWorkflow string
  | UnknownNode string
  | NotRunning
  | WrongNodeType string node_type

fun run_error_display :: "run_error \<Rightarrow> string" where
  "run_error_display (UnknownWorkflow w) = ''there is no workflow `'' @ w @ ''`''"
| "run_error_display (UnknownNode n) = ''there is no node `'' @ n @ ''`''"
| "run_error_display NotRunning = ''the run has ended''"
| "run_error_display (WrongNodeType n t) = ''node `'' @ n @ ''` is a '' @ nt_as_str t @ '' node''"

datatype rendered =
    R_Agent string string "json option" bool
  | R_Command "string option" "string list" "string option"
  | R_Action action_kind "string option" "string option" "string list" bool
  | R_Wait "string list" "string option" "u64 option"
  | R_End end_status string

definition wait_outputs :: "wf_event option \<Rightarrow> json" where
  "wait_outputs ev =
     (case ev of
        Some e \<Rightarrow> JObj [(''event'', event_context e), (''timed_out'', JBool False)]
      | None \<Rightarrow> JObj [(''event'', JNull), (''timed_out'', JBool True)])"

definition current :: "run_state \<Rightarrow> string option" where
  "current s = (case rs_status s of RS_At n \<Rightarrow> Some n | RS_Ended _ _ _ \<Rightarrow> None)"

definition is_ended :: "run_state \<Rightarrow> bool" where
  "is_ended s = (case rs_status s of RS_At n \<Rightarrow> False | RS_Ended _ _ _ \<Rightarrow> True)"

definition run_info_json :: "run_info \<Rightarrow> json" where
  "run_info_json r = JObj [(''id'', JStr (ri_id r)), (''attempt'', JNum (PosInt (ucast (ri_attempt r)))),
     (''test'', JBool (ri_test r))]"

definition run_context :: "run_state \<Rightarrow> json imap" where
  "run_context s =
     [(''event'', rs_event s),
      (''subject'', subject_json (rs_subject s)),
      (''nodes'', JObj (rs_nodes s)),
      (''run'', run_info_json (rs_run s)),
      (''vars'', JObj (rs_vars s))]"

section \<open>Ending and entering\<close>

definition run_end :: "end_status \<Rightarrow> string option \<Rightarrow> string option \<Rightarrow> run_state \<Rightarrow> transition \<times> run_state" where
  "run_end status node reason s = (Ended status reason, s\<lparr>rs_status := RS_Ended status node reason\<rparr>)"

definition run_fail :: "string \<Rightarrow> run_state \<Rightarrow> run_state" where
  "run_fail reason s = (if is_ended s then s else snd (run_end ES_Failed None (Some reason) s))"

definition run_cancel :: "string \<Rightarrow> run_state \<Rightarrow> run_state" where
  "run_cancel reason s = (if is_ended s then s else snd (run_end ES_Cancelled None (Some reason) s))"

definition enter :: "workflow \<Rightarrow> string \<Rightarrow> run_state \<Rightarrow> run_state" where
  "enter w nid s =
     (case map_of (wf_nodes w) nid of
        None \<Rightarrow> snd (run_end ES_Failed None (Some (''there is no node `'' @ nid @ ''`'')) s)
      | Some node \<Rightarrow>
          (let visits = (case rs_visits s nid of Some v \<Rightarrow> v | None \<Rightarrow> 0) + 1;
               s1 = s\<lparr>rs_visits := (rs_visits s)(nid \<mapsto> visits)\<rparr>
           in if visits > max_visits node then
                snd (run_end ES_Failed None (Some (''node `'' @ nid @ ''` reached max_visits (''
                       @ show_nat (unat (max_visits node)) @ '')'')) s1)
              else s1\<lparr>rs_status := (case node of
                        N_End e \<Rightarrow> RS_Ended (en_status e) (Some nid) None
                      | _ \<Rightarrow> RS_At nid)\<rparr>))"

definition run_start :: "workflows_file \<Rightarrow> string \<Rightarrow> wf_event \<Rightarrow> run_info \<Rightarrow> run_error + run_state" where
  "run_start file workflow ev run =
     (case map_of (fl_workflows file) workflow of
        None \<Rightarrow> Inl (UnknownWorkflow workflow)
      | Some w \<Rightarrow>
          if \<not> im_contains (wf_nodes w) (wf_start w) then Inl (UnknownNode (wf_start w))
          else Inr (enter w (wf_start w)
            \<lparr>rs_workflow = workflow, rs_run = run, rs_event = event_context ev, rs_subject = event_subject ev,
             rs_nodes = [], rs_vars = im_extend (wf_vars w) [], rs_visits = Map.empty, rs_previous = None,
             rs_status = RS_At (wf_start w)\<rparr>))"

definition run_workflow :: "workflows_file \<Rightarrow> run_state \<Rightarrow> run_error + workflow" where
  "run_workflow file s =
     (case map_of (fl_workflows file) (rs_workflow s) of
        Some w \<Rightarrow> Inr w
      | None \<Rightarrow> Inl (UnknownWorkflow (rs_workflow s)))"

definition current_node :: "workflows_file \<Rightarrow> run_state \<Rightarrow> run_error + workflow \<times> string \<times> node" where
  "current_node file s =
     (case run_workflow file s of
        Inl e \<Rightarrow> Inl e
      | Inr w \<Rightarrow>
          (case current s of
             None \<Rightarrow> Inl NotRunning
           | Some nid \<Rightarrow>
               (case map_of (wf_nodes w) nid of
                  None \<Rightarrow> Inl (UnknownNode nid)
                | Some node \<Rightarrow> Inr (w, nid, node))))"

section \<open>Rendering\<close>

fun collect :: "('e + 'a) list \<Rightarrow> 'e + 'a list" where
  "collect [] = Inr []"
| "collect (x # xs) =
     (case x of Inl e \<Rightarrow> Inl e | Inr v \<Rightarrow> (case collect xs of Inl e \<Rightarrow> Inl e | Inr vs \<Rightarrow> Inr (v # vs)))"

definition render_field :: "libs \<Rightarrow> template_kind \<Rightarrow> json \<Rightarrow> string \<Rightarrow> string \<Rightarrow> string \<Rightarrow> string + string" where
  "render_field L kind ctx nid field src =
     (case render L kind src ctx of
        Inr t \<Rightarrow> Inr t
      | Inl e \<Rightarrow> Inl (''node `'' @ nid @ ''` '' @ field @ '': '' @ e))"

definition render_opt :: "libs \<Rightarrow> template_kind \<Rightarrow> json \<Rightarrow> string \<Rightarrow> string \<Rightarrow> string option \<Rightarrow> string + string option" where
  "render_opt L kind ctx nid field src =
     (case src of
        None \<Rightarrow> Inr None
      | Some s \<Rightarrow> (case render_field L kind ctx nid field s of Inl e \<Rightarrow> Inl e | Inr t \<Rightarrow> Inr (Some t)))"

definition render_list :: "libs \<Rightarrow> json \<Rightarrow> string \<Rightarrow> string \<Rightarrow> string list \<Rightarrow> string + string list" where
  "render_list L ctx nid field srcs =
     collect (map (\<lambda>(i, s). render_field L TK_Text ctx nid (field @ ''['' @ show_nat i @ '']'') s) (enumerate 0 srcs))"

definition end_reason :: "libs \<Rightarrow> run_state \<Rightarrow> string \<Rightarrow> end_node \<Rightarrow> string + string" where
  "end_reason L s nid e =
     (case (case en_reason e of
              Some src \<Rightarrow> render_field L TK_Text (JObj (run_context s)) nid ''reason'' src
            | None \<Rightarrow> Inr []) of
        Inl m \<Rightarrow> Inl m
      | Inr text \<Rightarrow>
          (let custom = trim text
           in Inr (if custom \<noteq> [] then custom
                   else if en_status e = ES_Done then []
                   else case rs_previous s of
                     Some p \<Rightarrow> ''ended at `'' @ nid @ ''` ('' @ end_as_str (en_status e) @ '') after `'' @ p @ ''`''
                   | None \<Rightarrow> ''ended at `'' @ nid @ ''` ('' @ end_as_str (en_status e) @ '')'')))"

definition render_node :: "libs \<Rightarrow> run_state \<Rightarrow> string \<Rightarrow> node \<Rightarrow> string + rendered" where
  "render_node L s nid node =
     (let ctx = JObj (run_context s)
      in case node of
        N_Agent a \<Rightarrow>
          (case render_field L TK_Text ctx nid ''instruction'' (ag_instruction a) of
             Inl e \<Rightarrow> Inl e
           | Inr instruction \<Rightarrow>
               Inr (R_Agent (ag_mode a) instruction (result_schema a) (ag_push a \<and> \<not> ri_test (rs_run s))))
      | N_Command c \<Rightarrow>
          (case render_list L ctx nid ''args'' (cm_args c) of
             Inl e \<Rightarrow> Inl e
           | Inr args \<Rightarrow>
               (case render_opt L TK_Shell ctx nid ''run'' (cm_run c) of
                  Inl e \<Rightarrow> Inl e
                | Inr script \<Rightarrow> Inr (R_Command (cm_task c) args script)))
      | N_Action a \<Rightarrow>
          (case render_opt L TK_Text ctx nid ''title'' (ac_title a) of
             Inl e \<Rightarrow> Inl e
           | Inr title \<Rightarrow>
               (case render_opt L TK_Text ctx nid ''body'' (ac_body a) of
                  Inl e \<Rightarrow> Inl e
                | Inr body \<Rightarrow>
                    (case render_list L ctx nid ''labels'' (ac_labels a) of
                       Inl e \<Rightarrow> Inl e
                     | Inr labels \<Rightarrow>
                         Inr (R_Action (ac_action a) title body labels
                           (case ac_draft a of Some d \<Rightarrow> d | None \<Rightarrow> False)))))
      | N_Wait n \<Rightarrow> Inr (R_Wait (wt_on n) (wt_condition n) (map_option as_secs (wait_timeout L n)))
      | N_End e \<Rightarrow>
          (case end_reason L s nid e of
             Inl m \<Rightarrow> Inl m
           | Inr reason \<Rightarrow> Inr (R_End (en_status e) reason)))"

definition run_render :: "libs \<Rightarrow> workflows_file \<Rightarrow> run_state \<Rightarrow> run_error + (string + rendered)" where
  "run_render L file s =
     (case current_node file s of
        Inl e \<Rightarrow> Inl e
      | Inr (_, nid, node) \<Rightarrow> Inr (render_node L s nid node))"

section \<open>Waiting and advancing\<close>

definition wait_accepts :: "libs \<Rightarrow> workflows_file \<Rightarrow> run_state \<Rightarrow> wf_event \<Rightarrow> run_error + (string + bool)" where
  "wait_accepts L file s ev =
     (case current_node file s of
        Inl e \<Rightarrow> Inl e
      | Inr (_, nid, node) \<Rightarrow>
          (case node of
             N_Wait n \<Rightarrow>
               if \<not> list_ex (event_matches ev) (wt_on n) then Inr (Inr False)
               else (case wt_condition n of
                  None \<Rightarrow> Inr (Inr True)
                | Some cond \<Rightarrow>
                    (case eval_bool L cond (JObj (im_insert ''event'' (event_context ev) (run_context s))) of
                       Inr b \<Rightarrow> Inr (Inr b)
                     | Inl e \<Rightarrow> Inr (Inl (''node `'' @ nid @ ''` if: '' @ e))))
           | _ \<Rightarrow> Inl (WrongNodeType nid (node_type_of node))))"

text \<open>The reason a run records when it has just entered an \<^verbatim>\<open>end\<close> node.\<close>

definition end_at :: "libs \<Rightarrow> workflow \<Rightarrow> string \<Rightarrow> run_state \<Rightarrow> run_state" where
  "end_at L w to s =
     (case (rs_status s, map_of (wf_nodes w) to) of
        (RS_Ended _ (Some n) _, Some (N_End e)) \<Rightarrow>
          (let (reason, ok) = (case end_reason L s n e of Inr r \<Rightarrow> (r, True) | Inl m \<Rightarrow> (m, False))
           in s\<lparr>rs_status := RS_Ended (if ok then en_status e else ES_Failed) (Some n)
                    (if reason \<noteq> [] then Some reason else None)\<rparr>)
      | _ \<Rightarrow> s)"

definition take_edge :: "libs \<Rightarrow> workflow \<Rightarrow> string \<Rightarrow> nat \<Rightarrow> string \<Rightarrow> run_state \<Rightarrow> transition \<times> run_state" where
  "take_edge L w nid i to s =
     (if \<not> im_contains (wf_nodes w) to then
        run_end ES_Failed None
          (Some (''node `'' @ nid @ ''` next['' @ show_nat i @ '']: there is no node `'' @ to @ ''`'')) s
      else
        let s1 = end_at L w to (enter w to (s\<lparr>rs_previous := Some nid\<rparr>))
        in case rs_status s1 of
             RS_Ended status None reason \<Rightarrow> (Ended status reason, s1)
           | _ \<Rightarrow> (Moved nid to i, s1))"

fun follow_edges :: "libs \<Rightarrow> workflow \<Rightarrow> string \<Rightarrow> json \<Rightarrow> nat \<Rightarrow> edge list \<Rightarrow> run_state \<Rightarrow> transition \<times> run_state" where
  "follow_edges L w nid ctx i [] s = run_end ES_Failed None (Some (''node `'' @ nid @ ''`: no edge matched'')) s"
| "follow_edges L w nid ctx i (e # es) s =
     (case ed_condition e of
        None \<Rightarrow> take_edge L w nid i (ed_to e) s
      | Some cond \<Rightarrow>
          (case eval_bool L cond ctx of
             Inl err \<Rightarrow> run_end ES_Failed None
               (Some (''node `'' @ nid @ ''` next['' @ show_nat i @ ''] if `'' @ cond @ ''`: '' @ err)) s
           | Inr True \<Rightarrow> take_edge L w nid i (ed_to e) s
           | Inr False \<Rightarrow> follow_edges L w nid ctx (i + 1) es s))"

definition record_outputs :: "string \<Rightarrow> node \<Rightarrow> json \<Rightarrow> run_state \<Rightarrow> run_state" where
  "record_outputs nid node outputs s =
     (let s1 = (case node of
          N_Wait _ \<Rightarrow>
            (case json_get outputs ''event'' of
               Some ev \<Rightarrow> if json_is_object ev then s\<lparr>rs_event := ev\<rparr> else s
             | None \<Rightarrow> s)
        | _ \<Rightarrow> s)
      in s1\<lparr>rs_nodes := im_insert nid outputs (rs_nodes s1)\<rparr>)"

definition edge_context :: "json \<Rightarrow> run_state \<Rightarrow> json" where
  "edge_context outputs s =
     JObj (case outputs of JObj o' \<Rightarrow> im_extend o' (run_context s) | _ \<Rightarrow> run_context s)"

definition advance :: "libs \<Rightarrow> workflows_file \<Rightarrow> json \<Rightarrow> run_state \<Rightarrow> (run_error + transition) \<times> run_state" where
  "advance L file outputs s =
     (case current_node file s of
        Inl e \<Rightarrow> (Inl e, s)
      | Inr (w, nid, node) \<Rightarrow>
          (case node_next node of
             None \<Rightarrow> (Inl (WrongNodeType nid (node_type_of node)), s)
           | Some nx \<Rightarrow>
               (let s1 = record_outputs nid node outputs s;
                    (t, s2) = follow_edges L w nid (edge_context outputs s1) 0 (edges nx) s1
                in (Inr t, s2))))"

end
