(* ===== verification/Wf_Run_Props.thy ===== *)
theory Wf_Run_Props
  imports Wf_Run
begin

text \<open>
  What a run of a workflow guarantees: the state it is in is always a node of the graph
  that can be rendered and advanced, and it ends after a number of steps that the visit limits of its
  nodes bound. Both hold for every file and every outcome of the nodes; the machine is
  \<open>run_step\<close>, whatever a caller does to a run.
\<close>

section \<open>The run as a machine\<close>

inductive run_step :: "libs \<Rightarrow> workflows_file \<Rightarrow> run_state \<Rightarrow> run_state \<Rightarrow> bool" for L F where
  rs_advance: "run_step L F s (snd (advance L F outputs s))"
| rs_fail: "run_step L F s (run_fail reason s)"
| rs_cancel: "run_step L F s (run_cancel reason s)"

inductive_cases run_stepE: "run_step L F s s'"

definition visits_of :: "run_state \<Rightarrow> string \<Rightarrow> nat" where
  "visits_of s n = (case rs_visits s n of Some v \<Rightarrow> unat v | None \<Rightarrow> 0)"

text \<open>A limit of \<open>2 ^ 32 - 1\<close> visits is no limit: the counter wraps before it exceeds it.\<close>

definition visits_bounded :: "workflows_file \<Rightarrow> bool" where
  "visits_bounded file \<longleftrightarrow>
     list_all (\<lambda>(_, w). list_all (\<lambda>(_, n). unat (max_visits n) < 2 ^ 32 - 1) (wf_nodes w)) (fl_workflows file)"

definition node_limit :: "workflow \<Rightarrow> string \<Rightarrow> nat" where
  "node_limit w n = (case map_of (wf_nodes w) n of Some node \<Rightarrow> unat (max_visits node) | None \<Rightarrow> 0)"

definition visit_budget :: "workflow \<Rightarrow> nat" where
  "visit_budget w = (\<Sum>n \<in> set (map fst (wf_nodes w)). node_limit w n)"

definition at_inv :: "workflow \<Rightarrow> run_state \<Rightarrow> bool" where
  "at_inv w s \<longleftrightarrow> (\<forall>n. rs_status s = RS_At n \<longrightarrow>
     (\<exists>node. map_of (wf_nodes w) n = Some node \<and> node_next node \<noteq> None)
     \<and> (\<forall>k. visits_of s k \<le> node_limit w k))"

definition run_inv :: "workflows_file \<Rightarrow> run_state \<Rightarrow> bool" where
  "run_inv file s \<longleftrightarrow> visits_bounded file \<and> (\<exists>w. map_of (fl_workflows file) (rs_workflow s) = Some w \<and> at_inv w s)"

definition run_rank :: "workflows_file \<Rightarrow> run_state \<Rightarrow> nat" where
  "run_rank file s =
     (case map_of (fl_workflows file) (rs_workflow s) of
        Some w \<Rightarrow> visit_budget w - (\<Sum>n \<in> set (map fst (wf_nodes w)). visits_of s n)
      | None \<Rightarrow> 0)"

definition run_init :: "workflows_file \<Rightarrow> run_state \<Rightarrow> bool" where
  "run_init file s \<longleftrightarrow> visits_bounded file \<and> (\<exists>name ev run. run_start file name ev run = Inr s)"

section \<open>Entering a node\<close>

lemma run_end_simps [simp]:
  "snd (run_end st n r s) = s\<lparr>rs_status := RS_Ended st n r\<rparr>" "fst (run_end st n r s) = Ended st r"
  by (simp_all add: run_end_def)

lemma is_ended_iff: "is_ended s \<longleftrightarrow> (\<nexists>n. rs_status s = RS_At n)"
  by (cases "rs_status s") (simp_all add: is_ended_def)

lemma enter_workflow [simp]: "rs_workflow (enter w n s) = rs_workflow s" "rs_run (enter w n s) = rs_run s"
  by (simp_all add: enter_def Let_def split: option.splits)

lemma enter_At:
  assumes "rs_status (enter w n s) = RS_At m" and "im_contains (wf_nodes w) n"
  obtains node v where "m = n" "map_of (wf_nodes w) n = Some node" "node_next node \<noteq> None"
    "v = (case rs_visits s n of Some v \<Rightarrow> v | None \<Rightarrow> 0) + 1" "v \<le> max_visits node"
    "rs_visits (enter w n s) = (rs_visits s)(n \<mapsto> v)"
proof -
  from assms(2) obtain node where node: "map_of (wf_nodes w) n = Some node" by (auto simp: im_contains_def)
  with assms(1) have "m = n" "node_next node \<noteq> None"
    by (auto simp: enter_def Let_def split: if_splits node.splits)
  moreover have "\<not> (case rs_visits s n of Some v \<Rightarrow> v | None \<Rightarrow> 0) + 1 > max_visits node"
    using assms(1) node by (auto simp: enter_def Let_def split: if_splits)
  ultimately show ?thesis using that node by (force simp: enter_def Let_def not_less)
qed

lemma unat_plus_one: "unat (v :: u32) < 2 ^ 32 - 1 \<Longrightarrow> unat (v + 1) = unat v + 1"
proof -
  assume "unat v < 2 ^ 32 - 1"
  then have "unat v + unat (1 :: u32) < 2 ^ LENGTH(32)" by simp
  then show ?thesis using unat_add_lem [of v 1] by simp
qed

lemma enter_visits:
  assumes "rs_status (enter w n s) = RS_At m" and "im_contains (wf_nodes w) n"
    and "\<And>k. visits_of s k \<le> node_limit w k"
    and "\<And>k node. map_of (wf_nodes w) k = Some node \<Longrightarrow> unat (max_visits node) < 2 ^ 32 - 1"
  shows "visits_of (enter w n s) = (visits_of s)(n := visits_of s n + 1) \<and> at_inv w (enter w n s) \<and> m = n"
proof -
  obtain node v where e: "m = n" "map_of (wf_nodes w) n = Some node" "node_next node \<noteq> None"
    "v = (case rs_visits s n of Some v \<Rightarrow> v | None \<Rightarrow> 0) + 1" "v \<le> max_visits node"
    "rs_visits (enter w n s) = (rs_visits s)(n \<mapsto> v)"
    by (rule enter_At [OF assms(1,2)])
  have "visits_of s n < 2 ^ 32 - 1" using assms(3) [of n] assms(4) [OF e(2)] e(2) by (simp add: node_limit_def)
  then have v: "unat v = visits_of s n + 1"
    using e(4) by (auto simp: visits_of_def unat_plus_one split: option.splits)
  then have vis: "visits_of (enter w n s) = (visits_of s)(n := visits_of s n + 1)"
    using e(6) by (auto simp: visits_of_def fun_eq_iff)
  have "unat v \<le> node_limit w n" using e(2,5) by (simp add: node_limit_def word_le_nat_alt)
  then have "visits_of (enter w n s) k \<le> node_limit w k" for k
    using assms(3) [of k] v by (simp add: vis)
  then show ?thesis using vis e assms(1) by (auto simp: at_inv_def)
qed

section \<open>Advancing\<close>

lemma end_at_keeps [simp]:
  "rs_workflow (end_at L w to s) = rs_workflow s" "rs_run (end_at L w to s) = rs_run s"
  "rs_visits (end_at L w to s) = rs_visits s"
  by (simp_all add: end_at_def Let_def split_beta split: run_status.split option.split node.split)

lemma end_at_At: "rs_status (end_at L w to s) = RS_At n \<Longrightarrow> end_at L w to s = s"
  by (cases "rs_status s") (simp_all add: end_at_def Let_def split_beta split: option.splits node.splits)

lemma snd_take_edge: "im_contains (wf_nodes w) to \<Longrightarrow>
    snd (take_edge L w nid i to s) = end_at L w to (enter w to (s\<lparr>rs_previous := Some nid\<rparr>))"
  by (simp add: take_edge_def Let_def split: run_status.split option.split)

lemma take_edge_At:
  assumes "rs_status (snd (take_edge L w nid i to s)) = RS_At n"
  shows "im_contains (wf_nodes w) to \<and> snd (take_edge L w nid i to s) = enter w to (s\<lparr>rs_previous := Some nid\<rparr>)"
proof -
  have c: "im_contains (wf_nodes w) to" using assms by (auto simp: take_edge_def split: if_splits)
  then show ?thesis using assms end_at_At by (simp add: snd_take_edge)
qed

lemma take_edge_keeps [simp]:
  "rs_workflow (snd (take_edge L w nid i to s)) = rs_workflow s" "rs_run (snd (take_edge L w nid i to s)) = rs_run s"
proof -
  have "rs_workflow (snd (take_edge L w nid i to s)) = rs_workflow s \<and> rs_run (snd (take_edge L w nid i to s)) = rs_run s"
  proof (cases "im_contains (wf_nodes w) to")
    case True
    then show ?thesis by (simp add: snd_take_edge)
  next
    case False
    then show ?thesis by (simp add: take_edge_def)
  qed
  then show "rs_workflow (snd (take_edge L w nid i to s)) = rs_workflow s" "rs_run (snd (take_edge L w nid i to s)) = rs_run s"
    by simp_all
qed

lemma follow_edges_keeps [simp]:
  "rs_workflow (snd (follow_edges L w nid ctx i es s)) = rs_workflow s"
  "rs_run (snd (follow_edges L w nid ctx i es s)) = rs_run s"
  by (induction es arbitrary: i) (auto split: option.splits sum.splits bool.splits)

lemma follow_edges_At:
  "rs_status (snd (follow_edges L w nid ctx i es s)) = RS_At n \<Longrightarrow>
    \<exists>to \<in> ed_to ` set es. im_contains (wf_nodes w) to
      \<and> snd (follow_edges L w nid ctx i es s) = enter w to (s\<lparr>rs_previous := Some nid\<rparr>)"
  by (induction es arbitrary: i) (auto dest: take_edge_At split: option.splits sum.splits bool.splits)

lemma record_outputs_keeps [simp]:
  "rs_workflow (record_outputs nid node o' s) = rs_workflow s" "rs_visits (record_outputs nid node o' s) = rs_visits s"
  "rs_run (record_outputs nid node o' s) = rs_run s" "rs_status (record_outputs nid node o' s) = rs_status s"
  by (auto simp: record_outputs_def Let_def split: node.splits option.splits)

lemma advance_keeps [simp]:
  "rs_workflow (snd (advance L file o' s)) = rs_workflow s" "rs_run (snd (advance L file o' s)) = rs_run s"
  by (simp_all add: advance_def Let_def split_beta split: sum.splits option.splits)

lemma current_node_At:
  "map_of (fl_workflows file) (rs_workflow s) = Some w \<Longrightarrow> rs_status s = RS_At n \<Longrightarrow> map_of (wf_nodes w) n = Some node \<Longrightarrow>
    current_node file s = Inr (w, n, node)"
  by (simp add: current_node_def run_workflow_def current_def)

lemma advance_eq:
  assumes "map_of (fl_workflows file) (rs_workflow s) = Some w" and "rs_status s = RS_At m"
    and "map_of (wf_nodes w) m = Some node" and "node_next node = Some nx"
  shows "advance L file o' s =
    map_prod Inr (\<lambda>x. x) (follow_edges L w m (edge_context o' (record_outputs m node o' s)) 0 (edges nx) (record_outputs m node o' s))"
  using assms by (simp add: advance_def current_node_At map_prod_def split_beta Let_def)

lemma advance_ended: "is_ended s \<Longrightarrow> snd (advance L file o' s) = s \<and> (\<exists>e. fst (advance L file o' s) = Inl e)"
  by (cases "rs_status s")
    (simp_all add: is_ended_def advance_def current_node_def run_workflow_def current_def split: option.split)

lemma visits_of_cong: "rs_visits s = rs_visits t \<Longrightarrow> visits_of s = visits_of t"
  by (simp add: visits_of_def fun_eq_iff)

lemma visits_boundedD:
  "visits_bounded file \<Longrightarrow> map_of (fl_workflows file) name = Some w \<Longrightarrow> map_of (wf_nodes w) k = Some node \<Longrightarrow>
    unat (max_visits node) < 2 ^ 32 - 1"
  unfolding visits_bounded_def list_all_iff by (blast dest: map_of_SomeD)

lemma advance_At:
  assumes "visits_bounded file" and w: "map_of (fl_workflows file) (rs_workflow s) = Some w" and "at_inv w s"
    and At: "rs_status (snd (advance L file o' s)) = RS_At n"
  shows "at_inv w (snd (advance L file o' s)) \<and> \<not> is_ended s \<and> im_contains (wf_nodes w) n
    \<and> visits_of (snd (advance L file o' s)) = (visits_of s)(n := visits_of s n + 1)"
proof -
  have "\<not> is_ended s" using At advance_ended is_ended_iff by metis
  then obtain m where m: "rs_status s = RS_At m" by (auto simp: is_ended_iff)
  with assms(3) obtain node nx where node: "map_of (wf_nodes w) m = Some node" "node_next node = Some nx"
    and lim: "\<And>k. visits_of s k \<le> node_limit w k" by (auto simp: at_inv_def)
  let ?s1 = "(record_outputs m node o' s)\<lparr>rs_previous := Some m\<rparr>"
  have vis: "visits_of ?s1 = visits_of s" by (rule visits_of_cong) simp
  have "rs_status (snd (follow_edges L w m (edge_context o' (record_outputs m node o' s)) 0 (edges nx)
      (record_outputs m node o' s))) = RS_At n"
    using At by (simp add: advance_eq [OF w m node] snd_map_prod)
  from follow_edges_At [OF this] obtain to where to: "im_contains (wf_nodes w) to"
    "snd (advance L file o' s) = enter w to ?s1" by (auto simp: advance_eq [OF w m node] snd_map_prod)
  have "visits_of (enter w to ?s1) = (visits_of ?s1)(to := visits_of ?s1 to + 1) \<and> at_inv w (enter w to ?s1) \<and> n = to"
    by (rule enter_visits) (use At to lim vis visits_boundedD [OF assms(1) w] in auto)
  then show ?thesis using to \<open>\<not> is_ended s\<close> by (simp add: vis)
qed

lemma fail_cancel [simp]:
  "rs_workflow (run_fail m s) = rs_workflow s" "is_ended (run_fail m s)"
  "rs_workflow (run_cancel m s) = rs_workflow s" "is_ended (run_cancel m s)"
  by (auto simp: run_fail_def run_cancel_def is_ended_def split: run_status.splits)

lemma at_inv_ended: "is_ended s \<Longrightarrow> at_inv w s"
  by (simp add: at_inv_def is_ended_iff)

text \<open>The place of a run: a node of its workflow with outgoing edges. This needs no bound on visits.\<close>

definition place_inv :: "workflows_file \<Rightarrow> run_state \<Rightarrow> bool" where
  "place_inv file s \<longleftrightarrow> (\<exists>w. map_of (fl_workflows file) (rs_workflow s) = Some w \<and>
     (\<forall>n. rs_status s = RS_At n \<longrightarrow> (\<exists>node. map_of (wf_nodes w) n = Some node \<and> node_next node \<noteq> None)))"

lemma advance_place:
  assumes "place_inv file s"
  shows "place_inv file (snd (advance L file o' s))"
proof (cases "is_ended s \<or> is_ended (snd (advance L file o' s))")
  case True
  then show ?thesis using assms by (auto simp: advance_ended place_inv_def is_ended_iff)
next
  case False
  then obtain m n where m: "rs_status s = RS_At m" and n: "rs_status (snd (advance L file o' s)) = RS_At n"
    by (auto simp: is_ended_iff)
  with assms obtain w node nx where w: "map_of (fl_workflows file) (rs_workflow s) = Some w"
    and node: "map_of (wf_nodes w) m = Some node" "node_next node = Some nx" by (auto simp: place_inv_def)
  from n obtain to where "im_contains (wf_nodes w) to"
    "snd (advance L file o' s) = enter w to ((record_outputs m node o' s)\<lparr>rs_previous := Some m\<rparr>)"
    using follow_edges_At by (fastforce simp: advance_eq [OF w m node] snd_map_prod)
  then have "\<exists>node. map_of (wf_nodes w) n = Some node \<and> node_next node \<noteq> None" using n enter_At by metis
  then show ?thesis using w n by (auto simp: place_inv_def)
qed

lemma fail_cancel_place: "place_inv file s \<Longrightarrow> place_inv file (run_fail m s) \<and> place_inv file (run_cancel m s)"
  using is_ended_iff fail_cancel by (metis place_inv_def)

lemma start_place:
  assumes "run_start file name ev run = Inr s"
  shows "place_inv file s"
proof -
  from assms obtain w s0 where w: "map_of (fl_workflows file) name = Some w" "im_contains (wf_nodes w) (wf_start w)"
    "s = enter w (wf_start w) s0" "rs_workflow s0 = name"
    by (fastforce simp: run_start_def split: option.splits if_splits)
  have "\<exists>node. map_of (wf_nodes w) n = Some node \<and> node_next node \<noteq> None" if "rs_status s = RS_At n" for n
    using that enter_At [of w "wf_start w" s0 n] w by metis
  then show ?thesis using w by (auto simp: place_inv_def)
qed

interpretation workflow_place: machine "\<lambda>s. \<exists>name ev run. run_start file name ev run = Inr s" "run_step L file" "place_inv file"
  for L :: libs and "file" :: workflows_file
  by unfold_locales (auto elim!: run_stepE simp: advance_place fail_cancel_place intro: start_place)

lemma place_advance:
  assumes "place_inv file s" and "\<not> is_ended s"
  obtains w n node t where "map_of (fl_workflows file) (rs_workflow s) = Some w" "rs_status s = RS_At n"
    "map_of (wf_nodes w) n = Some node" "node_next node \<noteq> None" "run_render L file s = Inr (render_node L s n node)"
    "fst (advance L file o' s) = Inr t"
proof -
  from assms obtain w n node nx where w: "map_of (fl_workflows file) (rs_workflow s) = Some w"
    and n: "rs_status s = RS_At n" and node: "map_of (wf_nodes w) n = Some node" "node_next node = Some nx"
    by (auto simp: place_inv_def is_ended_iff)
  have "\<exists>t. fst (advance L file o' s) = Inr t" by (simp add: advance_eq [OF w n node])
  then show ?thesis
    using that [OF w n node(1)] node(2) current_node_At [OF w n node(1)] by (auto simp: run_render_def)
qed

lemma run_inv_step:
  assumes "run_inv file s" and "run_step L file s s'"
  shows "run_inv file s'"
  using assms(2)
proof cases
  case (rs_advance o')
  from assms(1) obtain w where w: "visits_bounded file" "map_of (fl_workflows file) (rs_workflow s) = Some w" "at_inv w s"
    by (auto simp: run_inv_def)
  have "at_inv w s'"
  proof (cases "is_ended s'")
    case False
    then show ?thesis using advance_At [OF w] rs_advance by (auto simp: is_ended_iff)
  qed (rule at_inv_ended)
  then show ?thesis using w rs_advance by (auto simp: run_inv_def)
qed (use assms(1) in \<open>auto simp: run_inv_def at_inv_ended\<close>)

lemma run_inv_init:
  assumes "run_init file s"
  shows "run_inv file s"
proof -
  from assms obtain name ev run where b: "visits_bounded file" and "run_start file name ev run = Inr s"
    by (auto simp: run_init_def)
  then obtain w s0 where w: "map_of (fl_workflows file) name = Some w" "im_contains (wf_nodes w) (wf_start w)"
    "s = enter w (wf_start w) s0" "rs_workflow s0 = name" "rs_visits s0 = Map.empty"
    by (fastforce simp: run_start_def split: option.splits if_splits)
  have "at_inv w s"
  proof (cases "is_ended s")
    case False
    then obtain n where "rs_status s = RS_At n" by (auto simp: is_ended_iff)
    then show ?thesis
      using enter_visits [OF _ w(2) _ visits_boundedD [OF b w(1)]] w by (simp add: visits_of_def)
  qed (rule at_inv_ended)
  then show ?thesis using b w by (auto simp: run_inv_def)
qed

lemma sum_visits_le:
  "at_inv w s \<Longrightarrow> \<not> is_ended s \<Longrightarrow> (\<Sum>n \<in> set (map fst (wf_nodes w)). visits_of s n) \<le> visit_budget w"
  unfolding visit_budget_def by (rule sum_mono) (auto simp: at_inv_def is_ended_iff)

lemma run_rank_step:
  assumes "run_inv file s" and "run_step L file s s'" and "\<not> is_ended s'"
  shows "run_rank file s' < run_rank file s"
proof -
  from assms(1) obtain w where w: "visits_bounded file" "map_of (fl_workflows file) (rs_workflow s) = Some w" "at_inv w s"
    by (auto simp: run_inv_def)
  from assms(2,3) obtain o' where s': "s' = snd (advance L file o' s)" by (auto elim: run_stepE)
  with assms(3) obtain n where n: "rs_status (snd (advance L file o' s)) = RS_At n" by (auto simp: is_ended_iff)
  let ?K = "set (map fst (wf_nodes w))"
  have a: "at_inv w s'" "im_contains (wf_nodes w) n" "visits_of s' = (visits_of s)(n := visits_of s n + 1)"
    using advance_At [OF w n] s' by auto
  have "(\<Sum>k \<in> ?K. visits_of s' k) = Suc (\<Sum>k \<in> ?K. visits_of s k)"
  proof -
    have n': "n \<in> ?K" using a(2) by (simp add: im_contains_iff)
    have "(\<Sum>k \<in> ?K - {n}. visits_of s' k) = (\<Sum>k \<in> ?K - {n}. visits_of s k)" by (rule sum.cong) (simp_all add: a(3))
    then show ?thesis using sum.remove [OF _ n', of "visits_of s'"] sum.remove [OF _ n', of "visits_of s"] a(3) by simp
  qed
  moreover have "(\<Sum>k \<in> ?K. visits_of s' k) \<le> visit_budget w" using sum_visits_le a(1) assms(3) by blast
  ultimately show ?thesis using w(2) s' by (simp add: run_rank_def)
qed

interpretation workflow_run: bounded_machine "run_init file" "run_step L file" "run_inv file" "\<lambda>s. \<not> is_ended s" "run_rank file"
  for L :: libs and "file" :: workflows_file
proof unfold_locales
  show "run_init file s \<Longrightarrow> run_inv file s" for s by (rule run_inv_init)
  show "run_inv file s \<Longrightarrow> run_step L file s s' \<Longrightarrow> run_inv file s'" for s s' by (rule run_inv_step)
  show "run_inv file s \<Longrightarrow> \<not> \<not> is_ended s \<Longrightarrow> run_step L file s s' \<Longrightarrow> \<not> \<not> is_ended s'" for s s'
    by (auto elim!: run_stepE simp: advance_ended)
  show "run_inv file s \<Longrightarrow> \<not> is_ended s \<Longrightarrow> run_step L file s s' \<Longrightarrow> \<not> is_ended s' \<Longrightarrow> run_rank file s' < run_rank file s" for s s'
    by (rule run_rank_step)
qed

section \<open>Properties\<close>

text \<open>
  A run that has not ended can go on. Whatever a caller did to a run since it was started, as long as
  it has not ended it is at a node of its workflow that is not an \<^verbatim>\<open>end\<close> node,
  it can be rendered, and advancing it takes a transition: no call returns a \<^verbatim>\<open>RunError\<close>.
\<close>

theorem run_progress:
  assumes "run_start file name ev run = Inr s0" and "(run_step L file)\<^sup>*\<^sup>* s0 s" and "\<not> is_ended s"
  shows "\<exists>w n node. map_of (fl_workflows file) (rs_workflow s) = Some w \<and> current s = Some n
    \<and> map_of (wf_nodes w) n = Some node \<and> node_next node \<noteq> None
    \<and> (\<exists>r. run_render L file s = Inr r) \<and> (\<exists>t. fst (advance L file outputs s) = Inr t)"
proof -
  have "place_inv file s" using workflow_place.good_reachable [of "file" s0 L s] assms by blast
  then obtain w n node t where p: "map_of (fl_workflows file) (rs_workflow s) = Some w" "rs_status s = RS_At n"
    "map_of (wf_nodes w) n = Some node" "node_next node \<noteq> None" "run_render L file s = Inr (render_node L s n node)"
    "fst (advance L file outputs s) = Inr t" by (rule place_advance [OF _ assms(3)])
  from p(2) have "current s = Some n" by (simp add: current_def)
  with p show ?thesis by blast
qed


text \<open>
  A test run pushes nothing. The run information never changes, and when it says that
  this is a test, no rendered agent node asks for a push.
\<close>

theorem test_run_never_pushes:
  assumes "run_start file name ev run = Inr s0" and "(run_step L file)\<^sup>*\<^sup>* s0 s" and "ri_test run"
    and "run_render L file s = Inr (Inr (R_Agent mode instruction schema push))"
  shows "\<not> push \<and> rs_run s = run"
proof -
  have "rs_run s0 = run" using assms(1) by (auto simp: run_start_def split: option.splits if_splits)
  with assms(2) have "rs_run s = run"
    by (induction rule: rtranclp_induct)
      (auto elim!: run_stepE simp: run_fail_def run_cancel_def)
  then show ?thesis using assms(3,4)
    by (auto simp: run_render_def render_node_def Let_def split: sum.splits node.splits prod.splits)
qed

text \<open>
  Where a run starts. Starting fails only for a workflow or a start node that does not exist. A run
  whose start node is an \<^verbatim>\<open>end\<close> node has ended at once, without a reason even when the
  node has one or failed; one whose start node may not be visited has failed; every other run is
  at its start node, visited once.
\<close>

theorem run_start_outcome:
  "run_start file name ev run =
    (case map_of (fl_workflows file) name of
       None \<Rightarrow> Inl (UnknownWorkflow name)
     | Some w \<Rightarrow>
         (case map_of (wf_nodes w) (wf_start w) of
            None \<Rightarrow> Inl (UnknownNode (wf_start w))
          | Some node \<Rightarrow> Inr
              \<lparr>rs_workflow = name, rs_run = run, rs_event = event_context ev, rs_subject = event_subject ev,
               rs_nodes = [], rs_vars = im_extend (wf_vars w) [], rs_visits = [wf_start w \<mapsto> 1], rs_previous = None,
               rs_status =
                 (if max_visits node = 0
                  then RS_Ended ES_Failed None (Some (''node `'' @ wf_start w @ ''` reached max_visits (0)''))
                  else case node of
                    N_End e \<Rightarrow> RS_Ended (en_status e) (Some (wf_start w)) None
                  | _ \<Rightarrow> RS_At (wf_start w))\<rparr>))"
proof -
  have "(1 :: u32) > m \<longleftrightarrow> m = 0" for m by (simp add: word_less_nat_alt unat_eq_0)
  moreover have "show_nat 0 = ''0''" by code_simp
  ultimately show ?thesis
    by (simp add: run_start_def enter_def im_contains_def Let_def split: option.split)
qed

section \<open>Examples\<close>

text \<open>A workflow that asks an agent again until its condition fails, and one call more than it may visit.\<close>

definition example_agent :: agent_node where
  "example_agent = \<lparr>ag_mode = ''build'', ag_instruction = ''do it'', ag_result = None, ag_push = True,
     ag_next = Next_Edges [\<lparr>ed_condition = Some ''true'', ed_to = ''work''\<rparr>, \<lparr>ed_condition = None, ed_to = ''stop''\<rparr>],
     ag_max_visits = Some 2\<rparr>"

definition example_loop :: workflow where
  "example_loop = example_end\<lparr>wf_start := ''work'',
     wf_nodes := [(''work'', N_Agent example_agent), (''stop'', N_End \<lparr>en_status = ES_Failed, en_reason = None\<rparr>)]\<rparr>"

definition example_file :: workflows_file where
  "example_file = \<lparr>fl_version = 1, fl_workflows = [(''w'', example_loop)]\<rparr>"

definition example_run :: run_info where
  "example_run = \<lparr>ri_id = ''r'', ri_attempt = 1, ri_test = True\<rparr>"

definition example_start :: run_state where
  "example_start =
     \<lparr>rs_workflow = ''w'', rs_run = example_run, rs_event = event_context example_event,
      rs_subject = event_subject example_event, rs_nodes = [], rs_vars = [], rs_visits = [''work'' \<mapsto> 1],
      rs_previous = None, rs_status = RS_At ''work''\<rparr>"

lemma example_start: "run_start example_file ''w'' example_event example_run = Inr example_start"
  by (simp add: run_start_def enter_def example_file_def example_loop_def example_end_def example_start_def
      im_contains_def im_extend_def max_visits_def example_agent_def)

lemma example_bounded: "visits_bounded example_file"
  by (simp add: visits_bounded_def example_file_def example_loop_def max_visits_def example_agent_def DEFAULT_MAX_VISITS_def)

lemma example_running: "\<not> is_ended example_start" "current example_start = Some ''work''"
  by (simp_all add: is_ended_def current_def example_start_def)

theorem run_progress_witness: "\<exists>t. fst (advance plain_libs example_file JNull example_start) = Inr t"
  using run_progress [OF example_start rtranclp.rtrancl_refl example_running(1)] by blast


theorem test_run_never_pushes_witness:
  "\<exists>push. run_render plain_libs example_file example_start = Inr (Inr (R_Agent ''build'' ''do it'' None push)) \<and> \<not> push"
proof -
  have "run_render plain_libs example_file example_start = Inr (Inr (R_Agent ''build'' ''do it'' None False))"
    by (simp add: run_render_def current_node_def run_workflow_def example_file_def example_loop_def example_start_def
        current_def render_node_def example_agent_def render_field_def render_def engine_new_def plain_libs_def
        plain_env_def MAX_RENDERED_BYTES_def result_schema_def example_run_def)
  then show ?thesis using test_run_never_pushes [OF example_start rtranclp.rtrancl_refl]
    by (auto simp: example_run_def)
qed

end
