(* ===== verification/Wf_Validate.thy ===== *)
theory Wf_Validate
  imports Wf_Event
begin

text \<open>
  Validation of a workflows file: \<^verbatim>\<open>ez/crates/ez-workflow/src/validate.rs\<close>. The code passes one
  \<^verbatim>\<open>&mut Report\<close> around and only ever appends to it; here every check returns the list of
  diagnostics it appends. The sets of the reachability check are sets; its two loops are recursive
  functions whose termination is proved.
\<close>

section \<open>Reports\<close>

datatype severity = Sev_Error | Sev_Warning

record diagnostic =
  dg_severity :: severity
  dg_path :: string
  dg_message :: string

record report =
  rp_diagnostics :: "diagnostic list"

definition rp_errors :: "report \<Rightarrow> diagnostic list" where
  "rp_errors r = filter (\<lambda>d. dg_severity d = Sev_Error) (rp_diagnostics r)"

definition rp_warnings :: "report \<Rightarrow> diagnostic list" where
  "rp_warnings r = filter (\<lambda>d. dg_severity d = Sev_Warning) (rp_diagnostics r)"

definition rp_is_ok :: "report \<Rightarrow> bool" where
  "rp_is_ok r = (\<not> list_ex (\<lambda>d. dg_severity d = Sev_Error) (rp_diagnostics r))"

definition rp_push :: "severity \<Rightarrow> string \<Rightarrow> string \<Rightarrow> diagnostic list" where
  "rp_push severity path message = [\<lparr>dg_severity = severity, dg_path = path, dg_message = message\<rparr>]"

definition rp_error :: "string \<Rightarrow> string \<Rightarrow> diagnostic list" where
  "rp_error path message = rp_push Sev_Error path message"

definition rp_warn :: "string \<Rightarrow> string \<Rightarrow> diagnostic list" where
  "rp_warn path message = rp_push Sev_Warning path message"

section \<open>Modes\<close>

record mode_catalog =
  mc_modes :: "string list option imap"
  mc_mcp_tools :: "string list imap"

fun toml_as_str :: "toml \<Rightarrow> string option" where
  "toml_as_str (Toml_Str s) = Some s"
| "toml_as_str _ = None"

definition toml_strings :: "toml list \<Rightarrow> string list" where
  "toml_strings ts = List.map_filter toml_as_str ts"

fun read_modes :: "(string \<times> toml) list \<Rightarrow> mode_catalog \<Rightarrow> string + mode_catalog" where
  "read_modes [] c = Inr c"
| "read_modes ((mid, v) # rest) c =
     (case v of
        Toml_Table def \<Rightarrow>
          (case (case map_of def ''tools'' of
                   None \<Rightarrow> Inr None
                 | Some (Toml_Arr ts) \<Rightarrow> Inr (Some (toml_strings ts))
                 | Some _ \<Rightarrow> Inl (''modes.toml: `modes.'' @ mid @ ''.tools` must be a list'')) of
             Inl e \<Rightarrow> Inl e
           | Inr tools \<Rightarrow>
               (case (case map_of def ''mcp_tools'' of
                        None \<Rightarrow> Inr c
                      | Some (Toml_Arr ts) \<Rightarrow>
                          Inr (c\<lparr>mc_mcp_tools := im_insert mid (toml_strings ts) (mc_mcp_tools c)\<rparr>)
                      | Some _ \<Rightarrow> Inl (''modes.toml: `modes.'' @ mid @ ''.mcp_tools` must be a list'')) of
                  Inl e \<Rightarrow> Inl e
                | Inr c1 \<Rightarrow> read_modes rest (c1\<lparr>mc_modes := im_insert mid tools (mc_modes c1)\<rparr>)))
      | _ \<Rightarrow> Inl (''modes.toml: mode `'' @ mid @ ''` must be a table''))"

definition from_modes_toml :: "libs \<Rightarrow> string \<Rightarrow> string + mode_catalog" where
  "from_modes_toml L text =
     (case lib_toml_table L text of
        Inl e \<Rightarrow> Inl (''modes.toml: '' @ trim_end e)
      | Inr table \<Rightarrow>
          (case (case map_of table ''modes'' of
                   None \<Rightarrow> Inr \<lparr>mc_modes = [], mc_mcp_tools = []\<rparr>
                 | Some (Toml_Table t) \<Rightarrow> read_modes t \<lparr>mc_modes = [], mc_mcp_tools = []\<rparr>
                 | Some _ \<Rightarrow> Inl ''modes.toml: `modes` must be a table'') of
             Inl e \<Rightarrow> Inl e
           | Inr c \<Rightarrow> if mc_modes c = [] then Inl ''modes.toml defines no modes'' else Inr c))"

definition SUBMIT_RESULT_TOOL :: string where
  "SUBMIT_RESULT_TOOL = ''mcp__enzarb__submit_result''"

text \<open>The middle parts of a pattern, each found after the one before it.\<close>

fun glob_middle :: "string list \<Rightarrow> string \<Rightarrow> bool" where
  "glob_middle [] rest = True"
| "glob_middle (mid # mids) rest =
     (case str_find rest mid of
        Some i \<Rightarrow> glob_middle mids (drop (i + length mid) rest)
      | None \<Rightarrow> False)"

definition glob_matches :: "string \<Rightarrow> string \<Rightarrow> bool" where
  "glob_matches glob name =
     (let parts = split_on (CHR ''*'') glob
      in if length parts = 1 then glob = name
         else let first = hd parts; last' = last parts
           in if \<not> starts_with name first \<or> length name < length first + length last' \<or> \<not> ends_with name last'
              then False
              else glob_middle (butlast (tl parts)) (drop (length first) (take (length name - length last') name)))"

definition allows_submit_result :: "mode_catalog \<Rightarrow> string \<Rightarrow> bool" where
  "allows_submit_result c mid =
     (case map_of (mc_mcp_tools c) mid of
        None \<Rightarrow> False
      | Some globs \<Rightarrow> list_ex (\<lambda>g. glob_matches g SUBMIT_RESULT_TOOL) globs)"

definition catalog_contains :: "mode_catalog \<Rightarrow> string \<Rightarrow> bool" where
  "catalog_contains c mid = im_contains (mc_modes c) mid"

section \<open>Names, patterns, durations\<close>

definition check_id :: "string \<Rightarrow> string \<Rightarrow> string \<Rightarrow> diagnostic list" where
  "check_id path what name =
     (let ok = name \<noteq> [] \<and> length name \<le> MAX_ID_LEN \<and> is_ascii_alphanumeric (hd name)
            \<and> list_all (\<lambda>b. is_ascii_alphanumeric b \<or> b = CHR ''_'' \<or> b = CHR ''-'') name
      in if ok then []
         else rp_error path (what @ '' id `'' @ name @ ''` must be 1-'' @ show_nat MAX_ID_LEN
                @ '' letters, digits, `_` or `-`, starting with a letter or digit''))"

definition check_patterns :: "string \<Rightarrow> string list \<Rightarrow> diagnostic list" where
  "check_patterns path on =
     (if on = [] then rp_error path ''needs at least one event'' else [])
     @ concat (map (\<lambda>(i, p).
         (let path = path @ ''['' @ show_nat i @ '']''
          in if \<not> valid_pattern p then rp_error path (''`'' @ p @ ''` is not `event` or `event.action`'')
             else if hd (split_on (CHR ''.'') p) \<notin> set KNOWN_EVENTS
             then rp_warn path (''`'' @ p @ ''` is not a known GitHub event'')
             else [])) (enumerate 0 on))"

definition check_duration :: "libs \<Rightarrow> string \<Rightarrow> string option \<Rightarrow> diagnostic list" where
  "check_duration L path value =
     (case value of
        None \<Rightarrow> []
      | Some v \<Rightarrow>
          (case parse_duration L v of
             Inr d \<Rightarrow>
               if d = 0 then rp_error path ''must be longer than zero''
               else if d > MAX_TIMEOUT
               then rp_error path (''`'' @ v @ ''` is longer than the limit of '' @ lib_format_duration L MAX_TIMEOUT)
               else []
           | Inl e \<Rightarrow> rp_error path e))"

section \<open>References\<close>

fun refs_vars :: "node imap \<Rightarrow> json imap \<Rightarrow> string \<Rightarrow> string list \<Rightarrow> string set \<Rightarrow> string list \<Rightarrow> diagnostic list" where
  "refs_vars nodes vars path roots seen [] = []"
| "refs_vars nodes vars path roots seen (v # vs) =
     (let root = root_of v; segs = split_on (CHR ''.'') v
      in if root \<notin> set roots then
           (if root \<notin> seen
            then rp_error path (''unknown variable `'' @ root @ ''` (available: '' @ join '', '' roots @ '')'')
                 @ refs_vars nodes vars path roots (insert root seen) vs
            else refs_vars nodes vars path roots seen vs)
         else if root = ''vars'' \<and> length segs > 1 \<and> \<not> im_contains vars (segs ! 1) \<and> ''vars.'' @ segs ! 1 \<notin> seen
         then rp_error path (''`vars.'' @ segs ! 1 @ ''`: the workflow has no var `'' @ segs ! 1 @ ''` (add it under `vars`)'')
              @ refs_vars nodes vars path roots (insert (''vars.'' @ segs ! 1) seen) vs
         else if root = ''nodes'' \<and> length segs > 1 \<and> \<not> im_contains nodes (segs ! 1) \<and> ''nodes.'' @ segs ! 1 \<notin> seen
         then rp_error path (''`nodes.'' @ segs ! 1 @ ''`: there is no node `'' @ segs ! 1 @ ''`'')
              @ refs_vars nodes vars path roots (insert (''nodes.'' @ segs ! 1) seen) vs
         else refs_vars nodes vars path roots seen vs)"

definition refs_template :: "libs \<Rightarrow> workflow \<Rightarrow> string \<Rightarrow> template_kind \<Rightarrow> string \<Rightarrow> string list \<Rightarrow> diagnostic list" where
  "refs_template L w path kind src roots =
     (case template_vars L kind src of
        Inr vs \<Rightarrow> refs_vars (wf_nodes w) (wf_vars w) path roots {} vs
      | Inl e \<Rightarrow> rp_error path e)"

definition refs_expr :: "libs \<Rightarrow> workflow \<Rightarrow> string \<Rightarrow> string \<Rightarrow> string list \<Rightarrow> diagnostic list" where
  "refs_expr L w path src roots =
     (case expr_vars L src of
        Inr vs \<Rightarrow> refs_vars (wf_nodes w) (wf_vars w) path roots {} vs
      | Inl e \<Rightarrow> rp_error path e)"

section \<open>Nodes\<close>

definition ok_name :: "string \<Rightarrow> bool" where
  "ok_name k \<longleftrightarrow> k \<noteq> [] \<and> list_all (\<lambda>b. is_ascii_alphanumeric b \<or> b = CHR ''_'') k \<and> \<not> is_ascii_digit (hd k)"

definition validate_agent :: "libs \<Rightarrow> workflow \<Rightarrow> string \<Rightarrow> agent_node \<Rightarrow> mode_catalog option \<Rightarrow> diagnostic list" where
  "validate_agent L w np a modes =
     (case modes of
        None \<Rightarrow> rp_error (np @ ''.mode'') ''the commit has no `.ez/modes.toml`; agent nodes need it''
      | Some m \<Rightarrow>
          (case map_of (mc_modes m) (ag_mode a) of
             None \<Rightarrow> rp_error (np @ ''.mode'')
               (''there is no mode `'' @ ag_mode a @ ''` in .ez/modes.toml (modes: ''
                @ join '', '' (map fst (mc_modes m)) @ '')'')
           | Some (Some tools) \<Rightarrow>
               if ''AskUserQuestion'' \<in> set tools
               then rp_warn (np @ ''.mode'')
                 (''mode `'' @ ag_mode a @ ''` lists AskUserQuestion, which unattended runs never offer'')
               else []
           | Some None \<Rightarrow> []))
     @ (case (ag_result a, modes) of
          (Some _, Some m) \<Rightarrow>
            if catalog_contains m (ag_mode a) \<and> \<not> allows_submit_result m (ag_mode a)
            then rp_error (np @ ''.mode'')
              (''mode `'' @ ag_mode a @ ''` does not allow `'' @ SUBMIT_RESULT_TOOL
               @ ''` in `mcp_tools` (add it or `mcp__*`), so ez would hide the tool this node's `result` needs'')
            else []
        | _ \<Rightarrow> [])
     @ (if trim (ag_instruction a) = [] then rp_error (np @ ''.instruction'') ''must not be empty''
        else refs_template L w (np @ ''.instruction'') TK_Text (ag_instruction a) NODE_ROOTS)
     @ (case ag_result a of
          None \<Rightarrow> []
        | Some props \<Rightarrow>
            (if props = [] then rp_error (np @ ''.result'') ''needs at least one property, or omit it'' else [])
            @ concat (map (\<lambda>(k, v).
                (if ok_name k then [] else rp_error (np @ ''.result.'' @ k) ''property names are letters, digits and `_`'')
                @ (if json_is_object v then []
                   else rp_error (np @ ''.result.'' @ k) ''must be a JSON Schema table (`{ type = \"string\" }`)'')) props))"

definition validate_command :: "libs \<Rightarrow> workflow \<Rightarrow> string \<Rightarrow> command_node \<Rightarrow> diagnostic list" where
  "validate_command L w np c =
     (case (cm_task c, cm_run c) of
        (Some _, Some _) \<Rightarrow> rp_error np ''set `task` or `run`, not both''
      | (None, None) \<Rightarrow> rp_error np ''needs `task` (a mise task) or `run` (a shell string)''
      | (Some t, None) \<Rightarrow> if trim t = [] then rp_error (np @ ''.task'') ''must not be empty'' else []
      | (None, Some s) \<Rightarrow> if trim s = [] then rp_error (np @ ''.run'') ''must not be empty'' else [])
     @ (if cm_run c \<noteq> None \<and> cm_args c \<noteq> []
        then rp_error (np @ ''.args'') ''`args` go with `task`; put them in `run` instead'' else [])
     @ concat (map (\<lambda>(i, a). refs_template L w (np @ ''.args['' @ show_nat i @ '']'') TK_Text a NODE_ROOTS)
                (enumerate 0 (cm_args c)))
     @ (case cm_run c of None \<Rightarrow> [] | Some s \<Rightarrow> refs_template L w (np @ ''.run'') TK_Shell s NODE_ROOTS)"

definition need :: "libs \<Rightarrow> workflow \<Rightarrow> string \<Rightarrow> action_node \<Rightarrow> string \<Rightarrow> string option \<Rightarrow> diagnostic list" where
  "need L w np a field v =
     (case v of
        Some s \<Rightarrow>
          if trim s \<noteq> [] then refs_template L w (np @ ''.'' @ field) TK_Text s NODE_ROOTS
          else rp_error (np @ ''.'' @ field) (''`'' @ action_as_str (ac_action a) @ ''` needs `'' @ field @ ''`'')
      | None \<Rightarrow> rp_error (np @ ''.'' @ field) (''`'' @ action_as_str (ac_action a) @ ''` needs `'' @ field @ ''`''))"

definition forbid :: "string \<Rightarrow> action_node \<Rightarrow> string \<Rightarrow> bool \<Rightarrow> diagnostic list" where
  "forbid np a field isset =
     (if isset then rp_error (np @ ''.'' @ field)
        (''`'' @ action_as_str (ac_action a) @ ''` doesn't take `'' @ field @ ''`'') else [])"

definition validate_labels :: "libs \<Rightarrow> workflow \<Rightarrow> string \<Rightarrow> action_node \<Rightarrow> diagnostic list" where
  "validate_labels L w np a =
     (if ac_labels a = []
      then rp_error (np @ ''.labels'') (''`'' @ action_as_str (ac_action a) @ ''` needs `labels`'') else [])
     @ concat (map (\<lambda>(i, l). refs_template L w (np @ ''.labels['' @ show_nat i @ '']'') TK_Text l NODE_ROOTS)
                (enumerate 0 (ac_labels a)))
     @ forbid np a ''title'' (ac_title a \<noteq> None)
     @ forbid np a ''body'' (ac_body a \<noteq> None)
     @ forbid np a ''draft'' (ac_draft a \<noteq> None)"

definition validate_action :: "libs \<Rightarrow> workflow \<Rightarrow> string \<Rightarrow> action_node \<Rightarrow> diagnostic list" where
  "validate_action L w np a =
     (case ac_action a of
        Comment \<Rightarrow>
          need L w np a ''body'' (ac_body a)
          @ forbid np a ''title'' (ac_title a \<noteq> None)
          @ forbid np a ''labels'' (ac_labels a \<noteq> [])
          @ forbid np a ''draft'' (ac_draft a \<noteq> None)
      | OpenPullRequest \<Rightarrow>
          need L w np a ''title'' (ac_title a)
          @ (case ac_body a of None \<Rightarrow> [] | Some b \<Rightarrow> refs_template L w (np @ ''.body'') TK_Text b NODE_ROOTS)
          @ forbid np a ''labels'' (ac_labels a \<noteq> [])
      | AddLabels \<Rightarrow> validate_labels L w np a
      | RemoveLabels \<Rightarrow> validate_labels L w np a)"

definition validate_node :: "libs \<Rightarrow> workflow \<Rightarrow> string \<Rightarrow> node \<Rightarrow> mode_catalog option \<Rightarrow> diagnostic list" where
  "validate_node L w np node modes =
     (case node of
        N_Agent a \<Rightarrow> validate_agent L w np a modes
      | N_Command c \<Rightarrow> validate_command L w np c
      | N_Action a \<Rightarrow> validate_action L w np a
      | N_Wait n \<Rightarrow>
          check_patterns (np @ ''.on'') (wt_on n)
          @ (case wt_condition n of None \<Rightarrow> [] | Some c \<Rightarrow> refs_expr L w (np @ ''.if'') c NODE_ROOTS)
          @ check_duration L (np @ ''.timeout'') (wt_timeout n)
      | N_End e \<Rightarrow>
          (case en_reason e of
             None \<Rightarrow> []
           | Some reason \<Rightarrow> refs_template L w (np @ ''.reason'') TK_Text reason NODE_ROOTS))"

section \<open>Reachability\<close>

definition targets :: "node \<Rightarrow> string list" where
  "targets n = (case node_next n of Some nx \<Rightarrow> map ed_to (edges nx) | None \<Rightarrow> [])"

text \<open>One round of the search: which targets of a node are nodes and new, marked and queued.\<close>

fun bfs_visit :: "node imap \<Rightarrow> string list \<Rightarrow> string set \<Rightarrow> string list \<Rightarrow> string set \<times> string list" where
  "bfs_visit nodes [] seen q = (seen, q)"
| "bfs_visit nodes (t # ts) seen q =
     (if im_contains nodes t \<and> t \<notin> seen then bfs_visit nodes ts (insert t seen) (q @ [t])
      else bfs_visit nodes ts seen q)"

definition unseen :: "node imap \<Rightarrow> string set \<Rightarrow> nat" where
  "unseen nodes seen = card (set (map fst nodes) - seen)"

lemma bfs_visit_measure:
  "bfs_visit nodes ts seen q = (seen', q') \<Longrightarrow>
    length q' + unseen nodes seen' = length q + unseen nodes seen"
proof (induction nodes ts seen q arbitrary: seen' q' rule: bfs_visit.induct)
  case (2 nodes t ts seen q)
  show ?case
  proof (cases "im_contains nodes t \<and> t \<notin> seen")
    case True
    then have t: "t \<in> set (map fst nodes) - seen" by (simp add: im_contains_iff)
    have "set (map fst nodes) - insert t seen = set (map fst nodes) - seen - {t}" by auto
    then have "Suc (unseen nodes (insert t seen)) = unseen nodes seen"
      using card_Suc_Diff1 [OF _ t] by (simp add: unseen_def)
    then show ?thesis using 2 True by auto
  next
    case False
    then show ?thesis using 2 by (auto split: if_splits)
  qed
qed simp

function bfs :: "node imap \<Rightarrow> string set \<Rightarrow> string list \<Rightarrow> string set" where
  "bfs nodes seen [] = seen"
| "bfs nodes seen (n # q) =
     (case map_of nodes n of
        None \<Rightarrow> bfs nodes seen q
      | Some node \<Rightarrow> (case bfs_visit nodes (targets node) seen q of (seen', q') \<Rightarrow> bfs nodes seen' q'))"
  by pat_completeness auto
termination
proof (relation "measure (\<lambda>(nodes, seen, q). length q + unseen nodes seen)")
  fix nodes :: "node imap" and seen seen' :: "string set" and n node q q'
  assume "map_of nodes n = Some node" and "(seen', q') = bfs_visit nodes (targets node) seen q"
  then have "bfs_visit nodes (targets node) seen q = (seen', q')" by simp
  from bfs_visit_measure [OF this]
  show "((nodes, seen', q'), (nodes, seen, n # q)) \<in> measure (\<lambda>(nodes, seen, q). length q + unseen nodes seen)" by simp
qed auto

text \<open>The reverse search: one pass over all nodes, in place; repeated while it adds something.\<close>

definition can_end_pass :: "node imap \<Rightarrow> string set \<Rightarrow> string set" where
  "can_end_pass nodes can =
     fold (\<lambda>(n, node) can. if n \<notin> can \<and> list_ex (\<lambda>t. t \<in> can) (targets node) then insert n can else can) nodes can"

lemma can_end_pass_bounds: "can \<subseteq> can_end_pass nodes can \<and> can_end_pass nodes can \<subseteq> can \<union> set (map fst nodes)"
  unfolding can_end_pass_def
proof (induction nodes arbitrary: can)
  case (Cons x nodes)
  obtain n node where x: "x = (n, node)" by fastforce
  show ?case
    using Cons.IH [of can] Cons.IH [of "insert n can"] by (auto simp: x)
qed simp

function can_end_loop :: "node imap \<Rightarrow> string set \<Rightarrow> string set" where
  "can_end_loop nodes can =
     (let can' = can_end_pass nodes can
      in if card can' = card can then can' else can_end_loop nodes can')"
  by pat_completeness auto
termination
proof (relation "measure (\<lambda>(nodes, can). unseen nodes can)")
  fix nodes :: "node imap" and can can' :: "string set"
  assume c: "can' = can_end_pass nodes can" "card can' \<noteq> card can"
  then have "can' \<noteq> can" by auto
  then obtain t where t: "t \<in> can'" "t \<notin> can" using can_end_pass_bounds [of can nodes] c(1) by blast
  have "set (map fst nodes) - can' \<subset> set (map fst nodes) - can"
    using can_end_pass_bounds [of can nodes] t c(1) by auto
  then show "((nodes, can'), (nodes, can)) \<in> measure (\<lambda>(nodes, can). unseen nodes can)"
    by (simp add: unseen_def psubset_card_mono)
qed simp

declare can_end_loop.simps [simp del]

definition is_end :: "node \<Rightarrow> bool" where
  "is_end n = (case n of N_End _ \<Rightarrow> True | _ \<Rightarrow> False)"

definition check_reachability :: "string \<Rightarrow> workflow \<Rightarrow> diagnostic list" where
  "check_reachability path w =
     (if im_contains (wf_nodes w) (wf_start w) then
        let seen = bfs (wf_nodes w) {wf_start w} [wf_start w]
        in concat (map (\<lambda>n. rp_warn (path @ ''.nodes.'' @ n)
             (''node `'' @ n @ ''` is not reachable from `'' @ wf_start w @ ''`''))
             (filter (\<lambda>n. n \<notin> seen) (map fst (wf_nodes w))))
      else [])
     @ (let ends = set (map fst (filter (\<lambda>(n, node). is_end node) (wf_nodes w)))
        in if ends = {} then rp_error (path @ ''.nodes'') ''needs at least one `end` node''
           else let can_end = can_end_loop (wf_nodes w) ends
             in concat (map (\<lambda>n. rp_error (path @ ''.nodes.'' @ n)
                  (''no `end` node can be reached from `'' @ n @ ''`''))
                  (filter (\<lambda>n. n \<notin> can_end) (map fst (wf_nodes w)))))"

section \<open>Workflows and files\<close>

definition validate_edge :: "libs \<Rightarrow> workflow \<Rightarrow> string \<Rightarrow> string list \<Rightarrow> nat \<Rightarrow> nat \<times> edge \<Rightarrow> diagnostic list" where
  "validate_edge L w ep bare len = (\<lambda>(i, e).
     (let p = ep @ ''['' @ show_nat i @ '']''; islast = (i + 1 = len)
      in (if im_contains (wf_nodes w) (ed_to e) then []
          else rp_error (p @ ''.to'') (''there is no node `'' @ ed_to e @ ''`''))
         @ (case (ed_condition e, islast) of
              (Some c, _) \<Rightarrow> refs_expr L w (p @ ''.if'') c bare
            | (None, True) \<Rightarrow> []
            | (None, False) \<Rightarrow> rp_error p ''only the last edge may omit `if`; the edges after it never run'')
         @ (if islast \<and> ed_condition e \<noteq> None
            then rp_error p ''the last edge must not have `if`, so every outcome has a next node'' else [])))"

definition validate_edges :: "libs \<Rightarrow> workflow \<Rightarrow> string \<Rightarrow> node \<Rightarrow> diagnostic list" where
  "validate_edges L w np node =
     (case node_next node of
        None \<Rightarrow> []
      | Some nx \<Rightarrow>
          (let es = edges nx; ep = np @ ''.next''; bare = NODE_ROOTS @ nt_outputs (node_type_of node)
           in (if es = [] then rp_error ep ''needs at least one edge'' else [])
              @ concat (map (validate_edge L w ep bare (length es)) (enumerate 0 es))))"

definition validate_entry :: "libs \<Rightarrow> workflow \<Rightarrow> string \<Rightarrow> mode_catalog option \<Rightarrow> string \<times> node \<Rightarrow> diagnostic list" where
  "validate_entry L w path modes = (\<lambda>(n, node).
     (let np = path @ ''.nodes.'' @ n
      in check_id np ''node'' n
         @ validate_node L w np node modes
         @ validate_edges L w np node
         @ (case node_max_visits node of
              Some m \<Rightarrow> if m = 0 then rp_error (np @ ''.max_visits'') ''must be at least 1'' else []
            | None \<Rightarrow> [])))"

definition opens_pull_request :: "node \<Rightarrow> bool" where
  "opens_pull_request n = (case n of N_Action a \<Rightarrow> ac_action a = OpenPullRequest | _ \<Rightarrow> False)"

definition node_pushes :: "node \<Rightarrow> bool" where
  "node_pushes n = (case n of N_Agent a \<Rightarrow> ag_push a | _ \<Rightarrow> False)"

fun is_scalar :: "json \<Rightarrow> bool" where
  "is_scalar (JBool _) = True"
| "is_scalar (JNum _) = True"
| "is_scalar (JStr _) = True"
| "is_scalar _ = False"

definition validate_vars :: "string \<Rightarrow> workflow \<Rightarrow> diagnostic list" where
  "validate_vars path w =
     concat (map (\<lambda>(k, v).
       (let vp = path @ ''.vars.'' @ k
        in (if ok_name k then []
            else rp_error vp ''var names use letters, digits and `_`, and don't start with a digit'')
           @ (if is_scalar v then [] else rp_error vp ''must be a string, number or boolean''))) (wf_vars w))"

definition validate_workflow :: "libs \<Rightarrow> string \<Rightarrow> workflow \<Rightarrow> mode_catalog option \<Rightarrow> diagnostic list" where
  "validate_workflow L path w modes =
     validate_vars path w
     @ check_patterns (path @ ''.on'') (wf_on w)
     @ (case wf_condition w of None \<Rightarrow> [] | Some c \<Rightarrow> refs_expr L w (path @ ''.if'') c TRIGGER_ROOTS)
     @ check_duration L (path @ ''.timeout'') (wf_timeout w)
     @ (case wf_max_runs w of
          Some m \<Rightarrow> if 1 \<le> m \<and> m \<le> MAX_MAX_RUNS then []
                     else rp_error (path @ ''.max_runs'') (''must be 1-'' @ show_nat (unat MAX_MAX_RUNS))
        | None \<Rightarrow> [])
     @ (if wf_nodes w = [] then rp_error (path @ ''.nodes'') ''needs at least one node''
        else
          (if length (wf_nodes w) > MAX_NODES
           then rp_error (path @ ''.nodes'')
             (show_nat (length (wf_nodes w)) @ '' nodes; the limit is '' @ show_nat MAX_NODES) else [])
          @ (if im_contains (wf_nodes w) (wf_start w) then []
             else rp_error (path @ ''.start'') (''there is no node `'' @ wf_start w @ ''`''))
          @ concat (map (validate_entry L w path modes) (wf_nodes w))
          @ (if \<not> list_ex node_pushes (map snd (wf_nodes w)) \<and> list_ex opens_pull_request (map snd (wf_nodes w))
             then rp_warn (path @ ''.nodes'') ''opens a pull request but no agent node has `push = true`'' else [])
          @ check_reachability path w)"

definition validate_file :: "libs \<Rightarrow> workflows_file \<Rightarrow> mode_catalog option \<Rightarrow> report" where
  "validate_file L file modes =
     \<lparr>rp_diagnostics =
       (if fl_version file \<noteq> VERSION
        then rp_error ''version'' (''unsupported version '' @ show_nat (unat (fl_version file)) @ ''; expected ''
               @ show_nat (unat VERSION)) else [])
       @ (if length (fl_workflows file) > MAX_WORKFLOWS
          then rp_error ''workflows'' (show_nat (length (fl_workflows file)) @ '' workflows; the limit is ''
                 @ show_nat MAX_WORKFLOWS) else [])
       @ concat (map (\<lambda>(name, w).
           (let path = ''workflows.'' @ name
            in check_id path ''workflow'' name @ validate_workflow L path w modes)) (fl_workflows file))\<rparr>"

definition check :: "libs \<Rightarrow> string \<Rightarrow> mode_catalog option \<Rightarrow> workflows_file option \<times> report" where
  "check L text modes =
     (case parse L text of
        Inr file \<Rightarrow> (Some file, validate_file L file modes)
      | Inl e \<Rightarrow> (None, \<lparr>rp_diagnostics = rp_error [] e\<rparr>))"

end
