(* ===== verification/Wf_Dry_Run.thy ===== *)
theory Wf_Dry_Run
  imports Wf_Run_Props Wf_Validate
begin

text \<open>
  Dry runs against logged events: \<^verbatim>\<open>ez/crates/ez-workflow/src/dry_run.rs\<close>. The walk drives the run of
  \<open>Wf_Run\<close> with assumed outcomes. Indexing a node that is not there panics in the code: \<open>walk\<close> and what
  calls it return \<open>None\<close> there, and \<open>trace_total\<close> shows that this never happens.
\<close>

section \<open>Traces\<close>

definition DEFAULT_MAX_STEPS :: nat where "DEFAULT_MAX_STEPS = 200"

record dry_run_options =
  do_workflow :: "string option"
  do_assume :: "string \<rightharpoonup> json"
  do_max_steps :: nat

record mode_view =
  mw_id :: string
  mw_tools :: "string list option"

record trace_step =
  ts_node :: string
  ts_node_type :: node_type
  ts_visit :: u32
  ts_rendered :: "rendered option"
  ts_mode :: "mode_view option"
  ts_assumed :: "json option"
  ts_transition :: "transition option"

datatype trace_end =
    TE_Ended end_status "string option" "string option"
  | TE_NeedsOutcome string node_type "string list" "edge list"
  | TE_StepLimit nat

record trace =
  tr_workflow :: string
  tr_forced :: bool
  tr_steps :: "trace_step list"
  tr_end :: trace_end

record dry_run_result =
  dr_report :: report
  dr_triggers :: "trigger_eval list"
  dr_traces :: "trace list"

definition trace_done :: "string \<Rightarrow> bool \<Rightarrow> trace_step list \<Rightarrow> trace_end \<Rightarrow> trace" where
  "trace_done workflow forced steps end' =
     \<lparr>tr_workflow = workflow, tr_forced = forced, tr_steps = steps, tr_end = end'\<rparr>"

definition visit_count :: "run_state \<Rightarrow> string \<Rightarrow> u32" where
  "visit_count s n = (case rs_visits s n of Some v \<Rightarrow> v | None \<Rightarrow> 1)"

definition mode_view_of :: "mode_catalog option \<Rightarrow> node \<Rightarrow> mode_view option" where
  "mode_view_of modes node =
     (case node of
        N_Agent a \<Rightarrow> Some \<lparr>mw_id = ag_mode a,
          mw_tools = (case modes of None \<Rightarrow> None | Some m \<Rightarrow>
            (case map_of (mc_modes m) (ag_mode a) of Some tools \<Rightarrow> tools | None \<Rightarrow> None))\<rparr>
      | _ \<Rightarrow> None)"

text \<open>The step recorded when the run has ended at a node.\<close>

definition end_steps :: "run_state \<Rightarrow> end_status \<Rightarrow> string option \<Rightarrow> string option \<Rightarrow> trace_step list" where
  "end_steps s status node reason =
     (case node of
        None \<Rightarrow> []
      | Some n \<Rightarrow>
          [\<lparr>ts_node = n, ts_node_type = T_End, ts_visit = visit_count s n,
            ts_rendered = Some (R_End status (case reason of Some r \<Rightarrow> r | None \<Rightarrow> [])),
            ts_mode = None, ts_assumed = None, ts_transition = None\<rparr>])"

text \<open>Rendering the current node: the state (failed when a template fails) and the rendered node.\<close>

definition walk_render :: "libs \<Rightarrow> workflows_file \<Rightarrow> run_state \<Rightarrow> run_state \<times> rendered option" where
  "walk_render L file s =
     (case run_render L file s of
        Inr (Inr r) \<Rightarrow> (s, Some r)
      | Inr (Inl msg) \<Rightarrow> (run_fail msg s, None)
      | Inl e \<Rightarrow> (run_fail (run_error_display e) s, None))"

definition walk_advance :: "libs \<Rightarrow> workflows_file \<Rightarrow> json \<Rightarrow> run_state \<Rightarrow> run_state \<times> transition option" where
  "walk_advance L file outputs s =
     (case advance L file outputs s of
        (Inr t, s') \<Rightarrow> (s', Some t)
      | (Inl e, s') \<Rightarrow> (run_fail (run_error_display e) s', None))"

function walk :: "libs \<Rightarrow> workflows_file \<Rightarrow> workflow \<Rightarrow> mode_catalog option \<Rightarrow> (string \<rightharpoonup> json) \<Rightarrow> nat
    \<Rightarrow> trace_step list \<Rightarrow> run_state \<Rightarrow> (trace_step list \<times> trace_end) option" where
  "walk L file w modes assm max_steps steps s =
     (case rs_status s of
        RS_Ended status node reason \<Rightarrow>
          Some (steps @ end_steps s status node reason, TE_Ended status node reason)
      | RS_At n \<Rightarrow>
          if length steps \<ge> max_steps then Some (steps, TE_StepLimit max_steps)
          else
            (case map_of (wf_nodes w) n of
               None \<Rightarrow> None
             | Some node \<Rightarrow>
                 (let (s1, r) = walk_render L file s;
                      stp = \<lparr>ts_node = n, ts_node_type = node_type_of node, ts_visit = visit_count s n,
                             ts_rendered = r, ts_mode = mode_view_of modes node, ts_assumed = None,
                             ts_transition = None\<rparr>
                  in if is_ended s1 then walk L file w modes assm max_steps (steps @ [stp]) s1
                     else
                       (case assm n of
                          None \<Rightarrow>
                            Some (steps @ [stp],
                              TE_NeedsOutcome n (node_type_of node) (nt_outputs (node_type_of node))
                                (case node_next node of Some nx \<Rightarrow> edges nx | None \<Rightarrow> []))
                        | Some outputs \<Rightarrow>
                            (let (s2, t) = walk_advance L file outputs s1
                             in walk L file w modes assm max_steps
                                  (steps @ [stp\<lparr>ts_assumed := Some outputs, ts_transition := t\<rparr>]) s2)))))"
  by pat_completeness auto
termination
  by (relation "measure (\<lambda>(L, file, w, modes, assm, max_steps, steps, s). max_steps - length steps)") auto

declare walk.simps [simp del]

definition dry_run_info :: run_info where
  "dry_run_info = \<lparr>ri_id = ''dry-run'', ri_attempt = 1, ri_test = True\<rparr>"

definition trace_workflow :: "libs \<Rightarrow> workflows_file \<Rightarrow> mode_catalog option \<Rightarrow> wf_event \<Rightarrow> string \<Rightarrow> bool
    \<Rightarrow> (string \<rightharpoonup> json) \<Rightarrow> nat \<Rightarrow> trace option" where
  "trace_workflow L file modes ev workflow forced assm max_steps =
     (case run_start file workflow ev dry_run_info of
        Inl e \<Rightarrow> Some \<lparr>tr_workflow = workflow, tr_forced = forced, tr_steps = [],
                   tr_end = TE_Ended ES_Failed None (Some (run_error_display e))\<rparr>
      | Inr s \<Rightarrow>
          (case map_of (fl_workflows file) workflow of
             None \<Rightarrow> None
           | Some w \<Rightarrow>
               map_option (\<lambda>(steps, end'). trace_done workflow forced steps end')
                 (walk L file w modes assm max_steps [] s)))"

definition traced :: "dry_run_options \<Rightarrow> trigger_eval list \<Rightarrow> (string \<times> bool) list" where
  "traced opts triggers =
     (let ts = map (\<lambda>t. (te_workflow t, False)) (filter te_matched triggers)
      in case do_workflow opts of
           Some w \<Rightarrow> if w \<notin> set (map fst ts) then ts @ [(w, True)] else ts
         | None \<Rightarrow> ts)"

fun all_some :: "'a option list \<Rightarrow> 'a list option" where
  "all_some [] = Some []"
| "all_some (x # xs) =
     (case x of None \<Rightarrow> None | Some v \<Rightarrow> map_option (\<lambda>vs. v # vs) (all_some xs))"

definition dry_run :: "libs \<Rightarrow> workflows_file \<Rightarrow> mode_catalog option \<Rightarrow> wf_event \<Rightarrow> dry_run_options
    \<Rightarrow> dry_run_result option" where
  "dry_run L file modes ev opts =
     (let rep = validate_file L file modes
      in if \<not> rp_is_ok rep then Some \<lparr>dr_report = rep, dr_triggers = [], dr_traces = []\<rparr>
         else
           let triggers = evaluate_triggers L file ev;
               max_steps = (if do_max_steps opts = 0 then DEFAULT_MAX_STEPS else do_max_steps opts)
           in map_option (\<lambda>ts. \<lparr>dr_report = rep, dr_triggers = triggers, dr_traces = ts\<rparr>)
                (all_some (map (\<lambda>(w, forced). trace_workflow L file modes ev w forced (do_assume opts) max_steps)
                  (traced opts triggers))))"

section \<open>Totality\<close>

definition pushes :: "trace_step \<Rightarrow> bool" where
  "pushes t = (case ts_rendered t of Some (R_Agent mode instruction schema push) \<Rightarrow> push | _ \<Rightarrow> False)"

definition test_at :: "workflows_file \<Rightarrow> workflow \<Rightarrow> run_state \<Rightarrow> bool" where
  "test_at file w s \<longleftrightarrow> place_inv file s \<and> map_of (fl_workflows file) (rs_workflow s) = Some w \<and> ri_test (rs_run s)"

lemma fail_run [simp]: "rs_run (run_fail m s) = rs_run s"
  by (simp add: run_fail_def)

lemma test_at_render: "test_at file w s \<Longrightarrow> test_at file w (fst (walk_render L file s))"
  by (auto simp: test_at_def walk_render_def fail_cancel_place split: sum.split)

lemma test_at_advance: "test_at file w s \<Longrightarrow> test_at file w (fst (walk_advance L file outputs s))"
proof -
  assume t: "test_at file w s"
  obtain r s' where a: "advance L file outputs s = (r, s')" by fastforce
  have "place_inv file s'" using t advance_place [of "file" s L outputs] a by (simp add: test_at_def)
  moreover have "rs_workflow s' = rs_workflow s" "rs_run s' = rs_run s"
    using advance_keeps [of L "file" outputs s] a by (metis snd_conv)+
  ultimately show ?thesis using t a fail_cancel_place by (cases r) (auto simp: test_at_def walk_advance_def)
qed

lemma render_no_push:
  "test_at file w s \<Longrightarrow> run_render L file s = Inr (Inr (R_Agent mode instruction schema push)) \<Longrightarrow> \<not> push"
  by (auto simp: test_at_def run_render_def render_node_def Let_def split: sum.splits node.splits prod.splits)

lemma walk_render_no_push:
  "test_at file w s \<Longrightarrow> ts_rendered t = snd (walk_render L file s) \<Longrightarrow> \<not> pushes t"
  by (auto simp: pushes_def walk_render_def dest: render_no_push split: sum.splits rendered.splits)

lemma end_steps_simps: "length (end_steps s st n r) \<le> 1" "x \<in> set (end_steps s st n r) \<Longrightarrow> \<not> pushes x"
  by (auto simp: end_steps_def pushes_def split: option.splits)

lemma test_at_node: "test_at file w s \<Longrightarrow> rs_status s = RS_At n \<Longrightarrow> \<exists>node. map_of (wf_nodes w) n = Some node"
  by (auto simp: test_at_def place_inv_def)

lemma walk_total:
  assumes "test_at file w s" and "length steps \<le> max_steps" and "list_all (\<lambda>t. \<not> pushes t) steps"
  shows "\<exists>st e. walk L file w modes assm max_steps steps s = Some (st, e)
    \<and> length st \<le> Suc max_steps \<and> list_all (\<lambda>t. \<not> pushes t) st"
  using assms
proof (induction "max_steps - length steps" arbitrary: steps s rule: less_induct)
  case less
  show ?case
  proof (cases "rs_status s")
    case (RS_Ended status node reason)
    then show ?thesis using less.prems end_steps_simps(1) [of s status node reason] end_steps_simps(2) [of _ s status node reason]
      by (auto simp: walk.simps [of L "file" w modes assm max_steps steps s] list_all_iff)
  next
    case (RS_At n)
    show ?thesis
    proof (cases "length steps \<ge> max_steps")
      case True
      then have "walk L file w modes assm max_steps steps s = Some (steps, TE_StepLimit max_steps)"
        using RS_At by (simp add: walk.simps [of L "file" w modes assm max_steps steps s])
      then show ?thesis using less.prems by auto
    next
      case False
      obtain node where node: "map_of (wf_nodes w) n = Some node" using test_at_node [OF less.prems(1) RS_At] by blast
      obtain s1 r where r: "walk_render L file s = (s1, r)" by fastforce
      have s1: "test_at file w s1" using test_at_render [OF less.prems(1), of L] r by simp
      have IH: "\<exists>st e. walk L file w modes assm max_steps (steps @ [t]) s' = Some (st, e)
          \<and> length st \<le> Suc max_steps \<and> list_all (\<lambda>t. \<not> pushes t) st"
        if "test_at file w s'" "ts_rendered t = r" for t s'
        using less.hyps [of "steps @ [t]" s'] less.prems False that walk_render_no_push [OF less.prems(1), of t L] r
        by (auto simp: list_all_iff)
      let ?t = "\<lparr>ts_node = n, ts_node_type = node_type_of node, ts_visit = visit_count s n, ts_rendered = r,
        ts_mode = mode_view_of modes node, ts_assumed = None, ts_transition = None\<rparr>"
      have t: "\<not> pushes ?t" using walk_render_no_push [OF less.prems(1), of ?t L] r by simp
      show ?thesis
      proof (cases "is_ended s1")
        case True
        then show ?thesis using RS_At False node r IH [OF s1, of ?t]
          by (simp add: walk.simps [of L "file" w modes assm max_steps steps s])
      next
        case running: False
        show ?thesis
        proof (cases "assm n")
          case None
          then show ?thesis using RS_At False node r running less.prems t
            by (simp add: walk.simps [of L "file" w modes assm max_steps steps s])
        next
          case (Some outputs)
          obtain s2 t2 where a: "walk_advance L file outputs s1 = (s2, t2)" by fastforce
          have "test_at file w s2" using test_at_advance [OF s1, of L outputs] a by simp
          from IH [OF this, of "?t\<lparr>ts_assumed := Some outputs, ts_transition := t2\<rparr>"]
          show ?thesis using RS_At False node r running Some a
            by (simp add: walk.simps [of L "file" w modes assm max_steps steps s])
        qed
      qed
    qed
  qed
qed

lemma trace_total:
  "\<exists>t. trace_workflow L file modes ev workflow forced assm max_steps = Some t
    \<and> length (tr_steps t) \<le> Suc max_steps \<and> list_all (\<lambda>t. \<not> pushes t) (tr_steps t)"
proof (cases "run_start file workflow ev dry_run_info")
  case (Inl e)
  then show ?thesis by (simp add: trace_workflow_def)
next
  case (Inr s)
  then obtain w where w: "map_of (fl_workflows file) workflow = Some w" "rs_workflow s = workflow"
      "rs_run s = dry_run_info"
    by (auto simp: run_start_def split: option.splits if_splits)
  then have "test_at file w s" using start_place [OF Inr] by (simp add: test_at_def dry_run_info_def)
  from walk_total [OF this, of "[]" max_steps L modes assm] show ?thesis
    using Inr w by (auto simp: trace_workflow_def trace_done_def)
qed

lemma all_some_total: "(\<And>x. x \<in> set xs \<Longrightarrow> \<exists>v. f x = Some v \<and> P v) \<Longrightarrow> \<exists>vs. all_some (map f xs) = Some vs \<and> list_all P vs"
  by (induction xs) fastforce+

text \<open>
  C40: a dry run always returns. For every file, event and assumption it does not panic and does not loop: each
  trace has at most one step more than the step limit, no traced node asks for a push, and a
  file with errors is not traced at all.
\<close>

theorem dry_run_total:
  "\<exists>r. dry_run L file modes ev opts = Some r
    \<and> dr_report r = validate_file L file modes
    \<and> list_all (\<lambda>t. length (tr_steps t) \<le> Suc (if do_max_steps opts = 0 then DEFAULT_MAX_STEPS else do_max_steps opts)
          \<and> list_all (\<lambda>s. \<not> pushes s) (tr_steps t)) (dr_traces r)
    \<and> (rp_is_ok (dr_report r) \<or> dr_traces r = [])"
proof (cases "rp_is_ok (validate_file L file modes)")
  case False
  then show ?thesis by (simp add: dry_run_def Let_def)
next
  case True
  let ?max = "if do_max_steps opts = 0 then DEFAULT_MAX_STEPS else do_max_steps opts"
  let ?f = "\<lambda>(w, forced). trace_workflow L file modes ev w forced (do_assume opts) ?max"
  have "\<exists>vs. all_some (map ?f (traced opts (evaluate_triggers L file ev))) = Some vs
      \<and> list_all (\<lambda>t. length (tr_steps t) \<le> Suc ?max \<and> list_all (\<lambda>s. \<not> pushes s) (tr_steps t)) vs"
    by (rule all_some_total) (use trace_total in auto)
  then show ?thesis using True by (auto simp: dry_run_def Let_def)
qed

end
