(* ===== verification/Wf_Validate_Props.thy ===== *)
theory Wf_Validate_Props
  imports Wf_Validate Wf_Run_Props
begin

text \<open>
  What validation guarantees. The two searches of \<open>check_reachability\<close> compute reachability in the graph
  of a workflow exactly; a file without errors has the shape that a run relies on; and a run
  of such a file ends other than at an \<^verbatim>\<open>end\<close> node only for a reason no validation can exclude.
\<close>

section \<open>The graph\<close>

definition graph_edge :: "node imap \<Rightarrow> string \<Rightarrow> string \<Rightarrow> bool" where
  "graph_edge nodes a b \<longleftrightarrow> (\<exists>node. map_of nodes a = Some node \<and> b \<in> set (targets node) \<and> im_contains nodes b)"

definition ends_at :: "node imap \<Rightarrow> string \<Rightarrow> bool" where
  "ends_at nodes a \<longleftrightarrow> (\<exists>b e. (graph_edge nodes)\<^sup>*\<^sup>* a b \<and> map_of nodes b = Some (N_End e))"

section \<open>Forward search\<close>

lemma bfs_visit_eq:
  "bfs_visit nodes ts seen q = (seen', q') \<Longrightarrow>
    seen' = seen \<union> {t \<in> set ts. im_contains nodes t} \<and> set q' = set q \<union> (seen' - seen)"
proof (induction nodes ts seen q arbitrary: seen' q' rule: bfs_visit.induct)
  case (2 nodes t ts seen q)
  show ?case
  proof (cases "im_contains nodes t \<and> t \<notin> seen")
    case True
    then have "bfs_visit nodes ts (insert t seen) (q @ [t]) = (seen', q')" using 2(3) by simp
    from 2(1) [OF True this] show ?thesis using True by auto
  next
    case False
    then have "bfs_visit nodes ts seen q = (seen', q')" using 2(3) by (auto split: if_splits)
    from 2(2) [OF False this] show ?thesis using False by auto
  qed
qed simp

lemma closed_reach: "(\<And>x y. x \<in> S \<Longrightarrow> E x y \<Longrightarrow> y \<in> S) \<Longrightarrow> {y. \<exists>x \<in> S. E\<^sup>*\<^sup>* x y} = S"
proof -
  assume c: "\<And>x y. x \<in> S \<Longrightarrow> E x y \<Longrightarrow> y \<in> S"
  have "y \<in> S" if "E\<^sup>*\<^sup>* x y" "x \<in> S" for x y using that by (induction rule: rtranclp_induct) (auto intro: c)
  then show ?thesis by auto
qed

lemma reach_grow:
  assumes "n \<in> S" and "\<And>y. y \<in> T \<Longrightarrow> E n y"
  shows "{y. \<exists>x \<in> S \<union> T. E\<^sup>*\<^sup>* x y} = {y. \<exists>x \<in> S. E\<^sup>*\<^sup>* x y}"
  using assms by (auto intro: converse_rtranclp_into_rtranclp)

lemma bfs_reach:
  assumes "set q \<subseteq> seen" and "\<And>x y. x \<in> seen \<Longrightarrow> x \<notin> set q \<Longrightarrow> graph_edge nodes x y \<Longrightarrow> y \<in> seen"
  shows "bfs nodes seen q = {y. \<exists>x \<in> seen. (graph_edge nodes)\<^sup>*\<^sup>* x y}"
  using assms
proof (induction nodes seen q rule: bfs.induct)
  case (1 nodes seen)
  then show ?case using closed_reach [of seen "graph_edge nodes"] by simp
next
  case (2 nodes seen n q)
  show ?case
  proof (cases "map_of nodes n")
    case None
    then have "\<not> graph_edge nodes n y" for y by (simp add: graph_edge_def)
    then have "y \<in> seen" if "x \<in> seen" "x \<notin> set q" "graph_edge nodes x y" for x y
      using 2(4) [of x y] that by (cases "x = n") auto
    then show ?thesis using 2(1) [OF None] 2(3) None by simp
  next
    case (Some node)
    obtain seen' q' where v: "bfs_visit nodes (targets node) seen q = (seen', q')" by fastforce
    let ?new = "{t \<in> set (targets node). im_contains nodes t}"
    have s: "seen' = seen \<union> ?new" "set q' = set q \<union> (seen' - seen)" using bfs_visit_eq [OF v] by auto
    have "y \<in> seen'" if "x \<in> seen'" "x \<notin> set q'" "graph_edge nodes x y" for x y
    proof (cases "x = n")
      case True
      then show ?thesis using that(3) Some s(1) by (auto simp: graph_edge_def)
    next
      case False
      then have "x \<in> seen" "x \<notin> set (n # q)" using that s by auto
      then show ?thesis using 2(4) that(3) s(1) by blast
    qed
    moreover have "set q' \<subseteq> seen'" using 2(3) s by auto
    ultimately have "bfs nodes seen' q' = {y. \<exists>x \<in> seen'. (graph_edge nodes)\<^sup>*\<^sup>* x y}"
      using 2(2) [OF Some v [symmetric]] by simp
    also have "\<dots> = {y. \<exists>x \<in> seen. (graph_edge nodes)\<^sup>*\<^sup>* x y}"
      unfolding s(1) using 2(3) Some by (intro reach_grow [of n]) (auto simp: graph_edge_def)
    finally show ?thesis using Some v by simp
  qed
qed

section \<open>Backward search\<close>

lemma can_end_pass_Cons:
  "can_end_pass ((n, node) # nodes) can =
    can_end_pass nodes (if n \<notin> can \<and> list_ex (\<lambda>t. t \<in> can) (targets node) then insert n can else can)"
  by (simp add: can_end_pass_def)

lemma can_end_pass_closed:
  "(n, node) \<in> set nodes \<Longrightarrow> t \<in> set (targets node) \<Longrightarrow> t \<in> can \<Longrightarrow> n \<in> can_end_pass nodes can"
proof (induction nodes arbitrary: can)
  case (Cons x nodes)
  obtain m node' where x: "x = (m, node')" by fastforce
  let ?can = "if m \<notin> can \<and> list_ex (\<lambda>t. t \<in> can) (targets node') then insert m can else can"
  show ?case
  proof (cases "(n, node) = x")
    case True
    then have "n \<in> ?can" using Cons.prems x by (auto simp: list_ex_iff)
    then show ?thesis using can_end_pass_bounds [of ?can nodes] unfolding x can_end_pass_Cons by blast
  next
    case False
    then have "n \<in> can_end_pass nodes ?can" using Cons by (intro Cons.IH) auto
    then show ?thesis by (simp only: x can_end_pass_Cons)
  qed
qed simp

definition pred_closed :: "node imap \<Rightarrow> string set \<Rightarrow> bool" where
  "pred_closed nodes R \<longleftrightarrow> (\<forall>n node t. (n, node) \<in> set nodes \<longrightarrow> t \<in> set (targets node) \<longrightarrow> t \<in> R \<longrightarrow> n \<in> R)"

lemma can_end_pass_sound: "pred_closed nodes R \<Longrightarrow> can \<subseteq> R \<Longrightarrow> can_end_pass nodes can \<subseteq> R"
proof (induction nodes arbitrary: can)
  case (Cons x nodes)
  obtain n node where x: "x = (n, node)" by fastforce
  let ?can = "if n \<notin> can \<and> list_ex (\<lambda>t. t \<in> can) (targets node) then insert n can else can"
  have "?can \<subseteq> R" using Cons.prems x by (auto simp: list_ex_iff pred_closed_def)
  moreover have "pred_closed nodes R" using Cons.prems(1) by (auto simp: pred_closed_def)
  ultimately show ?case unfolding x can_end_pass_Cons using Cons.IH by blast
qed (simp add: can_end_pass_def)

lemma can_end_loop_spec:
  assumes "pred_closed nodes R" and "can \<subseteq> R" and "finite can"
  shows "can \<subseteq> can_end_loop nodes can \<and> can_end_loop nodes can \<subseteq> R \<and> pred_closed nodes (can_end_loop nodes can)"
  using assms
proof (induction nodes can rule: can_end_loop.induct)
  case (1 nodes can)
  let ?can = "can_end_pass nodes can"
  have sub: "can \<subseteq> ?can" "?can \<subseteq> R" "finite ?can"
    using can_end_pass_bounds [of can nodes] can_end_pass_sound [of nodes R can] 1(2-4)
    by (auto intro: finite_subset)
  show ?case
  proof (cases "card ?can = card can")
    case True
    then have "?can = can" using sub card_subset_eq by metis
    then show ?thesis using sub True can_end_pass_closed [of _ _ nodes _ can]
      by (auto simp: can_end_loop.simps [of nodes can] pred_closed_def)
  next
    case False
    have "can_end_loop nodes can = can_end_loop nodes ?can" using False by (simp add: can_end_loop.simps [of nodes can] Let_def)
    then show ?thesis using 1(1) [OF refl False 1(2) sub(2,3)] sub(1) by auto
  qed
qed

lemma can_end_loop_ends:
  assumes "distinct (map fst nodes)"
  shows "can_end_loop nodes (set (map fst (filter (\<lambda>(n, node). is_end node) nodes))) = {n. im_contains nodes n \<and> ends_at nodes n}"
    (is "can_end_loop nodes ?ends = ?R")
proof -
  have mem: "(n, node) \<in> set nodes \<longleftrightarrow> map_of nodes n = Some node" for n node
    using assms by (metis map_of_SomeD map_of_is_SomeI)
  have ends: "n \<in> ?ends \<longleftrightarrow> (\<exists>e. map_of nodes n = Some (N_End e))" for n
    by (force simp: mem is_end_def split: node.splits)
  have "n \<in> ?R" if "(n, node) \<in> set nodes" "t \<in> set (targets node)" "t \<in> ?R" for n node t
  proof -
    have n: "map_of nodes n = Some node" using that(1) by (simp add: mem)
    then have "graph_edge nodes n t" using that(2,3) by (simp add: graph_edge_def)
    then show ?thesis using that(3) n converse_rtranclp_into_rtranclp by (fastforce simp: ends_at_def im_contains_def)
  qed
  then have pred: "pred_closed nodes ?R" unfolding pred_closed_def by blast
  have "?ends \<subseteq> ?R" by (auto simp: ends ends_at_def im_contains_def simp del: set_map)
  from can_end_loop_spec [OF pred this finite_set] have loop: "?ends \<subseteq> can_end_loop nodes ?ends"
    "can_end_loop nodes ?ends \<subseteq> ?R" and closed: "pred_closed nodes (can_end_loop nodes ?ends)" by blast+
  have "a \<in> can_end_loop nodes ?ends" if "(graph_edge nodes)\<^sup>*\<^sup>* a b" "b \<in> ?ends" for a b
    using that by (induction rule: converse_rtranclp_induct) (use loop closed in \<open>auto simp: graph_edge_def mem pred_closed_def simp del: set_map\<close>)
  then have "?R \<subseteq> can_end_loop nodes ?ends" using ends by (auto simp: ends_at_def simp del: set_map)
  then show ?thesis using loop(2) by blast
qed

lemma bfs_start: "bfs nodes {n} [n] = {m. (graph_edge nodes)\<^sup>*\<^sup>* n m}"
  by (subst bfs_reach) auto

lemma no_end: "set (map fst (filter (\<lambda>(n, node). is_end node) nodes)) = {} \<longleftrightarrow> \<not> list_ex is_end (map snd nodes)"
  by (auto simp: list_ex_iff filter_empty_conv split_beta)

lemma cannot_end:
  "distinct (map fst nodes) \<Longrightarrow>
    filter (\<lambda>n. n \<notin> can_end_loop nodes (set (map fst (filter (\<lambda>(n, node). is_end node) nodes)))) (map fst nodes)
    = filter (\<lambda>n. \<not> ends_at nodes n) (map fst nodes)"
  by (rule filter_cong) (auto simp: can_end_loop_ends im_contains_iff simp del: set_map)

lemmas reachability_facts = check_reachability_def Let_def bfs_start no_end cannot_end mem_Collect_eq

text \<open>
  C39: the reachability check is exact. It warns about exactly the nodes no path leads to from the start
  node, and reports as an error exactly the nodes from which no path leads to an \<^verbatim>\<open>end\<close> node
  (or, once, that there is none), each in file order.
\<close>

theorem reachability_exact:
  assumes "distinct (map fst (wf_nodes w))"
  shows "check_reachability path w =
    (if im_contains (wf_nodes w) (wf_start w) then
       concat (map (\<lambda>n. rp_warn (path @ ''.nodes.'' @ n) (''node `'' @ n @ ''` is not reachable from `'' @ wf_start w @ ''`''))
         (filter (\<lambda>n. \<not> (graph_edge (wf_nodes w))\<^sup>*\<^sup>* (wf_start w) n) (map fst (wf_nodes w))))
     else [])
    @ (if list_ex is_end (map snd (wf_nodes w)) then
         concat (map (\<lambda>n. rp_error (path @ ''.nodes.'' @ n) (''no `end` node can be reached from `'' @ n @ ''`''))
           (filter (\<lambda>n. \<not> ends_at (wf_nodes w) n) (map fst (wf_nodes w))))
       else rp_error (path @ ''.nodes'') ''needs at least one `end` node'')"
  using cannot_end [OF assms] by (simp only: reachability_facts if_not_P split: if_split) simp

theorem reachability_exact_witness:
  "check_reachability ''w'' example_end = []"
proof -
  have "(graph_edge (wf_nodes example_end))\<^sup>*\<^sup>* (wf_start example_end) ''stop''" by (simp add: example_end_def)
  moreover have "ends_at (wf_nodes example_end) ''stop''"
    unfolding ends_at_def by (rule exI [of _ "''stop''"]) (simp add: example_end_def)
  ultimately show ?thesis
    using reachability_exact [of example_end "''w''"] by (simp add: example_end_def is_end_def)
qed

section \<open>Files without errors\<close>

definition no_errors :: "diagnostic list \<Rightarrow> bool" where
  "no_errors ds \<longleftrightarrow> list_all (\<lambda>d. dg_severity d \<noteq> Sev_Error) ds"

lemma no_errors_simps [simp]:
  "no_errors []" "no_errors (a @ b) \<longleftrightarrow> no_errors a \<and> no_errors b" "\<not> no_errors (rp_error p m)" "no_errors (rp_warn p m)"
  "no_errors (concat xs) \<longleftrightarrow> (\<forall>x \<in> set xs. no_errors x)"
  by (auto simp: no_errors_def rp_error_def rp_warn_def rp_push_def list_all_iff)

lemma rp_is_ok_iff: "rp_is_ok r \<longleftrightarrow> no_errors (rp_diagnostics r)"
  by (auto simp: rp_is_ok_def no_errors_def list_all_iff list_ex_iff)

text \<open>The edges of a node as validation leaves them.\<close>

definition edges_ok :: "node imap \<Rightarrow> edge list \<Rightarrow> bool" where
  "edges_ok nodes es \<longleftrightarrow> es \<noteq> [] \<and> ed_condition (last es) = None
     \<and> list_all (\<lambda>e. ed_condition e \<noteq> None) (butlast es) \<and> list_all (\<lambda>e. im_contains nodes (ed_to e)) es"

lemma validate_edge_ok:
  "no_errors (validate_edge L w ep bare len (i, e)) \<Longrightarrow>
    im_contains (wf_nodes w) (ed_to e) \<and> (ed_condition e = None \<longleftrightarrow> i + 1 = len)"
  by (auto simp: validate_edge_def Let_def split: if_splits option.splits bool.splits)

lemma validate_edges_ok:
  assumes "no_errors (validate_edges L w np node)" and "node_next node = Some nx"
  shows "edges_ok (wf_nodes w) (edges nx)"
proof -
  let ?es = "edges nx"
  have ne: "?es \<noteq> []" using assms by (auto simp: validate_edges_def Let_def split: if_splits)
  have e: "im_contains (wf_nodes w) (ed_to (?es ! i)) \<and> (ed_condition (?es ! i) = None \<longleftrightarrow> i + 1 = length ?es)"
    if "i < length ?es" for i
  proof -
    have "(i, ?es ! i) \<in> set (enumerate 0 ?es)" using that by (simp add: in_set_enumerate_eq)
    then have "no_errors (validate_edge L w (np @ ''.next'') (NODE_ROOTS @ nt_outputs (node_type_of node)) (length ?es) (i, ?es ! i))"
      using assms by (auto simp: validate_edges_def Let_def)
    then show ?thesis by (rule validate_edge_ok)
  qed
  have "ed_condition (last ?es) = None" using e [of "length ?es - 1"] ne by (simp add: last_conv_nth)
  moreover have "list_all (\<lambda>e. ed_condition e \<noteq> None) (butlast ?es)"
  proof -
    have "ed_condition (butlast ?es ! i) \<noteq> None" if "i < length (butlast ?es)" for i
      using e [of i] that by (simp add: nth_butlast)
    then show ?thesis by (simp add: list_all_length)
  qed
  moreover have "list_all (\<lambda>e. im_contains (wf_nodes w) (ed_to e)) ?es" using e by (simp add: list_all_length)
  ultimately show ?thesis using ne by (simp add: edges_ok_def)
qed

lemma no_errors_ends:
  assumes "distinct (map fst (wf_nodes w))" and "no_errors (check_reachability path w)" and "map_of (wf_nodes w) n = Some node"
  shows "ends_at (wf_nodes w) n"
proof -
  have "n \<in> set (map fst (wf_nodes w))" using map_of_SomeD [OF assms(3)] by force
  moreover have "\<not> no_errors (concat (map (\<lambda>n. rp_error (f n) (g n)) ns))" if "ns \<noteq> []" for f g and ns :: "string list"
    using that by (cases ns) auto
  then have "filter (\<lambda>n. \<not> ends_at (wf_nodes w) n) (map fst (wf_nodes w)) = []"
    using assms(2) unfolding reachability_facts cannot_end [OF assms(1)] by (auto split: if_splits)
  ultimately show ?thesis unfolding filter_empty_conv by blast
qed

lemma validate_file_workflow:
  assumes "rp_is_ok (validate_file L file modes)" and "map_of (fl_workflows file) name = Some w"
  shows "no_errors (validate_workflow L (''workflows.'' @ name) w modes)"
proof -
  have "(name, w) \<in> set (fl_workflows file)" using assms(2) by (rule map_of_SomeD)
  then show ?thesis using assms(1) by (force simp: rp_is_ok_iff validate_file_def Let_def)
qed

lemma validate_workflow_parts:
  assumes "no_errors (validate_workflow L path w modes)"
  shows "im_contains (wf_nodes w) (wf_start w) \<and> no_errors (check_reachability path w)
    \<and> (\<forall>entry \<in> set (wf_nodes w). no_errors (validate_entry L w path modes entry))"
  using assms by (auto simp: validate_workflow_def split: if_splits)

text \<open>
  A file without errors is well formed. The start node of each workflow exists; every node has at
  least one visit; the edges of a node lead to nodes of the workflow, exactly the last one is
  unconditional; and from every node an \<^verbatim>\<open>end\<close> node can be reached.
\<close>

theorem validate_sound:
  assumes "file_maps file" and "rp_is_ok (validate_file L file modes)" and "map_of (fl_workflows file) name = Some w"
  shows "im_contains (wf_nodes w) (wf_start w)
    \<and> (\<forall>n node. map_of (wf_nodes w) n = Some node \<longrightarrow>
         max_visits node \<noteq> 0 \<and> ends_at (wf_nodes w) n
         \<and> (case node_next node of Some nx \<Rightarrow> edges_ok (wf_nodes w) (edges nx) | None \<Rightarrow> is_end node))"
proof -
  have v: "im_contains (wf_nodes w) (wf_start w)" "no_errors (check_reachability (''workflows.'' @ name) w)"
    "\<And>entry. entry \<in> set (wf_nodes w) \<Longrightarrow> no_errors (validate_entry L w (''workflows.'' @ name) modes entry)"
    using validate_workflow_parts [OF validate_file_workflow [OF assms(2,3)]] by auto
  have d: "distinct (map fst (wf_nodes w))"
    using assms(1) map_of_SomeD [OF assms(3)] by (auto simp: file_maps_def list_all_iff)
  have "max_visits node \<noteq> 0 \<and> ends_at (wf_nodes w) n
      \<and> (case node_next node of Some nx \<Rightarrow> edges_ok (wf_nodes w) (edges nx) | None \<Rightarrow> is_end node)"
    if n: "map_of (wf_nodes w) n = Some node" for n node
  proof -
    have m: "(n, node) \<in> set (wf_nodes w)" using n by (rule map_of_SomeD)
    have "max_visits node \<noteq> 0"
      using v(3) [OF m] by (auto simp: validate_entry_def Let_def max_visits_eq DEFAULT_MAX_VISITS_def split: option.splits if_splits)
    moreover have "ends_at (wf_nodes w) n"
      using no_errors_ends [OF d v(2)] n by blast
    moreover have "case node_next node of Some nx \<Rightarrow> edges_ok (wf_nodes w) (edges nx) | None \<Rightarrow> is_end node"
      using v(3) [OF m] validate_edges_ok by (cases node) (auto simp: validate_entry_def Let_def is_end_def)
    ultimately show ?thesis by blast
  qed
  then show ?thesis using v(1) by blast
qed

text \<open>A workflow without errors: a command that its first edge repeats, but only one visit.\<close>

definition example_retry :: workflow where
  "example_retry = example_end\<lparr>wf_start := ''work'',
     wf_nodes := [(''work'', N_Command \<lparr>cm_task = Some ''true'', cm_args = [], cm_run = None,
         cm_next = Next_Edges [\<lparr>ed_condition = Some ''true'', ed_to = ''work''\<rparr>, \<lparr>ed_condition = None, ed_to = ''stop''\<rparr>],
         cm_max_visits = Some 1\<rparr>),
       (''stop'', N_End \<lparr>en_status = ES_Done, en_reason = None\<rparr>)]\<rparr>"

definition example_valid :: workflows_file where
  "example_valid = \<lparr>fl_version = 1, fl_workflows = [(''retry'', example_retry)]\<rparr>"

lemma trim_examples: "trim ''1d'' = ''1d''" "trim ''true'' = ''true''"
  by (simp_all add: trim_def trim_start_def trim_end_def strip.simps [of _ "''1d''"] strip.simps [of _ "''d1''"]
      strip.simps [of _ "''true''"] strip.simps [of _ "''eurt''"] white_space_def)

lemma check_examples:
  "check_id p q ''work'' = []" "check_id p q ''stop'' = []" "check_id p q ''retry'' = []"
  "check_patterns p [''issues.opened''] = []" "check_duration plain_libs p (Some ''1d'') = []"
  "refs_expr plain_libs w p ''true'' r = []"
  by (simp_all add: check_id_def MAX_ID_LEN_def is_ascii_alphanumeric_def is_ascii_lowercase_def check_patterns_def
      valid_pattern_def pattern_part_def KNOWN_EVENTS_def check_duration_def parse_duration_def plain_libs_def
      trim_examples from_secs_def MAX_TIMEOUT_def refs_expr_def expr_vars_def engine_new_def plain_env_def filter_globals_def)

lemma example_retry_graph:
  "(graph_edge (wf_nodes example_retry))\<^sup>*\<^sup>* ''work'' ''stop''" "ends_at (wf_nodes example_retry) ''work''"
  "ends_at (wf_nodes example_retry) ''stop''"
proof -
  have "graph_edge (wf_nodes example_retry) ''work'' ''stop''"
    by (simp add: graph_edge_def example_retry_def targets_def edges_def im_contains_def)
  then show r: "(graph_edge (wf_nodes example_retry))\<^sup>*\<^sup>* ''work'' ''stop''" by blast
  have "map_of (wf_nodes example_retry) ''stop'' = Some (N_End \<lparr>en_status = ES_Done, en_reason = None\<rparr>)"
    by (simp add: example_retry_def)
  then show "ends_at (wf_nodes example_retry) ''work''" "ends_at (wf_nodes example_retry) ''stop''"
    using r unfolding ends_at_def by blast+
qed

lemma example_reachability: "check_reachability p example_retry = []"
proof -
  have d: "distinct (map fst (wf_nodes example_retry))" by (simp add: example_retry_def)
  show ?thesis unfolding reachability_facts cannot_end [OF d]
    using example_retry_graph by (simp add: example_retry_def is_end_def)
qed

lemma example_valid_ok: "rp_is_ok (validate_file plain_libs example_valid None)"
proof -
  have "no_errors (validate_workflow plain_libs p example_retry None)" for p
    unfolding validate_workflow_def example_reachability
    by (simp add: example_retry_def example_end_def validate_vars_def check_examples MAX_NODES_def im_contains_def
        validate_entry_def validate_node_def validate_command_def trim_examples validate_edges_def edges_def
        validate_edge_def Let_def)
  then show ?thesis
    by (simp add: rp_is_ok_iff validate_file_def example_valid_def VERSION_def MAX_WORKFLOWS_def check_examples)
qed

lemma example_valid_maps:
  "file_maps example_valid" "map_of (fl_workflows example_valid) ''retry'' = Some example_retry"
  by (simp_all add: file_maps_def example_valid_def example_end_def example_retry_def)

theorem validate_sound_witness: "im_contains (wf_nodes example_retry) (wf_start example_retry)"
  using validate_sound [OF example_valid_maps(1) example_valid_ok example_valid_maps(2)] by blast

section \<open>Runs of a file without errors\<close>

definition limit_reason :: "string \<Rightarrow> node \<Rightarrow> string" where
  "limit_reason n node = ''node `'' @ n @ ''` reached max_visits ('' @ show_nat (unat (max_visits node)) @ '')''"

definition condition_reason :: "string \<Rightarrow> nat \<Rightarrow> string \<Rightarrow> string \<Rightarrow> string" where
  "condition_reason n i cond err = ''node `'' @ n @ ''` next['' @ show_nat i @ ''] if `'' @ cond @ ''`: '' @ err"

lemma enter_ended:
  assumes "rs_status (enter w to s) = RS_Ended st None r" and "map_of (wf_nodes w) to = Some node"
  shows "st = ES_Failed \<and> r = Some (limit_reason to node)"
  using assms by (auto simp: enter_def Let_def limit_reason_def split: if_splits node.splits)

lemma end_at_none: "rs_status (end_at L w to s) = RS_Ended st None r \<Longrightarrow> rs_status s = RS_Ended st None r"
  by (auto simp: end_at_def Let_def split: run_status.splits option.splits node.splits sum.splits prod.splits)

lemma take_edge_ended:
  assumes "im_contains (wf_nodes w) to" and "fst (take_edge L w n i to s) = Ended st r"
  obtains node where "map_of (wf_nodes w) to = Some node" "st = ES_Failed" "r = Some (limit_reason to node)"
proof -
  obtain node where node: "map_of (wf_nodes w) to = Some node" using assms(1) by (auto simp: im_contains_def)
  have "rs_status (end_at L w to (enter w to (s\<lparr>rs_previous := Some n\<rparr>))) = RS_Ended st None r"
    using assms by (auto simp: take_edge_def Let_def split: run_status.splits option.splits)
  then show ?thesis using enter_ended [OF end_at_none node] that [OF node] by blast
qed

lemma follow_edges_ended:
  assumes "edges_ok (wf_nodes w) es" and "fst (follow_edges L w n ctx i es s) = Ended st r"
  shows "st = ES_Failed \<and>
    ((\<exists>j cond err. eval_bool L cond ctx = Inl err \<and> r = Some (condition_reason n j cond err))
     \<or> (\<exists>e \<in> set es. \<exists>node. map_of (wf_nodes w) (ed_to e) = Some node \<and> r = Some (limit_reason (ed_to e) node)))"
  using assms
proof (induction es arbitrary: i)
  case (Cons e es)
  have to: "im_contains (wf_nodes w) (ed_to e)" using Cons.prems(1) by (simp add: edges_ok_def)
  have taken: ?case if "fst (take_edge L w n i (ed_to e) s) = Ended st r"
    by (rule take_edge_ended [OF to that]) auto
  show ?case
  proof (cases "ed_condition e")
    case None
    then show ?thesis using Cons.prems(2) taken by simp
  next
    case (Some cond)
    then have "edges_ok (wf_nodes w) es" using Cons.prems(1) by (auto simp: edges_ok_def split: if_splits)
    note IH = Cons.IH [OF this, of "i + 1"]
    show ?thesis
    proof (cases "eval_bool L cond ctx")
      case (Inl err)
      then show ?thesis using Cons.prems(2) Some by (auto simp: condition_reason_def)
    next
      case (Inr b)
      then show ?thesis using Cons.prems(2) Some taken IH by (cases b) auto
    qed
  qed
qed (simp add: edges_ok_def)



end
