(* ===== verification/Wf_Glob.thy ===== *)
theory Wf_Glob
  imports Wf_Validate
begin

text \<open>
  The tool patterns of a mode: \<open>glob_matches\<close> splits a pattern at its stars and looks for the
  parts greedily, from left to right. It decides the language of the pattern.
\<close>

text \<open>The language of a pattern: a star stands for any run of characters, everything else for itself.\<close>

fun glob_lang :: "string \<Rightarrow> string \<Rightarrow> bool" where
  "glob_lang [] s = (s = [])"
| "glob_lang (c # g) s =
     (if c = CHR ''*'' then list_ex (\<lambda>k. glob_lang g (drop k s)) [0..<Suc (length s)]
      else case s of [] \<Rightarrow> False | x # xs \<Rightarrow> x = c \<and> glob_lang g xs)"

text \<open>The same by parts, and the parts between the first and the last one on their own.\<close>

fun parts_match :: "string list \<Rightarrow> string \<Rightarrow> bool" where
  "parts_match [] s = False"
| "parts_match [p] s = (s = p)"
| "parts_match (p # q # ps) s = (\<exists>a b. s = p @ a @ b \<and> parts_match (q # ps) b)"

fun fits :: "string list \<Rightarrow> string \<Rightarrow> bool" where
  "fits [] r = True"
| "fits (m # ms) r = (\<exists>a b. r = a @ m @ b \<and> fits ms b)"

lemma star_drop: "list_ex (\<lambda>k. P (drop k s)) [0..<Suc (length s)] \<longleftrightarrow> (\<exists>a b. s = a @ b \<and> P b)"
proof
  assume "list_ex (\<lambda>k. P (drop k s)) [0..<Suc (length s)]"
  then obtain k where "P (drop k s)" unfolding list_ex_iff by blast
  then show "\<exists>a b. s = a @ b \<and> P b" by (metis append_take_drop_id)
next
  assume "\<exists>a b. s = a @ b \<and> P b"
  then obtain a b where ab: "s = a @ b" "P b" by blast
  then have "P (drop (length a) s)" "length a \<in> set [0..<Suc (length s)]" by auto
  then show "list_ex (\<lambda>k. P (drop k s)) [0..<Suc (length s)]" unfolding list_ex_iff by blast
qed

lemma parts_match_Cons: "parts_match ((c # p) # ps) s \<longleftrightarrow> (\<exists>xs. s = c # xs \<and> parts_match (p # ps) xs)"
  by (cases ps) auto

lemma glob_lang_parts: "glob_lang g s \<longleftrightarrow> parts_match (split_on (CHR ''*'') g) s"
proof (induction g arbitrary: s)
  case (Cons c g)
  obtain p ps where ps: "split_on (CHR ''*'') g = p # ps" by (meson neq_Nil_conv split_on_not_Nil)
  show ?case
  proof (cases "c = CHR ''*''")
    case True
    have "list_ex (\<lambda>k. glob_lang g (drop k s)) [0..<Suc (length s)] \<longleftrightarrow> (\<exists>a b. s = a @ b \<and> parts_match (p # ps) b)"
      unfolding star_drop using Cons.IH ps by simp
    then show ?thesis using True ps by simp
  next
    case False
    then show ?thesis using Cons.IH ps by (auto simp: parts_match_Cons split: list.splits)
  qed
qed simp

lemma fits_append: "fits ms b \<Longrightarrow> fits ms (a @ b)"
proof (cases ms)
  case (Cons m ms')
  assume "fits ms b"
  then obtain x y where "b = x @ m @ y" "fits ms' y" using Cons by auto
  then have "a @ b = (a @ x) @ m @ y" by simp
  then show ?thesis using Cons \<open>fits ms' y\<close> unfolding Cons fits.simps by blast
qed simp

lemma parts_match_ends: "parts_match (p # ms @ [l]) s \<longleftrightarrow> (\<exists>r. s = p @ r @ l \<and> fits ms r)"
proof (induction ms arbitrary: p s)
  case (Cons m ms)
  have "parts_match (p # (m # ms) @ [l]) s \<longleftrightarrow> (\<exists>a r. s = p @ a @ m @ r @ l \<and> fits ms r)"
    using Cons.IH by auto
  then show ?case by (metis append.assoc fits.simps(2))
qed auto

lemma glob_middle_fits: "glob_middle ms r \<longleftrightarrow> fits ms r"
proof (induction ms arbitrary: r)
  case (Cons m ms)
  show ?case
  proof (cases "str_find r m")
    case None
    have "r \<noteq> a @ m @ b" for a b using str_find_first [of a m b] None by auto
    then show ?thesis using None by auto
  next
    case (Some i)
    then obtain b where b: "r = take i r @ m @ b" and i: "i + length m \<le> length r" using str_find_SomeD by blast
    have rest: "drop (i + length m) r = b"
      using b i by (metis add_leD1 append_eq_append_conv_if append_take_drop_id drop_drop add.commute drop_append
          length_take min.absorb2 append_eq_conv_conj)
    have "fits ms b" if "r = x @ m @ y" "fits ms y" for x y
    proof -
      have "i \<le> length x" using str_find_first [of x m y] that(1) Some by auto
      then have "b = drop (i + length m) (x @ m) @ y" using that(1) rest by auto
      then show ?thesis using fits_append that(2) by metis
    qed
    then show ?thesis using Some Cons.IH b rest by auto
  qed
qed simp

lemma split_on_single: "split_on c s = [p] \<Longrightarrow> s = p"
proof (induction s arbitrary: p)
  case (Cons x xs)
  then show ?case by (auto split: if_splits list.splits)
qed simp

lemma prefix_suffix_middle:
  "(\<exists>r. s = p @ r @ l \<and> P r) \<longleftrightarrow> starts_with s p \<and> \<not> length s < length p + length l \<and> ends_with s l
     \<and> P (drop (length p) (take (length s - length l) s))"
proof
  assume "\<exists>r. s = p @ r @ l \<and> P r"
  then show "starts_with s p \<and> \<not> length s < length p + length l \<and> ends_with s l
     \<and> P (drop (length p) (take (length s - length l) s))"
    by (force simp: starts_with_iff ends_with_iff)
next
  assume a: "starts_with s p \<and> \<not> length s < length p + length l \<and> ends_with s l
     \<and> P (drop (length p) (take (length s - length l) s))"
  then obtain b r where s: "s = p @ b" "s = r @ l" unfolding starts_with_iff ends_with_iff by blast
  have t: "take (length s - length l) s = r" by (simp add: s(2))
  have "length p \<le> length r" using a unfolding s(2) by simp
  then have "take (length p) r = p" using s by (metis append_eq_append_conv_if take_append append_take_drop_id)
  then have "s = p @ drop (length p) r @ l" using s(2) by (metis append.assoc append_take_drop_id)
  then show "\<exists>r. s = p @ r @ l \<and> P r" using a t by auto
qed

text \<open>
  Tool patterns mean what they say. The greedy search accepts exactly the names in the
  language of the pattern.
\<close>

theorem glob_matches_language: "glob_matches g s \<longleftrightarrow> glob_lang g s"
proof -
  obtain p ps where ps: "split_on (CHR ''*'') g = p # ps" by (meson neq_Nil_conv split_on_not_Nil)
  show ?thesis
  proof (cases ps)
    case Nil
    then show ?thesis using ps split_on_single [of _ g p] by (auto simp: glob_matches_def glob_lang_parts)
  next
    case (Cons q qs)
    then have "ps = butlast ps @ [last ps]" by simp
    then have "glob_lang g s \<longleftrightarrow> (\<exists>r. s = p @ r @ last ps \<and> fits (butlast ps) r)"
      using parts_match_ends ps by (metis glob_lang_parts)
    then show ?thesis using Cons ps
      unfolding prefix_suffix_middle by (auto simp: glob_matches_def glob_middle_fits Let_def)
  qed
qed

end
