(* ===== verification/Guard.thy ===== *)
theory Guard
  imports Handshake
begin

text \<open>
  The proxy's security boundary: \<^verbatim>\<open>sandbox-proxy/src/guard.rs\<close>, and the two checks of
  \<^verbatim>\<open>auth.rs\<close> and \<^verbatim>\<open>resolver.rs\<close> a relay rests on. What a browser may send towards a sandbox is decided
  on the decoded frame with the direction table of \<open>Ctrl\<close>. The JSON codec is a parameter
  (\<open>ser\<close>, \<open>de\<close>), and so is \<open>type_only\<close>, the lenient reading of the \<^verbatim>\<open>type\<close> field of a payload.
\<close>

section \<open>Names\<close>

definition feature_FILE_READ_CHAT :: string where "feature_FILE_READ_CHAT = ''file_read_chat''"
definition feature_CHAT_CHECKOUT :: string where "feature_CHAT_CHECKOUT = ''chat_checkout''"
definition feature_CLAUDE_USER_TOKEN :: string where "feature_CLAUDE_USER_TOKEN = ''claude_user_token''"
definition oe_CHAT_LIMIT :: string where "oe_CHAT_LIMIT = ''chat_limit''"
definition oe_NO_CREDENTIAL :: string where "oe_NO_CREDENTIAL = ''no_credential''"
definition scope_USER :: string where "scope_USER = ''user''"
definition MAX_CHECKOUT_LEN :: nat where "MAX_CHECKOUT_LEN = 256"

definition PROXY_FEATURES :: "string list" where
  "PROXY_FEATURES = [feature_ACP, feature_FILE_READ, feature_FILE_READ_CHAT, feature_CHAT_CHECKOUT]"

definition negotiated_features :: "string list \<Rightarrow> string list" where
  "negotiated_features sandbox = filter (\<lambda>f. f \<in> set sandbox) PROXY_FEATURES"

section \<open>Authorisation\<close>

definition authorize :: "string \<Rightarrow> string \<Rightarrow> bool" where
  "authorize sub owner \<longleftrightarrow> owner \<noteq> [] \<and> sub = owner"

definition AUDIENCE :: string where "AUDIENCE = ''enzarb-sandbox-proxy''"
definition MAX_LIFETIME_SECS :: u64 where "MAX_LIFETIME_SECS = 300"
definition LEEWAY_SECS :: u64 where "LEEWAY_SECS = 5"

record claims =
  cl_sub :: string
  cl_project :: string
  cl_exp :: u64

datatype auth_error = InvalidToken string | ProjectMismatch

text \<open>\<open>jwt\<close> is \<^verbatim>\<open>jsonwebtoken::decode\<close> with the validator's key and settings; the sum of the bound on \<^verbatim>\<open>exp\<close> wraps.\<close>

definition validate_at :: "(string \<Rightarrow> string + claims) \<Rightarrow> string \<Rightarrow> string \<Rightarrow> u64 \<Rightarrow> auth_error + claims" where
  "validate_at jwt token path_project now =
     (case jwt token of
        Inl e \<Rightarrow> Inl (InvalidToken e)
      | Inr c \<Rightarrow>
          if cl_exp c > now + MAX_LIFETIME_SECS + LEEWAY_SECS then Inl (InvalidToken ''lifetime too long'')
          else if cl_sub c = [] \<or> cl_project c \<noteq> path_project then Inl ProjectMismatch
          else Inr c)"

definition is_lower_digit_dash :: "char \<Rightarrow> bool" where
  "is_lower_digit_dash c \<longleftrightarrow>
     (let n = (of_char c :: nat) in 97 \<le> n \<and> n \<le> 122 \<or> 48 \<le> n \<and> n \<le> 57 \<or> c = CHR ''-'')"

definition valid_project_name :: "string \<Rightarrow> bool" where
  "valid_project_name name \<longleftrightarrow>
     name \<noteq> [] \<and> length name \<le> 54 \<and> hd name \<noteq> CHR ''-'' \<and> last name \<noteq> CHR ''-''
     \<and> list_all is_lower_digit_dash name"

record sandbox_ref =
  sr_endpoint :: string
  sr_secret_namespace :: string
  sr_secret_name :: string
  sr_secret_key :: string

record project_info =
  pi_owner :: string
  pi_sandbox :: "sandbox_ref option"

definition revoked :: "project_info \<Rightarrow> string \<Rightarrow> bool" where
  "revoked info owner \<longleftrightarrow> pi_owner info \<noteq> owner \<or> pi_sandbox info = None"

datatype resolve_error = RE_NotFound | RE_Unavailable string

text \<open>The check of \<^verbatim>\<open>ProjectWatch\<close> in \<^verbatim>\<open>relay.rs\<close>, on what the resolver answered.\<close>

definition is_revoked :: "string \<Rightarrow> resolve_error + project_info \<Rightarrow> bool" where
  "is_revoked owner answer =
     (case answer of Inr info \<Rightarrow> revoked info owner | Inl RE_NotFound \<Rightarrow> True | Inl (RE_Unavailable _) \<Rightarrow> False)"

datatype watch_event = WE_Name string | WE_Lagged | WE_Closed

text \<open>Each event comes with what the resolver would answer right after it; True is the return of \<^verbatim>\<open>changed\<close>.\<close>

fun watch_events :: "string \<Rightarrow> string \<Rightarrow> (watch_event \<times> (resolve_error + project_info)) list \<Rightarrow> bool" where
  "watch_events project owner [] = False"
| "watch_events project owner ((WE_Closed, _) # _) = False"
| "watch_events project owner ((WE_Lagged, a) # es) = (is_revoked owner a \<or> watch_events project owner es)"
| "watch_events project owner ((WE_Name n, a) # es) =
     (if n \<noteq> project then watch_events project owner es else is_revoked owner a \<or> watch_events project owner es)"

definition watch_changed :: "string \<Rightarrow> string \<Rightarrow> resolve_error + project_info \<Rightarrow> (watch_event \<times> (resolve_error + project_info)) list \<Rightarrow> bool" where
  "watch_changed project owner now events \<longleftrightarrow> is_revoked owner now \<or> watch_events project owner events"

section \<open>Verdicts\<close>

datatype reject = Malformed string | ForbiddenCtrl string

record allowed =
  aw_frame_type :: frame_type
  aw_channel :: u32
  aw_payload_len :: nat

datatype verdict =
    V_Forward allowed
  | V_Reply bytes
  | V_Clear
  | V_OpenAcp u32 ctrl

datatype sandbox_frame = SF_Relay | SF_Captured "secret option" bool

record guard =
  gd_acp_enabled :: bool
  gd_acp_channel :: "u32 option"

definition guard_new :: "string list \<Rightarrow> guard" where
  "guard_new features = \<lparr>gd_acp_enabled = (feature_ACP \<in> set features), gd_acp_channel = None\<rparr>"

definition guard_open_error :: "(ctrl \<Rightarrow> string + bytes) \<Rightarrow> u32 \<Rightarrow> string \<Rightarrow> string \<Rightarrow> reject + verdict" where
  "guard_open_error ser channel code message =
     (case frame_ctrl ser (C_OpenError channel message (Some code)) of
        Inl e \<Rightarrow> Inl (Malformed (frame_error_code e))
      | Inr f \<Rightarrow>
          (case to_bytes f of
             Inl e \<Rightarrow> Inl (Malformed (frame_error_code e))
           | Inr b \<Rightarrow> Inr (V_Reply b)))"

definition ctrl_allowed :: "ctrl \<Rightarrow> string + unit" where
  "ctrl_allowed m = (if allowed_from m Ui then Inr () else Inl (tag m))"

definition opt_longer :: "nat \<Rightarrow> string option \<Rightarrow> bool" where
  "opt_longer n s = (case s of Some r \<Rightarrow> length r > n | None \<Rightarrow> False)"

definition checkout_too_long :: "chat_checkout option \<Rightarrow> bool" where
  "checkout_too_long co =
     (case co of
        None \<Rightarrow> False
      | Some c \<Rightarrow> length (cc_branch c) > MAX_CHECKOUT_LEN \<or> opt_longer MAX_CHECKOUT_LEN (cc_start_ref c))"

text \<open>An \<^verbatim>\<open>open\<close> of a browser: \<open>fwd\<close> is the verdict that forwards the original bytes.\<close>

definition guard_open :: "(ctrl \<Rightarrow> string + bytes) \<Rightarrow> open_msg \<Rightarrow> reject + verdict \<Rightarrow> guard \<Rightarrow> (reject + verdict) \<times> guard" where
  "guard_open ser m fwd g =
     (let channel = om_channel m in
      if channel = 0 then (Inl (Malformed ''open on channel 0''), g)
      else if opt_longer MAX_REPO_LEN (om_repo m) \<or> opt_longer MAX_RESUME_LEN (om_resume m)
      then (guard_open_error ser channel oe_INVALID_REQUEST ''repo or resume too long'', g)
      else if checkout_too_long (om_checkout m)
      then (guard_open_error ser channel oe_INVALID_REQUEST ''checkout too long'', g)
      else if gd_acp_channel g = Some channel
      then (guard_open_error ser channel oe_INVALID_REQUEST ''channel already in use'', g)
      else case om_kind m of
        Pty \<Rightarrow>
          if om_claude_token m \<noteq> None
          then (guard_open_error ser channel oe_INVALID_REQUEST ''claude_token is not accepted from a browser'', g)
          else (fwd, g)
      | Acp \<Rightarrow>
          if \<not> gd_acp_enabled g
          then (guard_open_error ser channel oe_UNSUPPORTED_KIND ''acp channels are not available'', g)
          else if gd_acp_channel g \<noteq> None
          then (guard_open_error ser channel oe_CHAT_LIMIT ''one chat per connection'', g)
          else (Inr (V_OpenAcp channel (C_Open (m\<lparr>om_claude_token := None\<rparr>))), g\<lparr>gd_acp_channel := Some channel\<rparr>)
      | UnknownKind \<Rightarrow> (guard_open_error ser channel oe_UNSUPPORTED_KIND ''unsupported channel kind'', g))"

definition check_browser_message ::
  "(ctrl \<Rightarrow> string + bytes) \<Rightarrow> (bytes \<Rightarrow> string + ctrl) \<Rightarrow> guard \<Rightarrow> bytes \<Rightarrow> (reject + verdict) \<times> guard" where
  "check_browser_message ser de g msg =
     (case from_bytes msg of
        Inl e \<Rightarrow> (Inl (Malformed (frame_error_code e)), g)
      | Inr frame \<Rightarrow>
          (let fwd = Inr (V_Forward \<lparr>aw_frame_type = f_type frame, aw_channel = f_channel frame,
                                      aw_payload_len = length (f_payload frame)\<rparr>)
           in if f_type frame = FT_Ctrl then
                (case ctrl_message de frame of
                   Inl e \<Rightarrow> (Inl (Malformed (frame_error_code e)), g)
                 | Inr m \<Rightarrow>
                     (case ctrl_allowed m of
                        Inl t \<Rightarrow> (Inl (ForbiddenCtrl t), g)
                      | Inr _ \<Rightarrow>
                          (case m of
                             C_CredentialClear _ \<Rightarrow> (Inr V_Clear, g)
                           | C_Open om \<Rightarrow> guard_open ser om fwd g
                           | _ \<Rightarrow> (fwd, g))))
              else if f_type frame = FT_Close \<and> gd_acp_channel g = Some (f_channel frame)
              then (fwd, g\<lparr>gd_acp_channel := None\<rparr>)
              else (fwd, g)))"

definition release_acp :: "u32 \<Rightarrow> guard \<Rightarrow> guard" where
  "release_acp channel g = (if gd_acp_channel g = Some channel then g\<lparr>gd_acp_channel := None\<rparr> else g)"

definition observe_sandbox_message :: "(bytes \<Rightarrow> string + ctrl) \<Rightarrow> guard \<Rightarrow> bytes \<Rightarrow> guard" where
  "observe_sandbox_message de g msg =
     (case gd_acp_channel g of
        None \<Rightarrow> g
      | Some slot \<Rightarrow>
          (case from_bytes msg of
             Inl _ \<Rightarrow> g
           | Inr frame \<Rightarrow>
               if f_type frame = FT_Close \<and> f_channel frame = slot then g\<lparr>gd_acp_channel := None\<rparr>
               else if f_type frame = FT_Ctrl then
                 (case ctrl_message de frame of
                    Inr (C_OpenError channel _ _) \<Rightarrow> if channel = slot then g\<lparr>gd_acp_channel := None\<rparr> else g
                  | _ \<Rightarrow> g)
               else g))"

definition is_captured_type :: "(bytes \<Rightarrow> string option) \<Rightarrow> bytes \<Rightarrow> bool" where
  "is_captured_type type_only payload \<longleftrightarrow> type_only payload = Some ''credential_captured''"

definition intercept_sandbox_message ::
  "(bytes \<Rightarrow> string + ctrl) \<Rightarrow> (bytes \<Rightarrow> string option) \<Rightarrow> guard \<Rightarrow> bytes \<Rightarrow> sandbox_frame \<times> guard" where
  "intercept_sandbox_message de type_only g msg =
     (let g1 = observe_sandbox_message de g msg
      in case from_bytes msg of
           Inl _ \<Rightarrow> (SF_Relay, g1)
         | Inr frame \<Rightarrow>
             if f_type frame \<noteq> FT_Ctrl then (SF_Relay, g1)
             else (case ctrl_message de frame of
                 Inr (C_CredentialCaptured _ token legacy) \<Rightarrow>
                   (SF_Captured token (case legacy of Some l \<Rightarrow> l | None \<Rightarrow> False), g1)
               | Inl _ \<Rightarrow>
                   if is_captured_type type_only (f_payload frame) then (SF_Captured None False, g1) else (SF_Relay, g1)
               | _ \<Rightarrow> (SF_Relay, g1)))"

end
