(* ===== verification/Relay.thy ===== *)
theory Relay
  imports Guard Machine_Interface
begin

text \<open>
  The relay between a browser and a sandbox: \<^verbatim>\<open>sandbox-proxy/src/relay.rs\<close>. The two directions are two
  loops of one task that interleave at their awaits; a message that needs the credential store
  is split there: \<open>rl_busy\<close> holds what the browser loop waits for, \<open>rl_storing\<close> what the sandbox
  loop waits for. What the store answers and whether a send fails are arguments of the
  steps. Logging, counters, keep-alive pings and the chat recorder do not change what is relayed
  and are left out; the reply channel is unbounded here (its bound only delays the sender).
\<close>

section \<open>Messages of the proxy\<close>

definition relay_encode :: "(ctrl \<Rightarrow> string + bytes) \<Rightarrow> ctrl \<Rightarrow> bytes option" where
  "relay_encode ser m =
     (case frame_ctrl ser m of
        Inl _ \<Rightarrow> None
      | Inr f \<Rightarrow> (case to_bytes f of Inl _ \<Rightarrow> None | Inr b \<Rightarrow> Some b))"

definition open_error_frame :: "(ctrl \<Rightarrow> string + bytes) \<Rightarrow> u32 \<Rightarrow> string \<Rightarrow> string \<Rightarrow> bytes option" where
  "open_error_frame ser channel code message = relay_encode ser (C_OpenError channel message (Some code))"

definition credential_state :: "(ctrl \<Rightarrow> string + bytes) \<Rightarrow> bool \<Rightarrow> bytes option" where
  "credential_state ser configured = relay_encode ser (C_CredentialState ClaudeOauth configured (Some scope_USER))"

definition CREDENTIAL_UNAVAILABLE :: string where
  "CREDENTIAL_UNAVAILABLE = ''credential_unavailable''"

definition proxy_offer :: "string list" where
  "proxy_offer = [feature_CLAUDE_USER_TOKEN]"

text \<open>Completing an admitted \<^verbatim>\<open>open\<close>; \<open>answer\<close> is what \<^verbatim>\<open>Credentials::token_for\<close> returned for the owner.\<close>

definition acp_open ::
  "(ctrl \<Rightarrow> string + bytes) \<Rightarrow> string option \<Rightarrow> string + secret option \<Rightarrow> u32 \<Rightarrow> ctrl \<Rightarrow> bytes option + bytes" where
  "acp_open ser owner answer channel open' =
     (let no_cred = open_error_frame ser channel oe_NO_CREDENTIAL ''no Claude credential for this user''
      in case owner of
           None \<Rightarrow> Inl no_cred
         | Some _ \<Rightarrow>
             (case answer of
                Inr None \<Rightarrow> Inl no_cred
              | Inl e \<Rightarrow> Inl (open_error_frame ser channel CREDENTIAL_UNAVAILABLE ''Claude credential unavailable'')
              | Inr (Some token) \<Rightarrow>
                  (case relay_encode ser (case open' of
                       C_Open m \<Rightarrow> C_Open (m\<lparr>om_claude_token := Some token\<rparr>)
                     | other \<Rightarrow> other) of
                     Some b \<Rightarrow> Inr b
                   | None \<Rightarrow> Inl (open_error_frame ser channel oe_INVALID_REQUEST ''open frame too large''))))"

section \<open>The handshake with the browser\<close>

fun first_binary :: "(string + ws_msg) list \<Rightarrow> bytes option \<times> (string + ws_msg) list" where
  "first_binary (Inr (WsBinary b) # r) = (Some b, r)"
| "first_binary (Inr WsOther # r) = first_binary r"
| "first_binary (_ # r) = (None, r)"
| "first_binary [] = (None, [])"

definition handshake_reply :: "(bytes \<Rightarrow> string + ctrl) \<Rightarrow> u16 \<Rightarrow> string list \<Rightarrow> bytes \<Rightarrow> ctrl" where
  "handshake_reply de version features first =
     (case (case from_bytes first of Inr f \<Rightarrow> (case ctrl_message de f of Inr m \<Rightarrow> Some m | Inl _ \<Rightarrow> None) | Inl _ \<Rightarrow> None) of
        Some (C_Hello versions client _) \<Rightarrow>
          if client = Ui \<and> version \<in> set versions then C_Welcome version (some_features features)
          else C_Error ec_UNSUPPORTED_VERSION
                 (''expected client '' @ [CHR 0x22] @ ''ui'' @ [CHR 0x22] @ '' offering version '' @ show_nat (unat version)) None None
      | _ \<Rightarrow> C_Error ec_PROTOCOL_VIOLATION ''first frame must be CTRL hello'' None None)"

text \<open>\<open>timed_out\<close> says that the timer fired before a binary message came.\<close>

definition browser_handshake ::
  "(ctrl \<Rightarrow> string + bytes) \<Rightarrow> (bytes \<Rightarrow> string + ctrl) \<Rightarrow> bool \<Rightarrow> ws \<Rightarrow> u16 \<Rightarrow> string list \<Rightarrow> (string + unit) \<times> ws" where
  "browser_handshake ser de timed_out w version features =
     (if timed_out then (Inl ''handshake timeout'', w)
      else case first_binary (ws_in w) of
             (None, r) \<Rightarrow> (Inl ''expected binary hello'', w\<lparr>ws_in := r\<rparr>)
           | (Some first, r) \<Rightarrow>
               (let reply = handshake_reply de version features first; w1 = w\<lparr>ws_in := r\<rparr>
                in case relay_encode ser reply of
                     None \<Rightarrow> (Inl ''encode'', w1)
                   | Some b \<Rightarrow>
                       (case ws_send w1 (WsBinary b) of
                          (Inl _, w2) \<Rightarrow> (Inl ''send'', w2)
                        | (Inr _, w2) \<Rightarrow>
                            ((case reply of C_Welcome _ _ \<Rightarrow> Inr () | _ \<Rightarrow> Inl ''bad hello''), w2))))"

section \<open>State\<close>

datatype relay_end =
    RE_BrowserClosed
  | RE_UpstreamClosed
  | RE_Rejected reject
  | RE_BrowserProtocol string
  | RE_Transport string
  | RE_Idle
  | RE_Shutdown
  | RE_Revoked

datatype busy = Busy_Clear | Busy_Open u32 ctrl

record relay =
  rl_guard :: guard
  rl_owner :: "string option"
  rl_busy :: "busy option"
  rl_storing :: "(secret \<times> bool) option"
  rl_replies :: "bytes list"
  rl_up :: "bytes list"
  rl_down :: "bytes list"
  rl_end :: "relay_end option"

definition relay_start :: "string list \<Rightarrow> string \<Rightarrow> string \<Rightarrow> relay" where
  "relay_start sandbox_features sub owner =
     \<lparr>rl_guard = guard_new (negotiated_features sandbox_features),
      rl_owner = (if authorize sub owner then Some owner else None),
      rl_busy = None, rl_storing = None, rl_replies = [], rl_up = [], rl_down = [], rl_end = None\<rparr>"

definition relay_stop :: "relay_end \<Rightarrow> relay \<Rightarrow> relay" where
  "relay_stop e st = st\<lparr>rl_end := Some e\<rparr>"

text \<open>A send to a socket; \<open>outcome\<close> is its error, if it fails.\<close>

definition send_up :: "string option \<Rightarrow> bytes \<Rightarrow> relay \<Rightarrow> relay" where
  "send_up outcome b st =
     (case outcome of None \<Rightarrow> st\<lparr>rl_up := rl_up st @ [b]\<rparr> | Some e \<Rightarrow> relay_stop (RE_Transport e) st)"

definition send_down :: "string option \<Rightarrow> bytes \<Rightarrow> relay \<Rightarrow> relay" where
  "send_down outcome b st =
     (case outcome of None \<Rightarrow> st\<lparr>rl_down := rl_down st @ [b]\<rparr> | Some e \<Rightarrow> relay_stop (RE_Transport e) st)"

definition push_reply :: "bytes option \<Rightarrow> relay \<Rightarrow> relay" where
  "push_reply reply st = (case reply of Some b \<Rightarrow> st\<lparr>rl_replies := rl_replies st @ [b]\<rparr> | None \<Rightarrow> st)"

section \<open>Browser to sandbox\<close>

definition relay_browser ::
  "(ctrl \<Rightarrow> string + bytes) \<Rightarrow> (bytes \<Rightarrow> string + ctrl) \<Rightarrow> string option \<Rightarrow> (string + ws_msg) option \<Rightarrow> relay \<Rightarrow> relay" where
  "relay_browser ser de outcome item st =
     (case item of
        None \<Rightarrow> relay_stop RE_BrowserClosed st
      | Some (Inl e) \<Rightarrow> relay_stop (RE_Transport e) st
      | Some (Inr (WsBinary b)) \<Rightarrow>
          (let (v, g) = check_browser_message ser de (rl_guard st) b; st1 = st\<lparr>rl_guard := g\<rparr>
           in case v of
                Inl r \<Rightarrow> relay_stop (RE_Rejected r) st1
              | Inr (V_Reply reply) \<Rightarrow> push_reply (Some reply) st1
              | Inr V_Clear \<Rightarrow> (case rl_owner st of None \<Rightarrow> st1 | Some _ \<Rightarrow> st1\<lparr>rl_busy := Some Busy_Clear\<rparr>)
              | Inr (V_OpenAcp channel open') \<Rightarrow> st1\<lparr>rl_busy := Some (Busy_Open channel open')\<rparr>
              | Inr (V_Forward _) \<Rightarrow> send_up outcome b st1)
      | Some (Inr (WsText _)) \<Rightarrow> relay_stop (RE_BrowserProtocol ''text message'') st
      | Some (Inr WsClose) \<Rightarrow> relay_stop RE_BrowserClosed st
      | Some (Inr WsOther) \<Rightarrow> st)"

text \<open>The store has answered: \<open>cleared\<close> for a clear, \<open>answer\<close> for a token.\<close>

definition relay_credential ::
  "(ctrl \<Rightarrow> string + bytes) \<Rightarrow> string option \<Rightarrow> string + unit \<Rightarrow> string + secret option \<Rightarrow> relay \<Rightarrow> relay" where
  "relay_credential ser outcome cleared answer st =
     (case rl_busy st of
        None \<Rightarrow> st
      | Some Busy_Clear \<Rightarrow>
          (case cleared of
             Inr _ \<Rightarrow> push_reply (credential_state ser False) (st\<lparr>rl_busy := None\<rparr>)
           | Inl _ \<Rightarrow> st\<lparr>rl_busy := None\<rparr>)
      | Some (Busy_Open channel open') \<Rightarrow>
          (case acp_open ser (rl_owner st) answer channel open' of
             Inr rewritten \<Rightarrow> send_up outcome rewritten (st\<lparr>rl_busy := None\<rparr>)
           | Inl reply \<Rightarrow>
               push_reply reply (st\<lparr>rl_busy := None, rl_guard := release_acp channel (rl_guard st)\<rparr>)))"

section \<open>Sandbox to browser\<close>

definition relay_sandbox ::
  "(bytes \<Rightarrow> string + ctrl) \<Rightarrow> (bytes \<Rightarrow> string option) \<Rightarrow> string option \<Rightarrow> (string + ws_msg) option \<Rightarrow> relay \<Rightarrow> relay" where
  "relay_sandbox de type_only outcome item st =
     (case item of
        None \<Rightarrow> relay_stop RE_UpstreamClosed st
      | Some (Inl e) \<Rightarrow> relay_stop (RE_Transport e) st
      | Some (Inr (WsBinary b)) \<Rightarrow>
          (let (c, g) = intercept_sandbox_message de type_only (rl_guard st) b; st1 = st\<lparr>rl_guard := g\<rparr>
           in case c of
                SF_Captured token legacy \<Rightarrow>
                  (case (token, rl_owner st) of
                     (Some t, Some _) \<Rightarrow> st1\<lparr>rl_storing := Some (t, legacy)\<rparr>
                   | _ \<Rightarrow> st1)
              | SF_Relay \<Rightarrow> send_down outcome b st1)
      | Some (Inr (WsText _)) \<Rightarrow> relay_stop (RE_Transport ''text message from sandbox'') st
      | Some (Inr WsClose) \<Rightarrow> relay_stop RE_UpstreamClosed st
      | Some (Inr WsOther) \<Rightarrow> st)"

text \<open>The store has written: a legacy capture is acknowledged upstream, another one to the browser.\<close>

definition relay_stored :: "(ctrl \<Rightarrow> string + bytes) \<Rightarrow> string option \<Rightarrow> string + bool \<Rightarrow> relay \<Rightarrow> relay" where
  "relay_stored ser outcome stored st =
     (case rl_storing st of
        None \<Rightarrow> st
      | Some (token, legacy) \<Rightarrow>
          (let st1 = st\<lparr>rl_storing := None\<rparr>
           in case stored of
                Inl _ \<Rightarrow> st1
              | Inr present \<Rightarrow>
                  if legacy then
                    (if present then
                       (case credential_state ser True of Some f \<Rightarrow> send_up outcome f st1 | None \<Rightarrow> st1)
                     else st1)
                  else (case credential_state ser True of Some f \<Rightarrow> send_down outcome f st1 | None \<Rightarrow> st1)))"

definition relay_reply :: "string option \<Rightarrow> relay \<Rightarrow> relay" where
  "relay_reply outcome st =
     (case rl_replies st of [] \<Rightarrow> st | b # rest \<Rightarrow> send_down outcome b (st\<lparr>rl_replies := rest\<rparr>))"

section \<open>The end\<close>

fun close_code :: "relay_end \<Rightarrow> nat \<times> string" where
  "close_code RE_BrowserClosed = (1000, [])"
| "close_code RE_UpstreamClosed = (1000, [])"
| "close_code (RE_Rejected _) = (1008, ''message not permitted'')"
| "close_code (RE_BrowserProtocol _) = (1002, ''protocol error'')"
| "close_code (RE_Transport _) = (1011, ''relay error'')"
| "close_code RE_Idle = (1001, ''idle timeout'')"
| "close_code RE_Shutdown = (1001, ''going away'')"
| "close_code RE_Revoked = (1008, ''project access changed'')"

text \<open>The last frame for the browser, before the close with \<open>close_code\<close>.\<close>

definition relay_finish :: "(ctrl \<Rightarrow> string + bytes) \<Rightarrow> relay \<Rightarrow> relay" where
  "relay_finish ser st =
     (case rl_end st of
        Some (RE_Rejected _) \<Rightarrow>
          (case relay_encode ser (C_Error ec_PROTOCOL_VIOLATION ''message not permitted from this client'' None None) of
             Some b \<Rightarrow> st\<lparr>rl_down := rl_down st @ [b]\<rparr> | None \<Rightarrow> st)
      | Some (RE_BrowserProtocol _) \<Rightarrow>
          (case relay_encode ser (C_Error ec_PROTOCOL_VIOLATION ''message not permitted from this client'' None None) of
             Some b \<Rightarrow> st\<lparr>rl_down := rl_down st @ [b]\<rparr> | None \<Rightarrow> st)
      | _ \<Rightarrow> st)"

section \<open>The relay as a machine\<close>

text \<open>
  \<open>tokens\<close> are the tokens the credential store may return for the owner. The browser loop
  reads on only when it is not waiting for the store, the sandbox loop likewise.
\<close>

inductive relay_step ::
  "(ctrl \<Rightarrow> string + bytes) \<Rightarrow> (bytes \<Rightarrow> string + ctrl) \<Rightarrow> (bytes \<Rightarrow> string option) \<Rightarrow> secret set \<Rightarrow> relay \<Rightarrow> relay \<Rightarrow> bool"
  for ser de type_only tokens where
  rl_browser: "rl_end st = None \<Longrightarrow> rl_busy st = None \<Longrightarrow>
    relay_step ser de type_only tokens st (relay_browser ser de outcome item st)"
| rl_credential: "rl_end st = None \<Longrightarrow> (\<And>t. answer = Inr (Some t) \<Longrightarrow> t \<in> tokens) \<Longrightarrow>
    relay_step ser de type_only tokens st (relay_credential ser outcome cleared answer st)"
| rl_sandbox: "rl_end st = None \<Longrightarrow> rl_storing st = None \<Longrightarrow>
    relay_step ser de type_only tokens st (relay_sandbox de type_only outcome item st)"
| rl_stored: "rl_end st = None \<Longrightarrow> relay_step ser de type_only tokens st (relay_stored ser outcome stored st)"
| rl_reply: "rl_end st = None \<Longrightarrow> rl_storing st = None \<Longrightarrow> relay_step ser de type_only tokens st (relay_reply outcome st)"
| rl_stop: "rl_end st = None \<Longrightarrow> e \<in> {RE_Idle, RE_Shutdown, RE_Revoked} \<Longrightarrow>
    relay_step ser de type_only tokens st (relay_stop e st)"
| rl_finish: "rl_end st \<noteq> None \<Longrightarrow> relay_step ser de type_only tokens st (relay_finish ser st)"

end
