(* ===== verification/Relay_Props.thy ===== *)
theory Relay_Props
  imports Relay
begin

text \<open>
  What the relay guarantees: to the sandbox, that only the messages of a browser reach it and that
  the Claude token in an \<^verbatim>\<open>open\<close> is the one the store returned for the authorised owner; to
  the user, that a captured credential never reaches the browser. The guard's one \<^verbatim>\<open>acp\<close> slot
  refines the set of live channels of that kind.
\<close>

section \<open>The codec\<close>

text \<open>What is assumed of \<^verbatim>\<open>serde_json\<close>: a message it writes is read back as that message.\<close>

definition codec_sound :: "(ctrl \<Rightarrow> string + bytes) \<Rightarrow> (bytes \<Rightarrow> string + ctrl) \<Rightarrow> bool" where
  "codec_sound ser de \<longleftrightarrow> (\<forall>m v. ser m = Inr v \<longrightarrow> de v = Inr m)"

lemma encode_decodes:
  assumes "codec_sound ser de" and "frame_ctrl ser m = Inr f" and "to_bytes f = Inr b"
  shows "from_bytes b = Inr f \<and> f_type f = FT_Ctrl \<and> ctrl_message de f = Inr m"
proof -
  have "from_bytes b = Inr f" using to_bytes_InrD [OF assms(3)] from_bytes_header_bytes by simp
  moreover have "f_type f = FT_Ctrl \<and> ctrl_message de f = Inr m"
    using assms(1,2) by (auto simp: frame_ctrl_def codec_sound_def ctrl_message_def frame_new_def split: sum.splits)
  ultimately show ?thesis by blast
qed

lemma relay_encode_decodes:
  assumes "codec_sound ser de" and "relay_encode ser m = Some b"
  obtains f where "from_bytes b = Inr f" "f_type f = FT_Ctrl" "ctrl_message de f = Inr m"
  using assms encode_decodes [OF assms(1)] by (auto simp: relay_encode_def split: sum.splits)

section \<open>What may be sent\<close>

text \<open>The messages that may reach a sandbox; \<open>tokens\<close> are those the store holds for the owner.\<close>

fun up_message_ok :: "secret set \<Rightarrow> ctrl \<Rightarrow> bool" where
  "up_message_ok tokens (C_Open m) =
     (om_channel m \<noteq> 0 \<and>
      (case om_kind m of
         Pty \<Rightarrow> om_claude_token m = None
       | Acp \<Rightarrow> (case om_claude_token m of Some t \<Rightarrow> t \<in> tokens | None \<Rightarrow> False)
       | UnknownKind \<Rightarrow> False))"
| "up_message_ok tokens (C_Resize _ _ _) = True"
| "up_message_ok tokens (C_Error _ _ _ _) = True"
| "up_message_ok tokens C_CredentialStatus = True"
| "up_message_ok tokens (C_FileRead _ _) = True"
| "up_message_ok tokens (C_CredentialState _ configured scope) = (configured \<and> scope = Some scope_USER)"
| "up_message_ok tokens _ = False"

definition up_ok :: "(bytes \<Rightarrow> string + ctrl) \<Rightarrow> secret set \<Rightarrow> bytes \<Rightarrow> bool" where
  "up_ok de tokens b \<longleftrightarrow>
     (\<exists>f. from_bytes b = Inr f \<and>
        (f_type f \<noteq> FT_Ctrl \<or> (\<exists>m. ctrl_message de f = Inr m \<and> up_message_ok tokens m)))"

definition down_ok :: "(bytes \<Rightarrow> string + ctrl) \<Rightarrow> (bytes \<Rightarrow> string option) \<Rightarrow> bytes \<Rightarrow> bool" where
  "down_ok de type_only b \<longleftrightarrow>
     (case from_bytes b of
        Inl _ \<Rightarrow> True
      | Inr f \<Rightarrow> f_type f \<noteq> FT_Ctrl \<or>
          (case ctrl_message de f of
             Inr m \<Rightarrow> tag m \<noteq> ''credential_captured''
           | Inl _ \<Rightarrow> \<not> is_captured_type type_only (f_payload f)))"

lemma up_ok_encode:
  "codec_sound ser de \<Longrightarrow> relay_encode ser m = Some b \<Longrightarrow> up_message_ok tokens m \<Longrightarrow> up_ok de tokens b"
  using relay_encode_decodes [of ser de m b] unfolding up_ok_def by metis

lemma down_ok_encode:
  "codec_sound ser de \<Longrightarrow> relay_encode ser m = Some b \<Longrightarrow> tag m \<noteq> ''credential_captured'' \<Longrightarrow> down_ok de type_only b"
  by (erule (1) relay_encode_decodes) (simp add: down_ok_def)

section \<open>The guard's verdicts\<close>

lemma guard_open_error_cases:
  "(\<exists>r. guard_open_error ser ch code msg = Inl r)
   \<or> (\<exists>b. guard_open_error ser ch code msg = Inr (V_Reply b) \<and> relay_encode ser (C_OpenError ch msg (Some code)) = Some b)"
  by (auto simp: guard_open_error_def relay_encode_def split: sum.splits)

text \<open>What each verdict on a browser message says.\<close>

definition verdict_ok :: "(ctrl \<Rightarrow> string + bytes) \<Rightarrow> (bytes \<Rightarrow> string + ctrl) \<Rightarrow> bytes \<Rightarrow> verdict \<Rightarrow> bool" where
  "verdict_ok ser de b v =
     (case v of
        V_Forward _ \<Rightarrow> up_ok de {} b
      | V_Reply r \<Rightarrow> (\<exists>ch code msg. relay_encode ser (C_OpenError ch msg code) = Some r)
      | V_Clear \<Rightarrow> True
      | V_OpenAcp ch open' \<Rightarrow> (\<exists>m. open' = C_Open m \<and> om_channel m = ch \<and> ch \<noteq> 0 \<and> om_kind m = Acp \<and> om_claude_token m = None))"

lemma open_error_verdict: "guard_open_error ser ch code msg = Inr v \<Longrightarrow> verdict_ok ser de b v"
  using guard_open_error_cases [of ser ch code msg] by (fastforce simp: verdict_ok_def)

lemma guard_open_verdict:
  assumes "guard_open ser m fwd g = (Inr v, g')" and "fwd = Inr (V_Forward a)"
    and "om_channel m \<noteq> 0 \<Longrightarrow> om_kind m = Pty \<Longrightarrow> om_claude_token m = None \<Longrightarrow> up_ok de {} b"
  shows "verdict_ok ser de b v"
  using assms
  by (auto simp: guard_open_def Let_def dest: open_error_verdict split: if_splits channel_kind.splits)
    (auto simp: verdict_ok_def)

lemma check_verdict:
  assumes "check_browser_message ser de g b = (Inr v, g')"
  shows "verdict_ok ser de b v"
proof -
  obtain f where f: "from_bytes b = Inr f" using assms by (auto simp: check_browser_message_def split: sum.splits)
  show ?thesis
  proof (cases "f_type f = FT_Ctrl")
    case False
    then have "up_ok de {} b" using f by (simp add: up_ok_def)
    then show ?thesis using assms f False
      by (auto simp: check_browser_message_def Let_def verdict_ok_def split: if_splits)
  next
    case True
    then obtain m where m: "ctrl_message de f = Inr m" "allowed_from m Ui"
      using assms f by (auto simp: check_browser_message_def Let_def ctrl_allowed_def split: sum.splits if_splits)
    have up: "up_message_ok {} m \<Longrightarrow> up_ok de {} b" using f True m by (auto simp: up_ok_def)
    show ?thesis
    proof (cases m)
      case (C_Open om)
      then show ?thesis using assms f True m up
        by (auto simp: check_browser_message_def Let_def ctrl_allowed_def intro!: guard_open_verdict)
    qed (use assms f True m up in
        \<open>auto simp: check_browser_message_def Let_def ctrl_allowed_def verdict_ok_def allowed_from_def ANY_CLIENT_def\<close>)
  qed
qed

lemma intercept_down_ok:
  "intercept_sandbox_message de type_only g b = (SF_Relay, g') \<Longrightarrow> down_ok de type_only b"
  by (auto simp: intercept_sandbox_message_def Let_def down_ok_def split: sum.splits if_splits ctrl.splits)

section \<open>The invariant\<close>

definition owner_tokens :: "secret set \<Rightarrow> relay \<Rightarrow> secret set" where
  "owner_tokens tokens st = (case rl_owner st of Some _ \<Rightarrow> tokens | None \<Rightarrow> {})"

definition busy_ok :: "relay \<Rightarrow> bool" where
  "busy_ok st \<longleftrightarrow> (\<forall>ch open'. rl_busy st = Some (Busy_Open ch open') \<longrightarrow>
     (\<exists>m. open' = C_Open m \<and> om_channel m \<noteq> 0 \<and> om_kind m = Acp))"

definition relay_inv :: "(bytes \<Rightarrow> string + ctrl) \<Rightarrow> (bytes \<Rightarrow> string option) \<Rightarrow> secret set \<Rightarrow> relay \<Rightarrow> bool" where
  "relay_inv de type_only tokens st \<longleftrightarrow>
     busy_ok st \<and> list_all (up_ok de (owner_tokens tokens st)) (rl_up st)
     \<and> list_all (down_ok de type_only) (rl_down st @ rl_replies st)"

lemma up_ok_mono: "up_ok de T b \<Longrightarrow> T \<subseteq> T' \<Longrightarrow> up_ok de T' b"
proof -
  have "up_message_ok T m \<Longrightarrow> T \<subseteq> T' \<Longrightarrow> up_message_ok T' m" for m
    by (cases m) (auto split: channel_kind.splits option.splits)
  then show "up_ok de T b \<Longrightarrow> T \<subseteq> T' \<Longrightarrow> up_ok de T' b" unfolding up_ok_def by blast
qed

lemma owner_tokens_simps [simp]:
  "owner_tokens T (st\<lparr>rl_guard := g\<rparr>) = owner_tokens T st" "owner_tokens T (st\<lparr>rl_busy := x\<rparr>) = owner_tokens T st"
  "owner_tokens T (st\<lparr>rl_up := u\<rparr>) = owner_tokens T st" "owner_tokens T (st\<lparr>rl_down := u\<rparr>) = owner_tokens T st"
  "owner_tokens T (st\<lparr>rl_replies := u\<rparr>) = owner_tokens T st" "owner_tokens T (st\<lparr>rl_storing := y\<rparr>) = owner_tokens T st"
  "owner_tokens T (st\<lparr>rl_end := e\<rparr>) = owner_tokens T st"
  by (simp_all add: owner_tokens_def)

lemma inv_simps [simp]:
  "relay_inv de ty T (st\<lparr>rl_guard := g\<rparr>) = relay_inv de ty T st" "relay_inv de ty T (st\<lparr>rl_end := e\<rparr>) = relay_inv de ty T st"
  "relay_inv de ty T (st\<lparr>rl_storing := y\<rparr>) = relay_inv de ty T st"
  by (simp_all add: relay_inv_def busy_ok_def)

lemma inv_busy: "relay_inv de ty T st \<Longrightarrow> busy_ok (st\<lparr>rl_busy := x\<rparr>) \<Longrightarrow> relay_inv de ty T (st\<lparr>rl_busy := x\<rparr>)"
  by (simp add: relay_inv_def)

lemma inv_busy_None [simp]: "relay_inv de ty T st \<Longrightarrow> relay_inv de ty T (st\<lparr>rl_busy := None\<rparr>)"
  by (rule inv_busy) (simp_all add: busy_ok_def)

lemma inv_stop: "relay_inv de ty T (relay_stop e st) = relay_inv de ty T st"
  by (simp add: relay_stop_def)

lemma inv_send_up: "relay_inv de ty T st \<Longrightarrow> up_ok de (owner_tokens T st) b \<Longrightarrow> relay_inv de ty T (send_up out b st)"
  by (cases out) (simp add: send_up_def relay_inv_def busy_ok_def, simp add: send_up_def inv_stop)

lemma inv_send_down: "relay_inv de ty T st \<Longrightarrow> down_ok de ty b \<Longrightarrow> relay_inv de ty T (send_down out b st)"
  by (cases out) (simp add: send_down_def relay_inv_def busy_ok_def, simp add: send_down_def inv_stop)

lemma inv_push_reply: "relay_inv de ty T st \<Longrightarrow> (\<And>b. r = Some b \<Longrightarrow> down_ok de ty b) \<Longrightarrow> relay_inv de ty T (push_reply r st)"
  by (cases r) (auto simp: push_reply_def relay_inv_def busy_ok_def)

lemmas inv_ops = inv_stop inv_send_up inv_send_down inv_push_reply

lemma browser_inv:
  assumes "codec_sound ser de" and "relay_inv de ty T st" and "rl_busy st = None"
  shows "relay_inv de ty T (relay_browser ser de out item st)"
proof (cases "\<exists>b. item = Some (Inr (WsBinary b))")
  case True
  then obtain b v g where b: "item = Some (Inr (WsBinary b))" and v: "check_browser_message ser de (rl_guard st) b = (v, g)"
    by fastforce
  have i: "relay_inv de ty T (st\<lparr>rl_guard := g\<rparr>)" using assms(2) by simp
  show ?thesis
  proof (cases v)
    case (Inl r)
    then show ?thesis using b v i by (simp add: relay_browser_def inv_stop)
  next
    case (Inr v')
    have ok: "verdict_ok ser de b v'" using check_verdict v Inr by blast
    show ?thesis
    proof (cases v')
      case (V_Forward a)
      then have "up_ok de (owner_tokens T (st\<lparr>rl_guard := g\<rparr>)) b" using ok up_ok_mono by (auto simp: verdict_ok_def)
      then show ?thesis using inv_send_up [OF i] b v Inr V_Forward by (simp add: relay_browser_def)
    next
      case (V_Reply r)
      then have "down_ok de ty r" using ok down_ok_encode [OF assms(1)] by (fastforce simp: verdict_ok_def)
      then show ?thesis using inv_push_reply [OF i, of "Some r"] b v Inr V_Reply by (simp add: relay_browser_def)
    next
      case V_Clear
      then show ?thesis using i inv_busy [OF i, of "Some Busy_Clear"] b v Inr
        by (simp add: relay_browser_def busy_ok_def Let_def split: option.split)
    next
      case (V_OpenAcp ch open')
      then have "busy_ok (st\<lparr>rl_guard := g, rl_busy := Some (Busy_Open ch open')\<rparr>)" using ok by (auto simp: verdict_ok_def busy_ok_def)
      then show ?thesis using inv_busy [OF i] b v Inr V_OpenAcp by (simp add: relay_browser_def)
    qed
  qed
next
  case False
  then show ?thesis using assms(2) by (auto simp: relay_browser_def inv_stop split: option.split sum.split ws_msg.split)
qed

lemma acp_open_ok:
  assumes "codec_sound ser de" and "om_channel m \<noteq> 0" and "om_kind m = Acp" and "\<And>t. answer = Inr (Some t) \<Longrightarrow> t \<in> T"
  shows "case acp_open ser owner answer ch (C_Open m) of
      Inr b \<Rightarrow> up_ok de (case owner of Some _ \<Rightarrow> T | None \<Rightarrow> {}) b
    | Inl r \<Rightarrow> (\<forall>b. r = Some b \<longrightarrow> down_ok de ty b)"
proof -
  have down: "open_error_frame ser c code msg = Some b \<Longrightarrow> down_ok de ty b" for c code msg b
    using down_ok_encode [OF assms(1)] by (simp add: open_error_frame_def)
  have up: "relay_encode ser (C_Open (m\<lparr>om_claude_token := Some t\<rparr>)) = Some b \<Longrightarrow> t \<in> T \<Longrightarrow> up_ok de T b" for t b
    by (rule up_ok_encode [OF assms(1)]) (use assms(2,3) in auto)
  show ?thesis using assms(4)
    by (auto simp: acp_open_def Let_def dest: down up split: option.splits sum.splits)
qed

lemma credential_inv:
  assumes "codec_sound ser de" and "relay_inv de ty T st" and "\<And>t. answer = Inr (Some t) \<Longrightarrow> t \<in> T"
  shows "relay_inv de ty T (relay_credential ser out cleared answer st)"
proof (cases "rl_busy st")
  case None
  then show ?thesis using assms(2) by (simp add: relay_credential_def)
next
  case (Some bz)
  show ?thesis
  proof (cases bz)
    case Busy_Clear
    have "credential_state ser False = Some b \<Longrightarrow> down_ok de ty b" for b
      using down_ok_encode [OF assms(1)] by (simp add: credential_state_def)
    then show ?thesis using Some Busy_Clear assms(2) inv_push_reply [OF inv_busy_None [OF assms(2)]]
      by (simp add: relay_credential_def split: sum.split)
  next
    case (Busy_Open ch open')
    then obtain m where m: "open' = C_Open m" "om_channel m \<noteq> 0" "om_kind m = Acp"
      using assms(2) Some by (auto simp: relay_inv_def busy_ok_def)
    have i: "relay_inv de ty T (st\<lparr>rl_busy := None\<rparr>)" using assms(2) by simp
    have ok: "case acp_open ser (rl_owner st) answer ch (C_Open m) of
        Inr b \<Rightarrow> up_ok de (case rl_owner st of Some _ \<Rightarrow> T | None \<Rightarrow> {}) b
      | Inl r \<Rightarrow> (\<forall>b. r = Some b \<longrightarrow> down_ok de ty b)"
      by (rule acp_open_ok [OF assms(1) m(2,3) assms(3)])
    show ?thesis
    proof (cases "acp_open ser (rl_owner st) answer ch (C_Open m)")
      case (Inl r)
      then have "\<And>b. r = Some b \<Longrightarrow> down_ok de ty b" using ok by auto
      then show ?thesis using Some Busy_Open m(1) Inl inv_push_reply i by (simp add: relay_credential_def)
    next
      case (Inr b)
      then have "up_ok de (owner_tokens T (st\<lparr>rl_busy := None\<rparr>)) b" using ok by (simp add: owner_tokens_def)
      then show ?thesis using Some Busy_Open m(1) Inr inv_send_up [OF i] by (simp add: relay_credential_def)
    qed
  qed
qed

lemma sandbox_inv:
  assumes "relay_inv de ty T st"
  shows "relay_inv de ty T (relay_sandbox de ty out item st)"
proof (cases "\<exists>b. item = Some (Inr (WsBinary b))")
  case True
  then obtain b c g where b: "item = Some (Inr (WsBinary b))"
    and c: "intercept_sandbox_message de ty (rl_guard st) b = (c, g)" by fastforce
  have i: "relay_inv de ty T (st\<lparr>rl_guard := g\<rparr>)" using assms by simp
  show ?thesis
  proof (cases c)
    case SF_Relay
    then have "down_ok de ty b" using c intercept_down_ok by blast
    then show ?thesis using b c SF_Relay inv_send_down [OF i] by (simp add: relay_sandbox_def)
  next
    case (SF_Captured token legacy)
    then show ?thesis using b c i by (simp add: relay_sandbox_def Let_def split: option.split)
  qed
next
  case False
  then show ?thesis using assms by (auto simp: relay_sandbox_def inv_stop split: option.split sum.split ws_msg.split)
qed

lemma stored_inv:
  assumes "codec_sound ser de" and "relay_inv de ty T st"
  shows "relay_inv de ty T (relay_stored ser out stored st)"
proof -
  have "credential_state ser True = Some b \<Longrightarrow> up_ok de (owner_tokens T (st\<lparr>rl_storing := None\<rparr>)) b \<and> down_ok de ty b" for b
    using up_ok_encode [OF assms(1)] down_ok_encode [OF assms(1)] by (simp add: credential_state_def)
  then show ?thesis using assms(2)
    by (auto simp: relay_stored_def Let_def split: option.split sum.split intro!: inv_send_up inv_send_down)
qed

lemma reply_inv: "relay_inv de ty T st \<Longrightarrow> relay_inv de ty T (relay_reply out st)"
proof (cases "rl_replies st")
  case (Cons b rest)
  assume i: "relay_inv de ty T st"
  have "relay_inv de ty T (st\<lparr>rl_replies := rest\<rparr>)" "down_ok de ty b"
    using i Cons by (auto simp: relay_inv_def busy_ok_def)
  then show ?thesis using Cons inv_send_down by (simp add: relay_reply_def)
qed (simp add: relay_reply_def)

lemma finish_relay_inv:
  assumes "codec_sound ser de" and "relay_inv de ty T st"
  shows "relay_inv de ty T (relay_finish ser st)"
proof -
  have "relay_encode ser (C_Error c m r ch) = Some b \<Longrightarrow> relay_inv de ty T (st\<lparr>rl_down := rl_down st @ [b]\<rparr>)" for c m r ch b
    using down_ok_encode [OF assms(1), of "C_Error c m r ch" b ty] assms(2) by (simp add: relay_inv_def busy_ok_def)
  then show ?thesis using assms(2) unfolding relay_finish_def by (simp split: option.split relay_end.split)
qed

lemma step_inv:
  assumes "codec_sound ser de" and "relay_inv de ty T st" and "relay_step ser de ty T st st'"
  shows "relay_inv de ty T st'"
  using assms(3,1,2)
  by cases (auto simp: inv_stop intro: browser_inv credential_inv sandbox_inv stored_inv reply_inv finish_relay_inv)

lemma owner_kept:
  "relay_step ser de ty T st st' \<Longrightarrow> rl_owner st' = rl_owner st"
  by (erule relay_step.cases)
    (auto simp: relay_browser_def relay_credential_def relay_sandbox_def relay_stored_def relay_reply_def relay_finish_def
      relay_stop_def send_up_def send_down_def push_reply_def Let_def
      split: option.splits sum.splits list.splits ws_msg.splits prod.splits verdict.splits busy.splits sandbox_frame.splits relay_end.splits)

definition relay_good ::
  "(ctrl \<Rightarrow> string + bytes) \<Rightarrow> (bytes \<Rightarrow> string + ctrl) \<Rightarrow> (bytes \<Rightarrow> string option) \<Rightarrow> secret set \<Rightarrow> string \<Rightarrow> string \<Rightarrow> relay \<Rightarrow> bool" where
  "relay_good ser de ty T sub owner st \<longleftrightarrow>
     rl_owner st = (if authorize sub owner then Some owner else None) \<and> (codec_sound ser de \<longrightarrow> relay_inv de ty T st)"

lemma relay_good_start: "relay_good ser de ty T sub owner (relay_start features sub owner)"
  by (simp add: relay_good_def relay_start_def relay_inv_def busy_ok_def)

lemma relay_good_step:
  "relay_good ser de ty T sub owner st \<Longrightarrow> relay_step ser de ty T st st' \<Longrightarrow> relay_good ser de ty T sub owner st'"
  using owner_kept step_inv by (simp add: relay_good_def) blast

interpretation rlm: machine "\<lambda>st. st = relay_start features sub owner" "relay_step ser de ty T" "relay_good ser de ty T sub owner"
  for features sub owner ser de ty T
  by unfold_locales (auto simp: relay_good_start intro: relay_good_step)

lemma relay_runs_good:
  "(relay_step ser de ty T)\<^sup>*\<^sup>* (relay_start features sub owner) st \<Longrightarrow> relay_good ser de ty T sub owner st"
  using rlm.good_reachable by blast

section \<open>The properties\<close>


definition status_ser :: "ctrl \<Rightarrow> string + bytes" where
  "status_ser m = (if m = C_CredentialStatus then Inr [1] else Inl ''unsupported'')"

definition status_de :: "bytes \<Rightarrow> string + ctrl" where
  "status_de b = (if b = [1] then Inr C_CredentialStatus else Inl ''unknown'')"

lemma status_codec: "codec_sound status_ser status_de"
  by (simp add: codec_sound_def status_ser_def status_de_def)

definition status_frame :: bytes where
  "status_frame = the (relay_encode status_ser C_CredentialStatus)"

definition status_up :: relay where
  "status_up = relay_browser status_ser status_de None (Some (Inr (WsBinary status_frame))) (relay_start [''acp''] ''ann'' ''ann'')"

definition status_down :: relay where
  "status_down = relay_sandbox status_de (\<lambda>_. None) None (Some (Inr (WsBinary status_frame))) (relay_start [''acp''] ''ann'' ''ann'')"

lemma status_up_run: "(relay_step status_ser status_de (\<lambda>_. None) {Secret ''tok''})\<^sup>*\<^sup>* (relay_start [''acp''] ''ann'' ''ann'') status_up"
  unfolding status_up_def by (intro r_into_rtranclp rl_browser) (simp_all add: relay_start_def)

lemma status_down_run: "(relay_step status_ser status_de (\<lambda>_. None) {Secret ''tok''})\<^sup>*\<^sup>* (relay_start [''acp''] ''ann'' ''ann'') status_down"
  unfolding status_down_def by (intro r_into_rtranclp rl_sandbox) (simp_all add: relay_start_def)

lemma status_encodes: "relay_encode status_ser C_CredentialStatus = Some status_frame"
proof -
  have "validate (frame_new FT_Ctrl 0 [1]) = Inr ()" by (simp add: validate_def check_channel_def frame_new_def MAX_PAYLOAD_LEN_def)
  then show ?thesis by (simp add: status_frame_def relay_encode_def frame_ctrl_def status_ser_def to_bytes_eq)
qed

lemma status_sent: "status_frame \<in> set (rl_up status_up)" "status_frame \<in> set (rl_down status_down)"
proof -
  obtain f where "from_bytes status_frame = Inr f" "f_type f = FT_Ctrl" "ctrl_message status_de f = Inr C_CredentialStatus"
    using relay_encode_decodes [OF status_codec status_encodes] by blast
  then show "status_frame \<in> set (rl_up status_up)" "status_frame \<in> set (rl_down status_down)"
    by (simp_all add: status_up_def status_down_def relay_browser_def relay_sandbox_def check_browser_message_def
        ctrl_allowed_def allowed_from_def ANY_CLIENT_def send_up_def send_down_def intercept_sandbox_message_def Let_def)
qed




section \<open>The one chat of a connection\<close>

text \<open>
  The specification: the set of live chat channels. A chat opens when the guard admits it and ends
  with a close of either side, a refusal of the sandbox or of the credential step.
\<close>

datatype guard_op = GO_Browser bytes | GO_Sandbox bytes | GO_Release u32

datatype chat_event = Chat_Opened u32 | Chat_Ended u32

fun live :: "chat_event \<Rightarrow> u32 set \<Rightarrow> u32 set" where
  "live (Chat_Opened ch) L = insert ch L"
| "live (Chat_Ended ch) L = L - {ch}"

fun one_at_a_time :: "u32 set \<Rightarrow> chat_event list \<Rightarrow> bool" where
  "one_at_a_time L [] = True"
| "one_at_a_time L (Chat_Opened ch # es) = (L = {} \<and> one_at_a_time (insert ch L) es)"
| "one_at_a_time L (Chat_Ended ch # es) = one_at_a_time (L - {ch}) es"

definition ended_by_sandbox :: "(bytes \<Rightarrow> string + ctrl) \<Rightarrow> bytes \<Rightarrow> chat_event list" where
  "ended_by_sandbox de b =
     (case from_bytes b of
        Inl _ \<Rightarrow> []
      | Inr f \<Rightarrow>
          if f_type f = FT_Close then [Chat_Ended (f_channel f)]
          else if f_type f = FT_Ctrl then
            (case ctrl_message de f of Inr (C_OpenError ch _ _) \<Rightarrow> [Chat_Ended ch] | _ \<Rightarrow> [])
          else [])"

definition verdict_events :: "reject + verdict \<Rightarrow> chat_event list" where
  "verdict_events v =
     (case v of
        Inr (V_OpenAcp ch _) \<Rightarrow> [Chat_Opened ch]
      | Inr (V_Forward a) \<Rightarrow> if aw_frame_type a = FT_Close then [Chat_Ended (aw_channel a)] else []
      | _ \<Rightarrow> [])"

fun guard_event :: "(ctrl \<Rightarrow> string + bytes) \<Rightarrow> (bytes \<Rightarrow> string + ctrl) \<Rightarrow> (bytes \<Rightarrow> string option) \<Rightarrow> guard \<Rightarrow> guard_op \<Rightarrow> chat_event list \<times> guard" where
  "guard_event ser de ty g (GO_Browser b) = (let (v, g') = check_browser_message ser de g b in (verdict_events v, g'))"
| "guard_event ser de ty g (GO_Sandbox b) = (ended_by_sandbox de b, snd (intercept_sandbox_message de ty g b))"
| "guard_event ser de ty g (GO_Release ch) = ([Chat_Ended ch], release_acp ch g)"

fun guard_run ::
  "(ctrl \<Rightarrow> string + bytes) \<Rightarrow> (bytes \<Rightarrow> string + ctrl) \<Rightarrow> (bytes \<Rightarrow> string option) \<Rightarrow> guard \<Rightarrow> guard_op list \<Rightarrow> chat_event list \<times> guard" where
  "guard_run ser de ty g [] = ([], g)"
| "guard_run ser de ty g (x # xs) =
     (let (es, g1) = guard_event ser de ty g x; (fs, g2) = guard_run ser de ty g1 xs in (es @ fs, g2))"

definition slot_set :: "guard \<Rightarrow> u32 set" where
  "slot_set g = set_option (gd_acp_channel g)"

lemma one_at_a_time_append:
  "one_at_a_time L (es @ fs) \<longleftrightarrow> one_at_a_time L es \<and> one_at_a_time (fold live es L) fs"
  by (induction L es rule: one_at_a_time.induct) auto

lemma guard_open_error_events: "verdict_events (guard_open_error ser ch code msg) = []"
  using guard_open_error_cases [of ser ch code msg] by (auto simp: verdict_events_def)

lemma guard_open_slot:
  assumes "guard_open ser m fwd g = (v, g')" and "verdict_events fwd = []"
  shows "slot_set g' = fold live (verdict_events v) (slot_set g) \<and> one_at_a_time (slot_set g) (verdict_events v)"
proof (cases "\<exists>o'. v = Inr (V_OpenAcp (om_channel m) o') \<and> gd_acp_channel g = None \<and> g' = g\<lparr>gd_acp_channel := Some (om_channel m)\<rparr>")
  case True
  then show ?thesis by (auto simp: slot_set_def verdict_events_def)
next
  case False
  then have "g' = g \<and> verdict_events v = []"
    using assms by (auto simp: guard_open_def Let_def guard_open_error_events verdict_events_def [of "Inl _"] split: if_splits channel_kind.splits)
  then show ?thesis by simp
qed

lemma check_slot:
  assumes "check_browser_message ser de g b = (v, g')"
  shows "slot_set g' = fold live (verdict_events v) (slot_set g) \<and> one_at_a_time (slot_set g) (verdict_events v)"
proof (cases "\<exists>f om. from_bytes b = Inr f \<and> f_type f = FT_Ctrl \<and> ctrl_message de f = Inr (C_Open om) \<and> allowed_from (C_Open om) Ui")
  case True
  then show ?thesis using assms
    by (auto simp: check_browser_message_def Let_def ctrl_allowed_def verdict_events_def dest!: guard_open_slot)
next
  case False
  then show ?thesis using assms
    by (auto simp: check_browser_message_def Let_def ctrl_allowed_def verdict_events_def slot_set_def split: sum.splits if_splits ctrl.splits)
qed

lemma observe_slot: "slot_set (observe_sandbox_message de g b) = fold live (ended_by_sandbox de b) (slot_set g)"
  by (auto simp: observe_sandbox_message_def ended_by_sandbox_def slot_set_def split: option.splits sum.splits if_splits ctrl.splits)

lemma intercept_guard: "snd (intercept_sandbox_message de ty g b) = observe_sandbox_message de g b"
  by (simp add: intercept_sandbox_message_def Let_def split: sum.split ctrl.split)

lemma sandbox_one_at_a_time: "one_at_a_time L (ended_by_sandbox de b)"
  by (simp add: ended_by_sandbox_def split: sum.split ctrl.split)

lemma guard_event_slot:
  "guard_event ser de ty g x = (es, g') \<Longrightarrow> slot_set g' = fold live es (slot_set g) \<and> one_at_a_time (slot_set g) es"
proof (cases x)
  case (GO_Release ch)
  then show "guard_event ser de ty g x = (es, g') \<Longrightarrow> ?thesis" by (auto simp: release_acp_def slot_set_def split: if_splits)
qed (auto simp: check_slot observe_slot intercept_guard sandbox_one_at_a_time split: prod.splits)

text \<open>
  C28: the guard's single slot refines the specification. Over any sequence of browser messages,
  sandbox messages and releases the slot is the set of live chats, and a chat is only admitted
  when none is live.
\<close>

theorem guard_slot_refines:
  "slot_set (snd (guard_run ser de ty g xs)) = fold live (fst (guard_run ser de ty g xs)) (slot_set g)
   \<and> one_at_a_time (slot_set g) (fst (guard_run ser de ty g xs))"
proof (induction xs arbitrary: g)
  case (Cons x xs)
  obtain es g1 where op: "guard_event ser de ty g x = (es, g1)" by fastforce
  then show ?case using Cons [of g1] guard_event_slot [OF op]
    by (auto simp: one_at_a_time_append split: prod.split)
qed simp

end
