(* ===== verification/Std_Data.thy ===== *)
theory Std_Data
  imports Std_Text Json "HOL-Library.Char_ord" "HOL-Library.List_Lexorder"
begin

text \<open>
  The parts of the standard library and of \<^verbatim>\<open>serde_json::Value\<close> the operator uses: decimal parsing,
  64-bit saturation, ordered maps (strings compare by their bytes) and the accessors of a JSON value.
\<close>

section \<open>Integers\<close>

definition I64_MAX :: int where "I64_MAX = 2 ^ 63 - 1"
definition I64_MIN :: int where "I64_MIN = - (2 ^ 63)"
definition I128_MAX :: int where "I128_MAX = 2 ^ 127 - 1"
definition U32_MAX :: int where "U32_MAX = 2 ^ 32 - 1"
definition U64_MAX :: int where "U64_MAX = 2 ^ 64 - 1"

definition sat_add :: "int \<Rightarrow> int \<Rightarrow> int" where
  "sat_add a b = max I64_MIN (min I64_MAX (a + b))"

definition int_of_digits :: "string \<Rightarrow> int" where
  "int_of_digits = foldl (\<lambda>n c. n * 10 + (of_char c - 48)) 0"

definition all_digits :: "string \<Rightarrow> bool" where
  "all_digits s \<longleftrightarrow> s \<noteq> [] \<and> list_all is_ascii_digit s"

text \<open>\<^verbatim>\<open>str::parse\<close> of an unsigned type: an optional \<^verbatim>\<open>+\<close>, digits, and in range.\<close>

definition parse_unsigned :: "int \<Rightarrow> string \<Rightarrow> int option" where
  "parse_unsigned limit s =
     (let t = (case s of c # r \<Rightarrow> if c = CHR ''+'' then r else s | [] \<Rightarrow> s)
      in if all_digits t \<and> int_of_digits t \<le> limit then Some (int_of_digits t) else None)"

definition parse_i64 :: "string \<Rightarrow> int option" where
  "parse_i64 s =
     (if starts_with s ''-'' then
        (let t = tl s in if all_digits t \<and> - int_of_digits t \<ge> I64_MIN then Some (- int_of_digits t) else None)
      else parse_unsigned I64_MAX s)"

function show_uint :: "int \<Rightarrow> string" where
  "show_uint n = (if n < 10 then [char_of (48 + n)] else show_uint (n div 10) @ [char_of (48 + n mod 10)])"
  by pat_completeness auto
termination by (relation "measure nat") auto

declare show_uint.simps [simp del]

definition show_int :: "int \<Rightarrow> string" where
  "show_int i = (if i < 0 then ''-'' @ show_uint (- i) else show_uint i)"

lemma int_of_digits_snoc: "int_of_digits (s @ [c]) = int_of_digits s * 10 + (of_char c - 48)"
  by (simp add: int_of_digits_def)

lemma digit_value: "0 \<le> d \<Longrightarrow> d < 10 \<Longrightarrow> (of_char (char_of (48 + d) :: char) :: int) = 48 + d"
  by (simp add: of_char_of)

lemma digit_char_digit: "0 \<le> (d :: int) \<Longrightarrow> d < 10 \<Longrightarrow> is_ascii_digit (char_of (48 + d))"
proof -
  assume d: "0 \<le> d" "d < 10"
  have "int (of_char (char_of (48 + d) :: char)) = 48 + d" using digit_value [OF d] by (simp only: of_nat_of_char)
  then show "is_ascii_digit (char_of (48 + d))" using d unfolding is_ascii_digit_def by linarith
qed

lemma int_of_digits_show: "0 \<le> n \<Longrightarrow> int_of_digits (show_uint n) = n"
proof (induction n rule: show_uint.induct)
  case (1 n)
  show ?case
  proof (cases "n < 10")
    case True
    then show ?thesis using 1(2) digit_value [of n] by (simp add: show_uint.simps [of n] int_of_digits_def)
  next
    case False
    then show ?thesis using 1 digit_value [of "n mod 10"] by (simp add: show_uint.simps [of n] int_of_digits_snoc)
  qed
qed

lemma show_uint_not_Nil [simp]: "show_uint n \<noteq> []"
  by (subst show_uint.simps) simp

lemma show_uint_digits: "0 \<le> n \<Longrightarrow> list_all is_ascii_digit (show_uint n)"
proof (induction n rule: show_uint.induct)
  case (1 n)
  then show ?case by (cases "n < 10") (simp_all add: show_uint.simps [of n] digit_char_digit)
qed

lemma all_digits_show: "0 \<le> n \<Longrightarrow> all_digits (show_uint n)"
  by (simp add: all_digits_def show_uint_digits)

section \<open>Ordered maps\<close>

fun bt_insert :: "string \<Rightarrow> 'v \<Rightarrow> 'v btree \<Rightarrow> 'v btree" where
  "bt_insert k v [] = [(k, v)]"
| "bt_insert k v ((k', v') # m) =
     (if k = k' then (k, v) # m else if k < k' then (k, v) # (k', v') # m else (k', v') # bt_insert k v m)"

definition bt_extend :: "'v btree \<Rightarrow> (string \<times> 'v) list \<Rightarrow> 'v btree" where
  "bt_extend = foldl (\<lambda>m (k, v). bt_insert k v m)"

definition bt_of :: "(string \<times> 'v) list \<Rightarrow> 'v btree" where
  "bt_of = bt_extend []"

definition bt_ok :: "'v btree \<Rightarrow> bool" where
  "bt_ok m \<longleftrightarrow> sorted_wrt (<) (map fst m)"

lemma map_of_bt_insert [simp]: "map_of (bt_insert k v m) = (map_of m)(k \<mapsto> v)"
  by (induction k v m rule: bt_insert.induct) (auto simp: fun_eq_iff)

lemma bt_insert_keys: "set (map fst (bt_insert k v m)) = insert k (set (map fst m))"
  by (induction k v m rule: bt_insert.induct) auto

lemma bt_insert_ok: "bt_ok m \<Longrightarrow> bt_ok (bt_insert k v m)"
proof (induction k v m rule: bt_insert.induct)
  case (2 k v k' v' m)
  then show ?case using bt_insert_keys [of k v m] by (auto simp: bt_ok_def)
qed (simp add: bt_ok_def)

lemma bt_extend_ok: "bt_ok m \<Longrightarrow> bt_ok (bt_extend m kvs)"
  by (induction kvs arbitrary: m) (auto simp: bt_extend_def bt_insert_ok)

lemma bt_of_ok [simp]: "bt_ok (bt_of kvs)"
  unfolding bt_of_def by (rule bt_extend_ok) (simp add: bt_ok_def)

lemma map_of_bt_extend: "map_of (bt_extend m kvs) = map_of m ++ map_of (rev kvs)"
  by (induction kvs arbitrary: m) (auto simp: bt_extend_def map_add_def fun_eq_iff split: option.splits)

lemma bt_ok_distinct: "bt_ok m \<Longrightarrow> distinct (map fst m)"
  by (simp add: bt_ok_def strict_sorted_iff)

section \<open>JSON values\<close>

fun jget :: "string \<Rightarrow> json \<Rightarrow> json option" where
  "jget k (JObj m) = map_of m k"
| "jget k _ = None"

fun as_str :: "json \<Rightarrow> string option" where
  "as_str (JStr s) = Some s"
| "as_str _ = None"

fun as_array :: "json \<Rightarrow> json list option" where
  "as_array (JArr xs) = Some xs"
| "as_array _ = None"

fun as_object :: "json \<Rightarrow> (string \<times> json) list option" where
  "as_object (JObj m) = Some m"
| "as_object _ = None"

definition jget_str :: "string \<Rightarrow> json \<Rightarrow> string option" where
  "jget_str k v = Option.bind (jget k v) as_str"

definition jget_array :: "string \<Rightarrow> json \<Rightarrow> json list" where
  "jget_array k v = (case Option.bind (jget k v) as_array of Some xs \<Rightarrow> xs | None \<Rightarrow> [])"

text \<open>\<^verbatim>\<open>Value::pointer\<close> with two steps by name.\<close>

definition jpointer2 :: "string \<Rightarrow> string \<Rightarrow> json \<Rightarrow> json option" where
  "jpointer2 a b v = Option.bind (jget a v) (jget b)"

text \<open>Building values: an object keeps its entries in key order.\<close>

definition jobj :: "(string \<times> json) list \<Rightarrow> json" where
  "jobj kvs = JObj (bt_of kvs)"

definition jint :: "int \<Rightarrow> json" where
  "jint n = JNum (PosInt (of_int n))"

definition jstrs :: "string list \<Rightarrow> json" where
  "jstrs xs = JArr (map JStr xs)"

fun as_bool :: "json \<Rightarrow> bool option" where
  "as_bool (JBool b) = Some b"
| "as_bool _ = None"

fun as_u64 :: "json \<Rightarrow> u64 option" where
  "as_u64 (JNum (PosInt n)) = Some n"
| "as_u64 _ = None"

fun as_i64 :: "json \<Rightarrow> int option" where
  "as_i64 (JNum (PosInt n)) = (if uint n \<le> I64_MAX then Some (uint n) else None)"
| "as_i64 (JNum (NegInt n)) = Some (sint n)"
| "as_i64 _ = None"

definition jset :: "string \<Rightarrow> json \<Rightarrow> json \<Rightarrow> json" where
  "jset k v j = (case j of JObj m \<Rightarrow> JObj (bt_insert k v m) | other \<Rightarrow> other)"

lemma jget_jobj: "jget k (jobj kvs) = map_of (rev kvs) k"
  by (simp add: jobj_def bt_of_def map_of_bt_extend)

end
