(* ===== verification/Roll.thy ===== *)
theory Roll
  imports Std_Data
begin

text \<open>
  Applying a change of the pod shape to a running sandbox: \<^verbatim>\<open>operator/src/roll.rs\<close>,
  \<^verbatim>\<open>quantity.rs\<close> and the status types of \<^verbatim>\<open>enzarb-crds/src/project.rs\<close>. Time stamps are those of the
  \<^verbatim>\<open>jiff\<close> crate: their type is a type variable of class \<open>linorder\<close>, their operations are the
  fields of \<open>jiff\<close>, and \<open>jiff_ok\<close> says what is assumed of them. The timeout is its number
  of whole seconds. \<open>print\<close> is \<^verbatim>\<open>Value::to_string\<close>.
\<close>

section \<open>Quantities\<close>

definition multiplier :: "string \<Rightarrow> int option" where
  "multiplier suffix =
     map_of [('''', 1000), (''m'', 1), (''k'', 10 ^ 6), (''M'', 10 ^ 9), (''G'', 10 ^ 12), (''T'', 10 ^ 15),
       (''P'', 10 ^ 18), (''E'', 10 ^ 21), (''Ki'', 1024 * 1000), (''Mi'', 1024 ^ 2 * 1000), (''Gi'', 1024 ^ 3 * 1000),
       (''Ti'', 1024 ^ 4 * 1000), (''Pi'', 1024 ^ 5 * 1000), (''Ei'', 1024 ^ 6 * 1000)] suffix"

definition checked_i128 :: "int \<Rightarrow> int option" where
  "checked_i128 n = (if n \<le> I128_MAX then Some n else None)"

text \<open>The parse of a part of the number: only digits and dots can occur in it.\<close>

definition parse_part :: "string \<Rightarrow> int option" where
  "parse_part s = (if s = [] then Some 0 else if all_digits s then Some (int_of_digits s) else None)"

definition milli :: "string \<Rightarrow> int option" where
  "milli s0 =
     (let s = trim s0;
          num = takeWhile (\<lambda>c. is_ascii_digit c \<or> c = CHR ''.'') s;
          suffix = dropWhile (\<lambda>c. is_ascii_digit c \<or> c = CHR ''.'') s
      in Option.bind (multiplier suffix) (\<lambda>mult.
           let (int, frac) = (case split_once (CHR ''.'') num of Some p \<Rightarrow> p | None \<Rightarrow> (num, []))
           in if int = [] \<and> frac = [] \<or> length frac > 9 \<or> length int > 18 then None
              else Option.bind (parse_part int) (\<lambda>int_val.
                   Option.bind (parse_part frac) (\<lambda>frac_val.
                   Option.bind (checked_i128 (int_val * mult)) (\<lambda>a.
                   Option.bind (checked_i128 (frac_val * mult)) (\<lambda>b.
                   checked_i128 (a + b div 10 ^ length frac)))))))"

section \<open>The shape of a pod\<close>

definition canonical_quantity :: "(json \<Rightarrow> string) \<Rightarrow> json \<Rightarrow> string" where
  "canonical_quantity print v =
     (case v of
        JStr s \<Rightarrow> (case milli s of Some m \<Rightarrow> show_int m | None \<Rightarrow> s)
      | other \<Rightarrow> print other)"

text \<open>The entries of one container, in the order they are inserted.\<close>

definition env_entries :: "string \<Rightarrow> json \<Rightarrow> (string \<times> string) list" where
  "env_entries name c =
     List.map_filter (\<lambda>e.
       case (jget_str ''name'' e, jget_str ''value'' e) of
         (Some n, Some v) \<Rightarrow> if starts_with n ''ENZARB_'' then Some (''env/'' @ name @ ''/'' @ n, v) else None
       | _ \<Rightarrow> None) (jget_array ''env'' c)"

definition security_entries :: "(json \<Rightarrow> string) \<Rightarrow> string \<Rightarrow> json \<Rightarrow> (string \<times> string) list" where
  "security_entries print name c =
     (case jget ''securityContext'' c of
        None \<Rightarrow> []
      | Some sc \<Rightarrow>
          List.map_filter (\<lambda>f. map_option (\<lambda>v. (''security/'' @ name @ ''/'' @ f, print v)) (jget f sc))
            [''runAsUser'', ''privileged'', ''allowPrivilegeEscalation'']
          @ (case Option.bind (jpointer2 ''capabilities'' ''add'' sc) as_array of
               None \<Rightarrow> []
             | Some caps \<Rightarrow> [(''security/'' @ name @ ''/caps'', join '','' (sort (List.map_filter as_str caps)))]))"

definition resource_entries :: "(json \<Rightarrow> string) \<Rightarrow> string \<Rightarrow> json \<Rightarrow> (string \<times> string) list" where
  "resource_entries print name c =
     concat (map (\<lambda>kind.
       (case Option.bind (jpointer2 ''resources'' kind c) as_object of
          None \<Rightarrow> []
        | Some m \<Rightarrow> map (\<lambda>(r, q). (''resources/'' @ name @ ''/'' @ kind @ ''/'' @ r, canonical_quantity print q)) m))
       [''limits'', ''requests''])"

definition mount_entries :: "string \<Rightarrow> json \<Rightarrow> (string \<times> string) list" where
  "mount_entries name c =
     List.map_filter (\<lambda>m.
       case (jget_str ''name'' m, jget_str ''mountPath'' m) of
         (Some n, Some path) \<Rightarrow> Some (''mounts/'' @ name @ ''/'' @ n, path)
       | _ \<Rightarrow> None) (jget_array ''volumeMounts'' c)"

definition container_entries :: "(json \<Rightarrow> string) \<Rightarrow> json \<Rightarrow> (string \<times> string) list" where
  "container_entries print c =
     (case jget_str ''name'' c of
        None \<Rightarrow> []
      | Some name \<Rightarrow>
          (case jget_str ''image'' c of Some img \<Rightarrow> [(''image/'' @ name, img)] | None \<Rightarrow> [])
          @ env_entries name c @ security_entries print name c @ resource_entries print name c @ mount_entries name c)"

definition shape_of :: "(json \<Rightarrow> string) \<Rightarrow> json \<Rightarrow> string btree" where
  "shape_of print spec =
     bt_of ((case jget_str ''runtimeClassName'' spec of Some rc \<Rightarrow> [(''runtimeClassName'', rc)] | None \<Rightarrow> [])
       @ concat (map (container_entries print) (jget_array ''containers'' spec)))"

definition diff_entry :: "string btree \<Rightarrow> string \<times> string \<Rightarrow> string option" where
  "diff_entry running kw =
     (case map_of running (fst kw) of
        Some h \<Rightarrow> if h = snd kw then None else Some (fst kw @ '': '' @ h @ '' -> '' @ snd kw)
      | None \<Rightarrow> Some (fst kw @ '': <unset> -> '' @ snd kw))"

definition diff :: "string btree \<Rightarrow> string btree \<Rightarrow> string list" where
  "diff want running =
     List.map_filter (diff_entry running) want
     @ List.map_filter (\<lambda>(k, h). if starts_with k ''env/'' \<and> map_of want k = None then Some (k @ '': '' @ h @ '' -> <unset>'') else None) running"

definition MAX_REASON :: nat where "MAX_REASON = 1000"

definition is_char_boundary :: "string \<Rightarrow> nat \<Rightarrow> bool" where
  "is_char_boundary s n \<longleftrightarrow> n = 0 \<or> n = length s \<or> (n < length s \<and> \<not> utf8_cont (byte_of_char (s ! n)))"

fun boundary_before :: "string \<Rightarrow> nat \<Rightarrow> nat" where
  "boundary_before s 0 = 0"
| "boundary_before s (Suc n) = (if is_char_boundary s (Suc n) then Suc n else boundary_before s n)"

definition reason_of :: "string list \<Rightarrow> string" where
  "reason_of d = (let r = join ''; '' d in if length r > MAX_REASON then take (boundary_before r MAX_REASON) r else r)"

section \<open>Time\<close>

record 't jiff =
  as_second :: "'t \<Rightarrow> int"
  from_second :: "int \<Rightarrow> 't option"
  ts_MAX :: 't
  ts_show :: "'t \<Rightarrow> string"

text \<open>What the code relies on: seconds are monotone in time, \<^verbatim>\<open>from_second\<close> builds the time stamp of that second.\<close>

definition jiff_ok :: "('t::linorder) jiff \<Rightarrow> bool" where
  "jiff_ok J \<longleftrightarrow>
     (\<forall>a b. a \<le> b \<longrightarrow> as_second J a \<le> as_second J b)
     \<and> (\<forall>n t. from_second J n = Some t \<longrightarrow> as_second J t = n)
     \<and> (\<forall>t n. as_second J t \<le> n \<and> n \<le> as_second J (ts_MAX J) \<longrightarrow> from_second J n \<noteq> None)
     \<and> (\<forall>t. t \<le> ts_MAX J) \<and> (\<forall>t. I64_MIN \<le> as_second J t \<and> as_second J t \<le> I64_MAX)"

definition deadline :: "'t jiff \<Rightarrow> 't \<Rightarrow> u64 \<Rightarrow> 't" where
  "deadline J since timeout =
     (let secs = sat_add (as_second J since) (min (int (unat timeout)) I64_MAX)
      in case from_second J (min secs (as_second J (ts_MAX J))) of Some t \<Rightarrow> t | None \<Rightarrow> ts_MAX J)"

section \<open>The decision\<close>

datatype activity = Unknown_Activity | Active int

definition ANNOTATION_ACTIVE_SESSIONS :: string where "ANNOTATION_ACTIVE_SESSIONS = ''enzarb.dev/active-sessions''"
definition ANNOTATION_DRAINED_GENERATION :: string where "ANNOTATION_DRAINED_GENERATION = ''enzarb.dev/drained-generation''"
definition ANNOTATION_ROLL_NOW_GENERATION :: string where "ANNOTATION_ROLL_NOW_GENERATION = ''enzarb.dev/roll-now-generation''"
definition MIN_POD_AGE_SECS :: int where "MIN_POD_AGE_SECS = 120"

definition of_pod :: "string btree \<Rightarrow> activity" where
  "of_pod annotations =
     (case Option.bind (map_of annotations ANNOTATION_ACTIVE_SESSIONS) (\<lambda>v. parse_unsigned U32_MAX (trim v)) of
        Some n \<Rightarrow> Active n | None \<Rightarrow> Unknown_Activity)"

record 't pending_change =
  pc_generation :: int
  pc_since :: 't
  pc_deadline :: "'t option"
  pc_reason :: string

datatype 't pod_state = Absent | Terminating_Pod | Running 't

record 't roll_input =
  ri_diff :: "string list"
  ri_template_matches :: bool
  ri_pod :: "'t pod_state"
  ri_activity :: activity
  ri_pending :: "'t pending_change option"
  ri_ack :: "int option"
  ri_roll_now :: "int option"
  ri_now :: 't
  ri_timeout :: u64

datatype why = Why_Ack | Why_Manual | Why_Idle | Why_Timeout

datatype 't decision =
    Settled
  | Hold
  | Defer "'t pending_change"
  | Roll "'t pending_change" why

definition fresh :: "'t jiff \<Rightarrow> int \<Rightarrow> 't \<Rightarrow> u64 \<Rightarrow> string \<Rightarrow> 't pending_change" where
  "fresh J generation now timeout reason =
     \<lparr>pc_generation = generation, pc_since = now, pc_deadline = Some (deadline J now timeout), pc_reason = reason\<rparr>"

text \<open>An annotation that is \<^verbatim>\<open>i64::MAX\<close> does not count; the floor exceeds those that do.\<close>

definition valid_ack :: "int option \<Rightarrow> int option" where
  "valid_ack a = (case a of Some n \<Rightarrow> if n < I64_MAX then a else None | None \<Rightarrow> None)"

fun option_max :: "int option \<Rightarrow> int option \<Rightarrow> int option" where
  "option_max None b = b"
| "option_max a None = a"
| "option_max (Some a) (Some b) = Some (max a b)"

definition floor_generation :: "int option \<Rightarrow> int option \<Rightarrow> int" where
  "floor_generation ack roll_now = (case option_max ack roll_now of None \<Rightarrow> 1 | Some a \<Rightarrow> max (sat_add a 1) 1)"

text \<open>The pending change to publish; none when the pod has already had its roll for this reason.\<close>

definition next_change ::
  "('t::linorder) jiff \<Rightarrow> int \<Rightarrow> 't \<Rightarrow> string \<Rightarrow> 't pending_change option \<Rightarrow> 't \<Rightarrow> u64 \<Rightarrow> 't pending_change option" where
  "next_change J floor created reason pending now timeout =
     (case pending of
        None \<Rightarrow> Some (fresh J floor now timeout reason)
      | Some p \<Rightarrow>
          if created > pc_since p then
            (if pc_reason p = reason then None
             else Some (fresh J (max floor (sat_add (pc_generation p) 1)) now timeout reason))
          else if pc_reason p = reason then Some (p\<lparr>pc_deadline := Some (deadline J (pc_since p) timeout)\<rparr>)
          else Some \<lparr>pc_generation = max floor (sat_add (pc_generation p) 1), pc_since = pc_since p,
                     pc_deadline = Some (deadline J (pc_since p) timeout), pc_reason = reason\<rparr>)"

definition release_why :: "('t::linorder) jiff \<Rightarrow> 't roll_input \<Rightarrow> 't pending_change \<Rightarrow> why option" where
  "release_why J i next =
     (if valid_ack (ri_ack i) = Some (pc_generation next) then Some Why_Ack
      else if valid_ack (ri_roll_now i) = Some (pc_generation next) then Some Why_Manual
      else if ri_activity i = Active 0 then Some Why_Idle
      else if as_second J (ri_now i) \<ge> as_second J (deadline J (pc_since next) (ri_timeout i)) then Some Why_Timeout
      else None)"

definition decide :: "('t::linorder) jiff \<Rightarrow> 't roll_input \<Rightarrow> 't decision" where
  "decide J i =
     (case ri_pod i of
        Running created \<Rightarrow>
          if ri_diff i = [] then Settled
          else if \<not> ri_template_matches i then Hold
          else (case next_change J (floor_generation (valid_ack (ri_ack i)) (valid_ack (ri_roll_now i))) created
                       (reason_of (ri_diff i)) (ri_pending i) (ri_now i) (ri_timeout i) of
                  None \<Rightarrow> Hold
                | Some next \<Rightarrow>
                    (case release_why J i next of
                       Some w \<Rightarrow>
                         if as_second J (ri_now i) - as_second J created \<ge> MIN_POD_AGE_SECS then Roll next w else Defer next
                     | None \<Rightarrow> Defer next))
      | _ \<Rightarrow> if ri_pending i \<noteq> None then Hold else Settled)"

section \<open>The step\<close>

record 't last_roll =
  lr_at :: 't
  lr_since :: "'t option"
  lr_reason :: string
  lr_image :: string

record 't roll_pending =
  rp_change :: "'t pending_change"
  rp_message :: string
  rp_remaining :: int
  rp_rolled :: "'t last_roll option"

datatype 't outcome = Clear | Keep | Pending "'t roll_pending"

definition roll_message :: "'t jiff \<Rightarrow> 't pending_change \<Rightarrow> activity \<Rightarrow> 't \<Rightarrow> string" where
  "roll_message J c activity due =
     (let g = show_int (pc_generation c);
          busy = (case activity of Active n \<Rightarrow> if n > 0 then '' ('' @ show_int n @ '' active sessions)'' else [] | _ \<Rightarrow> [])
      in ''generation '' @ g @ '': '' @ pc_reason c @ ''; applied when drained (annotation ''
         @ ANNOTATION_DRAINED_GENERATION @ ''='' @ g @ ''), on roll now (annotation ''
         @ ANNOTATION_ROLL_NOW_GENERATION @ ''='' @ g @ '') or after '' @ ts_show J due @ busy)"

definition make_last_roll :: "'t pending_change \<Rightarrow> 't \<Rightarrow> string \<Rightarrow> 't last_roll" where
  "make_last_roll change now img =
     \<lparr>lr_at = now, lr_since = Some (pc_since change), lr_reason = pc_reason change, lr_image = img\<rparr>"

datatype kube_error = Kube_Api nat string | Kube_Other string

record 't pod =
  pod_deleting :: bool
  pod_created :: "'t option"
  pod_spec :: "json option"
  pod_annotations :: "string btree"
  pod_uid :: "string option"

definition pod_state_of :: "'t pod option \<Rightarrow> 't pod_state" where
  "pod_state_of pod =
     (case pod of
        None \<Rightarrow> Absent
      | Some p \<Rightarrow> if pod_deleting p then Terminating_Pod
                 else (case pod_created p of Some t \<Rightarrow> Running t | None \<Rightarrow> Terminating_Pod))"

definition annotation_i64 :: "string btree \<Rightarrow> string \<Rightarrow> int option" where
  "annotation_i64 annotations k = Option.bind (map_of annotations k) (\<lambda>v. parse_i64 (trim v))"

definition roll_input_of ::
  "(json \<Rightarrow> string) \<Rightarrow> string btree \<Rightarrow> json \<Rightarrow> json \<Rightarrow> 't pod option \<Rightarrow> 't pending_change option \<Rightarrow> u64 \<Rightarrow> 't \<Rightarrow> 't roll_input" where
  "roll_input_of print annotations want_spec template_spec pod pending timeout now =
     (let want = shape_of print want_spec;
          template = shape_of print template_spec;
          running = (case Option.bind pod pod_spec of Some s \<Rightarrow> shape_of print s | None \<Rightarrow> [])
      in \<lparr>ri_diff = diff want running,
          ri_template_matches = (diff want template = []),
          ri_pod = pod_state_of pod,
          ri_activity = (case pod of None \<Rightarrow> Unknown_Activity | Some p \<Rightarrow> of_pod (pod_annotations p)),
          ri_pending = pending,
          ri_ack = annotation_i64 annotations ANNOTATION_DRAINED_GENERATION,
          ri_roll_now = annotation_i64 annotations ANNOTATION_ROLL_NOW_GENERATION,
          ri_now = now, ri_timeout = timeout\<rparr>)"

definition roll_report :: "'t jiff \<Rightarrow> activity \<Rightarrow> u64 \<Rightarrow> 't \<Rightarrow> 't pending_change \<Rightarrow> 't last_roll option \<Rightarrow> 't roll_pending" where
  "roll_report J activity timeout now c rolled =
     (let due = deadline J (pc_since c) timeout
      in \<lparr>rp_change = c, rp_message = roll_message J c activity due,
          rp_remaining = max 0 (as_second J due - as_second J now), rp_rolled = rolled\<rparr>)"

text \<open>
  \<open>get\<close> is the answer to reading the pod, \<open>delete\<close> the one to deleting it; the second result is the
  delete request that was made (its precondition on the uid), if any.
\<close>

definition roll_step ::
  "('t::linorder) jiff \<Rightarrow> (json \<Rightarrow> string) \<Rightarrow> string btree \<Rightarrow> json \<Rightarrow> string \<Rightarrow> json \<Rightarrow> kube_error + 't pod option
    \<Rightarrow> kube_error + unit \<Rightarrow> 't pending_change option \<Rightarrow> u64 \<Rightarrow> 't \<Rightarrow> (kube_error + 't outcome) \<times> string option option" where
  "roll_step J print annotations want_spec img template_spec get delete pending timeout now =
     (case get of
        Inl e \<Rightarrow> (Inl e, None)
      | Inr pod \<Rightarrow>
          (let i = roll_input_of print annotations want_spec template_spec pod pending timeout now;
               rep = roll_report J (ri_activity i) timeout now
           in case decide J i of
                Settled \<Rightarrow> (Inr Clear, None)
              | Hold \<Rightarrow> (Inr Keep, None)
              | Defer c \<Rightarrow> (Inr (Pending (rep c None)), None)
              | Roll c w \<Rightarrow>
                  (let request = Some (Option.bind pod pod_uid)
                   in case delete of
                        Inr _ \<Rightarrow> (Inr (Pending (rep c (Some (make_last_roll c now img)))), request)
                      | Inl (Kube_Api code m) \<Rightarrow>
                          if code = 404 \<or> code = 409 then (Inr (Pending (rep c None)), request)
                          else (Inl (Kube_Api code m), request)
                      | Inl e \<Rightarrow> (Inl e, request))))"

end
