(* ===== verification/Project.thy ===== *)
theory Project
  imports Roll
begin

text \<open>
  The \<^verbatim>\<open>Project\<close> resource: \<^verbatim>\<open>enzarb-crds/src/project.rs\<close> and \<^verbatim>\<open>repo.rs\<close>. One Project may use a
  repository; the oldest that lists it wins. A repo key is the lower-case string
  \<^verbatim>\<open>connector:owner/repo\<close>. Of the object metadata the model keeps what the operator reads.
\<close>

section \<open>Repo keys\<close>

datatype repo_key_error = BadUrl string | BadKey string

definition repo_char :: "char \<Rightarrow> bool" where
  "repo_char c \<longleftrightarrow> is_ascii_alphanumeric c \<or> c \<in> set ''-_.''"

definition repo_build :: "string \<Rightarrow> string \<Rightarrow> string option" where
  "repo_build connector path =
     (case split_on (CHR ''/'') path of
        [owner, repo] \<Rightarrow>
          if connector = [] \<or> owner = [] \<or> repo = [] then None
          else if \<not> (\<forall>s\<in>set [connector, owner, repo]. list_all repo_char s) then None
          else Some (to_ascii_lowercase (connector @ '':'' @ owner @ ''/'' @ repo))
      | _ \<Rightarrow> None)"

definition trim_end_char :: "char \<Rightarrow> string \<Rightarrow> string" where
  "trim_end_char c s = rev (dropWhile (\<lambda>x. x = c) (rev s))"

definition repo_path :: "string \<Rightarrow> string" where
  "repo_path path = (let p = trim_end_char (CHR ''/'') path in case strip_suffix p ''.git'' of Some q \<Rightarrow> q | None \<Rightarrow> p)"

definition key_or :: "repo_key_error \<Rightarrow> string option \<Rightarrow> repo_key_error + string" where
  "key_or e k = (case k of Some r \<Rightarrow> Inr r | None \<Rightarrow> Inl e)"

definition repo_from_url :: "string \<Rightarrow> repo_key_error + string" where
  "repo_from_url url =
     key_or (BadUrl url)
       (Option.bind (strip_prefix (trim url) ''https://'') (\<lambda>rest.
        Option.bind (split_once (CHR ''/'') rest) (\<lambda>(host, path).
          if to_ascii_lowercase host \<in> {''github.com'', ''www.github.com''}
          then repo_build ''github'' (repo_path path) else None)))"

definition repo_from_connector_url :: "string \<Rightarrow> string \<Rightarrow> repo_key_error + string" where
  "repo_from_connector_url connector url =
     key_or (BadUrl url)
       (Option.bind (strip_prefix (trim url) ''https://'') (\<lambda>rest.
        Option.bind (split_once (CHR ''/'') rest) (\<lambda>(_, path). repo_build connector (repo_path path))))"

definition repo_parse :: "string \<Rightarrow> repo_key_error + string" where
  "repo_parse key =
     key_or (BadKey key) (Option.bind (split_once (CHR '':'') (trim key)) (\<lambda>(connector, path). repo_build connector path))"

section \<open>The resource\<close>

definition COND_RESOURCES_READY :: string where "COND_RESOURCES_READY = ''ResourcesReady''"
definition COND_SANDBOX_READY :: string where "COND_SANDBOX_READY = ''SandboxReady''"
definition COND_READY :: string where "COND_READY = ''Ready''"
definition REASON_INVALID_SPEC :: string where "REASON_INVALID_SPEC = ''InvalidSpec''"
definition REASON_RETRYING :: string where "REASON_RETRYING = ''Retrying''"
definition REASON_WORKSPACE_RESIZE_FAILED :: string where "REASON_WORKSPACE_RESIZE_FAILED = ''WorkspaceResizeFailed''"
definition REASON_WORKSPACE_RESIZING :: string where "REASON_WORKSPACE_RESIZING = ''WorkspaceResizing''"
definition COND_SANDBOX_CHANGE_PENDING :: string where "COND_SANDBOX_CHANGE_PENDING = ''SandboxChangePending''"
definition MAX_PROJECT_NAME_LEN :: nat where "MAX_PROJECT_NAME_LEN = 50"

record repository =
  rep_url :: string
  rep_connector :: string
  rep_default_branch :: string

datatype run_mode = Worktree | Fresh

record triggers =
  tr_issues :: bool
  tr_change_requests :: bool
  tr_mentions :: bool

text \<open>\<^verbatim>\<open>resources\<close> is the JSON of the Kubernetes type \<^verbatim>\<open>ResourceRequirements\<close>.\<close>

record sandbox_spec =
  ss_image :: string
  ss_storage :: string
  ss_resources :: json
  ss_cpu :: "int option"
  ss_memory :: "string option"

record project_spec =
  ps_owner :: string
  ps_display_name :: string
  ps_repositories :: "repository list"
  ps_run_mode :: run_mode
  ps_triggers :: triggers
  ps_sandbox :: sandbox_spec
  ps_max_runs :: "int option"

record 't condition =
  co_type :: string
  co_status :: string
  co_reason :: string
  co_message :: string
  co_observed_generation :: "int option"
  co_last_transition :: 't

record sandbox_status =
  st_name :: string
  st_endpoint :: string
  st_secret_name :: string
  st_secret_key :: string

record 't project_status =
  pst_observed_generation :: "int option"
  pst_namespace :: "string option"
  pst_sandbox :: "sandbox_status option"
  pst_conditions :: "'t condition list"
  pst_pending_change :: "'t pending_change option"
  pst_last_roll :: "'t last_roll option"

record 't project =
  pj_name :: "string option"
  pj_uid :: "string option"
  pj_generation :: "int option"
  pj_created :: "'t option"
  pj_deleting :: bool
  pj_annotations :: "string btree"
  pj_spec :: project_spec
  pj_status :: "'t project_status option"

definition project_name :: "'t project \<Rightarrow> string" where
  "project_name p = (case pj_name p of Some n \<Rightarrow> n | None \<Rightarrow> [])"

definition sandbox_name_for :: "string \<Rightarrow> string" where
  "sandbox_name_for n = ''sb-'' @ n"

definition sandbox_name :: "'t project \<Rightarrow> string" where
  "sandbox_name p = sandbox_name_for (project_name p)"

definition auth_secret_name :: "'t project \<Rightarrow> string" where
  "auth_secret_name p = sandbox_name p @ ''-auth''"

definition workspace_pvc_name :: "'t project \<Rightarrow> string" where
  "workspace_pvc_name p = sandbox_name p @ ''-workspace''"

definition docker_pvc_name :: "'t project \<Rightarrow> string" where
  "docker_pvc_name p = sandbox_name p @ ''-docker''"

definition network_policy_name :: "'t project \<Rightarrow> string" where
  "network_policy_name p = sandbox_name p"

definition ordered_repo_keys :: "'t project \<Rightarrow> string list" where
  "ordered_repo_keys p =
     List.map_filter (\<lambda>r. case repo_from_connector_url (rep_connector r) (rep_url r) of Inr k \<Rightarrow> Some k | Inl _ \<Rightarrow> None)
       (ps_repositories (pj_spec p))"

definition repo_keys :: "'t project \<Rightarrow> string set" where
  "repo_keys p = set (ordered_repo_keys p)"

definition matches_repo :: "'t project \<Rightarrow> string \<Rightarrow> bool" where
  "matches_repo p key = (case repo_parse key of Inl _ \<Rightarrow> False | Inr want \<Rightarrow> want \<in> set (ordered_repo_keys p))"

section \<open>Precedence\<close>

datatype ordering = Less | Equal | Greater

definition cmp :: "'a::linorder \<Rightarrow> 'a \<Rightarrow> ordering" where
  "cmp a b = (if a < b then Less else if a = b then Equal else Greater)"

fun then_with :: "ordering \<Rightarrow> ordering \<Rightarrow> ordering" where
  "then_with Equal o' = o'"
| "then_with o1 _ = o1"

definition cmp_precedence :: "('t::linorder) project \<Rightarrow> 't project \<Rightarrow> ordering" where
  "cmp_precedence a b =
     then_with (case (pj_created a, pj_created b) of
         (Some x, Some y) \<Rightarrow> cmp x y
       | (Some _, None) \<Rightarrow> Less
       | (None, Some _) \<Rightarrow> Greater
       | (None, None) \<Rightarrow> Equal)
       (cmp (project_name a) (project_name b))"

text \<open>\<^verbatim>\<open>Iterator::min_by\<close>: the first of the least elements.\<close>

fun min_by :: "('a \<Rightarrow> 'a \<Rightarrow> ordering) \<Rightarrow> 'a list \<Rightarrow> 'a option" where
  "min_by f [] = None"
| "min_by f [x] = Some x"
| "min_by f (x # y # ys) = min_by f ((if f x y = Greater then y else x) # ys)"

definition shared_key :: "'t project \<Rightarrow> 't project \<Rightarrow> string option" where
  "shared_key p o' = find (\<lambda>k. k \<in> repo_keys o') (ordered_repo_keys p)"

definition contenders :: "('t::linorder) project \<Rightarrow> 't project list \<Rightarrow> (string \<times> 't project) list" where
  "contenders p all =
     List.map_filter (\<lambda>o'. map_option (\<lambda>k. (k, o')) (shared_key p o'))
       (filter (\<lambda>o'. project_name o' \<noteq> project_name p \<and> \<not> pj_deleting o' \<and> cmp_precedence o' p = Less) all)"

definition conflict_winner :: "('t::linorder) project \<Rightarrow> 't project list \<Rightarrow> (string \<times> 't project) option" where
  "conflict_winner p all = min_by (\<lambda>a b. cmp_precedence (snd a) (snd b)) (contenders p all)"

end
