(* ===== verification/Desired.thy ===== *)
theory Desired
  imports Project
begin

text \<open>
  What a Project needs in the cluster: \<^verbatim>\<open>operator/src/desired.rs\<close> and \<^verbatim>\<open>docker.rs\<close>. An object is the
  JSON it is built from; The fields of a
  controller reference come from the \<^verbatim>\<open>kube\<close> crate and are a parameter (\<open>ctl_ref\<close>). Errors that
  become log or condition texts are constructors. \<^verbatim>\<open>parse_cidrs\<close> is left out.
\<close>

section \<open>Docker in the sandbox\<close>

definition DATA_VOLUME :: string where "DATA_VOLUME = ''docker-data''"
definition DOCKER_HOST :: string where "DOCKER_HOST = ''unix:///var/run/docker.sock''"
definition DATA_DIR :: string where "DATA_DIR = ''/var/lib/docker''"
definition ENV_DOCKERD_ARGS :: string where "ENV_DOCKERD_ARGS = ''ENZARB_DOCKERD_ARGS''"
definition ENV_PRUNE :: string where "ENV_PRUNE = ''ENZARB_DOCKER_PRUNE''"
definition ENV_PRUNE_AGE :: string where "ENV_PRUNE_AGE = ''ENZARB_DOCKER_PRUNE_AGE''"
definition ENV_PRUNE_MIN_FREE :: string where "ENV_PRUNE_MIN_FREE = ''ENZARB_DOCKER_PRUNE_MIN_FREE''"

record runtime_profile =
  rt_security_context :: json
  rt_dockerd_args :: "string list"

record docker_config =
  dk_runtime_classes :: "string list"
  dk_sandbox_runtime_class :: string
  dk_storage :: string
  dk_profiles :: "runtime_profile btree"
  dk_prune_env :: "(string \<times> string) list"

definition GVISOR_CAPS :: "string list" where
  "GVISOR_CAPS =
    [''AUDIT_WRITE'', ''CHOWN'', ''DAC_OVERRIDE'', ''FOWNER'', ''FSETID'', ''KILL'', ''MKNOD'', ''NET_BIND_SERVICE'',
     ''NET_ADMIN'', ''NET_RAW'', ''SETFCAP'', ''SETGID'', ''SETPCAP'', ''SETUID'', ''SYS_ADMIN'', ''SYS_CHROOT'', ''SYS_PTRACE'']"

definition default_profiles :: "runtime_profile btree" where
  "default_profiles =
    bt_of [(''gvisor'',
      \<lparr>rt_security_context = jobj [(''privileged'', JBool False), (''runAsUser'', jint 0), (''runAsNonRoot'', JBool False),
         (''allowPrivilegeEscalation'', JBool True),
         (''capabilities'', jobj [(''drop'', jstrs [''ALL'']), (''add'', jstrs GVISOR_CAPS)])],
       rt_dockerd_args = [''--iptables=false'', ''--ip6tables=false'', ''--storage-driver=overlay2'',
         ''--feature=containerd-snapshotter=false'']\<rparr>),
     (''kata'',
      \<lparr>rt_security_context = jobj [(''privileged'', JBool True), (''runAsUser'', jint 0), (''runAsNonRoot'', JBool False)],
       rt_dockerd_args = [''--storage-driver=overlay2'']\<rparr>)]"

definition docker_new :: "string list \<Rightarrow> string \<Rightarrow> string \<Rightarrow> docker_config" where
  "docker_new classes rc storage =
     \<lparr>dk_runtime_classes = classes, dk_sandbox_runtime_class = rc, dk_storage = storage,
      dk_profiles = default_profiles, dk_prune_env = []\<rparr>"

datatype prune_error = Bad_Prune string | Bad_Age string | Bad_Min_Free string

definition is_set :: "string option \<Rightarrow> string option" where
  "is_set v = (case v of None \<Rightarrow> None | Some s \<Rightarrow> if trim s = [] then None else Some (trim s))"

definition is_ascii_alphabetic :: "char \<Rightarrow> bool" where
  "is_ascii_alphabetic c \<longleftrightarrow> is_ascii_lowercase c \<or> is_ascii_uppercase c"

definition prune_on_off :: "string \<Rightarrow> bool" where
  "prune_on_off v \<longleftrightarrow> to_ascii_lowercase v \<in> {''1'', ''true'', ''yes'', ''on'', ''0'', ''false'', ''no'', ''off''}"

definition prune_age_ok :: "string \<Rightarrow> bool" where
  "prune_age_ok v \<longleftrightarrow> v \<noteq> [] \<and> is_ascii_alphabetic (last v) \<and> is_ascii_digit (hd v)"

definition prune_min_free_ok :: "string \<Rightarrow> bool" where
  "prune_min_free_ok v =
     (case parse_unsigned 255 (trim (case strip_suffix v ''%'' of Some n \<Rightarrow> n | None \<Rightarrow> v)) of
        Some n \<Rightarrow> 1 \<le> n \<and> n \<le> 99 | None \<Rightarrow> False)"

text \<open>One flag: unset leaves the list as it is, a bad value is the error, a good one is appended.\<close>

definition prune_flag ::
  "string option \<Rightarrow> (string \<Rightarrow> bool) \<Rightarrow> (string \<Rightarrow> prune_error) \<Rightarrow> string \<Rightarrow> docker_config \<Rightarrow> (prune_error + unit) \<times> docker_config" where
  "prune_flag flag ok bad var cfg =
     (case is_set flag of
        None \<Rightarrow> (Inr (), cfg)
      | Some v \<Rightarrow> if ok v then (Inr (), cfg\<lparr>dk_prune_env := dk_prune_env cfg @ [(var, v)]\<rparr>) else (Inl (bad v), cfg))"

definition set_prune :: "string option \<Rightarrow> string option \<Rightarrow> string option \<Rightarrow> docker_config \<Rightarrow> (prune_error + unit) \<times> docker_config" where
  "set_prune enabled age min_free cfg0 =
     (case prune_flag enabled prune_on_off Bad_Prune ENV_PRUNE (cfg0\<lparr>dk_prune_env := []\<rparr>) of
        (Inl e, cfg) \<Rightarrow> (Inl e, cfg)
      | (Inr _, cfg) \<Rightarrow>
          (case prune_flag age prune_age_ok Bad_Age ENV_PRUNE_AGE cfg of
             (Inl e, cfg) \<Rightarrow> (Inl e, cfg)
           | (Inr _, cfg) \<Rightarrow> prune_flag min_free prune_min_free_ok Bad_Min_Free ENV_PRUNE_MIN_FREE cfg))"

text \<open>\<open>parsed\<close> is what \<^verbatim>\<open>serde_yaml\<close> read.\<close>

definition merge_profiles_yaml :: "string + runtime_profile btree \<Rightarrow> docker_config \<Rightarrow> (string + unit) \<times> docker_config" where
  "merge_profiles_yaml parsed cfg =
     (case parsed of
        Inl e \<Rightarrow> (Inl e, cfg)
      | Inr extra \<Rightarrow> (Inr (), cfg\<lparr>dk_profiles := bt_extend (dk_profiles cfg) extra\<rparr>))"

datatype docker_error =
    DE_NoClass
  | DE_NotAllowed string "string list"
  | DE_NoProfile "string list"
  | DE_Whitespace string string

definition has_whitespace :: "string \<Rightarrow> bool" where
  "has_whitespace s \<longleftrightarrow> list_ex (str_contains s) white_space"

fun bad_profile_arg :: "runtime_profile btree \<Rightarrow> (string \<times> string) option" where
  "bad_profile_arg [] = None"
| "bad_profile_arg ((rc, p) # ps) =
     (case find has_whitespace (rt_dockerd_args p) of Some a \<Rightarrow> Some (rc, a) | None \<Rightarrow> bad_profile_arg ps)"

definition docker_validate :: "docker_config \<Rightarrow> docker_error + unit" where
  "docker_validate cfg =
     (let rc = dk_sandbox_runtime_class cfg;
          missing = filter (\<lambda>c. map_of (dk_profiles cfg) c = None) (dk_runtime_classes cfg)
      in if rc = [] then Inl DE_NoClass
         else if rc \<notin> set (dk_runtime_classes cfg) then Inl (DE_NotAllowed rc (dk_runtime_classes cfg))
         else if missing \<noteq> [] then Inl (DE_NoProfile missing)
         else (case bad_profile_arg (dk_profiles cfg) of Some (c, a) \<Rightarrow> Inl (DE_Whitespace c a) | None \<Rightarrow> Inr ()))"

definition docker_profile :: "docker_config \<Rightarrow> runtime_profile option" where
  "docker_profile cfg = map_of (dk_profiles cfg) (dk_sandbox_runtime_class cfg)"

record docker_parts =
  dp_security_context :: json
  dp_env :: "json list"
  dp_volume_mount :: json
  dp_volume :: json

definition env_json :: "string \<Rightarrow> string \<Rightarrow> json" where
  "env_json k v = jobj [(''name'', JStr k), (''value'', JStr v)]"

definition docker_parts_of :: "runtime_profile \<Rightarrow> string \<Rightarrow> (string \<times> string) list \<Rightarrow> docker_parts" where
  "docker_parts_of profile claim_name prune_env =
     \<lparr>dp_security_context = rt_security_context profile,
      dp_env = [env_json ''DOCKER_HOST'' DOCKER_HOST, env_json ENV_DOCKERD_ARGS (join '' '' (rt_dockerd_args profile))]
        @ map (\<lambda>(k, v). env_json k v) prune_env,
      dp_volume_mount = jobj [(''name'', JStr DATA_VOLUME), (''mountPath'', JStr DATA_DIR)],
      dp_volume = jobj [(''name'', JStr DATA_VOLUME), (''persistentVolumeClaim'', jobj [(''claimName'', JStr claim_name)])]\<rparr>"

section \<open>Settings and ownership\<close>

definition FIELD_MANAGER :: string where "FIELD_MANAGER = ''enzarb-operator''"
definition LABEL_MANAGED_BY :: string where "LABEL_MANAGED_BY = ''app.kubernetes.io/managed-by''"
definition LABEL_PROJECT :: string where "LABEL_PROJECT = ''enzarb.dev/project''"
definition AUTH_SECRET_KEY :: string where "AUTH_SECRET_KEY = ''token''"
definition SANDBOX_PORT :: int where "SANDBOX_PORT = 7070"
definition AUTH_MOUNT_DIR :: string where "AUTH_MOUNT_DIR = ''/var/run/enzarb/auth''"
definition SANDBOX_UID :: int where "SANDBOX_UID = 1000"
definition WORKSPACE_MOUNT :: string where "WORKSPACE_MOUNT = ''/workspace''"

record netpol_config =
  np_namespace_label :: "string \<times> string"
  np_pod_names :: "string list"
  np_callback_port :: u16
  np_exclude_cidrs :: "string list"
  np_dns_cidrs :: "string list"

record defaults =
  df_sandbox_image :: string
  df_storage :: string
  df_namespace :: string
  df_service_account :: string
  df_netpol :: netpol_config
  df_docker :: docker_config

definition DEFAULT_CALLBACK_PORT :: u16 where "DEFAULT_CALLBACK_PORT = 8081"

definition default_pod_names :: "string list" where "default_pod_names = [''enzarb-sandbox-proxy'']"

definition for_release_namespace :: "string \<Rightarrow> netpol_config" where
  "for_release_namespace ns =
     \<lparr>np_namespace_label = (''kubernetes.io/metadata.name'', ns), np_pod_names = default_pod_names,
      np_callback_port = DEFAULT_CALLBACK_PORT, np_exclude_cidrs = [], np_dns_cidrs = []\<rparr>"

datatype ownership = Mine | Terminating | NotOwned

record owner_reference =
  or_api_version :: string
  or_kind :: string
  or_uid :: string
  or_controller :: "bool option"

record object_meta =
  om_deleting :: bool
  om_owners :: "owner_reference list"

definition ownership_of :: "object_meta \<Rightarrow> 't project \<Rightarrow> ownership" where
  "ownership_of meta p =
     (if om_deleting meta then Terminating
      else case find (\<lambda>r. or_controller r = Some True) (om_owners meta) of
             None \<Rightarrow> NotOwned
           | Some r \<Rightarrow>
               if or_kind r \<noteq> ''Project'' \<or> or_api_version r \<noteq> ''enzarb.dev/v1alpha1'' then NotOwned
               else if pj_uid p = Some (or_uid r) then Mine
               else Terminating)"

section \<open>Validation\<close>

definition MIN_CPU :: int where "MIN_CPU = 1"
definition MAX_CPU :: int where "MAX_CPU = 64"
definition MIN_MEMORY_MI :: int where "MIN_MEMORY_MI = 512"
definition MAX_MEMORY_MI :: int where "MAX_MEMORY_MI = 256 * 1024"
definition MIN_CPU_REQUEST_MILLI :: int where "MIN_CPU_REQUEST_MILLI = 100"
definition MIN_MEMORY_REQUEST_MI :: int where "MIN_MEMORY_REQUEST_MI = 256"

definition project_image :: "'t project \<Rightarrow> defaults \<Rightarrow> string" where
  "project_image p d =
     (if ss_image (ps_sandbox (pj_spec p)) = [] then df_sandbox_image d else ss_image (ps_sandbox (pj_spec p)))"

definition project_storage :: "'t project \<Rightarrow> defaults \<Rightarrow> string" where
  "project_storage p d =
     (if ss_storage (ps_sandbox (pj_spec p)) = [] then df_storage d else ss_storage (ps_sandbox (pj_spec p)))"

definition parse_memory_mi :: "string \<Rightarrow> int option" where
  "parse_memory_mi s =
     (case (case strip_suffix s ''Gi'' of
              Some d \<Rightarrow> Some (d, 1024)
            | None \<Rightarrow> map_option (\<lambda>d. (d, 1)) (strip_suffix s ''Mi'')) of
        None \<Rightarrow> None
      | Some (digits, mult) \<Rightarrow>
          if digits = [] \<or> starts_with digits ''0'' \<or> length digits > 12 \<or> \<not> list_all is_ascii_digit digits then None
          else Option.bind (parse_unsigned U64_MAX digits) (\<lambda>n.
                 if n * mult > U64_MAX then None
                 else if MIN_MEMORY_MI \<le> n * mult \<and> n * mult \<le> MAX_MEMORY_MI then Some (n * mult) else None))"

datatype invalid_project =
    NoName
  | BadName string string
  | NoOwner
  | NoImage
  | BadCpu int
  | BadMemory string

definition dns_char :: "char \<Rightarrow> bool" where
  "dns_char c \<longleftrightarrow> is_ascii_lowercase c \<or> is_ascii_digit c \<or> c = CHR ''-''"

definition dns_label :: "string \<Rightarrow> string + unit" where
  "dns_label s =
     (if s = [] \<or> length s > MAX_PROJECT_NAME_LEN then Inl ''must be 1-50 characters''
      else if \<not> list_all dns_char s
      then Inl (''only lowercase letters, digits and '' @ [CHR 0x27] @ ''-'' @ [CHR 0x27] @ '' are allowed'')
      else if starts_with s ''-'' \<or> ends_with s ''-'' then Inl ''must start and end with an alphanumeric character''
      else Inr ())"

definition validate_memory :: "sandbox_spec \<Rightarrow> invalid_project + unit" where
  "validate_memory sb =
     (case ss_memory sb of
        Some m \<Rightarrow> if parse_memory_mi m = None then Inl (BadMemory m) else Inr ()
      | None \<Rightarrow> Inr ())"

definition validate_project :: "'t project \<Rightarrow> defaults \<Rightarrow> invalid_project + unit" where
  "validate_project p d =
     (let name = project_name p; sb = ps_sandbox (pj_spec p)
      in if name = [] then Inl NoName
         else if ps_owner (pj_spec p) = [] then Inl NoOwner
         else case dns_label name of
                Inl e \<Rightarrow> Inl (BadName name e)
              | Inr _ \<Rightarrow>
                  if project_image p d = [] then Inl NoImage
                  else (case ss_cpu sb of
                          Some n \<Rightarrow> if MIN_CPU \<le> n \<and> n \<le> MAX_CPU then validate_memory sb else Inl (BadCpu n)
                        | None \<Rightarrow> validate_memory sb))"

section \<open>Resources\<close>

definition render_mi :: "int \<Rightarrow> string" where
  "render_mi mi = (if mi mod 1024 = 0 then show_int (mi div 1024) @ ''Gi'' else show_int mi @ ''Mi'')"

definition render_cpu_milli :: "int \<Rightarrow> string" where
  "render_cpu_milli m = (if m mod 1000 = 0 then show_int (m div 1000) else show_int m @ ''m'')"

definition object_entries :: "string \<Rightarrow> json \<Rightarrow> (string \<times> json) list" where
  "object_entries k v = (case Option.bind (jget k v) as_object of Some m \<Rightarrow> m | None \<Rightarrow> [])"

definition json_milli :: "json \<Rightarrow> int option" where
  "json_milli v = Option.bind (as_str v) milli"

definition clamp_request :: "json btree \<Rightarrow> string \<Rightarrow> json btree \<Rightarrow> json btree" where
  "clamp_request limits key requests =
     (case (map_of limits key, map_of requests key) of
        (Some l, Some r) \<Rightarrow>
          (case (json_milli l, json_milli r) of
             (Some lm, Some rm) \<Rightarrow> if rm > lm then bt_insert key l requests else requests
           | _ \<Rightarrow> requests)
      | _ \<Rightarrow> requests)"

definition derived_limits :: "int option \<Rightarrow> int option \<Rightarrow> json btree" where
  "derived_limits cpu mem =
     bt_of ((case cpu of Some n \<Rightarrow> [(''cpu'', JStr (show_int n))] | None \<Rightarrow> [])
       @ (case mem of Some mi \<Rightarrow> [(''memory'', JStr (render_mi mi))] | None \<Rightarrow> []))"

definition derived_requests :: "int option \<Rightarrow> int option \<Rightarrow> json btree" where
  "derived_requests cpu mem =
     bt_of ((case cpu of Some n \<Rightarrow> [(''cpu'', JStr (render_cpu_milli (max (n * 250) MIN_CPU_REQUEST_MILLI)))] | None \<Rightarrow> [])
       @ (case mem of Some mi \<Rightarrow> [(''memory'', JStr (render_mi (max (mi div 4) MIN_MEMORY_REQUEST_MI)))] | None \<Rightarrow> []))"

definition valid_cpu :: "sandbox_spec \<Rightarrow> int option" where
  "valid_cpu sb = (case ss_cpu sb of Some n \<Rightarrow> if MIN_CPU \<le> n \<and> n \<le> MAX_CPU then Some n else None | None \<Rightarrow> None)"

definition sandbox_resources :: "sandbox_spec \<Rightarrow> json" where
  "sandbox_resources sb =
     (let explicit = ss_resources sb;
          cpu = valid_cpu sb;
          mem = Option.bind (ss_memory sb) parse_memory_mi
      in if cpu = None \<and> mem = None then explicit
         else
           (let limits = bt_extend (derived_limits cpu mem) (object_entries ''limits'' explicit);
                requests = bt_extend (derived_requests cpu mem) (object_entries ''requests'' explicit);
                requests = clamp_request limits ''memory'' (clamp_request limits ''cpu'' requests)
            in jset ''requests'' (JObj requests) (jset ''limits'' (JObj limits) explicit)))"

section \<open>The objects\<close>

definition endpoint :: "'t project \<Rightarrow> string \<Rightarrow> string" where
  "endpoint p ns = ''ws://'' @ sandbox_name p @ ''.'' @ ns @ ''.svc:'' @ show_int SANDBOX_PORT @ ''/v1/mux''"

definition base_labels :: "'t project \<Rightarrow> string btree" where
  "base_labels p = bt_of [(LABEL_MANAGED_BY, FIELD_MANAGER), (LABEL_PROJECT, project_name p)]"

definition labels_json :: "'t project \<Rightarrow> json" where
  "labels_json p = JObj (map (map_prod id JStr) (base_labels p))"

definition owner_refs :: "('t project \<Rightarrow> (string \<times> json) list option) \<Rightarrow> 't project \<Rightarrow> json" where
  "owner_refs ctl_ref p =
     JArr (case ctl_ref p of Some r \<Rightarrow> [jobj (r @ [(''blockOwnerDeletion'', JBool True)])] | None \<Rightarrow> [])"

definition metadata_json :: "('t project \<Rightarrow> (string \<times> json) list option) \<Rightarrow> 't project \<Rightarrow> defaults \<Rightarrow> string \<Rightarrow> json" where
  "metadata_json ctl_ref p d name =
     jobj [(''name'', JStr name), (''namespace'', JStr (df_namespace d)), (''labels'', labels_json p),
           (''ownerReferences'', owner_refs ctl_ref p)]"

text \<open>The data of a Secret is its bytes; the token is kept as a string.\<close>

definition auth_secret :: "('t project \<Rightarrow> (string \<times> json) list option) \<Rightarrow> 't project \<Rightarrow> defaults \<Rightarrow> string \<Rightarrow> json" where
  "auth_secret ctl_ref p d token =
     jobj [(''metadata'', metadata_json ctl_ref p d (auth_secret_name p)), (''type'', JStr ''Opaque''),
           (''data'', jobj [(AUTH_SECRET_KEY, JStr token)])]"

definition pvc_named ::
  "('t project \<Rightarrow> (string \<times> json) list option) \<Rightarrow> 't project \<Rightarrow> defaults \<Rightarrow> string \<Rightarrow> string \<Rightarrow> json" where
  "pvc_named ctl_ref p d name size' =
     jobj [(''apiVersion'', JStr ''v1''), (''kind'', JStr ''PersistentVolumeClaim''),
           (''metadata'', metadata_json ctl_ref p d name),
           (''spec'', jobj [(''accessModes'', jstrs [''ReadWriteOnce'']),
              (''resources'', jobj [(''requests'', jobj [(''storage'', JStr size')])])])]"

definition pvc :: "('t project \<Rightarrow> (string \<times> json) list option) \<Rightarrow> 't project \<Rightarrow> defaults \<Rightarrow> json" where
  "pvc ctl_ref p d = pvc_named ctl_ref p d (workspace_pvc_name p) (project_storage p d)"

definition docker_pvc :: "('t project \<Rightarrow> (string \<times> json) list option) \<Rightarrow> 't project \<Rightarrow> defaults \<Rightarrow> json" where
  "docker_pvc ctl_ref p d = pvc_named ctl_ref p d (docker_pvc_name p) (dk_storage (df_docker d))"

definition ip_block :: "string \<Rightarrow> string list \<Rightarrow> json" where
  "ip_block all except =
     (if except = [] then jobj [(''ipBlock'', jobj [(''cidr'', JStr all)])]
      else jobj [(''ipBlock'', jobj [(''cidr'', JStr all), (''except'', jstrs except)])])"

definition match_labels :: "string \<Rightarrow> string \<Rightarrow> json" where
  "match_labels k v = jobj [(''matchLabels'', jobj [(k, JStr v)])]"

definition port_json :: "string \<Rightarrow> int \<Rightarrow> json" where
  "port_json protocol port = jobj [(''protocol'', JStr protocol), (''port'', jint port)]"

definition network_policy :: "('t project \<Rightarrow> (string \<times> json) list option) \<Rightarrow> 't project \<Rightarrow> defaults \<Rightarrow> json" where
  "network_policy ctl_ref p d =
     (let c = df_netpol d;
          v6 = filter (\<lambda>x. CHR '':'' \<in> set x) (np_exclude_cidrs c);
          v4 = filter (\<lambda>x. CHR '':'' \<notin> set x) (np_exclude_cidrs c);
          dns_to = jobj [(''namespaceSelector'', match_labels ''kubernetes.io/metadata.name'' ''kube-system''),
                         (''podSelector'', match_labels ''k8s-app'' ''kube-dns'')]
                   # map (\<lambda>cidr. jobj [(''ipBlock'', jobj [(''cidr'', JStr cidr)])]) (np_dns_cidrs c)
      in jobj [(''apiVersion'', JStr ''networking.k8s.io/v1''), (''kind'', JStr ''NetworkPolicy''),
           (''metadata'', metadata_json ctl_ref p d (network_policy_name p)),
           (''spec'', jobj [
              (''podSelector'', match_labels LABEL_PROJECT (project_name p)),
              (''policyTypes'', jstrs [''Ingress'', ''Egress'']),
              (''ingress'', JArr [jobj [
                 (''from'', JArr [jobj [
                    (''namespaceSelector'', match_labels (fst (np_namespace_label c)) (snd (np_namespace_label c))),
                    (''podSelector'', jobj [(''matchExpressions'', JArr [jobj [
                       (''key'', JStr ''app.kubernetes.io/name''), (''operator'', JStr ''In''), (''values'', jstrs (np_pod_names c))]])])]]),
                 (''ports'', JArr [port_json ''TCP'' SANDBOX_PORT])]]),
              (''egress'', JArr [
                 jobj [(''to'', JArr dns_to), (''ports'', JArr [port_json ''UDP'' 53, port_json ''TCP'' 53])],
                 jobj [(''to'', JArr [ip_block ''0.0.0.0/0'' v4, ip_block ''::/0'' v6]),
                       (''ports'', JArr [port_json ''TCP'' 443])]])])])"

definition ENV_MAX_RUNS :: string where "ENV_MAX_RUNS = ''ENZARB_MAX_RUNS''"

text \<open>The \<^verbatim>\<open>sandbox\<close> container and the pod around it, with the parts Docker adds.\<close>

definition sandbox_container :: "'t project \<Rightarrow> defaults \<Rightarrow> docker_parts \<Rightarrow> json" where
  "sandbox_container p d dk =
     jobj [(''name'', JStr ''sandbox''), (''image'', JStr (project_image p d)),
       (''ports'', JArr [jobj [(''name'', JStr ''mux''), (''containerPort'', jint SANDBOX_PORT), (''protocol'', JStr ''TCP'')]]),
       (''env'', JArr ([env_json ''ENZARB_PROJECT'' (project_name p)] @ dp_env dk
          @ (case ps_max_runs (pj_spec p) of Some n \<Rightarrow> [env_json ENV_MAX_RUNS (show_int n)] | None \<Rightarrow> []))),
       (''resources'', sandbox_resources (ps_sandbox (pj_spec p))),
       (''readinessProbe'', jobj [(''httpGet'', jobj [(''path'', JStr ''/healthz''), (''port'', jint SANDBOX_PORT)])]),
       (''volumeMounts'', JArr [
          jobj [(''name'', JStr ''workspace''), (''mountPath'', JStr WORKSPACE_MOUNT)],
          jobj [(''name'', JStr ''auth''), (''mountPath'', JStr AUTH_MOUNT_DIR), (''readOnly'', JBool True)],
          dp_volume_mount dk]),
       (''securityContext'', dp_security_context dk)]"

definition pod_spec_json :: "'t project \<Rightarrow> defaults \<Rightarrow> docker_parts \<Rightarrow> json" where
  "pod_spec_json p d dk =
     jobj [(''serviceAccountName'', JStr (df_service_account d)), (''automountServiceAccountToken'', JBool False),
       (''enableServiceLinks'', JBool False),
       (''securityContext'', jobj [(''runAsUser'', jint SANDBOX_UID), (''runAsGroup'', jint SANDBOX_UID),
          (''fsGroup'', jint SANDBOX_UID), (''runAsNonRoot'', JBool True), (''fsGroupChangePolicy'', JStr ''OnRootMismatch'')]),
       (''containers'', JArr [sandbox_container p d dk]),
       (''volumes'', JArr [
          jobj [(''name'', JStr ''workspace''), (''persistentVolumeClaim'', jobj [(''claimName'', JStr (workspace_pvc_name p))])],
          jobj [(''name'', JStr ''auth''), (''secret'', jobj [(''secretName'', JStr (auth_secret_name p)), (''defaultMode'', jint 256),
             (''items'', JArr [jobj [(''key'', JStr AUTH_SECRET_KEY), (''path'', JStr AUTH_SECRET_KEY)]])])],
          dp_volume dk]),
       (''runtimeClassName'', JStr (dk_sandbox_runtime_class (df_docker d)))]"

text \<open>No profile for the runtime class is the panic of \<^verbatim>\<open>expect\<close>, which \<^verbatim>\<open>DockerConfig::validate\<close> excludes.\<close>

definition sandbox_pod_spec :: "'t project \<Rightarrow> defaults \<Rightarrow> json option" where
  "sandbox_pod_spec p d =
     map_option (\<lambda>profile. pod_spec_json p d (docker_parts_of profile (docker_pvc_name p) (dk_prune_env (df_docker d))))
       (docker_profile (df_docker d))"

definition sandbox :: "('t project \<Rightarrow> (string \<times> json) list option) \<Rightarrow> 't project \<Rightarrow> defaults \<Rightarrow> json option" where
  "sandbox ctl_ref p d =
     map_option (\<lambda>pod_spec.
       jobj [(''apiVersion'', JStr ''agents.x-k8s.io/v1beta1''), (''kind'', JStr ''Sandbox''),
         (''metadata'', metadata_json ctl_ref p d (sandbox_name p)),
         (''spec'', jobj [(''service'', JBool True),
            (''podTemplate'', jobj [(''metadata'', jobj [(''labels'', labels_json p)]), (''spec'', pod_spec)])])])
       (sandbox_pod_spec p d)"

definition sandbox_status_of :: "'t project \<Rightarrow> defaults \<Rightarrow> sandbox_status" where
  "sandbox_status_of p d =
     \<lparr>st_name = sandbox_name p, st_endpoint = endpoint p (df_namespace d),
      st_secret_name = auth_secret_name p, st_secret_key = AUTH_SECRET_KEY\<rparr>"

end
