(* ===== verification/Conditions.thy ===== *)
theory Conditions
  imports Project
begin

text \<open>
  The status conditions of a Project: \<^verbatim>\<open>operator/src/conditions.rs\<close>. Observations go in, the
  ordered conditions come out. Of the Sandbox object the model keeps what \<^verbatim>\<open>sandbox_check\<close> reads.
\<close>

datatype cond_check =
    Check_Ok
  | Check_Pending string string
  | Check_Error string
  | Check_Failure string string
  | Check_Invalid string
  | Check_Skipped

record observed =
  ob_resources :: cond_check
  ob_sandbox :: cond_check

definition all_skipped :: observed where
  "all_skipped = \<lparr>ob_resources = Check_Skipped, ob_sandbox = Check_Skipped\<rparr>"

record 't sandbox_obj =
  sb_generation :: "int option"
  sb_conditions :: "'t condition list option"
  sb_template :: json

definition sandbox_check :: "'t sandbox_obj option \<Rightarrow> cond_check" where
  "sandbox_check sb =
     (case sb of
        None \<Rightarrow> Check_Pending ''SandboxMissing'' ''Sandbox object does not exist yet''
      | Some s \<Rightarrow>
          (case Option.bind (sb_conditions s) (find (\<lambda>c. co_type c = ''Ready'')) of
             None \<Rightarrow> Check_Pending ''SandboxPending'' ''Sandbox has not reported status yet''
           | Some ready \<Rightarrow>
               if (case (co_observed_generation ready, sb_generation s) of
                     (Some seen, Some want) \<Rightarrow> seen < want | _ \<Rightarrow> False)
               then Check_Pending ''SandboxOutdated'' ''Sandbox status is for an older generation''
               else if co_status ready = ''True'' then Check_Ok
               else Check_Pending (if co_reason ready = [] then ''SandboxNotReady'' else co_reason ready) (co_message ready)))"

fun check_fields :: "cond_check \<Rightarrow> string \<times> string \<times> string" where
  "check_fields Check_Ok = (''True'', ''Ready'', [])"
| "check_fields (Check_Pending r m) = (''False'', r, m)"
| "check_fields (Check_Error m) = (''Unknown'', REASON_RETRYING, m)"
| "check_fields (Check_Failure r m) = (''False'', r, m)"
| "check_fields (Check_Invalid m) = (''False'', REASON_INVALID_SPEC, m)"
| "check_fields Check_Skipped = (''Unknown'', ''Blocked'', ''waiting for an earlier step'')"

definition make_condition :: "string \<Rightarrow> cond_check \<Rightarrow> int \<Rightarrow> 't condition list \<Rightarrow> 't \<Rightarrow> 't condition" where
  "make_condition ty c generation existing now =
     (let (status, reason, message) = check_fields c
      in \<lparr>co_type = ty, co_status = status, co_reason = reason, co_message = message,
          co_observed_generation = Some generation,
          co_last_transition =
            (case find (\<lambda>o'. co_type o' = ty \<and> co_status o' = status) existing of
               Some o' \<Rightarrow> co_last_transition o' | None \<Rightarrow> now)\<rparr>)"

definition roll_condition :: "'t roll_pending \<Rightarrow> int \<Rightarrow> 't condition" where
  "roll_condition pending generation =
     \<lparr>co_type = COND_SANDBOX_CHANGE_PENDING, co_status = ''True'', co_reason = COND_SANDBOX_CHANGE_PENDING,
      co_message = rp_message pending, co_observed_generation = Some generation,
      co_last_transition = pc_since (rp_change pending)\<rparr>"

definition compute :: "int \<Rightarrow> observed \<Rightarrow> 't condition list \<Rightarrow> 't \<Rightarrow> 't condition list" where
  "compute generation obs existing now =
     (let out = [make_condition COND_RESOURCES_READY (ob_resources obs) generation existing now,
                 make_condition COND_SANDBOX_READY (ob_sandbox obs) generation existing now];
          not_ready = map co_type (filter (\<lambda>c. co_status c \<noteq> ''True'') out);
          ready = (if not_ready = [] then Check_Ok
                   else Check_Pending ''NotReady'' (''waiting for '' @ join '', '' not_ready))
      in out @ [make_condition COND_READY ready generation existing now])"

section \<open>Properties\<close>

lemma condition_type [simp]: "co_type (make_condition ty c g ex now) = ty"
  and condition_status [simp]: "co_status (make_condition ty c g ex now) = fst (check_fields c)"
  by (simp_all add: make_condition_def split: prod.split)

lemma True_iff_Ok: "fst (check_fields c) = ''True'' \<longleftrightarrow> c = Check_Ok"
  by (cases c) simp_all

lemma condition_again:
  "find (\<lambda>o'. co_type o' = ty \<and> co_status o' = fst (check_fields c)) ex' = Some (make_condition ty c g ex now)
   \<Longrightarrow> make_condition ty c g ex' now' = make_condition ty c g ex now"
  by (simp add: make_condition_def split: prod.splits)

lemma cond_distinct:
  "COND_RESOURCES_READY \<noteq> COND_SANDBOX_READY" "COND_RESOURCES_READY \<noteq> COND_READY" "COND_SANDBOX_READY \<noteq> COND_READY"
  by (simp_all add: COND_RESOURCES_READY_def COND_SANDBOX_READY_def COND_READY_def)

text \<open>
  An unchanged observation leaves the conditions unchanged, whatever the time and whatever
  conditions follow them, so the status write can be skipped; and \<^verbatim>\<open>Ready\<close> is true
  exactly when both steps are.
\<close>

theorem conditions_stable:
  "compute g obs (compute g obs existing now @ rest) now' = compute g obs existing now
   \<and> (co_status (compute g obs existing now ! 2) = ''True'' \<longleftrightarrow> ob_resources obs = Check_Ok \<and> ob_sandbox obs = Check_Ok)"
proof -
  define A where "A = make_condition COND_RESOURCES_READY (ob_resources obs) g existing now"
  define B where "B = make_condition COND_SANDBOX_READY (ob_sandbox obs) g existing now"
  define ready where "ready = (let not_ready = map co_type (filter (\<lambda>c. co_status c \<noteq> ''True'') [A, B])
    in if not_ready = [] then Check_Ok else Check_Pending ''NotReady'' (''waiting for '' @ join '', '' not_ready))"
  define R where "R = make_condition COND_READY ready g existing now"
  have c: "compute g obs existing now = [A, B, R]" by (simp only: compute_def Let_def A_def B_def R_def ready_def append.simps)
  have "make_condition COND_RESOURCES_READY (ob_resources obs) g ([A, B, R] @ rest) now' = A"
    unfolding A_def by (rule condition_again) simp
  moreover have "make_condition COND_SANDBOX_READY (ob_sandbox obs) g ([A, B, R] @ rest) now' = B"
    unfolding B_def by (rule condition_again) (simp add: A_def cond_distinct)
  moreover have "make_condition COND_READY ready g ([A, B, R] @ rest) now' = R"
    unfolding R_def by (rule condition_again) (simp add: A_def B_def cond_distinct)
  ultimately have "compute g obs ([A, B, R] @ rest) now' = [A, B, R]"
    by (simp only: compute_def Let_def ready_def append.simps)
  moreover have "co_status R = ''True'' \<longleftrightarrow> ob_resources obs = Check_Ok \<and> ob_sandbox obs = Check_Ok"
    by (auto simp: R_def ready_def A_def B_def Let_def True_iff_Ok)
  ultimately show ?thesis by (simp add: c)
qed

end
