(* ===== verification/Reconcile.thy ===== *)
theory Reconcile
  imports Desired Conditions
begin

text \<open>
  One pass of the operator over a Project: \<^verbatim>\<open>operator/src/reconcile.rs\<close>. The API server is the
  record \<open>cluster\<close> of its answers to the calls of the pass; the calls that change something are
  logged in order. \<open>cl_show\<close> is the display text of an API error, \<open>cl_lower\<close> Unicode lower case,
  \<open>cl_debug\<close> the quoted form of a string,
  \<open>cl_print\<close> the text of a JSON value and \<open>cl_clock\<close> the operations on time stamps. A missing
  runtime profile is the panic of \<^verbatim>\<open>expect\<close>.
\<close>

section \<open>The API\<close>

record pvc_condition =
  pv_type :: string
  pv_status :: string

record 't cluster =
  cl_policy :: "kube_error + object_meta option"
  cl_policy_patch :: "kube_error + unit"
  cl_secret :: "kube_error + object_meta option"
  cl_secret_create :: "kube_error + unit"
  cl_pvc :: "string \<Rightarrow> kube_error + object_meta option"
  cl_pvc_patch :: "string \<Rightarrow> kube_error + pvc_condition list option"
  cl_sandbox :: "kube_error + object_meta option"
  cl_sandbox_patch :: "kube_error + 't sandbox_obj"
  cl_pod :: "kube_error + 't pod option"
  cl_pod_delete :: "kube_error + unit"
  cl_status_patch :: "kube_error + unit"
  cl_roll_now :: 't
  cl_status_now :: 't
  cl_token :: string
  cl_clock :: "'t jiff"
  cl_print :: "json \<Rightarrow> string"
  cl_show :: "kube_error \<Rightarrow> string"
  cl_lower :: "string \<Rightarrow> string"
  cl_debug :: "string \<Rightarrow> string"
  cl_ctl_ref :: "'t project \<Rightarrow> (string \<times> json) list option"

datatype api_request =
    Rq_Policy string json
  | Rq_Secret string json
  | Rq_Pvc string json
  | Rq_Sandbox string json
  | Rq_DeletePod "string option"

datatype existing = E_Absent | E_Mine | E_Blocked ownership

definition existing_of :: "kube_error + object_meta option \<Rightarrow> 't project \<Rightarrow> kube_error + existing" where
  "existing_of answer p =
     (case answer of
        Inl e \<Rightarrow> Inl e
      | Inr None \<Rightarrow> Inr E_Absent
      | Inr (Some meta) \<Rightarrow>
          (case ownership_of meta p of Mine \<Rightarrow> Inr E_Mine | other \<Rightarrow> Inr (E_Blocked other)))"

definition REASON_NOT_OWNED :: string where "REASON_NOT_OWNED = ''NotOwnedError''"

definition blocked :: "string \<Rightarrow> string \<Rightarrow> ownership \<Rightarrow> cond_check" where
  "blocked kind name why =
     (case why of
        NotOwned \<Rightarrow>
          Check_Failure REASON_NOT_OWNED (kind @ '' '' @ name @ '' already exists and is not owned by this Project; ''
            @ ''an administrator must delete it'')
      | _ \<Rightarrow>
          Check_Pending ''Terminating'' (kind @ '' '' @ name @ '' belongs to a previous Project of this name or is being deleted; ''
            @ ''waiting for garbage collection''))"

definition is_not_owned :: "cond_check \<Rightarrow> bool" where
  "is_not_owned c = (case c of Check_Failure r _ \<Rightarrow> r = REASON_NOT_OWNED | _ \<Rightarrow> False)"

definition is_blocked :: "cond_check \<Rightarrow> bool" where
  "is_blocked c \<longleftrightarrow> (case c of Check_Pending r _ \<Rightarrow> r = ''Terminating'' | _ \<Rightarrow> False) \<or> is_not_owned c"

definition pvc_resizing :: "pvc_condition list option \<Rightarrow> bool" where
  "pvc_resizing cs =
     (case cs of
        None \<Rightarrow> False
      | Some l \<Rightarrow> list_ex (\<lambda>c. pv_type c \<in> {''Resizing'', ''FileSystemResizePending''} \<and> pv_status c = ''True'') l)"

definition classify_pvc_error :: "(string \<Rightarrow> string) \<Rightarrow> string \<Rightarrow> string \<Rightarrow> kube_error \<Rightarrow> cond_check option" where
  "classify_pvc_error lower what name e =
     (case e of
        Kube_Other _ \<Rightarrow> None
      | Kube_Api code message \<Rightarrow>
          if code \<noteq> 422 \<and> code \<noteq> 403 then None
          else if \<not> list_ex (str_contains (lower message)) [''storage'', ''shrink'', ''less than previous'', ''expansion''] then None
          else Some (Check_Failure REASON_WORKSPACE_RESIZE_FAILED
                 (what @ '' '' @ name @ '': '' @ message @ ''; storage can only grow and the StorageClass must set allowVolumeExpansion'')))"

section \<open>Driving the objects\<close>

record 't pass =
  dv_obs :: observed
  dv_status :: "'t project_status"
  dv_roll :: "'t outcome"
  dv_log :: "api_request list"

text \<open>How a step ends: go on, return, an API error, or a panic.\<close>

datatype step_end = Continue | Stop | Fail kube_error | Panic

definition and_then :: "step_end \<times> 't pass \<Rightarrow> ('t pass \<Rightarrow> step_end \<times> 't pass) \<Rightarrow> step_end \<times> 't pass" where
  "and_then r k = (case r of (Continue, ps) \<Rightarrow> k ps | _ \<Rightarrow> r)"

definition set_resources :: "cond_check \<Rightarrow> 't pass \<Rightarrow> 't pass" where
  "set_resources c ps = ps\<lparr>dv_obs := dv_obs ps\<lparr>ob_resources := c\<rparr>\<rparr>"

definition set_sandbox :: "cond_check \<Rightarrow> 't pass \<Rightarrow> 't pass" where
  "set_sandbox c ps = ps\<lparr>dv_obs := dv_obs ps\<lparr>ob_sandbox := c\<rparr>\<rparr>"

definition log_request :: "api_request \<Rightarrow> 't pass \<Rightarrow> 't pass" where
  "log_request r ps = ps\<lparr>dv_log := dv_log ps @ [r]\<rparr>"

definition res_err :: "'t cluster \<Rightarrow> string \<Rightarrow> kube_error \<Rightarrow> 't pass \<Rightarrow> step_end \<times> 't pass" where
  "res_err cl what e ps = (Fail e, set_resources (Check_Error (what @ '': '' @ cl_show cl e)) ps)"

definition sb_err :: "'t cluster \<Rightarrow> kube_error \<Rightarrow> 't pass \<Rightarrow> step_end \<times> 't pass" where
  "sb_err cl e ps = (Fail e, set_sandbox (Check_Error (cl_show cl e)) ps)"

definition drive_policy :: "'t project \<Rightarrow> defaults \<Rightarrow> 't cluster \<Rightarrow> 't pass \<Rightarrow> step_end \<times> 't pass" where
  "drive_policy p d cl ps =
     (let np = network_policy_name p
      in case existing_of (cl_policy cl) p of
           Inl e \<Rightarrow> res_err cl ''NetworkPolicy'' e ps
         | Inr (E_Blocked why) \<Rightarrow> (Stop, set_resources (blocked ''NetworkPolicy'' np why) ps)
         | Inr _ \<Rightarrow>
             (let ps1 = log_request (Rq_Policy np (network_policy (cl_ctl_ref cl) p d)) ps
              in case cl_policy_patch cl of Inl e \<Rightarrow> res_err cl ''NetworkPolicy'' e ps1 | Inr _ \<Rightarrow> (Continue, ps1)))"

definition drive_secret :: "'t project \<Rightarrow> defaults \<Rightarrow> 't cluster \<Rightarrow> 't pass \<Rightarrow> step_end \<times> 't pass" where
  "drive_secret p d cl ps =
     (let sn = auth_secret_name p
      in case existing_of (cl_secret cl) p of
           Inl e \<Rightarrow> res_err cl ''Secret'' e ps
         | Inr (E_Blocked why) \<Rightarrow> (Stop, set_resources (blocked ''Secret'' sn why) ps)
         | Inr E_Mine \<Rightarrow> (Continue, ps)
         | Inr E_Absent \<Rightarrow>
             (let ps1 = log_request (Rq_Secret sn (auth_secret (cl_ctl_ref cl) p d (cl_token cl))) ps
              in case cl_secret_create cl of
                   Inr _ \<Rightarrow> (Continue, ps1)
                 | Inl (Kube_Api code m) \<Rightarrow>
                     if code = 409 then (Continue, ps1) else res_err cl ''Secret'' (Kube_Api code m) ps1
                 | Inl e \<Rightarrow> res_err cl ''Secret'' e ps1))"

text \<open>The loop over the two claims; \<open>resizing\<close> is the first expansion seen.\<close>

fun drive_pvcs ::
  "'t project \<Rightarrow> 't cluster \<Rightarrow> (string \<times> string \<times> json) list \<Rightarrow> cond_check option \<Rightarrow> 't pass \<Rightarrow> step_end \<times> 't pass" where
  "drive_pvcs p cl [] resizing ps =
     (Continue, set_resources (case resizing of Some c \<Rightarrow> c | None \<Rightarrow> Check_Ok) ps)"
| "drive_pvcs p cl ((what, name, obj) # rest) resizing ps =
     (case existing_of (cl_pvc cl name) p of
        Inl e \<Rightarrow> res_err cl what e ps
      | Inr (E_Blocked why) \<Rightarrow> (Stop, set_resources (blocked what name why) ps)
      | Inr _ \<Rightarrow>
          (let ps1 = log_request (Rq_Pvc name obj) ps
           in case cl_pvc_patch cl name of
                Inr applied \<Rightarrow>
                  drive_pvcs p cl rest
                    (if resizing = None \<and> pvc_resizing applied
                     then Some (Check_Pending REASON_WORKSPACE_RESIZING (what @ '' '' @ name @ '' is being expanded''))
                     else resizing) ps1
              | Inl e \<Rightarrow>
                  (case classify_pvc_error (cl_lower cl) what name e of
                     Some c \<Rightarrow> (Stop, set_resources c ps1)
                   | None \<Rightarrow> res_err cl what e ps1)))"

definition drive_roll :: "('t::linorder) project \<Rightarrow> defaults \<Rightarrow> 't cluster \<Rightarrow> u64 \<Rightarrow> 't sandbox_obj \<Rightarrow> json \<Rightarrow> 't pass \<Rightarrow> step_end \<times> 't pass" where
  "drive_roll p d cl timeout sb want ps =
     (case roll_step (cl_clock cl) (cl_print cl) (pj_annotations p) want (project_image p d) (sb_template sb) (cl_pod cl)
             (cl_pod_delete cl) (Option.bind (pj_status p) pst_pending_change) timeout (cl_roll_now cl) of
        (res, request) \<Rightarrow>
          (let ps1 = (case request of Some uid \<Rightarrow> log_request (Rq_DeletePod uid) ps | None \<Rightarrow> ps)
           in case res of
                Inr outcome \<Rightarrow> (Continue, ps1\<lparr>dv_roll := outcome\<rparr>)
              | Inl e \<Rightarrow> (Fail e, ps1\<lparr>dv_roll := Keep\<rparr>)))"

definition drive_sandbox :: "('t::linorder) project \<Rightarrow> defaults \<Rightarrow> 't cluster \<Rightarrow> u64 \<Rightarrow> 't pass \<Rightarrow> step_end \<times> 't pass" where
  "drive_sandbox p d cl timeout ps =
     (let bn = sandbox_name p
      in case existing_of (cl_sandbox cl) p of
           Inl e \<Rightarrow> sb_err cl e ps
         | Inr (E_Blocked why) \<Rightarrow> (Stop, set_sandbox (blocked ''Sandbox'' bn why) ps)
         | Inr _ \<Rightarrow>
             (case (sandbox (cl_ctl_ref cl) p d, sandbox_pod_spec p d) of
                (Some obj, Some want) \<Rightarrow>
                  (let ps1 = log_request (Rq_Sandbox bn obj) ps
                   in case cl_sandbox_patch cl of
                        Inl e \<Rightarrow> sb_err cl e ps1
                      | Inr sb \<Rightarrow>
                          (let ps2 = set_sandbox (sandbox_check (Some sb))
                                 (ps1\<lparr>dv_status := dv_status ps1\<lparr>pst_namespace := Some (df_namespace d),
                                                                pst_sandbox := Some (sandbox_status_of p d)\<rparr>\<rparr>)
                           in drive_roll p d cl timeout sb want ps2))
              | _ \<Rightarrow> (Panic, ps)))"

definition drive :: "('t::linorder) project \<Rightarrow> defaults \<Rightarrow> 't cluster \<Rightarrow> u64 \<Rightarrow> 't pass \<Rightarrow> step_end \<times> 't pass" where
  "drive p d cl timeout ps =
     and_then (and_then (and_then (drive_policy p d cl ps) (drive_secret p d cl))
       (drive_pvcs p cl
          [(''workspace PVC'', workspace_pvc_name p, pvc (cl_ctl_ref cl) p d),
           (''docker PVC'', docker_pvc_name p, docker_pvc (cl_ctl_ref cl) p d)] None))
       (drive_sandbox p d cl timeout)"

section \<open>The status\<close>

definition status_default :: "'t project_status" where
  "status_default = \<lparr>pst_observed_generation = None, pst_namespace = None, pst_sandbox = None, pst_conditions = [],
     pst_pending_change = None, pst_last_roll = None\<rparr>"

definition old_status :: "'t project \<Rightarrow> 't project_status" where
  "old_status p = (case pj_status p of Some s \<Rightarrow> s | None \<Rightarrow> status_default)"

definition next_last_roll :: "'t last_roll option \<Rightarrow> 't outcome \<Rightarrow> 't last_roll option" where
  "next_last_roll old roll =
     (case roll of
        Pending r \<Rightarrow> (case rp_rolled r of Some l \<Rightarrow> Some l | None \<Rightarrow> old)
      | _ \<Rightarrow> old)"

definition merge_status :: "'t project_status \<Rightarrow> 't project_status \<Rightarrow> observed \<Rightarrow> bool \<times> 't project_status" where
  "merge_status old status obs =
     (if is_blocked (ob_resources obs) \<or> is_blocked (ob_sandbox obs)
      then (True, status\<lparr>pst_namespace := None, pst_sandbox := None\<rparr>)
      else (False, status\<lparr>pst_namespace := (case pst_namespace status of Some n \<Rightarrow> Some n | None \<Rightarrow> pst_namespace old),
                          pst_sandbox := (case pst_sandbox status of Some s \<Rightarrow> Some s | None \<Rightarrow> pst_sandbox old)\<rparr>))"

text \<open>The status of this pass, before it is merged with the old one.\<close>

definition computed_status :: "'t project \<Rightarrow> 't project_status \<Rightarrow> observed \<Rightarrow> 't outcome \<Rightarrow> 't \<Rightarrow> 't project_status" where
  "computed_status p status obs roll now =
     (let generation = (case pj_generation p of Some g \<Rightarrow> g | None \<Rightarrow> 0);
          previous = pst_conditions status;
          conds = compute generation obs previous now;
          s1 = status\<lparr>pst_conditions := conds,
                      pst_last_roll := next_last_roll (Option.bind (pj_status p) pst_last_roll) roll\<rparr>
      in case roll of
           Clear \<Rightarrow> s1\<lparr>pst_pending_change := None\<rparr>
         | Pending r \<Rightarrow> s1\<lparr>pst_pending_change := Some (rp_change r), pst_conditions := conds @ [roll_condition r generation]\<rparr>
         | Keep \<Rightarrow>
             s1\<lparr>pst_pending_change := Option.bind (pj_status p) pst_pending_change,
                pst_conditions := conds @ (case find (\<lambda>c. co_type c = COND_SANDBOX_CHANGE_PENDING) previous of Some c \<Rightarrow> [c] | None \<Rightarrow> [])\<rparr>)"

text \<open>A merge patch of the status: a field is left out, removed or replaced.\<close>

datatype 'a patch = Leave | Null | Put 'a

record 't status_patch =
  pa_observed_generation :: "int patch"
  pa_namespace :: "string patch"
  pa_sandbox :: "sandbox_status patch"
  pa_conditions :: "'t condition list patch"
  pa_pending_change :: "'t pending_change patch"
  pa_last_roll :: "'t last_roll patch"

definition to_patch :: "bool \<Rightarrow> 'a option \<Rightarrow> 'a patch" where
  "to_patch null v = (if null then Null else case v of Some x \<Rightarrow> Put x | None \<Rightarrow> Leave)"

definition status_body :: "'t project_status \<Rightarrow> 't project_status \<Rightarrow> bool \<Rightarrow> 't status_patch" where
  "status_body old status clear =
     \<lparr>pa_observed_generation = to_patch False (pst_observed_generation status),
      pa_namespace = to_patch clear (pst_namespace status),
      pa_sandbox = to_patch clear (pst_sandbox status),
      pa_conditions = Put (pst_conditions status),
      pa_pending_change = to_patch (pst_pending_change status = None \<and> pst_pending_change old \<noteq> None) (pst_pending_change status),
      pa_last_roll = to_patch False (pst_last_roll status)\<rparr>"

text \<open>None when the status has not changed and nothing is written.\<close>

definition write_status :: "'t project \<Rightarrow> 't project_status \<Rightarrow> observed \<Rightarrow> 't outcome \<Rightarrow> 't \<Rightarrow> 't status_patch option" where
  "write_status p status obs roll now =
     (let old = old_status p;
          (clear, merged) = merge_status old (computed_status p status obs roll now) obs
      in if old = merged then None else Some (status_body old merged clear))"

text \<open>What the API server does with a merge patch.\<close>

fun patch_field :: "'a option \<Rightarrow> 'a patch \<Rightarrow> 'a option" where
  "patch_field old Leave = old"
| "patch_field old Null = None"
| "patch_field old (Put x) = Some x"

definition apply_patch :: "'t project_status \<Rightarrow> 't status_patch \<Rightarrow> 't project_status" where
  "apply_patch old b =
     \<lparr>pst_observed_generation = patch_field (pst_observed_generation old) (pa_observed_generation b),
      pst_namespace = patch_field (pst_namespace old) (pa_namespace b),
      pst_sandbox = patch_field (pst_sandbox old) (pa_sandbox b),
      pst_conditions = (case patch_field (Some (pst_conditions old)) (pa_conditions b) of Some c \<Rightarrow> c | None \<Rightarrow> []),
      pst_pending_change = patch_field (pst_pending_change old) (pa_pending_change b),
      pst_last_roll = patch_field (pst_last_roll old) (pa_last_roll b)\<rparr>"

section \<open>The pass\<close>

datatype action = Requeue int | AwaitChange

datatype op_error = OE_Kube kube_error | OE_StoreNotReady string | OE_Panic

definition POLL_NOT_READY :: int where "POLL_NOT_READY = 5"
definition RESYNC :: int where "RESYNC = 300"
definition NOT_OWNED_RETRY :: int where "NOT_OWNED_RETRY = 60"
definition DEFER_POLL :: int where "DEFER_POLL = 30"

definition repo_conflict :: "('t::linorder) project \<Rightarrow> 't project list \<Rightarrow> string option" where
  "repo_conflict p all =
     map_option (\<lambda>(key, _). ''repository '' @ key @ '' is already used by an older Project'') (conflict_winner p all)"

definition invalid_text :: "(string \<Rightarrow> string) \<Rightarrow> invalid_project \<Rightarrow> string" where
  "invalid_text quoted e =
     (case e of
        NoName \<Rightarrow> ''project has no name''
      | BadName n why \<Rightarrow> ''project name '' @ quoted n @ '' is not a valid DNS label: '' @ why
      | NoOwner \<Rightarrow> ''spec.owner is empty''
      | NoImage \<Rightarrow> ''no sandbox image: set spec.sandbox.image or run the operator with --sandbox-image''
      | BadCpu n \<Rightarrow> ''spec.sandbox.cpu must be 1-64, got '' @ show_int n
      | BadMemory m \<Rightarrow> ''spec.sandbox.memory '' @ quoted m @ '' must be <int>Mi or <int>Gi between 512Mi and 256Gi'')"

definition start_pass :: "'t project \<Rightarrow> 't pass" where
  "start_pass p =
     \<lparr>dv_obs = all_skipped,
      dv_status = status_default\<lparr>pst_observed_generation := pj_generation p, pst_conditions := pst_conditions (old_status p)\<rparr>,
      dv_roll = Keep, dv_log = []\<rparr>"

text \<open>The answer to the status write, if one is made, decides before the result of the pass does.\<close>

definition finish_pass :: "'t project \<Rightarrow> 't cluster \<Rightarrow> 't pass \<Rightarrow> op_error + action \<Rightarrow> (op_error + action) \<times> 't status_patch option" where
  "finish_pass p cl ps result =
     (case write_status p (dv_status ps) (dv_obs ps) (dv_roll ps) (cl_status_now cl) of
        None \<Rightarrow> (result, None)
      | Some body \<Rightarrow> (case cl_status_patch cl of Inl e \<Rightarrow> Inl (OE_Kube e) | Inr _ \<Rightarrow> result, Some body))"

definition requeue_after :: "'t pass \<Rightarrow> action" where
  "requeue_after ps =
     (if ob_resources (dv_obs ps) = Check_Ok \<and> ob_sandbox (dv_obs ps) = Check_Ok
      then Requeue (case dv_roll ps of Pending r \<Rightarrow> max 1 (min (rp_remaining r) DEFER_POLL) | _ \<Rightarrow> RESYNC)
      else if is_not_owned (ob_resources (dv_obs ps)) \<or> is_not_owned (ob_sandbox (dv_obs ps)) then Requeue NOT_OWNED_RETRY
      else Requeue POLL_NOT_READY)"

text \<open>The result, the status patch that was sent and the requests that were made.\<close>

definition apply_project ::
  "('t::linorder) project \<Rightarrow> defaults \<Rightarrow> 't project list \<Rightarrow> 't cluster \<Rightarrow> u64
    \<Rightarrow> (op_error + action) \<times> 't status_patch option \<times> api_request list" where
  "apply_project p d cached cl timeout =
     (let ps0 = start_pass p
      in case validate_project p d of
           Inl e \<Rightarrow>
             (let (r, b) = finish_pass p cl (set_resources (Check_Invalid (invalid_text (cl_debug cl) e)) ps0) (Inr AwaitChange) in (r, b, []))
         | Inr _ \<Rightarrow>
             (case repo_conflict p cached of
                Some msg \<Rightarrow>
                  (let (r, b) = finish_pass p cl (set_resources (Check_Invalid msg) ps0) (Inr (Requeue RESYNC)) in (r, b, []))
              | None \<Rightarrow>
                  (case drive p d cl timeout ps0 of
                     (Panic, ps) \<Rightarrow> (Inl OE_Panic, None, dv_log ps)
                   | (Fail e, ps) \<Rightarrow> (let (r, b) = finish_pass p cl ps (Inl (OE_Kube e)) in (r, b, dv_log ps))
                   | (_, ps) \<Rightarrow> (let (r, b) = finish_pass p cl ps (Inr (requeue_after ps)) in (r, b, dv_log ps)))))"

section \<open>The controller\<close>

definition backoff :: "nat \<Rightarrow> int" where
  "backoff failures = (let exp = min (failures - 1) 6 in min (5 * 2 ^ exp) 300)"

definition ctx_fail :: "string \<Rightarrow> (string \<rightharpoonup> nat) \<Rightarrow> nat \<times> (string \<rightharpoonup> nat)" where
  "ctx_fail name m = (let n = (case m name of Some k \<Rightarrow> k | None \<Rightarrow> 0) + 1 in (n, m(name \<mapsto> n)))"

definition ctx_reset :: "string \<Rightarrow> (string \<rightharpoonup> nat) \<Rightarrow> (string \<rightharpoonup> nat)" where
  "ctx_reset name m = m(name := None)"

definition reconcile ::
  "('t::linorder) project \<Rightarrow> defaults \<Rightarrow> string + 't project list \<Rightarrow> 't cluster \<Rightarrow> u64 \<Rightarrow> (string \<rightharpoonup> nat)
    \<Rightarrow> (op_error + action) \<times> 't status_patch option \<times> api_request list \<times> (string \<rightharpoonup> nat)" where
  "reconcile p d store cl timeout failures =
     (if pj_deleting p then (Inr AwaitChange, None, [], failures)
      else case store of
             Inl e \<Rightarrow> (Inl (OE_StoreNotReady e), None, [], failures)
           | Inr cached \<Rightarrow>
               (case apply_project p d cached cl timeout of
                  (Inl e, b, l) \<Rightarrow> (Inl e, b, l, failures)
                | (Inr a, b, l) \<Rightarrow> (Inr a, b, l, ctx_reset (project_name p) failures)))"

definition error_policy :: "'t project \<Rightarrow> (string \<rightharpoonup> nat) \<Rightarrow> action \<times> (string \<rightharpoonup> nat)" where
  "error_policy p failures = (let (n, m) = ctx_fail (project_name p) failures in (Requeue (backoff n), m))"

definition related_projects :: "'t project \<Rightarrow> 't project list \<Rightarrow> string list" where
  "related_projects changed all =
     (let keys = repo_keys changed \<union> \<Union> (repo_keys ` set (filter (\<lambda>o'. project_name o' = project_name changed) all))
      in if keys = {} then []
         else map project_name (filter (\<lambda>o'. repo_keys o' \<inter> keys \<noteq> {}) (filter (\<lambda>o'. project_name o' \<noteq> project_name changed) all)))"

end
