(* ===== verification/Roll_Props.thy ===== *)
theory Roll_Props
  imports Roll
begin

text \<open>
  What releases a roll: a running pod that is old enough, a difference, a template that has
  landed, and one of the four reasons; an annotation only releases the change it names. A pending
  change is published under a generation no annotation on the Project can have anticipated, a
  roll converges, and the drain timeout forces it.
\<close>

section \<open>Generations\<close>

lemma sat_add_gt: "a < I64_MAX \<Longrightarrow> a < sat_add a 1"
  by (simp add: sat_add_def)

lemma valid_ack_Some: "valid_ack a = Some n \<longleftrightarrow> a = Some n \<and> n < I64_MAX"
  by (auto simp: valid_ack_def split: option.splits)

lemma floor_ge_1: "1 \<le> floor_generation a b"
  by (simp add: floor_generation_def split: option.split)

lemma floor_exceeds:
  "n < floor_generation (valid_ack a) (valid_ack b)" if "valid_ack a = Some n \<or> valid_ack b = Some n"
proof -
  have "\<exists>m. option_max (valid_ack a) (valid_ack b) = Some m \<and> n \<le> m \<and> m < I64_MAX"
    using that by (cases "valid_ack a"; cases "valid_ack b") (auto simp: valid_ack_def split: option.splits if_splits)
  then show ?thesis using sat_add_gt by (fastforce simp: floor_generation_def)
qed

text \<open>The published change continues the pending one, or it is new.\<close>

definition continues :: "'t pending_change option \<Rightarrow> ('t::linorder) \<Rightarrow> 't pending_change \<Rightarrow> bool" where
  "continues pending created c \<longleftrightarrow>
     (\<exists>p. pending = Some p \<and> created \<le> pc_since p \<and> pc_generation c = pc_generation p
        \<and> pc_since c = pc_since p \<and> pc_reason c = pc_reason p)"

lemma next_change_cases:
  assumes "next_change J fl created reason pending now timeout = Some c"
  shows "pc_reason c = reason \<and>
    (continues pending created c \<or>
      fl \<le> pc_generation c \<and> (\<forall>p. pending = Some p \<longrightarrow> sat_add (pc_generation p) 1 \<le> pc_generation c))"
  using assms by (auto simp: next_change_def fresh_def continues_def split: option.splits if_splits)

lemma decide_publishes:
  assumes "decide J i = Defer c \<or> decide J i = Roll c w"
  obtains created where "ri_pod i = Running created" "ri_diff i \<noteq> []" "ri_template_matches i"
    "next_change J (floor_generation (valid_ack (ri_ack i)) (valid_ack (ri_roll_now i))) created
       (reason_of (ri_diff i)) (ri_pending i) (ri_now i) (ri_timeout i) = Some c"
    "decide J i = Roll c w \<Longrightarrow> release_why J i c = Some w \<and> MIN_POD_AGE_SECS \<le> as_second J (ri_now i) - as_second J created"
  using assms by (auto simp: decide_def split: pod_state.splits if_splits option.splits)

lemma annotation_continues:
  assumes "next_change J (floor_generation (valid_ack (ri_ack i)) (valid_ack (ri_roll_now i))) created
       reason (ri_pending i) now timeout = Some c"
    and "valid_ack (ri_ack i) = Some (pc_generation c) \<or> valid_ack (ri_roll_now i) = Some (pc_generation c)"
  shows "continues (ri_pending i) created c"
  using next_change_cases [OF assms(1)] floor_exceeds [OF assms(2)] by auto

lemma release_why_cases:
  "release_why J i c = Some w \<Longrightarrow>
     (case w of
        Why_Ack \<Rightarrow> valid_ack (ri_ack i) = Some (pc_generation c)
      | Why_Manual \<Rightarrow> valid_ack (ri_roll_now i) = Some (pc_generation c)
      | Why_Idle \<Rightarrow> ri_activity i = Active 0
      | Why_Timeout \<Rightarrow> as_second J (deadline J (pc_since c) (ri_timeout i)) \<le> as_second J (ri_now i))"
  by (auto simp: release_why_def split: if_splits)

section \<open>The properties of a decision\<close>

text \<open>
  C31: a pod is only deleted when it runs, differs from the desired shape, the template already has
  that shape and the pod is at least 120 seconds old. A drain acknowledgement or a
  \<^verbatim>\<open>roll now\<close> releases only the change it was given for: that change is already pending, with the
  acknowledged generation and the same reason, and the pod has not been recreated since.
\<close>

theorem roll_released:
  assumes "decide J i = Roll c w"
  shows "\<exists>created. ri_pod i = Running created \<and> ri_diff i \<noteq> [] \<and> ri_template_matches i
    \<and> MIN_POD_AGE_SECS \<le> as_second J (ri_now i) - as_second J created
    \<and> (case w of
         Why_Ack \<Rightarrow> ri_ack i = Some (pc_generation c) \<and> continues (ri_pending i) created c
       | Why_Manual \<Rightarrow> ri_roll_now i = Some (pc_generation c) \<and> continues (ri_pending i) created c
       | Why_Idle \<Rightarrow> ri_activity i = Active 0
       | Why_Timeout \<Rightarrow> as_second J (deadline J (pc_since c) (ri_timeout i)) \<le> as_second J (ri_now i))"
proof -
  obtain created where *: "ri_pod i = Running created" "ri_diff i \<noteq> []" "ri_template_matches i"
    and nc: "next_change J (floor_generation (valid_ack (ri_ack i)) (valid_ack (ri_roll_now i))) created
       (reason_of (ri_diff i)) (ri_pending i) (ri_now i) (ri_timeout i) = Some c"
    and rw: "release_why J i c = Some w" "MIN_POD_AGE_SECS \<le> as_second J (ri_now i) - as_second J created"
    using decide_publishes [of J i c w] assms by blast
  show ?thesis using * rw(2) release_why_cases [OF rw(1)] annotation_continues [OF nc]
    by (intro exI [of _ created]) (auto simp: valid_ack_Some split: why.splits)
qed

text \<open>
  A change is published either under the generation, start and reason of the pending one, or
  under a new generation: at least 1, above both annotations on the Project and above the
  pending one (as long as 64 bits last).
\<close>

theorem roll_generation:
  assumes "decide J i = Defer c \<or> decide J i = Roll c w"
  shows "pc_reason c = reason_of (ri_diff i) \<and>
    (\<exists>created. ri_pod i = Running created \<and>
      (continues (ri_pending i) created c \<or>
        1 \<le> pc_generation c
        \<and> (\<forall>n. n < I64_MAX \<and> (ri_ack i = Some n \<or> ri_roll_now i = Some n) \<longrightarrow> n < pc_generation c)
        \<and> (\<forall>p. ri_pending i = Some p \<and> pc_generation p < I64_MAX \<longrightarrow> pc_generation p < pc_generation c)))"
proof -
  obtain created where *: "ri_pod i = Running created"
    and nc: "next_change J (floor_generation (valid_ack (ri_ack i)) (valid_ack (ri_roll_now i))) created
       (reason_of (ri_diff i)) (ri_pending i) (ri_now i) (ri_timeout i) = Some c"
    using decide_publishes [OF assms] by blast
  note cases = next_change_cases [OF nc]
  have ann: "n < floor_generation (valid_ack (ri_ack i)) (valid_ack (ri_roll_now i))"
    if "n < I64_MAX" "ri_ack i = Some n \<or> ri_roll_now i = Some n" for n
    using that floor_exceeds [of "ri_ack i" n "ri_roll_now i"] by (auto simp: valid_ack_Some)
  show ?thesis
  proof (cases "continues (ri_pending i) created c")
    case False
    then have fl: "floor_generation (valid_ack (ri_ack i)) (valid_ack (ri_roll_now i)) \<le> pc_generation c"
      and pend: "\<And>p. ri_pending i = Some p \<Longrightarrow> sat_add (pc_generation p) 1 \<le> pc_generation c"
      using cases by auto
    have "pc_generation p < pc_generation c" if "ri_pending i = Some p" "pc_generation p < I64_MAX" for p
      using pend [OF that(1)] sat_add_gt [OF that(2)] by simp
    moreover have "1 \<le> pc_generation c" using fl floor_ge_1 order_trans by blast
    moreover have "n < pc_generation c" if "n < I64_MAX" "ri_ack i = Some n \<or> ri_roll_now i = Some n" for n
      using ann [OF that] fl by simp
    ultimately show ?thesis using * cases by blast
  qed (use * cases in blast)
qed

section \<open>Differences\<close>

lemma map_filter_Nil: "List.map_filter f xs = [] \<longleftrightarrow> (\<forall>x\<in>set xs. f x = None)"
  by (auto simp: List.map_filter_def filter_empty_conv)

definition same_shape :: "string btree \<Rightarrow> string btree \<Rightarrow> bool" where
  "same_shape want running \<longleftrightarrow>
     map_of want \<subseteq>\<^sub>m map_of running
     \<and> (\<forall>k. starts_with k ''env/'' \<longrightarrow> k \<in> dom (map_of running) \<longrightarrow> k \<in> dom (map_of want))"

lemma entries_le:
  assumes "bt_ok want"
  shows "(\<forall>x\<in>set want. diff_entry running x = None) \<longleftrightarrow> map_of want \<subseteq>\<^sub>m map_of running"
proof -
  have "diff_entry running (k, v) = None \<longleftrightarrow> map_of running k = Some v" for k v
    by (auto simp: diff_entry_def split: option.split)
  moreover have "map_of want \<subseteq>\<^sub>m map_of running \<longleftrightarrow> (\<forall>k v. map_of want k = Some v \<longrightarrow> map_of running k = Some v)"
    by (fastforce simp: map_le_def dom_def)
  ultimately show ?thesis using map_of_eq_Some_iff [OF bt_ok_distinct [OF assms]] by auto
qed

lemma env_entries_known:
  assumes "bt_ok running"
  shows "(\<forall>x\<in>set running. (case x of (k, h) \<Rightarrow> if starts_with k ''env/'' \<and> map_of want k = None then Some (k @ '': '' @ h @ '' -> <unset>'') else None) = None)
      \<longleftrightarrow> (\<forall>k. starts_with k ''env/'' \<longrightarrow> k \<in> dom (map_of running) \<longrightarrow> k \<in> dom (map_of want))"
  using map_of_eq_Some_iff [OF bt_ok_distinct [OF assms]] by (auto simp: dom_def split: if_splits)

lemma diff_Nil_iff: "bt_ok want \<Longrightarrow> bt_ok running \<Longrightarrow> diff want running = [] \<longleftrightarrow> same_shape want running"
  by (simp add: diff_def map_filter_Nil same_shape_def entries_le env_entries_known)

lemma shape_of_ok [simp]: "bt_ok (shape_of print spec)"
  by (simp add: shape_of_def)

lemma same_shape_trans: "same_shape a b \<Longrightarrow> same_shape b c \<Longrightarrow> same_shape a c"
  by (auto simp: same_shape_def intro: map_le_trans)

text \<open>
  A roll converges. Once the template has the desired shape and the pod that was
  recreated from it has the template's shape (plus whatever the cluster adds that is not an
  \<^verbatim>\<open>ENZARB_*\<close> variable), the step clears the pending change and deletes nothing.
\<close>

theorem roll_converges:
  assumes "diff (shape_of print want) (shape_of print template) = []"
    and "same_shape (shape_of print template) (shape_of print spec)"
    and "pod_spec pod = Some spec" and "\<not> pod_deleting pod" and "pod_created pod = Some created"
  shows "roll_step J print annotations want img template (Inr (Some pod)) delete pending timeout now = (Inr Clear, None)"
proof -
  have "diff (shape_of print want) (shape_of print spec) = []"
    using assms(1,2) same_shape_trans by (auto simp: diff_Nil_iff)
  then show ?thesis using assms(3-5)
    by (simp add: roll_step_def roll_input_of_def Let_def decide_def pod_state_of_def)
qed

section \<open>The drain timeout\<close>

lemma deadline_le:
  assumes "jiff_ok J"
  shows "as_second J (deadline J since timeout) \<le> as_second J since + int (unat timeout)"
proof -
  define s where "s = as_second J since"
  define d where "d = min (int (unat timeout)) I64_MAX"
  define n where "n = min (sat_add s d) (as_second J (ts_MAX J))"
  have s: "I64_MIN \<le> s" "s \<le> I64_MAX" "s \<le> as_second J (ts_MAX J)" using assms by (auto simp: jiff_ok_def s_def)
  have d: "0 \<le> d" "d \<le> int (unat timeout)" by (auto simp: d_def I64_MAX_def)
  have n: "s \<le> n" "n \<le> s + int (unat timeout)" "n \<le> as_second J (ts_MAX J)"
    using s d by (auto simp: n_def sat_add_def)
  then obtain t where "from_second J n = Some t" using assms unfolding jiff_ok_def s_def by blast
  moreover have "deadline J since timeout = (case from_second J n of Some t \<Rightarrow> t | None \<Rightarrow> ts_MAX J)"
    by (simp add: deadline_def n_def s_def d_def Let_def)
  ultimately show ?thesis using n assms by (simp add: jiff_ok_def s_def)
qed

text \<open>
  The drain timeout is a bound. A pending change whose pod has not been recreated is rolled as
  soon as the timeout has passed since it was first seen and the pod has its minimal age.
\<close>

theorem roll_timeout:
  assumes "jiff_ok J" and "ri_pod i = Running created" and "ri_diff i \<noteq> []" and "ri_template_matches i"
    and "ri_pending i = Some p" and "pc_reason p = reason_of (ri_diff i)" and "created \<le> pc_since p"
    and "as_second J (pc_since p) + int (unat (ri_timeout i)) \<le> as_second J (ri_now i)"
    and "as_second J created + MIN_POD_AGE_SECS \<le> as_second J (ri_now i)"
  shows "\<exists>w. decide J i = Roll (p\<lparr>pc_deadline := Some (deadline J (pc_since p) (ri_timeout i))\<rparr>) w"
proof -
  have "as_second J (deadline J (pc_since p) (ri_timeout i)) \<le> as_second J (ri_now i)"
    using deadline_le [OF assms(1)] assms(8) order_trans by blast
  then have "\<exists>w. release_why J i (p\<lparr>pc_deadline := Some (deadline J (pc_since p) (ri_timeout i))\<rparr>) = Some w"
    by (simp add: release_why_def)
  then show ?thesis using assms by (auto simp: decide_def next_change_def)
qed

section \<open>Witnesses\<close>

text \<open>A clock of 16 bits, and a pod that has waited for 200 seconds.\<close>

definition wit_clock :: "u16 jiff" where
  "wit_clock = \<lparr>as_second = uint, from_second = (\<lambda>n. if 0 \<le> n \<and> n < 65536 then Some (word_of_int n) else None),
     ts_MAX = - 1, ts_show = (\<lambda>t. show_nat (unat t))\<rparr>"

lemma wit_clock_ok: "jiff_ok wit_clock"
proof -
  have "uint (t :: u16) < 65536" for t using uint_lt2p [of t] by simp
  then have "I64_MIN \<le> uint t \<and> uint t \<le> I64_MAX" for t :: u16
    using order_less_le_trans [of "uint t" 65536 I64_MAX] order_trans [of I64_MIN 0 "uint t"] by (simp add: I64_MIN_def I64_MAX_def)
  moreover have "uint (word_of_int n :: u16) = n" if "0 \<le> n" "n < 65536" for n
    using that by (simp add: uint_word_of_int take_bit_int_eq_self)
  moreover have "uint (- 1 :: u16) = 65535" by (simp add: unsigned_minus_1_eq_mask mask_eq_exp_minus_1)
  moreover have "t \<le> (- 1 :: u16)" for t by simp
  moreover have "uint t \<le> n \<Longrightarrow> 0 \<le> n" for t :: u16 and n by (rule order_trans [OF uint_ge_0])
  ultimately show ?thesis
    by (auto simp: jiff_ok_def wit_clock_def word_le_def split: if_splits)
qed

definition wit_pending :: "u16 pending_change" where
  "wit_pending = \<lparr>pc_generation = 3, pc_since = 100, pc_deadline = None, pc_reason = ''image/sandbox: a -> b''\<rparr>"

definition wit_input :: "u16 roll_input" where
  "wit_input = \<lparr>ri_diff = [''image/sandbox: a -> b''], ri_template_matches = True, ri_pod = Running 50,
     ri_activity = Active 2, ri_pending = Some wit_pending, ri_ack = Some 3, ri_roll_now = None, ri_now = 300, ri_timeout = 150\<rparr>"

lemma wit_reason: "reason_of [''image/sandbox: a -> b''] = ''image/sandbox: a -> b''"
  by (simp add: reason_of_def MAX_REASON_def)

lemma wit_rolls: "decide wit_clock wit_input = Roll (wit_pending\<lparr>pc_deadline := Some 250\<rparr>) Why_Ack"
  by code_simp

theorem roll_released_witness:
  "\<exists>created. ri_pod wit_input = Running created \<and> ri_diff wit_input \<noteq> [] \<and> ri_template_matches wit_input
    \<and> MIN_POD_AGE_SECS \<le> as_second wit_clock (ri_now wit_input) - as_second wit_clock created
    \<and> ri_ack wit_input = Some 3 \<and> continues (ri_pending wit_input) created (wit_pending\<lparr>pc_deadline := Some 250\<rparr>)"
  using roll_released [OF wit_rolls] by (simp add: wit_pending_def)

theorem roll_generation_witness:
  "pc_reason wit_pending = reason_of (ri_diff wit_input)"
  using roll_generation [OF disjI2 [OF wit_rolls]] by (simp add: wit_pending_def)

theorem roll_timeout_witness:
  "\<exists>w. decide wit_clock wit_input = Roll (wit_pending\<lparr>pc_deadline := Some (deadline wit_clock (pc_since wit_pending) (ri_timeout wit_input))\<rparr>) w"
  by (rule roll_timeout [OF wit_clock_ok, where created = 50])
    (simp_all add: wit_input_def wit_pending_def wit_reason wit_clock_def MIN_POD_AGE_SECS_def)

definition wit_spec :: json where
  "wit_spec = JObj [(''containers'', JArr [JObj [(''name'', JStr ''sandbox''), (''image'', JStr ''b'')]])]"

definition wit_pod :: "u16 pod" where
  "wit_pod = \<lparr>pod_deleting = False, pod_created = Some 200, pod_spec = Some wit_spec, pod_annotations = [], pod_uid = Some ''u''\<rparr>"

theorem roll_converges_witness:
  "roll_step wit_clock (\<lambda>_. []) [] wit_spec ''b'' wit_spec (Inr (Some wit_pod)) (Inr ()) (Some wit_pending) 150 300 = (Inr Clear, None)"
  by (rule roll_converges [where spec = wit_spec and created = 200])
    (simp_all add: wit_pod_def same_shape_def diff_Nil_iff)

end
