(* ===== verification/Project_Props.thy ===== *)
theory Project_Props
  imports Project
begin

text \<open>
  At most one Project uses a repository: of two live Projects that list it at least one yields, and the
  one that is named as the winner is the oldest. Repo keys are normal forms.
\<close>

section \<open>Orders given by a comparison\<close>

locale precedence =
  fixes f :: "'a \<Rightarrow> 'a \<Rightarrow> ordering"
  assumes le_trans: "f x y \<noteq> Greater \<Longrightarrow> f y z \<noteq> Greater \<Longrightarrow> f x z \<noteq> Greater"
    and le_total: "f x y = Greater \<Longrightarrow> f y x = Less"
    and le_refl: "f x x = Equal"
begin

lemma min_by_least: "min_by f xs = Some m \<Longrightarrow> m \<in> set xs \<and> (\<forall>x\<in>set xs. f m x \<noteq> Greater)"
proof (induction "length xs" arbitrary: xs rule: less_induct)
  case less
  consider "xs = []" | x where "xs = [x]" | x y ys where "xs = x # y # ys" by (metis list.exhaust)
  then show ?case
  proof cases
    case 3
    define z where "z = (if f x y = Greater then y else x)"
    have m: "m \<in> set (z # ys)" "\<forall>x\<in>set (z # ys). f m x \<noteq> Greater" 
      using less.hyps [of "z # ys"] less.prems 3 by (auto simp: z_def)
    have "f z x \<noteq> Greater \<and> f z y \<noteq> Greater" using le_total [of x y] le_refl by (auto simp: z_def)
    then have "f m x \<noteq> Greater \<and> f m y \<noteq> Greater" using m(2) le_trans [of m z] by auto
    then show ?thesis using m 3 by (auto simp: z_def split: if_splits)
  qed (use less le_refl in auto)
qed

lemma min_by_None: "min_by f xs = None \<longleftrightarrow> xs = []"
  by (induction f xs rule: min_by.induct) auto

end

lemma cmp_simps [simp]: "cmp a b = Equal \<longleftrightarrow> a = b" "cmp a b = Less \<longleftrightarrow> a < b" "cmp a b = Greater \<longleftrightarrow> b < a"
  by (auto simp: cmp_def)

lemma then_with_Greater: "then_with a b = Greater \<longleftrightarrow> a = Greater \<or> a = Equal \<and> b = Greater"
  by (cases a) auto

lemma then_with_Equal: "then_with a b = Equal \<longleftrightarrow> a = Equal \<and> b = Equal"
  by (cases a) auto

lemma then_with_Less: "then_with a b = Less \<longleftrightarrow> a = Less \<or> a = Equal \<and> b = Less"
  by (cases a) auto

lemma cmp_precedence_Greater: "cmp_precedence a b = Greater \<longleftrightarrow> cmp_precedence b a = Less"
  by (auto simp: cmp_precedence_def then_with_Greater then_with_Less split: option.splits)

lemma cmp_precedence_Equal: "cmp_precedence a b = Equal \<Longrightarrow> project_name a = project_name b"
  by (auto simp: cmp_precedence_def then_with_Equal split: option.splits)

interpretation prec: precedence cmp_precedence
proof
  fix x y z :: "'a project"
  show "cmp_precedence x y \<noteq> Greater \<Longrightarrow> cmp_precedence y z \<noteq> Greater \<Longrightarrow> cmp_precedence x z \<noteq> Greater"
    by (auto simp: cmp_precedence_def then_with_Greater split: option.splits)
  show "cmp_precedence x y = Greater \<Longrightarrow> cmp_precedence y x = Less"
    by (simp add: cmp_precedence_Greater)
  show "cmp_precedence x x = Equal"
    by (simp add: cmp_precedence_def then_with_Equal split: option.split)
qed

interpretation contender: precedence "\<lambda>a b. cmp_precedence (snd a) (snd b)"
  by unfold_locales (use prec.le_trans prec.le_total prec.le_refl in blast)+

section \<open>One Project per repository\<close>

text \<open>\<open>o'\<close> competes with \<open>p\<close>: another live Project that lists one of its repositories.\<close>

definition competes :: "'t project \<Rightarrow> 't project \<Rightarrow> bool" where
  "competes p o' \<longleftrightarrow> project_name o' \<noteq> project_name p \<and> \<not> pj_deleting o' \<and> repo_keys p \<inter> repo_keys o' \<noteq> {}"

lemma set_map_filter: "x \<in> set (List.map_filter g xs) \<longleftrightarrow> (\<exists>y\<in>set xs. g y = Some x)"
  by (force simp: List.map_filter_def)

lemma shared_key_Some: "shared_key p o' = Some k \<Longrightarrow> k \<in> repo_keys p \<and> k \<in> repo_keys o'"
  by (auto simp: shared_key_def repo_keys_def find_Some_iff)

lemma shared_key_None: "shared_key p o' = None \<longleftrightarrow> repo_keys p \<inter> repo_keys o' = {}"
  by (auto simp: shared_key_def repo_keys_def find_None_iff)

lemma contenders_set:
  "(k, o') \<in> set (contenders p all) \<longleftrightarrow>
     o' \<in> set all \<and> competes p o' \<and> cmp_precedence o' p = Less \<and> shared_key p o' = Some k"
  using shared_key_Some [of p o' k] by (auto simp: contenders_def competes_def set_map_filter)

lemma contenders_Nil:
  "contenders p all = [] \<longleftrightarrow> (\<forall>o'\<in>set all. competes p o' \<longrightarrow> cmp_precedence o' p \<noteq> Less)"
proof
  assume *: "contenders p all = []"
  show "\<forall>o'\<in>set all. competes p o' \<longrightarrow> cmp_precedence o' p \<noteq> Less"
  proof (intro ballI impI notI)
    fix o' assume o: "o' \<in> set all" "competes p o'" "cmp_precedence o' p = Less"
    then obtain k where "shared_key p o' = Some k" using shared_key_None [of p o'] by (auto simp: competes_def)
    then have "(k, o') \<in> set (contenders p all)" using o by (simp add: contenders_set)
    then show False using * by simp
  qed
next
  assume *: "\<forall>o'\<in>set all. competes p o' \<longrightarrow> cmp_precedence o' p \<noteq> Less"
  then show "contenders p all = []" using contenders_set by (metis list.set_intros(1) neq_Nil_conv surj_pair)
qed

lemma conflict_winner_None: "conflict_winner p all = None \<longleftrightarrow> (\<forall>o'\<in>set all. competes p o' \<longrightarrow> cmp_precedence o' p \<noteq> Less)"
  by (simp add: conflict_winner_def contender.min_by_None contenders_Nil)

text \<open>
  C34: at most one Project uses a repository. Of two live Projects of different names that list
  the same repository at least one is told to yield.
\<close>

theorem repo_exclusive:
  assumes "p \<in> set all" and "q \<in> set all" and "project_name p \<noteq> project_name q"
    and "\<not> pj_deleting p" and "\<not> pj_deleting q" and "k \<in> repo_keys p" and "k \<in> repo_keys q"
  shows "conflict_winner p all \<noteq> None \<or> conflict_winner q all \<noteq> None"
proof -
  have "competes p q" "competes q p" using assms by (auto simp: competes_def)
  moreover have "cmp_precedence q p = Less \<or> cmp_precedence p q = Less"
    using cmp_precedence_Equal [of q p] cmp_precedence_Greater [of q p] assms(3) by (cases "cmp_precedence q p") auto
  ultimately show ?thesis using assms(1,2) by (auto simp: conflict_winner_None)
qed

text \<open>
  The Project a loser yields to is live, shares the named repository with it, is older, and is
  the oldest of those it competes with.
\<close>

theorem repo_winner_oldest:
  assumes "conflict_winner p all = Some (k, w)"
  shows "w \<in> set all \<and> competes p w \<and> cmp_precedence w p = Less \<and> k \<in> repo_keys p \<and> k \<in> repo_keys w
    \<and> (\<forall>q\<in>set all. competes p q \<longrightarrow> cmp_precedence w q \<noteq> Greater)"
proof -
  have m: "(k, w) \<in> set (contenders p all)" "\<forall>x\<in>set (contenders p all). cmp_precedence w (snd x) \<noteq> Greater"
    using contender.min_by_least assms unfolding conflict_winner_def by fastforce+
  then have w: "w \<in> set all" "competes p w" "cmp_precedence w p = Less" "shared_key p w = Some k"
    by (auto simp: contenders_set)
  have "cmp_precedence w q \<noteq> Greater" if q: "q \<in> set all" "competes p q" for q
  proof (cases "cmp_precedence q p = Less")
    case True
    then obtain k' where "(k', q) \<in> set (contenders p all)"
      using q shared_key_None [of p q] by (auto simp: contenders_set competes_def)
    then show ?thesis using m(2) by fastforce
  next
    case False
    then show ?thesis using w(3) prec.le_trans [of w p q] cmp_precedence_Greater [of p q] by auto
  qed
  then show ?thesis using w shared_key_Some by blast
qed

section \<open>Repo keys are normal forms\<close>

definition key_char :: "char \<Rightarrow> bool" where
  "key_char c \<longleftrightarrow> repo_char c \<or> c = CHR '':'' \<or> c = CHR ''/''"

lemma white_not_key:
  "list_all (\<lambda>w. w \<noteq> [] \<and> \<not> key_char (hd w)) white_space" "list_all (\<lambda>w. w \<noteq> [] \<and> \<not> key_char (hd w)) (map rev white_space)"
  by code_simp+

lemma strip_id:
  assumes "list_all (\<lambda>w. w \<noteq> [] \<and> \<not> key_char (hd w)) ws" and "list_all key_char s"
  shows "strip ws s = s"
proof -
  have "find (\<lambda>w. w \<noteq> [] \<and> starts_with s w) ws = None"
    using assms by (auto simp: find_None_iff list_all_iff starts_with_iff)
  then show ?thesis by (simp add: strip.simps)
qed

lemma trim_key: "list_all key_char s \<Longrightarrow> trim s = s"
  by (simp add: trim_def trim_start_def trim_end_def strip_id white_not_key)

lemma lower_char_repo: "list_all repo_char s \<Longrightarrow> list_all repo_char (to_ascii_lowercase s)"
proof -
  have "repo_char (char_of ((of_char c :: nat) + 32))" if "is_ascii_uppercase c" for c
    using that by (simp add: repo_char_def is_ascii_alphanumeric_def is_ascii_lowercase_def is_ascii_uppercase_def)
  then show "list_all repo_char s \<Longrightarrow> list_all repo_char (to_ascii_lowercase s)"
    by (auto simp: list_all_iff to_ascii_lowercase_def)
qed

lemma lower_append [simp]: "to_ascii_lowercase (a @ b) = to_ascii_lowercase a @ to_ascii_lowercase b"
  by (simp add: to_ascii_lowercase_def)

lemma lower_idem [simp]: "to_ascii_lowercase (to_ascii_lowercase s) = to_ascii_lowercase s"
proof -
  have "of_char (char_of (n + 32 :: nat) :: char) = n + 32" if "n \<le> 90" for n :: nat using that by simp
  then show ?thesis by (auto simp: to_ascii_lowercase_def is_ascii_uppercase_def)
qed

lemma lower_Nil [simp]: "to_ascii_lowercase s = [] \<longleftrightarrow> s = []" "to_ascii_lowercase [] = []"
  by (simp_all add: to_ascii_lowercase_def)

lemma split_once_hit: "c \<notin> set a \<Longrightarrow> split_once c (a @ c # b) = Some (a, b)"
  by (induction a) auto

lemma split_on_none: "c \<notin> set a \<Longrightarrow> split_on c a = [a]"
  by (induction a) auto

lemma split_on_hit: "c \<notin> set a \<Longrightarrow> split_on c (a @ c # b) = a # split_on c b"
  by (induction a) auto

lemma repo_char_not [simp]: "\<not> repo_char (CHR '':'')" "\<not> repo_char (CHR ''/'')"
  by (simp_all add: repo_char_def is_ascii_alphanumeric_def is_ascii_lowercase_def is_ascii_uppercase_def is_ascii_digit_def)

lemma repo_set_not: "list_all repo_char s \<Longrightarrow> CHR '':'' \<notin> set s \<and> CHR ''/'' \<notin> set s"
  by (metis list_all_iff repo_char_not)

text \<open>
  A repo key is a normal form. Whatever \<^verbatim>\<open>build\<close> returns for a connector and a path is read back by
  \<^verbatim>\<open>parse\<close> unchanged, so keys from URLs and keys from messages compare as strings.
\<close>

theorem repo_key_roundtrip:
  assumes "repo_build connector path = Some key"
  shows "repo_parse key = Inr key"
proof -
  obtain ow re where ok: "connector \<noteq> []" "ow \<noteq> []" "re \<noteq> []"
      "list_all repo_char connector" "list_all repo_char ow" "list_all repo_char re"
    and key: "key = to_ascii_lowercase (connector @ '':'' @ ow @ ''/'' @ re)"
    using assms by (auto simp: repo_build_def split: list.splits if_splits)
  define a b c where "a = to_ascii_lowercase connector" and "b = to_ascii_lowercase ow" and "c = to_ascii_lowercase re"
  have k: "key = a @ CHR '':'' # b @ CHR ''/'' # c"
    using key by (simp add: a_def b_def c_def to_ascii_lowercase_def is_ascii_uppercase_def)
  have rc: "list_all repo_char a" "list_all repo_char b" "list_all repo_char c"
    using ok by (simp_all add: a_def b_def c_def lower_char_repo)
  have ne: "a \<noteq> []" "b \<noteq> []" "c \<noteq> []" using ok by (simp_all add: a_def b_def c_def)
  have "list_all key_char key" using rc by (auto simp: k list_all_iff key_char_def)
  then have "split_once (CHR '':'') (trim key) = Some (a, b @ CHR ''/'' # c)"
    using repo_set_not [OF rc(1)] by (simp add: trim_key k split_once_hit)
  moreover have "split_on (CHR ''/'') (b @ CHR ''/'' # c) = [b, c]"
    using repo_set_not [OF rc(2)] repo_set_not [OF rc(3)] by (simp add: split_on_hit split_on_none)
  moreover have "to_ascii_lowercase key = key" using key by simp
  ultimately show ?thesis using rc ne by (simp add: repo_parse_def repo_build_def key_or_def k)
qed

section \<open>Witnesses\<close>

definition wit_repo :: "string \<Rightarrow> nat \<Rightarrow> nat project" where
  "wit_repo name created =
     \<lparr>pj_name = Some name, pj_uid = None, pj_generation = None, pj_created = Some created, pj_deleting = False,
      pj_annotations = [],
      pj_spec = \<lparr>ps_owner = ''ann'', ps_display_name = [],
        ps_repositories = [\<lparr>rep_url = ''https://github.com/a/B.git'', rep_connector = ''github'', rep_default_branch = ''main''\<rparr>],
        ps_run_mode = Worktree, ps_triggers = \<lparr>tr_issues = True, tr_change_requests = True, tr_mentions = True\<rparr>,
        ps_sandbox = \<lparr>ss_image = [], ss_storage = [], ss_resources = JObj [], ss_cpu = None, ss_memory = None\<rparr>,
        ps_max_runs = None\<rparr>,
      pj_status = None\<rparr>"

theorem repo_key_roundtrip_witness:
  "repo_build ''github'' ''a/B'' = Some ''github:a/b'' \<and> repo_parse ''github:a/b'' = Inr ''github:a/b''"
proof -
  have "repo_build ''github'' ''a/B'' = Some ''github:a/b''" by code_simp
  then show ?thesis using repo_key_roundtrip by blast
qed

theorem repo_exclusive_witness:
  "(conflict_winner (wit_repo ''x'' 1) [wit_repo ''x'' 1, wit_repo ''y'' 2],
    conflict_winner (wit_repo ''y'' 2) [wit_repo ''x'' 1, wit_repo ''y'' 2]) \<noteq> (None, None)"
proof -
  have "''github:a/b'' \<in> repo_keys (wit_repo n t)" for n t
  proof -
    have "repo_from_connector_url ''github'' ''https://github.com/a/B.git'' = Inr ''github:a/b''" by code_simp
    then show ?thesis by (simp add: repo_keys_def ordered_repo_keys_def wit_repo_def List.map_filter_def)
  qed
  then have "conflict_winner (wit_repo ''x'' 1) [wit_repo ''x'' 1, wit_repo ''y'' 2] \<noteq> None
      \<or> conflict_winner (wit_repo ''y'' 2) [wit_repo ''x'' 1, wit_repo ''y'' 2] \<noteq> None"
    by (intro repo_exclusive) (simp_all add: wit_repo_def project_name_def)
  then show ?thesis by simp
qed

theorem repo_winner_oldest_witness:
  "conflict_winner (wit_repo ''y'' 2) [wit_repo ''x'' 1, wit_repo ''y'' 2] = Some (''github:a/b'', wit_repo ''x'' 1)
   \<and> competes (wit_repo ''y'' 2) (wit_repo ''x'' 1)"
proof -
  have "conflict_winner (wit_repo ''y'' 2) [wit_repo ''x'' 1, wit_repo ''y'' 2] = Some (''github:a/b'', wit_repo ''x'' 1)"
    by code_simp
  then show ?thesis using repo_winner_oldest by blast
qed

end
