(* ===== verification/Desired_Props.thy ===== *)
theory Desired_Props
  imports Desired Project_Props
begin

text \<open>
  The objects of a Project: their names fit Kubernetes and never clash, memory sizes are read
  back from their canonical form, a derived request never exceeds its limit, and a validated Docker
  configuration builds every sandbox.
\<close>

section \<open>Names\<close>

text \<open>
  C35: the names of a valid Project's objects are labels of at most 63 characters, and two Projects of
  different names share none of them (of the same kind of object).
\<close>

theorem names_fit:
  assumes "validate_project p d = Inr ()"
  shows "(\<forall>n\<in>{sandbox_name p, auth_secret_name p, workspace_pvc_name p, docker_pvc_name p, network_policy_name p}.
      length n \<le> 63 \<and> list_all dns_char n \<and> hd n \<noteq> CHR ''-'' \<and> last n \<noteq> CHR ''-'')
    \<and> (project_name q \<noteq> project_name p \<longrightarrow>
        sandbox_name q \<noteq> sandbox_name p \<and> auth_secret_name q \<noteq> auth_secret_name p
        \<and> {workspace_pvc_name q, docker_pvc_name q} \<inter> {workspace_pvc_name p, docker_pvc_name p} = {})"
proof -
  have ok: "dns_label (project_name p) = Inr ()" "project_name p \<noteq> []"
    using assms by (auto simp: validate_project_def Let_def split: if_splits sum.splits)
  then have n: "length (project_name p) \<le> 50" "list_all dns_char (project_name p)" "last (project_name p) \<noteq> CHR ''-''"
    by (auto simp: dns_label_def MAX_PROJECT_NAME_LEN_def ends_with_def split: if_splits)
      (metis append_butlast_last_id rev.simps(2) rev_append rev_rev_ident starts_with_iff append_Cons append_Nil rev_singleton_conv)
  have c: "list_all dns_char ''sb-''" "list_all dns_char ''-auth''" "list_all dns_char ''-workspace''" "list_all dns_char ''-docker''"
    by code_simp+
  have "x @ ''-workspace'' \<noteq> y @ ''-docker''" for x y :: string
  proof
    assume "x @ ''-workspace'' = y @ ''-docker''"
    then have "last (x @ ''-workspace'') = last (y @ ''-docker'')" by simp
    then show False by simp
  qed
  then have "workspace_pvc_name a \<noteq> docker_pvc_name b" for a b :: "'a project"
    by (simp add: workspace_pvc_name_def docker_pvc_name_def)
  then show ?thesis using n ok(2) c
    by (auto simp: sandbox_name_def sandbox_name_for_def auth_secret_name_def workspace_pvc_name_def docker_pvc_name_def network_policy_name_def)
qed

section \<open>Sizes\<close>

lemma show_uint_length: "n < 10 ^ Suc k \<Longrightarrow> length (show_uint n) \<le> Suc k"
proof (induction k arbitrary: n)
  case 0
  then show ?case by (simp add: show_uint.simps [of n])
next
  case (Suc k)
  have "n div 10 < 10 ^ Suc k" using Suc.prems by (simp add: div_less_iff_less_mult)
  then show ?case using Suc.IH by (simp add: show_uint.simps [of n])
qed

lemma show_uint_hd: "0 < n \<Longrightarrow> hd (show_uint n) \<noteq> CHR ''0''"
proof (induction n rule: show_uint.induct)
  case (1 n)
  show ?case
  proof (cases "n < 10")
    case True
    then have "(of_char (char_of (48 + n) :: char) :: int) \<noteq> of_char (CHR ''0'')" using digit_value [of n] 1(2) by simp
    then have "(char_of (48 + n) :: char) \<noteq> CHR ''0''" by metis
    then show ?thesis using True by (simp add: show_uint.simps [of n])
  next
    case False
    then have "hd (show_uint n) = hd (show_uint (n div 10))" by (simp add: show_uint.simps [of n])
    then show ?thesis using 1(1) False by simp
  qed
qed

lemma parse_show: "0 \<le> n \<Longrightarrow> n \<le> limit \<Longrightarrow> parse_unsigned limit (show_uint n) = Some n"
proof -
  assume n: "0 \<le> n" "n \<le> limit"
  obtain c r where cr: "show_uint n = c # r" by (meson neq_Nil_conv show_uint_not_Nil)
  have "is_ascii_digit c" using show_uint_digits [OF n(1)] cr by simp
  then have "c \<noteq> CHR ''+''" by (auto simp: is_ascii_digit_def)
  then show ?thesis using n cr all_digits_show [OF n(1)] int_of_digits_show [OF n(1)]
    by (simp add: parse_unsigned_def)
qed

lemma strip_suffix_append [simp]: "strip_suffix (a @ p) p = Some a"
  by (auto simp: strip_suffix_def ends_with_iff)

lemma strip_Gi_Mi [simp]: "strip_suffix (a @ ''Mi'') ''Gi'' = None"
  by (auto simp: strip_suffix_def ends_with_iff)

lemma digits_ok:
  assumes "0 < n" and "n < 10 ^ 12"
  shows "\<not> (show_uint n = [] \<or> starts_with (show_uint n) ''0'' \<or> length (show_uint n) > 12 \<or> \<not> list_all is_ascii_digit (show_uint n))"
proof -
  have "length (show_uint n) \<le> Suc 11" using assms(2) by (intro show_uint_length) simp
  moreover have "\<not> starts_with (show_uint n) ''0''" using show_uint_hd [OF assms(1)] by (auto simp: starts_with_iff)
  ultimately show ?thesis using show_uint_digits assms(1) by simp
qed

text \<open>
  A memory size in range is read back from its canonical form, and so is one that was written
  in another accepted form.
\<close>

theorem memory_roundtrip:
  "parse_memory_mi s = Some mi \<Longrightarrow> parse_memory_mi (render_mi mi) = Some mi"
proof -
  have range: "parse_memory_mi t = Some n \<Longrightarrow> 512 \<le> n \<and> n \<le> 262144" for t n
    by (auto simp: parse_memory_mi_def MIN_MEMORY_MI_def MAX_MEMORY_MI_def bind_eq_Some_conv split: option.splits if_splits prod.splits)
  have Mi: "parse_memory_mi (show_int n @ ''Mi'') = Some n" if "512 \<le> n" "n \<le> 262144" for n
    using that digits_ok [of n] parse_show [of n U64_MAX]
    by (simp add: parse_memory_mi_def show_int_def MIN_MEMORY_MI_def MAX_MEMORY_MI_def U64_MAX_def)
  have Gi: "parse_memory_mi (show_int n @ ''Gi'') = Some (n * 1024)" if "1 \<le> n" "n \<le> 256" for n
    using that digits_ok [of n] parse_show [of n U64_MAX]
    by (simp add: parse_memory_mi_def show_int_def MIN_MEMORY_MI_def MAX_MEMORY_MI_def U64_MAX_def)
  assume "parse_memory_mi s = Some mi"
  then have r: "512 \<le> mi" "mi \<le> 262144" using range by blast+
  show ?thesis
  proof (cases "mi mod 1024 = 0")
    case True
    then obtain k where k: "mi = k * 1024" by (metis mod_0_imp_dvd dvd_def mult.commute)
    then show ?thesis using Gi [of k] r True by (simp add: render_mi_def)
  next
    case False
    then show ?thesis using Mi [OF r] by (simp add: render_mi_def)
  qed
qed

section \<open>Requests and limits\<close>

lemma clamp_other: "k \<noteq> key \<Longrightarrow> map_of (clamp_request L key R) k = map_of R k"
  by (simp add: clamp_request_def split: option.split)

lemma clamp_le:
  assumes "map_of L key = Some l" and "map_of (clamp_request L key R) key = Some r"
    and "json_milli l = Some lm" and "json_milli r = Some rm"
  shows "rm \<le> lm"
  using assms by (auto simp: clamp_request_def split: option.splits if_splits)

text \<open>
  When a CPU or memory size is set, no request of the sandbox container exceeds its limit, also
  with explicit resources that override one of the two.
\<close>

theorem requests_within_limits:
  assumes "valid_cpu sb \<noteq> None \<or> Option.bind (ss_memory sb) parse_memory_mi \<noteq> None" and "ss_resources sb = JObj m"
    and "key = ''cpu'' \<or> key = ''memory''"
    and "Option.bind (jget ''limits'' (sandbox_resources sb)) (jget key) = Some l"
    and "Option.bind (jget ''requests'' (sandbox_resources sb)) (jget key) = Some r"
    and "json_milli l = Some lm" and "json_milli r = Some rm"
  shows "rm \<le> lm"
proof -
  define L where "L = bt_extend (derived_limits (valid_cpu sb) (Option.bind (ss_memory sb) parse_memory_mi)) (object_entries ''limits'' (JObj m))"
  define R where "R = bt_extend (derived_requests (valid_cpu sb) (Option.bind (ss_memory sb) parse_memory_mi)) (object_entries ''requests'' (JObj m))"
  have "sandbox_resources sb =
      jset ''requests'' (JObj (clamp_request L ''memory'' (clamp_request L ''cpu'' R))) (jset ''limits'' (JObj L) (JObj m))"
    using assms(1,2) by (auto simp: sandbox_resources_def Let_def L_def R_def)
  then have "map_of L key = Some l" "map_of (clamp_request L ''memory'' (clamp_request L ''cpu'' R)) key = Some r"
    using assms(4,5) by (simp_all add: jset_def)
  then show ?thesis using assms(3,6,7) clamp_le [of L "''cpu''"] clamp_le [of L "''memory''"] clamp_other [of "''cpu''" "''memory''" L]
    by auto
qed

lemma validated_profile:
  assumes "docker_validate cfg = Inr ()"
  shows "docker_profile cfg \<noteq> None"
  using assms by (auto simp: docker_validate_def docker_profile_def Let_def filter_empty_conv split: if_splits)

lemma validated_sandbox: "docker_validate (df_docker d) = Inr () \<Longrightarrow> sandbox ctl_ref p d \<noteq> None \<and> sandbox_pod_spec p d \<noteq> None"
  by (auto simp: sandbox_def sandbox_pod_spec_def dest!: validated_profile)

section \<open>Witnesses\<close>

definition wit_sb :: sandbox_spec where
  "wit_sb = \<lparr>ss_image = ''i'', ss_storage = [], ss_resources = JObj [(''limits'', JObj [(''memory'', JStr ''300Mi'')])],
     ss_cpu = None, ss_memory = Some ''2Gi''\<rparr>"

theorem requests_within_limits_witness:
  "\<exists>rm. Option.bind (Option.bind (jget ''requests'' (sandbox_resources wit_sb)) (jget ''memory'')) json_milli = Some rm \<and> rm \<le> 314572800000"
proof -
  have "valid_cpu wit_sb \<noteq> None \<or> Option.bind (ss_memory wit_sb) parse_memory_mi \<noteq> None" by code_simp
  moreover have "ss_resources wit_sb = JObj [(''limits'', JObj [(''memory'', JStr ''300Mi'')])]" by (simp add: wit_sb_def)
  moreover have "Option.bind (jget ''limits'' (sandbox_resources wit_sb)) (jget ''memory'') = Some (JStr ''300Mi'')" by code_simp
  moreover have r: "Option.bind (jget ''requests'' (sandbox_resources wit_sb)) (jget ''memory'') = Some (JStr ''300Mi'')" by code_simp
  moreover have m: "json_milli (JStr ''300Mi'') = Some 314572800000" by code_simp
  ultimately have "(314572800000::int) \<le> 314572800000" by (intro requests_within_limits [OF _ _ disjI2 [OF refl]])
  then show ?thesis by (simp add: r m)
qed

theorem memory_roundtrip_witness: "parse_memory_mi ''2048Mi'' = Some 2048 \<and> parse_memory_mi (render_mi 2048) = Some 2048"
proof -
  have "parse_memory_mi ''2048Mi'' = Some 2048" by code_simp
  then show ?thesis using memory_roundtrip by blast
qed

definition wit_named :: "string \<Rightarrow> nat project" where
  "wit_named n = (wit_repo n 1)\<lparr>pj_spec := (pj_spec (wit_repo n 1))\<lparr>ps_sandbox := wit_sb\<rparr>\<rparr>"

definition wit_df :: defaults where
  "wit_df = \<lparr>df_sandbox_image = [], df_storage = ''1Gi'', df_namespace = ''ns'', df_service_account = ''sa'',
     df_netpol = for_release_namespace ''ns'', df_docker = docker_new [''kata''] ''kata'' ''1Gi''\<rparr>"

theorem names_fit_witness:
  "length (workspace_pvc_name (wit_named ''a'')) \<le> 63 \<and> auth_secret_name (wit_named ''a-auth'') \<noteq> auth_secret_name (wit_named ''a'')"
proof -
  have "validate_project (wit_named ''a'') wit_df = Inr ()" "project_name (wit_named ''a-auth'') \<noteq> project_name (wit_named ''a'')"
    by code_simp+
  then show ?thesis using names_fit [of "wit_named ''a''" wit_df "wit_named ''a-auth''"] by simp
qed

end
