(* ===== verification/Reconcile_Props.thy ===== *)
theory Reconcile_Props
  imports Reconcile Roll_Props Desired_Props
begin

text \<open>
  What a pass guarantees: it touches only objects that are absent or controlled by this Project
  instance, the network policy first; it advertises a sandbox only after every ownership check;
  a pending change is only replaced by the outcome of the roll step; and the merge patch makes the
  stored status the computed one.
\<close>

section \<open>Sequencing\<close>

lemma and_then_cases:
  assumes "and_then r k = (f, ps')"
  obtains (more) ps1 where "r = (Continue, ps1)" "k ps1 = (f, ps')" | (stop) "r = (f, ps')" "f \<noteq> Continue"
  using assms by (cases r; cases "fst r") (auto simp: and_then_def)

lemma and_then_keeps:
  assumes "\<And>f ps'. r = (f, ps') \<Longrightarrow> good ps'" and "\<And>ps1 f ps'. good ps1 \<Longrightarrow> k ps1 = (f, ps') \<Longrightarrow> good ps'"
    and "and_then r k = (f, ps')"
  shows "good ps'"
  using assms(3) by (cases rule: and_then_cases) (use assms(1,2) in blast)+

lemmas step_defs = res_err_def sb_err_def set_resources_def set_sandbox_def log_request_def Let_def

text \<open>A property of a pass that every step keeps is kept by \<^verbatim>\<open>drive\<close>.\<close>

locale drive_invariant =
  fixes p :: "('t::linorder) project" and d :: defaults and cl :: "'t cluster" and timeout :: u64 and good :: "'t pass \<Rightarrow> bool"
  assumes policy_good: "good ps \<Longrightarrow> drive_policy p d cl ps = (f, ps') \<Longrightarrow> good ps'"
    and secret_good: "good ps \<Longrightarrow> drive_secret p d cl ps = (f, ps') \<Longrightarrow> good ps'"
    and pvcs_good: "good ps \<Longrightarrow> drive_pvcs p cl xs resizing ps = (f, ps') \<Longrightarrow> good ps'"
    and sandbox_good: "good ps \<Longrightarrow> drive_sandbox p d cl timeout ps = (f, ps') \<Longrightarrow> good ps'"
begin

lemma drive_good: "good ps \<Longrightarrow> drive p d cl timeout ps = (f, ps') \<Longrightarrow> good ps'"
  unfolding drive_def
  by (erule and_then_keeps [rotated 2], erule and_then_keeps [rotated 2], erule and_then_keeps [rotated 2])
    (rule policy_good secret_good pvcs_good sandbox_good; assumption)+

end

section \<open>Requests\<close>

definition free :: "kube_error + object_meta option \<Rightarrow> 't project \<Rightarrow> bool" where
  "free answer p \<longleftrightarrow> existing_of answer p \<in> {Inr E_Absent, Inr E_Mine}"

definition request_ok :: "'t project \<Rightarrow> 't cluster \<Rightarrow> api_request \<Rightarrow> bool" where
  "request_ok p cl r =
     (case r of
        Rq_Policy n _ \<Rightarrow> n = network_policy_name p \<and> free (cl_policy cl) p
      | Rq_Secret n _ \<Rightarrow> n = auth_secret_name p \<and> cl_secret cl = Inr None
      | Rq_Pvc n _ \<Rightarrow> free (cl_pvc cl n) p
      | Rq_Sandbox n _ \<Rightarrow> n = sandbox_name p \<and> free (cl_sandbox cl) p
      | Rq_DeletePod uid \<Rightarrow> (\<exists>pod. cl_pod cl = Inr (Some pod) \<and> pod_uid pod = uid \<and> \<not> pod_deleting pod) \<and> free (cl_sandbox cl) p)"

definition log_ok :: "'t project \<Rightarrow> 't cluster \<Rightarrow> 't pass \<Rightarrow> bool" where
  "log_ok p cl ps \<longleftrightarrow> (\<forall>r\<in>set (dv_log ps). request_ok p cl r)"

lemma free_cases: "existing_of answer p = Inr E_Absent \<Longrightarrow> answer = Inr None"
  by (auto simp: existing_of_def split: sum.splits option.splits ownership.splits)

lemma policy_log: "log_ok p cl ps \<Longrightarrow> drive_policy p d cl ps = (f, ps') \<Longrightarrow> log_ok p cl ps'"
  by (auto simp: drive_policy_def step_defs log_ok_def request_ok_def free_def split: sum.splits existing.splits)

lemma secret_log: "log_ok p cl ps \<Longrightarrow> drive_secret p d cl ps = (f, ps') \<Longrightarrow> log_ok p cl ps'"
  by (auto simp: drive_secret_def step_defs log_ok_def request_ok_def dest!: free_cases
      split: sum.splits existing.splits kube_error.splits if_splits)

lemma pvcs_log: "log_ok p cl ps \<Longrightarrow> drive_pvcs p cl xs resizing ps = (f, ps') \<Longrightarrow> log_ok p cl ps'"
proof (induction p cl xs resizing ps rule: drive_pvcs.induct)
  case (2 p cl what name obj rest resizing ps)
  show ?case
  proof (cases "free (cl_pvc cl name) p")
    case True
    then have log: "log_ok p cl (log_request (Rq_Pvc name obj) ps)"
      using 2(3) by (simp add: log_ok_def log_request_def request_ok_def)
    then have log': "log_ok p cl (set_resources c (log_request (Rq_Pvc name obj) ps))" for c
      by (simp add: log_ok_def set_resources_def)
    have e: "existing_of (cl_pvc cl name) p = Inr E_Absent \<or> existing_of (cl_pvc cl name) p = Inr E_Mine"
      using True by (auto simp: free_def)
    show ?thesis
    proof (cases "cl_pvc_patch cl name")
      case (Inl e)
      then show ?thesis using 2(4) \<open>existing_of _ _ = _ \<or> _\<close> log' by (auto simp: res_err_def Let_def split: option.splits)
    next
      case (Inr applied)
      then show ?thesis using 2(4) e log 2(1,2) by (auto simp: Let_def)
    qed
  next
    case False
    then show ?thesis using 2(3,4) by (auto simp: free_def res_err_def set_resources_def log_ok_def split: sum.splits existing.splits)
  qed
qed (auto simp: step_defs log_ok_def)

lemma roll_step_request:
  assumes "roll_step J print ann want img tmpl get delete pending timeout now = (res, Some uid)"
  shows "\<exists>pod. get = Inr (Some pod) \<and> pod_uid pod = uid \<and> \<not> pod_deleting pod"
proof -
  obtain pod where get: "get = Inr pod" using assms by (auto simp: roll_step_def split: sum.splits)
  define i where "i = roll_input_of print ann want tmpl pod pending timeout now"
  have "\<exists>c w. decide J i = Roll c w \<and> uid = Option.bind pod pod_uid"
    using assms get by (auto simp: roll_step_def i_def Let_def split: decision.splits sum.splits kube_error.splits if_splits)
  then obtain t where "ri_pod i = Running t" "uid = Option.bind pod pod_uid"
    by (auto simp: decide_def split: pod_state.splits if_splits)
  then show ?thesis using get by (auto simp: i_def roll_input_of_def Let_def pod_state_of_def split: option.splits if_splits)
qed

lemma roll_log: "log_ok p cl ps \<Longrightarrow> free (cl_sandbox cl) p \<Longrightarrow> drive_roll p d cl timeout sb want ps = (f, ps') \<Longrightarrow> log_ok p cl ps'"
  by (auto simp: drive_roll_def Let_def log_request_def log_ok_def request_ok_def dest!: roll_step_request
      split: prod.splits option.splits sum.splits)

lemma sandbox_log:
  assumes "log_ok p cl ps" and "drive_sandbox p d cl timeout ps = (f, ps')"
  shows "log_ok p cl ps'"
proof (cases "free (cl_sandbox cl) p")
  case True
  then have "log_ok p cl (log_request (Rq_Sandbox (sandbox_name p) obj) ps)" for obj
    using assms(1) by (simp add: log_ok_def log_request_def request_ok_def)
  then have *: "log_ok p cl (set_sandbox c (log_request (Rq_Sandbox (sandbox_name p) obj) ps))"
      "log_ok p cl (set_sandbox c ((log_request (Rq_Sandbox (sandbox_name p) obj) ps)\<lparr>dv_status := s\<rparr>))" for c obj s
    by (simp_all add: log_ok_def set_sandbox_def)
  have "existing_of (cl_sandbox cl) p = Inr E_Absent \<or> existing_of (cl_sandbox cl) p = Inr E_Mine"
    using True by (auto simp: free_def)
  then show ?thesis using assms *(1) roll_log [OF *(2) True]
    by (auto simp: drive_sandbox_def sb_err_def Let_def split: option.splits sum.splits)
next
  case False
  then show ?thesis using assms
    by (auto simp: drive_sandbox_def free_def sb_err_def set_sandbox_def log_ok_def Let_def split: sum.splits existing.splits)
qed

interpretation owned: drive_invariant p d cl timeout "log_ok p cl" for p d cl timeout
  by unfold_locales (blast intro: policy_log secret_log pvcs_log sandbox_log)+

definition log_extends :: "'t pass \<Rightarrow> 't pass \<Rightarrow> bool" where
  "log_extends ps ps' \<longleftrightarrow> (\<exists>l. dv_log ps' = dv_log ps @ l)"

lemma extends_intros [intro]:
  "log_extends ps ps" "log_extends ps (set_resources c ps)" "log_extends ps (set_sandbox c ps)" "log_extends ps (log_request r ps)"
  "log_extends ps (ps\<lparr>dv_status := s\<rparr>)" "log_extends ps (ps\<lparr>dv_roll := ro\<rparr>)"
  by (auto simp: log_extends_def set_resources_def set_sandbox_def log_request_def)

lemma log_extends_trans: "log_extends a b \<Longrightarrow> log_extends b c \<Longrightarrow> log_extends a c"
  by (auto simp: log_extends_def)

lemma secret_extends: "drive_secret p d cl ps = (f, ps') \<Longrightarrow> log_extends ps ps'"
  by (auto simp: drive_secret_def step_defs log_extends_def split: sum.splits existing.splits kube_error.splits if_splits)

lemma pvcs_extends: "drive_pvcs p cl xs resizing ps = (f, ps') \<Longrightarrow> log_extends ps ps'"
proof (induction p cl xs resizing ps rule: drive_pvcs.induct)
  case (2 p cl what name obj rest resizing ps)
  have l: "log_extends (log_request (Rq_Pvc name obj) ps) ps' \<Longrightarrow> log_extends ps ps'" by (auto intro: log_extends_trans)
  show ?case
  proof (cases "cl_pvc_patch cl name")
    case (Inl e)
    then show ?thesis using 2(3) by (auto simp: step_defs log_extends_def split: sum.splits existing.splits option.splits)
  next
    case (Inr applied)
    then show ?thesis using 2(3) 2(1,2) l
      by (auto simp: res_err_def Let_def split: sum.splits existing.splits)
  qed
qed auto

lemma roll_extends: "drive_roll p d cl timeout sb want ps = (f, ps') \<Longrightarrow> log_extends ps ps'"
  by (auto simp: drive_roll_def Let_def log_request_def log_extends_def split: prod.splits option.splits sum.splits)

lemma sandbox_extends:
  assumes "drive_sandbox p d cl timeout ps = (f, ps')"
  shows "log_extends ps ps'"
proof -
  have "log_extends ps ps'" if "drive_roll p d cl timeout sb want (set_sandbox c ((log_request r ps)\<lparr>dv_status := s\<rparr>)) = (f, ps')" for sb want c r s
    using roll_extends [OF that] by (auto simp: log_extends_def set_sandbox_def log_request_def)
  then show ?thesis using assms
    by (auto simp: drive_sandbox_def sb_err_def Let_def log_extends_def set_sandbox_def log_request_def
        split: option.splits sum.splits existing.splits)
qed

section \<open>What is advertised\<close>

definition same_status :: "'t pass \<Rightarrow> 't pass \<Rightarrow> bool" where
  "same_status ps ps' \<longleftrightarrow> dv_status ps' = dv_status ps \<and> dv_roll ps' = dv_roll ps"

lemma policy_same: "drive_policy p d cl ps = (f, ps') \<Longrightarrow> same_status ps ps' \<and> (f = Continue \<longrightarrow> free (cl_policy cl) p)"
  by (auto simp: drive_policy_def step_defs same_status_def free_def split: sum.splits existing.splits)

lemma secret_same: "drive_secret p d cl ps = (f, ps') \<Longrightarrow> same_status ps ps' \<and> (f = Continue \<longrightarrow> free (cl_secret cl) p)"
  by (auto simp: drive_secret_def step_defs same_status_def free_def split: sum.splits existing.splits kube_error.splits if_splits)

lemma pvcs_same:
  "drive_pvcs p cl xs resizing ps = (f, ps') \<Longrightarrow>
     same_status ps ps' \<and> (f = Continue \<longrightarrow> (\<forall>x\<in>set xs. free (cl_pvc cl (fst (snd x))) p))"
proof (induction p cl xs resizing ps rule: drive_pvcs.induct)
  case (2 p cl what name obj rest resizing ps)
  have s: "same_status (log_request r ps) ps' \<Longrightarrow> same_status ps ps'" for r by (simp add: same_status_def log_request_def)
  show ?case
  proof (cases "cl_pvc_patch cl name")
    case (Inl e)
    then show ?thesis using 2(3) by (auto simp: step_defs same_status_def split: sum.splits existing.splits option.splits)
  next
    case (Inr applied)
    then show ?thesis using 2(3) 2(1,2) s
      by (auto simp: res_err_def set_resources_def same_status_def free_def Let_def split: sum.splits existing.splits)
  qed
qed (auto simp: same_status_def set_resources_def)

definition all_owned :: "'t project \<Rightarrow> 't cluster \<Rightarrow> bool" where
  "all_owned p cl \<longleftrightarrow> free (cl_policy cl) p \<and> free (cl_secret cl) p \<and> free (cl_pvc cl (workspace_pvc_name p)) p
     \<and> free (cl_pvc cl (docker_pvc_name p)) p \<and> free (cl_sandbox cl) p"

definition advertise :: "'t project \<Rightarrow> defaults \<Rightarrow> 't project_status \<Rightarrow> 't project_status" where
  "advertise p d s = s\<lparr>pst_namespace := Some (df_namespace d), pst_sandbox := Some (sandbox_status_of p d)\<rparr>"

definition rolled_by :: "('t::linorder) project \<Rightarrow> defaults \<Rightarrow> 't cluster \<Rightarrow> u64 \<Rightarrow> 't outcome \<Rightarrow> bool" where
  "rolled_by p d cl timeout out \<longleftrightarrow>
     (\<exists>want template req. sandbox_pod_spec p d = Some want \<and>
        roll_step (cl_clock cl) (cl_print cl) (pj_annotations p) want (project_image p d) template (cl_pod cl)
          (cl_pod_delete cl) (Option.bind (pj_status p) pst_pending_change) timeout (cl_roll_now cl) = (Inr out, req))"

lemma sandbox_same:
  assumes "drive_sandbox p d cl timeout ps = (f, ps')"
  shows "(dv_status ps' = dv_status ps \<or> free (cl_sandbox cl) p \<and> dv_status ps' = advertise p d (dv_status ps))
    \<and> (dv_roll ps' = dv_roll ps \<or> dv_roll ps' = Keep \<or> f = Continue \<and> rolled_by p d cl timeout (dv_roll ps'))"
proof (cases "free (cl_sandbox cl) p")
  case True
  have roll: "dv_status ps' = dv_status ps0 \<and> (dv_roll ps' = Keep \<or> f = Continue \<and> rolled_by p d cl timeout (dv_roll ps'))"
    if "drive_roll p d cl timeout sb want ps0 = (f, ps')" "sandbox_pod_spec p d = Some want" for sb want ps0
    using that by (auto simp: drive_roll_def rolled_by_def log_request_def Let_def split: prod.splits option.splits sum.splits)
  have "existing_of (cl_sandbox cl) p = Inr E_Absent \<or> existing_of (cl_sandbox cl) p = Inr E_Mine"
    using True by (auto simp: free_def)
  then show ?thesis using assms True
    by (auto simp: drive_sandbox_def sb_err_def set_sandbox_def log_request_def advertise_def Let_def
        split: option.splits sum.splits dest!: roll)
next
  case False
  then show ?thesis using assms
    by (auto simp: drive_sandbox_def free_def sb_err_def set_sandbox_def Let_def split: sum.splits existing.splits)
qed

lemma drive_same:
  assumes "drive p d cl timeout ps = (f, ps')"
  shows "(dv_status ps' = dv_status ps \<or> all_owned p cl \<and> dv_status ps' = advertise p d (dv_status ps))
    \<and> (dv_roll ps' = dv_roll ps \<or> dv_roll ps' = Keep \<or> f = Continue \<and> rolled_by p d cl timeout (dv_roll ps'))"
  using assms unfolding drive_def
proof (cases rule: and_then_cases)
  case (more ps3)
  from more(1) obtain ps2 where 2: "and_then (drive_policy p d cl ps) (drive_secret p d cl) = (Continue, ps2)"
    and pv: "drive_pvcs p cl [(''workspace PVC'', workspace_pvc_name p, pvc (cl_ctl_ref cl) p d),
       (''docker PVC'', docker_pvc_name p, docker_pvc (cl_ctl_ref cl) p d)] None ps2 = (Continue, ps3)"
    by (cases rule: and_then_cases) auto
  from 2 obtain ps1 where 1: "drive_policy p d cl ps = (Continue, ps1)" "drive_secret p d cl ps1 = (Continue, ps2)"
    by (cases rule: and_then_cases) auto
  show ?thesis
    using policy_same [OF 1(1)] secret_same [OF 1(2)] pvcs_same [OF pv] sandbox_same [OF more(2)]
    by (auto simp: same_status_def all_owned_def)
next
  case stop
  from stop(1) show ?thesis
  proof (cases rule: and_then_cases)
    case (more ps2)
    from more(1) obtain ps1 where "drive_policy p d cl ps = (Continue, ps1)" "drive_secret p d cl ps1 = (Continue, ps2)"
      by (cases rule: and_then_cases) auto
    then show ?thesis using policy_same secret_same pvcs_same [OF more(2)] unfolding same_status_def by metis
  next
    case stop
    from stop(1) show ?thesis
      by (cases rule: and_then_cases) (use policy_same secret_same same_status_def in metis)+
  qed
qed

section \<open>The stored status\<close>

definition stored_status :: "'t project \<Rightarrow> 't status_patch option \<Rightarrow> 't project_status" where
  "stored_status p b = (case b of None \<Rightarrow> old_status p | Some body \<Rightarrow> apply_patch (old_status p) body)"

definition merged_status :: "'t project \<Rightarrow> 't project_status \<Rightarrow> observed \<Rightarrow> 't outcome \<Rightarrow> 't \<Rightarrow> 't project_status" where
  "merged_status p status obs roll now = snd (merge_status (old_status p) (computed_status p status obs roll now) obs)"

lemma bind_old:
  "Option.bind (pj_status p) pst_last_roll = pst_last_roll (old_status p)"
  "Option.bind (pj_status p) pst_pending_change = pst_pending_change (old_status p)"
  by (simp_all add: old_status_def status_default_def split: option.split)

lemma computed_fields:
  "pst_observed_generation (computed_status p status obs roll now) = pst_observed_generation status"
  "pst_namespace (computed_status p status obs roll now) = pst_namespace status"
  "pst_sandbox (computed_status p status obs roll now) = pst_sandbox status"
  "pst_last_roll (computed_status p status obs roll now) = next_last_roll (pst_last_roll (old_status p)) roll"
  "pst_pending_change (computed_status p status obs roll now) =
     (case roll of Clear \<Rightarrow> None | Keep \<Rightarrow> pst_pending_change (old_status p) | Pending r \<Rightarrow> Some (rp_change r))"
  by (simp_all add: computed_status_def Let_def bind_old split: outcome.split)

lemma next_last_roll_None: "next_last_roll old roll = None \<Longrightarrow> old = None"
  by (simp add: next_last_roll_def split: outcome.splits option.splits)

lemma patch_to_patch [simp]:
  "(null \<Longrightarrow> v = None) \<Longrightarrow> (v = None \<Longrightarrow> \<not> null \<Longrightarrow> old = None) \<Longrightarrow> patch_field old (to_patch null v) = v"
  by (auto simp: to_patch_def split: option.split)

lemma stored_write:
  assumes "pst_observed_generation status \<noteq> None"
  shows "stored_status p (write_status p status obs roll now) = merged_status p status obs roll now"
proof -
  define m where "m = merge_status (old_status p) (computed_status p status obs roll now) obs"
  have m: "pst_observed_generation (snd m) \<noteq> None" "pst_last_roll (snd m) = None \<Longrightarrow> pst_last_roll (old_status p) = None"
    "fst m \<Longrightarrow> pst_namespace (snd m) = None" "\<not> fst m \<Longrightarrow> pst_namespace (snd m) = None \<Longrightarrow> pst_namespace (old_status p) = None"
    "fst m \<Longrightarrow> pst_sandbox (snd m) = None" "\<not> fst m \<Longrightarrow> pst_sandbox (snd m) = None \<Longrightarrow> pst_sandbox (old_status p) = None"
    using assms next_last_roll_None
    by (auto simp: m_def merge_status_def computed_fields split: if_splits option.splits)
  have "apply_patch (old_status p) (status_body (old_status p) (snd m) (fst m)) = snd m"
    by (rule project_status.equality)
      (use m in \<open>auto simp: apply_patch_def status_body_def intro!: patch_to_patch\<close>)
  then show ?thesis by (auto simp: stored_status_def write_status_def merged_status_def m_def [symmetric] Let_def split: prod.split)
qed


section \<open>The pass\<close>

lemma start_generation: "pst_observed_generation (dv_status (start_pass p)) = pj_generation p"
  by (simp add: start_pass_def)

text \<open>Every way through a pass ends in a status write of a pass record, or in a panic.\<close>

lemma apply_cases:
  assumes "apply_project p d cached cl timeout = (r, b, log)"
  obtains
    (early) msg where "log = []"
      "b = write_status p (dv_status (start_pass p)) (dv_obs (set_resources (Check_Invalid msg) (start_pass p))) Keep (cl_status_now cl)"
  | (driven) f ps where "drive p d cl timeout (start_pass p) = (f, ps)" "log = dv_log ps"
      "b = write_status p (dv_status ps) (dv_obs ps) (dv_roll ps) (cl_status_now cl)"
  | (panic) ps where "drive p d cl timeout (start_pass p) = (Panic, ps)" "log = dv_log ps" "b = None"
proof -
  have fp: "snd (finish_pass p cl ps res) = write_status p (dv_status ps) (dv_obs ps) (dv_roll ps) (cl_status_now cl)" for ps res
    by (simp add: finish_pass_def split: option.split)
  have sr: "dv_status (set_resources c ps) = dv_status ps" "dv_roll (set_resources c ps) = dv_roll ps" for c and ps :: "'a pass"
    by (simp_all add: set_resources_def)
  have k: "dv_roll (start_pass p) = Keep" by (simp add: start_pass_def)
  show ?thesis
  proof (cases "\<exists>msg res. finish_pass p cl (set_resources (Check_Invalid msg) (start_pass p)) res = (r, b) \<and> log = []")
    case True
    then show ?thesis using early fp by (metis sr k snd_conv)
  next
    case False
    obtain f ps where dr: "drive p d cl timeout (start_pass p) = (f, ps)" by fastforce
    then have "b = None \<and> f = Panic \<and> log = dv_log ps \<or> (\<exists>res. finish_pass p cl ps res = (r, b)) \<and> log = dv_log ps"
      using assms False
      by (auto simp: apply_project_def Let_def split: sum.splits option.splits step_end.splits prod.splits)
    then show ?thesis using dr driven panic fp by (metis snd_conv)
  qed
qed

lemma merged_sandbox:
  "pst_sandbox (merged_status p status obs roll now) = Some s \<Longrightarrow> pst_sandbox status = Some s \<or> pst_sandbox (old_status p) = Some s"
  by (auto simp: merged_status_def merge_status_def computed_fields split: if_splits option.splits)

lemma merged_pending:
  "pst_pending_change (merged_status p status obs roll now) =
     (case roll of Clear \<Rightarrow> None | Keep \<Rightarrow> pst_pending_change (old_status p) | Pending r \<Rightarrow> Some (rp_change r))"
  by (simp add: merged_status_def merge_status_def computed_fields)

lemma start_status [simp]: "pst_sandbox (dv_status (start_pass p)) = None" "dv_roll (start_pass p) = Keep" "dv_log (start_pass p) = []"
  by (simp_all add: start_pass_def status_default_def)

lemma stored_None [simp]: "stored_status p None = old_status p"
  by (simp add: stored_status_def)

lemma drive_generation:
  "drive p d cl timeout ps = (f, ps') \<Longrightarrow> pst_observed_generation (dv_status ps') = pst_observed_generation (dv_status ps)"
  using drive_same [of p d cl timeout ps f ps'] by (auto simp: advertise_def)

lemma stored_driven:
  assumes "pj_generation p \<noteq> None" and "drive p d cl timeout (start_pass p) = (f, ps)"
  shows "stored_status p (write_status p (dv_status ps) obs roll now) = merged_status p (dv_status ps) obs roll now"
  using assms drive_generation [OF assms(2)] by (intro stored_write) (simp add: start_generation)

text \<open>
  A sandbox is advertised only to its own Project. A status that names a sandbox after a pass
  either named it before, or names this Project's sandbox and every one of its five objects was absent
  or controlled by this Project instance.
\<close>

theorem advertise_owned:
  assumes "pj_generation p \<noteq> None" and "apply_project p d cached cl timeout = (r, b, log)"
    and "pst_sandbox (stored_status p b) = Some s"
  shows "pst_sandbox (old_status p) = Some s \<or> s = sandbox_status_of p d \<and> all_owned p cl"
  using assms(2)
proof (cases rule: apply_cases)
  case (early msg)
  then show ?thesis using assms(1,3) stored_write [of "dv_status (start_pass p)"] merged_sandbox start_generation [of p]
    by fastforce
next
  case (driven f ps)
  then have "pst_sandbox (dv_status ps) = Some s \<or> pst_sandbox (old_status p) = Some s"
    using assms(3) stored_driven [OF assms(1) driven(1)] merged_sandbox by fastforce
  then show ?thesis using drive_same [OF driven(1)] by (auto simp: advertise_def)
qed (use assms(3) in simp)

text \<open>
  A pending change survives every other outcome. It changes only when the roll step of
  this pass succeeded, and then to what that step concluded.
\<close>

theorem pending_kept:
  assumes "pj_generation p \<noteq> None" and "apply_project p d cached cl timeout = (r, b, log)"
    and "pst_pending_change (stored_status p b) \<noteq> pst_pending_change (old_status p)"
  shows "\<exists>out. rolled_by p d cl timeout out \<and>
    pst_pending_change (stored_status p b) =
      (case out of Clear \<Rightarrow> None | Keep \<Rightarrow> pst_pending_change (old_status p) | Pending c \<Rightarrow> Some (rp_change c))"
  using assms(2)
proof (cases rule: apply_cases)
  case (early msg)
  then show ?thesis using assms(1,3) stored_write [of "dv_status (start_pass p)"] start_generation [of p]
    by (simp add: merged_pending)
next
  case (driven f ps)
  then show ?thesis using assms(3) drive_same [OF driven(1)] stored_driven [OF assms(1) driven(1)]
    by (auto simp: merged_pending)
qed (use assms(3) in simp)

lemma drive_first:
  assumes "drive p d cl timeout ps = (f, ps')" and "dv_log ps = []"
  shows "dv_log ps' = [] \<or> hd (dv_log ps') = Rq_Policy (network_policy_name p) (network_policy (cl_ctl_ref cl) p d)"
proof -
  define good where "good ps \<longleftrightarrow> dv_log ps \<noteq> [] \<and> hd (dv_log ps) = Rq_Policy (network_policy_name p) (network_policy (cl_ctl_ref cl) p d)"
    for ps :: "'a pass"
  have ext: "good ps0 \<Longrightarrow> log_extends ps0 ps1 \<Longrightarrow> good ps1" for ps0 ps1 by (auto simp: good_def log_extends_def)
  obtain f1 ps1 where 1: "drive_policy p d cl ps = (f1, ps1)" by fastforce
  have pol: "dv_log ps1 = [] \<and> f1 \<noteq> Continue \<or> good ps1"
    using 1 assms(2) by (auto simp: drive_policy_def step_defs good_def split: sum.splits existing.splits)
  show ?thesis
  proof (cases "f1 = Continue")
    case True
    then have g: "good ps1" using pol by simp
    have pvcs: "good ps2" if "and_then (drive_secret p d cl ps1) (drive_pvcs p cl
        [(''workspace PVC'', workspace_pvc_name p, pvc (cl_ctl_ref cl) p d),
         (''docker PVC'', docker_pvc_name p, docker_pvc (cl_ctl_ref cl) p d)] None) = (f2, ps2)" for f2 ps2
      using that by (rule and_then_keeps [rotated 2]) (use g ext secret_extends pvcs_extends in blast)+
    have "and_then (and_then (drive_secret p d cl ps1) (drive_pvcs p cl
          [(''workspace PVC'', workspace_pvc_name p, pvc (cl_ctl_ref cl) p d),
           (''docker PVC'', docker_pvc_name p, docker_pvc (cl_ctl_ref cl) p d)] None)) (drive_sandbox p d cl timeout) = (f, ps')"
      using assms(1) 1 True by (simp add: drive_def and_then_def)
    then have "good ps'" by (rule and_then_keeps [rotated 2]) (use pvcs ext sandbox_extends in blast)+
    then show ?thesis by (simp add: good_def)
  next
    case False
    then have "ps' = ps1" using assms(1) 1 by (cases f1) (auto simp: drive_def and_then_def)
    then show ?thesis using pol by (auto simp: good_def)
  qed
qed


lemma and_then_panic: "and_then r k = (Panic, ps') \<Longrightarrow> (\<exists>x. r = (Panic, x)) \<or> (\<exists>x. k x = (Panic, ps'))"
  by (cases r; cases "fst r") (auto simp: and_then_def)

lemma drive_panic:
  assumes "drive p d cl timeout ps = (Panic, ps')"
  shows "sandbox (cl_ctl_ref cl) p d = None \<or> sandbox_pod_spec p d = None"
proof -
  have pol: "drive_policy p d cl x \<noteq> (Panic, y)" and sec: "drive_secret p d cl x \<noteq> (Panic, y)" for x y
    by (auto simp: drive_policy_def drive_secret_def res_err_def Let_def split: sum.splits existing.splits kube_error.splits if_splits)
  have pv: "drive_pvcs p cl xs rz x \<noteq> (Panic, y)" for xs rz x y
    by (induction p cl xs rz x rule: drive_pvcs.induct)
      (auto simp: res_err_def Let_def split: sum.splits existing.splits option.splits)
  have "and_then (drive_policy p d cl ps) (drive_secret p d cl) \<noteq> (Panic, y)" for y
    using and_then_panic pol sec by blast
  then have "and_then (and_then (drive_policy p d cl ps) (drive_secret p d cl)) (drive_pvcs p cl xs None) \<noteq> (Panic, y)" for xs y
    using and_then_panic pv by blast
  then obtain x where "drive_sandbox p d cl timeout x = (Panic, ps')"
    using and_then_panic assms unfolding drive_def by blast
  then show ?thesis
    by (auto simp: drive_sandbox_def drive_roll_def sb_err_def Let_def split: sum.splits existing.splits option.splits prod.splits)
qed

text \<open>
  With a Docker configuration that passed the check at startup, a pass never panics on a missing
  runtime profile, whatever the Project and the answers of the API server.
\<close>

theorem pass_no_panic:
  assumes "docker_validate (df_docker d) = Inr ()"
  shows "fst (apply_project p d cached cl timeout) \<noteq> Inl OE_Panic"
proof -
  have d: "drive p d cl timeout (start_pass p) \<noteq> (Panic, ps)" for ps
    using drive_panic [of p d cl timeout "start_pass p" ps] validated_sandbox [OF assms] by blast
  have f: "fst (finish_pass p cl ps res) \<noteq> Inl OE_Panic" if "res \<noteq> Inl OE_Panic" for ps res
    using that by (simp add: finish_pass_def split: option.split sum.split)
  have l: "fst (case x of (r, b) \<Rightarrow> (r, b, log)) = fst x" for x :: "(op_error + action) \<times> 'a status_patch option" and log :: "api_request list"
    by (simp split: prod.split)
  obtain g ps where g: "drive p d cl timeout (start_pass p) = (g, ps)" by fastforce
  then have "g \<noteq> Panic" using d by auto
  then show ?thesis using f
    by (cases g) (simp_all add: apply_project_def Let_def g l split: sum.split option.split)
qed

section \<open>Witnesses\<close>

text \<open>A Project whose change has been rolled: everything applies, and the running pod has the desired shape.\<close>

definition wit_defaults :: defaults where
  "wit_defaults = \<lparr>df_sandbox_image = ''img'', df_storage = ''1Gi'', df_namespace = ''ns'', df_service_account = ''sa'',
     df_netpol = for_release_namespace ''ns'', df_docker = docker_new [''kata''] ''kata'' ''1Gi''\<rparr>"

definition wit_project :: "u16 project" where
  "wit_project =
     \<lparr>pj_name = Some ''x'', pj_uid = Some ''u'', pj_generation = Some 1, pj_created = Some 5, pj_deleting = False,
      pj_annotations = [],
      pj_spec = \<lparr>ps_owner = ''ann'', ps_display_name = [], ps_repositories = [], ps_run_mode = Worktree,
        ps_triggers = \<lparr>tr_issues = True, tr_change_requests = True, tr_mentions = True\<rparr>,
        ps_sandbox = \<lparr>ss_image = [], ss_storage = [], ss_resources = JObj [], ss_cpu = None, ss_memory = None\<rparr>,
        ps_max_runs = None\<rparr>,
      pj_status = Some (status_default\<lparr>pst_pending_change := Some wit_pending\<rparr>)\<rparr>"

definition wit_cluster :: "u16 cluster" where
  "wit_cluster =
     \<lparr>cl_policy = Inr None, cl_policy_patch = Inr (), cl_secret = Inr None, cl_secret_create = Inr (),
      cl_pvc = (\<lambda>_. Inr None), cl_pvc_patch = (\<lambda>_. Inr None), cl_sandbox = Inr None,
      cl_sandbox_patch = Inr \<lparr>sb_generation = Some 1, sb_conditions = None, sb_template = JObj []\<rparr>,
      cl_pod = Inr (Some \<lparr>pod_deleting = False, pod_created = Some 7, pod_spec = Some (the (sandbox_pod_spec wit_project wit_defaults)),
        pod_annotations = [], pod_uid = Some ''v''\<rparr>),
      cl_pod_delete = Inr (), cl_status_patch = Inr (), cl_roll_now = 300, cl_status_now = 301, cl_token = ''t'',
      cl_clock = wit_clock, cl_print = (\<lambda>_. []), cl_show = (\<lambda>_. []), cl_lower = (\<lambda>s. s), cl_debug = (\<lambda>s. s), cl_ctl_ref = (\<lambda>_. None)\<rparr>"


lemma wit_spec_some: "\<exists>w. sandbox_pod_spec wit_project wit_defaults = Some w"
proof -
  have "docker_profile (df_docker wit_defaults) \<noteq> None" by code_simp
  then show ?thesis by (auto simp: sandbox_pod_spec_def)
qed

lemma diff_self [simp]: "diff (shape_of print w) (shape_of print w) = []"
  by (simp add: diff_Nil_iff same_shape_def)

lemma wit_drive:
  "\<exists>ps. drive wit_project wit_defaults wit_cluster 150 (start_pass wit_project) = (Continue, ps)
     \<and> dv_roll ps = Clear \<and> dv_status ps = advertise wit_project wit_defaults (dv_status (start_pass wit_project))
     \<and> dv_obs ps = \<lparr>ob_resources = Check_Ok, ob_sandbox = Check_Pending ''SandboxPending'' ''Sandbox has not reported status yet''\<rparr>
     \<and> dv_log ps \<noteq> []"
proof -
  obtain w where w: "sandbox_pod_spec wit_project wit_defaults = Some w" using wit_spec_some by blast
  have pod: "cl_pod wit_cluster = Inr (Some \<lparr>pod_deleting = False, pod_created = Some 7, pod_spec = Some w, pod_annotations = [], pod_uid = Some ''v''\<rparr>)"
    by (simp add: wit_cluster_def w)
  have sb: "sandbox (cl_ctl_ref wit_cluster) wit_project wit_defaults \<noteq> None" by (simp add: sandbox_def w)
  have ex: "existing_of (Inr None) wit_project = Inr E_Absent" by (simp add: existing_of_def)
  show ?thesis using sb
    by (auto simp: drive_def drive_policy_def drive_secret_def drive_sandbox_def drive_roll_def and_then_def pod w ex
        roll_step_def roll_input_of_def decide_def pod_state_of_def wit_cluster_def pvc_resizing_def sandbox_check_def
        set_resources_def set_sandbox_def log_request_def advertise_def start_pass_def all_skipped_def Let_def)
qed

lemma wit_apply:
  obtains r b log where "apply_project wit_project wit_defaults [] wit_cluster 150 = (r, b, log)" "log \<noteq> []"
    "pst_sandbox (stored_status wit_project b) = Some (sandbox_status_of wit_project wit_defaults)"
    "pst_pending_change (stored_status wit_project b) = None"
proof -
  obtain ps where ps: "drive wit_project wit_defaults wit_cluster 150 (start_pass wit_project) = (Continue, ps)" "dv_roll ps = Clear"
      "dv_status ps = advertise wit_project wit_defaults (dv_status (start_pass wit_project))"
      "dv_obs ps = \<lparr>ob_resources = Check_Ok, ob_sandbox = Check_Pending ''SandboxPending'' ''Sandbox has not reported status yet''\<rparr>"
      "dv_log ps \<noteq> []"
    using wit_drive by blast
  have v: "validate_project wit_project wit_defaults = Inr ()" "repo_conflict wit_project [] = None" by code_simp+
  obtain r b where fp: "finish_pass wit_project wit_cluster ps (Inr (requeue_after ps)) = (r, b)" by fastforce
  have ap: "apply_project wit_project wit_defaults [] wit_cluster 150 = (r, b, dv_log ps)"
    by (simp add: apply_project_def v ps(1) fp)
  have "b = snd (finish_pass wit_project wit_cluster ps (Inr (requeue_after ps)))" by (simp add: fp)
  then have b: "b = write_status wit_project (dv_status ps) (dv_obs ps) (dv_roll ps) (cl_status_now wit_cluster)"
    by (simp add: finish_pass_def split: option.split)
  have "stored_status wit_project b = merged_status wit_project (dv_status ps) (dv_obs ps) (dv_roll ps) (cl_status_now wit_cluster)"
    unfolding b by (rule stored_driven [OF _ ps(1)]) (simp add: wit_project_def)
  then have "pst_sandbox (stored_status wit_project b) = Some (sandbox_status_of wit_project wit_defaults)"
      "pst_pending_change (stored_status wit_project b) = None"
    by (simp_all add: merged_status_def merge_status_def computed_fields ps advertise_def is_blocked_def is_not_owned_def)
  then show ?thesis using that ap ps(5) by blast
qed

theorem advertise_owned_witness:
  "\<exists>r b log. apply_project wit_project wit_defaults [] wit_cluster 150 = (r, b, log)
     \<and> pst_sandbox (stored_status wit_project b) = Some (sandbox_status_of wit_project wit_defaults) \<and> all_owned wit_project wit_cluster"
proof -
  obtain r b log where a: "apply_project wit_project wit_defaults [] wit_cluster 150 = (r, b, log)"
    "pst_sandbox (stored_status wit_project b) = Some (sandbox_status_of wit_project wit_defaults)"
    by (rule wit_apply)
  have "pj_generation wit_project \<noteq> None" "pst_sandbox (old_status wit_project) = None"
    by (simp_all add: wit_project_def old_status_def status_default_def)
  then show ?thesis using advertise_owned [OF _ a] a by auto
qed

theorem pending_kept_witness:
  "\<exists>r b log. apply_project wit_project wit_defaults [] wit_cluster 150 = (r, b, log)
     \<and> (\<exists>out. rolled_by wit_project wit_defaults wit_cluster 150 out)"
proof -
  obtain r b log where a: "apply_project wit_project wit_defaults [] wit_cluster 150 = (r, b, log)"
    "pst_pending_change (stored_status wit_project b) = None"
    by (rule wit_apply)
  have "pj_generation wit_project \<noteq> None" "pst_pending_change (old_status wit_project) \<noteq> None"
    by (simp_all add: wit_project_def old_status_def)
  then show ?thesis using pending_kept [OF _ a(1)] a by metis
qed



theorem pass_no_panic_witness:
  "fst (apply_project wit_project wit_defaults [] wit_cluster 150) \<noteq> Inl OE_Panic"
  by (rule pass_no_panic) code_simp

end
