(* ===== verification/Chat_Redact.thy ===== *)
theory Chat_Redact
  imports Std_Data
begin

text \<open>
  Redaction of credentials in what a chat shows: the last part of
  \<^verbatim>\<open>sandbox-container/src/chat/filter.rs\<close>. A configured secret is replaced wherever it occurs, and so is
  anything that looks like an Anthropic or GitHub token.
\<close>

definition TOKEN_PREFIXES :: "string list" where
  "TOKEN_PREFIXES = [''sk-ant-'', ''github_pat_'', ''ghp_'', ''ghs_'', ''gho_'', ''ghu_'', ''ghr_'']"

definition REDACTED :: string where "REDACTED = ''[redacted]''"

text \<open>\<^verbatim>\<open>str::replace\<close> with a non-empty pattern.\<close>

function replace_all :: "string \<Rightarrow> string \<Rightarrow> string \<Rightarrow> string" where
  "replace_all pat rep s =
     (if pat = [] then s
      else case str_find s pat of
             None \<Rightarrow> s
           | Some i \<Rightarrow> take i s @ rep @ replace_all pat rep (drop (i + length pat) s))"
  by pat_completeness auto
termination
proof (relation "measure (\<lambda>(pat, rep, s). length s)")
  fix pat rep s :: string and i
  assume "pat \<noteq> []" "str_find s pat = Some i"
  then show "((pat, rep, drop (i + length pat) s), (pat, rep, s)) \<in> measure (\<lambda>(pat, rep, s). length s)"
    using str_find_SomeD [of s pat i] by (cases pat) auto
qed simp

definition token_char :: "char \<Rightarrow> bool" where
  "token_char c \<longleftrightarrow> is_ascii_alphanumeric c \<or> c = CHR ''-'' \<or> c = CHR ''_''"

text \<open>The loop over one token prefix.\<close>

function redact_prefix :: "string \<Rightarrow> string \<Rightarrow> string" where
  "redact_prefix prefix rest =
     (if prefix = [] then rest
      else case str_find rest prefix of
             None \<Rightarrow> rest
           | Some i \<Rightarrow>
               (let tail = drop (i + length prefix) rest;
                    n = length (takeWhile token_char tail)
                in take i rest
                   @ (if n \<ge> 8 then REDACTED else take (length prefix + n) (drop i rest))
                   @ redact_prefix prefix (drop n tail)))"
  by pat_completeness auto
termination
proof (relation "measure (\<lambda>(prefix, rest). length rest)")
  fix prefix rest :: string and i tail n
  assume "prefix \<noteq> []" "str_find rest prefix = Some i" "tail = drop (i + length prefix) rest"
  then show "((prefix, drop n tail), (prefix, rest)) \<in> measure (\<lambda>(prefix, rest). length rest)"
    using str_find_SomeD [of rest prefix i] by (cases prefix) auto
qed simp

declare replace_all.simps [simp del] redact_prefix.simps [simp del]

definition redact_secret :: "string \<Rightarrow> string \<Rightarrow> string" where
  "redact_secret out sec = (if sec \<noteq> [] \<and> str_contains out sec then replace_all sec REDACTED out else out)"

definition redact_str :: "string list \<Rightarrow> string \<Rightarrow> string" where
  "redact_str secrets s =
     foldl (\<lambda>out prefix. if str_contains out prefix then redact_prefix prefix out else out)
       (foldl redact_secret s secrets) TOKEN_PREFIXES"

text \<open>An object collects its entries again, so of two keys that become equal the later entry wins.\<close>

fun redact_value :: "string list \<Rightarrow> json \<Rightarrow> json" where
  "redact_value secrets (JStr s) = JStr (redact_str secrets s)"
| "redact_value secrets (JArr xs) = JArr (map (redact_value secrets) xs)"
| "redact_value secrets (JObj m) = JObj (bt_of (map (\<lambda>(k, v). (redact_str secrets k, redact_value secrets v)) m))"
| "redact_value secrets other = other"

section \<open>No secret is left\<close>

text \<open>\<open>cover a b\<close>: \<open>b\<close> is \<open>a\<close> with some parts replaced by the mark.\<close>

inductive cover :: "string \<Rightarrow> string \<Rightarrow> bool" where
  cover_refl: "cover a a"
| cover_mark: "cover b b' \<Longrightarrow> cover (a @ x @ b) (a @ REDACTED @ b')"
| cover_keep: "cover b b' \<Longrightarrow> cover (a @ b) (a @ b')"

text \<open>A secret that has nothing to do with the mark itself.\<close>

definition plain_secret :: "string \<Rightarrow> bool" where
  "plain_secret sec \<longleftrightarrow> sec \<noteq> [] \<and> CHR ''['' \<notin> set sec \<and> CHR '']'' \<notin> set sec \<and> \<not> str_contains ''redacted'' sec"

lemma str_contains_mid: "str_contains b sec \<Longrightarrow> str_contains (a @ b @ c) sec"
  by (auto simp: str_contains_iff) (metis append.assoc)

lemma avoid_char:
  assumes "u @ sec @ v = a @ c # b" and "c \<notin> set sec" and "sec \<noteq> []"
  shows "(\<exists>w. a = u @ sec @ w) \<or> (\<exists>u'. b = u' @ sec @ v)"
proof -
  consider w where "a = u @ w" "w @ c # b = sec @ v" | w where "u = a @ w" "w @ sec @ v = c # b"
    using assms(1) by (metis append_eq_append_conv2)
  then show ?thesis
  proof cases
    case 1
    consider z where "w = sec @ z" | z where "sec = w @ z" "z @ v = c # b"
      using 1(2) by (metis append_eq_append_conv2)
    then show ?thesis
    proof cases
      case (2 z)
      then show ?thesis using assms(2) 1 by (cases z) auto
    qed (use 1 in auto)
  next
    case 2
    then show ?thesis using assms(2,3) by (cases w; cases sec) auto
  qed
qed

lemma mark_split:
  assumes "str_contains (a @ REDACTED @ b) sec" and "plain_secret sec"
  shows "str_contains a sec \<or> str_contains b sec"
proof -
  obtain u v where uv: "u @ sec @ v = a @ CHR ''['' # (''redacted'' @ CHR '']'' # b)"
    using assms(1) by (auto simp: str_contains_iff REDACTED_def)
  have ne: "sec \<noteq> []" "CHR ''['' \<notin> set sec" "CHR '']'' \<notin> set sec" "\<not> str_contains ''redacted'' sec"
    using assms(2) by (auto simp: plain_secret_def)
  from avoid_char [OF uv ne(2,1)] consider w where "a = u @ sec @ w" | u' where "''redacted'' @ CHR '']'' # b = u' @ sec @ v" by blast
  then show ?thesis
  proof cases
    case 1
    then show ?thesis by (auto simp: str_contains_iff)
  next
    case 2
    then have "(\<exists>w. ''redacted'' = u' @ sec @ w) \<or> (\<exists>u''. b = u'' @ sec @ v)"
      using avoid_char [of u' sec v "''redacted''" "CHR '']''" b] ne by (metis append_assoc)
    then show ?thesis using ne(4) by (auto simp: str_contains_iff)
  qed
qed

lemma cover_clean:
  assumes "cover a b" and "plain_secret sec"
  shows "\<not> str_contains (p @ a) sec \<Longrightarrow> \<not> str_contains (p @ b) sec"
  using assms(1)
proof (induction arbitrary: p)
  case (cover_mark b b' a x)
  have "\<not> str_contains (p @ a) sec" "\<not> str_contains b sec"
    using cover_mark.prems str_contains_mid [of "p @ a" sec "[]" "x @ b"] str_contains_mid [of b sec "p @ a @ x" "[]"] by auto
  then show ?case using mark_split [of "p @ a" b' sec] assms(2) cover_mark.IH [of "[]"] by auto
next
  case (cover_keep b b' a)
  then show ?case using cover_keep.IH [of "p @ a"] by simp
qed simp

lemmas cover_contains = cover_clean [where p = "[]", simplified]

lemma replace_all_cover: "cover s (replace_all pat REDACTED s)"
proof (induction pat REDACTED s rule: replace_all.induct)
  case (1 pat s)
  show ?case
  proof (cases "pat = [] \<or> str_find s pat = None")
    case True
    then show ?thesis by (auto simp: replace_all.simps [of pat] intro: cover_refl)
  next
    case False
    then obtain i where i: "pat \<noteq> []" "str_find s pat = Some i" by auto
    have "s = take i s @ take (length pat) (drop i s) @ drop (i + length pat) s"
      by (metis append_take_drop_id drop_drop add.commute)
    then show ?thesis using 1 [OF i] i cover_mark by (metis (no_types, lifting) option.simps(5) replace_all.simps)
  qed
qed

lemma redact_prefix_cover: "cover rest (redact_prefix prefix rest)"
proof (induction prefix rest rule: redact_prefix.induct)
  case (1 prefix rest)
  show ?case
  proof (cases "prefix = [] \<or> str_find rest prefix = None")
    case True
    then show ?thesis by (auto simp: redact_prefix.simps [of prefix] intro: cover_refl)
  next
    case False
    then obtain i where i: "prefix \<noteq> []" "str_find rest prefix = Some i" by auto
    define tail where "tail = drop (i + length prefix) rest"
    define n where "n = length (takeWhile token_char tail)"
    have r: "rest = take i rest @ take (length prefix + n) (drop i rest) @ drop n tail"
      by (simp add: tail_def) (metis add.assoc add.commute append_take_drop_id drop_drop)
    have IH: "cover (drop n tail) (redact_prefix prefix (drop n tail))" using 1 i by (simp add: tail_def n_def)
    show ?thesis
    proof (cases "n \<ge> 8")
      case True
      then have "redact_prefix prefix rest = take i rest @ REDACTED @ redact_prefix prefix (drop n tail)"
        using i by (simp add: redact_prefix.simps [of prefix rest] tail_def n_def Let_def)
      then show ?thesis using cover_mark [OF IH] r by metis
    next
      case False
      then have "redact_prefix prefix rest = (take i rest @ take (length prefix + n) (drop i rest)) @ redact_prefix prefix (drop n tail)"
        using i by (simp add: redact_prefix.simps [of prefix rest] tail_def n_def Let_def)
      then show ?thesis using cover_keep [OF IH] r by (metis append_assoc)
    qed
  qed
qed

lemma str_find_None: "str_find s n = None \<Longrightarrow> \<not> str_contains s n"
  by (metis option.distinct(1) str_contains_iff str_find_first)

lemma str_find_before:
  assumes "str_find s n = Some i" and "n \<noteq> []"
  shows "\<not> str_contains (take i s) n"
proof
  assume "str_contains (take i s) n"
  then obtain a b where ab: "take i s = a @ n @ b" by (auto simp: str_contains_iff)
  then have s: "s = a @ n @ (b @ drop i s)" by (metis append_assoc append_take_drop_id)
  from str_find_first [of a n "b @ drop i s"] obtain j where "str_find s n = Some j" "j \<le> length a"
    unfolding s [symmetric] by blast
  then have "i \<le> length a" using assms(1) by simp
  moreover have "length a + length n \<le> i" using ab by (metis add.assoc le_add1 length_append length_take min.cobounded2 le_trans)
  ultimately show False using assms(2) by (cases n) auto
qed

lemma replace_all_removes:
  assumes "plain_secret pat"
  shows "\<not> str_contains (replace_all pat REDACTED s) pat"
  using assms
proof (induction pat REDACTED s rule: replace_all.induct)
  case (1 pat s)
  have ne: "pat \<noteq> []" using 1(2) by (simp add: plain_secret_def)
  show ?case
  proof (cases "str_find s pat")
    case None
    then show ?thesis using ne str_find_None by (simp add: replace_all.simps [of pat])
  next
    case (Some i)
    then have "replace_all pat REDACTED s = take i s @ REDACTED @ replace_all pat REDACTED (drop (i + length pat) s)"
      using ne by (simp add: replace_all.simps [of pat _ s])
    then show ?thesis
      using mark_split 1 ne Some str_find_before by metis
  qed
qed

lemma redact_secret_cover: "cover out (redact_secret out sec)"
  by (simp add: redact_secret_def replace_all_cover cover_refl)

lemma redact_secret_removes: "plain_secret sec \<Longrightarrow> \<not> str_contains (redact_secret out sec) sec"
  by (auto simp: redact_secret_def replace_all_removes plain_secret_def)

text \<open>A fold of redactions keeps a string free of a secret it is free of.\<close>

lemma fold_clean:
  assumes "\<And>out x. cover out (f out x)" and "plain_secret sec"
  shows "\<not> str_contains s sec \<Longrightarrow> \<not> str_contains (foldl f s xs) sec"
  by (induction xs arbitrary: s) (auto dest: cover_contains [OF assms(1) assms(2)])

lemma fold_secrets_removes:
  assumes "plain_secret sec"
  shows "sec \<in> set secrets \<Longrightarrow> \<not> str_contains (foldl redact_secret s secrets) sec"
proof (induction secrets arbitrary: s)
  case (Cons x secrets)
  then show ?case
    using fold_clean [of redact_secret sec "redact_secret s x" secrets] redact_secret_cover redact_secret_removes assms
    by auto
qed simp

lemma redact_str_removes:
  assumes "plain_secret sec" and "sec \<in> set secrets"
  shows "\<not> str_contains (redact_str secrets s) sec"
  unfolding redact_str_def
  by (rule fold_clean [OF _ assms(1) fold_secrets_removes [OF assms]])
    (simp add: redact_prefix_cover cover_refl)

text \<open>Every string of a JSON value, its object keys included.\<close>

fun json_strings :: "json \<Rightarrow> string set" where
  "json_strings (JStr s) = {s}"
| "json_strings (JArr xs) = (\<Union>x \<in> set xs. json_strings x)"
| "json_strings (JObj m) = (\<Union>e \<in> set m. insert (fst e) (json_strings (snd e)))"
| "json_strings _ = {}"

lemma bt_insert_sub: "set (bt_insert k v m) \<subseteq> insert (k, v) (set m)"
  by (induction k v m rule: bt_insert.induct) auto

lemma bt_extend_sub: "set (bt_extend m kvs) \<subseteq> set m \<union> set kvs"
proof (induction kvs arbitrary: m)
  case (Cons e kvs)
  then show ?case using bt_insert_sub [of "fst e" "snd e" m] by (cases e) (fastforce simp: bt_extend_def)
qed (simp add: bt_extend_def)

lemma bt_of_sub: "set (bt_of kvs) \<subseteq> set kvs"
  using bt_extend_sub [of "[]" kvs] by (simp add: bt_of_def)

lemma redact_value_strings:
  "json_strings (redact_value secrets j) \<subseteq> range (redact_str secrets)"
proof (induction secrets j rule: redact_value.induct)
  case (3 secrets m)
  show ?case
  proof
    fix t
    assume "t \<in> json_strings (redact_value secrets (JObj m))"
    then obtain e where "e \<in> set (bt_of (map (\<lambda>(k, v). (redact_str secrets k, redact_value secrets v)) m))"
      "t = fst e \<or> t \<in> json_strings (snd e)"
      by auto
    then have "e \<in> set (map (\<lambda>(k, v). (redact_str secrets k, redact_value secrets v)) m)"
      and "t = fst e \<or> t \<in> json_strings (snd e)"
      using bt_of_sub by blast+
    then show "t \<in> range (redact_str secrets)" using 3 by fastforce
  qed
qed auto

text \<open>
  In what the chat shows after redaction, no string and no object key contains a configured secret, however the
  secret is embedded and whatever the other secrets and token patterns replace around it. The secret is
  non-empty, has no bracket and is not itself a part of the word the mark carries.
\<close>

theorem redact_hides_secrets:
  assumes "sec \<in> set secrets" and "plain_secret sec" and "t \<in> json_strings (redact_value secrets j)"
  shows "\<not> str_contains t sec"
  using redact_value_strings [of secrets j] redact_str_removes [OF assms(2,1)] assms(3) by auto

theorem redact_hides_secrets_witness:
  "\<not> str_contains ''key=[redacted]!'' ''hunter2'' \<and>
   redact_value [''hunter2''] (JObj [(''a'', JStr ''key=hunter2!'')]) = JObj [(''a'', JStr ''key=[redacted]!'')]"
proof -
  have e: "redact_value [''hunter2''] (JObj [(''a'', JStr ''key=hunter2!'')]) = JObj [(''a'', JStr ''key=[redacted]!'')]"
    by code_simp
  have "plain_secret ''hunter2''" by code_simp
  then have "\<not> str_contains ''key=[redacted]!'' ''hunter2''"
    using redact_hides_secrets [of "''hunter2''" "[''hunter2'']" "''key=[redacted]!''" "JObj [(''a'', JStr ''key=hunter2!'')]"]
    unfolding e by simp
  then show ?thesis using e by blast
qed

end
