(* ===== verification/Chat_Filter.thy ===== *)
theory Chat_Filter
  imports Chat_Redact
begin

text \<open>
  The chat relay's JSON-RPC filter, \<^verbatim>\<open>sandbox-container/src/chat/filter.rs\<close>, between a browser (an ACP
  client) and the chat agent, and the two enums of \<^verbatim>\<open>sandbox-container/src/config.rs\<close> it is set up with.
  A handler takes the filter's state and returns the new state with the \<open>out\<close> actions in order. Parsing a
  line (\<open>parse\<close>, \<^verbatim>\<open>serde_json::from_slice\<close>) and printing a JSON value (\<open>pr\<close>, \<^verbatim>\<open>Value::to_string\<close>)
  are parameters. Hash maps are association lists with distinct keys; where the code sorts what it drains
  from one, so does the model.
\<close>

section \<open>Configuration\<close>

datatype chat_agent = Ez | Claude

definition chat_agent_parse :: "string \<Rightarrow> chat_agent option" where
  "chat_agent_parse s = (if s = ''ez'' then Some Ez else if s = ''claude'' then Some Claude else None)"

datatype chat_mode = Bypass | Default | Plan

fun mode_str :: "chat_mode \<Rightarrow> string" where
  "mode_str Bypass = ''bypassPermissions''"
| "mode_str Default = ''default''"
| "mode_str Plan = ''plan''"

definition chat_mode_parse :: "string \<Rightarrow> chat_mode option" where
  "chat_mode_parse s =
     (if s = ''bypassPermissions'' then Some Bypass else if s = ''default'' then Some Default
      else if s = ''plan'' then Some Plan else None)"

section \<open>Constants\<close>

definition MAX_PROMPT_BYTES :: int where "MAX_PROMPT_BYTES = 256 * 1024"
definition MAX_PENDING_PERMISSIONS :: nat where "MAX_PENDING_PERMISSIONS = 64"
definition MAX_PENDING_REQUESTS :: nat where "MAX_PENDING_REQUESTS = 64"
definition ALLOWED_MODES :: "string list" where "ALLOWED_MODES = [''bypassPermissions'', ''default'', ''plan'']"
definition MAX_MODES :: nat where "MAX_MODES = 64"
definition MAX_MODE_ID_LEN :: nat where "MAX_MODE_ID_LEN = 64"
definition ASK_USER_QUESTION :: string where "ASK_USER_QUESTION = ''_ez/ask_user_question''"
definition MAX_ANSWER_LEN :: int where "MAX_ANSWER_LEN = 4096"
definition MODE :: string where "MODE = ''_enzarb/mode''"
definition OWN_ID_PREFIX :: string where "OWN_ID_PREFIX = ''enzarb-mode-''"
definition RPC_MAX_ID_LEN :: nat where "RPC_MAX_ID_LEN = 128"
definition MAX_SESSION_ID_LEN :: nat where "MAX_SESSION_ID_LEN = 128"

definition PARSE_ERROR :: int where "PARSE_ERROR = -32700"
definition INVALID_REQUEST :: int where "INVALID_REQUEST = -32600"
definition METHOD_NOT_FOUND :: int where "METHOD_NOT_FOUND = -32601"
definition INVALID_PARAMS :: int where "INVALID_PARAMS = -32602"
definition INTERNAL_ERROR :: int where "INTERNAL_ERROR = -32603"

section \<open>State\<close>

datatype chat_out =
    OAgent json
  | OBrowser json
  | ORecord string json
  | OSession string

datatype chat_pending =
    PInitialize
  | PNew
  | PLoad string
  | PPrompt
  | PSetMode string
  | PEnforce "(string \<times> json) list" string

record question_req =
  q_id :: json
  q_questions :: "(string \<times> bool \<times> string list) list"

record perm_req =
  pq_id :: json
  pq_options :: "(string \<times> string) list"
  pq_tool_call_id :: json

record chat_filter =
  f_agent :: chat_agent
  f_modes :: "string list"
  f_browser_asks :: bool
  f_questions :: "question_req imap"
  f_mode :: chat_mode
  f_allow_bypass :: bool
  f_own_ids :: u64
  f_worktree :: string
  f_secrets :: "string list"
  f_resume :: "string option"
  f_init_sent :: bool
  f_initialized :: bool
  f_load_session :: bool
  f_session :: "string option"
  f_establishing :: bool
  f_prompting :: nat
  f_pending :: "chat_pending imap"
  f_permissions :: "perm_req imap"

section \<open>Helpers\<close>

text \<open>Removing a key from a hash map.\<close>

definition hm_remove :: "string \<Rightarrow> 'v imap \<Rightarrow> 'v imap" where
  "hm_remove k m = filter (\<lambda>e. fst e \<noteq> k) m"

definition truncate :: "string \<Rightarrow> string" where
  "truncate s = take_chars 64 s"

definition jopt :: "json option \<Rightarrow> json" where
  "jopt x = (case x of Some v \<Rightarrow> v | None \<Rightarrow> JNull)"

definition jneg :: "int \<Rightarrow> json" where
  "jneg n = JNum (NegInt (of_int n))"

definition session_id_char :: "char \<Rightarrow> bool" where
  "session_id_char c \<longleftrightarrow> is_ascii_alphanumeric c \<or> c = CHR ''-'' \<or> c = CHR ''_'' \<or> c = CHR ''.''"

definition valid_session_id :: "string \<Rightarrow> bool" where
  "valid_session_id s \<longleftrightarrow>
     s \<noteq> [] \<and> length s \<le> MAX_SESSION_ID_LEN \<and> \<not> starts_with s ''.'' \<and> list_all session_id_char s"

definition valid_id :: "json \<Rightarrow> bool" where
  "valid_id v =
     (case v of
        JNum _ \<Rightarrow> (case as_i64 v of Some i \<Rightarrow> \<bar>i\<bar> \<le> 2 ^ 53 | None \<Rightarrow> False)
      | JStr s \<Rightarrow> length s \<le> RPC_MAX_ID_LEN
      | _ \<Rightarrow> False)"

definition rpc_error :: "json \<Rightarrow> int \<Rightarrow> string \<Rightarrow> json" where
  "rpc_error v code message =
     jobj [(''jsonrpc'', JStr ''2.0''), (''id'', v),
           (''error'', jobj [(''code'', jneg code), (''message'', JStr message)])]"

definition rpc_request :: "json \<Rightarrow> string \<Rightarrow> json \<Rightarrow> json" where
  "rpc_request v method params =
     jobj [(''jsonrpc'', JStr ''2.0''), (''id'', v), (''method'', JStr method), (''params'', params)]"

definition rpc_result :: "json \<Rightarrow> json \<Rightarrow> json" where
  "rpc_result v r = jobj [(''jsonrpc'', JStr ''2.0''), (''id'', v), (''result'', r)]"

definition str_field :: "(string \<times> json) list option \<Rightarrow> string \<Rightarrow> string option" where
  "str_field p k = Option.bind (Option.bind p (\<lambda>m. map_of m k)) as_str"

definition session_meta :: "chat_mode \<Rightarrow> bool \<Rightarrow> json" where
  "session_meta mode allow_bypass =
     jobj [(''claudeCode'', jobj [(''options'', jobj
       [(''allowDangerouslySkipPermissions'', JBool allow_bypass),
        (''permissionMode'', JStr (mode_str mode)),
        (''settingSources'', jstrs [''user''])])])]"

definition allow_option :: "(string \<times> string) list \<Rightarrow> string option" where
  "allow_option options =
     (case find (\<lambda>(_, k). k = ''allow_always'') options of
        Some (o', _) \<Rightarrow> Some o'
      | None \<Rightarrow> map_option fst (find (\<lambda>(_, k). k = ''allow_once'') options))"

definition reject_option :: "(string \<times> string) list \<Rightarrow> string option" where
  "reject_option options = map_option fst (find (\<lambda>(_, k). k = ''reject_once'') options)"

section \<open>Prompts\<close>

text \<open>One block: what it adds to the total and the block the agent gets.\<close>

definition link_extra :: "json \<Rightarrow> int \<times> json \<Rightarrow> string \<Rightarrow> int \<times> json" where
  "link_extra b acc k =
     (case jget_str k b of Some s \<Rightarrow> (fst acc + int (length s), jset k (JStr s) (snd acc)) | None \<Rightarrow> acc)"

definition rebuild_block :: "json \<Rightarrow> string + int \<times> json" where
  "rebuild_block b =
     (case jget_str ''type'' b of
        None \<Rightarrow> Inl ''only text and resource_link blocks are allowed''
      | Some ty \<Rightarrow>
          if ty = ''text'' then
            (case jget_str ''text'' b of
               None \<Rightarrow> Inl ''text block without text''
             | Some t \<Rightarrow> Inr (int (length t), jobj [(''type'', JStr ''text''), (''text'', JStr t)]))
          else if ty = ''resource_link'' then
            (case (jget_str ''uri'' b, jget_str ''name'' b) of
               (None, _) \<Rightarrow> Inl ''resource_link without uri''
             | (_, None) \<Rightarrow> Inl ''resource_link without name''
             | (Some uri, Some name) \<Rightarrow>
                 (let base = jobj [(''type'', JStr ''resource_link''), (''uri'', JStr uri), (''name'', JStr name)];
                      (n, r) = foldl (link_extra b) (int (length uri) + int (length name), base)
                                 [''title'', ''description'', ''mimeType'']
                  in Inr (n, case Option.bind (jget ''size'' b) as_u64 of
                               Some sz \<Rightarrow> jset ''size'' (JNum (PosInt sz)) r
                             | None \<Rightarrow> r)))
          else Inl ''only text and resource_link blocks are allowed'')"

fun rebuild_blocks :: "int \<Rightarrow> json list \<Rightarrow> json list \<Rightarrow> string + json list" where
  "rebuild_blocks tot acc [] = (if acc = [] then Inl ''empty prompt'' else Inr acc)"
| "rebuild_blocks tot acc (b # bs) =
     (case rebuild_block b of
        Inl e \<Rightarrow> Inl e
      | Inr (n, v) \<Rightarrow>
          if tot + n > MAX_PROMPT_BYTES then Inl ''prompt too large (256 KiB max)''
          else rebuild_blocks (tot + n) (acc @ [v]) bs)"

definition rebuild_prompt :: "json list \<Rightarrow> string + json list" where
  "rebuild_prompt blocks = rebuild_blocks 0 [] blocks"

section \<open>The filter\<close>

definition with_agent ::
  "chat_agent \<Rightarrow> chat_mode \<Rightarrow> bool \<Rightarrow> string \<Rightarrow> string list \<Rightarrow> string option \<Rightarrow> chat_filter" where
  "with_agent agent mode allow_bypass worktree secrets resume =
     \<lparr> f_agent = agent, f_modes = [], f_browser_asks = False, f_questions = [], f_mode = mode,
       f_allow_bypass = (agent = Claude \<and> (allow_bypass \<or> mode = Bypass)),
       f_own_ids = 0, f_worktree = worktree, f_secrets = filter (\<lambda>s. length s \<ge> 8) secrets,
       f_resume = resume, f_init_sent = False, f_initialized = False, f_load_session = False,
       f_session = None, f_establishing = False, f_prompting = 0, f_pending = [], f_permissions = [] \<rparr>"

definition filter_new :: "chat_mode \<Rightarrow> bool \<Rightarrow> string \<Rightarrow> string list \<Rightarrow> string option \<Rightarrow> chat_filter" where
  "filter_new mode allow_bypass worktree secrets resume =
     with_agent Claude mode allow_bypass worktree secrets resume"

definition filter_ez :: "string \<Rightarrow> string list \<Rightarrow> string option \<Rightarrow> chat_filter" where
  "filter_ez worktree secrets resume = with_agent Ez Default False worktree secrets resume"

definition pending_permissions :: "chat_filter \<Rightarrow> nat" where
  "pending_permissions f = length (f_permissions f) + length (f_questions f)"

definition session_params :: "chat_filter \<Rightarrow> json \<Rightarrow> json" where
  "session_params f params =
     (if f_agent f = Ez then params else jset ''_meta'' (session_meta (f_mode f) (f_allow_bypass f)) params)"

definition chat_redact :: "chat_filter \<Rightarrow> json \<Rightarrow> json" where
  "chat_redact f v = redact_value (f_secrets f) v"

definition dropped :: "string \<Rightarrow> string \<Rightarrow> chat_out" where
  "dropped from reason = ORecord ''dropped'' (jobj [(''from'', JStr from), (''reason'', JStr reason)])"

definition refuse :: "chat_filter \<Rightarrow> json \<Rightarrow> string \<Rightarrow> int \<Rightarrow> string \<Rightarrow> chat_out list" where
  "refuse f v method code message =
     [OBrowser (rpc_error v code message),
      ORecord ''refused''
        (chat_redact f (jobj [(''method'', JStr method), (''code'', jneg code), (''reason'', JStr message)]))]"

definition forward ::
  "(json \<Rightarrow> string) \<Rightarrow> chat_filter \<Rightarrow> json \<Rightarrow> string \<Rightarrow> json \<Rightarrow> chat_pending \<Rightarrow> chat_filter \<times> chat_out list" where
  "forward pr f v method params pending =
     (f\<lparr> f_pending := im_insert (pr v) pending (f_pending f) \<rparr>,
      [if method = ''session/prompt'' then ORecord ''prompt'' (chat_redact f params)
       else ORecord ''browser'' (chat_redact f (jobj [(''method'', JStr method), (''params'', params)])),
       OAgent (rpc_request v method params)])"

definition check_session :: "chat_filter \<Rightarrow> (string \<times> json) list option \<Rightarrow> string + string" where
  "check_session f p =
     (case f_session f of
        None \<Rightarrow> Inl ''no session: call session/new or session/load first''
      | Some cur \<Rightarrow> if str_field p ''sessionId'' = Some cur then Inr cur else Inl ''unknown session'')"

subsection \<open>Browser to agent\<close>

text \<open>The methods of \<^verbatim>\<open>browser_request\<close>, one definition each.\<close>

definition client_info :: "(string \<times> json) list option \<Rightarrow> json option" where
  "client_info p =
     (case Option.bind (Option.bind p (\<lambda>m. map_of m ''clientInfo'')) as_object of
        None \<Rightarrow> None
      | Some info \<Rightarrow>
          (let ci = foldl (\<lambda>ci k. case Option.bind (map_of info k) as_str of
                             Some s \<Rightarrow> bt_insert k (JStr (take_chars 128 s)) ci | None \<Rightarrow> ci)
                      [] [''name'', ''title'', ''version'']
           in if im_contains ci ''name'' \<and> im_contains ci ''version'' then Some (JObj ci) else None))"

definition protocol_version :: "(string \<times> json) list option \<Rightarrow> u64" where
  "protocol_version p =
     (case Option.bind (Option.bind p (\<lambda>m. map_of m ''protocolVersion'')) as_u64 of
        Some v \<Rightarrow> if v \<le> 65535 then v else 1
      | None \<Rightarrow> 1)"

definition wants_questions :: "(string \<times> json) list option \<Rightarrow> bool" where
  "wants_questions p =
     (case Option.bind (Option.bind (Option.bind (Option.bind (Option.bind p (\<lambda>m. map_of m ''clientCapabilities''))
             (jget ''_meta'')) (jget ''ez'')) (jget ''askUserQuestion'')) as_bool of
        Some b \<Rightarrow> b | None \<Rightarrow> False)"

definition initialize_params :: "chat_filter \<Rightarrow> (string \<times> json) list option \<Rightarrow> json" where
  "initialize_params f p =
     (let base = [(''fs'', jobj [(''readTextFile'', JBool False), (''writeTextFile'', JBool False)]),
                  (''terminal'', JBool False)];
          caps = (if f_agent f = Ez
                  then jset ''_meta'' (jobj [(''ez'', jobj [(''askUserQuestion'', JBool True)])]) (jobj base)
                  else jobj base);
          params = jobj [(''protocolVersion'', JNum (PosInt (protocol_version p))), (''clientCapabilities'', caps)]
      in case client_info p of Some ci \<Rightarrow> jset ''clientInfo'' ci params | None \<Rightarrow> params)"

definition req_initialize ::
  "(json \<Rightarrow> string) \<Rightarrow> chat_filter \<Rightarrow> json \<Rightarrow> (string \<times> json) list option \<Rightarrow> chat_filter \<times> chat_out list" where
  "req_initialize pr f v p =
     (if f_init_sent f then (f, refuse f v ''initialize'' INVALID_REQUEST ''already initialized'')
      else let f1 = (if f_agent f = Ez then f\<lparr> f_browser_asks := wants_questions p \<rparr> else f)
           in forward pr (f1\<lparr> f_init_sent := True \<rparr>) v ''initialize'' (initialize_params f p) PInitialize)"

definition req_new :: "(json \<Rightarrow> string) \<Rightarrow> chat_filter \<Rightarrow> json \<Rightarrow> chat_filter \<times> chat_out list" where
  "req_new pr f v =
     (if \<not> f_init_sent f then (f, refuse f v ''session/new'' INVALID_REQUEST ''initialize first'')
      else if f_session f \<noteq> None \<or> f_establishing f then
        (f, refuse f v ''session/new'' INVALID_REQUEST ''this chat already has a session'')
      else forward pr (f\<lparr> f_establishing := True \<rparr>) v ''session/new''
             (session_params f (jobj [(''cwd'', JStr (f_worktree f)), (''mcpServers'', JArr [])])) PNew)"

definition req_load ::
  "(json \<Rightarrow> string) \<Rightarrow> chat_filter \<Rightarrow> json \<Rightarrow> (string \<times> json) list option \<Rightarrow> chat_filter \<times> chat_out list" where
  "req_load pr f v p =
     (if \<not> f_initialized f \<or> \<not> f_load_session f then
        (f, refuse f v ''session/load'' METHOD_NOT_FOUND ''session/load is not supported'')
      else if f_session f \<noteq> None \<or> f_establishing f then
        (f, refuse f v ''session/load'' INVALID_REQUEST ''this chat already has a session'')
      else
        let sid = (case str_field p ''sessionId'' of Some s \<Rightarrow> s | None \<Rightarrow> [])
        in if \<not> valid_session_id sid \<or> f_resume f \<noteq> Some sid then
             (f, refuse f v ''session/load'' INVALID_PARAMS ''unknown session'')
           else forward pr (f\<lparr> f_establishing := True \<rparr>) v ''session/load''
                  (session_params f (jobj [(''sessionId'', JStr sid), (''cwd'', JStr (f_worktree f)), (''mcpServers'', JArr [])]))
                  (PLoad sid))"

definition req_prompt ::
  "(json \<Rightarrow> string) \<Rightarrow> chat_filter \<Rightarrow> json \<Rightarrow> (string \<times> json) list option \<Rightarrow> chat_filter \<times> chat_out list" where
  "req_prompt pr f v p =
     (case check_session f p of
        Inl e \<Rightarrow> (f, refuse f v ''session/prompt'' INVALID_PARAMS e)
      | Inr sid \<Rightarrow>
          (case Option.bind (Option.bind p (\<lambda>m. map_of m ''prompt'')) as_array of
             None \<Rightarrow> (f, refuse f v ''session/prompt'' INVALID_PARAMS ''prompt must be an array'')
           | Some blocks \<Rightarrow>
               (case rebuild_prompt blocks of
                  Inl e \<Rightarrow> (f, refuse f v ''session/prompt'' INVALID_PARAMS e)
                | Inr prompt \<Rightarrow>
                    forward pr (f\<lparr> f_prompting := f_prompting f + 1 \<rparr>) v ''session/prompt''
                      (jobj [(''sessionId'', JStr sid), (''prompt'', JArr prompt)]) PPrompt)))"

definition req_set_mode ::
  "(json \<Rightarrow> string) \<Rightarrow> chat_filter \<Rightarrow> json \<Rightarrow> (string \<times> json) list option \<Rightarrow> chat_filter \<times> chat_out list" where
  "req_set_mode pr f v p =
     (case check_session f p of
        Inl e \<Rightarrow> (f, refuse f v ''session/set_mode'' INVALID_PARAMS e)
      | Inr sid \<Rightarrow>
          (let mode = (case str_field p ''modeId'' of Some s \<Rightarrow> s | None \<Rightarrow> []);
               params = jobj [(''sessionId'', JStr sid), (''modeId'', JStr mode)]
           in if f_agent f = Ez then
                (if mode \<notin> set (f_modes f) then
                   (f, refuse f v ''session/set_mode'' INVALID_PARAMS ''mode not offered by the agent'')
                 else forward pr f v ''session/set_mode'' params (PSetMode mode))
              else if mode \<notin> set ALLOWED_MODES then
                (f, refuse f v ''session/set_mode'' INVALID_PARAMS
                      ''mode not allowed (bypassPermissions, default or plan only)'')
              else if mode = mode_str Bypass \<and> \<not> f_allow_bypass f then
                (f, refuse f v ''session/set_mode'' INVALID_PARAMS ''bypassPermissions is disabled in this sandbox'')
              else forward pr f v ''session/set_mode'' params (PSetMode mode)))"

definition browser_request ::
  "(json \<Rightarrow> string) \<Rightarrow> chat_filter \<Rightarrow> string \<Rightarrow> json \<Rightarrow> (string \<times> json) list option \<Rightarrow> chat_filter \<times> chat_out list" where
  "browser_request pr f method v p =
     (if im_contains (f_pending f) (pr v) then (f, refuse f v method INVALID_REQUEST ''duplicate request id'')
      else if length (f_pending f) \<ge> MAX_PENDING_REQUESTS then
        (f, refuse f v method INVALID_REQUEST ''too many requests in flight'')
      else if method = ''initialize'' then req_initialize pr f v p
      else if method = ''session/new'' then req_new pr f v
      else if method = ''session/load'' then req_load pr f v p
      else if method = ''session/prompt'' then req_prompt pr f v p
      else if method = ''session/set_mode'' then req_set_mode pr f v p
      else if method = ''session/cancel'' then
        (f, refuse f v method INVALID_REQUEST ''session/cancel is a notification'')
      else (f, refuse f v method METHOD_NOT_FOUND ''method not allowed''))"

definition question_cancelled :: json where
  "question_cancelled = jobj [(''answers'', JArr []), (''cancelled'', JBool True)]"

definition permission_cancelled :: json where
  "permission_cancelled = jobj [(''outcome'', jobj [(''outcome'', JStr ''cancelled'')])]"

definition permission_selected :: "string \<Rightarrow> json" where
  "permission_selected o' = jobj [(''outcome'', jobj [(''outcome'', JStr ''selected''), (''optionId'', JStr o')])]"

definition cancel_permissions :: "(json \<Rightarrow> string) \<Rightarrow> chat_filter \<Rightarrow> chat_filter \<times> chat_out list" where
  "cancel_permissions pr f =
     (f\<lparr> f_questions := [], f_permissions := [] \<rparr>,
      concat (map (\<lambda>q. [ORecord ''question'' (jobj [(''decision'', JStr ''cancelled'')]),
                        OAgent (rpc_result (q_id q) question_cancelled)])
                (sort_key (\<lambda>q. pr (q_id q)) (map snd (f_questions f))))
      @ concat (map (\<lambda>r. [ORecord ''permission'' (jobj [(''tool_call_id'', pq_tool_call_id r), (''decision'', JStr ''cancelled'')]),
                          OAgent (rpc_result (pq_id r) permission_cancelled)])
                  (sort_key (\<lambda>r. pr (pq_id r)) (map snd (f_permissions f)))))"

definition cancel_message :: "string \<Rightarrow> json" where
  "cancel_message sid =
     jobj [(''jsonrpc'', JStr ''2.0''), (''method'', JStr ''session/cancel''), (''params'', jobj [(''sessionId'', JStr sid)])]"

definition session_cancel :: "chat_filter \<Rightarrow> json option" where
  "session_cancel f = map_option cancel_message (f_session f)"

definition browser_notification ::
  "(json \<Rightarrow> string) \<Rightarrow> chat_filter \<Rightarrow> string \<Rightarrow> (string \<times> json) list option \<Rightarrow> chat_filter \<times> chat_out list" where
  "browser_notification pr f method p =
     (if method \<noteq> ''session/cancel'' then
        (f, [dropped ''browser'' (''notification '' @ truncate method @ '' not allowed'')])
      else case check_session f p of
             Inl _ \<Rightarrow> (f, [dropped ''browser'' ''session/cancel for an unknown session''])
           | Inr sid \<Rightarrow>
               (let (f1, outs) = cancel_permissions pr f
                in (f1, outs @ [ORecord ''browser'' (jobj [(''method'', JStr method)]), OAgent (cancel_message sid)])))"

text \<open>The answer to a forwarded question, rebuilt from the question's own labels.\<close>

definition answer_one :: "json list \<Rightarrow> string \<times> bool \<times> string list \<Rightarrow> json option" where
  "answer_one given q =
     (case q of (qtext, multi, labels) \<Rightarrow>
        (case find (\<lambda>a. jget_str ''question'' a = Some qtext) given of
           None \<Rightarrow> None
         | Some a \<Rightarrow>
             (let selected = List.map_filter as_str (jget_array ''selected'' a);
                  other = (case jget ''other'' a of
                             None \<Rightarrow> Some JNull
                           | Some JNull \<Rightarrow> Some JNull
                           | Some (JStr s) \<Rightarrow> if int (length s) \<le> MAX_ANSWER_LEN then Some (JStr s) else None
                           | Some _ \<Rightarrow> None)
              in if list_ex (\<lambda>s. s \<notin> set labels) selected \<or> \<not> multi \<and> length selected > 1 then None
                 else if length (remdups_adj (sort selected)) \<noteq> length selected then None
                 else case other of
                        None \<Rightarrow> None
                      | Some ot \<Rightarrow>
                          if selected = [] \<and> ot = JNull then None
                          else Some (jobj [(''question'', JStr qtext), (''selected'', jstrs selected), (''other'', ot)]))))"

fun answer_all :: "json list \<Rightarrow> (string \<times> bool \<times> string list) list \<Rightarrow> json list option" where
  "answer_all given [] = Some []"
| "answer_all given (q # qs) =
     (case answer_one given q of
        None \<Rightarrow> None
      | Some a \<Rightarrow> map_option ((#) a) (answer_all given qs))"

definition question_answers :: "question_req \<Rightarrow> json option \<Rightarrow> json list option" where
  "question_answers q res =
     (case Option.bind res as_object of
        None \<Rightarrow> None
      | Some r \<Rightarrow>
          if Option.bind (map_of r ''cancelled'') as_bool = Some True then None
          else case Option.bind (map_of r ''answers'') as_array of
                 None \<Rightarrow> None
               | Some given \<Rightarrow> answer_all given (q_questions q))"

definition question_answer :: "chat_filter \<Rightarrow> question_req \<Rightarrow> json option \<Rightarrow> chat_out list" where
  "question_answer f q res =
     (let (r, decision) = (case question_answers q res of
            Some a \<Rightarrow> (jobj [(''answers'', JArr a), (''cancelled'', JBool False)], ''answered'')
          | None \<Rightarrow> (question_cancelled, ''cancelled''))
      in [ORecord ''question'' (chat_redact f (jobj [(''decision'', JStr decision), (''result'', r)])),
          OAgent (rpc_result (q_id q) r)])"

text \<open>
  \<^verbatim>\<open>chosen\<close> of a permission answer: \<open>None\<close> is an answer that is replaced, \<open>Some None\<close> a cancellation and
  \<open>Some (Some (option, kind))\<close> a choice.
\<close>

definition permission_chosen :: "perm_req \<Rightarrow> json option \<Rightarrow> (string \<times> string) option option" where
  "permission_chosen req res =
     (let outcome = Option.bind res (jget ''outcome'')
      in case Option.bind outcome (jget_str ''outcome'') of
           None \<Rightarrow> None
         | Some s \<Rightarrow>
             if s = ''cancelled'' then Some None
             else if s = ''selected'' then
               map_option Some
                 (find (\<lambda>(o', k). Some o' = Option.bind outcome (jget_str ''optionId'') \<and> (k = ''allow_once'' \<or> k = ''reject_once''))
                    (pq_options req))
             else None)"

definition permission_final :: "perm_req \<Rightarrow> json option \<Rightarrow> (string \<times> string) option" where
  "permission_final req res =
     (case permission_chosen req res of
        Some c \<Rightarrow> c
      | None \<Rightarrow> map_option (\<lambda>o'. (o', ''reject_once'')) (reject_option (pq_options req)))"

definition permission_answer :: "chat_filter \<Rightarrow> perm_req \<Rightarrow> json option \<Rightarrow> chat_out list" where
  "permission_answer f req res =
     (let (outcome, answer) = (case permission_final req res of
            Some (o', k) \<Rightarrow> (permission_selected o', k)
          | None \<Rightarrow> (permission_cancelled, ''cancelled''))
      in [ORecord ''permission''
            (chat_redact f (jobj [(''tool_call_id'', pq_tool_call_id req), (''decision'', JStr ''user''),
                             (''answer'', JStr answer), (''replaced'', JBool (permission_chosen req res = None))])),
          OAgent (rpc_result (pq_id req) outcome)])"

definition browser_response ::
  "(json \<Rightarrow> string) \<Rightarrow> chat_filter \<Rightarrow> json \<Rightarrow> (string \<times> json) list \<Rightarrow> chat_filter \<times> chat_out list" where
  "browser_response pr f v m =
     (case map_of (f_questions f) (pr v) of
        Some q \<Rightarrow>
          (let f1 = f\<lparr> f_questions := hm_remove (pr v) (f_questions f) \<rparr>
           in (f1, question_answer f1 q (map_of m ''result'')))
      | None \<Rightarrow>
          (case map_of (f_permissions f) (pr v) of
             None \<Rightarrow> (f, [dropped ''browser'' ''response to no outstanding permission request''])
           | Some req \<Rightarrow>
               (let f1 = f\<lparr> f_permissions := hm_remove (pr v) (f_permissions f) \<rparr>
                in (f1, permission_answer f1 req (map_of m ''result'')))))"

definition browser_message ::
  "(json \<Rightarrow> string) \<Rightarrow> chat_filter \<Rightarrow> (string \<times> json) list \<Rightarrow> chat_filter \<times> chat_out list" where
  "browser_message pr f m =
     (let params = Option.bind (map_of m ''params'') as_object
      in if Option.bind (map_of m ''jsonrpc'') as_str \<noteq> Some ''2.0'' then
           (f, case map_of m ''id'' of
                 None \<Rightarrow> [dropped ''browser'' ''not JSON-RPC 2.0'']
               | Some v \<Rightarrow>
                   if valid_id v then [OBrowser (rpc_error v INVALID_REQUEST ''jsonrpc must be \"2.0\"'')]
                   else [dropped ''browser'' ''not JSON-RPC 2.0''])
         else case (map_of m ''method'', map_of m ''id'') of
                (Some (JStr method), Some v) \<Rightarrow>
                  if \<not> valid_id v then (f, [OBrowser (rpc_error JNull INVALID_REQUEST ''invalid id'')])
                  else browser_request pr f method v params
              | (Some (JStr method), None) \<Rightarrow> browser_notification pr f method params
              | (None, Some v) \<Rightarrow> browser_response pr f v m
              | _ \<Rightarrow> (f, [dropped ''browser'' ''invalid message'']))"

definition from_browser ::
  "(string \<Rightarrow> json option) \<Rightarrow> (json \<Rightarrow> string) \<Rightarrow> chat_filter \<Rightarrow> string \<Rightarrow> chat_filter \<times> chat_out list" where
  "from_browser parse pr f line =
     (case parse line of
        None \<Rightarrow> (f, [OBrowser (rpc_error JNull PARSE_ERROR ''parse error'')])
      | Some (JObj m) \<Rightarrow> browser_message pr f m
      | Some _ \<Rightarrow> (f, [OBrowser (rpc_error JNull INVALID_REQUEST ''not a JSON-RPC message'')]))"

subsection \<open>Agent to browser\<close>

definition mode_note :: "chat_filter \<Rightarrow> string \<Rightarrow> string \<Rightarrow> json" where
  "mode_note f sid mode =
     jobj [(''jsonrpc'', JStr ''2.0''), (''method'', JStr MODE),
           (''params'', jobj [(''sessionId'', JStr sid), (''modeId'', JStr mode), (''bypassAllowed'', JBool (f_allow_bypass f))])]"

definition response_record :: "string \<Rightarrow> chat_out" where
  "response_record what = ORecord ''agent'' (jobj [(''response'', JStr what)])"

definition mode_record :: "string \<Rightarrow> chat_out" where
  "mode_record mode = ORecord ''mode'' (jobj [(''mode'', JStr mode)])"

definition established :: "chat_filter \<Rightarrow> (string \<times> json) list \<Rightarrow> string \<Rightarrow> chat_filter \<times> chat_out list" where
  "established f m sid =
     (f\<lparr> f_session := Some sid \<rparr>,
      [OSession sid, response_record ''result'', OBrowser (chat_redact f (JObj m)),
       mode_record (mode_str (f_mode f)), OBrowser (mode_note f sid (mode_str (f_mode f)))])"

definition result_modes :: "(string \<times> json) list \<Rightarrow> json option" where
  "result_modes m = Option.bind (map_of m ''result'') (jget ''modes'')"

definition offered_modes :: "(string \<times> json) list \<Rightarrow> string list" where
  "offered_modes m =
     (case Option.bind (Option.bind (result_modes m) (jget ''availableModes'')) as_array of
        Some a \<Rightarrow> take MAX_MODES (filter (\<lambda>i. i \<noteq> [] \<and> length i \<le> MAX_MODE_ID_LEN) (List.map_filter (jget_str ''id'') a))
      | None \<Rightarrow> [])"

definition current_mode :: "(string \<times> json) list \<Rightarrow> string option" where
  "current_mode m = Option.bind (result_modes m) (jget_str ''currentModeId'')"

definition establish_ez :: "chat_filter \<Rightarrow> (string \<times> json) list \<Rightarrow> string \<Rightarrow> chat_filter \<times> chat_out list" where
  "establish_ez f m sid =
     (let f1 = f\<lparr> f_modes := offered_modes m, f_session := Some sid \<rparr>
      in (f1, [OSession sid, response_record ''result'', OBrowser (chat_redact f1 (JObj m))]
              @ (case current_mode m of
                   None \<Rightarrow> []
                 | Some c \<Rightarrow> if c \<in> set (f_modes f1) then [mode_record c, OBrowser (mode_note f1 sid c)] else [])))"

text \<open>
  The loop that picks an id for the filter's own request. The counter is a 64-bit one; the fuel is one more
  than the number of ids in use, and \<open>None\<close> says that the loop has not ended by then.
\<close>

definition own_value :: "u64 \<Rightarrow> json" where
  "own_value n = JStr (OWN_ID_PREFIX @ show_uint (uint n))"

fun own_loop :: "(json \<Rightarrow> string) \<Rightarrow> chat_pending imap \<Rightarrow> nat \<Rightarrow> u64 \<Rightarrow> u64 option" where
  "own_loop pr m 0 n = None"
| "own_loop pr m (Suc k) n =
     (if im_contains m (pr (own_value (n + 1))) then own_loop pr m k (n + 1) else Some (n + 1))"

definition establish ::
  "(json \<Rightarrow> string) \<Rightarrow> chat_filter \<Rightarrow> (string \<times> json) list \<Rightarrow> string \<Rightarrow> (chat_filter \<times> chat_out list) option" where
  "establish pr f m sid =
     (let current = map_option truncate (current_mode m)
      in if f_agent f = Ez then Some (establish_ez f m sid)
         else if current = Some (mode_str (f_mode f)) then Some (established f m sid)
         else case own_loop pr (f_pending f) (Suc (length (f_pending f))) (f_own_ids f) of
                None \<Rightarrow> None
              | Some n \<Rightarrow>
                  Some (f\<lparr> f_own_ids := n, f_establishing := True,
                           f_pending := im_insert (pr (own_value n)) (PEnforce m sid) (f_pending f) \<rparr>,
                        [ORecord ''mode''
                           (chat_redact f (jobj [(''mode'', JStr (mode_str (f_mode f))), (''enforced'', JBool True),
                                            (''agent_mode'', jopt (map_option JStr current))])),
                         OAgent (rpc_request (own_value n) ''session/set_mode''
                                   (jobj [(''sessionId'', JStr sid), (''modeId'', JStr (mode_str (f_mode f)))]))]))"

definition set_current_mode :: "string \<Rightarrow> (string \<times> json) list \<Rightarrow> (string \<times> json) list" where
  "set_current_mode mode held =
     (case map_of held ''result'' of
        Some (JObj r) \<Rightarrow>
          (case map_of r ''modes'' of
             Some (JObj ms) \<Rightarrow>
               bt_insert ''result'' (JObj (bt_insert ''modes'' (JObj (bt_insert ''currentModeId'' (JStr mode) ms)) r)) held
           | _ \<Rightarrow> held)
      | _ \<Rightarrow> held)"

text \<open>What follows the match on the pending request: the response goes to the browser.\<close>

definition relay_response :: "chat_filter \<Rightarrow> chat_out list \<Rightarrow> (string \<times> json) list \<Rightarrow> chat_filter \<times> chat_out list" where
  "relay_response f outs m =
     (let msg = chat_redact f (JObj m)
      in (f, outs @ [response_record (if jget ''result'' msg = None then ''error'' else ''result''), OBrowser msg]))"

definition enforce_refused :: "chat_filter \<Rightarrow> (string \<times> json) list \<Rightarrow> chat_out list" where
  "enforce_refused f held =
     [ORecord ''refused''
        (jobj [(''method'', JStr ''session/set_mode''), (''reason'', JStr ''the agent refused the chat permission mode''),
               (''mode'', JStr (mode_str (f_mode f)))]),
      OBrowser (rpc_error (jopt (map_of held ''id'')) INTERNAL_ERROR
                  (''the chat agent cannot run in permission mode '' @ mode_str (f_mode f)))]"

definition response_pending ::
  "(json \<Rightarrow> string) \<Rightarrow> chat_filter \<Rightarrow> chat_pending \<Rightarrow> (string \<times> json) list \<Rightarrow> (chat_filter \<times> chat_out list) option" where
  "response_pending pr f pending m =
     (let res = Option.bind (map_of m ''result'') as_object
      in case pending of
           PInitialize \<Rightarrow>
             Some (relay_response
               (f\<lparr> f_initialized := True,
                   f_load_session := (case Option.bind (Option.bind (Option.bind res (\<lambda>r. map_of r ''agentCapabilities''))
                                              (jget ''loadSession'')) as_bool of Some b \<Rightarrow> b | None \<Rightarrow> False) \<rparr>) [] m)
         | PNew \<Rightarrow>
             (let f1 = f\<lparr> f_establishing := False \<rparr>
              in case Option.bind (Option.bind res (\<lambda>r. map_of r ''sessionId'')) as_str of
                   Some s \<Rightarrow>
                     if valid_session_id s then establish pr f1 m s
                     else Some (relay_response f1 [dropped ''agent'' ''invalid session id from session/new''] m)
                 | None \<Rightarrow> Some (relay_response f1 [] m))
         | PLoad sid \<Rightarrow>
             (let f1 = f\<lparr> f_establishing := False \<rparr>
              in if res \<noteq> None then establish pr f1 m sid else Some (relay_response f1 [] m))
         | PEnforce held sid \<Rightarrow>
             (let f1 = f\<lparr> f_establishing := False \<rparr>
              in if res \<noteq> None then Some (established f1 (set_current_mode (mode_str (f_mode f1)) held) sid)
                 else Some (f1, enforce_refused f1 held))
         | PSetMode mode \<Rightarrow>
             if res \<noteq> None then
               Some (f, [response_record ''result'', OBrowser (chat_redact f (JObj m)), mode_record mode,
                         OBrowser (mode_note f (case f_session f of Some s \<Rightarrow> s | None \<Rightarrow> []) mode)])
             else Some (relay_response f [] m)
         | PPrompt \<Rightarrow> Some (relay_response (f\<lparr> f_prompting := f_prompting f - 1 \<rparr>) [] m))"

definition agent_response ::
  "(json \<Rightarrow> string) \<Rightarrow> chat_filter \<Rightarrow> json \<Rightarrow> (string \<times> json) list \<Rightarrow> (chat_filter \<times> chat_out list) option" where
  "agent_response pr f v m =
     (case map_of (f_pending f) (pr v) of
        None \<Rightarrow> Some (f, [dropped ''agent'' ''response to no forwarded request''])
      | Some pending \<Rightarrow> response_pending pr (f\<lparr> f_pending := hm_remove (pr v) (f_pending f) \<rparr>) pending m)"

definition question_refused :: "json \<Rightarrow> string \<Rightarrow> chat_out list" where
  "question_refused v reason =
     [OAgent (rpc_result v question_cancelled),
      ORecord ''question'' (jobj [(''decision'', JStr ''cancelled''), (''reason'', JStr reason)])]"

definition question_of :: "json \<Rightarrow> (string \<times> bool \<times> string list) option" where
  "question_of q =
     (case (jget_str ''question'' q, Option.bind (jget ''options'' q) as_array) of
        (Some qtext, Some opts) \<Rightarrow>
          Some (qtext, (case Option.bind (jget ''multiSelect'' q) as_bool of Some b \<Rightarrow> b | None \<Rightarrow> False),
                List.map_filter (jget_str ''label'') opts)
      | _ \<Rightarrow> None)"

definition questions_of :: "(string \<times> json) list \<Rightarrow> (string \<times> bool \<times> string list) list option" where
  "questions_of m =
     map_option (List.map_filter question_of)
       (Option.bind (Option.bind (map_of m ''params'') (jget ''questions'')) as_array)"

definition agent_question ::
  "(json \<Rightarrow> string) \<Rightarrow> chat_filter \<Rightarrow> json \<Rightarrow> (string \<times> json) list \<Rightarrow> chat_filter \<times> chat_out list" where
  "agent_question pr f v m =
     (if \<not> f_browser_asks f then (f, question_refused v ''the chat client cannot answer questions'')
      else if im_contains (f_questions f) (pr v) \<or> length (f_permissions f) + length (f_questions f) \<ge> MAX_PENDING_PERMISSIONS
        then (f, question_refused v ''question id in use or too many pending'')
      else case questions_of m of
             None \<Rightarrow> (f, question_refused v ''no questions'')
           | Some qs \<Rightarrow>
               if qs = [] then (f, question_refused v ''no questions'')
               else let f1 = f\<lparr> f_questions := im_insert (pr v) \<lparr> q_id = v, q_questions = qs \<rparr> (f_questions f) \<rparr>;
                        msg = chat_redact f1 (JObj m)
                    in (f1, [ORecord ''question'' (jobj [(''decision'', JStr ''ask''), (''params'', jopt (jget ''params'' msg))]),
                             OBrowser msg]))"

definition perm_option :: "json \<Rightarrow> (string \<times> string) option" where
  "perm_option o' =
     (case (jget_str ''optionId'' o', jget_str ''kind'' o') of (Some a, Some k) \<Rightarrow> Some (a, k) | _ \<Rightarrow> None)"

definition perm_options :: "(string \<times> json) list option \<Rightarrow> (string \<times> string) list" where
  "perm_options p =
     (case Option.bind (Option.bind p (\<lambda>m. map_of m ''options'')) as_array of
        Some a \<Rightarrow> List.map_filter perm_option a | None \<Rightarrow> [])"

definition dup_options :: "(string \<times> string) list \<Rightarrow> bool" where
  "dup_options options = (let ids = sort (map fst options) in list_ex (\<lambda>(a, b). a = b) (zip ids (tl ids)))"

definition permission_record :: "json \<Rightarrow> (string \<times> json) list \<Rightarrow> json" where
  "permission_record tool_call decided =
     jobj ([(''tool_call_id'', jopt (jget ''toolCallId'' tool_call)), (''tool_kind'', jopt (jget ''kind'' tool_call)),
            (''title'', jopt (jget ''title'' tool_call)), (''input'', jopt (jget ''rawInput'' tool_call))] @ decided)"

definition permission_request ::
  "(json \<Rightarrow> string) \<Rightarrow> chat_filter \<Rightarrow> json \<Rightarrow> (string \<times> json) list \<Rightarrow> chat_filter \<times> chat_out list" where
  "permission_request pr f v m =
     (let p = Option.bind (map_of m ''params'') as_object;
          tool_call = jopt (Option.bind p (\<lambda>m. map_of m ''toolCall''));
          options = perm_options p;
          option = allow_option options
      in if dup_options options \<or> im_contains (f_permissions f) (pr v) \<or> length (f_permissions f) \<ge> MAX_PENDING_PERMISSIONS
         then (f, [OAgent (rpc_result v permission_cancelled),
                   dropped ''agent'' ''permission request id in use or too many pending''])
         else if jget_str ''kind'' tool_call = Some ''switch_mode'' then
           (f\<lparr> f_permissions := im_insert (pr v)
                 \<lparr> pq_id = v, pq_options = options, pq_tool_call_id = jopt (jget ''toolCallId'' tool_call) \<rparr>
                 (f_permissions f) \<rparr>,
            [ORecord ''permission'' (chat_redact f (permission_record tool_call [(''decision'', JStr ''ask'')])),
             OBrowser (chat_redact f (JObj m))])
         else
           (f, [OAgent (rpc_result v (case option of Some o' \<Rightarrow> permission_selected o' | None \<Rightarrow> permission_cancelled)),
                ORecord ''permission''
                  (chat_redact f (permission_record tool_call
                     [(''decision'', JStr ''allow''), (''rule'', JStr ''sandbox''), (''option_id'', jopt (map_option JStr option))]))]))"

definition agent_request ::
  "(json \<Rightarrow> string) \<Rightarrow> chat_filter \<Rightarrow> string \<Rightarrow> json \<Rightarrow> (string \<times> json) list \<Rightarrow> chat_filter \<times> chat_out list" where
  "agent_request pr f method v m =
     (if f_agent f = Ez \<and> method = ASK_USER_QUESTION then agent_question pr f v m
      else if method \<noteq> ''session/request_permission'' then
        (f, [OAgent (rpc_error v METHOD_NOT_FOUND ''method not available''),
             dropped ''agent'' (''request '' @ truncate method @ '' refused'')])
      else permission_request pr f v m)"

definition agent_notification :: "chat_filter \<Rightarrow> string \<Rightarrow> (string \<times> json) list \<Rightarrow> chat_out list" where
  "agent_notification f method m =
     (if method = ''session/update'' then
        (let msg = chat_redact f (JObj m) in [ORecord ''update'' (jopt (jget ''params'' msg)), OBrowser msg])
      else [dropped ''agent'' (''notification '' @ truncate method @ '' not relayed'')])"

definition from_agent ::
  "(string \<Rightarrow> json option) \<Rightarrow> (json \<Rightarrow> string) \<Rightarrow> chat_filter \<Rightarrow> string \<Rightarrow> (chat_filter \<times> chat_out list) option" where
  "from_agent parse pr f line =
     (case parse line of
        Some (JObj m) \<Rightarrow>
          (let v = (case map_of m ''id'' of Some v \<Rightarrow> if valid_id v then Some v else None | None \<Rightarrow> None)
           in case (Option.bind (map_of m ''method'') as_str, v) of
                (Some method, Some v) \<Rightarrow> Some (agent_request pr f method v m)
              | (Some method, None) \<Rightarrow> Some (f, agent_notification f method m)
              | (None, Some v) \<Rightarrow> agent_response pr f v m
              | (None, None) \<Rightarrow> Some (f, [dropped ''agent'' ''invalid message'']))
      | _ \<Rightarrow> Some (f, [dropped ''agent'' ''invalid JSON-RPC'']))"

end
