(* ===== verification/Chat_Props.thy ===== *)
theory Chat_Props
  imports Chat_Filter Machine_Interface "HOL-Library.Multiset"
begin

text \<open>
  The chat filter over a whole chat: its invariant, that every handler returns, that every request of the
  agent is answered exactly once, that there is at most one session, and what can reach the agent.
\<close>

section \<open>Runs\<close>

text \<open>What happens to a filter: a line from either side, and the cancellation when a chat is closed.\<close>

datatype filter_event = FromBrowser string | FromAgent string | CancelAll

fun chat_step ::
  "(string \<Rightarrow> json option) \<Rightarrow> (json \<Rightarrow> string) \<Rightarrow> chat_filter \<Rightarrow> filter_event \<Rightarrow> (chat_filter \<times> chat_out list) option" where
  "chat_step parse pr f (FromBrowser line) = Some (from_browser parse pr f line)"
| "chat_step parse pr f (FromAgent line) = from_agent parse pr f line"
| "chat_step parse pr f CancelAll = Some (cancel_permissions pr f)"

fun chat_run ::
  "(string \<Rightarrow> json option) \<Rightarrow> (json \<Rightarrow> string) \<Rightarrow> chat_filter \<Rightarrow> filter_event list \<Rightarrow> (chat_filter \<times> chat_out list) option" where
  "chat_run parse pr f [] = Some (f, [])"
| "chat_run parse pr f (e # es) =
     (case chat_step parse pr f e of
        None \<Rightarrow> None
      | Some (f1, o1) \<Rightarrow> map_option (\<lambda>(f2, o2). (f2, o1 @ o2)) (chat_run parse pr f1 es))"

section \<open>Tables\<close>

lemma im_insert_new: "k \<notin> set (map fst m) \<Longrightarrow> im_insert k v m = m @ [(k, v)]"
  by (induction k v m rule: im_insert.induct) auto

lemma hm_remove_split:
  assumes "distinct (map fst m)" and "map_of m k = Some v"
  obtains a b where "m = a @ (k, v) # b" and "hm_remove k m = a @ b"
proof -
  from assms(2) obtain a b where m: "m = a @ (k, v) # b" by (meson map_of_SomeD split_list)
  then have "k \<notin> set (map fst a)" "k \<notin> set (map fst b)" using assms(1) by auto
  then have "filter (\<lambda>e. fst e \<noteq> k) a = a" "filter (\<lambda>e. fst e \<noteq> k) b = b" by (auto simp: filter_id_conv)
  then have "hm_remove k m = a @ b" by (simp add: m hm_remove_def)
  then show ?thesis using m that by blast
qed

section \<open>The invariant\<close>

definition opens_session :: "chat_pending \<Rightarrow> bool" where
  "opens_session p = (case p of PNew \<Rightarrow> True | PLoad _ \<Rightarrow> True | PEnforce _ _ \<Rightarrow> True | _ \<Rightarrow> False)"

definition mode_allowed :: "chat_filter \<Rightarrow> string \<Rightarrow> bool" where
  "mode_allowed f m \<longleftrightarrow>
     (f_agent f = Claude \<longrightarrow> m \<in> set ALLOWED_MODES \<and> (m = mode_str Bypass \<longrightarrow> f_allow_bypass f))"

definition sound_pending :: "chat_filter \<Rightarrow> chat_pending \<Rightarrow> bool" where
  "sound_pending f p =
     (case p of
        PLoad s \<Rightarrow> valid_session_id s \<and> f_resume f = Some s
      | PEnforce _ s \<Rightarrow> valid_session_id s
      | PSetMode m \<Rightarrow> mode_allowed f m
      | _ \<Rightarrow> True)"

definition table_ok :: "nat \<Rightarrow> 'v imap \<Rightarrow> bool" where
  "table_ok n m \<longleftrightarrow> distinct (map fst m) \<and> length m \<le> n"

text \<open>The permission requests the browser has: few, and the option ids of each are distinct.\<close>

definition perms_ok :: "perm_req imap \<Rightarrow> bool" where
  "perms_ok m \<longleftrightarrow> table_ok MAX_PENDING_PERMISSIONS m \<and> list_all (\<lambda>e. distinct (map fst (pq_options (snd e)))) m"

definition filter_ok :: "chat_filter \<Rightarrow> bool" where
  "filter_ok f \<longleftrightarrow>
     table_ok MAX_PENDING_REQUESTS (f_pending f) \<and>
     perms_ok (f_permissions f) \<and> table_ok MAX_PENDING_PERMISSIONS (f_questions f) \<and>
     f_prompting f = length (filter (\<lambda>e. snd e = PPrompt) (f_pending f)) \<and>
     length (filter (\<lambda>e. opens_session (snd e)) (f_pending f)) = (if f_establishing f then 1 else 0) \<and>
     (f_establishing f \<longrightarrow> f_session f = None) \<and>
     list_all (\<lambda>e. sound_pending f (snd e)) (f_pending f) \<and>
     (case f_session f of Some s \<Rightarrow> valid_session_id s | None \<Rightarrow> True) \<and>
     (f_agent f = Claude \<longrightarrow> f_mode f = Bypass \<longrightarrow> f_allow_bypass f)"

text \<open>What a filter is set up with stays.\<close>

definition config :: "chat_filter \<Rightarrow> chat_agent \<times> chat_mode \<times> bool \<times> string \<times> string list \<times> string option" where
  "config f = (f_agent f, f_mode f, f_allow_bypass f, f_worktree f, f_secrets f, f_resume f)"

lemma table_insert:
  "table_ok n m \<Longrightarrow> \<not> im_contains m k \<Longrightarrow> length m < n \<Longrightarrow> im_insert k v m = m @ [(k, v)] \<and> table_ok n (m @ [(k, v)])"
  by (auto simp: table_ok_def im_contains_iff im_insert_new)

lemma table_remove:
  assumes "table_ok n m" and "map_of m k = Some v"
  obtains a b where "m = a @ (k, v) # b" "hm_remove k m = a @ b" "table_ok n (a @ b)" "length (a @ b) < n"
proof -
  obtain a b where ab: "m = a @ (k, v) # b" "hm_remove k m = a @ b"
    using hm_remove_split [of m k v] assms unfolding table_ok_def by blast
  then have "table_ok n (a @ b)" "length (a @ b) < n" using assms(1) by (auto simp: table_ok_def)
  then show ?thesis using ab that by blast
qed

lemma perms_remove:
  assumes "perms_ok m" and "map_of m k = Some v"
  obtains a b where "m = a @ (k, v) # b" "hm_remove k m = a @ b" "perms_ok (a @ b)"
proof -
  obtain a b where ab: "m = a @ (k, v) # b" "hm_remove k m = a @ b" "table_ok MAX_PENDING_PERMISSIONS (a @ b)"
    using table_remove [of _ m k v] assms unfolding perms_ok_def by metis
  then have "perms_ok (a @ b)" using assms(1) by (simp add: perms_ok_def)
  then show ?thesis using ab that by blast
qed

lemma config_cong: "config f' = config f \<Longrightarrow> sound_pending f' p = sound_pending f p \<and> mode_allowed f' m = mode_allowed f m"
  by (auto simp: config_def sound_pending_def mode_allowed_def split: chat_pending.splits)

lemma with_agent_ok: "filter_ok (with_agent agent mode allow wt secs resume)"
  by (simp add: filter_ok_def with_agent_def table_ok_def perms_ok_def)

text \<open>Adding and removing a pending request, for any state that differs in nothing else.\<close>

definition same_asks :: "chat_filter \<Rightarrow> chat_filter \<Rightarrow> bool" where
  "same_asks f f' \<longleftrightarrow> f_permissions f' = f_permissions f \<and> f_questions f' = f_questions f \<and> config f' = config f"

lemma same_asks_refl [simp]: "same_asks f f"
  by (simp add: same_asks_def)

lemma filter_okD:
  assumes "filter_ok f"
  shows "table_ok MAX_PENDING_REQUESTS (f_pending f)" "perms_ok (f_permissions f)"
    "table_ok MAX_PENDING_PERMISSIONS (f_questions f)" "f_prompting f = length (filter (\<lambda>e. snd e = PPrompt) (f_pending f))"
    "length (filter (\<lambda>e. opens_session (snd e)) (f_pending f)) = (if f_establishing f then 1 else 0)"
    "f_establishing f \<Longrightarrow> f_session f = None" "list_all (\<lambda>e. sound_pending f (snd e)) (f_pending f)"
    "f_session f = Some s \<Longrightarrow> valid_session_id s"
  using assms by (auto simp: filter_ok_def)

text \<open>A state with the same configuration as a good one: what is left to show.\<close>

lemma filter_okI:
  assumes "filter_ok f" and "config f' = config f"
    and "table_ok MAX_PENDING_REQUESTS (f_pending f')" "perms_ok (f_permissions f')"
      "table_ok MAX_PENDING_PERMISSIONS (f_questions f')" "f_prompting f' = length (filter (\<lambda>e. snd e = PPrompt) (f_pending f'))"
      "length (filter (\<lambda>e. opens_session (snd e)) (f_pending f')) = (if f_establishing f' then 1 else 0)"
      "f_establishing f' \<Longrightarrow> f_session f' = None" "list_all (\<lambda>e. sound_pending f (snd e)) (f_pending f')"
      "\<And>s. f_session f' = Some s \<Longrightarrow> valid_session_id s"
  shows "filter_ok f'"
proof -
  have "sound_pending f' q = sound_pending f q" for q using config_cong assms(2) by blast
  then have "list_all (\<lambda>e. sound_pending f' (snd e)) (f_pending f')" using assms(9) by simp
  moreover have "f_agent f' = Claude \<Longrightarrow> f_mode f' = Bypass \<Longrightarrow> f_allow_bypass f'"
    using assms(1,2) unfolding filter_ok_def config_def by simp
  ultimately show ?thesis unfolding filter_ok_def using assms(3-8,10) by (simp split: option.split)
qed

lemma pending_add:
  assumes ok: "filter_ok f" and new: "\<not> im_contains (f_pending f) k" "length (f_pending f) < MAX_PENDING_REQUESTS"
    and p: "sound_pending f p" "opens_session p \<Longrightarrow> \<not> f_establishing f \<and> f_session f = None"
    and f': "f_pending f' = im_insert k p (f_pending f)" "same_asks f f'" "f_session f' = f_session f"
      "f_prompting f' = f_prompting f + (if p = PPrompt then 1 else 0)"
      "f_establishing f' = (f_establishing f \<or> opens_session p)"
  shows "filter_ok f'"
proof -
  have t: "f_pending f' = f_pending f @ [(k, p)]" "table_ok MAX_PENDING_REQUESTS (f_pending f @ [(k, p)])"
    using table_insert [of _ "f_pending f" k p] filter_okD(1) [OF ok] new f'(1) by simp_all
  show ?thesis
  proof (rule filter_okI [OF ok])
    show "f_prompting f' = length (filter (\<lambda>e. snd e = PPrompt) (f_pending f'))"
      using f'(4) t filter_okD(4) [OF ok] by simp
    show "length (filter (\<lambda>e. opens_session (snd e)) (f_pending f')) = (if f_establishing f' then 1 else 0)"
      using f'(5) t filter_okD(5) [OF ok] p(2) by simp
    show "f_session f' = None" if "f_establishing f'" using that f'(3,5) filter_okD(6) [OF ok] p(2) by auto
    show "list_all (\<lambda>e. sound_pending f (snd e)) (f_pending f')" using t filter_okD(7) [OF ok] p(1) by simp
  qed (use f' t filter_okD [OF ok] in \<open>simp_all add: same_asks_def\<close>)
qed

lemma pending_del:
  assumes ok: "filter_ok f" and p: "map_of (f_pending f) k = Some p"
    and f': "f_pending f' = hm_remove k (f_pending f)" "same_asks f f'" "f_session f' = f_session f"
      "f_prompting f' = f_prompting f - (if p = PPrompt then 1 else 0)"
      "f_establishing f' = (f_establishing f \<and> \<not> opens_session p)"
  shows "filter_ok f' \<and> length (f_pending f') < MAX_PENDING_REQUESTS \<and> sound_pending f' p \<and>
         (opens_session p \<longrightarrow> f_session f' = None \<and> \<not> f_establishing f')"
proof -
  obtain a b where t: "f_pending f = a @ (k, p) # b" "hm_remove k (f_pending f) = a @ b"
      "table_ok MAX_PENDING_REQUESTS (a @ b)" "length (a @ b) < MAX_PENDING_REQUESTS"
    using table_remove [OF filter_okD(1) [OF ok] p] .
  have c: "sound_pending f' q = sound_pending f q" for q using config_cong [of f' f q] f'(2) unfolding same_asks_def by blast
  have est: "opens_session p \<Longrightarrow> f_establishing f"
    using filter_okD(5) [OF ok] by (simp add: t(1) split: if_splits)
  have "filter_ok f'"
  proof (rule filter_okI [OF ok])
    show "f_prompting f' = length (filter (\<lambda>e. snd e = PPrompt) (f_pending f'))"
      unfolding f'(1,4) t(2) filter_okD(4) [OF ok] unfolding t(1) by simp
    show "length (filter (\<lambda>e. opens_session (snd e)) (f_pending f')) = (if f_establishing f' then 1 else 0)"
      using filter_okD(5) [OF ok] est unfolding f'(1,5) t(2) unfolding t(1) by (auto split: if_splits)
    show "list_all (\<lambda>e. sound_pending f (snd e)) (f_pending f')"
      using filter_okD(7) [OF ok] unfolding f'(1) t(2) unfolding t(1) by simp
  qed (use f' t filter_okD [OF ok] in \<open>simp_all add: same_asks_def\<close>)
  moreover have "sound_pending f p" using filter_okD(7) [OF ok] unfolding t(1) by simp
  ultimately show ?thesis using f'(1,3,5) t(2,4) est filter_okD(6) [OF ok] by (auto simp: c)
qed

text \<open>Handlers that leave the pending requests and the session alone.\<close>

definition same_requests :: "chat_filter \<Rightarrow> chat_filter \<Rightarrow> bool" where
  "same_requests f f' \<longleftrightarrow>
     f_pending f' = f_pending f \<and> f_session f' = f_session f \<and> f_prompting f' = f_prompting f \<and>
     f_establishing f' = f_establishing f \<and> config f' = config f"

lemma requests_ok:
  assumes "filter_ok f" and "same_requests f f'"
    and "perms_ok (f_permissions f')" "table_ok MAX_PENDING_PERMISSIONS (f_questions f')"
  shows "filter_ok f'"
  by (rule filter_okI [OF assms(1)]) (use assms(2-4) filter_okD [OF assms(1)] in \<open>simp_all add: same_requests_def\<close>)

lemma session_set:
  assumes "filter_ok f" and "\<not> f_establishing f" and "valid_session_id s"
    and "f_pending f' = f_pending f" "same_asks f f'" "f_prompting f' = f_prompting f" "\<not> f_establishing f'"
      "f_session f' = Some s"
  shows "filter_ok f'"
  by (rule filter_okI [OF assms(1)]) (use assms(2-8) filter_okD [OF assms(1)] in \<open>simp_all add: same_asks_def\<close>)

section \<open>What the handlers do\<close>

text \<open>Answers to requests of the agent, and the requests it still waits for.\<close>

fun answer_id :: "chat_out \<Rightarrow> json option" where
  "answer_id (OAgent v) = (if jget ''method'' v = None then jget ''id'' v else None)"
| "answer_id _ = None"

definition answered :: "chat_out list \<Rightarrow> json list" where
  "answered outs = List.map_filter answer_id outs"

definition outstanding :: "chat_filter \<Rightarrow> json list" where
  "outstanding f = map (\<lambda>e. pq_id (snd e)) (f_permissions f) @ map (\<lambda>e. q_id (snd e)) (f_questions f)"

lemma answered_simps [simp]:
  "answered [] = []"
  "answered (x # xs) = (case answer_id x of Some v \<Rightarrow> v # answered xs | None \<Rightarrow> answered xs)"
  "answered (xs @ ys) = answered xs @ answered ys"
  by (simp_all add: answered_def List.map_filter_def split: option.splits)

lemma answer_id_simps [simp]:
  "answer_id (OAgent (rpc_result v r)) = Some v"
  "answer_id (OAgent (rpc_error v c msg)) = Some v"
  "answer_id (OAgent (rpc_request v method params)) = None"
  "answer_id (OAgent (cancel_message sid)) = None"
  "answer_id (dropped a b) = None" "answer_id (response_record w) = None" "answer_id (mode_record w) = None"
  by (simp_all add: rpc_result_def rpc_error_def rpc_request_def cancel_message_def dropped_def response_record_def
      mode_record_def jget_jobj)

declare answer_id.simps(1) [simp del]

fun session_of :: "chat_out \<Rightarrow> string option" where
  "session_of (OSession s) = Some s"
| "session_of _ = None"

definition sessions :: "chat_out list \<Rightarrow> string list" where
  "sessions outs = List.map_filter session_of outs"

lemma sessions_simps [simp]:
  "sessions [] = []"
  "sessions (x # xs) = (case session_of x of Some v \<Rightarrow> v # sessions xs | None \<Rightarrow> sessions xs)"
  "sessions (xs @ ys) = sessions xs @ sessions ys"
  by (simp_all add: sessions_def List.map_filter_def split: option.splits)

lemma session_of_simps [simp]:
  "session_of (dropped a b) = None" "session_of (response_record w) = None" "session_of (mode_record w) = None"
  by (simp_all add: dropped_def response_record_def mode_record_def)

section \<open>What may reach the agent\<close>

text \<open>A block of a prompt: only the known fields, and the bytes of its text.\<close>

definition prompt_block :: "json \<Rightarrow> bool" where
  "prompt_block b \<longleftrightarrow>
     (case b of
        JObj m \<Rightarrow>
          map_of m ''type'' = Some (JStr ''text'') \<and> set (map fst m) \<subseteq> {''type'', ''text''} \<or>
          map_of m ''type'' = Some (JStr ''resource_link'') \<and>
          set (map fst m) \<subseteq> {''type'', ''uri'', ''name'', ''title'', ''description'', ''mimeType'', ''size''}
      | _ \<Rightarrow> False)"

definition field_size :: "string \<Rightarrow> json \<Rightarrow> int" where
  "field_size k b = (case jget_str k b of Some s \<Rightarrow> int (length s) | None \<Rightarrow> 0)"

definition block_size :: "json \<Rightarrow> int" where
  "block_size b = (\<Sum>k\<leftarrow>[''text'', ''uri'', ''name'', ''title'', ''description'', ''mimeType'']. field_size k b)"

definition session_start :: "chat_filter \<Rightarrow> json \<Rightarrow> bool" where
  "session_start f p \<longleftrightarrow>
     jget ''cwd'' p = Some (JStr (f_worktree f)) \<and> jget ''mcpServers'' p = Some (JArr []) \<and>
     jget ''_meta'' p = (if f_agent f = Ez then None else Some (session_meta (f_mode f) (f_allow_bypass f)))"

definition no_client_services :: "json \<Rightarrow> bool" where
  "no_client_services p \<longleftrightarrow>
     Option.bind (jget ''clientCapabilities'' p) (jget ''terminal'') = Some (JBool False) \<and>
     Option.bind (jget ''clientCapabilities'' p) (jpointer2 ''fs'' ''readTextFile'') = Some (JBool False) \<and>
     Option.bind (jget ''clientCapabilities'' p) (jpointer2 ''fs'' ''writeTextFile'') = Some (JBool False)"

text \<open>The requests and notifications the agent may get in a state of the filter.\<close>

inductive request_msg :: "chat_filter \<Rightarrow> string \<Rightarrow> json \<Rightarrow> bool" for f where
  msg_initialize: "no_client_services p \<Longrightarrow> request_msg f ''initialize'' p"
| msg_new: "session_start f p \<Longrightarrow> jget ''sessionId'' p = None \<Longrightarrow> request_msg f ''session/new'' p"
| msg_load:
    "session_start f p \<Longrightarrow> f_resume f = Some s \<Longrightarrow> jget ''sessionId'' p = Some (JStr s) \<Longrightarrow>
     request_msg f ''session/load'' p"
| msg_prompt:
    "f_session f = Some s \<Longrightarrow> bs \<noteq> [] \<Longrightarrow> list_all prompt_block bs \<Longrightarrow> sum_list (map block_size bs) \<le> MAX_PROMPT_BYTES \<Longrightarrow>
     request_msg f ''session/prompt'' (jobj [(''sessionId'', JStr s), (''prompt'', JArr bs)])"
| msg_set_mode:
    "valid_session_id s \<Longrightarrow> mode_allowed f m \<Longrightarrow>
     request_msg f ''session/set_mode'' (jobj [(''sessionId'', JStr s), (''modeId'', JStr m)])"
| msg_cancel: "f_session f = Some s \<Longrightarrow> request_msg f ''session/cancel'' (jobj [(''sessionId'', JStr s)])"

definition agent_msg :: "chat_filter \<Rightarrow> json \<Rightarrow> bool" where
  "agent_msg f v \<longleftrightarrow>
     (case jget ''method'' v of
        None \<Rightarrow> True
      | Some (JStr method) \<Rightarrow> request_msg f method (jopt (jget ''params'' v))
      | Some _ \<Rightarrow> False)"

lemma agent_msg_simps [simp]:
  "agent_msg f (rpc_result v r)" "agent_msg f (rpc_error v c msg)"
  "agent_msg f (rpc_request v method params) = request_msg f method params"
  by (simp_all add: agent_msg_def rpc_result_def rpc_error_def rpc_request_def jget_jobj jopt_def)

lemma agent_msg_cancel: "f_session f = Some s \<Longrightarrow> agent_msg f (cancel_message s)"
  by (simp add: agent_msg_def cancel_message_def jget_jobj jopt_def msg_cancel)

lemma agent_msg_mono:
  assumes "config f' = config f" and "f_session f = None \<or> f_session f' = f_session f" and "agent_msg f v"
  shows "agent_msg f' v"
proof -
  have c: "f_agent f' = f_agent f" "f_mode f' = f_mode f" "f_allow_bypass f' = f_allow_bypass f"
      "f_worktree f' = f_worktree f" "f_resume f' = f_resume f"
    using assms(1) by (simp_all add: config_def)
  then have e: "mode_allowed f' = mode_allowed f" "session_start f' = session_start f"
    by (simp_all add: fun_eq_iff mode_allowed_def session_start_def)
  have "request_msg f' m p" if "request_msg f m p" for m p
    using that
  proof (induction rule: request_msg.induct)
    case (msg_load p s)
    then show ?case using c(5) by (auto intro: request_msg.msg_load simp: e)
  qed (use assms(2) in \<open>auto intro: request_msg.intros simp: e\<close>)
  then show ?thesis using assms(3) by (auto simp: agent_msg_def split: option.splits json.splits)
qed

text \<open>The blocks of a rebuilt prompt.\<close>

lemma jobj_keys: "set (map fst (bt_of kvs)) = set (map fst kvs)"
proof -
  have "set (map fst (bt_extend m kvs)) = set (map fst m) \<union> set (map fst kvs)" for m :: "'a btree"
    by (induction kvs arbitrary: m) (auto simp: bt_extend_def bt_insert_keys simp del: set_map)
  from this [of "[]"] show ?thesis by (simp add: bt_of_def)
qed

definition link_like :: "int \<Rightarrow> json \<Rightarrow> bool" where
  "link_like n v \<longleftrightarrow> prompt_block v \<and> jget_str ''type'' v = Some ''resource_link'' \<and> block_size v = n"

lemma jget_str_jset: "jget_str k (jset k' (JStr s) (JObj m)) = (if k = k' then Some s else jget_str k (JObj m))"
  by (simp add: jget_str_def jset_def)

lemma link_extra_like:
  assumes "k \<in> {''title'', ''description'', ''mimeType''}" and "link_like n v" and "jget_str k v = None"
  shows "(case link_extra b (n, v) k of (n', v') \<Rightarrow> link_like n' v' \<and> (\<forall>k'. k' \<noteq> k \<longrightarrow> jget_str k' v' = jget_str k' v))"
proof -
  obtain m where v: "v = JObj m" using assms(2) by (cases v) (auto simp: link_like_def prompt_block_def)
  show ?thesis
  proof (cases "jget_str k b")
    case (Some s)
    have keys: "set (map fst (bt_insert k (JStr s) m)) = insert k (set (map fst m))" by (rule bt_insert_keys)
    have z: "field_size k (JObj m) = 0" using assms(3) by (simp add: v field_size_def)
    have "field_size k' (jset k (JStr s) (JObj m)) = (if k' = k then int (length s) else field_size k' (JObj m))" for k'
      by (simp add: field_size_def jget_str_jset)
    then have "block_size (jset k (JStr s) (JObj m)) = block_size (JObj m) + int (length s)"
      using assms(1) z by (auto simp: block_size_def)
    moreover have "map_of m ''type'' = Some (JStr ''resource_link'')"
      "set (map fst m) \<subseteq> {''type'', ''uri'', ''name'', ''title'', ''description'', ''mimeType'', ''size''}"
      using assms(2) unfolding v link_like_def prompt_block_def by (auto simp: jget_str_def)
    then have "prompt_block (jset k (JStr s) (JObj m))"
      using assms(1) keys by (auto simp: prompt_block_def jset_def simp del: set_map)
    moreover have "jget_str ''type'' (jset k (JStr s) (JObj m)) = Some ''resource_link''"
      using assms(1,2) by (auto simp: jget_str_jset v link_like_def)
    ultimately show ?thesis using assms(2) Some
      by (simp add: link_extra_def v link_like_def jget_str_jset)
  qed (use assms in \<open>simp add: link_extra_def\<close>)
qed

lemma link_base:
  "link_like (int (length uri) + int (length name))
     (jobj [(''type'', JStr ''resource_link''), (''uri'', JStr uri), (''name'', JStr name)])"
  (is "link_like _ (jobj ?kvs)")
proof -
  have "set (map fst (bt_of ?kvs)) = {''type'', ''uri'', ''name''}" unfolding jobj_keys by simp
  then have "prompt_block (jobj ?kvs)"
    using jget_jobj [of "''type''" ?kvs] by (auto simp: prompt_block_def jobj_def simp del: set_map)
  then show ?thesis
    by (simp add: link_like_def block_size_def field_size_def jget_str_def jget_jobj)
qed

lemma link_all:
  assumes "link_like n v" and "jget_str ''title'' v = None" "jget_str ''description'' v = None" "jget_str ''mimeType'' v = None"
    and "foldl (link_extra b) (n, v) [''title'', ''description'', ''mimeType''] = (n', v')"
  shows "link_like n' v'"
proof -
  obtain n1 v1 where 1: "link_extra b (n, v) ''title'' = (n1, v1)" by fastforce
  obtain n2 v2 where 2: "link_extra b (n1, v1) ''description'' = (n2, v2)" by fastforce
  have 3: "link_extra b (n2, v2) ''mimeType'' = (n', v')" using assms(5) 1 2 by simp
  have a: "link_like n1 v1" "jget_str ''description'' v1 = None" "jget_str ''mimeType'' v1 = None"
    using link_extra_like [of "''title''" n v b] assms 1 by simp_all
  have "link_like n2 v2" "jget_str ''mimeType'' v2 = None"
    using link_extra_like [of "''description''" n1 v1 b] a 2 by simp_all
  then show ?thesis using link_extra_like [of "''mimeType''" n2 v2 b] 3 by simp
qed

lemma link_size:
  assumes "link_like n v"
  shows "link_like n (jset ''size'' (JNum w) v)"
proof -
  obtain m where v: "v = JObj m" using assms by (cases v) (auto simp: link_like_def prompt_block_def)
  have "map_of m ''type'' = Some (JStr ''resource_link'')"
    "set (map fst m) \<subseteq> {''type'', ''uri'', ''name'', ''title'', ''description'', ''mimeType'', ''size''}"
    using assms unfolding v link_like_def prompt_block_def by (auto simp: jget_str_def)
  then have "prompt_block (jset ''size'' (JNum w) v)"
    using bt_insert_keys [of "''size''" "JNum w" m] by (auto simp: v prompt_block_def jset_def simp del: set_map)
  moreover have "jget_str k (jset ''size'' (JNum w) v) = jget_str k v" if "k \<noteq> ''size''" for k
    using that by (simp add: v jget_str_def jset_def)
  ultimately show ?thesis using assms by (simp add: link_like_def block_size_def field_size_def)
qed

lemma text_block:
  "prompt_block (jobj [(''type'', JStr ''text''), (''text'', JStr t)]) \<and>
   block_size (jobj [(''type'', JStr ''text''), (''text'', JStr t)]) = int (length t)"
  (is "prompt_block (jobj ?kvs) \<and> _")
proof -
  have "set (map fst (bt_of ?kvs)) = {''type'', ''text''}" unfolding jobj_keys by simp
  then have "prompt_block (jobj ?kvs)"
    using jget_jobj [of "''type''" ?kvs] by (auto simp: prompt_block_def jobj_def simp del: set_map)
  then show ?thesis by (simp add: block_size_def field_size_def jget_str_def jget_jobj)
qed

lemma rebuild_block_sound:
  assumes "rebuild_block b = Inr (n, v)"
  shows "prompt_block v \<and> block_size v = n"
proof (cases "jget_str ''type'' b = Some ''text''")
  case True
  then show ?thesis using assms text_block by (auto simp: rebuild_block_def split: option.splits)
next
  case False
  then have ty: "jget_str ''type'' b = Some ''resource_link''"
    using assms by (auto simp: rebuild_block_def split: option.splits if_splits)
  obtain uri name where un: "jget_str ''uri'' b = Some uri" "jget_str ''name'' b = Some name"
    using assms ty by (auto simp: rebuild_block_def split: option.splits)
  define base where "base = jobj [(''type'', JStr ''resource_link''), (''uri'', JStr uri), (''name'', JStr name)]"
  obtain n' v' where f: "foldl (link_extra b) (int (length uri) + int (length name), base)
      [''title'', ''description'', ''mimeType''] = (n', v')" by fastforce
  have "link_like n' v'"
    by (rule link_all [OF _ _ _ _ f]) (simp_all add: base_def link_base jget_str_def jget_jobj)
  moreover have "n = n' \<and> (v = v' \<or> (\<exists>w. v = jset ''size'' (JNum w) v'))"
    using assms ty un f unfolding rebuild_block_def base_def by (auto simp: Let_def split: option.splits)
  ultimately show ?thesis using link_size by (auto simp: link_like_def)
qed

lemma rebuild_blocks_sound:
  assumes "rebuild_blocks tot acc bs = Inr out" and "list_all prompt_block acc" and "sum_list (map block_size acc) = tot"
    and "tot \<le> MAX_PROMPT_BYTES"
  shows "out \<noteq> [] \<and> list_all prompt_block out \<and> sum_list (map block_size out) \<le> MAX_PROMPT_BYTES"
  using assms
proof (induction tot acc bs rule: rebuild_blocks.induct)
  case (2 tot acc b bs)
  from 2(2) obtain n v where b: "rebuild_block b = Inr (n, v)" "\<not> tot + n > MAX_PROMPT_BYTES"
    "rebuild_blocks (tot + n) (acc @ [v]) bs = Inr out"
    by (auto split: sum.splits if_splits)
  then show ?case using 2(1) [OF b(1) _ b(2,3)] 2(3,4) rebuild_block_sound [OF b(1)] by simp
qed (auto split: if_splits)

lemma rebuild_prompt_sound:
  "rebuild_prompt bs = Inr out \<Longrightarrow>
   out \<noteq> [] \<and> list_all prompt_block out \<and> sum_list (map block_size out) \<le> MAX_PROMPT_BYTES"
  using rebuild_blocks_sound [of 0 "[]" bs out] by (simp add: rebuild_prompt_def MAX_PROMPT_BYTES_def)

section \<open>The browser's requests\<close>

text \<open>A handler of a request of the browser: no answer to the agent, no session yet.\<close>

definition request_step :: "chat_filter \<Rightarrow> chat_filter \<times> chat_out list \<Rightarrow> bool" where
  "request_step f r \<longleftrightarrow>
     filter_ok (fst r) \<and> same_asks f (fst r) \<and> f_session (fst r) = f_session f \<and>
     answered (snd r) = [] \<and> sessions (snd r) = [] \<and> (\<forall>v. OAgent v \<in> set (snd r) \<longrightarrow> agent_msg f v)"

lemma refuse_step: "filter_ok f \<Longrightarrow> request_step f (f, refuse f v method c msg)"
  by (simp add: request_step_def refuse_def)

text \<open>The room a request needs.\<close>

definition room :: "chat_filter \<Rightarrow> string \<Rightarrow> bool" where
  "room f k \<longleftrightarrow> filter_ok f \<and> \<not> im_contains (f_pending f) k \<and> length (f_pending f) < MAX_PENDING_REQUESTS"

lemma forward_step:
  assumes "room f (pr v)" and "sound_pending f p" "opens_session p \<Longrightarrow> \<not> f_establishing f \<and> f_session f = None"
    and "request_msg f method params"
    and g: "f_pending g = f_pending f" "same_asks f g" "f_session g = f_session f"
      "f_prompting g = f_prompting f + (if p = PPrompt then 1 else 0)"
      "f_establishing g = (f_establishing f \<or> opens_session p)"
  shows "request_step f (forward pr g v method params p)"
proof -
  have "filter_ok (g\<lparr> f_pending := im_insert (pr v) p (f_pending g) \<rparr>)"
    by (rule pending_add [of f "pr v" p])
      (use assms(1-3) g in \<open>simp_all add: room_def same_asks_def config_def\<close>)
  then show ?thesis using g(2,3) assms(4) by (auto simp: request_step_def forward_def same_asks_def config_def)
qed

lemma jget_jset: "jget k (jset k' v (jobj kvs)) = (if k = k' then Some v else jget k (jobj kvs))"
  by (simp add: jset_def jobj_def)

lemma req_initialize_step: "room f (pr v) \<Longrightarrow> request_step f (req_initialize pr f v p)"
proof -
  assume r: "room f (pr v)"
  have "jget ''clientCapabilities'' (initialize_params f p)
      = (if f_agent f = Ez
         then Some (jset ''_meta'' (jobj [(''ez'', jobj [(''askUserQuestion'', JBool True)])])
                (jobj [(''fs'', jobj [(''readTextFile'', JBool False), (''writeTextFile'', JBool False)]), (''terminal'', JBool False)]))
         else Some (jobj [(''fs'', jobj [(''readTextFile'', JBool False), (''writeTextFile'', JBool False)]), (''terminal'', JBool False)]))"
    by (simp add: initialize_params_def Let_def jget_jset jget_jobj split: option.split)
  then have "no_client_services (initialize_params f p)"
    by (simp add: no_client_services_def jpointer2_def jget_jset jget_jobj)
  then have "request_msg f ''initialize'' (initialize_params f p)" by (rule msg_initialize)
  then show ?thesis
    using r refuse_step unfolding req_initialize_def Let_def
    by (auto simp: room_def sound_pending_def opens_session_def same_asks_def config_def intro!: forward_step [of f])
qed

lemma session_params_start:
  "session_start f (session_params f (jobj ([(''cwd'', JStr (f_worktree f)), (''mcpServers'', JArr [])])))"
  "jget ''sessionId'' (session_params f (jobj ([(''cwd'', JStr (f_worktree f)), (''mcpServers'', JArr [])]))) = None"
  "session_start f (session_params f (jobj ([(''sessionId'', JStr sid), (''cwd'', JStr (f_worktree f)), (''mcpServers'', JArr [])])))"
  "jget ''sessionId'' (session_params f (jobj ([(''sessionId'', JStr sid), (''cwd'', JStr (f_worktree f)), (''mcpServers'', JArr [])])))
     = Some (JStr sid)"
  by (simp_all add: session_start_def session_params_def jset_def jobj_def bt_of_def map_of_bt_extend)

lemma req_new_step: "room f (pr v) \<Longrightarrow> request_step f (req_new pr f v)"
  unfolding req_new_def using refuse_step
  by (auto simp: room_def same_asks_def config_def sound_pending_def opens_session_def session_params_start
      intro!: forward_step [of f] msg_new)

lemma req_load_step: "room f (pr v) \<Longrightarrow> request_step f (req_load pr f v p)"
  unfolding req_load_def using refuse_step
  by (auto simp: room_def same_asks_def config_def sound_pending_def opens_session_def session_params_start Let_def
      intro!: forward_step [of f] msg_load)

lemma check_session_Inr: "check_session f p = Inr s \<Longrightarrow> f_session f = Some s"
  by (auto simp: check_session_def split: option.splits if_splits)

lemma req_prompt_step: "room f (pr v) \<Longrightarrow> request_step f (req_prompt pr f v p)"
  unfolding req_prompt_def using refuse_step
  by (auto simp: room_def same_asks_def config_def sound_pending_def opens_session_def
      intro!: forward_step [of f] msg_prompt dest: check_session_Inr rebuild_prompt_sound split: sum.split option.split)

lemma req_set_mode_step: "room f (pr v) \<Longrightarrow> request_step f (req_set_mode pr f v p)"
proof -
  assume r: "room f (pr v)"
  show ?thesis
  proof (cases "check_session f p")
    case (Inl e)
    then show ?thesis using r refuse_step by (simp add: req_set_mode_def room_def)
  next
    case (Inr sid)
    then have "valid_session_id sid"
      using check_session_Inr [OF Inr] r filter_okD(8) by (auto simp: room_def)
    then have fw: "mode_allowed f m \<Longrightarrow> request_step f (forward pr f v ''session/set_mode''
        (jobj [(''sessionId'', JStr sid), (''modeId'', JStr m)]) (PSetMode m))" for m
      using r by (intro forward_step msg_set_mode) (auto simp: sound_pending_def opens_session_def)
    show ?thesis using r Inr refuse_step fw
      by (auto simp: req_set_mode_def room_def Let_def mode_allowed_def)
  qed
qed

lemma browser_request_step: "filter_ok f \<Longrightarrow> request_step f (browser_request pr f method v p)"
  using req_initialize_step req_new_step req_load_step req_prompt_step req_set_mode_step refuse_step
  by (simp add: browser_request_def room_def)

section \<open>Every handler\<close>

definition good_step :: "chat_filter \<Rightarrow> json list \<Rightarrow> chat_filter \<times> chat_out list \<Rightarrow> bool" where
  "good_step f asked r \<longleftrightarrow>
     (case r of (f', outs) \<Rightarrow>
        filter_ok f' \<and> config f' = config f \<and> (f_session f = None \<or> f_session f' = f_session f) \<and>
        sessions outs = (if f_session f' = f_session f then [] else [the (f_session f')]) \<and>
        mset asked + mset (outstanding f) = mset (answered outs) + mset (outstanding f') \<and>
        (\<forall>v. OAgent v \<in> set outs \<longrightarrow> agent_msg f' v))"

lemma request_good:
  assumes "request_step f r"
  shows "good_step f [] r"
proof -
  obtain f' outs where r: "r = (f', outs)" by fastforce
  have "agent_msg f' v" if "agent_msg f v" for v
    using agent_msg_mono [of f' f v] that assms by (simp add: request_step_def r same_asks_def)
  then show ?thesis using assms by (auto simp: request_step_def good_step_def r same_asks_def outstanding_def)
qed

lemma dropped_good: "filter_ok f \<Longrightarrow> good_step f [] (f, [dropped a b])"
  by (simp add: good_step_def) (simp add: dropped_def)

lemma answered_concat: "answered (concat (map g xs)) = concat (map (\<lambda>x. answered (g x)) xs)"
  by (induction xs) auto

lemma sessions_concat: "sessions (concat (map g xs)) = concat (map (\<lambda>x. sessions (g x)) xs)"
  by (induction xs) auto

lemma concat_single: "concat (map (\<lambda>x. [g x]) xs) = map g xs"
  by (induction xs) auto

lemma concat_none: "concat (map (\<lambda>x. []) xs) = []"
  by (induction xs) auto

lemma cancel_good:
  assumes "filter_ok f"
  shows "good_step f [] (cancel_permissions pr f)"
proof -
  have "filter_ok (f\<lparr> f_questions := [], f_permissions := [] \<rparr>)"
    by (rule requests_ok [OF assms]) (simp_all add: same_requests_def config_def table_ok_def perms_ok_def)
  then show ?thesis
    by (auto simp: good_step_def cancel_permissions_def config_def answered_concat sessions_concat concat_single concat_none
        outstanding_def mset_map multiset.map_comp comp_def)
qed

lemma cancel_session: "f_session (fst (cancel_permissions pr f)) = f_session f"
  by (simp add: cancel_permissions_def)

lemma browser_notification_good:
  assumes "filter_ok f"
  shows "good_step f [] (browser_notification pr f method p)"
proof (cases "method = ''session/cancel'' \<and> (\<exists>s. check_session f p = Inr s)")
  case True
  then obtain s where s: "check_session f p = Inr s" "f_session f = Some s" using check_session_Inr by blast
  obtain f1 outs where c: "cancel_permissions pr f = (f1, outs)" by fastforce
  have "f_session f1 = Some s" using cancel_session [of pr f] c s(2) by simp
  then show ?thesis using cancel_good [OF assms, of pr] True s c agent_msg_cancel [of f1 s]
    by (auto simp: browser_notification_def good_step_def)
next
  case False
  then show ?thesis using dropped_good [OF assms] by (auto simp: browser_notification_def split: sum.split)
qed

lemma answer_removes:
  assumes "filter_ok f"
  shows "map_of (f_questions f) k = Some q \<Longrightarrow> f' = f\<lparr> f_questions := hm_remove k (f_questions f) \<rparr> \<Longrightarrow>
           filter_ok f' \<and> mset (outstanding f) = add_mset (q_id q) (mset (outstanding f'))"
    and "map_of (f_permissions f) k = Some r \<Longrightarrow> f' = f\<lparr> f_permissions := hm_remove k (f_permissions f) \<rparr> \<Longrightarrow>
           filter_ok f' \<and> mset (outstanding f) = add_mset (pq_id r) (mset (outstanding f'))"
proof -
  assume q: "map_of (f_questions f) k = Some q" "f' = f\<lparr> f_questions := hm_remove k (f_questions f) \<rparr>"
  obtain a b where t: "f_questions f = a @ (k, q) # b" "hm_remove k (f_questions f) = a @ b"
      "table_ok MAX_PENDING_PERMISSIONS (a @ b)" using table_remove [OF filter_okD(3) [OF assms] q(1)] by metis
  have "filter_ok f'" by (rule requests_ok [OF assms]) (use filter_okD(2) [OF assms] t in \<open>simp_all add: q same_requests_def config_def\<close>)
  then show "filter_ok f' \<and> mset (outstanding f) = add_mset (q_id q) (mset (outstanding f'))"
    by (simp add: outstanding_def q(2) t(2)) (simp add: t(1))
next
  assume r: "map_of (f_permissions f) k = Some r" "f' = f\<lparr> f_permissions := hm_remove k (f_permissions f) \<rparr>"
  obtain a b where t: "f_permissions f = a @ (k, r) # b" "hm_remove k (f_permissions f) = a @ b"
      "perms_ok (a @ b)" using perms_remove [OF filter_okD(2) [OF assms] r(1)] by metis
  have "filter_ok f'" by (rule requests_ok [OF assms]) (use filter_okD(3) [OF assms] t in \<open>simp_all add: r same_requests_def config_def\<close>)
  then show "filter_ok f' \<and> mset (outstanding f) = add_mset (pq_id r) (mset (outstanding f'))"
    by (simp add: outstanding_def r(2) t(2)) (simp add: t(1))
qed

lemma browser_response_good:
  assumes "filter_ok f"
  shows "good_step f [] (browser_response pr f v m)"
proof (cases "map_of (f_questions f) (pr v)")
  case (Some q)
  then show ?thesis using answer_removes(1) [OF assms Some refl]
    by (auto simp: browser_response_def good_step_def question_answer_def Let_def config_def split: option.split prod.split)
next
  case None
  show ?thesis
  proof (cases "map_of (f_permissions f) (pr v)")
    case (Some r)
    then show ?thesis using None answer_removes(2) [OF assms Some refl]
      by (auto simp: browser_response_def good_step_def permission_answer_def Let_def config_def split: option.split prod.split)
  qed (use None dropped_good [OF assms] in \<open>simp add: browser_response_def\<close>)
qed

lemma error_good: "filter_ok f \<Longrightarrow> good_step f [] (f, [OBrowser v])"
  by (simp add: good_step_def)

lemma from_browser_good:
  assumes "filter_ok f"
  shows "good_step f [] (from_browser parse pr f line)"
proof -
  have "good_step f [] (browser_message pr f m)" for m
    unfolding browser_message_def Let_def
    by (auto simp: dropped_good error_good assms request_good browser_request_step browser_notification_good
        browser_response_good split: option.split json.split)
  then show ?thesis
    by (auto simp: from_browser_def error_good assms split: option.split json.split)
qed

subsection \<open>The agent's side\<close>

lemma relay_good:
  assumes "filter_ok f'" "config f' = config f" "f_session f' = f_session f" "outstanding f' = outstanding f"
    and "answered outs = []" "sessions outs = []" "\<forall>v. OAgent v \<notin> set outs"
  shows "good_step f [] (relay_response f' outs m)"
  using assms by (simp add: relay_response_def Let_def good_step_def) (simp add: response_record_def)

lemma established_good:
  assumes "filter_ok f" and "\<not> f_establishing f" and "valid_session_id s" and "f_session f = None"
  shows "good_step f [] (established f m s)"
proof -
  have "filter_ok (f\<lparr> f_session := Some s \<rparr>)"
    by (rule session_set [OF assms(1-3)]) (simp_all add: assms(2) same_asks_def config_def)
  then show ?thesis using assms
    by (simp add: established_def good_step_def config_def outstanding_def) (simp add: response_record_def mode_record_def)
qed

lemma establish_ez_good:
  assumes "filter_ok f" and "\<not> f_establishing f" and "valid_session_id s" and "f_session f = None"
  shows "good_step f [] (establish_ez f m s)"
proof -
  have "filter_ok (f\<lparr> f_modes := offered_modes m, f_session := Some s \<rparr>)"
    by (rule session_set [OF assms(1-3)]) (simp_all add: assms(2) same_asks_def config_def)
  then show ?thesis using assms
    by (simp add: establish_ez_def Let_def good_step_def config_def outstanding_def split: option.split)
      (simp add: response_record_def mode_record_def)
qed

lemma own_loop_new: "own_loop pr m k n = Some n' \<Longrightarrow> \<not> im_contains m (pr (own_value n'))"
  by (induction pr m k n rule: own_loop.induct) (auto split: if_splits)

lemma mode_str_allowed: "filter_ok f \<Longrightarrow> mode_allowed f (mode_str (f_mode f))"
  by (cases "f_mode f") (auto simp: filter_ok_def mode_allowed_def ALLOWED_MODES_def)

lemma establish_good:
  assumes "filter_ok f" and "\<not> f_establishing f" and "valid_session_id s" and "f_session f = None"
    and "length (f_pending f) < MAX_PENDING_REQUESTS" and "establish pr f m s = Some r"
  shows "good_step f [] r"
proof (cases "f_agent f = Ez \<or> map_option truncate (current_mode m) = Some (mode_str (f_mode f))")
  case True
  then show ?thesis using assms establish_ez_good established_good
    by (auto simp: establish_def Let_def split: if_splits)
next
  case False
  then obtain n where n: "own_loop pr (f_pending f) (Suc (length (f_pending f))) (f_own_ids f) = Some n"
    using assms(6) unfolding establish_def Let_def by (auto simp del: own_loop.simps split: option.splits if_splits)
  define f' where "f' = f\<lparr> f_own_ids := n, f_establishing := True,
                           f_pending := im_insert (pr (own_value n)) (PEnforce m s) (f_pending f) \<rparr>"
  have ok: "filter_ok f'"
    by (rule pending_add [OF assms(1) own_loop_new [OF n] assms(5), of "PEnforce m s"])
      (use assms in \<open>simp_all add: f'_def sound_pending_def same_asks_def config_def opens_session_def\<close>)
  have "request_msg f' ''session/set_mode'' (jobj [(''sessionId'', JStr s), (''modeId'', JStr (mode_str (f_mode f)))])"
    using mode_str_allowed [OF ok] assms(3) by (intro msg_set_mode) (simp_all add: f'_def)
  moreover have a: "f_agent f \<noteq> Ez" "map_option truncate (current_mode m) \<noteq> Some (mode_str (f_mode f))" using False by auto
  from assms(6) obtain x where "r = (f', [ORecord ''mode'' x, OAgent (rpc_request (own_value n) ''session/set_mode''
      (jobj [(''sessionId'', JStr s), (''modeId'', JStr (mode_str (f_mode f)))]))])"
    unfolding establish_def Let_def n if_not_P [OF a(1)] if_not_P [OF a(2)] f'_def by auto
  moreover have "f_session f' = f_session f" "config f' = config f" "outstanding f' = outstanding f"
    by (simp_all add: f'_def config_def outstanding_def)
  ultimately show ?thesis using ok by (simp add: good_step_def)
qed

lemma good_step_from:
  assumes "good_step f1 [] r" and "config f1 = config f" "f_session f1 = f_session f" "outstanding f1 = outstanding f"
  shows "good_step f [] r"
  using assms by (simp add: good_step_def split: prod.splits)

lemma agent_response_good:
  assumes ok: "filter_ok f" and r: "agent_response pr f v m = Some r"
  shows "good_step f [] r"
proof (cases "map_of (f_pending f) (pr v)")
  case None
  then show ?thesis using r dropped_good [OF ok] by (auto simp: agent_response_def)
next
  case (Some p)
  define f0 where "f0 = f\<lparr> f_pending := hm_remove (pr v) (f_pending f) \<rparr>"
  define f1 where "f1 = f0\<lparr> f_establishing := (f_establishing f \<and> \<not> opens_session p),
                           f_prompting := f_prompting f - (if p = PPrompt then 1 else 0) \<rparr>"
  have d: "filter_ok f1 \<and> length (f_pending f1) < MAX_PENDING_REQUESTS \<and> sound_pending f1 p \<and>
         (opens_session p \<longrightarrow> f_session f1 = None \<and> \<not> f_establishing f1)"
    by (rule pending_del [OF ok Some]) (simp_all add: f1_def f0_def same_asks_def config_def)
  have same: "config f1 = config f" "f_session f1 = f_session f" "outstanding f1 = outstanding f"
    by (simp_all add: f1_def f0_def config_def outstanding_def)
  have rp: "response_pending pr f0 p m = Some r" using r Some by (simp add: agent_response_def f0_def)
  have op: "opens_session p \<Longrightarrow> f0\<lparr> f_establishing := False \<rparr> = f1" by (auto simp: f1_def f0_def opens_session_def)
  have rel: "sessions outs = [] \<Longrightarrow> answered outs = [] \<Longrightarrow> \<forall>w. OAgent w \<notin> set outs \<Longrightarrow> good_step f [] (relay_response f1 outs m)" for outs
    using relay_good d same by simp
  have est: "establish pr f1 m s = Some r \<Longrightarrow> valid_session_id s \<Longrightarrow> opens_session p \<Longrightarrow> good_step f [] r" for s
    using establish_good [of f1 s pr m r] d by (intro good_step_from [OF _ same]) simp
  show ?thesis
  proof (cases p)
    case PNew
    then have "f0\<lparr> f_establishing := False \<rparr> = f1" "opens_session p" using op by (simp_all add: opens_session_def)
    then show ?thesis using rp est rel
      by (auto simp: PNew response_pending_def Let_def split: option.splits if_splits) (auto simp: dropped_def)
  next
    case (PLoad s)
    then have "f0\<lparr> f_establishing := False \<rparr> = f1" "opens_session p" "valid_session_id s"
      using op d by (simp_all add: opens_session_def sound_pending_def)
    then show ?thesis using rp est [of s] rel by (auto simp: PLoad response_pending_def Let_def split: if_splits)
  next
    case (PEnforce held s)
    then have e: "f0\<lparr> f_establishing := False \<rparr> = f1" "opens_session p" "valid_session_id s"
      using op d by (simp_all add: opens_session_def sound_pending_def)
    have "good_step f [] (established f1 h s)" for h using established_good d e good_step_from [OF _ same] by blast
    moreover have "good_step f [] (f1, enforce_refused f1 held)"
      using d by (intro good_step_from [OF _ same]) (simp add: good_step_def enforce_refused_def)
    ultimately show ?thesis using rp e(1)
      by (auto simp: PEnforce response_pending_def Let_def split: if_splits)
  next
    case PInitialize
    define f2 where "f2 b = f0\<lparr> f_initialized := True, f_load_session := b \<rparr>" for b
    have "filter_ok (f2 b)" for b
      using requests_ok [of f1 "f2 b"] d filter_okD(2,3) [of f1]
      by (simp add: f2_def f1_def f0_def PInitialize opens_session_def same_requests_def config_def)
    moreover have "config (f2 b) = config f" "f_session (f2 b) = f_session f" "outstanding (f2 b) = outstanding f" for b
      by (simp_all add: f2_def f0_def config_def outstanding_def)
    moreover obtain b where "r = relay_response (f2 b) [] m" using rp
      by (auto simp: PInitialize response_pending_def f2_def)
    ultimately show ?thesis using relay_good by simp
  next
    case (PSetMode md)
    have f1: "f1 = f0" by (simp add: f1_def f0_def PSetMode opens_session_def)
    have "good_step f [] (f0, [response_record ''result'', OBrowser a, mode_record md, OBrowser b])" for a b
      using d same by (simp add: f1 good_step_def) (simp add: response_record_def mode_record_def)
    then show ?thesis using rp rel [of "[]"] by (auto simp: f1 PSetMode response_pending_def Let_def split: if_splits)
  next
    case PPrompt
    have "f0\<lparr> f_prompting := f_prompting f0 - 1 \<rparr> = f1" by (simp add: f1_def f0_def PPrompt opens_session_def)
    then show ?thesis using rp rel [of "[]"] by (auto simp: PPrompt response_pending_def)
  qed
qed

lemma sorted_adjacent:
  fixes xs :: "'a :: linorder list"
  shows "sorted xs \<Longrightarrow> \<not> list_ex (\<lambda>(a, b). a = b) (zip xs (tl xs)) \<Longrightarrow> distinct xs"
proof (induction xs rule: induct_list012)
  case (3 x y zs)
  then show ?case by auto
qed simp_all

lemma dup_options_distinct: "\<not> dup_options options \<Longrightarrow> distinct (map fst options)"
  using sorted_adjacent [of "sort (map fst options)"] by (simp add: dup_options_def Let_def)

lemma permission_request_good:
  assumes ok: "filter_ok f"
  shows "good_step f [v] (permission_request pr f v m)"
proof -
  have add: "\<not> im_contains (f_permissions f) (pr v) \<Longrightarrow> length (f_permissions f) < MAX_PENDING_PERMISSIONS \<Longrightarrow> pq_id q = v \<Longrightarrow>
      \<not> dup_options (pq_options q) \<Longrightarrow>
      good_step f [v] (f\<lparr> f_permissions := im_insert (pr v) q (f_permissions f) \<rparr>, [ORecord a b, OBrowser c])" for q a b c
  proof -
    assume new: "\<not> im_contains (f_permissions f) (pr v)" "length (f_permissions f) < MAX_PENDING_PERMISSIONS" and q: "pq_id q = v" "\<not> dup_options (pq_options q)"
    have t: "im_insert (pr v) q (f_permissions f) = f_permissions f @ [(pr v, q)]"
        "perms_ok (f_permissions f @ [(pr v, q)])"
      using table_insert [of _ "f_permissions f", OF _ new] filter_okD(2) [OF ok] dup_options_distinct q(2)
      by (simp_all add: perms_ok_def)
    have "filter_ok (f\<lparr> f_permissions := im_insert (pr v) q (f_permissions f) \<rparr>)"
      by (rule requests_ok [OF ok]) (use t filter_okD(3) [OF ok] in \<open>simp_all add: same_requests_def config_def\<close>)
    then show ?thesis using q by (simp add: good_step_def config_def outstanding_def t(1))
  qed
  have now: "good_step f [v] (f, [OAgent (rpc_result v x), ORecord a b])" for x a b
    using ok by (simp add: good_step_def)
  show ?thesis unfolding permission_request_def Let_def dropped_def using add now by (simp split: if_splits)
qed

lemma agent_question_good:
  assumes ok: "filter_ok f"
  shows "good_step f [v] (agent_question pr f v m)"
proof -
  have add: "\<not> im_contains (f_questions f) (pr v) \<Longrightarrow> length (f_questions f) < MAX_PENDING_PERMISSIONS \<Longrightarrow> q_id q = v \<Longrightarrow>
      good_step f [v] (f\<lparr> f_questions := im_insert (pr v) q (f_questions f) \<rparr>, [ORecord a b, OBrowser c])" for q a b c
  proof -
    assume new: "\<not> im_contains (f_questions f) (pr v)" "length (f_questions f) < MAX_PENDING_PERMISSIONS" and q: "q_id q = v"
    have t: "im_insert (pr v) q (f_questions f) = f_questions f @ [(pr v, q)]"
        "table_ok MAX_PENDING_PERMISSIONS (f_questions f @ [(pr v, q)])"
      using table_insert [OF filter_okD(3) [OF ok] new] by blast+
    have "filter_ok (f\<lparr> f_questions := im_insert (pr v) q (f_questions f) \<rparr>)"
      by (rule requests_ok [OF ok]) (use t filter_okD(2) [OF ok] in \<open>simp_all add: same_requests_def config_def\<close>)
    then show ?thesis using q by (simp add: good_step_def config_def outstanding_def t(1))
  qed
  have now: "good_step f [v] (f, question_refused v x)" for x
    using ok by (simp add: good_step_def question_refused_def)
  show ?thesis unfolding agent_question_def Let_def using add now by (simp split: if_splits option.split)
qed

lemma agent_request_good:
  assumes "filter_ok f"
  shows "good_step f [v] (agent_request pr f method v m)"
proof -
  have "good_step f [v] (f, [OAgent (rpc_error v c e), dropped a b])" for c e a b
    using assms by (simp add: good_step_def) (simp add: dropped_def)
  then show ?thesis using assms agent_question_good permission_request_good by (simp add: agent_request_def)
qed

text \<open>The request of the agent an event carries.\<close>

definition agent_asks :: "(string \<times> json) list \<Rightarrow> json list" where
  "agent_asks m =
     (case (Option.bind (map_of m ''method'') as_str, map_of m ''id'') of
        (Some _, Some v) \<Rightarrow> if valid_id v then [v] else []
      | _ \<Rightarrow> [])"

fun agent_asked :: "(string \<Rightarrow> json option) \<Rightarrow> filter_event \<Rightarrow> json list" where
  "agent_asked parse (FromAgent line) = (case parse line of Some (JObj m) \<Rightarrow> agent_asks m | _ \<Rightarrow> [])"
| "agent_asked parse _ = []"

lemma from_agent_good:
  assumes ok: "filter_ok f" and r: "from_agent parse pr f line = Some r"
  shows "good_step f (agent_asked parse (FromAgent line)) r"
proof (cases "\<exists>m. parse line = Some (JObj m)")
  case True
  then obtain m where m: "parse line = Some (JObj m)" by blast
  have nt: "good_step f [] (f, agent_notification f mth m)" for mth
    using ok by (simp add: agent_notification_def good_step_def Let_def) (simp add: dropped_def)
  show ?thesis using r agent_request_good [OF ok] agent_response_good [OF ok] nt dropped_good [OF ok]
    by (auto simp: from_agent_def m agent_asks_def Let_def split: option.splits if_splits)
next
  case False
  then show ?thesis using r dropped_good [OF ok]
    by (auto simp: from_agent_def split: option.splits json.splits)
qed

lemma chat_step_good:
  "filter_ok f \<Longrightarrow> chat_step parse pr f e = Some r \<Longrightarrow> good_step f (agent_asked parse e) r"
  using from_browser_good from_agent_good cancel_good by (cases e) auto

lemma chat_run_good:
  "filter_ok f \<Longrightarrow> chat_run parse pr f es = Some r \<Longrightarrow> good_step f (concat (map (agent_asked parse) es)) r"
proof (induction es arbitrary: f r)
  case (Cons e es)
  then obtain f1 o1 f2 o2 where s: "chat_step parse pr f e = Some (f1, o1)" "chat_run parse pr f1 es = Some (f2, o2)"
    "r = (f2, o1 @ o2)" by (auto split: option.splits)
  have g1: "good_step f (agent_asked parse e) (f1, o1)" using chat_step_good Cons.prems(1) s(1) .
  then have "filter_ok f1" by (simp add: good_step_def)
  then have g2: "good_step f1 (concat (map (agent_asked parse) es)) (f2, o2)" using Cons.IH s(2) by blast
  have "agent_msg f2 v" if "agent_msg f1 v" for v
    using agent_msg_mono [of f2 f1 v] that g2 by (simp add: good_step_def)
  moreover have "mset (agent_asked parse e) + mset (concat (map (agent_asked parse) es)) + mset (outstanding f)
      = mset (answered o1) + mset (answered o2) + mset (outstanding f2)"
    using g1 g2 unfolding good_step_def by (simp add: union_assoc) (metis union_lcomm)
  ultimately show ?case using g1 g2 unfolding good_step_def s(3) by (auto split: if_splits)
qed (auto simp: good_step_def)

text \<open>The filter as a machine: its invariant holds in every state a chat reaches.\<close>

definition chat_start :: "chat_filter \<Rightarrow> bool" where
  "chat_start f \<longleftrightarrow> (\<exists>agent mode allow worktree secrets resume. f = with_agent agent mode allow worktree secrets resume)"

definition chat_next :: "(string \<Rightarrow> json option) \<Rightarrow> (json \<Rightarrow> string) \<Rightarrow> chat_filter \<Rightarrow> chat_filter \<Rightarrow> bool" where
  "chat_next parse pr f f' \<longleftrightarrow> (\<exists>e outs. chat_step parse pr f e = Some (f', outs))"

interpretation chat_machine: machine chat_start "chat_next parse pr" filter_ok for parse pr
proof
  show "filter_ok f" if "chat_start f" for f using that with_agent_ok by (auto simp: chat_start_def)
  show "filter_ok f'" if "filter_ok f" "chat_next parse pr f f'" for f f'
    using that chat_step_good by (auto simp: chat_next_def good_step_def dest!: chat_step_good)
qed

lemma chat_run_steps: "chat_run parse pr f es = Some (f', outs) \<Longrightarrow> (chat_next parse pr)\<^sup>*\<^sup>* f f'"
proof (induction es arbitrary: f outs)
  case (Cons e es)
  then obtain f1 o1 o2 where "chat_step parse pr f e = Some (f1, o1)" "chat_run parse pr f1 es = Some (f', o2)"
    by (auto split: option.splits)
  then show ?case using Cons.IH [of f1 o2] by (auto simp: chat_next_def intro: converse_rtranclp_into_rtranclp)
qed simp

lemma chat_run_ok: "chat_run parse pr (with_agent agent mode allow worktree secrets resume) es = Some (f, outs) \<Longrightarrow> filter_ok f"
  using chat_machine.good_reachable chat_run_steps unfolding chat_start_def by blast

section \<open>The loop for an id of the filter's own\<close>

lemma own_value_inj:
  assumes "own_value a = own_value b"
  shows "a = b"
proof -
  have "show_uint (uint a) = show_uint (uint b)" using assms by (simp add: own_value_def)
  then have "uint a = uint b" using int_of_digits_show [of "uint a"] int_of_digits_show [of "uint b"] by (metis uint_ge_0)
  then show ?thesis by (simp add: word_uint_eq_iff)
qed

lemma own_loop_None:
  "own_loop pr m k n = None \<Longrightarrow> i < k \<Longrightarrow> im_contains m (pr (own_value (n + of_nat i + 1)))"
proof (induction pr m k n arbitrary: i rule: own_loop.induct)
  case (2 pr m k n)
  then show ?case by (cases i) (auto split: if_splits simp: algebra_simps)
qed simp

lemma own_loop_returns:
  assumes inj: "\<And>s t. pr (JStr s) = pr (JStr t) \<Longrightarrow> s = t" and k: "length m < k" "k \<le> 2 ^ 64"
  shows "own_loop pr m k n \<noteq> None"
proof
  assume none: "own_loop pr m k n = None"
  define g where "g i = pr (own_value (n + of_nat i + 1))" for i
  have "inj_on g {..<k}"
  proof (rule inj_onI)
    fix i j
    assume ij: "i \<in> {..<k}" "j \<in> {..<k}" "g i = g j"
    then have "own_value (n + of_nat i + 1) = own_value (n + of_nat j + 1)" using inj unfolding g_def own_value_def by blast
    then have "(of_nat i :: u64) = of_nat j" using own_value_inj by fastforce
    then have "i mod 2 ^ 64 = j mod 2 ^ 64" using unat_of_nat [of i, where 'a = 64] unat_of_nat [of j, where 'a = 64] by simp
    then show "i = j" using ij k(2) by simp
  qed
  then have "card (g ` {..<k}) = k" by (simp add: card_image)
  moreover have "g ` {..<k} \<subseteq> set (map fst m)"
    using own_loop_None [OF none] by (auto simp: g_def im_contains_iff)
  ultimately have "k \<le> length m" by (metis List.finite_set card_length card_mono length_map le_trans)
  then show False using k(1) by simp
qed

lemma establish_returns:
  assumes "\<And>s t. pr (JStr s) = pr (JStr t) \<Longrightarrow> s = t" and "length (f_pending f) < MAX_PENDING_REQUESTS"
  shows "\<exists>r. establish pr f m s = Some r"
  using own_loop_returns [OF assms(1), of pr "f_pending f" "Suc (length (f_pending f))" "f_own_ids f"] assms(2)
  by (auto simp: establish_def Let_def MAX_PENDING_REQUESTS_def simp del: own_loop.simps split: option.split)

lemma chat_step_returns:
  assumes inj: "\<And>s t. pr (JStr s) = pr (JStr t) \<Longrightarrow> s = t" and ok: "filter_ok f"
  shows "\<exists>r. chat_step parse pr f e = Some r"
proof -
  have "\<exists>r. agent_response pr f v m = Some r" for v m
  proof (cases "map_of (f_pending f) (pr v)")
    case (Some p)
    define g where "g = f\<lparr> f_pending := hm_remove (pr v) (f_pending f), f_establishing := False \<rparr>"
    have "length (f_pending g) < MAX_PENDING_REQUESTS"
      using table_remove [OF filter_okD(1) [OF ok] Some] by (metis (no_types, lifting) chat_filter.select_convs(17)
          chat_filter.surjective chat_filter.update_convs(15,17) g_def)
    then have "\<exists>r. establish pr g m s = Some r" for s using establish_returns inj by blast
    then show ?thesis using Some
      by (cases p) (auto simp: agent_response_def response_pending_def Let_def g_def split: option.split)
  qed (simp add: agent_response_def)
  then show ?thesis by (cases e) (auto simp: from_agent_def Let_def split: option.split json.split)
qed

lemma chat_run_returns:
  assumes inj: "\<And>s t. pr (JStr s) = pr (JStr t) \<Longrightarrow> s = t"
  shows "filter_ok f \<Longrightarrow> \<exists>r. chat_run parse pr f es = Some r"
proof (induction es arbitrary: f)
  case (Cons e es)
  obtain f1 o1 where s: "chat_step parse pr f e = Some (f1, o1)" using chat_step_returns [OF inj Cons.prems] by (metis surj_pair)
  then have "filter_ok f1" using chat_step_good [OF Cons.prems s] by (simp add: good_step_def)
  then obtain r where "chat_run parse pr f1 es = Some r" using Cons.IH by blast
  then show ?case using s by simp
qed simp

section \<open>Properties\<close>

text \<open>A concrete chat for the witnesses: \<open>sample_parse\<close> names its lines.\<close>

definition sample_line :: "string \<Rightarrow> (string \<times> json) list \<Rightarrow> json" where
  "sample_line method fs = jobj ([(''jsonrpc'', JStr ''2.0''), (''method'', JStr method)] @ fs)"

definition sample_lines :: "json imap" where
  "sample_lines =
     [(''init'', sample_line ''initialize'' [(''id'', JStr ''1'')]),
      (''new'', sample_line ''session/new'' [(''id'', JStr ''2'')]),
      (''new ok'', jobj [(''id'', JStr ''2''), (''result'', jobj [(''sessionId'', JStr ''s1'')])]),
      (''ask'', sample_line ''session/request_permission''
         [(''id'', JStr ''a''),
          (''params'', jobj
             [(''toolCall'', jobj [(''kind'', JStr ''switch_mode'')]),
              (''options'', JArr [jobj [(''optionId'', JStr ''x''), (''kind'', JStr ''allow_always'')],
                                  jobj [(''optionId'', JStr ''y''), (''kind'', JStr ''allow_once'')]])])]),
      (''pick y'', jobj [(''jsonrpc'', JStr ''2.0''), (''id'', JStr ''a''),
         (''result'', jobj [(''outcome'', jobj [(''outcome'', JStr ''selected''), (''optionId'', JStr ''y'')])])])]"

definition sample_parse :: "string \<Rightarrow> json option" where
  "sample_parse line = map_of sample_lines line"

definition sample_print :: "json \<Rightarrow> string" where
  "sample_print v = (case v of JStr s \<Rightarrow> s | _ \<Rightarrow> [])"

definition sample_start :: "filter_event list" where
  "sample_start = [FromBrowser ''init'', FromBrowser ''new'', FromAgent ''new ok'']"

definition sample_ask :: "filter_event list" where
  "sample_ask = [FromAgent ''ask'', FromBrowser ''pick y'']"

lemma sample_print_inj: "sample_print (JStr s) = sample_print (JStr t) \<Longrightarrow> s = t"
  by (simp add: sample_print_def)

definition run_outs :: "chat_filter \<Rightarrow> filter_event list \<Rightarrow> chat_out list" where
  "run_outs f es = (case chat_run sample_parse sample_print f es of Some r \<Rightarrow> snd r | None \<Rightarrow> [])"

lemma run_outs_intro: "\<exists>f'. chat_run sample_parse sample_print (with_agent a m b w ss r) es = Some (f', run_outs (with_agent a m b w ss r) es)"
  using chat_run_returns [OF sample_print_inj with_agent_ok] unfolding run_outs_def by (metis option.simps(5) prod.collapse)

text \<open>A chat the agent starts in another mode: the filter asks for the configured one itself.\<close>

definition sample_request :: json where
  "sample_request =
     rpc_request (JStr ''enzarb-mode-1'') ''session/set_mode'' (jobj [(''sessionId'', JStr ''s1''), (''modeId'', JStr ''default'')])"

lemma sample_start_outs: "OAgent sample_request \<in> set (run_outs (filter_new Default False ''/w'' [] None) sample_start)"
  by code_simp

lemma sample_start_ez: "sessions (run_outs (filter_ez ''/w'' [] None) sample_start) = [''s1'']"
  by code_simp

lemma sample_ask_answered: "answered (run_outs (filter_ez ''/w'' [] None) sample_ask) = [JStr ''a'']"
  by code_simp

lemma sample_ask_state:
  "case chat_run sample_parse sample_print (filter_ez ''/w'' [] None) [FromAgent ''ask''] of
     Some (f, _) \<Rightarrow> f_questions f = [] \<and> im_contains (f_permissions f) ''a''
   | None \<Rightarrow> False"
  by code_simp

lemma sample_ask_asked: "concat (map (agent_asked sample_parse) sample_ask) = [JStr ''a'']"
  by code_simp



text \<open>
  In a chat whose mode is not \<^verbatim>\<open>bypassPermissions\<close> and which does not allow it, the agent is never asked to
  switch to \<^verbatim>\<open>bypassPermissions\<close>, whatever the browser requests and whatever modes the agent reports.
\<close>

theorem chat_no_bypass:
  assumes "mode \<noteq> Bypass"
    and "chat_run parse pr (filter_new mode False worktree secrets resume) es = Some (f, outs)" and "OAgent v \<in> set outs"
    and "jget ''method'' v = Some (JStr ''session/set_mode'')"
  shows "jpointer2 ''params'' ''modeId'' v \<noteq> Some (JStr (mode_str Bypass))"
proof -
  have g: "good_step (filter_new mode False worktree secrets resume) (concat (map (agent_asked parse) es)) (f, outs)"
    using chat_run_good assms(2) with_agent_ok by (simp add: filter_new_def)
  then have "config f = config (filter_new mode False worktree secrets resume)" by (simp add: good_step_def)
  then have "f_agent f = Claude \<and> \<not> f_allow_bypass f" using assms(1) by (simp add: config_def filter_new_def with_agent_def)
  moreover have "request_msg f ''session/set_mode'' (jopt (jget ''params'' v))"
    using g assms(3,4) unfolding good_step_def agent_msg_def by fastforce
  then obtain s m where "jopt (jget ''params'' v) = jobj [(''sessionId'', JStr s), (''modeId'', JStr m)]" "mode_allowed f m"
    by (cases rule: request_msg.cases) auto
  ultimately show ?thesis
    by (cases "jget ''params'' v") (auto simp: jopt_def jpointer2_def jget_jobj mode_allowed_def)
qed

theorem chat_no_bypass_witness:
  "OAgent sample_request \<in> set (run_outs (filter_new Default False ''/w'' [] None) sample_start) \<and>
   jpointer2 ''params'' ''modeId'' sample_request \<noteq> Some (JStr (mode_str Bypass))"
proof -
  obtain f where "chat_run sample_parse sample_print (filter_new Default False ''/w'' [] None) sample_start
      = Some (f, run_outs (filter_new Default False ''/w'' [] None) sample_start)"
    using run_outs_intro unfolding filter_new_def by blast
  moreover have "jget ''method'' sample_request = Some (JStr ''session/set_mode'')"
    by (simp add: sample_request_def rpc_request_def jget_jobj)
  ultimately show ?thesis using chat_no_bypass [OF chat_mode.distinct(2)] sample_start_outs by blast
qed

text \<open>
  C30: Every request of the agent is answered exactly once or still waits for the browser, whatever the order of lines:
  the ids asked are the ids answered and the outstanding ones, with their multiplicities. After the permissions have been
  cancelled none is outstanding.
\<close>

theorem chat_requests_answered:
  assumes "chat_run parse pr (with_agent agent mode allow worktree secrets resume) es = Some (f, outs)"
  shows "mset (concat (map (agent_asked parse) es)) = mset (answered outs) + mset (outstanding f) \<and>
         (es \<noteq> [] \<and> last es = CancelAll \<longrightarrow> outstanding f = [])"
proof -
  have "mset (concat (map (agent_asked parse) es)) = mset (answered outs) + mset (outstanding f)"
    using chat_run_good [OF with_agent_ok assms] by (simp add: good_step_def with_agent_def outstanding_def)
  moreover have "chat_run parse pr g es = Some (f, outs) \<Longrightarrow> es \<noteq> [] \<Longrightarrow> last es = CancelAll \<Longrightarrow> outstanding f = []" for g outs
  proof (induction es arbitrary: g outs)
    case (Cons e es)
    then show ?case
      by (cases "es = []") (auto simp: cancel_permissions_def outstanding_def split: option.splits)
  qed simp
  ultimately show ?thesis using assms by blast
qed

theorem chat_requests_answered_witness:
  "\<exists>f. chat_run sample_parse sample_print (filter_ez ''/w'' [] None) sample_ask
         = Some (f, run_outs (filter_ez ''/w'' [] None) sample_ask) \<and>
       {#JStr ''a''#} = mset (answered (run_outs (filter_ez ''/w'' [] None) sample_ask)) + mset (outstanding f) \<and> outstanding f = []"
proof -
  obtain f where f: "chat_run sample_parse sample_print (filter_ez ''/w'' [] None) sample_ask
      = Some (f, run_outs (filter_ez ''/w'' [] None) sample_ask)"
    using run_outs_intro unfolding filter_ez_def by blast
  then show ?thesis
    using chat_requests_answered [of sample_parse sample_print Ez Default False "''/w''" "[]" None sample_ask] sample_ask_asked sample_ask_answered
    by (auto simp: filter_ez_def)
qed

text \<open>
  A chat gets at most one session: the filter announces a session at most once, it is the one the filter keeps from then
  on, and its id is valid.
\<close>

theorem chat_one_session:
  assumes "chat_run parse pr (with_agent agent mode allow worktree secrets resume) es = Some (f, outs)"
  shows "sessions outs = (case f_session f of None \<Rightarrow> [] | Some s \<Rightarrow> [s]) \<and> list_all valid_session_id (sessions outs)"
proof -
  have g: "good_step (with_agent agent mode allow worktree secrets resume) (concat (map (agent_asked parse) es)) (f, outs)"
    using chat_run_good [OF with_agent_ok assms] .
  then have "sessions outs = (case f_session f of None \<Rightarrow> [] | Some s \<Rightarrow> [s])"
    by (auto simp: good_step_def with_agent_def split: option.splits)
  moreover have "f_session f = Some s \<Longrightarrow> valid_session_id s" for s using g filter_okD(8) by (auto simp: good_step_def)
  ultimately show ?thesis by (simp split: option.split)
qed

theorem chat_one_session_witness:
  "\<exists>f. chat_run sample_parse sample_print (filter_ez ''/w'' [] None) sample_start
         = Some (f, run_outs (filter_ez ''/w'' [] None) sample_start) \<and> f_session f = Some ''s1'' \<and> valid_session_id ''s1''"
proof -
  obtain f where f: "chat_run sample_parse sample_print (filter_ez ''/w'' [] None) sample_start
      = Some (f, run_outs (filter_ez ''/w'' [] None) sample_start)"
    using run_outs_intro unfolding filter_ez_def by blast
  then show ?thesis
    using chat_one_session [of sample_parse sample_print Ez Default False "''/w''" "[]" None sample_start] sample_start_ez
    by (auto simp: filter_ez_def split: option.splits)
qed

text \<open>
  The filter's tables stay bounded and its counters exact: at most 64 requests of the browser and 64 permission
  requests wait, \<^verbatim>\<open>prompting\<close> counts the prompts in flight, and \<^verbatim>\<open>establishing\<close> holds exactly while one request for a
  session is in flight, which is never so once there is a session.
\<close>

theorem chat_bounded:
  assumes "chat_run parse pr (with_agent agent mode allow worktree secrets resume) es = Some (f, outs)"
  shows "length (f_pending f) \<le> MAX_PENDING_REQUESTS \<and> length (f_permissions f) \<le> MAX_PENDING_PERMISSIONS \<and>
         length (f_questions f) \<le> MAX_PENDING_PERMISSIONS \<and>
         f_prompting f = length (filter (\<lambda>e. snd e = PPrompt) (f_pending f)) \<and>
         length (filter (\<lambda>e. opens_session (snd e)) (f_pending f)) = (if f_establishing f then 1 else 0) \<and>
         \<not> (f_establishing f \<and> f_session f \<noteq> None)"
proof -
  have "filter_ok f" using chat_run_ok assms .
  then show ?thesis by (auto simp: filter_ok_def table_ok_def perms_ok_def)
qed

theorem chat_bounded_witness:
  "\<exists>f. chat_run sample_parse sample_print (filter_ez ''/w'' [] None) sample_start
         = Some (f, run_outs (filter_ez ''/w'' [] None) sample_start) \<and> length (f_pending f) \<le> MAX_PENDING_REQUESTS"
proof -
  obtain f where "chat_run sample_parse sample_print (filter_ez ''/w'' [] None) sample_start
      = Some (f, run_outs (filter_ez ''/w'' [] None) sample_start)"
    using run_outs_intro unfolding filter_ez_def by blast
  then show ?thesis using chat_bounded unfolding filter_ez_def by blast
qed

text \<open>
  Handling a line always ends: when printing distinct strings gives distinct texts, the search for an id of the filter's
  own request returns, so every sequence of lines is handled, whatever ids the browser has in use.
\<close>

theorem chat_returns:
  assumes "\<And>s t. pr (JStr s) = pr (JStr t) \<Longrightarrow> s = t"
  shows "\<exists>f outs. chat_run parse pr (with_agent agent mode allow worktree secrets resume) es = Some (f, outs)"
  using chat_run_returns [OF assms with_agent_ok] by (metis surj_pair)

theorem chat_returns_witness:
  "\<exists>f outs. chat_run sample_parse sample_print (with_agent Claude Plan False ''/w'' [] None) sample_start = Some (f, outs)"
  by (rule chat_returns [OF sample_print_inj])

lemma find_SomeD: "find P xs = Some x \<Longrightarrow> x \<in> set xs \<and> P x"
  by (induction xs) (auto split: if_splits)

text \<open>
  The browser's answer to a permission request never grants more than one use: whatever it sends, the agent gets
  \<^verbatim>\<open>cancelled\<close> or an option of this very request, whose only kind is \<^verbatim>\<open>allow_once\<close> or \<^verbatim>\<open>reject_once\<close>.
\<close>

theorem chat_answer_once:
  assumes "chat_run parse pr (with_agent agent mode allow worktree secrets resume) es = Some (f, outs)"
    and "map_of (f_permissions f) (pr v) = Some req" and "map_of (f_questions f) (pr v) = None"
  shows "\<exists>a rec. snd (browser_response pr f v m) = [rec, OAgent (rpc_result (pq_id req) a)] \<and>
           (a = permission_cancelled \<or>
            (\<exists>o' k. a = permission_selected o' \<and> map_of (pq_options req) o' = Some k \<and> (k = ''allow_once'' \<or> k = ''reject_once'')))"
proof -
  have "filter_ok f" using chat_run_ok assms(1) .
  then have d: "distinct (map fst (pq_options req))"
    using filter_okD(2) map_of_SomeD [OF assms(2)] by (fastforce simp: perms_ok_def list_all_iff)
  have "(o', k) \<in> set (pq_options req) \<and> (k = ''allow_once'' \<or> k = ''reject_once'')"
    if "permission_final req (map_of m ''result'') = Some (o', k)" for o' k
    using that unfolding permission_final_def permission_chosen_def reject_option_def Let_def
    by (auto split: option.splits if_splits dest!: find_SomeD)
  then have fin: "map_of (pq_options req) o' = Some k \<and> (k = ''allow_once'' \<or> k = ''reject_once'')"
    if "permission_final req (map_of m ''result'') = Some (o', k)" for o' k
    using that d map_of_is_SomeI by fast
  show ?thesis
  proof (cases "permission_final req (map_of m ''result'')")
    case None
    then show ?thesis using assms(2,3) by (auto simp: browser_response_def permission_answer_def Let_def)
  next
    case (Some c)
    then obtain o' k where c: "permission_final req (map_of m ''result'') = Some (o', k)" by (cases c) auto
    then have "\<exists>rec. snd (browser_response pr f v m) = [rec, OAgent (rpc_result (pq_id req) (permission_selected o'))]"
      using assms(2,3) by (simp add: browser_response_def permission_answer_def Let_def)
    then show ?thesis using fin [OF c] by blast
  qed
qed

theorem chat_answer_once_witness:
  "\<exists>f outs req. chat_run sample_parse sample_print (filter_ez ''/w'' [] None) [FromAgent ''ask''] = Some (f, outs) \<and>
     map_of (f_permissions f) ''a'' = Some req \<and>
     (\<exists>a rec. snd (browser_response sample_print f (JStr ''a'') []) = [rec, OAgent (rpc_result (pq_id req) a)] \<and>
       (a = permission_cancelled \<or>
        (\<exists>o' k. a = permission_selected o' \<and> map_of (pq_options req) o' = Some k \<and> (k = ''allow_once'' \<or> k = ''reject_once''))))"
proof -
  obtain f outs req where r: "chat_run sample_parse sample_print (filter_ez ''/w'' [] None) [FromAgent ''ask''] = Some (f, outs)"
      "f_questions f = []" "map_of (f_permissions f) ''a'' = Some req"
    using sample_ask_state unfolding im_contains_def by (auto simp del: chat_run.simps split: option.splits)
  have p: "sample_print (JStr ''a'') = ''a''" by (simp add: sample_print_def)
  show ?thesis
    using chat_answer_once [OF r(1) [unfolded filter_ez_def], of "JStr ''a''" req "[]", unfolded p, OF r(3)] r by auto
qed

end
