(* ===== verification/Capture.thy ===== *)
theory Capture
  imports Session_State Guard Std_Data
begin

text \<open>
  Capturing a Claude OAuth token from the output of a terminal: \<^verbatim>\<open>sandbox-container/src/capture.rs\<close>. The
  output of a terminal is a list of bytes, one character each. The legacy token file is its contents, \<open>None\<close>
  when it is missing or not readable as text; whether a write or a removal succeeds is an argument.
\<close>

definition TOKEN_PREFIX :: string where "TOKEN_PREFIX = ''sk-ant-oat01-''"
definition MIN_LEN :: nat where "MIN_LEN = 100"
definition MAX_LEN :: nat where "MAX_LEN = 1024"

section \<open>ANSI sequences\<close>

datatype ansi_state = A_Text | A_Esc | A_Skip1 | A_Csi | A_Osc | A_OscEsc

definition ESC :: char where "ESC = CHR 0x1B"
definition BEL :: char where "BEL = CHR 0x07"
definition BACKSLASH :: char where "BACKSLASH = CHR 0x5C"

fun ansi_next :: "ansi_state \<Rightarrow> char \<Rightarrow> ansi_state" where
  "ansi_next A_Text b = (if b = ESC then A_Esc else A_Text)"
| "ansi_next A_Esc b =
     (if b = CHR ''['' then A_Csi else if b = CHR '']'' then A_Osc
      else if b \<in> set ''()*+#'' then A_Skip1 else A_Text)"
| "ansi_next A_Skip1 b = A_Text"
| "ansi_next A_Csi b = (if 0x40 \<le> (of_char b :: nat) \<and> (of_char b :: nat) \<le> 0x7E then A_Text else A_Csi)"
| "ansi_next A_Osc b = (if b = BEL then A_Text else if b = ESC then A_OscEsc else A_Osc)"
| "ansi_next A_OscEsc b = (if b = BACKSLASH then A_Text else A_Osc)"

fun ansi_push :: "ansi_state \<Rightarrow> string \<Rightarrow> string \<Rightarrow> ansi_state \<times> string" where
  "ansi_push st [] out = (st, out)"
| "ansi_push st (b # bs) out =
     ansi_push (ansi_next st b) bs (if st = A_Text \<and> b \<noteq> ESC then out @ [b] else out)"

section \<open>The scanner\<close>

datatype scan = Scan_Prefix string | Scan_Token string | Scan_Done

definition scan_new :: scan where "scan_new = Scan_Prefix []"

definition token_byte :: "char \<Rightarrow> bool" where
  "token_byte b \<longleftrightarrow> is_ascii_alphanumeric b \<or> b = CHR ''-'' \<or> b = CHR ''_''"

definition line_break :: "char \<Rightarrow> bool" where
  "line_break b \<longleftrightarrow> b = CHR 0x0D \<or> b = CHR 0x0A"

definition scan_finish :: "scan \<Rightarrow> scan \<times> string option" where
  "scan_finish sc =
     (Scan_Done, case sc of Scan_Token buf \<Rightarrow> if length buf \<ge> MIN_LEN then Some buf else None | _ \<Rightarrow> None)"

text \<open>The window after one more byte: the last bytes, as many as the prefix has.\<close>

definition window_push :: "string \<Rightarrow> char \<Rightarrow> string" where
  "window_push w b = (let w' = w @ [b] in if length w' > length TOKEN_PREFIX then tl w' else w')"

fun scan_push :: "scan \<Rightarrow> string \<Rightarrow> scan \<times> string option" where
  "scan_push sc [] = (sc, None)"
| "scan_push Scan_Done (b # bs) = (Scan_Done, None)"
| "scan_push (Scan_Prefix w) (b # bs) =
     (if line_break b then scan_push (Scan_Prefix w) bs
      else let w' = window_push w b
           in scan_push (if w' = TOKEN_PREFIX then Scan_Token TOKEN_PREFIX else Scan_Prefix w') bs)"
| "scan_push (Scan_Token buf) (b # bs) =
     (if token_byte b then
        (if length (buf @ [b]) \<ge> MAX_LEN then scan_push (Scan_Prefix []) bs else scan_push (Scan_Token (buf @ [b])) bs)
      else if line_break b \<and> length buf < MIN_LEN then scan_push (Scan_Token buf) bs
      else scan_finish (Scan_Token buf))"

section \<open>The legacy file\<close>

definition user_token_peer :: "sess \<Rightarrow> bool" where
  "user_token_peer s \<longleftrightarrow> s_peer s = Some Proxy \<and> peer_has_feature s feature_CLAUDE_USER_TOKEN"

definition read_legacy :: "string option \<Rightarrow> string option" where
  "read_legacy content =
     (case content of None \<Rightarrow> None | Some t \<Rightarrow> if trim t = [] then None else Some (trim t))"

definition read_legacy_valid :: "string option \<Rightarrow> string option" where
  "read_legacy_valid content =
     (case read_legacy content of Some t \<Rightarrow> if starts_with t TOKEN_PREFIX then Some t else None | None \<Rightarrow> None)"

definition resolve_token :: "secret option \<Rightarrow> string option \<Rightarrow> string option" where
  "resolve_token per_request legacy =
     (case per_request of
        Some sec \<Rightarrow> if trim (expose sec) \<noteq> [] then Some (trim (expose sec)) else legacy
      | None \<Rightarrow> legacy)"

record legacy_promotion =
  lp_sent :: "secret option"

definition captured_msg :: "string option \<Rightarrow> bool option \<Rightarrow> ctrl" where
  "captured_msg token legacy = C_CredentialCaptured ClaudeOauth (map_option Secret token) legacy"

definition promote ::
  "(ctrl \<Rightarrow> string + bytes) \<Rightarrow> sess \<Rightarrow> string option \<Rightarrow> legacy_promotion \<Rightarrow> sess \<times> legacy_promotion" where
  "promote ser s content lp =
     (if lp_sent lp \<noteq> None \<or> \<not> user_token_peer s then (s, lp)
      else case read_legacy_valid content of
             None \<Rightarrow> (s, lp)
           | Some token \<Rightarrow>
               (case send_ctrl ser s (captured_msg (Some token) (Some True)) of
                  (Inr _, s') \<Rightarrow> (s', lp\<lparr> lp_sent := Some (Secret token) \<rparr>)
                | (Inl _, s') \<Rightarrow> (s', lp)))"

text \<open>The result says whether the file was removed; the last component is its contents after the call.\<close>

definition ack ::
  "bool \<Rightarrow> string option \<Rightarrow> bool \<Rightarrow> legacy_promotion \<Rightarrow> bool \<times> legacy_promotion \<times> string option" where
  "ack configured content removable lp =
     (if \<not> configured then (False, lp, content)
      else case lp_sent lp of
             None \<Rightarrow> (False, lp, content)
           | Some sent \<Rightarrow>
               (let lp' = lp\<lparr> lp_sent := None \<rparr>
                in if read_legacy content \<noteq> Some (expose sent) then (False, lp', content)
                   else if removable then (True, lp', None) else (False, lp', content)))"

section \<open>The observer\<close>

record capture_observer =
  co_ansi :: ansi_state
  co_scanner :: scan

definition observer_new :: capture_observer where
  "observer_new = \<lparr> co_ansi = A_Text, co_scanner = scan_new \<rparr>"

definition observe :: "string list option \<Rightarrow> capture_observer option" where
  "observe command =
     (case command of
        None \<Rightarrow> None
      | Some args \<Rightarrow> if list_ex (\<lambda>a. str_contains a ''setup-token'') args then Some observer_new else None)"

text \<open>\<open>written\<close> says whether writing the token file succeeds.\<close>

definition store ::
  "(ctrl \<Rightarrow> string + bytes) \<Rightarrow> bool \<Rightarrow> string \<Rightarrow> sess \<times> string option \<Rightarrow> sess \<times> string option" where
  "store ser written token sc =
     (case sc of (s, content) \<Rightarrow>
        if user_token_peer s then (snd (send_ctrl ser s (captured_msg (Some token) None)), content)
        else if \<not> written then (s, content)
        else (snd (send_ctrl ser s (captured_msg None None)), Some token))"

definition observer_push :: "capture_observer \<Rightarrow> string \<Rightarrow> capture_observer \<times> string option" where
  "observer_push o' chunk =
     (let (a, plain) = ansi_push (co_ansi o') chunk [];
          (sc, t) = scan_push (co_scanner o') plain
      in (\<lparr> co_ansi = a, co_scanner = sc \<rparr>, t))"

definition store_opt ::
  "(ctrl \<Rightarrow> string + bytes) \<Rightarrow> bool \<Rightarrow> string option \<Rightarrow> sess \<times> string option \<Rightarrow> sess \<times> string option" where
  "store_opt ser written t sc = (case t of Some token \<Rightarrow> store ser written token sc | None \<Rightarrow> sc)"

definition on_output ::
  "(ctrl \<Rightarrow> string + bytes) \<Rightarrow> bool \<Rightarrow> string \<Rightarrow> capture_observer \<times> sess \<times> string option
     \<Rightarrow> capture_observer \<times> sess \<times> string option" where
  "on_output ser written chunk st =
     (case st of (o', sc) \<Rightarrow> (case observer_push o' chunk of (o1, t) \<Rightarrow> (o1, store_opt ser written t sc)))"

definition on_close ::
  "(ctrl \<Rightarrow> string + bytes) \<Rightarrow> bool \<Rightarrow> capture_observer \<times> sess \<times> string option
     \<Rightarrow> capture_observer \<times> sess \<times> string option" where
  "on_close ser written st =
     (case st of (o', sc) \<Rightarrow>
        (case scan_finish (co_scanner o') of (sc', t) \<Rightarrow> (o'\<lparr> co_scanner := sc' \<rparr>, store_opt ser written t sc)))"

text \<open>The tokens a sequence of chunks gives.\<close>

fun observer_feed :: "capture_observer \<Rightarrow> string list \<Rightarrow> capture_observer \<times> string list" where
  "observer_feed o' [] = (o', [])"
| "observer_feed o' (c # cs) =
     (case observer_push o' c of (o1, t) \<Rightarrow>
        (case observer_feed o1 cs of (o2, ts) \<Rightarrow> (o2, (case t of Some x \<Rightarrow> [x] | None \<Rightarrow> []) @ ts)))"

section \<open>Chunks do not matter\<close>

lemma ansi_push_out: "ansi_push st xs out = (fst (ansi_push st xs []), out @ snd (ansi_push st xs []))"
proof (induction xs arbitrary: st out)
  case (Cons b bs)
  show ?case using Cons [of "ansi_next st b" "if st = A_Text \<and> b \<noteq> ESC then out @ [b] else out"]
      Cons [of "ansi_next st b" "if st = A_Text \<and> b \<noteq> ESC then [b] else []"]
    by auto
qed simp

lemma ansi_push_append:
  "ansi_push st (xs @ ys) out = (case ansi_push st xs out of (st', out') \<Rightarrow> ansi_push st' ys out')"
  by (induction xs arbitrary: st out) auto

lemma scan_push_done [simp]: "scan_push Scan_Done xs = (Scan_Done, None)"
  by (cases xs) auto

lemma scan_push_append:
  "scan_push sc (xs @ ys) =
     (case scan_push sc xs of (sc', Some t) \<Rightarrow> (sc', Some t) | (sc', None) \<Rightarrow> scan_push sc' ys)"
  by (induction sc xs rule: scan_push.induct) (auto simp: Let_def scan_finish_def)

lemma scan_push_token_done: "scan_push sc xs = (sc', Some t) \<Longrightarrow> sc' = Scan_Done"
  by (induction sc xs rule: scan_push.induct) (auto simp: Let_def scan_finish_def split: if_splits)

lemma observer_push_append:
  "observer_push o' (xs @ ys) =
     (case observer_push o' xs of
        (o1, t) \<Rightarrow> (case observer_push o1 ys of (o2, t') \<Rightarrow> (o2, case t of Some x \<Rightarrow> Some x | None \<Rightarrow> t')))"
proof -
  obtain a p where x: "ansi_push (co_ansi o') xs [] = (a, p)" by fastforce
  obtain b q where y: "ansi_push a ys [] = (b, q)" by fastforce
  have xy: "ansi_push (co_ansi o') (xs @ ys) [] = (b, p @ q)"
    using x y ansi_push_out [of a ys p] by (simp add: ansi_push_append)
  obtain sc t where s: "scan_push (co_scanner o') p = (sc, t)" by fastforce
  show ?thesis
    using x y xy s scan_push_token_done [of "co_scanner o'" p sc]
    by (cases t) (auto simp: observer_push_def Let_def scan_push_append split: prod.splits)
qed

lemma observer_feed_concat:
  "observer_feed o' cs = (case observer_push o' (concat cs) of (o1, t) \<Rightarrow> (o1, case t of Some x \<Rightarrow> [x] | None \<Rightarrow> []))"
proof (induction cs arbitrary: o')
  case Nil
  show ?case by (simp add: observer_push_def)
next
  case (Cons c cs)
  obtain o1 t where c: "observer_push o' c = (o1, t)" by fastforce
  obtain o2 t' where r: "observer_push o1 (concat cs) = (o2, t')" by fastforce
  have "t' = None" if "t \<noteq> None"
  proof -
    have "co_scanner o1 = Scan_Done"
      using that c scan_push_token_done by (fastforce simp: observer_push_def Let_def split: prod.splits)
    then show ?thesis using r by (simp add: observer_push_def Let_def split: prod.splits)
  qed
  then show ?case using c r Cons [of o1] by (cases t) (simp_all add: observer_push_append)
qed

section \<open>The token is found\<close>

definition last_n :: "nat \<Rightarrow> string \<Rightarrow> string" where
  "last_n n p = drop (length p - n) p"

lemma window_last: "window_push (last_n (length TOKEN_PREFIX) p) b = last_n (length TOKEN_PREFIX) (p @ [b])"
proof (cases "length p \<ge> length TOKEN_PREFIX")
  case True
  then have "Suc (length p) - length TOKEN_PREFIX = Suc (length p - length TOKEN_PREFIX)" by simp
  then show ?thesis using True
    by (simp add: window_push_def last_n_def Let_def drop_Suc tl_drop tl_append2 TOKEN_PREFIX_def)
next
  case False
  then show ?thesis by (simp add: window_push_def last_n_def Let_def)
qed

lemma last_n_suffix: "last_n (length w) p = w \<longleftrightarrow> (\<exists>u. p = u @ w)"
proof
  assume "last_n (length w) p = w"
  then have "p = take (length p - length w) p @ w" unfolding last_n_def by (metis append_take_drop_id)
  then show "\<exists>u. p = u @ w" by blast
qed (auto simp: last_n_def)

abbreviation visible :: "string \<Rightarrow> string" where
  "visible xs \<equiv> filter (\<lambda>b. \<not> line_break b) xs"

lemma line_break_no_token: "line_break c \<Longrightarrow> \<not> token_byte c"
  by (auto simp: token_byte_def line_break_def is_ascii_alphanumeric_def is_ascii_lowercase_def is_ascii_uppercase_def
      is_ascii_digit_def)

lemma scan_to_prefix:
  assumes "visible a = v" and "p @ v = u @ TOKEN_PREFIX" and "\<not> str_contains (butlast (p @ v)) TOKEN_PREFIX" and "v \<noteq> []"
  shows "scan_push (Scan_Prefix (last_n (length TOKEN_PREFIX) p)) (a @ r) = scan_push (Scan_Token TOKEN_PREFIX) r"
  using assms
proof (induction a arbitrary: p v)
  case (Cons b a)
  show ?case
  proof (cases "line_break b")
    case True
    then show ?thesis using Cons.IH [of v p] Cons.prems by simp
  next
    case False
    then have v: "v = b # visible a" using Cons.prems(1) by simp
    let ?w = "window_push (last_n (length TOKEN_PREFIX) p) b"
    have w: "?w = last_n (length TOKEN_PREFIX) (p @ [b])" by (rule window_last)
    have hit: "?w = TOKEN_PREFIX \<longleftrightarrow> (\<exists>u. p @ [b] = u @ TOKEN_PREFIX)" unfolding w by (rule last_n_suffix)
    show ?thesis
    proof (cases "visible a = []")
      case True
      then have "?w = TOKEN_PREFIX" using hit Cons.prems(2) v by auto
      moreover have "scan_push (Scan_Token TOKEN_PREFIX) (a @ r) = scan_push (Scan_Token TOKEN_PREFIX) r"
      proof -
        have "list_all line_break a" using True by (simp add: filter_empty_conv list_all_iff)
        then show ?thesis
        proof (induction a)
          case (Cons c a)
          then show ?case by (simp add: line_break_no_token TOKEN_PREFIX_def MIN_LEN_def)
        qed simp
      qed
      ultimately show ?thesis using False by (simp add: Let_def)
    next
      case more: False
      have "?w \<noteq> TOKEN_PREFIX"
      proof
        assume "?w = TOKEN_PREFIX"
        then obtain u' where "p @ [b] = u' @ TOKEN_PREFIX" using hit by blast
        then have "butlast (p @ v) = u' @ TOKEN_PREFIX @ butlast (visible a)"
          using v more by (simp add: butlast_append)
        then show False using Cons.prems(3) by (auto simp: str_contains_iff)
      qed
      then show ?thesis using Cons.IH [of "visible a" "p @ [b]"] Cons.prems v more False w by (simp add: Let_def)
    qed
  qed
qed simp

text \<open>The text of a token after its prefix: token bytes, wrapped by line breaks while it is still short.\<close>

fun wrapped :: "string \<Rightarrow> string \<Rightarrow> bool" where
  "wrapped buf [] = (MIN_LEN \<le> length buf \<and> length buf < MAX_LEN)"
| "wrapped buf (b # bs) =
     (if token_byte b then wrapped (buf @ [b]) bs else line_break b \<and> length buf < MIN_LEN \<and> wrapped buf bs)"

lemma wrapped_short: "wrapped buf bs \<Longrightarrow> length buf < MAX_LEN"
  by (induction buf bs rule: wrapped.induct) (auto split: if_splits)

lemma scan_wrapped:
  "wrapped buf bs \<Longrightarrow> \<not> token_byte c \<Longrightarrow>
   scan_push (Scan_Token buf) (bs @ c # d) = (Scan_Done, Some (buf @ filter token_byte bs))"
proof (induction buf bs rule: wrapped.induct)
  case (1 buf)
  then show ?case by (simp add: scan_finish_def)
next
  case (2 buf b bs)
  then show ?case using wrapped_short [of "buf @ [b]" bs] by (cases "token_byte b") auto
qed

lemma scan_finds:
  assumes "visible a = u @ TOKEN_PREFIX" and "\<not> str_contains (butlast (visible a)) TOKEN_PREFIX"
    and "wrapped TOKEN_PREFIX bs" and "\<not> token_byte c"
  shows "scan_push scan_new (a @ bs @ c # d) = (Scan_Done, Some (TOKEN_PREFIX @ filter token_byte bs))"
proof -
  have "visible a \<noteq> []" using assms(1) by (simp add: TOKEN_PREFIX_def)
  then have "scan_push (Scan_Prefix (last_n (length TOKEN_PREFIX) [])) (a @ bs @ c # d)
      = scan_push (Scan_Token TOKEN_PREFIX) (bs @ c # d)"
    using scan_to_prefix [of a "visible a" "[]" u "bs @ c # d"] assms(1,2) by simp
  then show ?thesis using scan_wrapped [OF assms(3,4)] by (simp add: scan_new_def last_n_def)
qed

section \<open>Properties\<close>

text \<open>
  C19: The token is captured exactly once and completely, however the terminal output is cut into chunks, wrapped into
  lines and interleaved with escape sequences: when the plain text has, at the first occurrence of the prefix, a token of
  100 to 1023 bytes that is wrapped only while it is shorter than 100 bytes, the observer reports that token and nothing else.
\<close>

theorem capture_finds_token:
  assumes "snd (ansi_push A_Text (concat chunks) []) = a @ bs @ c # d"
    and "visible a = u @ TOKEN_PREFIX" and "\<not> str_contains (butlast (visible a)) TOKEN_PREFIX"
    and "wrapped TOKEN_PREFIX bs" and "\<not> token_byte c"
  shows "snd (observer_feed observer_new chunks) = [TOKEN_PREFIX @ filter token_byte bs]"
proof -
  obtain st where "ansi_push A_Text (concat chunks) [] = (st, a @ bs @ c # d)" using assms(1) by (metis prod.collapse)
  then have "observer_push observer_new (concat chunks)
      = (\<lparr> co_ansi = st, co_scanner = Scan_Done \<rparr>, Some (TOKEN_PREFIX @ filter token_byte bs))"
    using scan_finds [OF assms(2-5), of d] by (simp add: observer_push_def observer_new_def)
  then show ?thesis by (simp add: observer_feed_concat)
qed

text \<open>The body of a token of 100 bytes, wrapped after 20 of them.\<close>

definition sample_body :: string where
  "sample_body = replicate 20 (CHR ''x'') @ [CHR 0x0D, CHR 0x0A] @ replicate 67 (CHR ''y'')"

theorem capture_finds_token_witness:
  "snd (observer_feed observer_new [[ESC] @ ''[1mYour tok'', ''en: sk-an'', ''t-oat01-'' @ sample_body @ [ESC], ''[0m done''])
     = [TOKEN_PREFIX @ filter token_byte sample_body]"
proof -
  let ?a = "''Your token: sk-ant-oat01-''"
  have "snd (ansi_push A_Text (concat [[ESC] @ ''[1mYour tok'', ''en: sk-an'', ''t-oat01-'' @ sample_body @ [ESC], ''[0m done'']) [])
      = ?a @ sample_body @ CHR '' '' # ''done''"
    by code_simp
  moreover have "visible ?a = ''Your token: '' @ TOKEN_PREFIX" by code_simp
  moreover have "\<not> str_contains (butlast (visible ?a)) TOKEN_PREFIX" by code_simp
  moreover have "wrapped TOKEN_PREFIX sample_body" by code_simp
  moreover have "\<not> token_byte (CHR '' '')" by code_simp
  ultimately show ?thesis by (rule capture_finds_token)
qed

text \<open>
  The scan ends at the first occurrence of the prefix also when no token follows it: once the prefix has been shown with
  anything else behind it, for example in an instruction, no later token of the terminal is captured.
\<close>

theorem capture_gives_up:
  assumes "snd (ansi_push A_Text (concat chunks) []) = a @ c # d"
    and "visible a = u @ TOKEN_PREFIX" and "\<not> str_contains (butlast (visible a)) TOKEN_PREFIX"
    and "\<not> token_byte c" and "\<not> line_break c"
  shows "snd (observer_feed observer_new chunks) = []"
proof -
  obtain st where p: "ansi_push A_Text (concat chunks) [] = (st, a @ c # d)" using assms(1) by (metis prod.collapse)
  have "visible a \<noteq> []" using assms(2) by (simp add: TOKEN_PREFIX_def)
  then have "scan_push (Scan_Prefix (last_n (length TOKEN_PREFIX) [])) (a @ c # d) = scan_push (Scan_Token TOKEN_PREFIX) (c # d)"
    using scan_to_prefix [of a "visible a" "[]" u "c # d"] assms(2,3) by simp
  then have "snd (scan_push scan_new (a @ c # d)) = None"
    using assms(4,5) by (simp add: scan_new_def last_n_def scan_finish_def TOKEN_PREFIX_def MIN_LEN_def)
  then show ?thesis using p by (auto simp: observer_feed_concat observer_push_def observer_new_def Let_def split: prod.splits)
qed

theorem capture_gives_up_witness:
  "snd (observer_feed observer_new [''Copy the sk-ant-oat01- token: '', ''sk-ant-oat01-'' @ sample_body @ '' '']) = []"
proof -
  have "snd (ansi_push A_Text (concat [''Copy the sk-ant-oat01- token: '', ''sk-ant-oat01-'' @ sample_body @ '' '']) [])
      = ''Copy the sk-ant-oat01-'' @ CHR '' '' # (''token: sk-ant-oat01-'' @ sample_body @ '' '')"
    by code_simp
  moreover have "visible ''Copy the sk-ant-oat01-'' = ''Copy the '' @ TOKEN_PREFIX" by code_simp
  moreover have "\<not> str_contains (butlast (visible ''Copy the sk-ant-oat01-'')) TOKEN_PREFIX" by code_simp
  moreover have "\<not> token_byte (CHR '' '')" "\<not> line_break (CHR '' '')" by code_simp+
  ultimately show ?thesis by (rule capture_gives_up)
qed

text \<open>
  A captured token leaves in exactly one way: a proxy that stores tokens gets it in the message and the file stays as it
  was; any other peer gets a message without it.
\<close>

theorem capture_one_way:
  assumes "on_output ser written chunk (o', s, content) = (o1, s1, content1)"
  shows "(user_token_peer s \<longrightarrow> content1 = content) \<and>
         (\<not> user_token_peer s \<longrightarrow> s1 = s \<or> s1 = snd (send_ctrl ser s (captured_msg None None)))"
  using assms by (auto simp: on_output_def store_opt_def store_def split: prod.splits option.splits if_splits)

text \<open>
  The legacy file is removed only after the proxy has acknowledged, and only while it still holds the token that was sent.
\<close>

theorem ack_removes_promoted:
  assumes "ack configured content removable lp = (True, lp', content')"
  shows "configured \<and> content' = None \<and> (\<exists>t. lp_sent lp = Some (Secret t) \<and> read_legacy content = Some t)"
proof -
  obtain sent where "lp_sent lp = Some sent" using assms by (auto simp: ack_def split: if_splits option.splits)
  then show ?thesis using assms by (cases sent) (auto simp: ack_def Let_def split: if_splits)
qed

end
