(* ===== verification/Step_Env.thy ===== *)
theory Step_Env
  imports Complex_Main Step Std_Text Std_Data
begin

text \<open>
  Telling an environment failure of a step from a failure of its code:
  \<^verbatim>\<open>sandbox-container/src/steps/environment.rs\<close>. A reading of the kernel's pressure files is an \<^verbatim>\<open>f64\<close>:
  its value, when it is a number, as a rational, with the comparisons as IEEE defines them on the three
  special values. Reading a decimal into an \<^verbatim>\<open>f64\<close> and printing one with one decimal are arguments
  (\<open>parse_f64\<close>, \<open>fmt1\<close>). A file is its contents, \<open>None\<close> when it cannot be read as text.
\<close>

datatype f64 = F64_NaN | F64_NegInf | F64 rat | F64_PosInf

fun f64_le :: "f64 \<Rightarrow> f64 \<Rightarrow> bool" where
  "f64_le F64_NaN b = False"
| "f64_le a F64_NaN = False"
| "f64_le F64_NegInf b = True"
| "f64_le a F64_PosInf = True"
| "f64_le (F64 a) (F64 b) = (a \<le> b)"
| "f64_le a b = False"

fun f64_less :: "f64 \<Rightarrow> f64 \<Rightarrow> bool" where
  "f64_less F64_NaN b = False"
| "f64_less a F64_NaN = False"
| "f64_less a b = (\<not> f64_le b a)"

definition PSI_SOME_SATURATED :: f64 where "PSI_SOME_SATURATED = F64 80"
definition PSI_MEMORY_FULL_SATURATED :: f64 where "PSI_MEMORY_FULL_SATURATED = F64 20"

datatype env_phase = EP_Fetch | EP_Install

fun phase_label :: "env_phase \<Rightarrow> string" where
  "phase_label EP_Fetch = ''git fetch''"
| "phase_label EP_Install = ''mise install''"

section \<open>Pressure\<close>

record pressure =
  pr_cpu_some :: f64
  pr_io_some :: f64
  pr_memory_full :: f64

definition saturated :: "pressure \<Rightarrow> (string \<times> string \<times> f64) option" where
  "saturated p =
     (if f64_le PSI_SOME_SATURATED (pr_cpu_some p) then Some (''cpu'', ''some'', pr_cpu_some p)
      else if f64_le PSI_SOME_SATURATED (pr_io_some p) then Some (''io'', ''some'', pr_io_some p)
      else if f64_le PSI_MEMORY_FULL_SATURATED (pr_memory_full p) then Some (''memory'', ''full'', pr_memory_full p)
      else None)"

definition pressure_reading :: "pressure \<Rightarrow> string \<Rightarrow> f64" where
  "pressure_reading p resource =
     (if resource = ''cpu'' then pr_cpu_some p else if resource = ''io'' then pr_io_some p else pr_memory_full p)"

record psi_line =
  pl_some_avg10 :: f64
  pl_full_avg10 :: "f64 option"

text \<open>\<^verbatim>\<open>it.find_map(f)\<close>.\<close>

fun find_map :: "('a \<Rightarrow> 'b option) \<Rightarrow> 'a list \<Rightarrow> 'b option" where
  "find_map f [] = None"
| "find_map f (x # xs) = (case f x of Some y \<Rightarrow> Some y | None \<Rightarrow> find_map f xs)"

definition psi_avg10 :: "(string \<Rightarrow> f64 option) \<Rightarrow> string \<Rightarrow> string \<Rightarrow> f64 option" where
  "psi_avg10 parse_f64 s kind =
     find_map (\<lambda>l.
       case split_whitespace l of
         [] \<Rightarrow> None
       | w # ws \<Rightarrow>
           if w \<noteq> kind then None
           else find_map (\<lambda>kv. Option.bind (strip_prefix kv ''avg10='') parse_f64) ws)
       (text_lines s)"

definition parse_psi :: "(string \<Rightarrow> f64 option) \<Rightarrow> string \<Rightarrow> psi_line option" where
  "parse_psi parse_f64 s =
     (case psi_avg10 parse_f64 s ''some'' of
        None \<Rightarrow> None
      | Some x \<Rightarrow> Some \<lparr>pl_some_avg10 = x, pl_full_avg10 = psi_avg10 parse_f64 s ''full''\<rparr>)"

text \<open>\<open>dir n\<close> is the text of the file \<open>n\<close> of the directory.\<close>

definition read_pressure :: "(string \<Rightarrow> f64 option) \<Rightarrow> (string \<Rightarrow> string option) \<Rightarrow> pressure option" where
  "read_pressure parse_f64 dir =
     (let rd = (\<lambda>n. Option.bind (dir n) (parse_psi parse_f64))
      in Option.bind (rd ''cpu'') (\<lambda>c.
         Option.bind (rd ''io'') (\<lambda>i.
         Option.bind (rd ''memory'') (\<lambda>m.
         Option.bind (pl_full_avg10 m) (\<lambda>f.
           Some \<lparr>pr_cpu_some = pl_some_avg10 c, pr_io_some = pl_some_avg10 i, pr_memory_full = f\<rparr>)))))"

section \<open>Evidence\<close>

record evidence =
  ev_failed :: bool
  ev_we_killed :: bool
  ev_text :: string
  ev_sigkilled :: bool
  ev_oom_before :: "u64 option"
  ev_oom_after :: "u64 option"
  ev_workspace_full :: "string option"
  ev_phase :: "env_phase option"
  ev_timed_out :: bool
  ev_pressure_start :: "pressure option"
  ev_pressure_kill :: "pressure option"

definition evidence_default :: evidence where
  "evidence_default =
     \<lparr>ev_failed = False, ev_we_killed = False, ev_text = [], ev_sigkilled = False, ev_oom_before = None,
      ev_oom_after = None, ev_workspace_full = None, ev_phase = None, ev_timed_out = False,
      ev_pressure_start = None, ev_pressure_kill = None\<rparr>"

definition NETWORK_SIGNATURES :: "string list" where
  "NETWORK_SIGNATURES =
     [''could not resolve host'', ''temporary failure in name resolution'', ''network is unreachable'',
      ''connection timed out'', ''failed to connect to'']"

definition TOOLCHAIN_SIGNATURES :: "string list" where
  "TOOLCHAIN_SIGNATURES = [''command not found'', ''failed to install'', ''no version is set for'']"

definition ELLIPSIS :: string where "ELLIPSIS = [CHR 0xE2, CHR 0x80, CHR 0xA6]"
definition ARROW :: string where "ARROW = [CHR 0xE2, CHR 0x86, CHR 0x92]"

text \<open>The line, cut after 200 characters.\<close>

definition signature_cut :: "string \<Rightarrow> string" where
  "signature_cut l = (let t = trim l; c = take_chars 200 t in if length c < length t then c @ ELLIPSIS else t)"

definition has_signature :: "string list \<Rightarrow> string \<Rightarrow> bool" where
  "has_signature sigs l \<longleftrightarrow> list_ex (str_contains (to_ascii_lowercase l)) sigs"

definition signature_line :: "string \<Rightarrow> string list \<Rightarrow> string option" where
  "signature_line text sigs =
     find_map (\<lambda>l. if has_signature sigs l then Some (signature_cut l) else None) (text_lines text)"

section \<open>Classification\<close>

definition classify_phase :: "evidence \<Rightarrow> step_environment option" where
  "classify_phase ev =
     (case ev_phase ev of
        None \<Rightarrow> None
      | Some phase \<Rightarrow>
          (let res = (\<lambda>kind line. \<lparr>sn_kind = kind, sn_detail = line @ '' ('' @ phase_label phase @ '')''\<rparr>)
           in case signature_line (ev_text ev) NETWORK_SIGNATURES of
                Some l \<Rightarrow> Some (res Env_Network l)
              | None \<Rightarrow> map_option (res Env_ToolchainMissing) (signature_line (ev_text ev) TOOLCHAIN_SIGNATURES)))"

definition classify_load :: "(f64 \<Rightarrow> string) \<Rightarrow> evidence \<Rightarrow> step_environment option" where
  "classify_load fmt1 ev =
     (if \<not> (ev_we_killed ev \<and> ev_timed_out ev) then None
      else case (ev_pressure_start ev, ev_pressure_kill ev) of
        (Some start, Some kill) \<Rightarrow>
          (case saturated kill of
             None \<Rightarrow> None
           | Some (res, sig, at_kill) \<Rightarrow>
               (let at_start = pressure_reading start res;
                    limit = (if res = ''memory'' then PSI_MEMORY_FULL_SATURATED else PSI_SOME_SATURATED)
                in if f64_less at_start limit then None
                   else Some \<lparr>sn_kind = Env_Load,
                     sn_detail = res @ '' pressure '' @ sig @ '' avg10='' @ fmt1 at_kill
                       @ ''% at timeout ('' @ fmt1 at_start @ ''% at step start)''\<rparr>))
      | _ \<Rightarrow> None)"

definition disk_full :: "string \<Rightarrow> step_environment" where
  "disk_full detail = \<lparr>sn_kind = Env_DiskFull, sn_detail = detail\<rparr>"

definition classify_oom :: "evidence \<Rightarrow> step_environment option" where
  "classify_oom ev =
     (case (ev_oom_before ev, ev_oom_after ev) of
        (Some before, Some after) \<Rightarrow>
          if after > before
          then Some \<lparr>sn_kind = Env_Oom,
            sn_detail = ''oom_kill '' @ show_nat (unat before) @ ARROW @ show_nat (unat after)
              @ '' in memory.events'' @ (if ev_sigkilled ev then '', command killed (137)'' else [])\<rparr>
          else None
      | _ \<Rightarrow> None)"

definition ENOSPC_TEXT :: string where "ENOSPC_TEXT = ''no space left on device''"

definition classify :: "(f64 \<Rightarrow> string) \<Rightarrow> evidence \<Rightarrow> step_environment option" where
  "classify fmt1 ev =
     (if \<not> ev_failed ev then None
      else if str_contains (to_ascii_lowercase (ev_text ev)) ENOSPC_TEXT
        then Some (disk_full ''No space left on device (ENOSPC) in the step output'')
      else case ev_workspace_full ev of
        Some d \<Rightarrow> Some (disk_full d)
      | None \<Rightarrow>
          (case classify_phase ev of
             Some e \<Rightarrow> Some e
           | None \<Rightarrow> if ev_we_killed ev then classify_load fmt1 ev else classify_oom ev))"

section \<open>Readings of the system\<close>

definition parse_oom_kill :: "string \<Rightarrow> u64 option" where
  "parse_oom_kill s =
     find_map (\<lambda>l.
       case split_whitespace l of
         [] \<Rightarrow> None
       | w # ws \<Rightarrow>
           if w = ''oom_kill''
           then (case ws of [] \<Rightarrow> None | n # _ \<Rightarrow> map_option word_of_int (parse_unsigned U64_MAX n))
           else None)
       (text_lines s)"

definition oom_kill_count :: "string option \<Rightarrow> u64 option" where
  "oom_kill_count contents = Option.bind contents parse_oom_kill"

definition FREE_FLOOR :: u64 where "FREE_FLOOR = 64 * 1024 * 1024"

definition full_reason :: "u64 \<times> u64 \<Rightarrow> u64 \<times> u64 \<Rightarrow> string option" where
  "full_reason bytes files =
     (let least = min FREE_FLOOR (fst bytes div 100)
      in if fst bytes > 0 \<and> snd bytes = 0 then Some ''workspace has 0 free blocks (statvfs)''
         else if fst bytes > 0 \<and> snd bytes < least
           then Some (''workspace has '' @ show_nat (unat (snd bytes div 1024)) @ '' KiB free (< ''
             @ show_nat (unat (least div 1024)) @ '' KiB floor)'')
         else if fst files > 0 \<and> snd files = 0 then Some ''workspace has 0 free inodes (statvfs)''
         else None)"

text \<open>What \<^verbatim>\<open>statvfs\<close> reports of the file system, \<open>None\<close> when the call fails.\<close>

record statvfs =
  vfs_frsize :: u64
  vfs_blocks :: u64
  vfs_bavail :: u64
  vfs_files :: u64
  vfs_favail :: u64

definition saturating_mul :: "u64 \<Rightarrow> u64 \<Rightarrow> u64" where
  "saturating_mul a b = (if unat a * unat b < 2 ^ 64 then a * b else - 1)"

definition workspace_full :: "statvfs option \<Rightarrow> string option" where
  "workspace_full st =
     Option.bind st (\<lambda>st.
       full_reason (saturating_mul (vfs_blocks st) (vfs_frsize st), saturating_mul (vfs_bavail st) (vfs_frsize st))
         (vfs_files st, vfs_favail st))"

section \<open>Properties\<close>

lemma find_map_Some: "find_map f xs = Some y \<Longrightarrow> \<exists>x \<in> set xs. f x = Some y"
  by (induction xs) (auto split: option.splits)

lemma signature_line_Some:
  "signature_line text sigs = Some l \<Longrightarrow> \<exists>x \<in> set (text_lines text). has_signature sigs x \<and> l = signature_cut x"
  unfolding signature_line_def by (drule find_map_Some) (auto split: if_splits)

lemma classify_phase_Some:
  assumes "classify_phase ev = Some e"
  shows "(sn_kind e = Env_Network
            \<and> (\<exists>l \<in> set (text_lines (ev_text ev)). has_signature NETWORK_SIGNATURES l)
          \<or> sn_kind e = Env_ToolchainMissing
            \<and> (\<exists>l \<in> set (text_lines (ev_text ev)). has_signature TOOLCHAIN_SIGNATURES l))
         \<and> ev_phase ev \<noteq> None"
  using assms by (auto simp: classify_phase_def Let_def split: option.splits dest: signature_line_Some)

lemma pressure_reading_simps [simp]:
  "pressure_reading p ''cpu'' = pr_cpu_some p"
  "pressure_reading p ''io'' = pr_io_some p"
  "pressure_reading p ''memory'' = pr_memory_full p"
  by (simp_all add: pressure_reading_def)

definition load_limit :: "string \<Rightarrow> f64" where
  "load_limit r = (if r = ''memory'' then PSI_MEMORY_FULL_SATURATED else PSI_SOME_SATURATED)"

lemma load_limit_simps [simp]:
  "load_limit ''cpu'' = PSI_SOME_SATURATED" "load_limit ''io'' = PSI_SOME_SATURATED"
  "load_limit ''memory'' = PSI_MEMORY_FULL_SATURATED"
  by (simp_all add: load_limit_def)

lemma saturated_Some:
  assumes "saturated p = Some (r, s, x)"
  shows "f64_le (load_limit r) (pressure_reading p r)"
proof -
  consider "f64_le PSI_SOME_SATURATED (pr_cpu_some p)" "r = ''cpu''"
    | "f64_le PSI_SOME_SATURATED (pr_io_some p)" "r = ''io''"
    | "f64_le PSI_MEMORY_FULL_SATURATED (pr_memory_full p)" "r = ''memory''"
    using assms unfolding saturated_def by (simp only: split: if_splits) simp_all
  then show ?thesis by cases simp_all
qed

lemma classify_load_Some:
  assumes "classify_load fmt1 ev = Some e"
  shows "sn_kind e = Env_Load \<and> ev_we_killed ev \<and> ev_timed_out ev
    \<and> (\<exists>start kill r. ev_pressure_start ev = Some start \<and> ev_pressure_kill ev = Some kill
         \<and> f64_le (load_limit r) (pressure_reading kill r)
         \<and> \<not> f64_less (pressure_reading start r) (load_limit r))"
proof -
  obtain start kill r s x where *: "ev_we_killed ev" "ev_timed_out ev" "ev_pressure_start ev = Some start"
    "ev_pressure_kill ev = Some kill" "saturated kill = Some (r, s, x)" "sn_kind e = Env_Load"
    "\<not> f64_less (pressure_reading start r) (load_limit r)"
    using assms by (auto simp: classify_load_def load_limit_def Let_def split: if_splits option.splits)
  then show ?thesis using saturated_Some [OF *(5)] by blast
qed

lemma classify_oom_Some:
  "classify_oom ev = Some e \<Longrightarrow>
     sn_kind e = Env_Oom \<and> (\<exists>b a. ev_oom_before ev = Some b \<and> ev_oom_after ev = Some a \<and> b < a)"
  by (auto simp: classify_oom_def split: option.splits if_splits)

definition disk_evidence :: "evidence \<Rightarrow> bool" where
  "disk_evidence ev \<longleftrightarrow>
     str_contains (to_ascii_lowercase (ev_text ev)) ENOSPC_TEXT \<or> ev_workspace_full ev \<noteq> None"

text \<open>
  The classifier is conservative. Whatever it reports, the step failed and there is the evidence the
  report needs: a full disk for \<open>Env_DiskFull\<close>, which wins over everything else; a signature in a line of the
  output of a phase before the step's own command for \<open>Env_Network\<close> and \<open>Env_ToolchainMissing\<close>; a timeout with
  the same resource saturated at the end, and not below its limit at the start, for \<open>Env_Load\<close>; a raised
  counter of a step that nobody stopped for \<open>Env_Oom\<close>. A failure with none of this is a plain failure.
\<close>

theorem classify_conservative:
  assumes "classify fmt1 ev = Some e"
  shows "ev_failed ev
    \<and> (sn_kind e = Env_DiskFull \<longleftrightarrow> disk_evidence ev)
    \<and> (case sn_kind e of
         Env_DiskFull \<Rightarrow> True
       | Env_Network \<Rightarrow> ev_phase ev \<noteq> None
           \<and> (\<exists>l \<in> set (text_lines (ev_text ev)). has_signature NETWORK_SIGNATURES l)
       | Env_ToolchainMissing \<Rightarrow> ev_phase ev \<noteq> None
           \<and> (\<exists>l \<in> set (text_lines (ev_text ev)). has_signature TOOLCHAIN_SIGNATURES l)
       | Env_Load \<Rightarrow> ev_we_killed ev \<and> ev_timed_out ev
           \<and> (\<exists>start kill r. ev_pressure_start ev = Some start \<and> ev_pressure_kill ev = Some kill
                \<and> f64_le (load_limit r) (pressure_reading kill r)
                \<and> \<not> f64_less (pressure_reading start r) (load_limit r))
       | Env_Oom \<Rightarrow> \<not> ev_we_killed ev
           \<and> (\<exists>b a. ev_oom_before ev = Some b \<and> ev_oom_after ev = Some a \<and> b < a)
       | Env_Unknown \<Rightarrow> False)"
proof -
  have f: "ev_failed ev" using assms by (auto simp: classify_def split: if_splits)
  show ?thesis
  proof (cases "disk_evidence ev")
    case True
    then have "sn_kind e = Env_DiskFull"
      using assms f by (auto simp: classify_def disk_evidence_def disk_full_def split: if_splits)
    then show ?thesis using True f by simp
  next
    case nd: False
    then have r: "(case classify_phase ev of Some e \<Rightarrow> Some e
        | None \<Rightarrow> if ev_we_killed ev then classify_load fmt1 ev else classify_oom ev) = Some e"
      using assms f by (simp add: classify_def disk_evidence_def)
    show ?thesis
    proof (cases "classify_phase ev")
      case (Some e')
      then show ?thesis using classify_phase_Some [of ev e] r nd f by auto
    next
      case None
      then show ?thesis
        using r nd f classify_load_Some [of fmt1 ev e] classify_oom_Some [of ev e] by (auto split: if_splits)
    qed
  qed
qed

definition timeout_evidence :: evidence where
  "timeout_evidence =
     (let p = \<lparr>pr_cpu_some = F64 82, pr_io_some = F64 0, pr_memory_full = F64 0\<rparr>
      in evidence_default\<lparr>ev_failed := True, ev_we_killed := True, ev_timed_out := True,
           ev_pressure_start := Some p, ev_pressure_kill := Some p\<rparr>)"

theorem classify_conservative_witness:
  "classify (\<lambda>_. ''82.0'') timeout_evidence
     = Some \<lparr>sn_kind = Env_Load,
         sn_detail = ''cpu pressure some avg10=82.0% at timeout (82.0% at step start)''\<rparr>
   \<and> ev_failed timeout_evidence \<and> \<not> disk_evidence timeout_evidence"
proof -
  have c: "classify (\<lambda>_. ''82.0'') timeout_evidence
     = Some \<lparr>sn_kind = Env_Load,
         sn_detail = ''cpu pressure some avg10=82.0% at timeout (82.0% at step start)''\<rparr>"
    by (simp add: classify_def timeout_evidence_def evidence_default_def Let_def ENOSPC_TEXT_def
        to_ascii_lowercase_def classify_phase_def classify_load_def saturated_def PSI_SOME_SATURATED_def
        pressure_reading_def)
  from classify_conservative [OF this] show ?thesis using c by simp
qed

text \<open>
  The free space a step needs: below the smaller of 64 MiB and a hundredth of the disk the workspace is full,
  from there on only a lack of inodes makes it so; a file system without totals is never full. A product that
  does not fit a \<^verbatim>\<open>u64\<close> counts as its largest value, so a huge disk is never taken for a small one.
\<close>

lemma saturating_mul_unat: "unat (saturating_mul a b) = min (unat a * unat b) (2 ^ 64 - 1)"
proof (cases "unat a * unat b < 2 ^ 64")
  case True
  then show ?thesis by (simp add: saturating_mul_def unat_word_ariths)
next
  case False
  then show ?thesis by (simp add: saturating_mul_def unsigned_minus_1_eq_mask mask_eq_exp_minus_1)
qed

theorem workspace_full_iff:
  "workspace_full (Some st) \<noteq> None \<longleftrightarrow>
     (let all = min (unat (vfs_blocks st) * unat (vfs_frsize st)) (2 ^ 64 - 1);
          free = min (unat (vfs_bavail st) * unat (vfs_frsize st)) (2 ^ 64 - 1)
      in all > 0 \<and> (free = 0 \<or> free < min (64 * 1024 * 1024) (all div 100))
         \<or> vfs_files st > 0 \<and> vfs_favail st = 0)"
proof -
  have f: "unat (min FREE_FLOOR (x div 100)) = min (64 * 1024 * 1024) (unat x div 100)" for x :: u64
    by (simp add: FREE_FLOOR_def min_def word_le_nat_alt unat_div)
  show ?thesis
    unfolding workspace_full_def full_reason_def Let_def
    by (simp add: word_less_nat_alt f saturating_mul_unat flip: unat_eq_zero)
qed

end
