(* ===== verification/Net_Git.thy ===== *)
theory Net_Git
  imports Std_Text Std_Data
begin

text \<open>
  The environment of the git calls that carry a token, and the directories of a repository:
  \<^verbatim>\<open>sandbox-container/src/netgit.rs\<close> and \<^verbatim>\<open>repos.rs\<close>. The environment of the sandbox process and the digest
  of a URL (the \<^verbatim>\<open>sha2\<close> crate) are arguments. A path is a string, as the code builds it.
\<close>

type_synonym env = "(string \<times> string) list"

text \<open>\<^verbatim>\<open>Path::join\<close>: an absolute second path replaces the first.\<close>

definition path_join :: "string \<Rightarrow> string \<Rightarrow> string" where
  "path_join p q =
     (if starts_with q ''/'' then q
      else if p = [] \<or> ends_with p ''/'' then p @ q
      else p @ ''/'' @ q)"

section \<open>Network errors\<close>

definition NET_ATTEMPTS :: nat where "NET_ATTEMPTS = 3"

definition PERMANENT :: "string list" where
  "PERMANENT =
     [''error: 401'', ''error: 403'', ''HTTP 401'', ''HTTP 403'', ''Authentication failed'', ''Permission denied'',
      ''non-fast-forward'', ''[rejected]'', ''[remote rejected]'', ''protected branch'', ''fetch first'', ''not found'']"

definition TRANSIENT :: "string list" where
  "TRANSIENT =
     [''Connection timed out'', ''Connection reset'', ''Could not resolve host'', ''Failed to connect'',
      ''Operation timed out'', ''RPC failed'', ''early EOF'', ''unexpected disconnect'', ''returned error: 429'',
      ''The remote end hung up'', ''Operation too slow'']"

text \<open>\<^verbatim>\<open>s.match_indices(p)\<close>: what follows each occurrence, from the left, without overlaps.\<close>

function after_matches :: "string \<Rightarrow> string \<Rightarrow> string list" where
  "after_matches p s =
     (if p = [] then []
      else case str_find s p of
             None \<Rightarrow> []
           | Some i \<Rightarrow> (let r = drop (i + length p) s in r # after_matches p r))"
  by pat_completeness auto
termination
proof (relation "measure (\<lambda>(p, s). length s)")
  fix p s :: string and i r
  assume "p \<noteq> []" "str_find s p = Some i" "r = drop (i + length p) s"
  then show "((p, r), (p, s)) \<in> measure (\<lambda>(p, s). length s)"
    using str_find_SomeD [of s p i] by (cases p) auto
qed simp

declare after_matches.simps [simp del]

definition five_xx :: "string \<Rightarrow> bool" where
  "five_xx r \<longleftrightarrow> length (filter is_ascii_digit (take_chars 2 r)) = 2"

definition is_transient :: "string \<Rightarrow> bool" where
  "is_transient stderr =
     (if list_ex (str_contains stderr) PERMANENT then False
      else if list_ex (str_contains stderr) TRANSIENT then True
      else list_ex five_xx (after_matches ''returned error: 5'' stderr))"

section \<open>The environment of an authenticated call\<close>

definition PASS_ENV :: "string list" where
  "PASS_ENV =
     [''PATH'', ''LANG'', ''LC_ALL'', ''TZ'', ''SSL_CERT_FILE'', ''SSL_CERT_DIR'', ''HTTPS_PROXY'', ''https_proxy'',
      ''HTTP_PROXY'', ''http_proxy'', ''NO_PROXY'', ''no_proxy'']"

definition scheme :: "string \<Rightarrow> string + string" where
  "scheme url =
     (if starts_with url ''https://'' then Inr ''https''
      else if starts_with url ''file://'' then Inr ''file''
      else Inl ''repo_url must be https:// (or file://)'')"

definition FIXED_ENV :: env where
  "FIXED_ENV =
     [(''GIT_TERMINAL_PROMPT'', ''0''), (''HOME'', ''/nonexistent''), (''GIT_ASKPASS'', []), (''SSH_ASKPASS'', [])]"

definition set_env :: "string \<times> string \<Rightarrow> env \<Rightarrow> env" where
  "set_env kv env = filter (\<lambda>e. fst e \<noteq> fst kv) env @ [kv]"

definition net_config :: "string \<Rightarrow> string option \<Rightarrow> env" where
  "net_config sch header =
     [(''core.hooksPath'', ''/dev/null''), (''core.fsmonitor'', ''false''), (''core.sshCommand'', ''false''),
      (''core.askPass'', []), (''credential.helper'', []), (''protocol.allow'', ''never''),
      (''protocol.'' @ sch @ ''.allow'', ''always''), (''gc.auto'', ''0''), (''maintenance.auto'', ''false''),
      (''fetch.recurseSubmodules'', ''false''), (''submodule.recurse'', ''false''), (''http.proxy'', []),
      (''http.sslVerify'', ''true''), (''http.cookieFile'', []), (''http.saveCookies'', ''false''),
      (''http.followRedirects'', ''initial''), (''http.extraheader'', []), (''http.lowSpeedLimit'', ''1000''),
      (''http.lowSpeedTime'', ''60'')]
     @ (case header of None \<Rightarrow> [] | Some h \<Rightarrow> [(''http.extraheader'', h)])"

definition config_entry :: "nat \<Rightarrow> string \<times> string \<Rightarrow> env" where
  "config_entry i kv =
     [(''GIT_CONFIG_KEY_'' @ show_nat i, fst kv), (''GIT_CONFIG_VALUE_'' @ show_nat i, snd kv)]"

fun config_entries :: "nat \<Rightarrow> env \<Rightarrow> env" where
  "config_entries i [] = []"
| "config_entries i (kv # cfg) = config_entry i kv @ config_entries (Suc i) cfg"

definition net_env_of :: "(string \<Rightarrow> string option) \<Rightarrow> string \<Rightarrow> string option \<Rightarrow> env \<Rightarrow> string + env" where
  "net_env_of var url header base =
     (case scheme url of
        Inl e \<Rightarrow> Inl e
      | Inr sch \<Rightarrow>
          (let env = List.map_filter (\<lambda>k. map_option (Pair k) (var k)) PASS_ENV;
               env = env @ base;
               env = fold set_env FIXED_ENV env;
               cfg = net_config sch header;
               env = filter (\<lambda>kv. \<not> starts_with (fst kv) ''GIT_CONFIG_'') env
           in Inr (env @ [(''GIT_CONFIG_NOSYSTEM'', ''1''), (''GIT_CONFIG_GLOBAL'', ''/dev/null''),
                (''GIT_CONFIG_COUNT'', show_nat (length cfg))] @ config_entries 0 cfg)))"

definition local_args :: "string list \<Rightarrow> string list" where
  "local_args args = [''-c'', ''core.hooksPath=/dev/null'', ''-c'', ''core.fsmonitor=false''] @ args"

text \<open>\<open>r\<close> is the printed random number.\<close>

definition net_dir :: "string \<Rightarrow> string \<Rightarrow> string \<Rightarrow> string" where
  "net_dir workspace tag r = path_join (path_join (path_join workspace ''.enzarb'') ''net'') (tag @ ''-'' @ r)"

section \<open>Directories of a repository\<close>

text \<open>A character outside of \<^verbatim>\<open>[A-Za-z0-9_-]\<close> becomes one underscore, however many bytes it has.\<close>

definition clean_char :: "char \<Rightarrow> char" where
  "clean_char c =
     (if is_ascii_alphanumeric c \<or> c = CHR ''-'' \<or> c = CHR ''_''
      then (if is_ascii_uppercase c then char_of ((of_char c :: nat) + 32) else c)
      else CHR ''_'')"

definition clean_name :: "string \<Rightarrow> string" where
  "clean_name s = map clean_char (filter (\<lambda>c. \<not> utf8_cont (byte_of_char c)) s)"

definition repo_base :: "string \<Rightarrow> string" where
  "repo_base url = trim_end_matches ''.git'' (trim_end_matches ''/'' url)"

definition hex2 :: "byte \<Rightarrow> string" where
  "hex2 b = (let d = (\<lambda>n. if n < 10 then digit_char n else char_of (87 + n)) in [d (unat b div 16), d (unat b mod 16)])"

definition repo_dir_name :: "(string \<Rightarrow> bytes) \<Rightarrow> string \<Rightarrow> string" where
  "repo_dir_name sha256 url =
     (let parts = take 2 (rev (split_any [CHR ''/'', CHR '':''] (repo_base url)));
          tail = clean_name (join ''-'' (rev parts))
      in tail @ ''-'' @ concat (map hex2 (take 4 (sha256 url))))"

definition shared_target_dir :: "string \<Rightarrow> string \<Rightarrow> string option" where
  "shared_target_dir workspace url =
     (case rev (split_any [CHR ''/'', CHR '':''] (repo_base (trim url))) of
        r # own # _ \<Rightarrow>
          (let repo = clean_name r; owner = clean_name own
           in if repo = [] \<or> owner = [] then None
              else Some (path_join (path_join (path_join workspace ''.cache/target'') owner) repo))
      | _ \<Rightarrow> None)"

text \<open>\<open>image_set\<close>: the variable is set in the process; \<open>mkdir d\<close>: the directory \<open>d\<close> is there or can be created.\<close>

definition target_dir_env ::
  "bool \<Rightarrow> (string \<Rightarrow> bool) \<Rightarrow> string \<Rightarrow> string option \<Rightarrow> env \<Rightarrow> (string \<times> string) option" where
  "target_dir_env image_set mkdir workspace url env =
     (if list_ex (\<lambda>kv. fst kv = ''CARGO_TARGET_DIR'') env \<or> image_set then None
      else Option.bind url (\<lambda>u.
           Option.bind (shared_target_dir workspace u) (\<lambda>d.
           if mkdir d then Some (''CARGO_TARGET_DIR'', d) else None)))"

section \<open>Lemmas\<close>

text \<open>
  The value a process sees of a variable that is given more than once is the last one. Git reads its
  configuration from the count, then one key and one value per number.
\<close>

definition env_get :: "env \<Rightarrow> string \<Rightarrow> string option" where
  "env_get env k = map_of (rev env) k"

definition git_config_of :: "env \<Rightarrow> env option" where
  "git_config_of env =
     Option.bind (env_get env ''GIT_CONFIG_COUNT'') (\<lambda>n.
     Option.bind (parse_unsigned U64_MAX n) (\<lambda>c.
     those (map (\<lambda>i.
       Option.bind (env_get env (''GIT_CONFIG_KEY_'' @ show_nat i)) (\<lambda>k.
       map_option (Pair k) (env_get env (''GIT_CONFIG_VALUE_'' @ show_nat i)))) [0..<nat c])))"

lemma show_nat_uint: "show_nat n = show_uint (int n)"
proof (induction n rule: show_nat.induct)
  case (1 n)
  have d: "digit_char m = char_of (48 + int m)" if "m < 10" for m
  proof -
    have "char_of (48 + int m) = (char_of (48 + m) :: char)" using that
      by (metis char_of_nat of_nat_add of_nat_numeral)
    then show ?thesis by (simp add: digit_char_def)
  qed
  show ?case
  proof (cases "n < 10")
    case True
    then show ?thesis by (simp add: show_nat.simps [of n] show_uint.simps [of "int n"] d)
  next
    case False
    then show ?thesis using 1 d [of "n mod 10"]
      by (simp add: show_nat.simps [of n] show_uint.simps [of "int n"] zdiv_int zmod_int)
  qed
qed

lemma show_nat_inj [simp]: "show_nat a = show_nat b \<longleftrightarrow> a = b"
  by (metis int_of_digits_show of_nat_0_le_iff of_nat_eq_iff show_nat_uint)

lemma digit_not_plus: "is_ascii_digit c \<Longrightarrow> c \<noteq> CHR ''+''"
  by (auto simp: is_ascii_digit_def)

lemma parse_show_nat: "int n \<le> m \<Longrightarrow> parse_unsigned m (show_nat n) = Some (int n)"
proof -
  assume "int n \<le> m"
  have d: "all_digits (show_nat n)" by (simp add: show_nat_uint all_digits_show)
  then obtain c r where cr: "show_nat n = c # r" "is_ascii_digit c"
    by (cases "show_nat n") (auto simp: all_digits_def)
  then have "c \<noteq> CHR ''+''" by (simp add: digit_not_plus)
  then show ?thesis
    using d cr \<open>int n \<le> m\<close> int_of_digits_show [of "int n"]
    by (simp add: parse_unsigned_def Let_def flip: show_nat_uint)
qed

lemma env_get_append:
  "env_get (xs @ ys) k = (case env_get ys k of None \<Rightarrow> env_get xs k | Some v \<Rightarrow> Some v)"
  by (simp add: env_get_def map_add_def split: option.split)

lemma env_get_distinct:
  assumes "distinct (map fst env)" "(k, v) \<in> set env"
  shows "env_get env k = Some v"
proof -
  have "distinct (map fst (rev env))" using assms(1) by (simp add: rev_map [symmetric])
  then show ?thesis using assms(2) by (simp add: env_get_def)
qed

lemma env_get_None: "k \<notin> fst ` set env \<Longrightarrow> env_get env k = None"
  by (simp add: env_get_def map_of_eq_None_iff)

lemma config_entries_keys:
  "fst ` set (config_entries i cfg)
     = (\<lambda>j. ''GIT_CONFIG_KEY_'' @ show_nat j) ` {i..<i + length cfg}
       \<union> (\<lambda>j. ''GIT_CONFIG_VALUE_'' @ show_nat j) ` {i..<i + length cfg}"
proof (induction cfg arbitrary: i)
  case (Cons kv cfg)
  have "{i..<i + length (kv # cfg)} = insert i {Suc i..<Suc i + length cfg}" by auto
  then show ?case using Cons [of "Suc i"] by (auto simp: config_entry_def)
qed simp

lemma config_entries_distinct: "distinct (map fst (config_entries i cfg))"
proof (induction cfg arbitrary: i)
  case (Cons kv cfg)
  then show ?case using config_entries_keys [of "Suc i" cfg] by (auto simp: config_entry_def image_iff)
qed simp

lemma config_entries_nth:
  "j < length cfg \<Longrightarrow> (''GIT_CONFIG_KEY_'' @ show_nat (i + j), fst (cfg ! j)) \<in> set (config_entries i cfg)
     \<and> (''GIT_CONFIG_VALUE_'' @ show_nat (i + j), snd (cfg ! j)) \<in> set (config_entries i cfg)"
proof (induction cfg arbitrary: i j)
  case (Cons kv cfg)
  then show ?case by (cases j) (auto simp: config_entry_def dest: Cons.IH [of _ "Suc i"])
qed simp

lemma those_Some: "those (map Some xs) = Some xs"
  by (induction xs) auto

definition config_env :: "env \<Rightarrow> env" where
  "config_env cfg =
     [(''GIT_CONFIG_NOSYSTEM'', ''1''), (''GIT_CONFIG_GLOBAL'', ''/dev/null''),
      (''GIT_CONFIG_COUNT'', show_nat (length cfg))] @ config_entries 0 cfg"

lemma config_env_distinct: "distinct (map fst (config_env cfg))"
proof -
  have "k \<notin> fst ` set (config_entries 0 cfg)"
    if "k \<in> {''GIT_CONFIG_NOSYSTEM'', ''GIT_CONFIG_GLOBAL'', ''GIT_CONFIG_COUNT''}" for k
    using that unfolding config_entries_keys by auto
  then show ?thesis using config_entries_distinct [of 0 cfg] by (simp add: config_env_def)
qed

lemma config_env_get: "(k, v) \<in> set (config_env cfg) \<Longrightarrow> env_get (xs @ config_env cfg) k = Some v"
  by (simp add: env_get_append env_get_distinct [OF config_env_distinct])

lemma git_config_config_env:
  assumes "int (length cfg) \<le> U64_MAX"
  shows "git_config_of (xs @ config_env cfg) = Some cfg"
proof -
  have c: "env_get (xs @ config_env cfg) ''GIT_CONFIG_COUNT'' = Some (show_nat (length cfg))"
    by (rule config_env_get) (simp add: config_env_def)
  have "Option.bind (env_get (xs @ config_env cfg) (''GIT_CONFIG_KEY_'' @ show_nat i)) (\<lambda>k.
      map_option (Pair k) (env_get (xs @ config_env cfg) (''GIT_CONFIG_VALUE_'' @ show_nat i)))
      = Some (cfg ! i)" if "i < length cfg" for i
  proof -
    have "(''GIT_CONFIG_KEY_'' @ show_nat i, fst (cfg ! i)) \<in> set (config_env cfg)"
      "(''GIT_CONFIG_VALUE_'' @ show_nat i, snd (cfg ! i)) \<in> set (config_env cfg)"
      using config_entries_nth [OF that, of 0] by (simp_all add: config_env_def)
    then show ?thesis by (simp add: config_env_get)
  qed
  then have "map (\<lambda>i. Option.bind (env_get (xs @ config_env cfg) (''GIT_CONFIG_KEY_'' @ show_nat i)) (\<lambda>k.
      map_option (Pair k) (env_get (xs @ config_env cfg) (''GIT_CONFIG_VALUE_'' @ show_nat i)))) [0..<length cfg]
      = map Some cfg"
    by (intro nth_equalityI) simp_all
  then show ?thesis using parse_show_nat [OF assms] by (simp add: git_config_of_def c those_Some)
qed

lemma net_env_of_shape:
  assumes "net_env_of var url header base = Inr e"
  obtains sch xs where "scheme url = Inr sch" "e = xs @ config_env (net_config sch header)"
    "xs = filter (\<lambda>kv. \<not> starts_with (fst kv) ''GIT_CONFIG_'')
            (fold set_env FIXED_ENV (List.map_filter (\<lambda>k. map_option (Pair k) (var k)) PASS_ENV @ base))"
  using assms by (auto simp: net_env_of_def Let_def config_env_def split: sum.splits)

section \<open>Properties\<close>

lemma fold_set_env_keys: "fst ` set (fold set_env kvs env) \<subseteq> fst ` set env \<union> fst ` set kvs"
proof (induction kvs arbitrary: env)
  case (Cons kv kvs)
  then show ?case using Cons.IH [of "set_env kv env"] by (auto simp: set_env_def)
qed simp

lemma map_of_filter_key: "(\<And>v. P (k, v)) \<Longrightarrow> map_of (filter P xs) k = map_of xs k"
  by (induction xs) auto

lemma fold_set_env_last:
  "(\<And>kv. kv \<in> set kvs \<Longrightarrow> fst kv \<noteq> k) \<Longrightarrow> env_get (fold set_env kvs env) k = env_get env k"
proof (induction kvs arbitrary: env)
  case (Cons kv kvs)
  have "env_get (set_env kv env) k = env_get env k"
    using Cons.prems [of kv] by (simp add: env_get_def set_env_def rev_filter map_of_filter_key)
  then show ?case using Cons by simp
qed simp

lemma env_get_filter:
  "(\<And>v. P (k, v)) \<Longrightarrow> env_get (filter P env) k = env_get env k"
  by (simp add: env_get_def rev_filter map_of_filter_key)

lemma env_get_set_env [simp]: "env_get (set_env (k, v) env) k = Some v"
  by (simp add: env_get_def set_env_def)

lemma fixed_env_get:
  assumes "(k, v) \<in> set FIXED_ENV"
  shows "env_get (fold set_env FIXED_ENV env) k = Some v"
  using assms unfolding FIXED_ENV_def by (auto simp: env_get_def set_env_def)

lemma config_env_names: "k \<in> fst ` set (config_env cfg) \<Longrightarrow> starts_with k ''GIT_CONFIG_''"
  unfolding config_env_def set_append image_Un config_entries_keys by auto

lemma env_get_config_env_other:
  "\<not> starts_with k ''GIT_CONFIG_'' \<Longrightarrow> env_get (xs @ config_env cfg) k = env_get xs k"
proof -
  assume "\<not> starts_with k ''GIT_CONFIG_''"
  then have "k \<notin> fst ` set (config_env cfg)" using config_env_names by blast
  from env_get_None [OF this] show ?thesis by (simp add: env_get_append)
qed



text \<open>The build directory of a repository is two names below the shared one, whatever the URL is.\<close>

definition plain_name :: "string \<Rightarrow> bool" where
  "plain_name s \<longleftrightarrow> s \<noteq> [] \<and> list_all (\<lambda>c. is_ascii_lowercase c \<or> is_ascii_digit c \<or> c = CHR ''-'' \<or> c = CHR ''_'') s"

lemma clean_char_plain:
  "is_ascii_lowercase (clean_char c) \<or> is_ascii_digit (clean_char c) \<or> clean_char c = CHR ''-'' \<or> clean_char c = CHR ''_''"
proof (cases "is_ascii_uppercase c")
  case True
  then have "65 \<le> (of_char c :: nat)" "(of_char c :: nat) \<le> 90" by (simp_all add: is_ascii_uppercase_def)
  moreover from this have "(of_char (char_of (of_char c + 32 :: nat) :: char) :: nat) = of_char c + 32" by simp
  ultimately have "is_ascii_lowercase (char_of ((of_char c :: nat) + 32))" by (simp add: is_ascii_lowercase_def)
  then show ?thesis using True by (simp add: clean_char_def is_ascii_alphanumeric_def)
qed (auto simp: clean_char_def is_ascii_alphanumeric_def)

theorem shared_target_dir_inside:
  assumes "shared_target_dir workspace url = Some d"
  shows "\<exists>owner repo. plain_name owner \<and> plain_name repo
    \<and> d = path_join (path_join (path_join workspace ''.cache/target'') owner) repo"
proof -
  obtain r own ps where "rev (split_any [CHR ''/'', CHR '':''] (repo_base (trim url))) = r # own # ps"
    "clean_name r \<noteq> []" "clean_name own \<noteq> []"
    "d = path_join (path_join (path_join workspace ''.cache/target'') (clean_name own)) (clean_name r)"
    using assms by (auto simp: shared_target_dir_def Let_def split: list.splits if_splits)
  moreover have "clean_name x \<noteq> [] \<Longrightarrow> plain_name (clean_name x)" for x
    using clean_char_plain by (simp add: plain_name_def clean_name_def list_all_iff)
  ultimately show ?thesis by blast
qed

end
