(* ===== verification/Step_Check.thy ===== *)
theory Step_Check
  imports Step Net_Git Chat_Redact
begin

text \<open>
  What a \<^verbatim>\<open>step_start\<close> must look like before the sandbox runs it, and what is derived from it: the checks, the
  secrets' forms and the environment of \<^verbatim>\<open>sandbox-container/src/steps/mod.rs\<close>, the names of \<^verbatim>\<open>steps/git.rs\<close> and
  \<^verbatim>\<open>token_forms\<close> of \<^verbatim>\<open>chat/filter.rs\<close>. Arguments are the base64 encoders (a crate), the printing of a string in
  quotes and the writes to the file system, which may fail.
\<close>

section \<open>Names\<close>

definition id_byte :: "char \<Rightarrow> bool" where
  "id_byte b \<longleftrightarrow> is_ascii_alphanumeric b \<or> b = CHR ''-'' \<or> b = CHR ''_'' \<or> b = CHR ''.''"

definition valid_step_id :: "string \<Rightarrow> bool" where
  "valid_step_id s \<longleftrightarrow> s \<noteq> [] \<and> length s \<le> 128 \<and> \<not> starts_with s ''.'' \<and> list_all id_byte s"

definition valid_branch :: "string \<Rightarrow> bool" where
  "valid_branch s \<longleftrightarrow>
     s \<noteq> [] \<and> length s \<le> 200
     \<and> \<not> (starts_with s ''-'' \<or> starts_with s ''/'' \<or> starts_with s ''.'')
     \<and> \<not> (ends_with s ''/'' \<or> ends_with s ''.'') \<and> \<not> ends_with s ''.lock''
     \<and> \<not> str_contains s ''..'' \<and> \<not> str_contains s ''//'' \<and> \<not> str_contains s [CHR 0x40, CHR 0x7B]
     \<and> list_all (\<lambda>b. id_byte b \<or> b = CHR ''/'') s"

definition START_LOCAL :: string where "START_LOCAL = ''refs/remotes/enzarb-start/head''"

definition valid_start_ref :: "string \<Rightarrow> bool" where
  "valid_start_ref s =
     (case Option.bind (strip_prefix s ''refs/pull/'') (\<lambda>r. strip_suffix r ''/head'') of
        Some n \<Rightarrow> n \<noteq> [] \<and> length n \<le> 12 \<and> list_all is_ascii_digit n
      | None \<Rightarrow> (case strip_prefix s ''refs/heads/'' of None \<Rightarrow> False | Some b \<Rightarrow> valid_branch b))"

definition valid_segment :: "string \<Rightarrow> bool" where
  "valid_segment p \<longleftrightarrow> p \<noteq> [] \<and> \<not> starts_with p ''.'' \<and> length p \<le> 100 \<and> list_all id_byte p"

definition valid_repo :: "string \<Rightarrow> bool" where
  "valid_repo s =
     (case split_on (CHR ''/'') s of [a, b] \<Rightarrow> valid_segment a \<and> valid_segment b | _ \<Rightarrow> False)"

section \<open>Paths\<close>

datatype component = RootDir | CurDir | ParentDir | Normal string

text \<open>\<^verbatim>\<open>Path::components\<close>: repeated separators and \<^verbatim>\<open>.\<close> are dropped, a leading \<^verbatim>\<open>.\<close> apart.\<close>

fun component_of :: "string \<Rightarrow> component option" where
  "component_of s =
     (if s = [] \<or> s = ''.'' then None else if s = ''..'' then Some ParentDir else Some (Normal s))"

definition path_components :: "string \<Rightarrow> component list" where
  "path_components p =
     (case split_on (CHR ''/'') p of
        [] \<Rightarrow> []
      | s # ss \<Rightarrow>
          (if starts_with p ''/'' then [RootDir]
           else if s = ''.'' then [CurDir] else List.map_filter component_of [s])
          @ List.map_filter component_of ss)"

fun inner_component :: "component \<Rightarrow> bool" where
  "inner_component (Normal _) = True"
| "inner_component CurDir = True"
| "inner_component _ = False"

definition safe_rel :: "string \<Rightarrow> string option" where
  "safe_rel p =
     (if p \<noteq> [] \<and> \<not> starts_with p ''/'' \<and> list_all inner_component (path_components p) then Some p else None)"

section \<open>The checks of a step\<close>

definition check_workspace :: "(string \<Rightarrow> string) \<Rightarrow> step_workspace \<Rightarrow> string + unit" where
  "check_workspace dbg w =
     (if \<not> valid_repo (sw_repo w) then Inl (''invalid repo '' @ dbg (sw_repo w))
      else if \<not> valid_branch (sw_branch w) \<or> \<not> valid_branch (sw_base w) then Inl (''invalid branch of '' @ sw_repo w)
      else if (case sw_start_ref w of None \<Rightarrow> False | Some r \<Rightarrow> \<not> valid_start_ref r)
        then Inl (''invalid start_ref of '' @ sw_repo w)
      else case scheme (sw_url w) of Inl e \<Rightarrow> Inl e | Inr _ \<Rightarrow> Inr ())"

definition valid_env_name :: "string \<Rightarrow> bool" where
  "valid_env_name name \<longleftrightarrow>
     name \<noteq> [] \<and> \<not> is_ascii_digit (hd name) \<and> list_all (\<lambda>b. is_ascii_alphanumeric b \<or> b = CHR ''_'') name"

definition check_exec :: "(string \<Rightarrow> string) \<Rightarrow> step_exec \<Rightarrow> string + unit" where
  "check_exec dbg x =
     (case x of
        Exec_Command _ _ \<Rightarrow> Inr ()
      | Exec_Agent rt _ _ _ _ ez \<Rightarrow>
          if ez = None \<and> (rt_command rt = [] \<or> rt_protocol rt \<noteq> ''acp'')
          then Inl (''unsupported runtime '' @ dbg (rt_name rt) @ '' (protocol '' @ dbg (rt_protocol rt)
                    @ ''): only acp with a command'')
          else Inr ())"

definition instruction_path :: "string \<Rightarrow> bool" where
  "instruction_path f \<longleftrightarrow>
     (case safe_rel f of
        None \<Rightarrow> False
      | Some p \<Rightarrow> \<not> list_ex (\<lambda>c. c = Normal ''.git'' \<or> c = Normal ''.enzarb'') (path_components p))"

text \<open>A loop that returns the first error.\<close>

fun each :: "('a \<Rightarrow> string + unit) \<Rightarrow> 'a list \<Rightarrow> string + unit" where
  "each f [] = Inr ()"
| "each f (x # xs) = (case f x of Inl e \<Rightarrow> Inl e | Inr _ \<Rightarrow> each f xs)"

definition ensure :: "bool \<Rightarrow> string \<Rightarrow> string + unit" where
  "ensure b e = (if b then Inr () else Inl e)"

definition then_check :: "string + unit \<Rightarrow> string + unit \<Rightarrow> string + unit" where
  "then_check a b = (case a of Inl e \<Rightarrow> Inl e | Inr _ \<Rightarrow> b)"

definition validate_start :: "(string \<Rightarrow> string) \<Rightarrow> step_start \<Rightarrow> string + unit" where
  "validate_start dbg s =
     then_check (ensure (valid_step_id (ss_run_id s) \<and> valid_step_id (ss_task_id s))
       ''run_id and task_id must be [A-Za-z0-9._-]{1,128}'')
    (then_check (each (check_workspace dbg) (ss_workspaces s))
    (then_check (each (\<lambda>name. ensure (valid_env_name name) (''invalid env name '' @ dbg name)) (bt_keys (ss_env s)))
    (then_check (each (\<lambda>f. ensure (safe_rel f \<noteq> None) (''invalid secret file path '' @ dbg f)) (bt_keys (ss_files s)))
    (then_check (each (\<lambda>o'. ensure (safe_rel (so_file o') \<noteq> None) (''invalid output path '' @ dbg (so_file o')))
       (bt_values (ss_outputs s)))
    (then_check (check_exec dbg (ss_exec s))
       (case ss_exec s of
          Exec_Agent _ _ _ _ _ (Some ez) \<Rightarrow>
            each (\<lambda>f. ensure (instruction_path f) (''invalid ez instruction file path '' @ dbg f))
              (bt_keys (ez_instruction_files ez))
        | _ \<Rightarrow> Inr ()))))))"

section \<open>Secrets\<close>

definition blank_start :: "step_start \<Rightarrow> step_start" where
  "blank_start s =
     s\<lparr>ss_workspaces := map (\<lambda>w. w\<lparr>sw_token := Secret []\<rparr>) (ss_workspaces s),
       ss_env := map (\<lambda>(k, v). (k, Secret [])) (ss_env s),
       ss_files := map (\<lambda>(k, v). (k, Secret [])) (ss_files s),
       ss_github_token := None\<rparr>"

text \<open>The three encoders of the base64 crate.\<close>

record b64 =
  b64_standard :: "string \<Rightarrow> string"
  b64_standard_no_pad :: "string \<Rightarrow> string"
  b64_url_safe_no_pad :: "string \<Rightarrow> string"

text \<open>\<^verbatim>\<open>sort\<close> and \<^verbatim>\<open>dedup\<close>.\<close>

definition sort_dedup :: "string list \<Rightarrow> string list" where
  "sort_dedup xs = map fst (bt_of (map (\<lambda>x. (x, ())) xs))"

definition token_forms :: "b64 \<Rightarrow> string \<Rightarrow> string list" where
  "token_forms b token =
     (let raws = [token, ''x-access-token:'' @ token, ''x:'' @ token];
          encs = concat (map (\<lambda>r. [b64_standard b r, b64_standard_no_pad b r, b64_url_safe_no_pad b r]) raws);
          v = token # map (\<lambda>e. take (length e - 4) e) encs
      in sort_dedup (filter (\<lambda>s. length s \<ge> 8) v))"

definition basic_b64 :: "b64 \<Rightarrow> string \<Rightarrow> string" where
  "basic_b64 b token = b64_standard b (''x-access-token:'' @ token)"

definition secret_forms :: "b64 \<Rightarrow> string list \<Rightarrow> string list" where
  "secret_forms b values =
     sort_dedup (concat (map (\<lambda>s. token_forms b s @ [s, basic_b64 b s]) (filter (\<lambda>s. length s \<ge> 4) values)))"

section \<open>Secret files and the exclude file\<close>

text \<open>
  \<open>wr p\<close>: writing the file \<open>p\<close> succeeds; \<open>info\<close>: the directory of the exclude file is there; the exclude file
  is its text, empty when it is missing, and \<open>ap\<close>: it can be appended to.
\<close>

definition secret_file_step ::
  "(string \<Rightarrow> bool) \<Rightarrow> bool \<Rightarrow> bool \<Rightarrow> string \<Rightarrow> string \<Rightarrow> string list \<times> string \<Rightarrow> string list \<times> string" where
  "secret_file_step wr info ap cwd rel st =
     (case (safe_rel rel, st) of
        (None, _) \<Rightarrow> st
      | (Some r, (written, excl)) \<Rightarrow>
          (let p = path_join cwd r
           in if \<not> wr p then st
              else let line = ''/'' @ r;
                       excl' = (if info \<and> line \<notin> set (text_lines excl) \<and> ap then excl @ line @ [CHR 0x0A] else excl)
                   in (written @ [p], excl')))"

definition write_secret_files ::
  "(string \<Rightarrow> bool) \<Rightarrow> bool \<Rightarrow> bool \<Rightarrow> string \<Rightarrow> string \<Rightarrow> step_start \<Rightarrow> string list \<times> string" where
  "write_secret_files wr info ap excl cwd start =
     fold (secret_file_step wr info ap cwd) (bt_keys (ss_files start)) ([], excl)"

definition exclude :: "bool \<Rightarrow> string \<Rightarrow> string \<Rightarrow> string" where
  "exclude ap cur pattern =
     (if pattern \<in> set (text_lines cur) \<or> \<not> ap then cur
      else cur @ (if cur = [] \<or> ends_with cur [CHR 0x0A] then [] else [CHR 0x0A]) @ pattern @ [CHR 0x0A])"

section \<open>The environment and the command line of a step\<close>

record step_config =
  cfg_workspace :: string
  cfg_git_bin :: string
  cfg_mise_bin :: string
  cfg_git_name :: string
  cfg_git_email :: string
  cfg_net_retry_delays :: "nat list"

definition GH_TOKEN_HELPER :: string where
  "GH_TOKEN_HELPER =
     ''!f() { test '' @ [CHR 0x22] @ ''$1'' @ [CHR 0x22] @ '' = get && echo username=x-access-token && echo ''
     @ [CHR 0x22] @ ''password=$GH_TOKEN'' @ [CHR 0x22] @ ''; }; f''"

definition github_env :: "env \<Rightarrow> string \<Rightarrow> env" where
  "github_env env t =
     (let env = env @ [(''GH_TOKEN'', t), (''GH_NO_UPDATE_NOTIFIER'', ''1''), (''GH_PROMPT_DISABLED'', ''1'')]
      in if list_ex (\<lambda>kv. fst kv = ''GIT_CONFIG_COUNT'') env then env
         else env @ [(''GIT_CONFIG_COUNT'', ''1''), (''GIT_CONFIG_KEY_0'', ''credential.https://github.com.helper''),
                (''GIT_CONFIG_VALUE_0'', GH_TOKEN_HELPER)])"

definition base_env :: "bool \<Rightarrow> (string \<Rightarrow> bool) \<Rightarrow> step_config \<Rightarrow> step_start \<Rightarrow> env" where
  "base_env image_set mkdir cfg start =
     (let env = map (\<lambda>(k, v). (k, expose v)) (ss_env start);
          env = (case ss_github_token start of None \<Rightarrow> env | Some t \<Rightarrow> github_env env (expose t));
          env = env @ [(''GIT_AUTHOR_NAME'', cfg_git_name cfg), (''GIT_AUTHOR_EMAIL'', cfg_git_email cfg),
                       (''GIT_COMMITTER_NAME'', cfg_git_name cfg), (''GIT_COMMITTER_EMAIL'', cfg_git_email cfg)];
          url = (case ss_workspaces start of [] \<Rightarrow> None | w # _ \<Rightarrow> Some (sw_repo w))
      in env @ (case target_dir_env image_set mkdir (cfg_workspace cfg) url env of None \<Rightarrow> [] | Some kv \<Rightarrow> [kv]))"

definition with_mise :: "step_config \<Rightarrow> string list \<Rightarrow> string list \<Rightarrow> string \<times> string list" where
  "with_mise cfg tools argv =
     (if tools = [] \<or> cfg_mise_bin cfg = []
      then (case argv of [] \<Rightarrow> ([], []) | b # r \<Rightarrow> (b, r))
      else (cfg_mise_bin cfg, [''exec''] @ tools @ [''--''] @ argv))"

definition workspace_dir :: "string \<Rightarrow> string \<Rightarrow> string \<Rightarrow> string" where
  "workspace_dir ws task_id repo = path_join (path_join (path_join ws ''tasks'') task_id) repo"

section \<open>Lines\<close>

lemma split_on_append: "split_on c (a @ c # b) = split_on c a @ split_on c b"
  by (induction a) (auto split: list.splits)

lemma split_on_absent: "c \<notin> set s \<Longrightarrow> split_on c s = [s]"
  by (induction s) auto

lemma text_lines_append: "text_lines (a @ CHR 0x0A # b) = map drop_cr (split_on (CHR 0x0A) a) @ text_lines b"
  by (simp add: text_lines_def Let_def split_on_append butlast_append)

lemma text_lines_Nil [simp]: "text_lines [] = []"
  by (simp add: text_lines_def)

lemma drop_cr_id: "\<not> ends_with s [CHR 0x0D] \<Longrightarrow> drop_cr s = s"
  by (auto simp: drop_cr_def ends_with_iff) (metis append_butlast_last_id)

lemma text_lines_last:
  assumes "CHR 0x0A \<notin> set p" "\<not> ends_with p [CHR 0x0D]"
  shows "text_lines (p @ [CHR 0x0A]) = [p]"
  using text_lines_append [of p "[]"] by (simp add: split_on_absent drop_cr_id assms)

lemma exclude_ends:
  assumes "cur = [] \<or> ends_with cur [CHR 0x0A]"
  shows "text_lines (cur @ s) = text_lines cur @ text_lines s"
  using assms text_lines_append [of _ s] text_lines_append [of _ "[]"] by (auto simp: ends_with_iff)

lemma exclude_lists:
  assumes "CHR 0x0A \<notin> set pattern" "\<not> ends_with pattern [CHR 0x0D]"
  shows "pattern \<in> set (text_lines (exclude True cur pattern))"
proof -
  have "text_lines (cur @ CHR 0x0A # pattern @ [CHR 0x0A]) = map drop_cr (split_on (CHR 0x0A) cur) @ [pattern]"
    using text_lines_append [of cur "pattern @ [CHR 0x0A]"] text_lines_last [OF assms] by simp
  then show ?thesis by (auto simp: exclude_def exclude_ends text_lines_last [OF assms])
qed

text \<open>
  The loop that lists the secret files has no such separator: when the exclude file ends without a line feed, the
  first pattern is glued to its last line and the secret file is not excluded.
\<close>

lemma secret_file_glued:
  "secret_file_step (\<lambda>_. True) True True ''/w'' ''s.env'' ([], ''*.log'')
     = ([''/w/s.env''], ''*.log/s.env'' @ [CHR 0x0A])
   \<and> text_lines (''*.log/s.env'' @ [CHR 0x0A]) = [''*.log/s.env'']"
  by code_simp

section \<open>Paths stay inside\<close>

text \<open>Where a path leads from a directory, by names alone; both are lists of names.\<close>

fun lex_walk :: "string list \<Rightarrow> component list \<Rightarrow> string list" where
  "lex_walk dir [] = dir"
| "lex_walk dir (RootDir # cs) = lex_walk [] cs"
| "lex_walk dir (CurDir # cs) = lex_walk dir cs"
| "lex_walk dir (ParentDir # cs) = lex_walk (butlast dir) cs"
| "lex_walk dir (Normal n # cs) = lex_walk (dir @ [n]) cs"

definition stays_inside :: "string \<Rightarrow> bool" where
  "stays_inside p \<longleftrightarrow> (\<forall>dir n. \<exists>names. lex_walk dir (take n (path_components p)) = dir @ names)"

lemma lex_walk_inner: "list_all inner_component cs \<Longrightarrow> \<exists>names. lex_walk dir cs = dir @ names"
proof (induction dir cs rule: lex_walk.induct)
  case (5 dir n cs)
  then show ?case by force
qed auto

lemma safe_rel_inside: "safe_rel p = Some q \<Longrightarrow> q = p \<and> stays_inside p"
  unfolding safe_rel_def stays_inside_def
  by (auto split: if_splits intro!: lex_walk_inner simp: list_all_iff) (meson in_set_takeD)

lemma each_Inr: "each f xs = Inr () \<longleftrightarrow> (\<forall>x \<in> set xs. f x = Inr ())"
  by (induction xs) (auto split: sum.splits)

lemma ensure_Inr [simp]: "ensure b e = Inr () \<longleftrightarrow> b"
  by (simp add: ensure_def)

lemma then_check_Inr [simp]: "then_check a b = Inr () \<longleftrightarrow> a = Inr () \<and> b = Inr ()"
  by (auto simp: then_check_def split: sum.splits)

lemma valid_repo_split:
  assumes "valid_repo s"
  obtains a b where "split_on (CHR ''/'') s = [a, b]" "valid_segment a" "valid_segment b"
  using assms by (auto simp: valid_repo_def split: list.splits)

lemma split_on_join: "join [c] (split_on c s) = s"
  by (induction s) (auto split: list.splits elim: join.elims)

lemma valid_repo_inside: "valid_repo s \<Longrightarrow> \<exists>a b. s = a @ ''/'' @ b \<and> valid_segment a \<and> valid_segment b"
  using split_on_join [of "CHR ''/''" s] by (elim valid_repo_split) (metis append_Cons append_Nil join.simps(2,3))

text \<open>
  C17: every path of a step that passed the checks stays inside of the directory it is relative to, at each of its
  steps: secret files, outputs and instruction files, the latter outside of the repository's and the sandbox's own
  directories; the workspaces are below the directory of the task, two plain names deep; the run's id is a plain
  name, so the run's directory is directly below the one of all runs.
\<close>

theorem validated_paths_inside:
  assumes "validate_start dbg s = Inr ()"
  shows "list_all stays_inside (bt_keys (ss_files s))
    \<and> list_all (\<lambda>o'. stays_inside (so_file o')) (bt_values (ss_outputs s))
    \<and> list_all (\<lambda>w. \<exists>a b. sw_repo w = a @ ''/'' @ b \<and> valid_segment a \<and> valid_segment b) (ss_workspaces s)
    \<and> valid_step_id (ss_run_id s) \<and> valid_step_id (ss_task_id s)
    \<and> (case ss_exec s of
         Exec_Agent _ _ _ _ _ (Some ez) \<Rightarrow>
           list_all (\<lambda>f. stays_inside f \<and> Normal ''.git'' \<notin> set (path_components f)
             \<and> Normal ''.enzarb'' \<notin> set (path_components f)) (bt_keys (ez_instruction_files ez))
       | _ \<Rightarrow> True)"
proof -
  have e: "valid_step_id (ss_run_id s)" "valid_step_id (ss_task_id s)"
    "\<forall>f \<in> set (bt_keys (ss_files s)). safe_rel f \<noteq> None"
    "\<forall>o' \<in> set (bt_values (ss_outputs s)). safe_rel (so_file o') \<noteq> None"
    "\<forall>w \<in> set (ss_workspaces s). check_workspace dbg w = Inr ()"
    using assms by (simp_all add: validate_start_def each_Inr)
  have "(case ss_exec s of
         Exec_Agent _ _ _ _ _ (Some ez) \<Rightarrow> \<forall>f \<in> set (bt_keys (ez_instruction_files ez)). instruction_path f
       | _ \<Rightarrow> True)"
    using assms by (auto simp: validate_start_def each_Inr split: step_exec.splits option.splits)
  moreover have "stays_inside f \<and> Normal ''.git'' \<notin> set (path_components f)
      \<and> Normal ''.enzarb'' \<notin> set (path_components f)" if "instruction_path f" for f
    using that safe_rel_inside [of f] by (auto simp: instruction_path_def list_ex_iff split: option.splits)
  moreover have "\<forall>w \<in> set (ss_workspaces s). valid_repo (sw_repo w)"
    using e(5) by (auto simp: check_workspace_def split: if_splits)
  ultimately show ?thesis
    using e safe_rel_inside valid_repo_inside by (auto simp: list_all_iff split: step_exec.splits option.splits)
qed

definition sample_step :: step_start where
  "sample_step =
     \<lparr>ss_run_id = ''run-1'', ss_attempt = 1, ss_task_id = ''task-1'',
      ss_workspaces = [\<lparr>sw_repo = ''o/r'', sw_url = ''https://github.com/o/r'', sw_mode = Mode_Write,
        sw_branch = ''b'', sw_base = ''main'', sw_start_ref = None, sw_push = True, sw_token = Secret ''tok-123''\<rparr>],
      ss_exec = Exec_Command ''make'' [], ss_outputs = [], ss_env = [(''A'', Secret ''hunter2'')],
      ss_files = [(''conf/s.env'', Secret ''file-secret'')], ss_github_token = None\<rparr>"

theorem validated_paths_inside_witness:
  "validate_start (\<lambda>x. x) sample_step = Inr () \<and> stays_inside ''conf/s.env''"
proof -
  have v: "validate_start (\<lambda>x. x) sample_step = Inr ()" by code_simp
  have "bt_keys (ss_files sample_step) = [''conf/s.env'']" by code_simp
  then show ?thesis using validated_paths_inside [OF v] v by simp
qed

section \<open>Secrets of a step\<close>

lemma blank_start_no_secrets: "secret_values (blank_start s) = []"
proof -
  have "\<forall>x \<in> set (bt_values (map (\<lambda>(k, v). (k, Secret [])) m)). expose x = []" for m :: "secret btree"
    by (induction m) (auto simp: bt_values_def)
  then show ?thesis by (auto simp: secret_values_def blank_start_def filter_empty_conv)
qed

lemma sort_dedup_set [simp]: "set (sort_dedup xs) = set xs"
proof -
  have "set (map fst (bt_extend m (map (\<lambda>x. (x, ())) xs))) = set (map fst m) \<union> set xs" for m
    by (induction xs arbitrary: m) (auto simp: bt_extend_def bt_insert_keys simp del: set_map)
  then show ?thesis by (simp add: sort_dedup_def bt_of_def)
qed

lemma secret_forms_covers:
  "v \<in> set values \<Longrightarrow> length v \<ge> 4 \<Longrightarrow> v \<in> set (secret_forms b values) \<and> basic_b64 b v \<in> set (secret_forms b values)"
  unfolding secret_forms_def by auto

end
