(* ===== verification/Step_Runs.thy ===== *)
theory Step_Runs
  imports Session_State Step_Env Step_Check
begin

text \<open>
  The step executor: \<^verbatim>\<open>StepManager\<close> of \<^verbatim>\<open>sandbox-container/src/steps/mod.rs\<close>. A run is its locked state; the
  directory of a run is kept apart, as it survives a restart. A handler is one function on the manager's state; the
  code holds the locks it needs for the length of a handler, the one exception is \<open>steps_start\<close>, see there. The task
  that \<^verbatim>\<open>launch\<close> spawns is a worker: what it does to its run is one function each (\<open>work_\<close>).

  What serde prints and reads back, and base64, are arguments (\<open>step_lib\<close>); so is the outcome of the calls to the
  system that a handler makes (\<open>io\<close>). Files written in one piece hold a value; the event log is its text, and an
  append may break off after any number of bytes.
\<close>

definition MAX_EVENT_PAYLOAD :: nat where "MAX_EVENT_PAYLOAD = 1024 * 1024"
definition MAX_FINISHED :: nat where "MAX_FINISHED = 900 * 1024"
definition SECRETS_REQUIRED :: string where "SECRETS_REQUIRED = ''secrets_required''"

definition kind_STEER :: string where "kind_STEER = ''steer''"
definition kind_SYSTEM :: string where "kind_SYSTEM = ''system''"
definition kind_STDOUT :: string where "kind_STDOUT = ''stdout''"
definition kind_STDERR :: string where "kind_STDERR = ''stderr''"

record step_lib =
  sl_ser :: "ctrl \<Rightarrow> string + bytes"
  sl_show :: "json \<Rightarrow> string"
  sl_line :: "session_event \<Rightarrow> string option"
  sl_unline :: "string \<Rightarrow> session_event option"
  sl_fin_size :: "step_finished \<Rightarrow> nat"
  sl_dbg :: "string \<Rightarrow> string"
  sl_b64 :: b64
  sl_fmt1 :: "f64 \<Rightarrow> string"

datatype run_file = RF_Start | RF_State | RF_Finished

record io =
  io_write :: "run_file \<Rightarrow> bool"
  io_open_log :: bool
  io_append :: "nat option"
  io_read_log :: bool
  io_remove :: bool
  io_now :: "int \<times> nat"
  io_memory_events :: "string option"
  io_workspace_full :: "string option"

section \<open>Time\<close>

text \<open>The civil date of a day since the epoch.\<close>

definition civil_from_days :: "int \<Rightarrow> int \<times> int \<times> int" where
  "civil_from_days days =
     (let z = days + 719468;
          era = z div 146097;
          doe = z - era * 146097;
          yoe = (doe - doe div 1460 + doe div 36524 - doe div 146096) div 365;
          y = yoe + era * 400;
          doy = doe - (365 * yoe + yoe div 4 - yoe div 100);
          mp = (5 * doy + 2) div 153;
          day = doy - (153 * mp + 2) div 5 + 1;
          m = (if mp < 10 then mp + 3 else mp - 9);
          y = (if m \<le> 2 then y + 1 else y)
      in (y, m, day))"

definition pad0 :: "nat \<Rightarrow> int \<Rightarrow> string" where
  "pad0 n i = (let s = show_uint i in replicate (n - length s) (CHR ''0'') @ s)"

definition now_rfc3339 :: "int \<times> nat \<Rightarrow> string" where
  "now_rfc3339 t =
     (let secs = fst t;
          days = secs div 86400;
          r = secs mod 86400;
          (y, m, day) = civil_from_days days
      in pad0 4 y @ ''-'' @ pad0 2 m @ ''-'' @ pad0 2 day @ ''T'' @ pad0 2 (r div 3600) @ '':''
         @ pad0 2 (r mod 3600 div 60) @ '':'' @ pad0 2 (r mod 60) @ ''.'' @ pad0 3 (int (snd t)) @ ''Z'')"

section \<open>Payloads\<close>

definition char_boundary :: "string \<Rightarrow> nat \<Rightarrow> bool" where
  "char_boundary s i \<longleftrightarrow> i = 0 \<or> i = length s \<or> i < length s \<and> \<not> utf8_cont (byte_of_char (s ! i))"

fun boundary_down :: "string \<Rightarrow> nat \<Rightarrow> nat" where
  "boundary_down s 0 = 0"
| "boundary_down s (Suc h) = (if char_boundary s (Suc h) then Suc h else boundary_down s h)"

function boundary_up :: "string \<Rightarrow> nat \<Rightarrow> nat" where
  "boundary_up s t = (if t \<ge> length s \<or> char_boundary s t then t else boundary_up s (Suc t))"
  by pat_completeness auto
termination by (relation "measure (\<lambda>(s, t). length s - t)") auto

declare boundary_up.simps [simp del]

definition cap_payload :: "(json \<Rightarrow> string) \<Rightarrow> json \<Rightarrow> json \<times> bool" where
  "cap_payload shw payload =
     (let s = shw payload
      in if length s \<le> MAX_EVENT_PAYLOAD then (payload, False)
         else let half = MAX_EVENT_PAYLOAD div 2 - 1024;
                  h = boundary_down s half;
                  t = boundary_up s (length s - half)
              in (jobj [(''head'', JStr (take h s)), (''tail'', JStr (drop t s)), (''bytes'', jint (int (length s)))],
                  True))"

section \<open>State\<close>

record persisted =
  pe_phase :: step_phase
  pe_acp_session_id :: "string option"
  pe_leases :: "string option list"

record run_dir =
  d_start :: "step_start option"
  d_state :: "persisted option"
  d_finished :: "step_finished option"
  d_events :: string

definition empty_dir :: run_dir where
  "empty_dir = \<lparr>d_start = None, d_state = None, d_finished = None, d_events = []\<rparr>"

record control =
  ct_worker :: nat
  ct_steer :: bool

record run =
  ri_phase :: step_phase
  ri_start :: "step_start option"
  ri_stored :: "step_start option"
  ri_finished :: "step_finished option"
  ri_acp_session :: "string option"
  ri_leases :: "string option list"
  ri_seq :: u64
  ri_log :: bool
  ri_subs :: "u64 list"
  ri_secrets :: "string list"
  ri_control :: "control option"
  ri_evidence :: evidence

definition run_new :: run where
  "run_new =
     \<lparr>ri_phase = Phase_Running, ri_start = None, ri_stored = None, ri_finished = None, ri_acp_session = None,
      ri_leases = [], ri_seq = 0, ri_log = False, ri_subs = [], ri_secrets = [], ri_control = None,
      ri_evidence = evidence_default\<rparr>"

text \<open>A spawned task: what it was given, the texts sent to it, whether it was told to stop and whether it still runs.\<close>

record worker =
  wk_run :: string
  wk_start :: step_start
  wk_resume :: bool
  wk_steer :: "string list"
  wk_stop :: bool
  wk_live :: bool

record manager =
  sm_runs :: "(string \<times> run) list"
  sm_disk :: "(string \<times> run_dir) list"
  sm_sessions :: "(u64 \<times> sess) list"
  sm_workers :: "worker list"
  sm_shutting_down :: bool

definition get_run :: "manager \<Rightarrow> string \<Rightarrow> run option" where
  "get_run m rid = al_get (sm_runs m) rid"

definition put_run :: "string \<Rightarrow> run \<Rightarrow> manager \<Rightarrow> manager" where
  "put_run rid g m = m\<lparr>sm_runs := al_insert rid g (sm_runs m)\<rparr>"

definition get_dir :: "manager \<Rightarrow> string \<Rightarrow> run_dir" where
  "get_dir m rid = (case al_get (sm_disk m) rid of None \<Rightarrow> empty_dir | Some d \<Rightarrow> d)"

definition put_dir :: "string \<Rightarrow> run_dir \<Rightarrow> manager \<Rightarrow> manager" where
  "put_dir rid d m = m\<lparr>sm_disk := al_insert rid d (sm_disk m)\<rparr>"

definition persist :: "io \<Rightarrow> string \<Rightarrow> run \<Rightarrow> manager \<Rightarrow> manager" where
  "persist io rid g m =
     (if io_write io RF_State
      then put_dir rid ((get_dir m rid)\<lparr>d_state :=
        Some \<lparr>pe_phase = ri_phase g, pe_acp_session_id = ri_acp_session g, pe_leases = ri_leases g\<rparr>\<rparr>) m
      else m)"

definition write_start :: "io \<Rightarrow> string \<Rightarrow> step_start \<Rightarrow> manager \<Rightarrow> manager" where
  "write_start io rid s m = (if io_write io RF_Start then put_dir rid ((get_dir m rid)\<lparr>d_start := Some s\<rparr>) m else m)"

definition write_finished :: "io \<Rightarrow> string \<Rightarrow> step_finished \<Rightarrow> manager \<Rightarrow> manager" where
  "write_finished io rid f m =
     (if io_write io RF_Finished then put_dir rid ((get_dir m rid)\<lparr>d_finished := Some f\<rparr>) m else m)"

definition remove_finished :: "io \<Rightarrow> string \<Rightarrow> manager \<Rightarrow> manager" where
  "remove_finished io rid m = (if io_remove io then put_dir rid ((get_dir m rid)\<lparr>d_finished := None\<rparr>) m else m)"

section \<open>Sending\<close>

definition put_sess :: "u64 \<Rightarrow> sess \<Rightarrow> manager \<Rightarrow> manager" where
  "put_sess sid s m = m\<lparr>sm_sessions := al_insert sid s (sm_sessions m)\<rparr>"

definition send_to :: "step_lib \<Rightarrow> u64 \<Rightarrow> ctrl \<Rightarrow> manager \<Rightarrow> bool \<times> manager" where
  "send_to lib sid msg m =
     (case al_get (sm_sessions m) sid of
        None \<Rightarrow> (False, m)
      | Some s \<Rightarrow> (case send_ctrl (sl_ser lib) s msg of (r, s') \<Rightarrow> (\<not> isl r, put_sess sid s' m)))"

definition reply_error :: "step_lib \<Rightarrow> u64 \<Rightarrow> string \<Rightarrow> string \<Rightarrow> string \<Rightarrow> manager \<Rightarrow> manager" where
  "reply_error lib sid rid code msg m =
     (case al_get (sm_sessions m) sid of
        None \<Rightarrow> m
      | Some s \<Rightarrow> put_sess sid (snd (send_run_error (sl_ser lib) s rid code msg)) m)"

definition reply_accept :: "step_lib \<Rightarrow> u64 \<Rightarrow> string \<Rightarrow> step_phase \<Rightarrow> bool \<Rightarrow> manager \<Rightarrow> manager" where
  "reply_accept lib sid rid phase existing m =
     (case al_get (sm_sessions m) sid of
        None \<Rightarrow> m
      | Some s \<Rightarrow> put_sess sid (snd (accept_step (sl_ser lib) s rid phase existing)) m)"

text \<open>\<^verbatim>\<open>subs.retain(|_, s| s.send_ctrl(&m).is_ok())\<close>.\<close>

fun send_all :: "step_lib \<Rightarrow> ctrl \<Rightarrow> u64 list \<Rightarrow> manager \<Rightarrow> u64 list \<times> manager" where
  "send_all lib msg [] m = ([], m)"
| "send_all lib msg (sid # sids) m =
     (case send_to lib sid msg m of
        (ok, m') \<Rightarrow> (case send_all lib msg sids m' of (kept, m'') \<Rightarrow> (if ok then sid # kept else kept, m'')))"

section \<open>Events\<close>

definition append_log :: "io \<Rightarrow> string \<Rightarrow> string \<Rightarrow> manager \<Rightarrow> manager" where
  "append_log io rid line m =
     (let text = line @ [CHR 0x0A];
          part = (case io_append io of None \<Rightarrow> text | Some k \<Rightarrow> take k text);
          d = get_dir m rid
      in put_dir rid (d\<lparr>d_events := d_events d @ part\<rparr>) m)"

definition event_of :: "step_lib \<Rightarrow> io \<Rightarrow> string \<Rightarrow> run \<Rightarrow> string \<Rightarrow> json \<Rightarrow> session_event" where
  "event_of lib io rid g kind payload =
     (case cap_payload (sl_show lib) (redact_value (ri_secrets g) payload) of
        (p, truncated) \<Rightarrow>
          \<lparr>sv_run_id = rid, sv_seq = ri_seq g + 1, sv_at = now_rfc3339 (io_now io), sv_kind = kind,
           sv_payload = p, sv_truncated = truncated\<rparr>)"

definition run_emit :: "step_lib \<Rightarrow> io \<Rightarrow> string \<Rightarrow> string \<Rightarrow> json \<Rightarrow> manager \<Rightarrow> manager" where
  "run_emit lib io rid kind payload m =
     (case get_run m rid of
        None \<Rightarrow> m
      | Some g \<Rightarrow>
          (let ev = event_of lib io rid g kind payload;
               opened = (ri_log g \<or> io_open_log io);
               m1 = (case sl_line lib ev of Some line \<Rightarrow> if opened then append_log io rid line m else m | None \<Rightarrow> m);
               (kept, m2) = send_all lib (C_SessionEvent ev) (ri_subs g) m1
           in put_run rid (g\<lparr>ri_seq := ri_seq g + 1, ri_log := opened, ri_subs := kept\<rparr>) m2))"

definition state_msg :: "string \<Rightarrow> run \<Rightarrow> ctrl" where
  "state_msg rid g = C_StepState rid (ri_phase g) (ri_finished g)"

section \<open>Starting\<close>

definition resumable :: "run \<Rightarrow> bool" where
  "resumable g \<longleftrightarrow>
     ri_phase g = Phase_Interrupted
     \<or> ri_phase g = Phase_Finished \<and> (case ri_finished g of None \<Rightarrow> False | Some f \<Rightarrow> sf_environment f \<noteq> None)"

fun is_agent :: "step_exec \<Rightarrow> bool" where
  "is_agent (Exec_Agent _ _ _ _ _ _) = True"
| "is_agent (Exec_Command _ _) = False"

definition launch :: "step_lib \<Rightarrow> io \<Rightarrow> string \<Rightarrow> step_start \<Rightarrow> bool \<Rightarrow> manager \<Rightarrow> manager" where
  "launch lib io rid st resume m =
     (case get_run m rid of
        None \<Rightarrow> m
      | Some g \<Rightarrow>
          (let m1 = (if ri_finished g \<noteq> None \<or> resume then remove_finished io rid m else m);
               g1 = g\<lparr>ri_phase := Phase_Running, ri_finished := None,
                      ri_secrets := secret_forms (sl_b64 lib) (secret_values st), ri_start := Some st,
                      ri_control := Some \<lparr>ct_worker = length (sm_workers m), ct_steer = is_agent (ss_exec st)\<rparr>,
                      ri_stored := (case ri_stored g of None \<Rightarrow> Some (blank_start st) | Some s \<Rightarrow> Some s)\<rparr>;
               m2 = persist io rid g1 (put_run rid g1 m1)
           in m2\<lparr>sm_workers := sm_workers m2 @
                [\<lparr>wk_run = rid, wk_start = st, wk_resume = resume, wk_steer = [], wk_stop = False, wk_live = True\<rparr>]\<rparr>))"

text \<open>
  \<^verbatim>\<open>start\<close> looks the run up and reads its phase, releases the locks, and then acts on what it saw; two sessions
  may do this at the same time. The two halves are \<open>start_seen\<close> and \<open>start_act\<close>; \<open>steps_start\<close> is both in a row.
\<close>

datatype start_seen = Seen_Invalid string | Seen_None | Seen_Run step_phase bool

definition start_look :: "step_lib \<Rightarrow> step_start \<Rightarrow> manager \<Rightarrow> start_seen" where
  "start_look lib st m =
     (case validate_start (sl_dbg lib) st of
        Inl e \<Rightarrow> Seen_Invalid e
      | Inr _ \<Rightarrow> (case get_run m (ss_run_id st) of None \<Rightarrow> Seen_None | Some g \<Rightarrow> Seen_Run (ri_phase g) (resumable g)))"

definition set_phase :: "string \<Rightarrow> step_phase \<Rightarrow> manager \<Rightarrow> manager" where
  "set_phase rid ph m = (case get_run m rid of None \<Rightarrow> m | Some g \<Rightarrow> put_run rid (g\<lparr>ri_phase := ph\<rparr>) m)"

definition register :: "io \<Rightarrow> string \<Rightarrow> step_start \<Rightarrow> u64 \<Rightarrow> manager \<Rightarrow> manager" where
  "register io rid st sid m =
     (let g = run_new\<lparr>ri_stored := Some (blank_start st)\<rparr>;
          m1 = persist io rid g (write_start io rid (blank_start st) m)
      in put_run rid (g\<lparr>ri_subs := [sid]\<rparr>) m1)"

fun start_act :: "step_lib \<Rightarrow> io \<Rightarrow> u64 \<Rightarrow> step_start \<Rightarrow> start_seen \<Rightarrow> manager \<Rightarrow> manager" where
  "start_act lib io sid st (Seen_Invalid e) m = reply_error lib sid (ss_run_id st) ''invalid_request'' e m"
| "start_act lib io sid st (Seen_Run phase again) m =
     (if \<not> again then reply_accept lib sid (ss_run_id st) phase True m
      else launch lib io (ss_run_id st) st True
        (reply_accept lib sid (ss_run_id st) Phase_Running True (set_phase (ss_run_id st) Phase_Running m)))"
| "start_act lib io sid st Seen_None m =
     launch lib io (ss_run_id st) st False
       (reply_accept lib sid (ss_run_id st) Phase_Running False (register io (ss_run_id st) st sid m))"

definition steps_start :: "step_lib \<Rightarrow> io \<Rightarrow> u64 \<Rightarrow> step_start \<Rightarrow> manager \<Rightarrow> manager" where
  "steps_start lib io sid st m = start_act lib io sid st (start_look lib st m) m"

section \<open>The other handlers\<close>

fun replay :: "step_lib \<Rightarrow> u64 \<Rightarrow> u64 \<Rightarrow> string list \<Rightarrow> manager \<Rightarrow> bool \<times> manager" where
  "replay lib sid after_seq [] m = (True, m)"
| "replay lib sid after_seq (l # ls) m =
     (case sl_unline lib l of
        Some ev \<Rightarrow>
          if sv_seq ev > after_seq
          then (case send_to lib sid (C_SessionEvent ev) m of
                  (ok, m') \<Rightarrow> if ok then replay lib sid after_seq ls m' else (False, m'))
          else replay lib sid after_seq ls m
      | None \<Rightarrow> replay lib sid after_seq ls m)"

text \<open>The lines of the log, up to the first one that is not text.\<close>

definition log_lines :: "string \<Rightarrow> string list" where
  "log_lines text = takeWhile is_str (text_lines text)"

definition steps_status :: "step_lib \<Rightarrow> io \<Rightarrow> u64 \<Rightarrow> string \<Rightarrow> u64 \<Rightarrow> manager \<Rightarrow> manager" where
  "steps_status lib io sid rid after_seq m =
     (case get_run m rid of
        None \<Rightarrow> snd (send_to lib sid (C_StepState rid Phase_Unknown None) m)
      | Some g \<Rightarrow>
          (case (if after_seq < ri_seq g \<and> io_read_log io
                 then replay lib sid after_seq (log_lines (d_events (get_dir m rid))) m else (True, m)) of
             (ok, m1) \<Rightarrow>
               if \<not> ok then m1
               else let g1 = g\<lparr>ri_subs := sid # removeAll sid (ri_subs g)\<rparr>
                    in snd (send_to lib sid (state_msg rid g1) (put_run rid g1 m1))))"

definition update_worker :: "nat \<Rightarrow> (worker \<Rightarrow> worker) \<Rightarrow> manager \<Rightarrow> manager" where
  "update_worker w f m =
     (if w < length (sm_workers m) then m\<lparr>sm_workers := (sm_workers m)[w := f (sm_workers m ! w)]\<rparr> else m)"

definition worker_live :: "manager \<Rightarrow> nat \<Rightarrow> bool" where
  "worker_live m w \<longleftrightarrow> w < length (sm_workers m) \<and> wk_live (sm_workers m ! w)"

definition steer_target :: "manager \<Rightarrow> run \<Rightarrow> nat option" where
  "steer_target m g =
     (case ri_control g of
        Some c \<Rightarrow> if ct_steer c \<and> worker_live m (ct_worker c) then Some (ct_worker c) else None
      | None \<Rightarrow> None)"

definition steps_steer :: "step_lib \<Rightarrow> io \<Rightarrow> u64 \<Rightarrow> string \<Rightarrow> string \<Rightarrow> manager \<Rightarrow> manager" where
  "steps_steer lib io sid rid text m =
     (case get_run m rid of
        None \<Rightarrow> reply_error lib sid rid ''unknown_run'' ''no such step'' m
      | Some g \<Rightarrow>
          (case steer_target m g of
             Some w \<Rightarrow>
               run_emit lib io rid kind_STEER (jobj [(''text'', JStr text)])
                 (update_worker w (\<lambda>k. k\<lparr>wk_steer := wk_steer k @ [text]\<rparr>) m)
           | None \<Rightarrow> reply_error lib sid rid ''invalid_request'' ''the step is not a running agent step'' m))"

definition stop_worker :: "run \<Rightarrow> manager \<Rightarrow> manager" where
  "stop_worker g m =
     (case ri_control g of None \<Rightarrow> m | Some c \<Rightarrow> update_worker (ct_worker c) (\<lambda>k. k\<lparr>wk_stop := True\<rparr>) m)"

definition steps_stop :: "step_lib \<Rightarrow> u64 \<Rightarrow> string \<Rightarrow> manager \<Rightarrow> manager" where
  "steps_stop lib sid rid m =
     (case get_run m rid of
        None \<Rightarrow> reply_error lib sid rid ''unknown_run'' ''no such step'' m
      | Some g \<Rightarrow> stop_worker g m)"

text \<open>The wait for the interrupted steps, up to the grace period, changes nothing.\<close>

definition interrupt_all :: "manager \<Rightarrow> manager" where
  "interrupt_all m =
     fold (\<lambda>(rid, g) m. if ri_phase g = Phase_Running then stop_worker g m else m) (sm_runs m)
       (m\<lparr>sm_shutting_down := True\<rparr>)"

definition run_task :: "run \<Rightarrow> string option" where
  "run_task g =
     (case ri_start g of Some s \<Rightarrow> Some (ss_task_id s) | None \<Rightarrow> map_option ss_task_id (ri_stored g))"

definition busy_tasks :: "manager \<Rightarrow> string list" where
  "busy_tasks m =
     List.map_filter (\<lambda>(rid, g). if ri_phase g \<noteq> Phase_Running then None else run_task g) (sm_runs m)"

definition busy_repos :: "string \<Rightarrow> manager \<Rightarrow> string list" where
  "busy_repos workspace m =
     concat (map (\<lambda>(rid, g).
       if ri_phase g \<noteq> Phase_Running then []
       else case (case ri_start g of Some s \<Rightarrow> Some s | None \<Rightarrow> ri_stored g) of
              None \<Rightarrow> []
            | Some s \<Rightarrow> List.map_filter (\<lambda>w. shared_target_dir workspace (sw_repo w)) (ss_workspaces s))
       (sm_runs m))"

definition protected_tasks :: "manager \<Rightarrow> string list" where
  "protected_tasks m =
     List.map_filter (\<lambda>(rid, g). if ri_phase g = Phase_Finished \<and> \<not> resumable g then None else run_task g)
       (sm_runs m)"

definition steps_resume :: "step_lib \<Rightarrow> io \<Rightarrow> u64 \<Rightarrow> string \<Rightarrow> manager \<Rightarrow> manager" where
  "steps_resume lib io sid rid m =
     (case get_run m rid of
        None \<Rightarrow> reply_error lib sid rid ''unknown_run'' ''no such step'' m
      | Some g \<Rightarrow>
          (if ri_phase g \<noteq> Phase_Interrupted then m
           else case ri_start g of
                  Some st \<Rightarrow> launch lib io rid st True m
                | None \<Rightarrow> reply_error lib sid rid SECRETS_REQUIRED
                    ''the sandbox restarted: send step_start with the same run_id to resume'' m))"

definition session_closed :: "u64 \<Rightarrow> manager \<Rightarrow> manager" where
  "session_closed sid m =
     m\<lparr>sm_runs := map (\<lambda>(rid, g). (rid, g\<lparr>ri_subs := removeAll sid (ri_subs g)\<rparr>)) (sm_runs m)\<rparr>"

section \<open>Recovery\<close>

definition step_ended :: "string \<Rightarrow> string \<Rightarrow> string option \<Rightarrow> step_finished" where
  "step_ended rid exit error =
     \<lparr>sf_run_id = rid, sf_exit = exit, sf_outputs = [], sf_result = None, sf_git = [], sf_usage = None,
      sf_environment = None, sf_error = error\<rparr>"

definition loaded_run :: "run_dir \<Rightarrow> run" where
  "loaded_run d =
     (let g = run_new\<lparr>ri_stored := d_start d, ri_finished := d_finished d\<rparr>;
          g = (case d_state d of
                 None \<Rightarrow> g
               | Some p \<Rightarrow> g\<lparr>ri_phase := pe_phase p, ri_acp_session := pe_acp_session_id p, ri_leases := pe_leases p\<rparr>)
      in g\<lparr>ri_seq := of_nat (length (text_lines (d_events d)))\<rparr>)"

definition recovered_run :: "string \<Rightarrow> run_dir \<Rightarrow> run" where
  "recovered_run rid d =
     (let g = loaded_run d; lost = (ri_stored g = None)
      in if ri_phase g \<noteq> Phase_Running \<and> ri_phase g \<noteq> Phase_Interrupted then g
         else g\<lparr>ri_phase := (if lost then Phase_Finished else Phase_Interrupted),
                ri_finished :=
                  (if lost \<or> ri_finished g = None
                   then Some (step_ended rid exit_INTERRUPTED
                          (Some (if lost then ''the sandbox lost the step''@ [CHR 0x27] @''s definition''
                                 else ''the sandbox restarted'')))
                   else ri_finished g)\<rparr>)"

definition recover_run :: "io \<Rightarrow> string \<times> run_dir \<Rightarrow> manager \<Rightarrow> manager" where
  "recover_run io e m =
     (case e of (rid, d) \<Rightarrow>
        if \<not> valid_step_id rid then m
        else let g = recovered_run rid d;
                 ph = ri_phase (loaded_run d);
                 m1 = (if ph = Phase_Running \<or> ph = Phase_Interrupted then persist io rid g m else m)
             in put_run rid g m1)"

definition steps_recover :: "io \<Rightarrow> manager \<Rightarrow> manager" where
  "steps_recover io m = fold (recover_run io) (sm_disk m) m"

text \<open>A restart of the sandbox: only the directories are left.\<close>

definition restarted :: "manager \<Rightarrow> manager" where
  "restarted m =
     \<lparr>sm_runs = [], sm_disk = sm_disk m, sm_sessions = [], sm_workers = [], sm_shutting_down = False\<rparr>"

section \<open>The end of a step\<close>

text \<open>\<^verbatim>\<open>max_by_key\<close> returns the last of several largest entries.\<close>

fun biggest :: "(json \<Rightarrow> nat) \<Rightarrow> (string \<times> json) list \<Rightarrow> string option" where
  "biggest len [] = None"
| "biggest len ((k, v) # m) =
     (case biggest len m of
        None \<Rightarrow> Some k
      | Some k' \<Rightarrow> (case map_of m k' of Some v' \<Rightarrow> if len v' \<ge> len v then Some k' else Some k | None \<Rightarrow> Some k))"

lemma biggest_key: "biggest len m = Some k \<Longrightarrow> k \<in> fst ` set m"
  by (induction m arbitrary: k) (auto split: option.splits if_splits)

lemma al_remove_shorter: "k \<in> fst ` set xs \<Longrightarrow> length (al_remove k xs) < length xs"
  unfolding al_remove_def by (auto intro: length_filter_less)

definition too_large :: "step_lib \<Rightarrow> string \<Rightarrow> string option \<Rightarrow> string" where
  "too_large lib k error =
     (let line = ''output '' @ sl_dbg lib k @ '' was too large to report''
      in case error of Some e \<Rightarrow> e @ ''; '' @ line | None \<Rightarrow> line)"

function fit :: "step_lib \<Rightarrow> step_finished \<Rightarrow> step_finished" where
  "fit lib fin =
     (if sl_fin_size lib fin \<le> MAX_FINISHED then fin
      else case biggest (\<lambda>v. length (sl_show lib v)) (sf_outputs fin) of
             None \<Rightarrow> fin\<lparr>sf_result := None\<rparr>
           | Some k \<Rightarrow>
               fit lib (fin\<lparr>sf_outputs := al_remove k (sf_outputs fin), sf_error := Some (too_large lib k (sf_error fin))\<rparr>))"
  by pat_completeness auto
termination
  by (relation "measure (\<lambda>(lib, fin). length (sf_outputs fin))") (auto dest: biggest_key intro: al_remove_shorter)

declare fit.simps [simp del]

fun env_kind_name :: "environment_kind \<Rightarrow> string" where
  "env_kind_name Env_DiskFull = ''disk_full''"
| "env_kind_name Env_Oom = ''oom''"
| "env_kind_name Env_ToolchainMissing = ''toolchain_missing''"
| "env_kind_name Env_Network = ''network''"
| "env_kind_name Env_Load = ''load''"
| "env_kind_name Env_Unknown = ''unknown''"

definition json_opt :: "('a \<Rightarrow> json) \<Rightarrow> 'a option \<Rightarrow> json" where
  "json_opt f x = (case x of None \<Rightarrow> JNull | Some v \<Rightarrow> f v)"

definition finished_payload :: "step_finished \<Rightarrow> json" where
  "finished_payload fin =
     jobj [(''event'', JStr ''finished''), (''exit'', JStr (sf_exit fin)), (''error'', json_opt JStr (sf_error fin)),
       (''environment'', json_opt (\<lambda>e. jobj [(''kind'', JStr (env_kind_name (sn_kind e))), (''detail'', JStr (sn_detail e))])
          (sf_environment fin))]"

definition run_classify :: "step_lib \<Rightarrow> io \<Rightarrow> run \<Rightarrow> step_finished \<Rightarrow> step_environment option" where
  "run_classify lib io g fin =
     (let ev = (ri_evidence g)\<lparr>ev_failed := True\<rparr>;
          ev = (case sf_error fin of None \<Rightarrow> ev | Some e \<Rightarrow> ev\<lparr>ev_text := ev_text ev @ [CHR 0x0A] @ e\<rparr>);
          ev = ev\<lparr>ev_oom_after := oom_kill_count (io_memory_events io),
                  ev_workspace_full :=
                    (case ev_workspace_full ev of Some w \<Rightarrow> Some w | None \<Rightarrow> io_workspace_full io)\<rparr>
      in classify (sl_fmt1 lib) ev)"

definition final_result :: "step_lib \<Rightarrow> io \<Rightarrow> run \<Rightarrow> step_finished \<Rightarrow> step_finished" where
  "final_result lib io g fin =
     fit lib (if sf_exit fin = exit_FAILURE \<and> sf_environment fin = None
              then fin\<lparr>sf_environment := run_classify lib io g fin\<rparr> else fin)"

definition end_run :: "run \<Rightarrow> step_finished \<Rightarrow> run" where
  "end_run g fin =
     (let ph = (if sf_exit fin = exit_INTERRUPTED then Phase_Interrupted else Phase_Finished)
      in g\<lparr>ri_phase := ph, ri_control := None, ri_start := (if ph = Phase_Finished then None else ri_start g)\<rparr>)"

definition finalize :: "step_lib \<Rightarrow> io \<Rightarrow> string \<Rightarrow> step_finished \<Rightarrow> manager \<Rightarrow> manager" where
  "finalize lib io rid fin0 m =
     (case get_run m rid of
        None \<Rightarrow> m
      | Some g0 \<Rightarrow>
          (let fin = final_result lib io g0 fin0;
               m1 = run_emit lib io rid kind_SYSTEM (finished_payload fin) m
           in case get_run m1 rid of
                None \<Rightarrow> m1
              | Some g \<Rightarrow>
                  (let g1 = end_run g fin
                   in if ri_phase g1 = Phase_Interrupted \<and> sm_shutting_down m1
                      then persist io rid g1 (put_run rid g1 m1)
                      else let m2 = persist io rid g1 (write_finished io rid fin m1);
                               (kept, m3) = send_all lib (C_StepFinished fin) (ri_subs g1) m2
                           in put_run rid (g1\<lparr>ri_finished := Some fin, ri_subs := kept\<rparr>) m3)))"

section \<open>What a worker does to its run\<close>

definition work_run :: "(run \<Rightarrow> run) \<Rightarrow> string \<Rightarrow> manager \<Rightarrow> manager" where
  "work_run f rid m = (case get_run m rid of None \<Rightarrow> m | Some g \<Rightarrow> put_run rid (f g) m)"

definition work_persist :: "io \<Rightarrow> (run \<Rightarrow> run) \<Rightarrow> string \<Rightarrow> manager \<Rightarrow> manager" where
  "work_persist io f rid m =
     (case get_run m rid of None \<Rightarrow> m | Some g \<Rightarrow> persist io rid (f g) (put_run rid (f g) m))"

definition work_evidence :: "evidence \<Rightarrow> string \<Rightarrow> manager \<Rightarrow> manager" where
  "work_evidence ev = work_run (\<lambda>g. g\<lparr>ri_evidence := ev\<rparr>)"

definition work_secret :: "step_lib \<Rightarrow> string \<Rightarrow> string \<Rightarrow> manager \<Rightarrow> manager" where
  "work_secret lib t = work_run (\<lambda>g. g\<lparr>ri_secrets := ri_secrets g @ secret_forms (sl_b64 lib) [t]\<rparr>)"

definition work_leases :: "io \<Rightarrow> string option list \<Rightarrow> string \<Rightarrow> manager \<Rightarrow> manager" where
  "work_leases io ls = work_persist io (\<lambda>g. g\<lparr>ri_leases := ls\<rparr>)"

definition work_session :: "io \<Rightarrow> string \<Rightarrow> string \<Rightarrow> manager \<Rightarrow> manager" where
  "work_session io acp = work_persist io (\<lambda>g. g\<lparr>ri_acp_session := Some acp\<rparr>)"

definition work_done :: "step_lib \<Rightarrow> io \<Rightarrow> nat \<Rightarrow> step_finished \<Rightarrow> manager \<Rightarrow> manager" where
  "work_done lib io w fin m =
     finalize lib io (wk_run (sm_workers m ! w)) fin (update_worker w (\<lambda>k. k\<lparr>wk_live := False\<rparr>) m)"

section \<open>The sink of the chats\<close>

definition sink_event :: "step_lib \<Rightarrow> io \<Rightarrow> string \<Rightarrow> string \<Rightarrow> json \<Rightarrow> manager \<Rightarrow> manager" where
  "sink_event lib io rid kind payload m =
     (if \<not> valid_step_id rid then m
      else let m1 = (case get_run m rid of None \<Rightarrow> put_run rid run_new m | Some _ \<Rightarrow> m);
               m2 = (case get_run m1 rid of
                       Some g \<Rightarrow>
                         if ri_phase g \<noteq> Phase_Running
                         then let g1 = g\<lparr>ri_phase := Phase_Running\<rparr> in persist io rid g1 (put_run rid g1 m1)
                         else m1
                     | None \<Rightarrow> m1)
           in run_emit lib io rid kind payload m2)"

definition sink_ended :: "io \<Rightarrow> string \<Rightarrow> manager \<Rightarrow> manager" where
  "sink_ended io rid = work_persist io (\<lambda>g. g\<lparr>ri_phase := Phase_Interrupted\<rparr>) rid"

section \<open>Batches of lines\<close>

text \<open>
  \<^verbatim>\<open>LineBatcher\<close>: the lines collected so far with their kind and the time of the first one, in milliseconds. A
  push or a flush returns what is emitted.
\<close>

type_synonym batch = "(string \<times> string \<times> nat) option"

definition batch_full :: "batch \<Rightarrow> string \<Rightarrow> nat \<Rightarrow> bool" where
  "batch_full b kind now =
     (case b of None \<Rightarrow> False | Some (k, s, t0) \<Rightarrow> k \<noteq> kind \<or> length s > 16 * 1024 \<or> now - t0 > 250)"

definition batch_take :: "batch \<Rightarrow> (string \<times> json) list" where
  "batch_take b = (case b of None \<Rightarrow> [] | Some (k, s, _) \<Rightarrow> [(k, jobj [(''text'', JStr s)])])"

definition batch_push :: "string \<Rightarrow> string \<Rightarrow> nat \<Rightarrow> batch \<Rightarrow> batch \<times> (string \<times> json) list" where
  "batch_push kind line now b =
     (let out = (if batch_full b kind now then batch_take b else []);
          b1 = (if batch_full b kind now then None else b)
      in (case b1 of
            Some (k, s, t0) \<Rightarrow> Some (k, s @ line @ [CHR 0x0A], t0)
          | None \<Rightarrow> Some (kind, line @ [CHR 0x0A], now),
          out))"

definition batch_flush :: "batch \<Rightarrow> batch \<times> (string \<times> json) list" where
  "batch_flush b = (None, batch_take b)"

end
