(* ===== verification/Step_Props.thy ===== *)
theory Step_Props
  imports Step_Runs Session
begin

text \<open>
  Properties of the step executor: its transitions as a step relation, the event log as an invariant of every
  reachable state, restarts of the sandbox included, at most one worker per run, and what a subscriber sees.
\<close>

section \<open>Accessors\<close>

lemma get_run_put_run [simp]: "get_run (put_run rid g m) r = (if r = rid then Some g else get_run m r)"
  by (simp add: get_run_def put_run_def)

lemma get_dir_put_dir [simp]: "get_dir (put_dir rid d m) r = (if r = rid then d else get_dir m r)"
  by (simp add: get_dir_def put_dir_def al_get_insert)

lemma get_run_other [simp]:
  "get_run (put_dir rid d m) = get_run m" "get_run (put_sess sid s m) = get_run m"
  by (simp_all add: fun_eq_iff get_run_def put_dir_def put_sess_def)

lemma get_dir_other [simp]:
  "get_dir (put_run rid g m) = get_dir m" "get_dir (put_sess sid s m) = get_dir m"
  by (simp_all add: fun_eq_iff get_dir_def put_run_def put_sess_def)

lemma get_run_update_workers [simp]: "get_run (sm_workers_update f m) = get_run m"
  by (simp add: fun_eq_iff get_run_def)

lemma get_dir_update_workers [simp]: "get_dir (sm_workers_update f m) = get_dir m"
  by (simp add: fun_eq_iff get_dir_def)

lemma put_run_fields [simp]:
  "sm_disk (put_run rid g m) = sm_disk m" "sm_workers (put_run rid g m) = sm_workers m"
  "sm_sessions (put_run rid g m) = sm_sessions m" "sm_shutting_down (put_run rid g m) = sm_shutting_down m"
  by (simp_all add: put_run_def)

lemma put_dir_fields [simp]:
  "sm_runs (put_dir rid d m) = sm_runs m" "sm_workers (put_dir rid d m) = sm_workers m"
  "sm_sessions (put_dir rid d m) = sm_sessions m" "sm_shutting_down (put_dir rid d m) = sm_shutting_down m"
  by (simp_all add: put_dir_def)

lemma put_sess_fields [simp]:
  "sm_runs (put_sess sid s m) = sm_runs m" "sm_disk (put_sess sid s m) = sm_disk m"
  "sm_workers (put_sess sid s m) = sm_workers m" "sm_shutting_down (put_sess sid s m) = sm_shutting_down m"
  by (simp_all add: put_sess_def)

text \<open>An operation that at most sends.\<close>

definition sends_only :: "manager \<Rightarrow> manager \<Rightarrow> bool" where
  "sends_only m m' \<longleftrightarrow>
     sm_runs m' = sm_runs m \<and> sm_disk m' = sm_disk m \<and> sm_workers m' = sm_workers m
     \<and> sm_shutting_down m' = sm_shutting_down m"

lemma sends_only_refl [simp]: "sends_only m m"
  by (simp add: sends_only_def)

lemma sends_only_trans: "sends_only a b \<Longrightarrow> sends_only b c \<Longrightarrow> sends_only a c"
  by (simp add: sends_only_def)

lemma sends_only_put_sess [simp]: "sends_only m (put_sess sid s m)"
  by (simp add: sends_only_def)

lemma sends_only_send_to: "send_to lib sid msg m = (ok, m') \<Longrightarrow> sends_only m m'"
  by (auto simp: send_to_def split: option.splits prod.splits)

lemma sends_only_send_all: "send_all lib msg sids m = (kept, m') \<Longrightarrow> sends_only m m'"
proof (induction lib msg sids m arbitrary: kept m' rule: send_all.induct)
  case (2 lib msg sid sids m)
  then show ?case by (auto split: prod.splits dest!: sends_only_send_to intro: sends_only_trans)
qed simp

lemma sends_only_replay: "replay lib sid a ls m = (ok, m') \<Longrightarrow> sends_only m m'"
proof (induction ls arbitrary: m)
  case (Cons l ls)
  show ?case
  proof (cases "\<exists>ev. sl_unline lib l = Some ev \<and> sv_seq ev > a")
    case True
    then obtain ev where ev: "sl_unline lib l = Some ev" "sv_seq ev > a" by blast
    obtain ok1 m1 where s: "send_to lib sid (C_SessionEvent ev) m = (ok1, m1)" by fastforce
    then have "sends_only m m1" by (rule sends_only_send_to)
    then show ?thesis using Cons.IH [of m1] Cons.prems ev s
      by (auto split: if_splits intro: sends_only_trans)
  next
    case False
    then have "replay lib sid a (l # ls) m = replay lib sid a ls m" by (auto split: option.splits)
    then show ?thesis using Cons by simp
  qed
qed simp

lemma sends_only_replies:
  "sends_only m (reply_error lib sid rid code msg m)" "sends_only m (reply_accept lib sid rid ph ex m)"
  by (simp_all add: reply_error_def reply_accept_def split: option.splits)

lemma sends_only_get:
  "sends_only m m' \<Longrightarrow> get_run m' = get_run m \<and> get_dir m' = get_dir m"
  by (simp add: sends_only_def get_run_def get_dir_def fun_eq_iff)

section \<open>The event log\<close>

text \<open>What is relied on of serde for one event: its line is text without a line break and reads back.\<close>

definition line_ok :: "step_lib \<Rightarrow> session_event \<Rightarrow> bool" where
  "line_ok lib ev \<longleftrightarrow>
     (case sl_line lib ev of
        None \<Rightarrow> False
      | Some l \<Rightarrow> is_str l \<and> CHR 0x0A \<notin> set l \<and> \<not> ends_with l [CHR 0x0D] \<and> sl_unline lib l = Some ev)"

definition line_of :: "step_lib \<Rightarrow> session_event \<Rightarrow> string" where
  "line_of lib ev = the (sl_line lib ev)"

definition log_text :: "step_lib \<Rightarrow> session_event list \<Rightarrow> string" where
  "log_text lib evs = concat (map (\<lambda>ev. line_of lib ev @ [CHR 0x0A]) evs)"

text \<open>The events of a run are numbered from 1 without a gap, and the log can be read back.\<close>

definition dense :: "step_lib \<Rightarrow> string \<Rightarrow> session_event list \<Rightarrow> bool" where
  "dense lib rid evs \<longleftrightarrow>
     map sv_seq evs = map of_nat [1..<Suc (length evs)] \<and> length evs < 2 ^ 64
     \<and> list_all (\<lambda>ev. sv_run_id ev = rid \<and> line_ok lib ev) evs"

definition seq_of :: "manager \<Rightarrow> string \<Rightarrow> u64" where
  "seq_of m rid = (case get_run m rid of None \<Rightarrow> 0 | Some g \<Rightarrow> ri_seq g)"

definition run_log_ok :: "step_lib \<Rightarrow> manager \<Rightarrow> string \<Rightarrow> session_event list \<Rightarrow> bool" where
  "run_log_ok lib m rid evs \<longleftrightarrow>
     dense lib rid evs \<and> d_events (get_dir m rid) = log_text lib evs \<and> seq_of m rid = of_nat (length evs)"

definition keeps_log :: "manager \<Rightarrow> manager \<Rightarrow> bool" where
  "keeps_log m m' \<longleftrightarrow>
     (\<forall>rid. seq_of m' rid = seq_of m rid \<and> d_events (get_dir m' rid) = d_events (get_dir m rid))"

lemma keeps_log_refl [simp]: "keeps_log m m"
  by (simp add: keeps_log_def)

lemma keeps_log_trans [trans]: "keeps_log a b \<Longrightarrow> keeps_log b c \<Longrightarrow> keeps_log a c"
  by (simp add: keeps_log_def)

lemma keeps_log_ok: "keeps_log m m' \<Longrightarrow> run_log_ok lib m rid evs \<Longrightarrow> run_log_ok lib m' rid evs"
  by (simp add: keeps_log_def run_log_ok_def)

lemma keeps_log_sends: "sends_only m m' \<Longrightarrow> keeps_log m m'"
  using sends_only_get [of m m'] by (simp add: keeps_log_def seq_of_def)

lemma keeps_log_put_run: "ri_seq g = seq_of m rid \<Longrightarrow> keeps_log m (put_run rid g m)"
  by (simp add: keeps_log_def seq_of_def)

lemma keeps_log_put_dir: "d_events d = d_events (get_dir m rid) \<Longrightarrow> keeps_log m (put_dir rid d m)"
  by (simp add: keeps_log_def seq_of_def)

lemma keeps_log_workers [simp]: "keeps_log m (sm_workers_update f m)"
  by (simp add: keeps_log_def seq_of_def)

lemma keeps_log_shutdown [simp]: "keeps_log m (sm_shutting_down_update f m)"
  by (simp add: keeps_log_def seq_of_def get_run_def get_dir_def)

lemma keeps_log_files [simp]:
  "keeps_log m (persist io rid g m)" "keeps_log m (write_start io rid s m)"
  "keeps_log m (write_finished io rid f m)" "keeps_log m (remove_finished io rid m)"
  by (simp_all add: persist_def write_start_def write_finished_def remove_finished_def keeps_log_put_dir)

lemma files_get_run [simp]:
  "get_run (persist io rid g m) = get_run m" "get_run (write_start io rid s m) = get_run m"
  "get_run (write_finished io rid f m) = get_run m" "get_run (remove_finished io rid m) = get_run m"
  by (simp_all add: persist_def write_start_def write_finished_def remove_finished_def)

lemma seq_of_get: "get_run m rid = Some g \<Longrightarrow> seq_of m rid = ri_seq g"
  by (simp add: seq_of_def)

lemma keeps_log_persist_run: "ri_seq g = seq_of m rid \<Longrightarrow> keeps_log m (persist io rid g' (put_run rid g m))"
  by (rule keeps_log_trans [OF keeps_log_put_run keeps_log_files(1)])

lemma keeps_log_launch: "keeps_log m (launch lib io rid st resume m)"
proof (cases "get_run m rid")
  case (Some g)
  define m1 where "m1 = (if ri_finished g \<noteq> None \<or> resume then remove_finished io rid m else m)"
  have "keeps_log m m1" "seq_of m1 rid = ri_seq g" using Some by (auto simp: m1_def seq_of_def)
  then show ?thesis using Some
    by (auto simp: launch_def Let_def seq_of_def simp flip: m1_def
        intro!: keeps_log_trans [OF _ keeps_log_workers] keeps_log_trans [OF _ keeps_log_persist_run])
qed (simp add: launch_def)

lemma keeps_log_set_phase: "keeps_log m (set_phase rid ph m)"
  by (auto simp: set_phase_def seq_of_get split: option.splits intro!: keeps_log_put_run)

lemma keeps_log_register: "get_run m rid = None \<Longrightarrow> keeps_log m (register io rid st sid m)"
  unfolding register_def Let_def
  by (intro keeps_log_trans [OF _ keeps_log_put_run] keeps_log_trans [OF keeps_log_files(2) keeps_log_files(1)])
    (simp add: seq_of_def run_new_def)

lemma keeps_log_replies:
  "keeps_log m (reply_error lib sid rid code msg m)" "keeps_log m (reply_accept lib sid rid ph ex m)"
  by (rule keeps_log_sends, rule sends_only_replies)+

lemma start_look_None: "start_look lib st m = Seen_None \<Longrightarrow> get_run m (ss_run_id st) = None"
  by (auto simp: start_look_def split: sum.splits option.splits)

lemma keeps_log_act: "(seen = Seen_None \<Longrightarrow> get_run m (ss_run_id st) = None) \<Longrightarrow> keeps_log m (start_act lib io sid st seen m)"
proof (cases seen)
  case Seen_None
  assume "seen = Seen_None \<Longrightarrow> get_run m (ss_run_id st) = None"
  then have "keeps_log m (register io (ss_run_id st) st sid m)" using Seen_None by (simp add: keeps_log_register)
  also note keeps_log_replies(2)
  also note keeps_log_launch
  finally show ?thesis using Seen_None by simp
next
  case (Seen_Run ph again)
  note keeps_log_set_phase
  also note keeps_log_replies(2)
  also note keeps_log_launch
  finally show ?thesis using Seen_Run by (simp add: keeps_log_replies)
qed (simp add: keeps_log_replies)

lemma keeps_log_start: "keeps_log m (steps_start lib io sid st m)"
  unfolding steps_start_def by (rule keeps_log_act) (rule start_look_None)

lemma keeps_log_resume: "keeps_log m (steps_resume lib io sid rid m)"
  by (auto simp: steps_resume_def keeps_log_launch keeps_log_replies split: option.splits)

lemma keeps_log_update_worker [simp]: "keeps_log m (update_worker w f m)"
  by (simp add: update_worker_def)

lemma keeps_log_stop_worker [simp]: "keeps_log m (stop_worker g m)"
  by (simp add: stop_worker_def split: option.splits)

lemma keeps_log_stop: "keeps_log m (steps_stop lib sid rid m)"
  by (auto simp: steps_stop_def keeps_log_replies split: option.splits)

lemma keeps_log_fold: "(\<And>x m. keeps_log m (f x m)) \<Longrightarrow> keeps_log m (fold f xs m)"
  by (induction xs arbitrary: m) (auto intro: keeps_log_trans)

lemma keeps_log_interrupt: "keeps_log m (interrupt_all m)"
  unfolding interrupt_all_def
  by (intro keeps_log_trans [OF keeps_log_shutdown keeps_log_fold]) (auto split: prod.splits)

lemma keeps_log_work_run: "(\<And>g. ri_seq (f g) = ri_seq g) \<Longrightarrow> keeps_log m (work_run f rid m)"
  by (auto simp: work_run_def seq_of_get split: option.splits intro!: keeps_log_put_run)

lemma keeps_log_work_persist: "(\<And>g. ri_seq (f g) = ri_seq g) \<Longrightarrow> keeps_log m (work_persist io f rid m)"
  by (auto simp: work_persist_def seq_of_get split: option.splits intro!: keeps_log_persist_run)

lemma get_run_closed:
  "get_run (session_closed sid m) rid = map_option (\<lambda>g. g\<lparr>ri_subs := removeAll sid (ri_subs g)\<rparr>) (get_run m rid)"
proof -
  have "map_of (map (\<lambda>(r, g). (r, f g)) xs) rid = map_option f (map_of xs rid)" for f :: "run \<Rightarrow> run" and xs
    by (induction xs) auto
  then show ?thesis by (simp add: session_closed_def get_run_def al_get_def)
qed

lemma keeps_log_closed: "keeps_log m (session_closed sid m)"
proof -
  have "get_dir (session_closed sid m) = get_dir m" by (simp add: fun_eq_iff get_dir_def session_closed_def)
  then show ?thesis by (simp add: keeps_log_def seq_of_def get_run_closed split: option.splits)
qed

lemma keeps_log_status: "keeps_log m (steps_status lib io sid rid a m)"
proof (cases "get_run m rid")
  case None
  then show ?thesis
    using sends_only_send_to [of lib sid "C_StepState rid Phase_Unknown None" m]
    by (cases "send_to lib sid (C_StepState rid Phase_Unknown None) m")
      (auto simp: steps_status_def intro: keeps_log_sends)
next
  case (Some g)
  define r where "r = (if a < ri_seq g \<and> io_read_log io
                 then replay lib sid a (log_lines (d_events (get_dir m rid))) m else (True, m))"
  obtain ok m1 where r: "r = (ok, m1)" by fastforce
  have s: "sends_only m m1" using r sends_only_replay by (auto simp: r_def split: if_splits)
  let ?g = "g\<lparr>ri_subs := sid # removeAll sid (ri_subs g)\<rparr>"
  obtain ok2 m2 where s2: "send_to lib sid (state_msg rid ?g) (put_run rid ?g m1) = (ok2, m2)" by fastforce
  have "keeps_log m1 (put_run rid ?g m1)"
    using sends_only_get [OF s] Some by (intro keeps_log_put_run) (simp add: seq_of_def)
  then have "keeps_log m m2"
    using keeps_log_sends [OF s] keeps_log_sends [OF sends_only_send_to [OF s2]] by (blast intro: keeps_log_trans)
  then show ?thesis using Some r s2 keeps_log_sends [OF s]
    by (auto simp: steps_status_def r_def [symmetric] Let_def)
qed

text \<open>Appending an event.\<close>

definition io_logs :: "io \<Rightarrow> bool" where
  "io_logs io \<longleftrightarrow> io_open_log io \<and> io_append io = None"

definition the_run :: "manager \<Rightarrow> string \<Rightarrow> run" where
  "the_run m rid = (case get_run m rid of None \<Rightarrow> run_new | Some g \<Rightarrow> g)"

definition emit_ok :: "step_lib \<Rightarrow> io \<Rightarrow> manager \<Rightarrow> string \<Rightarrow> string \<Rightarrow> json \<Rightarrow> bool" where
  "emit_ok lib io m rid kind payload \<longleftrightarrow>
     io_logs io \<and> Suc (unat (seq_of m rid)) < 2 ^ 64 \<and> line_ok lib (event_of lib io rid (the_run m rid) kind payload)"

lemma event_of_seq [simp]: "sv_seq (event_of lib io rid g kind payload) = ri_seq g + 1"
  and event_of_run [simp]: "sv_run_id (event_of lib io rid g kind payload) = rid"
  by (simp_all add: event_of_def split: prod.splits)

lemma run_emit_eq:
  assumes "get_run m rid = Some g" "send_all lib (C_SessionEvent (event_of lib io rid g kind payload)) (ri_subs g)
      (case sl_line lib (event_of lib io rid g kind payload) of
         Some line \<Rightarrow> if ri_log g \<or> io_open_log io then append_log io rid line m else m | None \<Rightarrow> m) = (kept, m2)"
  shows "run_emit lib io rid kind payload m
    = put_run rid (g\<lparr>ri_seq := ri_seq g + 1, ri_log := ri_log g \<or> io_open_log io, ri_subs := kept\<rparr>) m2"
  unfolding run_emit_def Let_def using assms by simp

lemma append_log_ok:
  assumes "io_logs io"
  shows "append_log io rid line m
    = put_dir rid ((get_dir m rid)\<lparr>d_events := d_events (get_dir m rid) @ line @ [CHR 0x0A]\<rparr>) m"
  using assms by (simp add: append_log_def io_logs_def Let_def)

lemma run_emit_ok:
  assumes g: "get_run m rid = Some g" and e: "emit_ok lib io m rid kind payload"
  obtains kept m2 where
    "sends_only (put_dir rid ((get_dir m rid)\<lparr>d_events := d_events (get_dir m rid)
        @ line_of lib (event_of lib io rid g kind payload) @ [CHR 0x0A]\<rparr>) m) m2"
    "send_all lib (C_SessionEvent (event_of lib io rid g kind payload)) (ri_subs g)
       (put_dir rid ((get_dir m rid)\<lparr>d_events := d_events (get_dir m rid)
          @ line_of lib (event_of lib io rid g kind payload) @ [CHR 0x0A]\<rparr>) m) = (kept, m2)"
    "run_emit lib io rid kind payload m = put_run rid (g\<lparr>ri_seq := ri_seq g + 1, ri_log := True, ri_subs := kept\<rparr>) m2"
proof -
  let ?ev = "event_of lib io rid g kind payload"
  from e g obtain l where l: "sl_line lib ?ev = Some l"
    by (auto simp: emit_ok_def the_run_def line_ok_def split: option.splits)
  have io: "io_logs io" using e by (simp add: emit_ok_def)
  define m1 where "m1 = append_log io rid l m"
  obtain kept m2 where s: "send_all lib (C_SessionEvent ?ev) (ri_subs g) m1 = (kept, m2)" by fastforce
  have "run_emit lib io rid kind payload m = put_run rid (g\<lparr>ri_seq := ri_seq g + 1, ri_log := True, ri_subs := kept\<rparr>) m2"
    using run_emit_eq [OF g, of lib io kind payload kept m2] s l io by (simp add: m1_def io_logs_def)
  then show thesis
    using that sends_only_send_all [OF s] s l append_log_ok [OF io, of rid l m] by (simp add: m1_def line_of_def)
qed

lemma dense_snoc:
  assumes "dense lib rid evs" "sv_seq ev = of_nat (Suc (length evs))" "Suc (length evs) < 2 ^ 64"
    "sv_run_id ev = rid" "line_ok lib ev"
  shows "dense lib rid (evs @ [ev])"
  using assms by (simp add: dense_def)

lemma run_emit_log:
  assumes g: "get_run m rid = Some g" and e: "emit_ok lib io m rid kind payload" and l: "run_log_ok lib m rid evs"
  shows "run_log_ok lib (run_emit lib io rid kind payload m) rid (evs @ [event_of lib io rid g kind payload])"
proof -
  let ?ev = "event_of lib io rid g kind payload"
  obtain kept m2 where s: "sends_only (put_dir rid ((get_dir m rid)\<lparr>d_events := d_events (get_dir m rid)
        @ line_of lib ?ev @ [CHR 0x0A]\<rparr>) m) m2"
    and r: "run_emit lib io rid kind payload m = put_run rid (g\<lparr>ri_seq := ri_seq g + 1, ri_log := True, ri_subs := kept\<rparr>) m2"
    by (rule run_emit_ok [OF g e])
  have n: "ri_seq g = of_nat (length evs)" "length evs < 2 ^ 64"
    using l g by (simp_all add: run_log_ok_def seq_of_def dense_def)
  then have u: "unat (ri_seq g) = length evs" by (simp add: unat_of_nat take_bit_nat_eq_self)
  have "dense lib rid (evs @ [?ev])"
    using l e g n u by (intro dense_snoc) (simp_all add: run_log_ok_def emit_ok_def seq_of_def the_run_def)
  moreover have "log_text lib (evs @ [?ev]) = log_text lib evs @ line_of lib ?ev @ [CHR 0x0A]"
    by (simp add: log_text_def)
  ultimately show ?thesis
    using l n sends_only_get [OF s] by (simp add: run_log_ok_def r seq_of_def)
qed

lemma run_emit_other:
  "r \<noteq> rid \<Longrightarrow> get_run (run_emit lib io rid kind payload m) r = get_run m r
     \<and> get_dir (run_emit lib io rid kind payload m) r = get_dir m r"
proof (cases "get_run m rid")
  case (Some g)
  assume "r \<noteq> rid"
  let ?ev = "event_of lib io rid g kind payload"
  define m1 where "m1 = (case sl_line lib ?ev of
         Some line \<Rightarrow> if ri_log g \<or> io_open_log io then append_log io rid line m else m | None \<Rightarrow> m)"
  obtain kept m2 where s: "send_all lib (C_SessionEvent ?ev) (ri_subs g) m1 = (kept, m2)" by fastforce
  have "get_run m1 r = get_run m r" "get_dir m1 r = get_dir m r"
    using \<open>r \<noteq> rid\<close> by (auto simp: m1_def append_log_def Let_def split: option.splits)
  then show ?thesis
    using run_emit_eq [OF Some, of lib io kind payload kept m2] s sends_only_get [OF sends_only_send_all [OF s]] \<open>r \<noteq> rid\<close>
    by (simp add: m1_def)
qed (simp add: run_emit_def)

lemma run_emit_run:
  assumes "get_run m rid = Some g"
  obtains kept lg where
    "get_run (run_emit lib io rid kind payload m) rid = Some (g\<lparr>ri_seq := ri_seq g + 1, ri_log := lg, ri_subs := kept\<rparr>)"
proof -
  obtain kept m2 where "send_all lib (C_SessionEvent (event_of lib io rid g kind payload)) (ri_subs g)
      (case sl_line lib (event_of lib io rid g kind payload) of
         Some line \<Rightarrow> if ri_log g \<or> io_open_log io then append_log io rid line m else m | None \<Rightarrow> m) = (kept, m2)"
    by fastforce
  from run_emit_eq [OF assms this] show thesis by (intro that) simp
qed

text \<open>Reading the log.\<close>

lemma text_lines_log:
  "list_all (line_ok lib) evs \<Longrightarrow> text_lines (log_text lib evs) = map (line_of lib) evs"
proof (induction evs)
  case (Cons ev evs)
  then have l: "CHR 0x0A \<notin> set (line_of lib ev)" "\<not> ends_with (line_of lib ev) [CHR 0x0D]"
    by (auto simp: line_ok_def line_of_def split: option.splits)
  have "log_text lib (ev # evs) = line_of lib ev @ CHR 0x0A # log_text lib evs" by (simp add: log_text_def)
  then show ?case using Cons text_lines_append [of "line_of lib ev" "log_text lib evs"]
    by (simp add: split_on_absent [OF l(1)] drop_cr_id [OF l(2)])
qed (simp add: log_text_def)

lemma log_lines_log: "list_all (line_ok lib) evs \<Longrightarrow> log_lines (log_text lib evs) = map (line_of lib) evs"
proof -
  assume a: "list_all (line_ok lib) evs"
  then have "list_all is_str (map (line_of lib) evs)"
    by (auto simp: list_all_iff line_ok_def line_of_def split: option.splits)
  then show ?thesis using text_lines_log [OF a] by (simp add: log_lines_def list_all_iff)
qed

lemma unline_line_of: "line_ok lib ev \<Longrightarrow> sl_unline lib (line_of lib ev) = Some ev"
  by (auto simp: line_ok_def line_of_def split: option.splits)

section \<open>What a subscriber sees\<close>

text \<open>The bytes of a message on the wire_bytes, when it fits a frame.\<close>

definition wire_bytes :: "step_lib \<Rightarrow> ctrl \<Rightarrow> bytes option" where
  "wire_bytes lib msg =
     (case frame_ctrl (sl_ser lib) msg of
        Inl _ \<Rightarrow> None
      | Inr f \<Rightarrow> (case to_bytes f of Inl _ \<Rightarrow> None | Inr b \<Rightarrow> Some b))"

lemma wire_iff:
  "wire_bytes lib msg \<noteq> None \<longleftrightarrow> (case sl_ser lib msg of Inl _ \<Rightarrow> False | Inr v \<Rightarrow> length v \<le> MAX_PAYLOAD_LEN)"
  by (auto simp: wire_bytes_def frame_ctrl_def frame_new_def to_bytes_eq Frame.validate_def check_channel_def
      split: sum.splits)

definition wired :: "step_lib \<Rightarrow> ctrl \<Rightarrow> out" where
  "wired lib msg = Out_Frame (the (wire_bytes lib msg))"

definition listening :: "manager \<Rightarrow> u64 \<Rightarrow> bool" where
  "listening m sid = (case al_get (sm_sessions m) sid of None \<Rightarrow> False | Some s \<Rightarrow> s_out_open s)"

definition sess_out :: "manager \<Rightarrow> u64 \<Rightarrow> out list" where
  "sess_out m sid = (case al_get (sm_sessions m) sid of None \<Rightarrow> [] | Some s \<Rightarrow> s_out s)"

lemma send_to_wire:
  assumes "listening m sid" "wire_bytes lib msg \<noteq> None"
  obtains m' where "send_to lib sid msg m = (True, m')" "listening m' sid"
    "sess_out m' sid = sess_out m sid @ [wired lib msg]" "sends_only m m'"
proof -
  obtain s where s: "al_get (sm_sessions m) sid = Some s" "s_out_open s"
    using assms(1) by (auto simp: listening_def split: option.splits)
  obtain f b where f: "frame_ctrl (sl_ser lib) msg = Inr f" "to_bytes f = Inr b"
    using assms(2) by (auto simp: wire_bytes_def split: sum.splits)
  let ?s = "s\<lparr>s_out := s_out s @ [Out_Frame b]\<rparr>"
  have "send_ctrl (sl_ser lib) s msg = (Inr (), ?s)"
    using s f by (simp add: send_ctrl_def send_frame_def push_out_def)
  then have "send_to lib sid msg m = (True, put_sess sid ?s m)" using s by (simp add: send_to_def)
  then show thesis
    using that s f by (simp add: listening_def sess_out_def put_sess_def wired_def wire_bytes_def sends_only_def)
qed

lemma send_to_other: "send_to lib sid' msg m = (ok, m') \<Longrightarrow> sid' \<noteq> sid \<Longrightarrow>
    al_get (sm_sessions m') sid = al_get (sm_sessions m) sid"
  by (auto simp: send_to_def put_sess_def split: option.splits prod.splits)

lemma send_all_absent:
  "sid \<notin> set sids \<Longrightarrow> send_all lib msg sids m = (kept, m') \<Longrightarrow>
     al_get (sm_sessions m') sid = al_get (sm_sessions m) sid \<and> set kept \<subseteq> set sids"
proof (induction sids arbitrary: m kept)
  case (Cons x sids)
  obtain ok m1 where s: "send_to lib x msg m = (ok, m1)" by fastforce
  obtain kept1 m2 where a: "send_all lib msg sids m1 = (kept1, m2)" by fastforce
  have "x \<noteq> sid" using Cons.prems by auto
  from send_to_other [OF s this] Cons.IH [of m1 kept1] Cons.prems a s show ?case by (auto split: if_splits)
qed simp

lemma send_all_first:
  assumes "listening m sid" "wire_bytes lib msg \<noteq> None" "sid \<notin> set rest"
  obtains kept m' where "send_all lib msg (sid # rest) m = (sid # kept, m')" "sid \<notin> set kept" "listening m' sid"
    "sess_out m' sid = sess_out m sid @ [wired lib msg]"
proof -
  obtain m1 where s: "send_to lib sid msg m = (True, m1)" "listening m1 sid"
    "sess_out m1 sid = sess_out m sid @ [wired lib msg]"
    by (rule send_to_wire [OF assms(1,2)])
  obtain kept m2 where a: "send_all lib msg rest m1 = (kept, m2)" by fastforce
  from send_all_absent [OF assms(3) a] have "al_get (sm_sessions m2) sid = al_get (sm_sessions m1) sid" "sid \<notin> set kept"
    using assms(3) by auto
  then show thesis using that [of kept m2] s a by (simp add: listening_def sess_out_def)
qed

lemma replay_lines:
  "list_all (line_ok lib) evs \<Longrightarrow> listening m sid \<Longrightarrow>
   list_all (\<lambda>ev. sv_seq ev > a \<longrightarrow> wire_bytes lib (C_SessionEvent ev) \<noteq> None) evs \<Longrightarrow>
     \<exists>m'. replay lib sid a (map (line_of lib) evs) m = (True, m') \<and> listening m' sid \<and> sends_only m m'
       \<and> sess_out m' sid = sess_out m sid @ map (\<lambda>ev. wired lib (C_SessionEvent ev)) (filter (\<lambda>ev. sv_seq ev > a) evs)"
proof (induction evs arbitrary: m)
  case (Cons ev evs)
  have u: "sl_unline lib (line_of lib ev) = Some ev" using Cons.prems by (simp add: unline_line_of)
  show ?case
  proof (cases "sv_seq ev > a")
    case True
    then have "wire_bytes lib (C_SessionEvent ev) \<noteq> None" using Cons.prems by simp
    from send_to_wire [OF Cons.prems(2) this] obtain m1 where m1: "send_to lib sid (C_SessionEvent ev) m = (True, m1)"
      "listening m1 sid" "sess_out m1 sid = sess_out m sid @ [wired lib (C_SessionEvent ev)]" "sends_only m m1" .
    with Cons.IH [of m1] Cons.prems obtain m' where "replay lib sid a (map (line_of lib) evs) m1 = (True, m')"
      "listening m' sid" "sends_only m1 m'"
      "sess_out m' sid = sess_out m1 sid @ map (\<lambda>ev. wired lib (C_SessionEvent ev)) (filter (\<lambda>ev. sv_seq ev > a) evs)"
      by auto
    then show ?thesis using True u m1 sends_only_trans by (intro exI [of _ m']) auto
  next
    case False
    then show ?thesis using u Cons by simp
  qed
qed simp

lemma filter_drop: "(\<And>i. i < length xs \<Longrightarrow> P (xs ! i) \<longleftrightarrow> n \<le> i) \<Longrightarrow> filter P xs = drop n xs"
proof (induction xs arbitrary: n)
  case (Cons x xs)
  have "filter P xs = drop (n - 1) xs"
  proof (rule Cons.IH)
    fix i assume "i < length xs"
    then show "P (xs ! i) \<longleftrightarrow> n - 1 \<le> i" using Cons.prems [of "Suc i"] by auto
  qed
  then show ?case using Cons.prems [of 0] by (cases n) auto
qed simp

lemma dense_nth: "dense lib rid evs \<Longrightarrow> i < length evs \<Longrightarrow> unat (sv_seq (evs ! i)) = Suc i"
proof -
  assume d: "dense lib rid evs" and i: "i < length evs"
  then have "map sv_seq evs ! i = map of_nat [1..<Suc (length evs)] ! i" "Suc i < 2 ^ 64" by (simp_all add: dense_def)
  then have "sv_seq (evs ! i) = of_nat (Suc i)" using i by (simp del: upt_Suc of_nat_Suc)
  then show ?thesis using \<open>Suc i < 2 ^ 64\<close> by (simp add: unat_of_nat take_bit_nat_eq_self del: of_nat_Suc)
qed

lemma dense_filter: "dense lib rid evs \<Longrightarrow> filter (\<lambda>ev. sv_seq ev > a) evs = drop (unat a) evs"
  by (rule filter_drop) (auto simp: word_less_nat_alt dense_nth)

text \<open>The run has the session as a subscriber.\<close>

definition subscribed :: "run \<Rightarrow> u64 \<Rightarrow> bool" where
  "subscribed g sid \<longleftrightarrow> (\<exists>rest. ri_subs g = sid # rest \<and> sid \<notin> set rest)"

lemma run_emit_subscribed:
  assumes g: "get_run m rid = Some g" and e: "emit_ok lib io m rid kind payload" and s: "subscribed g sid"
    and l: "listening m sid" and w: "wire_bytes lib (C_SessionEvent (event_of lib io rid g kind payload)) \<noteq> None"
  obtains g' where "get_run (run_emit lib io rid kind payload m) rid = Some g'" "subscribed g' sid"
    "listening (run_emit lib io rid kind payload m) sid"
    "sess_out (run_emit lib io rid kind payload m) sid
       = sess_out m sid @ [wired lib (C_SessionEvent (event_of lib io rid g kind payload))]"
proof -
  let ?ev = "event_of lib io rid g kind payload"
  define m1 where "m1 = put_dir rid ((get_dir m rid)\<lparr>d_events := d_events (get_dir m rid)
          @ line_of lib ?ev @ [CHR 0x0A]\<rparr>) m"
  obtain kept m2 where a: "send_all lib (C_SessionEvent ?ev) (ri_subs g) m1 = (kept, m2)"
    and r: "run_emit lib io rid kind payload m = put_run rid (g\<lparr>ri_seq := ri_seq g + 1, ri_log := True, ri_subs := kept\<rparr>) m2"
    unfolding m1_def by (rule run_emit_ok [OF g e])
  obtain rest where rest: "ri_subs g = sid # rest" "sid \<notin> set rest" using s by (auto simp: subscribed_def)
  have l1: "listening m1 sid" "sess_out m1 sid = sess_out m sid"
    using l by (simp_all add: m1_def listening_def sess_out_def)
  obtain kept' m2' where k: "send_all lib (C_SessionEvent ?ev) (sid # rest) m1 = (sid # kept', m2')" "sid \<notin> set kept'"
    "listening m2' sid" "sess_out m2' sid = sess_out m1 sid @ [wired lib (C_SessionEvent ?ev)]"
    by (rule send_all_first [OF l1(1) w rest(2)])
  have "kept = sid # kept'" "m2 = m2'" using a k(1) by (simp_all only: rest(1) prod.inject)
  then show thesis using k l1(2)
    by (intro that [of "g\<lparr>ri_seq := ri_seq g + 1, ri_log := True, ri_subs := sid # kept'\<rparr>"])
      (simp_all add: r subscribed_def listening_def sess_out_def)
qed

text \<open>Events in a row, and the messages they become.\<close>

fun emit_all :: "step_lib \<Rightarrow> string \<Rightarrow> (io \<times> string \<times> json) list \<Rightarrow> manager \<Rightarrow> manager" where
  "emit_all lib rid [] m = m"
| "emit_all lib rid ((io, kind, payload) # xs) m = emit_all lib rid xs (run_emit lib io rid kind payload m)"

fun emitted :: "step_lib \<Rightarrow> string \<Rightarrow> (io \<times> string \<times> json) list \<Rightarrow> manager \<Rightarrow> session_event list" where
  "emitted lib rid [] m = []"
| "emitted lib rid ((io, kind, payload) # xs) m =
     event_of lib io rid (the_run m rid) kind payload # emitted lib rid xs (run_emit lib io rid kind payload m)"

fun emits_ok :: "step_lib \<Rightarrow> string \<Rightarrow> (io \<times> string \<times> json) list \<Rightarrow> manager \<Rightarrow> bool" where
  "emits_ok lib rid [] m = True"
| "emits_ok lib rid ((io, kind, payload) # xs) m =
     (emit_ok lib io m rid kind payload
      \<and> wire_bytes lib (C_SessionEvent (event_of lib io rid (the_run m rid) kind payload)) \<noteq> None
      \<and> emits_ok lib rid xs (run_emit lib io rid kind payload m))"

lemma emitted_length [simp]: "length (emitted lib rid xs m) = length xs"
  by (induction lib rid xs m rule: emitted.induct) auto

lemma emit_all_subscribed:
  "get_run m rid = Some g \<Longrightarrow> subscribed g sid \<Longrightarrow> listening m sid \<Longrightarrow> run_log_ok lib m rid evs \<Longrightarrow> emits_ok lib rid xs m \<Longrightarrow>
     sess_out (emit_all lib rid xs m) sid
       = sess_out m sid @ map (\<lambda>ev. wired lib (C_SessionEvent ev)) (emitted lib rid xs m)
     \<and> run_log_ok lib (emit_all lib rid xs m) rid (evs @ emitted lib rid xs m)"
proof (induction lib rid xs m arbitrary: g evs rule: emit_all.induct)
  case (2 lib rid io kind payload xs m)
  let ?m = "run_emit lib io rid kind payload m" and ?ev = "event_of lib io rid g kind payload"
  have r: "the_run m rid = g" using 2(2) by (simp add: the_run_def)
  have e: "emit_ok lib io m rid kind payload" "wire_bytes lib (C_SessionEvent ?ev) \<noteq> None" "emits_ok lib rid xs ?m"
    using 2(6) r by auto
  obtain g' where g': "get_run ?m rid = Some g'" "subscribed g' sid" "listening ?m sid"
    "sess_out ?m sid = sess_out m sid @ [wired lib (C_SessionEvent ?ev)]"
    by (rule run_emit_subscribed [OF 2(2) e(1) 2(3,4) e(2)])
  from 2(1) [OF g'(1-3) run_emit_log [OF 2(2) e(1) 2(5)] e(3)] show ?case using g'(4) r by simp
qed simp

lemma status_subscribes:
  assumes g: "get_run m rid = Some g" and log: "run_log_ok lib m rid evs" and l: "listening m sid"
    and io: "io_read_log io" and a: "unat a \<le> length evs"
    and w: "list_all (\<lambda>ev. wire_bytes lib (C_SessionEvent ev) \<noteq> None) (drop (unat a) evs)"
    and ws: "wire_bytes lib (state_msg rid g) \<noteq> None"
  shows "get_run (steps_status lib io sid rid a m) rid = Some (g\<lparr>ri_subs := sid # removeAll sid (ri_subs g)\<rparr>)"
    and "listening (steps_status lib io sid rid a m) sid"
    and "sess_out (steps_status lib io sid rid a m) sid
       = sess_out m sid @ map (\<lambda>ev. wired lib (C_SessionEvent ev)) (drop (unat a) evs) @ [wired lib (state_msg rid g)]"
proof -
  have d: "dense lib rid evs" "d_events (get_dir m rid) = log_text lib evs" "ri_seq g = of_nat (length evs)"
    using log g by (simp_all add: run_log_ok_def seq_of_def)
  have f: "filter (\<lambda>ev. sv_seq ev > a) evs = drop (unat a) evs" by (rule dense_filter [OF d(1)])
  have lo: "list_all (line_ok lib) evs" using d(1) by (auto simp: dense_def list_all_iff)
  have w': "list_all (\<lambda>ev. sv_seq ev > a \<longrightarrow> wire_bytes lib (C_SessionEvent ev) \<noteq> None) evs"
    using w unfolding f [symmetric] by (auto simp: list_all_iff)
  have len: "a < ri_seq g \<longleftrightarrow> unat a < length evs"
    using d by (simp add: word_less_nat_alt dense_def unat_of_nat take_bit_nat_eq_self)
  define r where "r = (if a < ri_seq g \<and> io_read_log io
                 then replay lib sid a (log_lines (d_events (get_dir m rid))) m else (True, m))"
  obtain m1 where m1: "r = (True, m1)" "listening m1 sid" "sends_only m m1"
    "sess_out m1 sid = sess_out m sid @ map (\<lambda>ev. wired lib (C_SessionEvent ev)) (drop (unat a) evs)"
  proof (cases "unat a < length evs")
    case True
    then show ?thesis
      using that replay_lines [OF lo l w'] len io by (auto simp: r_def d(2) log_lines_log [OF lo] f)
  next
    case False
    then show ?thesis using that l len by (simp add: r_def)
  qed
  let ?g = "g\<lparr>ri_subs := sid # removeAll sid (ri_subs g)\<rparr>"
  have "listening (put_run rid ?g m1) sid" "wire_bytes lib (state_msg rid ?g) \<noteq> None"
    using m1(2) ws by (simp_all add: listening_def state_msg_def)
  from send_to_wire [OF this] obtain m2 where m2: "send_to lib sid (state_msg rid ?g) (put_run rid ?g m1) = (True, m2)"
    "listening m2 sid" "sess_out m2 sid = sess_out (put_run rid ?g m1) sid @ [wired lib (state_msg rid ?g)]"
    "sends_only (put_run rid ?g m1) m2" .
  have "steps_status lib io sid rid a m = m2"
    using g m1(1) m2(1) by (simp add: steps_status_def r_def [symmetric] Let_def)
  then show "get_run (steps_status lib io sid rid a m) rid = Some ?g" "listening (steps_status lib io sid rid a m) sid"
    "sess_out (steps_status lib io sid rid a m) sid
       = sess_out m sid @ map (\<lambda>ev. wired lib (C_SessionEvent ev)) (drop (unat a) evs) @ [wired lib (state_msg rid g)]"
    using m1(4) m2 sends_only_get [OF m2(4)] by (simp_all add: sess_out_def state_msg_def)
qed


definition sample_lib :: "session_event \<Rightarrow> session_event \<Rightarrow> step_lib" where
  "sample_lib e1 e2 =
     \<lparr>sl_ser = (\<lambda>_. Inr []), sl_show = (\<lambda>_. []), sl_line = (\<lambda>ev. Some (if ev = e1 then ''a'' else ''b'')),
      sl_unline = (\<lambda>l. if l = ''a'' then Some e1 else if l = ''b'' then Some e2 else None),
      sl_fin_size = (\<lambda>_. 0), sl_dbg = (\<lambda>x. x),
      sl_b64 = \<lparr>b64_standard = (\<lambda>x. x), b64_standard_no_pad = (\<lambda>x. x), b64_url_safe_no_pad = (\<lambda>x. x)\<rparr>,
      sl_fmt1 = (\<lambda>_. [])\<rparr>"

definition sample_io :: io where
  "sample_io =
     \<lparr>io_write = (\<lambda>_. True), io_open_log = True, io_append = None, io_read_log = True, io_remove = True,
      io_now = (0, 0), io_memory_events = None, io_workspace_full = None\<rparr>"

definition sample_event :: "u64 \<Rightarrow> session_event" where
  "sample_event n =
     \<lparr>sv_run_id = ''r'', sv_seq = n, sv_at = now_rfc3339 (0, 0), sv_kind = ''stdout'', sv_payload = JNull,
      sv_truncated = False\<rparr>"

definition sample_manager :: manager where
  "sample_manager =
     \<lparr>sm_runs = [(''r'', run_new\<lparr>ri_seq := 1\<rparr>)], sm_disk = [(''r'', empty_dir\<lparr>d_events := ''a'' @ [CHR 0x0A]\<rparr>)],
      sm_sessions = [(7, sess_start Role_Server 1 [] None [])], sm_workers = [], sm_shutting_down = False\<rparr>"

lemma sample_lib_simps [simp]:
  "sl_ser (sample_lib e1 e2) msg = Inr []" "sl_show (sample_lib e1 e2) j = []"
  "sl_line (sample_lib e1 e2) ev = Some (if ev = e1 then ''a'' else ''b'')"
  "sl_unline (sample_lib e1 e2) l = (if l = ''a'' then Some e1 else if l = ''b'' then Some e2 else None)"
  by (simp_all add: sample_lib_def)

lemma sample_io_simps [simp]:
  "io_logs sample_io" "io_read_log sample_io" "io_now sample_io = (0, 0)" "io_open_log sample_io"
  by (simp_all add: sample_io_def io_logs_def)

lemma sample_event_inj [simp]: "sample_event a = sample_event b \<longleftrightarrow> a = b"
  by (simp add: sample_event_def)

lemma sample_event_fields [simp]: "sv_seq (sample_event n) = n" "sv_run_id (sample_event n) = ''r''"
  by (simp_all add: sample_event_def)

lemma sample_line_ok: "line_ok (sample_lib (sample_event 1) (sample_event 2)) (sample_event 1)"
  "line_ok (sample_lib (sample_event 1) (sample_event 2)) (sample_event 2)"
proof -
  have "is_str ''a''" "is_str ''b''" "\<not> ends_with ''a'' [CHR 0x0D]" "\<not> ends_with ''b'' [CHR 0x0D]" by code_simp+
  then show "line_ok (sample_lib (sample_event 1) (sample_event 2)) (sample_event 1)"
    "line_ok (sample_lib (sample_event 1) (sample_event 2)) (sample_event 2)" by (simp_all add: line_ok_def)
qed

lemma sample_wire: "wire_bytes (sample_lib e1 e2) msg \<noteq> None"
  unfolding wire_iff by simp

lemma sample_run: "get_run sample_manager ''r'' = Some (run_new\<lparr>ri_seq := 1\<rparr>)"
  by (simp add: get_run_def sample_manager_def al_get_def)

lemma sample_log: "run_log_ok (sample_lib (sample_event 1) (sample_event 2)) sample_manager ''r'' [sample_event 1]"
proof -
  have "get_dir sample_manager ''r'' = empty_dir\<lparr>d_events := ''a'' @ [CHR 0x0A]\<rparr>"
    by (simp add: get_dir_def sample_manager_def al_get_def)
  then show ?thesis
    using sample_line_ok by (simp add: run_log_ok_def dense_def seq_of_def sample_run log_text_def line_of_def)
qed


section \<open>Recovery\<close>

text \<open>The names: a run and a directory have a plain id, and a directory is there once.\<close>

definition names_ok :: "manager \<Rightarrow> bool" where
  "names_ok m \<longleftrightarrow>
     distinct (map fst (sm_disk m)) \<and> list_all valid_step_id (map fst (sm_disk m))
     \<and> list_all valid_step_id (map fst (sm_runs m))"

lemma al_insert_names:
  "distinct (map fst xs) \<Longrightarrow> distinct (map fst (al_insert k v xs))"
  "set (map fst (al_insert k v xs)) = insert k (set (map fst xs))"
  by (auto simp: al_insert_def al_remove_def distinct_map_filter)

lemma names_put_run: "names_ok m \<Longrightarrow> valid_step_id rid \<Longrightarrow> names_ok (put_run rid g m)"
  using al_insert_names(2) [where xs = "sm_runs m" and k = rid and v = g] by (auto simp: names_ok_def put_run_def list_all_iff)

lemma names_put_dir: "names_ok m \<Longrightarrow> valid_step_id rid \<Longrightarrow> names_ok (put_dir rid d m)"
  using al_insert_names [where xs = "sm_disk m" and k = rid and v = d] by (auto simp: names_ok_def put_dir_def list_all_iff)

lemma names_persist: "names_ok m \<Longrightarrow> valid_step_id rid \<Longrightarrow> names_ok (persist io rid g m)"
  by (simp add: persist_def names_put_dir)

lemma names_sends: "sends_only m m' \<Longrightarrow> names_ok m \<Longrightarrow> names_ok m'"
  by (simp add: names_ok_def sends_only_def)

lemma names_valid: "names_ok m \<Longrightarrow> get_run m rid = Some g \<Longrightarrow> valid_step_id rid"
  by (auto simp: names_ok_def get_run_def list_all_iff dest!: al_get_SomeD)

lemma recover_run_get:
  "get_run (recover_run io (r, d) m) rid
     = (if rid = r \<and> valid_step_id r then Some (recovered_run r d) else get_run m rid)"
  by (simp add: recover_run_def Let_def)

lemma recover_run_dir:
  "d_events (get_dir (recover_run io (r, d) m) rid) = d_events (get_dir m rid)
   \<and> d_start (get_dir (recover_run io (r, d) m) rid) = d_start (get_dir m rid)"
  by (simp add: recover_run_def Let_def persist_def)

lemma recover_names: "names_ok m \<Longrightarrow> names_ok (recover_run io e m)"
  by (auto simp: recover_run_def Let_def split: prod.splits intro: names_put_run names_persist)

lemma recover_fold:
  "distinct (map fst ds) \<Longrightarrow>
     get_run (fold (recover_run io) ds m) rid
       = (case map_of ds rid of
            Some d \<Rightarrow> if valid_step_id rid then Some (recovered_run rid d) else get_run m rid
          | None \<Rightarrow> get_run m rid)"
proof (induction ds arbitrary: m)
  case (Cons e ds)
  obtain r d where e: "e = (r, d)" by fastforce
  have "map_of ds r = None" using Cons.prems e by (simp add: map_of_eq_None_iff)
  then show ?case using Cons e by (auto simp: recover_run_get split: option.splits)
qed simp

lemma recover_fold_dir:
  "d_events (get_dir (fold (recover_run io) ds m) rid) = d_events (get_dir m rid)
   \<and> d_start (get_dir (fold (recover_run io) ds m) rid) = d_start (get_dir m rid)"
proof (induction ds arbitrary: m)
  case (Cons e ds)
  then show ?case by (cases e) (simp add: recover_run_dir)
qed simp

lemma recover_fold_names: "names_ok m \<Longrightarrow> names_ok (fold (recover_run io) ds m)"
  by (induction ds arbitrary: m) (auto intro: recover_names)

lemma restarted_simps [simp]:
  "get_run (restarted m) rid = None" "get_dir (restarted m) = get_dir m" "sm_disk (restarted m) = sm_disk m"
  "sm_workers (restarted m) = []"
  by (simp_all add: restarted_def get_run_def get_dir_def al_get_def fun_eq_iff)

lemma steps_recover_get:
  assumes "names_ok m"
  shows "get_run (steps_recover io (restarted m)) rid = map_option (recovered_run rid) (al_get (sm_disk m) rid)"
proof -
  have "valid_step_id rid" if "al_get (sm_disk m) rid = Some d" for d
    using that assms by (auto simp: names_ok_def list_all_iff dest!: al_get_SomeD)
  then show ?thesis using assms recover_fold [of "sm_disk m" io "restarted m" rid]
    by (auto simp: steps_recover_def names_ok_def al_get_def split: option.splits)
qed

lemma recovered_seq [simp]: "ri_seq (recovered_run rid d) = of_nat (length (text_lines (d_events d)))"
  by (simp add: recovered_run_def loaded_run_def Let_def split: option.splits)

lemma recover_seq:
  assumes n: "names_ok m" and d: "dense lib rid evs" "d_events (get_dir m rid) = log_text lib evs"
  shows "seq_of (steps_recover io (restarted m)) rid = of_nat (length evs)"
proof -
  have "text_lines (d_events (get_dir m rid)) = map (line_of lib) evs"
    using d text_lines_log [of lib evs] by (simp add: dense_def list_all_iff)
  then show ?thesis
    using d(2) by (auto simp: seq_of_def steps_recover_get [OF n] get_dir_def empty_dir_def split: option.splits)
qed

lemma recover_log:
  assumes n: "names_ok m" and l: "run_log_ok lib m rid evs"
  shows "run_log_ok lib (steps_recover io (restarted m)) rid evs"
  using l recover_seq [OF n, of lib rid evs io] recover_fold_dir [of io "sm_disk m" "restarted m" rid]
  by (simp add: run_log_ok_def steps_recover_def)

end
