(* ===== verification/Step_Machine.thy ===== *)
theory Step_Machine
  imports Step_Props
begin

text \<open>
  The transitions of the step executor and the invariant of its reachable states: at most one worker per run,
  controlled by the run; no secret on disk; and the event log of every run dense, also after restarts.
\<close>

section \<open>The invariant\<close>

definition idle :: "manager \<Rightarrow> string \<Rightarrow> bool" where
  "idle m rid \<longleftrightarrow> (\<forall>w. worker_live m w \<longrightarrow> wk_run (sm_workers m ! w) \<noteq> rid)"

text \<open>A running worker belongs to a run that is running, that controls it and has its secrets.\<close>

definition held :: "manager \<Rightarrow> nat \<Rightarrow> bool" where
  "held m w \<longleftrightarrow>
     (\<exists>g c. get_run m (wk_run (sm_workers m ! w)) = Some g \<and> ri_phase g = Phase_Running \<and> ri_control g = Some c
        \<and> ct_worker c = w \<and> ri_start g = Some (wk_start (sm_workers m ! w)))"

definition no_secrets :: "step_start option \<Rightarrow> bool" where
  "no_secrets s = (case s of None \<Rightarrow> True | Some s \<Rightarrow> secret_values s = [])"

definition run_fine :: "run \<Rightarrow> bool" where
  "run_fine g \<longleftrightarrow> no_secrets (ri_stored g) \<and> (ri_phase g = Phase_Finished \<longrightarrow> ri_start g = None)"

definition core_inv :: "manager \<Rightarrow> bool" where
  "core_inv m \<longleftrightarrow>
     names_ok m \<and> (\<forall>w. worker_live m w \<longrightarrow> held m w) \<and> (\<forall>rid. no_secrets (d_start (get_dir m rid)))
     \<and> (\<forall>rid g. get_run m rid = Some g \<longrightarrow> run_fine g)"

definition same_ctl :: "run \<Rightarrow> run \<Rightarrow> bool" where
  "same_ctl g g' \<longleftrightarrow> ri_phase g' = ri_phase g \<and> ri_control g' = ri_control g \<and> ri_start g' = ri_start g"

lemma core_names: "core_inv m \<Longrightarrow> names_ok m"
  by (simp add: core_inv_def)

lemma core_valid: "core_inv m \<Longrightarrow> get_run m rid = Some g \<Longrightarrow> valid_step_id rid"
  using core_names names_valid by blast

lemma core_fine: "core_inv m \<Longrightarrow> get_run m rid = Some g \<Longrightarrow> run_fine g"
  by (simp add: core_inv_def)

lemma idle_other:
  "core_inv m \<Longrightarrow> (\<And>g. get_run m rid = Some g \<Longrightarrow> ri_phase g \<noteq> Phase_Running) \<Longrightarrow> idle m rid"
  by (fastforce simp: core_inv_def idle_def held_def)

lemma core_put_run:
  assumes c: "core_inv m" and v: "valid_step_id rid" and f: "run_fine g"
    and k: "idle m rid \<or> (\<exists>g0. get_run m rid = Some g0 \<and> same_ctl g0 g)"
  shows "core_inv (put_run rid g m)"
proof -
  have "held (put_run rid g m) w" if wl: "worker_live m w" for w
  proof (cases "wk_run (sm_workers m ! w) = rid")
    case True
    then obtain g0 where "get_run m rid = Some g0" "same_ctl g0 g" using k wl unfolding idle_def by blast
    then show ?thesis using c wl True by (auto simp: core_inv_def held_def same_ctl_def)
  next
    case False
    then show ?thesis using c wl by (auto simp: core_inv_def held_def)
  qed
  then show ?thesis using c v f by (auto simp: core_inv_def names_put_run worker_live_def)
qed

lemma core_put_dir:
  "core_inv m \<Longrightarrow> valid_step_id rid \<Longrightarrow> no_secrets (d_start d) \<Longrightarrow> core_inv (put_dir rid d m)"
  by (auto simp: core_inv_def names_put_dir worker_live_def held_def)

lemma core_dir: "core_inv m \<Longrightarrow> no_secrets (d_start (get_dir m rid))"
  by (simp add: core_inv_def)

lemma core_sends: "sends_only m m' \<Longrightarrow> core_inv m \<Longrightarrow> core_inv m'"
  using sends_only_get [of m m'] names_sends [of m m']
  by (auto simp: core_inv_def worker_live_def held_def sends_only_def)

lemma core_files:
  assumes "core_inv m" "valid_step_id rid"
  shows "core_inv (persist io rid g m)" "core_inv (write_start io rid (blank_start st) m)"
    "core_inv (write_finished io rid f m)" "core_inv (remove_finished io rid m)"
    "core_inv (append_log io rid line m)"
  using assms core_dir [OF assms(1)]
  by (auto simp: persist_def write_start_def write_finished_def remove_finished_def append_log_def Let_def
      no_secrets_def blank_start_no_secrets intro!: core_put_dir)

lemma idle_simps [simp]:
  "idle (put_run rid g m) = idle m" "idle (put_dir rid d m) = idle m" "idle (put_sess sid s m) = idle m"
  by (simp_all add: idle_def worker_live_def fun_eq_iff)

lemma idle_files [simp]:
  "idle (persist io rid g m) = idle m" "idle (write_start io rid s m) = idle m"
  "idle (write_finished io rid f m) = idle m" "idle (remove_finished io rid m) = idle m"
  by (simp_all add: persist_def write_start_def write_finished_def remove_finished_def)

lemma idle_sends: "sends_only m m' \<Longrightarrow> idle m' = idle m"
  by (simp add: idle_def sends_only_def worker_live_def fun_eq_iff)

lemma core_update_worker:
  assumes c: "core_inv m" and f: "\<And>k. wk_run (f k) = wk_run k \<and> wk_start (f k) = wk_start k \<and> (wk_live (f k) \<longrightarrow> wk_live k)"
  shows "core_inv (update_worker w f m)"
proof -
  have "held (update_worker w f m) x" if "worker_live (update_worker w f m) x" for x
  proof -
    have "worker_live m x" using that f by (auto simp: worker_live_def update_worker_def nth_list_update split: if_splits)
    then have "held m x" using c by (simp add: core_inv_def)
    then show ?thesis using f by (auto simp: held_def update_worker_def nth_list_update)
  qed
  moreover have "names_ok (update_worker w f m)" using core_names [OF c] by (simp add: names_ok_def update_worker_def)
  moreover have "get_run (update_worker w f m) = get_run m" "get_dir (update_worker w f m) = get_dir m"
    by (simp_all add: update_worker_def)
  ultimately show ?thesis using c by (simp add: core_inv_def)
qed

section \<open>The handlers keep it\<close>

lemma core_launch:
  assumes c: "core_inv m" and i: "idle m rid"
  shows "core_inv (launch lib io rid st resume m)"
proof (cases "get_run m rid")
  case (Some g)
  have v: "valid_step_id rid" using c Some by (rule core_valid)
  define m1 where "m1 = (if ri_finished g \<noteq> None \<or> resume then remove_finished io rid m else m)"
  define g1 where "g1 = g\<lparr>ri_phase := Phase_Running, ri_finished := None,
      ri_secrets := secret_forms (sl_b64 lib) (secret_values st), ri_start := Some st,
      ri_control := Some \<lparr>ct_worker = length (sm_workers m), ct_steer = is_agent (ss_exec st)\<rparr>,
      ri_stored := (case ri_stored g of None \<Rightarrow> Some (blank_start st) | Some s \<Rightarrow> Some s)\<rparr>"
  define m2 where "m2 = persist io rid g1 (put_run rid g1 m1)"
  define k where "k = \<lparr>wk_run = rid, wk_start = st, wk_resume = resume, wk_steer = [], wk_stop = False, wk_live = True\<rparr>"
  have l: "launch lib io rid st resume m = m2\<lparr>sm_workers := sm_workers m2 @ [k]\<rparr>"
    using Some by (simp add: launch_def Let_def m2_def m1_def g1_def k_def)
  have ws: "sm_workers m2 = sm_workers m" by (simp add: m2_def m1_def persist_def remove_finished_def)
  have gr: "get_run m2 rid = Some g1" by (simp add: m2_def)
  have "run_fine g1"
    using core_fine [OF c Some] by (auto simp: run_fine_def g1_def no_secrets_def blank_start_no_secrets split: option.splits)
  moreover have "core_inv m1" "idle m1 rid" using c v i by (auto simp: m1_def intro: core_files)
  ultimately have c2: "core_inv m2" unfolding m2_def using v by (intro core_files core_put_run) auto
  let ?m = "m2\<lparr>sm_workers := sm_workers m2 @ [k]\<rparr>"
  have "held ?m w" if "worker_live ?m w" for w
  proof (cases "w < length (sm_workers m)")
    case True
    then have "worker_live m2 w" using that ws by (simp add: worker_live_def nth_append)
    then show ?thesis using c2 True ws by (auto simp: core_inv_def held_def nth_append)
  next
    case False
    then have "w = length (sm_workers m)" using that ws by (simp add: worker_live_def)
    then show ?thesis using ws gr by (auto simp: held_def k_def g1_def)
  qed
  moreover have "names_ok ?m" using core_names [OF c2] by (simp add: names_ok_def)
  ultimately show ?thesis using c2 by (auto simp: l core_inv_def)
qed (use c in \<open>simp add: launch_def\<close>)

lemma core_set_phase_running:
  assumes "core_inv m" "idle m rid"
  shows "core_inv (set_phase rid Phase_Running m)"
proof (cases "get_run m rid")
  case (Some g)
  then show ?thesis
    using assms core_fine [OF assms(1) Some] core_valid [OF assms(1) Some]
    by (auto simp: set_phase_def run_fine_def intro!: core_put_run)
qed (use assms in \<open>simp add: set_phase_def\<close>)

lemma idle_set_phase [simp]: "idle (set_phase rid ph m) = idle m"
  by (simp add: set_phase_def split: option.splits)

lemma idle_register [simp]: "idle (register io rid st sid m) = idle m"
  by (simp add: register_def Let_def)

lemma idle_reply [simp]: "idle (reply_accept lib sid rid ph ex m) = idle m"
  by (rule idle_sends) (rule sends_only_replies)

lemma core_replies:
  assumes "core_inv m"
  shows "core_inv (reply_error lib sid rid code msg m)" "core_inv (reply_accept lib sid rid ph ex m)"
  using core_sends [OF sends_only_replies(1) assms] core_sends [OF sends_only_replies(2) assms] by auto

lemma core_register:
  assumes "core_inv m" "valid_step_id rid" "idle m rid"
  shows "core_inv (register io rid st sid m)"
  unfolding register_def Let_def using assms
  by (intro core_put_run core_files) (auto simp: run_fine_def run_new_def no_secrets_def blank_start_no_secrets)

lemma core_start:
  assumes c: "core_inv m"
  shows "core_inv (steps_start lib io sid st m)"
proof (cases "start_look lib st m")
  case (Seen_Invalid e)
  then show ?thesis using c by (simp add: steps_start_def core_replies)
next
  case Seen_None
  then have i: "idle m (ss_run_id st)" using start_look_None [OF Seen_None] by (intro idle_other [OF c]) simp
  have "valid_step_id (ss_run_id st)" using Seen_None
    by (auto simp: start_look_def validate_start_def then_check_def ensure_def split: sum.splits if_splits)
  then show ?thesis using c i by (simp add: steps_start_def Seen_None core_launch core_replies core_register)
next
  case (Seen_Run ph again)
  show ?thesis
  proof (cases again)
    case True
    then have "idle m (ss_run_id st)"
      using Seen_Run by (intro idle_other [OF c]) (auto simp: start_look_def resumable_def split: sum.splits)
    then show ?thesis using c True by (simp add: steps_start_def Seen_Run core_launch core_replies core_set_phase_running)
  qed (use c Seen_Run in \<open>simp add: steps_start_def core_replies\<close>)
qed

lemma core_run_update:
  assumes c: "core_inv m" and g: "get_run m rid = Some g" and s: "same_ctl g g'" and st: "ri_stored g' = ri_stored g"
  shows "core_inv (put_run rid g' m)"
  using core_fine [OF c g] s st core_valid [OF c g] g
  by (intro core_put_run [OF c]) (auto simp: run_fine_def same_ctl_def)

lemma core_run_emit:
  assumes c: "core_inv m"
  shows "core_inv (run_emit lib io rid kind payload m)"
proof (cases "get_run m rid")
  case (Some g)
  let ?ev = "event_of lib io rid g kind payload"
  define m1 where "m1 = (case sl_line lib ?ev of
         Some line \<Rightarrow> if ri_log g \<or> io_open_log io then append_log io rid line m else m | None \<Rightarrow> m)"
  obtain kept m2 where s: "send_all lib (C_SessionEvent ?ev) (ri_subs g) m1 = (kept, m2)" by fastforce
  have "core_inv m1" using c core_valid [OF c Some] by (auto simp: m1_def split: option.splits intro: core_files)
  then have c2: "core_inv m2" by (rule core_sends [OF sends_only_send_all [OF s]])
  have "get_run m1 rid = Some g" using Some by (auto simp: m1_def append_log_def Let_def split: option.splits)
  then have "get_run m2 rid = Some g" using sends_only_get [OF sends_only_send_all [OF s]] by simp
  from core_run_update [OF c2 this] show ?thesis
    using run_emit_eq [OF Some, of lib io kind payload kept m2] s by (simp add: m1_def same_ctl_def)
qed (use c in \<open>simp add: run_emit_def\<close>)

lemma run_emit_workers:
  "sm_workers (run_emit lib io rid kind payload m) = sm_workers m
   \<and> sm_shutting_down (run_emit lib io rid kind payload m) = sm_shutting_down m"
proof (cases "get_run m rid")
  case (Some g)
  let ?ev = "event_of lib io rid g kind payload"
  define m1 where "m1 = (case sl_line lib ?ev of
         Some line \<Rightarrow> if ri_log g \<or> io_open_log io then append_log io rid line m else m | None \<Rightarrow> m)"
  obtain kept m2 where s: "send_all lib (C_SessionEvent ?ev) (ri_subs g) m1 = (kept, m2)" by fastforce
  have "sm_workers m1 = sm_workers m \<and> sm_shutting_down m1 = sm_shutting_down m"
    by (auto simp: m1_def append_log_def Let_def split: option.splits)
  then show ?thesis
    using run_emit_eq [OF Some, of lib io kind payload kept m2] s sends_only_send_all [OF s]
    by (simp add: m1_def sends_only_def)
qed (simp add: run_emit_def)

lemma core_status:
  assumes c: "core_inv m"
  shows "core_inv (steps_status lib io sid rid a m)"
proof (cases "get_run m rid")
  case None
  then show ?thesis
    using core_sends [OF sends_only_send_to c, of lib sid "C_StepState rid Phase_Unknown None"]
    by (cases "send_to lib sid (C_StepState rid Phase_Unknown None) m") (auto simp: steps_status_def)
next
  case (Some g)
  define r where "r = (if a < ri_seq g \<and> io_read_log io
                 then replay lib sid a (log_lines (d_events (get_dir m rid))) m else (True, m))"
  obtain ok m1 where r: "r = (ok, m1)" by fastforce
  have s: "sends_only m m1" using r sends_only_replay by (auto simp: r_def split: if_splits)
  have c1: "core_inv m1" by (rule core_sends [OF s c])
  let ?g = "g\<lparr>ri_subs := sid # removeAll sid (ri_subs g)\<rparr>"
  have "core_inv (put_run rid ?g m1)"
    using sends_only_get [OF s] Some by (intro core_run_update [OF c1]) (auto simp: same_ctl_def)
  moreover obtain ok2 m2 where s2: "send_to lib sid (state_msg rid ?g) (put_run rid ?g m1) = (ok2, m2)" by fastforce
  ultimately have "core_inv m2" using core_sends [OF sends_only_send_to] by blast
  then show ?thesis using Some r s2 c1 by (auto simp: steps_status_def r_def [symmetric] Let_def)
qed

lemma core_steer: "core_inv m \<Longrightarrow> core_inv (steps_steer lib io sid rid t m)"
  by (auto simp: steps_steer_def core_replies split: option.splits intro!: core_run_emit core_update_worker)

lemma core_stop_worker: "core_inv m \<Longrightarrow> core_inv (stop_worker g m)"
  by (auto simp: stop_worker_def split: option.splits intro!: core_update_worker)

lemma core_stop: "core_inv m \<Longrightarrow> core_inv (steps_stop lib sid rid m)"
  by (auto simp: steps_stop_def core_replies core_stop_worker split: option.splits)

lemma core_fold: "(\<And>x m. core_inv m \<Longrightarrow> core_inv (f x m)) \<Longrightarrow> core_inv m \<Longrightarrow> core_inv (fold f xs m)"
  by (induction xs arbitrary: m) auto

lemma core_shutdown: "core_inv m \<Longrightarrow> core_inv (m\<lparr>sm_shutting_down := b\<rparr>)"
  by (simp add: core_inv_def names_ok_def worker_live_def held_def get_run_def get_dir_def)

lemma core_interrupt: "core_inv m \<Longrightarrow> core_inv (interrupt_all m)"
  unfolding interrupt_all_def by (intro core_fold core_shutdown) (auto simp: core_stop_worker split: prod.splits)

lemma core_resume:
  assumes c: "core_inv m"
  shows "core_inv (steps_resume lib io sid rid m)"
proof (cases "get_run m rid")
  case (Some g)
  have "idle m rid" if "ri_phase g = Phase_Interrupted" using that Some by (intro idle_other [OF c]) simp
  then show ?thesis using c Some by (auto simp: steps_resume_def core_replies core_launch split: option.splits)
qed (use c in \<open>simp add: steps_resume_def core_replies\<close>)

lemma core_closed:
  assumes c: "core_inv m"
  shows "core_inv (session_closed sid m)"
proof -
  have "map fst (sm_runs (session_closed sid m)) = map fst (sm_runs m)"
    by (simp add: session_closed_def comp_def case_prod_unfold)
  moreover have "sm_disk (session_closed sid m) = sm_disk m" by (simp add: session_closed_def)
  ultimately have "names_ok (session_closed sid m)" using core_names [OF c] by (simp only: names_ok_def)
  moreover have "get_dir (session_closed sid m) = get_dir m" "sm_workers (session_closed sid m) = sm_workers m"
    by (simp_all add: fun_eq_iff get_dir_def session_closed_def)
  ultimately show ?thesis
    using c by (fastforce simp: core_inv_def worker_live_def held_def get_run_closed run_fine_def)
qed

lemma core_work_run:
  assumes "core_inv m" "\<And>g. same_ctl g (f g) \<and> ri_stored (f g) = ri_stored g"
  shows "core_inv (work_run f rid m)"
  using assms by (auto simp: work_run_def split: option.splits intro!: core_run_update)

lemma core_work_persist:
  assumes "core_inv m" "\<And>g. same_ctl g (f g) \<and> ri_stored (f g) = ri_stored g"
  shows "core_inv (work_persist io f rid m)"
  using assms by (auto simp: work_persist_def split: option.splits intro!: core_files core_run_update core_valid)

lemma core_work:
  assumes "core_inv m"
  shows "core_inv (work_evidence ev rid m)" "core_inv (work_secret lib t rid m)"
    "core_inv (work_leases io ls rid m)" "core_inv (work_session io acp rid m)"
  unfolding work_evidence_def work_secret_def work_leases_def work_session_def
  using assms by (auto intro!: core_work_run core_work_persist simp: same_ctl_def)

lemma core_finalize:
  assumes c: "core_inv m" and i: "idle m rid"
  shows "core_inv (finalize lib io rid fin0 m)"
proof (cases "get_run m rid")
  case (Some g0)
  define fin where "fin = final_result lib io g0 fin0"
  define m1 where "m1 = run_emit lib io rid kind_SYSTEM (finished_payload fin) m"
  have c1: "core_inv m1" unfolding m1_def by (rule core_run_emit [OF c])
  have i1: "idle m1 rid" using i by (simp add: m1_def idle_def worker_live_def run_emit_workers)
  obtain g where g: "get_run m1 rid = Some g" unfolding m1_def using run_emit_run [OF Some] by metis
  have v: "valid_step_id rid" using core_valid [OF c Some] .
  define g1 where "g1 = end_run g fin"
  have f1: "run_fine g1" using core_fine [OF c1 g] by (simp add: g1_def end_run_def run_fine_def Let_def)
  define m2 where "m2 = persist io rid g1 (write_finished io rid fin m1)"
  have c2: "core_inv m2" "idle m2 rid" unfolding m2_def using c1 v i1 by (auto intro: core_files)
  obtain kept m3 where s: "send_all lib (C_StepFinished fin) (ri_subs g1) m2 = (kept, m3)" by fastforce
  have c3: "core_inv m3" "idle m3 rid"
    using core_sends [OF sends_only_send_all [OF s] c2(1)] idle_sends [OF sends_only_send_all [OF s]] c2(2) by auto
  have "core_inv (put_run rid (g1\<lparr>ri_finished := Some fin, ri_subs := kept\<rparr>) m3)"
    using c3 v f1 by (intro core_put_run) (auto simp: run_fine_def)
  moreover have "core_inv (persist io rid g1 (put_run rid g1 m1))"
    using c1 v f1 i1 by (intro core_files core_put_run) auto
  ultimately show ?thesis
    using Some g s
    by (auto simp: finalize_def Let_def fin_def [symmetric] m1_def [symmetric] g1_def [symmetric] m2_def [symmetric])
qed (use c in \<open>simp add: finalize_def\<close>)

lemma core_work_done:
  assumes c: "core_inv m" and w: "worker_live m w"
  shows "core_inv (work_done lib io w fin m)"
proof -
  let ?m = "update_worker w (\<lambda>k. k\<lparr>wk_live := False\<rparr>) m"
  let ?rid = "wk_run (sm_workers m ! w)"
  have c1: "core_inv ?m" by (rule core_update_worker [OF c]) simp
  obtain g k where g: "get_run m ?rid = Some g" "ri_control g = Some k" "ct_worker k = w"
    using c w by (auto simp: core_inv_def held_def)
  have "idle ?m ?rid"
    unfolding idle_def
  proof (intro allI impI)
    fix x
    assume l: "worker_live ?m x"
    then have "x \<noteq> w" "worker_live m x" by (auto simp: worker_live_def update_worker_def nth_list_update split: if_splits)
    then have "held m x" using c by (simp add: core_inv_def)
    then show "wk_run (sm_workers ?m ! x) \<noteq> ?rid"
      using g \<open>x \<noteq> w\<close> by (auto simp: held_def update_worker_def nth_list_update)
  qed
  then show ?thesis unfolding work_done_def by (rule core_finalize [OF c1])
qed

lemma core_sink_event:
  assumes c: "core_inv m" and i: "idle m rid"
  shows "core_inv (sink_event lib io rid kind payload m)"
proof (cases "valid_step_id rid")
  case True
  define m1 where "m1 = (case get_run m rid of None \<Rightarrow> put_run rid run_new m | Some _ \<Rightarrow> m)"
  have c1: "core_inv m1" "idle m1 rid"
    using c i True by (auto simp: m1_def run_fine_def run_new_def no_secrets_def split: option.splits intro!: core_put_run)
  define m2 where "m2 = (case get_run m1 rid of
      Some g \<Rightarrow> if ri_phase g \<noteq> Phase_Running
        then let g1 = g\<lparr>ri_phase := Phase_Running\<rparr> in persist io rid g1 (put_run rid g1 m1) else m1
    | None \<Rightarrow> m1)"
  have "core_inv m2"
    using c1 True core_fine [OF c1(1)]
    by (auto simp: m2_def Let_def run_fine_def split: option.splits intro!: core_files core_put_run)
  then show ?thesis using True by (simp add: sink_event_def Let_def m1_def [symmetric] m2_def [symmetric] core_run_emit)
qed (use c in \<open>simp add: sink_event_def\<close>)

lemma core_sink_ended:
  assumes c: "core_inv m" and i: "idle m rid"
  shows "core_inv (sink_ended io rid m)"
proof (cases "get_run m rid")
  case (Some g)
  then show ?thesis
    using c i core_fine [OF c Some] core_valid [OF c Some]
    by (auto simp: sink_ended_def work_persist_def run_fine_def intro!: core_files core_put_run)
qed (use c in \<open>simp add: sink_ended_def work_persist_def\<close>)

lemma recovered_fine: "no_secrets (d_start d) \<Longrightarrow> run_fine (recovered_run rid d)"
  by (auto simp: run_fine_def recovered_run_def loaded_run_def run_new_def Let_def split: option.splits)

lemma recover_workers: "sm_workers (fold (recover_run io) ds m) = sm_workers m"
  by (induction ds arbitrary: m) (auto simp: recover_run_def Let_def persist_def split: prod.splits)

lemma core_restart:
  assumes c: "core_inv m"
  shows "core_inv (steps_recover io (restarted m))"
proof -
  have n: "names_ok (restarted m)" using core_names [OF c] by (simp add: names_ok_def restarted_def)
  then have "names_ok (steps_recover io (restarted m))" unfolding steps_recover_def by (rule recover_fold_names)
  moreover have "no_secrets (d_start (get_dir (steps_recover io (restarted m)) rid))" for rid
    using recover_fold_dir [of io "sm_disk m" "restarted m" rid] core_dir [OF c] by (simp add: steps_recover_def)
  moreover have "run_fine g" if g: "get_run (steps_recover io (restarted m)) rid = Some g" for rid g
  proof -
    obtain d where d: "al_get (sm_disk m) rid = Some d" "g = recovered_run rid d"
      using g steps_recover_get [OF core_names [OF c]] by auto
    then show ?thesis using core_dir [OF c, of rid] by (simp add: get_dir_def recovered_fine)
  qed
  ultimately show ?thesis by (simp add: core_inv_def worker_live_def steps_recover_def recover_workers)
qed

section \<open>The log\<close>

definition logs :: "step_lib \<Rightarrow> manager \<Rightarrow> bool" where
  "logs lib m \<longleftrightarrow> (\<forall>rid. \<exists>evs. run_log_ok lib m rid evs)"

lemma logs_keep: "keeps_log m m' \<Longrightarrow> logs lib m \<Longrightarrow> logs lib m'"
  using keeps_log_ok by (fastforce simp: logs_def)

lemma logs_emit:
  assumes l: "logs lib m" and e: "emit_ok lib io m rid kind payload"
  shows "logs lib (run_emit lib io rid kind payload m)"
proof (cases "get_run m rid")
  case (Some g)
  show ?thesis unfolding logs_def
  proof
    fix r
    obtain evs where evs: "run_log_ok lib m r evs" using l by (auto simp: logs_def)
    show "\<exists>evs. run_log_ok lib (run_emit lib io rid kind payload m) r evs"
    proof (cases "r = rid")
      case True
      then show ?thesis using run_emit_log [OF Some e] evs by blast
    next
      case False
      from run_emit_other [OF this, of lib io kind payload m] evs show ?thesis
        by (auto simp: run_log_ok_def seq_of_def)
    qed
  qed
qed (use l in \<open>simp add: run_emit_def\<close>)

lemma event_of_cong:
  "ri_secrets g' = ri_secrets g \<Longrightarrow> ri_seq g' = ri_seq g \<Longrightarrow>
     event_of lib io rid g' kind payload = event_of lib io rid g kind payload"
  by (simp add: event_of_def)

lemma keeps_log_finalize:
  assumes g: "get_run m rid = Some g0"
  shows "keeps_log (run_emit lib io rid kind_SYSTEM (finished_payload (final_result lib io g0 fin0)) m)
    (finalize lib io rid fin0 m)"
proof -
  define fin where "fin = final_result lib io g0 fin0"
  define m1 where "m1 = run_emit lib io rid kind_SYSTEM (finished_payload fin) m"
  obtain g where g1: "get_run m1 rid = Some g" unfolding m1_def using run_emit_run [OF g] by metis
  define e where "e = end_run g fin"
  have es: "ri_seq e = seq_of m1 rid" using g1 by (simp add: e_def end_run_def seq_of_def Let_def)
  define m2 where "m2 = persist io rid e (write_finished io rid fin m1)"
  obtain kept m3 where s: "send_all lib (C_StepFinished fin) (ri_subs e) m2 = (kept, m3)" by fastforce
  have "keeps_log m1 m2" unfolding m2_def by (rule keeps_log_trans [OF keeps_log_files(3) keeps_log_files(1)])
  then have k3: "keeps_log m1 m3" using keeps_log_sends [OF sends_only_send_all [OF s]] keeps_log_trans by blast
  then have "keeps_log m3 (put_run rid (e\<lparr>ri_finished := Some fin, ri_subs := kept\<rparr>) m3)"
    using es by (intro keeps_log_put_run) (simp add: keeps_log_def)
  then have "keeps_log m1 (put_run rid (e\<lparr>ri_finished := Some fin, ri_subs := kept\<rparr>) m3)"
    using k3 keeps_log_trans by blast
  moreover have "keeps_log m1 (persist io rid e (put_run rid e m1))" using es by (rule keeps_log_persist_run)
  ultimately show ?thesis
    using g g1 s
    by (auto simp: finalize_def Let_def fin_def [symmetric] m1_def [symmetric] e_def [symmetric] m2_def [symmetric])
qed

lemma logs_finalize:
  assumes l: "logs lib m"
    and e: "\<And>g. get_run m rid = Some g \<Longrightarrow>
      emit_ok lib io m rid kind_SYSTEM (finished_payload (final_result lib io g fin))"
  shows "logs lib (finalize lib io rid fin m)"
proof (cases "get_run m rid")
  case (Some g)
  from logs_keep [OF keeps_log_finalize [OF Some] logs_emit [OF l e [OF Some]]] show ?thesis .
qed (use l in \<open>simp add: finalize_def\<close>)

lemma logs_sink_event:
  assumes l: "logs lib m" and e: "emit_ok lib io m rid kind payload"
  shows "logs lib (sink_event lib io rid kind payload m)"
proof (cases "valid_step_id rid")
  case True
  define m1 where "m1 = (case get_run m rid of None \<Rightarrow> put_run rid run_new m | Some _ \<Rightarrow> m)"
  have k1: "keeps_log m m1" "get_run m1 rid = Some (the_run m rid)"
    by (auto simp: m1_def the_run_def seq_of_def run_new_def split: option.splits intro!: keeps_log_put_run)
  define m2 where "m2 = (case get_run m1 rid of
      Some g \<Rightarrow> if ri_phase g \<noteq> Phase_Running
        then let g1 = g\<lparr>ri_phase := Phase_Running\<rparr> in persist io rid g1 (put_run rid g1 m1) else m1
    | None \<Rightarrow> m1)"
  have k2: "keeps_log m1 m2"
    using k1(2) by (auto simp: m2_def Let_def seq_of_def intro!: keeps_log_persist_run)
  have "ri_secrets (the_run m2 rid) = ri_secrets (the_run m rid) \<and> ri_seq (the_run m2 rid) = ri_seq (the_run m rid)"
    using k1(2) by (simp add: m2_def Let_def the_run_def)
  then have "event_of lib io rid (the_run m2 rid) kind payload = event_of lib io rid (the_run m rid) kind payload"
    by (intro event_of_cong) auto
  moreover have "seq_of m2 rid = seq_of m rid" using k1(1) k2 by (simp add: keeps_log_def)
  ultimately have "emit_ok lib io m2 rid kind payload" using e by (simp add: emit_ok_def)
  then have "logs lib (run_emit lib io rid kind payload m2)"
    using logs_keep [OF keeps_log_trans [OF k1(1) k2] l] by (rule logs_emit [rotated])
  then show ?thesis using True by (simp add: sink_event_def Let_def m1_def [symmetric] m2_def [symmetric])
qed (use l in \<open>simp add: sink_event_def\<close>)

section \<open>Transitions\<close>

text \<open>
  The executor and what is around it: a session appears or changes; a handler runs; a running worker does something to
  its run or ends; a chat reports an event of a run that is not a step's; the sandbox restarts at any moment. An
  event goes into the log whole, and serde prints it to one line that reads back.
\<close>

inductive sm_step :: "step_lib \<Rightarrow> manager \<Rightarrow> manager \<Rightarrow> bool" for lib where
  St_Session: "sm_step lib m (put_sess sid s m)"
| St_Start: "sm_step lib m (steps_start lib io sid st m)"
| St_Status: "sm_step lib m (steps_status lib io sid rid a m)"
| St_Steer: "emit_ok lib io m rid kind_STEER (jobj [(''text'', JStr t)]) \<Longrightarrow> sm_step lib m (steps_steer lib io sid rid t m)"
| St_Stop: "sm_step lib m (steps_stop lib sid rid m)"
| St_Resume: "sm_step lib m (steps_resume lib io sid rid m)"
| St_Closed: "sm_step lib m (session_closed sid m)"
| St_Interrupt: "sm_step lib m (interrupt_all m)"
| St_Emit: "worker_live m w \<Longrightarrow> rid = wk_run (sm_workers m ! w) \<Longrightarrow> emit_ok lib io m rid kind payload \<Longrightarrow>
    sm_step lib m (run_emit lib io rid kind payload m)"
| St_Evidence: "worker_live m w \<Longrightarrow> sm_step lib m (work_evidence ev (wk_run (sm_workers m ! w)) m)"
| St_Secret: "worker_live m w \<Longrightarrow> sm_step lib m (work_secret lib t (wk_run (sm_workers m ! w)) m)"
| St_Leases: "worker_live m w \<Longrightarrow> sm_step lib m (work_leases io ls (wk_run (sm_workers m ! w)) m)"
| St_Acp: "worker_live m w \<Longrightarrow> sm_step lib m (work_session io acp (wk_run (sm_workers m ! w)) m)"
| St_Done: "worker_live m w \<Longrightarrow> rid = wk_run (sm_workers m ! w) \<Longrightarrow>
    emit_ok lib io m rid kind_SYSTEM (finished_payload (final_result lib io (the_run m rid) fin)) \<Longrightarrow>
    sm_step lib m (work_done lib io w fin m)"
| St_Sink_Event: "idle m rid \<Longrightarrow> emit_ok lib io m rid kind payload \<Longrightarrow> sm_step lib m (sink_event lib io rid kind payload m)"
| St_Sink_Ended: "idle m rid \<Longrightarrow> sm_step lib m (sink_ended io rid m)"
| St_Restart: "sm_step lib m (steps_recover io (restarted m))"

definition manager_new :: manager where
  "manager_new = \<lparr>sm_runs = [], sm_disk = [], sm_sessions = [], sm_workers = [], sm_shutting_down = False\<rparr>"

inductive sm_reach :: "step_lib \<Rightarrow> manager \<Rightarrow> bool" for lib where
  Reach_New: "sm_reach lib manager_new"
| Reach_Step: "sm_reach lib m \<Longrightarrow> sm_step lib m m' \<Longrightarrow> sm_reach lib m'"

lemma core_new: "core_inv manager_new"
  by (simp add: core_inv_def manager_new_def names_ok_def worker_live_def get_dir_def get_run_def al_get_def
      no_secrets_def empty_dir_def)

lemma core_step: "sm_step lib m m' \<Longrightarrow> core_inv m \<Longrightarrow> core_inv m'"
proof (induction rule: sm_step.induct)
  case (St_Session m sid s)
  then show ?case using core_sends [of m "put_sess sid s m"] by simp
qed (simp_all add: core_start core_status core_steer core_stop core_resume core_closed core_interrupt core_run_emit
    core_work core_work_done core_sink_event core_sink_ended core_restart)

lemma core_reach: "sm_reach lib m \<Longrightarrow> core_inv m"
  by (induction rule: sm_reach.induct) (auto simp: core_new core_step)

lemma get_run_update_worker [simp]: "get_run (update_worker w f m) = get_run m"
  by (simp add: update_worker_def)

lemma the_run_update_worker [simp]: "the_run (update_worker w f m) = the_run m" "seq_of (update_worker w f m) = seq_of m"
  by (simp_all add: the_run_def seq_of_def fun_eq_iff)

lemma emit_ok_update_worker [simp]: "emit_ok lib io (update_worker w f m) = emit_ok lib io m"
  by (simp add: emit_ok_def fun_eq_iff)

lemma logs_step: "sm_step lib m m' \<Longrightarrow> core_inv m \<Longrightarrow> logs lib m \<Longrightarrow> logs lib m'"
proof (induction rule: sm_step.induct)
  case (St_Session m sid s)
  show ?case by (rule logs_keep [OF keeps_log_sends St_Session(2)]) simp
next
  case (St_Steer io m rid t sid)
  have "logs lib (update_worker w f m)" for w f by (rule logs_keep [OF keeps_log_update_worker St_Steer(3)])
  then have "logs lib (run_emit lib io rid kind_STEER (jobj [(''text'', JStr t)]) (update_worker w f m))" for w f
    using St_Steer(1) by (intro logs_emit) simp_all
  then show ?case
    using logs_keep [OF keeps_log_replies(1) St_Steer(3)] by (simp add: steps_steer_def split: option.splits)
next
  case (St_Done m w rid io fin)
  have "logs lib (update_worker w (\<lambda>k. k\<lparr>wk_live := False\<rparr>) m)"
    by (rule logs_keep [OF keeps_log_update_worker St_Done(5)])
  then show ?case
    unfolding work_done_def St_Done(2) [symmetric] using St_Done(3) by (intro logs_finalize) (simp_all add: the_run_def)
next
  case (St_Restart m io)
  then show ?case using recover_log [OF core_names [OF St_Restart(1)]] by (fastforce simp: logs_def)
qed (auto simp: work_evidence_def work_secret_def work_leases_def work_session_def sink_ended_def
    intro: logs_emit logs_sink_event logs_keep [OF keeps_log_start] logs_keep [OF keeps_log_status]
    logs_keep [OF keeps_log_stop] logs_keep [OF keeps_log_resume] logs_keep [OF keeps_log_closed]
    logs_keep [OF keeps_log_interrupt] logs_keep [OF keeps_log_work_run] logs_keep [OF keeps_log_work_persist])

lemma logs_new: "logs lib manager_new"
proof -
  have "run_log_ok lib manager_new rid []" for rid
    by (simp add: run_log_ok_def dense_def log_text_def seq_of_def manager_new_def get_run_def get_dir_def al_get_def empty_dir_def)
  then show ?thesis by (auto simp: logs_def)
qed

lemma logs_reach: "sm_reach lib m \<Longrightarrow> logs lib m"
  by (induction rule: sm_reach.induct) (auto simp: logs_new core_reach intro: logs_step)

section \<open>Properties of the executor\<close>


lemma sample_reach: "sm_reach lib (put_sess 7 (sess_start Role_Server 1 [] None []) manager_new)"
  by (rule Reach_Step [OF Reach_New St_Session])



lemma launch_workers:
  "get_run m rid = Some g \<Longrightarrow>
     sm_workers (launch lib io rid st resume m) = sm_workers m @
       [\<lparr>wk_run = rid, wk_start = st, wk_resume = resume, wk_steer = [], wk_stop = False, wk_live = True\<rparr>]"
  by (simp add: launch_def Let_def persist_def remove_finished_def)

lemma reply_accept_gets [simp]:
  "get_run (reply_accept lib sid rid ph ex m) = get_run m"
  "sm_workers (reply_accept lib sid rid ph ex m) = sm_workers m"
  "get_run (reply_error lib sid rid code msg m) = get_run m"
  "sm_workers (reply_error lib sid rid code msg m) = sm_workers m"
  using sends_only_get [OF sends_only_replies(2)] sends_only_replies(2) sends_only_get [OF sends_only_replies(1)]
    sends_only_replies(1) by (auto simp: sends_only_def)

lemma register_workers [simp]: "sm_workers (register io rid st sid m) = sm_workers m"
  by (simp add: register_def Let_def persist_def write_start_def)

lemma register_run: "get_run (register io rid st sid m) rid \<noteq> None"
  by (simp add: register_def Let_def)

lemma act_none_workers:
  "sm_workers (start_act lib io sid st Seen_None m) = sm_workers m @
     [\<lparr>wk_run = ss_run_id st, wk_start = st, wk_resume = False, wk_steer = [], wk_stop = False, wk_live = True\<rparr>]"
proof -
  obtain g where "get_run (register io (ss_run_id st) st sid m) (ss_run_id st) = Some g" using register_run by fastforce
  then show ?thesis by (simp add: launch_workers)
qed

text \<open>
  Two sessions that send the same \<^verbatim>\<open>step_start\<close> at the same time, so that both look the run up before
  either has registered it, launch two workers for one run.
\<close>

theorem start_race:
  assumes "validate_start (sl_dbg lib) st = Inr ()" "get_run m (ss_run_id st) = None"
  shows "let seen = start_look lib st m; n = length (sm_workers m);
             m' = start_act lib io' sid' st seen (start_act lib io sid st seen m)
         in worker_live m' n \<and> worker_live m' (Suc n)
            \<and> wk_run (sm_workers m' ! n) = ss_run_id st \<and> wk_run (sm_workers m' ! Suc n) = ss_run_id st"
proof -
  have "start_look lib st m = Seen_None" using assms by (simp add: start_look_def)
  then show ?thesis
    by (simp add: Let_def worker_live_def act_none_workers nth_append del: start_act.simps)
qed

theorem start_race_witness:
  "let l = sample_lib (sample_event 1) (sample_event 2); seen = start_look l sample_step manager_new;
       m = start_act l sample_io 8 sample_step seen (start_act l sample_io 7 sample_step seen manager_new)
   in worker_live m 0 \<and> worker_live m 1 \<and> wk_run (sm_workers m ! 0) = wk_run (sm_workers m ! 1)"
proof -
  let ?l = "sample_lib (sample_event 1) (sample_event 2)"
  have v: "validate_start (sl_dbg ?l) sample_step = Inr ()" unfolding sample_lib_def by code_simp
  have "get_run manager_new (ss_run_id sample_step) = None" by (simp add: get_run_def manager_new_def al_get_def)
  from start_race [OF v this, of sample_io 8 sample_io 7] show ?thesis by (simp add: Let_def manager_new_def del: start_act.simps)
qed

text \<open>
  C12: after a restart of the sandbox, a step that was running or interrupted and whose definition is on disk is
  interrupted; \<^verbatim>\<open>step_resume\<close> starts nothing, as the secrets are gone, and \<^verbatim>\<open>step_start\<close> with the same id resumes it,
  in the same agent session and with the same push leases.
\<close>

theorem restart_resumes:
  assumes n: "names_ok m" and d: "al_get (sm_disk m) (ss_run_id st) = Some d"
    and s: "d_start d = Some s0" "d_state d = Some p" "pe_phase p = Phase_Running \<or> pe_phase p = Phase_Interrupted"
    and v: "validate_start (sl_dbg lib) st = Inr ()"
  shows "let m1 = steps_recover io (restarted m); m2 = steps_start lib io' sid st m1
    in map_option ri_phase (get_run m1 (ss_run_id st)) = Some Phase_Interrupted
     \<and> sm_workers (steps_resume lib io' sid (ss_run_id st) m1) = []
     \<and> sm_workers m2 = [\<lparr>wk_run = ss_run_id st, wk_start = st, wk_resume = True, wk_steer = [], wk_stop = False, wk_live = True\<rparr>]
     \<and> map_option ri_acp_session (get_run m2 (ss_run_id st)) = Some (pe_acp_session_id p)
     \<and> map_option ri_leases (get_run m2 (ss_run_id st)) = Some (pe_leases p)"
proof -
  let ?rid = "ss_run_id st" and ?m1 = "steps_recover io (restarted m)"
  define g where "g = recovered_run ?rid d"
  have g: "get_run ?m1 ?rid = Some g" using steps_recover_get [OF n] d by (simp add: g_def)
  have gf: "ri_phase g = Phase_Interrupted" "ri_start g = None" "ri_acp_session g = pe_acp_session_id p"
    "ri_leases g = pe_leases p"
    using s by (auto simp: g_def recovered_run_def loaded_run_def run_new_def Let_def)
  have w: "sm_workers ?m1 = []" by (simp add: steps_recover_def recover_workers)
  have look: "start_look lib st ?m1 = Seen_Run Phase_Interrupted True"
    using v g gf by (simp add: start_look_def resumable_def)
  define m3 where "m3 = reply_accept lib sid ?rid Phase_Running True (set_phase ?rid Phase_Running ?m1)"
  have m3: "get_run m3 ?rid = Some (g\<lparr>ri_phase := Phase_Running\<rparr>)" "sm_workers m3 = []"
    using g w by (simp_all add: m3_def set_phase_def)
  have m2: "steps_start lib io' sid st ?m1 = launch lib io' ?rid st True m3"
    using look by (simp add: steps_start_def m3_def)
  have "sm_workers (steps_start lib io' sid st ?m1)
      = [\<lparr>wk_run = ?rid, wk_start = st, wk_resume = True, wk_steer = [], wk_stop = False, wk_live = True\<rparr>]"
    unfolding m2 launch_workers [OF m3(1)] m3(2) by simp
  moreover have "map_option ri_acp_session (get_run (steps_start lib io' sid st ?m1) ?rid) = Some (pe_acp_session_id p)"
    "map_option ri_leases (get_run (steps_start lib io' sid st ?m1) ?rid) = Some (pe_leases p)"
    unfolding m2 using m3(1) gf by (simp_all add: launch_def Let_def)
  moreover have "sm_workers (steps_resume lib io' sid ?rid ?m1) = []" using g gf w by (simp add: steps_resume_def)
  ultimately show ?thesis using g gf by (simp add: Let_def)
qed

lemma run_emit_lost:
  assumes g: "get_run m rid = Some g" and io: "io_append io = Some 0"
  shows "d_events (get_dir (run_emit lib io rid kind payload m) rid) = d_events (get_dir m rid)"
proof -
  let ?ev = "event_of lib io rid g kind payload"
  define m1 where "m1 = (case sl_line lib ?ev of
         Some line \<Rightarrow> if ri_log g \<or> io_open_log io then append_log io rid line m else m | None \<Rightarrow> m)"
  obtain kept m2 where s: "send_all lib (C_SessionEvent ?ev) (ri_subs g) m1 = (kept, m2)" by fastforce
  have "d_events (get_dir m1 rid) = d_events (get_dir m rid)"
    using io by (auto simp: m1_def append_log_def Let_def split: option.splits)
  then show ?thesis
    using run_emit_eq [OF g, of lib io kind payload kept m2] s sends_only_get [OF sends_only_send_all [OF s]]
    by (simp add: m1_def)
qed

text \<open>
  C15: an event whose line could not be written, as the disk is full, and a restart: the next event gets the number of
  the lost one, so that a client that saw the lost event takes the next one for it.
\<close>

theorem lost_line_reuses_number:
  assumes g: "get_run m rid = Some g" and c: "core_inv m" and l: "run_log_ok lib m rid evs"
    and io: "io_append io = Some 0"
  shows "sv_seq (event_of lib io3 rid (the_run (steps_recover io2 (restarted (run_emit lib io rid kind payload m))) rid)
             kind2 payload2)
         = sv_seq (event_of lib io rid g kind payload)"
proof -
  let ?m1 = "run_emit lib io rid kind payload m"
  let ?m2 = "steps_recover io2 (restarted ?m1)"
  have "dense lib rid evs" "d_events (get_dir ?m1 rid) = log_text lib evs"
    using l run_emit_lost [OF g io] by (simp_all add: run_log_ok_def)
  then have "seq_of ?m2 rid = of_nat (length evs)" by (rule recover_seq [OF core_names [OF core_run_emit [OF c]]])
  moreover have "ri_seq (the_run ?m2 rid) = seq_of ?m2 rid"
    by (simp add: the_run_def seq_of_def run_new_def split: option.splits)
  ultimately show ?thesis using l g by (simp add: run_log_ok_def seq_of_def)
qed


definition sample_disk :: manager where
  "sample_disk = manager_new\<lparr>sm_disk := [(''run-1'', empty_dir\<lparr>d_start := Some (blank_start sample_step),
     d_state := Some \<lparr>pe_phase = Phase_Running, pe_acp_session_id = Some ''acp-1'', pe_leases = [None]\<rparr>\<rparr>)]\<rparr>"

lemma sample_disk_names: "names_ok sample_disk"
proof -
  have "valid_step_id ''run-1''" by code_simp
  then show ?thesis by (simp add: names_ok_def sample_disk_def manager_new_def)
qed

theorem restart_resumes_witness:
  "let l = sample_lib (sample_event 1) (sample_event 2);
       m = steps_start l sample_io 7 sample_step (steps_recover sample_io (restarted sample_disk))
   in map wk_resume (sm_workers m) = [True] \<and> map_option ri_acp_session (get_run m ''run-1'') = Some (Some ''acp-1'')"
proof -
  let ?l = "sample_lib (sample_event 1) (sample_event 2)"
  have rid: "ss_run_id sample_step = ''run-1''" by (simp add: sample_step_def)
  have v: "validate_start (sl_dbg ?l) sample_step = Inr ()" unfolding sample_lib_def by code_simp
  obtain d where d: "al_get (sm_disk sample_disk) (ss_run_id sample_step) = Some d"
    "d_start d = Some (blank_start sample_step)"
    "d_state d = Some \<lparr>pe_phase = Phase_Running, pe_acp_session_id = Some ''acp-1'', pe_leases = [None]\<rparr>"
    by (simp add: rid sample_disk_def al_get_def)
  show ?thesis
    using restart_resumes [OF sample_disk_names d _ v, of sample_io sample_io 7] rid by (simp add: Let_def)
qed

definition full_disk :: io where
  "full_disk = sample_io\<lparr>io_append := Some 0\<rparr>"

definition sample_core :: manager where
  "sample_core = manager_new\<lparr>sm_runs := [(''r'', run_new)]\<rparr>"

theorem lost_line_reuses_number_witness:
  "let l = sample_lib (sample_event 1) (sample_event 2);
       m = steps_recover sample_io (restarted (run_emit l full_disk ''r'' ''stdout'' JNull sample_core))
   in sv_seq (event_of l sample_io ''r'' (the_run m ''r'') ''stdout'' (JStr ''x'')) = 1"
proof -
  let ?l = "sample_lib (sample_event 1) (sample_event 2)"
  have g: "get_run sample_core ''r'' = Some run_new" by (simp add: sample_core_def get_run_def al_get_def)
  have "valid_step_id ''r''" by code_simp
  then have c: "core_inv sample_core"
    by (auto simp: core_inv_def sample_core_def manager_new_def names_ok_def worker_live_def get_dir_def get_run_def
        al_get_def no_secrets_def empty_dir_def run_fine_def run_new_def split: if_splits)
  have "seq_of sample_core ''r'' = 0" unfolding seq_of_def g by (simp add: run_new_def)
  moreover have "d_events (get_dir sample_core ''r'') = []"
    by (simp add: get_dir_def sample_core_def manager_new_def al_get_def empty_dir_def)
  ultimately have l: "run_log_ok ?l sample_core ''r'' []" by (simp add: run_log_ok_def dense_def log_text_def)
  have io: "io_append full_disk = Some 0" by (simp add: full_disk_def)
  show ?thesis
    using lost_line_reuses_number [OF g c l io, of sample_io sample_io "''stdout''" JNull "''stdout''" "JStr ''x''"]
    by (simp add: Let_def run_new_def)
qed



text \<open>
  The result of a step is cut to size: the loop ends, and what is left fits or has neither outputs nor a result;
  the exit, the git facts, the usage and the environment stay, no output is added, and a result that fits is not touched.
\<close>

theorem fit_fits:
  "(sl_fin_size lib (fit lib fin) \<le> MAX_FINISHED \<or> sf_outputs (fit lib fin) = [] \<and> sf_result (fit lib fin) = None)
   \<and> set (sf_outputs (fit lib fin)) \<subseteq> set (sf_outputs fin)
   \<and> sf_exit (fit lib fin) = sf_exit fin \<and> sf_git (fit lib fin) = sf_git fin \<and> sf_usage (fit lib fin) = sf_usage fin
   \<and> sf_environment (fit lib fin) = sf_environment fin
   \<and> (sl_fin_size lib fin \<le> MAX_FINISHED \<longrightarrow> fit lib fin = fin)"
proof (induction lib fin rule: fit.induct)
  case (1 lib fin)
  show ?case
  proof (cases "sl_fin_size lib fin \<le> MAX_FINISHED")
    case big: False
    show ?thesis
    proof (cases "biggest (\<lambda>v. length (sl_show lib v)) (sf_outputs fin)")
      case None
      then have "sf_outputs fin = []" by (cases "sf_outputs fin") (auto split: option.splits if_splits)
      then show ?thesis using big None by (simp add: fit.simps [of lib fin])
    next
      case (Some k)
      then show ?thesis using big 1 [OF big Some]
        by (subst (1 2 3 4 5 6 7 8 9) fit.simps) (auto simp: al_remove_def)
    qed
  qed (simp add: fit.simps [of lib fin])
qed

definition fit_lib :: step_lib where
  "fit_lib = (sample_lib (sample_event 0) (sample_event 1))\<lparr>sl_fin_size := \<lambda>f. length (sf_outputs f) * 1000 * 1024\<rparr>"

definition small_fin :: step_finished where
  "small_fin =
     \<lparr>sf_run_id = ''r'', sf_exit = exit_SUCCESS, sf_outputs = [], sf_result = None, sf_git = [], sf_usage = None,
      sf_environment = None, sf_error = None\<rparr>"

theorem fit_fits_witness:
  "fit fit_lib small_fin = small_fin
   \<and> sf_outputs (fit fit_lib (small_fin\<lparr>sf_outputs := [(''out'', JNull)]\<rparr>)) = []"
proof (rule conjI)
  show "fit fit_lib small_fin = small_fin"
    using fit_fits [of fit_lib small_fin] by (simp add: fit_lib_def small_fin_def)
  show "sf_outputs (fit fit_lib (small_fin\<lparr>sf_outputs := [(''out'', JNull)]\<rparr>)) = []"
    by (simp add: fit.simps fit_lib_def small_fin_def MAX_FINISHED_def al_remove_def)
qed

lemma send_to_none:
  assumes "wire_bytes lib msg = None" "send_to lib sid msg m = (ok, m')"
  shows "\<not> ok \<and> al_get (sm_sessions m') = al_get (sm_sessions m)"
proof (cases "al_get (sm_sessions m) sid")
  case (Some s)
  have "\<exists>e. send_ctrl (sl_ser lib) s msg = (Inl e, s)"
    using assms(1) by (auto simp: wire_bytes_def send_ctrl_def send_frame_def split: sum.splits)
  then show ?thesis using assms(2) Some by (auto simp: send_to_def put_sess_def fun_eq_iff)
qed (use assms in \<open>simp add: send_to_def\<close>)

lemma send_all_none:
  "wire_bytes lib msg = None \<Longrightarrow> send_all lib msg sids m = (kept, m') \<Longrightarrow>
     kept = [] \<and> al_get (sm_sessions m') = al_get (sm_sessions m)"
proof (induction sids arbitrary: m kept m')
  case (Cons x sids)
  obtain ok m1 where s: "send_to lib x msg m = (ok, m1)" by fastforce
  obtain kept1 m2 where a: "send_all lib msg sids m1 = (kept1, m2)" by fastforce
  from send_to_none [OF Cons.prems(1) s] Cons.IH [OF Cons.prems(1) a] Cons.prems(2) a s show ?case by auto
qed simp

text \<open>
  An event whose printed payload is as long as the limit allows, and so is not cut, does not fit a frame with its
  envelope around it: nobody receives it, and every subscriber of the run is dropped without a word.
\<close>

theorem full_event_drops_subscribers:
  assumes g: "get_run m rid = Some g"
    and len: "length (sl_show lib (redact_value (ri_secrets g) payload)) = MAX_EVENT_PAYLOAD"
    and ser: "sl_ser lib (C_SessionEvent (event_of lib io rid g kind payload)) = Inr v"
      "length (sl_show lib (sv_payload (event_of lib io rid g kind payload))) < length v"
  shows "\<not> sv_truncated (event_of lib io rid g kind payload)
    \<and> map_option ri_subs (get_run (run_emit lib io rid kind payload m) rid) = Some []
    \<and> al_get (sm_sessions (run_emit lib io rid kind payload m)) sid = al_get (sm_sessions m) sid"
proof -
  let ?ev = "event_of lib io rid g kind payload"
  have ev: "\<not> sv_truncated ?ev" "sv_payload ?ev = redact_value (ri_secrets g) payload"
    using len by (simp_all add: event_of_def cap_payload_def)
  then have "MAX_PAYLOAD_LEN < length v" using ser(2) len by (simp add: MAX_EVENT_PAYLOAD_def MAX_PAYLOAD_LEN_def)
  then have w: "wire_bytes lib (C_SessionEvent ?ev) = None"
    using wire_iff [of lib "C_SessionEvent ?ev"] ser(1) by simp
  define m1 where "m1 = (case sl_line lib ?ev of
         Some line \<Rightarrow> if ri_log g \<or> io_open_log io then append_log io rid line m else m | None \<Rightarrow> m)"
  obtain kept m2 where s: "send_all lib (C_SessionEvent ?ev) (ri_subs g) m1 = (kept, m2)" by fastforce
  have "sm_sessions m1 = sm_sessions m" by (auto simp: m1_def append_log_def Let_def split: option.splits)
  then show ?thesis
    using ev run_emit_eq [OF g, of lib io kind payload kept m2] s send_all_none [OF w s] by (simp add: m1_def)
qed

definition wide_lib :: step_lib where
  "wide_lib = (sample_lib (sample_event 1) (sample_event 2))
     \<lparr>sl_show := (\<lambda>_. replicate MAX_EVENT_PAYLOAD (CHR ''x'')), sl_ser := (\<lambda>_. Inr (replicate (Suc MAX_EVENT_PAYLOAD) 0))\<rparr>"

theorem full_event_drops_subscribers_witness:
  "map_option ri_subs (get_run (run_emit wide_lib sample_io ''r'' ''stdout'' JNull
     (put_run ''r'' (run_new\<lparr>ri_subs := [7, 8]\<rparr>) manager_new)) ''r'') = Some []"
proof -
  have "get_run (put_run ''r'' (run_new\<lparr>ri_subs := [7, 8]\<rparr>) manager_new) ''r'' = Some (run_new\<lparr>ri_subs := [7, 8]\<rparr>)" by simp
  from full_event_drops_subscribers [OF this, of wide_lib JNull sample_io "''stdout''" "replicate (Suc MAX_EVENT_PAYLOAD) 0"]
  show ?thesis by (simp add: wide_lib_def)
qed

end
