(* ===== verification/Prune.thy ===== *)
theory Prune
  imports Step_Runs "HOL-Library.AList"
begin

text \<open>
  Freeing space in the workspace: \<^verbatim>\<open>sandbox-container/src/workspace_prune.rs\<close>, with the free-space check of
  \<^verbatim>\<open>docker_prune.rs\<close>. The workspace is a tree of directories, files and symbolic links; a path is the list of the
  names below the workspace; where the list of a directory repeats a name, its first entry counts. Git, links that lead out of the tree, flocks, and whether a rename or a removal succeeds are
  arguments (\<open>prune_env\<close>), as is the step registry, which other tasks change between two queries: the world counts
  the queries. What a removal that fails leaves behind is an argument too (\<open>pv_left\<close>). Looking a name up fails only when
  it is absent; times of directories are not updated, and no other process writes below the workspace during a pass.
\<close>

section \<open>The tree\<close>

record meta =
  mt_time :: nat
  mt_dev :: nat
  mt_readable :: bool

datatype fs_node = Dir meta "(string \<times> fs_node) list" | Plain meta string | Link meta string

fun node_meta :: "fs_node \<Rightarrow> meta" where
  "node_meta (Dir m es) = m"
| "node_meta (Plain m c) = m"
| "node_meta (Link m t) = m"

fun is_dir :: "fs_node \<Rightarrow> bool" where
  "is_dir (Dir m es) = True"
| "is_dir n = False"

fun is_plain :: "fs_node \<Rightarrow> bool" where
  "is_plain (Plain m c) = True"
| "is_plain n = False"

fun is_link :: "fs_node \<Rightarrow> bool" where
  "is_link (Link m t) = True"
| "is_link n = False"

type_synonym path = "string list"

fun lookup :: "fs_node \<Rightarrow> path \<Rightarrow> fs_node option" where
  "lookup n [] = Some n"
| "lookup (Dir m es) (x # xs) = (case map_of es x of None \<Rightarrow> None | Some c \<Rightarrow> lookup c xs)"
| "lookup n (x # xs) = None"

text \<open>\<^verbatim>\<open>read_dir(p).into_iter().flatten().flatten()\<close>: the entries, none when the directory cannot be read.\<close>

fun node_entries :: "fs_node \<Rightarrow> (string \<times> fs_node) list" where
  "node_entries (Dir m es) = (if mt_readable m then AList.clearjunk es else [])"
| "node_entries n = []"

definition entries :: "fs_node \<Rightarrow> path \<Rightarrow> (string \<times> fs_node) list" where
  "entries t p = (case lookup t p of None \<Rightarrow> [] | Some n \<Rightarrow> node_entries n)"

fun remove_at :: "fs_node \<Rightarrow> path \<Rightarrow> fs_node" where
  "remove_at (Dir m es) [x] = Dir m (filter (\<lambda>e. fst e \<noteq> x) es)"
| "remove_at (Dir m es) (x # y # ys) =
     Dir m (map (\<lambda>(k, c). (k, if k = x then remove_at c (y # ys) else c)) es)"
| "remove_at n p = n"

fun rename_at :: "fs_node \<Rightarrow> path \<Rightarrow> string \<Rightarrow> fs_node" where
  "rename_at (Dir m es) [x] to = Dir m (map (\<lambda>(k, c). (if k = x then to else k, c)) es)"
| "rename_at (Dir m es) (x # y # ys) to =
     Dir m (map (\<lambda>(k, c). (k, if k = x then rename_at c (y # ys) to else c)) es)"
| "rename_at n p to = n"

fun alter_at :: "fs_node \<Rightarrow> path \<Rightarrow> (fs_node \<Rightarrow> fs_node) \<Rightarrow> fs_node" where
  "alter_at n [] f = f n"
| "alter_at (Dir m es) (x # xs) f =
     Dir m (map (\<lambda>(k, c). (k, if k = x then alter_at c xs f else c)) es)"
| "alter_at n (x # xs) f = n"

section \<open>The world\<close>

record prune_env =
  pv_low :: "nat \<Rightarrow> fs_node \<Rightarrow> bool"
  pv_stopped :: "nat \<Rightarrow> bool"
  pv_busy :: "nat \<Rightarrow> string list"
  pv_protected :: "nat \<Rightarrow> string list"
  pv_busy_repos :: "nat \<Rightarrow> path list"
  pv_follow :: "path \<Rightarrow> string option"
  pv_tracked :: "path \<Rightarrow> bool"
  pv_unpushed :: "path \<Rightarrow> string + string"
  pv_status :: "path \<Rightarrow> string + string"
  pv_realpath :: "path \<Rightarrow> string + unit"
  pv_into :: "string \<Rightarrow> string \<Rightarrow> path \<Rightarrow> bool"
  pv_flock :: "path \<Rightarrow> bool"
  pv_rename :: "path \<Rightarrow> bool"
  pv_remove :: "path \<Rightarrow> bool"
  pv_left :: "path \<Rightarrow> fs_node \<Rightarrow> fs_node"
  pv_pid :: nat

record prune_world =
  pw_fs :: fs_node
  pw_seq :: nat
  pw_tick :: nat

definition tick :: "prune_world \<Rightarrow> prune_world" where
  "tick w = w\<lparr>pw_tick := Suc (pw_tick w)\<rparr>"

text \<open>\<^verbatim>\<open>stopped() || !low()\<close>.\<close>

definition halted :: "prune_env \<Rightarrow> prune_world \<Rightarrow> bool" where
  "halted env w \<longleftrightarrow> pv_stopped env (pw_tick w) \<or> \<not> pv_low env (pw_tick w) (pw_fs w)"

definition MAX_DEPTH :: nat where "MAX_DEPTH = 5"
definition TAG :: string where "TAG = ''CACHEDIR.TAG''"
definition SIGNATURE :: string where "SIGNATURE = ''Signature: 8a477f597d28d172789f06886806bc55''"
definition ASIDE :: string where "ASIDE = ''.enzarb-prune-''"
definition REPO_SEARCH_DEPTH :: nat where "REPO_SEARCH_DEPTH = 8"

text \<open>\<^verbatim>\<open>s.rsplit_once(p)\<close>: around the last occurrence.\<close>

definition rsplit_once :: "string \<Rightarrow> string \<Rightarrow> (string \<times> string) option" where
  "rsplit_once s p =
     (case str_find (rev s) (rev p) of
        None \<Rightarrow> None
      | Some i \<Rightarrow> Some (take (length s - i - length p) s, drop (length s - i) s))"

definition is_aside :: "string \<Rightarrow> bool" where
  "is_aside name =
     (case Option.bind (strip_prefix name ''.'') (\<lambda>r. rsplit_once r ASIDE) of
        None \<Rightarrow> False
      | Some (base, tl') \<Rightarrow>
          base \<noteq> [] \<and> (case split_on (CHR ''-'') tl' of [a, b] \<Rightarrow> all_digits a \<and> all_digits b | _ \<Rightarrow> False))"

definition is_cache :: "prune_env \<Rightarrow> path \<Rightarrow> fs_node \<Rightarrow> bool" where
  "is_cache env p n =
     (case lookup n [TAG] of
        Some (Plain m c) \<Rightarrow> mt_readable m \<and> starts_with c SIGNATURE
      | Some (Link m t) \<Rightarrow> (case pv_follow env (p @ [TAG]) of None \<Rightarrow> False | Some c \<Rightarrow> starts_with c SIGNATURE)
      | _ \<Rightarrow> False)"

definition move_aside :: "prune_env \<Rightarrow> path \<Rightarrow> prune_world \<Rightarrow> path option \<times> prune_world" where
  "move_aside env c w =
     (if c = [] then (None, w)
      else if is_aside (last c) then (Some c, w)
      else let to = ''.'' @ last c @ ASIDE @ show_nat (pv_pid env) @ ''-'' @ show_nat (pw_seq w);
               w1 = w\<lparr>pw_seq := Suc (pw_seq w)\<rparr>
           in if pv_rename env c
              then (Some (butlast c @ [to]), w1\<lparr>pw_fs := rename_at (pw_fs w) c to\<rparr>)
              else (None, w1))"

definition remove_dir_all :: "prune_env \<Rightarrow> path \<Rightarrow> prune_world \<Rightarrow> bool \<times> prune_world" where
  "remove_dir_all env p w =
     (if pv_remove env p then (True, w\<lparr>pw_fs := remove_at (pw_fs w) p\<rparr>)
      else (False, w\<lparr>pw_fs := alter_at (pw_fs w) p (pv_left env p)\<rparr>))"

fun remove_each :: "prune_env \<Rightarrow> path list \<Rightarrow> prune_world \<Rightarrow> nat \<times> prune_world" where
  "remove_each env [] w = (0, w)"
| "remove_each env (p # ps) w =
     (case remove_dir_all env p w of
        (ok, w1) \<Rightarrow> (case remove_each env ps w1 of (n, w2) \<Rightarrow> (if ok then Suc n else n, w2)))"

section \<open>Searches\<close>

function leftovers :: "nat \<Rightarrow> path \<Rightarrow> fs_node \<Rightarrow> path list" where
  "leftovers depth p n =
     concat (map (\<lambda>(k, c).
       if \<not> is_dir c \<or> k = ''.git'' then []
       else if is_aside k then [p @ [k]]
       else if depth > 1 then leftovers (depth - 1) (p @ [k]) c else [])
       (node_entries n))"
  by pat_completeness auto
termination by (relation "measure (\<lambda>(d, p, n). d)") auto

function cache_dirs :: "prune_env \<Rightarrow> nat \<Rightarrow> path \<Rightarrow> fs_node \<Rightarrow> path list" where
  "cache_dirs env depth p n =
     concat (map (\<lambda>(k, c).
       if \<not> is_dir c \<or> k = ''.git'' then []
       else if is_cache env (p @ [k]) c then [p @ [k]]
       else if depth > 1 then cache_dirs env (depth - 1) (p @ [k]) c else [])
       (node_entries n))"
  by pat_completeness auto
termination by (relation "measure (\<lambda>(e, d, p, n). d)") auto

function newest :: "nat \<Rightarrow> fs_node \<Rightarrow> nat" where
  "newest depth n =
     (if depth = 0 then mt_time (node_meta n)
      else fold (\<lambda>(k, c) t. if is_dir c \<and> k \<noteq> ''.git'' then max t (newest (depth - 1) c) else t)
             (node_entries n) (mt_time (node_meta n)))"
  by pat_completeness auto
termination by (relation "measure fst") auto

declare leftovers.simps [simp del] cache_dirs.simps [simp del] newest.simps [simp del]

text \<open>\<^verbatim>\<open>sort\<close> of pairs with a path: by the first component, then by the path.\<close>

definition sort_by :: "('a :: linorder \<times> path) list \<Rightarrow> ('a \<times> path) list" where
  "sort_by xs = sort_key fst (sort_key snd xs)"

definition tasks_by_age :: "fs_node \<Rightarrow> path list" where
  "tasks_by_age t =
     map snd (sort_by (List.map_filter
       (\<lambda>(k, c). if is_dir c \<and> \<not> is_aside k then Some (newest 3 c, [''tasks'', k]) else None) (entries t [''tasks''])))"

definition same_dev :: "fs_node \<Rightarrow> path \<Rightarrow> bool" where
  "same_dev t p = (case lookup t p of None \<Rightarrow> False | Some n \<Rightarrow> mt_dev (node_meta n) = mt_dev (node_meta t))"

section \<open>Leftovers and caches\<close>

definition sweep_leftovers :: "prune_env \<Rightarrow> prune_world \<Rightarrow> nat \<times> prune_world" where
  "sweep_leftovers env w =
     (let keep = pv_protected env (pw_tick w);
          t = pw_fs w;
          found = concat (map (\<lambda>(k, c).
            if \<not> is_dir c then []
            else if is_aside k then [[''tasks'', k]]
            else if k \<in> set keep then [] else leftovers MAX_DEPTH [''tasks'', k] c) (entries t [''tasks'']));
          shared = (case lookup t [''.cache'', ''target''] of
                      None \<Rightarrow> [] | Some n \<Rightarrow> leftovers 3 [''.cache'', ''target''] n)
      in remove_each env (found @ shared) (tick w))"

fun move_each :: "prune_env \<Rightarrow> path list \<Rightarrow> prune_world \<Rightarrow> path list \<times> prune_world" where
  "move_each env [] w = ([], w)"
| "move_each env (c # cs) w =
     (case move_aside env c w of
        (r, w1) \<Rightarrow> (case move_each env cs w1 of (ms, w2) \<Rightarrow> (case r of None \<Rightarrow> ms | Some m \<Rightarrow> m # ms, w2)))"

definition task_caches :: "prune_env \<Rightarrow> fs_node \<Rightarrow> path \<Rightarrow> path list" where
  "task_caches env t task =
     (case lookup t task of
        None \<Rightarrow> []
      | Some n \<Rightarrow> filter (\<lambda>c. same_dev t c \<and> \<not> pv_tracked env c) (cache_dirs env MAX_DEPTH task n))"

fun prune_caches :: "prune_env \<Rightarrow> path list \<Rightarrow> prune_world \<Rightarrow> nat \<times> prune_world" where
  "prune_caches env [] w = (0, w)"
| "prune_caches env (task # ts) w =
     (if halted env w then (0, tick w)
      else let w0 = tick w; caches = task_caches env (pw_fs w0) task
           in if caches = [] then prune_caches env ts w0
              else let (moved, w1) = (if last task \<in> set (pv_busy env (pw_tick w0)) then ([], tick w0)
                                      else move_each env caches (tick w0));
                       (n, w2) = remove_each env moved w1;
                       (n', w3) = prune_caches env ts w2
                   in (n + n', w3))"

definition prune_task_caches :: "prune_env \<Rightarrow> prune_world \<Rightarrow> nat \<times> prune_world" where
  "prune_task_caches env w = prune_caches env (tasks_by_age (pw_fs w)) w"

section \<open>Whole checkouts\<close>

type_synonym skipped = "path \<times> string"

fun find_link :: "prune_env \<Rightarrow> path \<Rightarrow> (string \<times> fs_node) list \<Rightarrow> string option" where
  "find_link env task [] = None"
| "find_link env task ((k, Link m t) # es) = (if pv_into env k t task then Some k else find_link env task es)"
| "find_link env task ((k, n) # es) = find_link env task es"

definition linked_from_repos :: "prune_env \<Rightarrow> fs_node \<Rightarrow> path \<Rightarrow> string + string option" where
  "linked_from_repos env t task =
     (case lookup t [''repos''] of
        None \<Rightarrow> Inr None
      | Some (Dir m es) \<Rightarrow>
          (if \<not> mt_readable m then Inl ''Permission denied''
           else case pv_realpath env task of Inl e \<Rightarrow> Inl e | Inr _ \<Rightarrow> Inr (find_link env task (AList.clearjunk es)))
      | Some _ \<Rightarrow> Inl ''Not a directory'')"

text \<open>The directories searched: \<open>scan_dir\<close> of one directory, and its loop over the entries, which ends at the first entry
  that is not a directory.\<close>

function scan_dir :: "prune_env \<Rightarrow> nat \<Rightarrow> path \<Rightarrow> fs_node \<Rightarrow> path list \<times> skipped list"
  and scan_entries :: "prune_env \<Rightarrow> nat \<Rightarrow> path \<Rightarrow> (string \<times> fs_node) list \<Rightarrow> path list \<times> skipped list" where
  "scan_dir env depth p n =
     (if lookup n [''.git''] \<noteq> None then ([p], [])
      else case n of
             Dir m es \<Rightarrow> (if mt_readable m then scan_entries env depth p (AList.clearjunk es) else ([], [(p, ''cannot read it'')]))
           | _ \<Rightarrow> ([], [(p, ''cannot read it'')]))"
| "scan_entries env depth p [] = ([], [])"
| "scan_entries env depth p ((k, c) # es) =
     (if \<not> is_dir c then ([], [(p @ [k], ''a file outside any repository'')])
      else if is_cache env (p @ [k]) c \<or> is_aside k then scan_entries env depth p es
      else let (rs, out) = (if depth = 0 then ([], [(p @ [k], ''deeper than 8 levels, not inspected'')])
                            else scan_dir env (depth - 1) (p @ [k]) c);
               (rs', out') = scan_entries env depth p es
           in (rs @ rs', out @ out'))"
  by pat_completeness auto
termination
  by (relation "inv_image (less_than <*lex*> less_than)
        (\<lambda>x. case x of Inl (e, d, p, n) \<Rightarrow> (d, Suc (length (case n of Dir m es \<Rightarrow> AList.clearjunk es | _ \<Rightarrow> [])))
                     | Inr (e, d, p, es) \<Rightarrow> (d, length es))") auto

declare scan_dir.simps [simp del]

definition unpushed_commits :: "prune_env \<Rightarrow> path \<Rightarrow> string + int" where
  "unpushed_commits env repo =
     (case pv_unpushed env repo of
        Inl e \<Rightarrow> Inl e
      | Inr out \<Rightarrow> (case parse_unsigned U64_MAX (trim out) of
                     None \<Rightarrow> Inl ''unexpected git output'' | Some n \<Rightarrow> Inr n))"

definition MARKERS :: "string list" where
  "MARKERS = [''rebase-merge'', ''rebase-apply'', ''MERGE_HEAD'', ''CHERRY_PICK_HEAD'', ''REVERT_HEAD'']"

text \<open>A line of \<^verbatim>\<open>git status --porcelain\<close> that names an untracked cache directory is not work. The name is split at
  \<^verbatim>\<open>/\<close> to look it up below the repository.\<close>

definition cache_line :: "prune_env \<Rightarrow> path \<Rightarrow> fs_node \<Rightarrow> string \<Rightarrow> bool" where
  "cache_line env repo n l =
     (case Option.bind (strip_prefix l ''?? '') (\<lambda>p. strip_suffix p ''/'') of
        None \<Rightarrow> False
      | Some p \<Rightarrow> (let q = split_on (CHR ''/'') p
                  in case lookup n q of None \<Rightarrow> False | Some c \<Rightarrow> is_cache env (repo @ q) c))"

definition repo_blocker :: "prune_env \<Rightarrow> fs_node \<Rightarrow> path \<Rightarrow> string option" where
  "repo_blocker env t repo =
     (case lookup t repo of
        None \<Rightarrow> Some ''its .git is not a plain directory, not inspected''
      | Some n \<Rightarrow>
          (if \<not> (case lookup n [''.git''] of None \<Rightarrow> False | Some g \<Rightarrow> is_dir g)
           then Some ''its .git is not a plain directory, not inspected''
           else case find (\<lambda>m. lookup n [''.git'', m] \<noteq> None) MARKERS of
                  Some m \<Rightarrow> Some (m @ '' present: an operation is in progress'')
                | None \<Rightarrow>
                    (case unpushed_commits env repo of
                       Inl e \<Rightarrow> Some (''cannot count unpushed commits: '' @ e)
                     | Inr c \<Rightarrow>
                         (if c \<noteq> 0 then Some (show_uint c @ '' unpushed commits'')
                          else case pv_status env repo of
                                 Inl e \<Rightarrow> Some (''cannot read its status: '' @ e)
                               | Inr st \<Rightarrow> (if list_ex (\<lambda>l. \<not> cache_line env repo n l) (text_lines st)
                                            then Some ''uncommitted or untracked changes'' else None)))))"

definition checkout_blockers :: "prune_env \<Rightarrow> fs_node \<Rightarrow> path \<Rightarrow> skipped list" where
  "checkout_blockers env t task =
     (let out = (case linked_from_repos env t task of
                   Inr None \<Rightarrow> []
                 | Inr (Some link) \<Rightarrow> [(task, ''repos/'' @ link @ '' points into it, chat opens it from there'')]
                 | Inl e \<Rightarrow> [(task, ''cannot check repos/ links: '' @ e)]);
          (repos, found) = (case lookup t task of
                              None \<Rightarrow> ([], [(task, ''cannot read it'')])
                            | Some n \<Rightarrow> scan_dir env REPO_SEARCH_DEPTH task n)
      in out @ found @ List.map_filter (\<lambda>r. map_option (\<lambda>why. (r, why)) (repo_blocker env t r)) repos)"

fun prune_checkouts :: "prune_env \<Rightarrow> path list \<Rightarrow> prune_world \<Rightarrow> nat \<times> skipped list \<times> prune_world" where
  "prune_checkouts env [] w = (0, [], w)"
| "prune_checkouts env (task # ts) w =
     (if halted env w then (0, [], tick w)
      else let w0 = tick w; name = last task; t = pw_fs w0
           in if name \<in> set (pv_protected env (pw_tick w0)) then prune_checkouts env ts (tick w0)
              else if \<not> same_dev t task
              then (case prune_checkouts env ts (tick w0) of
                      (n, sk, w') \<Rightarrow> (n, (task, ''on another filesystem'') # sk, w'))
              else if checkout_blockers env t task \<noteq> []
              then (case prune_checkouts env ts (tick w0) of
                      (n, sk, w') \<Rightarrow> (n, checkout_blockers env t task @ sk, w'))
              else let w1 = tick w0;
                       (moved, w2) =
                         (if name \<in> set (pv_protected env (pw_tick w1)) \<or> linked_from_repos env t task \<noteq> Inr None
                          then (None, tick w1) else move_aside env task (tick w1));
                       (n, w3) = (case moved of
                                    None \<Rightarrow> (0, w2)
                                  | Some m \<Rightarrow> (case remove_dir_all env m w2 of (ok, w') \<Rightarrow> (if ok then 1 else 0, w')));
                       (n', sk, w4) = prune_checkouts env ts w3
                   in (n + n', sk, w4))"

definition prune_task_checkouts :: "prune_env \<Rightarrow> prune_world \<Rightarrow> nat \<times> skipped list \<times> prune_world" where
  "prune_task_checkouts env w = prune_checkouts env (tasks_by_age (pw_fs w)) w"

section \<open>Compiler caches\<close>

lemma in_clearjunk: "(k, c) \<in> set (AList.clearjunk es) \<longleftrightarrow> map_of es k = Some c"
  by (simp flip: graph_map_of add: Map.graph_def)

lemma child_smaller:
  "(k, c) \<in> set (AList.clearjunk es) \<Longrightarrow> size c < Suc (size_list (size_prod (\<lambda>x. 0) size) es)"
proof -
  have "(k, c) \<in> set es \<Longrightarrow> size c < Suc (size_list (size_prod (\<lambda>x. 0) size) es)" by (induction es) auto
  then show "(k, c) \<in> set (AList.clearjunk es) \<Longrightarrow> ?thesis" by (auto simp: in_clearjunk dest: map_of_SomeD)
qed

function collect_files :: "nat \<Rightarrow> path \<Rightarrow> fs_node \<Rightarrow> (nat \<times> path) list" where
  "collect_files dev p (Dir m es) =
     (if \<not> mt_readable m then []
      else concat (map (\<lambda>(k, c).
        if mt_dev (node_meta c) \<noteq> dev then []
        else if is_dir c then collect_files dev (p @ [k]) c
        else if is_plain c then [(mt_time (node_meta c), p @ [k])] else []) (AList.clearjunk es)))"
| "collect_files dev p (Plain m s) = []"
| "collect_files dev p (Link m s) = []"
  by pat_completeness auto
termination by (relation "measure (\<lambda>(d, p, n). size n)") (auto dest: child_smaller)

fun remove_files :: "prune_env \<Rightarrow> path list \<Rightarrow> prune_world \<Rightarrow> nat \<times> prune_world" where
  "remove_files env [] w = (0, w)"
| "remove_files env (f # fs) w =
     (if halted env w then (0, tick w)
      else if pv_remove env f
      then (case remove_files env fs ((tick w)\<lparr>pw_fs := remove_at (pw_fs w) f\<rparr>) of (n, w') \<Rightarrow> (Suc n, w'))
      else remove_files env fs (tick w))"

definition SCCACHE :: path where "SCCACHE = [''.cache'', ''sccache'']"

definition prune_sccache :: "prune_env \<Rightarrow> prune_world \<Rightarrow> nat \<times> prune_world" where
  "prune_sccache env w =
     (case lookup (pw_fs w) SCCACHE of
        None \<Rightarrow> (0, w)
      | Some n \<Rightarrow> (if \<not> is_dir n then (0, w)
                   else remove_files env (map snd (sort_by (collect_files (mt_dev (node_meta n)) SCCACHE n))) w))"

definition subdirs :: "path \<Rightarrow> fs_node \<Rightarrow> (path \<times> fs_node) list option" where
  "subdirs p n =
     (case n of
        Dir m es \<Rightarrow> (if mt_readable m
                     then Some (List.map_filter (\<lambda>(k, c). if is_dir c then Some (p @ [k], c) else None)
                                                   (AList.clearjunk es)) else None)
      | _ \<Rightarrow> None)"

definition CARGO_LOCK :: string where "CARGO_LOCK = ''.cargo-lock''"

fun profile_locks :: "(path \<times> fs_node) list \<Rightarrow> path list option" where
  "profile_locks [] = Some []"
| "profile_locks ((a, n) # as) =
     Option.bind (subdirs a n) (\<lambda>bs.
       Option.bind (profile_locks as) (\<lambda>ls.
         Some ((a @ [CARGO_LOCK]) # map (\<lambda>(b, _). b @ [CARGO_LOCK]) bs @ ls)))"

fun take_locks :: "prune_env \<Rightarrow> fs_node \<Rightarrow> path list \<Rightarrow> path list option" where
  "take_locks env t [] = Some []"
| "take_locks env t (l # ls) =
     (case lookup t l of
        None \<Rightarrow> take_locks env t ls
      | Some _ \<Rightarrow> (if pv_flock env l then map_option (Cons l) (take_locks env t ls) else None))"

definition lock_builds :: "prune_env \<Rightarrow> fs_node \<Rightarrow> path \<Rightarrow> path list option" where
  "lock_builds env t d =
     Option.bind (lookup t d) (\<lambda>n. Option.bind (subdirs d n) (\<lambda>as.
       Option.bind (profile_locks as) (take_locks env t)))"

definition TARGET :: path where "TARGET = [''.cache'', ''target'']"

fun prune_targets :: "prune_env \<Rightarrow> path list \<Rightarrow> prune_world \<Rightarrow> nat \<times> prune_world" where
  "prune_targets env [] w = (0, w)"
| "prune_targets env (d # ds) w =
     (if halted env w then (0, tick w)
      else if \<not> same_dev (pw_fs w) d then prune_targets env ds (tick w)
      else case lock_builds env (pw_fs w) d of
             None \<Rightarrow> prune_targets env ds (tick w)
           | Some locks \<Rightarrow>
               (let (moved, w1) = move_aside env d (tick w);
                    (n, w2) = (case moved of
                                 None \<Rightarrow> (0, w1)
                               | Some m \<Rightarrow> (case remove_dir_all env m w1 of (ok, w') \<Rightarrow> (if ok then 1 else 0, w')));
                    (n', w3) = prune_targets env ds w2
                in (n + n', w3)))"

text \<open>The directories of repositories with a running step come last, then the least recently written first, then by path:
  the order of the triples the code sorts.\<close>

definition target_dirs :: "prune_env \<Rightarrow> path list \<Rightarrow> fs_node \<Rightarrow> path list" where
  "target_dirs env busy t =
     (case lookup t TARGET of
        None \<Rightarrow> []
      | Some n \<Rightarrow> sort_key (\<lambda>d. d \<in> set busy)
                   (map snd (sort_by (map (\<lambda>d. (case lookup t d of None \<Rightarrow> 0 | Some c \<Rightarrow> newest 2 c, d))
                                          (cache_dirs env 2 TARGET n)))))"

definition prune_shared_targets :: "prune_env \<Rightarrow> prune_world \<Rightarrow> nat \<times> prune_world" where
  "prune_shared_targets env w =
     prune_targets env (target_dirs env (pv_busy_repos env (pw_tick w)) (pw_fs w)) (tick w)"

section \<open>A pass\<close>

text \<open>A phase runs while \<^verbatim>\<open>low() && !stopped()\<close>.\<close>

definition phase_if :: "prune_env \<Rightarrow> (prune_world \<Rightarrow> nat \<times> 'a list \<times> prune_world) \<Rightarrow> prune_world \<Rightarrow> nat \<times> 'a list \<times> prune_world" where
  "phase_if env f w = (if halted env w then (0, [], tick w) else f (tick w))"

definition prune_pass :: "prune_env \<Rightarrow> prune_world \<Rightarrow> nat \<times> skipped list \<times> prune_world" where
  "prune_pass env w =
     (if \<not> pv_low env (pw_tick w) (pw_fs w) then (0, [], tick w)
      else let (n0, w0) = sweep_leftovers env (tick w);
               (n1, _, w1) = phase_if env (\<lambda>w. case prune_task_caches env w of (n, w') \<Rightarrow> (n, [] :: skipped list, w')) w0;
               (n2, sk, w2) = phase_if env (prune_task_checkouts env) w1;
               (n3, _, w3) = phase_if env (\<lambda>w. case prune_sccache env w of (n, w') \<Rightarrow> (n, [] :: skipped list, w')) w2;
               (n4, _, w4) = phase_if env (\<lambda>w. case prune_shared_targets env w of (n, w') \<Rightarrow> (n, [] :: skipped list, w')) w3
           in (n0 + n1 + n2 + n3 + n4, sk, w4))"

section \<open>Free space and settings\<close>

record disk =
  dk_total :: u64
  dk_free :: u64

text \<open>\<^verbatim>\<open>u128\<close> arithmetic: the products of a 64-bit and an 8-bit number fit.\<close>

definition is_low :: "disk \<Rightarrow> nat \<Rightarrow> bool" where
  "is_low d min_percent \<longleftrightarrow>
     dk_total d \<noteq> 0 \<and> unat (dk_free d) * 100 < unat (dk_total d) * min_percent"

text \<open>\<^verbatim>\<open>saturating_mul\<close> on \<^verbatim>\<open>u64\<close>.\<close>

definition sat_mul :: "u64 \<Rightarrow> u64 \<Rightarrow> u64" where
  "sat_mul a b = (if unat a * unat b \<le> 2 ^ 64 - 1 then a * b else - 1)"

definition disk_usage :: "(u64 \<times> u64 \<times> u64) option \<Rightarrow> disk option" where
  "disk_usage stat =
     map_option (\<lambda>(frsize, blocks, avail). \<lparr>dk_total = sat_mul blocks frsize, dk_free = sat_mul avail frsize\<rparr>) stat"

record prune_config =
  pc_enabled :: bool
  pc_min_free :: int
  pc_interval :: nat

definition prune_default :: prune_config where
  "prune_default = \<lparr>pc_enabled = True, pc_min_free = 20, pc_interval = 5 * 60\<rparr>"

definition prune_from_lookup :: "(string \<Rightarrow> string option) \<Rightarrow> string + prune_config" where
  "prune_from_lookup get =
     (let on = (case get ''ENZARB_WORKSPACE_PRUNE'' of
                  None \<Rightarrow> Some True
                | Some v \<Rightarrow> (let x = to_ascii_lowercase (trim v)
                            in if x \<in> {'''', ''1'', ''true'', ''yes'', ''on''} then Some True
                               else if x \<in> {''0'', ''false'', ''no'', ''off''} then Some False else None))
      in case on of
           None \<Rightarrow> Inl ''ENZARB_WORKSPACE_PRUNE: must be on or off''
         | Some b \<Rightarrow>
             (case get ''ENZARB_WORKSPACE_PRUNE_MIN_FREE'' of
                None \<Rightarrow> Inr (prune_default\<lparr>pc_enabled := b\<rparr>)
              | Some v \<Rightarrow>
                  (if trim v = [] then Inr (prune_default\<lparr>pc_enabled := b\<rparr>)
                   else case parse_unsigned 255 (trim (trim_end_matches ''%'' (trim v))) of
                          None \<Rightarrow> Inl ''ENZARB_WORKSPACE_PRUNE_MIN_FREE: must be a percentage from 1 to 99''
                        | Some n \<Rightarrow> (if 1 \<le> n \<and> n \<le> 99
                                    then Inr (prune_default\<lparr>pc_enabled := b, pc_min_free := n\<rparr>)
                                    else Inl ''ENZARB_WORKSPACE_PRUNE_MIN_FREE: must be a percentage from 1 to 99''))))"

text \<open>\<^verbatim>\<open>prune_locked\<close>: the pass, with the free space of the file system as the answer to \<^verbatim>\<open>low()\<close>.\<close>

definition prune_locked :: "prune_env \<Rightarrow> (nat \<Rightarrow> fs_node \<Rightarrow> (u64 \<times> u64 \<times> u64) option) \<Rightarrow> nat \<Rightarrow> prune_world
    \<Rightarrow> nat \<times> skipped list \<times> prune_world" where
  "prune_locked env stat min_free w =
     prune_pass (env\<lparr>pv_low := \<lambda>i t. case disk_usage (stat i t) of None \<Rightarrow> False | Some d \<Rightarrow> is_low d min_free\<rparr>) w"

end
