(* ===== verification/Prune_Props.thy ===== *)
theory Prune_Props
  imports Prune Step_Machine "HOL-Library.Sublist"
begin

text \<open>
  What a pass of the workspace pruner keeps. A pass is a sequence of acts (\<open>prune_act\<close>), each with the reason the code had
  for it; what is kept follows by induction over the acts. \<open>peek\<close> compares what stands at a path, for a directory
  without its entries.
\<close>

section \<open>The tree\<close>

fun strip_dir :: "fs_node \<Rightarrow> fs_node" where
  "strip_dir (Dir m es) = Dir m []"
| "strip_dir n = n"

definition peek :: "fs_node \<Rightarrow> path \<Rightarrow> fs_node option" where
  "peek t q = map_option strip_dir (lookup t q)"

lemma map_of_renamed:
  "y \<noteq> x \<Longrightarrow> y \<noteq> to \<Longrightarrow> map_of (map (\<lambda>(k, c). (if k = x then to else k, c)) es) y = map_of es y"
  by (induction es) auto

lemma map_of_altered:
  "map_of (map (\<lambda>(k, c). (k, if k = x then f c else c)) es) y =
     (if y = x then map_option f (map_of es y) else map_of es y)"
  by (induction es) auto

lemma map_of_filtered: "map_of (filter (\<lambda>e. fst e \<noteq> x) es) y = (if y = x then None else map_of es y)"
  by (induction es) auto

lemma peek_Nil [simp]: "peek t [] = Some (strip_dir t)"
  by (simp add: peek_def)

lemma peek_Cons [simp]:
  "peek (Dir m es) (x # xs) = (case map_of es x of None \<Rightarrow> None | Some c \<Rightarrow> peek c xs)"
  "peek (Plain m s) (x # xs) = None"
  "peek (Link m s) (x # xs) = None"
  by (auto simp: peek_def split: option.splits)

lemma peek_remove: "\<not> prefix p q \<Longrightarrow> peek (remove_at t p) q = peek t q"
proof (induction t p arbitrary: q rule: remove_at.induct)
  case (1 m es x)
  then show ?case by (cases q) (auto simp: map_of_filtered)
next
  case (2 m es x y ys)
  then show ?case
    by (cases q) (auto simp: map_of_altered split: option.splits dest!: map_of_SomeD)
qed auto

lemma peek_rename:
  "\<not> prefix p q \<Longrightarrow> \<not> prefix (butlast p @ [to]) q \<Longrightarrow> peek (rename_at t p to) q = peek t q"
proof (induction t p to arbitrary: q rule: rename_at.induct)
  case (1 m es x to)
  then show ?case by (cases q) (auto simp: map_of_renamed)
next
  case (2 m es x y ys to)
  then show ?case
    by (cases q) (auto simp: map_of_altered split: option.splits dest!: map_of_SomeD)
qed auto

lemma peek_renamed_away: "prefix p q \<Longrightarrow> p \<noteq> [] \<Longrightarrow> last p \<noteq> to \<Longrightarrow> peek (rename_at t p to) q = None"
proof (induction t p to arbitrary: q rule: rename_at.induct)
  case (1 m es x to)
  then have "map_of (map (\<lambda>(k, c). (if k = x then to else k, c)) es) x = None"
    by (auto simp: map_of_eq_None_iff split: if_splits)
  then show ?case using 1 by (cases q) auto
next
  case (2 m es x y ys to)
  then show ?case
    by (cases q) (auto simp: map_of_altered split: option.splits dest!: map_of_SomeD)
qed (auto simp: prefix_def neq_Nil_conv)

lemma peek_alter: "\<not> prefix p q \<Longrightarrow> peek (alter_at t p f) q = peek t q"
proof (induction t p f arbitrary: q rule: alter_at.induct)
  case (2 m es x xs f)
  then show ?case
    by (cases q) (auto simp: map_of_altered split: option.splits dest!: map_of_SomeD)
qed auto

lemma lookup_append: "lookup t (p @ q) = Option.bind (lookup t p) (\<lambda>n. lookup n q)"
proof (induction t p rule: lookup.induct)
  case (2 m es x xs)
  then show ?case by (cases "map_of es x") auto
qed auto

section \<open>Names set aside, and caches\<close>

text \<open>Every name \<open>is_aside\<close> takes, and every name \<open>move_aside\<close> makes, begins with a dot and contains \<open>ASIDE\<close>.\<close>

definition aside_like :: "string \<Rightarrow> bool" where
  "aside_like x \<longleftrightarrow> starts_with x ''.'' \<and> str_contains x ASIDE"

definition clean :: "path \<Rightarrow> bool" where
  "clean q \<longleftrightarrow> list_all (\<lambda>x. \<not> aside_like x) q"

lemma rsplit_once_contains: "rsplit_once s p = Some (a, b) \<Longrightarrow> str_contains s p"
proof -
  assume "rsplit_once s p = Some (a, b)"
  then obtain i where "str_find (rev s) (rev p) = Some i"
    by (auto simp: rsplit_once_def split: option.splits)
  then obtain c where "rev s = take i (rev s) @ rev p @ c" using str_find_SomeD by blast
  then have "s = rev c @ p @ rev (take i (rev s))" by (metis append.assoc rev_append rev_rev_ident)
  then show ?thesis unfolding str_contains_iff by blast
qed

lemma is_aside_like: "is_aside x \<Longrightarrow> aside_like x"
  by (auto simp: is_aside_def aside_like_def bind_eq_Some_conv strip_prefix_def starts_with_iff str_contains_iff
           dest!: rsplit_once_contains split: option.splits if_splits) (metis append_Cons)

lemma made_aside_like: "aside_like (''.'' @ b @ ASIDE @ n)"
  unfolding aside_like_def starts_with_iff str_contains_iff by (metis append.assoc append_Cons append_Nil)

lemma clean_simps [simp]:
  "clean []" "clean (x # q) \<longleftrightarrow> \<not> aside_like x \<and> clean q" "clean (p @ q) \<longleftrightarrow> clean p \<and> clean q"
  by (auto simp: clean_def)

lemma clean_prefix: "prefix p q \<Longrightarrow> clean q \<Longrightarrow> clean p"
  by (auto simp: prefix_def)

lemma plain_names [simp]:
  "\<not> aside_like ''.git''" "\<not> aside_like TAG" "\<not> aside_like ''tasks''" "\<not> aside_like ''.cache''"
  by (code_simp)+

definition cached :: "prune_env \<Rightarrow> fs_node \<Rightarrow> path \<Rightarrow> bool" where
  "cached env t p = (case lookup t p of None \<Rightarrow> False | Some n \<Rightarrow> is_dir n \<and> is_cache env p n)"

definition tag_ok :: "prune_env \<Rightarrow> path \<Rightarrow> fs_node \<Rightarrow> bool" where
  "tag_ok env p n =
     (case n of
        Plain m c \<Rightarrow> mt_readable m \<and> starts_with c SIGNATURE
      | Link m t \<Rightarrow> (case pv_follow env (p @ [TAG]) of None \<Rightarrow> False | Some c \<Rightarrow> starts_with c SIGNATURE)
      | Dir m es \<Rightarrow> False)"

lemma tag_ok_strip [simp]: "tag_ok env p (strip_dir n) = tag_ok env p n"
  by (cases n) (auto simp: tag_ok_def)

lemma is_dir_strip [simp]: "is_dir (strip_dir n) = is_dir n"
  by (cases n) auto

lemma cached_peek:
  "cached env t p \<longleftrightarrow> (\<exists>n g. peek t p = Some n \<and> is_dir n \<and> peek t (p @ [TAG]) = Some g \<and> tag_ok env p g)"
proof (cases "lookup t p")
  case (Some n)
  then show ?thesis
    by (cases "lookup n [TAG]")
       (auto simp: cached_def peek_def lookup_append is_cache_def tag_ok_def split: fs_node.splits option.splits)
qed (simp add: cached_def peek_def)

text \<open>Below names that are not set aside, a pass only takes away.\<close>

definition fewer :: "fs_node \<Rightarrow> fs_node \<Rightarrow> bool" where
  "fewer t t' \<longleftrightarrow> (\<forall>q. clean q \<longrightarrow> peek t' q = peek t q \<or> peek t' q = None)"

lemma fewer_refl [simp]: "fewer t t"
  by (simp add: fewer_def)

lemma fewer_trans: "fewer a b \<Longrightarrow> fewer b c \<Longrightarrow> fewer a c"
  unfolding fewer_def by metis

lemma fewer_cached: "fewer t t' \<Longrightarrow> clean p \<Longrightarrow> cached env t' p \<Longrightarrow> cached env t p"
  unfolding cached_peek fewer_def
  by (metis clean_simps(2,3) clean_simps(1) option.distinct(1) plain_names(2))

lemma peek_removed: "prefix p q \<Longrightarrow> p \<noteq> [] \<Longrightarrow> peek (remove_at t p) q = None"
proof (induction t p arbitrary: q rule: remove_at.induct)
  case (1 m es x)
  then show ?case by (cases q) (auto simp: map_of_filtered)
next
  case (2 m es x y ys)
  then show ?case by (cases q) (auto simp: map_of_altered split: option.splits dest!: map_of_SomeD)
qed (auto simp: prefix_def neq_Nil_conv)

lemma fewer_remove: "p \<noteq> [] \<Longrightarrow> fewer t (remove_at t p)"
  unfolding fewer_def by (metis peek_remove peek_removed)

lemma fewer_alter: "\<not> clean p \<Longrightarrow> fewer t (alter_at t p f)"
  unfolding fewer_def by (metis peek_alter clean_prefix)

lemma fewer_rename: "p \<noteq> [] \<Longrightarrow> aside_like to \<Longrightarrow> fewer t (rename_at t p to)"
  unfolding fewer_def
proof (intro allI impI)
  fix q assume p: "p \<noteq> []" "aside_like to" and q: "clean q"
  from q p(2) have b: "\<not> prefix (butlast p @ [to]) q" by (auto dest: clean_prefix)
  show "peek (rename_at t p to) q = peek t q \<or> peek (rename_at t p to) q = None"
  proof (cases "prefix p q")
    case True
    then have "clean p" using q by (rule clean_prefix)
    with p have "last p \<noteq> to" by (metis append_butlast_last_id clean_simps(2,3))
    with True p show ?thesis by (simp add: peek_renamed_away)
  qed (simp add: peek_rename b)
qed

section \<open>The acts of a pass\<close>

text \<open>Where a pass may act at all: below a task directory, and below the compiler caches.\<close>

definition zone :: "path \<Rightarrow> bool" where
  "zone p \<longleftrightarrow> strict_prefix SCCACHE p \<or> strict_prefix TARGET p \<or> (\<exists>k r. p = ''tasks'' # k # r)"

definition owner_idle :: "prune_env \<Rightarrow> path \<Rightarrow> bool" where
  "owner_idle env p \<longleftrightarrow> strict_prefix TARGET p \<or>
     (\<exists>k r. p = ''tasks'' # k # r \<and>
        (aside_like k \<or> (\<exists>i. k \<notin> set (pv_busy env i) \<or> k \<notin> set (pv_protected env i))))"

inductive prune_act :: "prune_env \<Rightarrow> fs_node \<Rightarrow> fs_node \<Rightarrow> fs_node \<Rightarrow> bool" for env :: prune_env and T :: fs_node where
  removed: "\<not> clean p \<Longrightarrow> owner_idle env p \<Longrightarrow> prune_act env T t (remove_at t p)"
| partly: "\<not> clean p \<Longrightarrow> owner_idle env p \<Longrightarrow> prune_act env T t (alter_at t p f)"
| cache: "cached env T c \<or> \<not> clean c \<Longrightarrow> last c \<noteq> ''.git'' \<Longrightarrow> owner_idle env c \<Longrightarrow> aside_like to \<Longrightarrow>
    prune_act env T t (rename_at t c to)"
| checkout: "k \<notin> set (pv_protected env i) \<Longrightarrow> checkout_blockers env t [''tasks'', k] = [] \<Longrightarrow> aside_like to \<Longrightarrow>
    prune_act env T t (rename_at t [''tasks'', k] to)"
| compiled: "strict_prefix SCCACHE f \<Longrightarrow> prune_act env T t (remove_at t f)"
| target: "strict_prefix TARGET d \<Longrightarrow> aside_like to \<Longrightarrow> prune_act env T t (rename_at t d to)"

lemma zone_prefix: "zone p \<Longrightarrow> prefix p q \<Longrightarrow> zone q"
  unfolding zone_def by (elim disjE) (auto dest: prefix_order.less_le_trans elim: prefixE)

lemma strict_prefix_sibling: "strict_prefix a p \<Longrightarrow> strict_prefix a (butlast p @ [x])"
proof -
  assume "strict_prefix a p"
  then obtain y ys where "p = a @ y # ys" by (auto elim: strict_prefixE')
  then have "butlast p @ [x] = a @ (butlast (y # ys) @ [x])" by (simp add: butlast_append)
  then show ?thesis by (metis append_is_Nil_conv not_Cons_self2 prefix_def strict_prefix_def append_self_conv)
qed

lemma zone_sibling: "zone p \<Longrightarrow> zone (butlast p @ [x])"
  unfolding zone_def by (auto intro: strict_prefix_sibling)

lemma owner_idle_zone: "owner_idle env p \<Longrightarrow> zone p"
  by (auto simp: owner_idle_def zone_def)

lemma zone_not_Nil: "zone p \<Longrightarrow> p \<noteq> []"
  by (auto simp: zone_def)

lemma act_fewer: "prune_act env T t t' \<Longrightarrow> fewer t t'"
proof (induction rule: prune_act.induct)
  case (removed p t)
  then show ?case by (intro fewer_remove zone_not_Nil owner_idle_zone)
next
  case (cache c to t)
  then show ?case by (intro fewer_rename zone_not_Nil owner_idle_zone)
qed (auto intro: fewer_remove fewer_alter fewer_rename)

lemma act_frame: "prune_act env T t t' \<Longrightarrow> \<not> zone q \<Longrightarrow> peek t' q = peek t q"
proof (induction rule: prune_act.induct)
  case (cache c to t)
  then have "zone c" by (simp add: owner_idle_zone)
  then show ?case using cache.prems zone_prefix zone_sibling by (blast intro: peek_rename)
next
  case (checkout k i t to)
  have "zone [''tasks'', k]" by (simp add: zone_def)
  then show ?case using checkout.prems zone_prefix zone_sibling by (blast intro: peek_rename)
next
  case (target d to t)
  then have "zone d" by (simp add: zone_def)
  then show ?case using target.prems zone_prefix zone_sibling by (blast intro: peek_rename)
next
  case (compiled f t)
  then have "zone f" by (simp add: zone_def)
  then show ?case using compiled.prems zone_prefix by (blast intro: peek_remove)
qed (use owner_idle_zone zone_prefix in \<open>blast intro: peek_remove peek_alter\<close>)+

text \<open>A task with a running step.\<close>

definition always_busy :: "prune_env \<Rightarrow> string \<Rightarrow> bool" where
  "always_busy env k \<longleftrightarrow> \<not> aside_like k \<and> (\<forall>i. k \<in> set (pv_busy env i)) \<and> (\<forall>i. k \<in> set (pv_protected env i))"

lemma busy_not_owner:
  "always_busy env k \<Longrightarrow> owner_idle env p \<Longrightarrow> \<not> prefix p (''tasks'' # k # r)"
  by (auto simp: always_busy_def owner_idle_def TARGET_def strict_prefix_def prefix_def)

lemma idle_sibling: "owner_idle env c \<Longrightarrow> aside_like to \<Longrightarrow> owner_idle env (butlast c @ [to])"
proof -
  assume c: "owner_idle env c" and to: "aside_like to"
  show ?thesis
  proof (cases "strict_prefix TARGET c")
    case False
    with c obtain k r where k: "c = ''tasks'' # k # r"
      "aside_like k \<or> (\<exists>i. k \<notin> set (pv_busy env i) \<or> k \<notin> set (pv_protected env i))" by (auto simp: owner_idle_def)
    then show ?thesis using to by (cases r) (auto simp: owner_idle_def)
  qed (simp add: owner_idle_def strict_prefix_sibling)
qed

lemma caches_elsewhere:
  "strict_prefix TARGET d \<Longrightarrow> \<not> prefix d (''tasks'' # q)" "strict_prefix SCCACHE d \<Longrightarrow> \<not> prefix d (''tasks'' # q)"
  by (auto simp: TARGET_def SCCACHE_def strict_prefix_def prefix_def)

lemma act_busy: "prune_act env T t t' \<Longrightarrow> always_busy env k \<Longrightarrow>
  peek t' (''tasks'' # k # r) = peek t (''tasks'' # k # r)"
proof (induction rule: prune_act.induct)
  case (cache c to t)
  then show ?case by (intro peek_rename busy_not_owner) (auto intro: idle_sibling)
next
  case (checkout k' i t to)
  then have "k' \<noteq> k" "to \<noteq> k" by (auto simp: always_busy_def)
  then show ?case by (intro peek_rename) auto
next
  case (target d to t)
  then show ?case by (intro peek_rename caches_elsewhere strict_prefix_sibling)
next
  case (compiled f t)
  then show ?case by (intro peek_remove caches_elsewhere)
qed (auto intro: peek_remove peek_alter dest: busy_not_owner)

section \<open>Work that must stay\<close>

text \<open>The first directory on the way to \<open>q\<close>, from \<open>n\<close> down, that holds a \<open>.git\<close>.\<close>

definition first_repo :: "fs_node \<Rightarrow> path \<Rightarrow> path \<Rightarrow> bool" where
  "first_repo n q a \<longleftrightarrow> strict_prefix a q \<and> lookup n (a @ [''.git'']) \<noteq> None
     \<and> (\<forall>b. strict_prefix b a \<longrightarrow> lookup n (b @ [''.git'']) = None)"

definition searchable :: "prune_env \<Rightarrow> path \<Rightarrow> fs_node \<Rightarrow> path \<Rightarrow> bool" where
  "searchable env p n q \<longleftrightarrow> (\<forall>x\<in>set q. \<not> is_aside x)
     \<and> (\<forall>a c. a \<noteq> [] \<longrightarrow> prefix a q \<longrightarrow> last a \<noteq> ''.git'' \<longrightarrow> lookup n a = Some c \<longrightarrow> is_dir c \<longrightarrow>
          \<not> is_cache env (p @ a) c)"

lemma searchable_step:
  assumes "map_of es k = Some c" "searchable env p (Dir m es) (k # q)"
  shows "searchable env (p @ [k]) c q" "\<not> is_aside k" "k \<noteq> ''.git'' \<Longrightarrow> is_dir c \<Longrightarrow> \<not> is_cache env (p @ [k]) c"
proof -
  have all: "is_dir c' \<Longrightarrow> prefix a (k # q) \<Longrightarrow> a \<noteq> [] \<Longrightarrow> last a \<noteq> ''.git'' \<Longrightarrow> lookup (Dir m es) a = Some c' \<Longrightarrow>
      \<not> is_cache env (p @ a) c'" for a c'
    using assms(2) unfolding searchable_def by blast
  show "\<not> is_aside k" using assms(2) by (simp add: searchable_def)
  show "k \<noteq> ''.git'' \<Longrightarrow> is_dir c \<Longrightarrow> \<not> is_cache env (p @ [k]) c" using all [of c "[k]"] assms(1) by simp
  have "\<not> is_cache env ((p @ [k]) @ a) c'"
    if "a \<noteq> []" "prefix a q" "last a \<noteq> ''.git''" "lookup c a = Some c'" "is_dir c'" for a c'
    using all [of c' "k # a"] that assms(1) by simp
  then show "searchable env (p @ [k]) c q" using assms(2) unfolding searchable_def by simp
qed

lemma first_repo_step:
  assumes "map_of es k = Some c" "lookup (Dir m es) [''.git''] = None" "first_repo c q a"
  shows "first_repo (Dir m es) (k # q) (k # a)"
proof -
  have "lookup (Dir m es) (b @ [''.git'']) = None" if "strict_prefix b (k # a)" for b
    using that assms by (cases b) (auto simp: first_repo_def)
  then show ?thesis using assms by (auto simp: first_repo_def)
qed

lemma scan_complete:
  "lookup n q = Some f \<Longrightarrow> \<not> is_dir f \<Longrightarrow> searchable env p n q \<Longrightarrow>
     snd (scan_dir env d p n) \<noteq> [] \<or> (\<exists>a. first_repo n q a \<and> p @ a \<in> set (fst (scan_dir env d p n)))"
  "(k, c) \<in> set es \<Longrightarrow> lookup c r = Some f \<Longrightarrow> \<not> is_dir f \<Longrightarrow> k \<noteq> ''.git'' \<Longrightarrow> \<not> is_aside k \<Longrightarrow>
     searchable env (p @ [k]) c r \<Longrightarrow> (is_dir c \<longrightarrow> \<not> is_cache env (p @ [k]) c) \<Longrightarrow>
     snd (scan_entries env d p es) \<noteq> [] \<or> (\<exists>a. first_repo c r a \<and> p @ k # a \<in> set (fst (scan_entries env d p es)))"
proof (induction env d p n and env d p es arbitrary: q f and k c r f rule: scan_dir_scan_entries.induct)
  case (1 env d p n)
  show ?case
  proof (cases "\<exists>m es. n = Dir m es \<and> q \<noteq> [] \<and> lookup n [''.git''] = None \<and> mt_readable m")
    case True
    then obtain m es k r where n: "n = Dir m es" "q = k # r" "lookup n [''.git''] = None" "mt_readable m"
      by (auto simp: neq_Nil_conv)
    then obtain c where c: "map_of es k = Some c" "lookup c r = Some f" using 1 by (auto split: option.splits)
    have k: "k \<noteq> ''.git''" using n c by auto
    from searchable_step [OF c(1)] 1(4) n
    have s: "searchable env (p @ [k]) c r" "\<not> is_aside k" "is_dir c \<longrightarrow> \<not> is_cache env (p @ [k]) c" using k by auto
    from 1(1) [OF _ n(1,4), of k c r f] n(3) c k s 1(3)
    have "snd (scan_entries env d p (AList.clearjunk es)) \<noteq> []
       \<or> (\<exists>a. first_repo c r a \<and> p @ k # a \<in> set (fst (scan_entries env d p (AList.clearjunk es))))"
      by (auto simp: in_clearjunk)
    moreover have "scan_dir env d p n = scan_entries env d p (AList.clearjunk es)" using n by (simp add: scan_dir.simps)
    ultimately show ?thesis using first_repo_step [OF c(1), of m] n by auto
  next
    case False
    then consider "lookup n [''.git''] \<noteq> None" "q \<noteq> []" | "lookup n [''.git''] = None" "snd (scan_dir env d p n) \<noteq> []"
      | "q = []" "is_dir n" | "q = []" "\<not> is_dir n"
      by (cases "q = []"; cases "lookup n [''.git'']"; cases n) (auto simp: scan_dir.simps split: option.splits)
    then show ?thesis
    proof cases
      case 1
      then have "first_repo n q []" by (auto simp: first_repo_def strict_prefix_def)
      then show ?thesis using 1 by (auto simp: scan_dir.simps)
    next
      case 3
      then show ?thesis using "1.prems" by simp
    next
      case 4
      then show ?thesis by (cases n) (auto simp: scan_dir.simps)
    qed simp
  qed
next
  case (3 env d p k0 c0 es)
  show ?case
  proof (cases "\<not> is_dir c0")
    case False
    let ?sub = "if d = 0 then ([], [(p @ [k0], ''deeper than 8 levels, not inspected'')]) else scan_dir env (d - 1) (p @ [k0]) c0"
    show ?thesis
    proof (cases "is_cache env (p @ [k0]) c0 \<or> is_aside k0")
      case True
      with "3.prems" False have "(k, c) \<in> set es" by auto
      from "3.IH"(1) [OF _ True this "3.prems"(2-7)] False True show ?thesis by simp
    next
      case go: False
      have e: "fst (scan_entries env d p ((k0, c0) # es)) = fst ?sub @ fst (scan_entries env d p es)"
        "snd (scan_entries env d p ((k0, c0) # es)) = snd ?sub @ snd (scan_entries env d p es)"
        using False go by (simp_all add: case_prod_unfold Let_def)
      show ?thesis
      proof (cases "(k, c) = (k0, c0)")
        case True
        show ?thesis
        proof (cases "d = 0")
          case d: False
          from "3.IH"(2) [OF _ go d, of r f] False True "3.prems"
          have "snd (scan_dir env (d - 1) (p @ [k0]) c0) \<noteq> [] \<or>
            (\<exists>a. first_repo c0 r a \<and> (p @ [k0]) @ a \<in> set (fst (scan_dir env (d - 1) (p @ [k0]) c0)))" by auto
          then show ?thesis using e d True by auto
        qed (use e in simp)
      next
        case ne: False
        with "3.prems" have "(k, c) \<in> set es" by auto
        with "3.IH"(3) [OF _ go refl prod.collapse _ "3.prems"(2-7)] False
        have "snd (scan_entries env d p es) \<noteq> []
          \<or> (\<exists>a. first_repo c r a \<and> p @ k # a \<in> set (fst (scan_entries env d p es)))" by blast
        then show ?thesis unfolding e by auto
      qed
    qed
  qed simp
qed simp_all

text \<open>A path no cache contains and no name of which is set aside. A directory \<open>.git\<close> is never taken for a cache.\<close>

definition shield :: "prune_env \<Rightarrow> fs_node \<Rightarrow> path \<Rightarrow> bool" where
  "shield env T q \<longleftrightarrow> clean q \<and> (\<forall>c. c \<noteq> [] \<longrightarrow> prefix c q \<longrightarrow> cached env T c \<longrightarrow> last c = ''.git'')"

text \<open>A repository git reports commits of that are on no remote, changes, or nothing at all.\<close>

definition repo_unsaved :: "prune_env \<Rightarrow> path \<Rightarrow> bool" where
  "repo_unsaved env r \<longleftrightarrow> unpushed_commits env r \<noteq> Inr 0 \<or>
     (case pv_status env r of
        Inl e \<Rightarrow> True
      | Inr st \<Rightarrow> list_ex (\<lambda>l. Option.bind (strip_prefix l ''?? '') (\<lambda>p. strip_suffix p ''/'') = None) (text_lines st))"

text \<open>A file outside any repository, or in one that is not saved elsewhere.\<close>

definition unsaved :: "prune_env \<Rightarrow> fs_node \<Rightarrow> string \<Rightarrow> path \<Rightarrow> bool" where
  "unsaved env T k r \<longleftrightarrow>
     (\<exists>f. lookup T (''tasks'' # k # r) = Some f \<and> \<not> is_dir f)
     \<and> (\<forall>n a. lookup T [''tasks'', k] = Some n \<longrightarrow> first_repo n r a \<longrightarrow> repo_unsaved env (''tasks'' # k # a))"

lemma repo_unsaved_blocks: "repo_unsaved env r \<Longrightarrow> repo_blocker env t r \<noteq> None"
  by (auto simp: repo_unsaved_def repo_blocker_def cache_line_def list_ex_iff split: option.splits sum.splits if_splits)

lemma act_shield:
  assumes "prune_act env T t t'" "shield env T (''tasks'' # k # r)"
    and "(\<forall>i. k \<in> set (pv_protected env i)) \<or> checkout_blockers env t [''tasks'', k] \<noteq> []"
  shows "peek t' (''tasks'' # k # r) = peek t (''tasks'' # k # r)"
  using assms
proof (induction rule: prune_act.induct)
  case (cache c to t)
  have "\<not> prefix c (''tasks'' # k # r)"
    using cache zone_not_Nil [OF owner_idle_zone [OF cache(3)]] unfolding shield_def by (metis clean_prefix)
  moreover have "\<not> prefix (butlast c @ [to]) (''tasks'' # k # r)"
    using cache by (auto simp: shield_def dest!: clean_prefix)
  ultimately show ?case by (rule peek_rename)
next
  case (checkout k' i t to)
  then have "k' \<noteq> k" "to \<noteq> k" by (auto simp: shield_def)
  then show ?case by (intro peek_rename) auto
next
  case (target d to t)
  then show ?case by (intro peek_rename caches_elsewhere strict_prefix_sibling)
next
  case (compiled f t)
  then show ?case by (intro peek_remove caches_elsewhere)
next
  case (removed p t)
  then show ?case unfolding shield_def by (blast intro: peek_remove dest: clean_prefix)
next
  case (partly p t f)
  then show ?case unfolding shield_def by (blast intro: peek_alter dest: clean_prefix)
qed

lemma shield_git: "shield env T (p @ q) \<Longrightarrow> prefix a q \<Longrightarrow> shield env T (p @ a @ [''.git''])"
proof -
  assume s: "shield env T (p @ q)" and a: "prefix a q"
  have "last c = ''.git''" if "c \<noteq> []" "prefix c (p @ a @ [''.git''])" "cached env T c" for c
  proof -
    from that(2) have "c = (p @ a) @ [''.git''] \<or> prefix c (p @ a)" using prefix_snoc [of c "p @ a"] by simp
    then show ?thesis
    proof
      assume "prefix c (p @ a)"
      with a have "prefix c (p @ q)" by (metis prefix_order.trans same_prefix_prefix)
      then show ?thesis using s that by (simp add: shield_def)
    qed simp
  qed
  moreover have "clean (p @ a @ [''.git''])" using s a by (auto simp: shield_def dest: clean_prefix)
  ultimately show ?thesis by (simp add: shield_def)
qed

lemma lookup_peek: "lookup t q = None \<longleftrightarrow> peek t q = None"
  by (simp add: peek_def)

text \<open>While the work and the \<open>.git\<close> directories on its way are as they were, the checkout has a reason to stay.\<close>

lemma unsaved_blocks:
  assumes f: "fewer T t" and s: "shield env T (''tasks'' # k # r)" and u: "unsaved env T k r"
    and p: "peek t (''tasks'' # k # r) = peek T (''tasks'' # k # r)"
    and g: "\<And>b. strict_prefix b r \<Longrightarrow> peek t (''tasks'' # k # b @ [''.git'']) = peek T (''tasks'' # k # b @ [''.git''])"
  shows "checkout_blockers env t [''tasks'', k] \<noteq> []"
proof (cases "lookup t [''tasks'', k]")
  case None
  then show ?thesis by (simp add: checkout_blockers_def)
next
  case (Some n)
  let ?scan = "scan_dir env REPO_SEARCH_DEPTH [''tasks'', k] n"
  have at: "lookup t (''tasks'' # k # a) = lookup n a" for a
    using lookup_append [of t "[''tasks'', k]" a] Some by simp
  obtain f0 where fT: "lookup T (''tasks'' # k # r) = Some f0" "\<not> is_dir f0" using u by (auto simp: unsaved_def)
  then obtain N where N: "lookup T [''tasks'', k] = Some N"
    using lookup_append [of T "[''tasks'', k]" r] by (cases "lookup T [''tasks'', k]") auto
  have atT: "lookup T (''tasks'' # k # a) = lookup N a" for a
    using lookup_append [of T "[''tasks'', k]" a] N by simp
  from p fT at [of r] obtain f1 where f1: "lookup n r = Some f1" "strip_dir f1 = strip_dir f0"
    by (cases "lookup n r") (auto simp: peek_def)
  then have f1: "lookup n r = Some f1" "\<not> is_dir f1" using fT(2) by (metis is_dir_strip)+
  have search: "searchable env [''tasks'', k] n r"
    unfolding searchable_def
  proof (intro conjI allI ballI impI notI)
    fix x assume "x \<in> set r" "is_aside x"
    then show False using s by (auto simp: shield_def clean_def list_all_iff dest: is_aside_like)
  next
    fix a c assume a: "a \<noteq> []" "prefix a r" "last a \<noteq> ''.git''" "lookup n a = Some c" "is_dir c"
      "is_cache env ([''tasks'', k] @ a) c"
    then have "cached env t (''tasks'' # k # a)" by (simp add: cached_def at)
    moreover have "clean (''tasks'' # k # a)" using s a(2) by (auto simp: shield_def dest: clean_prefix)
    ultimately have "cached env T (''tasks'' # k # a)" using f by (blast intro: fewer_cached)
    then show False using s a unfolding shield_def by (metis Cons_prefix_Cons last_ConsR list.distinct(1))
  qed
  show ?thesis
  proof (cases "snd ?scan = []")
    case False
    then show ?thesis using Some by (auto simp: checkout_blockers_def case_prod_unfold Let_def)
  next
    case True
    with scan_complete(1) [OF f1 search] obtain a where a: "first_repo n r a" "[''tasks'', k] @ a \<in> set (fst ?scan)"
      by blast
    have "lookup n (b @ [''.git'']) = None \<longleftrightarrow> lookup N (b @ [''.git'']) = None" if "strict_prefix b r" for b
      using g [OF that] lookup_peek at atT by metis
    then have "first_repo N r a" using a(1) unfolding first_repo_def by (meson prefix_order.less_trans)
    then have "repo_unsaved env (''tasks'' # k # a)" using u N by (simp add: unsaved_def)
    then obtain why where "repo_blocker env t (''tasks'' # k # a) = Some why" using repo_unsaved_blocks by blast
    then show ?thesis using Some a(2)
      by (force simp: checkout_blockers_def case_prod_unfold Let_def List.map_filter_def filter_empty_conv)
  qed
qed

section \<open>Runs of acts\<close>

abbreviation acts :: "prune_env \<Rightarrow> fs_node \<Rightarrow> fs_node \<Rightarrow> fs_node \<Rightarrow> bool" where
  "acts env T \<equiv> (prune_act env T)\<^sup>*\<^sup>*"

lemma acts_fewer: "acts env T t t' \<Longrightarrow> fewer t t'"
  by (induction rule: rtranclp_induct) (auto intro: fewer_trans act_fewer)

lemma acts_frame: "acts env T t t' \<Longrightarrow> \<not> zone q \<Longrightarrow> peek t' q = peek t q"
  by (induction rule: rtranclp_induct) (auto simp: act_frame)

lemma acts_busy: "acts env T t t' \<Longrightarrow> always_busy env k \<Longrightarrow> peek t' (''tasks'' # k # r) = peek t (''tasks'' # k # r)"
  by (induction rule: rtranclp_induct) (auto simp: act_busy)

lemma acts_protected:
  "acts env T t t' \<Longrightarrow> shield env T (''tasks'' # k # r) \<Longrightarrow> (\<And>i. k \<in> set (pv_protected env i)) \<Longrightarrow>
     peek t' (''tasks'' # k # r) = peek t (''tasks'' # k # r)"
  by (induction rule: rtranclp_induct) (auto simp: act_shield)

lemma acts_unsaved:
  assumes "acts env T T t" and s: "shield env T (''tasks'' # k # r)" and u: "unsaved env T k r"
  shows "peek t (''tasks'' # k # r) = peek T (''tasks'' # k # r)
    \<and> (\<forall>b. strict_prefix b r \<longrightarrow> peek t (''tasks'' # k # b @ [''.git'']) = peek T (''tasks'' # k # b @ [''.git'']))"
  using assms(1)
proof (induction rule: rtranclp_induct)
  case (step t t')
  have "checkout_blockers env t [''tasks'', k] \<noteq> []"
    using unsaved_blocks [OF acts_fewer [OF step(1)] s u] step.IH by blast
  then have keep: "shield env T (''tasks'' # k # q) \<Longrightarrow> peek t' (''tasks'' # k # q) = peek t (''tasks'' # k # q)" for q
    using act_shield [OF step(2)] by blast
  have "shield env T (''tasks'' # k # b @ [''.git''])" if "strict_prefix b r" for b
    using shield_git [of env T "[''tasks'', k]" r b] s that by simp
  then show ?case using step.IH keep s by simp
qed simp

section \<open>A pass is a run of acts\<close>

lemma remove_dir_all_acts:
  "remove_dir_all env p w = (ok, w') \<Longrightarrow> \<not> clean p \<Longrightarrow> owner_idle env p \<Longrightarrow> acts env T (pw_fs w) (pw_fs w')"
  by (auto simp: remove_dir_all_def intro!: r_into_rtranclp intro: removed partly split: if_splits)

lemma remove_each_acts:
  "remove_each env ps w = (n, w') \<Longrightarrow> (\<And>p. p \<in> set ps \<Longrightarrow> \<not> clean p \<and> owner_idle env p) \<Longrightarrow>
     acts env T (pw_fs w) (pw_fs w')"
proof (induction env ps w arbitrary: n w' rule: remove_each.induct)
  case (2 env p ps w)
  obtain ok w1 where r: "remove_dir_all env p w = (ok, w1)" by fastforce
  obtain m w2 where e: "remove_each env ps w1 = (m, w2)" by fastforce
  have "acts env T (pw_fs w) (pw_fs w1)" using remove_dir_all_acts [OF r] 2(3) by simp
  moreover have "acts env T (pw_fs w1) (pw_fs w2)" using 2(1) [OF r [symmetric] e] 2(3) by simp
  ultimately show ?case using 2(2) r e by auto
qed simp

lemma move_aside_cases:
  assumes "move_aside env c w = (r, w')" "c \<noteq> []"
  obtains (already) "r = Some c" "w' = w" "aside_like (last c)"
  | (moved) to where "aside_like to" "r = Some (butlast c @ [to])" "pw_fs w' = rename_at (pw_fs w) c to"
  | (failed) "r = None" "pw_fs w' = pw_fs w"
proof (cases "is_aside (last c)")
  case True
  then show ?thesis using assms already by (simp add: move_aside_def is_aside_like)
next
  case False
  let ?to = "''.'' @ last c @ ASIDE @ show_nat (pv_pid env) @ ''-'' @ show_nat (pw_seq w)"
  show ?thesis
  proof (cases "pv_rename env c")
    case True
    with assms False have "r = Some (butlast c @ [?to])" "pw_fs w' = rename_at (pw_fs w) c ?to"
      by (auto simp: move_aside_def Let_def)
    with moved [OF made_aside_like] show ?thesis by blast
  qed (use assms False failed in \<open>auto simp: move_aside_def Let_def\<close>)
qed

lemma unclean_last: "c \<noteq> [] \<Longrightarrow> aside_like (last c) \<Longrightarrow> \<not> clean c"
  by (metis append_butlast_last_id clean_simps(2,3))

lemma move_aside_acts:
  assumes "move_aside env c w = (r, w')" "owner_idle env c"
    and "\<And>to t. aside_like to \<Longrightarrow> t = pw_fs w \<Longrightarrow> prune_act env T t (rename_at t c to)"
  shows "acts env T (pw_fs w) (pw_fs w')" "r = Some m \<Longrightarrow> \<not> clean m \<and> owner_idle env m"
proof -
  have c: "c \<noteq> []" using assms(2) by (intro zone_not_Nil owner_idle_zone)
  have "acts env T (pw_fs w) (pw_fs w') \<and> (r = Some m \<longrightarrow> \<not> clean m \<and> owner_idle env m)"
    using assms(1) c
  proof (cases rule: move_aside_cases)
    case (moved to)
    then show ?thesis using assms(2,3) by (auto intro: idle_sibling)
  qed (use assms(2) c in \<open>auto simp: unclean_last\<close>)
  then show "acts env T (pw_fs w) (pw_fs w')" "r = Some m \<Longrightarrow> \<not> clean m \<and> owner_idle env m" by auto
qed

lemma move_each_acts:
  "move_each env cs w = (ms, w') \<Longrightarrow>
   (\<And>c. c \<in> set cs \<Longrightarrow> (cached env T c \<or> \<not> clean c) \<and> last c \<noteq> ''.git'' \<and> owner_idle env c) \<Longrightarrow>
     acts env T (pw_fs w) (pw_fs w') \<and> (\<forall>m\<in>set ms. \<not> clean m \<and> owner_idle env m)"
proof (induction env cs w arbitrary: ms w' rule: move_each.induct)
  case (2 env c cs w)
  obtain r w1 where m: "move_aside env c w = (r, w1)" by fastforce
  obtain ms1 w2 where e: "move_each env cs w1 = (ms1, w2)" by fastforce
  have c: "cached env T c \<or> \<not> clean c" "last c \<noteq> ''.git''" "owner_idle env c" using 2(3) [of c] by auto
  have "acts env T (pw_fs w) (pw_fs w1)" "\<And>x. r = Some x \<Longrightarrow> \<not> clean x \<and> owner_idle env x"
    using move_aside_acts [OF m c(3)] cache [OF c] by blast+
  moreover have "acts env T (pw_fs w1) (pw_fs w2) \<and> (\<forall>m\<in>set ms1. \<not> clean m \<and> owner_idle env m)"
    using 2(1) [OF m [symmetric] e] 2(3) by simp
  ultimately show ?case using 2(2) m e by (auto split: option.splits)
qed simp

lemma in_entries: "(k, c) \<in> set (node_entries n) \<Longrightarrow> lookup n [k] = Some c"
  by (cases n) (auto simp: in_clearjunk split: if_splits)

lemma lookup_Cons: "lookup n (k # a) = Option.bind (lookup n [k]) (\<lambda>c. lookup c a)"
  using lookup_append [of n "[k]" a] by simp

lemma leftovers_aside: "x \<in> set (leftovers d p n) \<Longrightarrow> \<exists>a. a \<noteq> [] \<and> x = p @ a \<and> is_aside (last a)"
proof (induction d p n rule: leftovers.induct)
  case (1 d p n)
  then obtain k c where e: "(k, c) \<in> set (node_entries n)"
    "x = p @ [k] \<and> is_aside k \<or> d > 1 \<and> x \<in> set (leftovers (d - 1) (p @ [k]) c) \<and> is_dir c \<and> k \<noteq> ''.git'' \<and> \<not> is_aside k"
    by (subst (asm) leftovers.simps) (auto split: if_splits)
  then show ?case
  proof (elim disjE conjE)
    assume "d > 1" "x \<in> set (leftovers (d - 1) (p @ [k]) c)" "is_dir c" "k \<noteq> ''.git''" "\<not> is_aside k"
    with 1(1) [OF e(1) refl] obtain a where "a \<noteq> []" "x = p @ k # a" "is_aside (last a)" by auto
    then show ?thesis by (intro exI [of _ "k # a"]) simp
  qed (auto intro: exI [of _ "[k]"])
qed

lemma cache_dirs_cached:
  "x \<in> set (cache_dirs env d p n) \<Longrightarrow>
     \<exists>a m. a \<noteq> [] \<and> x = p @ a \<and> last a \<noteq> ''.git'' \<and> lookup n a = Some m \<and> is_dir m \<and> is_cache env x m"
proof (induction env d p n rule: cache_dirs.induct)
  case (1 env d p n)
  then obtain k c where e: "(k, c) \<in> set (node_entries n)" "is_dir c" "k \<noteq> ''.git''"
    "x = p @ [k] \<and> is_cache env x c \<or> d > 1 \<and> x \<in> set (cache_dirs env (d - 1) (p @ [k]) c) \<and> \<not> is_cache env (p @ [k]) c"
    by (subst (asm) cache_dirs.simps) (auto split: if_splits)
  from e(4) show ?case
  proof (elim disjE conjE)
    assume "d > 1" "x \<in> set (cache_dirs env (d - 1) (p @ [k]) c)" "\<not> is_cache env (p @ [k]) c"
    with 1(1) [OF e(1) refl] e(2,3) obtain a m where
      a: "a \<noteq> []" "x = (p @ [k]) @ a" "last a \<noteq> ''.git''" "lookup c a = Some m" "is_dir m" "is_cache env x m" by blast
    moreover have "lookup n (k # a) = Some m" using in_entries [OF e(1)] a(4) lookup_Cons [of n k a] by simp
    ultimately show ?thesis by (intro exI [of _ "k # a"] exI [of _ m]) simp
  next
    assume "x = p @ [k]" "is_cache env x c"
    then show ?thesis using e in_entries [OF e(1)] by (intro exI [of _ "[k]"] exI [of _ c]) simp
  qed
qed

lemma collect_below: "f \<in> snd ` set (collect_files dev p n) \<Longrightarrow> strict_prefix p f"
proof (induction dev p n rule: collect_files.induct)
  case (1 dev p m es)
  then obtain k c where e: "(k, c) \<in> set (AList.clearjunk es)"
    "f = p @ [k] \<or> is_dir c \<and> mt_dev (node_meta c) = dev \<and> f \<in> snd ` set (collect_files dev (p @ [k]) c)" "mt_readable m"
    by (auto split: if_splits)
  then have "f = p @ [k] \<or> strict_prefix (p @ [k]) f" using 1(1) [OF _ e(1) refl] by auto
  then show ?case by (auto simp: strict_prefix_def prefix_def)
qed auto

lemma tasks_by_age_form: "p \<in> set (tasks_by_age t) \<Longrightarrow> \<exists>k. p = [''tasks'', k]"
  by (auto simp: tasks_by_age_def sort_by_def List.map_filter_def split: if_splits)

lemma owner_idle_target: "strict_prefix TARGET p \<Longrightarrow> owner_idle env p"
  by (simp add: owner_idle_def)

lemma unclean_aside: "is_aside (last a) \<Longrightarrow> a \<noteq> [] \<Longrightarrow> \<not> clean (p @ a)"
  by (simp add: unclean_last is_aside_like)

lemma sweep_acts: "sweep_leftovers env w = (n, w') \<Longrightarrow> acts env T (pw_fs w) (pw_fs w')"
proof -
  assume s: "sweep_leftovers env w = (n, w')"
  let ?keep = "pv_protected env (pw_tick w)"
  have task: "\<not> clean x \<and> owner_idle env x"
    if "x \<in> set (leftovers MAX_DEPTH [''tasks'', k] c)" "k \<notin> set ?keep" for x k c
    using leftovers_aside [OF that(1)] that(2) unclean_aside by (fastforce simp: owner_idle_def)
  have top: "\<not> clean [''tasks'', k] \<and> owner_idle env [''tasks'', k]" if "is_aside k" for k
    using is_aside_like [OF that] by (simp add: owner_idle_def)
  have shared: "\<not> clean x \<and> owner_idle env x" if "x \<in> set (leftovers 3 TARGET c)" for x c
  proof -
    from leftovers_aside [OF that] obtain a where a: "a \<noteq> []" "x = TARGET @ a" "is_aside (last a)" by blast
    then have "strict_prefix TARGET x" by (auto simp: strict_prefix_def prefix_def)
    then show ?thesis using a unclean_aside owner_idle_target by blast
  qed
  have "acts env T (pw_fs (tick w)) (pw_fs w')"
    using s unfolding sweep_leftovers_def Let_def
  proof (rule remove_each_acts)
    fix x
    assume "x \<in> set (concat (map (\<lambda>(k, c).
        if \<not> is_dir c then [] else if is_aside k then [[''tasks'', k]]
        else if k \<in> set ?keep then [] else leftovers MAX_DEPTH [''tasks'', k] c) (entries (pw_fs w) [''tasks'']))
      @ (case lookup (pw_fs w) [''.cache'', ''target''] of None \<Rightarrow> []
         | Some n \<Rightarrow> leftovers 3 [''.cache'', ''target''] n))"
    then consider k c where "x \<in> set (leftovers MAX_DEPTH [''tasks'', k] c)" "k \<notin> set ?keep"
      | k where "x = [''tasks'', k]" "is_aside k" | c where "x \<in> set (leftovers 3 TARGET c)"
      by (fastforce simp: TARGET_def split: if_splits option.splits)
    then show "\<not> clean x \<and> owner_idle env x" using task top shared by cases blast+
  qed
  then show ?thesis by (simp add: tick_def)
qed

lemma tick_fs [simp]: "pw_fs (tick w) = pw_fs w"
  by (simp add: tick_def)

lemma task_caches_reason:
  assumes "fewer T t" "c \<in> set (task_caches env t [''tasks'', k])" "k \<notin> set (pv_busy env i)"
  shows "(cached env T c \<or> \<not> clean c) \<and> last c \<noteq> ''.git'' \<and> owner_idle env c"
proof -
  from assms(2) obtain n where n: "lookup t [''tasks'', k] = Some n" "c \<in> set (cache_dirs env MAX_DEPTH [''tasks'', k] n)"
    by (cases "lookup t [''tasks'', k]") (auto simp: task_caches_def)
  from cache_dirs_cached [OF n(2)] obtain a m where a: "a \<noteq> []" "c = [''tasks'', k] @ a" "last a \<noteq> ''.git''"
    "lookup n a = Some m" "is_dir m" "is_cache env c m" by blast
  have "lookup t c = Some m" using lookup_append [of t "[''tasks'', k]" a] n(1) a(2,4) by simp
  then have "cached env t c" using a by (simp add: cached_def)
  then have "cached env T c \<or> \<not> clean c" using fewer_cached [OF assms(1)] by blast
  moreover have "owner_idle env c" using a(2) assms(3) by (auto simp: owner_idle_def)
  ultimately show ?thesis using a by simp
qed

lemma prune_caches_acts:
  "prune_caches env ts w = (n, w') \<Longrightarrow> (\<And>p. p \<in> set ts \<Longrightarrow> \<exists>k. p = [''tasks'', k]) \<Longrightarrow> fewer T (pw_fs w) \<Longrightarrow>
     acts env T (pw_fs w) (pw_fs w')"
proof (induction ts arbitrary: w n w')
  case (Cons task ts)
  obtain k where k: "task = [''tasks'', k]" using Cons.prems(2) by auto
  note go = Cons.IH [OF _ Cons.prems(2)]
  let ?caches = "task_caches env (pw_fs w) task"
  show ?case
  proof (cases "halted env w \<or> ?caches = []")
    case True
    then show ?thesis using Cons.prems(1,3) go [of "tick w" n w'] by (auto simp: Let_def split: if_splits)
  next
    case False
    define start where "start = (if k \<in> set (pv_busy env (pw_tick (tick w))) then ([], tick (tick w))
      else move_each env ?caches (tick (tick w)))"
    obtain moved w1 where m: "start = (moved, w1)" by fastforce
    obtain n1 w2 where r: "remove_each env moved w1 = (n1, w2)" by fastforce
    obtain n2 w3 where p: "prune_caches env ts w2 = (n2, w3)" by fastforce
    have w': "w' = w3" using Cons.prems(1) False k m r p by (simp add: start_def Let_def split: if_splits)
    have a1: "acts env T (pw_fs w) (pw_fs w1) \<and> (\<forall>x\<in>set moved. \<not> clean x \<and> owner_idle env x)"
    proof (cases "k \<in> set (pv_busy env (pw_tick (tick w)))")
      case busy: False
      then have "move_each env ?caches (tick (tick w)) = (moved, w1)" using m by (simp add: start_def)
      from move_each_acts [OF this task_caches_reason [OF Cons.prems(3) _ busy]] k show ?thesis by simp
    qed (use m in \<open>auto simp: start_def\<close>)
    have a2: "acts env T (pw_fs w1) (pw_fs w2)" using remove_each_acts [OF r] a1 by blast
    with a1 have "fewer (pw_fs w) (pw_fs w2)" by (blast intro: fewer_trans acts_fewer)
    then have "acts env T (pw_fs w2) (pw_fs w3)" using go [OF p] Cons.prems(3) fewer_trans by simp
    then show ?thesis using a1 a2 w' by auto
  qed
qed simp

lemma prune_checkouts_acts:
  "prune_checkouts env ts w = (n, sk, w') \<Longrightarrow> (\<And>p. p \<in> set ts \<Longrightarrow> \<exists>k. p = [''tasks'', k]) \<Longrightarrow>
     acts env T (pw_fs w) (pw_fs w')"
proof (induction ts arbitrary: w n sk w')
  case (Cons task ts)
  obtain k where k: "task = [''tasks'', k]" using Cons.prems(2) by auto
  note go = Cons.IH [OF _ Cons.prems(2)]
  let ?t = "pw_fs w" and ?i = "pw_tick (tick w)" and ?j = "pw_tick (tick (tick w))"
  let ?removed = "\<lambda>moved w2. case moved of None \<Rightarrow> (0::nat, w2)
    | Some m \<Rightarrow> (case remove_dir_all env m w2 of (ok, w') \<Rightarrow> (if ok then 1 else 0, w'))"
  show ?case
  proof (cases "halted env w \<or> k \<in> set (pv_protected env ?i) \<or> \<not> same_dev ?t task \<or> checkout_blockers env ?t task \<noteq> []")
    case True
    then show ?thesis using Cons.prems(1) go [of "tick (tick w)"] k
      by (auto simp: Let_def split: if_splits prod.splits)
  next
    case False
    define start where "start = (if k \<in> set (pv_protected env ?j) \<or> linked_from_repos env ?t task \<noteq> Inr None
      then (None, tick (tick (tick w))) else move_aside env task (tick (tick (tick w))))"
    obtain moved w2 where m: "start = (moved, w2)" by fastforce
    obtain n3 w3 where r: "?removed moved w2 = (n3, w3)" by fastforce
    obtain n4 sk4 w4 where p: "prune_checkouts env ts w3 = (n4, sk4, w4)" by (metis prod_cases3)
    have w': "w' = w4" using Cons.prems(1) False k m r p by (simp add: start_def Let_def split: if_splits)
    have idle: "owner_idle env task" using False k by (auto simp: owner_idle_def)
    have act: "prune_act env T t (rename_at t task to)" if "aside_like to" "t = pw_fs w" for to t
      using checkout [of k env ?i t to T] that False k by auto
    have a1: "acts env T (pw_fs w) (pw_fs w2) \<and> (\<forall>x. moved = Some x \<longrightarrow> \<not> clean x \<and> owner_idle env x)"
    proof (cases "k \<in> set (pv_protected env ?j) \<or> linked_from_repos env ?t task \<noteq> Inr None")
      case False
      then have "move_aside env task (tick (tick (tick w))) = (moved, w2)" using m by (simp add: start_def)
      from move_aside_acts [OF this idle, where T = T] act show ?thesis by simp
    qed (use m in \<open>auto simp: start_def\<close>)
    have a2: "acts env T (pw_fs w2) (pw_fs w3)"
      using r a1 by (auto split: option.splits prod.splits intro: remove_dir_all_acts)
    show ?thesis using a1 a2 go [OF p] w' by auto
  qed
qed simp

lemma remove_files_acts:
  "remove_files env fs w = (n, w') \<Longrightarrow> (\<And>f. f \<in> set fs \<Longrightarrow> strict_prefix SCCACHE f) \<Longrightarrow> acts env T (pw_fs w) (pw_fs w')"
proof (induction fs arbitrary: w n w')
  case (Cons f fs)
  note go = Cons.IH [OF _ Cons.prems(2)]
  have act: "prune_act env T (pw_fs w) (remove_at (pw_fs w) f)" using Cons.prems(2) [of f] by (simp add: compiled)
  show ?case using Cons.prems(1) go [of "tick w"] go [of "(tick w)\<lparr>pw_fs := remove_at (pw_fs w) f\<rparr>"]
    by (auto split: if_splits prod.splits intro: converse_rtranclp_into_rtranclp [where r = "prune_act env T", OF act])
qed simp

lemma prune_targets_acts:
  "prune_targets env ds w = (n, w') \<Longrightarrow> (\<And>d. d \<in> set ds \<Longrightarrow> strict_prefix TARGET d) \<Longrightarrow> acts env T (pw_fs w) (pw_fs w')"
proof (induction ds arbitrary: w n w')
  case (Cons d ds)
  note go = Cons.IH [OF _ Cons.prems(2)]
  have d: "strict_prefix TARGET d" using Cons.prems(2) by simp
  let ?removed = "\<lambda>moved w2. case moved of None \<Rightarrow> (0::nat, w2)
    | Some m \<Rightarrow> (case remove_dir_all env m w2 of (ok, w') \<Rightarrow> (if ok then 1 else 0, w'))"
  show ?case
  proof (cases "halted env w \<or> \<not> same_dev (pw_fs w) d \<or> lock_builds env (pw_fs w) d = None")
    case True
    then show ?thesis using Cons.prems(1) go [of "tick w" n w'] by (auto split: if_splits)
  next
    case False
    obtain moved w1 where m: "move_aside env d (tick w) = (moved, w1)" by fastforce
    obtain n2 w2 where r: "?removed moved w1 = (n2, w2)" by fastforce
    obtain n3 w3 where p: "prune_targets env ds w2 = (n3, w3)" by fastforce
    have w': "w' = w3" using Cons.prems(1) False m r p by (auto simp: Let_def)
    from move_aside_acts [OF m owner_idle_target [OF d], where T = T] target [OF d]
    have a1: "acts env T (pw_fs w) (pw_fs w1)" "\<And>x. moved = Some x \<Longrightarrow> \<not> clean x \<and> owner_idle env x" by simp_all
    have a2: "acts env T (pw_fs w1) (pw_fs w2)"
      using r a1(2) by (auto split: option.splits prod.splits intro: remove_dir_all_acts)
    show ?thesis using a1 a2 go [OF p] w' by auto
  qed
qed simp

lemma prune_pass_acts:
  assumes "prune_pass env w = (n, sk, w')"
  shows "acts env (pw_fs w) (pw_fs w) (pw_fs w')"
proof (cases "pv_low env (pw_tick w) (pw_fs w)")
  case False
  then show ?thesis using assms by (auto simp: prune_pass_def)
next
  case True
  let ?T = "pw_fs w"
  let ?one = "\<lambda>f w. case f w of (n :: nat, w') \<Rightarrow> (n, [] :: skipped list, w' :: prune_world)"
  obtain n0 w0 where s0: "sweep_leftovers env (tick w) = (n0, w0)" by fastforce
  obtain n1 k1 w1 where s1: "phase_if env (?one (prune_task_caches env)) w0 = (n1, k1, w1)" by (metis prod_cases3)
  obtain n2 k2 w2 where s2: "phase_if env (prune_task_checkouts env) w1 = (n2, k2, w2)" by (metis prod_cases3)
  obtain n3 k3 w3 where s3: "phase_if env (?one (prune_sccache env)) w2 = (n3, k3, w3)" by (metis prod_cases3)
  obtain n4 k4 w4 where s4: "phase_if env (?one (prune_shared_targets env)) w3 = (n4, k4, w4)" by (metis prod_cases3)
  have w': "w' = w4" using assms True s0 s1 s2 s3 s4 by (simp add: prune_pass_def)
  have a0: "acts env ?T (pw_fs w) (pw_fs w0)" using sweep_acts [OF s0] by simp
  have a1: "acts env ?T (pw_fs w0) (pw_fs w1)"
    using s1 acts_fewer [OF a0] prune_caches_acts [of env "tasks_by_age (pw_fs w0)" "tick w0" _ w1 ?T] tasks_by_age_form
    by (auto simp: phase_if_def prune_task_caches_def split: if_splits prod.splits)
  have a2: "acts env ?T (pw_fs w1) (pw_fs w2)"
    using s2 prune_checkouts_acts [of env "tasks_by_age (pw_fs w1)" "tick w1" _ _ w2 ?T] tasks_by_age_form
    by (auto simp: phase_if_def prune_task_checkouts_def split: if_splits)
  have below: "f \<in> set (map snd (sort_by (collect_files d SCCACHE m))) \<Longrightarrow> strict_prefix SCCACHE f" for d m f
    using collect_below [of f d SCCACHE m] by (simp add: sort_by_def)
  have a3: "acts env ?T (pw_fs w2) (pw_fs w3)"
    using s3 remove_files_acts [OF _ below, where T = ?T]
    by (fastforce simp: phase_if_def prune_sccache_def split: if_splits prod.splits option.splits)
  have inside: "strict_prefix TARGET d" if "d \<in> set (target_dirs env b t)" for d b t
  proof -
    from that obtain m where "d \<in> set (cache_dirs env 2 TARGET m)"
      by (auto simp: target_dirs_def sort_by_def split: option.splits)
    from cache_dirs_cached [OF this] show ?thesis by (auto simp: strict_prefix_def prefix_def)
  qed
  have a4: "acts env ?T (pw_fs w3) (pw_fs w4)"
    using s4 prune_targets_acts [OF _ inside, where T = ?T]
    by (fastforce simp: phase_if_def prune_shared_targets_def split: if_splits prod.splits)
  from a0 a1 a2 a3 a4 show ?thesis unfolding w' by (meson rtranclp_trans)
qed

section \<open>The step registry\<close>

text \<open>What the pruner asks of the registry of steps (\<^verbatim>\<open>trait Registry\<close>): a task with a running step is also protected.\<close>

locale registry =
  fixes busy protected :: "'m \<Rightarrow> string list"
  assumes busy_protected: "set (busy m) \<subseteq> set (protected m)"
begin

lemma running_always_busy:
  assumes "\<And>i. pv_busy env i = busy (ms i)" "\<And>i. pv_protected env i = protected (ms i)"
    and "\<And>i. k \<in> set (busy (ms i))" "\<not> aside_like k"
  shows "always_busy env k"
  using assms busy_protected [THEN subsetD] by (simp add: always_busy_def)

lemma running_task_kept:
  assumes "\<And>i. pv_busy env i = busy (ms i)" "\<And>i. pv_protected env i = protected (ms i)"
    and "\<And>i. k \<in> set (busy (ms i))" "\<not> aside_like k" "prune_pass env w = (n, sk, w')"
  shows "peek (pw_fs w') (''tasks'' # k # r) = peek (pw_fs w) (''tasks'' # k # r)"
  using acts_busy [OF prune_pass_acts [OF assms(5)] running_always_busy [OF assms(1-4)]] .

end

lemma in_map_filter: "y \<in> set (List.map_filter f xs) \<longleftrightarrow> (\<exists>x\<in>set xs. f x = Some y)"
  by (induction xs) (auto simp: List.map_filter_simps split: option.splits)

interpretation step_registry: registry busy_tasks protected_tasks
  by unfold_locales (force simp: busy_tasks_def protected_tasks_def in_map_filter split: if_splits)

lemma valid_id_not_aside: "valid_step_id k \<Longrightarrow> \<not> aside_like k"
  by (simp add: valid_step_id_def aside_like_def)

section \<open>Examples\<close>

definition idle_env :: prune_env where
  "idle_env =
     \<lparr>pv_low = (\<lambda>_ _. True), pv_stopped = (\<lambda>_. False), pv_busy = (\<lambda>_. []), pv_protected = (\<lambda>_. []),
      pv_busy_repos = (\<lambda>_. []), pv_follow = (\<lambda>_. None), pv_tracked = (\<lambda>_. False), pv_unpushed = (\<lambda>_. Inr ''0''),
      pv_status = (\<lambda>_. Inr []), pv_realpath = (\<lambda>_. Inr ()), pv_into = (\<lambda>_ _ _. False), pv_flock = (\<lambda>_. True),
      pv_rename = (\<lambda>_. True), pv_remove = (\<lambda>_. True), pv_left = (\<lambda>_ n. n), pv_pid = 1\<rparr>"

definition notes_tree :: fs_node where
  "notes_tree =
     (let m = \<lparr>mt_time = 0, mt_dev = 0, mt_readable = True\<rparr>
      in Dir m [(''tasks'', Dir m [(''t1'', Dir m [(''notes.txt'', Plain m ''todo'')]), (''t2'', Dir m [])]),
                (''keep'', Plain m ''x'')])"

definition notes_world :: prune_world where
  "notes_world = \<lparr>pw_fs = notes_tree, pw_seq = 0, pw_tick = 0\<rparr>"

definition task_step :: step_start where
  "task_step =
     \<lparr>ss_run_id = ''r'', ss_attempt = 1, ss_task_id = ''t1'', ss_workspaces = [], ss_exec = Exec_Command [] [],
      ss_outputs = [], ss_env = [], ss_files = [], ss_github_token = None\<rparr>"

definition task_manager :: manager where
  "task_manager = sample_manager\<lparr>sm_runs := [(''r'', run_new\<lparr>ri_start := Some task_step\<rparr>)]\<rparr>"

lemma task_manager_busy: "busy_tasks task_manager = [''t1'']" "protected_tasks task_manager = [''t1'']"
  by (simp_all add: busy_tasks_def protected_tasks_def task_manager_def run_task_def run_new_def task_step_def
        List.map_filter_def)

section \<open>Properties\<close>

text \<open>
  C14: a pass of the workspace pruner changes nothing anywhere below the directory of a task that has a running step,
  whatever git, the file system and the other tasks do, whether or not a rename or a removal fails half way.
\<close>

theorem pruner_spares_running_task:
  assumes "\<And>i. pv_busy env i = busy_tasks (ms i)" "\<And>i. pv_protected env i = protected_tasks (ms i)"
    and "\<And>i. k \<in> set (busy_tasks (ms i))" and "valid_step_id k"
    and "prune_pass env w = (n, sk, w')"
  shows "peek (pw_fs w') (''tasks'' # k # r) = peek (pw_fs w) (''tasks'' # k # r)"
  using step_registry.running_task_kept [OF assms(1-3) valid_id_not_aside [OF assms(4)] assms(5)] .

theorem pruner_spares_running_task_witness:
  "peek (pw_fs (snd (snd (prune_pass (idle_env\<lparr>pv_busy := \<lambda>_. [''t1''], pv_protected := \<lambda>_. [''t1'']\<rparr>) notes_world))))
     [''tasks'', ''t1'', ''notes.txt''] = Some (Plain \<lparr>mt_time = 0, mt_dev = 0, mt_readable = True\<rparr> ''todo'')"
proof -
  let ?env = "idle_env\<lparr>pv_busy := \<lambda>_. [''t1''], pv_protected := \<lambda>_. [''t1'']\<rparr>"
  obtain n sk w' where p: "prune_pass ?env notes_world = (n, sk, w')" by (metis prod_cases3)
  have v: "valid_step_id ''t1''" by code_simp
  have "peek (pw_fs w') [''tasks'', ''t1'', ''notes.txt''] = peek (pw_fs notes_world) [''tasks'', ''t1'', ''notes.txt'']"
    by (rule pruner_spares_running_task [where ms = "\<lambda>_. task_manager", OF _ _ _ v p]) (simp_all add: task_manager_busy)
  then show ?thesis using p by (simp add: notes_world_def notes_tree_def Let_def)
qed


lemma notes_unsaved: "unsaved idle_env notes_tree ''t1'' [''notes.txt'']"
  by (auto simp: unsaved_def notes_tree_def Let_def first_repo_def prefix_Cons strict_prefix_def)

lemma notes_shield: "shield idle_env notes_tree [''tasks'', ''t1'', ''notes.txt'']"
proof -
  have "clean [''tasks'', ''t1'', ''notes.txt'']" by code_simp
  moreover have "\<not> cached idle_env notes_tree c" if "prefix c [''tasks'', ''t1'', ''notes.txt'']" for c
  proof -
    from that have "c = [] \<or> c = [''tasks''] \<or> c = [''tasks'', ''t1''] \<or> c = [''tasks'', ''t1'', ''notes.txt'']"
      by (auto simp: prefix_Cons)
    then show ?thesis
      by (auto simp: cached_def notes_tree_def Let_def is_cache_def TAG_def)
  qed
  ultimately show ?thesis by (auto simp: shield_def)
qed


text \<open>
  A pass changes nothing outside the task directories, the files of the compiler cache and the shared build
  directories: not the repositories, not the workspace itself, not those directories as such.
\<close>

theorem pruner_stays_in_its_directories:
  assumes "\<not> zone q" "prune_pass env w = (n, sk, w')"
  shows "peek (pw_fs w') q = peek (pw_fs w) q"
  using acts_frame [OF prune_pass_acts [OF assms(2)] assms(1)] .

theorem pruner_stays_in_its_directories_witness:
  "peek (pw_fs (snd (snd (prune_pass idle_env notes_world)))) [''keep'']
     = Some (Plain \<lparr>mt_time = 0, mt_dev = 0, mt_readable = True\<rparr> ''x'')"
proof -
  obtain n sk w' where p: "prune_pass idle_env notes_world = (n, sk, w')" by (metis prod_cases3)
  have "peek (pw_fs w') [''keep''] = peek (pw_fs notes_world) [''keep'']"
    by (rule pruner_stays_in_its_directories [OF _ p])
       (simp add: zone_def SCCACHE_def TARGET_def strict_prefix_def prefix_def)
  then show ?thesis using p by (simp add: notes_world_def notes_tree_def Let_def)
qed

end
