(* ===== verification/Ez_Base.thy ===== *)
theory Ez_Base
  imports Step_Check Step_Env
begin

text \<open>
  The data of the ez agent: messages and tools (\<^verbatim>\<open>ez-llm/src/lib.rs\<close>, \<^verbatim>\<open>ez-tools/src/lib.rs\<close>), hooks
  (\<^verbatim>\<open>ez-hooks/src/lib.rs\<close>), permissions, modes and configuration (\<^verbatim>\<open>ez-core/src/permissions.rs\<close>, \<^verbatim>\<open>modes.rs\<close>,
  \<^verbatim>\<open>config.rs\<close>). Glob and regular-expression matching, TOML parsing and the processes of the hooks are arguments.
\<close>

section \<open>Messages\<close>

datatype ez_role = Ez_User | Ez_Assistant

datatype content_block =
    CB_Thinking string "string option"
  | CB_RedactedThinking string
  | CB_Text string
  | CB_ToolUse string string json
  | CB_ToolResult string string bool

record llm_message =
  lm_role :: ez_role
  lm_content :: "content_block list"

definition user_text :: "string \<Rightarrow> llm_message" where
  "user_text t = \<lparr>lm_role = Ez_User, lm_content = [CB_Text t]\<rparr>"

definition assistant_text :: "string \<Rightarrow> llm_message" where
  "assistant_text t = \<lparr>lm_role = Ez_Assistant, lm_content = [CB_Text t]\<rparr>"

fun block_text :: "content_block \<Rightarrow> string option" where
  "block_text (CB_Text t) = Some t"
| "block_text b = None"

definition message_text :: "llm_message \<Rightarrow> string" where
  "message_text m = concat (List.map_filter block_text (lm_content m))"

fun block_use :: "content_block \<Rightarrow> (string \<times> string \<times> json) option" where
  "block_use (CB_ToolUse i n v) = Some (i, n, v)"
| "block_use b = None"

definition tool_uses :: "llm_message \<Rightarrow> (string \<times> string \<times> json) list" where
  "tool_uses m = List.map_filter block_use (lm_content m)"

fun is_result :: "content_block \<Rightarrow> bool" where
  "is_result (CB_ToolResult i c e) = True"
| "is_result b = False"

record tool_spec =
  ts_name :: string
  ts_description :: string
  ts_schema :: json

record llm_request =
  lq_model :: string
  lq_system :: string
  lq_messages :: "llm_message list"
  lq_tools :: "tool_spec list"
  lq_max_tokens :: u32
  lq_thinking :: "json option"

datatype llm_stop = LS_EndTurn | LS_ToolUse | LS_MaxTokens | LS_Other

record llm_usage =
  lu_input :: u64
  lu_output :: u64

record llm_response =
  lr_message :: llm_message
  lr_stop :: llm_stop
  lr_usage :: llm_usage

datatype stream_event = SE_TextDelta string | SE_ThinkingDelta string | SE_ToolUseStart string string

section \<open>Tools\<close>

datatype tool_kind =
    Kind_Read | Kind_Edit | Kind_Delete | Kind_Move | Kind_Search | Kind_Execute | Kind_Think | Kind_Fetch
  | Kind_SwitchMode | Kind_Other

fun kind_as_str :: "tool_kind \<Rightarrow> string" where
  "kind_as_str Kind_Read = ''read''"
| "kind_as_str Kind_Edit = ''edit''"
| "kind_as_str Kind_Delete = ''delete''"
| "kind_as_str Kind_Move = ''move''"
| "kind_as_str Kind_Search = ''search''"
| "kind_as_str Kind_Execute = ''execute''"
| "kind_as_str Kind_Think = ''think''"
| "kind_as_str Kind_Fetch = ''fetch''"
| "kind_as_str Kind_SwitchMode = ''switch_mode''"
| "kind_as_str Kind_Other = ''other''"

definition is_read_only :: "tool_kind \<Rightarrow> bool" where
  "is_read_only k \<longleftrightarrow> k \<in> {Kind_Read, Kind_Search, Kind_Think, Kind_Fetch}"

definition kind_from_str :: "string \<Rightarrow> tool_kind" where
  "kind_from_str s =
     (if s = ''read'' then Kind_Read else if s = ''edit'' then Kind_Edit else if s = ''delete'' then Kind_Delete
      else if s = ''move'' then Kind_Move else if s = ''search'' then Kind_Search
      else if s = ''execute'' then Kind_Execute else if s = ''think'' then Kind_Think
      else if s = ''fetch'' then Kind_Fetch else if s = ''switch_mode'' then Kind_SwitchMode else Kind_Other)"

record file_edit =
  fe_path :: string
  fe_old :: "string option"
  fe_new :: string

text \<open>The items of a plan (\<^verbatim>\<open>TodoItem\<close>) are only passed on: the JSON they come from.\<close>

record tool_output =
  to_content :: string
  to_is_error :: bool
  to_edits :: "file_edit list"
  to_plan :: "json list option"

definition json_field :: "json \<Rightarrow> string \<Rightarrow> json" where
  "json_field j k = (case j of JObj m \<Rightarrow> (case map_of m k of None \<Rightarrow> JNull | Some v \<Rightarrow> v) | _ \<Rightarrow> JNull)"

definition json_str :: "json \<Rightarrow> string option" where
  "json_str j = (case j of JStr s \<Rightarrow> Some s | _ \<Rightarrow> None)"

definition unwrap_or :: "'a \<Rightarrow> 'a option \<Rightarrow> 'a" where
  "unwrap_or d x = (case x of None \<Rightarrow> d | Some v \<Rightarrow> v)"

text \<open>A tool as the agent sees it: what it is called, its kind and the text it shows for an input.\<close>

record tool =
  tl_name :: string
  tl_description :: string
  tl_schema :: json
  tl_kind :: tool_kind
  tl_title :: "json \<Rightarrow> string"
  tl_locations :: "json \<Rightarrow> string list"

definition default_locations :: "json \<Rightarrow> string list" where
  "default_locations input = take 1 (List.map_filter (\<lambda>k. json_str (json_field input k)) [''file_path'', ''path''])"

definition spec_of :: "tool \<Rightarrow> tool_spec" where
  "spec_of t = \<lparr>ts_name = tl_name t, ts_description = tl_description t, ts_schema = tl_schema t\<rparr>"

definition BUILTIN_TOOLS :: "string list" where
  "BUILTIN_TOOLS = [''Read'', ''Write'', ''Edit'', ''Glob'', ''Grep'', ''Bash'', ''TodoWrite'', ''AskUserQuestion'']"

section \<open>Hooks\<close>

datatype hook_event =
    HE_SessionStart | HE_UserPromptSubmit | HE_PreToolUse | HE_PostToolUse | HE_PostEdit | HE_ModeChange | HE_Stop

fun hook_event_str :: "hook_event \<Rightarrow> string" where
  "hook_event_str HE_SessionStart = ''session_start''"
| "hook_event_str HE_UserPromptSubmit = ''user_prompt_submit''"
| "hook_event_str HE_PreToolUse = ''pre_tool_use''"
| "hook_event_str HE_PostToolUse = ''post_tool_use''"
| "hook_event_str HE_PostEdit = ''post_edit''"
| "hook_event_str HE_ModeChange = ''mode_change''"
| "hook_event_str HE_Stop = ''stop''"

datatype on_failure = OF_Ignore | OF_Block | OF_FixTurn

record hook_spec =
  hs_run :: string
  hs_glob :: "string option"
  hs_matcher :: "string option"
  hs_on_failure :: on_failure
  hs_max_fix_turns :: u32
  hs_timeout_secs :: u64

record hooks_config =
  hc_session_start :: "hook_spec list"
  hc_user_prompt_submit :: "hook_spec list"
  hc_pre_tool_use :: "hook_spec list"
  hc_post_tool_use :: "hook_spec list"
  hc_post_edit :: "hook_spec list"
  hc_mode_change :: "hook_spec list"
  hc_stop :: "hook_spec list"

definition no_hooks :: hooks_config where
  "no_hooks =
     \<lparr>hc_session_start = [], hc_user_prompt_submit = [], hc_pre_tool_use = [], hc_post_tool_use = [], hc_post_edit = [],
      hc_mode_change = [], hc_stop = []\<rparr>"

fun hooks_get :: "hooks_config \<Rightarrow> hook_event \<Rightarrow> hook_spec list" where
  "hooks_get h HE_SessionStart = hc_session_start h"
| "hooks_get h HE_UserPromptSubmit = hc_user_prompt_submit h"
| "hooks_get h HE_PreToolUse = hc_pre_tool_use h"
| "hooks_get h HE_PostToolUse = hc_post_tool_use h"
| "hooks_get h HE_PostEdit = hc_post_edit h"
| "hooks_get h HE_ModeChange = hc_mode_change h"
| "hooks_get h HE_Stop = hc_stop h"

definition hooks_merged :: "hooks_config \<Rightarrow> hooks_config \<Rightarrow> hooks_config" where
  "hooks_merged a b =
     \<lparr>hc_session_start = hc_session_start a @ hc_session_start b,
      hc_user_prompt_submit = hc_user_prompt_submit a @ hc_user_prompt_submit b,
      hc_pre_tool_use = hc_pre_tool_use a @ hc_pre_tool_use b,
      hc_post_tool_use = hc_post_tool_use a @ hc_post_tool_use b,
      hc_post_edit = hc_post_edit a @ hc_post_edit b,
      hc_mode_change = hc_mode_change a @ hc_mode_change b,
      hc_stop = hc_stop a @ hc_stop b\<rparr>"

record hook_outcome =
  ho_spec :: hook_spec
  ho_success :: bool
  ho_output :: string
  ho_exit_code :: "int option"
  ho_duration_ms :: u64

definition failed_with :: "on_failure \<Rightarrow> hook_outcome \<Rightarrow> bool" where
  "failed_with f o' \<longleftrightarrow> \<not> ho_success o' \<and> hs_on_failure (ho_spec o') = f"

definition MAX_OUTPUT :: nat where "MAX_OUTPUT = 20000"

definition sh_quote :: "string \<Rightarrow> string" where
  "sh_quote s =
     [CHR 0x27] @ concat (map (\<lambda>c. if c = CHR 0x27 then [CHR 0x27, CHR 0x5C, CHR 0x27, CHR 0x27] else [c]) s) @ [CHR 0x27]"

text \<open>The characters of a string, each as its bytes.\<close>

function chars_of :: "string \<Rightarrow> string list" where
  "chars_of [] = []"
| "chars_of (c # cs) =
     (let cont = (\<lambda>b. utf8_cont (byte_of_char b))
      in (c # takeWhile cont cs) # chars_of (dropWhile cont cs))"
  by pat_completeness auto
termination by (relation "measure length") (auto simp: le_imp_less_Suc length_dropWhile_le)

definition truncate_middle :: "string \<Rightarrow> nat \<Rightarrow> string" where
  "truncate_middle s max' =
     (let cs = chars_of s; half = max' div 2
      in if length cs \<le> max' then s
         else concat (take half cs) @ [CHR 0x0A] @ ''... ['' @ show_nat (length cs - 2 * half) @ '' chars truncated] ...''
              @ [CHR 0x0A] @ concat (drop (length cs - half) cs))"

text \<open>
  A hook process: what it was started with, and what came of it. The argument answers whether it could be started and waited
  for in time, with its whole output, and otherwise with the text of the failure.
\<close>

record hook_lib =
  hl_regex :: "string \<Rightarrow> (string \<Rightarrow> bool) option"
  hl_glob :: "string \<Rightarrow> (string \<Rightarrow> bool) option"
  hl_sh :: "nat \<Rightarrow> string \<Rightarrow> hook_event \<Rightarrow> string \<Rightarrow> string + (bool \<times> int option \<times> string)"
  hl_ms :: "nat \<Rightarrow> u64"
  hl_show :: "json \<Rightarrow> string"

definition hook_exec :: "hook_lib \<Rightarrow> nat \<Rightarrow> hook_spec \<Rightarrow> string \<Rightarrow> hook_event \<Rightarrow> string \<Rightarrow> hook_outcome" where
  "hook_exec lib i spec cmd ev stdin =
     (case hl_sh lib i cmd ev stdin of
        Inl e \<Rightarrow> \<lparr>ho_spec = spec, ho_success = False, ho_output = e, ho_exit_code = None, ho_duration_ms = hl_ms lib i\<rparr>
      | Inr (ok, code, text) \<Rightarrow>
          \<lparr>ho_spec = spec, ho_success = ok, ho_output = truncate_middle text MAX_OUTPUT, ho_exit_code = code,
           ho_duration_ms = hl_ms lib i\<rparr>)"

definition hook_matches :: "hook_lib \<Rightarrow> hook_spec \<Rightarrow> string option \<Rightarrow> bool" where
  "hook_matches lib spec name =
     (case hs_matcher spec of
        None \<Rightarrow> True
      | Some m \<Rightarrow> (case name of
                     None \<Rightarrow> False
                   | Some n \<Rightarrow> (case hl_regex lib (''^(?:'' @ m @ '')$'') of None \<Rightarrow> False | Some f \<Rightarrow> f n)))"

fun hook_run :: "hook_lib \<Rightarrow> nat \<Rightarrow> hook_spec list \<Rightarrow> hook_event \<Rightarrow> string option \<Rightarrow> json \<Rightarrow> hook_outcome list" where
  "hook_run lib i [] ev name payload = []"
| "hook_run lib i (spec # specs) ev name payload =
     (if hook_matches lib spec name
      then hook_exec lib i spec (hs_run spec) ev (hl_show lib payload) # hook_run lib (Suc i) specs ev name payload
      else hook_run lib i specs ev name payload)"

text \<open>\<^verbatim>\<open>Path::file_name\<close> of a relative path.\<close>

definition file_name :: "string \<Rightarrow> string" where
  "file_name p = last (split_on (CHR ''/'') p)"

definition relative_to :: "string \<Rightarrow> string \<Rightarrow> string" where
  "relative_to cwd p = (case strip_prefix p (cwd @ ''/'') of None \<Rightarrow> p | Some r \<Rightarrow> r)"

definition edit_matches :: "hook_lib \<Rightarrow> hook_spec \<Rightarrow> string list \<Rightarrow> string list" where
  "edit_matches lib spec rel =
     (case hs_glob spec of
        None \<Rightarrow> rel
      | Some g \<Rightarrow> (case hl_glob lib g of None \<Rightarrow> [] | Some f \<Rightarrow> filter (\<lambda>r. f r \<or> f (file_name r)) rel))"

text \<open>\<^verbatim>\<open>s.replace(p, r)\<close> for a non-empty pattern.\<close>

function str_replace :: "string \<Rightarrow> string \<Rightarrow> string \<Rightarrow> string" where
  "str_replace s p r =
     (if s = [] \<or> p = [] then s
      else if starts_with s p then r @ str_replace (drop (length p) s) p r
      else hd s # str_replace (tl s) p r)"
  by pat_completeness auto
termination by (relation "measure (\<lambda>(s, p, r). length s)") auto

declare str_replace.simps [simp del]

fun run_post_edit :: "hook_lib \<Rightarrow> nat \<Rightarrow> hook_spec list \<Rightarrow> string \<Rightarrow> string list \<Rightarrow> hook_outcome list" where
  "run_post_edit lib i [] sid rel = []"
| "run_post_edit lib i (spec # specs) sid rel =
     (let matching = edit_matches lib spec rel
      in if matching = [] then run_post_edit lib i specs sid rel
         else hook_exec lib i spec
                (str_replace (hs_run spec) ''{files}''
                   (join '' '' (map sh_quote matching)))
                HE_PostEdit
                (hl_show lib (jobj [(''event'', JStr ''post_edit''), (''session_id'', JStr sid),
                                    (''files'', JArr (map JStr matching))]))
              # run_post_edit lib (Suc i) specs sid rel)"

definition NL :: string where "NL = [CHR 0x0A]"

definition dec_int :: "int \<Rightarrow> string" where
  "dec_int n = (if n < 0 then ''-'' @ show_nat (nat (- n)) else show_nat (nat n))"

definition fix_turn_prompt :: "hook_outcome list \<Rightarrow> string option" where
  "fix_turn_prompt outcomes =
     (let failed = filter (failed_with OF_FixTurn) outcomes
      in if failed = [] then None
         else Some (''The following hook commands failed after your changes:'' @ NL
           @ concat (map (\<lambda>o'. NL @ ''$ '' @ hs_run (ho_spec o') @ '' (''
               @ (case ho_exit_code o' of None \<Rightarrow> ''no exit code'' | Some c \<Rightarrow> ''exit code '' @ dec_int c)
               @ '')'' @ NL @ ''```'' @ NL @ trim_end (ho_output o') @ NL @ ''```'' @ NL) failed)
           @ NL @ ''Please fix these problems.''))"

section \<open>Permissions\<close>

datatype permission = Perm_Allow | Perm_Ask | Perm_Deny

definition perm_lookup :: "(string \<Rightarrow> (string \<Rightarrow> bool) option) \<Rightarrow> permission btree \<Rightarrow> string \<Rightarrow> permission option" where
  "perm_lookup glob m tool =
     (case map_of m tool of
        Some p \<Rightarrow> Some p
      | None \<Rightarrow> map_option snd (find (\<lambda>(pat, p). case glob pat of None \<Rightarrow> False | Some f \<Rightarrow> f tool) m))"

section \<open>Modes\<close>

record mode_def =
  md_name :: "string option"
  md_description :: string
  md_prompt :: string
  md_tools :: "string list option"
  md_mise_tasks :: "string list"
  md_mcp_tools :: "string list"
  md_next :: "string list"
  md_auto_advance_to :: "string list"
  md_profile :: "string option"
  md_model :: "string option"
  md_permissions :: "permission btree"
  md_hooks :: hooks_config

definition mode_default :: mode_def where
  "mode_default =
     \<lparr>md_name = None, md_description = [], md_prompt = [], md_tools = None, md_mise_tasks = [], md_mcp_tools = [],
      md_next = [], md_auto_advance_to = [], md_profile = None, md_model = None, md_permissions = [], md_hooks = no_hooks\<rparr>"

record mode_set =
  ms_default :: string
  ms_modes :: "(string \<times> mode_def) list"

definition modes_implicit :: mode_set where
  "modes_implicit =
     \<lparr>ms_default = ''default'',
      ms_modes = [(''default'', mode_default\<lparr>md_description := ''General-purpose mode with all tools'',
                                 md_mise_tasks := [''*''], md_mcp_tools := [''mcp__*'']\<rparr>)]\<rparr>"

definition mode_get :: "mode_set \<Rightarrow> string \<Rightarrow> mode_def option" where
  "mode_get ms i = map_of (ms_modes ms) i"

definition mode_ids :: "mode_set \<Rightarrow> string list" where
  "mode_ids ms = map fst (ms_modes ms)"

text \<open>The first letter in upper case: an argument, as it depends on the Unicode tables.\<close>

definition display_name :: "(string \<Rightarrow> string) \<Rightarrow> mode_set \<Rightarrow> string \<Rightarrow> string" where
  "display_name capitalize ms i = unwrap_or (capitalize i) (Option.bind (mode_get ms i) md_name)"

definition switch_targets :: "mode_set \<Rightarrow> string \<Rightarrow> string list" where
  "switch_targets ms from =
     (let nx = (case mode_get ms from of None \<Rightarrow> [] | Some m \<Rightarrow> md_next m)
      in filter (\<lambda>i. i \<noteq> from \<and> (nx = [] \<or> i \<in> set nx)) (mode_ids ms))"

definition bad_reference :: "mode_set \<Rightarrow> (string \<times> mode_def) \<Rightarrow> string option" where
  "bad_reference ms e = find (\<lambda>r. mode_get ms r = None) (md_next (snd e) @ md_auto_advance_to (snd e))"

definition modes_validate :: "mode_set \<Rightarrow> string + unit" where
  "modes_validate ms =
     (if mode_get ms (ms_default ms) = None then Inl (''default_mode `'' @ ms_default ms @ ''` is not defined'')
      else case find (\<lambda>e. bad_reference ms e \<noteq> None) (ms_modes ms) of
             None \<Rightarrow> Inr ()
           | Some e \<Rightarrow> Inl (''mode `'' @ fst e @ ''` references unknown mode `'' @ unwrap_or [] (bad_reference ms e) @ ''`''))"

text \<open>
  The parsed file: the value of \<^verbatim>\<open>default_mode\<close> when it is a string, and the entries of \<^verbatim>\<open>modes\<close>, each a definition or
  the error of its deserialisation; absent, not a table, or a list in file order.
\<close>

record modes_table =
  mt_default :: "string option"
  mt_modes :: "(unit + (string \<times> (string + mode_def)) list) option"

fun good_modes :: "(string \<times> (string + mode_def)) list \<Rightarrow> string + (string \<times> mode_def) list" where
  "good_modes [] = Inr []"
| "good_modes ((i, Inl e) # es) = Inl (''invalid mode `'' @ i @ ''`'')"
| "good_modes ((i, Inr m) # es) = (case good_modes es of Inl e \<Rightarrow> Inl e | Inr ms \<Rightarrow> Inr ((i, m) # ms))"

definition modes_from_toml :: "(string \<Rightarrow> string + modes_table) \<Rightarrow> string \<Rightarrow> string + mode_set" where
  "modes_from_toml parse text =
     (case parse text of
        Inl e \<Rightarrow> Inl ''parsing modes.toml''
      | Inr t \<Rightarrow>
          (case (case mt_modes t of None \<Rightarrow> Inr [] | Some (Inl _) \<Rightarrow> Inl ''`modes` must be a table''
                 | Some (Inr es) \<Rightarrow> good_modes es) of
             Inl e \<Rightarrow> Inl e
           | Inr [] \<Rightarrow> Inl ''modes.toml defines no modes''
           | Inr (m # ms) \<Rightarrow>
               (let set = \<lparr>ms_default = unwrap_or (fst m) (mt_default t), ms_modes = m # ms\<rparr>
                in case modes_validate set of Inl e \<Rightarrow> Inl e | Inr _ \<Rightarrow> Inr set)))"

text \<open>\<^verbatim>\<open>ModeSet::load\<close>: the first of the two files that can be read decides, also when it is invalid.\<close>

definition modes_load :: "(string \<Rightarrow> string + modes_table) \<Rightarrow> string option \<Rightarrow> string option \<Rightarrow> string + mode_set" where
  "modes_load parse project user =
     (case project of
        Some text \<Rightarrow> modes_from_toml parse text
      | None \<Rightarrow> (case user of Some text \<Rightarrow> modes_from_toml parse text | None \<Rightarrow> Inr modes_implicit))"

section \<open>Configuration\<close>

datatype provider_kind = PK_Anthropic | PK_Openai | PK_ClaudeCode | PK_Mock

record profile =
  pf_name :: string
  pf_provider :: provider_kind
  pf_model :: string
  pf_models :: "string list"
  pf_api_key_name :: "string option"
  pf_api_key_env :: "string option"
  pf_base_url :: "string option"
  pf_max_tokens :: u32
  pf_context_window :: u64
  pf_thinking :: "json option"

record ez_config =
  cf_default_profile :: string
  cf_compaction_threshold :: f64
  cf_max_turn_requests :: u32
  cf_profiles :: "profile btree"
  cf_mise_lazy_threshold :: nat
  cf_mcp_lazy_threshold :: nat
  cf_mcp_servers :: "json btree"
  cf_permissions :: "permission btree"
  cf_hooks :: hooks_config

definition config_profile :: "ez_config \<Rightarrow> string \<Rightarrow> string + profile" where
  "config_profile c name =
     (case map_of (cf_profiles c) name of None \<Rightarrow> Inl (''unknown profile `'' @ name @ ''`'') | Some p \<Rightarrow> Inr p)"

text \<open>Mode rules, then configuration rules, exact names before patterns, then the default of the kind of tool.\<close>

definition perm_resolve :: "(string \<Rightarrow> (string \<Rightarrow> bool) option) \<Rightarrow> string \<Rightarrow> tool_kind \<Rightarrow> mode_def \<Rightarrow> ez_config \<Rightarrow> permission" where
  "perm_resolve glob tool kind m c =
     (case perm_lookup glob (md_permissions m) tool of
        Some p \<Rightarrow> p
      | None \<Rightarrow> (case perm_lookup glob (cf_permissions c) tool of
                   Some p \<Rightarrow> p
                 | None \<Rightarrow> (if is_read_only kind \<or> tool \<in> {''TodoWrite'', ''AskUserQuestion''} then Perm_Allow
                            else Perm_Ask)))"

lemma mode_get_ids: "mode_get ms i \<noteq> None \<longleftrightarrow> i \<in> set (mode_ids ms)"
  by (auto simp: mode_get_def mode_ids_def map_of_eq_None_iff)

lemma switch_target_known: "t \<in> set (switch_targets ms from) \<Longrightarrow> mode_get ms t \<noteq> None \<and> t \<noteq> from"
  unfolding mode_get_ids by (auto simp: switch_targets_def Let_def)

lemma good_modes_ids: "good_modes es = Inr ms \<Longrightarrow> map fst ms = map fst es"
  by (induction es arbitrary: ms rule: good_modes.induct) (auto split: sum.splits)

text \<open>A set of modes that was loaded has its default mode and every mode its modes refer to.\<close>

definition modes_ok :: "mode_set \<Rightarrow> bool" where
  "modes_ok ms \<longleftrightarrow> mode_get ms (ms_default ms) \<noteq> None \<and>
     list_all (\<lambda>e. list_all (\<lambda>r. mode_get ms r \<noteq> None) (md_next (snd e) @ md_auto_advance_to (snd e))) (ms_modes ms)"

lemma bad_reference_None:
  "bad_reference ms e = None \<longleftrightarrow> list_all (\<lambda>r. mode_get ms r \<noteq> None) (md_next (snd e) @ md_auto_advance_to (snd e))"
  by (auto simp: bad_reference_def find_None_iff list_all_iff Ball_def)

lemma modes_validate_ok: "modes_validate ms = Inr u \<Longrightarrow> modes_ok ms"
  unfolding modes_ok_def bad_reference_None [symmetric]
  by (auto simp: modes_validate_def find_None_iff list_all_iff split: if_splits option.splits)

lemma modes_load_ok: "modes_load parse project user = Inr ms \<Longrightarrow> modes_ok ms"
proof -
  have "modes_ok modes_implicit" by code_simp
  moreover have "modes_from_toml parse t = Inr ms \<Longrightarrow> modes_ok ms" for t
    by (auto simp: modes_from_toml_def Let_def split: sum.splits list.splits dest: modes_validate_ok)
  ultimately show "modes_load parse project user = Inr ms \<Longrightarrow> modes_ok ms"
    by (auto simp: modes_load_def split: option.splits)
qed

end
