(* ===== verification/Ez_Transcript.thy ===== *)
theory Ez_Transcript
  imports Ez_Base
begin

text \<open>
  Session transcripts of ez (\<^verbatim>\<open>ez-core/src/transcript.rs\<close>): the records, the writer and the reader. A transcript is the
  text of its file. Printing and parsing a line (\<^verbatim>\<open>serde_json\<close>), the clock and how much of a line a failing write leaves
  in the file are arguments.
\<close>

section \<open>Records\<close>

record ez_meta =
  sn_id :: string
  sn_cwd :: string
  sn_created_at :: string
  sn_ez_version :: string
  sn_profile :: string
  sn_model :: string
  sn_mode :: string

datatype user_source = Src_User | Src_FixTurn | Src_Hook | Src_ToolResults

datatype permission_outcome = PO_Allow | PO_AllowAlways | PO_AskApproved | PO_Denied | PO_Rejected

datatype initiator = By_User | By_Agent

record metrics =
  mx_duration_ms :: u64
  mx_first_token_ms :: "u64 option"
  mx_tokens_per_sec :: "f64 option"

record edit_record =
  er_path :: string
  er_diff :: string

record mcp_server_record =
  mr_name :: string
  mr_ok :: bool
  mr_tools :: nat
  mr_error :: "string option"

datatype ez_record =
    R_SessionStart ez_meta
  | R_UserMessage llm_message user_source
  | R_AssistantMessage llm_message u64 string llm_stop llm_usage metrics
  | R_ToolCall string string json string string
  | R_ToolResult string string string bool permission_outcome u64 "edit_record list"
  | R_HookRun string string bool "int option" string u64
  | R_ModeChange string string string initiator
  | R_ModelChange "string option" "string option"
  | R_Compaction string nat
  | R_TurnEnd string u64 u32 u32 u64 u64
  | R_SessionResumed
  | R_McpServers "mcp_server_record list"

type_synonym stamped = "string \<times> ez_record"

record trans_lib =
  xl_now :: "nat \<Rightarrow> string"
  xl_line :: "stamped \<Rightarrow> string option"
  xl_unline :: "string \<Rightarrow> stamped option"
  xl_write :: "nat \<Rightarrow> nat option"

section \<open>Writing\<close>

definition sessions_dir :: "string \<Rightarrow> string option \<Rightarrow> string" where
  "sessions_dir project over =
     (case over of Some d \<Rightarrow> (if d \<noteq> [] then d else project @ ''/.ez/sessions'') | None \<Rightarrow> project @ ''/.ez/sessions'')"

definition session_path :: "string \<Rightarrow> string option \<Rightarrow> string \<Rightarrow> string" where
  "session_path project over i = sessions_dir project over @ ''/'' @ i @ ''.jsonl''"

definition compaction_message :: "string \<Rightarrow> llm_message" where
  "compaction_message summary =
     user_text (''This session is being continued from a previous conversation. Summary:'' @ NL @ summary)"

text \<open>\<^verbatim>\<open>append\<close>: whether the record was written, and the file afterwards.\<close>

definition trans_append :: "trans_lib \<Rightarrow> nat \<Rightarrow> ez_record \<Rightarrow> string \<Rightarrow> bool \<times> string" where
  "trans_append lib i r text =
     (case xl_line lib (xl_now lib i, r) of
        None \<Rightarrow> (False, text)
      | Some line \<Rightarrow> (case xl_write lib i of
                        None \<Rightarrow> (True, text @ line @ NL)
                      | Some k \<Rightarrow> (False, text @ take k (line @ NL))))"

definition trans_create :: "trans_lib \<Rightarrow> nat \<Rightarrow> ez_meta \<Rightarrow> string option" where
  "trans_create lib i m = (case trans_append lib i (R_SessionStart m) [] of (ok, text) \<Rightarrow> if ok then Some text else None)"

text \<open>\<^verbatim>\<open>open\<close>: a last line that was cut off gets an end of its own.\<close>

definition trans_open :: "string \<Rightarrow> string" where
  "trans_open text = (if text \<noteq> [] \<and> last text \<noteq> CHR 0x0A then text @ NL else text)"

section \<open>Reading\<close>

record loaded_session =
  ld_meta :: ez_meta
  ld_messages :: "llm_message list"
  ld_mode :: string
  ld_model :: "string option"
  ld_records :: "stamped list"

definition trans_records :: "trans_lib \<Rightarrow> string \<Rightarrow> stamped list" where
  "trans_records lib text = List.map_filter (\<lambda>l. if trim l = [] then None else xl_unline lib l) (text_lines text)"

fun replay_record :: "ez_record \<Rightarrow> llm_message list \<times> string \<times> string option
    \<Rightarrow> llm_message list \<times> string \<times> string option" where
  "replay_record (R_UserMessage m src) (ms, md, pin) = (ms @ [m], md, pin)"
| "replay_record (R_AssistantMessage m i mo st u x) (ms, md, pin) = (ms @ [m], md, pin)"
| "replay_record (R_Compaction summary n) (ms, md, pin) = ([compaction_message summary], md, pin)"
| "replay_record (R_ModeChange from to reason by) (ms, md, pin) = (ms, to, pin)"
| "replay_record (R_ModelChange from to) (ms, md, pin) = (ms, md, to)"
| "replay_record r st = st"

definition trans_load :: "trans_lib \<Rightarrow> string \<Rightarrow> string + loaded_session" where
  "trans_load lib text =
     (if \<not> is_str text then Inl ''stream did not contain valid UTF-8''
      else let rs = trans_records lib text
           in case rs of
                (ts, R_SessionStart m) # _ \<Rightarrow>
                  (case fold (\<lambda>r. replay_record (snd r)) rs ([], sn_mode m, None) of
                     (ms, md, pin) \<Rightarrow>
                       Inr \<lparr>ld_meta = m, ld_messages = ms, ld_mode = md, ld_model = pin, ld_records = rs\<rparr>)
              | _ \<Rightarrow> Inl ''does not start with session_start'')"

definition dangling_tool_uses :: "loaded_session \<Rightarrow> (string \<times> string) list" where
  "dangling_tool_uses l =
     (if ld_messages l \<noteq> [] \<and> lm_role (last (ld_messages l)) = Ez_Assistant
      then map (\<lambda>(i, n, v). (i, n)) (tool_uses (last (ld_messages l))) else [])"

definition interrupted_results :: "string list \<Rightarrow> llm_message" where
  "interrupted_results ids =
     \<lparr>lm_role = Ez_User, lm_content = map (\<lambda>i. CB_ToolResult i ''interrupted before completion'' True) ids\<rparr>"

record session_summary =
  sy_id :: string
  sy_created_at :: string
  sy_first_prompt :: string
  sy_mode :: string
  sy_updated_at :: string

fun first_user_text :: "stamped list \<Rightarrow> string" where
  "first_user_text [] = []"
| "first_user_text ((ts, R_UserMessage m Src_User) # rs) = message_text m"
| "first_user_text (r # rs) = first_user_text rs"

text \<open>\<^verbatim>\<open>list_sessions\<close> of the files of the folder that can be read, newest first. The sort is stable.\<close>

definition summary_of :: "trans_lib \<Rightarrow> string \<Rightarrow> session_summary option" where
  "summary_of lib text =
     (case trans_load lib text of
        Inl e \<Rightarrow> None
      | Inr s \<Rightarrow> Some \<lparr>sy_id = sn_id (ld_meta s), sy_created_at = sn_created_at (ld_meta s),
                        sy_first_prompt = first_user_text (ld_records s), sy_mode = ld_mode s,
                        sy_updated_at = (if ld_records s = [] then [] else fst (last (ld_records s)))\<rparr>)"

definition list_sessions :: "trans_lib \<Rightarrow> string list \<Rightarrow> session_summary list" where
  "list_sessions lib files = rev (sort_key sy_id (rev (List.map_filter (summary_of lib) files)))"

section \<open>What is read is what was written\<close>

text \<open>The text of a list of records, all written in full.\<close>

definition trans_text :: "trans_lib \<Rightarrow> stamped list \<Rightarrow> string" where
  "trans_text lib rs = concat (map (\<lambda>r. unwrap_or [] (xl_line lib r) @ NL) rs)"

text \<open>What \<^verbatim>\<open>serde_json\<close> promises of a line: text without line feeds, not blank, that reads back as what it was.\<close>

definition line_good :: "trans_lib \<Rightarrow> stamped \<Rightarrow> bool" where
  "line_good lib r =
     (case xl_line lib r of
        None \<Rightarrow> False
      | Some l \<Rightarrow> is_str l \<and> CHR 0x0A \<notin> set l \<and> \<not> ends_with l [CHR 0x0D] \<and> trim l \<noteq> [] \<and> xl_unline lib l = Some r)"

lemma trans_text_Nil [simp]: "trans_text lib [] = []"
  by (simp add: trans_text_def)

lemma trans_text_snoc: "trans_text lib (rs @ [r]) = trans_text lib rs @ unwrap_or [] (xl_line lib r) @ NL"
  by (simp add: trans_text_def)

lemma trans_append_text:
  "trans_append lib i r (trans_text lib rs) = (True, text) \<Longrightarrow> text = trans_text lib (rs @ [(xl_now lib i, r)])"
  by (auto simp: trans_append_def trans_text_snoc unwrap_or_def split: option.splits)

end
