(* ===== verification/Ez_Agent.thy ===== *)
theory Ez_Agent
  imports Ez_Transcript
begin

text \<open>
  The agent loop of ez (\<^verbatim>\<open>ez-core/src/agent.rs\<close>): a session, its modes, gates and hooks, the execution of tool calls,
  compaction and the turns of a prompt. Everything outside (the model, the user, tools, hooks, the file system, the clock, other
  tasks that cancel or switch modes meanwhile) answers through the record \<open>ez_env\<close>, by the number of the query; the
  world counts the queries and keeps what the agent has sent, asked and run.
\<close>

section \<open>Events, requests and state\<close>

datatype tool_status = TS_Pending | TS_InProgress | TS_Completed | TS_Failed

datatype ez_event =
    EV_UserText string
  | EV_AgentText string
  | EV_AgentThought string
  | EV_ToolCall string string tool_kind "string list" json
  | EV_ToolCallUpdate string tool_status "string option" "file_edit list"
  | EV_Plan "json list"
  | EV_ModeChanged string
  | EV_Notice string
  | EV_Usage u64 u64 u64
  | EV_ModelChanged string

datatype permission_decision = PD_AllowOnce | PD_AllowAlways | PD_Reject | PD_Cancelled

record ask_request =
  pq_tool_call_id :: string
  pq_title :: string
  pq_kind :: tool_kind
  pq_input :: json
  pq_allow_always :: bool

datatype stop_reason = SR_EndTurn | SR_MaxTokens | SR_MaxTurnRequests | SR_Cancelled | SR_Refusal

fun stop_str :: "stop_reason \<Rightarrow> string" where
  "stop_str SR_EndTurn = ''end_turn''"
| "stop_str SR_MaxTokens = ''max_tokens''"
| "stop_str SR_MaxTurnRequests = ''max_turn_requests''"
| "stop_str SR_Cancelled = ''cancelled''"
| "stop_str SR_Refusal = ''refusal''"

definition SWITCH_MODE :: string where "SWITCH_MODE = ''SwitchMode''"
definition INTERRUPTED :: string where "INTERRUPTED = ''[Request interrupted by user]''"
definition SUMMARY_PROMPT :: string where
  "SUMMARY_PROMPT =
     ''Summarize the conversation so far so that work can continue from the summary alone. Cover: the user''
     @ [CHR 0x27] @ ''s goals, decisions made, files read or changed, the current state of the work, and concrete next steps. ''
     @ ''Be thorough but compact. Do not call any tools.''"

record ez_session =
  es_id :: string
  es_cwd :: string
  es_config :: ez_config
  es_modes :: mode_set
  es_mise_tasks :: "string list"
  es_extra_mcp :: "json btree"
  es_mcp :: bool
  es_mode :: string
  es_profile :: string
  es_messages :: "llm_message list"
  es_allow_always :: "string list"
  es_edited :: "string list"
  es_transcript :: "string option"
  es_started :: bool
  es_request_counter :: u64
  es_model_pin :: "string option"
  es_warned_profiles :: bool
  es_claude :: bool
  es_claude_mode :: string

text \<open>What the Claude Code child does during a turn: an update, a tool call, and the moment the cancellation is noticed.\<close>

datatype driver_event = DE_Update json | DE_Call string json | DE_Cancelled

record turn_stats =
  tn_requests :: u32
  tn_calls :: u32
  tn_input :: u64
  tn_output :: u64

text \<open>What was asked of the user, and a call of a tool: its id, its name and the kind it was offered with, the mode it ran in
  and its input.\<close>

type_synonym ask = "string \<times> ask_request \<times> permission_decision"
type_synonym tool_call = "string \<times> string \<times> tool_kind \<times> string \<times> json"

record ez_world =
  ew_s :: ez_session
  ew_events :: "ez_event list"
  ew_asks :: "ask list"
  ew_calls :: "tool_call list"
  ew_requests :: "llm_request list"
  ew_log :: "stamped list"
  ew_stats :: turn_stats
  ew_tick :: nat

record ez_env =
  ae_hooks :: hook_lib
  ae_trans :: trans_lib
  ae_model_override :: "string option"
  ae_provider_override :: bool
  ae_persist :: bool
  ae_unattended :: bool
  ae_capitalize :: "string \<Rightarrow> string"
  ae_builtin :: "string \<Rightarrow> tool"
  ae_mcp_start :: "nat \<Rightarrow> json btree \<Rightarrow> (string \<times> (string + nat)) list"
  ae_mcp_tools :: "nat \<Rightarrow> string list \<Rightarrow> nat \<Rightarrow> tool list"
  ae_mise_discover :: "nat \<Rightarrow> string list"
  ae_mise_tools :: "string list \<Rightarrow> string list \<Rightarrow> nat \<Rightarrow> tool list option"
  ae_system :: "nat \<Rightarrow> mode_set \<Rightarrow> string \<Rightarrow> string"
  ae_provider :: "nat \<Rightarrow> profile \<Rightarrow> string + unit"
  ae_complete :: "nat \<Rightarrow> llm_request \<Rightarrow> stream_event list \<times> (string + llm_response) option"
  ae_metrics :: "nat \<Rightarrow> metrics"
  ae_decide :: "nat \<Rightarrow> ask_request \<Rightarrow> permission_decision"
  ae_call :: "nat \<Rightarrow> string \<Rightarrow> json \<Rightarrow> string + tool_output"
  ae_cancelled :: "nat \<Rightarrow> bool"
  ae_registered :: "nat \<Rightarrow> bool"
  ae_pending_model :: "nat \<Rightarrow> string option option"
  ae_pending_mode :: "nat \<Rightarrow> string option"
  ae_json_len :: "llm_message list \<Rightarrow> nat"
  ae_over :: "nat \<Rightarrow> f64 \<Rightarrow> u64 \<Rightarrow> bool"
  ae_diff :: "string \<Rightarrow> file_edit \<Rightarrow> string"
  ae_driver_start :: "nat \<Rightarrow> (string + unit) option"
  ae_driver :: "nat \<Rightarrow> string \<Rightarrow> driver_event list \<times> (string + json)"
  ae_uuid :: "nat \<Rightarrow> string"

section \<open>Small steps of the world\<close>

definition ew_step :: "ez_world \<Rightarrow> ez_world" where
  "ew_step w = w\<lparr>ew_tick := Suc (ew_tick w)\<rparr>"

definition upd_s :: "(ez_session \<Rightarrow> ez_session) \<Rightarrow> ez_world \<Rightarrow> ez_world" where
  "upd_s f w = w\<lparr>ew_s := f (ew_s w)\<rparr>"

definition send_event :: "ez_event \<Rightarrow> ez_world \<Rightarrow> ez_world" where
  "send_event e w = w\<lparr>ew_events := ew_events w @ [e]\<rparr>"

definition notice :: "string \<Rightarrow> ez_world \<Rightarrow> ez_world" where
  "notice t = send_event (EV_Notice t)"

text \<open>\<^verbatim>\<open>rec\<close>: a failure to write is only logged. The world remembers the records that were written.\<close>

definition ez_rec :: "ez_env \<Rightarrow> ez_record \<Rightarrow> ez_world \<Rightarrow> ez_world" where
  "ez_rec env r w =
     (case es_transcript (ew_s w) of
        None \<Rightarrow> w
      | Some text \<Rightarrow>
          (case trans_append (ae_trans env) (ew_tick w) r text of
             (ok, text') \<Rightarrow>
               (ew_step (upd_s (\<lambda>s. s\<lparr>es_transcript := Some text'\<rparr>) w))
                 \<lparr>ew_log := (if ok then ew_log w @ [(xl_now (ae_trans env) (ew_tick w), r)] else ew_log w)\<rparr>))"

definition add_message :: "llm_message \<Rightarrow> ez_world \<Rightarrow> ez_world" where
  "add_message m = upd_s (\<lambda>s. s\<lparr>es_messages := es_messages s @ [m]\<rparr>)"

definition ez_push :: "ez_env \<Rightarrow> llm_message \<Rightarrow> user_source \<Rightarrow> ez_world \<Rightarrow> ez_world" where
  "ez_push env m src w = add_message m (ez_rec env (R_UserMessage m src) w)"

definition next_request :: "ez_world \<Rightarrow> ez_world" where
  "next_request = upd_s (\<lambda>s. s\<lparr>es_request_counter := es_request_counter s + 1\<rparr>)"

text \<open>An answer of the model, recorded and remembered.\<close>

definition push_assistant :: "ez_env \<Rightarrow> llm_message \<Rightarrow> string \<Rightarrow> llm_stop \<Rightarrow> llm_usage \<Rightarrow> metrics \<Rightarrow> ez_world \<Rightarrow> ez_world" where
  "push_assistant env m model stop usage x w =
     (let w1 = next_request w
      in add_message m (ez_rec env (R_AssistantMessage m (es_request_counter (ew_s w1)) model stop usage x) w1))"

definition no_metrics :: metrics where
  "no_metrics = \<lparr>mx_duration_ms = 0, mx_first_token_ms = None, mx_tokens_per_sec = None\<rparr>"

definition push_interruption :: "ez_env \<Rightarrow> ez_world \<Rightarrow> ez_world" where
  "push_interruption env =
     push_assistant env (assistant_text INTERRUPTED) [] LS_EndTurn \<lparr>lu_input = 0, lu_output = 0\<rparr> no_metrics"

text \<open>\<^verbatim>\<open>mode_def\<close> panics when the current mode is gone. That never happens (\<open>mode_always_known\<close>), so the value there does not
  matter.\<close>

definition mode_of :: "ez_session \<Rightarrow> mode_def" where
  "mode_of s = unwrap_or mode_default (mode_get (es_modes s) (es_mode s))"

definition session_hooks :: "ez_session \<Rightarrow> hooks_config" where
  "session_hooks s = hooks_merged (cf_hooks (es_config s)) (md_hooks (mode_of s))"

section \<open>Models\<close>

definition model_for :: "ez_env \<Rightarrow> ez_session \<Rightarrow> string + (string \<times> profile)" where
  "model_for env s =
     (let mode = mode_of s;
          known = (\<lambda>p. map_of (cf_profiles (es_config s)) p \<noteq> None);
          (pn, mm) = (case (md_profile mode, md_model mode) of
                        (None, Some m) \<Rightarrow> (if known m then (Some m, None) else (None, Some m))
                      | pm \<Rightarrow> pm);
          (pn, mm) = (case pn of Some p \<Rightarrow> (if known p then (pn, mm) else (None, None)) | None \<Rightarrow> (pn, mm));
          other = (case pn of Some p \<Rightarrow> p \<noteq> es_profile s | None \<Rightarrow> False)
      in case config_profile (es_config s) (unwrap_or (es_profile s) pn) of
           Inl e \<Rightarrow> Inl e
         | Inr profile \<Rightarrow>
             (let model = (case es_model_pin s of
                             Some m \<Rightarrow> m
                           | None \<Rightarrow> (case mm of
                                        Some m \<Rightarrow> m
                                      | None \<Rightarrow> (case ae_model_override env of
                                                   Some m \<Rightarrow> if \<not> other then m else pf_model profile
                                                 | None \<Rightarrow> pf_model profile)))
              in Inr (model, profile\<lparr>pf_model := model\<rparr>)))"

definition missing_profile_notices :: "ez_session \<Rightarrow> string list" where
  "missing_profile_notices s =
     List.map_filter (\<lambda>(i, m). case md_profile m of
         None \<Rightarrow> None
       | Some p \<Rightarrow> (if map_of (cf_profiles (es_config s)) p = None
                    then Some (''mode `'' @ i @ ''` uses profile `'' @ p @ ''`, which isn'' @ [CHR 0x27]
                               @ ''t configured; falling back to `'' @ es_profile s @ ''` (run `ez setup` to add it)'')
                    else None))
       (ms_modes (es_modes s))"

definition pin_model :: "ez_env \<Rightarrow> string option \<Rightarrow> ez_world \<Rightarrow> ez_world" where
  "pin_model env model w =
     (if es_model_pin (ew_s w) = model then w
      else let from = es_model_pin (ew_s w);
               w1 = ez_rec env (R_ModelChange from model) (upd_s (\<lambda>s. s\<lparr>es_model_pin := model\<rparr>) w);
               w2 = notice (case model of
                              Some m \<Rightarrow> ''model set to '' @ m @ '' for this session''
                            | None \<Rightarrow> ''model pin cleared; using the mode/profile model'') w1
           in case model_for env (ew_s w2) of Inl e \<Rightarrow> w2 | Inr (m, _) \<Rightarrow> send_event (EV_ModelChanged m) w2)"

section \<open>Hooks\<close>

fun record_hooks :: "ez_env \<Rightarrow> hook_event \<Rightarrow> hook_outcome list \<Rightarrow> ez_world \<Rightarrow> ez_world" where
  "record_hooks env ev [] w = w"
| "record_hooks env ev (o' # os) w =
     record_hooks env ev os
       (ez_rec env (R_HookRun (hook_event_str ev) (hs_run (ho_spec o')) (ho_success o') (ho_exit_code o') (ho_output o')
                     (ho_duration_ms o')) w)"

definition run_hooks :: "ez_env \<Rightarrow> hook_event \<Rightarrow> string option \<Rightarrow> json \<Rightarrow> ez_world \<Rightarrow> hook_outcome list \<times> ez_world" where
  "run_hooks env ev name payload w =
     (let specs = hooks_get (session_hooks (ew_s w)) ev
      in if specs = [] then ([], w)
         else let out = hook_run (ae_hooks env) (ew_tick w) specs ev name payload
              in (out, record_hooks env ev out (w\<lparr>ew_tick := ew_tick w + length out\<rparr>)))"

definition notify_blocked :: "hook_outcome list \<Rightarrow> ez_world \<Rightarrow> ez_world" where
  "notify_blocked out w =
     fold (\<lambda>o'. notice (''hook `'' @ hs_run (ho_spec o') @ ''` failed:'' @ NL @ ho_output o'))
       (filter (failed_with OF_Block) out) w"

section \<open>Modes\<close>

text \<open>The model the session had, and the one it has now.\<close>

definition announce_model :: "ez_env \<Rightarrow> string + (string \<times> profile) \<Rightarrow> ez_world \<Rightarrow> ez_world" where
  "announce_model env old w =
     (case (old, model_for env (ew_s w)) of
        (Inr (o', _), Inr (n, _)) \<Rightarrow>
          (if o' \<noteq> n then send_event (EV_ModelChanged n) (notice (''model changed: '' @ o' @ '' -> '' @ n) w) else w)
      | _ \<Rightarrow> w)"

definition switch_mode :: "ez_env \<Rightarrow> string \<Rightarrow> string \<Rightarrow> initiator \<Rightarrow> bool \<Rightarrow> ez_world \<Rightarrow> ez_world" where
  "switch_mode env to reason by send_event' w =
     (let old = model_for env (ew_s w);
          from = es_mode (ew_s w);
          w1 = ew_step (upd_s (\<lambda>s. s\<lparr>es_mode := to, es_mise_tasks := ae_mise_discover env (ew_tick w)\<rparr>) w);
          w2 = (if send_event' then send_event (EV_ModeChanged to) w1 else w1);
          w3 = ez_rec env (R_ModeChange from to reason by) w2;
          w4 = announce_model env old w3;
          (out, w5) = run_hooks env HE_ModeChange None
                        (jobj [(''event'', JStr ''mode_change''), (''session_id'', JStr (es_id (ew_s w4))),
                               (''from'', JStr from), (''to'', JStr to)]) w4
      in notify_blocked out w5)"

definition apply_pending_mode :: "ez_env \<Rightarrow> ez_world \<Rightarrow> ez_world" where
  "apply_pending_mode env w =
     (if \<not> ae_registered env (ew_tick w) then ew_step w
      else let i = ew_tick w; w0 = ew_step w;
               w1 = (case ae_pending_model env i of None \<Rightarrow> w0 | Some m \<Rightarrow> pin_model env m w0)
           in case ae_pending_mode env i of
                None \<Rightarrow> w1
              | Some to \<Rightarrow> (if to \<noteq> es_mode (ew_s w1) then switch_mode env to ''user request'' By_User False w1 else w1))"

section \<open>Tools of a mode\<close>

definition interactive_tool :: "string \<Rightarrow> bool" where
  "interactive_tool name \<longleftrightarrow> name = ''AskUserQuestion'' \<or> name = SWITCH_MODE"

definition switch_title :: "(string \<times> string \<times> string) list \<Rightarrow> json \<Rightarrow> string" where
  "switch_title targets input =
     (let i = unwrap_or [] (json_str (json_field input ''mode_id''));
          name = (case map_of targets i of None \<Rightarrow> i | Some (n, _) \<Rightarrow> n);
          reason = unwrap_or [] (json_str (json_field input ''reason''))
      in ''Switch to '' @ name @ '' mode: '' @ reason)"

definition switch_tool :: "(string \<times> string \<times> string) list \<Rightarrow> tool" where
  "switch_tool targets =
     \<lparr>tl_name = SWITCH_MODE,
      tl_description = ''Propose switching to another lifecycle mode when the current phase'' @ [CHR 0x27]
        @ ''s work is done. The user may need to approve. Available modes:'' @ NL
        @ concat (map (\<lambda>(i, n, d). ''- '' @ i @ '': '' @ d @ NL) targets),
      tl_schema = jobj [(''type'', JStr ''object''),
        (''properties'', jobj [(''mode_id'', jobj [(''type'', JStr ''string''), (''enum'', JArr (map (\<lambda>(i, n, d). JStr i) targets))]),
                               (''reason'', jobj [(''type'', JStr ''string''),
                                                  (''description'', JStr ''Why the switch is appropriate now'')])]),
        (''required'', JArr [JStr ''mode_id'', JStr ''reason''])],
      tl_kind = Kind_SwitchMode, tl_title = switch_title targets, tl_locations = (\<lambda>_. [])\<rparr>"

definition build_tools :: "ez_env \<Rightarrow> ez_world \<Rightarrow> tool list" where
  "build_tools env w =
     (let s = ew_s w; mode = mode_of s;
          builtin = map (ae_builtin env)
            (filter (\<lambda>n. \<not> (ae_unattended env \<and> interactive_tool n)
                         \<and> (case md_tools mode of None \<Rightarrow> True | Some l \<Rightarrow> n \<in> set l)) BUILTIN_TOOLS);
          targets = map (\<lambda>i. (i, display_name (ae_capitalize env) (es_modes s) i,
                              (case mode_get (es_modes s) i of None \<Rightarrow> [] | Some m \<Rightarrow> md_description m)))
                      (switch_targets (es_modes s) (es_mode s));
          switch = (if targets \<noteq> [] \<and> \<not> ae_unattended env then [switch_tool targets] else []);
          mcp = (if es_mcp s then ae_mcp_tools env (ew_tick w) (md_mcp_tools mode) (cf_mcp_lazy_threshold (es_config s)) else []);
          mise = unwrap_or [] (ae_mise_tools env (md_mise_tasks mode) (es_mise_tasks s) (cf_mise_lazy_threshold (es_config s)))
      in builtin @ switch @ mcp @ mise)"

text \<open>Collecting into a \<^verbatim>\<open>HashMap\<close> keeps the last tool of a name.\<close>

definition tool_table :: "tool list \<Rightarrow> string \<Rightarrow> tool option" where
  "tool_table tools name = map_of (rev (map (\<lambda>t. (tl_name t, t)) tools)) name"

section \<open>Gates\<close>

datatype gate =
    Gate_Run permission_outcome "(string \<times> string) option"
  | Gate_Skip string permission_outcome bool

text \<open>\<^verbatim>\<open>client.request_permission\<close>: the answer, and the question as it was asked.\<close>

definition ask_user :: "ez_env \<Rightarrow> string \<Rightarrow> ask_request \<Rightarrow> ez_world \<Rightarrow> permission_decision \<times> ez_world" where
  "ask_user env name req w =
     (let d = ae_decide env (ew_tick w) req in (d, ew_step (w\<lparr>ew_asks := ew_asks w @ [(name, req, d)]\<rparr>)))"

definition tool_gate :: "ez_env \<Rightarrow> string \<Rightarrow> string \<Rightarrow> string \<Rightarrow> tool_kind \<Rightarrow> json \<Rightarrow> ez_world \<Rightarrow> gate \<times> ez_world" where
  "tool_gate env i name title kind input w =
     (if name \<in> set (es_allow_always (ew_s w)) then (Gate_Run PO_AllowAlways None, w)
      else case perm_resolve (hl_glob (ae_hooks env)) name kind (mode_of (ew_s w)) (es_config (ew_s w)) of
             Perm_Allow \<Rightarrow> (Gate_Run PO_Allow None, w)
           | Perm_Deny \<Rightarrow> (Gate_Skip ''denied by policy'' PO_Denied False, w)
           | Perm_Ask \<Rightarrow>
               (case ask_user env name \<lparr>pq_tool_call_id = i, pq_title = title, pq_kind = kind, pq_input = input,
                                        pq_allow_always = True\<rparr> w of
                  (d, w1) \<Rightarrow>
                    (case d of
                       PD_AllowOnce \<Rightarrow> (Gate_Run PO_AskApproved None, w1)
                     | PD_AllowAlways \<Rightarrow>
                         (Gate_Run PO_AllowAlways None,
                          upd_s (\<lambda>s. s\<lparr>es_allow_always := name # es_allow_always s\<rparr>) w1)
                     | PD_Reject \<Rightarrow> (Gate_Skip ''user rejected'' PO_Rejected False, w1)
                     | PD_Cancelled \<Rightarrow> (Gate_Skip ''cancelled by user'' PO_Rejected True, w1))))"

definition switch_gate :: "ez_env \<Rightarrow> string \<Rightarrow> string \<Rightarrow> json \<Rightarrow> ez_world \<Rightarrow> gate \<times> ez_world" where
  "switch_gate env i title input w =
     (let s = ew_s w;
          target = unwrap_or [] (json_str (json_field input ''mode_id''));
          reason = unwrap_or [] (json_str (json_field input ''reason''))
      in if target \<notin> set (switch_targets (es_modes s) (es_mode s))
         then (Gate_Skip (''cannot switch to mode `'' @ target @ ''` from `'' @ es_mode s @ ''`'') PO_Denied False, w)
         else if target \<in> set (md_auto_advance_to (mode_of s)) then (Gate_Run PO_Allow (Some (target, reason)), w)
         else case ask_user env SWITCH_MODE \<lparr>pq_tool_call_id = i, pq_title = title, pq_kind = Kind_SwitchMode,
                                              pq_input = input, pq_allow_always = False\<rparr> w of
                (d, w1) \<Rightarrow>
                  (case d of
                     PD_AllowOnce \<Rightarrow> (Gate_Run PO_AskApproved (Some (target, reason)), w1)
                   | PD_AllowAlways \<Rightarrow> (Gate_Run PO_AskApproved (Some (target, reason)), w1)
                   | PD_Reject \<Rightarrow> (Gate_Skip ''user declined the mode switch; stay in the current mode'' PO_Rejected False, w1)
                   | PD_Cancelled \<Rightarrow> (Gate_Skip ''cancelled by user'' PO_Rejected True, w1)))"

section \<open>Running a tool\<close>

definition edit_record_of :: "ez_env \<Rightarrow> string \<Rightarrow> file_edit \<Rightarrow> edit_record" where
  "edit_record_of env cwd e = \<lparr>er_path = relative_to cwd (fe_path e), er_diff = ae_diff env (relative_to cwd (fe_path e)) e\<rparr>"

text \<open>What became of a tool use: the text, whether it is an error, the permission, whether the turn was cancelled, the edits,
  and whether the tool ran.\<close>

record use_outcome =
  uo_content :: string
  uo_error :: bool
  uo_permission :: permission_outcome
  uo_cancelled :: bool
  uo_edits :: "file_edit list"
  uo_ran :: bool

definition refused :: "string \<Rightarrow> permission_outcome \<Rightarrow> bool \<Rightarrow> use_outcome" where
  "refused msg p c =
     \<lparr>uo_content = msg, uo_error = True, uo_permission = p, uo_cancelled = c, uo_edits = [], uo_ran = False\<rparr>"

text \<open>\<^verbatim>\<open>tool.call\<close>, once it may run.\<close>

definition call_tool :: "ez_env \<Rightarrow> tool \<Rightarrow> string \<Rightarrow> json \<Rightarrow> permission_outcome \<Rightarrow> ez_world \<Rightarrow> use_outcome \<times> ez_world" where
  "call_tool env t i input p w =
     (let w1 = ew_step (w\<lparr>ew_calls := ew_calls w @ [(i, tl_name t, tl_kind t, es_mode (ew_s w), input)]\<rparr>)
      in case ae_call env (ew_tick w) (tl_name t) input of
           Inl e \<Rightarrow> (\<lparr>uo_content = e, uo_error = True, uo_permission = p, uo_cancelled = False, uo_edits = [], uo_ran = True\<rparr>, w1)
         | Inr out \<Rightarrow>
             (let w2 = (case to_plan out of None \<Rightarrow> w1 | Some plan \<Rightarrow> send_event (EV_Plan plan) w1);
                  w3 = (if to_is_error out then w2
                        else upd_s (\<lambda>s. s\<lparr>es_edited := sort (remdups (es_edited s @ map fe_path (to_edits out)))\<rparr>) w2)
              in (\<lparr>uo_content = to_content out, uo_error = to_is_error out, uo_permission = p, uo_cancelled = False,
                   uo_edits = to_edits out, uo_ran = True\<rparr>, w3)))"

text \<open>The part of \<^verbatim>\<open>execute_tool_use\<close> after the gate let the use through: the hooks, a switch of the mode, the call.\<close>

definition run_allowed :: "ez_env \<Rightarrow> tool \<Rightarrow> string \<Rightarrow> string \<Rightarrow> json \<Rightarrow> permission_outcome \<Rightarrow> (string \<times> string) option
    \<Rightarrow> ez_world \<Rightarrow> use_outcome \<times> ez_world" where
  "run_allowed env t i name input p target w =
     (let (pre, w1) = run_hooks env HE_PreToolUse (Some name)
                        (jobj [(''event'', JStr ''pre_tool_use''), (''session_id'', JStr (es_id (ew_s w))),
                               (''tool_name'', JStr name), (''tool_input'', input)]) w
      in case find (failed_with OF_Block) pre of
           Some o' \<Rightarrow>
             (refused (''blocked by pre_tool_use hook `'' @ hs_run (ho_spec o') @ ''`:'' @ NL @ ho_output o') PO_Denied False, w1)
         | None \<Rightarrow>
             (let w2 = send_event (EV_ToolCallUpdate i TS_InProgress None []) w1
              in case target of
                   Some (to, reason) \<Rightarrow>
                     (let w3 = switch_mode env to reason By_Agent True w2
                      in (\<lparr>uo_content = ''Switched to '' @ display_name (ae_capitalize env) (es_modes (ew_s w3)) to
                             @ '' mode. The tools for this mode are available starting with your next request.'',
                           uo_error = False, uo_permission = p, uo_cancelled = False, uo_edits = [], uo_ran = True\<rparr>, w3))
                 | None \<Rightarrow> call_tool env t i input p w2))"

definition attempt_use :: "ez_env \<Rightarrow> tool option \<Rightarrow> string \<Rightarrow> string \<Rightarrow> string \<Rightarrow> json \<Rightarrow> ez_world \<Rightarrow> use_outcome \<times> ez_world" where
  "attempt_use env tool i name title input w =
     (case tool of
        None \<Rightarrow> (refused (''unknown tool `'' @ name @ ''`'') PO_Allow False, w)
      | Some t \<Rightarrow>
          (if ae_cancelled env (ew_tick w) then (refused ''cancelled before execution'' PO_Rejected True, ew_step w)
           else let (g, w1) = (if name = SWITCH_MODE then switch_gate env i title input (ew_step w)
                               else tool_gate env i name title (tl_kind t) input (ew_step w))
                in case g of
                     Gate_Skip msg p c \<Rightarrow> (refused msg p c, w1)
                   | Gate_Run p target \<Rightarrow> run_allowed env t i name input p target w1))"

definition post_hooks :: "ez_env \<Rightarrow> string \<Rightarrow> json \<Rightarrow> use_outcome \<Rightarrow> ez_world \<Rightarrow> string \<times> ez_world" where
  "post_hooks env name input u w =
     (if \<not> uo_ran u then (uo_content u, w)
      else let (post, w1) = run_hooks env HE_PostToolUse (Some name)
                              (jobj [(''event'', JStr ''post_tool_use''), (''session_id'', JStr (es_id (ew_s w))),
                                     (''tool_name'', JStr name), (''tool_input'', input),
                                     (''tool_response'', JStr (uo_content u)), (''is_error'', JBool (uo_error u))]) w
           in (uo_content u @ concat (map (\<lambda>o'. NL @ NL @ ''[post_tool_use hook `'' @ hs_run (ho_spec o') @ ''` failed]''
                                                @ NL @ ho_output o') (filter (failed_with OF_FixTurn) post)), w1))"

definition execute_tool_use :: "ez_env \<Rightarrow> (string \<Rightarrow> tool option) \<Rightarrow> string \<Rightarrow> string \<Rightarrow> json \<Rightarrow> ez_world
    \<Rightarrow> (content_block \<times> bool) \<times> ez_world" where
  "execute_tool_use env tools i name input w =
     (let tool = tools name;
          (title, kind, locations) =
            (case tool of
               Some t \<Rightarrow> (tl_title t input, tl_kind t, map (path_join (es_cwd (ew_s w))) (tl_locations t input))
             | None \<Rightarrow> (name, Kind_Other, []));
          w1 = ez_rec env (R_ToolCall i name input title (kind_as_str kind))
                 (send_event (EV_ToolCall i title kind locations input) w);
          (u, w2) = attempt_use env tool i name title input w1;
          w3 = send_event (EV_ToolCallUpdate i (if uo_error u then TS_Failed else TS_Completed) (Some (uo_content u)) (uo_edits u)) w2;
          (content, w4) = post_hooks env name input u w3;
          w5 = ez_rec env (R_ToolResult i name (uo_content u) (uo_error u) (uo_permission u)
                 (hl_ms (ae_hooks env) (ew_tick w4)) (map (edit_record_of env (es_cwd (ew_s w4))) (uo_edits u))) w4
      in ((CB_ToolResult i content (uo_error u), uo_cancelled u), w5))"

definition skip_tool_use :: "ez_env \<Rightarrow> string \<Rightarrow> string \<Rightarrow> json \<Rightarrow> ez_world \<Rightarrow> content_block \<times> ez_world" where
  "skip_tool_use env i name input w =
     (CB_ToolResult i ''cancelled before execution'' True,
      ez_rec env (R_ToolResult i name ''cancelled before execution'' True PO_Rejected 0 [])
        (ez_rec env (R_ToolCall i name input name (kind_as_str Kind_Other)) w))"

text \<open>The tool uses of an answer, in order; after a cancelled one the others are skipped.\<close>

definition count_call :: "ez_world \<Rightarrow> ez_world" where
  "count_call w = w\<lparr>ew_stats := (ew_stats w)\<lparr>tn_calls := tn_calls (ew_stats w) + 1\<rparr>\<rparr>"

fun execute_uses :: "ez_env \<Rightarrow> (string \<Rightarrow> tool option) \<Rightarrow> (string \<times> string \<times> json) list \<Rightarrow> bool \<Rightarrow> ez_world
    \<Rightarrow> content_block list \<times> bool \<times> ez_world" where
  "execute_uses env tools [] cancelled w = ([], cancelled, w)"
| "execute_uses env tools ((i, name, input) # uses) cancelled w =
     (if cancelled
      then (let (b, w1) = skip_tool_use env i name input w; (bs, c, w2) = execute_uses env tools uses True w1
            in (b # bs, c, w2))
      else (let ((b, c), w1) = execute_tool_use env tools i name input (count_call w);
                (bs, c', w2) = execute_uses env tools uses c w1
            in (b # bs, c', w2)))"

section \<open>The end of a turn\<close>

definition finish_edits :: "ez_env \<Rightarrow> u32 \<Rightarrow> ez_world \<Rightarrow> string option \<times> u32 \<times> ez_world" where
  "finish_edits env fix_turns w =
     (let files = es_edited (ew_s w)
      in if files = [] then (None, fix_turns, w)
         else let w0 = upd_s (\<lambda>s. s\<lparr>es_edited := []\<rparr>) w;
                  specs = hc_post_edit (session_hooks (ew_s w0))
              in if specs = [] then (None, fix_turns, w0)
                 else let out = run_post_edit (ae_hooks env) (ew_tick w0) specs (es_id (ew_s w0))
                                  (map (relative_to (es_cwd (ew_s w0))) files);
                          w1 = notify_blocked out
                                 (record_hooks env HE_PostEdit out (w0\<lparr>ew_tick := ew_tick w0 + length out\<rparr>));
                          failing = filter (failed_with OF_FixTurn) out
                      in case fix_turn_prompt out of
                           None \<Rightarrow> (None, fix_turns, w1)
                         | Some prompt \<Rightarrow>
                             (let mx = Min (set (map (\<lambda>o'. hs_max_fix_turns (ho_spec o')) failing));
                                  cmd = join ''`, `'' (map (\<lambda>o'. hs_run (ho_spec o')) failing)
                              in if fix_turns \<ge> mx
                                 then (None, fix_turns,
                                       notice (''post-edit hook `'' @ cmd @ ''` still failing after '' @ show_nat (unat mx)
                                               @ '' fix turn(s)'') w1)
                                 else (Some prompt, fix_turns + 1,
                                       notice (''post-edit hook `'' @ cmd @ ''` failed; starting fix turn ''
                                               @ show_nat (unat (fix_turns + 1)) @ ''/'' @ show_nat (unat mx)) w1)))"

section \<open>Requests\<close>

text \<open>\<^verbatim>\<open>normalize_messages\<close>: adjacent messages of one role are merged, tool results first in those of the user.\<close>

definition merge_into :: "llm_message \<Rightarrow> llm_message \<Rightarrow> llm_message" where
  "merge_into l m =
     (let content = lm_content l @ lm_content m
      in l\<lparr>lm_content := if lm_role l = Ez_User then filter is_result content @ filter (\<lambda>b. \<not> is_result b) content
                         else content\<rparr>)"

definition normalize_step :: "llm_message \<Rightarrow> llm_message list \<Rightarrow> llm_message list" where
  "normalize_step m out =
     (if out \<noteq> [] \<and> lm_role (last out) = lm_role m then butlast out @ [merge_into (last out) m] else out @ [m])"

definition normalize_messages :: "llm_message list \<Rightarrow> llm_message list" where
  "normalize_messages ms = fold normalize_step ms []"

fun stream_emit :: "stream_event \<Rightarrow> ez_world \<Rightarrow> ez_world" where
  "stream_emit (SE_TextDelta t) w = send_event (EV_AgentText t) w"
| "stream_emit (SE_ThinkingDelta t) w = send_event (EV_AgentThought t) w"
| "stream_emit (SE_ToolUseStart i n) w = w"

text \<open>\<^verbatim>\<open>stream_request\<close>: \<open>None\<close> when it was cancelled.\<close>

definition stream_request :: "ez_env \<Rightarrow> llm_request \<Rightarrow> ez_world \<Rightarrow> (string + (llm_response \<times> metrics)) option \<times> ez_world" where
  "stream_request env req w =
     (case ae_complete env (ew_tick w) req of
        (evs, r) \<Rightarrow>
          (let w1 = fold stream_emit evs (ew_step (w\<lparr>ew_requests := ew_requests w @ [req]\<rparr>))
           in (case r of
                 None \<Rightarrow> None
               | Some (Inl e) \<Rightarrow> Some (Inl e)
               | Some (Inr resp) \<Rightarrow> Some (Inr (resp, ae_metrics env (ew_tick w))), w1)))"

definition compact_if_needed :: "ez_env \<Rightarrow> string \<Rightarrow> ez_world \<Rightarrow> ez_world" where
  "compact_if_needed env system w =
     (case model_for env (ew_s w) of
        Inl e \<Rightarrow> w
      | Inr (model, profile) \<Rightarrow>
          (let s = ew_s w; chars = ae_json_len env (es_messages s) + length system
           in if length (es_messages s) < 4
                \<or> \<not> ae_over env (chars div 4) (cf_compaction_threshold (es_config s)) (pf_context_window profile) then w
              else case ae_provider env (ew_tick w) profile of
                     Inl e \<Rightarrow> ew_step w
                   | Inr _ \<Rightarrow>
                       (let ms = normalize_messages (es_messages s);
                            messages = (if ms \<noteq> [] \<and> lm_role (last ms) = Ez_User
                                        then butlast ms @ [(last ms)\<lparr>lm_content := lm_content (last ms) @ [CB_Text SUMMARY_PROMPT]\<rparr>]
                                        else ms @ [user_text SUMMARY_PROMPT]);
                            req = \<lparr>lq_model = model, lq_system = system, lq_messages = messages, lq_tools = [],
                                   lq_max_tokens = pf_max_tokens profile, lq_thinking = None\<rparr>;
                            w1 = (ew_step (ew_step w))\<lparr>ew_requests := ew_requests w @ [req]\<rparr>
                        in case snd (ae_complete env (Suc (ew_tick w)) req) of
                             None \<Rightarrow> w1
                           | Some (Inl e) \<Rightarrow> notice (''context compaction failed: '' @ e) w1
                           | Some (Inr r) \<Rightarrow>
                               (let summary = message_text (lr_message r)
                                in if trim summary = [] then w1
                                   else notice (''conversation compacted ('' @ show_nat (length (es_messages s))
                                                @ '' messages summarized)'')
                                     (ez_rec env (R_Compaction summary (length (es_messages s)))
                                       (upd_s (\<lambda>s. s\<lparr>es_messages := [compaction_message summary]\<rparr>) w1))))))"

section \<open>Turns\<close>

fun mcp_report :: "(string \<times> (string + nat)) list \<Rightarrow> ez_world \<Rightarrow> mcp_server_record list \<times> ez_world" where
  "mcp_report [] w = ([], w)"
| "mcp_report ((name, Inr n) # st) w =
     (case mcp_report st w of (rs, w') \<Rightarrow> (\<lparr>mr_name = name, mr_ok = True, mr_tools = n, mr_error = None\<rparr> # rs, w'))"
| "mcp_report ((name, Inl e) # st) w =
     (case mcp_report st (notice (''MCP server `'' @ name @ ''` failed to start: '' @ e) w) of
        (rs, w') \<Rightarrow> (\<lparr>mr_name = name, mr_ok = False, mr_tools = 0, mr_error = Some e\<rparr> # rs, w'))"

definition start_mcp :: "ez_env \<Rightarrow> ez_world \<Rightarrow> ez_world" where
  "start_mcp env w =
     (let configs = fold (\<lambda>(k, v). bt_insert k v) (es_extra_mcp (ew_s w)) (cf_mcp_servers (es_config (ew_s w)))
      in if es_mcp (ew_s w) \<or> configs = [] then w
         else let (rs, w1) = mcp_report (ae_mcp_start env (ew_tick w) configs) (ew_step w)
              in upd_s (\<lambda>s. s\<lparr>es_mcp := True\<rparr>) (ez_rec env (R_McpServers rs) w1))"

definition count_request :: "llm_usage \<Rightarrow> ez_world \<Rightarrow> ez_world" where
  "count_request u w =
     w\<lparr>ew_stats := (ew_stats w)\<lparr>tn_requests := tn_requests (ew_stats w) + 1, tn_input := tn_input (ew_stats w) + lu_input u,
                                tn_output := tn_output (ew_stats w) + lu_output u\<rparr>\<rparr>"

definition stop_hooks :: "ez_env \<Rightarrow> ez_world \<Rightarrow> ez_world" where
  "stop_hooks env w =
     (case run_hooks env HE_Stop None (jobj [(''event'', JStr ''stop''), (''session_id'', JStr (es_id (ew_s w)))]) w of
        (out, w') \<Rightarrow> notify_blocked out w')"

text \<open>What an iteration of the loop decides: to go on with so many fix turns, or to return.\<close>

datatype turn_next = Turn_Again u32 | Turn_Done "string + stop_reason"

text \<open>An answer of the model is in: its tool uses are run, or the turn ends.\<close>

definition after_answer :: "ez_env \<Rightarrow> tool list \<Rightarrow> llm_response \<Rightarrow> u32 \<Rightarrow> ez_world \<Rightarrow> turn_next \<times> ez_world" where
  "after_answer env tools resp fix_turns w =
     (let uses = tool_uses (lr_message resp)
      in if uses = []
         then (case finish_edits env fix_turns w of
                 (Some fix, ft, w1) \<Rightarrow> (Turn_Again ft, ez_push env (user_text fix) Src_FixTurn w1)
               | (None, ft, w1) \<Rightarrow>
                   (Turn_Done (Inr (if lr_stop resp = LS_MaxTokens then SR_MaxTokens else SR_EndTurn)), stop_hooks env w1))
         else (case execute_uses env (tool_table tools) uses False w of
                 (results, cancelled, w1) \<Rightarrow>
                   (let w2 = ez_push env \<lparr>lm_role = Ez_User, lm_content = results\<rparr> Src_ToolResults w1
                    in (if cancelled then Turn_Done (Inr SR_Cancelled) else Turn_Again fix_turns, w2))))"

definition one_turn :: "ez_env \<Rightarrow> bool \<Rightarrow> u32 \<Rightarrow> ez_world \<Rightarrow> turn_next \<times> ez_world" where
  "one_turn env first fix_turns w =
     (let w1 = apply_pending_mode env w;
          system = ae_system env (ew_tick w1) (es_modes (ew_s w1)) (es_mode (ew_s w1));
          w2 = (if first then ew_step w1 else compact_if_needed env system (ew_step w1))
      in if ae_cancelled env (ew_tick w2) then (Turn_Done (Inr SR_Cancelled), ew_step w2)
         else let w3 = ew_step w2; tools = build_tools env w3
              in case model_for env (ew_s w3) of
                   Inl e \<Rightarrow> (Turn_Done (Inl e), w3)
                 | Inr (model, profile) \<Rightarrow>
                     (case ae_provider env (ew_tick w3) profile of
                        Inl e \<Rightarrow> (Turn_Done (Inl e), ew_step w3)
                      | Inr _ \<Rightarrow>
                          (case stream_request env
                             \<lparr>lq_model = model, lq_system = system, lq_messages = normalize_messages (es_messages (ew_s w3)),
                              lq_tools = map spec_of tools, lq_max_tokens = pf_max_tokens profile,
                              lq_thinking = pf_thinking profile\<rparr> (ew_step w3) of
                             (None, w4) \<Rightarrow> (Turn_Done (Inr SR_Cancelled), w4)
                           | (Some (Inl e), w4) \<Rightarrow> (Turn_Done (Inl e), w4)
                           | (Some (Inr (resp, x)), w4) \<Rightarrow>
                               (let u = lr_usage resp; w5 = count_request u w4;
                                    w6 = (if lu_input u + lu_output u > 0
                                          then send_event (EV_Usage (lu_input u) (lu_output u) (pf_context_window profile)) w5 else w5);
                                    w7 = push_assistant env (lr_message resp) model (lr_stop resp) u x w6
                                in after_answer env tools resp fix_turns w7))))"

fun turns :: "ez_env \<Rightarrow> nat \<Rightarrow> bool \<Rightarrow> u32 \<Rightarrow> ez_world \<Rightarrow> (string + stop_reason) \<times> ez_world" where
  "turns env 0 first fix_turns w = (Inr SR_MaxTurnRequests, snd (snd (finish_edits env (- 1) w)))"
| "turns env (Suc n) first fix_turns w =
     (case one_turn env first fix_turns w of
        (Turn_Done r, w1) \<Rightarrow> (r, w1)
      | (Turn_Again ft, w1) \<Rightarrow> turns env n False ft w1)"

section \<open>Turns of Claude Code\<close>

definition json_u64 :: "json \<Rightarrow> u64 option" where
  "json_u64 j = (case j of JNum (PosInt n) \<Rightarrow> Some n | _ \<Rightarrow> None)"

text \<open>What a turn has gathered: the text, the context in use, the mode its tools were built for, and whether it was cancelled.\<close>

record claude_state =
  cl_text :: string
  cl_context :: "(u64 \<times> u64) option"
  cl_mode :: string
  cl_tools :: "tool list"
  cl_cancel_sent :: bool

definition claude_update :: "json \<Rightarrow> claude_state \<Rightarrow> ez_world \<Rightarrow> claude_state \<times> ez_world" where
  "claude_update u c w =
     (let chunk = json_str (json_field (json_field u ''content'') ''text'')
      in case json_str (json_field u ''sessionUpdate'') of
           None \<Rightarrow> (c, w)
         | Some k \<Rightarrow>
             (if k = ''agent_message_chunk''
              then (case chunk of None \<Rightarrow> (c, w) | Some t \<Rightarrow> (c\<lparr>cl_text := cl_text c @ t\<rparr>, send_event (EV_AgentText t) w))
              else if k = ''agent_thought_chunk''
              then (case chunk of None \<Rightarrow> (c, w) | Some t \<Rightarrow> (c, send_event (EV_AgentThought t) w))
              else if k = ''usage_update''
              then (case (json_u64 (json_field u ''used''), json_u64 (json_field u ''size'')) of
                      (Some used, Some sz) \<Rightarrow> (c\<lparr>cl_context := Some (used, sz)\<rparr>, w)
                    | _ \<Rightarrow> (c, w))
              else (c, w)))"

fun claude_events :: "ez_env \<Rightarrow> driver_event list \<Rightarrow> claude_state \<Rightarrow> ez_world \<Rightarrow> claude_state \<times> ez_world" where
  "claude_events env [] c w = (c, w)"
| "claude_events env (DE_Cancelled # es) c w = claude_events env es (c\<lparr>cl_cancel_sent := True\<rparr>) w"
| "claude_events env (DE_Update u # es) c w =
     (case claude_update u c w of (c1, w1) \<Rightarrow> claude_events env es c1 w1)"
| "claude_events env (DE_Call name args # es) c w =
     (let c1 = (if es_mode (ew_s w) \<noteq> cl_mode c then c\<lparr>cl_mode := es_mode (ew_s w), cl_tools := build_tools env w\<rparr> else c);
          w1 = count_call (ew_step w)
      in case execute_tool_use env (tool_table (cl_tools c1)) (''ez-'' @ ae_uuid env (ew_tick w)) name args w1 of
           ((b, cancelled), w2) \<Rightarrow> claude_events env es (if cancelled then c1\<lparr>cl_cancel_sent := True\<rparr> else c1) w2)"

definition claude_stop :: "bool \<Rightarrow> json \<Rightarrow> string + stop_reason" where
  "claude_stop cancel_sent v =
     (if cancel_sent then Inr SR_Cancelled
      else case json_str (json_field v ''stopReason'') of
             None \<Rightarrow> Inl ''claude-agent-acp returned unknown stopReason''
           | Some s \<Rightarrow> (if s = ''end_turn'' then Inr SR_EndTurn else if s = ''max_tokens'' then Inr SR_MaxTokens
                        else if s = ''max_turn_requests'' then Inr SR_MaxTurnRequests
                        else if s = ''refusal'' then Inr SR_Refusal else if s = ''cancelled'' then Inr SR_Cancelled
                        else Inl ''claude-agent-acp returned unknown stopReason''))"

definition claude_turn :: "ez_env \<Rightarrow> string \<Rightarrow> string \<Rightarrow> profile \<Rightarrow> ez_world \<Rightarrow> (string + stop_reason) \<times> ez_world" where
  "claude_turn env prompt model profile w =
     (let c0 = \<lparr>cl_text = [], cl_context = None, cl_mode = es_mode (ew_s w), cl_tools = build_tools env w, cl_cancel_sent = False\<rparr>;
          (evs, res) = ae_driver env (ew_tick w) prompt;
          (c, w1) = claude_events env evs c0 (ew_step w)
      in case res of
           Inl e \<Rightarrow> (Inl e, w1)
         | Inr v \<Rightarrow>
             (case claude_stop (cl_cancel_sent c) v of
                Inl e \<Rightarrow> (Inl e, w1)
              | Inr stop \<Rightarrow>
                  (let n = (\<lambda>k. unwrap_or 0 (json_u64 (json_field (json_field v ''usage'') k)));
                       usage = \<lparr>lu_input = n ''inputTokens'' + n ''cachedReadTokens'' + n ''cachedWriteTokens'',
                                lu_output = n ''outputTokens''\<rparr>;
                       w2 = count_request usage w1;
                       (in_context, window) = unwrap_or (lu_input usage, pf_context_window profile) (cl_context c);
                       w3 = (if in_context > 0
                             then send_event (EV_Usage in_context (if cl_context c \<noteq> None then 0 else lu_output usage) window) w2
                             else w2)
                   in if cl_text c = [] \<and> stop = SR_Cancelled then (Inr stop, w3)
                      else (Inr stop,
                            push_assistant env (assistant_text (if cl_text c = [] then ''(no text reply)'' else cl_text c)) model
                              (if stop = SR_MaxTokens then LS_MaxTokens else LS_EndTurn) usage (ae_metrics env (ew_tick w)) w3))))"

text \<open>The loop over the fix turns ends, as every round but the last counts one more of at most \<^verbatim>\<open>max_fix_turns\<close>.\<close>

lemma finish_edits_more: "finish_edits env ft w = (Some p, ft', w') \<Longrightarrow> ft' = ft + 1 \<and> ft < ft'"
proof -
  have "ft < ft + 1" if "\<not> ft \<ge> mx" for ft mx :: u32
    using that by unat_arith
  then show "finish_edits env ft w = (Some p, ft', w') \<Longrightarrow> ft' = ft + 1 \<and> ft < ft'"
    by (auto simp: finish_edits_def Let_def split: if_splits option.splits)
qed

lemma finish_edits_measure:
  "(Some p, ft', w') = finish_edits env ft w \<Longrightarrow> 2 ^ 32 - unat ft' < (2 ^ 32 - unat ft :: nat)"
proof -
  assume "(Some p, ft', w') = finish_edits env ft w"
  then have "ft < ft'" using finish_edits_more [of env ft w p ft' w'] by metis
  moreover have "unat ft' < 2 ^ 32" using unsigned_less [of ft'] by simp
  ultimately show ?thesis by (simp add: word_less_nat_alt)
qed

function claude_turns :: "ez_env \<Rightarrow> string \<Rightarrow> string \<Rightarrow> profile \<Rightarrow> u32 \<Rightarrow> ez_world \<Rightarrow> (string + stop_reason) \<times> ez_world" where
  "claude_turns env prompt model profile fix_turns w =
     (case claude_turn env prompt model profile w of
        (Inl e, w1) \<Rightarrow> (Inl e, w1)
      | (Inr stop, w1) \<Rightarrow>
          (if stop \<noteq> SR_EndTurn then (Inr stop, w1)
           else case finish_edits env fix_turns w1 of
                  (Some fix, ft, w2) \<Rightarrow> claude_turns env fix model profile ft (ez_push env (user_text fix) Src_FixTurn w2)
                | (None, ft, w2) \<Rightarrow> (Inr stop, stop_hooks env w2)))"
  by pat_completeness auto
termination
  by (relation "measure (\<lambda>(env, p, m, pf, ft, w). 2 ^ 32 - unat ft)") (auto dest!: finish_edits_measure)

declare claude_turns.simps [simp del]

definition run_prompt_claude :: "ez_env \<Rightarrow> string \<Rightarrow> string \<Rightarrow> profile \<Rightarrow> ez_world \<Rightarrow> (string + stop_reason) \<times> ez_world" where
  "run_prompt_claude env text model profile w =
     (let w1 = apply_pending_mode env (ez_push env (user_text text) Src_User w);
          restart = es_claude (ew_s w1) \<and> es_claude_mode (ew_s w1) \<noteq> es_mode (ew_s w1);
          w2 = (if restart
                then notice (''mode changed to `'' @ es_mode (ew_s w1)
                             @ ''`: restarting Claude Code with the new system prompt'')
                       (upd_s (\<lambda>s. s\<lparr>es_claude := False\<rparr>) w1)
                else w1);
          had = es_claude (ew_s w2);
          w3 = (if had then upd_s (\<lambda>s. s\<lparr>es_claude := False\<rparr>) w2
                else ew_step (upd_s (\<lambda>s. s\<lparr>es_claude_mode := es_mode s\<rparr>) w2))
      in case (if had then Some (Inr ()) else ae_driver_start env (ew_tick w2)) of
           None \<Rightarrow> (Inr SR_Cancelled, w3)
         | Some (Inl e) \<Rightarrow> (Inl e, w3)
         | Some (Inr _) \<Rightarrow>
             (case claude_turns env text model profile 0 w3 of
                (Inl e, w4) \<Rightarrow> (Inl e, w4)
              | (Inr stop, w4) \<Rightarrow>
                  (let w5 = (if stop = SR_MaxTurnRequests then snd (snd (finish_edits env (- 1) w4)) else w4)
                   in (Inr stop, upd_s (\<lambda>s. s\<lparr>es_claude := True\<rparr>) w5))))"

section \<open>A prompt\<close>

definition start_hooks :: "ez_env \<Rightarrow> ez_world \<Rightarrow> ez_world" where
  "start_hooks env w =
     (if es_started (ew_s w) then w
      else let w1 = upd_s (\<lambda>s. s\<lparr>es_started := True\<rparr>) w;
               (out, w2) = run_hooks env HE_SessionStart None
                             (jobj [(''event'', JStr ''session_start''), (''session_id'', JStr (es_id (ew_s w1)))]) w1
           in notify_blocked out w2)"

definition warn_profiles :: "ez_world \<Rightarrow> ez_world" where
  "warn_profiles w =
     (if es_warned_profiles (ew_s w) then w
      else fold notice (missing_profile_notices (ew_s w)) (upd_s (\<lambda>s. s\<lparr>es_warned_profiles := True\<rparr>) w))"

definition run_prompt :: "ez_env \<Rightarrow> string \<Rightarrow> ez_world \<Rightarrow> (string + stop_reason) \<times> ez_world" where
  "run_prompt env text w =
     (let w1 = warn_profiles (start_hooks env w);
          (out, w2) = run_hooks env HE_UserPromptSubmit None
                        (jobj [(''event'', JStr ''user_prompt_submit''), (''session_id'', JStr (es_id (ew_s w1))),
                               (''prompt'', JStr text)]) w1
      in case find (failed_with OF_Block) out of
           Some o' \<Rightarrow>
             (Inr SR_EndTurn,
              notice (''prompt blocked by hook `'' @ hs_run (ho_spec o') @ ''`:'' @ NL @ ho_output o') w2)
         | None \<Rightarrow>
             (let w3 = start_mcp env w2;
                  native = (\<lambda>_ :: unit.
                    let system = ae_system env (ew_tick w3) (es_modes (ew_s w3)) (es_mode (ew_s w3));
                        w4 = compact_if_needed env system (ew_step w3);
                        w5 = ez_push env (user_text text) Src_User w4
                    in turns env (unat (cf_max_turn_requests (es_config (ew_s w5)))) True 0 w5)
              in if ae_provider_override env then native ()
                 else case model_for env (ew_s w3) of
                        Inl e \<Rightarrow> (Inl e, w3)
                      | Inr (model, profile) \<Rightarrow>
                          (if pf_provider profile = PK_ClaudeCode then run_prompt_claude env text model profile w3
                           else native ())))"

definition no_stats :: turn_stats where
  "no_stats = \<lparr>tn_requests = 0, tn_calls = 0, tn_input = 0, tn_output = 0\<rparr>"

definition ends_with_user :: "llm_message list \<Rightarrow> bool" where
  "ends_with_user ms \<longleftrightarrow> ms \<noteq> [] \<and> lm_role (last ms) = Ez_User"

definition ez_prompt :: "ez_env \<Rightarrow> string \<Rightarrow> ez_world \<Rightarrow> (string + stop_reason) \<times> ez_world" where
  "ez_prompt env text w =
     (let w0 = apply_pending_mode env (w\<lparr>ew_stats := no_stats\<rparr>);
          (r, w1) = run_prompt env text w0;
          w2 = (if r = Inr SR_Cancelled \<and> ends_with_user (es_messages (ew_s w1)) then push_interruption env w1 else w1);
          w3 = apply_pending_mode env w2;
          stop = (case r of Inr reason \<Rightarrow> stop_str reason | Inl e \<Rightarrow> ''error'');
          t = ew_stats w3
      in (r, ez_rec env (R_TurnEnd stop (hl_ms (ae_hooks env) (ew_tick w3)) (tn_requests t) (tn_calls t) (tn_input t) (tn_output t)) w3))"

section \<open>Sessions\<close>

definition build_state :: "string \<Rightarrow> string \<Rightarrow> string + ez_config \<Rightarrow> string + mode_set \<Rightarrow> string option \<Rightarrow> string option
    \<Rightarrow> json btree \<Rightarrow> string list \<Rightarrow> string + ez_session" where
  "build_state i cwd config modes profile_override mode extra tasks =
     (case config of
        Inl e \<Rightarrow> Inl e
      | Inr c \<Rightarrow>
          (case modes of
             Inl e \<Rightarrow> Inl e
           | Inr ms \<Rightarrow>
               (let profile = unwrap_or (cf_default_profile c) profile_override;
                    m = unwrap_or (ms_default ms) mode
                in case config_profile c profile of
                     Inl e \<Rightarrow> Inl e
                   | Inr _ \<Rightarrow>
                       (if mode_get ms m = None then Inl (''unknown mode `'' @ m @ ''`'')
                        else Inr \<lparr>es_id = i, es_cwd = cwd, es_config = c, es_modes = ms, es_mise_tasks = tasks,
                                  es_extra_mcp = extra, es_mcp = False, es_mode = m, es_profile = profile, es_messages = [],
                                  es_allow_always = [], es_edited = [], es_transcript = None, es_started = False,
                                  es_request_counter = 0, es_model_pin = None, es_warned_profiles = False,
                                  es_claude = False, es_claude_mode = []\<rparr>))))"

definition new_world :: "ez_session \<Rightarrow> ez_world" where
  "new_world s = \<lparr>ew_s = s, ew_events = [], ew_asks = [], ew_calls = [], ew_requests = [], ew_log = [], ew_stats = no_stats, ew_tick = 0\<rparr>"

text \<open>\<^verbatim>\<open>new_session_with\<close>, after the state was built.\<close>

definition new_session :: "ez_env \<Rightarrow> string \<Rightarrow> string \<Rightarrow> ez_session \<Rightarrow> string + ez_world" where
  "new_session env created_at version s =
     (if \<not> ae_persist env then Inr (new_world s)
      else case model_for env s of
             Inl e \<Rightarrow> Inl e
           | Inr (model, _) \<Rightarrow>
               (let meta = \<lparr>sn_id = es_id s, sn_cwd = es_cwd s, sn_created_at = created_at, sn_ez_version = version,
                            sn_profile = es_profile s, sn_model = model, sn_mode = es_mode s\<rparr>
                in case trans_create (ae_trans env) 0 meta of
                     None \<Rightarrow> Inl ''creating the transcript''
                   | Some text \<Rightarrow> Inr ((ew_step (new_world s))\<lparr>ew_s := s\<lparr>es_transcript := Some text\<rparr>,
                                     ew_log := [(xl_now (ae_trans env) 0, R_SessionStart meta)]\<rparr>)))"

definition replay_edit :: "string \<Rightarrow> edit_record \<Rightarrow> file_edit" where
  "replay_edit cwd e =
     (let ls = text_lines (er_diff e);
          is_new = (case ls of [] \<Rightarrow> False | l # _ \<Rightarrow> str_contains l ''/dev/null'');
          body = drop 2 ls;
          part = (\<lambda>cs. concat (map (\<lambda>l. tl l @ NL) (filter (\<lambda>l. l \<noteq> [] \<and> hd l \<in> cs) body)))
      in \<lparr>fe_path = path_join cwd (er_path e), fe_old = (if is_new then None else Some (part {CHR '' '', CHR ''-''})),
          fe_new = part {CHR '' '', CHR ''+''}\<rparr>)"

text \<open>The items of a plan: an argument, as it is the derived deserialisation.\<close>

definition replay_events :: "(json \<Rightarrow> json list option) \<Rightarrow> string \<Rightarrow> ez_record \<Rightarrow> ez_event list" where
  "replay_events todos cwd r =
     (case r of
        R_UserMessage m src \<Rightarrow> (if src = Src_User then [EV_UserText (message_text m)] else [])
      | R_AssistantMessage m i mo st u x \<Rightarrow>
          List.map_filter (\<lambda>b. case b of CB_Thinking t g \<Rightarrow> Some (EV_AgentThought t) | CB_Text t \<Rightarrow> Some (EV_AgentText t)
                                       | _ \<Rightarrow> None) (lm_content m)
      | R_ToolCall i name input title kind \<Rightarrow>
          EV_ToolCall i title (kind_from_str kind) (map (path_join cwd) (default_locations input)) input
          # (if name = ''TodoWrite''
             then (case todos (json_field input ''todos'') of Some items \<Rightarrow> [EV_Plan items] | None \<Rightarrow> []) else [])
      | R_ToolResult i name output err p d edits \<Rightarrow>
          [EV_ToolCallUpdate i (if err then TS_Failed else TS_Completed) (Some output) (map (replay_edit cwd) edits)]
      | R_ModeChange from to reason by \<Rightarrow> [EV_ModeChanged to]
      | R_ModelChange from to \<Rightarrow>
          [EV_Notice (case to of Some m \<Rightarrow> ''model set to '' @ m @ '' for this session'' | None \<Rightarrow> ''model pin cleared'')]
      | _ \<Rightarrow> [])"

text \<open>\<^verbatim>\<open>restore_session\<close>: \<open>known\<close> tells whether the modes of the project have the mode of the transcript; \<open>build\<close> builds the state
  with the mode given.\<close>

definition restore_session :: "ez_env \<Rightarrow> string \<Rightarrow> (string \<Rightarrow> bool) \<Rightarrow> (string option \<Rightarrow> string + ez_session)
    \<Rightarrow> (json \<Rightarrow> json list option) option \<Rightarrow> string + ez_world" where
  "restore_session env text known build replay_to =
     (case trans_load (ae_trans env) text of
        Inl e \<Rightarrow> Inl e
      | Inr l \<Rightarrow>
          (case build (if known (ld_mode l) then Some (ld_mode l) else None) of
             Inl e \<Rightarrow> Inl e
           | Inr s0 \<Rightarrow>
               (let s = s0\<lparr>es_started := True, es_model_pin := ld_model l, es_messages := ld_messages l,
                           es_transcript := (if ae_persist env then Some (trans_open text) else None)\<rparr>;
                    ids = map fst (dangling_tool_uses l);
                    w0 = new_world s;
                    w1 = (if ids \<noteq> [] then ez_push env (interrupted_results ids) Src_ToolResults w0 else w0);
                    w2 = (if ends_with_user (es_messages (ew_s w1)) then push_interruption env w1 else w1);
                    w3 = ez_rec env R_SessionResumed w2
                in Inr (case replay_to of
                          None \<Rightarrow> w3
                        | Some todos \<Rightarrow>
                            fold send_event (concat (map (\<lambda>r. replay_events todos (es_cwd s) (snd r)) (ld_records l))) w3))))"

end
