(* ===== verification/Ez_Quiet.thy ===== *)
theory Ez_Quiet
  imports Ez_Agent
begin

text \<open>
  What the parts of the agent loop that do not touch the conversation leave alone. The locale \<open>quiet_invariant\<close> asks of a
  predicate of the world that the small steps of the code keep it; every operation built of such steps then keeps it. It is
  interpreted for the conversation, for the current mode, for the calls that were permitted and for the transcript.
\<close>

text \<open>A tool may run: the user said always, the rules of the mode and the configuration allow it, or the user approved this call.\<close>

definition permitted :: "ez_env \<Rightarrow> ez_world \<Rightarrow> string \<Rightarrow> string \<Rightarrow> tool_kind \<Rightarrow> bool" where
  "permitted env w i name kind \<longleftrightarrow>
     name \<in> set (es_allow_always (ew_s w))
     \<or> perm_resolve (hl_glob (ae_hooks env)) name kind (mode_of (ew_s w)) (es_config (ew_s w)) = Perm_Allow
     \<or> (\<exists>req. pq_tool_call_id req = i
          \<and> ((name, req, PD_AllowOnce) \<in> set (ew_asks w) \<or> (name, req, PD_AllowAlways) \<in> set (ew_asks w)))"

text \<open>Records that say nothing of the messages, the mode or the model.\<close>

fun quiet_record :: "ez_record \<Rightarrow> bool" where
  "quiet_record (R_ToolCall i n v t k) = True"
| "quiet_record (R_ToolResult i n out e p d es) = True"
| "quiet_record (R_HookRun ev c ok code out d) = True"
| "quiet_record (R_TurnEnd st d r c i out) = True"
| "quiet_record R_SessionResumed = True"
| "quiet_record (R_McpServers rs) = True"
| "quiet_record r = False"

text \<open>Updates of the session that keep the conversation, the mode and the modes, the configuration, the pinned model, the
  transcript and the tools the user allowed for good.\<close>

definition minor :: "(ez_session \<Rightarrow> ez_session) \<Rightarrow> bool" where
  "minor f \<longleftrightarrow> (\<forall>s. es_messages (f s) = es_messages s \<and> es_mode (f s) = es_mode s \<and> es_modes (f s) = es_modes s
     \<and> es_config (f s) = es_config s \<and> es_model_pin (f s) = es_model_pin s \<and> es_transcript (f s) = es_transcript s
     \<and> es_allow_always (f s) = es_allow_always s)"

locale quiet_invariant =
  fixes env :: ez_env and I :: "ez_world \<Rightarrow> bool"
  assumes tick: "I w \<Longrightarrow> I (w\<lparr>ew_tick := n\<rparr>)"
    and emitted: "I w \<Longrightarrow> I (send_event e w)"
    and stats: "I w \<Longrightarrow> I (w\<lparr>ew_stats := st\<rparr>)"
    and recorded: "I w \<Longrightarrow> quiet_record r \<Longrightarrow> I (ez_rec env r w)"
    and minor_update: "I w \<Longrightarrow> minor f \<Longrightarrow> I (upd_s f w)"
    and pinned: "I w \<Longrightarrow> I (ez_rec env (R_ModelChange old m) (upd_s (\<lambda>s. s\<lparr>es_model_pin := m\<rparr>) w))"
    and switched: "I w \<Longrightarrow> mode_get (es_modes (ew_s w)) to \<noteq> None \<Longrightarrow>
      I (ez_rec env (R_ModeChange from to reason by)
          (upd_s (\<lambda>s. s\<lparr>es_mode := to, es_mise_tasks := tasks\<rparr>) w\<lparr>ew_events := evs, ew_tick := n\<rparr>))"
    and asked: "I w \<Longrightarrow> I (w\<lparr>ew_asks := ew_asks w @ [a]\<rparr>)"
    and always: "I w \<Longrightarrow> (name, req, PD_AllowAlways) \<in> set (ew_asks w) \<Longrightarrow>
      I (upd_s (\<lambda>s. s\<lparr>es_allow_always := name # es_allow_always s\<rparr>) w)"
    and called: "I w \<Longrightarrow> permitted env w i name kind \<Longrightarrow>
      I (w\<lparr>ew_calls := ew_calls w @ [(i, name, kind, es_mode (ew_s w), input)]\<rparr>)"
    and pending_known: "I w \<Longrightarrow> ae_pending_mode env n = Some to \<Longrightarrow> mode_get (es_modes (ew_s w)) to \<noteq> None"
begin

lemma stepped: "I w \<Longrightarrow> I (ew_step w)"
  by (simp add: ew_step_def tick)

lemma noticed: "I w \<Longrightarrow> I (notice t w)"
  by (simp add: notice_def emitted)

lemma folded: "(\<And>x w. x \<in> set xs \<Longrightarrow> I w \<Longrightarrow> I (f x w)) \<Longrightarrow> I w \<Longrightarrow> I (fold f xs w)"
  by (induction xs arbitrary: w) auto

lemma pin_model_I: "I w \<Longrightarrow> I (pin_model env m w)"
  by (auto simp: pin_model_def Let_def intro!: noticed emitted pinned split: sum.splits)

lemma record_hooks_I: "I w \<Longrightarrow> I (record_hooks env ev out w)"
  by (induction out arbitrary: w) (simp_all add: recorded)

lemma notify_blocked_I: "I w \<Longrightarrow> I (notify_blocked out w)"
  unfolding notify_blocked_def by (rule folded) (auto intro: noticed)

lemma run_hooks_I: "I w \<Longrightarrow> I (snd (run_hooks env ev name payload w))"
  by (auto simp: run_hooks_def Let_def intro: record_hooks_I tick)

lemma announced_I: "I w \<Longrightarrow> I (announce_model env old w)"
  using emitted [OF noticed] by (simp add: announce_model_def split: sum.split prod.split)

lemma switch_mode_I:
  assumes "I w" "mode_get (es_modes (ew_s w)) to \<noteq> None"
  shows "I (switch_mode env to reason by e w)"
proof -
  let ?u = "upd_s (\<lambda>s. s\<lparr>es_mode := to, es_mise_tasks := ae_mise_discover env (ew_tick w)\<rparr>) w"
  let ?w2 = "if e then send_event (EV_ModeChanged to) (ew_step ?u) else ew_step ?u"
  have "?w2 = ?u\<lparr>ew_events := ew_events ?w2, ew_tick := ew_tick ?w2\<rparr>" by (simp add: send_event_def ew_step_def upd_s_def)
  moreover have "I (ez_rec env (R_ModeChange (es_mode (ew_s w)) to reason by)
      (?u\<lparr>ew_events := ew_events ?w2, ew_tick := ew_tick ?w2\<rparr>))" by (rule switched [OF assms])
  ultimately have "I (ez_rec env (R_ModeChange (es_mode (ew_s w)) to reason by) ?w2)" by simp
  then show ?thesis unfolding switch_mode_def Let_def case_prod_beta
    by (intro notify_blocked_I run_hooks_I announced_I)
qed

lemma apply_pending_I: "I w \<Longrightarrow> I (apply_pending_mode env w)"
proof -
  assume I: "I w"
  let ?w1 = "case ae_pending_model env (ew_tick w) of None \<Rightarrow> ew_step w | Some m \<Rightarrow> pin_model env m (ew_step w)"
  have w1: "I ?w1" using I by (auto intro: stepped pin_model_I split: option.splits)
  show ?thesis
    using stepped [OF I] w1 switch_mode_I [OF w1 pending_known [OF w1]]
    by (auto simp: apply_pending_mode_def Let_def split: option.splits)
qed

lemma ask_user_I: "I w \<Longrightarrow> I (snd (ask_user env name req w))"
  by (auto simp: ask_user_def Let_def intro: stepped asked)

lemma tool_gate_I: "I w \<Longrightarrow> I (snd (tool_gate env i name title kind input w))"
proof -
  assume I: "I w"
  let ?req = "\<lparr>pq_tool_call_id = i, pq_title = title, pq_kind = kind, pq_input = input, pq_allow_always = True\<rparr>"
  obtain d w1 where a: "ask_user env name ?req w = (d, w1)" by fastforce
  then have w1: "I w1" "(name, ?req, d) \<in> set (ew_asks w1)"
    using ask_user_I [OF I, of name ?req] by (auto simp: ask_user_def Let_def ew_step_def)
  then have "I (upd_s (\<lambda>s. s\<lparr>es_allow_always := name # es_allow_always s\<rparr>) w1)" if "d = PD_AllowAlways"
    using always that by blast
  then show ?thesis using I w1 a
    by (auto simp: tool_gate_def split: permission.splits permission_decision.splits)
qed

lemma switch_gate_I: "I w \<Longrightarrow> I (snd (switch_gate env i title input w))"
proof -
  assume I: "I w"
  let ?req = "\<lparr>pq_tool_call_id = i, pq_title = title, pq_kind = Kind_SwitchMode, pq_input = input, pq_allow_always = False\<rparr>"
  obtain d w1 where a: "ask_user env SWITCH_MODE ?req w = (d, w1)" by fastforce
  then have "I w1" using ask_user_I [OF I, of SWITCH_MODE ?req] by simp
  then show ?thesis using I a by (simp add: switch_gate_def Let_def split: permission_decision.split)
qed

lemma call_tool_I: "I w \<Longrightarrow> permitted env w i (tl_name t) (tl_kind t) \<Longrightarrow> I (snd (call_tool env t i input p w))"
proof -
  assume "I w" "permitted env w i (tl_name t) (tl_kind t)"
  then have w1: "I (ew_step (w\<lparr>ew_calls := ew_calls w @ [(i, tl_name t, tl_kind t, es_mode (ew_s w), input)]\<rparr>))"
    by (intro stepped called)
  have "minor (\<lambda>s. s\<lparr>es_edited := sort (remdups (es_edited s @ xs))\<rparr>)" for xs by (simp add: minor_def)
  then show ?thesis using w1
    by (auto simp: call_tool_def Let_def intro!: minor_update emitted split: sum.splits option.splits)
qed

end

text \<open>Hooks leave the session alone but for its transcript.\<close>

definition relogged :: "string option \<Rightarrow> stamped list \<Rightarrow> nat \<Rightarrow> ez_world \<Rightarrow> ez_world" where
  "relogged t l n w = w\<lparr>ew_s := (ew_s w)\<lparr>es_transcript := t\<rparr>, ew_log := l, ew_tick := n\<rparr>"

lemma relogged_simps [simp]:
  "relogged t l n (relogged t' l' n' w) = relogged t l n w"
  "relogged (es_transcript (ew_s w)) (ew_log w) (ew_tick w) w = w"
  "relogged t l n (w\<lparr>ew_tick := k\<rparr>) = relogged t l n w"
  by (simp_all add: relogged_def)

lemma ez_rec_frame: "\<exists>t l n. ez_rec env r w = relogged t l n w"
proof (cases "es_transcript (ew_s w)")
  case None
  then show ?thesis using relogged_simps(2) [of w] by (metis ez_rec_def option.simps(4))
next
  case (Some x)
  obtain ok t where "trans_append (ae_trans env) (ew_tick w) r x = (ok, t)" by fastforce
  then have "ez_rec env r w = relogged (Some t)
      (if ok then ew_log w @ [(xl_now (ae_trans env) (ew_tick w), r)] else ew_log w) (Suc (ew_tick w)) w"
    using Some by (simp add: ez_rec_def ew_step_def upd_s_def relogged_def)
  then show ?thesis by blast
qed

lemma record_hooks_frame: "\<exists>t l n. record_hooks env ev out w = relogged t l n w"
proof (induction out arbitrary: w)
  case Nil
  then show ?case using relogged_simps(2) [of w] by (metis record_hooks.simps(1))
next
  case (Cons o' os)
  let ?r = "R_HookRun (hook_event_str ev) (hs_run (ho_spec o')) (ho_success o') (ho_exit_code o') (ho_output o')
    (ho_duration_ms o')"
  obtain t l n where r: "ez_rec env ?r w = relogged t l n w" using ez_rec_frame by blast
  obtain t' l' n' where "record_hooks env ev os (relogged t l n w) = relogged t' l' n' (relogged t l n w)" using Cons by blast
  then show ?case using r by auto
qed

lemma run_hooks_frame: "\<exists>t l n. snd (run_hooks env ev name payload w) = relogged t l n w"
proof (cases "hooks_get (session_hooks (ew_s w)) ev = []")
  case True
  then have "snd (run_hooks env ev name payload w) = w" by (simp add: run_hooks_def)
  then show ?thesis using relogged_simps(2) [of w] by metis
next
  case False
  let ?out = "hook_run (ae_hooks env) (ew_tick w) (hooks_get (session_hooks (ew_s w)) ev) ev name payload"
  obtain t l n where "record_hooks env ev ?out (w\<lparr>ew_tick := ew_tick w + length ?out\<rparr>) = relogged t l n w"
    using record_hooks_frame [of env ev ?out "w\<lparr>ew_tick := ew_tick w + length ?out\<rparr>"] by auto
  then show ?thesis using False by (auto simp: run_hooks_def Let_def)
qed

lemma permitted_relogged [simp]: "permitted env (relogged t l n w) i name kind = permitted env w i name kind"
  by (simp add: permitted_def mode_of_def relogged_def)

lemma permitted_hooks [simp]: "permitted env (snd (run_hooks env ev nm payload w)) i name kind = permitted env w i name kind"
  using run_hooks_frame [of env ev nm payload w] by auto

lemma modes_hooks [simp]: "es_modes (ew_s (snd (run_hooks env ev nm payload w))) = es_modes (ew_s w)"
  using run_hooks_frame [of env ev nm payload w] by (auto simp: relogged_def)

lemma permitted_emit [simp]: "permitted env (send_event e w) i name kind = permitted env w i name kind"
  by (simp add: permitted_def send_event_def)

text \<open>A gate that lets a tool through has a reason to.\<close>

lemma tool_gate_run:
  assumes "tool_gate env i name title kind input w = (Gate_Run p target, w')"
  shows "permitted env w' i name kind \<and> target = None"
proof (cases "name \<in> set (es_allow_always (ew_s w))")
  case True
  then have "w' = w" "target = None" using assms by (simp_all add: tool_gate_def)
  then show ?thesis using True unfolding permitted_def by blast
next
  case out: False
  show ?thesis
  proof (cases "perm_resolve (hl_glob (ae_hooks env)) name kind (mode_of (ew_s w)) (es_config (ew_s w))")
    case Perm_Ask
    let ?req = "\<lparr>pq_tool_call_id = i, pq_title = title, pq_kind = kind, pq_input = input, pq_allow_always = True\<rparr>"
    obtain d w1 where a: "ask_user env name ?req w = (d, w1)" by fastforce
    then have "(name, ?req, d) \<in> set (ew_asks w1)" by (auto simp: ask_user_def Let_def ew_step_def)
    then have "d = PD_AllowOnce \<or> d = PD_AllowAlways \<Longrightarrow> permitted env w1 i name kind"
      unfolding permitted_def by (auto intro!: exI [of _ ?req])
    moreover have "permitted env (upd_s (\<lambda>s. s\<lparr>es_allow_always := name # es_allow_always s\<rparr>) w1) i name kind"
      unfolding permitted_def by (simp add: upd_s_def)
    ultimately show ?thesis using assms out Perm_Ask a by (cases d) (auto simp: tool_gate_def)
  next
    case Perm_Allow
    then have "w' = w" "target = None" using assms out by (simp_all add: tool_gate_def)
    then show ?thesis using Perm_Allow unfolding permitted_def by blast
  qed (use assms out in \<open>simp add: tool_gate_def\<close>)
qed

lemma switch_gate_run:
  assumes "switch_gate env i title input w = (Gate_Run p target, w')"
  shows "\<exists>to reason. target = Some (to, reason) \<and> to \<in> set (switch_targets (es_modes (ew_s w')) (es_mode (ew_s w')))"
  using assms
  by (auto simp: switch_gate_def ask_user_def Let_def ew_step_def split: if_splits permission_decision.splits)

lemma session_emit [simp]: "ew_s (send_event e w) = ew_s w"
  by (simp add: send_event_def)

lemma tool_table_name: "tool_table tools name = Some t \<Longrightarrow> tl_name t = name"
  by (auto simp: tool_table_def dest!: map_of_SomeD)

context quiet_invariant
begin

lemma run_allowed_I:
  assumes "I w" "target = None \<Longrightarrow> permitted env w i (tl_name t) (tl_kind t)"
    and "\<And>to reason. target = Some (to, reason) \<Longrightarrow> mode_get (es_modes (ew_s w)) to \<noteq> None"
  shows "I (snd (run_allowed env t i name input p target w))"
proof -
  let ?payload = "jobj [(''event'', JStr ''pre_tool_use''), (''session_id'', JStr (es_id (ew_s w))),
    (''tool_name'', JStr name), (''tool_input'', input)]"
  obtain pre w1 where h: "run_hooks env HE_PreToolUse (Some name) ?payload w = (pre, w1)" by fastforce
  have w1: "I w1" "permitted env w1 i (tl_name t) (tl_kind t) = permitted env w i (tl_name t) (tl_kind t)"
    "es_modes (ew_s w1) = es_modes (ew_s w)"
    using run_hooks_I [OF assms(1)] permitted_hooks modes_hooks h by (metis snd_conv)+
  let ?w2 = "send_event (EV_ToolCallUpdate i TS_InProgress None []) w1"
  have "I (snd (call_tool env t i input p ?w2))" if "target = None"
    using call_tool_I [OF emitted [OF w1(1)]] assms(2) w1(2) that by simp
  moreover have "I (switch_mode env to reason By_Agent True ?w2)" if "target = Some (to, reason)" for to reason
    using switch_mode_I [OF emitted [OF w1(1)]] assms(3) w1(3) that by simp
  ultimately show ?thesis using w1(1) h by (auto simp: run_allowed_def Let_def split: option.split)
qed

lemma attempt_use_I:
  assumes "I w" "\<And>t. tool = Some t \<Longrightarrow> tl_name t = name"
  shows "I (snd (attempt_use env tool i name title input w))"
proof (cases "tool = None \<or> ae_cancelled env (ew_tick w)")
  case True
  then show ?thesis using assms(1) stepped by (auto simp: attempt_use_def split: option.split)
next
  case False
  then obtain t where t: "tool = Some t" "\<not> ae_cancelled env (ew_tick w)" by auto
  have w0: "I (ew_step w)" by (simp add: stepped assms(1))
  define res where "res = (if name = SWITCH_MODE then switch_gate env i title input (ew_step w)
    else tool_gate env i name title (tl_kind t) input (ew_step w))"
  obtain g w1 where g: "res = (g, w1)" by fastforce
  have w1: "I w1" using tool_gate_I [OF w0] switch_gate_I [OF w0] g unfolding res_def by (metis snd_conv)
  have "I (snd (run_allowed env t i name input p target w1))" if r: "g = Gate_Run p target" for p target
  proof (cases "name = SWITCH_MODE")
    case True
    then obtain to reason where "target = Some (to, reason)"
      "to \<in> set (switch_targets (es_modes (ew_s w1)) (es_mode (ew_s w1)))"
      using switch_gate_run g r unfolding res_def by metis
    then show ?thesis using switch_target_known by (intro run_allowed_I [OF w1]) auto
  next
    case False
    then have "permitted env w1 i name (tl_kind t) \<and> target = None" using tool_gate_run g r unfolding res_def by metis
    then show ?thesis using assms(2) [OF t(1)] by (intro run_allowed_I [OF w1]) auto
  qed
  then show ?thesis using t w1 g by (simp add: attempt_use_def flip: res_def split: gate.split)
qed

lemma post_hooks_I: "I w \<Longrightarrow> I (snd (post_hooks env name input u w))"
  using run_hooks_I by (auto simp: post_hooks_def case_prod_beta)

lemma execute_tool_use_I:
  assumes "I w" "\<And>t. tools name = Some t \<Longrightarrow> tl_name t = name"
  shows "I (snd (execute_tool_use env tools i name input w))"
proof -
  define tkl where "tkl = (case tools name of
      Some t \<Rightarrow> (tl_title t input, tl_kind t, map (path_join (es_cwd (ew_s w))) (tl_locations t input))
    | None \<Rightarrow> (name, Kind_Other, []))"
  obtain title kind locations where tkl': "tkl = (title, kind, locations)" by (metis prod_cases3)
  let ?w1 = "ez_rec env (R_ToolCall i name input title (kind_as_str kind)) (send_event (EV_ToolCall i title kind locations input) w)"
  obtain u w2 where u: "attempt_use env (tools name) i name title input ?w1 = (u, w2)" by fastforce
  have w1: "I ?w1" by (simp add: recorded emitted assms(1))
  have w2: "I w2" using attempt_use_I [OF w1 assms(2)] u by (metis snd_conv)
  let ?w3 = "send_event (EV_ToolCallUpdate i (if uo_error u then TS_Failed else TS_Completed) (Some (uo_content u)) (uo_edits u)) w2"
  obtain content w4 where p: "post_hooks env name input u ?w3 = (content, w4)" by fastforce
  have "I w4" using post_hooks_I [OF emitted [OF w2]] p by (metis snd_conv)
  then have "I (ez_rec env (R_ToolResult i name (uo_content u) (uo_error u) (uo_permission u)
      (hl_ms (ae_hooks env) (ew_tick w4)) (map (edit_record_of env (es_cwd (ew_s w4))) (uo_edits u))) w4)"
    by (simp add: recorded)
  then show ?thesis unfolding execute_tool_use_def Let_def tkl_def [symmetric] tkl' by (simp add: u p)
qed

lemma execute_uses_I:
  "I w \<Longrightarrow> (\<And>name t. tools name = Some t \<Longrightarrow> tl_name t = name) \<Longrightarrow> I (snd (snd (execute_uses env tools uses c w)))"
proof (induction uses arbitrary: c w)
  case (Cons x uses)
  obtain i name input where x: "x = (i, name, input)" by (metis prod_cases3)
  have skip: "I (snd (skip_tool_use env i name input w))" using Cons.prems(1) by (simp add: skip_tool_use_def recorded)
  have "I (count_call w)" using Cons.prems(1) by (simp add: count_call_def stats)
  then have use: "I (snd (execute_tool_use env tools i name input (count_call w)))" using execute_tool_use_I Cons.prems(2) by blast
  show ?case
  proof (cases c)
    case True
    then show ?thesis using Cons.IH [OF skip Cons.prems(2), of True] by (simp add: x case_prod_beta Let_def)
  next
    case False
    then show ?thesis using Cons.IH [OF use Cons.prems(2)] by (simp add: x case_prod_beta Let_def)
  qed
qed simp

lemma finish_edits_I: "I w \<Longrightarrow> I (snd (snd (finish_edits env ft w)))"
proof -
  assume "I w"
  then have "I (upd_s (\<lambda>s. s\<lparr>es_edited := []\<rparr>) w)" by (simp add: minor_update minor_def)
  then show ?thesis using \<open>I w\<close>
    by (auto simp: finish_edits_def Let_def intro!: noticed notify_blocked_I record_hooks_I tick split: option.split)
qed

lemma stop_hooks_I: "I w \<Longrightarrow> I (stop_hooks env w)"
  using run_hooks_I by (auto simp: stop_hooks_def case_prod_beta intro: notify_blocked_I)

lemma mcp_report_I: "I w \<Longrightarrow> I (snd (mcp_report st w))"
  by (induction st w rule: mcp_report.induct) (auto simp: case_prod_beta intro: noticed)

lemma start_mcp_I: "I w \<Longrightarrow> I (start_mcp env w)"
proof -
  assume "I w"
  then have "I (snd (mcp_report st (ew_step w)))" for st by (simp add: mcp_report_I stepped)
  moreover have "minor (\<lambda>s. s\<lparr>es_mcp := True\<rparr>)" by (simp add: minor_def)
  ultimately show ?thesis using \<open>I w\<close> by (auto simp: start_mcp_def Let_def case_prod_beta intro!: minor_update recorded)
qed

lemma start_hooks_I: "I w \<Longrightarrow> I (start_hooks env w)"
proof -
  assume I: "I w"
  have "I (upd_s (\<lambda>s. s\<lparr>es_started := True\<rparr>) w)" using I by (intro minor_update) (auto simp: minor_def)
  then show ?thesis using I run_hooks_I by (auto simp: start_hooks_def Let_def case_prod_beta intro: notify_blocked_I)
qed

lemma warn_profiles_I: "I w \<Longrightarrow> I (warn_profiles w)"
proof -
  assume I: "I w"
  have "I (upd_s (\<lambda>s. s\<lparr>es_warned_profiles := True\<rparr>) w)" using I by (intro minor_update) (auto simp: minor_def)
  then show ?thesis using I by (auto simp: warn_profiles_def intro!: folded noticed)
qed

lemma claude_update_I: "I w \<Longrightarrow> I (snd (claude_update u c w))"
  unfolding claude_update_def Let_def by (simp add: emitted split: option.split prod.split)

lemma claude_events_I: "I w \<Longrightarrow> I (snd (claude_events env es c w))"
proof (induction es arbitrary: c w)
  case (Cons e es)
  show ?case
  proof (cases e)
    case (DE_Update u)
    then show ?thesis using Cons.IH [OF claude_update_I [OF Cons.prems]] by (simp add: case_prod_beta)
  next
    case (DE_Call name args)
    have "I (count_call (ew_step w))" using Cons.prems by (simp add: count_call_def stats stepped)
    then show ?thesis using Cons.IH [OF execute_tool_use_I [OF _ tool_table_name]] DE_Call
      by (simp add: case_prod_beta Let_def)
  qed (use Cons in simp)
qed simp

end

end
