(* ===== verification/Ez_Talk.thy ===== *)
theory Ez_Talk
  imports Ez_Quiet
begin

text \<open>
  The conversation of a session: every tool use of an answer is answered, in order, by the next message, and nothing else is.
  What a provider gets is then a list of alternating messages with the results of a tool right after its use. The
  locale \<open>talk\<close> carries an assertion about the tool uses still to be answered through a whole prompt.
\<close>

section \<open>Well-formed conversations\<close>

fun block_result :: "content_block \<Rightarrow> string option" where
  "block_result (CB_ToolResult i c e) = Some i"
| "block_result b = None"

definition result_ids :: "llm_message \<Rightarrow> string list" where
  "result_ids m = List.map_filter block_result (lm_content m)"

definition use_ids :: "llm_message \<Rightarrow> string list" where
  "use_ids m = map fst (tool_uses m)"

definition results_first :: "llm_message \<Rightarrow> bool" where
  "results_first m \<longleftrightarrow> lm_content m = filter is_result (lm_content m) @ filter (\<lambda>b. \<not> is_result b) (lm_content m)"

definition conv_step :: "llm_message \<Rightarrow> string list option \<Rightarrow> string list option" where
  "conv_step m st =
     (case st of
        None \<Rightarrow> None
      | Some ids \<Rightarrow>
          (if result_ids m = ids
              \<and> (case lm_role m of Ez_User \<Rightarrow> tool_uses m = [] \<and> results_first m | Ez_Assistant \<Rightarrow> ids = [])
           then Some (use_ids m) else None))"

text \<open>The tool uses left to answer, or \<open>None\<close> when the conversation is not well-formed.\<close>

definition conv :: "llm_message list \<Rightarrow> string list option" where
  "conv ms = fold conv_step ms (Some [])"

fun alternating :: "llm_message list \<Rightarrow> bool" where
  "alternating (a # b # ms) \<longleftrightarrow> lm_role a \<noteq> lm_role b \<and> alternating (b # ms)"
| "alternating ms \<longleftrightarrow> True"

text \<open>What a provider accepts.\<close>

definition provider_accepts :: "llm_message list \<Rightarrow> bool" where
  "provider_accepts ms \<longleftrightarrow> ms \<noteq> [] \<and> lm_role (hd ms) = Ez_User \<and> lm_role (last ms) = Ez_User \<and> alternating ms \<and> conv ms = Some []"

definition starts_with_user :: "llm_message list \<Rightarrow> bool" where
  "starts_with_user ms \<longleftrightarrow> ms = [] \<or> lm_role (hd ms) = Ez_User"

lemma conv_Nil [simp]: "conv [] = Some []"
  by (simp add: conv_def)

lemma conv_snoc: "conv (ms @ [m]) = conv_step m (conv ms)"
  by (simp add: conv_def)

lemma alternating_snoc: "alternating (ms @ [m]) \<longleftrightarrow> alternating ms \<and> (ms = [] \<or> lm_role (last ms) \<noteq> lm_role m)"
  by (induction ms rule: alternating.induct) auto

lemma map_filter_append: "List.map_filter f (xs @ ys) = List.map_filter f xs @ List.map_filter f ys"
  by (simp add: List.map_filter_def)

lemma map_filter_filter: "(\<And>x. \<not> P x \<Longrightarrow> f x = None) \<Longrightarrow> List.map_filter f (filter P xs) = List.map_filter f xs"
  by (induction xs) (auto simp: List.map_filter_simps split: option.splits)

lemma map_filter_none: "(\<And>x. x \<in> set xs \<Longrightarrow> f x = None) \<Longrightarrow> List.map_filter f xs = []"
  by (induction xs) (auto simp: List.map_filter_simps)

lemma block_kinds: "\<not> is_result b \<Longrightarrow> block_result b = None" "is_result b \<Longrightarrow> block_use b = None"
  by (cases b; simp)+

lemma sorted_ids:
  "List.map_filter block_result (filter is_result c) @ List.map_filter block_result (filter (\<lambda>b. \<not> is_result b) c)
     = List.map_filter block_result c"
  "List.map_filter block_use (filter is_result c) @ List.map_filter block_use (filter (\<lambda>b. \<not> is_result b) c)
     = List.map_filter block_use c"
  using map_filter_filter [of is_result block_result c] map_filter_none [of "filter (\<lambda>b. \<not> is_result b) c" block_result]
    map_filter_filter [of "\<lambda>b. \<not> is_result b" block_use c] map_filter_none [of "filter is_result c" block_use]
  by (simp_all add: block_kinds)

lemma merge_into_ids [simp]:
  "result_ids (merge_into l m) = result_ids l @ result_ids m" "tool_uses (merge_into l m) = tool_uses l @ tool_uses m"
  "use_ids (merge_into l m) = use_ids l @ use_ids m" "lm_role (merge_into l m) = lm_role l"
  using sorted_ids [of "lm_content l @ lm_content m"]
  by (simp_all add: merge_into_def Let_def result_ids_def use_ids_def tool_uses_def map_filter_append
      del: filter_append flip: map_append)

lemma merge_into_first: "lm_role l = Ez_User \<Longrightarrow> results_first (merge_into l m)"
  by (simp add: results_first_def merge_into_def Let_def)

lemma user_text_ids [simp]: "result_ids (user_text t) = []" "tool_uses (user_text t) = []" "use_ids (user_text t) = []"
  "lm_role (user_text t) = Ez_User" "results_first (user_text t)"
  by (simp_all add: user_text_def result_ids_def tool_uses_def use_ids_def results_first_def List.map_filter_simps)

lemma conv_step_Some:
  "conv_step m st = Some ids' \<longleftrightarrow>
     (\<exists>ids. st = Some ids \<and> result_ids m = ids \<and> ids' = use_ids m
        \<and> (case lm_role m of Ez_User \<Rightarrow> tool_uses m = [] \<and> results_first m | Ez_Assistant \<Rightarrow> ids = []))"
  by (auto simp: conv_step_def split: option.splits)

section \<open>Normalised conversations\<close>

lemma normalize_snoc: "normalize_messages (ms @ [m]) = normalize_step m (normalize_messages ms)"
  by (simp add: normalize_messages_def)

text \<open>Two messages of one role say together what they say one after the other.\<close>

lemma conv_step_merge:
  assumes "conv_step m (conv_step l st) = Some ids" "lm_role l = lm_role m"
  shows "conv_step (merge_into l m) st = Some ids"
proof (cases "lm_role m")
  case Ez_User
  then show ?thesis using assms merge_into_first [of l m] by (auto simp: conv_step_Some use_ids_def)
next
  case Ez_Assistant
  then show ?thesis using assms by (auto simp: conv_step_Some use_ids_def)
qed

lemma normalize_ok:
  assumes "conv ms = Some ids"
  shows "conv (normalize_messages ms) = Some ids \<and> alternating (normalize_messages ms)
    \<and> (normalize_messages ms = [] \<longleftrightarrow> ms = [])
    \<and> (ms \<noteq> [] \<longrightarrow> lm_role (hd (normalize_messages ms)) = lm_role (hd ms) \<and> lm_role (last (normalize_messages ms)) = lm_role (last ms))"
  using assms
proof (induction ms arbitrary: ids rule: rev_induct)
  case Nil
  then show ?case by (simp add: normalize_messages_def)
next
  case (snoc m ms)
  let ?n = "normalize_messages ms"
  obtain ids0 where c: "conv ms = Some ids0" and s: "conv_step m (Some ids0) = Some ids"
    using snoc.prems by (cases "conv ms") (auto simp: conv_snoc conv_step_def)
  note IH = snoc.IH [OF c]
  show ?case
  proof (cases "?n \<noteq> [] \<and> lm_role (last ?n) = lm_role m")
    case True
    define b where "b = butlast ?n"
    define l where "l = last ?n"
    have n: "?n = b @ [l]" using True unfolding b_def l_def by simp
    have r: "lm_role l = lm_role m" using True l_def by simp
    have "conv_step m (conv_step l (conv b)) = Some ids" using IH s n by (simp add: conv_snoc)
    then have "conv (b @ [merge_into l m]) = Some ids" using conv_step_merge r by (simp add: conv_snoc)
    moreover have "normalize_messages (ms @ [m]) = b @ [merge_into l m]"
      using True n r by (simp add: normalize_snoc normalize_step_def)
    ultimately show ?thesis using IH n r by (auto simp: alternating_snoc hd_append)
  next
    case False
    then have "normalize_messages (ms @ [m]) = ?n @ [m]" by (auto simp: normalize_snoc normalize_step_def)
    then show ?thesis using IH s False by (auto simp: alternating_snoc conv_snoc hd_append)
  qed
qed

lemma request_normalized:
  "conv ms = Some [] \<Longrightarrow> starts_with_user ms \<Longrightarrow> ends_with_user ms \<Longrightarrow> provider_accepts (normalize_messages ms)"
  using normalize_ok [of ms "[]"] by (auto simp: provider_accepts_def starts_with_user_def ends_with_user_def)

text \<open>The request for a summary: the wish is put to the last message of the user, or follows the last one of the model.\<close>

definition with_wish :: "llm_message list \<Rightarrow> string \<Rightarrow> llm_message list" where
  "with_wish ms t =
     (if ms \<noteq> [] \<and> lm_role (last ms) = Ez_User
      then butlast ms @ [(last ms)\<lparr>lm_content := lm_content (last ms) @ [CB_Text t]\<rparr>]
      else ms @ [user_text t])"

lemma wish_step:
  assumes "conv_step m st = Some []" "lm_role m = Ez_User"
  shows "conv_step (m\<lparr>lm_content := lm_content m @ [CB_Text t]\<rparr>) st = Some []"
proof -
  have "filter is_result (lm_content m) @ filter (\<lambda>b. \<not> is_result b) (lm_content m) = lm_content m"
    using assms by (auto simp: conv_step_Some results_first_def)
  then show ?thesis using assms
    by (auto simp: conv_step_Some result_ids_def use_ids_def tool_uses_def results_first_def map_filter_append
        List.map_filter_simps)
qed

lemma request_wish:
  assumes "conv ms = Some []" "starts_with_user ms"
  shows "provider_accepts (with_wish (normalize_messages ms) t)"
proof -
  let ?n = "normalize_messages ms"
  have n: "conv ?n = Some []" "alternating ?n" "?n = [] \<longleftrightarrow> ms = []" "?n \<noteq> [] \<Longrightarrow> lm_role (hd ?n) = Ez_User"
    using normalize_ok [OF assms(1)] assms(2) by (auto simp: starts_with_user_def)
  show ?thesis
  proof (cases "?n \<noteq> [] \<and> lm_role (last ?n) = Ez_User")
    case True
    define b where "b = butlast ?n"
    define l where "l = last ?n"
    have d: "?n = b @ [l]" "lm_role l = Ez_User" using True unfolding b_def l_def by simp_all
    have "conv_step (l\<lparr>lm_content := lm_content l @ [CB_Text t]\<rparr>) (conv b) = Some []"
      using n(1) d wish_step by (simp add: conv_snoc)
    moreover have "with_wish ?n t = b @ [l\<lparr>lm_content := lm_content l @ [CB_Text t]\<rparr>]"
      unfolding with_wish_def b_def l_def using True by simp
    ultimately show ?thesis using n d by (auto simp: provider_accepts_def conv_snoc alternating_snoc hd_append)
  next
    case False
    then have "with_wish ?n t = ?n @ [user_text t]" unfolding with_wish_def by (rule if_not_P)
    then show ?thesis using n False by (auto simp: provider_accepts_def conv_snoc alternating_snoc hd_append conv_step_Some)
  qed
qed

section \<open>A prompt, step by step\<close>

text \<open>An invariant of the quiet steps holds together with what the conversation is.\<close>

lemma messages_rec [simp]: "es_messages (ew_s (ez_rec env r w)) = es_messages (ew_s w)"
  using ez_rec_frame [of env r w] by (auto simp: relogged_def)

lemma messages_push [simp]: "es_messages (ew_s (ez_push env m src w)) = es_messages (ew_s w) @ [m]"
  by (simp add: ez_push_def add_message_def upd_s_def)

lemma messages_answer [simp]: "es_messages (ew_s (push_assistant env m model st u x w)) = es_messages (ew_s w) @ [m]"
  by (simp add: push_assistant_def Let_def add_message_def next_request_def upd_s_def)

lemma quiet_messages:
  assumes "quiet_invariant env I"
  shows "quiet_invariant env (\<lambda>w. I w \<and> es_messages (ew_s w) = ms)"
proof -
  note q = quiet_invariant.tick [OF assms] quiet_invariant.emitted [OF assms] quiet_invariant.stats [OF assms]
    quiet_invariant.recorded [OF assms] quiet_invariant.minor_update [OF assms] quiet_invariant.pinned [OF assms]
    quiet_invariant.asked [OF assms] quiet_invariant.always [OF assms]
    quiet_invariant.called [OF assms]
  show ?thesis
    by unfold_locales
      (use q quiet_invariant.pending_known [OF assms] quiet_invariant.switched [OF assms] in
        \<open>simp_all add: send_event_def upd_s_def minor_def\<close>)
qed

text \<open>What prompts and answers do to the assertion \<open>J\<close> about the tool uses left to answer and the world.\<close>

locale turn_taking =
  fixes env :: ez_env and J :: "string list \<Rightarrow> ez_world \<Rightarrow> bool"
  assumes quiet: "quiet_invariant env (J ids)"
    and said: "J [] w \<Longrightarrow> J [] (ez_push env (user_text t) src w)"
    and answered: "J [] w \<Longrightarrow> es_messages (ew_s w) \<noteq> [] \<Longrightarrow> lm_role m = Ez_Assistant \<Longrightarrow> result_ids m = [] \<Longrightarrow>
      J (use_ids m) (push_assistant env m model st u x w)"
begin

text \<open>The assertion, with the conversation as it is.\<close>

definition stands :: "string list \<Rightarrow> llm_message list \<Rightarrow> ez_world \<Rightarrow> bool" where
  "stands ids ms w \<longleftrightarrow> J ids w \<and> es_messages (ew_s w) = ms"

lemma quiet_stands: "quiet_invariant env (stands ids ms)"
  unfolding stands_def by (rule quiet_messages [OF quiet])

lemmas keep_step = quiet_invariant.stepped [OF quiet_stands]
lemmas keep_emit = quiet_invariant.emitted [OF quiet_stands]
lemmas keep_notice = quiet_invariant.noticed [OF quiet_stands]
lemmas keep_stats = quiet_invariant.stats [OF quiet_stands]
lemmas keep_minor = quiet_invariant.minor_update [OF quiet_stands]
lemmas keep_pending = quiet_invariant.apply_pending_I [OF quiet_stands]
lemmas keep_finish = quiet_invariant.finish_edits_I [OF quiet_stands]
lemmas keep_stop = quiet_invariant.stop_hooks_I [OF quiet_stands]
lemmas keep_uses = quiet_invariant.execute_uses_I [OF quiet_stands]
lemmas keep_events = quiet_invariant.claude_events_I [OF quiet_stands]

text \<open>Where a turn may start, and where a prompt may.\<close>

definition asking :: "ez_world \<Rightarrow> bool" where
  "asking w \<longleftrightarrow> J [] w \<and> ends_with_user (es_messages (ew_s w))"

lemma asking_stands: "asking w \<longleftrightarrow> (\<exists>ms. stands [] ms w \<and> ends_with_user ms)"
  by (auto simp: asking_def stands_def)

lemma said_asking: "J [] w \<Longrightarrow> asking (ez_push env (user_text t) src w)"
  using said by (simp add: asking_def ends_with_user_def)

lemma stream_stands: "stands ids ms w \<Longrightarrow> stands ids ms (fold stream_emit evs w)"
proof (induction evs arbitrary: w)
  case (Cons e evs)
  have "stands ids ms (stream_emit e w)" using Cons.prems keep_emit by (cases e) auto
  then show ?case using Cons.IH by simp
qed simp

definition going :: "ez_world \<Rightarrow> bool" where
  "going w \<longleftrightarrow> J [] w \<and> es_messages (ew_s w) \<noteq> []"

lemma going_stands: "stands [] ms w \<Longrightarrow> ms \<noteq> [] \<Longrightarrow> going w"
  by (auto simp: going_def stands_def)

lemma claude_turn_keeps: "going w \<Longrightarrow> going (snd (claude_turn env prompt model profile w))"
proof -
  assume g: "going w"
  let ?ms = "es_messages (ew_s w)"
  have ne: "?ms \<noteq> []" using g by (simp add: going_def)
  let ?c0 = "\<lparr>cl_text = [], cl_context = None, cl_mode = es_mode (ew_s w), cl_tools = build_tools env w, cl_cancel_sent = False\<rparr>"
  obtain evs res where d: "ae_driver env (ew_tick w) prompt = (evs, res)" by fastforce
  obtain c w1 where e: "claude_events env evs ?c0 (ew_step w) = (c, w1)" by fastforce
  have w1: "stands [] ?ms w1"
    using keep_events [OF keep_step, of "[]" ?ms w evs ?c0] g e by (simp add: stands_def going_def)
  then have r: "stands [] ?ms (count_request u w1)" "stands [] ?ms (send_event ev (count_request u w1))" for u ev
    by (simp_all add: count_request_def keep_stats keep_emit)
  have a: "use_ids (assistant_text t) = []" "result_ids (assistant_text t) = []" "lm_role (assistant_text t) = Ez_Assistant" for t
    by (simp_all add: assistant_text_def use_ids_def result_ids_def tool_uses_def List.map_filter_simps)
  have p: "stands [] ?ms w' \<Longrightarrow> going (push_assistant env (assistant_text t) model' st u x w')" for t model' st u x w'
    using answered [of w' "assistant_text t"] a ne by (auto simp: stands_def going_def)
  note turn = claude_turn_def [of env prompt model profile w, unfolded Let_def]
  show ?thesis
  proof (cases "\<exists>v st. res = Inr v \<and> claude_stop (cl_cancel_sent c) v = Inr st")
    case True
    then obtain v st where v: "res = Inr v" "claude_stop (cl_cancel_sent c) v = Inr st" by blast
    show ?thesis unfolding turn by (auto simp: d e v case_prod_beta intro: p r going_stands [OF _ ne])
  next
    case False
    then show ?thesis using going_stands [OF w1 ne] by (auto simp: turn d e split: sum.splits)
  qed
qed

lemma claude_turns_keep: "going w \<Longrightarrow> J [] (snd (claude_turns env prompt model profile ft w))"
proof -
  have "e = env \<longrightarrow> going w \<longrightarrow> J [] (snd (claude_turns e prompt model profile ft w))" for e
  proof (induction e prompt model profile ft w rule: claude_turns.induct)
    case (1 e prompt model profile ft w)
    show ?case
    proof (intro impI)
      assume e: "e = env" and g: "going w"
      obtain r w1 where t: "claude_turn env prompt model profile w = (r, w1)" by fastforce
      have w1: "stands [] (es_messages (ew_s w1)) w1" using claude_turn_keeps [OF g] t by (metis snd_conv stands_def going_def)
      obtain p ft' w2 where f: "finish_edits env ft w1 = (p, ft', w2)" by (metis prod_cases3)
      have w2: "stands [] (es_messages (ew_s w1)) w2" using keep_finish [OF w1] f by (metis snd_conv)
      then have "J [] (stop_hooks env w2)" using keep_stop stands_def by blast
      moreover have "going (ez_push env (user_text fx) Src_FixTurn w2)" for fx using said w2 by (simp add: stands_def going_def)
      then have "J [] (snd (claude_turns env fx model profile ft' (ez_push env (user_text fx) Src_FixTurn w2)))"
        if "r = Inr SR_EndTurn" "p = Some fx" for fx
        using "1.IH" [of r w1 SR_EndTurn p "(ft', w2)" fx ft' w2] e t f that by simp
      ultimately show "J [] (snd (claude_turns e prompt model profile ft w))"
        using w1 t f e by (subst claude_turns.simps) (simp add: stands_def split: sum.split option.split)
    qed
  qed
  then show "going w \<Longrightarrow> ?thesis" by simp
qed

lemma run_prompt_claude_keeps: "J [] w \<Longrightarrow> J [] (snd (run_prompt_claude env text model profile w))"
proof -
  assume "J [] w"
  define w1 where "w1 = apply_pending_mode env (ez_push env (user_text text) Src_User w)"
  define w2 where "w2 = (if es_claude (ew_s w1) \<and> es_claude_mode (ew_s w1) \<noteq> es_mode (ew_s w1)
      then notice (''mode changed to `'' @ es_mode (ew_s w1) @ ''`: restarting Claude Code with the new system prompt'')
             (upd_s (\<lambda>s. s\<lparr>es_claude := False\<rparr>) w1)
      else w1)"
  define w3 where "w3 = (if es_claude (ew_s w2) then upd_s (\<lambda>s. s\<lparr>es_claude := False\<rparr>) w2
      else ew_step (upd_s (\<lambda>s. s\<lparr>es_claude_mode := es_mode s\<rparr>) w2))"
  note r = run_prompt_claude_def [of env "text" model profile w, unfolded Let_def, folded w1_def, folded w2_def, folded w3_def]
  have m: "minor (\<lambda>s. s\<lparr>es_claude := b\<rparr>)" "minor (\<lambda>s. s\<lparr>es_claude_mode := es_mode s\<rparr>)" for b by (simp_all add: minor_def)
  obtain ms where "stands [] ms (ez_push env (user_text text) Src_User w)" "ms \<noteq> []"
    using said [OF \<open>J [] w\<close>] by (simp add: stands_def)
  then have "stands [] ms w1" unfolding w1_def by (intro keep_pending)
  then have w2: "stands [] ms w2" unfolding w2_def by (simp add: keep_notice keep_minor m)
  then have "stands [] ms w3" unfolding w3_def by (simp add: keep_minor keep_step m)
  then have w3: "J [] w3" "going w3" using \<open>ms \<noteq> []\<close> going_stands by (simp_all add: stands_def)
  obtain x w4 where t: "claude_turns env text model profile 0 w3 = (x, w4)" by fastforce
  have w4: "stands [] (es_messages (ew_s w4)) w4" using claude_turns_keep [OF w3(2)] t by (metis snd_conv stands_def)
  have "J [] (upd_s (\<lambda>s. s\<lparr>es_claude := True\<rparr>) w4)" using keep_minor [OF w4 m(1)] by (simp add: stands_def)
  moreover have "J [] (upd_s (\<lambda>s. s\<lparr>es_claude := True\<rparr>) (snd (snd (finish_edits env (- 1) w4))))"
    using keep_minor [OF keep_finish [OF w4] m(1)] by (simp add: stands_def)
  moreover have "J [] w4" using w4 by (simp add: stands_def)
  ultimately show ?thesis using w3 t unfolding r by (simp split: sum.split option.split)
qed

lemma interruption_keeps: "J [] w \<Longrightarrow> ends_with_user (es_messages (ew_s w)) \<Longrightarrow> J [] (push_interruption env w)"
  using answered [of w "assistant_text INTERRUPTED"]
  by (simp add: push_interruption_def ends_with_user_def assistant_text_def use_ids_def result_ids_def tool_uses_def List.map_filter_simps)

end

text \<open>Every tool use gets its result, in order.\<close>

lemma execute_uses_results:
  "map block_result (fst (execute_uses env tools uses c w)) = map Some (map fst uses)"
proof (induction uses arbitrary: c w)
  case (Cons x uses)
  obtain i name input where x: "x = (i, name, input)" by (metis prod_cases3)
  have "block_result (fst (fst (execute_tool_use env tools i name input w'))) = Some i" for w'
    by (simp add: execute_tool_use_def Let_def case_prod_beta)
  then show ?case using Cons.IH by (simp add: x case_prod_beta Let_def skip_tool_use_def)
qed simp


text \<open>With the results of tools, compactions and requests as well.\<close>

locale talk = turn_taking +
  assumes resulted: "J ids w \<Longrightarrow> map block_result bs = map Some ids \<Longrightarrow>
      J [] (ez_push env \<lparr>lm_role = Ez_User, lm_content = bs\<rparr> src w)"
    and compacted: "J [] w \<Longrightarrow>
      J [] (ez_rec env (R_Compaction t n) (upd_s (\<lambda>s. s\<lparr>es_messages := [compaction_message t]\<rparr>) w))"
    and requested: "J [] w \<Longrightarrow> ends_with_user (es_messages (ew_s w)) \<Longrightarrow>
      lq_messages req = normalize_messages (es_messages (ew_s w)) \<Longrightarrow> J [] (w\<lparr>ew_requests := ew_requests w @ [req]\<rparr>)"
    and wished: "J [] w \<Longrightarrow> lq_messages req = with_wish (normalize_messages (es_messages (ew_s w))) t \<Longrightarrow>
      J [] (w\<lparr>ew_requests := ew_requests w @ [req]\<rparr>)"
    and provided: "J [] w \<Longrightarrow> ae_complete env n req = (evs, Some (Inr r)) \<Longrightarrow>
      lm_role (lr_message r) = Ez_Assistant \<and> result_ids (lr_message r) = []"
begin

lemma requested_stands:
  assumes "stands [] ms w" "lq_messages req = normalize_messages ms \<and> ends_with_user ms \<or> lq_messages req = with_wish (normalize_messages ms) t"
  shows "stands [] ms (w\<lparr>ew_requests := ew_requests w @ [req]\<rparr>)"
  using assms requested [of w req] wished [of w req t] by (auto simp: stands_def)

lemma compact_stands:
  assumes w: "stands [] ms w"
  shows "stands [] ms (compact_if_needed env system w) \<or> (\<exists>t. stands [] [compaction_message t] (compact_if_needed env system w))"
proof -
  have ms: "es_messages (ew_s w) = ms" using w by (simp add: stands_def)
  show ?thesis
  proof (cases "\<exists>model profile u. model_for env (ew_s w) = Inr (model, profile) \<and> \<not> length ms < 4
      \<and> ae_over env ((ae_json_len env ms + length system) div 4) (cf_compaction_threshold (es_config (ew_s w)))
          (pf_context_window profile) \<and> ae_provider env (ew_tick w) profile = Inr u")
    case False
    then have "compact_if_needed env system w = w \<or> compact_if_needed env system w = ew_step w"
      by (auto simp: compact_if_needed_def Let_def ms split: sum.splits)
    then show ?thesis using w keep_step [OF w] by auto
  next
    case True
    then obtain model profile u where c: "model_for env (ew_s w) = Inr (model, profile)" "\<not> length ms < 4"
        "ae_over env ((ae_json_len env ms + length system) div 4) (cf_compaction_threshold (es_config (ew_s w)))
          (pf_context_window profile)" "ae_provider env (ew_tick w) profile = Inr u" by blast
    define req where "req = \<lparr>lq_model = model, lq_system = system, lq_messages = with_wish (normalize_messages ms) SUMMARY_PROMPT,
      lq_tools = [], lq_max_tokens = pf_max_tokens profile, lq_thinking = None\<rparr>"
    define w1 where "w1 = (ew_step (ew_step w))\<lparr>ew_requests := ew_requests w @ [req]\<rparr>"
    have w1: "stands [] ms w1"
      using requested_stands [OF keep_step [OF keep_step [OF w]], of req SUMMARY_PROMPT] by (simp add: w1_def req_def ew_step_def)
    have r: "compact_if_needed env system w =
      (case snd (ae_complete env (Suc (ew_tick w)) req) of
         None \<Rightarrow> w1
       | Some (Inl e) \<Rightarrow> notice (''context compaction failed: '' @ e) w1
       | Some (Inr r) \<Rightarrow>
           (if trim (message_text (lr_message r)) = [] then w1
            else notice (''conversation compacted ('' @ show_nat (length ms) @ '' messages summarized)'')
                   (ez_rec env (R_Compaction (message_text (lr_message r)) (length ms))
                     (upd_s (\<lambda>s. s\<lparr>es_messages := [compaction_message (message_text (lr_message r))]\<rparr>) w1))))"
      using c unfolding w1_def req_def with_wish_def compact_if_needed_def Let_def ms by simp
    have "stands [] [compaction_message t] (ez_rec env (R_Compaction t n) (upd_s (\<lambda>s. s\<lparr>es_messages := [compaction_message t]\<rparr>) w1))"
      for t n using compacted w1 by (simp add: stands_def upd_s_def)
    then show ?thesis using w1 keep_notice unfolding r by (simp split: option.split sum.split) blast
  qed
qed

lemma compact_keeps: "J [] w \<Longrightarrow> J [] (compact_if_needed env system w)"
  using compact_stands [of "es_messages (ew_s w)" w system] by (auto simp: stands_def)

lemma compact_asking: "asking w \<Longrightarrow> asking (compact_if_needed env system w)"
  using compact_stands [of "es_messages (ew_s w)" w system]
  by (auto simp: asking_def stands_def ends_with_user_def compaction_message_def)

text \<open>An iteration of the loop leaves the conversation ready for the next request, or complete.\<close>

fun settled :: "turn_next \<times> ez_world \<Rightarrow> bool" where
  "settled (Turn_Again ft, w) \<longleftrightarrow> asking w"
| "settled (Turn_Done r, w) \<longleftrightarrow> J [] w"

lemma after_answer_settled:
  assumes "J (use_ids (lr_message resp)) w"
  shows "settled (after_answer env tools resp ft w)"
proof (cases "tool_uses (lr_message resp) = []")
  case True
  then have w: "stands [] (es_messages (ew_s w)) w" using assms by (simp add: stands_def use_ids_def)
  obtain p ft' w1 where f: "finish_edits env ft w = (p, ft', w1)" by (metis prod_cases3)
  have w1: "stands [] (es_messages (ew_s w)) w1" using keep_finish [OF w, of ft] f by simp
  have "asking (ez_push env (user_text t) Src_FixTurn w1)" for t using said_asking w1 by (simp add: stands_def)
  moreover have "J [] (stop_hooks env w1)" using keep_stop [OF w1] by (simp add: stands_def)
  ultimately show ?thesis using True f by (simp add: after_answer_def split: option.split)
next
  case False
  let ?uses = "tool_uses (lr_message resp)"
  obtain bs c w1 where e: "execute_uses env (tool_table tools) ?uses False w = (bs, c, w1)" by (metis prod_cases3)
  have "stands (map fst ?uses) (es_messages (ew_s w)) w" using assms by (simp add: stands_def use_ids_def)
  then have "stands (map fst ?uses) (es_messages (ew_s w)) (snd (snd (execute_uses env (tool_table tools) ?uses False w)))"
    by (rule keep_uses) (rule tool_table_name)
  then have "J (map fst ?uses) w1" using e by (simp add: stands_def)
  moreover have "map block_result bs = map Some (map fst ?uses)"
    using execute_uses_results [of env "tool_table tools" ?uses False w] e by simp
  ultimately have "J [] (ez_push env \<lparr>lm_role = Ez_User, lm_content = bs\<rparr> Src_ToolResults w1)" by (rule resulted)
  then show ?thesis using False e by (simp add: after_answer_def Let_def asking_def ends_with_user_def)
qed

lemma asking_stands': "asking w \<Longrightarrow> stands [] (es_messages (ew_s w)) w \<and> ends_with_user (es_messages (ew_s w))"
  by (simp add: asking_def stands_def)

lemma asking_step: "asking w \<Longrightarrow> asking (ew_step w)"
  using keep_step by (metis asking_stands)

lemma asking_idle: "asking w \<Longrightarrow> J [] w"
  by (simp add: asking_def)

lemma answer_settled:
  assumes "asking w"
    and "lq_messages req = normalize_messages (es_messages (ew_s w))"
    and "stream_request env req w = (Some (Inr (resp, x)), w4)"
    and "w6 = count_request u w4 \<or> (\<exists>e. w6 = send_event e (count_request u w4))"
  shows "settled (after_answer env tools resp ft (push_assistant env (lr_message resp) model st u' x w6))"
proof -
  let ?ms = "es_messages (ew_s w)"
  obtain evs r where c: "ae_complete env (ew_tick w) req = (evs, r)" by fastforce
  have r: "r = Some (Inr resp)" "w4 = fold stream_emit evs (ew_step (w\<lparr>ew_requests := ew_requests w @ [req]\<rparr>))"
    using assms(3) c by (auto simp: stream_request_def Let_def split: option.splits sum.splits)
  have "stands [] ?ms (w\<lparr>ew_requests := ew_requests w @ [req]\<rparr>)"
    using requested_stands assms(1,2) asking_stands' by blast
  then have "stands [] ?ms w4" unfolding r(2) by (intro stream_stands keep_step)
  then have "stands [] ?ms w6" using assms(4) keep_stats keep_emit by (auto simp: count_request_def)
  then have "J [] w6" "es_messages (ew_s w6) \<noteq> []"
    using assms(1) by (auto simp: stands_def asking_def ends_with_user_def)
  then show ?thesis using provided [OF \<open>J [] w6\<close> c [unfolded r(1)]] by (intro after_answer_settled answered) auto
qed

lemma stream_keeps:
  assumes "asking w" "lq_messages req = normalize_messages (es_messages (ew_s w))" "stream_request env req w = (r, w4)"
  shows "J [] w4"
proof -
  let ?ms = "es_messages (ew_s w)"
  obtain evs c where c: "ae_complete env (ew_tick w) req = (evs, c)" by fastforce
  have "stands [] ?ms (w\<lparr>ew_requests := ew_requests w @ [req]\<rparr>)" using requested_stands assms(1,2) asking_stands' by blast
  then have "stands [] ?ms (fold stream_emit evs (ew_step (w\<lparr>ew_requests := ew_requests w @ [req]\<rparr>)))"
    by (intro stream_stands keep_step)
  then show ?thesis using assms(3) c by (simp add: stream_request_def Let_def stands_def)
qed

lemma one_turn_settled:
  assumes "asking w"
  shows "settled (one_turn env first ft w)"
proof -
  define w1 where "w1 = apply_pending_mode env w"
  define system where "system = ae_system env (ew_tick w1) (es_modes (ew_s w1)) (es_mode (ew_s w1))"
  define w2 where "w2 = (if first then ew_step w1 else compact_if_needed env system (ew_step w1))"
  define w3 where "w3 = ew_step w2"
  note o = one_turn_def [of env first ft w, unfolded Let_def, folded w1_def, folded system_def, folded w2_def, folded w3_def]
  have "asking w1" using assms keep_pending unfolding w1_def by (metis asking_stands)
  then have w2: "asking w2" using asking_step compact_asking unfolding w2_def by simp
  then have w3: "asking w3" "asking (ew_step w3)" using asking_step unfolding w3_def by simp_all
  show ?thesis
  proof (cases "ae_cancelled env (ew_tick w2)")
    case True
    then show ?thesis using asking_idle [OF w3(1)] by (simp add: o)
  next
    case False
    show ?thesis
    proof (cases "model_for env (ew_s w3)")
      case (Inl e)
      then show ?thesis using False asking_idle [OF w3(1)] by (simp add: o)
    next
      case (Inr mp)
      then obtain model profile where m: "model_for env (ew_s w3) = Inr (model, profile)" by (cases mp) auto
      define req where "req = \<lparr>lq_model = model, lq_system = system, lq_messages = normalize_messages (es_messages (ew_s w3)),
          lq_tools = map spec_of (build_tools env w3), lq_max_tokens = pf_max_tokens profile,
          lq_thinking = pf_thinking profile\<rparr>"
      have q: "lq_messages req = normalize_messages (es_messages (ew_s (ew_step w3)))" by (simp add: req_def ew_step_def)
      obtain r w4 where s: "stream_request env req (ew_step w3) = (r, w4)" by fastforce
      note ans = answer_settled [OF w3(2) q]
      show ?thesis using False m s stream_keeps [OF w3(2) q s] asking_idle [OF w3(2)]
        by (auto simp: o simp flip: req_def intro: ans split: sum.split option.split prod.split)
    qed
  qed
qed

lemma turns_keep: "asking w \<Longrightarrow> J [] (snd (turns env n first ft w))"
proof (induction n arbitrary: first ft w)
  case 0
  then show ?case using keep_finish [of "[]" "es_messages (ew_s w)" w] by (simp add: asking_stands' asking_def stands_def)
next
  case (Suc n)
  obtain r w1 where o: "one_turn env first ft w = (r, w1)" by fastforce
  then show ?case using one_turn_settled [OF Suc.prems, of first ft] Suc.IH by (cases r) auto
qed

lemma run_prompt_keeps: "J [] w \<Longrightarrow> J [] (snd (run_prompt env text w))"
proof -
  assume J: "J [] w"
  let ?p = "\<lambda>w1. jobj [(''event'', JStr ''user_prompt_submit''), (''session_id'', JStr (es_id (ew_s w1))), (''prompt'', JStr text)]"
  define w1 where "w1 = warn_profiles (start_hooks env w)"
  note r = run_prompt_def [of env "text" w, unfolded Let_def, folded w1_def]
  obtain out w2 where h: "run_hooks env HE_UserPromptSubmit None (?p w1) w1 = (out, w2)" by fastforce
  define w3 where "w3 = start_mcp env w2"
  have w1: "J [] w1" unfolding w1_def
    using quiet_invariant.warn_profiles_I [OF quiet quiet_invariant.start_hooks_I [OF quiet J]] .
  have w2: "J [] w2" using quiet_invariant.run_hooks_I [OF quiet w1] h by (metis snd_conv)
  have w3: "J [] w3" unfolding w3_def by (rule quiet_invariant.start_mcp_I [OF quiet w2])
  let ?sys = "ae_system env (ew_tick w3) (es_modes (ew_s w3)) (es_mode (ew_s w3))"
  have "asking (ez_push env (user_text text) Src_User (compact_if_needed env ?sys (ew_step w3)))"
    by (intro said_asking compact_keeps quiet_invariant.stepped [OF quiet] w3)
  then have "J [] (snd (turns env n True 0 (ez_push env (user_text text) Src_User (compact_if_needed env ?sys (ew_step w3)))))"
    for n by (rule turns_keep)
  moreover have "J [] (notice t w2)" for t by (rule quiet_invariant.noticed [OF quiet w2])
  ultimately show ?thesis using w3 run_prompt_claude_keeps [OF w3] h unfolding r
    by (simp flip: w3_def split: option.split sum.split prod.split)
qed

lemma prompt_keeps: "J [] w \<Longrightarrow> J [] (snd (ez_prompt env text w))"
proof -
  assume J: "J [] w"
  define w0 where "w0 = apply_pending_mode env (w\<lparr>ew_stats := no_stats\<rparr>)"
  obtain r w1 where r: "run_prompt env text w0 = (r, w1)" by fastforce
  define w2 where "w2 = (if r = Inr SR_Cancelled \<and> ends_with_user (es_messages (ew_s w1)) then push_interruption env w1 else w1)"
  have "J [] w0" unfolding w0_def by (intro quiet_invariant.apply_pending_I [OF quiet] quiet_invariant.stats [OF quiet] J)
  then have "J [] w1" using run_prompt_keeps r by (metis snd_conv)
  then have "J [] w2" unfolding w2_def using interruption_keeps by simp
  then have "J [] (apply_pending_mode env w2)" by (rule quiet_invariant.apply_pending_I [OF quiet])
  then show ?thesis unfolding ez_prompt_def Let_def
    by (simp add: r quiet_invariant.recorded [OF quiet] flip: w0_def w2_def)
qed

end

end
