(* ===== verification/Ez_Desk.thy ===== *)
theory Ez_Desk
  imports Ez_Agent
begin

text \<open>
  The sessions an ez agent has open (\<^verbatim>\<open>Agent\<close> of \<^verbatim>\<open>ez-core/src/agent.rs\<close>): the registry of sessions, what is reachable
  without the lock of a session, the tokens that cancel running prompts, and the requests that do not wait for a prompt. Requests run
  concurrently (\<^verbatim>\<open>ez-acp/src/rpc.rs\<close> spawns a task for each), so the pieces between two waits are the steps here.
\<close>

section \<open>What a client is told of a session\<close>

record mode_info =
  mi_id :: string
  mi_name :: string
  mi_description :: string

record session_info =
  si_id :: string
  si_current_mode :: string
  si_modes :: "mode_info list"
  si_model :: string
  si_models :: "string list"

definition es_info :: "ez_env \<Rightarrow> string \<Rightarrow> string list \<Rightarrow> ez_session \<Rightarrow> session_info" where
  "es_info env model models s =
     \<lparr>si_id = es_id s, si_current_mode = es_mode s,
      si_modes = map (\<lambda>(i, m). \<lparr>mi_id = i, mi_name = display_name (ae_capitalize env) (es_modes s) i,
                                mi_description = md_description m\<rparr>) (ms_modes (es_modes s)),
      si_model = model, si_models = models\<rparr>"

text \<open>\<^verbatim>\<open>retain\<close> with a set of what was seen keeps the first of equal models.\<close>

fun keep_first :: "string list \<Rightarrow> string list" where
  "keep_first [] = []"
| "keep_first (m # ms) = (if m = [] then keep_first ms else m # keep_first (filter (\<lambda>x. x \<noteq> m) ms))"

definition describe_session :: "ez_env \<Rightarrow> ez_session \<Rightarrow> session_info" where
  "describe_session env s =
     (let model = (case model_for env s of Inl e \<Rightarrow> [] | Inr (m, _) \<Rightarrow> m);
          models = (case config_profile (es_config s) (es_profile s) of
                      Inl e \<Rightarrow> []
                    | Inr p \<Rightarrow> pf_model p # pf_models p)
      in es_info env model (keep_first (model # models)) s)"

section \<open>Requests beside a prompt\<close>

record ez_shared =
  sh_mode_ids :: "string list"
  sh_pending_mode :: "string option"
  sh_pending_model :: "string option option"

definition shared_of :: "ez_session \<Rightarrow> ez_shared" where
  "shared_of s = \<lparr>sh_mode_ids = mode_ids (es_modes s), sh_pending_mode = None, sh_pending_model = None\<rparr>"

text \<open>\<^verbatim>\<open>set_mode\<close>: \<open>busy\<close> when a prompt holds the session.\<close>

definition set_mode :: "ez_env \<Rightarrow> bool \<Rightarrow> string \<Rightarrow> ez_shared \<Rightarrow> ez_world \<Rightarrow> string + (ez_shared \<times> ez_world)" where
  "set_mode env busy mode sh w =
     (if mode \<notin> set (sh_mode_ids sh) then Inl (''unknown mode `'' @ mode @ ''`'')
      else if \<not> busy
      then Inr (sh\<lparr>sh_pending_mode := None\<rparr>, switch_mode env mode ''user request'' By_User True w)
      else Inr (sh\<lparr>sh_pending_mode := Some mode\<rparr>, send_event (EV_ModeChanged mode) w))"

definition set_session_model :: "ez_env \<Rightarrow> bool \<Rightarrow> string option \<Rightarrow> ez_shared \<Rightarrow> ez_world \<Rightarrow> ez_shared \<times> ez_world" where
  "set_session_model env busy model sh w =
     (let m = (case model of None \<Rightarrow> None | Some x \<Rightarrow> if trim x = [] then None else Some (trim x))
      in if \<not> busy then (sh\<lparr>sh_pending_model := None\<rparr>, pin_model env m w)
         else (sh\<lparr>sh_pending_model := Some m\<rparr>,
               notice (''model will change to '' @ unwrap_or ''the configured default'' m @ '' on the next request'') w))"

text \<open>What a client asks of a session, one request after the other.\<close>

datatype client_op = Op_Prompt string | Op_Mode string | Op_Model "string option"

fun session_op :: "ez_env \<Rightarrow> client_op \<Rightarrow> ez_world \<Rightarrow> ez_world" where
  "session_op env (Op_Prompt t) w = snd (ez_prompt env t w)"
| "session_op env (Op_Mode m) w =
     (case set_mode env False m (shared_of (ew_s w)) w of Inl e \<Rightarrow> w | Inr (sh, w') \<Rightarrow> w')"
| "session_op env (Op_Model m) w = snd (set_session_model env False m (shared_of (ew_s w)) w)"

definition session_ops :: "ez_env \<Rightarrow> client_op list \<Rightarrow> ez_world \<Rightarrow> ez_world" where
  "session_ops env ops w = fold (session_op env) ops w"

section \<open>The registry\<close>

text \<open>A session is known by the number of its mutex; \<open>dk_busy\<close> are those that are held, \<open>dk_cancelled\<close> the tokens that were
  cancelled.\<close>

record ez_desk =
  dk_sessions :: "string \<Rightarrow> nat option"
  dk_shared :: "string \<Rightarrow> ez_shared option"
  dk_cancels :: "string \<Rightarrow> nat option"
  dk_cancelled :: "nat list"
  dk_busy :: "nat list"
  dk_next :: nat

definition desk_new :: ez_desk where
  "desk_new = \<lparr>dk_sessions = (\<lambda>_. None), dk_shared = (\<lambda>_. None), dk_cancels = (\<lambda>_. None), dk_cancelled = [], dk_busy = [],
               dk_next = 0\<rparr>"

definition desk_register :: "string \<Rightarrow> string list \<Rightarrow> ez_desk \<Rightarrow> ez_desk" where
  "desk_register i ids d =
     d\<lparr>dk_shared := (dk_shared d)(i \<mapsto> \<lparr>sh_mode_ids = ids, sh_pending_mode = None, sh_pending_model = None\<rparr>),
       dk_sessions := (dk_sessions d)(i \<mapsto> dk_next d), dk_next := Suc (dk_next d)\<rparr>"

definition desk_session :: "string \<Rightarrow> ez_desk \<Rightarrow> string + nat" where
  "desk_session i d = (case dk_sessions d i of None \<Rightarrow> Inl (''unknown session `'' @ i @ ''`'') | Some a \<Rightarrow> Inr a)"

definition shared_for :: "string \<Rightarrow> ez_desk \<Rightarrow> string + ez_shared" where
  "shared_for i d = (case dk_shared d i of None \<Rightarrow> Inl (''unknown session `'' @ i @ ''`'') | Some sh \<Rightarrow> Inr sh)"

definition desk_cancel :: "string \<Rightarrow> ez_desk \<Rightarrow> ez_desk" where
  "desk_cancel i d = (case dk_cancels d i of None \<Rightarrow> d | Some t \<Rightarrow> d\<lparr>dk_cancelled := t # dk_cancelled d\<rparr>)"

definition close_session :: "string \<Rightarrow> ez_desk \<Rightarrow> string + ez_desk" where
  "close_session i d =
     (case desk_session i d of
        Inl e \<Rightarrow> Inl e
      | Inr _ \<Rightarrow> (let d1 = desk_cancel i d
                  in Inr (d1\<lparr>dk_sessions := (dk_sessions d1)(i := None), dk_shared := (dk_shared d1)(i := None)\<rparr>)))"

text \<open>The part of \<^verbatim>\<open>set_mode\<close> and \<^verbatim>\<open>set_session_model\<close> that touches the registry.\<close>

definition desk_mode :: "string \<Rightarrow> string \<Rightarrow> ez_desk \<Rightarrow> string + ez_desk" where
  "desk_mode i mode d =
     (case desk_session i d of
        Inl e \<Rightarrow> Inl e
      | Inr a \<Rightarrow>
          (case shared_for i d of
             Inl e \<Rightarrow> Inl e
           | Inr sh \<Rightarrow>
               (if mode \<notin> set (sh_mode_ids sh) then Inl (''unknown mode `'' @ mode @ ''`'')
                else Inr (d\<lparr>dk_shared := (dk_shared d)(i \<mapsto>
                       sh\<lparr>sh_pending_mode := if a \<in> set (dk_busy d) then Some mode else None\<rparr>)\<rparr>))))"

definition desk_model :: "string \<Rightarrow> string option \<Rightarrow> ez_desk \<Rightarrow> string + ez_desk" where
  "desk_model i m d =
     (case desk_session i d of
        Inl e \<Rightarrow> Inl e
      | Inr a \<Rightarrow>
          (case shared_for i d of
             Inl e \<Rightarrow> Inl e
           | Inr sh \<Rightarrow> Inr (d\<lparr>dk_shared := (dk_shared d)(i \<mapsto>
                         sh\<lparr>sh_pending_model := if a \<in> set (dk_busy d) then Some m else None\<rparr>)\<rparr>)))"

text \<open>\<^verbatim>\<open>apply_pending_mode\<close> takes what is pending for the id of its session.\<close>

definition take_pending :: "string \<Rightarrow> ez_desk \<Rightarrow> (string option option \<times> string option) option \<times> ez_desk" where
  "take_pending i d =
     (case shared_for i d of
        Inl e \<Rightarrow> (None, d)
      | Inr sh \<Rightarrow> (Some (sh_pending_model sh, sh_pending_mode sh),
                   d\<lparr>dk_shared := (dk_shared d)(i \<mapsto> sh\<lparr>sh_pending_mode := None, sh_pending_model := None\<rparr>)\<rparr>))"

text \<open>\<^verbatim>\<open>prompt\<close>: up to the lock, with the token it will watch; the lock; and the end.\<close>

definition prompt_open :: "string \<Rightarrow> ez_desk \<Rightarrow> string + (nat \<times> nat \<times> ez_desk)" where
  "prompt_open i d =
     (case desk_session i d of
        Inl e \<Rightarrow> Inl e
      | Inr a \<Rightarrow> Inr (a, dk_next d, d\<lparr>dk_cancels := (dk_cancels d)(i \<mapsto> dk_next d), dk_next := Suc (dk_next d)\<rparr>))"

definition prompt_lock :: "nat \<Rightarrow> ez_desk \<Rightarrow> ez_desk option" where
  "prompt_lock a d = (if a \<in> set (dk_busy d) then None else Some (d\<lparr>dk_busy := a # dk_busy d\<rparr>))"

definition prompt_close :: "string \<Rightarrow> nat \<Rightarrow> ez_desk \<Rightarrow> ez_desk" where
  "prompt_close i a d = d\<lparr>dk_cancels := (dk_cancels d)(i := None), dk_busy := removeAll a (dk_busy d)\<rparr>"

datatype desk_op =
    DO_Register string "string list"
  | DO_Close string
  | DO_Cancel string
  | DO_Mode string string
  | DO_Model string "string option"
  | DO_Take string
  | DO_Open string
  | DO_Lock nat
  | DO_Finish string nat

fun desk_step :: "desk_op \<Rightarrow> ez_desk \<Rightarrow> ez_desk" where
  "desk_step (DO_Register i ids) d = desk_register i ids d"
| "desk_step (DO_Close i) d = (case close_session i d of Inl e \<Rightarrow> d | Inr d' \<Rightarrow> d')"
| "desk_step (DO_Cancel i) d = desk_cancel i d"
| "desk_step (DO_Mode i m) d = (case desk_mode i m d of Inl e \<Rightarrow> d | Inr d' \<Rightarrow> d')"
| "desk_step (DO_Model i m) d = (case desk_model i m d of Inl e \<Rightarrow> d | Inr d' \<Rightarrow> d')"
| "desk_step (DO_Take i) d = snd (take_pending i d)"
| "desk_step (DO_Open i) d = (case prompt_open i d of Inl e \<Rightarrow> d | Inr (a, t, d') \<Rightarrow> d')"
| "desk_step (DO_Lock a) d = (case prompt_lock a d of None \<Rightarrow> d | Some d' \<Rightarrow> d')"
| "desk_step (DO_Finish i a) d = prompt_close i a d"

section \<open>Pending modes are known\<close>

definition shared_ok :: "ez_shared \<Rightarrow> bool" where
  "shared_ok sh \<longleftrightarrow> (case sh_pending_mode sh of None \<Rightarrow> True | Some m \<Rightarrow> m \<in> set (sh_mode_ids sh))"

definition desk_ok :: "ez_desk \<Rightarrow> bool" where
  "desk_ok d \<longleftrightarrow> (\<forall>i. case dk_shared d i of None \<Rightarrow> True | Some sh \<Rightarrow> shared_ok sh)"

lemma desk_okD: "desk_ok d \<Longrightarrow> dk_shared d i = Some sh \<Longrightarrow> shared_ok sh"
  unfolding desk_ok_def by (metis option.simps(5))

lemma desk_ok_shared: "desk_ok d \<Longrightarrow> shared_ok sh \<Longrightarrow> desk_ok (d\<lparr>dk_shared := (dk_shared d)(i \<mapsto> sh)\<rparr>)"
  by (simp add: desk_ok_def)

lemma shared_ok_model [simp]: "shared_ok (sh\<lparr>sh_pending_model := m\<rparr>) = shared_ok sh"
  by (simp add: shared_ok_def split: option.split)

lemma desk_step_ok: "desk_ok d \<Longrightarrow> desk_ok (desk_step op d)"
proof (cases op)
  case (DO_Close i)
  moreover assume "desk_ok d"
  ultimately show ?thesis
    by (simp add: close_session_def desk_session_def desk_cancel_def Let_def desk_ok_def split: option.split)
next
  case (DO_Mode i m)
  moreover assume "desk_ok d"
  ultimately show ?thesis
    by (auto simp: desk_mode_def desk_session_def shared_for_def shared_ok_def intro!: desk_ok_shared split: option.split)
next
  case (DO_Model i m)
  moreover assume "desk_ok d"
  ultimately show ?thesis
    by (auto simp: desk_model_def desk_session_def shared_for_def dest: desk_okD intro!: desk_ok_shared split: option.split)
next
  case (DO_Take i)
  moreover assume "desk_ok d"
  ultimately show ?thesis
    by (auto simp: take_pending_def shared_for_def shared_ok_def intro!: desk_ok_shared split: option.split)
qed (simp_all add: desk_register_def desk_cancel_def prompt_open_def desk_session_def prompt_lock_def prompt_close_def
       desk_ok_def shared_ok_def split: option.split)

lemma desk_steps_ok: "desk_ok d \<Longrightarrow> desk_ok (fold desk_step ops d)"
  by (induction ops arbitrary: d) (simp_all add: desk_step_ok)

text \<open>However requests and prompts interleave, a mode that waits to be applied to a session is one of the modes the session
  was registered with.\<close>

theorem ez_pending_mode_known:
  assumes "take_pending i (fold desk_step ops desk_new) = (Some (pm, Some m), d)"
  shows "\<exists>sh. dk_shared (fold desk_step ops desk_new) i = Some sh \<and> m \<in> set (sh_mode_ids sh)"
proof -
  have "desk_ok (fold desk_step ops desk_new)" by (rule desk_steps_ok) (simp add: desk_ok_def desk_new_def)
  then show ?thesis using assms desk_okD [of "fold desk_step ops desk_new" i]
    by (auto simp: take_pending_def shared_for_def shared_ok_def split: option.splits)
qed

text \<open>When a second prompt of a session is sent while the first still runs, the end of the first takes away the token of the
  second: a request to cancel that comes then reaches nobody.\<close>

theorem ez_cancel_misses_queued_prompt:
  assumes "dk_sessions d i = Some a" "a \<notin> set (dk_busy d)" "\<forall>t \<in> set (dk_cancelled d). t < dk_next d"
  shows "case prompt_open i (fold desk_step [DO_Open i, DO_Lock a] d) of
           Inl e \<Rightarrow> False
         | Inr (a', t, d1) \<Rightarrow>
             (let d2 = fold desk_step [DO_Finish i a, DO_Lock a', DO_Cancel i] d1
              in a' \<in> set (dk_busy d2) \<and> t \<notin> set (dk_cancelled d2))"
  using assms by (auto simp: prompt_open_def desk_session_def prompt_lock_def prompt_close_def desk_cancel_def Let_def)

text \<open>Witnesses.\<close>

lemma ez_pending_mode_known_witness:
  "\<exists>sh. dk_shared (fold desk_step [DO_Register ''s'' [''plan'', ''build''], DO_Open ''s'', DO_Lock 0, DO_Mode ''s'' ''build''] desk_new) ''s''
       = Some sh \<and> ''build'' \<in> set (sh_mode_ids sh)"
  by (rule ez_pending_mode_known [of "''s''" _ None "''build''"
        "snd (take_pending ''s'' (fold desk_step [DO_Register ''s'' [''plan'', ''build''], DO_Open ''s'', DO_Lock 0,
           DO_Mode ''s'' ''build''] desk_new))"])
    (simp add: desk_new_def desk_register_def prompt_open_def desk_session_def prompt_lock_def desk_mode_def shared_for_def
      take_pending_def)

lemma ez_cancel_misses_queued_prompt_witness:
  "case prompt_open ''s'' (fold desk_step [DO_Open ''s'', DO_Lock 0] (desk_register ''s'' [] desk_new)) of
     Inl e \<Rightarrow> False
   | Inr (a', t, d1) \<Rightarrow>
       (let d2 = fold desk_step [DO_Finish ''s'' 0, DO_Lock a', DO_Cancel ''s''] d1
        in a' \<in> set (dk_busy d2) \<and> t \<notin> set (dk_cancelled d2))"
  by (rule ez_cancel_misses_queued_prompt) (simp_all add: desk_register_def desk_new_def)

end
