(* ===== verification/Ez_Props.thy ===== *)
theory Ez_Props
  imports Ez_Talk Ez_Desk
begin

text \<open>
  What holds of a session of ez over any sequence of prompts: the conversation is one a provider accepts, the current mode is
  known, every tool call was permitted, and the transcript read back gives the session, also when it was cut off.
\<close>

section \<open>The surroundings of a session\<close>

text \<open>Modes other tasks ask for exist, and a model answers with a message of its own that has no tool results.\<close>

definition env_ok :: "ez_env \<Rightarrow> mode_set \<Rightarrow> bool" where
  "env_ok env ms \<longleftrightarrow>
     (\<forall>n to. ae_pending_mode env n = Some to \<longrightarrow> mode_get ms to \<noteq> None)
     \<and> (\<forall>n req evs r. ae_complete env n req = (evs, Some (Inr r)) \<longrightarrow>
          lm_role (lr_message r) = Ez_Assistant \<and> result_ids (lr_message r) = [])"

context talk
begin

lemma op_keeps: "J [] w \<Longrightarrow> J [] (session_op env op w)"
proof (cases op)
  case (Op_Mode m)
  moreover assume J: "J [] w"
  moreover have "J [] (switch_mode env m ''user request'' By_User True w)" if "m \<in> set (mode_ids (es_modes (ew_s w)))"
    using quiet_invariant.switch_mode_I [OF quiet J] that by (simp add: mode_get_ids del: not_None_eq)
  ultimately show ?thesis by (simp add: set_mode_def shared_of_def)
next
  case (Op_Model m)
  moreover assume J: "J [] w"
  ultimately show ?thesis using quiet_invariant.pin_model_I [OF quiet J] by (simp add: set_session_model_def Let_def)
qed (simp add: prompt_keeps)

lemma ops_keep: "J [] w \<Longrightarrow> J [] (session_ops env ops w)"
  unfolding session_ops_def by (induction ops arbitrary: w) (simp_all add: op_keeps)

end

text \<open>The parts of the world after a record is written.\<close>

lemma ez_rec_parts [simp]:
  "ew_events (ez_rec env r w) = ew_events w" "ew_asks (ez_rec env r w) = ew_asks w" "ew_calls (ez_rec env r w) = ew_calls w"
  "ew_requests (ez_rec env r w) = ew_requests w" "ew_stats (ez_rec env r w) = ew_stats w"
  "es_modes (ew_s (ez_rec env r w)) = es_modes (ew_s w)" "es_config (ew_s (ez_rec env r w)) = es_config (ew_s w)"
  "es_mode (ew_s (ez_rec env r w)) = es_mode (ew_s w)" "es_model_pin (ew_s (ez_rec env r w)) = es_model_pin (ew_s w)"
  "es_allow_always (ew_s (ez_rec env r w)) = es_allow_always (ew_s w)"
  using ez_rec_frame [of env r w] by (auto simp: relogged_def)

lemmas world_steps = send_event_def upd_s_def minor_def ez_push_def add_message_def push_assistant_def next_request_def Let_def

section \<open>The conversation\<close>

definition healthy :: "ez_env \<Rightarrow> string list \<Rightarrow> ez_world \<Rightarrow> bool" where
  "healthy env ids w \<longleftrightarrow>
     env_ok env (es_modes (ew_s w)) \<and> mode_get (es_modes (ew_s w)) (es_mode (ew_s w)) \<noteq> None
     \<and> starts_with_user (es_messages (ew_s w)) \<and> conv (es_messages (ew_s w)) = Some ids
     \<and> (\<forall>q \<in> set (ew_requests w). provider_accepts (lq_messages q))"

lemma results_message:
  assumes "map block_result bs = map Some ids"
  shows "conv_step \<lparr>lm_role = Ez_User, lm_content = bs\<rparr> (Some ids) = Some []"
proof -
  have r: "is_result b" "block_use b = None" if "b \<in> set bs" for b
  proof -
    have "block_result b \<in> set (map Some ids)" using assms that by (metis image_eqI list.set_map)
    then show "is_result b" "block_use b = None" by (cases b; auto)+
  qed
  have "List.map_filter block_result bs = ids" using assms
    by (induction bs arbitrary: ids) (auto simp: List.map_filter_simps Cons_eq_map_conv split: option.splits)
  moreover have "filter is_result bs = bs" "filter (\<lambda>b. \<not> is_result b) bs = []" using r by (auto simp: filter_id_conv filter_empty_conv)
  ultimately show ?thesis using r map_filter_none [of bs block_use]
    by (simp add: conv_step_Some result_ids_def use_ids_def tool_uses_def results_first_def)
qed

lemma starts_snoc: "starts_with_user ms \<Longrightarrow> ms \<noteq> [] \<or> lm_role m = Ez_User \<Longrightarrow> starts_with_user (ms @ [m])"
  by (auto simp: starts_with_user_def hd_append)

interpretation hq: quiet_invariant env "healthy env ids" for env ids
proof unfold_locales
  fix w r
  assume "healthy env ids w" "quiet_record r"
  then show "healthy env ids (ez_rec env r w)" by (simp add: healthy_def)
next
  fix w n to
  assume "healthy env ids w" "ae_pending_mode env n = Some to"
  then show "mode_get (es_modes (ew_s w)) to \<noteq> None" unfolding healthy_def env_ok_def by blast
qed (simp_all add: healthy_def world_steps)

lemma answer_conv:
  "lm_role m = Ez_Assistant \<Longrightarrow> result_ids m = [] \<Longrightarrow> conv ms = Some [] \<Longrightarrow> conv (ms @ [m]) = Some (use_ids m)"
  by (simp add: conv_snoc conv_step_Some)

interpretation ht: talk env "healthy env" for env
proof unfold_locales
  fix w :: ez_world and t src
  assume "healthy env [] w"
  then show "healthy env [] (ez_push env (user_text t) src w)"
    by (auto simp: healthy_def world_steps conv_snoc conv_step_Some intro: starts_snoc)
next
  fix w :: ez_world and m :: llm_message and model st u x
  assume "healthy env [] w" "es_messages (ew_s w) \<noteq> []" "lm_role m = Ez_Assistant" "result_ids m = []"
  then show "healthy env (use_ids m) (push_assistant env m model st u x w)"
    by (auto simp: healthy_def world_steps answer_conv intro: starts_snoc)
next
  fix ids and w :: ez_world and bs :: "content_block list" and src
  assume "healthy env ids w" "map block_result bs = map Some ids"
  then show "healthy env [] (ez_push env \<lparr>lm_role = Ez_User, lm_content = bs\<rparr> src w)"
    using results_message [of bs ids] by (auto simp: healthy_def world_steps conv_snoc intro: starts_snoc)
next
  fix w :: ez_world and t n
  assume "healthy env [] w"
  moreover have "conv [compaction_message t] = Some []" "starts_with_user [compaction_message t]"
    using conv_snoc [of "[]" "user_text u" for u] by (simp_all add: compaction_message_def conv_step_Some starts_with_user_def)
  ultimately show "healthy env [] (ez_rec env (R_Compaction t n) (upd_s (\<lambda>s. s\<lparr>es_messages := [compaction_message t]\<rparr>) w))"
    by (simp add: healthy_def world_steps)
next
  fix w :: ez_world and req :: llm_request
  assume "healthy env [] w" "ends_with_user (es_messages (ew_s w))" "lq_messages req = normalize_messages (es_messages (ew_s w))"
  then show "healthy env [] (w\<lparr>ew_requests := ew_requests w @ [req]\<rparr>)" using request_normalized by (auto simp: healthy_def)
next
  fix w :: ez_world and req :: llm_request and t
  assume "healthy env [] w" "lq_messages req = with_wish (normalize_messages (es_messages (ew_s w))) t"
  then show "healthy env [] (w\<lparr>ew_requests := ew_requests w @ [req]\<rparr>)" using request_wish by (auto simp: healthy_def)
next
  fix w :: ez_world and n req evs r
  assume "healthy env [] w" "ae_complete env n req = (evs, Some (Inr r))"
  then show "lm_role (lr_message r) = Ez_Assistant \<and> result_ids (lr_message r) = []"
    unfolding healthy_def env_ok_def by blast
qed

section \<open>Permissions\<close>

text \<open>Why a call could run: the rules of its mode and the configuration, an approval of this call, or an approval for good.\<close>

definition call_justified :: "ez_env \<Rightarrow> mode_set \<Rightarrow> ez_config \<Rightarrow> ask list \<Rightarrow> tool_call \<Rightarrow> bool" where
  "call_justified env ms cfg asks c =
     (case c of
        (i, name, kind, mode, input) \<Rightarrow>
          mode_get ms mode \<noteq> None \<and>
          (perm_resolve (hl_glob (ae_hooks env)) name kind (unwrap_or mode_default (mode_get ms mode)) cfg = Perm_Allow
          \<or> list_ex (\<lambda>(n, req, d). n = name \<and> (d = PD_AllowAlways \<or> d = PD_AllowOnce \<and> pq_tool_call_id req = i)) asks))"

definition guarded :: "ez_env \<Rightarrow> mode_set \<Rightarrow> ez_config \<Rightarrow> ez_world \<Rightarrow> bool" where
  "guarded env ms cfg w \<longleftrightarrow>
     env_ok env ms \<and> es_modes (ew_s w) = ms \<and> es_config (ew_s w) = cfg \<and> mode_get ms (es_mode (ew_s w)) \<noteq> None
     \<and> (\<forall>c \<in> set (ew_calls w). call_justified env ms cfg (ew_asks w) c)
     \<and> (\<forall>name \<in> set (es_allow_always (ew_s w)). \<exists>req. (name, req, PD_AllowAlways) \<in> set (ew_asks w))"

lemma permitted_justified:
  assumes "guarded env ms cfg w" "permitted env w i name kind"
  shows "call_justified env ms cfg (ew_asks w) (i, name, kind, es_mode (ew_s w), input)"
proof -
  have "name \<in> set (es_allow_always (ew_s w)) \<Longrightarrow> \<exists>req. (name, req, PD_AllowAlways) \<in> set (ew_asks w)"
    and m: "es_modes (ew_s w) = ms" "es_config (ew_s w) = cfg" "mode_get ms (es_mode (ew_s w)) \<noteq> None" using assms(1) by (auto simp: guarded_def)
  then have "perm_resolve (hl_glob (ae_hooks env)) name kind (unwrap_or mode_default (mode_get ms (es_mode (ew_s w)))) cfg = Perm_Allow
    \<or> (\<exists>req d. (name, req, d) \<in> set (ew_asks w) \<and> (d = PD_AllowAlways \<or> d = PD_AllowOnce \<and> pq_tool_call_id req = i))"
    using assms(2) unfolding permitted_def mode_of_def by blast
  then show ?thesis using m(3) by (force simp: call_justified_def list_ex_iff)
qed

lemma justified_more: "call_justified env ms cfg asks c \<Longrightarrow> call_justified env ms cfg (asks @ asks') c"
  by (auto simp: call_justified_def split: prod.splits)

interpretation gq: quiet_invariant env "guarded env ms cfg" for env ms cfg
proof unfold_locales
  fix w n to
  assume "guarded env ms cfg w" "ae_pending_mode env n = Some to"
  then show "mode_get (es_modes (ew_s w)) to \<noteq> None" unfolding guarded_def env_ok_def by blast
next
  fix w and a :: ask
  assume "guarded env ms cfg w"
  then show "guarded env ms cfg (w\<lparr>ew_asks := ew_asks w @ [a]\<rparr>)" using justified_more unfolding guarded_def by fastforce
next
  fix w i name kind input
  assume "guarded env ms cfg w" "permitted env w i name kind"
  then show "guarded env ms cfg (w\<lparr>ew_calls := ew_calls w @ [(i, name, kind, es_mode (ew_s w), input)]\<rparr>)"
    using permitted_justified by (auto simp: guarded_def)
next
  fix w name and req :: ask_request
  assume "guarded env ms cfg w" "(name, req, PD_AllowAlways) \<in> set (ew_asks w)"
  then show "guarded env ms cfg (upd_s (\<lambda>s. s\<lparr>es_allow_always := name # es_allow_always s\<rparr>) w)"
    by (auto simp: guarded_def upd_s_def)
qed (simp_all add: guarded_def world_steps)

interpretation gt: talk env "\<lambda>ids. guarded env ms cfg" for env ms cfg
proof unfold_locales
  fix w :: ez_world and n req evs r
  assume "guarded env ms cfg w" "ae_complete env n req = (evs, Some (Inr r))"
  then show "lm_role (lr_message r) = Ez_Assistant \<and> result_ids (lr_message r) = []"
    unfolding guarded_def env_ok_def by blast
qed (simp_all add: guarded_def world_steps)

section \<open>The transcript\<close>

text \<open>Every record can be printed and every write succeeds.\<close>

definition writes_ok :: "ez_env \<Rightarrow> bool" where
  "writes_ok env \<longleftrightarrow> (\<forall>i. xl_write (ae_trans env) i = None) \<and> (\<forall>r. xl_line (ae_trans env) r \<noteq> None)"

type_synonym replayed = "llm_message list \<times> string \<times> string option"

definition log_state :: "ez_meta \<Rightarrow> stamped list \<Rightarrow> replayed" where
  "log_state m rs = fold (\<lambda>r. replay_record (snd r)) rs ([], sn_mode m, None)"

definition sane :: "replayed \<Rightarrow> bool" where
  "sane st \<longleftrightarrow> starts_with_user (fst st) \<and> conv (fst st) \<noteq> None"

text \<open>The transcript is the text of records that start with \<^verbatim>\<open>session_start\<close>, replay to a state, and to a well-formed
  conversation wherever they are cut off.\<close>

definition log_is :: "ez_env \<Rightarrow> ez_meta \<Rightarrow> stamped list \<Rightarrow> string option \<Rightarrow> replayed \<Rightarrow> bool" where
  "log_is env m rs t st \<longleftrightarrow>
     t = Some (trans_text (ae_trans env) rs) \<and> (\<exists>ts rest. rs = (ts, R_SessionStart m) # rest)
     \<and> (\<forall>k. sane (log_state m (take k rs))) \<and> log_state m rs = st"

definition session_state :: "ez_session \<Rightarrow> replayed" where
  "session_state s = (es_messages s, es_mode s, es_model_pin s)"

definition has_log :: "ez_env \<Rightarrow> ez_world \<Rightarrow> replayed \<Rightarrow> bool" where
  "has_log env w st \<longleftrightarrow> (\<exists>m. log_is env m (ew_log w) (es_transcript (ew_s w)) st)"

definition logged :: "ez_env \<Rightarrow> string list \<Rightarrow> ez_world \<Rightarrow> bool" where
  "logged env ids w \<longleftrightarrow> healthy env ids w \<and> writes_ok env \<and> has_log env w (session_state (ew_s w))"

lemma has_log_cong: "es_transcript (ew_s w) = es_transcript (ew_s w') \<Longrightarrow> ew_log w = ew_log w' \<Longrightarrow> has_log env w st = has_log env w' st"
  by (simp add: has_log_def)

lemma log_snoc:
  assumes "log_is env m rs (Some t) st" "writes_ok env" "sane (replay_record r st)"
  shows "\<exists>t'. trans_append (ae_trans env) i r t = (True, t')
    \<and> log_is env m (rs @ [(xl_now (ae_trans env) i, r)]) (Some t') (replay_record r st)"
proof -
  let ?r = "(xl_now (ae_trans env) i, r)"
  have st: "log_state m (rs @ [?r]) = replay_record r st" using assms(1) by (simp add: log_is_def log_state_def)
  have "trans_append (ae_trans env) i r (trans_text (ae_trans env) rs)
      = (True, trans_text (ae_trans env) (rs @ [?r]))"
    using assms(2) by (auto simp: writes_ok_def trans_append_def trans_text_snoc unwrap_or_def split: option.split)
  moreover have "sane (log_state m (take k (rs @ [?r])))" for k
  proof (cases "k \<le> length rs")
    case True
    then show ?thesis using assms(1) by (simp add: log_is_def)
  qed (use st assms(3) in simp)
  ultimately show ?thesis using assms(1) st by (auto simp: log_is_def)
qed

lemma has_log_rec:
  assumes "has_log env w st" "writes_ok env" "sane (replay_record r st)"
  shows "has_log env (ez_rec env r w) (replay_record r st)"
proof -
  obtain m t where l: "log_is env m (ew_log w) (Some t) st" and t: "es_transcript (ew_s w) = Some t"
    using assms(1) by (auto simp: has_log_def log_is_def)
  then obtain t' where "trans_append (ae_trans env) (ew_tick w) r t = (True, t')"
      "log_is env m (ew_log w @ [(xl_now (ae_trans env) (ew_tick w), r)]) (Some t') (replay_record r st)"
    using log_snoc [OF l assms(2,3)] by blast
  then show ?thesis using t by (auto simp: has_log_def ez_rec_def ew_step_def upd_s_def)
qed

lemma has_log_sane: "has_log env w st \<Longrightarrow> sane st"
proof -
  assume "has_log env w st"
  then obtain m where "\<forall>k. sane (log_state m (take k (ew_log w)))" "log_state m (ew_log w) = st"
    by (auto simp: has_log_def log_is_def)
  then show ?thesis by (metis take_all_iff order_refl)
qed

lemma healthy_sane: "healthy env ids w \<Longrightarrow> sane (session_state (ew_s w))"
  by (simp add: healthy_def sane_def session_state_def)

lemma quiet_replay: "quiet_record r \<Longrightarrow> replay_record r st = st"
  by (cases st; cases r) simp_all

lemma logged_rec:
  assumes "has_log env w st" "writes_ok env" "replay_record r st = session_state (ew_s w')"
    and "es_transcript (ew_s w') = es_transcript (ew_s (ez_rec env r w))" "ew_log w' = ew_log (ez_rec env r w)" "healthy env ids w'"
  shows "logged env ids w'"
  using has_log_rec [OF assms(1,2), of r] healthy_sane [OF assms(6)] assms has_log_cong [OF assms(4,5)] by (simp add: logged_def)

text \<open>Steps that leave the transcript and what it stands for alone.\<close>

lemma logged_keep:
  assumes "logged env ids w" "healthy env ids w \<Longrightarrow> healthy env ids' w'" "es_transcript (ew_s w') = es_transcript (ew_s w)"
    and "ew_log w' = ew_log w" "session_state (ew_s w') = session_state (ew_s w)"
  shows "logged env ids' w'"
  using assms has_log_cong [OF assms(3,4), of env] by (simp add: logged_def)

interpretation lq: quiet_invariant env "logged env ids" for env ids
proof unfold_locales
  fix w n
  assume l: "logged env ids w"
  show "logged env ids (w\<lparr>ew_tick := n\<rparr>)"
    by (rule logged_keep [OF l hq.tick]) simp_all
next
  fix w e
  assume l: "logged env ids w"
  show "logged env ids (send_event e w)"
    by (rule logged_keep [OF l hq.emitted]) (simp_all add: send_event_def)
next
  fix w st
  assume l: "logged env ids w"
  show "logged env ids (w\<lparr>ew_stats := st\<rparr>)"
    by (rule logged_keep [OF l hq.stats]) simp_all
next
  fix w r
  assume l: "logged env ids w" "quiet_record r"
  then show "logged env ids (ez_rec env r w)"
    using hq.recorded [of env ids w r] by (intro logged_rec [of env w "session_state (ew_s w)" r]) (auto simp: logged_def quiet_replay session_state_def)
next
  fix w and f :: "ez_session \<Rightarrow> ez_session"
  assume l: "logged env ids w" "minor f"
  show "logged env ids (upd_s f w)"
    by (rule logged_keep [OF l(1) hq.minor_update [OF _ l(2)]]) (use l(2) in \<open>simp_all add: upd_s_def minor_def session_state_def\<close>)
next
  fix w old m
  assume "logged env ids w"
  then show "logged env ids (ez_rec env (R_ModelChange old m) (upd_s (\<lambda>s. s\<lparr>es_model_pin := m\<rparr>) w))"
    using hq.pinned [of env ids w old m]
    by (intro logged_rec [of env "upd_s (\<lambda>s. s\<lparr>es_model_pin := m\<rparr>) w" "session_state (ew_s w)"])
      (auto simp: logged_def upd_s_def session_state_def has_log_def)
next
  fix w to old reason who tasks evs n
  let ?w = "upd_s (\<lambda>s. s\<lparr>es_mode := to, es_mise_tasks := tasks\<rparr>) w\<lparr>ew_events := evs, ew_tick := n\<rparr>"
  assume l: "logged env ids w" "mode_get (es_modes (ew_s w)) to \<noteq> None"
  then have h: "healthy env ids w" by (simp add: logged_def)
  show "logged env ids (ez_rec env (R_ModeChange old to reason who) ?w)"
    by (rule logged_rec [of env ?w "session_state (ew_s w)", OF _ _ _ _ _ hq.switched [OF h l(2)]])
      (use l(1) in \<open>auto simp: logged_def upd_s_def session_state_def has_log_def\<close>)
next
  fix w and a :: ask
  assume l: "logged env ids w"
  show "logged env ids (w\<lparr>ew_asks := ew_asks w @ [a]\<rparr>)"
    by (rule logged_keep [OF l hq.asked]) simp_all
next
  fix w name and req :: ask_request
  assume l: "logged env ids w" "(name, req, PD_AllowAlways) \<in> set (ew_asks w)"
  show "logged env ids (upd_s (\<lambda>s. s\<lparr>es_allow_always := name # es_allow_always s\<rparr>) w)"
    by (rule logged_keep [OF l(1) hq.always [OF _ l(2)]]) (simp_all add: upd_s_def session_state_def)
next
  fix w i name kind input
  assume l: "logged env ids w" "permitted env w i name kind"
  show "logged env ids (w\<lparr>ew_calls := ew_calls w @ [(i, name, kind, es_mode (ew_s w), input)]\<rparr>)"
    by (rule logged_keep [OF l(1) hq.called [OF _ l(2)]]) simp_all
next
  fix w n to
  assume "logged env ids w" "ae_pending_mode env n = Some to"
  then show "mode_get (es_modes (ew_s w)) to \<noteq> None" using hq.pending_known [of env ids w n to] by (auto simp: logged_def)
qed

interpretation lt: talk env "logged env" for env
proof unfold_locales
  fix w :: ez_world and t src
  assume l: "logged env [] w"
  then show "logged env [] (ez_push env (user_text t) src w)"
    using ht.said [of env w t src]
    by (intro logged_rec [of env w "session_state (ew_s w)" "R_UserMessage (user_text t) src"])
      (auto simp: logged_def world_steps session_state_def)
next
  fix w :: ez_world and m :: llm_message and model st u x
  assume l: "logged env [] w" "es_messages (ew_s w) \<noteq> []" "lm_role m = Ez_Assistant" "result_ids m = []"
  have "has_log env (next_request w) (session_state (ew_s w))"
    using l(1) by (auto simp: logged_def next_request_def upd_s_def has_log_def)
  then show "logged env (use_ids m) (push_assistant env m model st u x w)"
    using l ht.answered [of env w m model st u x]
    by (intro logged_rec [of env "next_request w" "session_state (ew_s w)"
          "R_AssistantMessage m (es_request_counter (ew_s (next_request w))) model st u x"])
      (auto simp: logged_def world_steps session_state_def)
next
  fix ids and w :: ez_world and bs :: "content_block list" and src
  assume "logged env ids w" "map block_result bs = map Some ids"
  then show "logged env [] (ez_push env \<lparr>lm_role = Ez_User, lm_content = bs\<rparr> src w)"
    using ht.resulted [of env ids w bs src]
    by (intro logged_rec [of env w "session_state (ew_s w)" "R_UserMessage \<lparr>lm_role = Ez_User, lm_content = bs\<rparr> src"])
      (auto simp: logged_def world_steps session_state_def)
next
  fix w :: ez_world and t n
  let ?w = "upd_s (\<lambda>s. s\<lparr>es_messages := [compaction_message t]\<rparr>) w"
  assume "logged env [] w"
  then show "logged env [] (ez_rec env (R_Compaction t n) ?w)"
    using ht.compacted [of env w t n]
    by (intro logged_rec [of env ?w "session_state (ew_s w)"])
      (auto simp: logged_def upd_s_def session_state_def has_log_def)
next
  fix w :: ez_world and req :: llm_request
  assume l: "logged env [] w" "ends_with_user (es_messages (ew_s w))" "lq_messages req = normalize_messages (es_messages (ew_s w))"
  show "logged env [] (w\<lparr>ew_requests := ew_requests w @ [req]\<rparr>)"
    by (rule logged_keep [OF l(1) ht.requested [OF _ l(2,3)]]) simp_all
next
  fix w :: ez_world and req :: llm_request and t
  assume l: "logged env [] w" "lq_messages req = with_wish (normalize_messages (es_messages (ew_s w))) t"
  show "logged env [] (w\<lparr>ew_requests := ew_requests w @ [req]\<rparr>)"
    by (rule logged_keep [OF l(1) ht.wished [OF _ l(2)]]) simp_all
next
  fix w :: ez_world and n req evs r
  assume "logged env [] w" "ae_complete env n req = (evs, Some (Inr r))"
  then show "lm_role (lr_message r) = Ez_Assistant \<and> result_ids (lr_message r) = []"
    using ht.provided [of env w n req evs r] by (auto simp: logged_def)
qed

section \<open>Reading a transcript back\<close>

lemma utf8_append: "utf8_valid a \<Longrightarrow> utf8_valid (a @ b) = utf8_valid b"
proof (induction a rule: utf8_valid.induct)
  case (2 x r)
  show ?case
  proof (cases "x < 0x80")
    case False
    then obtain y r1 where r: "r = y # r1" using 2(5) by (cases r) auto
    show ?thesis
    proof (cases "utf8_two x y")
      case two: False
      then obtain z r2 where r1: "r1 = z # r2" using 2(5) False r by (cases r1) auto
      show ?thesis
      proof (cases "utf8_three x y z")
        case three: False
        then obtain u r3 where "r2 = u # r3" using 2(5) False two r r1 by (cases r2) auto
        then show ?thesis using 2(4) [OF False r two r1 three] 2(5) False two three r r1 by simp
      qed (use 2(3) [OF False r two r1] 2(5) False two r r1 in simp)
    qed (use 2(2) [OF False r] 2(5) False r in simp)
  qed (use 2(1,5) in simp)
qed simp

lemma is_str_append: "is_str a \<Longrightarrow> is_str (a @ b) = is_str b"
  by (simp add: is_str_def utf8_append as_bytes_def)

lemma is_str_NL [simp]: "is_str (CHR 0x0A # s) = is_str s"
  by (simp add: is_str_def as_bytes_def byte_of_char_def)

lemma trim_Nil: "trim [] = []"
  by code_simp

text \<open>No proper prefix of a line is a record: it is an object cut off.\<close>

definition torn_bad :: "trans_lib \<Rightarrow> stamped \<Rightarrow> bool" where
  "torn_bad lib r = (case xl_line lib r of None \<Rightarrow> False | Some l \<Rightarrow> list_all (\<lambda>k. xl_unline lib (take k l) = None) [0..<length l])"

lemma records_Cons:
  "line_good lib r \<Longrightarrow> trans_records lib (unwrap_or [] (xl_line lib r) @ CHR 0x0A # rest) = r # trans_records lib rest"
  by (auto simp: line_good_def trans_records_def text_lines_append split_on_absent drop_cr_id List.map_filter_simps unwrap_or_def
      split: option.splits)

lemma records_torn:
  assumes "line_good lib r" "torn_bad lib r" "n \<le> length (unwrap_or [] (xl_line lib r))"
  shows "\<exists>k \<le> 1. trans_records lib (take n (unwrap_or [] (xl_line lib r))) = take k [r]"
proof -
  obtain l where l: "xl_line lib r = Some l" using assms(1) by (auto simp: line_good_def split: option.splits)
  have "CHR 0x0A \<notin> set (take n l)" using assms(1) l by (auto simp: line_good_def dest: in_set_takeD)
  then have s: "text_lines (take n l) = (if take n l = [] then [] else [take n l])"
    by (simp add: text_lines_def split_on_absent del: take_eq_Nil)
  show ?thesis
  proof (cases "n < length l")
    case True
    then have "xl_unline lib (take n l) = None" using assms(2) l by (simp add: torn_bad_def list_all_iff)
    then have "trans_records lib (take n l) = []" using s by (auto simp: trans_records_def List.map_filter_simps)
    then show ?thesis using l by (intro exI [of _ 0]) (simp add: unwrap_or_def)
  next
    case False
    then have "take n l = l" by simp
    moreover have "l \<noteq> []" using l assms(1) trim_Nil by (auto simp: line_good_def)
    ultimately have "trans_records lib (take n l) = [r]"
      using s l assms(1) by (auto simp: trans_records_def List.map_filter_simps line_good_def)
    then show ?thesis using l by (intro exI [of _ 1]) (simp add: unwrap_or_def)
  qed
qed

lemma trans_text_Cons: "trans_text lib (r # rs) = unwrap_or [] (xl_line lib r) @ CHR 0x0A # trans_text lib rs"
  by (simp add: trans_text_def NL_def)

lemma records_text: "list_all (line_good lib) rs \<Longrightarrow> trans_records lib (trans_text lib rs) = rs"
proof (induction rs)
  case Nil
  then show ?case by (simp add: trans_records_def List.map_filter_simps)
qed (simp add: trans_text_Cons records_Cons)

lemma records_cut:
  "list_all (line_good lib) rs \<Longrightarrow> list_all (torn_bad lib) rs \<Longrightarrow> \<exists>k. trans_records lib (take n (trans_text lib rs)) = take k rs"
proof (induction rs arbitrary: n)
  case Nil
  then show ?case by (simp add: trans_records_def List.map_filter_simps)
next
  case (Cons r rs)
  let ?l = "unwrap_or [] (xl_line lib r)"
  show ?case
  proof (cases "n \<le> length ?l")
    case True
    then obtain k where k: "k \<le> 1" "trans_records lib (take n ?l) = take k [r]" 
      using records_torn [of lib r n] Cons.prems by (auto simp del: One_nat_def)
    then have "take k (r # rs) = take k [r]" by (cases k) auto
    then have "trans_records lib (take n (trans_text lib (r # rs))) = take k (r # rs)" using k True by (simp add: trans_text_Cons)
    then show ?thesis by blast
  next
    case False
    then have t: "take n (trans_text lib (r # rs)) = ?l @ CHR 0x0A # take (n - length ?l - 1) (trans_text lib rs)"
      by (simp add: trans_text_Cons take_Cons' del: One_nat_def)
    obtain k where "trans_records lib (take (n - length ?l - 1) (trans_text lib rs)) = take k rs" using Cons by fastforce
    then have "trans_records lib (take n (trans_text lib (r # rs))) = take (Suc k) (r # rs)"
      using Cons.prems by (simp add: t records_Cons)
    then show ?thesis by blast
  qed
qed

lemma text_str: "list_all (line_good lib) rs \<Longrightarrow> is_str (trans_text lib rs)"
proof (induction rs)
  case Nil
  then show ?case by (simp add: is_str_def as_bytes_def)
next
  case (Cons r rs)
  then have "is_str (unwrap_or [] (xl_line lib r))" by (auto simp: line_good_def unwrap_or_def split: option.splits)
  then show ?case using Cons by (simp add: trans_text_Cons is_str_append)
qed

text \<open>What was read replays the records that were read.\<close>

lemma load_records:
  assumes "is_str t" "trans_records lib t = (ts, R_SessionStart m) # rest"
  shows "\<exists>l. trans_load lib t = Inr l
    \<and> (ld_messages l, ld_mode l, ld_model l) = log_state m ((ts, R_SessionStart m) # rest)"
  using assms by (auto simp: trans_load_def Let_def log_state_def split: prod.splits)

section \<open>Opening a session\<close>

lemma built:
  assumes "build_state i cwd config modes po mode extra tasks = Inr s"
  shows "mode_get (es_modes s) (es_mode s) \<noteq> None" "es_messages s = []" "es_allow_always s = []" "es_model_pin s = None"
    "es_transcript s = None" "modes = Inr (es_modes s)"
  using assms by (auto simp: build_state_def Let_def split: sum.splits if_splits)

lemma opened:
  assumes "build_state i cwd config modes po mode extra tasks = Inr s" "new_session env created v s = Inr w"
    and "env_ok env (es_modes s)"
  shows "healthy env [] w" "guarded env (es_modes s) (es_config s) w"
    "ae_persist env \<Longrightarrow> writes_ok env \<Longrightarrow> logged env [] w"
proof -
  note b = built [OF assms(1)]
  show h: "healthy env [] w" and "guarded env (es_modes s) (es_config s) w"
    using assms(2,3) b
    by (auto simp: new_session_def healthy_def guarded_def new_world_def starts_with_user_def ew_step_def Let_def
        split: if_splits sum.splits option.splits)
  assume p: "ae_persist env" "writes_ok env"
  then obtain model profile where m: "model_for env s = Inr (model, profile)"
    using assms(2) by (cases "model_for env s") (auto simp: new_session_def)
  define meta where "meta = \<lparr>sn_id = es_id s, sn_cwd = es_cwd s, sn_created_at = created, sn_ez_version = v,
      sn_profile = es_profile s, sn_model = model, sn_mode = es_mode s\<rparr>"
  let ?r = "(xl_now (ae_trans env) 0, R_SessionStart meta)"
  have "trans_create (ae_trans env) 0 meta = Some (trans_text (ae_trans env) [?r])"
    using p(2) by (auto simp: trans_create_def trans_append_def writes_ok_def trans_text_def unwrap_or_def split: option.split)
  then have w: "w = (ew_step (new_world s))\<lparr>ew_s := s\<lparr>es_transcript := Some (trans_text (ae_trans env) [?r])\<rparr>, ew_log := [?r]\<rparr>"
    using assms(2) p(1) m by (simp add: new_session_def Let_def flip: meta_def)
  have "log_state meta (take k [?r]) = ([], es_mode s, None)" for k by (cases k) (simp_all add: log_state_def meta_def)
  then have "log_is env meta [?r] (es_transcript (ew_s w)) (session_state (ew_s w))"
    using b(2,4) by (auto simp: log_is_def w session_state_def sane_def starts_with_user_def log_state_def meta_def)
  then show "logged env [] w" using h p(2) unfolding logged_def has_log_def by (auto simp: w)
qed

text \<open>A transcript that replays to a well-formed conversation can be resumed.\<close>

lemma restore_ok:
  assumes l: "trans_load (ae_trans env) t = Inr l" "starts_with_user (ld_messages l)" "conv (ld_messages l) = Some ids"
    and b: "config_profile c (unwrap_or (cf_default_profile c) po) = Inr pf" "mode_get ms (ms_default ms) \<noteq> None"
    and e: "env_ok env ms"
  shows "\<exists>w. restore_session env t (\<lambda>m. mode_get ms m \<noteq> None)
      (\<lambda>m. build_state i cwd (Inr c) (Inr ms) po m extra tasks) replay_to = Inr w \<and> healthy env [] w"
proof -
  let ?mode = "if mode_get ms (ld_mode l) \<noteq> None then Some (ld_mode l) else None"
  obtain s0 where s0: "build_state i cwd (Inr c) (Inr ms) po ?mode extra tasks = Inr s0" "es_modes s0 = ms"
  proof -
    have "mode_get ms (unwrap_or (ms_default ms) ?mode) \<noteq> None" using b(2) by (simp add: unwrap_or_def)
    then show thesis using b(1) that by (simp add: build_state_def Let_def)
  qed
  define s where "s = s0\<lparr>es_started := True, es_model_pin := ld_model l, es_messages := ld_messages l,
                         es_transcript := (if ae_persist env then Some (trans_open t) else None)\<rparr>"
  have w0: "healthy env ids (new_world s)"
    using built(1) [OF s0(1)] s0(2) l e by (simp add: healthy_def new_world_def s_def)
  have ids: "map fst (dangling_tool_uses l) = ids"
  proof (cases "ld_messages l" rule: rev_cases)
    case Nil
    then show ?thesis using l(3) by (simp add: dangling_tool_uses_def)
  next
    case (snoc ms' m)
    then show ?thesis using l(3)
      by (cases "lm_role m") (auto simp: dangling_tool_uses_def conv_snoc conv_step_Some use_ids_def comp_def case_prod_beta)
  qed
  define w1 where "w1 = (if ids \<noteq> [] then ez_push env (interrupted_results ids) Src_ToolResults (new_world s) else new_world s)"
  define w2 where "w2 = (if ends_with_user (es_messages (ew_s w1)) then push_interruption env w1 else w1)"
  have "healthy env [] w1"
    using w0 ht.resulted [OF w0, of "lm_content (interrupted_results ids)"]
    by (auto simp: w1_def interrupted_results_def comp_def)
  then have "healthy env [] w2" using ht.interruption_keeps by (simp add: w2_def)
  then have w3: "healthy env [] (ez_rec env R_SessionResumed w2)" by (rule hq.recorded) simp
  have "healthy env [] (fold send_event es (ez_rec env R_SessionResumed w2))" for es
    using hq.folded [of es env "[]" send_event "ez_rec env R_SessionResumed w2"] hq.emitted w3 by blast
  moreover have "restore_session env t (\<lambda>m. mode_get ms m \<noteq> None)
      (\<lambda>m. build_state i cwd (Inr c) (Inr ms) po m extra tasks) replay_to =
      Inr (case replay_to of
             None \<Rightarrow> ez_rec env R_SessionResumed w2
           | Some todos \<Rightarrow> fold send_event (concat (map (\<lambda>r. replay_events todos (es_cwd s) (snd r)) (ld_records l)))
                             (ez_rec env R_SessionResumed w2))"
    unfolding restore_session_def l(1) sum.case s0(1) Let_def ids w2_def w1_def s_def by (rule refl)
  ultimately show ?thesis using w3 by (cases replay_to) simp_all
qed

section \<open>Properties\<close>

text \<open>C20: over any sequence of prompts, mode switches and model choices of a session the conversation stays well-formed: every tool use of an answer is answered by
  the next message, in order and once, and nothing else is. Every request sent to a provider, those for a summary too, is a list of
  alternating messages that starts and ends with the user and has the results of tools right after their uses.\<close>

theorem ez_conversation_well_formed:
  assumes "build_state i cwd config modes po mode extra tasks = Inr s" "new_session env created v s = Inr w"
    and "env_ok env (es_modes s)"
  shows "conv (es_messages (ew_s (session_ops env ops w))) = Some []
    \<and> list_all (\<lambda>q. provider_accepts (lq_messages q)) (ew_requests (session_ops env ops w))"
  using ht.ops_keep [OF opened(1) [OF assms]] by (simp add: healthy_def list_all_iff)

text \<open>C21: every tool call of a session ran in a mode the session knows, and the rules of that mode and the configuration allow the
  tool, or the user approved this very call, or the user said once that the tool is always allowed.\<close>

theorem ez_calls_permitted:
  assumes "build_state i cwd config modes po mode extra tasks = Inr s" "new_session env created v s = Inr w"
    and "env_ok env (es_modes s)"
  shows "list_all (call_justified env (es_modes s) (es_config s) (ew_asks (session_ops env ops w)))
    (ew_calls (session_ops env ops w))"
  using gt.ops_keep [OF opened(2) [OF assms]] by (simp add: guarded_def list_all_iff)

text \<open>C22: what a session wrote to its transcript reads back as the session: its messages, its mode and its pinned model, also after
  compactions, mode switches and interrupted prompts.\<close>

theorem ez_transcript_reads_back:
  assumes "build_state i cwd config modes po mode extra tasks = Inr s" "new_session env created v s = Inr w"
    and "env_ok env (es_modes s)" "ae_persist env" "writes_ok env"
    and "list_all (line_good (ae_trans env)) (ew_log (session_ops env ops w))"
  shows "\<exists>t l. es_transcript (ew_s (session_ops env ops w)) = Some t \<and> trans_load (ae_trans env) t = Inr l
    \<and> ld_messages l = es_messages (ew_s (session_ops env ops w)) \<and> ld_mode l = es_mode (ew_s (session_ops env ops w))
    \<and> ld_model l = es_model_pin (ew_s (session_ops env ops w))"
proof -
  let ?w = "session_ops env ops w" and ?lib = "ae_trans env"
  have "logged env [] ?w" using lt.ops_keep opened(3) [OF assms(1-3)] assms(4,5) by simp
  then obtain m ts rest where rs: "es_transcript (ew_s ?w) = Some (trans_text ?lib (ew_log ?w))"
      "log_state m (ew_log ?w) = session_state (ew_s ?w)" "ew_log ?w = (ts, R_SessionStart m) # rest"
    by (auto simp: logged_def has_log_def log_is_def)
  obtain l where "trans_load ?lib (trans_text ?lib (ew_log ?w)) = Inr l" "(ld_messages l, ld_mode l, ld_model l) = session_state (ew_s ?w)"
    using load_records [OF text_str [OF assms(6)]] records_text [OF assms(6)] rs by metis
  then show ?thesis using rs(1) by (simp add: session_state_def)
qed


section \<open>Witnesses\<close>

text \<open>A model that always wants to run a command, in a project with the built-in mode, and a transcript with a line for the start
  of a session and one for everything else.\<close>

definition demo_profile :: profile where
  "demo_profile = \<lparr>pf_name = ''default'', pf_provider = PK_Anthropic, pf_model = ''m'', pf_models = [], pf_api_key_name = None,
     pf_api_key_env = None, pf_base_url = None, pf_max_tokens = 100, pf_context_window = 1000, pf_thinking = None\<rparr>"

definition demo_config :: ez_config where
  "demo_config = \<lparr>cf_default_profile = ''default'', cf_compaction_threshold = F64 (4 / 5), cf_max_turn_requests = 3,
     cf_profiles = [(''default'', demo_profile)], cf_mise_lazy_threshold = 0, cf_mcp_lazy_threshold = 0, cf_mcp_servers = [],
     cf_permissions = [], cf_hooks = no_hooks\<rparr>"

definition demo_meta :: ez_meta where
  "demo_meta = \<lparr>sn_id = ''s'', sn_cwd = ''/p'', sn_created_at = [], sn_ez_version = ''1'', sn_profile = ''default'',
     sn_model = ''m'', sn_mode = ''default''\<rparr>"

definition demo_lib :: trans_lib where
  "demo_lib = \<lparr>xl_now = (\<lambda>n. []),
     xl_line = (\<lambda>(ts, r). Some (if ts = [] \<and> r = R_SessionStart demo_meta then ''{start}'' else ''{}'')),
     xl_unline = (\<lambda>l. if l = ''{start}'' then Some ([], R_SessionStart demo_meta) else None), xl_write = (\<lambda>n. None)\<rparr>"

definition demo_answer :: llm_response where
  "demo_answer = \<lparr>lr_message = \<lparr>lm_role = Ez_Assistant, lm_content = [CB_ToolUse ''t1'' ''Bash'' JNull]\<rparr>, lr_stop = LS_EndTurn,
     lr_usage = \<lparr>lu_input = 1, lu_output = 1\<rparr>\<rparr>"

definition demo_env :: ez_env where
  "demo_env = \<lparr>ae_hooks = \<lparr>hl_regex = (\<lambda>_. None), hl_glob = (\<lambda>_. None), hl_sh = (\<lambda>_ _ _ _. Inl []), hl_ms = (\<lambda>_. 0),
       hl_show = (\<lambda>_. [])\<rparr>,
     ae_trans = demo_lib, ae_model_override = None, ae_provider_override = False, ae_persist = True, ae_unattended = False,
     ae_capitalize = id, ae_builtin = (\<lambda>n. \<lparr>tl_name = n, tl_description = [], tl_schema = JNull, tl_kind = Kind_Execute,
       tl_title = (\<lambda>_. n), tl_locations = (\<lambda>_. [])\<rparr>),
     ae_mcp_start = (\<lambda>_ _. []), ae_mcp_tools = (\<lambda>_ _ _. []), ae_mise_discover = (\<lambda>_. []), ae_mise_tools = (\<lambda>_ _ _. None),
     ae_system = (\<lambda>_ _ _. []), ae_provider = (\<lambda>_ _. Inr ()), ae_complete = (\<lambda>_ _. ([], Some (Inr demo_answer))),
     ae_metrics = (\<lambda>_. no_metrics), ae_decide = (\<lambda>_ _. PD_AllowOnce),
     ae_call = (\<lambda>_ _ _. Inr \<lparr>to_content = ''done'', to_is_error = False, to_edits = [], to_plan = None\<rparr>),
     ae_cancelled = (\<lambda>_. False), ae_registered = (\<lambda>_. True), ae_pending_model = (\<lambda>_. None), ae_pending_mode = (\<lambda>_. None),
     ae_json_len = (\<lambda>_. 0), ae_over = (\<lambda>_ _ _. False), ae_diff = (\<lambda>_ _. []), ae_driver_start = (\<lambda>_. None),
     ae_driver = (\<lambda>_ _. ([], Inl [])), ae_uuid = (\<lambda>_. [])\<rparr>"

definition demo_session :: ez_session where
  "demo_session = \<lparr>es_id = ''s'', es_cwd = ''/p'', es_config = demo_config, es_modes = modes_implicit, es_mise_tasks = [],
     es_extra_mcp = [], es_mcp = False, es_mode = ''default'', es_profile = ''default'', es_messages = [], es_allow_always = [],
     es_edited = [], es_transcript = None, es_started = False, es_request_counter = 0, es_model_pin = None,
     es_warned_profiles = False, es_claude = False, es_claude_mode = []\<rparr>"

definition demo_world :: ez_world where
  "demo_world = (ew_step (new_world demo_session))
     \<lparr>ew_s := demo_session\<lparr>es_transcript := Some (''{start}'' @ NL)\<rparr>, ew_log := [([], R_SessionStart demo_meta)]\<rparr>"

lemma demo_built: "build_state ''s'' ''/p'' (Inr demo_config) (Inr modes_implicit) None None [] [] = Inr demo_session"
  by (simp add: build_state_def Let_def unwrap_or_def demo_config_def modes_implicit_def config_profile_def mode_get_def demo_session_def)

lemma demo_opened: "new_session demo_env [] ''1'' demo_session = Inr demo_world"
proof -
  have "model_for demo_env demo_session = Inr (''m'', demo_profile)"
    by (simp add: model_for_def demo_session_def demo_env_def mode_of_def mode_get_def modes_implicit_def mode_default_def
        unwrap_or_def config_profile_def demo_config_def demo_profile_def Let_def)
  moreover have "trans_create (ae_trans demo_env) 0 demo_meta = Some (''{start}'' @ NL)" "xl_now (ae_trans demo_env) 0 = []"
    "ae_persist demo_env"
    by (simp_all add: trans_create_def trans_append_def demo_env_def demo_lib_def)
  moreover have "\<lparr>sn_id = es_id demo_session, sn_cwd = es_cwd demo_session, sn_created_at = [], sn_ez_version = ''1'',
      sn_profile = es_profile demo_session, sn_model = ''m'', sn_mode = es_mode demo_session\<rparr> = demo_meta"
    by (simp add: demo_meta_def demo_session_def)
  ultimately show ?thesis by (simp add: new_session_def demo_world_def Let_def)
qed

lemma demo_trans: "ae_trans demo_env = demo_lib"
  by (simp add: demo_env_def)

lemma demo_env_ok: "env_ok demo_env ms"
  by (simp add: env_ok_def demo_env_def demo_answer_def result_ids_def List.map_filter_simps)

lemma demo_writes: "ae_persist demo_env" "writes_ok demo_env"
  by (simp_all add: demo_env_def writes_ok_def demo_lib_def split: prod.split)

lemma ez_conversation_well_formed_witness:
  "conv (es_messages (ew_s (session_ops demo_env [Op_Prompt ''hi'', Op_Mode ''x'', Op_Prompt ''go on''] demo_world))) = Some []
   \<and> list_all (\<lambda>q. provider_accepts (lq_messages q))
       (ew_requests (session_ops demo_env [Op_Prompt ''hi'', Op_Mode ''x'', Op_Prompt ''go on''] demo_world))"
  by (rule ez_conversation_well_formed [OF demo_built demo_opened demo_env_ok])

lemma ez_calls_permitted_witness:
  "list_all (call_justified demo_env (es_modes demo_session) (es_config demo_session)
       (ew_asks (session_ops demo_env [Op_Prompt ''hi''] demo_world)))
     (ew_calls (session_ops demo_env [Op_Prompt ''hi''] demo_world))"
  by (rule ez_calls_permitted [OF demo_built demo_opened demo_env_ok])

lemma demo_log: "list_all (\<lambda>r. line_good demo_lib r \<and> torn_bad demo_lib r) (ew_log (session_ops demo_env [] demo_world))"
proof -
  have "is_str ''{start}'' \<and> \<not> ends_with ''{start}'' [CHR 0x0D] \<and> trim ''{start}'' \<noteq> []" by code_simp
  then show ?thesis
    by (simp add: session_ops_def demo_world_def line_good_def torn_bad_def demo_lib_def upt_rec numeral_eq_Suc)
qed

lemma ez_transcript_reads_back_witness:
  "\<exists>t l. es_transcript (ew_s (session_ops demo_env [] demo_world)) = Some t \<and> trans_load (ae_trans demo_env) t = Inr l
    \<and> ld_messages l = es_messages (ew_s (session_ops demo_env [] demo_world))
    \<and> ld_mode l = es_mode (ew_s (session_ops demo_env [] demo_world))
    \<and> ld_model l = es_model_pin (ew_s (session_ops demo_env [] demo_world))"
  by (rule ez_transcript_reads_back [OF demo_built demo_opened demo_env_ok demo_writes])
    (use demo_log in \<open>simp add: demo_trans list_all_iff\<close>)


end
