(* ===== verification/Ez_Bound.thy ===== *)
theory Ez_Bound
  imports Ez_Props
begin

text \<open>
  How many requests a prompt may send to the model: what the configuration allows, each with at most one compaction before it, and a
  compaction at the start.
\<close>

definition spent :: "ez_env \<Rightarrow> ez_config \<Rightarrow> nat \<Rightarrow> ez_world \<Rightarrow> bool" where
  "spent env cfg k w \<longleftrightarrow>
     env_ok env (es_modes (ew_s w)) \<and> es_config (ew_s w) = cfg \<and> length (ew_requests w) \<le> k"

interpretation sq: quiet_invariant env "spent env cfg k" for env cfg k
proof unfold_locales
  fix w n to
  assume "spent env cfg k w" "ae_pending_mode env n = Some to"
  then show "mode_get (es_modes (ew_s w)) to \<noteq> None" unfolding spent_def env_ok_def by blast
qed (simp_all add: spent_def world_steps)

lemma spent_push:
  "spent env cfg k (ez_push env m src w) = spent env cfg k w"
  "spent env cfg k (push_assistant env m model st u x w) = spent env cfg k w"
  by (simp_all add: spent_def world_steps)

lemma spent_mono: "spent env cfg k w \<Longrightarrow> k \<le> k' \<Longrightarrow> spent env cfg k' w"
  by (simp add: spent_def)

lemma spent_compact: "spent env cfg k w \<Longrightarrow> spent env cfg (Suc k) (compact_if_needed env system w)"
  by (auto simp: compact_if_needed_def Let_def spent_def ew_step_def notice_def send_event_def upd_s_def
      split: sum.splits option.splits)

lemma spent_stream_emit: "spent env cfg k w \<Longrightarrow> spent env cfg k (fold stream_emit evs w)"
proof (induction evs arbitrary: w)
  case (Cons e evs)
  have "spent env cfg k (stream_emit e w)" using Cons.prems sq.emitted by (cases e) simp_all
  then show ?case using Cons.IH by simp
qed simp

lemma spent_stream: "spent env cfg k w \<Longrightarrow> spent env cfg (Suc k) (snd (stream_request env req w))"
proof -
  assume "spent env cfg k w"
  then have "spent env cfg (Suc k) (ew_step (w\<lparr>ew_requests := ew_requests w @ [req]\<rparr>))" by (simp add: spent_def ew_step_def)
  then show ?thesis by (simp add: stream_request_def Let_def spent_stream_emit split: prod.split)
qed

lemma spent_answer: "spent env cfg k w \<Longrightarrow> spent env cfg k (snd (after_answer env tools resp ft w))"
proof -
  assume s: "spent env cfg k w"
  obtain p ft' w1 where f: "finish_edits env ft w = (p, ft', w1)" by (metis prod_cases3)
  obtain bs c w2 where e: "execute_uses env (tool_table tools) (tool_uses (lr_message resp)) False w = (bs, c, w2)"
    by (metis prod_cases3)
  have "spent env cfg k w1" using sq.finish_edits_I [OF s, of ft] f by simp
  moreover have "spent env cfg k (snd (snd (execute_uses env (tool_table tools) (tool_uses (lr_message resp)) False w)))"
    using s by (rule sq.execute_uses_I) (rule tool_table_name)
  then have "spent env cfg k w2" using e by simp
  ultimately show ?thesis using f e sq.stop_hooks_I by (simp add: after_answer_def Let_def spent_push split: option.split)
qed

lemma spent_turn: "spent env cfg k w \<Longrightarrow> spent env cfg (k + 2) (snd (one_turn env first ft w))"
proof -
  assume s: "spent env cfg k w"
  define w1 where "w1 = apply_pending_mode env w"
  define system where "system = ae_system env (ew_tick w1) (es_modes (ew_s w1)) (es_mode (ew_s w1))"
  define w2 where "w2 = (if first then ew_step w1 else compact_if_needed env system (ew_step w1))"
  define w3 where "w3 = ew_step w2"
  note o = one_turn_def [of env first ft w, unfolded Let_def, folded w1_def, folded system_def, folded w2_def, folded w3_def]
  have "spent env cfg k w1" unfolding w1_def by (rule sq.apply_pending_I [OF s])
  then have "spent env cfg (Suc k) w2" unfolding w2_def using sq.stepped spent_compact spent_mono [of env cfg k _ "Suc k"] by simp
  then have w3: "spent env cfg (Suc k) w3" "spent env cfg (Suc k) (ew_step w3)" unfolding w3_def by (simp_all add: sq.stepped)
  then have w3': "spent env cfg (k + 2) w3" "spent env cfg (k + 2) (ew_step w3)" using spent_mono by simp_all
  have st: "spent env cfg (k + 2) w4" if "stream_request env req (ew_step w3) = (r, w4)" for req r w4
    using spent_stream [OF w3(2), of req] that by simp
  then have a: "spent env cfg (k + 2) (snd (after_answer env tools resp ft (push_assistant env m model sp u x v)))"
    if "stream_request env req (ew_step w3) = (r, w4)" "v = count_request u w4 \<or> v = send_event e (count_request u w4)"
    for req r w4 tools resp m model sp u x v e
    using that by (intro spent_answer) (auto simp: spent_push count_request_def sq.stats sq.emitted)
  show ?thesis unfolding o using w3' st a
    by (fastforce simp: w3_def [symmetric] split: sum.split option.split prod.split)
qed

lemma spent_turns: "spent env cfg k w \<Longrightarrow> spent env cfg (k + 2 * n) (snd (turns env n first ft w))"
proof (induction n arbitrary: k first ft w)
  case 0
  then show ?case using sq.finish_edits_I by simp
next
  case (Suc n)
  obtain r w1 where o: "one_turn env first ft w = (r, w1)" by fastforce
  have w1: "spent env cfg (k + 2) w1" using spent_turn [OF Suc.prems, of first ft] o by simp
  show ?case
  proof (cases r)
    case (Turn_Again ft')
    then show ?thesis using Suc.IH [OF w1] o by simp
  next
    case (Turn_Done x)
    then show ?thesis using w1 o spent_mono [of env cfg "k + 2" w1] by simp
  qed
qed

interpretation se: turn_taking env "\<lambda>ids. spent env cfg k" for env cfg k
  by unfold_locales (simp_all add: spent_push)

lemma spent_prompt:
  assumes s: "spent env cfg k w"
  shows "spent env cfg (k + 1 + 2 * unat (cf_max_turn_requests cfg)) (snd (run_prompt env t w))"
proof -
  let ?p = "\<lambda>w1. jobj [(''event'', JStr ''user_prompt_submit''), (''session_id'', JStr (es_id (ew_s w1))), (''prompt'', JStr t)]"
  let ?k = "k + 1 + 2 * unat (cf_max_turn_requests cfg)"
  define w1 where "w1 = warn_profiles (start_hooks env w)"
  note r = run_prompt_def [of env t w, unfolded Let_def, folded w1_def]
  obtain out w2 where h: "run_hooks env HE_UserPromptSubmit None (?p w1) w1 = (out, w2)" by fastforce
  define w3 where "w3 = start_mcp env w2"
  have "spent env cfg k w1" unfolding w1_def by (intro sq.warn_profiles_I sq.start_hooks_I s)
  then have w2: "spent env cfg k w2" using sq.run_hooks_I h by (metis snd_conv)
  then have w3: "spent env cfg k w3" unfolding w3_def by (rule sq.start_mcp_I)
  let ?sys = "ae_system env (ew_tick w3) (es_modes (ew_s w3)) (es_mode (ew_s w3))"
  let ?w5 = "ez_push env (user_text t) Src_User (compact_if_needed env ?sys (ew_step w3))"
  have w5: "spent env cfg (Suc k) ?w5" by (simp add: spent_push spent_compact sq.stepped w3)
  then have "es_config (ew_s ?w5) = cfg" by (simp add: spent_def)
  then have "spent env cfg ?k (snd (turns env (unat (cf_max_turn_requests (es_config (ew_s ?w5)))) True 0 ?w5))"
    using spent_turns [OF w5] by simp
  moreover have "spent env cfg ?k (notice x w2)" for x by (rule spent_mono [OF sq.noticed [OF w2]]) simp
  moreover have "spent env cfg ?k w3" using spent_mono [OF w3] by simp
  moreover have "spent env cfg ?k (snd (run_prompt_claude env t model profile w3))" for model profile
    using spent_mono [OF se.run_prompt_claude_keeps [OF w3]] by simp
  ultimately show ?thesis using h unfolding r by (simp flip: w3_def split: option.split sum.split prod.split)
qed



end
