(* ===== verification/Ez_Llm.thy ===== *)
theory Ez_Llm
  imports Ez_Base
begin

text \<open>
  The model clients of ez: the decoder of server-sent events (\<^verbatim>\<open>ez-llm/src/sse.rs\<close>), the Anthropic client
  (\<^verbatim>\<open>anthropic.rs\<close>) and the OpenAI-compatible one (\<^verbatim>\<open>openai.rs\<close>). What the server answers is an argument, as are reading and
  printing JSON (\<open>parse\<close>, \<open>pr\<close>).
\<close>

section \<open>Lossy text\<close>

text \<open>\<^verbatim>\<open>String::from_utf8_lossy\<close>: U+FFFD for each longest prefix of a character that is not continued.\<close>

definition REPLACEMENT :: bytes where "REPLACEMENT = [0xEF, 0xBF, 0xBD]"

fun utf8_lossy :: "bytes \<Rightarrow> bytes" where
  "utf8_lossy [] = []"
| "utf8_lossy (a # r) =
     (if a < 0x80 then a # utf8_lossy r
      else case r of [] \<Rightarrow> REPLACEMENT | b # r1 \<Rightarrow>
        (if utf8_two a b then a # b # utf8_lossy r1
         else if \<not> utf8_three a b 0x80 \<and> \<not> utf8_four a b 0x80 0x80 then REPLACEMENT @ utf8_lossy r
         else case r1 of [] \<Rightarrow> REPLACEMENT | c # r2 \<Rightarrow>
           (if utf8_three a b c then a # b # c # utf8_lossy r2
            else if \<not> utf8_four a b c 0x80 then REPLACEMENT @ utf8_lossy r1
            else case r2 of [] \<Rightarrow> REPLACEMENT | d # r3 \<Rightarrow>
              (if utf8_four a b c d then a # b # c # d # utf8_lossy r3 else REPLACEMENT @ utf8_lossy r2))))"

definition from_utf8_lossy :: "string \<Rightarrow> string" where
  "from_utf8_lossy s = string_of_bytes (utf8_lossy (as_bytes s))"

section \<open>Server-sent events\<close>

record sse_event =
  sse_name :: "string option"
  sse_data :: string

text \<open>The bytes of a stream are a string, one character each.\<close>

record sse_decoder =
  sd_buf :: string
  sd_event :: "string option"
  sd_data :: "string list"

definition sse_default :: sse_decoder where
  "sse_default = \<lparr>sd_buf = [], sd_event = None, sd_data = []\<rparr>"

definition trim_newline :: "string \<Rightarrow> string" where
  "trim_newline s = rev (dropWhile (\<lambda>c. c = CHR 0x0A \<or> c = CHR 0x0D) (rev s))"

definition sse_line :: "string \<Rightarrow> sse_decoder \<Rightarrow> sse_event list \<times> sse_decoder" where
  "sse_line raw d =
     (let line = trim_newline (from_utf8_lossy raw)
      in if line = []
         then (if sd_data d \<noteq> [] \<or> sd_event d \<noteq> None
               then ([\<lparr>sse_name = sd_event d, sse_data = join NL (sd_data d)\<rparr>], d\<lparr>sd_event := None, sd_data := []\<rparr>)
               else ([], d))
         else case strip_prefix line ''data:'' of
                Some v \<Rightarrow> ([], d\<lparr>sd_data := sd_data d @ [unwrap_or v (strip_prefix v '' '')]\<rparr>)
              | None \<Rightarrow> (case strip_prefix line ''event:'' of
                           Some v \<Rightarrow> ([], d\<lparr>sd_event := Some (trim v)\<rparr>)
                         | None \<Rightarrow> ([], d)))"

lemma sse_line_buf [simp]: "sd_buf (snd (sse_line raw d)) = sd_buf d"
  by (simp add: sse_line_def Let_def split: option.split)

definition first_line :: "string \<Rightarrow> string" where
  "first_line s = takeWhile (\<lambda>c. c \<noteq> CHR 0x0A) s @ [CHR 0x0A]"

definition after_line :: "string \<Rightarrow> string" where
  "after_line s = tl (dropWhile (\<lambda>c. c \<noteq> CHR 0x0A) s)"

lemma after_line_less: "CHR 0x0A \<in> set s \<Longrightarrow> length (after_line s) < length s"
proof -
  assume "CHR 0x0A \<in> set s"
  then have "dropWhile (\<lambda>c. c \<noteq> CHR 0x0A) s \<noteq> []" by simp
  then obtain x xs where "dropWhile (\<lambda>c. c \<noteq> CHR 0x0A) s = x # xs" by (meson neq_Nil_conv)
  then show ?thesis using length_dropWhile_le [of "\<lambda>c. c \<noteq> CHR 0x0A" s] by (simp add: after_line_def)
qed

function sse_drain :: "sse_decoder \<Rightarrow> sse_event list \<times> sse_decoder" where
  "sse_drain d =
     (if CHR 0x0A \<in> set (sd_buf d)
      then (let (e, d1) = sse_line (first_line (sd_buf d)) (d\<lparr>sd_buf := after_line (sd_buf d)\<rparr>); (es, d2) = sse_drain d1
            in (e @ es, d2))
      else ([], d))"
  by pat_completeness auto
termination
proof (relation "measure (\<lambda>d. length (sd_buf d))")
  fix d :: sse_decoder and x e d1
  assume n: "CHR 0x0A \<in> set (sd_buf d)"
    and x: "x = sse_line (first_line (sd_buf d)) (d\<lparr>sd_buf := after_line (sd_buf d)\<rparr>)" "(e, d1) = x"
  have "sd_buf d1 = after_line (sd_buf d)"
    using sse_line_buf [of "first_line (sd_buf d)" "d\<lparr>sd_buf := after_line (sd_buf d)\<rparr>"] x by (metis snd_conv sse_decoder.simps(1) sse_decoder.update_convs(1) sse_decoder.surjective)
  then show "(d1, d) \<in> measure (\<lambda>d. length (sd_buf d))" using after_line_less [OF n] by simp
qed simp

declare sse_drain.simps [simp del]

definition sse_push :: "string \<Rightarrow> sse_decoder \<Rightarrow> sse_event list \<times> sse_decoder" where
  "sse_push chunk d = sse_drain (d\<lparr>sd_buf := sd_buf d @ chunk\<rparr>)"

definition sse_finish :: "sse_decoder \<Rightarrow> sse_event list \<times> sse_decoder" where
  "sse_finish d =
     (let (a, d1) = (if sd_buf d = [] then ([], d) else sse_push NL d); (b, d2) = sse_push NL d1 in (a @ b, d2))"

text \<open>\<^verbatim>\<open>decode\<close>: the chunks that arrive, and the error the stream ends with, if any.\<close>

fun sse_decode :: "string list \<Rightarrow> string option \<Rightarrow> sse_decoder \<Rightarrow> (string + sse_event) list" where
  "sse_decode [] None d = map Inr (fst (sse_finish d))"
| "sse_decode [] (Some e) d = [Inl e]"
| "sse_decode (c # cs) broken d = (case sse_push c d of (es, d1) \<Rightarrow> map Inr es @ sse_decode cs broken d1)"

section \<open>Tool uses that arrive in pieces\<close>

record partial_tool =
  pt_id :: string
  pt_name :: string
  pt_json :: string

definition finish_tool :: "(string \<Rightarrow> json option) \<Rightarrow> partial_tool \<Rightarrow> content_block" where
  "finish_tool parse p =
     CB_ToolUse (pt_id p) (pt_name p)
       (if trim (pt_json p) = [] then JObj []
        else unwrap_or (jobj [(''_invalid_json'', JStr (pt_json p))]) (parse (pt_json p)))"

text \<open>The answer of a server: none, an error status with its text, or a stream.\<close>

datatype http_reply = HR_Failed string | HR_Status string string | HR_Stream "string list" "string option"

definition json_u64_or0 :: "json \<Rightarrow> u64" where
  "json_u64_or0 j = (case j of JNum (PosInt n) \<Rightarrow> n | _ \<Rightarrow> 0)"

definition str_or_empty :: "json \<Rightarrow> string" where
  "str_or_empty j = unwrap_or [] (json_str j)"

section \<open>Anthropic\<close>

fun role_str :: "ez_role \<Rightarrow> string" where
  "role_str Ez_User = ''user''"
| "role_str Ez_Assistant = ''assistant''"

fun block_json :: "content_block \<Rightarrow> json" where
  "block_json (CB_Thinking t s) =
     jobj [(''type'', JStr ''thinking''), (''thinking'', JStr t), (''signature'', case s of None \<Rightarrow> JNull | Some x \<Rightarrow> JStr x)]"
| "block_json (CB_RedactedThinking d) = jobj [(''type'', JStr ''redacted_thinking''), (''data'', JStr d)]"
| "block_json (CB_Text t) = jobj [(''type'', JStr ''text''), (''text'', JStr t)]"
| "block_json (CB_ToolUse i n v) = jobj [(''type'', JStr ''tool_use''), (''id'', JStr i), (''name'', JStr n), (''input'', v)]"
| "block_json (CB_ToolResult i c e) =
     jobj [(''type'', JStr ''tool_result''), (''tool_use_id'', JStr i), (''content'', JStr c), (''is_error'', JBool e)]"

definition ephemeral :: json where "ephemeral = jobj [(''type'', JStr ''ephemeral'')]"

definition cached :: "json \<Rightarrow> json" where
  "cached b = (case b of JObj m \<Rightarrow> JObj (bt_insert ''cache_control'' ephemeral m) | _ \<Rightarrow> b)"

definition map_last :: "('a \<Rightarrow> 'a) \<Rightarrow> 'a list \<Rightarrow> 'a list" where
  "map_last f xs = (if xs = [] then [] else butlast xs @ [f (last xs)])"

definition message_json :: "bool \<Rightarrow> llm_message \<Rightarrow> json" where
  "message_json is_last m =
     jobj [(''role'', JStr (role_str (lm_role m))),
           (''content'', JArr ((if is_last then map_last cached else id) (map block_json (lm_content m))))]"

text \<open>The last block of the last message and the last tool are marked for the cache.\<close>

definition anthropic_body :: "llm_request \<Rightarrow> json" where
  "anthropic_body q =
     (let ms = lq_messages q;
          messages = (if ms = [] then [] else map (message_json False) (butlast ms) @ [message_json True (last ms)]);
          tools = map_last cached
            (map (\<lambda>t. jobj [(''name'', JStr (ts_name t)), (''description'', JStr (ts_description t)), (''input_schema'', ts_schema t)])
               (lq_tools q))
      in jobj ([(''model'', JStr (lq_model q)), (''max_tokens'', JNum (PosInt (ucast (lq_max_tokens q)))), (''stream'', JBool True),
                (''messages'', JArr messages),
                (''system'', JArr [jobj [(''type'', JStr ''text''), (''text'', JStr (lq_system q)), (''cache_control'', ephemeral)]])]
               @ (if tools \<noteq> [] then [(''tools'', JArr tools)] else [])
               @ (case lq_thinking q of None \<Rightarrow> [] | Some t \<Rightarrow> [(''thinking'', t)])))"

datatype an_block = AB_Thinking string "string option" | AB_Redacted string | AB_Text string | AB_Tool partial_tool

record an_state =
  an_blocks :: "an_block list"
  an_stop :: llm_stop
  an_usage :: llm_usage
  an_events :: "stream_event list"

definition an_start :: "json \<Rightarrow> an_state \<Rightarrow> an_state" where
  "an_start cb s =
     (case json_str (json_field cb ''type'') of
        Some t \<Rightarrow>
          (if t = ''tool_use''
           then let i = str_or_empty (json_field cb ''id''); n = str_or_empty (json_field cb ''name'')
                in s\<lparr>an_events := an_events s @ [SE_ToolUseStart i n],
                     an_blocks := an_blocks s @ [AB_Tool \<lparr>pt_id = i, pt_name = n, pt_json = []\<rparr>]\<rparr>
           else if t = ''thinking'' then s\<lparr>an_blocks := an_blocks s @ [AB_Thinking [] None]\<rparr>
           else if t = ''redacted_thinking''
           then s\<lparr>an_blocks := an_blocks s @ [AB_Redacted (str_or_empty (json_field cb ''data''))]\<rparr>
           else s\<lparr>an_blocks := an_blocks s @ [AB_Text []]\<rparr>)
      | None \<Rightarrow> s\<lparr>an_blocks := an_blocks s @ [AB_Text []]\<rparr>)"

definition set_last :: "an_block \<Rightarrow> an_state \<Rightarrow> an_state" where
  "set_last b s = s\<lparr>an_blocks := butlast (an_blocks s) @ [b]\<rparr>"

definition an_delta :: "json \<Rightarrow> an_state \<Rightarrow> an_state" where
  "an_delta d s =
     (if an_blocks s = [] then s
      else case json_str (json_field d ''type'') of
             None \<Rightarrow> s
           | Some t \<Rightarrow>
               (case last (an_blocks s) of
                  AB_Text x \<Rightarrow>
                    (if t = ''text_delta''
                     then let y = str_or_empty (json_field d ''text'')
                          in (set_last (AB_Text (x @ y)) s)\<lparr>an_events := an_events s @ [SE_TextDelta y]\<rparr>
                     else s)
                | AB_Thinking x sig \<Rightarrow>
                    (if t = ''thinking_delta''
                     then let y = str_or_empty (json_field d ''thinking'')
                          in (set_last (AB_Thinking (x @ y) sig) s)\<lparr>an_events := an_events s @ [SE_ThinkingDelta y]\<rparr>
                     else if t = ''signature_delta''
                     then set_last (AB_Thinking x (Some (unwrap_or [] sig @ str_or_empty (json_field d ''signature'')))) s
                     else s)
                | AB_Tool p \<Rightarrow>
                    (if t = ''input_json_delta''
                     then set_last (AB_Tool (p\<lparr>pt_json := pt_json p @ str_or_empty (json_field d ''partial_json'')\<rparr>)) s
                     else s)
                | AB_Redacted x \<Rightarrow> s))"

definition an_stop_of :: "json \<Rightarrow> llm_stop" where
  "an_stop_of j =
     (case json_str j of
        None \<Rightarrow> LS_Other
      | Some t \<Rightarrow> (if t = ''end_turn'' \<or> t = ''stop_sequence'' then LS_EndTurn else if t = ''tool_use'' then LS_ToolUse
                   else if t = ''max_tokens'' then LS_MaxTokens else LS_Other))"

definition an_payload :: "(json \<Rightarrow> string) \<Rightarrow> json \<Rightarrow> an_state \<Rightarrow> string + an_state" where
  "an_payload pr v s =
     (let t = str_or_empty (json_field v ''type'');
          u = json_field (json_field v ''message'') ''usage''
      in if t = ''message_start''
         then Inr (s\<lparr>an_usage := (an_usage s)\<lparr>lu_input := json_u64_or0 (json_field u ''input_tokens'')
                     + json_u64_or0 (json_field u ''cache_read_input_tokens'')
                     + json_u64_or0 (json_field u ''cache_creation_input_tokens'')\<rparr>\<rparr>)
         else if t = ''content_block_start'' then Inr (an_start (json_field v ''content_block'') s)
         else if t = ''content_block_delta'' then Inr (an_delta (json_field v ''delta'') s)
         else if t = ''message_delta''
         then Inr (s\<lparr>an_stop := an_stop_of (json_field (json_field v ''delta'') ''stop_reason''),
                     an_usage := (an_usage s)\<lparr>lu_output := json_u64_or0 (json_field (json_field v ''usage'') ''output_tokens'')\<rparr>\<rparr>)
         else if t = ''error'' then Inl (''Anthropic stream error: '' @ pr (json_field v ''error''))
         else Inr s)"

fun an_stream :: "(string \<Rightarrow> json option) \<Rightarrow> (json \<Rightarrow> string) \<Rightarrow> (string + sse_event) list \<Rightarrow> an_state
    \<Rightarrow> (string + unit) \<times> an_state" where
  "an_stream parse pr [] s = (Inr (), s)"
| "an_stream parse pr (Inl e # es) s = (Inl e, s)"
| "an_stream parse pr (Inr ev # es) s =
     (if sse_data ev = [] then an_stream parse pr es s
      else case parse (sse_data ev) of
             None \<Rightarrow> (Inl (''invalid SSE payload: '' @ sse_data ev), s)
           | Some v \<Rightarrow> (case an_payload pr v s of Inl e \<Rightarrow> (Inl e, s) | Inr s' \<Rightarrow> an_stream parse pr es s'))"

definition an_content :: "(string \<Rightarrow> json option) \<Rightarrow> an_block \<Rightarrow> content_block option" where
  "an_content parse b =
     (case b of
        AB_Thinking t sig \<Rightarrow> Some (CB_Thinking t sig)
      | AB_Redacted d \<Rightarrow> Some (CB_RedactedThinking d)
      | AB_Text t \<Rightarrow> (if t = [] then None else Some (CB_Text t))
      | AB_Tool p \<Rightarrow> Some (finish_tool parse p))"

text \<open>\<^verbatim>\<open>complete\<close>: the events sent on, and the answer.\<close>

definition anthropic_complete :: "(string \<Rightarrow> json option) \<Rightarrow> (json \<Rightarrow> string) \<Rightarrow> http_reply
    \<Rightarrow> stream_event list \<times> (string + llm_response)" where
  "anthropic_complete parse pr reply =
     (case reply of
        HR_Failed e \<Rightarrow> ([], Inl (''sending request to Anthropic: '' @ e))
      | HR_Status st t \<Rightarrow> ([], Inl (''Anthropic API error '' @ st @ '': '' @ t))
      | HR_Stream cs broken \<Rightarrow>
          (case an_stream parse pr (sse_decode cs broken sse_default)
                  \<lparr>an_blocks = [], an_stop = LS_Other, an_usage = \<lparr>lu_input = 0, lu_output = 0\<rparr>, an_events = []\<rparr> of
             (Inl e, s) \<Rightarrow> (an_events s, Inl e)
           | (Inr _, s) \<Rightarrow>
               (an_events s,
                Inr \<lparr>lr_message = \<lparr>lm_role = Ez_Assistant, lm_content = List.map_filter (an_content parse) (an_blocks s)\<rparr>,
                     lr_stop = an_stop s, lr_usage = an_usage s\<rparr>)))"

section \<open>OpenAI-compatible servers\<close>

definition openai_call :: "(json \<Rightarrow> string) \<Rightarrow> string \<times> string \<times> json \<Rightarrow> json" where
  "openai_call pr u =
     (case u of (i, n, v) \<Rightarrow>
        jobj [(''id'', JStr i), (''type'', JStr ''function''),
              (''function'', jobj [(''name'', JStr n), (''arguments'', JStr (pr v))])])"

definition openai_assistant :: "(json \<Rightarrow> string) \<Rightarrow> llm_message \<Rightarrow> json" where
  "openai_assistant pr m =
     (let t = message_text m; calls = map (openai_call pr) (tool_uses m)
      in jobj ([(''role'', JStr ''assistant''), (''content'', if t = [] then JNull else JStr t)]
               @ (if calls \<noteq> [] then [(''tool_calls'', JArr calls)] else [])))"

fun openai_result :: "content_block \<Rightarrow> json option" where
  "openai_result (CB_ToolResult i c e) =
     Some (jobj [(''role'', JStr ''tool''), (''tool_call_id'', JStr i), (''content'', JStr (if e then ''ERROR: '' @ c else c))])"
| "openai_result b = None"

text \<open>The text of a user's message: its text blocks, a line feed between them once there is text.\<close>

fun openai_text :: "content_block list \<Rightarrow> string \<Rightarrow> string" where
  "openai_text [] t = t"
| "openai_text (CB_Text x # bs) t = openai_text bs ((if t \<noteq> [] then t @ NL else t) @ x)"
| "openai_text (b # bs) t = openai_text bs t"

definition openai_message :: "(json \<Rightarrow> string) \<Rightarrow> llm_message \<Rightarrow> json list" where
  "openai_message pr m =
     (case lm_role m of
        Ez_Assistant \<Rightarrow> [openai_assistant pr m]
      | Ez_User \<Rightarrow>
          (let t = openai_text (lm_content m) []
           in List.map_filter openai_result (lm_content m)
              @ (if t \<noteq> [] then [jobj [(''role'', JStr ''user''), (''content'', JStr t)]] else [])))"

definition openai_messages :: "(json \<Rightarrow> string) \<Rightarrow> llm_request \<Rightarrow> json list" where
  "openai_messages pr q =
     jobj [(''role'', JStr ''system''), (''content'', JStr (lq_system q))] # concat (map (openai_message pr) (lq_messages q))"

definition openai_body :: "(json \<Rightarrow> string) \<Rightarrow> llm_request \<Rightarrow> json" where
  "openai_body pr q =
     jobj ([(''model'', JStr (lq_model q)), (''max_tokens'', JNum (PosInt (ucast (lq_max_tokens q)))), (''stream'', JBool True),
            (''stream_options'', jobj [(''include_usage'', JBool True)]), (''messages'', JArr (openai_messages pr q))]
           @ (case lq_thinking q of None \<Rightarrow> [] | Some t \<Rightarrow> [(''reasoning_effort'', t)])
           @ (if lq_tools q \<noteq> []
              then [(''tools'', JArr (map (\<lambda>t. jobj [(''type'', JStr ''function''),
                       (''function'', jobj [(''name'', JStr (ts_name t)), (''description'', JStr (ts_description t)),
                                            (''parameters'', ts_schema t)])]) (lq_tools q)))]
              else []))"

text \<open>The tool uses in the order of their index.\<close>

type_synonym tool_map = "(u64 \<times> partial_tool) list"

definition no_tool :: partial_tool where
  "no_tool = \<lparr>pt_id = [], pt_name = [], pt_json = []\<rparr>"

fun tool_entry :: "u64 \<Rightarrow> (partial_tool \<Rightarrow> partial_tool) \<Rightarrow> tool_map \<Rightarrow> tool_map" where
  "tool_entry i f [] = [(i, f no_tool)]"
| "tool_entry i f ((j, p) # m) =
     (if i = j then (j, f p) # m else if i < j then (i, f no_tool) # (j, p) # m else (j, p) # tool_entry i f m)"

record oa_state =
  oa_text :: string
  oa_reasoning :: string
  oa_tools :: tool_map
  oa_stop :: llm_stop
  oa_usage :: llm_usage
  oa_events :: "stream_event list"

definition oa_call :: "json \<Rightarrow> oa_state \<Rightarrow> oa_state" where
  "oa_call c s =
     (let idx = json_u64_or0 (json_field c ''index'');
          fn = json_field c ''function'';
          old = unwrap_or no_tool (map_of (oa_tools s) idx);
          p1 = (case json_str (json_field c ''id'') of None \<Rightarrow> old | Some i \<Rightarrow> old\<lparr>pt_id := i\<rparr>);
          p2 = (case json_str (json_field fn ''name'') of None \<Rightarrow> p1 | Some n \<Rightarrow> p1\<lparr>pt_name := pt_name p1 @ n\<rparr>);
          p3 = (case json_str (json_field fn ''arguments'') of None \<Rightarrow> p2 | Some a \<Rightarrow> p2\<lparr>pt_json := pt_json p2 @ a\<rparr>)
      in s\<lparr>oa_tools := tool_entry idx (\<lambda>_. p3) (oa_tools s),
           oa_events := oa_events s
             @ (if json_str (json_field fn ''name'') \<noteq> None then [SE_ToolUseStart (pt_id p2) (pt_name p2)] else [])\<rparr>)"

definition oa_stop_of :: "string \<Rightarrow> llm_stop" where
  "oa_stop_of t =
     (if t = ''stop'' then LS_EndTurn else if t = ''tool_calls'' \<or> t = ''function_call'' then LS_ToolUse
      else if t = ''length'' then LS_MaxTokens else LS_Other)"

definition json_array :: "json \<Rightarrow> json list option" where
  "json_array j = (case j of JArr xs \<Rightarrow> Some xs | _ \<Rightarrow> None)"

definition non_empty :: "string option \<Rightarrow> string option" where
  "non_empty x = (case x of Some [] \<Rightarrow> None | _ \<Rightarrow> x)"

definition oa_choice :: "json \<Rightarrow> oa_state \<Rightarrow> oa_state" where
  "oa_choice choice s =
     (let d = json_field choice ''delta'';
          s1 = (case non_empty (json_str (json_field d ''content'')) of
                  None \<Rightarrow> s | Some t \<Rightarrow> s\<lparr>oa_text := oa_text s @ t, oa_events := oa_events s @ [SE_TextDelta t]\<rparr>);
          thought = (case json_str (json_field d ''reasoning_content'') of
                       Some t \<Rightarrow> Some t | None \<Rightarrow> json_str (json_field d ''reasoning''));
          s2 = (case non_empty thought of
                  None \<Rightarrow> s1
                | Some t \<Rightarrow> s1\<lparr>oa_reasoning := oa_reasoning s1 @ t, oa_events := oa_events s1 @ [SE_ThinkingDelta t]\<rparr>);
          s3 = fold oa_call (unwrap_or [] (json_array (json_field d ''tool_calls''))) s2
      in case json_str (json_field choice ''finish_reason'') of None \<Rightarrow> s3 | Some t \<Rightarrow> s3\<lparr>oa_stop := oa_stop_of t\<rparr>)"

definition oa_payload :: "json \<Rightarrow> oa_state \<Rightarrow> oa_state" where
  "oa_payload v s =
     (let u = json_field v ''usage'';
          s1 = (if u = JNull then s
                else s\<lparr>oa_usage := \<lparr>lu_input = json_u64_or0 (json_field u ''prompt_tokens''),
                                    lu_output = json_u64_or0 (json_field u ''completion_tokens'')\<rparr>\<rparr>)
      in case json_field v ''choices'' of JArr (c # cs) \<Rightarrow> oa_choice c s1 | _ \<Rightarrow> s1)"

fun oa_stream :: "(string \<Rightarrow> json option) \<Rightarrow> (string + sse_event) list \<Rightarrow> oa_state \<Rightarrow> (string + unit) \<times> oa_state" where
  "oa_stream parse [] s = (Inr (), s)"
| "oa_stream parse (Inl e # es) s = (Inl e, s)"
| "oa_stream parse (Inr ev # es) s =
     (if trim (sse_data ev) = ''[DONE]'' then (Inr (), s)
      else if sse_data ev = [] then oa_stream parse es s
      else case parse (sse_data ev) of
             None \<Rightarrow> (Inl (''invalid SSE payload: '' @ sse_data ev), s)
           | Some v \<Rightarrow> oa_stream parse es (oa_payload v s))"

definition oa_content :: "(string \<Rightarrow> json option) \<Rightarrow> oa_state \<Rightarrow> content_block list" where
  "oa_content parse s =
     (if oa_reasoning s \<noteq> [] then [CB_Thinking (oa_reasoning s) None] else [])
     @ (if oa_text s \<noteq> [] then [CB_Text (oa_text s)] else [])
     @ map (\<lambda>(i, p). finish_tool parse (if pt_id p = [] then p\<lparr>pt_id := ''call_'' @ show_nat (unat i)\<rparr> else p)) (oa_tools s)"

definition openai_complete :: "(string \<Rightarrow> json option) \<Rightarrow> http_reply \<Rightarrow> stream_event list \<times> (string + llm_response)" where
  "openai_complete parse reply =
     (case reply of
        HR_Failed e \<Rightarrow> ([], Inl (''sending request to OpenAI-compatible API: '' @ e))
      | HR_Status st t \<Rightarrow> ([], Inl (''OpenAI-compatible API error '' @ st @ '': '' @ t))
      | HR_Stream cs broken \<Rightarrow>
          (case oa_stream parse (sse_decode cs broken sse_default)
                  \<lparr>oa_text = [], oa_reasoning = [], oa_tools = [], oa_stop = LS_Other,
                   oa_usage = \<lparr>lu_input = 0, lu_output = 0\<rparr>, oa_events = []\<rparr> of
             (Inl e, s) \<Rightarrow> (oa_events s, Inl e)
           | (Inr _, s) \<Rightarrow>
               (let content = oa_content parse s
                in (oa_events s,
                    Inr \<lparr>lr_message = \<lparr>lm_role = Ez_Assistant, lm_content = content\<rparr>,
                         lr_stop = (if oa_stop s = LS_Other \<and> List.map_filter block_use content \<noteq> [] then LS_ToolUse else oa_stop s),
                         lr_usage = oa_usage s\<rparr>))))"

section \<open>Chunks do not matter\<close>

lemma line_append: "CHR 0x0A \<in> set a \<Longrightarrow> first_line (a @ b) = first_line a \<and> after_line (a @ b) = after_line a @ b"
  by (induction a) (auto simp: first_line_def after_line_def)

text \<open>What is buffered later does not change what a line does.\<close>

lemma sse_line_later: "sse_line raw (d\<lparr>sd_buf := b\<rparr>) = (fst (sse_line raw d), (snd (sse_line raw d))\<lparr>sd_buf := b\<rparr>)"
  by (simp add: sse_line_def Let_def split: option.split)

lemma sse_drain_append:
  "sse_drain (d\<lparr>sd_buf := sd_buf d @ b\<rparr>) =
     (let (es, d1) = sse_drain d; (fs, d2) = sse_drain (d1\<lparr>sd_buf := sd_buf d1 @ b\<rparr>) in (es @ fs, d2))"
proof (induction d rule: sse_drain.induct)
  case (1 d)
  show ?case
  proof (cases "CHR 0x0A \<in> set (sd_buf d)")
    case True
    let ?l = "first_line (sd_buf d)" and ?a = "after_line (sd_buf d)"
    obtain e d1 where l: "sse_line ?l (d\<lparr>sd_buf := ?a\<rparr>) = (e, d1)" by fastforce
    have b: "sd_buf d1 = ?a" using sse_line_buf [of ?l "d\<lparr>sd_buf := ?a\<rparr>"] l by simp
    have l': "sse_line ?l (d\<lparr>sd_buf := ?a @ b\<rparr>) = (e, d1\<lparr>sd_buf := sd_buf d1 @ b\<rparr>)"
      using sse_line_later [of ?l "?a @ b" "d\<lparr>sd_buf := ?a\<rparr>"] l b by simp
    have n: "CHR 0x0A \<in> set (sd_buf (d\<lparr>sd_buf := sd_buf d @ b\<rparr>))" using True by simp
    note ih = "1.IH" [OF True l [symmetric] refl]
    show ?thesis using True n line_append [OF True, of b] l l' ih
      by (subst sse_drain.simps, subst (2) sse_drain.simps) (simp add: case_prod_beta Let_def)
  next
    case False
    then have "sse_drain d = ([], d)" by (subst sse_drain.simps) simp
    then show ?thesis by simp
  qed
qed

lemma sse_push_append:
  "sse_push (a @ b) d = (let (es, d1) = sse_push a d; (fs, d2) = sse_push b d1 in (es @ fs, d2))"
  using sse_drain_append [of "d\<lparr>sd_buf := sd_buf d @ a\<rparr>" b] by (simp add: sse_push_def case_prod_beta Let_def)

end
