(* ===== verification/Ez_Models.thy ===== *)
theory Ez_Models
  imports Ez_Props Ez_Llm
begin

text \<open>
  The agent and its model clients together: what the agent sends is in an order the OpenAI interface accepts, and what either client
  returns is what the agent relies on.
\<close>

section \<open>Streams\<close>

lemma drained: "CHR 0x0A \<notin> set (sd_buf (snd (sse_drain d)))"
proof (induction d rule: sse_drain.induct)
  case (1 d)
  show ?case
  proof (cases "CHR 0x0A \<in> set (sd_buf d)")
    case True
    obtain e d1 where l: "sse_line (first_line (sd_buf d)) (d\<lparr>sd_buf := after_line (sd_buf d)\<rparr>) = (e, d1)" by fastforce
    show ?thesis using "1.IH" [OF True l [symmetric] refl] True l by (subst sse_drain.simps) (simp add: case_prod_beta)
  qed (subst sse_drain.simps, simp)
qed

lemma decode_concat:
  "CHR 0x0A \<notin> set (sd_buf d) \<Longrightarrow>
     sse_decode cs broken d = (case sse_push (concat cs) d of (es, d1) \<Rightarrow> map Inr es @ sse_decode [] broken d1)"
proof (induction cs arbitrary: d)
  case Nil
  then have "sse_push [] d = ([], d)" unfolding sse_push_def by (subst sse_drain.simps) simp
  then show ?case by simp
next
  case (Cons c cs)
  obtain es d1 where p: "sse_push c d = (es, d1)" by fastforce
  have "CHR 0x0A \<notin> set (sd_buf d1)" using drained p by (metis sse_push_def snd_conv)
  then show ?case using Cons.IH [of d1] p by (simp add: sse_push_append case_prod_beta Let_def)
qed

text \<open>The events the client reads from a server do not depend on how the bytes of the stream are cut into chunks, also when the
  stream breaks off.\<close>

theorem ez_sse_chunks: "sse_decode cs broken sse_default = sse_decode [concat cs] broken sse_default"
proof -
  have "CHR 0x0A \<notin> set (sd_buf sse_default)" by (simp add: sse_default_def)
  then show ?thesis using decode_concat [of sse_default cs broken] by simp
qed

text \<open>Text that is valid is read as it is.\<close>

lemma lossy_valid: "utf8_valid bs \<Longrightarrow> utf8_lossy bs = bs"
proof (induction bs rule: utf8_valid.induct)
  case (2 x r)
  show ?case
  proof (cases "x < 0x80")
    case False
    then obtain y r1 where r: "r = y # r1" using 2(5) by (cases r) auto
    show ?thesis
    proof (cases "utf8_two x y")
      case two: False
      then obtain z r2 where r1: "r1 = z # r2" using 2(5) False r by (cases r1) auto
      show ?thesis
      proof (cases "utf8_three x y z")
        case True
        then have "utf8_three x y 0x80" by (auto simp: utf8_three_def utf8_cont_def)
        then show ?thesis using 2(3) [OF False r two r1 True] 2(5) False two True r r1 by simp
      next
        case three: False
        then obtain u r3 where r2: "r2 = u # r3" "utf8_four x y z u" using 2(5) False two r r1 by (cases r2) auto
        then have "utf8_four x y z 0x80" "utf8_four x y 0x80 0x80" by (auto simp: utf8_four_def utf8_cont_def)
        then show ?thesis using 2(4) [OF False r two r1 three r2(1)] 2(5) False two three r r1 r2 by simp
      qed
    qed (use 2(2) [OF False r] 2(5) False r in simp)
  qed (use 2(1,5) in simp)
qed simp

section \<open>What clients return\<close>

lemma finish_tool_result [simp]: "block_result (finish_tool parse p) = None"
  by (simp add: finish_tool_def)

text \<open>An answer of either client is a message of the assistant without tool results, whatever the server sends.\<close>

lemma clients_answer:
  assumes "anthropic_complete parse pr reply = (evs, Inr r) \<or> openai_complete parse reply = (evs, Inr r)"
  shows "lm_role (lr_message r) = Ez_Assistant \<and> result_ids (lr_message r) = []"
  using assms
proof
  assume "anthropic_complete parse pr reply = (evs, Inr r)"
  then obtain bs where "lr_message r = \<lparr>lm_role = Ez_Assistant, lm_content = List.map_filter (an_content parse) bs\<rparr>"
    by (auto simp: anthropic_complete_def split: http_reply.splits prod.splits sum.splits)
  moreover have "an_content parse b = Some c \<Longrightarrow> block_result c = None" for b c
    by (auto simp: an_content_def split: an_block.splits if_splits)
  then have "List.map_filter block_result (List.map_filter (an_content parse) bs) = []"
    by (intro map_filter_none) (auto simp: List.map_filter_def)
  ultimately show ?thesis by (simp add: result_ids_def)
next
  assume "openai_complete parse reply = (evs, Inr r)"
  then obtain s where "lr_message r = \<lparr>lm_role = Ez_Assistant, lm_content = oa_content parse s\<rparr>"
    by (auto simp: openai_complete_def Let_def split: http_reply.splits prod.splits sum.splits)
  moreover have "List.map_filter block_result (oa_content parse s) = []"
    by (intro map_filter_none) (auto simp: oa_content_def split: if_splits)
  ultimately show ?thesis by (simp add: result_ids_def)
qed

section \<open>What servers get\<close>

text \<open>The order the OpenAI interface asks for: the results of the calls of an assistant's message, in order, before any other
  message.\<close>

definition oa_next :: "json \<Rightarrow> string list option \<Rightarrow> string list option" where
  "oa_next j st =
     (let role = str_or_empty (json_field j ''role'')
      in if role = ''tool''
         then (case st of Some (i # ids) \<Rightarrow> if json_field j ''tool_call_id'' = JStr i then Some ids else None | _ \<Rightarrow> None)
         else if st \<noteq> Some [] then None
         else if role = ''assistant''
         then Some (map (\<lambda>c. str_or_empty (json_field c ''id'')) (unwrap_or [] (json_array (json_field j ''tool_calls''))))
         else st)"

lemma field_jobj: "json_field (jobj kvs) k = (case map_of (rev kvs) k of None \<Rightarrow> JNull | Some v \<Rightarrow> v)"
  using jget_jobj [of k kvs] by (simp add: json_field_def jobj_def)

lemma oa_results:
  "fold oa_next (List.map_filter openai_result bs) (Some (List.map_filter block_result bs @ ids)) = Some ids"
proof (induction bs)
  case (Cons b bs)
  then show ?case
    by (cases b) (simp_all add: List.map_filter_simps oa_next_def Let_def field_jobj str_or_empty_def json_str_def unwrap_or_def)
qed (simp add: List.map_filter_simps)

lemma oa_message:
  assumes "conv_step m (Some ids) = Some ids'"
  shows "fold oa_next (openai_message pr m) (Some ids) = Some ids'"
proof (cases "lm_role m")
  case Ez_User
  then have "List.map_filter block_result (lm_content m) = ids" "ids' = []"
    using assms by (auto simp: conv_step_Some result_ids_def use_ids_def)
  then have "fold oa_next (List.map_filter openai_result (lm_content m)) (Some ids) = Some []"
    using oa_results [of "lm_content m" "[]"] by simp
  then show ?thesis using Ez_User \<open>ids' = []\<close>
    by (simp add: openai_message_def Let_def oa_next_def field_jobj str_or_empty_def json_str_def unwrap_or_def)
next
  case Ez_Assistant
  then have "ids = []" "ids' = map fst (tool_uses m)" using assms by (auto simp: conv_step_Some use_ids_def)
  moreover have "str_or_empty (json_field (openai_call pr u) ''id'') = fst u" for u
    by (cases u) (simp add: openai_call_def field_jobj str_or_empty_def json_str_def unwrap_or_def)
  ultimately show ?thesis using Ez_Assistant
    by (simp add: openai_message_def openai_assistant_def Let_def oa_next_def field_jobj str_or_empty_def json_str_def
        unwrap_or_def json_array_def comp_def)
qed

lemma oa_conv:
  "fold conv_step ms (Some ids) = Some ids' \<Longrightarrow> fold oa_next (concat (map (openai_message pr) ms)) (Some ids) = Some ids'"
proof (induction ms arbitrary: ids)
  case (Cons m ms)
  have "fold conv_step ms None = None" by (induction ms) (simp_all add: conv_step_def)
  then obtain ids1 where "conv_step m (Some ids) = Some ids1" "fold conv_step ms (Some ids1) = Some ids'"
    using Cons.prems by (cases "conv_step m (Some ids)") auto
  then show ?case using Cons.IH oa_message by simp
qed simp

text \<open>A request in the order the agent keeps is, as the client prints it, in that order too.\<close>

lemma openai_order:
  assumes "provider_accepts (lq_messages q)"
  shows "fold oa_next (openai_messages pr q) (Some []) = Some []"
proof -
  have "fold conv_step (lq_messages q) (Some []) = Some []" using assms by (simp add: provider_accepts_def conv_def)
  then have "fold oa_next (concat (map (openai_message pr) (lq_messages q))) (Some []) = Some []" by (rule oa_conv)
  then show ?thesis
    by (simp add: openai_messages_def oa_next_def field_jobj str_or_empty_def json_str_def unwrap_or_def)
qed

section \<open>Sessions with these clients\<close>

text \<open>The model of a session is reached through one of the clients, unless the request is cancelled.\<close>

definition served :: "ez_env \<Rightarrow> bool" where
  "served env \<longleftrightarrow>
     (\<forall>n q. snd (ae_complete env n q) = None
        \<or> (\<exists>parse pr reply.
             ae_complete env n q = map_prod id Some (anthropic_complete parse pr reply)
             \<or> ae_complete env n q = map_prod id Some (openai_complete parse reply)))"

lemma served_ok:
  assumes "served env" "\<And>n m. ae_pending_mode env n = Some m \<Longrightarrow> mode_get ms m \<noteq> None"
  shows "env_ok env ms"
  unfolding env_ok_def
proof (intro conjI allI impI)
  fix n q evs r
  assume c: "ae_complete env n q = (evs, Some (Inr r))"
  then obtain parse pr reply where "(evs, Some (Inr r)) = map_prod id Some (anthropic_complete parse pr reply)
      \<or> (evs, Some (Inr r)) = map_prod id Some (openai_complete parse reply)"
    using assms(1) unfolding served_def by (metis option.distinct(1) snd_conv)
  then have "anthropic_complete parse pr reply = (evs, Inr r) \<or> openai_complete parse reply = (evs, Inr r)"
    by (cases "anthropic_complete parse pr reply"; cases "openai_complete parse reply") auto
  then show "lm_role (lr_message r) = Ez_Assistant" "result_ids (lr_message r) = []" using clients_answer by blast+
qed (use assms(2) in auto)

text \<open>C25: whatever servers answer, users decide and other tasks request, every request of a session is, as the OpenAI client prints
  it, in the order that interface asks for: after a message of the assistant with tool calls come the results of these calls, in order,
  and only then anything else. This is the agent, its clients and the registry of sessions together.\<close>

theorem ez_requests_reach_openai_in_order:
  assumes "build_state i cwd config modes po mode extra tasks = Inr s" "new_session env created v s = Inr w"
    and "served env" "\<And>n m. ae_pending_mode env n = Some m \<Longrightarrow> m \<in> set (mode_ids (es_modes s))"
  shows "list_all (\<lambda>q. fold oa_next (openai_messages pr q) (Some []) = Some []) (ew_requests (session_ops env ops w))"
proof -
  have "env_ok env (es_modes s)" using served_ok assms(3,4) mode_get_ids by blast
  then have "healthy env [] (session_ops env ops w)" using ht.ops_keep opened(1) [OF assms(1,2)] by blast
  then show ?thesis using openai_order by (auto simp: healthy_def list_all_iff)
qed

definition demo_served :: ez_env where
  "demo_served = demo_env\<lparr>ae_complete := \<lambda>n q. map_prod id Some (anthropic_complete (\<lambda>t. None) (\<lambda>j. []) (HR_Stream [] None))\<rparr>"

lemma ez_requests_reach_openai_in_order_witness:
  "list_all (\<lambda>q. fold oa_next (openai_messages (\<lambda>j. []) q) (Some []) = Some [])
     (ew_requests (session_ops demo_served [Op_Prompt ''hi''] demo_world))"
proof (rule ez_requests_reach_openai_in_order [OF demo_built])
  have f: "ae_trans demo_served = ae_trans demo_env" "ae_persist demo_served = ae_persist demo_env"
    "ae_model_override demo_served = ae_model_override demo_env" by (simp_all add: demo_served_def)
  have "new_session demo_served [] ''1'' demo_session = new_session demo_env [] ''1'' demo_session"
    unfolding new_session_def model_for_def f by (rule refl)
  then show "new_session demo_served [] ''1'' demo_session = Inr demo_world" by (simp add: demo_opened)
  show "served demo_served" unfolding served_def demo_served_def by (simp, blast)
  fix n m
  assume "ae_pending_mode demo_served n = Some m"
  then show "m \<in> set (mode_ids (es_modes demo_session))" by (simp add: demo_served_def demo_env_def)
qed

end
