(* ===== verification/Spec2Isabelle.thy ===== *)
theory Spec2Isabelle
  imports Delivery Session_Props Wf_Dry_Run Wf_Validate_Props Wf_Glob Relay_Props Reconcile_Props Chat_Props Capture Step_Machine Prune_Props Ez_Bound Ez_Models
begin

text \<open>
  \<^bold>\<open>A verification of enzarb\<close>

  enzarb runs coding agents in sandboxes. Its Rust parts are: the mux protocol and session runtime that
  browser, proxy and sandbox share (\<^verbatim>\<open>proto/crates/enzarb-proto\<close>); the sandbox proxy that stands
  between browsers and sandboxes (\<^verbatim>\<open>sandbox-proxy\<close>); the pid 1 of a sandbox with its chat relay
  (\<^verbatim>\<open>sandbox-container\<close>); the Kubernetes operator that turns a Project into a sandbox
  (\<^verbatim>\<open>operator\<close>); the agent \<^verbatim>\<open>ez\<close> with its workflow language (\<^verbatim>\<open>ez/crates\<close>); and services around
  them (\<^verbatim>\<open>tracks\<close>, \<^verbatim>\<open>realtime\<close>, \<^verbatim>\<open>updater\<close>, \<^verbatim>\<open>connectors\<close>). A browser speaks the mux protocol to the
  proxy, the proxy relays what its guard lets through to the sandbox, the sandbox runs a chat agent behind
  the chat filter, and the operator keeps the objects of the sandbox in the cluster.

  \<^bold>\<open>The mux protocol and the session runtime\<close> (\<^verbatim>\<open>proto/crates/enzarb-proto/src\<close>)

  \<^item> \<open>Frame\<close> is \<^verbatim>\<open>frame.rs\<close>: the record \<open>frame\<close>, the validator, the encoder and the message and
    stream decoders. Encoding and decoding are inverse and the decoder accepts nothing else; the stream
    decoder does not depend on how the bytes are cut into chunks. The latter is proved once for any codec
    in the locale \<open>stream_codec\<close> (\<open>Codec_Interface\<close>).
  \<^item> \<open>Flow\<close> is \<^verbatim>\<open>flow.rs\<close> on 32-bit and 64-bit words. It implements the locale \<open>credit_receiver\<close>
    (\<open>Credit_Interface\<close>): credit, unreleased bytes and the window always add up.
  \<^item> \<open>Errors\<close> and \<open>Channel\<close> are \<^verbatim>\<open>session/error.rs\<close> and \<^verbatim>\<open>session/channel.rs\<close>. The record
    \<open>chan\<close> is the state behind the mutex of a channel; an operation that can wait returns \<open>Pending\<close> and
    registers the number of the waiting task (the waker), and effects name the tasks woken.
  \<^item> \<open>Link\<close> and \<open>Delivery\<close> put two channels at the ends of two ordered streams of bytes. However the
    users of the two ends write, read, drop and close, no endpoint ever causes a flow-control violation, nothing
    deadlocks, and the bytes read are the bytes written in order.
  \<^item> \<open>Json\<close>, \<open>Step\<close>, \<open>Ctrl\<close> and \<open>Handshake\<close> are \<^verbatim>\<open>step.rs\<close>, \<^verbatim>\<open>ctrl.rs\<close>, the version negotiation
    of \<^verbatim>\<open>lib.rs\<close> and \<^verbatim>\<open>session/handshake.rs\<close>. A websocket is the list of the messages it will return.
  \<^item> \<open>Session_State\<close> and \<open>Session\<close> are \<^verbatim>\<open>session/core.rs\<close>: the record \<open>sess\<close> is what the mutex of a
    session guards (an \<^verbatim>\<open>Arc\<close> of a channel is an index into its heap, a one-shot channel a number); the
    reader turn, the writer turn and every call of the API is one function, and an asynchronous call is split at its
    await. \<open>Session_Machine\<close> proves the invariant of the step relation \<open>sess_step\<close> and interprets the
    locale \<open>machine\<close> (\<open>Machine_Interface\<close>); \<open>Session_Props\<close> has the properties: every request is
    answered once, the channel table is sound, channels are isolated, ids are fresh across the wrap-around.

  \<^bold>\<open>The workflow language\<close> (\<^verbatim>\<open>ez/crates/ez-workflow/src\<close>)

  \<^item> \<open>Workflow\<close>, \<open>Wf_Expr\<close>, \<open>Wf_Event\<close>, \<open>Wf_Run\<close>, \<open>Wf_Validate\<close> and \<open>Wf_Dry_Run\<close> are
    \<^verbatim>\<open>schema.rs\<close>, \<^verbatim>\<open>expr.rs\<close>, \<^verbatim>\<open>event.rs\<close>, \<^verbatim>\<open>run.rs\<close>, \<^verbatim>\<open>validate.rs\<close> and \<^verbatim>\<open>dry_run.rs\<close>. The libraries
    (MiniJinja, regular expressions, durations, TOML) are one record of functions \<open>libs\<close>, an argument of
    what uses them. \<open>Std_Text\<close> has the string functions and the insertion-ordered maps of the crate.
  \<^item> \<open>Wf_Run_Props\<close>: a run that has not ended can be rendered and advanced, and it ends after as many
    steps as the visit limits of its nodes add up to (locale \<open>bounded_machine\<close>). \<open>Wf_Validate_Props\<close>: the
    reachability checks are exact, and a run of a file without errors can only end at an end node, at a
    failed condition or at a visit limit. \<open>Wf_Glob\<close>: the greedy pattern search accepts exactly the language of
    the pattern. \<open>Wf_Expr\<close>: what a shell template inserts is inert for a POSIX shell. \<open>Wf_Dry_Run\<close>: a dry run returns
    for every file, without a panic; its walk has the step limit of the code.

  \<^bold>\<open>The proxy\<close> (\<^verbatim>\<open>sandbox-proxy/src\<close>)

  \<^item> \<open>Guard\<close> is \<^verbatim>\<open>guard.rs\<close> with the claims of \<^verbatim>\<open>auth.rs\<close> and the owner watch of \<^verbatim>\<open>resolver.rs\<close>; \<open>Relay\<close> is
    \<^verbatim>\<open>relay.rs\<close>: the two directions and the watch are the steps of one relation, a step per turn of a
    \<^verbatim>\<open>select!\<close>, and the lookup of a credential is split from the frame that needs it.
  \<^item> \<open>Relay_Props\<close>: whatever either side sends, the sandbox gets only well-formed frames a browser
    may send, a chat only with a token of the authorised owner; a captured credential never reaches the browser; the slot for one chat
    refines the set of live chats.

  \<^bold>\<open>The chat filter\<close> (\<^verbatim>\<open>sandbox-container/src/chat/filter.rs\<close>)

  \<^item> \<open>Chat_Redact\<close> is the redaction and \<open>Chat_Filter\<close> the filter: \<open>chat_filter\<close> is the struct, \<open>from_browser\<close> and
    \<open>from_agent\<close> its two entry points, the arms of the long matches are definitions of their own.
  \<^item> \<open>Chat_Props\<close>: only rebuilt messages reach the agent, never a mode that is not allowed; every request of the
    agent is answered exactly once; a chat has at most one session; tables are bounded; handling a line
    ends. The loop that looks for an unused id has as fuel one more than the ids in use, and
    it always returns within it. \<open>Chat_Redact\<close>: no string of a redacted value contains a configured secret.

  \<^bold>\<open>The sandbox\<close> (\<^verbatim>\<open>sandbox-container/src\<close>)

  \<^item> \<open>Capture\<close> is \<^verbatim>\<open>capture.rs\<close>: the stripper of terminal escapes, the scanner and the observer that find the
    token Claude Code prints, and the promotion of a stored token. A token printed after text without its prefix is captured whole, however
    the output is cut and wrapped.
  \<^item> \<open>Step_Env\<close> (\<^verbatim>\<open>steps/environment.rs\<close>), \<open>Net_Git\<close> (\<^verbatim>\<open>netgit.rs\<close>, \<^verbatim>\<open>repos.rs\<close>) and \<open>Step_Check\<close> (the checks and
    secrets of \<^verbatim>\<open>steps/mod.rs\<close>, the names of \<^verbatim>\<open>steps/git.rs\<close>, \<^verbatim>\<open>token_forms\<close>): an environment failure needs its
    evidence; git reads exactly the listed configuration; the paths of an accepted step stay inside their directories.
  \<^item> \<open>Step_Runs\<close> is the step executor of \<^verbatim>\<open>steps/mod.rs\<close>: the record \<open>manager\<close> holds the runs, their directories
    and the workers; every handler is one function, what a worker does to its run another. \<open>Step_Props\<close> and
    \<open>Step_Machine\<close> have the step relation, with restarts of the sandbox, and its invariant: event logs are dense, a run has one
    worker, secrets are neither stored nor sent; a subscriber sees every event once; an interrupted step resumes.
  \<^item> \<open>Prune\<close> is \<^verbatim>\<open>workspace_prune.rs\<close> with the space check of \<^verbatim>\<open>docker_prune.rs\<close>, over a tree of files.
    \<open>Prune_Props\<close>: a pass keeps the work of running and resumable tasks, files outside of repositories and repositories with
    unpushed work, and stays inside its directories. The locale \<open>registry\<close> is what it relies on of the step executor.

  \<^bold>\<open>The agent ez\<close> (\<^verbatim>\<open>ez/crates/ez-core/src\<close> and the crates it uses)

  \<^item> \<open>Ez_Base\<close> has messages (\<^verbatim>\<open>ez-llm/src/lib.rs\<close>), the interface of tools (\<^verbatim>\<open>ez-tools/src/lib.rs\<close>), hooks
    (\<^verbatim>\<open>ez-hooks/src/lib.rs\<close>), \<^verbatim>\<open>permissions.rs\<close>, \<^verbatim>\<open>modes.rs\<close> and the structures of \<^verbatim>\<open>config.rs\<close>; \<open>Ez_Transcript\<close> is
    \<^verbatim>\<open>transcript.rs\<close>, with writes that fail or break off.
  \<^item> \<open>Ez_Agent\<close> is \<^verbatim>\<open>agent.rs\<close>: the record \<open>ez_session\<close> is \<^verbatim>\<open>SessionState\<close>; \<open>ez_world\<close> adds what the session has sent,
    asked, run and written, and counts the queries to the surroundings, which are the functions of \<open>ez_env\<close>. \<open>ez_prompt\<close> is
    \<^verbatim>\<open>prompt\<close> with both drivers; the loop over the requests recurses on the number the configuration allows, that of the
    fix turns of Claude Code has a measure. \<open>Ez_Desk\<close> is the registry of sessions (\<^verbatim>\<open>Agent\<close>), whose steps interleave.
  \<^item> \<open>Ez_Quiet\<close> and \<open>Ez_Talk\<close> are the interfaces of the proofs: the locale \<open>quiet_invariant\<close> asks of a predicate that the small
    steps keep it and gives it for every operation that leaves the conversation alone; \<open>turn_taking\<close> and
    \<open>talk\<close> do so for an assertion about the tool uses left to answer and a whole prompt. They are interpreted for the conversation,
    the permissions, the transcript and the number of requests.
  \<^item> \<open>Ez_Props\<close> and \<open>Ez_Bound\<close>: every request is one a provider accepts, whatever is cancelled, fails or is compacted; every
    tool call was permitted; a transcript reads back as the session, and a cut-off one can be resumed; a prompt sends a
    bounded number of requests. Hypotheses are that a mode other tasks ask for is one the session knows (\<open>Ez_Desk\<close> shows
    that of a registered session; registering an id anew while a prompt of it runs is outside) and that a model answers as itself.
  \<^item> \<open>Ez_Llm\<close> is the model clients (\<^verbatim>\<open>sse.rs\<close>, \<^verbatim>\<open>anthropic.rs\<close>, \<^verbatim>\<open>openai.rs\<close> of \<^verbatim>\<open>ez-llm/src\<close>) over the answer of a
    server. \<open>Ez_Models\<close>: events do not depend on how a stream is cut into chunks; an answer of either client is one of the assistant
    without tool results, which discharges the hypothesis about models; every request is in the order the OpenAI interface asks for.

  \<^bold>\<open>The operator\<close> (\<^verbatim>\<open>operator/crates\<close>)

  \<^item> \<open>Std_Data\<close> (decimal numbers, ordered maps, JSON accessors), \<open>Project\<close> (\<^verbatim>\<open>enzarb-crds/src/project.rs\<close>,
    \<^verbatim>\<open>repo.rs\<close>), \<open>Desired\<close> (\<^verbatim>\<open>docker.rs\<close>, \<^verbatim>\<open>desired.rs\<close>), \<open>Roll\<close> (\<^verbatim>\<open>quantity.rs\<close>, \<^verbatim>\<open>roll.rs\<close>),
    \<open>Conditions\<close> (\<^verbatim>\<open>conditions.rs\<close>) and \<open>Reconcile\<close> (\<^verbatim>\<open>reconcile.rs\<close>). A pass is a function of the Project and
    of the record \<open>cluster\<close> of the answers the API server gives in it, and it logs its requests.
  \<^item> \<open>Roll_Props\<close>, \<open>Project_Props\<close> (locale \<open>precedence\<close>), \<open>Desired_Props\<close> and \<open>Reconcile_Props\<close> (locale
    \<open>drive_invariant\<close>): a pod is deleted only when a roll is released and the drain timeout forces one; two
    Projects never both keep a repository; names fit and do not clash; a pass touches only objects that are absent or its
    own, advertises a sandbox only after every ownership check, and its status patch
    makes the stored status the computed one.

  \<^bold>\<open>Conventions\<close>

  A Rust string is the list of its UTF-8 bytes; \<open>Prelude\<close> says which are valid. Integers whose overflow
  matters are words or integers with the bound written out. An error is a value of a sum type, a panic a
  constructor of the result. A handler that runs under one lock is one atomic function; where code awaits, it
  is split there. Code outside the repository is a parameter: the JSON codec (\<open>ser\<close>, \<open>de\<close>, \<open>parse\<close>, \<open>pr\<close>), the
  lenient reading of a message type, the JWT library, time stamps (the record \<open>jiff\<close> with its laws
  \<open>jiff_ok\<close>), printing and lower-casing, the API server. What a theorem needs of such code is one of its
  hypotheses, and its witness instantiates it. Loops that are not structural have a measure; the loops with fuel are
  the search for a channel id (the 1024 tries of the code), the walk of a dry run (its step limit) and the search
  for an id of the chat filter.

  \<^bold>\<open>Not modelled\<close>

  Dialling websockets and the in-memory test double; the serialisation of messages, TOML and YAML
  (derived or third-party code); of \<^verbatim>\<open>ez\<close> the bodies of its tools, HTTP, the scripted model, the MCP and mise clients, the Claude Code adapter, the layers of
  its configuration, its setup and its user interfaces; the HTTP and database services \<^verbatim>\<open>tracks\<close>, \<^verbatim>\<open>realtime\<close>,
  \<^verbatim>\<open>updater\<close> and \<^verbatim>\<open>connectors\<close>; processes, ptys, Docker and the git commands of a step in the sandbox; the driver around the
  chat filter (\<^verbatim>\<open>chat.rs\<close>); leader election and start-up of the operator; \<^verbatim>\<open>parse_cidrs\<close>; generated Kubernetes
  types; the web user interface. These are mostly input and output around third-party code, whose model would be made up of
  parameters.

  \<^bold>\<open>What would come next\<close>

  The driver of the chat filter with its registry and transcript, the event router of \<^verbatim>\<open>tracks\<close>, the file tools of
  \<^verbatim>\<open>ez-tools\<close> and the merging of its configuration.
\<close>

end
